(* ===== verification/Prelude.thy ===== *)
theory Prelude
  imports Complex_Main "HOL-Library.AList" "HOL-Library.Log_Nat"
begin

text \<open>
  Shared vocabulary of the development: what a Python call can end with, insertion-ordered
  dictionaries, the clock and freshness test every component uses, and the collections of rules
  that the component theories extend and hand to the simplifier.
\<close>

named_theorems py_simps \<open>evaluation rules of the Python value layer\<close>
named_theorems inv_intros \<open>preservation rules of component invariants\<close>
named_theorems dbus_simps \<open>reads of a D-Bus path after a sequence of writes\<close>

section \<open>Exceptions as values\<close>

text \<open>
  One constructor per exception class the modelled code raises or distinguishes in an
  \<^verbatim>\<open>except\<close> clause. \<open>HttpStatus n\<close> is a response exception with that status code.
\<close>

datatype pyexc =
    TypeError
  | ValueError
  | KeyError
  | IndexError
  | AttributeError
  | OverflowError
  | RuntimeError
  | OSError
  | TimeoutError
  | FileExistsError
  | HttpStatus int
  | AuthError
  | OtherError

type_synonym 'a res = "pyexc + 'a"

definition rbind :: "'a res \<Rightarrow> ('a \<Rightarrow> 'b res) \<Rightarrow> 'b res" where
  "rbind m f = (case m of Inl e \<Rightarrow> Inl e | Inr a \<Rightarrow> f a)"

definition rcatch :: "'a res \<Rightarrow> pyexc list \<Rightarrow> 'a res \<Rightarrow> 'a res" where
  "rcatch m es h = (case m of Inl e \<Rightarrow> if e \<in> set es then h else Inl e | Inr a \<Rightarrow> Inr a)"

fun is_ok :: "'a res \<Rightarrow> bool" where
  "is_ok (Inl _) = False"
| "is_ok (Inr _) = True"

lemma rbind_simps [simp, py_simps]:
  "rbind (Inl e) f = Inl e"
  "rbind (Inr a) f = f a"
  by (simp_all add: rbind_def)

lemma rbind_Inr_iff: "rbind m f = Inr b \<longleftrightarrow> (\<exists>a. m = Inr a \<and> f a = Inr b)"
  by (cases m) auto

lemma rbind_Inl_iff: "rbind m f = Inl e \<longleftrightarrow> m = Inl e \<or> (\<exists>a. m = Inr a \<and> f a = Inl e)"
  by (cases m) auto

lemma rcatch_simps [simp, py_simps]:
  "rcatch (Inr a) es h = Inr a"
  "e \<in> set es \<Longrightarrow> rcatch (Inl e) es h = h"
  "e \<notin> set es \<Longrightarrow> rcatch (Inl e) es h = Inl e"
  by (simp_all add: rcatch_def)

lemma is_ok_iff: "is_ok m \<longleftrightarrow> (\<exists>a. m = Inr a)"
  by (cases m) auto

section \<open>Insertion-ordered dictionaries\<close>

text \<open>
  A Python \<^verbatim>\<open>dict\<close> keeps the position of a key that is stored again and appends a new one:
  exactly \<open>AList.update\<close>. Iteration order matters where the code loops over a payload.
\<close>

type_synonym ('k, 'v) dict = "('k \<times> 'v) list"

abbreviation dlookup :: "('k, 'v) dict \<Rightarrow> 'k \<Rightarrow> 'v option" where
  "dlookup d k \<equiv> map_of d k"

definition dset :: "'k \<Rightarrow> 'v \<Rightarrow> ('k, 'v) dict \<Rightarrow> ('k, 'v) dict" where
  "dset k v d = AList.update k v d"

fun dupdate :: "('k, 'v) dict \<Rightarrow> ('k, 'v) dict \<Rightarrow> ('k, 'v) dict" where
  "dupdate d [] = d"
| "dupdate d ((k, v) # kvs) = dupdate (dset k v d) kvs"

lemma dlookup_dset [simp]: "dlookup (dset k v d) k' = (if k' = k then Some v else dlookup d k')"
  by (simp add: dset_def update_conv')

lemma dset_keys: "fst ` set (dset k v d) = insert k (fst ` set d)"
  by (induction d) (auto simp: dset_def)

lemma distinct_dset: "distinct (map fst d) \<Longrightarrow> distinct (map fst (dset k v d))"
  by (simp add: dset_def distinct_update)

lemma distinct_dupdate: "distinct (map fst d) \<Longrightarrow> distinct (map fst (dupdate d kvs))"
  by (induction d kvs rule: dupdate.induct) (simp_all add: distinct_dset)

lemma dlookup_dupdate:
  "distinct (map fst kvs) \<Longrightarrow>
    dlookup (dupdate d kvs) k = (case map_of kvs k of Some v \<Rightarrow> Some v | None \<Rightarrow> dlookup d k)"
proof (induction d kvs rule: dupdate.induct)
  case (1 d)
  then show ?case by simp
next
  case (2 d k' v kvs)
  from 2(2) have fresh: "map_of kvs k' = None"
    by (simp add: map_of_eq_None_iff)
  from 2 have "dlookup (dupdate d ((k', v) # kvs)) k =
      (case map_of kvs k of Some w \<Rightarrow> Some w | None \<Rightarrow> dlookup (dset k' v d) k)"
    by simp
  with fresh show ?case by (auto split: option.splits)
qed

lemma map_of_tabulate: "k \<in> set ks \<Longrightarrow> map_of (map (\<lambda>k. (k, f k)) ks) k = Some (f k)"
  by (induction ks) auto

section \<open>Clocks and freshness\<close>

text \<open>
  \<^verbatim>\<open>time.monotonic()\<close> and \<^verbatim>\<open>time.time()\<close> return float seconds; the model uses exact
  rationals for them, so the rounding of sums and differences of clock readings is not modelled.
  Every operation takes the readings it makes as arguments.
\<close>

type_synonym time = rat

text \<open>The test \<^verbatim>\<open>stamp is not None and 0 <= now - stamp < ttl\<close>, which recurs in the code.\<close>

definition fresh :: "time \<Rightarrow> time \<Rightarrow> time option \<Rightarrow> bool" where
  "fresh ttl now stamp = (case stamp of None \<Rightarrow> False | Some t \<Rightarrow> 0 \<le> now - t \<and> now - t < ttl)"

lemma fresh_simps [simp]:
  "fresh ttl now None = False"
  "fresh ttl now (Some t) = (t \<le> now \<and> now < t + ttl)"
  by (auto simp: fresh_def)

lemma fresh_later: "fresh ttl now stamp \<Longrightarrow> now \<le> now' \<Longrightarrow> fresh ttl now' stamp = (now' < the stamp + ttl)"
  by (cases stamp) auto

lemma fresh_expires: "\<not> fresh ttl (t + ttl + d) (Some t)" if "0 \<le> d"
  using that by simp

section \<open>A contract shared by the caches of the bridge\<close>

text \<open>
  Several components keep the last good reading with the time it was acquired and answer reads
  only while it is young enough (the Mercedes and evcc snapshots, the application's vehicle
  snapshot, the retained HA state). The contract: a read is answered only from a stamp that is
  fresh, and reading does not change the stamp. What a client may rely on is proved once here.
\<close>

locale freshness_cache =
  fixes stamp :: "'s \<Rightarrow> time option"
    and live :: "time \<Rightarrow> 's \<Rightarrow> bool"
    and ttl :: "'s \<Rightarrow> time"
  assumes live_fresh: "live now s \<Longrightarrow> fresh (ttl s) now (stamp s)"
begin

lemma never_live_before_first_sample: "stamp s = None \<Longrightarrow> \<not> live now s"
  using live_fresh by fastforce

lemma not_live_after_ttl: "stamp s = Some t \<Longrightarrow> t + ttl s \<le> now \<Longrightarrow> \<not> live now s"
  using live_fresh by fastforce

lemma live_stamp_bounds: "live now s \<Longrightarrow> \<exists>t. stamp s = Some t \<and> t \<le> now \<and> now < t + ttl s"
  using live_fresh by (cases "stamp s") fastforce+

end

end
