(* ===== verification/Py_Float.thy ===== *)
theory Py_Float
  imports Prelude
begin

text \<open>
  Python floats: IEEE 754 binary64. A finite double is the rational it denotes (the sign of zero is
  not kept); \<open>fl\<close> rounds a rational to the nearest double, ties to even, with overflow to infinity
  and gradual underflow. Arithmetic of the source is exact rational arithmetic followed by \<open>fl\<close>.
\<close>

datatype pyfloat = Fin rat | PosInf | NegInf | NaN

fun isfinite :: "pyfloat \<Rightarrow> bool" where
  "isfinite (Fin _) = True"
| "isfinite _ = False"

definition round_even :: "rat \<Rightarrow> int" where
  "round_even q =
     (let f = \<lfloor>q\<rfloor>; r = q - of_int f
      in if r < 1 / 2 then f else if 1 / 2 < r then f + 1 else if even f then f else f + 1)"

text \<open>Powers of two and ten with an integer exponent.\<close>

definition pow2 :: "int \<Rightarrow> rat" where
  "pow2 k = (if 0 \<le> k then of_int (2 ^ nat k) else 1 / of_int (2 ^ nat (- k)))"

definition pow10 :: "int \<Rightarrow> rat" where
  "pow10 k = (if 0 \<le> k then of_int (10 ^ nat k) else 1 / of_int (10 ^ nat (- k)))"

lemma pow2_pos: "0 < pow2 k"
  by (simp add: pow2_def)

lemma pow10_pos: "0 < pow10 k"
  by (simp add: pow10_def)

text \<open>The exponent \<open>e\<close> with \<open>2 ^ e \<le> \<bar>q\<bar> < 2 ^ (e + 1)\<close>, from the bit lengths of the fraction.\<close>

definition dbl_exp :: "rat \<Rightarrow> int" where
  "dbl_exp q =
     (let (n, d) = quotient_of \<bar>q\<bar>; k = bitlen n - bitlen d
      in if pow2 k \<le> \<bar>q\<bar> then k else k - 1)"

definition dbl_limit :: rat where
  "dbl_limit = of_int (2 ^ 1024)"

lemma dbl_limit_code [code]: "dbl_limit = of_int 179769313486231590772930519078902473361797697894230657273430081157732675805500963132708477322407536021120113879871393357658789768814416622492847430639474124377767893424865485276302219601246094119453082952085005768838150682342462881473913110540827237163350510684586298239947245938479716304835356329624224137216"
  by (simp add: dbl_limit_def)

definition fl :: "rat \<Rightarrow> pyfloat" where
  "fl q =
     (if q = 0 then Fin 0
      else let e = max (- 1074) (dbl_exp q - 52);
               v = of_int (round_even (q / pow2 e)) * pow2 e
           in if \<bar>v\<bar> < dbl_limit then Fin v else if 0 < q then PosInf else NegInf)"

text \<open>\<^verbatim>\<open>float(n)\<close> of an int raises \<^verbatim>\<open>OverflowError\<close> where the nearest double is infinite.\<close>

definition float_of_int :: "int \<Rightarrow> pyfloat res" where
  "float_of_int n = (case fl (of_int n) of Fin q \<Rightarrow> Inr (Fin q) | _ \<Rightarrow> Inl OverflowError)"

definition finite_or_none :: "pyfloat \<Rightarrow> rat option" where
  "finite_or_none f = (case f of Fin q \<Rightarrow> Some q | _ \<Rightarrow> None)"

fun fmul :: "pyfloat \<Rightarrow> rat \<Rightarrow> pyfloat" where
  \<comment> \<open>multiplication by a positive finite constant, the only products the modelled code forms\<close>
  "fmul (Fin a) c = fl (a * c)"
| "fmul PosInf c = PosInf"
| "fmul NegInf c = NegInf"
| "fmul NaN c = NaN"

fun f_less :: "pyfloat \<Rightarrow> rat \<Rightarrow> bool" where
  "f_less (Fin a) b = (a < b)"
| "f_less PosInf b = False"
| "f_less NegInf b = True"
| "f_less NaN b = False"

fun f_greater :: "pyfloat \<Rightarrow> rat \<Rightarrow> bool" where
  "f_greater (Fin a) b = (b < a)"
| "f_greater PosInf b = True"
| "f_greater NegInf b = False"
| "f_greater NaN b = False"

text \<open>\<^verbatim>\<open>int(x)\<close> truncates towards zero and raises on the non-finite values.\<close>

fun int_of_float :: "pyfloat \<Rightarrow> int res" where
  "int_of_float (Fin q) = Inr (if 0 \<le> q then \<lfloor>q\<rfloor> else - \<lfloor>- q\<rfloor>)"
| "int_of_float NaN = Inl ValueError"
| "int_of_float _ = Inl OverflowError"

text \<open>\<^verbatim>\<open>round(x, d)\<close>: the decimal rounding of the exact value, then the nearest double.\<close>

definition round_digits :: "nat \<Rightarrow> rat \<Rightarrow> pyfloat" where
  "round_digits d q = fl (of_int (round_even (q * pow10 (int d))) / pow10 (int d))"

lemma isfinite_iff: "isfinite f \<longleftrightarrow> (\<exists>q. f = Fin q)"
  by (cases f) auto

lemma fl_0 [simp]: "fl 0 = Fin 0"
  by (simp add: fl_def)

lemma fl_not_NaN: "fl q \<noteq> NaN"
  by (simp add: fl_def Let_def)

lemma round_even_bounds: "of_int (round_even q) - q \<le> 1 / 2" "q - of_int (round_even q) \<le> 1 / 2"
proof -
  have "of_int \<lfloor>q\<rfloor> \<le> q" "q < of_int \<lfloor>q\<rfloor> + 1" by linarith+
  then show "of_int (round_even q) - q \<le> 1 / 2" "q - of_int (round_even q) \<le> 1 / 2"
    unfolding round_even_def Let_def by (simp_all split: if_split) linarith+
qed

lemma round_even_of_int [simp]: "round_even (of_int n) = n"
  by (simp add: round_even_def)

lemma round_even_nonneg: "0 \<le> q \<Longrightarrow> 0 \<le> round_even q"
  using round_even_bounds(2)[of q] by (simp add: round_even_def Let_def)

lemma round_even_nonpos: "q \<le> 0 \<Longrightarrow> round_even q \<le> 0"
proof -
  assume "q \<le> 0"
  then have "of_int (round_even q) \<le> (1 / 2 :: rat)" using round_even_bounds(1)[of q] by linarith
  then have "of_int (round_even q) < (1 :: rat)" by linarith
  then show ?thesis by linarith
qed

text \<open>Rounding keeps the sign: a non-negative reading stays non-negative through a conversion.\<close>

lemma fl_nonneg: "fl q = Fin v \<Longrightarrow> 0 \<le> q \<Longrightarrow> 0 \<le> v"
  by (auto simp: fl_def Let_def round_even_nonneg pow2_pos less_imp_le split: if_splits)

lemma fl_nonpos: "fl q = Fin v \<Longrightarrow> q \<le> 0 \<Longrightarrow> v \<le> 0"
proof -
  assume v: "fl q = Fin v" and q: "q \<le> 0"
  define e where "e = max (- 1074) (dbl_exp q - 52)"
  have "q / pow2 e \<le> 0" using q pow2_pos[of e] by (simp add: divide_le_0_iff)
  then have "of_int (round_even (q / pow2 e)) \<le> (0 :: rat)" using round_even_nonpos by simp
  then have "of_int (round_even (q / pow2 e)) * pow2 e \<le> 0"
    using pow2_pos[of e] by (simp add: mult_le_0_iff)
  with v show ?thesis by (auto simp: fl_def Let_def e_def split: if_splits)
qed

lemma dbl_limit_pos: "0 < dbl_limit"
  by (simp add: dbl_limit_def)

lemma fl_bound: "fl q = Fin v \<Longrightarrow> \<bar>v\<bar> < dbl_limit"
  by (auto simp: fl_def Let_def dbl_limit_pos split: if_splits)

text \<open>Integers below \<open>2 ^ 53\<close> in absolute value are doubles, so rounding does not move them.\<close>

lemma dbl_exp_small_int: "\<bar>n\<bar> < 2 ^ 53 \<Longrightarrow> n \<noteq> 0 \<Longrightarrow> dbl_exp (of_int n) \<le> 52"
proof -
  assume n: "\<bar>n\<bar> < 2 ^ 53" "n \<noteq> 0"
  have "quotient_of \<bar>of_int n\<bar> = (\<bar>n\<bar>, 1)"
    by (simp flip: of_int_abs)
  moreover have "bitlen \<bar>n\<bar> \<le> 53"
    using n bitlen_le_iff_power[of "\<bar>n\<bar>" 53] by simp
  moreover have "bitlen 1 = 1" using bitlen_pow2[of 1 0] by (simp add: compute_bitlen)
  ultimately show ?thesis by (auto simp: dbl_exp_def Let_def)
qed

lemma fl_small_int: "\<bar>n\<bar> < 2 ^ 53 \<Longrightarrow> fl (of_int n) = Fin (of_int n)"
proof (cases "n = 0")
  case False
  assume n: "\<bar>n\<bar> < 2 ^ 53"
  define e where "e = max (- 1074) (dbl_exp (of_int n) - 52)"
  have e: "e \<le> 0" using dbl_exp_small_int[OF n False] by (simp add: e_def)
  define m where "m = n * 2 ^ nat (- e)"
  have "of_int n / pow2 e = of_int m"
    using e by (cases "e = 0") (simp_all add: pow2_def m_def)
  moreover have "of_int m * pow2 e = of_int n"
    using e by (cases "e = 0") (simp_all add: pow2_def m_def)
  moreover have "\<bar>of_int n\<bar> < dbl_limit"
  proof -
    have "\<bar>n\<bar> < 2 ^ 1024" using n by (rule less_le_trans) simp
    then show ?thesis unfolding dbl_limit_def by (simp only: of_int_less_iff flip: of_int_abs)
  qed
  ultimately show ?thesis using False by (simp add: fl_def Let_def flip: e_def)
qed simp

lemma float_of_int_cases:
  "float_of_int n = Inl OverflowError \<or> (\<exists>q. float_of_int n = Inr (Fin q) \<and> fl (of_int n) = Fin q)"
  by (cases "fl (of_int n)") (simp_all add: float_of_int_def)

lemma float_of_int_finite: "float_of_int n = Inr f \<Longrightarrow> isfinite f"
  using float_of_int_cases[of n] by auto

end
