(* ===== verification/Py_Value.thy ===== *)
theory Py_Value
  imports Py_Float
begin

text \<open>
  Python values as the program handles them: decoded JSON, protobuf dictionaries, D-Bus values.
  Strings are lists of characters with code points below 256; case mapping and the whitespace
  class are those of ASCII, other characters are carried unchanged.
\<close>

datatype datetime = Datetime (dt_year: int) (dt_month: int) (dt_day: int)
  (dt_hour: int) (dt_minute: int) (dt_second: int) (dt_zone: string)

datatype pyval =
    PNone
  | PBool bool
  | PInt int
  | PFloat pyfloat
  | PStr string
  | PList "pyval list"
  | PDict "(string \<times> pyval) list"
  | PTime datetime

type_synonym pydict = "(string, pyval) dict"

fun truthy :: "pyval \<Rightarrow> bool" where
  "truthy PNone = False"
| "truthy (PBool b) = b"
| "truthy (PInt n) = (n \<noteq> 0)"
| "truthy (PFloat f) = (f \<noteq> Fin 0)"
| "truthy (PStr s) = (s \<noteq> [])"
| "truthy (PList xs) = (xs \<noteq> [])"
| "truthy (PDict d) = (d \<noteq> [])"
| "truthy (PTime _) = True"

section \<open>Dictionaries\<close>

text \<open>\<^verbatim>\<open>d.get(k)\<close>, \<^verbatim>\<open>d.get(k, default)\<close> and \<^verbatim>\<open>d[k]\<close>.\<close>

definition dget :: "pydict \<Rightarrow> string \<Rightarrow> pyval" where
  "dget d k = (case map_of d k of None \<Rightarrow> PNone | Some v \<Rightarrow> v)"

definition dget_or :: "pydict \<Rightarrow> string \<Rightarrow> pyval \<Rightarrow> pyval" where
  "dget_or d k dflt = (case map_of d k of None \<Rightarrow> dflt | Some v \<Rightarrow> v)"

definition dgetitem :: "pydict \<Rightarrow> string \<Rightarrow> pyval res" where
  "dgetitem d k = (case map_of d k of None \<Rightarrow> Inl KeyError | Some v \<Rightarrow> Inr v)"

definition haskey :: "pydict \<Rightarrow> string \<Rightarrow> bool" where
  "haskey d k = (map_of d k \<noteq> None)"

text \<open>Access on a value that need not be a dictionary: another type has no \<^verbatim>\<open>get\<close>.\<close>

fun vget :: "pyval \<Rightarrow> string \<Rightarrow> pyval res" where
  "vget (PDict d) k = Inr (dget d k)"
| "vget _ k = Inl AttributeError"

fun vget_or :: "pyval \<Rightarrow> string \<Rightarrow> pyval \<Rightarrow> pyval res" where
  "vget_or (PDict d) k dflt = Inr (dget_or d k dflt)"
| "vget_or _ k dflt = Inl AttributeError"

fun is_dict :: "pyval \<Rightarrow> bool" where
  "is_dict (PDict _) = True"
| "is_dict _ = False"

fun is_str :: "pyval \<Rightarrow> bool" where
  "is_str (PStr _) = True"
| "is_str _ = False"

lemma dget_simps [simp, py_simps]:
  "dget [] k = PNone"
  "dget ((k', v) # d) k = (if k = k' then v else dget d k)"
  by (auto simp: dget_def)

lemma dget_dset [simp]: "dget (dset k v d) k' = (if k' = k then v else dget d k')"
  by (simp add: dget_def)

lemma dget_or_dset [simp]: "dget_or (dset k v d) k' x = (if k' = k then v else dget_or d k' x)"
  by (simp add: dget_or_def)

lemma haskey_dset [simp]: "haskey (dset k v d) k' = (k' = k \<or> haskey d k')"
  by (simp add: haskey_def)

lemma dget_or_simps [simp, py_simps]:
  "dget_or [] k x = x"
  "dget_or ((k', v) # d) k x = (if k = k' then v else dget_or d k x)"
  by (auto simp: dget_or_def)

lemma dget_tabulate: "k \<in> set ks \<Longrightarrow> dget (map (\<lambda>k. (k, f k)) ks) k = f k"
  by (simp add: dget_def map_of_tabulate)

lemma dget_dupdate:
  "distinct (map fst kvs) \<Longrightarrow> k \<in> fst ` set kvs \<Longrightarrow> dget (dupdate d kvs) k = dget kvs k"
  by (auto simp: dget_def dlookup_dupdate split: option.splits)

lemma dget_dupdate_other:
  "distinct (map fst kvs) \<Longrightarrow> k \<notin> fst ` set kvs \<Longrightarrow> dget (dupdate d kvs) k = dget d k"
  by (simp add: dget_def dlookup_dupdate map_of_eq_None_iff [THEN iffD2])

lemma is_dictE: "is_dict v \<Longrightarrow> (\<And>d. v = PDict d \<Longrightarrow> P) \<Longrightarrow> P"
  by (cases v) auto

section \<open>Text\<close>

definition code :: "char \<Rightarrow> int" where
  "code c = of_char c"

definition is_space :: "char \<Rightarrow> bool" where
  "is_space c = (let n = code c in 9 \<le> n \<and> n \<le> 13 \<or> 28 \<le> n \<and> n \<le> 32)"

definition is_digit :: "char \<Rightarrow> bool" where
  "is_digit c = (48 \<le> code c \<and> code c \<le> 57)"

definition is_alpha :: "char \<Rightarrow> bool" where
  "is_alpha c = (65 \<le> code c \<and> code c \<le> 90 \<or> 97 \<le> code c \<and> code c \<le> 122)"

definition is_ascii :: "char \<Rightarrow> bool" where
  "is_ascii c = (code c < 128)"

definition isascii :: "string \<Rightarrow> bool" where
  "isascii s = list_all is_ascii s"

text \<open>\<^verbatim>\<open>str.isalnum()\<close> and \<^verbatim>\<open>str.isdigit()\<close> are false on the empty string.\<close>

definition isalnum :: "string \<Rightarrow> bool" where
  "isalnum s = (s \<noteq> [] \<and> list_all (\<lambda>c. is_alpha c \<or> is_digit c) s)"

definition isdigit :: "string \<Rightarrow> bool" where
  "isdigit s = (s \<noteq> [] \<and> list_all is_digit s)"

definition lower_char :: "char \<Rightarrow> char" where
  "lower_char c = (if 65 \<le> code c \<and> code c \<le> 90 then char_of (code c + 32) else c)"

definition upper_char :: "char \<Rightarrow> char" where
  "upper_char c = (if 97 \<le> code c \<and> code c \<le> 122 then char_of (code c - 32) else c)"

definition lower :: "string \<Rightarrow> string" where
  "lower s = map lower_char s"

definition upper :: "string \<Rightarrow> string" where
  "upper s = map upper_char s"

definition strip :: "string \<Rightarrow> string" where
  "strip s = rev (dropWhile is_space (rev (dropWhile is_space s)))"

definition lstrip_char :: "char \<Rightarrow> string \<Rightarrow> string" where
  "lstrip_char c s = dropWhile (\<lambda>d. d = c) s"

definition rstrip_char :: "char \<Rightarrow> string \<Rightarrow> string" where
  "rstrip_char c s = rev (dropWhile (\<lambda>d. d = c) (rev s))"

definition startswith :: "string \<Rightarrow> string \<Rightarrow> bool" where
  "startswith s p = (take (length p) s = p)"

text \<open>\<^verbatim>\<open>s.split(c)\<close> with a one-character separator: always at least one part.\<close>

fun split_char :: "char \<Rightarrow> string \<Rightarrow> string list" where
  "split_char c [] = [[]]"
| "split_char c (x # xs) =
     (if x = c then [] # split_char c xs
      else case split_char c xs of [] \<Rightarrow> [[x]] | p # ps \<Rightarrow> (x # p) # ps)"

lemma split_char_nonempty: "split_char c s \<noteq> []"
  by (cases s) (auto split: list.splits)

text \<open>\<^verbatim>\<open>s.replace(old, new)\<close> for a nonempty \<^verbatim>\<open>old\<close>: leftmost, non-overlapping.\<close>

function replace_str :: "string \<Rightarrow> string \<Rightarrow> string \<Rightarrow> string" where
  "replace_str old new s =
     (case s of [] \<Rightarrow> []
      | c # cs \<Rightarrow>
          if old \<noteq> [] \<and> startswith s old then new @ replace_str old new (drop (length old) s)
          else c # replace_str old new cs)"
  by pat_completeness auto
termination
  by (relation "measure (\<lambda>(old, new, s). length s)") (auto simp: startswith_def)

declare replace_str.simps [simp del]

section \<open>Numbers in text\<close>

definition digit_val :: "char \<Rightarrow> int" where
  "digit_val c = code c - 48"

definition int_of_digits :: "string \<Rightarrow> int" where
  "int_of_digits s = foldl (\<lambda>n c. 10 * n + digit_val c) 0 s"

text \<open>Underscores are allowed between two digits only; \<open>prev\<close> says the last character was one.\<close>

fun drop_underscores :: "bool \<Rightarrow> string \<Rightarrow> string option" where
  "drop_underscores prev [] = Some []"
| "drop_underscores prev (c # cs) =
     (if c = CHR ''_''
      then (case cs of [] \<Rightarrow> None
            | d # _ \<Rightarrow> if prev \<and> is_digit d then drop_underscores False cs else None)
      else map_option (Cons c) (drop_underscores (is_digit c) cs))"

fun split_sign :: "string \<Rightarrow> bool \<times> string" where
  "split_sign (c # cs) = (if c = CHR ''-'' then (True, cs) else if c = CHR ''+'' then (False, cs)
     else (False, c # cs))"
| "split_sign [] = (False, [])"

definition parse_int :: "string \<Rightarrow> int option" where
  "parse_int s =
     (let (neg, b) = split_sign (strip s)
      in case drop_underscores False b of None \<Rightarrow> None
         | Some ds \<Rightarrow> if isdigit ds then Some ((if neg then - 1 else 1) * int_of_digits ds)
                     else None)"

text \<open>The exponent part of a decimal literal: empty, or \<^verbatim>\<open>e\<close> with an optional sign and digits.\<close>

fun parse_exponent :: "string \<Rightarrow> int option" where
  "parse_exponent [] = Some 0"
| "parse_exponent (c # cs) =
     (if c = CHR ''e''
      then let (neg, ds) = split_sign cs
           in if isdigit ds then Some ((if neg then - 1 else 1) * int_of_digits ds) else None
      else None)"

definition parse_decimal :: "string \<Rightarrow> rat option" where
  "parse_decimal s =
     (let ip = takeWhile is_digit s; r = dropWhile is_digit s;
          (fp, r') = (case r of c # cs \<Rightarrow> if c = CHR ''.'' then (takeWhile is_digit cs, dropWhile is_digit cs)
                                         else ([], r)
                      | [] \<Rightarrow> ([], []))
      in if ip @ fp = [] then None
         else case parse_exponent r' of None \<Rightarrow> None
              | Some e \<Rightarrow> Some (of_int (int_of_digits (ip @ fp)) * pow10 (e - int (length fp))))"

definition parse_float :: "string \<Rightarrow> pyfloat option" where
  "parse_float s =
     (let (neg, b) = split_sign (lower (strip s))
      in if b = ''inf'' \<or> b = ''infinity'' then Some (if neg then NegInf else PosInf)
         else if b = ''nan'' then Some NaN
         else case drop_underscores False b of None \<Rightarrow> None
              | Some ds \<Rightarrow> map_option (\<lambda>q. fl (if neg then - q else q)) (parse_decimal ds))"

text \<open>\<^verbatim>\<open>float(v)\<close> and \<^verbatim>\<open>int(v)\<close> on any value, with the exceptions they raise.\<close>

fun py_float :: "pyval \<Rightarrow> pyfloat res" where
  "py_float (PBool b) = Inr (Fin (if b then 1 else 0))"
| "py_float (PInt n) = float_of_int n"
| "py_float (PFloat f) = Inr f"
| "py_float (PStr s) = (case parse_float s of None \<Rightarrow> Inl ValueError | Some f \<Rightarrow> Inr f)"
| "py_float _ = Inl TypeError"

fun py_int :: "pyval \<Rightarrow> int res" where
  "py_int (PBool b) = Inr (if b then 1 else 0)"
| "py_int (PInt n) = Inr n"
| "py_int (PFloat f) = int_of_float f"
| "py_int (PStr s) = (case parse_int s of None \<Rightarrow> Inl ValueError | Some n \<Rightarrow> Inr n)"
| "py_int _ = Inl TypeError"

lemma py_float_errors: "py_float v = Inl e \<Longrightarrow> e = TypeError \<or> e = ValueError \<or> e = OverflowError"
  by (cases v) (use float_of_int_cases in \<open>auto split: option.splits if_splits\<close>, metis Inl_Inr_False sum.inject(1))

text \<open>\<^verbatim>\<open>a == b\<close>: numbers by value whatever their type, \<^verbatim>\<open>nan\<close> never.\<close>

fun numeric_value :: "pyval \<Rightarrow> rat option" where
  "numeric_value (PBool b) = Some (if b then 1 else 0)"
| "numeric_value (PInt n) = Some (of_int n)"
| "numeric_value (PFloat (Fin q)) = Some q"
| "numeric_value _ = None"

definition py_eq :: "pyval \<Rightarrow> pyval \<Rightarrow> bool" where
  "py_eq a b =
     (case (numeric_value a, numeric_value b) of
        (Some p, Some q) \<Rightarrow> p = q
      | _ \<Rightarrow> a = b \<and> a \<noteq> PFloat NaN)"

section \<open>Text of numbers\<close>

function show_digits :: "int \<Rightarrow> string" where
  "show_digits n =
     (if n < 10 then [char_of (48 + n)] else show_digits (n div 10) @ [char_of (48 + n mod 10)])"
  by pat_completeness auto
termination
  by (relation "measure nat") auto

declare show_digits.simps [simp del]

definition show_int :: "int \<Rightarrow> string" where
  "show_int n = (if n < 0 then CHR ''-'' # show_digits (- n) else show_digits n)"

text \<open>
  \<^verbatim>\<open>repr\<close> of a finite double: the shortest digit string, at most 17 digits, that reads back as the
  same double; positional for exponents from -4 to 15 and scientific outside.
\<close>

definition dec_exp :: "rat \<Rightarrow> int" where
  \<comment> \<open>the exponent \<open>e\<close> with \<open>10 ^ e \<le> q < 10 ^ (e + 1)\<close> for positive \<open>q\<close>\<close>
  "dec_exp q =
     (let (n, d) = quotient_of q;
          k = int (length (show_int n)) - int (length (show_int d))
      in if pow10 k \<le> q then k else k - 1)"

definition digits_at :: "rat \<Rightarrow> nat \<Rightarrow> int \<times> int" where
  \<comment> \<open>\<open>(m, e)\<close>: the nearest \<open>n\<close>-digit decimal \<open>m * 10 ^ e\<close>\<close>
  "digits_at q n = (let e = dec_exp q - int n + 1 in (round_even (q / pow10 e), e))"

definition shortest_digits :: "rat \<Rightarrow> int \<times> int" where
  "shortest_digits q =
     (case find (\<lambda>n. let (m, e) = digits_at q n in fl (of_int m * pow10 e) = Fin q) [1 ..< 17] of
        Some n \<Rightarrow> digits_at q n | None \<Rightarrow> digits_at q 17)"

fun drop_zeros :: "string \<Rightarrow> string" where
  "drop_zeros s = rev (dropWhile (\<lambda>c. c = CHR ''0'') (rev s))"

definition pad_zeros :: "nat \<Rightarrow> string" where
  "pad_zeros n = replicate n (CHR ''0'')"

definition repr_pos :: "rat \<Rightarrow> string" where
  "repr_pos q =
     (let (m, e) = shortest_digits q; ds = drop_zeros (show_int m);
          p = e + int (length (show_int m)) - 1; n = int (length ds)
      in if - 4 \<le> p \<and> p < 16
         then if p < 0 then ''0.'' @ pad_zeros (nat (- p - 1)) @ ds
              else if n \<le> p + 1 then ds @ pad_zeros (nat (p + 1 - n)) @ ''.0''
              else take (nat (p + 1)) ds @ ''.'' @ drop (nat (p + 1)) ds
         else (take 1 ds @ (if n = 1 then [] else CHR ''.'' # drop 1 ds)) @ ''e'' @
              (if p < 0 then ''-'' else ''+'') @
              (if \<bar>p\<bar> < 10 then ''0'' else []) @ show_int \<bar>p\<bar>)"

fun show_float :: "pyfloat \<Rightarrow> string" where
  "show_float (Fin q) = (if q = 0 then ''0.0'' else if q < 0 then CHR ''-'' # repr_pos (- q) else repr_pos q)"
| "show_float PosInf = ''inf''"
| "show_float NegInf = ''-inf''"
| "show_float NaN = ''nan''"

text \<open>
  \<^verbatim>\<open>str(v)\<close>. The text of containers and dates is only ever tested for being a number, a known
  keyword or an entity state, so it is given in outline: the opening bracket decides those tests.
\<close>

fun py_str :: "pyval \<Rightarrow> string" where
  "py_str PNone = ''None''"
| "py_str (PBool b) = (if b then ''True'' else ''False'')"
| "py_str (PInt n) = show_int n"
| "py_str (PFloat f) = show_float f"
| "py_str (PStr s) = s"
| "py_str (PList _) = ''[...]''"
| "py_str (PDict _) = ''{...}''"
| "py_str (PTime t) = show_int (dt_year t) @ ''-'' @ show_int (dt_month t) @ ''-'' @ show_int (dt_day t)"

section \<open>Numbers read back\<close>

lemma code_char_of: "0 \<le> n \<Longrightarrow> n < 256 \<Longrightarrow> code (char_of n) = n"
  by (simp add: code_def of_char_of)

lemma digit_char:
  assumes "0 \<le> d" and "d < 10"
  shows "is_digit (char_of (48 + d))" and "digit_val (char_of (48 + d)) = d"
  using assms code_char_of [of "48 + d"] by (simp_all add: is_digit_def digit_val_def)

lemma is_digit_facts:
  assumes "is_digit c"
  shows "\<not> is_space c" and "lower_char c = c" and "c \<noteq> CHR ''_''" and "c \<noteq> CHR ''-''" and "c \<noteq> CHR ''+''"
    and "c \<noteq> CHR ''e''" and "c \<noteq> CHR ''.''" and "c \<noteq> CHR ''i''" and "c \<noteq> CHR ''n''"
  using assms by (auto simp: is_digit_def is_space_def lower_char_def Let_def code_def)

lemma int_of_digits_snoc: "int_of_digits (s @ [c]) = 10 * int_of_digits s + digit_val c"
  by (simp add: int_of_digits_def)

lemma show_digits_spec:
  "0 \<le> n \<Longrightarrow> show_digits n \<noteq> [] \<and> list_all is_digit (show_digits n) \<and> int_of_digits (show_digits n) = n"
proof (induction n rule: show_digits.induct)
  case (1 n)
  show ?case
  proof (cases "n < 10")
    case True
    with 1(2) digit_char [of n] show ?thesis
      by (simp add: show_digits.simps [of n] int_of_digits_def)
  next
    case False
    then have "0 \<le> n div 10" by simp
    with 1(1) False have "show_digits (n div 10) \<noteq> [] \<and> list_all is_digit (show_digits (n div 10)) \<and>
        int_of_digits (show_digits (n div 10)) = n div 10" by simp
    moreover have "is_digit (char_of (48 + n mod 10))" "digit_val (char_of (48 + n mod 10)) = n mod 10"
      using digit_char [of "n mod 10"] by simp_all
    ultimately show ?thesis
      using False by (simp add: show_digits.simps [of n] int_of_digits_snoc)
  qed
qed

lemma dropWhile_none: "\<forall>c\<in>set s. \<not> P c \<Longrightarrow> dropWhile P s = s"
  by (cases s) auto

lemma strip_no_space: "\<forall>c\<in>set s. \<not> is_space c \<Longrightarrow> strip s = s"
  by (simp add: strip_def dropWhile_none)

lemma digits_plain:
  assumes "list_all is_digit s"
  shows "strip s = s" and "lower s = s" and "drop_underscores b s = Some s" and "takeWhile is_digit s = s"
    and "dropWhile is_digit s = []"
proof -
  show "strip s = s" using assms by (intro strip_no_space) (auto simp: list_all_iff is_digit_facts)
  show "lower s = s" using assms by (induction s) (simp_all add: lower_def is_digit_facts)
  show "drop_underscores b s = Some s" using assms by (induction s arbitrary: b) (simp_all add: is_digit_facts)
  show "takeWhile is_digit s = s" "dropWhile is_digit s = []"
    using assms by (simp_all add: list_all_iff)
qed

lemma split_sign_digits: "list_all is_digit s \<Longrightarrow> split_sign s = (False, s)"
  by (cases s) (auto simp: is_digit_facts)

lemma show_int_strip: "strip (show_int n) = show_int n"
proof (rule strip_no_space)
  have "\<not> is_space (CHR ''-'')" by code_simp
  then show "\<forall>c\<in>set (show_int n). \<not> is_space c"
    using show_digits_spec [of n] show_digits_spec [of "- n"]
    by (auto simp: show_int_def list_all_iff is_digit_facts)
qed

text \<open>\<^verbatim>\<open>int(str(n)) == n\<close>, and \<^verbatim>\<open>float(str(n)) == float(n)\<close>.\<close>

lemma parse_int_show_int: "parse_int (show_int n) = Some n"
  using show_digits_spec [of n] show_digits_spec [of "- n"] show_int_strip [of n]
  by (auto simp: parse_int_def show_int_def digits_plain split_sign_digits isdigit_def)

lemma parse_decimal_digits: "list_all is_digit s \<Longrightarrow> s \<noteq> [] \<Longrightarrow> parse_decimal s = Some (of_int (int_of_digits s))"
  by (simp add: parse_decimal_def digits_plain pow10_def)

lemma parse_float_show_int: "parse_float (show_int n) = Some (fl (of_int n))"
proof -
  have not_word: "s \<noteq> ''inf'' \<and> s \<noteq> ''infinity'' \<and> s \<noteq> ''nan''" if "list_all is_digit s" for s
    using that by (cases s) (auto simp: is_digit_facts)
  have l: "lower_char (CHR ''-'') = CHR ''-''" by code_simp
  show ?thesis
  proof (cases "n < 0")
    case True
    let ?s = "show_digits (- n)"
    have s: "list_all is_digit ?s" "?s \<noteq> []" "int_of_digits ?s = - n" using show_digits_spec [of "- n"] True by auto
    have "lower (strip (show_int n)) = CHR ''-'' # ?s"
      using True show_int_strip [of n] s l by (simp add: show_int_def lower_def digits_plain(2) [unfolded lower_def])
    then show ?thesis
      using s not_word [OF s(1)] by (simp add: parse_float_def digits_plain parse_decimal_digits)
  next
    case False
    let ?s = "show_digits n"
    have s: "list_all is_digit ?s" "?s \<noteq> []" "int_of_digits ?s = n" using show_digits_spec [of n] False by auto
    then show ?thesis
      using False not_word [OF s(1)]
      by (simp add: parse_float_def show_int_def digits_plain split_sign_digits parse_decimal_digits)
  qed
qed

end
