(* ===== verification/Vehicle.thy ===== *)
theory Vehicle
  imports Py_Value
begin

text \<open>
  \<^verbatim>\<open>dbus_ev/vehicle.py\<close>: the filters that turn provider readings into vehicle fields. \<open>number\<close>
  accepts finite numbers within bounds; \<open>normalize\<close> builds the snapshot dictionary of one reading;
  \<open>at_site\<close> decides home association from coordinates. The trigonometric functions are those of the
  C library, a parameter here; sums and products between them are exact.
\<close>

record libm =
  m_radians :: "rat \<Rightarrow> rat"
  m_sin :: "rat \<Rightarrow> rat"
  m_cos :: "rat \<Rightarrow> rat"
  m_asin :: "rat \<Rightarrow> rat"
  m_sqrt :: "rat \<Rightarrow> rat"

definition MQTT_FIELDS :: "string list" where
  "MQTT_FIELDS =
     [''soc'', ''target_soc'', ''power'', ''battery_capacity'', ''range_to_go'', ''odometer'',
      ''charging_status'', ''latitude'', ''longitude'', ''at_site'']"

section \<open>Numbers\<close>

definition out_of_bounds :: "rat option \<Rightarrow> rat option \<Rightarrow> rat \<Rightarrow> bool" where
  "out_of_bounds minimum maximum q =
     ((case minimum of None \<Rightarrow> False | Some m \<Rightarrow> q < m) \<or>
      (case maximum of None \<Rightarrow> False | Some m \<Rightarrow> m < q))"

text \<open>
  An int is compared exactly and then converted; \<^verbatim>\<open>math.isfinite\<close> raises \<^verbatim>\<open>OverflowError\<close> on an int
  that no double can hold.
\<close>

fun number :: "pyval \<Rightarrow> rat option \<Rightarrow> rat option \<Rightarrow> rat option res" where
  "number (PInt n) minimum maximum =
     rbind (float_of_int n) (\<lambda>f.
       if out_of_bounds minimum maximum (of_int n) then Inr None
       else case f of Fin q \<Rightarrow> Inr (Some q) | _ \<Rightarrow> Inl OverflowError)"
| "number (PFloat f) minimum maximum =
     (case f of Fin q \<Rightarrow> Inr (if out_of_bounds minimum maximum q then None else Some q)
      | _ \<Rightarrow> Inr None)"
| "number _ minimum maximum = Inr None"

fun num_val :: "rat option \<Rightarrow> pyval" where
  "num_val None = PNone"
| "num_val (Some q) = PFloat (Fin q)"

section \<open>Home association\<close>

definition haversine :: "libm \<Rightarrow> rat \<Rightarrow> rat \<Rightarrow> rat \<Rightarrow> rat \<Rightarrow> rat" where
  "haversine m lat lon current_lat current_lon =
     (let lat1 = m_radians m lat; lat2 = m_radians m current_lat; dlat = lat2 - lat1;
          dlon = m_radians m (current_lon - lon);
          a = m_sin m (dlat / 2) ^ 2 + m_cos m lat1 * m_cos m lat2 * m_sin m (dlon / 2) ^ 2
      in 6371000 * 2 * m_asin m (min 1 (m_sqrt m (max 0 a))))"

type_synonym home = "pyval \<times> pyval \<times> pyval"

definition at_site :: "libm \<Rightarrow> pydict \<Rightarrow> home \<Rightarrow> pyval res" where
  "at_site m snapshot home =
     (case home of (hlat, hlon, hradius) \<Rightarrow>
      rbind (number hlat (Some (- 90)) (Some 90)) (\<lambda>lat.
      rbind (number hlon (Some (- 180)) (Some 180)) (\<lambda>lon.
      rbind (number hradius (Some 0) None) (\<lambda>radius.
      rbind (number (dget snapshot ''latitude'') (Some (- 90)) (Some 90)) (\<lambda>current_lat.
      rbind (number (dget snapshot ''longitude'') (Some (- 180)) (Some 180)) (\<lambda>current_lon.
      case (lat, lon, radius, current_lat, current_lon) of
        (Some la, Some lo, Some r, Some cla, Some clo) \<Rightarrow>
          Inr (PBool (haversine m la lo cla clo \<le> r))
      | _ \<Rightarrow> Inr PNone))))))"

section \<open>Normalisation of a provider reading\<close>

text \<open>A dictionary display indexed by \<^verbatim>\<open>state\<close>: a list or dict as key is unhashable.\<close>

fun state_lookup :: "(string \<times> pyval) list \<Rightarrow> pyval \<Rightarrow> pyval res" where
  "state_lookup table (PStr s) = Inr (dget table s)"
| "state_lookup table (PList _) = Inl TypeError"
| "state_lookup table (PDict _) = Inl TypeError"
| "state_lookup table _ = Inr PNone"

definition capacity_or :: "rat option \<Rightarrow> pyval \<Rightarrow> rat option res" where
  \<comment> \<open>\<^verbatim>\<open>number(reading, 0) or number(capacity, 0)\<close>: None and zero both fall through\<close>
  "capacity_or reading capacity =
     (case reading of Some q \<Rightarrow> if q \<noteq> 0 then Inr (Some q) else number capacity (Some 0) None
      | None \<Rightarrow> number capacity (Some 0) None)"

definition normalize :: "libm \<Rightarrow> pydict \<Rightarrow> pyval \<Rightarrow> pyval \<Rightarrow> home \<Rightarrow> pydict res" where
  "normalize m data vin capacity home =
     (let state = dget data ''status'' in
      rbind (number (dget data ''soc'') (Some 0) (Some 100)) (\<lambda>soc.
      rbind (number (dget data ''target_soc'') (Some 0) (Some 100)) (\<lambda>target_soc.
      rbind (number (dget data ''battery_capacity'') (Some 0) None) (\<lambda>reading.
      rbind (capacity_or reading capacity) (\<lambda>battery_capacity.
      rbind (state_lookup [(''A'', PInt 0), (''B'', PInt 0), (''C'', PInt 3)] state) (\<lambda>charging_state.
      rbind (state_lookup [(''A'', PInt 0), (''B'', PInt 1), (''C'', PInt 2)] state) (\<lambda>charger_status.
      rbind (state_lookup [(''A'', PStr ''unplugged''), (''B'', PStr ''connected''),
                           (''C'', PStr ''charging'')] state) (\<lambda>charging_status.
      rbind (number (dget data ''odometer'') (Some 0) None) (\<lambda>odometer.
      rbind (number (dget data ''range_to_go'') (Some 0) None) (\<lambda>range_to_go.
      rbind (number (dget data ''latitude'') (Some (- 90)) (Some 90)) (\<lambda>latitude.
      rbind (number (dget data ''longitude'') (Some (- 180)) (Some 180)) (\<lambda>longitude.
      rbind (number (dget data ''power'') None None) (\<lambda>power.
      let snapshot =
        [(''soc'', num_val soc), (''target_soc'', num_val target_soc), (''vin'', vin),
         (''battery_capacity'', num_val battery_capacity), (''charging_state'', charging_state),
         (''charger_status'', charger_status), (''charging_status'', charging_status),
         (''odometer'', num_val odometer), (''range_to_go'', num_val range_to_go),
         (''latitude'', num_val latitude), (''longitude'', num_val longitude),
         (''power'', num_val power)]
      in rbind (at_site m snapshot home) (\<lambda>site. Inr (dset ''at_site'' site snapshot)))))))))))))))"

section \<open>Lemmas\<close>

lemma num_val_eq_PNone [simp]: "num_val r = PNone \<longleftrightarrow> r = None"
  by (cases r) simp_all

lemma out_of_bounds_simps [simp]:
  "out_of_bounds None None q = False"
  "out_of_bounds (Some a) None q = (q < a)"
  "out_of_bounds None (Some b) q = (b < q)"
  "out_of_bounds (Some a) (Some b) q = (q < a \<or> b < q)"
  by (simp_all add: out_of_bounds_def)

text \<open>The exact value a numeric Python value denotes, for stating what a filter returns.\<close>

fun exact_value :: "pyval \<Rightarrow> rat option" where
  "exact_value (PInt n) = Some (of_int n)"
| "exact_value (PFloat (Fin q)) = Some q"
| "exact_value _ = None"

lemma number_Some:
  "number v lo hi = Inr (Some q) \<Longrightarrow>
    \<exists>x. exact_value v = Some x \<and> \<not> out_of_bounds lo hi x \<and> (q = x \<or> fl x = Fin q)"
  by (cases "(v, lo, hi)" rule: number.cases)
     (auto simp: rbind_Inr_iff float_of_int_def split: if_splits pyfloat.splits)

lemma number_small_int:
  "\<bar>n\<bar> < 2 ^ 53 \<Longrightarrow> number (PInt n) lo hi = Inr (if out_of_bounds lo hi (of_int n) then None else Some (of_int n))"
  by (simp add: float_of_int_def fl_small_int)

text \<open>Bounds that are small integers survive the rounding of the result.\<close>

lemma number_within:
  assumes "number v (Some (of_int a)) (Some (of_int b)) = Inr (Some q)"
    and "\<bar>a\<bar> < 2 ^ 53" "\<bar>b\<bar> < 2 ^ 53"
  shows "of_int a \<le> q \<and> q \<le> of_int b"
proof (cases v)
  case (PInt n)
  with assms(1) have "a \<le> n" "n \<le> b"
    by (auto simp: rbind_Inr_iff split: if_splits)
  with assms(2,3) have "\<bar>n\<bar> < 2 ^ 53" by linarith
  with PInt assms(1) \<open>a \<le> n\<close> \<open>n \<le> b\<close> show ?thesis
    by (auto simp: number_small_int simp del: number.simps split: if_splits)
next
  case (PFloat f)
  with assms(1) show ?thesis by (cases f) (auto split: if_splits)
qed (use assms(1) in auto)

lemma number_nonneg: "number v (Some 0) hi = Inr (Some q) \<Longrightarrow> 0 \<le> q"
  by (drule number_Some) (auto simp: out_of_bounds_def fl_nonneg)

lemma number_not_bool [simp]: "number (PBool b) lo hi = Inr None"
  by simp

section \<open>What a snapshot promises\<close>

fun reading_in :: "rat option \<Rightarrow> rat option \<Rightarrow> pyval \<Rightarrow> bool" where
  "reading_in lo hi PNone = True"
| "reading_in lo hi (PFloat (Fin q)) = (\<not> out_of_bounds lo hi q)"
| "reading_in lo hi _ = False"

lemma reading_within:
  assumes "number v (Some (of_int a)) (Some (of_int b)) = Inr r" "\<bar>a\<bar> < 2 ^ 53" "\<bar>b\<bar> < 2 ^ 53"
  shows "reading_in (Some (of_int a)) (Some (of_int b)) (num_val r)"
  using assms number_within[of v a b] by (cases r) (auto simp: not_less)

lemma reading_percent: "number v (Some 0) (Some 100) = Inr r \<Longrightarrow> reading_in (Some 0) (Some 100) (num_val r)"
  using reading_within[of v 0 100 r] by simp

lemma reading_lat: "number v (Some (- 90)) (Some 90) = Inr r \<Longrightarrow> reading_in (Some (- 90)) (Some 90) (num_val r)"
  using reading_within[of v "- 90" 90 r] by simp

lemma reading_lon: "number v (Some (- 180)) (Some 180) = Inr r \<Longrightarrow> reading_in (Some (- 180)) (Some 180) (num_val r)"
  using reading_within[of v "- 180" 180 r] by simp

lemma reading_nonneg: "number v (Some 0) None = Inr r \<Longrightarrow> reading_in (Some 0) None (num_val r)"
  using number_nonneg[of v None] by (cases r) (auto simp: not_less)

lemma reading_finite: "reading_in None None (num_val r)"
  by (cases r) auto

lemma capacity_or_nonneg: "number v (Some 0) None = Inr r \<Longrightarrow> capacity_or r c = Inr b \<Longrightarrow> reading_in (Some 0) None (num_val b)"
  by (auto simp: capacity_or_def reading_nonneg split: option.splits if_splits)

lemmas reading_rules = reading_percent reading_lat reading_lon reading_nonneg reading_finite capacity_or_nonneg

lemma normalize_soc: "normalize m data vin capacity home = Inr s \<Longrightarrow> reading_in (Some 0) (Some 100) (dget s ''soc'')"
  by (auto simp: normalize_def Let_def rbind_Inr_iff reading_percent)

text \<open>
  every numeric field of a normalised snapshot is None or a finite number within its
  physical bounds (percentages in 0..100, coordinates on the globe, distances and capacity
  non-negative), whatever the provider sent; the VIN is the configured one.
\<close>

theorem normalize_ranges:
  assumes "normalize m data vin capacity home = Inr s"
  shows "reading_in (Some 0) (Some 100) (dget s ''soc'') \<and>
    reading_in (Some 0) (Some 100) (dget s ''target_soc'') \<and>
    reading_in (Some 0) None (dget s ''battery_capacity'') \<and>
    reading_in (Some 0) None (dget s ''odometer'') \<and>
    reading_in (Some 0) None (dget s ''range_to_go'') \<and>
    reading_in (Some (- 90)) (Some 90) (dget s ''latitude'') \<and>
    reading_in (Some (- 180)) (Some 180) (dget s ''longitude'') \<and>
    reading_in None None (dget s ''power'') \<and> dget s ''vin'' = vin"
  using assms by (auto simp: normalize_def Let_def rbind_Inr_iff reading_rules)

text \<open>A concrete instance of the C library's functions, for evaluating closed terms.\<close>

definition flat_libm :: libm where
  "flat_libm = \<lparr>m_radians = (\<lambda>q. q * 157 / 9000), m_sin = (\<lambda>q. q), m_cos = (\<lambda>_. 1),
     m_asin = (\<lambda>q. q), m_sqrt = (\<lambda>q. q)\<rparr>"

theorem normalize_ranges_witness:
  "\<exists>s. normalize flat_libm [(''soc'', PInt 80), (''status'', PStr ''C''), (''odometer'', PInt (- 5))]
        (PStr ''V'') PNone (PNone, PNone, PInt 150) = Inr s \<and>
      reading_in (Some 0) (Some 100) (dget s ''soc'') \<and>
      dget s ''soc'' = PFloat (Fin 80) \<and> dget s ''odometer'' = PNone \<and>
      dget s ''charging_state'' = PInt 3"
proof -
  define d where "d = [(''soc'', PInt 80), (''status'', PStr ''C''), (''odometer'', PInt (- 5))]"
  have "is_ok (normalize flat_libm d (PStr ''V'') PNone (PNone, PNone, PInt 150))"
    unfolding d_def by code_simp
  then obtain s where s: "normalize flat_libm d (PStr ''V'') PNone (PNone, PNone, PInt 150) = Inr s"
    by (auto simp: is_ok_iff)
  have "case normalize flat_libm d (PStr ''V'') PNone (PNone, PNone, PInt 150) of
      Inr s \<Rightarrow> dget s ''soc'' = PFloat (Fin 80) \<and> dget s ''odometer'' = PNone \<and>
        dget s ''charging_state'' = PInt 3 | _ \<Rightarrow> False"
    unfolding d_def by code_simp
  with normalize_ranges [OF s] s show ?thesis unfolding d_def by auto
qed

text \<open>
  the home test is evidence-based. A vehicle that reports exactly the configured home position
  is at the site for every valid radius, given that the C library's sine, arcsine and square
  root are 0 at 0; a position or home that is missing or off the globe decides nothing (None).
\<close>

theorem at_site_evidence:
  assumes "m_radians m 0 = 0" "m_sin m 0 = 0" "m_asin m 0 = 0" "m_sqrt m 0 = 0"
    and "number hlat (Some (- 90)) (Some 90) = Inr lat"
    and "number hlon (Some (- 180)) (Some 180) = Inr lon"
    and "number hradius (Some 0) None = Inr radius"
    and "number (dget s ''latitude'') (Some (- 90)) (Some 90) = Inr clat"
    and "number (dget s ''longitude'') (Some (- 180)) (Some 180) = Inr clon"
  shows "at_site m s (hlat, hlon, hradius) =
    (if None \<in> {lat, lon, radius, clat, clon} then Inr PNone
     else Inr (PBool (haversine m (the lat) (the lon) (the clat) (the clon) \<le> the radius))) \<and>
    (lat = clat \<and> lon = clon \<and> None \<notin> {lat, lon, radius} \<longrightarrow>
      at_site m s (hlat, hlon, hradius) = Inr (PBool True))"
proof -
  have "haversine m a b a b = 0" for a b
    using assms(1-4) by (simp add: haversine_def)
  moreover have "0 \<le> r" if "radius = Some r" for r
    using number_nonneg assms(7) that by blast
  ultimately show ?thesis
    using assms(5-9)
    by (auto simp: at_site_def split: option.splits)
qed

lemma flat_libm_0: "m_radians flat_libm 0 = 0" "m_sin flat_libm 0 = 0" "m_asin flat_libm 0 = 0"
    "m_sqrt flat_libm 0 = 0"
  by (simp_all add: flat_libm_def)

theorem at_site_evidence_witness:
  "at_site flat_libm [(''latitude'', PInt 48), (''longitude'', PInt 9)] (PInt 48, PInt 9, PInt 150) =
     Inr (PBool True)"
proof -
  have n: "number (PInt 48) (Some (- 90)) (Some 90) = Inr (Some 48)"
      "number (PInt 9) (Some (- 180)) (Some 180) = Inr (Some 9)"
      "number (PInt 150) (Some 0) None = Inr (Some 150)"
      "number (dget [(''latitude'', PInt 48), (''longitude'', PInt 9)] ''latitude'') (Some (- 90)) (Some 90) =
         Inr (Some 48)"
      "number (dget [(''latitude'', PInt 48), (''longitude'', PInt 9)] ''longitude'') (Some (- 180)) (Some 180) =
         Inr (Some 9)"
    by code_simp+
  show ?thesis
    using conjunct2 [OF at_site_evidence [OF flat_libm_0 n]] by blast
qed

end
