(* ===== verification/Dbus_Service.thy ===== *)
theory Dbus_Service
  imports Vehicle
begin

text \<open>
  \<^verbatim>\<open>dbus_ev/service.py\<close>: the vehicle's D-Bus service. A service is its path-to-value map with the
  paths that have a change callback and the callbacks made so far; \<open>vedbus\<close> says whether the Venus
  OS library is present, in which case values typed as INT32 go through \<^verbatim>\<open>dbus.Int32\<close>.
\<close>

section \<open>The item store of a service\<close>

record dbus_service =
  svc_name :: string
  svc_items :: "string \<rightharpoonup> pyval"
  svc_onchange :: "string list"
  svc_calls :: "(string \<times> pyval) list"

definition null_service :: "string \<Rightarrow> dbus_service" where
  "null_service service_name =
     \<lparr>svc_name = service_name, svc_items = Map.empty, svc_onchange = [], svc_calls = []\<rparr>"

definition add_path :: "string \<Rightarrow> pyval \<Rightarrow> bool \<Rightarrow> dbus_service \<Rightarrow> dbus_service" where
  "add_path path value callback s =
     (let s = s\<lparr>svc_items := (svc_items s)(path \<mapsto> value)\<rparr>
      in if callback then s\<lparr>svc_onchange := path # svc_onchange s\<rparr> else s)"

definition setitem :: "string \<Rightarrow> pyval \<Rightarrow> dbus_service \<Rightarrow> dbus_service" where
  "setitem path value s =
     (let old = (case svc_items s path of None \<Rightarrow> PNone | Some v \<Rightarrow> v);
          s = s\<lparr>svc_items := (svc_items s)(path \<mapsto> value)\<rparr>
      in if path \<in> set (svc_onchange s) \<and> \<not> py_eq old value
         then s\<lparr>svc_calls := svc_calls s @ [(path, value)]\<rparr> else s)"

definition getitem :: "dbus_service \<Rightarrow> string \<Rightarrow> pyval res" where
  "getitem s path = (case svc_items s path of None \<Rightarrow> Inl KeyError | Some v \<Rightarrow> Inr v)"

definition getdefault :: "dbus_service \<Rightarrow> string \<Rightarrow> pyval \<Rightarrow> pyval" where
  "getdefault s path dflt = (case svc_items s path of None \<Rightarrow> dflt | Some v \<Rightarrow> v)"

definition delitem :: "string \<Rightarrow> dbus_service \<Rightarrow> dbus_service res" where
  "delitem path s =
     (if svc_items s path = None then Inl KeyError
      else Inr (s\<lparr>svc_items := (svc_items s)(path := None)\<rparr>))"

definition add_paths :: "(string \<times> pyval) list \<Rightarrow> dbus_service \<Rightarrow> dbus_service" where
  "add_paths pvs s = foldl (\<lambda>s (p, v). add_path p v False s) s pvs"

definition setitems :: "(string \<times> pyval) list \<Rightarrow> dbus_service \<Rightarrow> dbus_service" where
  "setitems pvs s = foldl (\<lambda>s (p, v). setitem p v s) s pvs"

section \<open>The contract of an item store\<close>

text \<open>
  What the services rely on: a write is seen by reads of its path and by no other. A sequence of
  writes to distinct paths can then be read off as a table.
\<close>

locale item_store =
  fixes put :: "string \<Rightarrow> pyval \<Rightarrow> 's \<Rightarrow> 's"
    and read :: "'s \<Rightarrow> string \<Rightarrow> pyval option"
  assumes read_put: "read (put p v s) q = (if q = p then Some v else read s q)"
begin

lemma read_puts:
  "distinct (map fst pvs) \<Longrightarrow>
    read (foldl (\<lambda>s (p, v). put p v s) s pvs) q =
      (case map_of pvs q of Some v \<Rightarrow> Some v | None \<Rightarrow> read s q)"
proof (induction pvs arbitrary: s)
  case Nil
  then show ?case by simp
next
  case (Cons pv pvs)
  obtain p v where pv: "pv = (p, v)" by (cases pv)
  with Cons.prems have "map_of pvs p = None" by (simp add: map_of_eq_None_iff)
  with Cons pv show ?case by (auto simp: read_put split: option.splits)
qed

lemma dom_puts: "dom (read (foldl (\<lambda>s (p, v). put p v s) s pvs)) = fst ` set pvs \<union> dom (read s)"
proof (induction pvs arbitrary: s)
  case (Cons pv pvs)
  have "dom (read (put (fst pv) (snd pv) s)) = insert (fst pv) (dom (read s))"
    by (auto simp: read_put dom_def)
  with Cons[of "put (fst pv) (snd pv) s"] show ?case by (simp add: case_prod_beta)
qed simp

end

interpretation null: item_store setitem svc_items
  by unfold_locales (simp add: setitem_def Let_def)

interpretation decl: item_store "\<lambda>p v s. add_path p v False s" svc_items
  by unfold_locales (simp add: add_path_def)

lemma setitem_items [simp]: "svc_items (setitem p v s) = (svc_items s)(p \<mapsto> v)"
  by (simp add: setitem_def Let_def)

lemmas read_setitems = null.read_puts [folded setitems_def]
lemmas dom_setitems = null.dom_puts [folded setitems_def]
lemmas dom_add_paths = decl.dom_puts [folded add_paths_def]
lemmas read_add_paths = decl.read_puts [folded add_paths_def]

section \<open>The vehicle service\<close>

definition identity_paths ::
    "string \<Rightarrow> string \<Rightarrow> string \<Rightarrow> string \<Rightarrow> int \<Rightarrow> string \<Rightarrow> (string \<times> pyval) list" where
  "identity_paths file product_name version custom_name instance_no connection =
     [(''/Mgmt/ProcessName'', PStr file), (''/Mgmt/ProcessVersion'', PStr version),
      (''/Mgmt/Connection'', PStr connection), (''/DeviceInstance'', PInt instance_no),
      (''/ProductName'', PStr product_name), (''/ProductId'', PInt 0),
      (''/FirmwareVersion'', PStr version), (''/HardwareVersion'', PStr ''n/a''),
      (''/Serial'', PStr (''dbev-'' @ show_int instance_no)), (''/CustomName'', PStr custom_name),
      (''/Connected'', PInt 0)]"

definition STATUS_DISCONNECTED :: int where "STATUS_DISCONNECTED = 0"
definition STATUS_CONNECTED :: int where "STATUS_CONNECTED = 1"
definition STATUS_CHARGING :: int where "STATUS_CHARGING = 2"
definition STATUS_CHARGED :: int where "STATUS_CHARGED = 3"
definition STATUS_WAITING_FOR_SUN :: int where "STATUS_WAITING_FOR_SUN = 4"

definition VEHICLE_PROPS :: "string list" where
  "VEHICLE_PROPS =
     [''/Soc'', ''/TargetSoc'', ''/VIN'', ''/BatteryCapacity'', ''/ChargingState'', ''/Odometer'',
      ''/RangeToGo'', ''/Position/Latitude'', ''/Position/Longitude'', ''/AtSite'', ''/Ac/Power'',
      ''/Ac/L1/Power'']"

definition ev_charger_paths :: "(string \<times> pyval) list" where
  "ev_charger_paths =
     [(''/Status'', PInt STATUS_DISCONNECTED), (''/NrOfPhases'', PInt 1), (''/Position'', PInt 0),
      (''/PositionIsAdjustable'', PInt 0), (''/IsGenericEnergyMeter'', PInt 0), (''/Mode'', PInt 0),
      (''/StartStop'', PInt 0), (''/Ac/Power'', PInt 0), (''/Ac/Energy/Forward'', PInt 0),
      (''/Ac/L1/Power'', PInt 0), (''/Ac/L2/Power'', PNone), (''/Ac/L3/Power'', PNone),
      (''/Ac/L1/Voltage'', PInt 0), (''/Ac/L1/Current'', PInt 0), (''/Current'', PInt 0),
      (''/SetCurrent'', PInt 0), (''/MaxCurrent'', PInt 16), (''/ChargingTime'', PInt 0),
      (''/Session/Energy'', PInt 0)]"

definition ev_vehicle_paths :: "(string \<times> pyval) list" where
  "ev_vehicle_paths =
     [(''/Soc'', PNone), (''/TargetSoc'', PNone), (''/VIN'', PNone), (''/BatteryCapacity'', PNone),
      (''/ChargingState'', PNone), (''/Odometer'', PNone), (''/RangeToGo'', PNone),
      (''/Position/Latitude'', PNone), (''/Position/Longitude'', PNone), (''/AtSite'', PNone)]"

definition ev_init ::
    "string \<Rightarrow> int \<Rightarrow> string \<Rightarrow> string \<Rightarrow> int \<Rightarrow> string \<Rightarrow> string \<Rightarrow> dbus_service" where
  "ev_init file ev_instance version product_name product_id connection bus_suffix =
     (let s = null_service (''com.victronenergy.ev.'' @ bus_suffix);
          s = add_paths (identity_paths file product_name version product_name ev_instance connection) s;
          s = setitem ''/ProductId'' (PInt product_id) s;
          s = add_paths ev_charger_paths s
      in add_paths ev_vehicle_paths s)"

definition update_soc :: "pyval \<Rightarrow> dbus_service \<Rightarrow> dbus_service" where
  "update_soc v s = setitem ''/Soc'' v s"

definition update_target_soc :: "pyval \<Rightarrow> dbus_service \<Rightarrow> dbus_service" where
  "update_target_soc v s = setitem ''/TargetSoc'' v s"

definition update_vin :: "pyval \<Rightarrow> dbus_service \<Rightarrow> dbus_service" where
  "update_vin v s = setitem ''/VIN'' v s"

definition battery_value :: "pyval \<Rightarrow> pyval res" where
  "battery_value capacity =
     (if capacity = PNone then Inr PNone
      else case py_float capacity of
        Inl e \<Rightarrow> if e \<in> set [TypeError, ValueError] then Inr PNone else Inl e
      | Inr (Fin q) \<Rightarrow> Inr (if q < 0 then PNone else PFloat (Fin q))
      | Inr _ \<Rightarrow> Inr PNone)"

definition update_battery_capacity :: "pyval \<Rightarrow> dbus_service \<Rightarrow> dbus_service res" where
  "update_battery_capacity capacity s =
     rbind (battery_value capacity) (\<lambda>v. Inr (setitem ''/BatteryCapacity'' v s))"

text \<open>\<^verbatim>\<open>dbus.Int32(n)\<close> raises \<^verbatim>\<open>OverflowError\<close> outside 32 bits.\<close>

definition int32 :: "int \<Rightarrow> bool" where
  "int32 n = (- (2 ^ 31) \<le> n \<and> n < 2 ^ 31)"

definition update_charging_state :: "bool \<Rightarrow> pyval \<Rightarrow> dbus_service \<Rightarrow> dbus_service res" where
  "update_charging_state vedbus state s =
     (if vedbus \<and> state \<noteq> PNone
      then rbind (py_int state) (\<lambda>n.
             if int32 n then Inr (setitem ''/ChargingState'' (PInt n) s) else Inl OverflowError)
      else Inr (setitem ''/ChargingState'' state s))"

definition update_odometer :: "pyval \<Rightarrow> dbus_service \<Rightarrow> dbus_service" where
  "update_odometer v s = setitem ''/Odometer'' v s"

definition update_range_to_go :: "pyval \<Rightarrow> dbus_service \<Rightarrow> dbus_service" where
  "update_range_to_go v s = setitem ''/RangeToGo'' v s"

definition update_latitude :: "pyval \<Rightarrow> dbus_service \<Rightarrow> dbus_service" where
  "update_latitude v s = setitem ''/Position/Latitude'' v s"

definition update_longitude :: "pyval \<Rightarrow> dbus_service \<Rightarrow> dbus_service" where
  "update_longitude v s = setitem ''/Position/Longitude'' v s"

definition update_at_site :: "pyval \<Rightarrow> dbus_service \<Rightarrow> dbus_service" where
  "update_at_site v s = setitem ''/AtSite'' v s"

text \<open>
  The published power: None unless the value is a finite number of 32-bit range, else truncated.
  \<^verbatim>\<open>math.isfinite\<close> raises \<^verbatim>\<open>TypeError\<close> on a non-number and \<^verbatim>\<open>OverflowError\<close> on a too large int.
\<close>

fun ac_power_value :: "pyval \<Rightarrow> int option res" where
  "ac_power_value PNone = Inr None"
| "ac_power_value (PBool b) = Inr (Some (if b then 1 else 0))"
| "ac_power_value (PInt n) = rbind (float_of_int n) (\<lambda>_. Inr (if int32 n then Some n else None))"
| "ac_power_value (PFloat f) =
     (case f of
        Fin q \<Rightarrow> if - (2 ^ 31) \<le> q \<and> q < 2 ^ 31 then rbind (int_of_float f) (\<lambda>n. Inr (Some n))
                 else Inr None
      | _ \<Rightarrow> Inr None)"
| "ac_power_value _ = Inl TypeError"

definition opt_int :: "int option \<Rightarrow> pyval" where
  "opt_int p = (case p of None \<Rightarrow> PNone | Some n \<Rightarrow> PInt n)"

definition update_ac_power :: "pyval \<Rightarrow> dbus_service \<Rightarrow> dbus_service res" where
  "update_ac_power power_w s =
     rbind (ac_power_value power_w) (\<lambda>p.
       let idle = (if p = None then PNone else PInt 0)
       in Inr (setitems [(''/Ac/Power'', opt_int p), (''/Ac/L1/Power'', opt_int p),
                         (''/Ac/L2/Power'', idle), (''/Ac/L3/Power'', idle)] s))"

definition update_current :: "pyval \<Rightarrow> dbus_service \<Rightarrow> dbus_service" where
  "update_current current_a s = s"

definition ev_set_connected :: "bool \<Rightarrow> dbus_service \<Rightarrow> dbus_service" where
  "ev_set_connected live s = setitem ''/Connected'' (PInt (if live then 1 else 0)) s"

section \<open>Properties\<close>

text \<open>Every update writes a path that the constructor declared: the path set of the service is fixed.\<close>

definition ev_paths :: "string set" where
  "ev_paths = fst ` set (identity_paths [] [] [] [] 0 []) \<union> fst ` set ev_charger_paths \<union> fst ` set ev_vehicle_paths"

definition ev_declared :: "dbus_service \<Rightarrow> bool" where
  "ev_declared s = (dom (svc_items s) = ev_paths)"

lemma dom_setitem_declared: "ev_declared s \<Longrightarrow> p \<in> ev_paths \<Longrightarrow> ev_declared (setitem p v s)"
  by (auto simp: ev_declared_def)

lemma ev_declared_init: "ev_declared (ev_init file n version pname pid conn suffix)"
  by (auto simp: ev_declared_def ev_init_def Let_def dom_add_paths ev_paths_def null_service_def
      identity_paths_def)

lemma identity_in_ev_paths: "''/Connected'' \<in> ev_paths"
  by (simp add: ev_paths_def identity_paths_def)

lemma charger_in_ev_paths: "p \<in> fst ` set ev_charger_paths \<Longrightarrow> p \<in> ev_paths"
  by (simp add: ev_paths_def)

lemma vehicle_in_ev_paths: "p \<in> fst ` set ev_vehicle_paths \<Longrightarrow> p \<in> ev_paths"
  by (simp add: ev_paths_def)

lemma update_declared [inv_intros]:
  "ev_declared s \<Longrightarrow> ev_declared (update_soc v s)"
  "ev_declared s \<Longrightarrow> ev_declared (update_target_soc v s)"
  "ev_declared s \<Longrightarrow> ev_declared (update_vin v s)"
  "ev_declared s \<Longrightarrow> ev_declared (update_odometer v s)"
  "ev_declared s \<Longrightarrow> ev_declared (update_range_to_go v s)"
  "ev_declared s \<Longrightarrow> ev_declared (update_latitude v s)"
  "ev_declared s \<Longrightarrow> ev_declared (update_longitude v s)"
  "ev_declared s \<Longrightarrow> ev_declared (update_at_site v s)"
  "ev_declared s \<Longrightarrow> ev_declared (update_current v s)"
  "ev_declared s \<Longrightarrow> ev_declared (ev_set_connected c s)"
  by (simp_all add: update_soc_def update_target_soc_def update_vin_def update_odometer_def
      update_range_to_go_def update_latitude_def update_longitude_def update_at_site_def
      update_current_def ev_set_connected_def dom_setitem_declared vehicle_in_ev_paths
      identity_in_ev_paths ev_vehicle_paths_def)

lemma update_declared_res [inv_intros]:
  "ev_declared s \<Longrightarrow> update_battery_capacity v s = Inr s' \<Longrightarrow> ev_declared s'"
  "ev_declared s \<Longrightarrow> update_charging_state vb v s = Inr s' \<Longrightarrow> ev_declared s'"
  by (auto simp: update_battery_capacity_def update_charging_state_def rbind_Inr_iff
      dom_setitem_declared vehicle_in_ev_paths ev_vehicle_paths_def split: if_splits)

lemma trunc_int32:
  assumes "int_of_float (Fin q) = Inr n" "- (2 ^ 31) \<le> q" "q < 2 ^ 31"
  shows "int32 n \<and> \<bar>of_int n\<bar> \<le> \<bar>q\<bar> \<and> \<bar>q - of_int n\<bar> < 1"
proof (cases "0 \<le> q")
  case True
  then have "n = \<lfloor>q\<rfloor>" using assms(1) by simp
  moreover have "0 \<le> \<lfloor>q\<rfloor>" "of_int \<lfloor>q\<rfloor> \<le> q" "q < of_int \<lfloor>q\<rfloor> + 1" using True by linarith+
  moreover have "\<lfloor>q\<rfloor> < 2 ^ 31" using assms(3) by (simp add: floor_less_iff)
  ultimately show ?thesis using True by (simp add: int32_def)
next
  case False
  then have n: "n = - \<lfloor>- q\<rfloor>" using assms(1) by simp
  have "0 \<le> \<lfloor>- q\<rfloor>" "of_int \<lfloor>- q\<rfloor> \<le> - q" "- q < of_int \<lfloor>- q\<rfloor> + 1" using False by linarith+
  moreover from this have "\<bar>q + of_int \<lfloor>- q\<rfloor>\<bar> < 1" by linarith
  moreover have "\<lfloor>- q\<rfloor> \<le> 2 ^ 31" using assms(2) by (simp add: floor_le_iff)
  ultimately show ?thesis using False n by (simp add: int32_def)
qed

lemma ac_power_value_int32: "ac_power_value v = Inr (Some n) \<Longrightarrow> int32 n"
proof (cases v)
  case (PFloat f)
  assume "ac_power_value v = Inr (Some n)"
  with PFloat show ?thesis
    using trunc_int32 by (cases f) (auto split: if_splits simp del: int_of_float.simps simp: rbind_Inr_iff)
qed (auto simp: rbind_Inr_iff int32_def split: if_splits)

text \<open>
  the power published for the vehicle is either unknown on all phases or a 32-bit integer on the
  total and on phase 1 with 0 on the unused phases, so an unknown total is never seen as 0 W; no
  other path of the service changes.
\<close>

theorem update_ac_power_phases:
  assumes "update_ac_power power_w s = Inr s'"
  shows "\<exists>p. svc_items s' ''/Ac/Power'' = Some (opt_int p) \<and>
      svc_items s' ''/Ac/L1/Power'' = Some (opt_int p) \<and>
      svc_items s' ''/Ac/L2/Power'' = Some (if p = None then PNone else PInt 0) \<and>
      svc_items s' ''/Ac/L3/Power'' = svc_items s' ''/Ac/L2/Power'' \<and>
      (p = None \<or> int32 (the p)) \<and>
      (\<forall>path. path \<in> {''/Ac/Power'', ''/Ac/L1/Power'', ''/Ac/L2/Power'', ''/Ac/L3/Power''} \<or>
         svc_items s' path = svc_items s path)"
proof -
  from assms obtain p where p: "ac_power_value power_w = Inr p"
    and s': "s' = setitems [(''/Ac/Power'', opt_int p), (''/Ac/L1/Power'', opt_int p),
       (''/Ac/L2/Power'', if p = None then PNone else PInt 0),
       (''/Ac/L3/Power'', if p = None then PNone else PInt 0)] s"
    by (auto simp: update_ac_power_def rbind_Inr_iff Let_def)
  have "p = None \<or> int32 (the p)" using p ac_power_value_int32 by (cases p) auto
  then show ?thesis by (intro exI[of _ p]) (simp add: s' read_setitems)
qed

theorem update_ac_power_phases_witness:
  "\<exists>s'. update_ac_power (PFloat (Fin (2301 / 2))) (null_service ''x'') = Inr s' \<and>
     svc_items s' ''/Ac/Power'' = Some (PInt 1150) \<and> svc_items s' ''/Ac/L3/Power'' = Some (PInt 0)"
proof -
  have a: "ac_power_value (PFloat (Fin (2301 / 2))) = Inr (Some 1150)" by code_simp
  obtain s' where u: "update_ac_power (PFloat (Fin (2301 / 2))) (null_service ''x'') = Inr s'"
      and v: "svc_items s' ''/Ac/Power'' = Some (PInt 1150)"
    unfolding update_ac_power_def a rbind_simps Let_def by (simp add: read_setitems opt_int_def)
  obtain p where p: "svc_items s' ''/Ac/Power'' = Some (opt_int p)"
      "svc_items s' ''/Ac/L2/Power'' = Some (if p = None then PNone else PInt 0)"
      "svc_items s' ''/Ac/L3/Power'' = svc_items s' ''/Ac/L2/Power''"
    using update_ac_power_phases [OF u] by blast
  have "p \<noteq> None" using p(1) v by (cases p) (simp_all add: opt_int_def)
  with u v p(2,3) show ?thesis by simp
qed

text \<open>
  the battery capacity path only ever holds a finite non-negative number or the invalid value,
  whatever text or number the configuration or provider supplied; the only exception that can
  escape is the overflow of an integer that no double can hold.
\<close>

theorem battery_capacity_published:
  "(\<exists>s' v. update_battery_capacity capacity s = Inr s' \<and>
      svc_items s' ''/BatteryCapacity'' = Some v \<and> reading_in (Some 0) None v) \<or>
   (update_battery_capacity capacity s = Inl OverflowError \<and>
      (\<exists>n. capacity = PInt n \<and> float_of_int n = Inl OverflowError))"
proof (cases "battery_value capacity")
  case (Inr v)
  then have "reading_in (Some 0) None v"
    by (auto simp: battery_value_def not_less split: if_splits sum.splits pyfloat.splits)
  with Inr show ?thesis by (simp add: update_battery_capacity_def)
next
  case (Inl e)
  then have "py_float capacity = Inl e" "e \<noteq> TypeError" "e \<noteq> ValueError"
    by (auto simp: battery_value_def split: if_splits sum.splits pyfloat.splits)
  moreover then have "e = OverflowError" using py_float_errors by blast
  ultimately have "\<exists>n. capacity = PInt n \<and> float_of_int n = Inl OverflowError"
    by (cases capacity) (auto split: option.splits)
  with Inl \<open>e = OverflowError\<close> show ?thesis by (simp add: update_battery_capacity_def)
qed

end
