(* ===== verification/Ha_Client.thy ===== *)
theory Ha_Client
  imports Vehicle
begin

text \<open>
  \<^verbatim>\<open>dbus_ev/ha_client.py\<close>: the Home Assistant client. The circuit breaker, the parsers of HA state
  strings, the charging-state table, unit normalisation, the template and one \<^verbatim>\<open>poll\<close>. The HTTP
  exchange is an input of \<open>poll\<close>: a timeout, a transport error, or a status with the decoded body.
\<close>

section \<open>Circuit breaker\<close>

record breaker =
  br_threshold :: int
  br_reset_timeout :: time
  br_failures :: int
  br_opened_at :: "time option"

definition new_breaker :: "int \<Rightarrow> time \<Rightarrow> breaker" where
  "new_breaker threshold reset_timeout =
     \<lparr>br_threshold = threshold, br_reset_timeout = reset_timeout, br_failures = 0, br_opened_at = None\<rparr>"

definition br_is_open :: "time \<Rightarrow> breaker \<Rightarrow> bool \<times> breaker" where
  "br_is_open now b =
     (case br_opened_at b of
        None \<Rightarrow> (False, b)
      | Some t \<Rightarrow>
          if br_reset_timeout b \<le> now - t
          then (False, b\<lparr>br_opened_at := None, br_failures := br_threshold b - 1\<rparr>)
          else (True, b))"

definition record_success :: "breaker \<Rightarrow> breaker" where
  "record_success b = b\<lparr>br_failures := 0, br_opened_at := None\<rparr>"

definition record_failure :: "time \<Rightarrow> breaker \<Rightarrow> breaker" where
  "record_failure now b =
     (let b' = b\<lparr>br_failures := br_failures b + 1\<rparr>
      in if br_opened_at b' = None \<and> br_threshold b' \<le> br_failures b'
         then b'\<lparr>br_opened_at := Some now\<rparr> else b')"

section \<open>State strings\<close>

definition unavailable_words :: "string list" where
  "unavailable_words = [''none'', ''unknown'', ''unavailable'']"

definition state_float :: "pyval \<Rightarrow> rat option" where
  "state_float v =
     (if v = PNone then None
      else let s = strip (py_str v)
           in if s = [] \<or> lower s \<in> set unavailable_words then None
              else case parse_float s of Some (Fin q) \<Rightarrow> Some q | _ \<Rightarrow> None)"

definition state_text :: "pyval \<Rightarrow> string option" where
  "state_text v =
     (if v = PNone then None
      else let s = strip (py_str v)
           in if s = [] \<or> lower s \<in> set unavailable_words then None else Some s)"

definition state_is_on :: "pyval \<Rightarrow> bool option" where
  "state_is_on v =
     (let s = (if v = PNone then [] else lower (strip (py_str v)))
      in if s \<in> set [''unavailable'', ''unknown'', [], ''none''] then None
         else Some (s \<in> set [''on'', ''true'', ''yes'']))"

definition is_ha_entity :: "string \<Rightarrow> bool" where
  "is_ha_entity value = (value \<noteq> [] \<and> CHR ''.'' \<in> set value)"

section \<open>Charging state\<close>

definition CHARGING_STATE_MAP :: "(string \<times> int) list" where
  "CHARGING_STATE_MAP =
     [(''0'', 3), (''1'', 244), (''2'', 250), (''3'', 0), (''4'', 255), (''5'', 3), (''6'', 3),
      (''7'', 256), (''8'', 0), (''9'', 3), (''10'', 3), (''11'', 3), (''12'', 244), (''13'', 3),
      (''14'', 3), (''15'', 244), (''16'', 255),
      (''charging'', 3), (''not charging'', 0), (''discharging'', 256), (''sustain'', 244),
      (''blocked'', 250)]"

definition map_charging_state :: "string option \<Rightarrow> int option" where
  "map_charging_state state =
     (case state of None \<Rightarrow> None
      | Some s \<Rightarrow>
          let key = lower (strip s)
          in if key \<in> set [''unavailable'', ''unknown''] then Some 255
             else case map_of CHARGING_STATE_MAP key of None \<Rightarrow> Some 255 | Some n \<Rightarrow> Some n)"

section \<open>The template\<close>

definition TEMPLATE_BODY :: string where
  "TEMPLATE_BODY =
     (let q = CHR 0x27; nl = CHR 0x0A in
      foldr (\<lambda>l acc. l @ (if acc = [] then [] else nl # acc)) [
      ''{{ {'',
      ''  \"soc\": states('' @ [q] @ ''@SOC@'' @ [q] @ '') | string,'',
      ''  \"target_soc\": states('' @ [q] @ ''@TARGET_SOC@'' @ [q] @ '') | string if '' @ [q] @ ''@TARGET_SOC@'' @ [q] @ '' != '' @ [q] @ [q] @ '' else none,'',
      ''  \"vin\": states('' @ [q] @ ''@VIN_ENTITY@'' @ [q] @ '') | string if '' @ [q] @ ''@VIN_ENTITY@'' @ [q] @ '' != '' @ [q] @ [q] @ '' else '' @ [q] @ ''@VIN_VALUE@'' @ [q] @ '','',
      ''  \"battery_capacity\": states('' @ [q] @ ''@BATTERY_CAPACITY@'' @ [q] @ '') | string if '' @ [q] @ ''@BATTERY_CAPACITY@'' @ [q] @ '' != '' @ [q] @ [q] @ '' else none,'',
      ''  \"charging_state\": states('' @ [q] @ ''@CHARGING_STATE@'' @ [q] @ '') | string if '' @ [q] @ ''@CHARGING_STATE@'' @ [q] @ '' != '' @ [q] @ [q] @ '' else none,'',
      ''  \"odometer\": states('' @ [q] @ ''@ODOMETER@'' @ [q] @ '') | string if '' @ [q] @ ''@ODOMETER@'' @ [q] @ '' != '' @ [q] @ [q] @ '' else none,'',
      ''  \"range_to_go\": states('' @ [q] @ ''@RANGE_TO_GO@'' @ [q] @ '') | string if '' @ [q] @ ''@RANGE_TO_GO@'' @ [q] @ '' != '' @ [q] @ [q] @ '' else none,'',
      ''  \"latitude\": states('' @ [q] @ ''@LATITUDE@'' @ [q] @ '') | string if '' @ [q] @ ''@LATITUDE@'' @ [q] @ '' != '' @ [q] @ [q] @ '' else none,'',
      ''  \"longitude\": states('' @ [q] @ ''@LONGITUDE@'' @ [q] @ '') | string if '' @ [q] @ ''@LONGITUDE@'' @ [q] @ '' != '' @ [q] @ [q] @ '' else none,'',
      ''  \"at_site\": states('' @ [q] @ ''@AT_SITE@'' @ [q] @ '') | string if '' @ [q] @ ''@AT_SITE@'' @ [q] @ '' != '' @ [q] @ [q] @ '' else none,'',
      ''  \"current\": states('' @ [q] @ ''@CURRENT@'' @ [q] @ '') | string if '' @ [q] @ ''@CURRENT@'' @ [q] @ '' != '' @ [q] @ [q] @ '' else none,'',
      ''  \"power\": states('' @ [q] @ ''@POWER@'' @ [q] @ '') | string if '' @ [q] @ ''@POWER@'' @ [q] @ '' != '' @ [q] @ [q] @ '' else none,'',
      ''  \"power_unit\": state_attr('' @ [q] @ ''@POWER@'' @ [q] @ '', '' @ [q] @ ''unit_of_measurement'' @ [q] @ '') if '' @ [q] @ ''@POWER@'' @ [q] @ '' != '' @ [q] @ [q] @ '' else none,'',
      ''  \"odometer_unit\": state_attr('' @ [q] @ ''@ODOMETER@'' @ [q] @ '', '' @ [q] @ ''unit_of_measurement'' @ [q] @ '') if '' @ [q] @ ''@ODOMETER@'' @ [q] @ '' != '' @ [q] @ [q] @ '' else none,'',
      ''  \"range_to_go_unit\": state_attr('' @ [q] @ ''@RANGE_TO_GO@'' @ [q] @ '', '' @ [q] @ ''unit_of_measurement'' @ [q] @ '') if '' @ [q] @ ''@RANGE_TO_GO@'' @ [q] @ '' != '' @ [q] @ [q] @ '' else none'',
      ''} | to_json }}''] [])"

record ha_entities =
  soc_entity :: string
  target_soc_entity :: string
  vin_entity :: string
  battery_capacity_entity :: string
  charging_state_entity :: string
  odometer_entity :: string
  range_to_go_entity :: string
  latitude_entity :: string
  longitude_entity :: string
  at_site_entity :: string
  current_entity :: string
  power_entity :: string

definition build_template :: "ha_entities \<Rightarrow> string" where
  "build_template e =
     (let bs = [CHR 0x5C]; q = [CHR 0x27];
          vin_entity_token = (if is_ha_entity (vin_entity e) then vin_entity e else []);
          vin_value_token =
            (if is_ha_entity (vin_entity e) then []
             else replace_str q (q @ q) (replace_str bs (bs @ bs) (vin_entity e)))
      in foldl (\<lambda>t (token, value). replace_str token value t) TEMPLATE_BODY
           [(''@SOC@'', soc_entity e), (''@TARGET_SOC@'', target_soc_entity e),
            (''@VIN_ENTITY@'', vin_entity_token), (''@VIN_VALUE@'', vin_value_token),
            (''@BATTERY_CAPACITY@'', battery_capacity_entity e),
            (''@CHARGING_STATE@'', charging_state_entity e), (''@ODOMETER@'', odometer_entity e),
            (''@RANGE_TO_GO@'', range_to_go_entity e), (''@LATITUDE@'', latitude_entity e),
            (''@LONGITUDE@'', longitude_entity e), (''@AT_SITE@'', at_site_entity e),
            (''@CURRENT@'', current_entity e), (''@POWER@'', power_entity e)])"

section \<open>Units\<close>

definition km_per_mile :: rat where
  \<comment> \<open>the double nearest to 1.609344\<close>
  "km_per_mile = 226495032459717 / 140737488355328"

definition power_units :: "(string \<times> rat) list" where
  "power_units = [(''kw'', 1000)]"

definition distance_units :: "(string \<times> rat) list" where
  "distance_units = [(''mi'', km_per_mile), (''mile'', km_per_mile), (''miles'', km_per_mile)]"

definition normalize_unit ::
    "rat option \<Rightarrow> string \<Rightarrow> (string \<times> rat) list \<Rightarrow> string list \<Rightarrow> pyval \<Rightarrow> rat option" where
  "normalize_unit value entity unit_map accepted unit =
     (case value of None \<Rightarrow> None
      | Some v \<Rightarrow>
          if entity = [] then value
          else let u = lower (if truthy unit then py_str unit else [])
               in case map_of unit_map u of
                    Some c \<Rightarrow> finite_or_none (fl (v * c))
                  | None \<Rightarrow>
                      if u = [] \<or> u \<notin> set accepted
                      then case map_of unit_map ''kw'' of
                             Some c \<Rightarrow> finite_or_none (fl (v * c))
                           | None \<Rightarrow> value
                      else value)"

section \<open>One poll\<close>

definition last_known_keys :: "string list" where
  "last_known_keys =
     [''soc'', ''target_soc'', ''vin'', ''battery_capacity'', ''charging_state'', ''odometer'',
      ''range_to_go'', ''latitude'', ''longitude'', ''at_site'', ''current'', ''power'']"

record ha_client =
  hc_entities :: ha_entities
  hc_configured :: bool
  hc_breaker :: breaker
  hc_last_known :: pydict
  hc_last_error_log :: time

definition new_ha_client :: "string \<Rightarrow> string \<Rightarrow> ha_entities \<Rightarrow> breaker option \<Rightarrow> ha_client" where
  "new_ha_client base_url token entities brk =
     \<lparr>hc_entities = entities, hc_configured = (base_url \<noteq> [] \<and> token \<noteq> []),
      hc_breaker = (case brk of None \<Rightarrow> new_breaker 5 60 | Some b \<Rightarrow> b),
      hc_last_known = map (\<lambda>k. (k, PNone)) last_known_keys, hc_last_error_log = 0\<rparr>"

text \<open>
  The HTTP exchange: requests' timeout, any other transport error, or a reply with its status and
  \<^verbatim>\<open>json.loads(resp.text)\<close> (\<open>Inl ValueError\<close> for invalid JSON).
\<close>

datatype ha_exchange = Timeout | TransportError | Reply int "pyval res"

definition log_error_throttled :: "time \<Rightarrow> ha_client \<Rightarrow> ha_client" where
  "log_error_throttled now c =
     (if 60 \<le> now - hc_last_error_log c then c\<lparr>hc_last_error_log := now\<rparr> else c)"

fun text_val :: "string option \<Rightarrow> pyval" where
  "text_val None = PNone"
| "text_val (Some s) = PStr s"

fun int_val :: "int option \<Rightarrow> pyval" where
  "int_val None = PNone"
| "int_val (Some n) = PInt n"

fun bool_val :: "bool option \<Rightarrow> pyval" where
  "bool_val None = PNone"
| "bool_val (Some b) = PBool b"

definition power_accepted :: "string list" where
  "power_accepted = [''kw'', ''w'', ''watt'']"

definition distance_accepted :: "string list" where
  "distance_accepted = [''mi'', ''mile'', ''miles'', ''km'', ''kilometer'', ''kilometre'', ''kilo'']"

definition decode_states :: "ha_entities \<Rightarrow> pydict \<Rightarrow> pydict" where
  "decode_states e data =
     [(''soc'', num_val (state_float (dget data ''soc''))),
      (''target_soc'', num_val (state_float (dget data ''target_soc''))),
      (''vin'', text_val (state_text (dget data ''vin''))),
      (''battery_capacity'', num_val (state_float (dget data ''battery_capacity''))),
      (''charging_state'', int_val (map_charging_state (state_text (dget data ''charging_state'')))),
      (''odometer'', num_val (normalize_unit (state_float (dget data ''odometer'')) (odometer_entity e)
          distance_units distance_accepted (dget data ''odometer_unit''))),
      (''range_to_go'', num_val (normalize_unit (state_float (dget data ''range_to_go''))
          (range_to_go_entity e) distance_units distance_accepted (dget data ''range_to_go_unit''))),
      (''latitude'', num_val (state_float (dget data ''latitude''))),
      (''longitude'', num_val (state_float (dget data ''longitude''))),
      (''at_site'', bool_val (state_is_on (dget data ''at_site''))),
      (''current'', num_val (state_float (dget data ''current''))),
      (''power'', num_val (normalize_unit (state_float (dget data ''power'')) (power_entity e)
          power_units power_accepted (dget data ''power_unit'')))]"

definition poll_failed :: "time \<Rightarrow> pydict \<Rightarrow> ha_client \<Rightarrow> pydict res \<times> ha_client" where
  "poll_failed now result c =
     (Inr result, log_error_throttled now (c\<lparr>hc_breaker := record_failure now (hc_breaker c)\<rparr>))"

text \<open>
  \<open>now\<close> is read for the breaker test, \<open>later\<close> when the exchange has ended. An exception of
  \<^verbatim>\<open>json.loads\<close> other than \<^verbatim>\<open>ValueError\<close> is not caught.
\<close>

definition ha_poll :: "time \<Rightarrow> time \<Rightarrow> ha_exchange \<Rightarrow> ha_client \<Rightarrow> pydict res \<times> ha_client" where
  "ha_poll now later exchange c =
     (let result = dset ''ok'' (PBool False) (hc_last_known c) in
      if \<not> hc_configured c then (Inr result, log_error_throttled now c)
      else case br_is_open now (hc_breaker c) of (open_now, b) \<Rightarrow>
        let c = c\<lparr>hc_breaker := b\<rparr> in
        if open_now then (Inr result, c)
        else case exchange of
          Timeout \<Rightarrow> poll_failed later result c
        | TransportError \<Rightarrow> poll_failed later result c
        | Reply status body \<Rightarrow>
            if status \<noteq> 200 then poll_failed later result c
            else (case body of
              Inl e \<Rightarrow> if e = ValueError then poll_failed later result c else (Inl e, c)
            | Inr v \<Rightarrow>
                (case v of
                  PDict data \<Rightarrow>
                    let states = decode_states (hc_entities c) data;
                        result = dset ''ok'' (PBool (dget states ''soc'' \<noteq> PNone))
                                   (dupdate result states);
                        c = c\<lparr>hc_last_known := map (\<lambda>k. (k, dget result k)) last_known_keys\<rparr>
                    in (Inr result, c\<lparr>hc_breaker := record_success (hc_breaker c)\<rparr>)
                | _ \<Rightarrow> poll_failed later result c)))"

section \<open>The circuit breaker\<close>

text \<open>
  What the client keeps: the breaker is open exactly when a deadline is set, and then the failure
  count has reached the threshold; while it is closed the count is below the threshold.
\<close>

definition breaker_inv :: "breaker \<Rightarrow> bool" where
  "breaker_inv b =
     (0 < br_threshold b \<and> 0 \<le> br_failures b \<and>
      (br_opened_at b = None \<longleftrightarrow> br_failures b < br_threshold b))"

lemma breaker_inv_new [inv_intros]: "0 < n \<Longrightarrow> breaker_inv (new_breaker n r)"
  by (simp add: breaker_inv_def new_breaker_def)

lemma breaker_inv_is_open [inv_intros]: "breaker_inv b \<Longrightarrow> breaker_inv (snd (br_is_open now b))"
  by (auto simp: breaker_inv_def br_is_open_def split: option.splits)

lemma breaker_inv_success [inv_intros]: "breaker_inv b \<Longrightarrow> breaker_inv (record_success b)"
  by (simp add: breaker_inv_def record_success_def)

lemma breaker_inv_failure [inv_intros]: "breaker_inv b \<Longrightarrow> breaker_inv (record_failure now b)"
  by (auto simp: breaker_inv_def record_failure_def Let_def)

fun breaker_failures :: "time list \<Rightarrow> breaker \<Rightarrow> breaker" where
  "breaker_failures [] b = b"
| "breaker_failures (t # ts) b = breaker_failures ts (record_failure t b)"

lemma breaker_failures_params [simp]:
  "br_threshold (breaker_failures ts b) = br_threshold b"
  "br_reset_timeout (breaker_failures ts b) = br_reset_timeout b"
  by (induction ts arbitrary: b) (simp_all add: record_failure_def Let_def)

lemma breaker_failures_count: "br_failures (breaker_failures ts b) = br_failures b + int (length ts)"
  by (induction ts arbitrary: b) (simp_all add: record_failure_def Let_def)

lemma breaker_inv_failures: "breaker_inv b \<Longrightarrow> breaker_inv (breaker_failures ts b)"
  by (induction ts arbitrary: b) (simp_all add: breaker_inv_failure)

lemma breaker_failures_keep_open:
  "br_opened_at b = Some t \<Longrightarrow> br_opened_at (breaker_failures ts b) = Some t"
  by (induction ts arbitrary: b) (simp_all add: record_failure_def Let_def)

lemma breaker_failures_opened_at:
  "breaker_inv b \<Longrightarrow> br_failures b + int (length ts) = br_threshold b \<Longrightarrow> ts \<noteq> [] \<Longrightarrow>
    br_opened_at (breaker_failures ts b) = Some (last ts)"
proof (induction ts arbitrary: b)
  case (Cons t ts)
  show ?case
  proof (cases "ts = []")
    case True
    with Cons.prems show ?thesis by (auto simp: breaker_inv_def record_failure_def Let_def)
  next
    case False
    have "br_failures (record_failure t b) + int (length ts) = br_threshold (record_failure t b)"
      using Cons.prems(2) by (simp add: record_failure_def Let_def)
    with Cons False show ?thesis by (simp add: breaker_inv_failure)
  qed
qed simp

lemma br_is_open_Some:
  "br_opened_at b = Some t \<Longrightarrow> fst (br_is_open now b) = (now < t + br_reset_timeout b)"
  by (auto simp: br_is_open_def)

lemma br_half_open:
  "br_opened_at b = Some t \<Longrightarrow> t + br_reset_timeout b \<le> now \<Longrightarrow>
    snd (br_is_open now b) = b\<lparr>br_opened_at := None, br_failures := br_threshold b - 1\<rparr>"
  by (auto simp: br_is_open_def)

lemma breaker_closed_below:
  "breaker_inv b \<Longrightarrow> br_failures b < br_threshold b \<Longrightarrow> \<not> fst (br_is_open now b)"
  by (auto simp: breaker_inv_def br_is_open_def)

text \<open>
  after a success, fewer consecutive failures than \<^verbatim>\<open>threshold\<close> leave the breaker closed; the
  failure that reaches the threshold opens it for \<^verbatim>\<open>reset_timeout\<close> seconds from that failure;
  afterwards one attempt is let through, and if that attempt fails the breaker opens again at once.
\<close>

theorem breaker_opens_and_recovers:
  assumes inv: "breaker_inv b" and len: "int (length ts) = br_threshold b"
    and b': "b' = breaker_failures ts (record_success b)"
  shows "\<not> fst (br_is_open now (breaker_failures (butlast ts) (record_success b))) \<and>
    fst (br_is_open now b') = (now < last ts + br_reset_timeout b) \<and>
    (last ts + br_reset_timeout b \<le> now \<longrightarrow>
      fst (br_is_open t (record_failure later (snd (br_is_open now b')))) =
        (t < later + br_reset_timeout b))"
proof -
  have ne: "ts \<noteq> []" and inv0: "breaker_inv (record_success b)"
    using inv len by (auto simp: breaker_inv_success) (simp add: breaker_inv_def)
  have closed: "\<not> fst (br_is_open now (breaker_failures (butlast ts) (record_success b)))"
    using ne len
    by (intro breaker_closed_below breaker_inv_failures inv0, cases ts rule: rev_cases)
       (simp_all add: breaker_failures_count record_success_def)
  have "br_opened_at b' = Some (last ts)"
    unfolding b' using inv0 len ne by (intro breaker_failures_opened_at) (simp_all add: record_success_def)
  moreover have "br_reset_timeout b' = br_reset_timeout b" by (simp add: b' record_success_def)
  ultimately show ?thesis using closed
    by (auto simp: br_is_open_Some br_half_open record_failure_def Let_def)
qed

theorem breaker_opens_and_recovers_witness:
  "breaker_inv (new_breaker 2 60) \<and>
    fst (br_is_open 65 (breaker_failures [1, 7] (record_success (new_breaker 2 60)))) = True \<and>
    \<not> fst (br_is_open 65 (breaker_failures [1] (record_success (new_breaker 2 60))))"
proof -
  have h: "breaker_inv (new_breaker 2 60)" "int (length [1, 7 :: rat]) = br_threshold (new_breaker 2 60)"
    by (simp_all add: breaker_inv_new) (simp add: new_breaker_def)
  show ?thesis
    using breaker_opens_and_recovers [OF h refl, of 65] h(1) by (simp add: new_breaker_def)
qed

section \<open>The poll\<close>

fun exchange_fails :: "ha_exchange \<Rightarrow> bool" where
  "exchange_fails Timeout = True"
| "exchange_fails TransportError = True"
| "exchange_fails (Reply status (Inl e)) = (status \<noteq> 200 \<or> e = ValueError)"
| "exchange_fails (Reply status (Inr v)) = (status \<noteq> 200 \<or> \<not> is_dict v)"

lemma log_error_throttled_frame [simp]:
  "hc_breaker (log_error_throttled now c) = hc_breaker c"
  "hc_last_known (log_error_throttled now c) = hc_last_known c"
  "hc_configured (log_error_throttled now c) = hc_configured c"
  "hc_entities (log_error_throttled now c) = hc_entities c"
  by (simp_all add: log_error_throttled_def)

lemma dlookup_decode_states:
  "k \<in> set last_known_keys \<Longrightarrow> map_of (decode_states e data) k = Some (dget (decode_states e data) k)"
  by (auto simp: last_known_keys_def decode_states_def)

lemma keys_decode_states: "map fst (decode_states e data) = 
    [''soc'', ''target_soc'', ''vin'', ''battery_capacity'', ''charging_state'', ''odometer'',
      ''range_to_go'', ''latitude'', ''longitude'', ''at_site'', ''current'', ''power'']"
  by (simp add: decode_states_def)

lemma poll_failure_eq:
  assumes "hc_configured c" "\<not> fst (br_is_open now (hc_breaker c))" "exchange_fails x"
  shows "ha_poll now later x c =
    poll_failed later (dset ''ok'' (PBool False) (hc_last_known c))
      (c\<lparr>hc_breaker := snd (br_is_open now (hc_breaker c))\<rparr>)"
proof -
  obtain b where "br_is_open now (hc_breaker c) = (False, b)"
    using assms(2) by (cases "br_is_open now (hc_breaker c)") auto
  with assms(1,3) show ?thesis
    by (cases x rule: exchange_fails.cases) (auto simp: ha_poll_def Let_def split: pyval.split)
qed

text \<open>
  a poll that fails for any reason the client handles (timeout, transport error, HTTP status,
  invalid JSON, a body that is not an object) answers with the last good values marked not ok,
  keeps those values for the next poll and counts exactly one failure on the breaker.
\<close>

theorem poll_failure_serves_last_known:
  assumes "hc_configured c" and "\<not> fst (br_is_open now (hc_breaker c))" and "exchange_fails x"
  shows "\<exists>r. fst (ha_poll now later x c) = Inr r \<and> dget r ''ok'' = PBool False \<and>
    (\<forall>k. k \<noteq> ''ok'' \<longrightarrow> dget r k = dget (hc_last_known c) k) \<and>
    hc_last_known (snd (ha_poll now later x c)) = hc_last_known c \<and>
    hc_breaker (snd (ha_poll now later x c)) =
      record_failure later (snd (br_is_open now (hc_breaker c)))"
  unfolding poll_failure_eq [OF assms] by (simp add: poll_failed_def)

lemma poll_open_silent:
  assumes "hc_configured c" and "fst (br_is_open now (hc_breaker c))"
  shows "ha_poll now later x c = (Inr (dset ''ok'' (PBool False) (hc_last_known c)), c)"
proof -
  have "br_is_open now (hc_breaker c) = (True, hc_breaker c)"
    using assms(2) by (auto simp: br_is_open_def split: option.splits if_splits)
  with assms(1) show ?thesis by (simp add: ha_poll_def)
qed

text \<open>
  a poll answers ok exactly when this very exchange delivered a JSON object with a numeric
  state of charge; the values it reports are then the decoded states, they become the last good
  values, and the breaker is reset.
\<close>

theorem poll_ok_is_live:
  assumes p: "ha_poll now later x c = (Inr r, c')" and ok: "dget r ''ok'' = PBool True"
  shows "\<exists>data. x = Reply 200 (Inr (PDict data)) \<and> hc_configured c \<and>
    state_float (dget data ''soc'') \<noteq> None \<and>
    (\<forall>k \<in> set last_known_keys. dget r k = dget (decode_states (hc_entities c) data) k \<and>
       dget (hc_last_known c') k = dget r k) \<and>
    br_failures (hc_breaker c') = 0 \<and> br_opened_at (hc_breaker c') = None"
proof -
  have conf: "hc_configured c"
    using p ok by (auto simp: ha_poll_def Let_def split: if_splits)
  have shut: "\<not> fst (br_is_open now (hc_breaker c))"
    using p ok poll_open_silent[OF conf] by fastforce
  have "\<not> exchange_fails x"
    using p ok poll_failure_eq[OF conf shut, of x later] by (auto simp: poll_failed_def)
  moreover have "\<nexists>e. x = Reply 200 (Inl e) \<and> e \<noteq> ValueError"
    using p conf shut by (auto simp: ha_poll_def Let_def split: prod.splits if_splits)
  ultimately obtain data where x: "x = Reply 200 (Inr (PDict data))"
    by (cases x rule: exchange_fails.cases) (auto elim: is_dictE)
  define states where "states = decode_states (hc_entities c) data"
  define r0 where "r0 = dset ''ok'' (PBool (dget states ''soc'' \<noteq> PNone))
    (dupdate (dset ''ok'' (PBool False) (hc_last_known c)) states)"
  obtain b where b: "br_is_open now (hc_breaker c) = (False, b)"
    using shut by (cases "br_is_open now (hc_breaker c)") auto
  have r: "r = r0" and c': "hc_last_known c' = map (\<lambda>k. (k, dget r0 k)) last_known_keys"
      "hc_breaker c' = record_success b"
    using p conf b by (auto simp: ha_poll_def Let_def x r0_def states_def)
  have vals: "dget r0 k = dget states k" if "k \<in> set last_known_keys" for k
  proof -
    have "k \<noteq> ''ok''" "k \<in> fst ` set states" "distinct (map fst states)"
      using that by (auto simp: last_known_keys_def states_def decode_states_def)
    then show ?thesis by (simp add: r0_def dget_dupdate)
  qed
  have "dget states ''soc'' \<noteq> PNone" using ok by (simp add: r r0_def)
  then have "state_float (dget data ''soc'') \<noteq> None"
    by (auto simp: states_def decode_states_def)
  with x conf vals c' show ?thesis
    by (auto simp: r states_def dget_tabulate record_success_def)
qed

text \<open>A configured client whose entities are unnamed, for evaluating closed terms.\<close>

definition demo_entities :: ha_entities where
  "demo_entities =
     \<lparr>soc_entity = ''s.soc'', target_soc_entity = [], vin_entity = ''V'', battery_capacity_entity = [],
      charging_state_entity = [], odometer_entity = [], range_to_go_entity = [],
      latitude_entity = [], longitude_entity = [], at_site_entity = [], current_entity = [],
      power_entity = ''s.p''\<rparr>"

definition demo_client :: ha_client where
  "demo_client = new_ha_client ''http://ha'' ''token'' demo_entities None"

lemma demo_client_ready:
  "hc_configured demo_client" "\<not> fst (br_is_open now (hc_breaker demo_client))"
  by (simp_all add: demo_client_def new_ha_client_def new_breaker_def br_is_open_def)

theorem poll_failure_serves_last_known_witness:
  "exchange_fails (Reply 503 (Inr (PDict []))) \<and>
    (\<exists>r. fst (ha_poll 5 6 (Reply 503 (Inr (PDict []))) demo_client) = Inr r \<and>
       dget r ''ok'' = PBool False)"
proof -
  have f: "exchange_fails (Reply 503 (Inr (PDict [])))" by simp
  show ?thesis
    using poll_failure_serves_last_known [OF demo_client_ready f, of 5 6] f by blast
qed

theorem poll_ok_is_live_witness:
  "\<exists>r c'. ha_poll 5 6 (Reply 200 (Inr (PDict [(''soc'', PStr ''81.5'')]))) demo_client = (Inr r, c') \<and>
     dget r ''ok'' = PBool True \<and> dget (hc_last_known c') ''soc'' = dget r ''soc'' \<and>
     br_failures (hc_breaker c') = 0"
proof -
  have "case ha_poll 5 6 (Reply 200 (Inr (PDict [(''soc'', PStr ''81.5'')]))) demo_client of
      (Inr r, c') \<Rightarrow> dget r ''ok'' = PBool True | _ \<Rightarrow> False"
    by code_simp
  then obtain r c' where p: "ha_poll 5 6 (Reply 200 (Inr (PDict [(''soc'', PStr ''81.5'')]))) demo_client = (Inr r, c')"
      and ok: "dget r ''ok'' = PBool True"
    by (auto split: prod.splits sum.splits)
  have "''soc'' \<in> set last_known_keys" by (simp add: last_known_keys_def)
  with poll_ok_is_live [OF p ok] p ok show ?thesis by blast
qed

lemma map_of_snd: "map_of m k = Some v \<Longrightarrow> v \<in> snd ` set m"
  by (force dest: map_of_SomeD)

text \<open>The translation is total on text, and text outside the table is 255 (unavailable).\<close>

lemma map_charging_state_total:
  "\<exists>n. map_charging_state (Some s) = Some n \<and> n \<in> {0, 3, 244, 250, 255, 256} \<and>
    (n = 255 \<or> lower (strip s) \<in> fst ` set CHARGING_STATE_MAP)"
proof -
  have range: "n \<in> {0, 3, 244, 250, 255, 256} \<and> k \<in> fst ` set CHARGING_STATE_MAP"
    if "map_of CHARGING_STATE_MAP k = Some n" for k n
    using map_of_snd[OF that] map_of_SomeD[OF that] by (force simp: CHARGING_STATE_MAP_def)
  show ?thesis
    using range[of "lower (strip s)"] by (auto simp: map_charging_state_def Let_def split: option.splits)
qed

end
