(* ===== verification/Charger.thy ===== *)
theory Charger
  imports Dbus_Service Ha_Client
begin

text \<open>
  \<^verbatim>\<open>dbus_ev/charger_service.py\<close> (the charger's D-Bus service, its paths and update methods) and
  \<^verbatim>\<open>dbus_ev/charger.py\<close> (the projection of one vehicle snapshot and an optional local meter onto it).
\<close>

section \<open>The charger service\<close>

record ev_charger =
  chg_instance :: int
  chg_registered :: bool
  chg_bus_registrations :: nat
  chg_svc :: dbus_service

text \<open>\<open>_round_valid\<close>: None for anything that is not a finite number, else rounded.\<close>

definition round_valid :: "pyval \<Rightarrow> nat \<Rightarrow> pyval" where
  "round_valid value digits =
     (if value = PNone then PNone
      else case py_float value of
        Inr (Fin q) \<Rightarrow> PFloat (round_digits digits q)
      | _ \<Rightarrow> PNone)"

definition charger_identity_paths ::
    "string \<Rightarrow> string \<Rightarrow> string \<Rightarrow> int \<Rightarrow> string \<Rightarrow> (string \<times> pyval) list" where
  "charger_identity_paths product_name version custom_name instance_no connection =
     [(''/Mgmt/ProcessName'', PStr ''dbus-ev''), (''/Mgmt/ProcessVersion'', PStr version),
      (''/Mgmt/Connection'', PStr connection), (''/DeviceInstance'', PInt instance_no),
      (''/ProductId'', PInt 65535), (''/ProductName'', PStr product_name),
      (''/FirmwareVersion'', PStr version), (''/HardwareVersion'', PStr ''n/a''),
      (''/Serial'', PStr (''dbusevcharger-'' @ show_int instance_no)),
      (''/CustomName'', PStr custom_name), (''/Connected'', PInt 1)]"

definition charger_measure_paths :: "(string \<times> pyval) list" where
  "charger_measure_paths =
     [(''/Model'', PStr []), (''/NrOfPhases'', PInt 1), (''/Position'', PInt 0),
      (''/PositionIsAdjustable'', PInt 1), (''/IsGenericEnergyMeter'', PInt 0),
      (''/Ac/Power'', PInt 0), (''/Ac/Energy/Forward'', PInt 0), (''/Ac/Frequency'', PInt 0),
      (''/Ac/L1/Power'', PInt 0), (''/Ac/L1/Voltage'', PInt 0), (''/Ac/L1/Current'', PInt 0),
      (''/Ac/L1/PowerFactor'', PInt 0), (''/Ac/L2/Power'', PInt 0), (''/Ac/L2/Voltage'', PInt 0),
      (''/Ac/L2/Current'', PInt 0), (''/Ac/L2/PowerFactor'', PInt 0), (''/Ac/L3/Power'', PInt 0),
      (''/Ac/L3/Voltage'', PInt 0), (''/Ac/L3/Current'', PInt 0), (''/Ac/L3/PowerFactor'', PInt 0)]"

definition charger_control_paths :: "(string \<times> pyval) list" where
  "charger_control_paths =
     [(''/Mode'', PInt 1), (''/StartStop'', PInt 0), (''/AutoStart'', PInt 0),
      (''/EnableDisplay'', PInt 1), (''/Current'', PInt 0), (''/SetCurrent'', PInt 0),
      (''/MinCurrent'', PInt 6), (''/MaxCurrent'', PInt 32),
      (''/Status'', PInt STATUS_DISCONNECTED), (''/Session/Time'', PInt 0),
      (''/Session/Energy'', PInt 0), (''/Session/Cost'', PInt 0), (''/Session/SavedCost'', PInt 0),
      (''/Session/UserId'', PInt 0), (''/Session/UserIdType'', PInt 0)]"

definition charger_alarm_paths :: "(string \<times> pyval) list" where
  "charger_alarm_paths =
     map (\<lambda>a. (''/Alarms/'' @ a, PInt 0))
       [''GNDNotPresent'', ''WeldedContacts'', ''CPInputShortCircuit'', ''ResidualCurrent'',
        ''OverTemperature'', ''LightSensorICFault'', ''TamperDetected'', ''SetupNeeded'',
        ''BlockedWarning'', ''HighTempWarning'', ''GxCommWarning'', ''OverloadDetected'',
        ''OverloadActive'', ''TimeSyncIssue'', ''ExternalCurrentLimit'',
        ''SystemCausedCurrentLimit'', ''DisplayFWUpdateFailure1'', ''DisplayFWUpdateFailure2'',
        ''DisplayFWUpdateInProgress'']"

definition chg_register :: "bool \<Rightarrow> ev_charger \<Rightarrow> ev_charger" where
  "chg_register vedbus c =
     (if chg_registered c then c
      else c\<lparr>chg_bus_registrations := chg_bus_registrations c + (if vedbus then 1 else 0),
             chg_registered := True\<rparr>)"

definition ev_charger_init ::
    "bool \<Rightarrow> int \<Rightarrow> string \<Rightarrow> string \<Rightarrow> string \<Rightarrow> string \<Rightarrow> string \<Rightarrow> bool \<Rightarrow> ev_charger" where
  "ev_charger_init vedbus instance_no version custom_name product_name connection bus_suffix register =
     (let s = null_service (''com.victronenergy.evcharger.'' @ bus_suffix);
          s = add_paths (charger_identity_paths product_name version custom_name instance_no connection) s;
          s = add_paths charger_measure_paths s;
          s = add_paths charger_control_paths s;
          s = add_paths charger_alarm_paths s;
          c = \<lparr>chg_instance = instance_no, chg_registered = False, chg_bus_registrations = 0, chg_svc = s\<rparr>
      in if register then chg_register vedbus c else c)"

definition chg_write :: "(string \<times> pyval) list \<Rightarrow> ev_charger \<Rightarrow> ev_charger" where
  "chg_write pvs c = c\<lparr>chg_svc := setitems pvs (chg_svc c)\<rparr>"

record phase_reading =
  ph_power :: pyval
  ph_voltage :: pyval
  ph_current :: pyval
  ph_power_factor :: pyval

definition update_charging ::
    "pyval \<Rightarrow> pyval \<Rightarrow> pyval \<Rightarrow> phase_reading \<Rightarrow> phase_reading \<Rightarrow> pyval \<Rightarrow> pyval \<Rightarrow> ev_charger \<Rightarrow> ev_charger" where
  "update_charging status current power_w l1 l2 frequency nr_of_phases c =
     chg_write
       [(''/Status'', status), (''/Current'', round_valid current 2), (''/Ac/Power'', round_valid power_w 1),
        (''/Ac/Frequency'', round_valid frequency 2), (''/NrOfPhases'', nr_of_phases),
        (''/Ac/L1/Power'', round_valid (ph_power l1) 1), (''/Ac/L1/Voltage'', round_valid (ph_voltage l1) 1),
        (''/Ac/L1/Current'', round_valid (ph_current l1) 2),
        (''/Ac/L1/PowerFactor'', round_valid (ph_power_factor l1) 3),
        (''/Ac/L2/Power'', round_valid (ph_power l2) 1), (''/Ac/L2/Voltage'', round_valid (ph_voltage l2) 1),
        (''/Ac/L2/Current'', round_valid (ph_current l2) 2),
        (''/Ac/L2/PowerFactor'', round_valid (ph_power_factor l2) 3)] c"

definition update_session :: "pyval \<Rightarrow> pyval \<Rightarrow> ev_charger \<Rightarrow> ev_charger" where
  "update_session session_time session_energy c =
     chg_write [(''/Session/Time'', session_time), (''/Session/Energy'', round_valid session_energy 3)] c"

definition update_alarms :: "pyval \<Rightarrow> pyval \<Rightarrow> pyval \<Rightarrow> pyval \<Rightarrow> pyval \<Rightarrow> ev_charger \<Rightarrow> ev_charger" where
  "update_alarms gnd_not_present welded_contacts cp_input_short residual_current over_temp c =
     chg_write
       [(''/Alarms/GNDNotPresent'', gnd_not_present), (''/Alarms/WeldedContacts'', welded_contacts),
        (''/Alarms/CPInputShortCircuit'', cp_input_short),
        (''/Alarms/ResidualCurrent'', residual_current), (''/Alarms/OverTemperature'', over_temp)] c"

definition chg_set_connected :: "bool \<Rightarrow> ev_charger \<Rightarrow> ev_charger" where
  "chg_set_connected live c = chg_write [(''/Connected'', PInt (if live then 1 else 0))] c"

definition set_device_info :: "string \<Rightarrow> string \<Rightarrow> ev_charger \<Rightarrow> ev_charger" where
  "set_device_info model serial c =
     (let c = (if model \<noteq> [] then chg_write [(''/Model'', PStr model)] c else c)
      in if serial \<noteq> [] then chg_write [(''/Serial'', PStr serial)] c else c)"

text \<open>The quiet setters store the item without running its change callback.\<close>

definition set_mode_quietly :: "pyval \<Rightarrow> ev_charger \<Rightarrow> ev_charger" where
  "set_mode_quietly mode c =
     c\<lparr>chg_svc := (chg_svc c)\<lparr>svc_items := (svc_items (chg_svc c))(''/Mode'' \<mapsto> mode)\<rparr>\<rparr>"

definition set_current_quietly :: "pyval \<Rightarrow> ev_charger \<Rightarrow> ev_charger" where
  "set_current_quietly current c =
     c\<lparr>chg_svc := (chg_svc c)\<lparr>svc_items := (svc_items (chg_svc c))(''/SetCurrent'' \<mapsto> current)\<rparr>\<rparr>"

section \<open>The projection\<close>

definition raw_in :: "pyval \<Rightarrow> int list \<Rightarrow> bool" where
  "raw_in raw codes = list_ex (\<lambda>n. py_eq raw (PInt n)) codes"

definition charger_status :: "pyval \<Rightarrow> pyval" where
  "charger_status raw =
     (if raw_in raw [0, 5, 6, 9, 10, 11, 13, 14] then PInt 2
      else if raw_in raw [1] then PInt 3
      else if raw_in raw [3] then PInt 0
      else if raw_in raw [2, 8, 12, 15] then PInt 1
      else PNone)"

text \<open>\<^verbatim>\<open>power > 50\<close>: numbers compare by value, other types raise.\<close>

fun power_above :: "rat \<Rightarrow> pyval \<Rightarrow> bool res" where
  "power_above b (PBool x) = Inr (b < (if x then 1 else 0))"
| "power_above b (PInt n) = Inr (b < of_int n)"
| "power_above b (PFloat f) = Inr (f_greater f b)"
| "power_above b _ = Inl TypeError"

definition status_and_power :: "pydict \<Rightarrow> pydict \<Rightarrow> bool \<Rightarrow> (pyval \<times> pyval) res" where
  "status_and_power snapshot meter require_meter =
     (let status = dget snapshot ''charger_status'';
          status = (if status = PNone then charger_status (dget snapshot ''mercedes_charging_status'')
                    else status);
          status = (if dget snapshot ''at_site'' = PBool False then PInt 0 else status);
          power = (if require_meter then dget meter ''/Ac/Power'' else dget snapshot ''power'')
      in rbind (if require_meter \<and> power \<noteq> PNone then power_above 50 power else Inr False) (\<lambda>drawing.
           if drawing then Inr (PInt 2, power)
           else if require_meter \<and> dget snapshot ''at_site'' = PNone \<and> \<not> py_eq status (PInt 0)
           then Inr (PNone, power)
           else Inr (status, power)))"

definition phase_paths :: "string list" where
  "phase_paths =
     concat (map (\<lambda>phase. map (\<lambda>field. ''/Ac/L'' @ phase @ ''/'' @ field)
       [''Power'', ''Voltage'', ''Current'', ''PowerFactor'']) [''1'', ''2'', ''3''])"

text \<open>
  The values one update writes, in the code's order: measurements come from the meter, and every one
  of them is None when the source is not usable.
\<close>

definition update_table :: "bool \<Rightarrow> pyval \<Rightarrow> pyval \<Rightarrow> pydict \<Rightarrow> (string \<times> pyval) list" where
  "update_table usable status pw meter =
     [(''/Status'', if usable then status else PInt 0),
      (''/Ac/Power'', if usable then pw else PNone),
      (''/Ac/Energy/Forward'', if usable then dget meter ''/Ac/Energy/Forward'' else PNone),
      (''/Current'', if usable then dget meter ''/Ac/Current'' else PNone),
      (''/Ac/Frequency'', if usable then dget meter ''/Ac/Frequency'' else PNone)] @
     map (\<lambda>path. (path, if usable then dget meter path else PNone)) phase_paths"

definition live_part :: "pydict \<Rightarrow> pydict" where
  "live_part snapshot = (if truthy (dget snapshot ''ok'') then snapshot else [])"

definition meter_ready :: "pydict \<Rightarrow> bool" where
  "meter_ready meter = (\<not> py_eq (dget meter ''/Connected'') (PInt 0))"

definition chg_usable :: "bool \<Rightarrow> pydict \<Rightarrow> pyval \<Rightarrow> pyval \<Rightarrow> bool" where
  "chg_usable require_meter meter status pw =
     (let source_ready = (if require_meter then meter_ready meter else status \<noteq> PNone)
      in source_ready \<and> pw \<noteq> PNone)"

definition charger_update :: "pydict \<Rightarrow> pydict \<Rightarrow> bool \<Rightarrow> ev_charger \<Rightarrow> ev_charger res" where
  "charger_update snapshot meter require_meter c =
     rbind (status_and_power (live_part snapshot) meter require_meter) (\<lambda>(status, pw).
       let usable = chg_usable require_meter meter status pw;
           c = chg_set_connected usable c;
           c = chg_write (update_table usable status pw meter) c
       in Inr (update_session PNone PNone c))"

definition charger_init ::
    "bool \<Rightarrow> int \<Rightarrow> string \<Rightarrow> string \<Rightarrow> pyval \<Rightarrow> string \<Rightarrow> string \<Rightarrow> ev_charger res" where
  "charger_init vedbus instance_no version bus_suffix phases name connection =
     (let c = ev_charger_init vedbus instance_no version name ''dbus-ev'' connection bus_suffix False;
          c = chg_write [(''/NrOfPhases'', phases)] c
      in rbind (charger_update [(''ok'', PBool False)] [] False c) (\<lambda>c. Inr (chg_register vedbus c)))"

section \<open>Reading the projection back\<close>

abbreviation chg_item :: "ev_charger \<Rightarrow> string \<Rightarrow> pyval option" where
  "chg_item c path \<equiv> svc_items (chg_svc c) path"

lemma chg_write_item:
  "distinct (map fst pvs) \<Longrightarrow>
    chg_item (chg_write pvs c) q = (case map_of pvs q of Some v \<Rightarrow> Some v | None \<Rightarrow> chg_item c q)"
  by (simp add: chg_write_def read_setitems)

lemma phase_paths_eq:
  "phase_paths =
     [''/Ac/L1/Power'', ''/Ac/L1/Voltage'', ''/Ac/L1/Current'', ''/Ac/L1/PowerFactor'',
      ''/Ac/L2/Power'', ''/Ac/L2/Voltage'', ''/Ac/L2/Current'', ''/Ac/L2/PowerFactor'',
      ''/Ac/L3/Power'', ''/Ac/L3/Voltage'', ''/Ac/L3/Current'', ''/Ac/L3/PowerFactor'']"
  by (simp add: phase_paths_def)

lemma update_table_keys: "map fst (update_table u s p m) =
    [''/Status'', ''/Ac/Power'', ''/Ac/Energy/Forward'', ''/Current'', ''/Ac/Frequency''] @ phase_paths"
  by (simp add: update_table_def comp_def)

lemma update_table_distinct: "distinct (map fst (update_table u s p m))"
  unfolding update_table_keys phase_paths_eq by simp

lemma charger_update_resolved:
  "charger_update snapshot meter rm c = Inr c' \<Longrightarrow>
    \<exists>st pw. status_and_power (live_part snapshot) meter rm = Inr (st, pw)"
  by (cases "status_and_power (live_part snapshot) meter rm") (auto simp: charger_update_def)

lemma update_table_none:
  "q \<in> {''/Connected'', ''/Session/Time'', ''/Session/Energy''} \<Longrightarrow> map_of (update_table u st pw m) q = None"
  unfolding map_of_eq_None_iff set_map[symmetric] update_table_keys phase_paths_eq by auto

lemma charger_update_item:
  assumes "status_and_power (live_part snapshot) meter rm = Inr (st, pw)"
    and "charger_update snapshot meter rm c = Inr c'"
  shows "chg_item c' q =
    (if q = ''/Session/Time'' \<or> q = ''/Session/Energy'' then Some PNone
     else if q = ''/Connected'' then Some (PInt (if chg_usable rm meter st pw then 1 else 0))
     else case map_of (update_table (chg_usable rm meter st pw) st pw meter) q of
       Some v \<Rightarrow> Some v | None \<Rightarrow> chg_item c q)"
proof -
  define u where "u = chg_usable rm meter st pw"
  have c': "c' = update_session PNone PNone (chg_write (update_table u st pw meter) (chg_set_connected u c))"
    using assms by (simp add: charger_update_def Let_def u_def)
  have "chg_item (chg_write (update_table u st pw meter) (chg_set_connected u c)) q =
      (if q = ''/Connected'' then Some (PInt (if u then 1 else 0))
       else case map_of (update_table u st pw meter) q of Some v \<Rightarrow> Some v | None \<Rightarrow> chg_item c q)"
    unfolding chg_set_connected_def
    by (subst chg_write_item [OF update_table_distinct])
       (simp add: chg_write_item update_table_none split: option.split)
  then show ?thesis
    unfolding c' u_def[symmetric] update_session_def by (simp add: chg_write_item round_valid_def)
qed

lemma update_table_reads:
  "map_of (update_table u st pw m) ''/Status'' = Some (if u then st else PInt 0)"
  "map_of (update_table u st pw m) ''/Ac/Power'' = Some (if u then pw else PNone)"
  "map_of (update_table u st pw m) ''/Ac/Energy/Forward'' = Some (if u then dget m ''/Ac/Energy/Forward'' else PNone)"
  "map_of (update_table u st pw m) ''/Current'' = Some (if u then dget m ''/Ac/Current'' else PNone)"
  "map_of (update_table u st pw m) ''/Ac/Frequency'' = Some (if u then dget m ''/Ac/Frequency'' else PNone)"
  by (simp_all add: update_table_def)

lemma update_table_phase:
  assumes "path \<in> set phase_paths"
  shows "map_of (update_table u st pw m) path = Some (if u then dget m path else PNone)"
proof -
  have "path \<notin> {''/Status'', ''/Ac/Power'', ''/Ac/Energy/Forward'', ''/Current'', ''/Ac/Frequency''}"
    using assms unfolding phase_paths_eq by auto
  then show ?thesis
    using map_of_tabulate[OF assms, of "\<lambda>path. if u then dget m path else PNone"]
    by (simp add: update_table_def)
qed

lemma phase_path_fresh:
  "path \<in> set phase_paths \<Longrightarrow> path \<notin> {''/Session/Time'', ''/Session/Energy'', ''/Connected''}"
  by (auto simp: phase_paths_eq)

lemmas charger_reads = update_table_reads update_table_phase

lemma charger_status_unknown: "charger_status PNone = PNone"
  by (simp add: charger_status_def raw_in_def py_eq_def)

section \<open>Properties of the projection\<close>

text \<open>
  C2: one update is all or nothing. Either the charger is connected and every electrical path shows
  exactly the meter's current value with a known power, or it is disconnected, its status is 0 and
  power, energy, current, frequency and all twelve phase paths are unknown. Session values are
  never invented.
\<close>

theorem charger_projection_all_or_nothing:
  assumes "charger_update snapshot meter rm c = Inr c'"
  shows "\<exists>usable. chg_item c' ''/Connected'' = Some (PInt (if usable then 1 else 0)) \<and>
    (\<forall>path \<in> set phase_paths. chg_item c' path = Some (if usable then dget meter path else PNone)) \<and>
    chg_item c' ''/Ac/Energy/Forward'' = Some (if usable then dget meter ''/Ac/Energy/Forward'' else PNone) \<and>
    chg_item c' ''/Current'' = Some (if usable then dget meter ''/Ac/Current'' else PNone) \<and>
    chg_item c' ''/Ac/Frequency'' = Some (if usable then dget meter ''/Ac/Frequency'' else PNone) \<and>
    (chg_item c' ''/Ac/Power'' = Some PNone) = (\<not> usable) \<and>
    (usable \<or> chg_item c' ''/Status'' = Some (PInt 0)) \<and>
    chg_item c' ''/Session/Time'' = Some PNone \<and> chg_item c' ''/Session/Energy'' = Some PNone"
proof -
  obtain st pw where sp: "status_and_power (live_part snapshot) meter rm = Inr (st, pw)"
    using charger_update_resolved [OF assms] by blast
  note item = charger_update_item [OF sp assms]
  define u where "u = chg_usable rm meter st pw"
  have ph: "\<forall>path \<in> set phase_paths. chg_item c' path = Some (if u then dget meter path else PNone)"
    using phase_path_fresh by (auto simp: item charger_reads u_def)
  have "u \<Longrightarrow> pw \<noteq> PNone" by (simp add: u_def chg_usable_def Let_def)
  then show ?thesis
    by (intro exI[of _ u] conjI ph) (simp_all add: item charger_reads flip: u_def)
qed

text \<open>
  the charger never reports charging (status 2) without evidence from this update: the local
  meter of the dedicated circuit reads more than 50 W, or a fresh vehicle snapshot reports charging
  and does not place the vehicle elsewhere; with a local meter configured the snapshot must moreover
  place it at home.
\<close>

theorem charging_needs_evidence:
  assumes "charger_update snapshot meter rm c = Inr c'"
    and "chg_item c' ''/Status'' = Some (PInt 2)"
  shows "(rm \<and> power_above 50 (dget meter ''/Ac/Power'') = Inr True) \<or>
    (truthy (dget snapshot ''ok'') \<and> dget snapshot ''at_site'' \<noteq> PBool False \<and>
     (dget snapshot ''at_site'' \<noteq> PNone \<or> \<not> rm) \<and>
     (dget snapshot ''charger_status'' = PInt 2 \<or>
      dget snapshot ''charger_status'' = PNone \<and>
      charger_status (dget snapshot ''mercedes_charging_status'') = PInt 2))"
proof -
  obtain st pw where sp: "status_and_power (live_part snapshot) meter rm = Inr (st, pw)"
    using charger_update_resolved [OF assms(1)] by blast
  have "st = PInt 2"
    using assms(2) by (simp add: charger_update_item [OF sp assms(1)] charger_reads split: if_splits)
  with sp charger_status_unknown show ?thesis
    by (auto simp: status_and_power_def Let_def rbind_Inr_iff live_part_def py_eq_def split: if_splits)
qed

text \<open>
  a cloud outage does not hide the local meter. Without a fresh vehicle snapshot, a live meter
  reading is published as is, including 0 W; above 50 W the charger reports charging, and below it
  the plug state stays unknown instead of being guessed.
\<close>

theorem meter_survives_cloud_outage:
  assumes "\<not> truthy (dget snapshot ''ok'')" and "meter_ready meter"
    and "dget meter ''/Ac/Power'' = PFloat (Fin w)"
  shows "\<exists>c'. charger_update snapshot meter True c = Inr c' \<and>
    chg_item c' ''/Connected'' = Some (PInt 1) \<and>
    chg_item c' ''/Ac/Power'' = Some (PFloat (Fin w)) \<and>
    chg_item c' ''/Status'' = Some (if 50 < w then PInt 2 else PNone)"
proof -
  define st where "st = (if 50 < w then PInt 2 else PNone)"
  have sp: "status_and_power (live_part snapshot) meter True = Inr (st, PFloat (Fin w))"
    using assms by (simp add: status_and_power_def live_part_def Let_def py_eq_def charger_status_unknown st_def)
  then obtain c' where up: "charger_update snapshot meter True c = Inr c'"
    by (simp add: charger_update_def Let_def)
  have "chg_usable True meter st (PFloat (Fin w))" using assms(2) by (simp add: chg_usable_def)
  with up show ?thesis
    by (simp add: charger_update_item [OF sp up] charger_reads flip: st_def)
qed

text \<open>
  the two projections of the Mercedes charging code agree on all documented codes 0 to 16: the
  charger reports charging exactly when the vehicle service does, an unknown charger status
  corresponds to unavailable or discharging, and an unplugged charger to a vehicle not charging.
\<close>

theorem charging_codes_agree:
  "list_all (\<lambda>n.
      let c = charger_status (PFloat (Fin (of_int n))); v = map_charging_state (Some (show_int n))
      in ((c = PInt 2) = (v = Some 3)) \<and> ((c = PNone) = (v = Some 255 \<or> v = Some 256)) \<and>
         (if c = PInt 0 then v = Some 0 else True))
    [0, 1, 2, 3, 4, 5, 6, 7, 8, 9, 10, 11, 12, 13, 14, 15, 16]"
  by code_simp

section \<open>Witnesses\<close>

definition demo_charger :: ev_charger where
  "demo_charger = ev_charger_init False 40 ''1.0'' ''EV Charger'' ''dbus-ev'' ''c'' ''charger'' False"

definition demo_meter :: pydict where
  "demo_meter = [(''/Ac/Power'', PFloat (Fin 7200)), (''/Ac/L1/Current'', PFloat (Fin 31))]"

lemma demo_meter_ready: "meter_ready demo_meter" "dget demo_meter ''/Ac/Power'' = PFloat (Fin 7200)"
    "dget demo_meter ''/Ac/L1/Current'' = PFloat (Fin 31)"
  by (simp_all add: meter_ready_def demo_meter_def py_eq_def)

theorem meter_survives_cloud_outage_witness:
  "\<exists>c'. charger_update [(''ok'', PBool False)] demo_meter True demo_charger = Inr c' \<and>
     chg_item c' ''/Status'' = Some (PInt 2) \<and> chg_item c' ''/Ac/Power'' = Some (PFloat (Fin 7200))"
  using meter_survives_cloud_outage [of "[(''ok'', PBool False)]", OF _ demo_meter_ready(1,2), of demo_charger]
  by auto

lemma demo_update:
  obtains c' where "charger_update [(''ok'', PBool False)] demo_meter True demo_charger = Inr c'"
    "chg_item c' ''/Status'' = Some (PInt 2)"
proof -
  have sp: "status_and_power (live_part [(''ok'', PBool False)]) demo_meter True = Inr (PInt 2, PFloat (Fin 7200))"
    by code_simp
  then obtain c' where up: "charger_update [(''ok'', PBool False)] demo_meter True demo_charger = Inr c'"
    by (simp add: charger_update_def Let_def)
  have "chg_item c' ''/Status'' = Some (PInt 2)"
    by (simp add: charger_update_item [OF sp up] charger_reads chg_usable_def demo_meter_ready)
  with up that show thesis by simp
qed

theorem charging_needs_evidence_witness:
  "\<exists>c'. charger_update [(''ok'', PBool False)] demo_meter True demo_charger = Inr c' \<and>
     chg_item c' ''/Status'' = Some (PInt 2) \<and>
     power_above 50 (dget demo_meter ''/Ac/Power'') = Inr True"
proof -
  obtain c' where c': "charger_update [(''ok'', PBool False)] demo_meter True demo_charger = Inr c'"
    "chg_item c' ''/Status'' = Some (PInt 2)" using demo_update by blast
  from charging_needs_evidence [OF c'] c' show ?thesis by auto
qed

theorem charger_projection_all_or_nothing_witness:
  "\<exists>c'. charger_update [(''ok'', PBool False)] demo_meter True demo_charger = Inr c' \<and>
     chg_item c' ''/Connected'' = Some (PInt 1) \<and>
     chg_item c' ''/Ac/L1/Current'' = Some (PFloat (Fin 31)) \<and>
     chg_item c' ''/Session/Energy'' = Some PNone"
proof -
  obtain c' where c': "charger_update [(''ok'', PBool False)] demo_meter True demo_charger = Inr c'"
    "chg_item c' ''/Status'' = Some (PInt 2)" using demo_update by blast
  have "''/Ac/L1/Current'' \<in> set phase_paths" by (simp add: phase_paths_eq)
  with charger_projection_all_or_nothing [OF c'(1)] c' demo_meter_ready(3) show ?thesis by auto
qed

end
