(* ===== verification/Cerbo_Mqtt.thy ===== *)
theory Cerbo_Mqtt
  imports Vehicle Dbus_Service
begin

text \<open>
  \<^verbatim>\<open>dbus_ev/cerbo_mqtt.py\<close>: the one MQTT session with the local broker. It publishes vehicle
  telemetry for Home Assistant and keeps the last readings of one energy meter. The MQTT client
  library is outside: a publication is appended to \<open>cm_log\<close> together with whether its return code
  was 0, which \<open>accepts\<close> decides.
\<close>

section \<open>State\<close>

datatype payload = Json pyval | Text string

record msg =
  mq_topic :: string
  mq_payload :: payload
  mq_qos :: int
  mq_retain :: bool

record cerbo =
  cm_source :: string
  cm_portal :: string
  cm_publish_ha :: bool
  cm_prefix :: string
  cm_meter_instance :: pyval
  cm_meter_ttl :: rat
  cm_meter :: "(string \<times> (rat option \<times> time)) list"
  cm_connected :: bool
  cm_published :: pyval
  cm_last_keepalive :: "time option"
  cm_last_refresh :: "time option"
  cm_availability :: "string option"
  cm_started :: bool
  cm_log :: "(msg \<times> bool) list"

definition phase_meter_paths :: "string \<Rightarrow> string list" where
  "phase_meter_paths n =
     map (\<lambda>f. ''/Ac/L'' @ n @ ''/'' @ f) [''Power'', ''Voltage'', ''Current'', ''PowerFactor'']"

definition METER_PATHS :: "string list" where
  "METER_PATHS =
     [''/Connected'', ''/Ac/Power'', ''/Ac/Energy/Forward'', ''/Ac/Current'', ''/Ac/Frequency''] @
     concat (map phase_meter_paths [''1'', ''2'', ''3''])"

definition meter_prefix :: "cerbo \<Rightarrow> string" where
  "meter_prefix s = ''N/'' @ cm_portal s @ ''/acload/'' @ py_str (cm_meter_instance s)"

definition topic_path :: "cerbo \<Rightarrow> string \<Rightarrow> string option" where
  "topic_path s topic = find (\<lambda>path. meter_prefix s @ path = topic) METER_PATHS"

definition valid_vehicle_id :: "string \<Rightarrow> bool" where
  "valid_vehicle_id v =
     (v \<noteq> [] \<and> list_all (\<lambda>c. is_ascii c \<and> (is_alpha c \<or> is_digit c \<or> c = CHR ''_'')) v)"

definition cerbo_init ::
  "string \<Rightarrow> string \<Rightarrow> bool \<Rightarrow> pyval \<Rightarrow> rat \<Rightarrow> string \<Rightarrow> cerbo res" where
  "cerbo_init portal source publish_ha meter_instance meter_ttl vehicle_id =
     (if portal = [] \<or> list_ex (\<lambda>c. c \<in> {CHR ''/'', CHR ''+'', CHR ''#''}) portal then Inl ValueError
      else if source \<noteq> ''mercedes'' \<and> \<not> valid_vehicle_id vehicle_id then Inl ValueError
      else Inr \<lparr>cm_source = source, cm_portal = portal, cm_publish_ha = publish_ha,
        cm_prefix = (if source = ''mercedes'' then ''mercedes/'' @ portal
                     else ''ev/'' @ portal @ ''/'' @ vehicle_id),
        cm_meter_instance = meter_instance, cm_meter_ttl = meter_ttl, cm_meter = [],
        cm_connected = False, cm_published = PNone, cm_last_keepalive = None,
        cm_last_refresh = None, cm_availability = None, cm_started = False, cm_log = []\<rparr>)"

definition start_session :: "cerbo \<Rightarrow> cerbo" where
  "start_session s = s\<lparr>cm_started := True\<rparr>"

section \<open>Callbacks of the client\<close>

definition on_connect :: "int \<Rightarrow> cerbo \<Rightarrow> cerbo" where
  "on_connect reason_code s =
     (if reason_code \<noteq> 0 then s
      else s\<lparr>cm_connected := True, cm_meter := [], cm_published := PNone, cm_availability := None,
             cm_last_keepalive := None, cm_last_refresh := None\<rparr>)"

text \<open>The topics subscribed on a successful connection.\<close>

definition subscriptions :: "cerbo \<Rightarrow> string list" where
  "subscriptions s =
     (if cm_meter_instance s = PNone then [] else map (\<lambda>p. meter_prefix s @ p) METER_PATHS)"

definition on_disconnect :: "cerbo \<Rightarrow> cerbo" where
  "on_disconnect s = s\<lparr>cm_connected := False, cm_meter := []\<rparr>"

text \<open>\<^verbatim>\<open>json.loads(payload)["value"]\<close> on the decoded payload: only a dictionary has string keys.\<close>

fun value_item :: "pyval \<Rightarrow> pyval res" where
  "value_item (PDict d) = dgetitem d ''value''"
| "value_item _ = Inl TypeError"

definition reading :: "pyval res \<Rightarrow> rat option res" where
  "reading payload =
     rcatch
       (rbind (rbind payload value_item) (\<lambda>v.
          if v = PNone then Inr None else rbind (py_float v) (\<lambda>f. Inr (finite_or_none f))))
       [TypeError, ValueError, KeyError] (Inr None)"

definition on_message :: "time \<Rightarrow> string \<Rightarrow> bool \<Rightarrow> pyval res \<Rightarrow> cerbo \<Rightarrow> unit res \<times> cerbo" where
  "on_message now topic retain payload s =
     (case topic_path s topic of
        None \<Rightarrow> (Inr (), s)
      | Some key \<Rightarrow>
          if retain then (Inr (), s)
          else case reading payload of
            Inl e \<Rightarrow> (Inl e, s)
          | Inr value \<Rightarrow> (Inr (), s\<lparr>cm_meter := dset key (value, now) (cm_meter s)\<rparr>))"

definition meter :: "time \<Rightarrow> cerbo \<Rightarrow> (string \<times> rat option) list" where
  "meter now s =
     (if \<not> cm_connected s then []
      else map (\<lambda>(k, v, t). (k, v))
             (filter (\<lambda>(k, v, t). 0 \<le> now - t \<and> now - t < cm_meter_ttl s) (cm_meter s)))"

section \<open>The periodic publication\<close>

definition publish :: "(msg \<Rightarrow> bool) \<Rightarrow> msg \<Rightarrow> cerbo \<Rightarrow> bool \<times> cerbo" where
  "publish accepts m s = (accepts m, s\<lparr>cm_log := cm_log s @ [(m, accepts m)]\<rparr>)"

definition due :: "rat \<Rightarrow> time \<Rightarrow> time option \<Rightarrow> bool" where
  "due interval now stamp = (case stamp of None \<Rightarrow> True | Some t \<Rightarrow> interval \<le> now - t)"

definition keepalive_msg :: "cerbo \<Rightarrow> msg" where
  "keepalive_msg s = \<lparr>mq_topic = ''R/'' @ cm_portal s @ ''/keepalive'',
     mq_payload = Json (PDict [(''keepalive-options'', PList [PStr ''suppress-republish''])]),
     mq_qos = 0, mq_retain = False\<rparr>"

definition read_msg :: "cerbo \<Rightarrow> string \<Rightarrow> msg" where
  "read_msg s path = \<lparr>mq_topic = ''R/'' @ cm_portal s @ ''/acload/'' @ py_str (cm_meter_instance s) @ path,
     mq_payload = Text [], mq_qos = 0, mq_retain = False\<rparr>"

fun publish_reads :: "(msg \<Rightarrow> bool) \<Rightarrow> string list \<Rightarrow> cerbo \<Rightarrow> bool \<times> cerbo" where
  "publish_reads accepts [] s = (True, s)"
| "publish_reads accepts (p # ps) s =
     (let (ok, s) = publish accepts (read_msg s p) s; (oks, s) = publish_reads accepts ps s
      in (ok \<and> oks, s))"

definition send_keepalive :: "(msg \<Rightarrow> bool) \<Rightarrow> time \<Rightarrow> cerbo \<Rightarrow> cerbo" where
  "send_keepalive accepts now s =
     (if due 30 now (cm_last_keepalive s)
      then let (ok, s) = publish accepts (keepalive_msg s) s
           in if ok then s\<lparr>cm_last_keepalive := Some now\<rparr> else s
      else s)"

definition send_reads :: "(msg \<Rightarrow> bool) \<Rightarrow> time \<Rightarrow> cerbo \<Rightarrow> cerbo" where
  "send_reads accepts now s =
     (if due 10 now (cm_last_refresh s)
      then let (ok, s) = publish_reads accepts METER_PATHS s
           in if ok then s\<lparr>cm_last_refresh := Some now\<rparr> else s
      else s)"

definition refresh_meter :: "(msg \<Rightarrow> bool) \<Rightarrow> time \<Rightarrow> cerbo \<Rightarrow> cerbo" where
  "refresh_meter accepts now s = send_reads accepts now (send_keepalive accepts now s)"

text \<open>\<^verbatim>\<open>json.dumps(v, allow_nan=False)\<close>: what it raises, if anything.\<close>

fun json_error :: "pyval \<Rightarrow> pyexc option" where
  "json_error (PFloat f) = (if isfinite f then None else Some ValueError)"
| "json_error (PList xs) = (case filter (\<lambda>e. e \<noteq> None) (map json_error xs) of [] \<Rightarrow> None | e # _ \<Rightarrow> e)"
| "json_error (PDict d) =
     (case filter (\<lambda>e. e \<noteq> None) (map (\<lambda>(k, v). json_error v) d) of [] \<Rightarrow> None | e # _ \<Rightarrow> e)"
| "json_error (PTime _) = Some TypeError"
| "json_error _ = None"

definition availability_msg :: "string \<Rightarrow> cerbo \<Rightarrow> msg" where
  "availability_msg status s = \<lparr>mq_topic = cm_prefix s @ ''/availability'', mq_payload = Text status,
     mq_qos = 1, mq_retain = True\<rparr>"

definition publish_availability :: "(msg \<Rightarrow> bool) \<Rightarrow> bool \<Rightarrow> cerbo \<Rightarrow> cerbo" where
  "publish_availability accepts available s =
     (let status = (if available then ''online'' else ''offline'')
      in if Some status = cm_availability s then s
         else let (ok, s) = publish accepts (availability_msg status s) s
              in if ok then s\<lparr>cm_availability := Some status\<rparr> else s)"

text \<open>
  Revisions are compared as Python compares them, the pair of a Mercedes snapshot member by member.
\<close>

fun same_rev :: "pyval \<Rightarrow> pyval \<Rightarrow> bool" where
  "same_rev (PList xs) (PList ys) = list_all2 py_eq xs ys"
| "same_rev a b = py_eq a b"

text \<open>
  A retained state message of revision \<open>revn\<close>, unless that revision is the published one; the
  serialisation is computed first and may raise.
\<close>

definition publish_state :: "(msg \<Rightarrow> bool) \<Rightarrow> pyval \<Rightarrow> string \<Rightarrow> pyval \<Rightarrow> cerbo \<Rightarrow> unit res \<times> cerbo" where
  "publish_state accepts revn topic body s =
     (if same_rev revn (cm_published s) then (Inr (), s)
      else case json_error body of
        Some e \<Rightarrow> (Inl e, s)
      | None \<Rightarrow>
          (let (ok, s) = publish accepts \<lparr>mq_topic = topic, mq_payload = Json body, mq_qos = 1, mq_retain = True\<rparr> s
           in (Inr (), if ok then s\<lparr>cm_published := revn\<rparr> else s)))"

definition vehicle_payload :: "pydict \<Rightarrow> pydict" where
  "vehicle_payload snapshot =
     dupdate (map (\<lambda>k. (k, dget snapshot k)) MQTT_FIELDS)
       [(''schema'', PInt 1), (''sampled_at'', dget snapshot ''sampled_at''), (''source'', dget snapshot ''source'')]"

definition publish_vehicle :: "(msg \<Rightarrow> bool) \<Rightarrow> pydict \<Rightarrow> cerbo \<Rightarrow> unit res \<times> cerbo" where
  "publish_vehicle accepts snapshot s =
     (let available = (truthy (dget snapshot ''ok'') \<and> dget snapshot ''sampled_at'' \<noteq> PNone);
          (r, s) = (if available
                    then publish_state accepts (dget snapshot ''sampled_at'') (cm_prefix s @ ''/state'')
                           (PDict (vehicle_payload snapshot)) s
                    else (Inr (), s))
      in case r of Inl e \<Rightarrow> (Inl e, s) | Inr _ \<Rightarrow> (Inr (), publish_availability accepts available s))"

definition vgetitem :: "pyval \<Rightarrow> string \<Rightarrow> pyval res" where
  "vgetitem v k = (case v of PDict d \<Rightarrow> dgetitem d k | _ \<Rightarrow> Inl TypeError)"

definition publish_mercedes :: "(msg \<Rightarrow> bool) \<Rightarrow> pydict \<Rightarrow> cerbo \<Rightarrow> unit res \<times> cerbo" where
  "publish_mercedes accepts snapshot s =
     (let body = dget snapshot ''mercedes_payload'';
          available = (truthy (dget snapshot ''ok'') \<and> truthy body);
          (r, s) = (if available
                    then case rbind (vgetitem body ''received_at'') (\<lambda>received.
                                rbind (vgetitem body ''revision'') (\<lambda>revn.
                                rbind (if same_rev (PList [received, revn]) (cm_published s) then Inr PNone
                                       else vgetitem body ''vin'') (\<lambda>vin. Inr (PList [received, revn], vin)))) of
                           Inl e \<Rightarrow> (Inl e, s)
                         | Inr (revn, vin) \<Rightarrow>
                             publish_state accepts revn (cm_prefix s @ ''/'' @ py_str vin @ ''/state'') body s
                    else (Inr (), s))
      in case r of Inl e \<Rightarrow> (Inl e, s) | Inr _ \<Rightarrow> (Inr (), publish_availability accepts available s))"

definition mqtt_tick :: "(msg \<Rightarrow> bool) \<Rightarrow> time \<Rightarrow> pydict \<Rightarrow> cerbo \<Rightarrow> unit res \<times> cerbo" where
  "mqtt_tick accepts now snapshot s =
     (if \<not> cm_connected s then (Inr (), s)
      else let s = (if cm_meter_instance s \<noteq> PNone then refresh_meter accepts now s else s)
           in if \<not> cm_publish_ha s then (Inr (), s)
              else if cm_source s \<noteq> ''mercedes'' then publish_vehicle accepts snapshot s
              else publish_mercedes accepts snapshot s)"

definition mqtt_close :: "(msg \<Rightarrow> bool) \<Rightarrow> cerbo \<Rightarrow> cerbo" where
  "mqtt_close accepts s =
     (if cm_started s \<and> cm_publish_ha s \<and> cm_connected s
      then snd (publish accepts (availability_msg ''offline'' s) s) else s)"

section \<open>The meter cache\<close>

lemma topic_pathD: "topic_path s topic = Some path \<Longrightarrow> topic = meter_prefix s @ path \<and> path \<in> set METER_PATHS"
  by (auto simp: topic_path_def find_Some_iff)

text \<open>A session: what the client library and the main loop do to it, in the order they take the lock.\<close>

datatype mqtt_event =
    Connected int
  | Disconnected
  | Message time string bool "pyval res"
  | Tick time pydict

fun mqtt_step :: "(msg \<Rightarrow> bool) \<Rightarrow> mqtt_event \<Rightarrow> cerbo \<Rightarrow> cerbo" where
  "mqtt_step accepts (Connected rc) s = on_connect rc s"
| "mqtt_step accepts Disconnected s = on_disconnect s"
| "mqtt_step accepts (Message now topic retain payload) s = snd (on_message now topic retain payload s)"
| "mqtt_step accepts (Tick now snapshot) s = snd (mqtt_tick accepts now snapshot s)"

fun mqtt_run :: "(msg \<Rightarrow> bool) \<Rightarrow> mqtt_event list \<Rightarrow> cerbo \<Rightarrow> cerbo" where
  "mqtt_run accepts [] s = s"
| "mqtt_run accepts (e # es) s = mqtt_run accepts es (mqtt_step accepts e s)"

lemma mqtt_run_append: "mqtt_run accepts (es @ [e]) s = mqtt_step accepts e (mqtt_run accepts es s)"
  by (induction es arbitrary: s) simp_all

text \<open>What publication leaves alone: the meter cache, the connection and the configuration.\<close>

definition same_cache :: "cerbo \<Rightarrow> cerbo \<Rightarrow> bool" where
  "same_cache s t =
     (cm_meter t = cm_meter s \<and> cm_connected t = cm_connected s \<and> cm_portal t = cm_portal s \<and>
      cm_meter_instance t = cm_meter_instance s \<and> cm_meter_ttl t = cm_meter_ttl s \<and>
      cm_prefix t = cm_prefix s)"

lemma same_cache_refl [simp]: "same_cache s s"
  by (simp add: same_cache_def)

lemma same_cache_trans: "same_cache s t \<Longrightarrow> same_cache t u \<Longrightarrow> same_cache s u"
  by (simp add: same_cache_def)

lemma same_cache_publish: "publish accepts m s = (ok, t) \<Longrightarrow> same_cache s t"
  by (auto simp: publish_def same_cache_def)

lemma same_cache_reads: "publish_reads accepts ps s = (ok, t) \<Longrightarrow> same_cache s t"
proof (induction accepts ps s arbitrary: ok t rule: publish_reads.induct)
  case (2 accepts p ps s)
  let ?p = "publish accepts (read_msg s p) s"
  have "same_cache s (snd ?p)" by (rule same_cache_publish [OF prod.collapse [symmetric]])
  moreover have "same_cache (snd ?p) t"
    using 2(1) [of ?p "fst ?p" "snd ?p" "fst (publish_reads accepts ps (snd ?p))" t] 2(2)
    by (auto simp: split_def Let_def prod_eq_iff)
  ultimately show ?case by (rule same_cache_trans)
qed simp

lemma same_cache_upd [simp]:
  "same_cache s (t\<lparr>cm_last_keepalive := x\<rparr>) = same_cache s t" "same_cache s (t\<lparr>cm_last_refresh := x\<rparr>) = same_cache s t"
  "same_cache s (t\<lparr>cm_published := y\<rparr>) = same_cache s t" "same_cache s (t\<lparr>cm_availability := z\<rparr>) = same_cache s t"
  by (simp_all add: same_cache_def)

lemma same_cache_keepalive: "same_cache s (send_keepalive accepts now s)"
  by (auto simp: send_keepalive_def split_def Let_def intro: same_cache_publish [OF prod.collapse [symmetric]])

lemma same_cache_send_reads: "same_cache s (send_reads accepts now s)"
  by (auto simp: send_reads_def split_def Let_def intro: same_cache_reads [OF prod.collapse [symmetric]])

lemma same_cache_refresh: "same_cache s (refresh_meter accepts now s)"
  unfolding refresh_meter_def by (rule same_cache_trans [OF same_cache_keepalive same_cache_send_reads])

lemma same_cache_availability: "same_cache s (publish_availability accepts available s)"
  by (auto simp: publish_availability_def Let_def split_def
    intro: same_cache_publish [OF prod.collapse [symmetric]])

lemma same_cache_state: "publish_state accepts revn topic body s = (r, t) \<Longrightarrow> same_cache s t"
  by (auto simp: publish_state_def publish_def same_cache_def split: if_splits option.splits)

lemma same_cache_vehicle: "same_cache s (snd (publish_vehicle accepts snapshot s))"
  by (auto simp: publish_vehicle_def Let_def split: prod.splits sum.splits if_splits
    intro: same_cache_trans [OF same_cache_state same_cache_availability] same_cache_availability
    dest: same_cache_state)

lemma same_cache_mercedes: "same_cache s (snd (publish_mercedes accepts snapshot s))"
  by (auto simp: publish_mercedes_def Let_def split: prod.splits sum.splits if_splits
    intro: same_cache_trans [OF same_cache_state same_cache_availability] same_cache_availability
    dest: same_cache_state)

lemma same_cache_tick: "same_cache s (snd (mqtt_tick accepts now snapshot s))"
  by (auto simp: mqtt_tick_def Let_def
    intro: same_cache_trans [OF same_cache_refresh] same_cache_refresh same_cache_vehicle same_cache_mercedes)

text \<open>
  The entry \<open>(v, t)\<close> of path \<open>k\<close> is the newest readable live message of the current connection.
\<close>

definition keeps :: "cerbo \<Rightarrow> string \<Rightarrow> mqtt_event \<Rightarrow> bool" where
  "keeps s k e = (case e of
     Connected rc \<Rightarrow> rc \<noteq> 0
   | Disconnected \<Rightarrow> False
   | Message t topic retain payload \<Rightarrow> topic \<noteq> meter_prefix s @ k \<or> retain \<or> \<not> is_ok (reading payload)
   | Tick now snapshot \<Rightarrow> True)"

definition sample_of :: "cerbo \<Rightarrow> mqtt_event list \<Rightarrow> string \<Rightarrow> rat option \<Rightarrow> time \<Rightarrow> bool" where
  "sample_of s es k v t =
     (\<exists>pre post payload. es = pre @ Message t (meter_prefix s @ k) False payload # post \<and>
        reading payload = Inr v \<and> (\<forall>e \<in> set post. keeps s k e))"

lemma sample_of_snoc: "sample_of s es k v t \<Longrightarrow> keeps s k e \<Longrightarrow> sample_of s (es @ [e]) k v t"
  unfolding sample_of_def by fastforce

lemma sample_of_new: "reading payload = Inr v \<Longrightarrow> sample_of s (es @ [Message t (meter_prefix s @ k) False payload]) k v t"
  unfolding sample_of_def by fastforce

definition cache_inv :: "cerbo \<Rightarrow> mqtt_event list \<Rightarrow> cerbo \<Rightarrow> bool" where
  "cache_inv s0 es s =
     (meter_prefix s = meter_prefix s0 \<and> cm_meter_ttl s = cm_meter_ttl s0 \<and>
      distinct (map fst (cm_meter s)) \<and> fst ` set (cm_meter s) \<subseteq> set METER_PATHS \<and>
      (\<forall>k v t. map_of (cm_meter s) k = Some (v, t) \<longrightarrow> sample_of s0 es k v t))"

lemma cache_inv_start: "cm_meter s = [] \<Longrightarrow> cache_inv s [] s"
  by (simp add: cache_inv_def)

lemma cache_inv_cleared:
  "meter_prefix s = meter_prefix s0 \<Longrightarrow> cm_meter_ttl s = cm_meter_ttl s0 \<Longrightarrow> cm_meter s = [] \<Longrightarrow> cache_inv s0 es s"
  by (simp add: cache_inv_def)

lemma cache_inv_keeps:
  "cache_inv s0 es s \<Longrightarrow> same_cache s t \<Longrightarrow> (\<And>k. keeps s0 k e) \<Longrightarrow> cache_inv s0 (es @ [e]) t"
  by (auto simp: cache_inv_def same_cache_def meter_prefix_def intro: sample_of_snoc)

lemma meter_prefix_update: "meter_prefix (s\<lparr>cm_meter := m\<rparr>) = meter_prefix s"
  by (simp add: meter_prefix_def)

lemma cache_inv_message:
  assumes inv: "cache_inv s0 es s"
  shows "cache_inv s0 (es @ [Message now topic retain payload]) (snd (on_message now topic retain payload s))"
proof (cases "\<exists>k v. topic_path s topic = Some k \<and> \<not> retain \<and> reading payload = Inr v")
  case True
  then obtain k v where k: "topic_path s topic = Some k" "\<not> retain" "reading payload = Inr v" by blast
  then have topic: "topic = meter_prefix s0 @ k"
    using topic_pathD [OF k(1)] inv by (simp add: cache_inv_def)
  have sample: "sample_of s0 (es @ [Message now topic retain payload]) k' w t"
    if "map_of (dset k (v, now) (cm_meter s)) k' = Some (w, t)" for k' w t
  proof (cases "k' = k")
    case True
    with that k topic show ?thesis by (simp add: sample_of_new)
  next
    case False
    with that inv have "sample_of s0 es k' w t" by (auto simp: cache_inv_def)
    then show ?thesis using False topic by (auto intro: sample_of_snoc simp: keeps_def)
  qed
  have new: "snd (on_message now topic retain payload s) = s\<lparr>cm_meter := dset k (v, now) (cm_meter s)\<rparr>"
    using k by (simp add: on_message_def)
  have "distinct (map fst (dset k (v, now) (cm_meter s)))" "fst ` set (dset k (v, now) (cm_meter s)) \<subseteq> set METER_PATHS"
    using inv topic_pathD [OF k(1)] by (auto simp: cache_inv_def distinct_dset dset_keys)
  with inv sample show ?thesis
    unfolding cache_inv_def new meter_prefix_update by simp
next
  case False
  then have same: "snd (on_message now topic retain payload s) = s"
    by (auto simp: on_message_def split: option.splits sum.splits)
  have "keeps s0 k (Message now topic retain payload)" if "map_of (cm_meter s) k = Some (v, t)" for k v t
  proof (rule ccontr)
    assume "\<not> keeps s0 k (Message now topic retain payload)"
    then have *: "topic = meter_prefix s @ k" "\<not> retain" "is_ok (reading payload)"
      using inv by (auto simp: keeps_def cache_inv_def)
    have "k \<in> fst ` set (cm_meter s)" using map_of_SomeD [OF that] by force
    with inv have "k \<in> set METER_PATHS" by (auto simp: cache_inv_def)
    then have "topic_path s topic \<noteq> None" using * by (auto simp: topic_path_def find_None_iff)
    with * False show False by (auto simp: is_ok_iff)
  qed
  with inv same show ?thesis by (auto simp: cache_inv_def intro: sample_of_snoc)
qed

lemma cache_inv_step: "cache_inv s0 es s \<Longrightarrow> cache_inv s0 (es @ [e]) (mqtt_step accepts e s)"
proof (cases e)
  case (Connected rc)
  assume inv: "cache_inv s0 es s"
  show ?thesis
  proof (cases "rc = 0")
    case True
    with inv Connected show ?thesis
      by (intro cache_inv_cleared) (simp_all add: cache_inv_def on_connect_def meter_prefix_def)
  next
    case False
    with Connected inv show ?thesis
      by (auto intro!: cache_inv_keeps simp: on_connect_def keeps_def)
  qed
next
  case Disconnected
  assume "cache_inv s0 es s"
  with Disconnected show ?thesis
    by (intro cache_inv_cleared) (simp_all add: cache_inv_def on_disconnect_def meter_prefix_def)
next
  case (Message t topic retain payload)
  assume "cache_inv s0 es s"
  with Message show ?thesis by (simp add: cache_inv_message)
next
  case (Tick now snapshot)
  assume "cache_inv s0 es s"
  then show ?thesis
    unfolding Tick mqtt_step.simps by (rule cache_inv_keeps [OF _ same_cache_tick]) (simp add: keeps_def)
qed

lemma cache_inv_run: "cm_meter s = [] \<Longrightarrow> cache_inv s es (mqtt_run accepts es s)"
  by (induction es rule: rev_induct) (simp_all add: cache_inv_start cache_inv_step mqtt_run_append)

lemma meter_entry:
  "(k, v) \<in> set (meter now s) \<Longrightarrow>
    cm_connected s \<and> (\<exists>t. (k, v, t) \<in> set (cm_meter s) \<and> fresh (cm_meter_ttl s) now (Some t))"
  by (auto simp: meter_def split: if_splits)


definition demo_cerbo :: cerbo where
  "demo_cerbo = \<lparr>cm_source = ''mercedes'', cm_portal = ''p'', cm_publish_ha = True, cm_prefix = ''mercedes/p'',
     cm_meter_instance = PInt 3, cm_meter_ttl = 15, cm_meter = [], cm_connected = False, cm_published = PNone,
     cm_last_keepalive = None, cm_last_refresh = None, cm_availability = None, cm_started = False, cm_log = []\<rparr>"

definition demo_power :: "pyval res" where
  "demo_power = Inr (PDict [(''value'', PInt 7200)])"


text \<open>Each meter entry is a cache of one sample.\<close>

interpretation meter_cache: freshness_cache
  "\<lambda>(s, k). map_option snd (map_of (cm_meter s) k)"
  "\<lambda>now (s, k). distinct (map fst (cm_meter s)) \<and> k \<in> fst ` set (meter now s)"
  "\<lambda>(s, k). cm_meter_ttl s"
  by unfold_locales (auto dest!: meter_entry)

section \<open>What is published\<close>

text \<open>Requests under \<^verbatim>\<open>R/\<close>, never retained, and messages under the program's own prefix.\<close>

definition read_request :: "cerbo \<Rightarrow> msg \<Rightarrow> bool" where
  "read_request s m = (startswith (mq_topic m) (''R/'' @ cm_portal s @ ''/'') \<and> \<not> mq_retain m)"

definition own_message :: "cerbo \<Rightarrow> msg \<Rightarrow> bool" where
  "own_message s m = startswith (mq_topic m) (cm_prefix s @ ''/'')"

definition log_inv :: "cerbo \<Rightarrow> cerbo \<Rightarrow> bool" where
  "log_inv s0 s =
     (cm_portal s = cm_portal s0 \<and> cm_prefix s = cm_prefix s0 \<and>
      (\<forall>(m, ok) \<in> set (cm_log s). read_request s0 m \<or> own_message s0 m))"

lemma startswith_append [simp]: "startswith (p @ s) p"
  by (simp add: startswith_def)

lemma log_inv_publish:
  "log_inv s0 s \<Longrightarrow> read_request s0 m \<or> own_message s0 m \<Longrightarrow> log_inv s0 (snd (publish accepts m s))"
  by (auto simp: log_inv_def publish_def)

lemma log_inv_upd [simp]:
  "log_inv s0 (s\<lparr>cm_last_keepalive := x\<rparr>) = log_inv s0 s" "log_inv s0 (s\<lparr>cm_last_refresh := x\<rparr>) = log_inv s0 s"
  "log_inv s0 (s\<lparr>cm_published := y\<rparr>) = log_inv s0 s" "log_inv s0 (s\<lparr>cm_availability := z\<rparr>) = log_inv s0 s"
  "log_inv s0 (s\<lparr>cm_meter := w\<rparr>) = log_inv s0 s" "log_inv s0 (s\<lparr>cm_connected := c\<rparr>) = log_inv s0 s"
  by (simp_all add: log_inv_def)

lemma read_msgs_ok:
  "log_inv s0 s \<Longrightarrow> read_request s0 (read_msg s p)" "log_inv s0 s \<Longrightarrow> read_request s0 (keepalive_msg s)"
  by (simp_all add: read_request_def read_msg_def keepalive_msg_def log_inv_def startswith_def)

lemma own_msgs_ok:
  "log_inv s0 s \<Longrightarrow> own_message s0 (availability_msg status s)"
  "log_inv s0 s \<Longrightarrow> own_message s0 \<lparr>mq_topic = cm_prefix s @ CHR ''/'' # t, mq_payload = b, mq_qos = q, mq_retain = r\<rparr>"
  by (simp_all add: own_message_def availability_msg_def log_inv_def startswith_def)

lemma log_inv_reads: "log_inv s0 s \<Longrightarrow> log_inv s0 (snd (publish_reads accepts ps s))"
proof (induction accepts ps s rule: publish_reads.induct)
  case (2 accepts p ps s)
  have "log_inv s0 (snd (publish accepts (read_msg s p) s))"
    using 2(2) by (intro log_inv_publish) (simp_all add: read_msgs_ok)
  then show ?case
    using 2(1) [of "publish accepts (read_msg s p) s" "fst (publish accepts (read_msg s p) s)"
        "snd (publish accepts (read_msg s p) s)"]
    by (simp add: split_def Let_def)
qed simp

lemma log_inv_refresh: "log_inv s0 s \<Longrightarrow> log_inv s0 (refresh_meter accepts now s)"
  by (auto simp: refresh_meter_def send_keepalive_def send_reads_def split_def Let_def
    intro!: log_inv_reads log_inv_publish read_msgs_ok)

lemma log_inv_availability: "log_inv s0 s \<Longrightarrow> log_inv s0 (publish_availability accepts available s)"
  by (auto simp: publish_availability_def split_def Let_def intro!: log_inv_publish own_msgs_ok)

lemma log_inv_state:
  assumes "log_inv s0 s" and "publish_state accepts revn topic body s = (r, t)" and "\<exists>x. topic = cm_prefix s @ CHR ''/'' # x"
  shows "log_inv s0 t"
proof -
  obtain x where "topic = cm_prefix s @ CHR ''/'' # x" using assms(3) by blast
  then have "log_inv s0 (snd (publish_state accepts revn topic body s))"
    using assms(1)
    by (auto simp: publish_state_def split_def Let_def intro!: log_inv_publish own_msgs_ok split: option.splits)
  then show ?thesis using assms(2) by simp
qed

lemma log_inv_vehicle: "log_inv s0 s \<Longrightarrow> log_inv s0 (snd (publish_vehicle accepts snapshot s))"
  by (auto simp: publish_vehicle_def Let_def split: prod.splits sum.splits if_splits
    intro!: log_inv_availability elim: log_inv_state)

lemma log_inv_mercedes: "log_inv s0 s \<Longrightarrow> log_inv s0 (snd (publish_mercedes accepts snapshot s))"
  by (auto simp: publish_mercedes_def Let_def split: prod.splits sum.splits if_splits
    intro!: log_inv_availability elim: log_inv_state)

lemma log_inv_tick: "log_inv s0 s \<Longrightarrow> log_inv s0 (snd (mqtt_tick accepts now snapshot s))"
  by (simp add: mqtt_tick_def Let_def log_inv_refresh log_inv_vehicle log_inv_mercedes)

lemma log_inv_step: "log_inv s0 s \<Longrightarrow> log_inv s0 (mqtt_step accepts e s)"
  by (cases e) (auto simp: log_inv_tick on_connect_def on_disconnect_def on_message_def split: option.splits sum.splits)

lemma log_inv_run: "log_inv s0 s \<Longrightarrow> log_inv s0 (mqtt_run accepts es s)"
  by (induction accepts es s rule: mqtt_run.induct) (simp_all add: log_inv_step)

text \<open>
  C16: whatever happens on the session, the program only ever publishes unretained read requests
  below \<^verbatim>\<open>R/<portal>/\<close> and messages below its own telemetry prefix: it never writes a value of the
  Victron system.
\<close>

theorem mqtt_never_writes_the_system:
  assumes "cerbo_init portal source publish_ha inst ttl vid = Inr s"
    and "(m, ok) \<in> set (cm_log (mqtt_close accepts (mqtt_run accepts es s)))"
  shows "(startswith (mq_topic m) (''R/'' @ portal @ ''/'') \<and> \<not> mq_retain m) \<or>
    startswith (mq_topic m) ((if source = ''mercedes'' then ''mercedes/'' @ portal else ''ev/'' @ portal @ ''/'' @ vid) @ ''/'')"
proof -
  have s: "cm_log s = []" "cm_portal s = portal"
    "cm_prefix s = (if source = ''mercedes'' then ''mercedes/'' @ portal else ''ev/'' @ portal @ ''/'' @ vid)"
    using assms(1) by (auto simp: cerbo_init_def split: if_splits)
  have "log_inv s (mqtt_run accepts es s)"
    using s(1) by (intro log_inv_run) (simp add: log_inv_def)
  then have "log_inv s (mqtt_close accepts (mqtt_run accepts es s))"
    by (auto simp: mqtt_close_def intro!: log_inv_publish own_msgs_ok)
  with assms(2) s show ?thesis by (auto simp: log_inv_def read_request_def own_message_def)
qed

definition demo_publisher :: cerbo where
  "demo_publisher = demo_cerbo\<lparr>cm_meter_instance := PNone\<rparr>"

definition demo_log :: "(msg \<times> bool) list" where
  "demo_log = cm_log (mqtt_close (\<lambda>_. True) (mqtt_run (\<lambda>_. True) [Connected 0, Tick 5 []] demo_publisher))"

theorem mqtt_never_writes_the_system_witness:
  "(availability_msg ''offline'' demo_publisher, True) \<in> set demo_log \<and>
   startswith (mq_topic (availability_msg ''offline'' demo_publisher)) ''mercedes/p/''"
proof -
  have i: "cerbo_init ''p'' ''mercedes'' True PNone 15 [] = Inr demo_publisher"
    by (simp add: cerbo_init_def demo_publisher_def demo_cerbo_def)
  have "(availability_msg ''offline'' demo_publisher, True) \<in> set demo_log"
    by (simp add: demo_log_def demo_publisher_def demo_cerbo_def mqtt_tick_def on_connect_def publish_mercedes_def
      publish_availability_def publish_def availability_msg_def mqtt_close_def Let_def)
  with mqtt_never_writes_the_system [OF i this [unfolded demo_log_def]] show ?thesis
    by (auto simp: availability_msg_def startswith_def demo_cerbo_def demo_publisher_def)
qed

section \<open>Telemetry of other providers\<close>

text \<open>What was offered on the state topic so far.\<close>

definition state_log :: "cerbo \<Rightarrow> (msg \<times> bool) list" where
  "state_log s = filter (\<lambda>(m, ok). mq_topic m = cm_prefix s @ ''/state'') (cm_log s)"

definition state_msg :: "cerbo \<Rightarrow> pydict \<Rightarrow> msg" where
  "state_msg s snapshot = \<lparr>mq_topic = cm_prefix s @ ''/state'', mq_payload = Json (PDict (vehicle_payload snapshot)),
     mq_qos = 1, mq_retain = True\<rparr>"

definition quiet :: "cerbo \<Rightarrow> cerbo \<Rightarrow> bool" where
  "quiet s t = (cm_prefix t = cm_prefix s \<and> cm_published t = cm_published s \<and> state_log t = state_log s \<and>
     cm_publish_ha t = cm_publish_ha s \<and> cm_source t = cm_source s \<and> cm_connected t = cm_connected s)"

lemma quiet_refl [simp]: "quiet s s"
  by (simp add: quiet_def)

lemma quiet_trans: "quiet s t \<Longrightarrow> quiet t u \<Longrightarrow> quiet s u"
  by (simp add: quiet_def)

lemma quiet_publish: "mq_topic m \<noteq> cm_prefix s @ ''/state'' \<Longrightarrow> quiet s (snd (publish accepts m s))"
  by (simp add: quiet_def publish_def state_log_def)

lemma quiet_upd [simp]:
  "quiet s (t\<lparr>cm_last_keepalive := x\<rparr>) = quiet s t" "quiet s (t\<lparr>cm_last_refresh := x\<rparr>) = quiet s t"
  "quiet s (t\<lparr>cm_availability := z\<rparr>) = quiet s t"
  by (simp_all add: quiet_def state_log_def)

lemma quiet_reads:
  "startswith (cm_prefix s) ''ev/'' \<Longrightarrow> quiet s (snd (publish_reads accepts ps s))"
proof (induction accepts ps s rule: publish_reads.induct)
  case (2 accepts p ps s)
  let ?s = "snd (publish accepts (read_msg s p) s)"
  have "mq_topic (read_msg s p) \<noteq> cm_prefix s @ ''/state''"
    using 2(2) by (cases "cm_prefix s") (auto simp: read_msg_def startswith_def)
  then have q: "quiet s ?s" by (rule quiet_publish)
  then have "startswith (cm_prefix ?s) ''ev/''" using 2(2) by (simp add: quiet_def)
  then have "quiet ?s (snd (publish_reads accepts ps ?s))"
    using 2(1) [of "publish accepts (read_msg s p) s" "fst (publish accepts (read_msg s p) s)" ?s] by simp
  with q show ?case by (auto simp: split_def Let_def intro: quiet_trans)
qed simp

lemma quiet_keepalive:
  assumes "startswith (cm_prefix s) ''ev/''"
  shows "quiet s (send_keepalive accepts now s)"
proof -
  have "mq_topic (keepalive_msg s) \<noteq> cm_prefix s @ ''/state''"
    using assms by (cases "cm_prefix s") (auto simp: keepalive_msg_def startswith_def)
  then show ?thesis by (auto simp: send_keepalive_def split_def Let_def intro: quiet_publish)
qed

lemma quiet_refresh:
  assumes "startswith (cm_prefix s) ''ev/''"
  shows "quiet s (refresh_meter accepts now s)"
proof -
  let ?s = "send_keepalive accepts now s"
  have q: "quiet s ?s" by (rule quiet_keepalive [OF assms])
  with assms have "startswith (cm_prefix ?s) ''ev/''" by (simp add: quiet_def)
  then have "quiet ?s (send_reads accepts now ?s)"
    by (auto simp: send_reads_def split_def Let_def intro: quiet_reads)
  with q show ?thesis unfolding refresh_meter_def by (rule quiet_trans)
qed

lemma quiet_availability: "quiet s (publish_availability accepts available s)"
  by (auto simp: publish_availability_def Let_def split_def availability_msg_def intro: quiet_publish)

lemma publish_state_ok:
  assumes "publish_state accepts revn (cm_prefix s @ ''/state'') body s = (Inr (), t)"
  shows "state_log t = state_log s @ (if same_rev revn (cm_published s) then []
      else [(\<lparr>mq_topic = cm_prefix s @ ''/state'', mq_payload = Json body, mq_qos = 1, mq_retain = True\<rparr>,
        accepts \<lparr>mq_topic = cm_prefix s @ ''/state'', mq_payload = Json body, mq_qos = 1, mq_retain = True\<rparr>)]) \<and>
    cm_published t = (if same_rev revn (cm_published s) \<or>
        \<not> accepts \<lparr>mq_topic = cm_prefix s @ ''/state'', mq_payload = Json body, mq_qos = 1, mq_retain = True\<rparr>
      then cm_published s else revn) \<and>
    cm_prefix t = cm_prefix s \<and> cm_publish_ha t = cm_publish_ha s \<and> cm_source t = cm_source s \<and>
    cm_connected t = cm_connected s"
  using assms
  by (cases "same_rev revn (cm_published s)"; cases "json_error body")
     (auto simp: publish_state_def publish_def state_log_def Let_def)

lemma tick_state_log:
  assumes "mqtt_tick accepts now snapshot s = (Inr (), t)" and "cm_connected s" and "cm_publish_ha s"
    and "cm_source s \<noteq> ''mercedes''" and "startswith (cm_prefix s) ''ev/''"
    and "truthy (dget snapshot ''ok'')" and "dget snapshot ''sampled_at'' = PFloat (Fin q)"
  shows "state_log t = state_log s @ (if same_rev (PFloat (Fin q)) (cm_published s) then []
      else [(state_msg s snapshot, accepts (state_msg s snapshot))]) \<and>
    cm_published t = (if same_rev (PFloat (Fin q)) (cm_published s) \<or> \<not> accepts (state_msg s snapshot)
      then cm_published s else PFloat (Fin q)) \<and>
    cm_prefix t = cm_prefix s \<and> cm_publish_ha t \<and> cm_source t = cm_source s \<and> cm_connected t"
proof -
  define s1 where "s1 = (if cm_meter_instance s \<noteq> PNone then refresh_meter accepts now s else s)"
  have q1: "quiet s s1" using quiet_refresh [OF assms(5)] by (simp add: s1_def)
  then have "publish_vehicle accepts snapshot s1 = (Inr (), t)"
    using assms(1-4) by (simp add: mqtt_tick_def quiet_def flip: s1_def)
  then obtain s2 where s2: "publish_state accepts (PFloat (Fin q)) (cm_prefix s1 @ ''/state'')
      (PDict (vehicle_payload snapshot)) s1 = (Inr (), s2)" and t: "t = publish_availability accepts True s2"
    using assms(6,7) by (auto simp: publish_vehicle_def Let_def split: prod.splits sum.splits)
  have "quiet s2 t" unfolding t by (rule quiet_availability)
  with q1 publish_state_ok [OF s2] assms(2-4) show ?thesis
    by (simp add: quiet_def state_msg_def)
qed

text \<open>
  a vehicle sample is offered to the broker on every tick until one offer is accepted, and never
  again on that connection after that; a rejected publication is not remembered as done.
\<close>

theorem sample_published_until_accepted:
  assumes "mqtt_tick acc1 now1 snapshot s = (Inr (), s1)" and "mqtt_tick acc2 now2 snapshot s1 = (Inr (), s2)"
    and "cm_connected s" and "cm_publish_ha s" and "cm_source s \<noteq> ''mercedes''" and "startswith (cm_prefix s) ''ev/''"
    and "truthy (dget snapshot ''ok'')" and "dget snapshot ''sampled_at'' = PFloat (Fin q)"
    and "\<not> same_rev (PFloat (Fin q)) (cm_published s)"
  shows "state_log s1 = state_log s @ [(state_msg s snapshot, acc1 (state_msg s snapshot))] \<and>
    state_log s2 = state_log s1 @ (if acc1 (state_msg s snapshot) then []
      else [(state_msg s snapshot, acc2 (state_msg s snapshot))])"
proof -
  note a = tick_state_log [OF assms(1,3-8)]
  then have "startswith (cm_prefix s1) ''ev/''" "state_msg s1 snapshot = state_msg s snapshot"
    using assms(6) by (simp_all add: state_msg_def)
  then have b: "state_log s2 = state_log s1 @ (if same_rev (PFloat (Fin q)) (cm_published s1) then []
      else [(state_msg s snapshot, acc2 (state_msg s snapshot))])"
    using tick_state_log [OF assms(2) _ _ _ _ assms(7,8)] a assms(5) by simp
  have "same_rev (PFloat (Fin q)) (PFloat (Fin q))" by (simp add: py_eq_def)
  with a b assms(9) show ?thesis by auto
qed

definition demo_sample :: pydict where
  "demo_sample = [(''ok'', PBool True), (''sampled_at'', PFloat (Fin 1000)), (''soc'', PFloat (Fin 55))]"

definition demo_ev :: cerbo where
  "demo_ev = demo_cerbo\<lparr>cm_source := ''evcc'', cm_prefix := ''ev/p/ha'', cm_connected := True,
     cm_meter_instance := PNone\<rparr>"

theorem sample_published_until_accepted_witness:
  "\<exists>s1 s2. mqtt_tick (\<lambda>_. False) 5 demo_sample demo_ev = (Inr (), s1) \<and>
     mqtt_tick (\<lambda>_. True) 6 demo_sample s1 = (Inr (), s2) \<and>
     state_log s2 = state_log s1 @ [(state_msg demo_ev demo_sample, True)]"
proof -
  obtain r1 s1 where t1: "mqtt_tick (\<lambda>_. False) 5 demo_sample demo_ev = (r1, s1)"
    by (cases "mqtt_tick (\<lambda>_. False) 5 demo_sample demo_ev")
  obtain r2 s2 where t2: "mqtt_tick (\<lambda>_. True) 6 demo_sample s1 = (r2, s2)"
    by (cases "mqtt_tick (\<lambda>_. True) 6 demo_sample s1")
  have "is_ok (fst (mqtt_tick (\<lambda>_. False) 5 demo_sample demo_ev))"
    "is_ok (fst (mqtt_tick (\<lambda>_. True) 6 demo_sample (snd (mqtt_tick (\<lambda>_. False) 5 demo_sample demo_ev))))"
    by code_simp+
  then have ok: "mqtt_tick (\<lambda>_. False) 5 demo_sample demo_ev = (Inr (), s1)"
    "mqtt_tick (\<lambda>_. True) 6 demo_sample s1 = (Inr (), s2)"
    using t1 t2 by (auto simp: is_ok_iff)
  have "cm_connected demo_ev" "cm_publish_ha demo_ev" "cm_source demo_ev \<noteq> ''mercedes''"
    "startswith (cm_prefix demo_ev) ''ev/''" "truthy (dget demo_sample ''ok'')"
    "dget demo_sample ''sampled_at'' = PFloat (Fin 1000)"
    "\<not> same_rev (PFloat (Fin 1000)) (cm_published demo_ev)" by code_simp+
  from sample_published_until_accepted [OF ok this] ok show ?thesis by auto
qed

end
