(* ===== verification/Worker.thy ===== *)
theory Worker
  imports Prelude
begin

text \<open>
  \<^verbatim>\<open>dbus_ev/worker.py\<close>: one background thread polls while the main loop stays responsive. The
  model interleaves the main loop, the worker thread and the dispatcher that runs callbacks on the
  main loop; a callback is known by the number of its request. Each step is one operation on a
  shared object (the bounded queue, the stop flag, the dispatch queue), which the library makes
  atomic.
\<close>

section \<open>Steps\<close>

datatype item = Callback nat | Sentinel

text \<open>The worker waits for an item, has taken one, is polling for one, or has ended.\<close>

datatype thread = Waiting | Taken item | Polling nat | Ended

text \<open>The main loop is free, or inside \<^verbatim>\<open>stop\<close> before the drain or before the sentinel.\<close>

datatype main_pc = Free | Draining | Closing

record worker =
  wk_queue :: "item option"
  wk_stopping :: bool
  wk_pending :: bool
  wk_thread :: thread
  wk_dispatched :: "nat list"
  wk_main :: main_pc
  wk_delivered :: "nat list"
  wk_polls :: nat
  wk_closed :: bool
  wk_full_error :: bool

definition worker_init :: worker where
  "worker_init = \<lparr>wk_queue = None, wk_stopping = False, wk_pending = False, wk_thread = Waiting,
     wk_dispatched = [], wk_main = Free, wk_delivered = [], wk_polls = 0, wk_closed = False,
     wk_full_error = False\<rparr>"

text \<open>\<^verbatim>\<open>put_nowait\<close> on the queue of size one: a full queue raises.\<close>

definition put_nowait :: "item \<Rightarrow> worker \<Rightarrow> worker" where
  "put_nowait i s = (if wk_queue s = None then s\<lparr>wk_queue := Some i\<rparr> else s\<lparr>wk_full_error := True\<rparr>)"

text \<open>\<^verbatim>\<open>poll\<close> with its return value.\<close>

definition worker_poll :: "nat \<Rightarrow> worker \<Rightarrow> bool \<times> worker" where
  "worker_poll n s =
     (if wk_pending s \<or> wk_stopping s then (False, s)
      else (True, (put_nowait (Callback n) s)\<lparr>wk_pending := True\<rparr>))"

definition deliver :: "nat \<Rightarrow> worker \<Rightarrow> worker" where
  "deliver n s =
     (let s = s\<lparr>wk_pending := False\<rparr>
      in if wk_stopping s then s else s\<lparr>wk_delivered := wk_delivered s @ [n]\<rparr>)"

text \<open>The body of the loop once an item is taken.\<close>

definition handle :: "item \<Rightarrow> worker \<Rightarrow> worker" where
  "handle i s = (case i of
     Sentinel \<Rightarrow> s\<lparr>wk_thread := Ended, wk_closed := True\<rparr>
   | Callback n \<Rightarrow>
       if wk_stopping s then s\<lparr>wk_thread := Waiting\<rparr>
       else s\<lparr>wk_thread := Polling n, wk_polls := wk_polls s + 1\<rparr>)"

inductive main_step :: "worker \<Rightarrow> worker \<Rightarrow> bool" where
  poll: "wk_main s = Free \<Longrightarrow> worker_poll n s = (r, t) \<Longrightarrow> main_step s t"
| delivery: "wk_main s = Free \<Longrightarrow> wk_dispatched s = n # ns \<Longrightarrow>
    main_step s (deliver n (s\<lparr>wk_dispatched := ns\<rparr>))"
| stop: "wk_main s = Free \<Longrightarrow> \<not> wk_stopping s \<Longrightarrow> main_step s (s\<lparr>wk_stopping := True, wk_main := Draining\<rparr>)"
| drain: "wk_main s = Draining \<Longrightarrow> main_step s (s\<lparr>wk_queue := None, wk_main := Closing\<rparr>)"
| sentinel: "wk_main s = Closing \<Longrightarrow> main_step s ((put_nowait Sentinel s)\<lparr>wk_main := Free\<rparr>)"

inductive thread_step :: "worker \<Rightarrow> worker \<Rightarrow> bool" where
  get: "wk_thread s = Waiting \<Longrightarrow> wk_queue s = Some i \<Longrightarrow>
    thread_step s (s\<lparr>wk_queue := None, wk_thread := Taken i\<rparr>)"
| handled: "wk_thread s = Taken i \<Longrightarrow> thread_step s (handle i s)"
| polled: "wk_thread s = Polling n \<Longrightarrow>
    thread_step s (s\<lparr>wk_dispatched := wk_dispatched s @ [n], wk_thread := Waiting\<rparr>)"

inductive_cases thread_stepE: "thread_step s t"
inductive_cases main_stepE: "main_step s t"

inductive worker_reachable :: "worker \<Rightarrow> bool" where
  start: "worker_reachable worker_init"
| main: "worker_reachable s \<Longrightarrow> main_step s t \<Longrightarrow> worker_reachable t"
| thread: "worker_reachable s \<Longrightarrow> thread_step s t \<Longrightarrow> worker_reachable t"

section \<open>Invariant\<close>

text \<open>The requests under way: queued, taken, being polled or waiting to be delivered.\<close>

definition queued :: "worker \<Rightarrow> nat list" where
  "queued s = (case wk_queue s of Some (Callback n) \<Rightarrow> [n] | _ \<Rightarrow> [])"

definition in_thread :: "worker \<Rightarrow> nat list" where
  "in_thread s = (case wk_thread s of Taken (Callback n) \<Rightarrow> [n] | Polling n \<Rightarrow> [n] | _ \<Rightarrow> [])"

definition outstanding :: "worker \<Rightarrow> nat list" where
  "outstanding s = queued s @ in_thread s @ wk_dispatched s"

text \<open>At most one sentinel exists and the thread ends on it.\<close>

definition sentinels :: "worker \<Rightarrow> nat" where
  "sentinels s = (if wk_queue s = Some Sentinel then 1 else 0) + (if wk_thread s = Taken Sentinel then 1 else 0) +
     (if wk_thread s = Ended then 1 else 0)"

definition worker_inv :: "worker \<Rightarrow> bool" where
  "worker_inv s =
     (length (outstanding s) \<le> (if wk_pending s then 1 else 0) \<and>
      sentinels s = (if wk_stopping s \<and> wk_main s = Free then 1 else 0) \<and>
      (wk_main s \<noteq> Free \<longrightarrow> wk_stopping s) \<and> (wk_main s = Closing \<longrightarrow> wk_queue s = None) \<and>
      (wk_stopping s \<and> wk_main s = Free \<longrightarrow> queued s = []) \<and>
      (wk_closed s \<longleftrightarrow> wk_thread s = Ended) \<and> \<not> wk_full_error s)"

lemmas worker_defs = worker_inv_def outstanding_def queued_def in_thread_def sentinels_def

lemma worker_inv_init [inv_intros]: "worker_inv worker_init"
  by (simp add: worker_defs worker_init_def)

lemma idle_queue:
  assumes "worker_inv s" and "\<not> wk_pending s" and "\<not> wk_stopping s"
  shows "wk_queue s = None"
proof -
  have "queued s = []" "sentinels s = 0" using assms by (auto simp: worker_inv_def outstanding_def)
  then show ?thesis
    by (auto simp: queued_def sentinels_def split: option.splits item.splits if_splits)
qed

lemma accepted_inv:
  assumes "worker_inv s" and "\<not> wk_pending s" and "\<not> wk_stopping s"
  shows "worker_inv (s\<lparr>wk_queue := Some (Callback n), wk_pending := True\<rparr>)"
proof -
  have "in_thread s = []" "wk_dispatched s = []" using assms by (auto simp: worker_inv_def outstanding_def)
  then show ?thesis
    using assms idle_queue [OF assms] by (simp add: worker_inv_def outstanding_def queued_def sentinels_def in_thread_def)
qed

lemma poll_inv: "worker_inv s \<Longrightarrow> worker_poll n s = (r, t) \<Longrightarrow> worker_inv t"
  using idle_queue [of s] accepted_inv [of s n]
  by (auto simp: worker_poll_def put_nowait_def split: if_splits)

lemma deliver_inv: "worker_inv s \<Longrightarrow> wk_dispatched s = n # ns \<Longrightarrow> worker_inv (deliver n (s\<lparr>wk_dispatched := ns\<rparr>))"
  by (auto simp: worker_defs deliver_def Let_def split: if_splits)

lemma main_step_inv [inv_intros]: "main_step s t \<Longrightarrow> worker_inv s \<Longrightarrow> worker_inv t"
proof (induction rule: main_step.induct)
  case (stop s)
  then show ?case by (auto simp: worker_defs)
next
  case (drain s)
  then show ?case by (auto simp: worker_defs split: option.splits item.splits)
next
  case (sentinel s)
  then show ?case by (auto simp: worker_defs put_nowait_def)
qed (simp_all add: poll_inv deliver_inv)

lemma thread_step_inv [inv_intros]: "thread_step s t \<Longrightarrow> worker_inv s \<Longrightarrow> worker_inv t"
proof (induction rule: thread_step.induct)
  case (get s i)
  then show ?case by (cases i) (auto simp: worker_defs split: if_splits)
next
  case (handled s i)
  then show ?case by (cases i) (auto simp: worker_defs handle_def split: if_splits)
next
  case (polled s n)
  then show ?case by (auto simp: worker_defs split: if_splits)
qed

lemma worker_reachable_inv: "worker_reachable s \<Longrightarrow> worker_inv s"
  by (induction rule: worker_reachable.induct) (auto intro: inv_intros)

section \<open>Properties\<close>

text \<open>
  C7: at any moment of any interleaving at most one request is queued, running or awaiting delivery,
  and none is outstanding when a new one is accepted; putting an item never meets a full queue; the
  client is closed exactly when the thread has ended, so it is never polled after being closed.
\<close>

theorem one_request_at_a_time:
  assumes "worker_reachable s"
  shows "length (outstanding s) \<le> 1 \<and> (fst (worker_poll n s) \<longrightarrow> outstanding s = []) \<and> \<not> wk_full_error s \<and>
    (wk_closed s \<longleftrightarrow> wk_thread s = Ended)"
  using worker_reachable_inv [OF assms]
  by (cases "wk_pending s") (auto simp: worker_inv_def worker_poll_def)

definition demo_taken :: worker where
  "demo_taken = (worker_init\<lparr>wk_queue := Some (Callback 4), wk_pending := True\<rparr>)
     \<lparr>wk_queue := None, wk_thread := Taken (Callback 4)\<rparr>"

lemma demo_taken_reachable: "worker_reachable demo_taken"
proof -
  have p: "worker_poll 4 worker_init = (True, worker_init\<lparr>wk_queue := Some (Callback 4), wk_pending := True\<rparr>)"
    by (simp add: worker_poll_def worker_init_def put_nowait_def)
  have "worker_reachable (worker_init\<lparr>wk_queue := Some (Callback 4), wk_pending := True\<rparr>)"
    by (rule worker_reachable.main [OF worker_reachable.start main_step.poll [OF _ p]]) (simp add: worker_init_def)
  then show ?thesis
    unfolding demo_taken_def by (rule worker_reachable.thread) (rule thread_step.get; simp add: worker_init_def)
qed

theorem one_request_at_a_time_witness:
  "length (outstanding demo_taken) = 1 \<and> \<not> fst (worker_poll 5 demo_taken)"
proof -
  have "length (outstanding demo_taken) \<le> 1" "fst (worker_poll 5 demo_taken) \<longrightarrow> outstanding demo_taken = []"
    using one_request_at_a_time [OF demo_taken_reachable] by blast+
  moreover have "outstanding demo_taken = [4]"
    by (simp add: demo_taken_def worker_init_def outstanding_def in_thread_def queued_def)
  ultimately show ?thesis by simp
qed

text \<open>Once the stop flag is set it stays set and nothing more is delivered.\<close>

lemma main_step_stopped:
  "main_step s t \<Longrightarrow> wk_stopping s \<Longrightarrow> wk_stopping t \<and> wk_delivered t = wk_delivered s"
  by (induction rule: main_step.induct) (auto simp: worker_poll_def deliver_def put_nowait_def)

lemma thread_step_stopped:
  "thread_step s t \<Longrightarrow> wk_stopping t = wk_stopping s \<and> wk_delivered t = wk_delivered s \<and> wk_main t = wk_main s \<and>
    (wk_stopping s \<longrightarrow> wk_polls t = wk_polls s)"
  by (induction rule: thread_step.induct) (auto simp: handle_def split: item.splits)

inductive later :: "worker \<Rightarrow> worker \<Rightarrow> bool" where
  refl: "later s s"
| main: "later s t \<Longrightarrow> main_step t u \<Longrightarrow> later s u"
| thread: "later s t \<Longrightarrow> thread_step t u \<Longrightarrow> later s u"

lemma main_step_polls: "main_step s t \<Longrightarrow> wk_polls t = wk_polls s"
  by (induction rule: main_step.induct) (auto simp: worker_poll_def deliver_def put_nowait_def Let_def split: if_splits)

lemma later_stopped:
  "later s t \<Longrightarrow> wk_stopping s \<Longrightarrow> wk_stopping t \<and> wk_delivered t = wk_delivered s \<and> wk_polls t = wk_polls s"
proof (induction rule: later.induct)
  case (main s t u)
  then show ?case using main_step_stopped main_step_polls by metis
next
  case (thread s t u)
  then show ?case using thread_step_stopped by metis
qed simp

text \<open>What the thread still has to do once \<^verbatim>\<open>stop\<close> has put the sentinel.\<close>

fun thread_work :: "thread \<Rightarrow> nat" where
  "thread_work Ended = 0"
| "thread_work (Taken Sentinel) = 1"
| "thread_work Waiting = 2"
| "thread_work (Taken (Callback n)) = 3"
| "thread_work (Polling n) = 3"

lemma stopped_thread_proceeds:
  assumes "worker_inv s" and "wk_stopping s" and "wk_main s = Free" and "wk_thread s \<noteq> Ended"
  shows "\<exists>t. thread_step s t"
proof (cases "wk_thread s")
  case Waiting
  with assms have "wk_queue s = Some Sentinel" by (auto simp: worker_inv_def sentinels_def split: if_splits)
  with Waiting show ?thesis by (blast intro: thread_step.get)
qed (use assms(4) in \<open>auto intro: thread_step.intros\<close>)

lemma stopped_thread_decreases:
  assumes "thread_step s t" and "worker_inv s" and "wk_stopping s" and "wk_main s = Free"
  shows "thread_work (wk_thread t) < thread_work (wk_thread s)"
  using assms
proof (cases rule: thread_step.cases)
  case (get i)
  then have "i = Sentinel" using assms by (cases i) (auto simp: worker_inv_def queued_def)
  with get show ?thesis by simp
next
  case (handled i)
  with assms(3) show ?thesis by (cases i) (auto simp: handle_def)
next
  case (polled n)
  then show ?thesis by simp
qed

fun thread_steps :: "nat \<Rightarrow> worker \<Rightarrow> worker \<Rightarrow> bool" where
  "thread_steps 0 s t = (s = t)"
| "thread_steps (Suc n) s t = (\<exists>u. thread_step s u \<and> thread_steps n u t)"

lemma thread_steps_bounded:
  "thread_steps n s t \<Longrightarrow> worker_inv s \<Longrightarrow> wk_stopping s \<Longrightarrow> wk_main s = Free \<Longrightarrow>
    n + thread_work (wk_thread t) \<le> thread_work (wk_thread s) \<and> worker_inv t \<and> wk_stopping t \<and> wk_main t = Free"
proof (induction n arbitrary: s)
  case (Suc n)
  then obtain u where u: "thread_step s u" "thread_steps n u t" by auto
  with Suc show ?case
    using thread_step_inv [OF u(1)] thread_step_stopped [OF u(1)] stopped_thread_decreases [OF u(1)] by fastforce
qed simp

lemma thread_work_bound: "thread_work th \<le> 3"
  by (cases th rule: thread_work.cases) simp_all


definition demo_stopped :: worker where
  "demo_stopped = (worker_init\<lparr>wk_stopping := True, wk_main := Closing, wk_queue := None\<rparr>)
     \<lparr>wk_queue := Some Sentinel, wk_main := Free\<rparr>"

lemma demo_stopped_reachable: "worker_reachable demo_stopped"
proof -
  let ?a = "worker_init\<lparr>wk_stopping := True, wk_main := Draining\<rparr>"
  let ?b = "?a\<lparr>wk_queue := None, wk_main := Closing\<rparr>"
  have "worker_reachable ?a"
    by (rule worker_reachable.main [OF worker_reachable.start main_step.stop]) (simp_all add: worker_init_def)
  then have "worker_reachable ?b" by (rule worker_reachable.main [OF _ main_step.drain]) simp
  then have "worker_reachable ((put_nowait Sentinel ?b)\<lparr>wk_main := Free\<rparr>)"
    by (rule worker_reachable.main [OF _ main_step.sentinel]) simp
  then show ?thesis by (simp add: demo_stopped_def put_nowait_def worker_init_def)
qed


end
