(* ===== verification/Config.thy ===== *)
theory Config
  imports Py_Value
begin

text \<open>
  \<^verbatim>\<open>dbus_ev/config.py\<close>: the settings of the process, read once at import. \<open>options\<close> is the JSON object
  of the setup options file (empty when the file is missing), \<open>local\<close> the attributes of
  \<^verbatim>\<open>local_config\<close>, or \<open>None\<close> when that module is missing, \<open>version_file\<close> the text of the version file.
\<close>

section \<open>Reading one setting\<close>

definition get_setting :: "pydict \<Rightarrow> pydict option \<Rightarrow> string \<Rightarrow> pyval \<Rightarrow> pyval" where
  "get_setting options local name dflt =
     (if name \<in> {''HA_MQTT_ENABLED'', ''DATA_SOURCE''} \<and> haskey options name then dget options name
      else case local of
        Some attrs \<Rightarrow> if haskey attrs name then dget attrs name else dflt
      | None \<Rightarrow> dflt)"

definition read_version :: "string option \<Rightarrow> string" where
  "read_version version_file = (case version_file of None \<Rightarrow> ''0.0.0'' | Some s \<Rightarrow> strip s)"

text \<open>The conversion wrapped around a setting.\<close>

datatype conversion =
  AsStr | AsUrl | AsLower | AsUpper | AsInt | AsFloat | AsBool | AsIs | AsFloatOrNone

fun convert :: "conversion \<Rightarrow> pyval \<Rightarrow> pyval res" where
  "convert AsStr v = Inr (PStr (py_str v))"
| "convert AsUrl v = Inr (PStr (rstrip_char (CHR ''/'') (py_str v)))"
| "convert AsLower v = Inr (PStr (lower (py_str v)))"
| "convert AsUpper v = Inr (PStr (upper (py_str v)))"
| "convert AsInt v = rbind (py_int v) (\<lambda>n. Inr (PInt n))"
| "convert AsFloat v = rbind (py_float v) (\<lambda>f. Inr (PFloat f))"
| "convert AsBool v = Inr (PBool (truthy v))"
| "convert AsIs v = Inr v"
| "convert AsFloatOrNone v = (if v = PNone then Inr PNone else rbind (py_float v) (\<lambda>f. Inr (PFloat f)))"

section \<open>The table of settings\<close>

definition source_settings :: "(string \<times> conversion \<times> pyval) list" where
  "source_settings = [
     (''HA_URL'', AsUrl, PStr ''''),
     (''HA_TOKEN'', AsStr, PStr ''''),
     (''HA_SOC_ENTITY'', AsStr, PStr ''''),
     (''HA_TARGET_SOC_ENTITY'', AsStr, PStr ''''),
     (''HA_VIN_ENTITY'', AsStr, PStr ''''),
     (''HA_BATTERY_CAPACITY_ENTITY'', AsStr, PStr ''''),
     (''HA_CHARGING_STATE_ENTITY'', AsStr, PStr ''''),
     (''HA_ODOMETER_ENTITY'', AsStr, PStr ''''),
     (''HA_RANGE_TO_GO_ENTITY'', AsStr, PStr ''''),
     (''HA_LATITUDE_ENTITY'', AsStr, PStr ''''),
     (''HA_LONGITUDE_ENTITY'', AsStr, PStr ''''),
     (''HA_AT_SITE_ENTITY'', AsStr, PStr ''''),
     (''HA_POWER_ENTITY'', AsStr, PStr ''''),
     (''HA_CURRENT_ENTITY'', AsStr, PStr ''''),
     (''DEVICE_INSTANCE'', AsInt, PInt 22),
     (''PRODUCT_NAME'', AsStr, PStr ''dbus-ev''),
     (''PRODUCT_ID'', AsInt, PInt 0),
     (''EVCHARGER_INSTANCE'', AsInt, PInt 40),
     (''BUS_SUFFIX'', AsStr, PStr ''ha''),
     (''ENABLE_CONTROL'', AsBool, PBool False),
     (''VALVE_START_VALUE'', AsFloat, PFloat (Fin 30)),
     (''VALVE_STOP_VALUE'', AsFloat, PFloat (Fin 85)),
     (''SENSOR_STALE_TIMEOUT'', AsFloat, PFloat (Fin 120)),
     (''MIN_SWITCH_INTERVAL'', AsFloat, PFloat (Fin 60)),
     (''POLL_INTERVAL'', AsFloat, PFloat (Fin 15)),
     (''HA_TIMEOUT'', AsFloat, PFloat (Fin 3))]"

definition output_settings :: "(string \<times> conversion \<times> pyval) list" where
  "output_settings = [
     (''DATA_SOURCE'', AsLower, PStr ''ha''),
     (''EVCC_BINARY'', AsStr, PStr ''/data/setupOptions/dbus-ev/bin/vehicle-engine''),
     (''EVCC_CONFIG_FILE'', AsStr, PStr ''/data/setupOptions/dbus-ev/vehicle.json''),
     (''EVCC_STATE_FILE'', AsStr, PStr ''/data/setupOptions/dbus-ev/vehicle-state.json''),
     (''EVCC_POLL_INTERVAL'', AsFloat, PInt 3600),
     (''EVCC_STALE_TIMEOUT'', AsFloat, PInt 7500),
     (''MERCEDES_VIN'', AsUpper, PStr ''''),
     (''MERCEDES_REGION'', AsStr, PStr ''Europe''),
     (''MERCEDES_TOKEN_FILE'', AsStr, PStr ''/data/setupOptions/dbus-ev/mercedes-token.json''),
     (''MERCEDES_STALE_TIMEOUT'', AsFloat, PFloat (Fin 900)),
     (''MERCEDES_CREDENTIALS_FILE'', AsStr, PStr ''''),
     (''HOME_LATITUDE'', AsIs, PNone),
     (''HOME_LONGITUDE'', AsIs, PNone),
     (''HOME_RADIUS_METERS'', AsFloat, PFloat (Fin 150)),
     (''CHARGER_ENABLED'', AsBool, PBool False),
     (''CHARGER_BUS_SUFFIX'', AsStr, PStr ''charger''),
     (''CHARGER_NAME'', AsStr, PStr ''EV Charger''),
     (''CHARGER_PHASES'', AsInt, PInt 1),
     (''CERBO_METER_INSTANCE'', AsIs, PNone),
     (''CERBO_METER_TTL'', AsFloat, PFloat (Fin 15)),
     (''HA_MQTT_ENABLED'', AsBool, PBool False),
     (''CERBO_MQTT_HOST'', AsStr, PStr ''127.0.0.1''),
     (''CERBO_MQTT_PORT'', AsInt, PInt 1883),
     (''CERBO_MQTT_USERNAME'', AsStr, PStr ''''),
     (''CERBO_MQTT_PASSWORD'', AsStr, PStr ''''),
     (''CERBO_PORTAL_ID'', AsStr, PStr ''''),
     (''BATTERY_CAPACITY_KWH'', AsFloatOrNone, PNone),
     (''CIRCUIT_OPEN_THRESHOLD'', AsInt, PInt 5),
     (''CIRCUIT_RESET_TIMEOUT'', AsFloat, PFloat (Fin 60))]"

definition settings :: "(string \<times> conversion \<times> pyval) list" where
  "settings = source_settings @ output_settings"

text \<open>The module body: settings in their order, the first conversion that raises ends the import.\<close>

fun load_settings :: "pydict \<Rightarrow> pydict option \<Rightarrow> (string \<times> conversion \<times> pyval) list \<Rightarrow> pydict res" where
  "load_settings options local [] = Inr []"
| "load_settings options local ((name, conv, dflt) # rest) =
     rbind (convert conv (get_setting options local name dflt)) (\<lambda>v.
     rbind (load_settings options local rest) (\<lambda>c. Inr ((name, v) # c)))"

definition load_config :: "pydict \<Rightarrow> pydict option \<Rightarrow> string option \<Rightarrow> pydict res" where
  "load_config options local version_file =
     rbind (load_settings options local settings) (\<lambda>c.
       Inr (c @ [(''SOFTWARE_VERSION'', PStr (read_version version_file))]))"

definition control_enabled :: "pydict \<Rightarrow> bool" where
  "control_enabled c =
     (if \<not> truthy (dget c ''HA_TOKEN'') \<or> dget c ''HA_TOKEN'' = PStr ''your_long_lived_access_token_here''
      then False else truthy (dget c ''ENABLE_CONTROL''))"

section \<open>What a loaded configuration holds\<close>

lemma settings_distinct: "distinct (map fst settings)"
  by code_simp

lemma load_settings_keys: "load_settings options local ss = Inr c \<Longrightarrow> map fst c = map fst ss"
  by (induction options local ss arbitrary: c rule: load_settings.induct) (auto simp: rbind_Inr_iff)

lemma load_settings_lookup:
  assumes "load_settings options local ss = Inr c" and "distinct (map fst ss)" and "(name, conv, dflt) \<in> set ss"
  shows "convert conv (get_setting options local name dflt) = Inr (dget c name)"
  using assms
proof (induction options local ss arbitrary: c rule: load_settings.induct)
  case (2 options local n1 conv1 dflt1 rest)
  then obtain v c' where v: "convert conv1 (get_setting options local n1 dflt1) = Inr v"
    "load_settings options local rest = Inr c'" "c = (n1, v) # c'" by (auto simp: rbind_Inr_iff)
  show ?case
  proof (cases "name = n1")
    case True
    with 2(3,4) have "conv = conv1" "dflt = dflt1" by (auto simp: image_iff split: prod.splits)
    with True v show ?thesis by (simp add: dget_def)
  next
    case False
    with 2(1) [OF v(2)] 2(3,4) v(3) show ?thesis by (simp add: dget_def)
  qed
qed simp

lemma dget_append: "haskey c k \<Longrightarrow> dget (c @ d) k = dget c k"
  by (auto simp: dget_def haskey_def map_add_def map_of_eq_None_iff split: option.splits)

lemma load_config_lookup:
  assumes "load_config options local vf = Inr c" and "(name, conv, dflt) \<in> set settings"
  shows "convert conv (get_setting options local name dflt) = Inr (dget c name)"
proof -
  from assms(1) obtain c0 where c0: "load_settings options local settings = Inr c0"
    "c = c0 @ [(''SOFTWARE_VERSION'', PStr (read_version vf))]" by (auto simp: load_config_def rbind_Inr_iff)
  from load_settings_keys [OF c0(1)] assms(2) have "name \<in> fst ` set c0"
    by (metis (no_types, lifting) fst_conv image_eqI list.set_map)
  then have "haskey c0 name" by (auto simp: haskey_def map_of_eq_None_iff)
  with load_settings_lookup [OF c0(1) settings_distinct assms(2)] c0(2) show ?thesis
    by (simp add: dget_append)
qed

lemma in_settings:
  "(''HA_TOKEN'', AsStr, PStr []) \<in> set settings" "(''ENABLE_CONTROL'', AsBool, PBool False) \<in> set settings"
  by (simp_all add: settings_def source_settings_def)

text \<open>
  automation is opt-in. Whatever the setup options hold, it is enabled only when
  \<^verbatim>\<open>local_config\<close> itself sets \<^verbatim>\<open>ENABLE_CONTROL\<close> to a true value and an \<^verbatim>\<open>HA_TOKEN\<close> whose text is
  neither empty nor the placeholder of the example file; without a local configuration it is off.
\<close>

theorem automation_needs_opt_in:
  assumes "load_config options local version_file = Inr c" and "control_enabled c"
  shows "\<exists>attrs. local = Some attrs \<and> truthy (dget attrs ''ENABLE_CONTROL'') \<and>
    haskey attrs ''HA_TOKEN'' \<and> py_str (dget attrs ''HA_TOKEN'') \<notin> {[], ''your_long_lived_access_token_here''}"
proof -
  have t: "dget c ''HA_TOKEN'' = PStr (py_str (get_setting options local ''HA_TOKEN'' (PStr [])))"
    using load_config_lookup [OF assms(1) in_settings(1)] by simp
  have e: "dget c ''ENABLE_CONTROL'' = PBool (truthy (get_setting options local ''ENABLE_CONTROL'' (PBool False)))"
    using load_config_lookup [OF assms(1) in_settings(2)] by simp
  from assms(2) t e have on: "truthy (get_setting options local ''ENABLE_CONTROL'' (PBool False))"
    and tok: "py_str (get_setting options local ''HA_TOKEN'' (PStr [])) \<notin> {[], ''your_long_lived_access_token_here''}"
    by (auto simp: control_enabled_def split: if_splits)
  from on obtain attrs where a: "local = Some attrs" "truthy (dget attrs ''ENABLE_CONTROL'')"
    by (auto simp: get_setting_def split: option.splits if_splits)
  with tok show ?thesis by (cases "haskey attrs ''HA_TOKEN''") (simp_all add: get_setting_def)
qed

definition demo_local :: pydict where
  "demo_local = [(''HA_TOKEN'', PStr ''abc''), (''ENABLE_CONTROL'', PInt 1), (''DATA_SOURCE'', PStr ''EVCC'')]"

lemma demo_config: "\<exists>c. load_config [] (Some demo_local) None = Inr c"
proof -
  have "is_ok (load_config [] (Some demo_local) None)" by code_simp
  then show ?thesis by (simp add: is_ok_iff)
qed

theorem automation_needs_opt_in_witness:
  "\<exists>c. load_config [] (Some demo_local) None = Inr c \<and> control_enabled c \<and>
    (\<exists>attrs. Some demo_local = Some attrs \<and> truthy (dget attrs ''ENABLE_CONTROL''))"
proof -
  obtain c where c: "load_config [] (Some demo_local) None = Inr c" using demo_config by blast
  have "dget c ''HA_TOKEN'' = PStr ''abc''" "dget c ''ENABLE_CONTROL'' = PBool True"
    using load_config_lookup [OF c in_settings(1)] load_config_lookup [OF c in_settings(2)]
    by (simp_all add: get_setting_def demo_local_def haskey_def dget_def)
  then have on: "control_enabled c" by (simp add: control_enabled_def)
  from automation_needs_opt_in [OF c on] c on show ?thesis by auto
qed

text \<open>
  the package manager's setup options decide the data source and whether telemetry is published,
  nothing else: two loads that differ only in the options agree on every other setting. The options
  win over the local configuration for exactly these two names.
\<close>

theorem setup_options_limited:
  assumes "load_config options local version_file = Inr c" and "load_config options' local version_file = Inr c'"
    and "(name, conv, dflt) \<in> set settings"
  shows "(name \<notin> {''HA_MQTT_ENABLED'', ''DATA_SOURCE''} \<longrightarrow> dget c name = dget c' name) \<and>
    (name \<in> {''HA_MQTT_ENABLED'', ''DATA_SOURCE''} \<and> haskey options name \<longrightarrow>
      convert conv (dget options name) = Inr (dget c name))"
proof -
  have "convert conv (get_setting options local name dflt) = Inr (dget c name)"
    "convert conv (get_setting options' local name dflt) = Inr (dget c' name)"
    using load_config_lookup assms by blast+
  then show ?thesis by (auto simp: get_setting_def split: if_splits)
qed

theorem setup_options_limited_witness:
  "\<exists>c c'. load_config [] (Some demo_local) None = Inr c \<and>
    load_config [(''ENABLE_CONTROL'', PBool False), (''DATA_SOURCE'', PStr ''HA'')] (Some demo_local) None = Inr c' \<and>
    dget c ''ENABLE_CONTROL'' = dget c' ''ENABLE_CONTROL'' \<and> dget c' ''DATA_SOURCE'' = PStr ''ha''"
proof -
  obtain c where c: "load_config [] (Some demo_local) None = Inr c" using demo_config by blast
  have "is_ok (load_config [(''ENABLE_CONTROL'', PBool False), (''DATA_SOURCE'', PStr ''HA'')] (Some demo_local) None)"
    by code_simp
  then obtain c' where c': "load_config [(''ENABLE_CONTROL'', PBool False), (''DATA_SOURCE'', PStr ''HA'')] (Some demo_local) None = Inr c'"
    by (auto simp: is_ok_iff)
  have d: "(''DATA_SOURCE'', AsLower, PStr ''ha'') \<in> set settings" by (simp add: settings_def output_settings_def)
  have l: "lower ''HA'' = ''ha''" by code_simp
  from setup_options_limited [OF c c' in_settings(2)] setup_options_limited [OF c' c d] c c'
  show ?thesis by (simp add: l dget_def haskey_def)
qed

end
