(* ===== verification/App.thy ===== *)
theory App
  imports Charger Cerbo_Mqtt Worker Config
begin

text \<open>
  \<^verbatim>\<open>dbus_ev/main.py\<close>: the main loop. It takes completed polls from the worker, or reads the Mercedes
  cache itself, decides their freshness, and feeds the vehicle service, the charger and the MQTT
  session. One cycle makes all its readings of the monotonic clock at the same instant \<open>now\<close>; the
  configured timeouts are finite numbers.
\<close>

section \<open>State\<close>

fun rat_of :: "pyval \<Rightarrow> rat" where
  "rat_of (PFloat (Fin q)) = q"
| "rat_of (PInt n) = of_int n"
| "rat_of _ = 0"

fun str_of :: "pyval \<Rightarrow> string" where
  "str_of (PStr s) = s"
| "str_of _ = []"

fun int_of :: "pyval \<Rightarrow> int" where
  "int_of (PInt n) = n"
| "int_of _ = 0"

record app =
  ap_conf :: pydict
  ap_vedbus :: bool
  ap_cached :: bool
  ap_last_ok :: "time option"
  ap_latest :: pydict
  ap_stale :: rat
  ap_loop_ms :: int
  ap_services :: dbus_service
  ap_charger :: "ev_charger option"
  ap_mqtt :: "cerbo option"
  ap_worker :: "worker option"
  ap_client_closed :: bool
  ap_heartbeat :: "int option"

definition data_source :: "pydict \<Rightarrow> string" where
  "data_source conf = str_of (dget conf ''DATA_SOURCE'')"

definition cloud_source :: "pydict \<Rightarrow> bool" where
  "cloud_source conf = (data_source conf \<in> {''mercedes'', ''evcc''})"

definition app_stale_timeout :: "pydict \<Rightarrow> rat" where
  "app_stale_timeout conf =
     (if data_source conf = ''evcc'' then rat_of (dget conf ''EVCC_STALE_TIMEOUT'')
      else if data_source conf = ''mercedes'' then rat_of (dget conf ''MERCEDES_STALE_TIMEOUT'')
      else rat_of (dget conf ''SENSOR_STALE_TIMEOUT''))"

text \<open>\<^verbatim>\<open>int(x * 1000)\<close> truncates.\<close>

definition truncate :: "rat \<Rightarrow> int" where
  "truncate q = (if 0 \<le> q then \<lfloor>q\<rfloor> else \<lceil>q\<rceil>)"

definition app_loop_interval :: "pydict \<Rightarrow> int" where
  "app_loop_interval conf =
     (if cloud_source conf then 1000 else max 250 (truncate (rat_of (dget conf ''POLL_INTERVAL'') * 1000)))"

definition app_init ::
  "pydict \<Rightarrow> bool \<Rightarrow> bool \<Rightarrow> dbus_service \<Rightarrow> ev_charger option \<Rightarrow> cerbo option \<Rightarrow> app" where
  "app_init conf vedbus cached services charger mqtt =
     \<lparr>ap_conf = conf, ap_vedbus = vedbus, ap_cached = cached, ap_last_ok = None,
      ap_latest = [(''ok'', PBool False)], ap_stale = app_stale_timeout conf,
      ap_loop_ms = app_loop_interval conf, ap_services = services, ap_charger = charger, ap_mqtt = mqtt,
      ap_worker = None, ap_client_closed = False, ap_heartbeat = None\<rparr>"

text \<open>The heartbeat file: \<open>writable\<close> says whether the write goes through; a failure is only logged.\<close>

definition write_heartbeat :: "bool \<Rightarrow> time \<Rightarrow> app \<Rightarrow> app" where
  "write_heartbeat writable wall a = (if writable then a\<lparr>ap_heartbeat := Some (truncate wall)\<rparr> else a)"

section \<open>Freshness and outputs\<close>

definition app_fresh :: "time \<Rightarrow> app \<Rightarrow> bool" where
  "app_fresh now a = fresh (ap_stale a) now (ap_last_ok a)"

definition update_connected :: "time \<Rightarrow> app \<Rightarrow> app" where
  "update_connected now a = a\<lparr>ap_services := ev_set_connected (app_fresh now a) (ap_services a)\<rparr>"

definition output_snapshot :: "time \<Rightarrow> app \<Rightarrow> pydict" where
  "output_snapshot now a =
     dset ''ok'' (PBool (truthy (dget (ap_latest a) ''ok'') \<and> app_fresh now a)) (ap_latest a)"

definition meter_values :: "time \<Rightarrow> cerbo option \<Rightarrow> pydict" where
  "meter_values now m = (case m of None \<Rightarrow> [] | Some s \<Rightarrow> map (\<lambda>(k, v). (k, num_val v)) (meter now s))"

definition require_meter :: "app \<Rightarrow> bool" where
  "require_meter a = (dget (ap_conf a) ''CERBO_METER_INSTANCE'' \<noteq> PNone)"

definition tick_mqtt :: "(msg \<Rightarrow> bool) \<Rightarrow> time \<Rightarrow> pydict \<Rightarrow> app \<Rightarrow> unit res \<times> app" where
  "tick_mqtt accepts now snapshot a =
     (case ap_mqtt a of None \<Rightarrow> (Inr (), a)
      | Some s \<Rightarrow> (let (r, s) = mqtt_tick accepts now snapshot s in (r, a\<lparr>ap_mqtt := Some s\<rparr>)))"

definition feed_charger :: "time \<Rightarrow> pydict \<Rightarrow> app \<Rightarrow> unit res \<times> app" where
  "feed_charger now snapshot a =
     (case ap_charger a of None \<Rightarrow> (Inr (), a)
      | Some c \<Rightarrow>
          (case charger_update snapshot (meter_values now (ap_mqtt a)) (require_meter a) c of
             Inl e \<Rightarrow> (Inl e, a)
           | Inr c \<Rightarrow> (Inr (), a\<lparr>ap_charger := Some c\<rparr>)))"

definition update_outputs :: "(msg \<Rightarrow> bool) \<Rightarrow> time \<Rightarrow> app \<Rightarrow> unit res \<times> app" where
  "update_outputs accepts now a =
     (let snapshot = output_snapshot now a
      in case tick_mqtt accepts now snapshot a of
           (Inl e, a) \<Rightarrow> (Inl e, a)
         | (Inr _, a) \<Rightarrow> feed_charger now snapshot a)"

section \<open>Applying a snapshot\<close>

text \<open>When the sample was taken: by the source, by the worker, or now.\<close>

definition sample_start :: "time \<Rightarrow> pydict \<Rightarrow> pyval" where
  "sample_start now snapshot =
     dget_or snapshot ''_source_sample_started_at'' (dget_or snapshot ''_sample_started_at'' (PFloat (Fin now)))"

fun sample_time :: "pyval \<Rightarrow> time option res" where
  "sample_time PNone = Inr None"
| "sample_time (PBool b) = Inr (Some (if b then 1 else 0))"
| "sample_time (PInt n) = rbind (float_of_int n) (\<lambda>f. Inr (Some (of_int n)))"
| "sample_time (PFloat (Fin q)) = Inr (Some q)"
| "sample_time (PFloat _) = Inr None"
| "sample_time _ = Inl TypeError"

text \<open>The start of the sample if it is accepted, else \<open>None\<close>.\<close>

definition accepted_start :: "time \<Rightarrow> rat \<Rightarrow> pydict \<Rightarrow> time option res" where
  "accepted_start now stale snapshot =
     rbind (dgetitem snapshot ''ok'') (\<lambda>ok.
       if \<not> truthy ok then Inr None
       else rbind (sample_time (sample_start now snapshot)) (\<lambda>t.
         Inr (if fresh stale now t then t else None)))"

definition capacity_choice :: "pydict \<Rightarrow> pydict \<Rightarrow> pyval" where
  "capacity_choice conf snapshot =
     (if dget snapshot ''battery_capacity'' \<noteq> PNone then dget snapshot ''battery_capacity''
      else case py_float (dget conf ''HA_BATTERY_CAPACITY_ENTITY'') of
        Inr f \<Rightarrow> PFloat f
      | Inl _ \<Rightarrow> dget conf ''BATTERY_CAPACITY_KWH'')"

definition publish_reading :: "bool \<Rightarrow> pydict \<Rightarrow> pydict \<Rightarrow> dbus_service \<Rightarrow> unit res \<times> dbus_service" where
  "publish_reading vedbus conf snapshot s =
     (let s = update_soc (dget snapshot ''soc'') s;
          s = update_target_soc (dget snapshot ''target_soc'') s;
          s = update_vin (dget snapshot ''vin'') s
      in case update_battery_capacity (capacity_choice conf snapshot) s of
        Inl e \<Rightarrow> (Inl e, s)
      | Inr s \<Rightarrow>
          (case update_charging_state vedbus (dget snapshot ''charging_state'') s of
             Inl e \<Rightarrow> (Inl e, s)
           | Inr s \<Rightarrow>
               (let s = update_odometer (dget snapshot ''odometer'') s;
                    s = update_range_to_go (dget snapshot ''range_to_go'') s;
                    s = update_latitude (dget snapshot ''latitude'') s;
                    s = update_longitude (dget snapshot ''longitude'') s;
                    s = update_at_site (dget snapshot ''at_site'') s
                in case update_ac_power (dget snapshot ''power'') s of
                     Inl e \<Rightarrow> (Inl e, s)
                   | Inr s \<Rightarrow> (Inr (), s))))"

text \<open>A raise leaves what was done before it; the caller sees the exception.\<close>

definition accept_start :: "time option \<Rightarrow> app \<Rightarrow> app" where
  "accept_start start a =
     (case start of
        Some t \<Rightarrow> a\<lparr>ap_last_ok := Some t\<rparr>
      | None \<Rightarrow> if cloud_source (ap_conf a) then a\<lparr>ap_last_ok := None\<rparr> else a)"

definition apply_snapshot ::
  "(msg \<Rightarrow> bool) \<Rightarrow> bool \<Rightarrow> time \<Rightarrow> time \<Rightarrow> pydict \<Rightarrow> app \<Rightarrow> unit res \<times> app" where
  "apply_snapshot accepts writable wall now snapshot a =
     (case accepted_start now (ap_stale a) snapshot of
        Inl e \<Rightarrow> (Inl e, a)
      | Inr start \<Rightarrow>
          (let a = accept_start start a;
               a = a\<lparr>ap_latest := dset ''ok'' (PBool (start \<noteq> None)) snapshot\<rparr>;
               a = update_connected now a
           in case update_outputs accepts now a of
                (Inl e, a) \<Rightarrow> (Inl e, a)
              | (Inr _, a) \<Rightarrow>
                  if start = None then (Inr (), write_heartbeat writable wall a)
                  else (case publish_reading (ap_vedbus a) (ap_conf a) snapshot (ap_services a) of
                      (Inl e, s) \<Rightarrow> (Inl e, a\<lparr>ap_services := s\<rparr>)
                    | (Inr _, s) \<Rightarrow> (Inr (), write_heartbeat writable wall (a\<lparr>ap_services := s\<rparr>)))))"

text \<open>
  One cycle: with a worker the outputs are refreshed and the next poll is queued, without one the
  reader's answer \<open>answer\<close> is applied at once.
\<close>

definition app_tick ::
  "(msg \<Rightarrow> bool) \<Rightarrow> bool \<Rightarrow> time \<Rightarrow> time \<Rightarrow> pydict res \<Rightarrow> app \<Rightarrow> unit res \<times> app" where
  "app_tick accepts writable wall now answer a =
     (case ap_worker a of
        Some w \<Rightarrow>
          (case update_outputs accepts now (update_connected now a) of
             (Inl e, a) \<Rightarrow> (Inl e, a)
           | (Inr _, a) \<Rightarrow>
               (Inr (), write_heartbeat writable wall (a\<lparr>ap_worker := Some (snd (worker_poll 0 w))\<rparr>)))
      | None \<Rightarrow>
          (case answer of Inl e \<Rightarrow> (Inl e, a)
           | Inr d \<Rightarrow> apply_snapshot accepts writable wall now (dset ''_sample_started_at'' (PFloat (Fin now)) d) a))"

text \<open>The main loop's part of stopping the worker, with nothing of the thread in between.\<close>

definition worker_stop :: "worker \<Rightarrow> worker" where
  "worker_stop w = (if wk_stopping w then w else put_nowait Sentinel (w\<lparr>wk_stopping := True, wk_queue := None\<rparr>))"

definition shutdown :: "(msg \<Rightarrow> bool) \<Rightarrow> app \<Rightarrow> app" where
  "shutdown accepts a =
     (let a = (case ap_worker a of
           Some w \<Rightarrow> a\<lparr>ap_worker := Some (worker_stop w)\<rparr>
         | None \<Rightarrow> a\<lparr>ap_client_closed := True\<rparr>)
      in a\<lparr>ap_mqtt := map_option (mqtt_close accepts) (ap_mqtt a)\<rparr>)"

section \<open>Wiring\<close>

text \<open>\<open>client\<close> is whether the constructor of the selected source's client returned.\<close>

definition build_mqtt :: "pydict \<Rightarrow> cerbo option res" where
  "build_mqtt conf =
     (if truthy (dget conf ''HA_MQTT_ENABLED'') \<or> dget conf ''CERBO_METER_INSTANCE'' \<noteq> PNone
      then rbind (cerbo_init (str_of (dget conf ''CERBO_PORTAL_ID'')) (data_source conf)
             (truthy (dget conf ''HA_MQTT_ENABLED'')) (dget conf ''CERBO_METER_INSTANCE'')
             (rat_of (dget conf ''CERBO_METER_TTL'')) (str_of (dget conf ''BUS_SUFFIX''))) (\<lambda>s. Inr (Some s))
      else Inr None)"

definition build_charger :: "bool \<Rightarrow> pydict \<Rightarrow> ev_charger option res" where
  "build_charger vedbus conf =
     (if truthy (dget conf ''CHARGER_ENABLED'')
      then rbind (charger_init vedbus (int_of (dget conf ''EVCHARGER_INSTANCE''))
             (str_of (dget conf ''SOFTWARE_VERSION'')) (str_of (dget conf ''CHARGER_BUS_SUFFIX''))
             (dget conf ''CHARGER_PHASES'') (str_of (dget conf ''CHARGER_NAME''))
             (data_source conf @ '' / local meter'')) (\<lambda>c. Inr (Some c))
      else Inr None)"

definition build_app :: "string \<Rightarrow> bool \<Rightarrow> unit res \<Rightarrow> pydict \<Rightarrow> app res" where
  "build_app file vedbus client conf =
     rbind (if data_source conf \<in> {''mercedes'', ''ha'', ''evcc''} then client else Inl ValueError) (\<lambda>_.
     if truthy (dget conf ''CHARGER_ENABLED'') \<and> data_source conf = ''ha'' then Inl ValueError
     else rbind (build_mqtt conf) (\<lambda>mqtt.
          rbind (build_charger vedbus conf) (\<lambda>charger.
          let services = ev_init file (int_of (dget conf ''DEVICE_INSTANCE'')) (str_of (dget conf ''SOFTWARE_VERSION''))
                (str_of (dget conf ''PRODUCT_NAME'')) (int_of (dget conf ''PRODUCT_ID''))
                (''evcharger:'' @ show_int (int_of (dget conf ''EVCHARGER_INSTANCE''))) (str_of (dget conf ''BUS_SUFFIX''))
          in Inr (app_init conf vedbus (data_source conf = ''mercedes'') services charger mqtt))))"

text \<open>\<^verbatim>\<open>serve\<close>: a source that is not read from a cache gets the poll worker.\<close>

definition start_app :: "app \<Rightarrow> app" where
  "start_app a =
     a\<lparr>ap_mqtt := map_option start_session (ap_mqtt a),
       ap_worker := (if ap_cached a then None else Some worker_init)\<rparr>"

section \<open>What an update touches\<close>

abbreviation ev_item :: "app \<Rightarrow> string \<Rightarrow> pyval option" where
  "ev_item a path \<equiv> svc_items (ap_services a) path"

text \<open>Two states that differ at most in the outputs, the worker and the heartbeat.\<close>

definition same_core :: "app \<Rightarrow> app \<Rightarrow> bool" where
  "same_core a b =
     (ap_conf b = ap_conf a \<and> ap_vedbus b = ap_vedbus a \<and> ap_last_ok b = ap_last_ok a \<and>
      ap_latest b = ap_latest a \<and> ap_stale b = ap_stale a \<and> ap_services b = ap_services a)"

lemma same_core_simps [simp]:
  "same_core a a" "same_core a (a\<lparr>ap_mqtt := m\<rparr>)" "same_core a (a\<lparr>ap_charger := c\<rparr>)"
  "same_core a (write_heartbeat writable wall a)" "same_core a (a\<lparr>ap_worker := w\<rparr>)"
  by (simp_all add: same_core_def write_heartbeat_def)

lemma same_core_trans: "same_core a b \<Longrightarrow> same_core b c \<Longrightarrow> same_core a c"
  by (simp add: same_core_def)

lemma update_outputs_core: "update_outputs accepts now a = (r, b) \<Longrightarrow> same_core a b"
proof -
  assume u: "update_outputs accepts now a = (r, b)"
  obtain r1 a1 where t: "tick_mqtt accepts now (output_snapshot now a) a = (r1, a1)"
    by (cases "tick_mqtt accepts now (output_snapshot now a) a")
  then have "same_core a a1" by (auto simp: tick_mqtt_def split: option.splits prod.splits)
  moreover have "same_core a1 b \<or> a1 = b"
    using u t by (auto simp: update_outputs_def feed_charger_def split: sum.splits option.splits)
  ultimately show ?thesis using same_core_trans by blast
qed

lemma ev_set_connected_item:
  "svc_items (ev_set_connected live s) path = (if path = ''/Connected'' then Some (PInt (if live then 1 else 0)) else svc_items s path)"
  by (simp add: ev_set_connected_def)

lemma publish_reading_connected:
  "publish_reading vedbus conf snapshot s = (r, t) \<Longrightarrow> svc_items t ''/Connected'' = svc_items s ''/Connected''"
  by (auto simp: publish_reading_def Let_def update_soc_def update_target_soc_def update_vin_def update_odometer_def
    update_range_to_go_def update_latitude_def update_longitude_def update_at_site_def update_battery_capacity_def
    update_charging_state_def update_ac_power_def setitems_def rbind_Inr_iff split: sum.splits if_splits)

text \<open>The vehicle values after a complete publication.\<close>

lemma publish_reading_values:
  assumes "publish_reading vedbus conf snapshot s = (Inr (), t)"
  shows "svc_items t ''/Soc'' = Some (dget snapshot ''soc'') \<and> svc_items t ''/TargetSoc'' = Some (dget snapshot ''target_soc'') \<and>
    svc_items t ''/VIN'' = Some (dget snapshot ''vin'') \<and> svc_items t ''/AtSite'' = Some (dget snapshot ''at_site'')"
  using assms
  by (auto simp: publish_reading_def Let_def update_soc_def update_target_soc_def update_vin_def update_odometer_def
    update_range_to_go_def update_latitude_def update_longitude_def update_at_site_def update_battery_capacity_def
    update_charging_state_def update_ac_power_def setitems_def rbind_Inr_iff split: sum.splits if_splits)

lemma accept_start_simps [simp]:
  "ap_stale (accept_start st a) = ap_stale a" "ap_conf (accept_start st a) = ap_conf a"
  "ap_services (accept_start st a) = ap_services a" "ap_worker (accept_start st a) = ap_worker a"
  "ap_last_ok (accept_start st a) =
    (case st of Some t \<Rightarrow> Some t | None \<Rightarrow> if cloud_source (ap_conf a) then None else ap_last_ok a)"
  by (simp_all add: accept_start_def split: option.splits)

text \<open>The state between accepting a sample and the outputs.\<close>

definition taken_in :: "time \<Rightarrow> time option \<Rightarrow> pydict \<Rightarrow> app \<Rightarrow> app" where
  "taken_in now start snapshot a =
     update_connected now ((accept_start start a)\<lparr>ap_latest := dset ''ok'' (PBool (start \<noteq> None)) snapshot\<rparr>)"

lemma taken_in_simps [simp]:
  "ap_last_ok (taken_in now start snapshot a) = ap_last_ok (accept_start start a)"
  "ap_stale (taken_in now start snapshot a) = ap_stale a"
  "ap_conf (taken_in now start snapshot a) = ap_conf a"
  "svc_items (ap_services (taken_in now start snapshot a)) path =
    (if path = ''/Connected''
     then Some (PInt (if fresh (ap_stale a) now (ap_last_ok (accept_start start a)) then 1 else 0)) else ev_item a path)"
  by (simp_all add: taken_in_def update_connected_def app_fresh_def ev_set_connected_item)

lemma apply_snapshot_unfold:
  "apply_snapshot accepts writable wall now snapshot a =
     (case accepted_start now (ap_stale a) snapshot of
        Inl e \<Rightarrow> (Inl e, a)
      | Inr start \<Rightarrow>
          (case update_outputs accepts now (taken_in now start snapshot a) of
                (Inl e, a) \<Rightarrow> (Inl e, a)
              | (Inr _, a) \<Rightarrow>
                  if start = None then (Inr (), write_heartbeat writable wall a)
                  else (case publish_reading (ap_vedbus a) (ap_conf a) snapshot (ap_services a) of
                      (Inl e, s) \<Rightarrow> (Inl e, a\<lparr>ap_services := s\<rparr>)
                    | (Inr _, s) \<Rightarrow> (Inr (), write_heartbeat writable wall (a\<lparr>ap_services := s\<rparr>)))))"
  by (cases "accepted_start now (ap_stale a) snapshot") (simp_all add: apply_snapshot_def taken_in_def Let_def)

lemma apply_snapshot_last_ok:
  "apply_snapshot accepts writable wall now snapshot a = (r, b) \<Longrightarrow>
    ap_stale b = ap_stale a \<and> ap_conf b = ap_conf a \<and>
    ap_last_ok b = (case accepted_start now (ap_stale a) snapshot of
        Inl e \<Rightarrow> ap_last_ok a | Inr start \<Rightarrow> ap_last_ok (accept_start start a))"
proof (cases "accepted_start now (ap_stale a) snapshot")
  case (Inr start)
  assume p: "apply_snapshot accepts writable wall now snapshot a = (r, b)"
  obtain r1 a1 where o: "update_outputs accepts now (taken_in now start snapshot a) = (r1, a1)"
    by (cases "update_outputs accepts now (taken_in now start snapshot a)")
  from update_outputs_core [OF o] have c: "ap_stale a1 = ap_stale a" "ap_conf a1 = ap_conf a"
    "ap_last_ok a1 = ap_last_ok (accept_start start a)" by (simp_all add: same_core_def)
  from p Inr o c show ?thesis
    by (auto simp: apply_snapshot_unfold write_heartbeat_def split: sum.splits prod.splits if_splits)
qed (simp add: apply_snapshot_unfold)

lemma accepted_start_fresh: "accepted_start now stale snapshot = Inr (Some t) \<Longrightarrow> t \<le> now \<and> now < t + stale"
  by (auto simp: accepted_start_def rbind_Inr_iff split: if_splits)

lemma apply_connected:
  assumes "apply_snapshot accepts writable wall now snapshot a = (Inr (), b)"
  shows "ev_item b ''/Connected'' = Some (PInt (if app_fresh now b then 1 else 0))"
proof -
  from assms obtain start where s: "accepted_start now (ap_stale a) snapshot = Inr start"
    by (cases "accepted_start now (ap_stale a) snapshot") (auto simp: apply_snapshot_unfold)
  obtain r1 a1 where o: "update_outputs accepts now (taken_in now start snapshot a) = (r1, a1)"
    by (cases "update_outputs accepts now (taken_in now start snapshot a)")
  from update_outputs_core [OF o] have sv: "ap_services a1 = ap_services (taken_in now start snapshot a)"
    by (simp add: same_core_def)
  obtain r2 sv2 where p: "publish_reading (ap_vedbus a1) (ap_conf a1) snapshot (ap_services a1) = (r2, sv2)"
    by (cases "publish_reading (ap_vedbus a1) (ap_conf a1) snapshot (ap_services a1)")
  from assms s o p publish_reading_connected [OF p]
  have "ev_item b ''/Connected'' = svc_items (ap_services a1) ''/Connected''"
    by (auto simp: apply_snapshot_unfold write_heartbeat_def split: sum.splits if_splits)
  moreover have "app_fresh now b = fresh (ap_stale a) now (ap_last_ok (accept_start start a))"
    using apply_snapshot_last_ok [OF assms] s by (simp add: app_fresh_def)
  ultimately show ?thesis by (simp add: sv)
qed

section \<open>One snapshot\<close>

text \<open>
  a snapshot that was applied shows vehicle values only if it is valid and fresh. Then the
  service is marked connected and carries its readings; otherwise every path but the connection flag
  keeps its value. The flag always tells whether the newest accepted sample is younger than the
  timeout, and a cloud source that delivers an invalid snapshot is disconnected at once.
\<close>

theorem vehicle_values_only_when_live:
  assumes "apply_snapshot accepts writable wall now snapshot a = (Inr (), b)"
  shows "\<exists>start. accepted_start now (ap_stale a) snapshot = Inr start \<and>
    ev_item b ''/Connected'' = Some (PInt (if app_fresh now b then 1 else 0)) \<and>
    (start = None \<longrightarrow> (\<forall>path. path \<noteq> ''/Connected'' \<longrightarrow> ev_item b path = ev_item a path) \<and>
      (cloud_source (ap_conf a) \<longrightarrow> ev_item b ''/Connected'' = Some (PInt 0))) \<and>
    (\<forall>t. start = Some t \<longrightarrow> t \<le> now \<and> now < t + ap_stale a \<and> ev_item b ''/Connected'' = Some (PInt 1) \<and>
      ev_item b ''/Soc'' = Some (dget snapshot ''soc'') \<and> ev_item b ''/TargetSoc'' = Some (dget snapshot ''target_soc'') \<and>
      ev_item b ''/VIN'' = Some (dget snapshot ''vin'') \<and> ev_item b ''/AtSite'' = Some (dget snapshot ''at_site''))"
proof -
  from assms obtain start where s: "accepted_start now (ap_stale a) snapshot = Inr start"
    by (cases "accepted_start now (ap_stale a) snapshot") (auto simp: apply_snapshot_unfold)
  obtain r1 a1 where o: "update_outputs accepts now (taken_in now start snapshot a) = (r1, a1)"
    by (cases "update_outputs accepts now (taken_in now start snapshot a)")
  from update_outputs_core [OF o] have sv: "ap_services a1 = ap_services (taken_in now start snapshot a)"
    by (simp add: same_core_def)
  from assms s o obtain u where r1: "r1 = Inr u" by (cases r1) (auto simp: apply_snapshot_unfold)
  have fr: "app_fresh now b = fresh (ap_stale a) now (ap_last_ok (accept_start start a))"
    using apply_snapshot_last_ok [OF assms] s by (simp add: app_fresh_def)
  show ?thesis
  proof (cases start)
    case None
    with assms s o r1 have "b = write_heartbeat writable wall a1" by (simp add: apply_snapshot_unfold)
    then have items: "ev_item b = ev_item (taken_in now start snapshot a)"
      using sv by (simp add: write_heartbeat_def)
    show ?thesis using s None fr by (simp add: items)
  next
    case (Some t)
    obtain r2 sv2 where p: "publish_reading (ap_vedbus a1) (ap_conf a1) snapshot (ap_services a1) = (r2, sv2)"
      by (cases "publish_reading (ap_vedbus a1) (ap_conf a1) snapshot (ap_services a1)")
    from assms s o r1 Some p have r2: "r2 = Inr ()" and b: "ap_services b = sv2"
      by (auto simp: apply_snapshot_unfold write_heartbeat_def split: sum.splits)
    have t: "t \<le> now \<and> now < t + ap_stale a" using accepted_start_fresh s Some by blast
    have "svc_items sv2 ''/Connected'' = Some (PInt 1)"
      using publish_reading_connected [OF p] sv Some t by simp
    with publish_reading_values [OF p [unfolded r2]] s Some fr t b show ?thesis by simp
  qed
qed

section \<open>Runs\<close>

datatype app_event =
    Cycle time time bool "pydict res"
  | Completed time time bool pydict
  | Broker mqtt_event

fun app_step :: "(msg \<Rightarrow> bool) \<Rightarrow> app_event \<Rightarrow> app \<Rightarrow> unit res \<times> app" where
  "app_step accepts (Cycle wall now writable answer) a = app_tick accepts writable wall now answer a"
| "app_step accepts (Completed wall now writable snapshot) a = apply_snapshot accepts writable wall now snapshot a"
| "app_step accepts (Broker e) a = (Inr (), a\<lparr>ap_mqtt := map_option (mqtt_step accepts e) (ap_mqtt a)\<rparr>)"

fun app_run :: "(msg \<Rightarrow> bool) \<Rightarrow> app_event list \<Rightarrow> app \<Rightarrow> app" where
  "app_run accepts [] a = a"
| "app_run accepts (e # es) a = app_run accepts es (snd (app_step accepts e a))"

text \<open>
  The specification: the start of the newest accepted sample; a cloud source forgets it with the
  first sample that is not accepted. A cycle brings a sample only where there is no worker.
\<close>

fun sample_in :: "bool \<Rightarrow> app_event \<Rightarrow> (time \<times> pydict) option" where
  "sample_in worker (Cycle wall now writable answer) =
     (case answer of Inr d \<Rightarrow> if worker then None else Some (now, dset ''_sample_started_at'' (PFloat (Fin now)) d)
      | Inl _ \<Rightarrow> None)"
| "sample_in worker (Completed wall now writable snapshot) = Some (now, snapshot)"
| "sample_in worker (Broker e) = None"

fun newest :: "bool \<Rightarrow> rat \<Rightarrow> bool \<Rightarrow> app_event list \<Rightarrow> time option \<Rightarrow> time option" where
  "newest cloud stale worker [] t = t"
| "newest cloud stale worker (e # es) t = newest cloud stale worker es
     (case sample_in worker e of
        None \<Rightarrow> t
      | Some (now, snapshot) \<Rightarrow>
          (case accepted_start now stale snapshot of
             Inl _ \<Rightarrow> t
           | Inr (Some q) \<Rightarrow> Some q
           | Inr None \<Rightarrow> if cloud then None else t))"

text \<open>What a run never changes.\<close>

definition same_setup :: "app \<Rightarrow> app \<Rightarrow> bool" where
  "same_setup a b = (ap_stale b = ap_stale a \<and> ap_conf b = ap_conf a \<and> (ap_worker b = None) = (ap_worker a = None))"

lemma update_outputs_worker: "update_outputs accepts now a = (r, b) \<Longrightarrow> ap_worker b = ap_worker a"
  by (auto simp: update_outputs_def tick_mqtt_def feed_charger_def Let_def split: sum.splits option.splits prod.splits)

lemma apply_snapshot_worker:
  assumes "apply_snapshot accepts writable wall now snapshot a = (r, b)"
  shows "ap_worker b = ap_worker a"
proof (cases "accepted_start now (ap_stale a) snapshot")
  case (Inr start)
  obtain r1 a1 where o: "update_outputs accepts now (taken_in now start snapshot a) = (r1, a1)"
    by (cases "update_outputs accepts now (taken_in now start snapshot a)")
  from update_outputs_worker [OF o] have "ap_worker a1 = ap_worker a"
    by (simp add: taken_in_def update_connected_def)
  with assms Inr o show ?thesis
    by (auto simp: apply_snapshot_unfold write_heartbeat_def split: sum.splits prod.splits if_splits)
qed (use assms in \<open>simp add: apply_snapshot_unfold\<close>)

lemma apply_snapshot_newest:
  assumes "apply_snapshot accepts writable wall now snapshot a = (r, b)"
  shows "same_setup a b \<and> ap_last_ok b = (case accepted_start now (ap_stale a) snapshot of
      Inl _ \<Rightarrow> ap_last_ok a | Inr (Some q) \<Rightarrow> Some q | Inr None \<Rightarrow> if cloud_source (ap_conf a) then None else ap_last_ok a)"
  using apply_snapshot_last_ok [OF assms] apply_snapshot_worker [OF assms]
  by (auto simp: same_setup_def split: sum.splits option.splits)

lemma app_tick_worker_mode:
  assumes "app_tick accepts writable wall now answer a = (r, b)" and "ap_worker a = Some w"
  shows "same_setup a b \<and> ap_last_ok b = ap_last_ok a \<and>
    (r = Inr () \<longrightarrow> ev_item b ''/Connected'' = Some (PInt (if app_fresh now b then 1 else 0)))"
proof -
  obtain r1 a1 where o: "update_outputs accepts now (update_connected now a) = (r1, a1)"
    by (cases "update_outputs accepts now (update_connected now a)")
  from update_outputs_core [OF o] update_outputs_worker [OF o]
  have c: "ap_stale a1 = ap_stale a" "ap_conf a1 = ap_conf a" "ap_last_ok a1 = ap_last_ok a" "ap_worker a1 = ap_worker a"
    "ev_item a1 ''/Connected'' = Some (PInt (if app_fresh now a then 1 else 0))"
    by (simp_all add: same_core_def update_connected_def ev_set_connected_item)
  from assms o c show ?thesis
    by (cases r1; cases writable) (auto simp: app_tick_def same_setup_def write_heartbeat_def app_fresh_def)
qed

lemma app_step_newest:
  assumes "app_step accepts e a = (r, b)"
  shows "same_setup a b \<and>
    ap_last_ok b = newest (cloud_source (ap_conf a)) (ap_stale a) (ap_worker a \<noteq> None) [e] (ap_last_ok a)"
proof (cases e)
  case (Cycle wall now writable answer)
  show ?thesis
  proof (cases "ap_worker a")
    case None
    with assms Cycle show ?thesis
      by (cases answer)
        (auto simp: app_tick_def same_setup_def dest!: apply_snapshot_newest)
  next
    case (Some w)
    with assms Cycle app_tick_worker_mode [of accepts writable wall now answer a r b w] show ?thesis
      by (auto split: sum.splits)
  qed
next
  case (Completed wall now writable snapshot)
  with assms apply_snapshot_newest [of accepts writable wall now snapshot a r b] show ?thesis by simp
next
  case (Broker ev)
  with assms show ?thesis by (auto simp: same_setup_def)
qed

lemma app_run_newest:
  "same_setup a (app_run accepts es a) \<and>
    ap_last_ok (app_run accepts es a) = newest (cloud_source (ap_conf a)) (ap_stale a) (ap_worker a \<noteq> None) es (ap_last_ok a)"
proof (induction es arbitrary: a)
  case (Cons e es)
  obtain r b where s: "app_step accepts e a = (r, b)" by (cases "app_step accepts e a")
  from app_step_newest [OF s] Cons [of b] s show ?case by (simp add: same_setup_def)
qed (simp add: same_setup_def)

lemma app_run_append: "app_run accepts (xs @ ys) a = app_run accepts ys (app_run accepts xs a)"
  by (induction xs arbitrary: a) simp_all

text \<open>
  C3: the connection flag refines its specification. After any run from a fresh start, a cycle or a
  delivery at \<open>now\<close> that goes through leaves the vehicle connected exactly when the newest accepted
  sample of the whole run, forgotten by a cloud source's first failure, is younger than the timeout.
\<close>

theorem connection_refines_freshness:
  assumes "ap_last_ok a = None"
    and "e = Cycle wall now writable (Inr d) \<or> e = Completed wall now writable d"
    and "app_step accepts e (app_run accepts es a) = (Inr (), b)"
  shows "ev_item b ''/Connected'' = Some (PInt
    (if fresh (ap_stale a) now (newest (cloud_source (ap_conf a)) (ap_stale a) (ap_worker a \<noteq> None) (es @ [e]) None)
     then 1 else 0))"
proof -
  define a1 where "a1 = app_run accepts es a"
  have run: "app_run accepts (es @ [e]) a = b" using assms(3) by (simp add: app_run_append)
  have last: "ap_last_ok b = newest (cloud_source (ap_conf a)) (ap_stale a) (ap_worker a \<noteq> None) (es @ [e]) None"
    and st: "ap_stale b = ap_stale a"
    using app_run_newest [of a accepts "es @ [e]"] assms(1) run by (simp_all add: same_setup_def)
  have "ev_item b ''/Connected'' = Some (PInt (if app_fresh now b then 1 else 0))"
  proof (cases "ap_worker a1")
    case (Some w)
    show ?thesis
      using assms(2,3) app_tick_worker_mode [OF _ Some] apply_connected by (auto simp: a1_def)
  next
    case None
    then show ?thesis using assms(2,3) apply_connected by (auto simp: a1_def app_tick_def)
  qed
  then show ?thesis by (simp add: app_fresh_def last st)
qed

definition demo_conf :: pydict where
  "demo_conf = [(''DATA_SOURCE'', PStr ''mercedes''), (''MERCEDES_STALE_TIMEOUT'', PFloat (Fin 900)),
     (''HA_BATTERY_CAPACITY_ENTITY'', PStr []), (''BATTERY_CAPACITY_KWH'', PFloat (Fin 80)),
     (''CHARGER_ENABLED'', PBool True), (''EVCHARGER_INSTANCE'', PInt 40), (''CHARGER_PHASES'', PInt 1)]"

definition demo_app :: app where
  "demo_app = app_init demo_conf False True (null_service ''ev'') None None"

definition live_sample :: pydict where
  "live_sample = [(''ok'', PBool True), (''soc'', PFloat (Fin 55)), (''vin'', PStr ''WDD''),
     (''_sample_started_at'', PFloat (Fin 100))]"

lemma demo_applied: "\<exists>b. apply_snapshot (\<lambda>_. True) True 0 110 live_sample demo_app = (Inr (), b)"
proof -
  have "fst (apply_snapshot (\<lambda>_. True) True 0 110 live_sample demo_app) = Inr ()" by code_simp
  then show ?thesis by (metis prod.collapse)
qed

lemma demo_start: "accepted_start 110 900 live_sample = Inr (Some 100)" "ap_stale demo_app = 900"
  by code_simp+

theorem vehicle_values_only_when_live_witness:
  "\<exists>b. apply_snapshot (\<lambda>_. True) True 0 110 live_sample demo_app = (Inr (), b) \<and>
    ev_item b ''/Connected'' = Some (PInt 1) \<and> ev_item b ''/Soc'' = Some (PFloat (Fin 55))"
proof -
  obtain b where b: "apply_snapshot (\<lambda>_. True) True 0 110 live_sample demo_app = (Inr (), b)"
    using demo_applied by blast
  have "dget live_sample ''soc'' = PFloat (Fin 55)" by code_simp
  with vehicle_values_only_when_live [OF b] demo_start b show ?thesis by (auto split: if_splits)
qed

theorem connection_refines_freshness_witness:
  "\<exists>b. app_step (\<lambda>_. True) (Completed 0 110 True live_sample) (app_run (\<lambda>_. True) [] demo_app) = (Inr (), b) \<and>
    ev_item b ''/Connected'' = Some (PInt 1)"
proof -
  obtain b where b: "app_step (\<lambda>_. True) (Completed 0 110 True live_sample) (app_run (\<lambda>_. True) [] demo_app) = (Inr (), b)"
    using demo_applied by auto
  have n: "ap_last_ok demo_app = None" by code_simp
  have "fresh (ap_stale demo_app) 110 (newest (cloud_source (ap_conf demo_app)) (ap_stale demo_app)
      (ap_worker demo_app \<noteq> None) ([] @ [Completed 0 110 True live_sample]) None)"
    by (simp add: demo_start)
  with connection_refines_freshness [OF n disjI2 [OF HOL.refl] b] b show ?thesis by auto
qed

section \<open>Outages\<close>

text \<open>The last telemetry state offered to the broker says offline.\<close>

definition offline_told :: "cerbo \<Rightarrow> bool" where
  "offline_told s =
     (cm_availability s = Some ''offline'' \<or>
      (\<exists>pre. cm_log s = pre @ [(availability_msg ''offline'' s, False)]))"

lemma offline_publish: "offline_told (publish_availability accepts False s)"
proof (cases "accepts (availability_msg ''offline'' s)")
  case True
  then show ?thesis
    by (cases "Some ''offline'' = cm_availability s")
      (simp_all add: publish_availability_def offline_told_def publish_def Let_def)
next
  case False
  then show ?thesis
    by (cases "Some ''offline'' = cm_availability s")
      (simp_all add: publish_availability_def offline_told_def publish_def availability_msg_def Let_def)
qed

lemma publish_reads_ha: "cm_publish_ha (snd (publish_reads accepts ps s)) = cm_publish_ha s"
  by (induction accepts ps s rule: publish_reads.induct) (auto simp: publish_def Let_def split: prod.splits)

lemma refresh_meter_ha: "cm_publish_ha (refresh_meter accepts now s) = cm_publish_ha s"
  using publish_reads_ha [of accepts METER_PATHS "send_keepalive accepts now s"]
  by (auto simp: refresh_meter_def send_reads_def send_keepalive_def publish_def Let_def split: prod.splits)

lemma mqtt_tick_offline:
  assumes "\<not> truthy (dget snapshot ''ok'')" and "cm_connected s" and "cm_publish_ha s"
  shows "fst (mqtt_tick accepts now snapshot s) = Inr () \<and> offline_told (snd (mqtt_tick accepts now snapshot s))"
proof -
  define s1 where "s1 = (if cm_meter_instance s \<noteq> PNone then refresh_meter accepts now s else s)"
  have "cm_publish_ha s1 = cm_publish_ha s" by (simp add: s1_def refresh_meter_ha)
  then have "mqtt_tick accepts now snapshot s = (Inr (), publish_availability accepts False s1)"
    using assms by (simp add: mqtt_tick_def s1_def publish_vehicle_def publish_mercedes_def Let_def)
  then show ?thesis by (simp add: offline_publish)
qed

lemma charger_update_dead:
  assumes "\<not> truthy (dget snapshot ''ok'')"
  shows "\<exists>c'. charger_update snapshot readings False c = Inr c' \<and> chg_item c' ''/Connected'' = Some (PInt 0) \<and>
    chg_item c' ''/Ac/Power'' = Some PNone \<and> chg_item c' ''/Status'' = Some (PInt 0)"
proof -
  have st: "status_and_power (live_part snapshot) readings False = Inr (PNone, PNone)"
    using assms by (simp add: live_part_def status_and_power_def charger_status_unknown Let_def)
  then obtain c' where c': "charger_update snapshot readings False c = Inr c'" by (simp add: charger_update_def Let_def)
  have u: "\<not> chg_usable False readings PNone PNone" by (simp add: chg_usable_def)
  show ?thesis
    using c' u charger_update_item [OF st c'] by (auto simp: update_table_def)
qed


section \<open>A consistent start\<close>

lemma cerbo_init_portal:
  assumes "cerbo_init portal src ha m ttl vid = Inr s"
  shows "cm_portal s \<noteq> [] \<and> set (cm_portal s) \<inter> {CHR ''/'', CHR ''+'', CHR ''#''} = {}"
proof -
  define bad where "bad = {CHR ''/'', CHR ''+'', CHR ''#''}"
  from assms have "cm_portal s = portal" "portal \<noteq> []" "\<not> list_ex (\<lambda>c. c \<in> bad) portal"
    unfolding cerbo_init_def bad_def [symmetric] by (auto split: if_splits)
  then have "cm_portal s \<noteq> [] \<and> set (cm_portal s) \<inter> bad = {}" by (auto simp: list_ex_iff)
  then show ?thesis unfolding bad_def .
qed

text \<open>
  the program only starts in a consistent configuration: one known data source, the charger only
  with a source that delivers charging evidence, a portal that cannot break out of its MQTT topics.
  The outputs exist exactly as configured, only the Mercedes cache is read on the main loop, the
  loop runs at least every 250 ms apart, and nothing is live before the first sample.
\<close>

theorem build_app_validates:
  assumes "build_app file vedbus client conf = Inr a"
  shows "data_source conf \<in> {''mercedes'', ''ha'', ''evcc''} \<and> client = Inr () \<and>
    (ap_charger a = None \<longleftrightarrow> \<not> truthy (dget conf ''CHARGER_ENABLED'')) \<and>
    (ap_charger a \<noteq> None \<longrightarrow> data_source conf \<noteq> ''ha'') \<and>
    (ap_mqtt a = None \<longleftrightarrow> \<not> truthy (dget conf ''HA_MQTT_ENABLED'') \<and> \<not> require_meter a) \<and>
    (\<forall>s. ap_mqtt a = Some s \<longrightarrow> cm_portal s \<noteq> [] \<and> set (cm_portal s) \<inter> {CHR ''/'', CHR ''+'', CHR ''#''} = {}) \<and>
    (ap_worker (start_app a) = None \<longleftrightarrow> data_source conf = ''mercedes'') \<and>
    250 \<le> ap_loop_ms a \<and> (\<forall>now. \<not> app_fresh now a)"
proof -
  from assms have src: "data_source conf \<in> {''mercedes'', ''ha'', ''evcc''}" "client = Inr ()"
    by (auto simp: build_app_def rbind_Inr_iff split: if_splits)
  from assms src obtain mqtt charger services where parts: "build_mqtt conf = Inr mqtt" "build_charger vedbus conf = Inr charger"
    "a = app_init conf vedbus (data_source conf = ''mercedes'') services charger mqtt"
    "\<not> (truthy (dget conf ''CHARGER_ENABLED'') \<and> data_source conf = ''ha'')"
    by (auto simp: build_app_def rbind_Inr_iff Let_def split: if_splits)
  have ch: "charger = None \<longleftrightarrow> \<not> truthy (dget conf ''CHARGER_ENABLED'')"
    using parts(2) by (auto simp: build_charger_def rbind_Inr_iff split: if_splits)
  have mq: "mqtt = None \<longleftrightarrow> \<not> truthy (dget conf ''HA_MQTT_ENABLED'') \<and> dget conf ''CERBO_METER_INSTANCE'' = PNone"
    using parts(1) by (auto simp: build_mqtt_def rbind_Inr_iff split: if_splits)
  have portal: "cm_portal s \<noteq> [] \<and> set (cm_portal s) \<inter> {CHR ''/'', CHR ''+'', CHR ''#''} = {}" if "mqtt = Some s" for s
  proof -
    from parts(1) that obtain src ha m ttl vid portal where "cerbo_init portal src ha m ttl vid = Inr s"
      by (auto simp: build_mqtt_def rbind_Inr_iff split: if_splits)
    then show ?thesis by (rule cerbo_init_portal)
  qed
  show ?thesis
    using src ch mq portal parts(3,4)
    by (simp add: app_init_def require_meter_def start_app_def app_loop_interval_def app_fresh_def)
qed

definition demo_stale_app :: app where
  "demo_stale_app = demo_app\<lparr>ap_worker := Some worker_init,
     ap_mqtt := Some (demo_cerbo\<lparr>cm_connected := True, cm_availability := Some ''online''\<rparr>),
     ap_charger := Some demo_charger\<rparr>"


theorem build_app_validates_witness:
  "\<exists>a. build_app ''main.py'' False (Inr ()) demo_conf = Inr a \<and> ap_charger a \<noteq> None \<and>
    ap_worker (start_app a) = None \<and> 250 \<le> ap_loop_ms a"
proof -
  have "is_ok (build_charger False demo_conf)" by code_simp
  then obtain c where "build_charger False demo_conf = Inr c" by (auto simp: is_ok_iff)
  moreover have "build_mqtt demo_conf = Inr None" "data_source demo_conf = ''mercedes''"
    by (simp_all add: build_mqtt_def demo_conf_def data_source_def dget_def)
  ultimately obtain a where a: "build_app ''main.py'' False (Inr ()) demo_conf = Inr a"
    by (simp add: build_app_def Let_def)
  have "truthy (dget demo_conf ''CHARGER_ENABLED'')" by code_simp
  with build_app_validates [OF a] \<open>data_source demo_conf = ''mercedes''\<close> a show ?thesis by blast
qed

section \<open>The interface\<close>

interpretation app_cache: freshness_cache ap_last_ok
  "\<lambda>now a. dget (output_snapshot now a) ''ok'' = PBool True" ap_stale
  by unfold_locales (simp add: output_snapshot_def app_fresh_def)

end
