(* ===== verification/Store.thy ===== *)
theory Store
  imports Py_Value
begin

text \<open>
  \<^verbatim>\<open>dbus_ev/mercedes/store.py\<close>: the token file. A save writes a temporary file, syncs it and renames
  it over the old one; an exclusive lock on a sibling file makes one process its owner. The disk is
  the decoded content of the file (a JSON round trip is the identity on what is stored), the
  temporary files left around and the lock holder.
\<close>

section \<open>One process\<close>

datatype temp_file = Partial | Complete pyval

record disk =
  d_file :: "pyval option"
  d_temps :: "temp_file list"
  d_lock :: "nat option"

record token_store =
  ts_data :: pyval
  ts_locked :: bool

definition file_or :: "pyval \<Rightarrow> disk \<Rightarrow> pyval" where
  "file_or dflt d = (case d_file d of None \<Rightarrow> dflt | Some v \<Rightarrow> v)"

definition store_open :: "disk \<Rightarrow> token_store" where
  "store_open d = \<lparr>ts_data = file_or (PDict []) d, ts_locked = False\<rparr>"

text \<open>\<open>flock\<close> with \<open>LOCK_NB\<close>: refused when another open file description holds the lock.\<close>

definition store_acquire :: "nat \<Rightarrow> token_store \<Rightarrow> disk \<Rightarrow> unit res \<times> token_store \<times> disk" where
  "store_acquire pid ts d =
     (if d_lock d = None
      then (Inr (), ts\<lparr>ts_locked := True, ts_data := file_or (ts_data ts) d\<rparr>, d\<lparr>d_lock := Some pid\<rparr>)
      else (Inl RuntimeError, ts\<lparr>ts_locked := False\<rparr>, d))"

text \<open>The disk after each system call of a save: created, written and synced, renamed.\<close>

definition save_states :: "pyval \<Rightarrow> disk \<Rightarrow> disk list" where
  "save_states v d =
     [d,
      d\<lparr>d_temps := Partial # d_temps d\<rparr>,
      d\<lparr>d_temps := Complete v # d_temps d\<rparr>,
      d\<lparr>d_file := Some v\<rparr>]"

datatype save_fault = Fine | MkstempFails | WriteFails | ReplaceFails

text \<open>
  The call as a whole: an \<^verbatim>\<open>OSError\<close> at any stage removes the temporary file and leaves file and
  memory as they were.
\<close>

definition store_save :: "save_fault \<Rightarrow> pyval \<Rightarrow> token_store \<Rightarrow> disk \<Rightarrow> unit res \<times> token_store \<times> disk" where
  "store_save fault v ts d =
     (if fault = Fine then (Inr (), ts\<lparr>ts_data := v\<rparr>, d\<lparr>d_file := Some v\<rparr>)
      else (Inl OSError, ts, d))"

definition store_close :: "token_store \<Rightarrow> disk \<Rightarrow> token_store \<times> disk" where
  "store_close ts d =
     (if ts_locked ts then (ts\<lparr>ts_locked := False\<rparr>, d\<lparr>d_lock := None\<rparr>) else (ts, d))"

section \<open>Durability\<close>

text \<open>
  What the owners of persistent state (request limits, provider pacing) rely on: what was saved is
  what a later process loads. A client's restart is then a load of its last save.
\<close>

locale durable =
  fixes save :: "'v \<Rightarrow> 'd \<Rightarrow> 'd"
    and load :: "'d \<Rightarrow> 'v"
  assumes load_save: "load (save v d) = v"
begin

lemma load_after_saves: "vs \<noteq> [] \<Longrightarrow> load (fold save vs d) = last vs"
  by (induction vs arbitrary: d rule: rev_induct) (simp_all add: load_save)

lemma save_overwrites: "load (save v (save w d)) = v"
  by (simp add: load_save)

end

definition put_file :: "pyval \<Rightarrow> disk \<Rightarrow> disk" where
  "put_file v d = d\<lparr>d_file := Some v\<rparr>"

interpretation token_file: durable put_file "file_or (PDict [])"
  by unfold_locales (simp add: put_file_def file_or_def)

lemma store_save_Fine: "store_save Fine v ts d = (Inr (), ts\<lparr>ts_data := v\<rparr>, put_file v d)"
  by (simp add: store_save_def put_file_def)

text \<open>The system calls of a save implement its specification as one atomic write.\<close>

lemma save_states_refine:
  "last (save_states v d) = snd (snd (store_save Fine v ts d))"
  by (simp add: save_states_def store_save_def)



section \<open>Several processes\<close>

text \<open>
  Any number of processes on one token file. A process opens the store, tries to acquire it, saves
  while it owns it, closes it, or dies (the kernel then drops its lock, a half-written temporary file
  stays). Refreshing tokens is a save by the owner.
\<close>

record system =
  sys_disk :: disk
  sys_procs :: "nat \<Rightarrow> token_store option"

inductive store_step :: "system \<Rightarrow> system \<Rightarrow> bool" where
  opens: "sys_procs s p = None \<Longrightarrow>
    store_step s (s\<lparr>sys_procs := (sys_procs s)(p \<mapsto> store_open (sys_disk s))\<rparr>)"
| acquires: "sys_procs s p = Some ts \<Longrightarrow> \<not> ts_locked ts \<Longrightarrow>
    store_acquire p ts (sys_disk s) = (r, ts', d') \<Longrightarrow>
    store_step s (s\<lparr>sys_disk := d', sys_procs := (sys_procs s)(p \<mapsto> ts')\<rparr>)"
| saves: "sys_procs s p = Some ts \<Longrightarrow> ts_locked ts \<Longrightarrow>
    store_save fault v ts (sys_disk s) = (r, ts', d') \<Longrightarrow>
    store_step s (s\<lparr>sys_disk := d', sys_procs := (sys_procs s)(p \<mapsto> ts')\<rparr>)"
| closes: "sys_procs s p = Some ts \<Longrightarrow> store_close ts (sys_disk s) = (ts', d') \<Longrightarrow>
    store_step s (s\<lparr>sys_disk := d', sys_procs := (sys_procs s)(p \<mapsto> ts')\<rparr>)"
| dies: "sys_procs s p = Some ts \<Longrightarrow>
    store_step s (s\<lparr>sys_disk := (sys_disk s)\<lparr>d_lock := (if ts_locked ts then None else d_lock (sys_disk s))\<rparr>,
      sys_procs := (sys_procs s)(p := None)\<rparr>)"
| dies_saving: "sys_procs s p = Some ts \<Longrightarrow> ts_locked ts \<Longrightarrow> d' \<in> set (save_states v (sys_disk s)) \<Longrightarrow>
    store_step s (s\<lparr>sys_disk := d'\<lparr>d_lock := None\<rparr>, sys_procs := (sys_procs s)(p := None)\<rparr>)"

definition init_system :: "pyval option \<Rightarrow> system" where
  "init_system content =
     \<lparr>sys_disk = \<lparr>d_file = content, d_temps = [], d_lock = None\<rparr>, sys_procs = Map.empty\<rparr>"

inductive store_reachable :: "system \<Rightarrow> bool" where
  start: "store_reachable (init_system content)"
| step: "store_reachable s \<Longrightarrow> store_step s t \<Longrightarrow> store_reachable t"

text \<open>
  The lock names its holder, and the holder's memory is what the file holds once it holds anything.
\<close>

fun proc_ok :: "disk \<Rightarrow> nat \<Rightarrow> token_store option \<Rightarrow> bool" where
  "proc_ok d p None = (d_lock d \<noteq> Some p)"
| "proc_ok d p (Some ts) =
     (if ts_locked ts then d_lock d = Some p \<and> (d_file d = None \<or> d_file d = Some (ts_data ts))
      else d_lock d \<noteq> Some p)"

definition store_inv :: "system \<Rightarrow> bool" where
  "store_inv s = (\<forall>p. proc_ok (sys_disk s) p (sys_procs s p))"

lemma store_invD: "store_inv s \<Longrightarrow> sys_procs s p = x \<Longrightarrow> proc_ok (sys_disk s) p x"
  by (auto simp: store_inv_def)

lemma store_inv_init [inv_intros]: "store_inv (init_system content)"
  by (simp add: store_inv_def init_system_def)

text \<open>A step of \<open>p\<close> has to restore its own condition and to leave every other process' alone.\<close>

lemma store_inv_update:
  assumes "store_inv s" and "proc_ok d p x"
    and "\<And>q y. q \<noteq> p \<Longrightarrow> proc_ok (sys_disk s) q y \<Longrightarrow> proc_ok d q y"
  shows "store_inv (s\<lparr>sys_disk := d, sys_procs := (sys_procs s)(p := x)\<rparr>)"
  using assms by (simp add: store_inv_def)

lemma proc_ok_other:
  "proc_ok d q y \<Longrightarrow> q \<noteq> p \<Longrightarrow> d_lock d = Some p \<or> d_file d' = d_file d \<and> d_lock d = None \<Longrightarrow>
    d_lock d' = None \<or> d_lock d' = Some p \<Longrightarrow> proc_ok d' q y"
  by (cases y) (auto split: if_splits)

lemma proc_ok_same: "proc_ok d q y \<Longrightarrow> d_file d' = d_file d \<Longrightarrow> d_lock d' = d_lock d \<Longrightarrow> proc_ok d' q y"
  by (cases y) (auto split: if_splits)

lemma store_step_inv [inv_intros]: "store_step s t \<Longrightarrow> store_inv s \<Longrightarrow> store_inv t"
proof (induction rule: store_step.induct)
  case (opens s p)
  from store_invD [OF opens(2,1)] opens(2) show ?case by (auto simp: store_inv_def store_open_def)
next
  case (acquires s p ts r ts' d')
  from acquires(4,1) have "proc_ok (sys_disk s) p (Some ts)" by (rule store_invD)
  with acquires(2,3) have "proc_ok d' p (Some ts')"
    by (auto simp: store_acquire_def file_or_def split: if_splits option.splits)
  moreover have "q \<noteq> p \<Longrightarrow> proc_ok (sys_disk s) q y \<Longrightarrow> proc_ok d' q y" for q y
    using acquires(3) proc_ok_other [of "sys_disk s" q y p d']
    by (auto simp: store_acquire_def split: if_splits)
  ultimately show ?case by (rule store_inv_update [OF acquires(4)])
next
  case (saves s p ts fault v r ts' d')
  from saves(4,1) have "proc_ok (sys_disk s) p (Some ts)" by (rule store_invD)
  with saves(2,3) have "proc_ok d' p (Some ts')" "d_lock (sys_disk s) = Some p" "d_lock d' = Some p"
    by (auto simp: store_save_def split: if_splits)
  then show ?case
    using store_inv_update [OF saves(4)] proc_ok_other [of "sys_disk s" _ _ p d'] by blast
next
  case (closes s p ts ts' d')
  from closes(3,1) have "proc_ok (sys_disk s) p (Some ts)" by (rule store_invD)
  with closes(2) have "proc_ok d' p (Some ts')"
    by (auto simp: store_close_def split: if_splits)
  moreover have "q \<noteq> p \<Longrightarrow> proc_ok (sys_disk s) q y \<Longrightarrow> proc_ok d' q y" for q y
    using closes(2) \<open>proc_ok (sys_disk s) p (Some ts)\<close> proc_ok_other [of "sys_disk s" q y p d']
    by (auto simp: store_close_def split: if_splits)
  ultimately show ?case by (rule store_inv_update [OF closes(3)])
next
  case (dies s p ts)
  let ?d = "(sys_disk s)\<lparr>d_lock := (if ts_locked ts then None else d_lock (sys_disk s))\<rparr>"
  from dies(2,1) have ok: "proc_ok (sys_disk s) p (Some ts)" by (rule store_invD)
  then have "proc_ok ?d p None" by (auto split: if_splits)
  moreover have "q \<noteq> p \<Longrightarrow> proc_ok (sys_disk s) q y \<Longrightarrow> proc_ok ?d q y" for q y
    using ok by (cases y) (auto split: if_splits)
  ultimately show ?case by (rule store_inv_update [OF dies(2)])
next
  case (dies_saving s p ts d' v)
  let ?d = "d'\<lparr>d_lock := None\<rparr>"
  from dies_saving(4,1) have "proc_ok (sys_disk s) p (Some ts)" by (rule store_invD)
  with dies_saving(2) have "d_lock (sys_disk s) = Some p" by simp
  then have "q \<noteq> p \<Longrightarrow> proc_ok (sys_disk s) q y \<Longrightarrow> proc_ok ?d q y" for q y
    using proc_ok_other [of "sys_disk s" q y p ?d] by simp
  then show ?case by (intro store_inv_update [OF dies_saving(4)]) auto
qed

lemma store_reachable_inv: "store_reachable s \<Longrightarrow> store_inv s"
  by (induction rule: store_reachable.induct) (auto intro: inv_intros)

text \<open>
  C10: at most one process owns the token file at any time, through any interleaving of opens,
  acquisitions, token rotations, closes and crashes; and the owner's tokens are always exactly
  those on disk, so a rotated refresh token is never overwritten by a stale copy.
\<close>

theorem one_token_owner:
  assumes "store_reachable s" and "sys_procs s p = Some tp" and "ts_locked tp"
  shows "\<not> (\<exists>q tq. q \<noteq> p \<and> sys_procs s q = Some tq \<and> ts_locked tq) \<and>
    (d_file (sys_disk s) = None \<or> d_file (sys_disk s) = Some (ts_data tp))"
proof -
  note ok = store_invD [OF store_reachable_inv [OF assms(1)]]
  have p: "d_lock (sys_disk s) = Some p" "d_file (sys_disk s) = None \<or> d_file (sys_disk s) = Some (ts_data tp)"
    using ok [OF assms(2)] assms(3) by auto
  moreover have "sys_procs s q = Some tq \<Longrightarrow> ts_locked tq \<Longrightarrow> d_lock (sys_disk s) = Some q" for q tq
    using ok [of q "Some tq"] by auto
  ultimately show ?thesis by auto
qed

definition demo_owner :: system where
  "demo_owner =
     (let s = init_system (Some (PInt 1)); ts = store_open (sys_disk s);
          (_, ts', d') = store_acquire 7 ts (sys_disk s)
      in s\<lparr>sys_disk := d', sys_procs := (sys_procs s)(7 \<mapsto> ts')\<rparr>)"

lemma demo_owner_reachable: "store_reachable demo_owner"
proof -
  let ?s = "init_system (Some (PInt 1))"
  let ?t = "?s\<lparr>sys_procs := (sys_procs ?s)(7 \<mapsto> store_open (sys_disk ?s))\<rparr>"
  obtain r ts' d' where a: "store_acquire 7 (store_open (sys_disk ?s)) (sys_disk ?s) = (r, ts', d')"
    by (cases "store_acquire 7 (store_open (sys_disk ?s)) (sys_disk ?s)") auto
  have "store_reachable ?t"
    by (rule store_reachable.step [OF store_reachable.start store_step.opens]) (simp add: init_system_def)
  moreover have "store_step ?t (?t\<lparr>sys_disk := d', sys_procs := (sys_procs ?t)(7 \<mapsto> ts')\<rparr>)"
    by (rule store_step.acquires [of _ 7]) (use a in \<open>simp_all add: store_open_def\<close>)
  ultimately have "store_reachable (?t\<lparr>sys_disk := d', sys_procs := (sys_procs ?t)(7 \<mapsto> ts')\<rparr>)"
    by (rule store_reachable.step)
  then show ?thesis using a by (simp add: demo_owner_def Let_def)
qed

theorem one_token_owner_witness:
  "\<exists>tp. sys_procs demo_owner 7 = Some tp \<and> ts_locked tp \<and>
     (d_file (sys_disk demo_owner) = None \<or> d_file (sys_disk demo_owner) = Some (ts_data tp))"
proof -
  obtain tp where "sys_procs demo_owner 7 = Some tp" "ts_locked tp"
    by (simp add: demo_owner_def store_acquire_def init_system_def Let_def)
  with one_token_owner [OF demo_owner_reachable this] show ?thesis by blast
qed

end
