(* ===== verification/Evcc.thy ===== *)
theory Evcc
  imports Vehicle Store
begin

text \<open>
  \<^verbatim>\<open>dbus_ev/providers/evcc.py\<close>: the optional multi-brand provider. One engine process is asked for
  a reading over a pipe; what paces it (next poll, next login, failure count, block) is saved
  before the network is used. The engine program itself is outside: \<open>reply\<close> is what its process
  answered and \<open>spawn\<close> whether it could be started.
\<close>

definition MIN_INTERVAL :: rat where "MIN_INTERVAL = 1800"
definition EVCC_LOGIN_INTERVAL :: rat where "EVCC_LOGIN_INTERVAL = 21600"
definition MAX_REPLY :: nat where "MAX_REPLY = 65536"

section \<open>The pipe\<close>

text \<open>
  One round of the read loop: the clock, and what \<^verbatim>\<open>select\<close> and \<^verbatim>\<open>os.read\<close> gave: nothing before
  the timeout, or a chunk of at most 4096 bytes, empty at the end of the stream.
\<close>

type_synonym pipe_read = "time \<times> string option"

fun read_reply :: "time \<Rightarrow> string \<Rightarrow> pipe_read list \<Rightarrow> string res" where
  "read_reply deadline content [] = Inl TimeoutError"
| "read_reply deadline content ((now, chunk) # rest) =
     (if MAX_REPLY < length content then Inl ValueError
      else if deadline - now \<le> 0 then Inl TimeoutError
      else case chunk of
        None \<Rightarrow> Inl TimeoutError
      | Some c \<Rightarrow>
          if c = [] then Inl RuntimeError
          else if CHR 0x0A \<in> set c
          then if MAX_REPLY < length (content @ c) then Inl ValueError else Inr (content @ c)
          else read_reply deadline (content @ c) rest)"

definition engine_poll :: "(string \<Rightarrow> pyval res) \<Rightarrow> time \<Rightarrow> time \<Rightarrow> pipe_read list \<Rightarrow> pydict res" where
  "engine_poll json timeout start reads =
     rbind (read_reply (start + timeout) [] reads) (\<lambda>content.
     rbind (json content) (\<lambda>response.
       case response of
         PDict d \<Rightarrow> if py_eq (dget d ''schema'') (PInt 1) then Inr d else Inl ValueError
       | _ \<Rightarrow> Inl ValueError))"

section \<open>Configuration\<close>

record evcc =
  ev_template :: pyval
  ev_vin :: pyval
  ev_interval :: rat
  ev_stale :: rat
  ev_capacity :: pyval
  ev_home :: home
  ev_data :: pydict
  ev_file :: "pydict option"
  ev_engine :: bool
  ev_started :: bool
  ev_snapshot :: pydict
  ev_received :: "time option"
  ev_sampled_at :: "time option"

definition valid_vin :: "string \<Rightarrow> bool" where
  "valid_vin v = (length v = 17 \<and> isascii v \<and> isalnum v)"

definition vehicle_vin :: "pydict \<Rightarrow> pyval res" where
  "vehicle_vin conf =
     (let template = dget conf ''template''; vin = upper (py_str (dget_or conf ''vin'' (PStr [])))
      in if template = PStr ''niu-e-scooter'' \<and> is_str (dget conf ''serial'') \<and> truthy (dget conf ''serial'')
         then Inr PNone
         else if \<not> truthy template \<or> \<not> valid_vin vin then Inl ValueError else Inr (PStr vin))"

fun finite_float :: "pyfloat \<Rightarrow> rat res" where
  "finite_float (Fin q) = Inr q"
| "finite_float _ = Inl ValueError"

text \<open>The effective poll interval and the stale timeout.\<close>

definition poll_intervals :: "pydict \<Rightarrow> pyval \<Rightarrow> pyval \<Rightarrow> (rat \<times> rat) res" where
  "poll_intervals conf interval stale_timeout =
     rbind (rbind (py_float interval) finite_float) (\<lambda>i.
     rbind (rbind (py_float stale_timeout) finite_float) (\<lambda>stale.
     let i = max MIN_INTERVAL i;
         i = (if dget conf ''template'' = PStr ''cardata'' then max 3600 i else i)
     in if stale \<le> i then Inl ValueError else Inr (i, stale)))"

definition evcc_init ::
  "bool \<Rightarrow> int \<Rightarrow> pyval res \<Rightarrow> bool \<Rightarrow> pyval \<Rightarrow> pyval \<Rightarrow> pyval \<Rightarrow> home \<Rightarrow> pydict option \<Rightarrow> evcc res" where
  "evcc_init regular mode conf executable interval stale_timeout capacity home file =
     (if \<not> regular \<or> mode mod 64 \<noteq> 0 then Inl ValueError
      else rbind conf (\<lambda>c. case c of
        PDict conf \<Rightarrow>
          rbind (vehicle_vin conf) (\<lambda>vin.
          if \<not> executable then Inl ValueError
          else rbind (poll_intervals conf interval stale_timeout) (\<lambda>(i, stale).
             Inr \<lparr>ev_template = dget conf ''template'', ev_vin = vin, ev_interval = i, ev_stale = stale,
               ev_capacity = capacity, ev_home = home,
               ev_data = (case file of None \<Rightarrow> [] | Some d \<Rightarrow> d), ev_file = file,
               ev_engine = False, ev_started = False, ev_snapshot = [(''ok'', PBool False)],
               ev_received = None, ev_sampled_at = None\<rparr>))
      | _ \<Rightarrow> Inl AttributeError))"

section \<open>Pacing\<close>

text \<open>The lock: \<open>owner\<close> says whether this process gets it; the data is read again under it.\<close>

definition start_client :: "bool \<Rightarrow> evcc \<Rightarrow> unit res \<times> evcc" where
  "start_client owner c =
     (if ev_started c then (Inr (), c)
      else if \<not> owner then (Inl RuntimeError, c)
      else (Inr (), c\<lparr>ev_started := True, ev_data := (case ev_file c of None \<Rightarrow> ev_data c | Some d \<Rightarrow> d)\<rparr>))"

definition evcc_save :: "save_fault \<Rightarrow> (string \<times> pyval) list \<Rightarrow> evcc \<Rightarrow> unit res \<times> evcc" where
  "evcc_save fault changes c =
     (if fault = Fine
      then let d = dupdate (ev_data c) changes in (Inr (), c\<lparr>ev_data := d, ev_file := Some d\<rparr>)
      else (Inl OSError, c))"

definition stop_engine :: "evcc \<Rightarrow> evcc" where
  "stop_engine c = c\<lparr>ev_engine := False\<rparr>"

definition failure_backoff :: "int \<Rightarrow> rat" where
  "failure_backoff failures =
     min EVCC_LOGIN_INTERVAL
       (1800 * (if 1 \<le> failures then 2 ^ nat (failures - 1) else 1 / 2 ^ nat (1 - failures)))"

definition blocking_kinds :: "string list" where
  "blocking_kinds = [''auth'', ''configuration'', ''storage'']"

text \<open>
  \<open>wall\<close> is the clock when the failure is recorded. A kind that is a list or dictionary is compared
  with the keywords like any other value.
\<close>

definition provider_failure :: "save_fault \<Rightarrow> time \<Rightarrow> pydict \<Rightarrow> evcc \<Rightarrow> unit res \<times> evcc" where
  "provider_failure fault wall response c =
     (let kind = dget_or response ''error'' (PStr ''provider'')
      in case rbind (py_int (dget_or (ev_data c) ''failures'' (PInt 0))) (\<lambda>n.
              rbind (number (dget response ''retry_after'') (Some 0) None) (\<lambda>retry. Inr (n, retry))) of
           Inl e \<Rightarrow> (Inl e, c)
         | Inr (n, retry) \<Rightarrow>
             (let failures = min 5 (n + 1);
                  delay = max (ev_interval c) (failure_backoff failures);
                  delay = max delay (case retry of None \<Rightarrow> 0 | Some q \<Rightarrow> q);
                  blocked = (kind \<in> set (map PStr blocking_kinds));
                  (r, c) = evcc_save fault [(''next_poll'', PFloat (Fin (wall + delay))),
                    (''failures'', PInt failures), (''blocked'', PBool blocked)] c
              in case r of Inl e \<Rightarrow> (Inl e, c)
                 | Inr _ \<Rightarrow> (Inr (), if blocked \<or> kind = PStr ''rate_limit'' then stop_engine c else c)))"

text \<open>The exception classes of the \<^verbatim>\<open>except\<close> clause, \<^verbatim>\<open>OSError\<close> with its subclasses.\<close>

definition transport_errors :: "pyexc list" where
  "transport_errors = [OSError, TimeoutError, FileExistsError, RuntimeError, ValueError]"

text \<open>What one network poll meets: the clocks, the faults of its saves and the engine.\<close>

record evcc_world =
  w_now :: time
  w_mono :: time
  w_wall :: time
  w_faults :: "nat \<Rightarrow> save_fault"
  w_spawn :: "unit res"
  w_reply :: "pydict res"

definition accept_reading :: "libm \<Rightarrow> evcc_world \<Rightarrow> pydict \<Rightarrow> evcc \<Rightarrow> unit res \<times> evcc" where
  "accept_reading m w data c =
     (case normalize m data (ev_vin c) (ev_capacity c) (ev_home c) of
        Inl e \<Rightarrow> (Inl e, c)
      | Inr candidate \<Rightarrow>
          if dget candidate ''soc'' = PNone then (Inl ValueError, c)
          else evcc_save (w_faults w 2)
                 [(''failures'', PInt 0), (''next_poll'', PFloat (Fin (w_wall w + ev_interval c)))]
                 (c\<lparr>ev_snapshot := candidate, ev_received := Some (w_mono w), ev_sampled_at := Some (w_now w)\<rparr>))"

definition engine_exchange :: "libm \<Rightarrow> evcc_world \<Rightarrow> evcc \<Rightarrow> unit res \<times> evcc" where
  "engine_exchange m w c =
     (case (if ev_engine c then Inr () else w_spawn w) of
        Inl e \<Rightarrow> (Inl e, c)
      | Inr _ \<Rightarrow>
          (let c = c\<lparr>ev_engine := True\<rparr>
           in case w_reply w of
                Inl e \<Rightarrow> (Inl e, c)
              | Inr response \<Rightarrow>
                  if dget response ''ok'' = PBool True \<and> is_dict (dget response ''data'')
                  then (case dget response ''data'' of PDict d \<Rightarrow> accept_reading m w d c | _ \<Rightarrow> (Inr (), c))
                  else provider_failure (w_faults w 3) (w_wall w) response c))"

definition poll_engine :: "libm \<Rightarrow> evcc_world \<Rightarrow> evcc \<Rightarrow> unit res \<times> evcc" where
  "poll_engine m w c =
     (case evcc_save (w_faults w 0) [(''next_poll'', PFloat (Fin (w_now w + ev_interval c)))] c of
        (Inl e, c) \<Rightarrow> (Inl e, c)
      | (Inr _, c) \<Rightarrow>
          (case (if ev_engine c then (Inr (), c)
                 else evcc_save (w_faults w 1) [(''next_login'', PFloat (Fin (w_now w + EVCC_LOGIN_INTERVAL)))] c) of
             (Inl e, c) \<Rightarrow> (Inl e, c)
           | (Inr _, c) \<Rightarrow>
               (case engine_exchange m w c of
                  (Inr _, c) \<Rightarrow> (Inr (), c)
                | (Inl e, c) \<Rightarrow>
                    if e \<in> set transport_errors
                    then provider_failure (w_faults w 4) (w_wall w) [(''error'', PStr ''transport'')] (stop_engine c)
                    else (Inl e, c))))"

text \<open>\<^verbatim>\<open>now >= value\<close>: numbers by value, other types are not ordered with a float.\<close>

fun reached :: "time \<Rightarrow> pyval \<Rightarrow> bool res" where
  "reached now (PInt n) = Inr (of_int n \<le> now)"
| "reached now (PBool b) = Inr ((if b then 1 else 0) \<le> now)"
| "reached now (PFloat (Fin q)) = Inr (q \<le> now)"
| "reached now (PFloat NegInf) = Inr True"
| "reached now (PFloat _) = Inr False"
| "reached now _ = Inl TypeError"

definition poll_allowed :: "time \<Rightarrow> evcc \<Rightarrow> bool res" where
  "poll_allowed now c =
     (if truthy (dget (ev_data c) ''blocked'') then Inr False
      else rbind (reached now (dget_or (ev_data c) ''next_poll'' (PInt 0))) (\<lambda>due.
        if \<not> due then Inr False
        else if ev_engine c then Inr True
        else reached now (dget_or (ev_data c) ''next_login'' (PInt 0))))"

definition time_val :: "time option \<Rightarrow> pyval" where
  "time_val t = (case t of None \<Rightarrow> PNone | Some q \<Rightarrow> PFloat (Fin q))"

definition evcc_result :: "time \<Rightarrow> evcc \<Rightarrow> pydict" where
  "evcc_result mt c =
     dupdate (ev_snapshot c)
       [(''ok'', PBool (fresh (ev_stale c) mt (ev_received c))),
        (''_source_sample_started_at'', time_val (ev_received c)),
        (''sampled_at'', time_val (ev_sampled_at c)),
        (''source'', PStr (''evcc:'' @ py_str (ev_template c)))]"

text \<open>\<open>after\<close> is the monotonic clock when the result is built.\<close>

definition evcc_poll :: "libm \<Rightarrow> bool \<Rightarrow> evcc_world \<Rightarrow> time \<Rightarrow> evcc \<Rightarrow> pydict res \<times> evcc" where
  "evcc_poll m owner w after c =
     (case start_client owner c of
        (Inl e, c) \<Rightarrow> (Inl e, c)
      | (Inr _, c) \<Rightarrow>
          (case poll_allowed (w_now w) c of
             Inl e \<Rightarrow> (Inl e, c)
           | Inr False \<Rightarrow> (Inr (evcc_result after c), c)
           | Inr True \<Rightarrow>
               (case poll_engine m w c of
                  (Inl e, c) \<Rightarrow> (Inl e, c)
                | (Inr _, c) \<Rightarrow> (Inr (evcc_result after c), c))))"

definition evcc_close :: "evcc \<Rightarrow> evcc" where
  "evcc_close c = (stop_engine c)\<lparr>ev_started := False\<rparr>"

text \<open>The operator's command: the engine's exit code decides whether the pacing is reset.\<close>

definition authorize :: "int \<Rightarrow> pydict \<Rightarrow> pydict" where
  "authorize returncode data =
     (if returncode = 0
      then dupdate data [(''blocked'', PBool False), (''failures'', PInt 0), (''next_poll'', PInt 0), (''next_login'', PInt 0)]
      else data)"

section \<open>The pipe is bounded\<close>

text \<open>
  a reply taken from the engine is a complete line of at most 64 KiB all of whose parts arrived
  before the deadline; a slower, longer or interrupted one is an error.
\<close>

theorem engine_reply_bounded:
  assumes "read_reply deadline content reads = Inr reply"
  shows "length reply \<le> MAX_REPLY \<and> CHR 0x0A \<in> set reply \<and>
    (\<exists>taken rest. reads = taken @ rest \<and> (\<forall>(now, chunk) \<in> set taken. now < deadline \<and> chunk \<noteq> None) \<and>
       reply = content @ concat (map (\<lambda>(now, chunk). the chunk) taken))"
  using assms
proof (induction deadline content reads rule: read_reply.induct)
  case (1 deadline content)
  then show ?case by simp
next
  case (2 deadline content now chunk rest)
  then obtain c where c: "chunk = Some c" "c \<noteq> []" "length content \<le> MAX_REPLY" "now < deadline"
    by (auto split: if_splits option.splits)
  show ?case
  proof (cases "CHR 0x0A \<in> set c")
    case True
    with 2(2) c have "reply = content @ c" "length reply \<le> MAX_REPLY" by (auto split: if_splits)
    with True c show ?thesis by (intro conjI exI [of _ "[(now, chunk)]"] exI [of _ rest]) auto
  next
    case False
    with 2(2) c have r: "read_reply deadline (content @ c) rest = Inr reply" by (auto split: if_splits)
    from 2(1) [OF _ _ c(1,2) False] r c obtain taken more where
      IH: "length reply \<le> MAX_REPLY" "CHR 0x0A \<in> set reply" "rest = taken @ more"
      "\<forall>(now, chunk) \<in> set taken. now < deadline \<and> chunk \<noteq> None"
      "reply = (content @ c) @ concat (map (\<lambda>(now, chunk). the chunk) taken)" by auto
    with c show ?thesis by (intro conjI exI [of _ "(now, chunk) # taken"] exI [of _ more]) auto
  qed
qed

theorem engine_reply_bounded_witness:
  "read_reply 90 [] [(1, Some ''{}''), (2, Some [CHR 0x0A])] = Inr (''{}'' @ [CHR 0x0A]) \<and>
   length (''{}'' @ [CHR 0x0A]) \<le> MAX_REPLY"
proof -
  have r: "read_reply 90 [] [(1, Some ''{}''), (2, Some [CHR 0x0A])] = Inr (''{}'' @ [CHR 0x0A])"
    by (simp add: MAX_REPLY_def)
  from engine_reply_bounded [OF r] r show ?thesis by blast
qed

section \<open>Pacing over restarts\<close>

text \<open>In memory and on disk, the entry \<open>k\<close> is a time not before \<open>u\<close>.\<close>

definition at_least :: "string \<Rightarrow> rat \<Rightarrow> pydict \<Rightarrow> bool" where
  "at_least k u d = (\<exists>q. map_of d k = Some (PFloat (Fin q)) \<and> u \<le> q)"

definition floored :: "string \<Rightarrow> rat \<Rightarrow> evcc \<Rightarrow> bool" where
  "floored k u c = (at_least k u (ev_data c) \<and> (\<exists>d. ev_file c = Some d \<and> at_least k u d))"

lemma at_least_dupdate:
  "at_least k u d \<Longrightarrow> distinct (map fst ch) \<Longrightarrow> (\<And>v. map_of ch k = Some v \<Longrightarrow> \<exists>q. v = PFloat (Fin q) \<and> u \<le> q) \<Longrightarrow>
    at_least k u (dupdate d ch)"
  by (auto simp: at_least_def dlookup_dupdate split: option.splits)

lemma floored_save:
  assumes "floored k u c" and "distinct (map fst ch)"
    and "\<And>v. map_of ch k = Some v \<Longrightarrow> \<exists>q. v = PFloat (Fin q) \<and> u \<le> q"
  shows "floored k u (snd (evcc_save f ch c))"
proof -
  have "at_least k u (dupdate (ev_data c) ch)"
    by (rule at_least_dupdate) (use assms in \<open>auto simp: floored_def\<close>)
  then show ?thesis using assms(1) by (simp add: evcc_save_def floored_def Let_def)
qed

lemma floored_by_save:
  assumes "distinct (map fst ch)" and "map_of ch k = Some (PFloat (Fin q))" and "u \<le> q"
  shows "floored k u (snd (evcc_save Fine ch c))"
  using assms by (simp add: evcc_save_def floored_def Let_def at_least_def dlookup_dupdate)

lemma evcc_save_config [simp]:
  "ev_interval (snd (evcc_save f ch c)) = ev_interval c" "ev_engine (snd (evcc_save f ch c)) = ev_engine c"
  "ev_started (snd (evcc_save f ch c)) = ev_started c"
  by (simp_all add: evcc_save_def Let_def)

lemma floored_upd [simp]:
  "floored k u (c\<lparr>ev_engine := b\<rparr>) = floored k u c" "floored k u (c\<lparr>ev_snapshot := s\<rparr>) = floored k u c"
  "floored k u (c\<lparr>ev_received := t\<rparr>) = floored k u c" "floored k u (c\<lparr>ev_sampled_at := t\<rparr>) = floored k u c"
  "floored k u (c\<lparr>ev_started := b\<rparr>) = floored k u c"
  by (simp_all add: floored_def)

definition pacing_key :: "string \<Rightarrow> bool" where
  "pacing_key k = (k = ''next_poll'' \<or> k = ''next_login'')"

lemma provider_failure_cases:
  assumes "provider_failure f wall resp c = (r, c')"
  shows "c' = c \<or> (\<exists>delay n b. ev_interval c \<le> delay \<and>
    (c' = snd (evcc_save f [(''next_poll'', PFloat (Fin (wall + delay))), (''failures'', n), (''blocked'', b)] c) \<or>
     c' = stop_engine (snd (evcc_save f [(''next_poll'', PFloat (Fin (wall + delay))), (''failures'', n), (''blocked'', b)] c))))"
proof (cases "rbind (py_int (dget_or (ev_data c) ''failures'' (PInt 0))) (\<lambda>n.
    rbind (number (dget resp ''retry_after'') (Some 0) None) (\<lambda>retry. Inr (n, retry)))")
  case (Inl e)
  with assms show ?thesis by (simp add: provider_failure_def Let_def)
next
  case (Inr x)
  obtain n retry where x: "x = (n, retry)" by (cases x)
  define delay where "delay = max (max (ev_interval c) (failure_backoff (min 5 (n + 1)))) (case retry of None \<Rightarrow> 0 | Some q \<Rightarrow> q)"
  define b where "b = PBool (dget_or resp ''error'' (PStr ''provider'') \<in> PStr ` set blocking_kinds)"
  let ?save = "evcc_save f [(''next_poll'', PFloat (Fin (wall + delay))), (''failures'', PInt (min 5 (n + 1))), (''blocked'', b)] c"
  have "ev_interval c \<le> delay" by (simp add: delay_def)
  moreover have "c' = snd ?save \<or> c' = stop_engine (snd ?save)"
    using assms Inr x
    by (cases ?save) (auto simp: provider_failure_def Let_def simp flip: delay_def b_def split: sum.splits if_splits)
  ultimately show ?thesis by blast
qed

lemma provider_failure_interval [simp]:
  "ev_interval (snd (provider_failure f wall resp c)) = ev_interval c"
  using provider_failure_cases [of f wall resp c _ "snd (provider_failure f wall resp c)"]
  by (cases "provider_failure f wall resp c") (auto simp: stop_engine_def)

lemma provider_failure_floored:
  assumes "floored k u c" and "pacing_key k" and "k = ''next_poll'' \<Longrightarrow> u \<le> wall + ev_interval c"
  shows "floored k u (snd (provider_failure f wall resp c))"
proof -
  obtain r c' where p: "provider_failure f wall resp c = (r, c')" by (cases "provider_failure f wall resp c")
  have saved: "floored k u (snd (evcc_save f [(''next_poll'', PFloat (Fin (wall + delay))), (''failures'', n), (''blocked'', b)] c))"
    if "ev_interval c \<le> delay" for delay n b
    by (rule floored_save [OF assms(1)]) (use assms(2,3) that in \<open>auto simp: pacing_key_def split: if_splits\<close>)
  have "c' = c \<Longrightarrow> floored k u c'" using assms(1) by simp
  then have "floored k u c'"
    using provider_failure_cases [OF p] saved by (auto simp: stop_engine_def)
  with p show ?thesis by simp
qed

lemma accept_reading_floored:
  assumes "floored k u c" and "pacing_key k" and "k = ''next_poll'' \<Longrightarrow> u \<le> w_wall w + ev_interval c"
  shows "floored k u (snd (accept_reading m w data c))"
proof -
  have "floored k u (snd (evcc_save (w_faults w 2)
      [(''failures'', PInt 0), (''next_poll'', PFloat (Fin (w_wall w + ev_interval c)))]
      (c\<lparr>ev_snapshot := s, ev_received := a, ev_sampled_at := b\<rparr>)))" for s a b
    by (rule floored_save) (use assms in \<open>auto simp: pacing_key_def split: if_splits\<close>)
  with assms(1) show ?thesis by (simp add: accept_reading_def split: sum.splits)
qed

lemma accept_reading_interval [simp]: "ev_interval (snd (accept_reading m w data c)) = ev_interval c"
  by (simp add: accept_reading_def split: sum.splits)

lemma engine_exchange_floored:
  assumes "floored k u c" and "pacing_key k" and "k = ''next_poll'' \<Longrightarrow> u \<le> w_wall w + ev_interval c"
  shows "floored k u (snd (engine_exchange m w c)) \<and> ev_interval (snd (engine_exchange m w c)) = ev_interval c"
  using assms accept_reading_floored [of k u "c\<lparr>ev_engine := True\<rparr>" w m]
    provider_failure_floored [of k u "c\<lparr>ev_engine := True\<rparr>" "w_wall w" "w_faults w 3"]
  by (auto simp: engine_exchange_def Let_def split: sum.splits pyval.splits)

text \<open>The part of a poll after its reservations are on disk.\<close>

definition after_reservation :: "libm \<Rightarrow> evcc_world \<Rightarrow> evcc \<Rightarrow> unit res \<times> evcc" where
  "after_reservation m w c =
     (case engine_exchange m w c of
        (Inr _, c) \<Rightarrow> (Inr (), c)
      | (Inl e, c) \<Rightarrow>
          if e \<in> set transport_errors
          then provider_failure (w_faults w 4) (w_wall w) [(''error'', PStr ''transport'')] (stop_engine c)
          else (Inl e, c))"

lemma after_reservation_floored:
  assumes "floored k u c" and "pacing_key k" and "k = ''next_poll'' \<Longrightarrow> u \<le> w_wall w + ev_interval c"
  shows "floored k u (snd (after_reservation m w c)) \<and> ev_interval (snd (after_reservation m w c)) = ev_interval c"
proof -
  obtain r c1 where x: "engine_exchange m w c = (r, c1)" by (cases "engine_exchange m w c")
  have c1: "floored k u c1" "ev_interval c1 = ev_interval c" using engine_exchange_floored [OF assms, of m] x by auto
  then have "floored k u (snd (provider_failure (w_faults w 4) (w_wall w) [(''error'', PStr ''transport'')] (stop_engine c1)))"
    using assms(2,3) by (intro provider_failure_floored) (simp_all add: stop_engine_def)
  with x c1 show ?thesis by (cases r) (auto simp: after_reservation_def stop_engine_def)
qed

definition reserve_poll :: "evcc_world \<Rightarrow> evcc \<Rightarrow> evcc" where
  "reserve_poll w c = snd (evcc_save (w_faults w 0) [(''next_poll'', PFloat (Fin (w_now w + ev_interval c)))] c)"

definition reserve_engine :: "evcc_world \<Rightarrow> evcc \<Rightarrow> evcc" where
  "reserve_engine w c =
     (if ev_engine c then c
      else snd (evcc_save (w_faults w 1) [(''next_login'', PFloat (Fin (w_now w + EVCC_LOGIN_INTERVAL)))] c))"

definition reserved :: "evcc_world \<Rightarrow> evcc \<Rightarrow> bool" where
  "reserved w c = (w_faults w 0 = Fine \<and> (ev_engine c \<or> w_faults w 1 = Fine))"

lemma evcc_save_result: "fst (evcc_save f ch c) = (if f = Fine then Inr () else Inl OSError)"
  by (simp add: evcc_save_def Let_def)

lemma poll_engine_reserved:
  "reserved w c \<Longrightarrow> poll_engine m w c = after_reservation m w (reserve_engine w (reserve_poll w c))"
  by (auto simp: poll_engine_def reserved_def after_reservation_def reserve_engine_def reserve_poll_def
    evcc_save_def Let_def split: sum.splits prod.splits)

lemma poll_engine_unreserved:
  "\<not> reserved w c \<Longrightarrow> poll_engine m w c = (Inl OSError,
     (if w_faults w 0 = Fine then reserve_poll w c else c))"
  by (auto simp: poll_engine_def reserved_def reserve_poll_def evcc_save_def Let_def)

text \<open>A poll reaches the provider, and whether it also starts the engine, which logs in.\<close>

definition contacted :: "bool \<Rightarrow> evcc_world \<Rightarrow> evcc \<Rightarrow> bool" where
  "contacted owner w c =
     (case start_client owner c of
        (Inl e, c) \<Rightarrow> False
      | (Inr _, c) \<Rightarrow> poll_allowed (w_now w) c = Inr True \<and> reserved w c)"

lemma start_client_ok: "start_client owner c = (Inr (), c1) \<Longrightarrow> ev_interval c1 = ev_interval c \<and> ev_engine c1 = ev_engine c"
  by (auto simp: start_client_def split: if_splits)

lemma start_client_floored: "floored k u c \<Longrightarrow> start_client owner c = (r, c1) \<Longrightarrow> floored k u c1"
  by (auto simp: start_client_def floored_def split: if_splits option.splits)

lemma poll_allowed_floored:
  assumes "floored k u c" and "poll_allowed now c = Inr True"
  shows "(k = ''next_poll'' \<longrightarrow> u \<le> now) \<and> (k = ''next_login'' \<and> \<not> ev_engine c \<longrightarrow> u \<le> now)"
  using assms by (auto simp: floored_def at_least_def poll_allowed_def rbind_Inr_iff dget_or_def split: if_splits)

lemma reserve_poll_floored:
  assumes "floored k u c" and "pacing_key k" and "k = ''next_poll'' \<Longrightarrow> u \<le> w_now w + ev_interval c"
  shows "floored k u (reserve_poll w c)"
  unfolding reserve_poll_def
  by (rule floored_save [OF assms(1)]) (use assms(2,3) in \<open>auto simp: pacing_key_def split: if_splits\<close>)

lemma reserve_engine_floored:
  assumes "floored k u c" and "pacing_key k" and "k = ''next_login'' \<Longrightarrow> \<not> ev_engine c \<Longrightarrow> u \<le> w_now w + EVCC_LOGIN_INTERVAL"
  shows "floored k u (reserve_engine w c)"
proof (cases "ev_engine c")
  case False
  have "floored k u (snd (evcc_save (w_faults w 1) [(''next_login'', PFloat (Fin (w_now w + EVCC_LOGIN_INTERVAL)))] c))"
    by (rule floored_save [OF assms(1)]) (use assms(2,3) False in \<open>auto simp: pacing_key_def split: if_splits\<close>)
  with False show ?thesis by (simp add: reserve_engine_def)
qed (use assms(1) in \<open>simp add: reserve_engine_def\<close>)

lemma reserve_interval [simp]:
  "ev_interval (reserve_poll w c) = ev_interval c" "ev_interval (reserve_engine w c) = ev_interval c"
  "ev_engine (reserve_poll w c) = ev_engine c"
  by (simp_all add: reserve_poll_def reserve_engine_def)

lemma poll_engine_floored:
  assumes "floored k u c" and "pacing_key k" and "w_now w \<le> w_wall w" and "0 \<le> ev_interval c"
    and "poll_allowed (w_now w) c = Inr True"
  shows "floored k u (snd (poll_engine m w c)) \<and> ev_interval (snd (poll_engine m w c)) = ev_interval c"
proof -
  note due = poll_allowed_floored [OF assms(1,5)]
  have p: "floored k u (reserve_poll w c)"
    using due assms(4) by (intro reserve_poll_floored [OF assms(1,2)]) simp
  show ?thesis
  proof (cases "reserved w c")
    case True
    have e: "floored k u (reserve_engine w (reserve_poll w c))"
      using due p by (intro reserve_engine_floored [OF _ assms(2)]) (auto simp: EVCC_LOGIN_INTERVAL_def)
    have "k = ''next_poll'' \<Longrightarrow> u \<le> w_wall w + ev_interval c" using due assms(3,4) by simp
    with after_reservation_floored [OF e assms(2), of w m] True show ?thesis
      by (simp add: poll_engine_reserved)
  next
    case False
    with p assms(1) show ?thesis by (simp add: poll_engine_unreserved)
  qed
qed

lemma poll_floored:
  assumes "floored k u c" and "pacing_key k" and "w_now w \<le> w_wall w" and "0 \<le> ev_interval c"
  shows "floored k u (snd (evcc_poll m owner w after c)) \<and>
    (contacted owner w c \<and> (k = ''next_login'' \<longrightarrow> \<not> ev_engine c) \<longrightarrow> u \<le> w_now w)"
proof -
  obtain r c1 where st: "start_client owner c = (r, c1)" by (cases "start_client owner c")
  have f1: "floored k u c1" by (rule start_client_floored [OF assms(1) st])
  show ?thesis
  proof (cases r)
    case (Inl e)
    with st f1 show ?thesis by (simp add: evcc_poll_def contacted_def)
  next
    case (Inr x)
    with st have st': "start_client owner c = (Inr (), c1)" by simp
    have int: "0 \<le> ev_interval c1" "ev_engine c1 = ev_engine c" using start_client_ok [OF st'] assms(4) by auto
    have pe: "poll_allowed (w_now w) c1 = Inr True \<Longrightarrow> floored k u (snd (poll_engine m w c1))"
      using poll_engine_floored [OF f1 assms(2,3) int(1)] by blast
    have al: "poll_allowed (w_now w) c1 = Inr True \<Longrightarrow>
        (k = ''next_poll'' \<longrightarrow> u \<le> w_now w) \<and> (k = ''next_login'' \<and> \<not> ev_engine c1 \<longrightarrow> u \<le> w_now w)"
      by (rule poll_allowed_floored [OF f1])
    show ?thesis
      using st' pe al f1 int(2) assms(2)
      by (auto simp: evcc_poll_def contacted_def pacing_key_def split: sum.splits bool.splits prod.splits)
  qed
qed

lemma engine_exchange_interval [simp]: "ev_interval (snd (engine_exchange m w c)) = ev_interval c"
  by (auto simp: engine_exchange_def Let_def split: sum.splits pyval.splits)

lemma after_reservation_interval [simp]: "ev_interval (snd (after_reservation m w c)) = ev_interval c"
proof -
  obtain r c1 where x: "engine_exchange m w c = (r, c1)" by (cases "engine_exchange m w c")
  then have "ev_interval c1 = ev_interval c" using engine_exchange_interval [of m w c] by simp
  with x show ?thesis by (cases r) (auto simp: after_reservation_def stop_engine_def)
qed

lemma poll_engine_interval [simp]: "ev_interval (snd (poll_engine m w c)) = ev_interval c"
  by (cases "reserved w c") (simp_all add: poll_engine_reserved poll_engine_unreserved)

lemma evcc_poll_interval [simp]: "ev_interval (snd (evcc_poll m owner w after c)) = ev_interval c"
proof -
  obtain r c1 where st: "start_client owner c = (r, c1)" by (cases "start_client owner c")
  then have "ev_interval c1 = ev_interval c" by (auto simp: start_client_def split: if_splits)
  moreover obtain r2 c2 where p: "poll_engine m w c1 = (r2, c2)" by (cases "poll_engine m w c1")
  moreover have "ev_interval c2 = ev_interval c1" using poll_engine_interval [of m w c1] p by simp
  ultimately show ?thesis
    using st by (auto simp: evcc_poll_def split: sum.splits bool.splits)
qed

lemma contacted_start:
  "contacted owner w c \<Longrightarrow> \<exists>c1. start_client owner c = (Inr (), c1) \<and> poll_allowed (w_now w) c1 = Inr True \<and>
    reserved w c1 \<and> ev_engine c1 = ev_engine c \<and> ev_interval c1 = ev_interval c"
  by (auto simp: contacted_def start_client_def split: sum.splits prod.splits if_splits)

lemma evcc_poll_contacted:
  assumes "contacted owner w c"
  shows "\<exists>c1. snd (evcc_poll m owner w after c) = snd (after_reservation m w (reserve_engine w (reserve_poll w c1))) \<and>
    reserved w c1 \<and> ev_engine c1 = ev_engine c \<and> ev_interval c1 = ev_interval c"
proof -
  obtain c1 where c1: "start_client owner c = (Inr (), c1)" "poll_allowed (w_now w) c1 = Inr True" "reserved w c1"
    "ev_engine c1 = ev_engine c" "ev_interval c1 = ev_interval c" using contacted_start [OF assms] by blast
  then have "snd (evcc_poll m owner w after c) = snd (poll_engine m w c1)"
    by (auto simp: evcc_poll_def split: sum.splits prod.splits)
  with c1 show ?thesis by (metis poll_engine_reserved)
qed

lemma contact_sets_next_poll:
  assumes "contacted owner w c" and "w_now w \<le> w_wall w"
  shows "floored ''next_poll'' (w_now w + ev_interval c) (snd (evcc_poll m owner w after c))"
proof -
  obtain c1 where c1: "snd (evcc_poll m owner w after c) = snd (after_reservation m w (reserve_engine w (reserve_poll w c1)))"
    "reserved w c1" "ev_interval c1 = ev_interval c" using evcc_poll_contacted [OF assms(1)] by blast
  have "floored ''next_poll'' (w_now w + ev_interval c) (reserve_poll w c1)"
    using c1(2,3) by (auto simp: reserve_poll_def reserved_def intro!: floored_by_save)
  then have "floored ''next_poll'' (w_now w + ev_interval c) (reserve_engine w (reserve_poll w c1))"
    by (rule reserve_engine_floored) (simp_all add: pacing_key_def)
  then show ?thesis
    unfolding c1(1) using assms(2) c1(3)
    by (intro after_reservation_floored [THEN conjunct1]) (simp_all add: pacing_key_def)
qed

lemma contact_sets_next_login:
  assumes "contacted owner w c" and "\<not> ev_engine c"
  shows "floored ''next_login'' (w_now w + 21600) (snd (evcc_poll m owner w after c))"
proof -
  obtain c1 where c1: "snd (evcc_poll m owner w after c) = snd (after_reservation m w (reserve_engine w (reserve_poll w c1)))"
    "reserved w c1" "ev_engine c1 = ev_engine c" using evcc_poll_contacted [OF assms(1)] by blast
  then have "floored ''next_login'' (w_now w + 21600) (reserve_engine w (reserve_poll w c1))"
    using assms(2) by (auto simp: reserve_engine_def reserved_def EVCC_LOGIN_INTERVAL_def intro!: floored_by_save)
  then show ?thesis
    unfolding c1(1) by (intro after_reservation_floored [THEN conjunct1]) (simp_all add: pacing_key_def)
qed

text \<open>
  A run of one account over any number of processes. A crash loses the memory and releases the lock;
  the next process reads the file.
\<close>

datatype evcc_event = Poll bool evcc_world time | Close | Crash

definition evcc_restart :: "evcc \<Rightarrow> evcc" where
  "evcc_restart c =
     c\<lparr>ev_data := (case ev_file c of None \<Rightarrow> [] | Some d \<Rightarrow> d), ev_engine := False, ev_started := False,
       ev_snapshot := [(''ok'', PBool False)], ev_received := None, ev_sampled_at := None\<rparr>"

text \<open>The provider contacts of a run: the time, and whether the contact started the engine.\<close>

fun contacts :: "libm \<Rightarrow> evcc_event list \<Rightarrow> evcc \<Rightarrow> (time \<times> bool) list" where
  "contacts m [] c = []"
| "contacts m (Poll owner w after # es) c =
     (if contacted owner w c then [(w_now w, \<not> ev_engine c)] else []) @
     contacts m es (snd (evcc_poll m owner w after c))"
| "contacts m (Close # es) c = contacts m es (evcc_close c)"
| "contacts m (Crash # es) c = contacts m es (evcc_restart c)"

definition forward :: "evcc_event list \<Rightarrow> bool" where
  "forward es = (\<forall>e \<in> set es. case e of Poll owner w after \<Rightarrow> w_now w \<le> w_wall w | _ \<Rightarrow> True)"

lemma forward_Cons [simp]:
  "forward (Poll owner w after # es) = (w_now w \<le> w_wall w \<and> forward es)" "forward (Close # es) = forward es"
  "forward (Crash # es) = forward es"
  by (simp_all add: forward_def)

lemma restart_floored [simp]: "floored k u c \<Longrightarrow> floored k u (evcc_restart c)"
  by (auto simp: floored_def evcc_restart_def)

lemma close_floored [simp]: "floored k u (evcc_close c) = floored k u c"
  by (simp add: floored_def evcc_close_def stop_engine_def)

lemma restart_close_interval [simp]:
  "ev_interval (evcc_restart c) = ev_interval c" "ev_interval (evcc_close c) = ev_interval c"
  by (simp_all add: evcc_restart_def evcc_close_def stop_engine_def)

lemma contacts_floored:
  assumes "floored k u c" and "pacing_key k" and "forward es" and "0 \<le> ev_interval c" and "(t, l) \<in> set (contacts m es c)"
    and "k = ''next_login'' \<Longrightarrow> l"
  shows "u \<le> t"
  using assms
proof (induction m es c rule: contacts.induct)
  case (2 m owner w after es c)
  have now: "w_now w \<le> w_wall w" using 2(4) by simp
  note p = poll_floored [OF 2(2,3) now 2(5), of m owner after]
  show ?case
  proof (cases "(t, l) \<in> set (contacts m es (snd (evcc_poll m owner w after c)))")
    case True
    with 2(1) [OF p [THEN conjunct1]] 2(3-7) show ?thesis by simp
  next
    case False
    with 2(6) have "contacted owner w c" "t = w_now w" "l = (\<not> ev_engine c)" by (auto split: if_splits)
    with p 2(7) show ?thesis by simp
  qed
qed simp_all

lemma contacts_spaced:
  assumes "forward es" and "0 \<le> ev_interval c"
  shows "sorted_wrt (\<lambda>(t, l) (t', l'). t + ev_interval c \<le> t' \<and> (l \<and> l' \<longrightarrow> t + 21600 \<le> t')) (contacts m es c)"
  using assms
proof (induction m es c rule: contacts.induct)
  case (2 m owner w after es c)
  let ?c = "snd (evcc_poll m owner w after c)"
  have IH: "sorted_wrt (\<lambda>(t, l) (t', l'). t + ev_interval c \<le> t' \<and> (l \<and> l' \<longrightarrow> t + 21600 \<le> t')) (contacts m es ?c)"
    using 2 by simp
  have es: "forward es" "0 \<le> ev_interval ?c" "w_now w \<le> w_wall w" using 2(2,3) by simp_all
  have "w_now w + ev_interval c \<le> t' \<and> (\<not> ev_engine c \<and> l' \<longrightarrow> w_now w + 21600 \<le> t')"
    if "contacted owner w c" "(t', l') \<in> set (contacts m es ?c)" for t' l'
    using contacts_floored [OF contact_sets_next_poll [OF that(1) es(3)] _ es(1,2) that(2)]
      contacts_floored [OF contact_sets_next_login [OF that(1)] _ es(1,2) that(2)]
    by (auto simp: pacing_key_def)
  with IH show ?case by auto
qed simp_all

lemma poll_intervals_bounds: "poll_intervals conf i s = Inr (interval, stale) \<Longrightarrow> 1800 \<le> interval \<and> interval < stale"
  by (auto simp: poll_intervals_def rbind_Inr_iff Let_def MIN_INTERVAL_def split: if_splits)

lemma evcc_init_interval:
  assumes "evcc_init regular mode conf executable interval stale capacity home file = Inr c"
  shows "1800 \<le> ev_interval c \<and> ev_interval c < ev_stale c"
proof -
  obtain v where v: "conf = Inr v" using assms by (cases conf) (auto simp: evcc_init_def split: if_splits)
  obtain d where "v = PDict d" using assms v by (cases v) (auto simp: evcc_init_def split: if_splits)
  with assms v obtain i st where "poll_intervals d interval stale = Inr (i, st)" "ev_interval c = i" "ev_stale c = st"
    by (auto simp: evcc_init_def rbind_Inr_iff split: if_splits)
  then show ?thesis using poll_intervals_bounds by blast
qed


definition demo_world :: "time \<Rightarrow> pydict res \<Rightarrow> evcc_world" where
  "demo_world now reply = \<lparr>w_now = now, w_mono = now - 100, w_wall = now + 5, w_faults = (\<lambda>_. Fine),
     w_spawn = Inr (), w_reply = reply\<rparr>"

definition demo_reply :: pydict where
  "demo_reply = [(''schema'', PInt 1), (''ok'', PBool True), (''data'', PDict [(''soc'', PInt 55), (''status'', PStr ''C'')])]"

definition demo_evcc :: evcc where
  "demo_evcc = \<lparr>ev_template = PStr ''kia'', ev_vin = PStr ''KNAAAAAAAAAAAAAAA'', ev_interval = 3600, ev_stale = 7500,
     ev_capacity = PNone, ev_home = (PNone, PNone, PInt 150), ev_data = [], ev_file = None, ev_engine = False,
     ev_started = False, ev_snapshot = [(''ok'', PBool False)], ev_received = None, ev_sampled_at = None\<rparr>"

lemma demo_evcc_init:
  "evcc_init True 33152 (Inr (PDict [(''template'', PStr ''kia''), (''vin'', PStr ''knaaaaaaaaaaaaaaa'')])) True
     (PInt 3600) (PInt 7500) PNone (PNone, PNone, PInt 150) None = Inr demo_evcc"
  by code_simp


section \<open>Failures\<close>

lemma contacted_needs_unblocked: "contacted owner w c \<Longrightarrow> \<not> truthy (dget (ev_data c) ''blocked'') \<or>
    (\<exists>d. ev_file c = Some d \<and> \<not> truthy (dget d ''blocked''))"
  by (auto simp: contacted_def start_client_def poll_allowed_def split: sum.splits prod.splits if_splits option.splits)

definition shut :: "evcc \<Rightarrow> bool" where
  "shut c = (truthy (dget (ev_data c) ''blocked'') \<and> (\<exists>d. ev_file c = Some d \<and> truthy (dget d ''blocked'')))"

lemma shut_not_contacted: "shut c \<Longrightarrow> \<not> contacted owner w c"
  using contacted_needs_unblocked [of owner w c] by (auto simp: shut_def)

lemma shut_poll: "shut c \<Longrightarrow> shut (snd (evcc_poll m owner w after c))"
  by (auto simp: shut_def evcc_poll_def start_client_def poll_allowed_def split: if_splits option.splits)

lemma shut_contacts: "shut c \<Longrightarrow> contacts m es c = []"
proof (induction m es c rule: contacts.induct)
  case (2 m owner w after es c)
  then show ?case by (simp add: shut_not_contacted shut_poll)
qed (auto simp: shut_def evcc_close_def stop_engine_def evcc_restart_def)

text \<open>The entries a failure writes, and the state it leaves when its save completes.\<close>

definition failure_delay :: "rat \<Rightarrow> int \<Rightarrow> rat option \<Rightarrow> rat" where
  "failure_delay interval n retry =
     max (max interval (failure_backoff (min 5 (n + 1)))) (case retry of None \<Rightarrow> 0 | Some q \<Rightarrow> q)"

definition blocking :: "pydict \<Rightarrow> bool" where
  "blocking resp = (dget_or resp ''error'' (PStr ''provider'') \<in> set (map PStr blocking_kinds))"

definition failure_data :: "time \<Rightarrow> rat \<Rightarrow> int \<Rightarrow> bool \<Rightarrow> pydict \<Rightarrow> pydict" where
  "failure_data wall delay n b d =
     dupdate d [(''next_poll'', PFloat (Fin (wall + delay))), (''failures'', PInt (min 5 (n + 1))), (''blocked'', PBool b)]"

lemma provider_failure_saved:
  assumes "provider_failure Fine wall resp c = (Inr (), c')"
    and "py_int (dget_or (ev_data c) ''failures'' (PInt 0)) = Inr n"
    and "number (dget resp ''retry_after'') (Some 0) None = Inr retry"
  shows "ev_data c' = failure_data wall (failure_delay (ev_interval c) n retry) n (blocking resp) (ev_data c) \<and>
    ev_file c' = Some (ev_data c') \<and> (blocking resp \<longrightarrow> \<not> ev_engine c')"
proof -
  define d where "d = failure_data wall (failure_delay (ev_interval c) n retry) n (blocking resp) (ev_data c)"
  have "c' = (if blocking resp \<or> dget_or resp ''error'' (PStr ''provider'') = PStr ''rate_limit''
      then stop_engine (c\<lparr>ev_data := d, ev_file := Some d\<rparr>) else c\<lparr>ev_data := d, ev_file := Some d\<rparr>)"
    using assms unfolding provider_failure_def evcc_save_def Let_def d_def failure_data_def failure_delay_def blocking_def
    by (simp only: rbind_simps sum.case prod.case if_True refl prod.inject simp_thms)
  then show ?thesis unfolding d_def [symmetric] by (auto simp: stop_engine_def)
qed

text \<open>
  a recorded failure waits at least the poll interval, at least the exponential backoff for its
  position in the row of failures, and at least what the provider asked for, and without such a
  request never more than the interval or six hours. A failure of authorization, configuration or
  storage stops the engine and no run of polls, closes and crashes contacts the provider again.
\<close>

theorem provider_failure_backs_off:
  assumes "provider_failure Fine wall resp c = (Inr (), c')"
    and "py_int (dget_or (ev_data c) ''failures'' (PInt 0)) = Inr n" and "0 \<le> n"
    and "number (dget resp ''retry_after'') (Some 0) None = Inr retry"
  shows "(\<exists>delay. dget (ev_data c') ''next_poll'' = PFloat (Fin (wall + delay)) \<and> ev_file c' = Some (ev_data c') \<and>
      ev_interval c \<le> delay \<and> min 21600 (1800 * 2 ^ nat (min 4 n)) \<le> delay \<and>
      (case retry of Some q \<Rightarrow> q \<le> delay | None \<Rightarrow> delay \<le> max (ev_interval c) 21600)) \<and>
    (dget_or resp ''error'' (PStr ''provider'') \<in> {PStr ''auth'', PStr ''configuration'', PStr ''storage''} \<longrightarrow>
      \<not> ev_engine c' \<and> contacts m es c' = [])"
proof -
  note saved = provider_failure_saved [OF assms(1,2,4)]
  let ?delay = "failure_delay (ev_interval c) n retry"
  have "nat (min 5 (n + 1) - 1) = nat (min 4 n)" by (simp add: min_def)
  then have b: "failure_backoff (min 5 (n + 1)) = min 21600 (1800 * 2 ^ nat (min 4 n))"
    using assms(3) by (simp add: failure_backoff_def EVCC_LOGIN_INTERVAL_def)
  have "ev_interval c \<le> ?delay" "failure_backoff (min 5 (n + 1)) \<le> ?delay"
    by (simp_all add: failure_delay_def le_max_iff_disj)
  moreover have "case retry of Some q \<Rightarrow> q \<le> ?delay | None \<Rightarrow> ?delay \<le> max (ev_interval c) 21600"
    by (auto simp: failure_delay_def b split: option.splits)
  moreover have "dget (ev_data c') ''next_poll'' = PFloat (Fin (wall + ?delay))"
    using saved by (simp add: failure_data_def)
  moreover have "shut c'" if "blocking resp"
    using saved that by (simp add: shut_def failure_data_def)
  moreover have "blocking resp" if "dget_or resp ''error'' (PStr ''provider'') \<in> {PStr ''auth'', PStr ''configuration'', PStr ''storage''}"
    using that by (auto simp: blocking_def blocking_kinds_def)
  ultimately show ?thesis using saved shut_contacts [of c' m es] unfolding b by blast
qed

theorem provider_failure_backs_off_witness:
  "\<exists>c'. provider_failure Fine 1000 [(''error'', PStr ''auth'')] demo_evcc = (Inr (), c') \<and>
     contacts flat_libm [Poll True (demo_world 900000 (Inr demo_reply)) 9] c' = []"
proof -
  obtain r c' where p: "provider_failure Fine 1000 [(''error'', PStr ''auth'')] demo_evcc = (r, c')"
    by (cases "provider_failure Fine 1000 [(''error'', PStr ''auth'')] demo_evcc")
  have "is_ok (fst (provider_failure Fine 1000 [(''error'', PStr ''auth'')] demo_evcc))" by code_simp
  with p have p': "provider_failure Fine 1000 [(''error'', PStr ''auth'')] demo_evcc = (Inr (), c')"
    by (auto simp: is_ok_iff)
  have n: "py_int (dget_or (ev_data demo_evcc) ''failures'' (PInt 0)) = Inr 0"
    "number (dget [(''error'', PStr ''auth'')] ''retry_after'') (Some 0) None = Inr None" by code_simp+
  from provider_failure_backs_off [OF p' n(1) _ n(2), of flat_libm "[Poll True (demo_world 900000 (Inr demo_reply)) 9]"] p'
  show ?thesis by (intro exI [of _ c']) simp
qed

section \<open>What is served\<close>

definition served_inv :: "libm \<Rightarrow> evcc \<Rightarrow> bool" where
  "served_inv m c = (ev_received c = None \<or>
     (\<exists>data. normalize m data (ev_vin c) (ev_capacity c) (ev_home c) = Inr (ev_snapshot c) \<and>
        dget (ev_snapshot c) ''soc'' \<noteq> PNone))"

lemma served_inv_data [simp]:
  "served_inv m (c\<lparr>ev_data := d\<rparr>) = served_inv m c" "served_inv m (c\<lparr>ev_file := f\<rparr>) = served_inv m c"
  "served_inv m (c\<lparr>ev_engine := b\<rparr>) = served_inv m c" "served_inv m (c\<lparr>ev_started := b\<rparr>) = served_inv m c"
  by (simp_all add: served_inv_def)

lemma served_inv_save [simp]: "served_inv m (snd (evcc_save f ch c)) = served_inv m c"
  by (simp add: evcc_save_def Let_def)

lemma served_inv_stop [simp]: "served_inv m (stop_engine c) = served_inv m c"
  by (simp add: stop_engine_def)

lemma served_inv_failure: "served_inv m c \<Longrightarrow> served_inv m (snd (provider_failure f wall resp c))"
  using provider_failure_cases [of f wall resp c]
  by (cases "provider_failure f wall resp c") fastforce

lemma served_inv_accept: "served_inv m c \<Longrightarrow> served_inv m (snd (accept_reading m w data c))"
  by (auto simp: accept_reading_def split: sum.splits) (auto simp: served_inv_def)

lemma served_inv_exchange: "served_inv m c \<Longrightarrow> served_inv m (snd (engine_exchange m w c))"
  by (auto simp: engine_exchange_def Let_def served_inv_accept served_inv_failure split: sum.splits pyval.splits)

lemma served_inv_after: "served_inv m c \<Longrightarrow> served_inv m (snd (after_reservation m w c))"
  using served_inv_exchange [of m c w]
  by (cases "engine_exchange m w c") (auto simp: after_reservation_def served_inv_failure split: sum.splits)

lemma served_inv_engine: "served_inv m c \<Longrightarrow> served_inv m (snd (poll_engine m w c))"
  by (cases "reserved w c")
     (simp_all add: poll_engine_reserved poll_engine_unreserved served_inv_after reserve_engine_def reserve_poll_def)

lemma served_inv_start: "served_inv m c \<Longrightarrow> start_client owner c = (r, c1) \<Longrightarrow> served_inv m c1"
  by (auto simp: start_client_def split: if_splits)

lemma served_inv_poll [inv_intros]: "served_inv m c \<Longrightarrow> served_inv m (snd (evcc_poll m owner w after c))"
  using served_inv_start [of m c owner] served_inv_engine [of m _ w]
  by (auto simp: evcc_poll_def split: sum.splits prod.splits bool.splits) (metis snd_conv)+

fun evcc_run :: "libm \<Rightarrow> evcc_event list \<Rightarrow> evcc \<Rightarrow> evcc" where
  "evcc_run m [] c = c"
| "evcc_run m (Poll owner w after # es) c = evcc_run m es (snd (evcc_poll m owner w after c))"
| "evcc_run m (Close # es) c = evcc_run m es (evcc_close c)"
| "evcc_run m (Crash # es) c = evcc_run m es (evcc_restart c)"

lemma served_inv_run: "served_inv m c \<Longrightarrow> served_inv m (evcc_run m es c)"
proof (induction m es c rule: evcc_run.induct)
  case (2 m owner w after es c)
  then show ?case by (simp add: served_inv_poll)
qed (simp_all add: evcc_close_def, simp add: served_inv_def evcc_restart_def)

interpretation evcc_cache: freshness_cache ev_received
  "\<lambda>now c. dget (evcc_result now c) ''ok'' = PBool True" ev_stale
  by unfold_locales (simp add: evcc_result_def)

lemma evcc_poll_result:
  assumes "evcc_poll m owner w after c = (Inr d, c')"
  shows "d = evcc_result after c'"
  using assms by (auto simp: evcc_poll_def split: sum.splits prod.splits bool.splits)

text \<open>
  a reading served as valid was taken less than the stale timeout ago, is what normalisation
  made of an answer of the engine, and has a state of charge between 0 and 100 percent; a failed
  or incomplete answer never becomes one.
\<close>

theorem served_readings_valid:
  assumes "ev_received c = None" and "evcc_poll m owner w after (evcc_run m es c) = (Inr d, c')"
    and "dget d ''ok'' = PBool True"
  shows "(\<exists>t. ev_received c' = Some t \<and> t \<le> after \<and> after < t + ev_stale c') \<and>
    (\<exists>data. normalize m data (ev_vin c') (ev_capacity c') (ev_home c') = Inr (ev_snapshot c')) \<and>
    dget d ''soc'' \<noteq> PNone \<and> reading_in (Some 0) (Some 100) (dget d ''soc'')"
proof -
  have "served_inv m (evcc_run m es c)" by (rule served_inv_run) (simp add: served_inv_def assms(1))
  then have inv: "served_inv m c'" using served_inv_poll [of m "evcc_run m es c" owner w after] assms(2) by simp
  have d: "d = evcc_result after c'" by (rule evcc_poll_result [OF assms(2)])
  with assms(3) have live: "\<exists>t. ev_received c' = Some t \<and> t \<le> after \<and> after < t + ev_stale c'"
    by (intro evcc_cache.live_stamp_bounds) simp
  moreover have "dget d ''soc'' = dget (ev_snapshot c') ''soc''"
    unfolding d evcc_result_def by (rule dget_dupdate_other) simp_all
  ultimately show ?thesis using inv by (auto simp: served_inv_def intro: normalize_soc)
qed

theorem served_readings_valid_witness:
  "\<exists>d c'. evcc_poll flat_libm True (demo_world 1000 (Inr demo_reply)) 950 (evcc_run flat_libm [] demo_evcc) = (Inr d, c') \<and>
     dget d ''ok'' = PBool True \<and> reading_in (Some 0) (Some 100) (dget d ''soc'')"
proof -
  let ?p = "evcc_poll flat_libm True (demo_world 1000 (Inr demo_reply)) 950 (evcc_run flat_libm [] demo_evcc)"
  have ok: "case fst ?p of Inr d \<Rightarrow> dget d ''ok'' = PBool True | Inl e \<Rightarrow> False" by code_simp
  then obtain d c' where p: "?p = (Inr d, c')" "dget d ''ok'' = PBool True"
    by (cases ?p) (auto split: sum.splits)
  have "ev_received demo_evcc = None" by (simp add: demo_evcc_def)
  from served_readings_valid [OF this p] p show ?thesis by blast
qed

end
