(* ===== verification/Control.thy ===== *)
theory Control
  imports Prelude
begin

text \<open>
  \<^verbatim>\<open>dbus_ev/control.py\<close>: the valve controller. Levels and clocks are exact numbers; \<open>None\<close> is a
  missing level.
\<close>

definition MODE_AUTO :: int where "MODE_AUTO = 0"
definition MODE_ON :: int where "MODE_ON = 1"
definition MODE_OFF :: int where "MODE_OFF = 2"

lemmas mode_defs = MODE_AUTO_def MODE_ON_def MODE_OFF_def

datatype reason = ManualOn | ManualOff | AutoOpen | AutoClose | StaleClose | Hold

record valve =
  vc_start :: rat
  vc_stop :: rat
  vc_stale_timeout :: rat
  vc_min_interval :: rat
  vc_mode :: int
  vc_last_level_time :: "time option"
  vc_desired :: bool
  vc_last_transition :: time

definition valve_init :: "time \<Rightarrow> rat \<Rightarrow> rat \<Rightarrow> rat \<Rightarrow> rat \<Rightarrow> valve res" where
  "valve_init now start stop stale_timeout min_interval =
     (if \<not> start < stop then Inl ValueError
      else Inr \<lparr>vc_start = start, vc_stop = stop, vc_stale_timeout = stale_timeout,
        vc_min_interval = min_interval, vc_mode = MODE_AUTO, vc_last_level_time = None,
        vc_desired = False, vc_last_transition = now - min_interval\<rparr>)"

definition set_mode :: "int \<Rightarrow> valve \<Rightarrow> valve" where
  "set_mode mode v = (if mode \<in> {MODE_AUTO, MODE_ON, MODE_OFF} then v\<lparr>vc_mode := mode\<rparr> else v)"

definition is_stale :: "time \<Rightarrow> valve \<Rightarrow> bool" where
  "is_stale now v =
     (case vc_last_level_time v of None \<Rightarrow> True | Some t \<Rightarrow> vc_stale_timeout v \<le> now - t)"

definition flip :: "time \<Rightarrow> bool \<Rightarrow> reason \<Rightarrow> valve \<Rightarrow> (bool \<times> reason) \<times> valve" where
  "flip now target why v =
     (if target \<noteq> vc_desired v \<and> now - vc_last_transition v < vc_min_interval v
      then ((vc_desired v, Hold), v)
      else if target \<noteq> vc_desired v
      then ((target, why), v\<lparr>vc_last_transition := now, vc_desired := target\<rparr>)
      else ((vc_desired v, why), v))"

definition valve_update :: "time \<Rightarrow> rat option \<Rightarrow> bool \<Rightarrow> valve \<Rightarrow> (bool \<times> reason) \<times> valve" where
  "valve_update now level is_fresh v =
     (let v = (if is_fresh \<and> level \<noteq> None then v\<lparr>vc_last_level_time := Some now\<rparr> else v)
      in if vc_mode v = MODE_ON then ((True, ManualOn), v)
         else if vc_mode v = MODE_OFF then ((False, ManualOff), v)
         else if is_stale now v then ((False, StaleClose), v)
         else case level of
           None \<Rightarrow> ((vc_desired v, Hold), v)
         | Some l \<Rightarrow>
             if l \<le> vc_start v then flip now True AutoOpen v
             else if vc_stop v \<le> l then flip now False AutoClose v
             else ((vc_desired v, Hold), v))"

section \<open>Fail-safe and hysteresis\<close>


definition demo_valve :: valve where
  "demo_valve = \<lparr>vc_start = 30, vc_stop = 85, vc_stale_timeout = 120, vc_min_interval = 60, vc_mode = 0,
     vc_last_level_time = None, vc_desired = False, vc_last_transition = - 60\<rparr>"


section \<open>Switching over time\<close>

datatype valve_event = SetMode int | Level time "rat option" bool

fun valve_step :: "valve_event \<Rightarrow> valve \<Rightarrow> valve" where
  "valve_step (SetMode m) v = set_mode m v"
| "valve_step (Level now level is_fresh) v = snd (valve_update now level is_fresh v)"

text \<open>The times at which the automatic command changes.\<close>

fun switches :: "valve_event list \<Rightarrow> valve \<Rightarrow> time list" where
  "switches [] v = []"
| "switches (SetMode m # es) v = switches es (set_mode m v)"
| "switches (Level now level is_fresh # es) v =
     (let v' = snd (valve_update now level is_fresh v)
      in (if vc_desired v' \<noteq> vc_desired v then [now] else []) @ switches es v')"

lemma valve_update_desired:
  assumes "snd (valve_update now level is_fresh v) = v'"
  shows "vc_min_interval v' = vc_min_interval v \<and>
    (if vc_desired v' = vc_desired v then vc_last_transition v' = vc_last_transition v
     else vc_last_transition v' = now \<and> vc_min_interval v \<le> now - vc_last_transition v)"
  using assms
  by (auto simp: valve_update_def flip_def Let_def split: if_splits option.splits)

lemma set_mode_keeps [simp]:
  "vc_min_interval (set_mode m v) = vc_min_interval v" "vc_last_transition (set_mode m v) = vc_last_transition v"
  "vc_desired (set_mode m v) = vc_desired v"
  by (simp_all add: set_mode_def)

lemma switches_after:
  "0 \<le> vc_min_interval v \<Longrightarrow> t \<in> set (switches es v) \<Longrightarrow> vc_last_transition v + vc_min_interval v \<le> t"
proof (induction es v rule: switches.induct)
  case (2 m es v)
  then show ?case by simp
next
  case (3 now level is_fresh es v)
  define v' where "v' = snd (valve_update now level is_fresh v)"
  note u = valve_update_desired [OF v'_def [symmetric]]
  have IH: "vc_last_transition v' + vc_min_interval v' \<le> t" if "t \<in> set (switches es v')"
    using 3(1) [OF v'_def] 3(2) u that by simp
  show ?case
    using 3(2,3) u IH by (cases "t \<in> set (switches es v')") (auto simp: Let_def simp flip: v'_def split: if_splits)
qed simp

text \<open>
  whatever levels, freshness flags, clock readings and mode changes arrive, any two automatic
  switches are at least the minimum switching time apart.
\<close>

theorem valve_never_chatters:
  assumes "0 \<le> vc_min_interval v"
  shows "sorted_wrt (\<lambda>a b. a + vc_min_interval v \<le> b) (switches es v)"
  using assms
proof (induction es v rule: switches.induct)
  case (2 m es v)
  then show ?case by simp
next
  case (3 now level is_fresh es v)
  define v' where "v' = snd (valve_update now level is_fresh v)"
  note u = valve_update_desired [OF v'_def [symmetric]]
  have "sorted_wrt (\<lambda>a b. a + vc_min_interval v \<le> b) (switches es v')"
    using 3(1) [OF v'_def] 3(2) u by simp
  moreover have "\<forall>t \<in> set (switches es v'). now + vc_min_interval v \<le> t" if "vc_desired v' \<noteq> vc_desired v"
    using switches_after [of v'] u that 3(2) by simp
  ultimately show ?case by (simp add: Let_def flip: v'_def)
qed simp

theorem valve_never_chatters_witness:
  "switches [Level 10 (Some 20) True, Level 20 (Some 90) True, Level 90 (Some 90) True] demo_valve = [10, 90] \<and>
   (10::rat) + vc_min_interval demo_valve \<le> 90"
proof -
  have s: "switches [Level 10 (Some 20) True, Level 20 (Some 90) True, Level 90 (Some 90) True] demo_valve = [10, 90]"
    by code_simp
  have "0 \<le> vc_min_interval demo_valve" by (simp add: demo_valve_def)
  from valve_never_chatters [OF this, of "[Level 10 (Some 20) True, Level 20 (Some 90) True, Level 90 (Some 90) True]"] s
  show ?thesis by simp
qed

text \<open>
  The fail-safe closing does not change the stored command. The first in-range reading after an
  outage is a "hold" and commands the valve open again, although no level asked for it.
\<close>

lemma hold_reopens_after_outage:
  "map fst [fst (valve_update 10 (Some 20) True demo_valve),
     fst (valve_update 200 None False (snd (valve_update 10 (Some 20) True demo_valve))),
     fst (valve_update 201 (Some 50) True (snd (valve_update 10 (Some 20) True demo_valve)))] =
   [True, False, True]"
  by code_simp

end
