(* ===== verification/Car.thy ===== *)
theory Car
  imports Py_Value
begin

text \<open>
  \<^verbatim>\<open>mbapi2020/car.py\<close>: the attributes of one vehicle and the names of the options of each group.
  A group is the dictionary of the attributes set on it; a group that no message has built yet is
  absent.
\<close>

section \<open>Options\<close>

definition ODOMETER_OPTIONS :: "string list" where
  "ODOMETER_OPTIONS = [
     ''odo'', ''distanceReset'', ''distanceStart'', ''averageSpeedReset'', ''averageSpeedStart'',
     ''drivenTimeZEReset'', ''drivenTimeReset'', ''drivenTimeStart'', ''ecoscoretotal'',
     ''ecoscorefreewhl'', ''ecoscorebonusrange'', ''ecoscoreconst'', ''ecoscoreaccel'',
     ''gasconsumptionstart'', ''gasconsumptionreset'', ''gasTankRange'', ''gasTankLevel'',
     ''gasTankLevelPercent'', ''liquidconsumptionstart'', ''liquidconsumptionreset'',
     ''liquidRangeSkipIndication'', ''outsideTemperature'', ''rangeliquid'',
     ''remoteStartTemperature'', ''serviceintervaldays'', ''serviceintervaldistance'',
     ''tanklevelpercent'', ''tankReserveLamp'', ''batteryState'', ''tankLevelAdBlue'',
     ''vehicleDataConnectionState'', ''ignitionstate'', ''oilLevel'', ''departuretime'',
     ''departureTimeWeekday'']"

definition LOCATION_OPTIONS :: "string list" where
  "LOCATION_OPTIONS = [
     ''positionLat'', ''positionLong'', ''positionHeading'']"

definition TIRE_OPTIONS :: "string list" where
  "TIRE_OPTIONS = [
     ''tirepressureRearLeft'', ''tirepressureRearRight'', ''tirepressureFrontRight'',
     ''tirepressureFrontLeft'', ''tirewarninglamp'', ''tirewarningsrdk'', ''tirewarningsprw'',
     ''tireMarkerFrontRight'', ''tireMarkerFrontLeft'', ''tireMarkerRearLeft'',
     ''tireMarkerRearRight'', ''tireWarningRollup'', ''lastTirepressureTimestamp'',
     ''tireTemperatureRearLeft'', ''tireTemperatureFrontRight'', ''tireTemperatureRearRight'',
     ''tireTemperatureFrontLeft'']"

definition WINDOW_OPTIONS :: "string list" where
  "WINDOW_OPTIONS = [
     ''windowstatusrearleft'', ''windowstatusrearright'', ''windowstatusfrontright'',
     ''windowstatusfrontleft'', ''windowStatusOverall'', ''flipWindowStatus'']"

definition DOOR_OPTIONS :: "string list" where
  "DOOR_OPTIONS = [
     ''decklidstatus'', ''doorStatusOverall'', ''doorLockStatusOverall'', ''doorlockstatusgas'',
     ''doorlockstatusvehicle'', ''doorlockstatusfrontleft'', ''doorlockstatusfrontright'',
     ''doorlockstatusrearright'', ''doorlockstatusrearleft'', ''doorlockstatusdecklid'',
     ''doorstatusrearleft'', ''doorstatusfrontright'', ''doorstatusrearright'',
     ''doorstatusfrontleft'', ''rooftopstatus'', ''sunroofstatus'', ''engineHoodStatus'',
     ''chargeFlapDCStatus'', ''chargeFlapACStatus'']"

definition ELECTRIC_OPTIONS :: "string list" where
  "ELECTRIC_OPTIONS = [
     ''rangeelectric'', ''chargeflap'', ''chargeinletcoupler'', ''chargeinletlock'',
     ''chargeCouplerACStatus'', ''chargeCouplerDCStatus'', ''chargeCouplerACLockStatus'',
     ''chargeCouplerDCLockStatus'', ''chargePrograms'', ''chargingactive'',
     ''chargingBreakClockTimer'', ''chargingstatus'', ''chargingPower'',
     ''chargingPowerEcoLimit'', ''chargingPowerRestriction'', ''departureTimeMode'',
     ''distanceElectricalReset'', ''distanceElectricalStart'', ''distanceZEReset'',
     ''distanceZEStart'', ''ecoElectricBatteryTemperature'', ''electricconsumptionstart'',
     ''electricconsumptionreset'', ''electricRatioStart'', ''electricRatioReset'',
     ''electricRatioOverall'', ''endofchargetime'', ''endofChargeTimeWeekday'',
     ''selectedChargeProgram'', ''maxrange'', ''maxSocLowerLimit'', ''maxSoc'', ''max_soc'',
     ''soc'']"

definition BINARY_SENSOR_OPTIONS :: "string list" where
  "BINARY_SENSOR_OPTIONS = [
     ''warningwashwater'', ''warningenginelight'', ''warningbrakefluid'',
     ''warningcoolantlevellow'', ''parkbrakestatus'', ''warningBrakeLiningWear'',
     ''warninglowbattery'', ''starterBatteryState'', ''liquidRangeCritical'',
     ''tankCapOpenLamp'', ''remoteStartActive'', ''engineState'']"

definition AUX_HEAT_OPTIONS :: "string list" where
  "AUX_HEAT_OPTIONS = [
     ''auxheatActive'', ''auxheatwarnings'', ''auxheatruntime'', ''auxheatstatus'',
     ''auxheatwarningsPush'', ''auxheattimeselection'', ''auxheattime1'', ''auxheattime2'',
     ''auxheattime3'']"

definition WIPER_OPTIONS :: "string list" where
  "WIPER_OPTIONS = [
     ''wiperLifetimeExceeded'', ''wiperHealthPercent'']"

definition PRE_COND_OPTIONS :: "string list" where
  "PRE_COND_OPTIONS = [
     ''precondStatus'', ''precondOperatingMode'', ''precondState'', ''precondActive'',
     ''precondError'', ''precondNow'', ''precondNowError'', ''precondDuration'',
     ''precondatdeparture'', ''precondAtDepartureDisable'', ''precondSeatFrontLeft'',
     ''precondSeatFrontRight'', ''precondSeatRearLeft'', ''precondSeatRearRight'',
     ''temperature_points_frontLeft'', ''temperature_points_frontRight'',
     ''temperature_points_rearLeft'', ''temperature_points_rearRight'']"

definition RemoteStart_OPTIONS :: "string list" where
  "RemoteStart_OPTIONS = [
     ''remoteEngine'', ''remoteStartEndtime'', ''remoteStartTemperature'']"

definition CarAlarm_OPTIONS :: "string list" where
  "CarAlarm_OPTIONS = [
     ''carAlarm'', ''carAlarmLastTime'', ''carAlarmReason'', ''collisionAlarmTimestamp'',
     ''interiorSensor'', ''lastParkEvent'', ''lastTheftWarning'', ''lastTheftWarningReason'',
     ''parkEventLevel'', ''parkEventType'', ''theftAlarmActive'', ''theftSystemArmed'',
     ''towProtectionSensorStatus'', ''towSensor'', ''interiorProtectionSensorStatus'',
     ''exteriorProtectionSensorStatus'']"

definition GeofenceEvents_OPTIONS :: "string list" where
  "GeofenceEvents_OPTIONS = [
     ''last_event_zone'', ''last_event_timestamp'', ''last_event_type'']"

lemmas option_defs = ODOMETER_OPTIONS_def LOCATION_OPTIONS_def TIRE_OPTIONS_def WINDOW_OPTIONS_def
  DOOR_OPTIONS_def ELECTRIC_OPTIONS_def BINARY_SENSOR_OPTIONS_def AUX_HEAT_OPTIONS_def
  WIPER_OPTIONS_def PRE_COND_OPTIONS_def CarAlarm_OPTIONS_def

section \<open>Attributes and cars\<close>

record car_attribute =
  ca_value :: pyval
  ca_status :: pyval
  ca_timestamp :: pyval
  ca_display :: pyval
  ca_unit :: pyval
  ca_sensor_created :: bool

definition attribute_of :: "pyval \<Rightarrow> pyval \<Rightarrow> pyval \<Rightarrow> pyval \<Rightarrow> pyval \<Rightarrow> car_attribute" where
  "attribute_of v status stamp display un =
     \<lparr>ca_value = v, ca_status = status, ca_timestamp = stamp, ca_display = display, ca_unit = un,
      ca_sensor_created = False\<rparr>"

lemma attribute_of_simps [simp]:
  "ca_value (attribute_of v st ts dv un) = v" "ca_status (attribute_of v st ts dv un) = st"
  "ca_timestamp (attribute_of v st ts dv un) = ts" "ca_display (attribute_of v st ts dv un) = dv"
  "ca_unit (attribute_of v st ts dv un) = un"
  by (simp_all add: attribute_of_def)

type_synonym group_values = "(string, car_attribute) dict"

text \<open>The last command sent to the vehicle, as the diagnostic entities show it.\<close>

record last_command =
  cmd_type :: pyval
  cmd_state :: pyval
  cmd_error_code :: pyval
  cmd_error_message :: pyval
  cmd_stamp :: pyval

record car =
  car_vin :: pyval
  car_licenseplate :: pyval
  car_partial_messages :: int
  car_full_messages :: int
  car_last_message :: int
  car_last_full :: "pydict option"
  car_mode :: string
  car_mode_stamp :: rat
  car_setup_complete :: bool
  car_groups :: "(string, group_values) dict"
  car_features :: pydict
  car_sensors :: "string list"
  car_listeners :: "nat list"
  car_owner :: pyval
  car_description :: pyval
  car_information :: pydict
  car_command :: last_command

definition new_car :: "pyval \<Rightarrow> car" where
  "new_car vin = \<lparr>car_vin = vin, car_licenseplate = PStr [], car_partial_messages = 0, car_full_messages = 0,
     car_last_message = 0, car_last_full = None, car_mode = ''push'', car_mode_stamp = 0,
     car_setup_complete = False, car_groups = [], car_features = [], car_sensors = [],
     car_listeners = [], car_owner = PBool False, car_description = PStr [], car_information = [],
     car_command = \<lparr>cmd_type = PStr [], cmd_state = PStr [], cmd_error_code = PStr [],
       cmd_error_message = PStr [], cmd_stamp = PInt 0\<rparr>\<rparr>"

definition is_owner_attr :: "car \<Rightarrow> car_attribute" where
  "is_owner_attr c = attribute_of (car_owner c) (PStr ''VALID'') PNone PNone PNone"

definition full_messages_attr :: "car \<Rightarrow> car_attribute" where
  "full_messages_attr c = attribute_of (PInt (car_full_messages c)) (PStr ''VALID'') PNone PNone PNone"

definition partial_messages_attr :: "car \<Rightarrow> car_attribute" where
  "partial_messages_attr c = attribute_of (PInt (car_partial_messages c)) (PStr ''VALID'') PNone PNone PNone"

definition data_mode_attr :: "car \<Rightarrow> car_attribute" where
  "data_mode_attr c = attribute_of (PStr (car_mode c)) (PStr ''VALID'') (PFloat (Fin (car_mode_stamp c))) PNone PNone"

text \<open>The command fields, all with the time of the command; each has a setter of its own.\<close>

definition command_attr :: "(last_command \<Rightarrow> pyval) \<Rightarrow> car \<Rightarrow> car_attribute" where
  "command_attr get c = attribute_of (get (car_command c)) (PStr ''VALID'') (cmd_stamp (car_command c)) PNone PNone"

definition last_command_type :: "car \<Rightarrow> car_attribute" where
  "last_command_type = command_attr cmd_type"

definition last_command_state :: "car \<Rightarrow> car_attribute" where
  "last_command_state = command_attr cmd_state"

definition last_command_error_code :: "car \<Rightarrow> car_attribute" where
  "last_command_error_code = command_attr cmd_error_code"

definition last_command_error_message :: "car \<Rightarrow> car_attribute" where
  "last_command_error_message = command_attr cmd_error_message"

definition set_command_type :: "pyval \<Rightarrow> car \<Rightarrow> car" where
  "set_command_type v c = c\<lparr>car_command := (car_command c)\<lparr>cmd_type := v\<rparr>\<rparr>"

definition set_command_state :: "pyval \<Rightarrow> car \<Rightarrow> car" where
  "set_command_state v c = c\<lparr>car_command := (car_command c)\<lparr>cmd_state := v\<rparr>\<rparr>"

definition set_command_error_code :: "pyval \<Rightarrow> car \<Rightarrow> car" where
  "set_command_error_code v c = c\<lparr>car_command := (car_command c)\<lparr>cmd_error_code := v\<rparr>\<rparr>"

definition set_command_error_message :: "pyval \<Rightarrow> car \<Rightarrow> car" where
  "set_command_error_message v c = c\<lparr>car_command := (car_command c)\<lparr>cmd_error_message := v\<rparr>\<rparr>"

text \<open>
  The time of the last message; \<open>local\<close> is \<^verbatim>\<open>datetime.fromtimestamp\<close>, which refuses a time out of
  range.
\<close>

definition last_message_received :: "(int \<Rightarrow> pyval res) \<Rightarrow> car \<Rightarrow> car_attribute res" where
  "last_message_received local c =
     (if 0 < car_last_message c
      then rbind (case fl (of_int (car_last_message c) / 1000) of Fin q \<Rightarrow> Inr (round_even q) | _ \<Rightarrow> Inl OverflowError)
             (\<lambda>n. rbind (local n) (\<lambda>t. Inr (attribute_of t (PStr ''VALID'') PNone PNone PNone)))
      else Inr (attribute_of PNone (PStr ''NOT_RECEIVED'') PNone PNone PNone))"

definition set_data_mode :: "string \<Rightarrow> rat \<Rightarrow> car \<Rightarrow> car" where
  "set_data_mode mode now c = c\<lparr>car_mode := mode, car_mode_stamp := now\<rparr>"

text \<open>Listeners and sensors are Python sets; the order in which listeners run is left open.\<close>

definition add_update_listener :: "nat \<Rightarrow> car \<Rightarrow> car" where
  "add_update_listener l c = c\<lparr>car_listeners := List.insert l (car_listeners c)\<rparr>"

definition remove_update_callback :: "nat \<Rightarrow> car \<Rightarrow> car" where
  "remove_update_callback l c = c\<lparr>car_listeners := removeAll l (car_listeners c)\<rparr>"

definition add_sensor :: "string \<Rightarrow> car \<Rightarrow> car" where
  "add_sensor uid c = c\<lparr>car_sensors := List.insert uid (car_sensors c)\<rparr>"

definition remove_sensor :: "string \<Rightarrow> car \<Rightarrow> car" where
  "remove_sensor uid c = c\<lparr>car_sensors := removeAll uid (car_sensors c)\<rparr>"

definition check_capabilities :: "string list \<Rightarrow> car \<Rightarrow> bool" where
  "check_capabilities required c = list_ex (\<lambda>k. dget (car_features c) k = PBool True) required"

lemma sensors_distinct: "distinct (car_sensors c) \<Longrightarrow> distinct (car_sensors (add_sensor uid c))"
  by (simp add: add_sensor_def)

text \<open>The attribute of a group that a reader gets, \<open>None\<close> where the group or the attribute is unset.\<close>

definition car_attr :: "car \<Rightarrow> string \<Rightarrow> string \<Rightarrow> car_attribute option" where
  "car_attr c grp field =
     (case map_of (car_groups c) grp of None \<Rightarrow> None | Some g \<Rightarrow> map_of g field)"

end
