(* ===== verification/Vsu_Enums.thy ===== *)
theory Vsu_Enums
  imports Prelude
begin

text \<open>
  \<^verbatim>\<open>dbus_ev/mercedes/vendor/vsu_enums.py\<close>: the names of the vehicle status enums and their protobuf
  numbers, in the order of the source.
\<close>

definition vsu_enums_1 :: "(string \<times> int) list" where
  "vsu_enums_1 = [
     (''ALL_ACTIVE'', 1),
     (''ALL_DEACTIVATED'', 3),
     (''AMG_STAGE_MODE_STATE_REVERTING_IN_PROGRESS'', 1),
     (''AMG_STAGE_MODE_STATE_STAGING_NOT_ACTIVE'', 0),
     (''AMG_STAGE_MODE_STATE_TRANSFORMATION_ABORTED'', 4),
     (''AMG_STAGE_MODE_STATE_TRANSFORMING_FINISHED_DEFAULT_POS'', 3),
     (''AMG_STAGE_MODE_STATE_TRANSFORMING_FINISHED_TRANSFORMED_POS'', 2),
     (''ASSYST_OIL_QUANTITY_ENGINE_START_REQUIRED'', 11),
     (''ASSYST_OIL_QUANTITY_ENGINE_WARMUP_REQUIRED'', 12),
     (''ASSYST_OIL_QUANTITY_MEASUREMENT_ACTIVE'', 4),
     (''ASSYST_OIL_QUANTITY_MEASUREMENT_IGNITION_ON'', 2),
     (''ASSYST_OIL_QUANTITY_NO_MEASUREMENT'', 0),
     (''ASSYST_OIL_QUANTITY_NO_MEASUREMENT_ENGINE_RUNNING'', 1),
     (''ASSYST_OIL_QUANTITY_NO_MEASUREMENT_RESULT'', 14),
     (''ASSYST_OIL_QUANTITY_OIL_OK'', 5),
     (''ASSYST_OIL_QUANTITY_OIL_REDUCED'', 6),
     (''ASSYST_OIL_QUANTITY_REFILL_0_5LTR'', 10),
     (''ASSYST_OIL_QUANTITY_REFILL_1LTR'', 7),
     (''ASSYST_OIL_QUANTITY_REFILL_1_5LTR'', 8),
     (''ASSYST_OIL_QUANTITY_REFILL_2LTR'', 9),
     (''ASSYST_OIL_QUANTITY_VEHICLE_NOT_HORIZONTAL'', 13),
     (''ASSYST_OIL_QUANTITY_WAIT'', 3),
     (''ASSYST_OIL_WARNING_ENG_STOP'', 6),
     (''ASSYST_OIL_WARNING_IDLE'', 0),
     (''ASSYST_OIL_WARNING_NOT_DEFINED'', 2),
     (''ASSYST_OIL_WARNING_OVERFILL_1'', 3),
     (''ASSYST_OIL_WARNING_REFILL_LTR'', 1),
     (''ASSYST_OIL_WARNING_SENSOR_FAULT'', 4),
     (''ASSYST_OIL_WARNING_SWTCH_MIN'', 5),
     (''AUXHEATSTATUS_HEATING_AUTO'', 6),
     (''AUXHEATSTATUS_HEATING_MANUAL'', 3),
     (''AUXHEATSTATUS_HEATING_NORMAL_MODE'', 1),
     (''AUXHEATSTATUS_INACTIVE'', 0),
     (''AUXHEATSTATUS_POST_RUNNING_HEATING'', 4),
     (''AUXHEATSTATUS_POST_RUNNING_VENTILATING'', 5),
     (''AUXHEATSTATUS_VENTILATING_NORMAL_MODE'', 2),
     (''AUXHEATTIMESELECTION_NO_TIMER'', 0),
     (''AUXHEATTIMESELECTION_TIMER_1'', 1),
     (''AUXHEATTIMESELECTION_TIMER_2'', 2),
     (''AUXHEATTIMESELECTION_TIMER_3'', 3),
     (''AUXHEATWARNING_CONFIRMATION'', 1),
     (''AUXHEATWARNING_CONFIRMATION_2'', 2),
     (''AUXHEATWARNING_NONE'', 0),
     (''AWAIT_REPROGRAMMING'', 1),
     (''AWAIT_REPROGRAMMING_STARTABLE'', 2),
     (''BAGGAGE_MODE'', 7),
     (''BATTERY_CHANGED'', 5),
     (''BATTERY_GREEN_STATE'', 0),
     (''BATTERY_HEALTH_CANNOT_BE_CALCULATED'', 6),
     (''BATTERY_RED_STATE'', 2),
     (''BATTERY_YELLOW_STATE'', 1),
     (''CALIBRATION_REQUEST_HIGH'', 2),
     (''CALIBRATION_REQUEST_LOW'', 1),
     (''CALIBRATION_REQUEST_NO_REQUEST'', 0),
     (''CAMERA_NOT_AVAILABLE'', 14),
     (''CHARGE_COUPLER'', 8),
     (''CHARGE_COUPLER_LOCK_STATUS_LOCKED'', 0),
     (''CHARGE_COUPLER_LOCK_STATUS_NOT_CLEAR'', 2),
     (''CHARGE_COUPLER_LOCK_STATUS_UNLOCKED'', 1),
     (''CHARGE_COUPLER_STATUS_NOT_PLUGGED_VEHICLE_SIDE'', 2),
     (''CHARGE_COUPLER_STATUS_PLUGGED_BOTH_SIDES'', 0),
     (''CHARGE_COUPLER_STATUS_PLUGGED_VEHICLE_SIDE'', 1),
     (''CHARGE_COUPLER_STATUS_UNKNOWN'', 3),
     (''CHARGE_COUPLER_STATUS_UNKNOWN_DUE_DEFECT'', 4),
     (''CHARGE_FLAP'', 7),
     (''CHARGE_FLAPS_POSITION_STATE_CLOSED'', 2),
     (''CHARGE_FLAPS_POSITION_STATE_DEFAULT'', 0),
     (''CHARGE_FLAPS_POSITION_STATE_FLAP_PRESSED'', 3),
     (''CHARGE_FLAPS_POSITION_STATE_OPEN'', 1),
     (''CHARGE_FLAPS_POSITION_STATE_UNKNOWN'', 4),
     (''CHARGE_FLAP_STATUS_CLOSED'', 1),
     (''CHARGE_FLAP_STATUS_FLAP_PRESSED'', 2),
     (''CHARGE_FLAP_STATUS_OPEN'', 0),
     (''CHARGE_INLETS_COUPLER_STATE_DEFECT'', 4),
     (''CHARGE_INLETS_COUPLER_STATE_PLUGGED'', 1),
     (''CHARGE_INLETS_COUPLER_STATE_UNKNOWN'', 0),
     (''CHARGE_INLETS_COUPLER_STATE_VEHICLE_NOT_PLUGGED'', 3),
     (''CHARGE_INLETS_COUPLER_STATE_VEHICLE_PLUGGED'', 2),
     (''CHARGE_INLETS_LOCK_STATE_LOCKED'', 2),
     (''CHARGE_INLETS_LOCK_STATE_LOCK_STATE_NOT_CLEAR'', 3),
     (''CHARGE_INLETS_LOCK_STATE_NOT_AVAILABLE'', 4),
     (''CHARGE_INLETS_LOCK_STATE_UNKNOWN'', 0),
     (''CHARGE_INLETS_LOCK_STATE_UNLOCKED'', 1),
     (''CHARGINGSTATUS_AC_CHARGING_ACTIVE'', 13),
     (''CHARGINGSTATUS_CHARGE_BREAK'', 2),
     (''CHARGINGSTATUS_CHARGE_CABLE_UNPLUGGED'', 3),
     (''CHARGINGSTATUS_CHARGING'', 0),
     (''CHARGINGSTATUS_CHARGING_AFTER_REACHING_TRIP_TARGET'', 10),
     (''CHARGINGSTATUS_CHARGING_ERROR'', 4),
     (''CHARGINGSTATUS_COMMUNICATION_WITH_EVSE_ACTIVE_NO_ENERGY_FLOW'', 12),
     (''CHARGINGSTATUS_DC_CHARGING_ACTIVE'', 14),
     (''CHARGINGSTATUS_DISCHARGING'', 7),
     (''CHARGINGSTATUS_END_OF_CHARGE'', 1),
     (''CHARGINGSTATUS_FAST_CHARGING'', 6),
     (''CHARGINGSTATUS_FAST_CHARGING_AFTER_REACHING_TRIP_TARGET'', 11),
     (''CHARGINGSTATUS_NO_CHARGING'', 8),
     (''CHARGINGSTATUS_SLOW_CHARGING'', 5),
     (''CHARGINGSTATUS_SLOW_CHARGING_AFTER_REACHING_TRIP_TARGET'', 9),
     (''CHARGINGSTATUS_SOH_BATTERY_CALIBRATION_ACTIVE'', 15),
     (''CHARGINGSTATUS_UNKNOWN'', 16),
     (''CHARGING_COMPATIBILITY_ERROR_BIDI_DISCHARGING_NOT_COMPATIBLE'', 6),
     (''CHARGING_COMPATIBILITY_ERROR_DEFAULT'', 0),
     (''CHARGING_COMPATIBILITY_ERROR_EVSE_MINIMUM_CURRENT'', 7),
     (''CHARGING_COMPATIBILITY_ERROR_FULL_COMPATIBILITY'', 1),
     (''CHARGING_COMPATIBILITY_ERROR_FULL_COMPATIBILITY_WITH_ADDITIONAL_HARDWARE'', 2),
     (''CHARGING_COMPATIBILITY_ERROR_NO_COMPATIBILITY'', 5),
     (''CHARGING_COMPATIBILITY_PARTIAL_COMPATIBILITY'', 3),
     (''CHARGING_COMPATIBILITY_PARTIAL_COMPATIBILITY_WITH_ADDITIONAL_DEVICE'', 4),
     (''CHARGING_COOLING_ACTIVE'', 5),
     (''CHARGING_COOLING_NOT_SUFFICIENT'', 7),
     (''CHARGING_COOLING_RECOMMENDATION'', 8),
     (''CHARGING_COOLING_SUCCESSFUL'', 6),
     (''CHARGING_ERROR_DETAILS_AC_CHARGING_DEFECT'', 17),
     (''CHARGING_ERROR_DETAILS_AC_INTERNAL_COMPONENT_DEFECT'', 7),
     (''CHARGING_ERROR_DETAILS_AUTHORIZATION_FAILED'', 8),
     (''CHARGING_ERROR_DETAILS_CHADEMO_INLET_UNLOCK_ERROR'', 5),
     (''CHARGING_ERROR_DETAILS_CHARGE_TYPE_NOT_AVAILABLE'', 4),
     (''CHARGING_ERROR_DETAILS_CHARGING_SYSTEM_DEFECT'', 15),
     (''CHARGING_ERROR_DETAILS_DC_CHARGING_DEFECT'', 16),
     (''CHARGING_ERROR_DETAILS_DC_INTERNAL_COMPONENT_DEFECT'', 6),
     (''CHARGING_ERROR_DETAILS_EVSE_DEFECT_CHANGE_CHARGING_STATION'', 2),
     (''CHARGING_ERROR_DETAILS_EVSE_DEFECT_MALFUNCTION_OF_CHARGING_STATION'', 3),
     (''CHARGING_ERROR_DETAILS_EVSE_DOES_NOT_RESPOND_EVSE_DEFECT'', 21),
     (''CHARGING_ERROR_DETAILS_EVSE_DOES_NOT_RESPOND_RECONNECT'', 19),
     (''CHARGING_ERROR_DETAILS_EVSE_DOES_NOT_RESPOND_TRY_OTHER_EVSE'', 22),
     (''CHARGING_ERROR_DETAILS_EVSE_DOES_NOT_RESPOND_USE_OTHER_AUTHENTIFICATION'', 20),
     (''CHARGING_ERROR_DETAILS_EV_INITIATED_SHUTDOWN_LONG_TIME_USAGE_LIMIT_REACHED'', 23),
     (''CHARGING_ERROR_DETAILS_INLET_UNLOCK_ERROR'', 1),
     (''CHARGING_ERROR_DETAILS_MESSAGE_10_RESERVED'', 10),
     (''CHARGING_ERROR_DETAILS_MESSAGE_11_RESERVED'', 11),
     (''CHARGING_ERROR_DETAILS_MESSAGE_12_RESERVED'', 12),
     (''CHARGING_ERROR_DETAILS_MESSAGE_13_RESERVED'', 13),
     (''CHARGING_ERROR_DETAILS_MESSAGE_9_RESERVED'', 9),
     (''CHARGING_ERROR_DETAILS_NACS_ERROR_CHARGING_STATION_NOT_COMPATIBLE'', 26),
     (''CHARGING_ERROR_DETAILS_NO_ERROR'', 0),
     (''CHARGING_ERROR_DETAILS_NO_INFO_OR_ERROR_MESSAGE'', 14),
     (''CHARGING_ERROR_DETAILS_NO_VALID_PLUG_AND_CHARGE_CERTIFICATE_AVAILABLE'', 24),
     (''CHARGING_ERROR_DETAILS_PLAYPROTECTION_ACTIVE'', 27),
     (''CHARGING_ERROR_DETAILS_REPLUG_CHARGING_CABLE'', 18),
     (''CHARGING_ERROR_DETAILS_UNKNOWN_CHARGING_ERROR_OCCURRED'', 25),
     (''CHARGING_ERROR_IMPOSSIBLE_CHANGE_TO_400V_400V_IMPOSSIBLE_STUCK_TO_800V'', 1),
     (''CHARGING_ERROR_IMPOSSIBLE_CHANGE_TO_400V_NO_INFO'', 0),
     (''CHARGING_ERROR_IMPOSSIBLE_CHANGE_TO_800V_800V_IMPOSSIBLE_STUCK_TO_400V'', 1),
     (''CHARGING_ERROR_IMPOSSIBLE_CHANGE_TO_800V_NO_INFO'', 0),
     (''CHARGING_ERROR_VEHICLE_NO_SUPPORT_400V_400V_CHARGING_NOT_POSSIBLE'', 1),
     (''CHARGING_ERROR_VEHICLE_NO_SUPPORT_400V_NO_INFO'', 0),
     (''CHARGING_FLAP_ERROR_DETAILS_BLOCKED'', 2),
     (''CHARGING_FLAP_ERROR_DETAILS_CLOSING_OF_AUTOMATED_FLAP_DEFECT'', 7),
     (''CHARGING_FLAP_ERROR_DETAILS_DRIVING_POSITION_NOT_PARKING'', 4),
     (''CHARGING_FLAP_ERROR_DETAILS_NO_INFO_OR_ERROR_MESSAGE'', 0)]"

definition vsu_enums_2 :: "(string \<times> int) list" where
  "vsu_enums_2 = [
     (''CHARGING_FLAP_ERROR_DETAILS_OPENING_DEFECT_SEARCH_WORKSHOP'', 1),
     (''CHARGING_FLAP_ERROR_DETAILS_PRESSED_DETECTION_DEFECT'', 6),
     (''CHARGING_FLAP_ERROR_DETAILS_STATE_UNKNOWN'', 5),
     (''CHARGING_HEATING_ACTIVE'', 1),
     (''CHARGING_HEATING_INACTIVE'', 0),
     (''CHARGING_HEATING_NOT_SUFFICIENT'', 3),
     (''CHARGING_HEATING_RECOMMENDATION'', 4),
     (''CHARGING_HEATING_SUCCESSFUL'', 2),
     (''CHARGING_MODE_CONDUCTIVE_AC'', 1),
     (''CHARGING_MODE_CONDUCTIVE_AC_AND_INDUCTIVE'', 3),
     (''CHARGING_MODE_CONDUCTIVE_DC'', 4),
     (''CHARGING_MODE_CONDUCTIVE_DC_AND_INDUCTIVE'', 5),
     (''CHARGING_MODE_INDUCTIVE'', 2),
     (''CHARGING_MODE_NONE'', 0),
     (''CHARGING_POWER_RESTRICTION_BATTERY_TEMPERATURE_TOO_HIGH'', 10),
     (''CHARGING_POWER_RESTRICTION_BATTERY_TEMPERATURE_TOO_LOW'', 9),
     (''CHARGING_POWER_RESTRICTION_ECO_CHARGING_ACTIVE'', 1),
     (''CHARGING_POWER_RESTRICTION_NO_RESTRICTION'', 0),
     (''CHARGING_POWER_RESTRICTION_REDUCED_DUE_TO_CHARGING_INFRASTRUCTURE'', 5),
     (''CHARGING_POWER_RESTRICTION_REDUCED_DUE_TO_CHARGING_STRATEGY'', 6),
     (''CHARGING_POWER_RESTRICTION_REDUCED_DUE_TO_CUSTOMER_SETTING'', 2),
     (''CHARGING_POWER_RESTRICTION_REDUCED_DUE_TO_REMOTE_CONTROL'', 4),
     (''CHARGING_POWER_RESTRICTION_REDUCED_DUE_TO_VEHICLE_CHARGING_SYSTEM'', 3),
     (''CHARGING_POWER_RESTRICTION_STATE_OF_CHARGE_TOO_HIGH'', 8),
     (''CHARGING_POWER_RESTRICTION_STATE_OF_CHARGE_TOO_LOW'', 7),
     (''CHARGING_SCHEDULE_ACTIVE_OFFLINE_MODE_OFF'', 1),
     (''CHARGING_SCHEDULE_ACTIVE_OFFLINE_MODE_ON'', 2),
     (''CHARGING_SCHEDULE_ACTIVE_OFFLINE_MODE_UNKNOWN'', 0),
     (''CHARGING_SCHEDULE_ACTIVE_USE_CASE_ID_AWATTAR'', 103),
     (''CHARGING_SCHEDULE_ACTIVE_USE_CASE_ID_BATTERY_FRIENDLY_CHARGING'', 20),
     (''CHARGING_SCHEDULE_ACTIVE_USE_CASE_ID_BETA_COMMUNITY_CHARGING'', 2),
     (''CHARGING_SCHEDULE_ACTIVE_USE_CASE_ID_BUSINESS_SPECIFIC_CHARGING'', 26),
     (''CHARGING_SCHEDULE_ACTIVE_USE_CASE_ID_DEBUG_MODE'', 254),
     (''CHARGING_SCHEDULE_ACTIVE_USE_CASE_ID_DEUTSCHE_POST'', 201),
     (''CHARGING_SCHEDULE_ACTIVE_USE_CASE_ID_DEVELOPER_MODE'', 252),
     (''CHARGING_SCHEDULE_ACTIVE_USE_CASE_ID_DPD'', 200),
     (''CHARGING_SCHEDULE_ACTIVE_USE_CASE_ID_DYNAMIC_LOAD_BALANCED_CHARGING'', 25),
     (''CHARGING_SCHEDULE_ACTIVE_USE_CASE_ID_ECO_FRIENDLY_CHARGING'', 13),
     (''CHARGING_SCHEDULE_ACTIVE_USE_CASE_ID_EFFICIENT_CHARGING'', 12),
     (''CHARGING_SCHEDULE_ACTIVE_USE_CASE_ID_ENPAL'', 100),
     (''CHARGING_SCHEDULE_ACTIVE_USE_CASE_ID_EXTERNAL_NOISE_OPTIMIZED_CHARGING'', 21),
     (''CHARGING_SCHEDULE_ACTIVE_USE_CASE_ID_FLEET_MANAGED_CHARGING'', 18),
     (''CHARGING_SCHEDULE_ACTIVE_USE_CASE_ID_GREEN_CHARGING'', 11),
     (''CHARGING_SCHEDULE_ACTIVE_USE_CASE_ID_HACKATHON'', 250),
     (''CHARGING_SCHEDULE_ACTIVE_USE_CASE_ID_HOME_CHARGING_PLAN'', 17),
     (''CHARGING_SCHEDULE_ACTIVE_USE_CASE_ID_INTELLIGENT_CHARGING'', 15),
     (''CHARGING_SCHEDULE_ACTIVE_USE_CASE_ID_MERCEDES_INTELLIGENT_CHARGING'', 1),
     (''CHARGING_SCHEDULE_ACTIVE_USE_CASE_ID_PEAK_SHAVING_CHARGING'', 24),
     (''CHARGING_SCHEDULE_ACTIVE_USE_CASE_ID_PREFERRED_CHARGING_TIMES'', 27),
     (''CHARGING_SCHEDULE_ACTIVE_USE_CASE_ID_PRICE_OPTIMIZED_CHARGING'', 19),
     (''CHARGING_SCHEDULE_ACTIVE_USE_CASE_ID_SANDBOX_MODE'', 251),
     (''CHARGING_SCHEDULE_ACTIVE_USE_CASE_ID_SMART_CHARGING'', 0),
     (''CHARGING_SCHEDULE_ACTIVE_USE_CASE_ID_SOLAR_CHARGING'', 10),
     (''CHARGING_SCHEDULE_ACTIVE_USE_CASE_ID_SUSTAINABLE_CHARGING'', 14),
     (''CHARGING_SCHEDULE_ACTIVE_USE_CASE_ID_TEST_MODE'', 253),
     (''CHARGING_SCHEDULE_ACTIVE_USE_CASE_ID_THE_MOBILITY_HOUSE'', 102),
     (''CHARGING_SCHEDULE_ACTIVE_USE_CASE_ID_TIBBER'', 101),
     (''CHARGING_SCHEDULE_ACTIVE_USE_CASE_ID_TIME_CONTROLLED_CHARGING'', 23),
     (''CHARGING_SCHEDULE_ACTIVE_USE_CASE_ID_TRONITY'', 104),
     (''CHARGING_SCHEDULE_ACTIVE_USE_CASE_ID_VIDEO_WATCHING_OPTIMIZED_CHARGING'', 22),
     (''CHARGING_SCHEDULE_ACTIVE_USE_CASE_ID_WORKPLACE_CHARGING_PLAN'', 16),
     (''CHARGING_SCHEDULE_USE_CASE_ID_BETA_COMMUNITY_CHARGING'', 2),
     (''CHARGING_SCHEDULE_USE_CASE_ID_MERCEDES_INTELLIGENT_CHARGING'', 1),
     (''CHARGING_SCHEDULE_USE_CASE_ID_SMART_CHARGING'', 0),
     (''CHARGING_STOP_ERROR_DETAILS_CHARGE_STOP_BUTTON_DEFECT'', 1),
     (''CHARGING_STOP_ERROR_DETAILS_NO_INFO_OR_ERROR_MESSAGE'', 0),
     (''CHARGING_TIMER_ACTION_ACTIVE'', 2),
     (''CHARGING_TIMER_ACTION_DEACTIVATED'', 1),
     (''CHARGING_TIMER_ACTION_DELETED'', 3),
     (''CHARGING_TIMER_ACTION_UNKNOWN'', 0),
     (''CHARING_COUPLER_ERROR_DETAILS_CHARGE_COUPLER_LOCK_DEFECT'', 4),
     (''CHARING_COUPLER_ERROR_DETAILS_CONTACT_SERVICE_HOTLINE_FOR_EMERGENCY_UNLOCK'', 2),
     (''CHARING_COUPLER_ERROR_DETAILS_NO_INFO_OR_ERROR_MESSAGE'', 0),
     (''CHARING_COUPLER_ERROR_DETAILS_RELIEVE_CHARGE_COUPLER_AND_RETRY'', 1),
     (''CHARING_COUPLER_ERROR_DETAILS_UNPLUG_AND_REPLUG_CHARGE_COUPLER'', 3),
     (''CHILD_PRESENCE_DETECTION_OCCUPANCY_STATUS_EMPTY'', 2),
     (''CHILD_PRESENCE_DETECTION_OCCUPANCY_STATUS_IDLE'', 0),
     (''CHILD_PRESENCE_DETECTION_OCCUPANCY_STATUS_OCCUPIED_ADULT'', 4),
     (''CHILD_PRESENCE_DETECTION_OCCUPANCY_STATUS_OCCUPIED_CHILD'', 3),
     (''CHILD_PRESENCE_DETECTION_OCCUPANCY_STATUS_PENDING'', 1),
     (''CONFIRMED_STARTED'', 9),
     (''DC_CHARGING_PROFILE_FAST_ECO_1'', 5),
     (''DC_CHARGING_PROFILE_FAST_ECO_2'', 6),
     (''DC_CHARGING_PROFILE_PITSTOP'', 4),
     (''DC_CHARGING_PROFILE_SILENT_OR_ECO'', 2),
     (''DC_CHARGING_PROFILE_STANDARD'', 1),
     (''DC_CHARGING_PROFILE_ULTRAFAST'', 3),
     (''DC_CHARGING_PROFILE_UNKNOWN'', 0),
     (''DEFAULT_CHARGE_PROGRAM'', 0),
     (''DEPARTURE_TIME_MODE_ADHOC_ACTIVE'', 1),
     (''DEPARTURE_TIME_MODE_INACTIVE'', 0),
     (''DEPARTURE_TIME_MODE_INTELLIGENT_DP_ACTV'', 4),
     (''DEPARTURE_TIME_MODE_TIMER_ACTV'', 3),
     (''DEPARTURE_TIME_MODE_WEEKLYSET_ACTIVE'', 2),
     (''DEPARTURE_WEEKLY'', 4),
     (''DIPPED_HEAD_LIGHT'', 1),
     (''DISCHARGING_COOLING_ACTIVE'', 5),
     (''DISCHARGING_COOLING_NOT_SUFFICIENT'', 7),
     (''DISCHARGING_COOLING_RECOMMENDATION'', 8),
     (''DISCHARGING_COOLING_SUCCESSFUL'', 6),
     (''DISCHARGING_HEATING_ACTIVE'', 1),
     (''DISCHARGING_HEATING_NOT_SUFFICIENT'', 3),
     (''DISCHARGING_HEATING_RECOMMENDATION'', 4),
     (''DISCHARGING_HEATING_SUCCESSFUL'', 2),
     (''DISCHARGING_INACTIVE'', 0),
     (''DOORLOCKSTATUSVEHICLE_EXTERNAL_LOCKED'', 2),
     (''DOORLOCKSTATUSVEHICLE_INTERNAL_LOCKED'', 1),
     (''DOORLOCKSTATUSVEHICLE_SELECTIVE_UNLOCKED'', 3),
     (''DOORLOCKSTATUSVEHICLE_UNLOCKED'', 0),
     (''DOORLOCKSTATUS_LOCKED'', 0),
     (''DOORLOCKSTATUS_UNLOCKED'', 1),
     (''DOORSTATUSGAS_CLOSED'', 0),
     (''DOORSTATUSGAS_ERROR'', 2),
     (''DOORSTATUSGAS_OPEN'', 1),
     (''DOORSTATUS_CLOSED'', 0),
     (''DOORSTATUS_OPEN'', 1),
     (''DOOR_STATUS_OVERALL_ALL_DOORS_CLOSED'', 1),
     (''DOOR_STATUS_OVERALL_ANY_DOOR_OPEN'', 0),
     (''DOOR_STATUS_OVERALL_UNKNOWN'', 3),
     (''DRIVING_MODE_ERROR'', 5),
     (''DRIVING_MODE_OFF'', 1),
     (''DRIVING_MODE_ON'', 2),
     (''DRIVING_MODE_PENDING_OFF'', 3),
     (''DRIVING_MODE_PENDING_ON'', 4),
     (''DRIVING_MODE_UNKNOWN'', 0),
     (''DROP_OFF'', 2),
     (''EMERGENCY_POWER_SUPPLY_OFF'', 0),
     (''EMERGENCY_POWER_SUPPLY_ON'', 1),
     (''ENGINE_HOOD_STATUS_CLOSED'', 0),
     (''ENGINE_HOOD_STATUS_OPEN'', 1),
     (''ENGINE_STATE_NOT_RUNNING'', 0),
     (''ENGINE_STATE_RUNNING'', 1),
     (''EVSE_PAIRING_STATE_BIDIRECTIONAL_POWER_TRANSFER_SERVICE_NOT_OFFERED_BY_EVSE'', 9),
     (''EVSE_PAIRING_STATE_CERTIFICATE_NOT_INSTALLED'', 7),
     (''EVSE_PAIRING_STATE_FAILED_NO_INDEX_AVAILABLE'', 4),
     (''EVSE_PAIRING_STATE_FAILED_TIMEOUT'', 3),
     (''EVSE_PAIRING_STATE_FAILED_TLS_ERROR'', 2),
     (''EVSE_PAIRING_STATE_FINISHED'', 1),
     (''EVSE_PAIRING_STATE_IDLE'', 0),
     (''EVSE_PAIRING_STATE_PAIRING_SERVICE_NOT_OFFERED_BY_EVSE'', 8),
     (''EVSE_PAIRING_STATE_PROCESS_ONGOING'', 5),
     (''EVSE_PAIRING_STATE_PROCESS_STOPPED'', 6),
     (''EXECUTIVE_MODE'', 45),
     (''EXM_AE_INCAPABLE'', 106),
     (''EXM_AE_OVERRULED'', 108),
     (''EXM_AE_PLAY_PROTECTION_ACTIVE'', 110),
     (''EXM_AE_PRECONDITION_MISSING'', 111),
     (''EXM_AE_REQUEST_DENIED'', 101),
     (''EXM_ANNOUNCE'', 4),
     (''EXM_COMPLETED'', 6)]"

definition vsu_enums_3 :: "(string \<times> int) list" where
  "vsu_enums_3 = [
     (''EXM_IDLE'', 0),
     (''EXM_RECORDING'', 3),
     (''EXM_REQUEST_SUBMITTED'', 2),
     (''EXM_UPLOADING'', 5),
     (''EXM_WAKE_UP'', 1),
     (''FAST_ECO_1'', 5),
     (''FAST_ECO_2'', 6),
     (''FILTER_PARTICLE_LOADING_HIGH'', 0),
     (''FILTER_PARTICLE_LOADING_LOW'', 2),
     (''FILTER_PARTICLE_LOADING_MEDIUM'', 1),
     (''FLIP_WINDOW_STATUS_CLOSED'', 0),
     (''FLIP_WINDOW_STATUS_OPEN'', 1),
     (''FRONT_CENTER'', 3),
     (''FRONT_LEFT'', 1),
     (''FRONT_RIGHT'', 2),
     (''FUEL_FLAP'', 6),
     (''GENERAL_PROCESS_ERROR'', 10),
     (''GENERAL_TECHNICAL_ERROR'', 9),
     (''HIGH_PRICE'', 66),
     (''HOME_CHARGE_PROGRAM'', 2),
     (''HORN_HIGH_VOLUME'', 2),
     (''HORN_LOW_VOLUME'', 1),
     (''HORN_OFF'', 0),
     (''HORN_ONLY'', 1),
     (''HV_BATTERY_PRECOND_AVAILABILITY_FULLY_AVAILABLE'', 1),
     (''HV_BATTERY_PRECOND_AVAILABILITY_LIMITED_AVAILABLE_BATTERY_TEMPERATURE'', 7),
     (''HV_BATTERY_PRECOND_AVAILABILITY_LIMITED_AVAILABLE_LOW_SOC'', 5),
     (''HV_BATTERY_PRECOND_AVAILABILITY_LIMITED_AVAILABLE_MECHATRONICS'', 6),
     (''HV_BATTERY_PRECOND_AVAILABILITY_NOT_AVAILABLE'', 0),
     (''HV_BATTERY_PRECOND_AVAILABILITY_TEMPORARILY_NOT_AVAILABLE_BATTERY_TEMPERATURE'', 4),
     (''HV_BATTERY_PRECOND_AVAILABILITY_TEMPORARILY_NOT_AVAILABLE_LOW_SOC'', 2),
     (''HV_BATTERY_PRECOND_AVAILABILITY_TEMPORARILY_NOT_AVAILABLE_MECHATRONICS'', 3),
     (''HV_BATTERY_THERMAL_PROPAGATION_NO_WARNING'', 0),
     (''HV_BATTERY_THERMAL_PROPAGATION_WARNING_1'', 1),
     (''HV_BATTERY_THERMAL_PROPAGATION_WARNING_2'', 2),
     (''HYBRID_WARNINGS_HIGH_VOLTAGE_FAULT'', 2),
     (''HYBRID_WARNINGS_NONE'', 0),
     (''HYBRID_WARNINGS_PLUGIN_ONLY'', 6),
     (''HYBRID_WARNINGS_PLUGIN_STILL_ACTIVE'', 7),
     (''HYBRID_WARNINGS_POWER_REDUCE'', 8),
     (''HYBRID_WARNINGS_POWER_TRAIN_FAULT'', 3),
     (''HYBRID_WARNINGS_SEEK_SERVICE'', 1),
     (''HYBRID_WARNINGS_STARTER_BATTERY'', 4),
     (''HYBRID_WARNINGS_STOP_ENGINE_OFF'', 9),
     (''HYBRID_WARNINGS_STOP_VEHICLE'', 5),
     (''IGNITIONSTATE_ACCESSORY'', 2),
     (''IGNITIONSTATE_LOCK'', 0),
     (''IGNITIONSTATE_OFF'', 1),
     (''IGNITIONSTATE_ON'', 4),
     (''IGNITIONSTATE_START'', 5),
     (''INITIALLY_CONNECTED'', 1),
     (''INM_ACTIVE_BURSTMODE'', 108),
     (''INM_ANNOUNCE'', 4),
     (''INM_CAMERA_BROKEN'', 101),
     (''INM_COMPLETED'', 6),
     (''INM_IDLE'', 0),
     (''INM_MEMORY_FULL'', 103),
     (''INM_PICTURE_TAKEN'', 3),
     (''INM_PICTURE_TAKING_DISABLED'', 106),
     (''INM_PICTURE_TAKING_INTERRUPTED'', 110),
     (''INM_PRIVACY_MODE_ACTIVE'', 105),
     (''INM_RECORDING'', 2),
     (''INM_UPLOADING'', 5),
     (''INM_WAKE_UP'', 1),
     (''INSTANT_CHARGE_PROGRAM'', 1),
     (''INTERIOR_PROTECTION_ACTIVATION_STATUS_INIT'', 2),
     (''INTERIOR_PROTECTION_ACTIVATION_STATUS_OFF'', 0),
     (''INTERIOR_PROTECTION_ACTIVATION_STATUS_ON'', 1),
     (''INTERIOR_PROTECTION_SELECTION_STATUS_DESELETED'', 0),
     (''INTERIOR_PROTECTION_SELECTION_STATUS_SELECTED'', 1),
     (''INT_TEST'', 3),
     (''INVALID_JWT'', 1),
     (''INVALID_JWT_ERROR'', 2),
     (''INVALID_PRICE'', 0),
     (''ISSUE_WITH_DATA_EVALUATION'', 3),
     (''KEY_ACTIVATION_STATE_ALL_ACTIVE'', 1),
     (''KEY_ACTIVATION_STATE_ALL_DEACTIVATED'', 3),
     (''KEY_ACTIVATION_STATE_SELECTIVE_DEACTIVATED'', 2),
     (''KEY_ACTIVATION_STATE_UNKNOWN'', 0),
     (''KG_PER_100KM'', 1),
     (''KM_PER_H'', 1),
     (''KM_PER_HOUR'', 1),
     (''KM_PER_KG'', 2),
     (''KM_PER_KWH'', 2),
     (''KM_PER_LITER'', 2),
     (''KWH_PER_100KM'', 1),
     (''KWH_PER_100MI'', 3),
     (''LANGUAGE_HU_ARABIC'', 13),
     (''LANGUAGE_HU_BULGARIAN'', 25),
     (''LANGUAGE_HU_CHINESE'', 14),
     (''LANGUAGE_HU_CROATIAN'', 27),
     (''LANGUAGE_HU_CZECH'', 20),
     (''LANGUAGE_HU_DANISH'', 8),
     (''LANGUAGE_HU_DUTCH'', 7),
     (''LANGUAGE_HU_ENGLISH_AM'', 15),
     (''LANGUAGE_HU_ENGLISH_IMP'', 1),
     (''LANGUAGE_HU_ENGLISH_MET'', 6),
     (''LANGUAGE_HU_FINNISH'', 18),
     (''LANGUAGE_HU_FRENCH'', 2),
     (''LANGUAGE_HU_GERMAN'', 0),
     (''LANGUAGE_HU_GREEK'', 36),
     (''LANGUAGE_HU_HEBREW'', 35),
     (''LANGUAGE_HU_HUNGARIAN'', 29),
     (''LANGUAGE_HU_INDONESIAN'', 24),
     (''LANGUAGE_HU_ITALIAN'', 3),
     (''LANGUAGE_HU_JAPANESE'', 5),
     (''LANGUAGE_HU_KOREAN'', 17),
     (''LANGUAGE_HU_MALAYAN'', 31),
     (''LANGUAGE_HU_NORWEGIAN'', 22),
     (''LANGUAGE_HU_POLISH'', 19),
     (''LANGUAGE_HU_PORTUGUESE'', 11),
     (''LANGUAGE_HU_PORTUGUESE_BRAZIL'', 21),
     (''LANGUAGE_HU_ROMANIAN'', 33),
     (''LANGUAGE_HU_RUSSIAN'', 12),
     (''LANGUAGE_HU_SERBIAN'', 28),
     (''LANGUAGE_HU_SLOVAKIAN'', 26),
     (''LANGUAGE_HU_SLOVENIAN'', 37),
     (''LANGUAGE_HU_SPANISH'', 4),
     (''LANGUAGE_HU_SWEDISH'', 9),
     (''LANGUAGE_HU_THAI'', 23),
     (''LANGUAGE_HU_TRAD_CHINESE'', 16),
     (''LANGUAGE_HU_TRAD_CHINESE_TW'', 34),
     (''LANGUAGE_HU_TURKISH'', 10),
     (''LANGUAGE_HU_UKRAINIAN'', 30),
     (''LANGUAGE_HU_VIETNAMESE'', 32),
     (''LAST_THEFT_WARNING_REASON_AMBIGUOUS'', 60),
     (''LAST_THEFT_WARNING_REASON_BASIS_ALARM'', 16),
     (''LAST_THEFT_WARNING_REASON_CENTERBOX'', 28),
     (''LAST_THEFT_WARNING_REASON_CENTRAL_LOCKING'', 48),
     (''LAST_THEFT_WARNING_REASON_CHILD_PRESENCE_1'', 46),
     (''LAST_THEFT_WARNING_REASON_CHILD_PRESENCE_2'', 47),
     (''LAST_THEFT_WARNING_REASON_COMMON_ALM_IN'', 23),
     (''LAST_THEFT_WARNING_REASON_DECKLID'', 22),
     (''LAST_THEFT_WARNING_REASON_DOOR_FRONT_LEFT'', 17),
     (''LAST_THEFT_WARNING_REASON_DOOR_FRONT_RIGHT'', 18),
     (''LAST_THEFT_WARNING_REASON_DOOR_REAR_LEFT'', 19),
     (''LAST_THEFT_WARNING_REASON_DOOR_REAR_RIGHT'', 20),
     (''LAST_THEFT_WARNING_REASON_EXT_ITS_1'', 42),
     (''LAST_THEFT_WARNING_REASON_EXT_ITS_2'', 43),
     (''LAST_THEFT_WARNING_REASON_EXT_ITS_3'', 44),
     (''LAST_THEFT_WARNING_REASON_EXT_ITS_4'', 45),
     (''LAST_THEFT_WARNING_REASON_FLIP_WINDOW'', 30),
     (''LAST_THEFT_WARNING_REASON_GLOVEBOX'', 27),
     (''LAST_THEFT_WARNING_REASON_HOLD_COM'', 37),
     (''LAST_THEFT_WARNING_REASON_HOOD'', 21),
     (''LAST_THEFT_WARNING_REASON_ITS'', 33),
     (''LAST_THEFT_WARNING_REASON_ITS_SLV'', 34),
     (''LAST_THEFT_WARNING_REASON_NO_ALARM'', 0),
     (''LAST_THEFT_WARNING_REASON_PANIC'', 26),
     (''LAST_THEFT_WARNING_REASON_REARBOX'', 29)]"

definition vsu_enums_4 :: "(string \<times> int) list" where
  "vsu_enums_4 = [
     (''LAST_THEFT_WARNING_REASON_REMOTE'', 38),
     (''LAST_THEFT_WARNING_REASON_SENSOR_VTA'', 32),
     (''LAST_THEFT_WARNING_REASON_SIREN'', 36),
     (''LAST_THEFT_WARNING_REASON_TPS'', 35),
     (''LIGHT_AND_HORN'', 2),
     (''LIGHT_OFF'', 0),
     (''LIGHT_ONLY'', 0),
     (''LITER_PER_100KM'', 1),
     (''LOW_PRICE'', 33),
     (''MAIN_CATEGORY_CONTAINER_APPLICATION'', 5),
     (''MAIN_CATEGORY_DIAGNOSTICS'', 3),
     (''MAIN_CATEGORY_HMI'', 1),
     (''MAIN_CATEGORY_REMOTE'', 4),
     (''MAIN_CATEGORY_SERVER'', 0),
     (''MAIN_CATEGORY_VEHICLE_SYSTEM'', 2),
     (''MANUAL_TEST'', 4),
     (''METHOD_COND_REQ_TO_REACH_TARGET_POWER'', 1),
     (''METHOD_COND_REQ_TO_REACH_TARGET_TEMP'', 0),
     (''METHOD_OMIT_CONDITIONING_REQUEST'', 2),
     (''METHOD_SET_CONFIGURATION'', 3),
     (''MPG_UK'', 3),
     (''MPG_US'', 4),
     (''M_PER_H'', 2),
     (''M_PER_HOUR'', 2),
     (''M_PER_KG'', 3),
     (''M_PER_KWH'', 4),
     (''NORMAL_PRICE'', 44),
     (''NOT_DEFINED'', 0),
     (''NO_ACTION_SELECTED'', 0),
     (''NO_DC_CHARGING_PROFILE_SELECTED'', 0),
     (''NO_EVALUATION_POSSIBLE'', 4),
     (''NO_MB_ORIGINAL_BATTERY'', 7),
     (''NO_MESSAGE_ACTIVE'', 0),
     (''NO_SELECTION'', 0),
     (''NO_SOH_CALIBRATION_ACTIVATION_SELECTED'', 0),
     (''NO_WARNING'', 0),
     (''NO_WARNING_INITIAL'', 0),
     (''NO_WARNING_NO_EVENT'', 7),
     (''OIL_WARNING_LEVEL_NOT_AVAILABLE'', 3),
     (''OIL_WARNING_LEVEL_OK'', 1),
     (''OIL_WARNING_LEVEL_OVERFILL'', 0),
     (''OIL_WARNING_LEVEL_UNDERFILL'', 2),
     (''ONBOARD_FENCES'', 1),
     (''PANIC_ALARM'', 3),
     (''PANIC_ALARM_ACTIVE_CONFIRMED'', 0),
     (''PANIC_ALARM_ACTIVE_NOT_YET_CONFIRMED'', 1),
     (''PARKBRAKESTATUS_ENGAGED'', 1),
     (''PARKBRAKESTATUS_NOT_ENGAGED'', 0),
     (''PARK_COLLISION_ACTIVATION_STATUS_INIT'', 2),
     (''PARK_COLLISION_ACTIVATION_STATUS_OFF'', 0),
     (''PARK_COLLISION_ACTIVATION_STATUS_ON'', 1),
     (''PARK_COLLISION_INACTIVE_REASON_COLLISION_LIMIT'', 5),
     (''PARK_COLLISION_INACTIVE_REASON_CONVERTIBLE_TOP_OPEN'', 7),
     (''PARK_COLLISION_INACTIVE_REASON_DESELECTED'', 4),
     (''PARK_COLLISION_INACTIVE_REASON_DISABLED'', 0),
     (''PARK_COLLISION_INACTIVE_REASON_MONITORING_TIME'', 6),
     (''PARK_COLLISION_INACTIVE_REASON_SYSTEM_ACTIVE'', 2),
     (''PARK_COLLISION_INACTIVE_REASON_TEST1'', 8),
     (''PARK_COLLISION_INACTIVE_REASON_TEST2'', 9),
     (''PARK_COLLISION_INACTIVE_REASON_TRUNK_OR_DOOR_OPEN'', 3),
     (''PARK_COLLISION_INACTIVE_REASON_WAIT_FOR_SYSTEM_ACTIVATION'', 1),
     (''PARK_COLLISION_PICTURE_TRANSFER_STATUS_DESELETED'', 0),
     (''PARK_COLLISION_PICTURE_TRANSFER_STATUS_SELECTED'', 1),
     (''PARK_COLLISION_SELECTION_STATUS_DESELETED'', 0),
     (''PARK_COLLISION_SELECTION_STATUS_SELECTED'', 1),
     (''PARK_EVENT_LEVEL_HIGH'', 2),
     (''PARK_EVENT_LEVEL_LOW'', 0),
     (''PARK_EVENT_LEVEL_MEDIUM'', 1),
     (''PARK_EVENT_PICTURE_SELECTION_STATUS_NOT_SELECTED'', 0),
     (''PARK_EVENT_PICTURE_SELECTION_STATUS_SELECTED'', 1),
     (''PARK_EVENT_PICTURE_TRANSMISSION_STATUS_ANNOUNCE'', 4),
     (''PARK_EVENT_PICTURE_TRANSMISSION_STATUS_COMPLETED'', 6),
     (''PARK_EVENT_PICTURE_TRANSMISSION_STATUS_IDLE'', 0),
     (''PARK_EVENT_PICTURE_TRANSMISSION_STATUS_RECORDING'', 3),
     (''PARK_EVENT_PICTURE_TRANSMISSION_STATUS_REQUEST_SUBMITTED'', 2),
     (''PARK_EVENT_PICTURE_TRANSMISSION_STATUS_UPLOADING'', 5),
     (''PARK_EVENT_PICTURE_TRANSMISSION_STATUS_WAKE_UP'', 1),
     (''PARK_EVENT_SENSOR_STATUS_ACTIVE'', 2),
     (''PARK_EVENT_SENSOR_STATUS_NOT_ACTIVE_SELECTED'', 0),
     (''PARK_EVENT_SENSOR_STATUS_NOT_ACTIVE_UNSELECTED'', 1),
     (''PARK_EVENT_TYPE_DIRECTION_UNKNOWN'', 9),
     (''PARK_EVENT_TYPE_FRONT_LEFT'', 1),
     (''PARK_EVENT_TYPE_FRONT_MIDDLE'', 2),
     (''PARK_EVENT_TYPE_FRONT_RIGHT'', 3),
     (''PARK_EVENT_TYPE_IDLE'', 0),
     (''PARK_EVENT_TYPE_LEFT'', 8),
     (''PARK_EVENT_TYPE_REAR_LEFT'', 7),
     (''PARK_EVENT_TYPE_REAR_MIDDLE'', 6),
     (''PARK_EVENT_TYPE_REAR_RIGHT'', 5),
     (''PARK_EVENT_TYPE_RIGHT'', 4),
     (''PEOPLE_AND_BAGGAGE_MODE'', 47),
     (''PET_MODE_INFO_LEVEL_ERROR'', 2),
     (''PET_MODE_INFO_LEVEL_INFO'', 0),
     (''PET_MODE_INFO_LEVEL_WARN'', 1),
     (''PET_MODE_INFO_TYPE_ERROR_WARNING'', 14),
     (''PET_MODE_INFO_TYPE_RANGE_WARNING_50_KILOMETERS'', 13),
     (''PET_MODE_INFO_TYPE_RANGE_WARNING_55_KILOMETERS'', 12),
     (''PET_MODE_INFO_TYPE_RUNTIME_NOTICE_120_MINUTES'', 10),
     (''PET_MODE_INFO_TYPE_RUNTIME_NOTICE_150_MINUTES'', 11),
     (''PET_MODE_INFO_TYPE_RUNTIME_NOTICE_60_MINUTES'', 8),
     (''PET_MODE_INFO_TYPE_RUNTIME_NOTICE_90_MINUTES'', 9),
     (''PET_MODE_INFO_TYPE_RUNTIME_WARNING_10_MINUTES'', 1),
     (''PET_MODE_INFO_TYPE_RUNTIME_WARNING_120_MINUTES'', 5),
     (''PET_MODE_INFO_TYPE_RUNTIME_WARNING_150_MINUTES'', 6),
     (''PET_MODE_INFO_TYPE_RUNTIME_WARNING_180_MINUTES'', 7),
     (''PET_MODE_INFO_TYPE_RUNTIME_WARNING_30_MINUTES'', 2),
     (''PET_MODE_INFO_TYPE_RUNTIME_WARNING_60_MINUTES'', 3),
     (''PET_MODE_INFO_TYPE_RUNTIME_WARNING_90_MINUTES'', 4),
     (''PET_MODE_INFO_TYPE_TEMPERATURE_WARNING'', 0),
     (''PET_MODE_STATUS_ACTIVE'', 2),
     (''PET_MODE_STATUS_INACTIVE'', 0),
     (''PET_MODE_STATUS_MALFUNCTION'', 5),
     (''PET_MODE_STATUS_PARTIALLY_ACTIVE'', 1),
     (''PET_MODE_STATUS_RANGE_EXCEEDED'', 4),
     (''PET_MODE_STATUS_RUNTIME_EXCEEDED'', 3),
     (''PICK_UP'', 1),
     (''PICTURE_RECORDING_STATUS_ACTIVE'', 1),
     (''PICTURE_RECORDING_STATUS_NOT_ACTIVE'', 0),
     (''PICTURE_TRANSFER_SELECTION_STATUS_NOT_SELECTED'', 0),
     (''PICTURE_TRANSFER_SELECTION_STATUS_SELECTED'', 1),
     (''PLM_ERROR'', 5),
     (''PLM_INCAPABLE'', 6),
     (''PLM_NOT_AUTHORIZED'', 4),
     (''PLM_NO_WARNING'', 0),
     (''PLM_REQUESTED'', 2),
     (''PLM_SUCCESSFUL_REQUESTED'', 3),
     (''PRECONDATDEPARTURE_ACTIVE'', 1),
     (''PRECONDATDEPARTURE_INACTIVE'', 0),
     (''PRECOND_ERROR_BATTERY_LOW_FUEL_LOW'', 1),
     (''PRECOND_ERROR_CHARGING_NOT_FINISHED'', 3),
     (''PRECOND_ERROR_ENERGY_BUDGET_LOW'', 5),
     (''PRECOND_ERROR_INTERNAL_ERROR'', 4),
     (''PRECOND_ERROR_NO_ERROR'', 0),
     (''PRECOND_ERROR_OPEN_WINDOWS_DOORS'', 6),
     (''PRECOND_ERROR_PLAY_PROTECTION'', 2),
     (''PRECOND_ERROR_REGULAR_CLIMATIZATION_ACTIVE'', 7),
     (''PRECOND_ERROR_STATE_LOW_BUDGET'', 3),
     (''PRECOND_ERROR_STATE_NO_ENERGY_BUDGET_AVAILABLE'', 2),
     (''PRECOND_ERROR_STATE_NO_ERROR'', 0),
     (''PRECOND_ERROR_STATE_PLAY_PROTECTION'', 1),
     (''PRECOND_ERROR_STATE_PRECONDITIONING_ABORTED'', 5),
     (''PRECOND_ERROR_STATE_REGULAR_CLIMATIZATION_ACTIVE'', 6),
     (''PRECOND_ERROR_STATE_SYSTEM_NOT_AVAILABLE'', 4),
     (''PRECOND_NOW_ACTIVE'', 1),
     (''PRECOND_NOW_INACTIVE'', 0),
     (''PRECOND_OPERATING_MODE_COOL'', 2),
     (''PRECOND_OPERATING_MODE_HEAT'', 1),
     (''PRECOND_OPERATING_MODE_OFF'', 0),
     (''PRECOND_OPERATING_MODE_VENTILATE'', 3),
     (''PRECOND_SEAT_OFF'', 0)]"

definition vsu_enums_5 :: "(string \<times> int) list" where
  "vsu_enums_5 = [
     (''PRECOND_SEAT_ON'', 1),
     (''PRECOND_STATE_TYPE_AT_DEPARTURE_TIME'', 1),
     (''PRECOND_STATE_TYPE_CHILD_PRESENCE_DETECTION'', 3),
     (''PRECOND_STATE_TYPE_IMMEDIATE'', 2),
     (''PRECOND_STATE_TYPE_ON_UNLOCK'', 0),
     (''PROTECTION_ACTIVATION_STATUS_INIT'', 2),
     (''PROTECTION_ACTIVATION_STATUS_OFF'', 0),
     (''PROTECTION_ACTIVATION_STATUS_ON'', 1),
     (''PROTECTION_SENSOR_STATUS_ACTIVE'', 1),
     (''PROTECTION_SENSOR_STATUS_NOT_ACTIVE'', 0),
     (''RANGE_SKIP_INDICATION_DISPLAY'', 0),
     (''RANGE_SKIP_INDICATION_SKIP'', 1),
     (''REAR_2_CENTER'', 9),
     (''REAR_2_LEFT'', 7),
     (''REAR_2_RIGHT'', 8),
     (''REAR_CENTER'', 6),
     (''REPROG_ACTIVE'', 3),
     (''ROOFTOPSTATUS_CLOSED_AND_LOCKED'', 2),
     (''ROOFTOPSTATUS_OPEN_AND_LOCKED'', 1),
     (''ROOFTOPSTATUS_UNLOCKED'', 0),
     (''SEATBALLET_POSITION_STATE_ABORT'', 2),
     (''SEATBALLET_POSITION_STATE_FINISHED'', 3),
     (''SEATBALLET_POSITION_STATE_GET'', 4),
     (''SEATBALLET_POSITION_STATE_OFF'', 0),
     (''SEATBALLET_POSITION_STATE_RUN'', 1),
     (''SELECTED_CHARGE_PROGRAM_AC_API_REMOTE_SCHEDULE'', 12),
     (''SELECTED_CHARGE_PROGRAM_AC_DC_BATTERY_CALIBRATION'', 13),
     (''SELECTED_CHARGE_PROGRAM_AC_DC_DIN_ISO_15118_2_SCHEDULED'', 11),
     (''SELECTED_CHARGE_PROGRAM_AC_DC_OPPORTUNITY_V1X'', 9),
     (''SELECTED_CHARGE_PROGRAM_AC_DC_STANDARD'', 4),
     (''SELECTED_CHARGE_PROGRAM_AC_DC_STANDARD_V1X_RANGE_ASSIST_MODE'', 5),
     (''SELECTED_CHARGE_PROGRAM_AC_EV_TIMER'', 10),
     (''SELECTED_CHARGE_PROGRAM_DC_CP_V2X_CHADEMO'', 6),
     (''SELECTED_CHARGE_PROGRAM_DC_CP_V2X_ISO_15118_20_DYNAMIC'', 7),
     (''SELECTED_CHARGE_PROGRAM_DC_CP_V2X_ISO_15118_20_SCHEDULED'', 8),
     (''SELECTED_CHARGE_PROGRAM_DEFAULT'', 0),
     (''SELECTED_CHARGE_PROGRAM_HOME'', 2),
     (''SELECTED_CHARGE_PROGRAM_INSTANT'', 1),
     (''SELECTED_CHARGE_PROGRAM_WORK'', 3),
     (''SELECTIVE_DEACTIVATED'', 2),
     (''SERVICE_PREREQUISITE'', 4),
     (''SILENT_ECO'', 2),
     (''SILENT_ESCALATION'', 3),
     (''SINGLE_DEPARTURE'', 1),
     (''SMART_CHARGING_AT_DEPARTURE_ACTIVE'', 1),
     (''SMART_CHARGING_AT_DEPARTURE_NOT_ACTIVE'', 0),
     (''SMART_CHARGING_COMMUNICATION_ACTIVE'', 1),
     (''SMART_CHARGING_ON_OFF_PEAK_SETTING_ACTIVE'', 2),
     (''SMART_CHARGING_WALLBOX_ACTIVE'', 0),
     (''SOC_CALIBRATION_REQUEST_HIGH_REQUEST'', 2),
     (''SOC_CALIBRATION_REQUEST_LOW_REQUEST'', 1),
     (''SOC_CALIBRATION_REQUEST_NO_REQUEST'', 0),
     (''SOH_CALIBRATION_NOTIFICATIONS_NO_SOH_CALIBRATION_NECESSARY'', 0),
     (''SOH_CALIBRATION_NOTIFICATIONS_SEND_NOTIFICATION_LEVEL_1'', 1),
     (''SOH_CALIBRATION_NOTIFICATIONS_SEND_NOTIFICATION_LEVEL_2'', 2),
     (''SOH_CALIBRATION_NOTIFICATIONS_SEND_NOTIFICATION_LEVEL_3'', 3),
     (''SOH_CALIBRATION_NOTIFICATIONS_SEND_NOTIFICATION_LEVEL_4'', 4),
     (''SOH_CALIBRATION_NOT_PLANNED'', 0),
     (''SOH_CALIBRATION_NOT_REQUIRED'', 0),
     (''SOH_CALIBRATION_PLANNED'', 1),
     (''SOH_CALIBRATION_REQUEST_HIGH_REQUEST'', 2),
     (''SOH_CALIBRATION_REQUEST_LOW_REQUEST'', 1),
     (''SOH_CALIBRATION_REQUEST_NO_REQUEST'', 0),
     (''SOH_CALIBRATION_REQUIRED'', 1),
     (''SOH_CALIBRATION_STATE_ACTIVE'', 1),
     (''SOH_CALIBRATION_STATE_BMS_TEMPERATURE_ERROR'', 4),
     (''SOH_CALIBRATION_STATE_BMS_UNDEFINED_ERROR'', 3),
     (''SOH_CALIBRATION_STATE_CHARGING_INFRASTRUCTURE_POWER_REDUCTION_ERROR'', 10),
     (''SOH_CALIBRATION_STATE_CHARGING_INFRASTRUCTURE_PROTOCOL_ERROR'', 9),
     (''SOH_CALIBRATION_STATE_CHARGING_PROCESS_CANCELLED_ERROR'', 8),
     (''SOH_CALIBRATION_STATE_NOT_ACTIVE'', 0),
     (''SOH_CALIBRATION_STATE_NOT_ENOUGH_TIME_UNTIL_DEPARTURE_ERROR'', 6),
     (''SOH_CALIBRATION_STATE_NO_CUSTOMER_PERMISSION_ERROR'', 5),
     (''SOH_CALIBRATION_STATE_SUCCESSFUL'', 2),
     (''SOH_CALIBRATION_STATE_UNDEFINED_ERROR'', 11),
     (''SOH_CALIBRATION_STATE_USER_CANCELLED_ERROR'', 7),
     (''SOH_FAVORABLE_CONDITIONS_FAVOURABLE_LEVEL_1'', 1),
     (''SOH_FAVORABLE_CONDITIONS_FAVOURABLE_LEVEL_2'', 2),
     (''SOH_FAVORABLE_CONDITIONS_NOT_FAVORABLE'', 0),
     (''SPECIFIC_CATEGORY_PRECONDITIONING_BUTTON'', 1),
     (''SPECIFIC_CATEGORY_UNKNOWN'', 0),
     (''SPEED_UNIT_FROM_IC_KM_H'', 0),
     (''SPEED_UNIT_FROM_IC_MPH'', 1),
     (''STANDARD_MODE'', 39),
     (''STARTER_BATTERY_STATE_GREEN'', 0),
     (''STARTER_BATTERY_STATE_GREEN_YELLOW'', 4),
     (''STARTER_BATTERY_STATE_ORANGE'', 3),
     (''STARTER_BATTERY_STATE_RED'', 2),
     (''STARTER_BATTERY_STATE_YELLOW'', 1),
     (''STATE_BATTERY_LEVEL_LOW'', 4),
     (''STATE_CONDITIONING_NOT_NECESSARY'', 2),
     (''STATE_OK'', 0),
     (''STATE_TIME_NOT_SUFFICIENT'', 3),
     (''STATE_UNSPECIFIED_ERROR'', 1),
     (''SUB_CATEGORY_BATTERY_CONDITIONING'', 1),
     (''SUB_CATEGORY_UNKNOWN'', 0),
     (''SUNROOFSTATUS_CLOSED'', 0),
     (''SUNROOFSTATUS_COMPLETE_OPEN'', 1),
     (''SUNROOFSTATUS_LIFTING_OPEN'', 2),
     (''SUNROOFSTATUS_RUNNING'', 3),
     (''SUNROOF_EVENT_AUTOMATIC_LIFT_POSITION'', 2),
     (''SUNROOF_EVENT_NONE'', 0),
     (''SUNROOF_EVENT_RAIN_LIFT_POSITION'', 1),
     (''SUNROOF_EVENT_VENTILATION_POSITION'', 3),
     (''SUNROOF_STATUS_BLIND_COMPLETELY_CLOSED'', 2),
     (''SUNROOF_STATUS_BLIND_COMPLETELY_OPENED'', 1),
     (''SUNROOF_STATUS_BLIND_INTERMEDIATE'', 0),
     (''SUNROOF_STATUS_BLIND_OPENING'', 3),
     (''SVH_EVENT_MANAGED'', 1),
     (''TARGET_DOES_NOT_EXIST'', 3),
     (''TCU_CONNECTION_STATE_LOW_CHANNEL_DISCONNECTED'', 3),
     (''TCU_CONNECTION_STATE_LOW_CHANNEL_INITIALLY_CONNECTED'', 1),
     (''TCU_CONNECTION_STATE_LOW_CHANNEL_RECONNECTED'', 2),
     (''TCU_CONNECTION_STATE_LOW_CHANNEL_UNKNOWN'', 0),
     (''TCU_CONNECTION_STATE_LOW_CHANNEL_UNPLANNED_DISCONNECTED'', 4),
     (''TCU_THERMO_SHUT_DOWN_ACTIVE'', 2),
     (''TCU_THERMO_SHUT_DOWN_NOT_ACTIVE'', 1),
     (''TCU_THERMO_SHUT_DOWN_UNKNOWN'', 0),
     (''TECHNICAL_LIMITATION_FROM_VEHICLE'', 8),
     (''TEMPERATURE_UNIT_HU_CELSIUS'', 0),
     (''TEMPERATURE_UNIT_HU_FAHRENHEIT'', 1),
     (''TIME_1'', 1),
     (''TIME_2'', 2),
     (''TIME_3'', 3),
     (''TIME_FORMAT_HU_12_HOURS'', 0),
     (''TIME_FORMAT_HU_24_HOURS'', 1),
     (''TIREWARNINGLAMP_BLINKING_THEN_CONSTANT'', 2),
     (''TIREWARNINGLAMP_CONSTANT_LIGHT'', 1),
     (''TIREWARNINGLAMP_NO_COMBI_MESSAGE'', 0),
     (''TIREWARNINGSPRW_NO_WARNING'', 0),
     (''TIREWARNINGSPRW_WARNING'', 1),
     (''TIREWARNINGSRDK_DEFLATION'', 3),
     (''TIREWARNINGSRDK_LOW_PRESSURE'', 2),
     (''TIREWARNINGSRDK_NO_WARNING'', 0),
     (''TIREWARNINGSRDK_SOFT_WARNING'', 1),
     (''TIRE_MARKER_DEFLATION'', 3),
     (''TIRE_MARKER_LOW_PRESSURE'', 2),
     (''TIRE_MARKER_MARK'', 4),
     (''TIRE_MARKER_NO_WARNING'', 0),
     (''TIRE_MARKER_SOFT_WARNING'', 1),
     (''TIRE_SENSOR_AVAILABLE_ALL_LOCATED'', 0),
     (''TIRE_SENSOR_AVAILABLE_ALL_MISSING'', 2),
     (''TIRE_SENSOR_AVAILABLE_AUTOLOCATE_ERROR'', 4),
     (''TIRE_SENSOR_AVAILABLE_ONE_TO_THREE_MISSING'', 1),
     (''TIRE_SENSOR_AVAILABLE_SYSTEM_ERROR'', 3),
     (''TIRE_WARNING_LEVEL_PRW_GO_TO_WORKSHOP'', 2),
     (''TIRE_WARNING_LEVEL_PRW_NO_WARNING'', 0),
     (''TIRE_WARNING_LEVEL_PRW_WARNING'', 1),
     (''TOW_PROTECTION_ACTIVATION_STATUS_INIT'', 2),
     (''TOW_PROTECTION_ACTIVATION_STATUS_OFF'', 0)]"

definition vsu_enums_6 :: "(string \<times> int) list" where
  "vsu_enums_6 = [
     (''TOW_PROTECTION_ACTIVATION_STATUS_ON'', 1),
     (''TOW_PROTECTION_SELECTION_STATUS_DESELETED'', 0),
     (''TOW_PROTECTION_SELECTION_STATUS_SELECTED'', 1),
     (''TRACKING_STATE_HU_OFF'', 0),
     (''TRACKING_STATE_HU_ON'', 1),
     (''UNKNOWN_DOOR'', 0),
     (''UNKNOWN_DRIVE_TYPE'', 0),
     (''UNKNOWN_ERROR'', 0),
     (''UNKNOWN_KEYLINE_ACTIVATION_STATE'', 0),
     (''UNKNOWN_OPERATING_SYSTEM'', 0),
     (''UNKNOWN_TCU_CONNECTION_STATE'', 0),
     (''UNKNOWN_ZEV_PRECONDITIONING_COMMAND_TYPE'', 0),
     (''UNKNOWN_ZONE'', 0),
     (''UNPLANNED_DISCONNECTED'', 4),
     (''UNSPECIFIED_CLOCK_HOUR_UNIT'', 0),
     (''UNSPECIFIED_COMBUSTION_CONSUMPTION_UNIT'', 0),
     (''UNSPECIFIED_DISTANCE_UNIT'', 0),
     (''UNSPECIFIED_ELECTRICITY_CONSUMPTION_UNIT'', 0),
     (''UNSPECIFIED_GAS_CONSUMPTION_UNIT'', 0),
     (''UNSPECIFIED_PRESSURE_UNIT'', 0),
     (''UNSPECIFIED_RATIO_UNIT'', 0),
     (''UNSPECIFIED_SPEED_DISTANCE_UNIT'', 0),
     (''UNSPECIFIED_SPEED_UNIT'', 0),
     (''UNSPECIFIED_TEMPERATURE_UNIT'', 0),
     (''UPDATE_STATUS_UNKNOWN'', 0),
     (''USER_PIN'', 3),
     (''USER_PROFILE_PICTURE'', 5),
     (''VALUE_INVALID'', 3),
     (''VALUE_NOT_AVAILABLE'', 4),
     (''VALUE_NOT_RECEIVED'', 1),
     (''VALUE_VALID'', 0),
     (''VEHICLE_DATA_CONNECTION_STATE_CONNECTED'', 1),
     (''VEHICLE_DATA_CONNECTION_STATE_DISCONNECTED'', 0),
     (''VEHICLE_HEALTH_STATUS_GREEN'', 0),
     (''VEHICLE_HEALTH_STATUS_RED'', 2),
     (''VEHICLE_HEALTH_STATUS_YELLOW'', 1),
     (''VEHICLE_POSITION_ERROR_CODE_IGNITION_ON'', 4),
     (''VEHICLE_POSITION_ERROR_CODE_OK'', 5),
     (''VEHICLE_POSITION_ERROR_CODE_PARKED'', 3),
     (''VEHICLE_POSITION_ERROR_CODE_SERVICE_INACTIVE'', 1),
     (''VEHICLE_POSITION_ERROR_CODE_TRACKING_INACTIVE'', 2),
     (''VEHICLE_POSITION_ERROR_CODE_UNKNOWN'', 0),
     (''VEHICLE_READY_AUTOMATIC_SHUTDOWN_ON_LOCK'', 1),
     (''VEHICLE_READY_AUTOMATIC_SHUTDOWN_ON_TIMEOUT'', 2),
     (''VEHICLE_THEFT_ALARM_INACTIVE_REASON_NO_ERROR'', 0),
     (''VEHICLE_THEFT_ALARM_INACTIVE_REASON_SENSOR'', 3),
     (''VEHICLE_THEFT_ALARM_INACTIVE_REASON_SIREN_BAT'', 2),
     (''VEHICLE_THEFT_ALARM_INACTIVE_REASON_SIREN_COM'', 1),
     (''WARNINGWASHWATER_INACTIVE'', 0),
     (''WARNINGWASHWATER_TRIGGERED'', 1),
     (''WARNING_ACTIVE_BATTERY_LOW'', 3),
     (''WARNING_ACTIVE_ECALL_NOT_AVAILABLE'', 12),
     (''WARNING_ACTIVE_ECALL_NOT_AVAILABLE_PUSH_NOTIFICATION'', 13),
     (''WARNING_ACTIVE_ECALL_SOON'', 4),
     (''WARNING_ACTIVE_ECALL_TRANSMITTED'', 5),
     (''WARNING_ACTIVE_TEMPERATURE_DECREASE'', 1),
     (''WARNING_ACTIVE_TEMPERATURE_INCREASE'', 2),
     (''WARNING_DEACTIVATED'', 6),
     (''WARNING_DEACTIVATED_BATTERY'', 9),
     (''WARNING_DEACTIVATED_ERROR'', 10),
     (''WARNING_DEACTIVATED_UNLOCK'', 11),
     (''WARNING_DELAYED'', 8),
     (''WARNING_LEVEL_ACTIVE_ECALL_NOT_AVAILABLE'', 7),
     (''WARNING_LEVEL_ACTIVE_ECALL_NOT_AVAILABLE_SECOND_STAGE'', 11),
     (''WARNING_LEVEL_ACTIVE_ECALL_SOON'', 5),
     (''WARNING_LEVEL_ACTIVE_ECALL_TRANSMITTED'', 6),
     (''WARNING_LEVEL_ACTIVE_NO_ECALL_ESC'', 10),
     (''WARNING_LEVEL_ACTIVE_NO_ECALL_SIL_ESC'', 9),
     (''WARNING_LEVEL_DEACTIVATED_ERROR'', 4),
     (''WARNING_LEVEL_DELAYED'', 8),
     (''WARNING_LIGHT'', 2),
     (''WEEKDAY_FRIDAY'', 4),
     (''WEEKDAY_MONDAY'', 0),
     (''WEEKDAY_SATURDAY'', 5),
     (''WEEKDAY_SUNDAY'', 6),
     (''WEEKDAY_THURSDAY'', 3),
     (''WEEKDAY_TUESDAY'', 1),
     (''WEEKDAY_WEDNESDAY'', 2),
     (''WEEKLY_DEPARTURE'', 2),
     (''WEEKLY_PROFILE_SCHEDULE_TYPE_NON_RECURRING'', 0),
     (''WEEKLY_PROFILE_SCHEDULE_TYPE_NON_RECURRING_AUTO_DELETE'', 2),
     (''WEEKLY_PROFILE_SCHEDULE_TYPE_RECURRING'', 1),
     (''WINDOWSTATUS_AIRING_POSITION'', 3),
     (''WINDOWSTATUS_COMPLETELY_CLOSED'', 2),
     (''WINDOWSTATUS_COMPLETELY_OPENED'', 1),
     (''WINDOWSTATUS_INTERMEDIATE'', 0),
     (''WINDOW_STATUS_BLIND_COMPLETELY_CLOSED'', 2),
     (''WINDOW_STATUS_BLIND_COMPLETELY_OPENED'', 1),
     (''WINDOW_STATUS_BLIND_INTERMEDIATE'', 0),
     (''WINDOW_STATUS_OVERALL_AIRING'', 3),
     (''WINDOW_STATUS_OVERALL_CLOSED'', 1),
     (''WINDOW_STATUS_OVERALL_COMPLETELY_OPEN'', 2),
     (''WINDOW_STATUS_OVERALL_OPEN'', 0),
     (''WORK_CHARGE_PROGRAM'', 3)]"

definition VSU_ENUM_VALUE_TO_INT :: "(string \<times> int) list" where
  "VSU_ENUM_VALUE_TO_INT = vsu_enums_1 @ vsu_enums_2 @ vsu_enums_3 @ vsu_enums_4 @ vsu_enums_5 @ vsu_enums_6"

end
