(* ===== verification/Vsu.thy ===== *)
theory Vsu
  imports Vsu_Enums Py_Value
begin

text \<open>
  \<^verbatim>\<open>dbus_ev/mercedes/vendor/vsu_helper.py\<close>: the status message of newer vehicles rewritten into
  the shape of the older one. Timestamps arrive in the text form of protobuf's JSON mapping, an
  RFC 3339 date and time; \<open>iso_epoch\<close> reads that form, which is what \<^verbatim>\<open>datetime.fromisoformat\<close>
  is applied to.
\<close>

section \<open>Dates\<close>

text \<open>Days since 1970-01-01 in the proleptic Gregorian calendar, counting years from March.\<close>

definition days_from_civil :: "int \<Rightarrow> int \<Rightarrow> int \<Rightarrow> int" where
  "days_from_civil y m d =
     (let y' = (if m \<le> 2 then y - 1 else y); era = y' div 400; yoe = y' mod 400;
          doy = (153 * ((m + 9) mod 12) + 2) div 5 + d - 1
      in era * 146097 + yoe * 365 + yoe div 4 - yoe div 100 + doy - 719468)"

definition leap :: "int \<Rightarrow> bool" where
  "leap y = (y mod 4 = 0 \<and> (y mod 100 \<noteq> 0 \<or> y mod 400 = 0))"

definition days_in_month :: "int \<Rightarrow> int \<Rightarrow> int" where
  "days_in_month y m = (if m = 2 then (if leap y then 29 else 28) else if m \<in> {4, 6, 9, 11} then 30 else 31)"

text \<open>A pattern of \<open>#\<close> for a digit and literal characters, and the numbers its digit groups spell.\<close>

fun match_digits :: "string \<Rightarrow> string \<Rightarrow> string \<Rightarrow> string list \<Rightarrow> string list option" where
  "match_digits [] [] grp acc = Some (rev (rev grp # acc))"
| "match_digits (p # ps) (c # cs) grp acc =
     (if p = CHR ''#'' then if is_digit c then match_digits ps cs (c # grp) acc else None
      else if p = c then match_digits ps cs [] (rev grp # acc) else None)"
| "match_digits _ _ _ _ = None"

definition digit_fields :: "string \<Rightarrow> string \<Rightarrow> int list option" where
  "digit_fields pattern text = map_option (map int_of_digits) (match_digits pattern text [] [])"

text \<open>The offset \<open>+hh:mm\<close> or \<open>-hh:mm\<close> in seconds.\<close>

definition iso_offset :: "string \<Rightarrow> int option" where
  "iso_offset s =
     (case split_sign s of (neg, body) \<Rightarrow>
        if length s = length body then None
        else case digit_fields ''##:##'' body of
          Some [h, m] \<Rightarrow> if h < 24 \<and> m < 60 then Some ((if neg then - 1 else 1) * (h * 3600 + m * 60)) else None
        | _ \<Rightarrow> None)"

definition iso_epoch :: "string \<Rightarrow> int option" where
  "iso_epoch s =
     (let base = take 19 s; rest = drop 19 s;
          frac = (case rest of c # cs \<Rightarrow> if c = CHR ''.'' then takeWhile is_digit cs else [] | [] \<Rightarrow> []);
          tail = (case rest of c # cs \<Rightarrow> if c = CHR ''.'' then dropWhile is_digit cs else rest | [] \<Rightarrow> []);
          dotted = startswith rest ''.''
      in if dotted \<and> frac = [] then None
         else case (digit_fields ''####-##-##T##:##:##'' base, iso_offset tail) of
           (Some [y, mo, d, h, mi, sec], Some off) \<Rightarrow>
             if 1 \<le> y \<and> 1 \<le> mo \<and> mo \<le> 12 \<and> 1 \<le> d \<and> d \<le> days_in_month y mo \<and> h < 24 \<and> mi < 60 \<and> sec < 60
             then let t = days_from_civil y mo d * 86400 + h * 3600 + mi * 60 + sec - off
                  in Some (if t < 0 \<and> list_ex (\<lambda>c. c \<noteq> CHR ''0'') (take 6 frac) then t + 1 else t)
             else None
         | _ \<Rightarrow> None)"

definition iso_to_epoch_seconds :: "pyval \<Rightarrow> int option res" where
  "iso_to_epoch_seconds stamp =
     (if \<not> truthy stamp then Inr None
      else case stamp of
        PStr s \<Rightarrow> Inr (iso_epoch (if s \<noteq> [] \<and> last s = CHR ''Z'' then replace_str ''Z'' ''+00:00'' s else s))
      | _ \<Rightarrow> Inl AttributeError)"

section \<open>Keys\<close>

definition VSU_UNIT_TO_LEGACY_KEY :: "(string \<times> string) list" where
  "VSU_UNIT_TO_LEGACY_KEY = [
     (''KILOMETERS'', ''distance_unit''), (''MILES'', ''distance_unit''),
     (''KPA'', ''pressure_unit''), (''BAR'', ''pressure_unit''), (''PSI'', ''pressure_unit''),
     (''KM_PER_HOUR'', ''speed_unit''), (''M_PER_HOUR'', ''speed_unit''),
     (''PERCENT'', ''ratio_unit''),
     (''KWH_PER_100KM'', ''electricity_consumption_unit''), (''KWH_PER_100MI'', ''electricity_consumption_unit''),
     (''M_PER_KWH'', ''electricity_consumption_unit''), (''KM_PER_KWH'', ''electricity_consumption_unit''),
     (''MPGE'', ''electricity_consumption_unit''),
     (''LITER_PER_100KM'', ''combustion_consumption_unit''), (''MPG_US'', ''combustion_consumption_unit''),
     (''MPG_UK'', ''combustion_consumption_unit''), (''KM_PER_LITER'', ''combustion_consumption_unit''),
     (''KG_PER_100KM'', ''gas_consumption_unit''), (''KM_PER_KG'', ''gas_consumption_unit''),
     (''M_PER_KG'', ''gas_consumption_unit''),
     (''CELSIUS'', ''temperature_unit''), (''FAHRENHEIT'', ''temperature_unit''),
     (''T12H'', ''clock_hour_unit''), (''T24H'', ''clock_hour_unit'')]"

definition VSU_KEY_OVERRIDES :: "(string \<times> string) list" where
  "VSU_KEY_OVERRIDES = [(''tire_press_meas_timestamp'', ''lastTirepressureTimestamp'')]"

definition VSU_STATUS_TO_LEGACY :: pydict where
  "VSU_STATUS_TO_LEGACY =
     [(''VALUE_NOT_RECEIVED'', PStr ''NOT_RECEIVED''), (''VALUE_INVALID'', PInt 3), (''VALUE_NOT_AVAILABLE'', PInt 4)]"

definition VSU_DEFAULT_OMITTED_VALUES :: pydict where
  "VSU_DEFAULT_OMITTED_VALUES =
     [(''precondNow'', PInt 0), (''precondActive'', PBool False), (''precondOperatingMode'', PInt 0)]"

definition capitalize_first :: "string \<Rightarrow> string" where
  "capitalize_first p = upper (take 1 p) @ drop 1 p"

definition snake_to_camel :: "string \<Rightarrow> string" where
  "snake_to_camel name =
     (case split_char (CHR ''_'') name of
        [] \<Rightarrow> []
      | [p] \<Rightarrow> p
      | p # ps \<Rightarrow> p @ concat (map capitalize_first (filter (\<lambda>q. q \<noteq> []) ps)))"

definition vsu_key_to_legacy :: "string \<Rightarrow> string" where
  "vsu_key_to_legacy key =
     (case map_of VSU_KEY_OVERRIDES key of Some k \<Rightarrow> k | None \<Rightarrow> snake_to_camel key)"

section \<open>Values\<close>

definition map_enum :: "pyval \<Rightarrow> pyval" where
  "map_enum v = (case v of
     PStr s \<Rightarrow> (case map_of VSU_ENUM_VALUE_TO_INT s of Some n \<Rightarrow> PInt n | None \<Rightarrow> v)
   | _ \<Rightarrow> v)"

fun typed_value :: "pyval \<Rightarrow> pydict \<Rightarrow> pydict" where
  "typed_value (PBool b) d = dset ''bool_value'' (PBool b) d"
| "typed_value (PInt n) d = dset ''int_value'' (PStr (show_int n)) d"
| "typed_value (PFloat f) d = dset ''double_value'' (PFloat f) d"
| "typed_value (PStr s) d =
     (let stripped = strip s
      in if isdigit (lstrip_char (CHR ''-'') stripped) then dset ''int_value'' (PStr stripped) d
         else case parse_float stripped of None \<Rightarrow> d | Some f \<Rightarrow> dset ''double_value'' (PFloat f) d)"
| "typed_value _ d = d"

definition normalize_scalar_value :: "pyval \<Rightarrow> pydict \<Rightarrow> pydict" where
  "normalize_scalar_value v legacy =
     (let v = map_enum v in typed_value v (dset ''value'' v legacy))"

fun is_list :: "pyval \<Rightarrow> bool" where
  "is_list (PList _) = True"
| "is_list _ = False"

definition prediction_keys :: "string list" where
  "prediction_keys = [''chargingPredictionFullSoc'', ''chargingPredictionMaxSoc'',
     ''chargingPredictionMinSoc'', ''chargingPredictionTargetSoc'']"

definition normalize_value :: "string \<Rightarrow> pyval \<Rightarrow> pydict \<Rightarrow> pydict" where
  "normalize_value key v legacy =
     (if v = PNone then legacy
      else if key = ''chargeFlaps'' \<and> is_list v then dset ''charge_flaps'' (PDict [(''entries'', v)]) legacy
      else if key = ''chargeInlets'' \<and> is_list v then dset ''charge_inlets'' (PDict [(''entries'', v)]) legacy
      else if key = ''chargingPowerRestriction'' \<and> is_list v
        then dset ''charging_power_restrictions'' (PDict [(''charging_power_restriction'', v)]) legacy
      else if key = ''chargePrograms'' \<and> is_list v
        then dset ''charge_programs_value'' (PDict [(''charge_program_parameters'', v)]) legacy
      else if key = ''temperaturePoints'' \<and> is_list v
        then dset ''temperature_points_value'' (PDict [(''temperature_points'', v)]) legacy
      else if key = ''chargingBreakClockTimer'' \<and> is_dict v then dset ''chargingbreak_clocktimer_value'' v legacy
      else if key \<in> set prediction_keys \<and> is_dict v then dset ''charging_prediction_soc'' v legacy
      else normalize_scalar_value v legacy)"

section \<open>Attributes\<close>

text \<open>A lookup with a value as key: a list or dictionary is unhashable.\<close>

definition lookup_value :: "(string \<times> 'a) list \<Rightarrow> pyval \<Rightarrow> 'a option res" where
  "lookup_value tab v = (case v of
     PStr s \<Rightarrow> Inr (map_of tab s) | PList _ \<Rightarrow> Inl TypeError | PDict _ \<Rightarrow> Inl TypeError | _ \<Rightarrow> Inr None)"

definition with_timestamp :: "int option \<Rightarrow> pydict \<Rightarrow> pydict" where
  "with_timestamp epoch d = (case epoch of None \<Rightarrow> d
     | Some e \<Rightarrow> dset ''timestamp_in_ms'' (PStr (show_int (e * 1000))) (dset ''timestamp'' (PStr (show_int e)) d))"

definition with_status :: "pyval \<Rightarrow> pydict \<Rightarrow> pydict res" where
  "with_status st d =
     (if \<not> truthy st then Inr d
      else rbind (lookup_value VSU_STATUS_TO_LEGACY st)
        (\<lambda>m. Inr (dset ''status'' (case m of Some v \<Rightarrow> v | None \<Rightarrow> st) d)))"

definition with_unit :: "pyval \<Rightarrow> pydict \<Rightarrow> pydict res" where
  "with_unit un d =
     (if \<not> truthy un then Inr d
      else rbind (lookup_value VSU_UNIT_TO_LEGACY_KEY un)
        (\<lambda>m. Inr (dset (case m of Some k \<Rightarrow> k | None \<Rightarrow> ''unit'') un d)))"

definition with_display :: "pyval \<Rightarrow> pydict \<Rightarrow> pydict" where
  "with_display dv d = (if dv = PNone then d else dset ''display_value'' dv d)"

definition default_omitted :: "string \<Rightarrow> pyval \<Rightarrow> pyval \<Rightarrow> pyval" where
  "default_omitted key metadata raw =
     (if raw = PNone \<and> truthy metadata \<and> haskey VSU_DEFAULT_OMITTED_VALUES key
      then dget VSU_DEFAULT_OMITTED_VALUES key else raw)"

definition or_empty :: "pyval \<Rightarrow> pyval" where
  "or_empty v = (if truthy v then v else PDict [])"

definition normalize_attribute :: "string \<Rightarrow> pyval \<Rightarrow> (string \<times> pydict) option res" where
  "normalize_attribute key attr = (case attr of
     PDict a \<Rightarrow>
       (let legacy_key = vsu_key_to_legacy key; metadata = or_empty (dget a ''metadata'')
        in rbind (vget metadata ''timestamp'') (\<lambda>ts.
           rbind (iso_to_epoch_seconds ts) (\<lambda>epoch.
           rbind (vget metadata ''status'') (\<lambda>st.
           rbind (with_status st (with_timestamp epoch [])) (\<lambda>d.
           rbind (with_unit (dget a ''unit'') d) (\<lambda>d.
             Inr (Some (legacy_key,
               normalize_value legacy_key (default_omitted legacy_key metadata (dget a ''value''))
                 (with_display (dget a ''display_value'') d)))))))))
   | _ \<Rightarrow> Inr None)"

fun normalize_entries :: "(string \<times> pyval) list \<Rightarrow> pydict \<Rightarrow> pydict res" where
  "normalize_entries [] attributes = Inr attributes"
| "normalize_entries ((key, raw) # rest) attributes =
     (if key = ''fin_or_vin'' \<or> key = ''full_update'' then normalize_entries rest attributes
      else rbind (normalize_attribute key raw) (\<lambda>n.
        normalize_entries rest
          (case n of None \<Rightarrow> attributes | Some (k, a) \<Rightarrow> dset k (PDict a) attributes)))"

definition normalize_vsu_car :: "pydict \<Rightarrow> pydict res" where
  "normalize_vsu_car car =
     rbind (normalize_entries car []) (\<lambda>attributes.
       Inr [(''vin'', dget car ''fin_or_vin''),
            (''full_update'', PBool (truthy (dget_or car ''full_update'' (PBool False)))),
            (''attributes'', PDict attributes)])"

end
