(* ===== verification/Decoder.thy ===== *)
theory Decoder
  imports Car Vsu
begin

text \<open>
  \<^verbatim>\<open>mbapi2020/decoder.py\<close> (the same code is vendored under \<^verbatim>\<open>dbus_ev/mercedes/vendor\<close>): a
  vehicle message decoded into the attribute groups of a car. A handler sees the attributes of the
  message, the group built so far and the last full message of the car. The local clock that two
  handlers read is a parameter.
\<close>

section \<open>Context\<close>

text \<open>The local date as days since 1970-01-01, the seconds of the day, the UTC offset as text.\<close>

record local_clock =
  lc_days :: int
  lc_seconds :: rat
  lc_offset :: string
  lc_epoch :: rat

record decoder =
  dc_cars :: "(pyval \<times> car) list"
  dc_ignition :: "(pyval \<times> bool) list"
  dc_excluded :: "pyval list"

definition new_decoder :: decoder where
  "new_decoder = \<lparr>dc_cars = [], dc_ignition = [], dc_excluded = []\<rparr>"

text \<open>What a handler reads: the attributes, the group, the last full message of the known car.\<close>

record handler_env =
  he_attrs :: pydict
  he_group :: group_values
  he_update :: bool
  he_last_full :: "pydict option"
  he_clock :: local_clock

type_synonym handler = "handler_env \<Rightarrow> string \<Rightarrow> car_attribute option res"

definition STATE_UNKNOWN :: pyval where
  "STATE_UNKNOWN = PStr ''unknown''"

definition valid :: pyval where
  "valid = PStr ''VALID''"

definition missing_attribute :: "pyval \<Rightarrow> car_attribute" where
  "missing_attribute v = attribute_of v (PInt 4) (PInt 0) PNone PNone"

text \<open>\<^verbatim>\<open>d.get(k, {})\<close> followed by another \<^verbatim>\<open>get\<close>.\<close>

definition vget_dict :: "pyval \<Rightarrow> string \<Rightarrow> pyval res" where
  "vget_dict v k = vget_or v k (PDict [])"

definition last_attributes :: "pydict \<Rightarrow> pyval" where
  "last_attributes m = dget_or m ''attributes'' (PDict [])"

section \<open>The generic handler\<close>

definition first_key :: "string list \<Rightarrow> pydict \<Rightarrow> pyval \<Rightarrow> pyval" where
  "first_key ks d dflt = (case find (haskey d) ks of None \<Rightarrow> dflt | Some k \<Rightarrow> dget d k)"

definition unit_keys :: "string list" where
  "unit_keys = [''distance_unit'', ''ratio_unit'', ''clock_hour_unit'', ''gas_consumption_unit'', ''pressure_unit'',
     ''electricity_consumption_unit'', ''combustion_consumption_unit'', ''speed_unit'']"

definition value_keys :: "string list" where
  "value_keys = [''value'', ''int_value'', ''double_value'', ''bool_value'']"

definition handle_generic :: handler where
  "handle_generic e option =
     (let curr = dget (he_attrs e) option
      in if truthy curr
         then (case curr of
             PDict c \<Rightarrow> Inr (Some (attribute_of (first_key value_keys c (PInt 0)) (dget_or c ''status'' valid)
               (dget_or c ''timestamp'' (PInt 0)) (dget c ''display_value'') (first_key unit_keys c PNone)))
           | _ \<Rightarrow> Inl AttributeError)
         else Inr (if he_update e then None else Some (missing_attribute (PInt 0))))"

section \<open>Charging limits\<close>

definition group_value :: "group_values \<Rightarrow> string \<Rightarrow> pyval \<Rightarrow> pyval" where
  "group_value g k dflt = (case map_of g k of None \<Rightarrow> dflt | Some a \<Rightarrow> ca_value a)"

fun index0 :: "pyval \<Rightarrow> pyval res" where
  "index0 (PList (x # xs)) = Inr x"
| "index0 (PList []) = Inl IndexError"
| "index0 (PStr (c # cs)) = Inr (PStr [c])"
| "index0 (PStr []) = Inl IndexError"
| "index0 (PDict d) = Inl KeyError"
| "index0 _ = Inl TypeError"

fun py_len :: "pyval \<Rightarrow> int res" where
  "py_len (PList xs) = Inr (int (length xs))"
| "py_len (PDict d) = Inr (int (length d))"
| "py_len (PStr s) = Inr (int (length s))"
| "py_len _ = Inl TypeError"

fun index_at :: "pyval \<Rightarrow> int \<Rightarrow> pyval res" where
  "index_at (PList xs) n = (if 0 \<le> n \<and> n < int (length xs) then Inr (xs ! nat n) else Inl IndexError)"
| "index_at (PStr s) n = (if 0 \<le> n \<and> n < int (length s) then Inr (PStr [s ! nat n]) else Inl IndexError)"
| "index_at (PDict d) n = Inl KeyError"
| "index_at _ n = Inl TypeError"

definition max_soc_from_programs :: "pyval \<Rightarrow> group_values \<Rightarrow> car_attribute option res" where
  "max_soc_from_programs programs g =
     rbind (vget_or programs ''timestamp'' (PInt 0)) (\<lambda>stamp.
     rbind (vget_dict programs ''charge_programs_value'') (\<lambda>pv.
     rbind (vget_or pv ''charge_program_parameters'' (PList [])) (\<lambda>params.
     rbind (py_int (group_value g ''selectedChargeProgram'' (PInt 0))) (\<lambda>i.
     rbind (if 0 \<le> i then py_len params else Inr 0) (\<lambda>n.
       if 0 \<le> i \<and> i < n
       then rbind (index_at params i) (\<lambda>p. rbind (vget p ''max_soc'') (\<lambda>m.
              Inr (if m = PNone then None
                   else Some (attribute_of m valid stamp m (PStr ''PERCENT'')))))
       else Inr None)))))"

definition handle_max_soc :: handler where
  "handle_max_soc e option =
     (let programs = dget (he_attrs e) ''chargePrograms''
      in if truthy programs then max_soc_from_programs programs (he_group e)
         else if \<not> truthy (dget (he_attrs e) ''selectedChargeProgram'') then Inr None
         else case he_last_full e of
             None \<Rightarrow> Inr None
           | Some last_full \<Rightarrow>
               if last_full = [] then Inr None
               else rbind (vget (last_attributes last_full) ''chargePrograms'') (\<lambda>programs.
                 if truthy programs then max_soc_from_programs programs (he_group e) else Inr None))"

section \<open>Flaps, inlets, programs\<close>

text \<open>
  The first entry of a list attribute: \<open>outer\<close> is the attribute, \<open>inner\<close> its container, \<open>field\<close> the
  state looked up in \<open>names\<close>, unknown where it is not there.
\<close>

definition handle_entry :: "string \<Rightarrow> string \<Rightarrow> string \<Rightarrow> (string \<times> string) list \<Rightarrow> handler_env \<Rightarrow> car_attribute option res" where
  "handle_entry outer inner field names e =
     (let curr = dget (he_attrs e) outer
      in if \<not> truthy curr then Inr None
         else rbind (vget_dict curr inner) (\<lambda>container.
              rbind (vget_or container ''entries'' (PList [])) (\<lambda>values.
              if \<not> truthy values then Inr None
              else rbind (vget_or curr ''status'' valid) (\<lambda>status.
                   rbind (vget_or curr ''timestamp'' (PInt 0)) (\<lambda>stamp.
                   rbind (index0 values) (\<lambda>first.
                   rbind (vget first field) (\<lambda>v.
                     Inr (if v = PNone then None
                          else Some (attribute_of
                            (case v of PStr s \<Rightarrow> (case map_of names s of Some t \<Rightarrow> PStr t | None \<Rightarrow> STATE_UNKNOWN)
                             | _ \<Rightarrow> STATE_UNKNOWN) status stamp PNone PNone))))))))) "

definition flap_names :: "(string \<times> string) list" where
  "flap_names = [(''CHARGE_FLAPS_POSITION_STATE_OPEN'', ''open''), (''CHARGE_FLAPS_POSITION_STATE_CLOSED'', ''closed''),
     (''CHARGE_FLAPS_POSITION_STATE_FLAP_PRESSED'', ''pressed''), (''CHARGE_FLAPS_POSITION_STATE_UNKNOWN'', ''unknown'')]"

definition handle_chargeflap :: handler where
  "handle_chargeflap e option = handle_entry ''chargeFlaps'' ''charge_flaps'' ''position_state'' flap_names e"

definition coupler_names :: "(string \<times> string) list" where
  "coupler_names = [(''CHARGE_INLETS_COUPLER_STATE_PLUGGED'', ''plugged''),
     (''CHARGE_INLETS_COUPLER_STATE_VEHICLE_PLUGGED'', ''vehicle plugged''),
     (''CHARGE_INLETS_COUPLER_STATE_VEHICLE_NOT_PLUGGED'', ''vehicle not plugged''),
     (''CHARGE_INLETS_COUPLER_STATE_DEFECT'', ''defect''), (''CHARGE_INLETS_COUPLER_STATE_UNKNOWN'', ''unknown'')]"

definition handle_chargeinletcoupler :: handler where
  "handle_chargeinletcoupler e option = handle_entry ''chargeInlets'' ''charge_inlets'' ''coupler_state'' coupler_names e"

definition lock_names :: "(string \<times> string) list" where
  "lock_names = [(''CHARGE_INLETS_LOCK_STATE_UNLOCKED'', ''unlocked''), (''CHARGE_INLETS_LOCK_STATE_LOCKED'', ''locked''),
     (''CHARGE_INLETS_LOCK_STATE_LOCK_STATE_NOT_CLEAR'', ''state not clear''),
     (''CHARGE_INLETS_LOCK_STATE_NOT_AVAILABLE'', ''state not available''),
     (''CHARGE_INLETS_LOCK_STATE_UNKNOWN'', ''unknown'')]"

definition handle_chargeinletlock :: handler where
  "handle_chargeinletlock e option = handle_entry ''chargeInlets'' ''charge_inlets'' ''lock_state'' lock_names e"

definition handle_charge_programs :: handler where
  "handle_charge_programs e option =
     (let curr = dget (he_attrs e) option
      in if \<not> truthy curr then Inr None
         else rbind (vget_dict curr ''charge_programs_value'') (\<lambda>pv.
              rbind (vget_or pv ''charge_program_parameters'' (PList [])) (\<lambda>v.
              if \<not> truthy v then Inr None
              else rbind (vget_or curr ''status'' valid) (\<lambda>status.
                   rbind (vget_or curr ''timestamp'' (PInt 0)) (\<lambda>stamp.
                     Inr (Some (attribute_of v status stamp PNone PNone)))))))"

text \<open>Iterating a value: the elements, the keys, or the characters.\<close>

fun iter_items :: "pyval \<Rightarrow> pyval list res" where
  "iter_items (PList xs) = Inr xs"
| "iter_items (PDict d) = Inr (map (\<lambda>(k, v). PStr k) d)"
| "iter_items (PStr s) = Inr (map (\<lambda>c. PStr [c]) s)"
| "iter_items _ = Inl TypeError"

fun restriction_texts :: "pyval list \<Rightarrow> string list res" where
  "restriction_texts [] = Inr []"
| "restriction_texts (PStr s # xs) =
     rbind (restriction_texts xs) (\<lambda>ts. Inr (replace_str ''CHARGING_POWER_RESTRICTION_'' [] s # ts))"
| "restriction_texts (_ # xs) = Inl AttributeError"

fun join_text :: "string \<Rightarrow> string list \<Rightarrow> string" where
  "join_text sep [] = []"
| "join_text sep [x] = x"
| "join_text sep (x # xs) = x @ sep @ join_text sep xs"

definition handle_charging_power_restriction :: handler where
  "handle_charging_power_restriction e option =
     (let curr = dget (he_attrs e) ''chargingPowerRestriction''
      in if \<not> truthy curr then Inr None
         else rbind (vget_dict curr ''charging_power_restrictions'') (\<lambda>container.
              rbind (vget_or container ''charging_power_restriction'' (PList [])) (\<lambda>values.
              if \<not> truthy values then Inr None
              else rbind (vget_or curr ''status'' valid) (\<lambda>status.
                   rbind (vget_or curr ''timestamp'' (PInt 0)) (\<lambda>stamp.
                   rbind (iter_items values) (\<lambda>xs.
                   rbind (restriction_texts xs) (\<lambda>ts.
                     Inr (Some (attribute_of (PStr (join_text '', '' ts)) status stamp PNone PNone)))))))))"

definition handle_charging_break_clock_timer :: handler where
  "handle_charging_break_clock_timer e option =
     (let curr = dget (he_attrs e) option
      in if \<not> truthy curr then Inr None
         else rbind (vget_dict curr ''chargingbreak_clocktimer_value'') (\<lambda>tv.
              rbind (vget tv ''chargingbreak_clocktimer_entry'') (\<lambda>v.
              if v = PNone then Inr None
              else rbind (vget_or curr ''status'' valid) (\<lambda>status.
                   rbind (vget_or curr ''timestamp'' (PInt 0)) (\<lambda>stamp.
                   rbind (vget curr ''display_value'') (\<lambda>display.
                     Inr (Some (attribute_of v status stamp display PNone))))))))"

section \<open>The end of charging\<close>

text \<open>\<^verbatim>\<open>strptime\<close> with the format of a protobuf timestamp, in the zero-padded form it is printed in.\<close>

definition parse_utc :: "string \<Rightarrow> datetime option" where
  "parse_utc s =
     (case digit_fields ''####-##-##T##:##:##'' (take 19 s) of
        Some [y, mo, d, h, mi, sec] \<Rightarrow>
          if drop 19 s = ''Z'' \<and> 1 \<le> y \<and> 1 \<le> mo \<and> mo \<le> 12 \<and> 1 \<le> d \<and> d \<le> days_in_month y mo \<and>
             h < 24 \<and> mi < 60 \<and> sec < 60
          then Some (Datetime y mo d h mi sec ''UTC'') else None
      | _ \<Rightarrow> None)"

definition predicted_charge_end_value :: "pyval \<Rightarrow> pyval" where
  "predicted_charge_end_value v = (case v of
     PTime t \<Rightarrow> PTime t
   | PStr s \<Rightarrow> (case parse_utc s of Some t \<Rightarrow> PTime t | None \<Rightarrow> PNone)
   | _ \<Rightarrow> PNone)"

definition civil_from_days :: "int \<Rightarrow> int \<times> int \<times> int" where
  "civil_from_days z =
     (let z = z + 719468; era = z div 146097; doe = z mod 146097;
          yoe = (doe - doe div 1460 + doe div 36524 - doe div 146096) div 365;
          doy = doe - (365 * yoe + yoe div 4 - yoe div 100);
          mp = (5 * doy + 2) div 153; d = doy - (153 * mp + 2) div 5 + 1;
          m = (if mp < 10 then mp + 3 else mp - 9); y = yoe + era * 400
      in (if m \<le> 2 then y + 1 else y, m, d))"

text \<open>Monday is 0.\<close>

definition weekday :: "int \<Rightarrow> int" where
  "weekday days = (days + 3) mod 7"

definition mod7 :: "rat \<Rightarrow> rat" where
  "mod7 q = q - 7 * of_int \<lfloor>q / 7\<rfloor>"

definition pad :: "nat \<Rightarrow> int \<Rightarrow> string" where
  "pad k n = (let s = show_int n in replicate (k - length s) (CHR ''0'') @ s)"

definition isoformat :: "datetime \<Rightarrow> string" where
  "isoformat t = pad 4 (dt_year t) @ ''-'' @ pad 2 (dt_month t) @ ''-'' @ pad 2 (dt_day t) @ ''T'' @
     pad 2 (dt_hour t) @ '':'' @ pad 2 (dt_minute t) @ '':'' @ pad 2 (dt_second t) @ dt_zone t"

text \<open>The clock time \<open>minutes\<close> after midnight on the given day; \<^verbatim>\<open>datetime\<close> refuses an hour past 23.\<close>

definition local_datetime :: "int \<Rightarrow> int \<Rightarrow> string \<Rightarrow> datetime res" where
  "local_datetime days minutes zone =
     (if minutes div 60 < 0 \<or> 23 < minutes div 60 then Inl ValueError
      else case civil_from_days days of (y, m, d) \<Rightarrow>
        Inr (Datetime y m d (minutes div 60) (minutes mod 60) 0 zone))"

text \<open>The weekday of the end when none was sent: tomorrow's if the time has passed today.\<close>

definition derived_weekday :: "local_clock \<Rightarrow> int \<Rightarrow> pyval res" where
  "derived_weekday c minutes =
     rbind (local_datetime (lc_days c) minutes (lc_offset c)) (\<lambda>today.
       Inr (PInt (if of_int (minutes * 60) < lc_seconds c then weekday (lc_days c + 1) else weekday (lc_days c))))"

definition next_occurrence :: "local_clock \<Rightarrow> pyval \<Rightarrow> int \<Rightarrow> datetime res" where
  "next_occurrence c day minutes =
     rbind (py_float day) (\<lambda>f. case f of
       Fin q \<Rightarrow>
         (let ahead = mod7 (mod7 q - of_int (weekday (lc_days c)));
              days = lc_days c + \<lfloor>(lc_seconds c + ahead * 86400) / 86400\<rfloor>
          in local_datetime days minutes (lc_offset c))
     | _ \<Rightarrow> Inl ValueError)"

definition charge_end_attribute :: "local_clock \<Rightarrow> pyval \<Rightarrow> pyval \<Rightarrow> pyval \<Rightarrow> pyval \<Rightarrow> car_attribute option res" where
  "charge_end_attribute c status stamp end_value day =
     rbind (py_int end_value) (\<lambda>minutes.
     rbind (if day = PNone then derived_weekday c minutes else Inr day) (\<lambda>day.
     rbind (next_occurrence c day minutes) (\<lambda>t.
       Inr (Some (attribute_of (PTime t) status stamp (PStr (isoformat t)) PNone)))))"

definition legacy_body :: "handler_env \<Rightarrow> car_attribute option res" where
  "legacy_body e =
     (let eoc = dget (he_attrs e) ''endofchargetime''
      in if \<not> truthy eoc then Inr None
         else rbind (vget_or eoc ''timestamp'' (PInt 0)) (\<lambda>stamp.
              rbind (vget eoc ''int_value'') (\<lambda>end_value.
              rbind (vget_or eoc ''status'' valid) (\<lambda>status.
              if end_value = PNone \<and> py_eq status (PInt 3)
              then Inr (Some (attribute_of STATE_UNKNOWN status stamp STATE_UNKNOWN PNone))
              else if end_value = PNone then Inr None
              else if haskey (he_attrs e) ''endofChargeTimeWeekday''
              then rbind (vget (dget (he_attrs e) ''endofChargeTimeWeekday'') ''int_value'')
                     (charge_end_attribute (he_clock e) status stamp end_value)
              else (case he_last_full e of
                  None \<Rightarrow> Inr None
                | Some last_full \<Rightarrow>
                    if last_full = [] then Inr None
                    else rbind (vget_dict (last_attributes last_full) ''endofChargeTimeWeekday'') (\<lambda>day_attr.
                         rbind (vget day_attr ''int_value'')
                           (charge_end_attribute (he_clock e) status stamp end_value)))))))"

text \<open>Every exception in it ends in \<^verbatim>\<open>None\<close>.\<close>

definition legacy_charge_end :: "handler_env \<Rightarrow> car_attribute option" where
  "legacy_charge_end e = (case legacy_body e of Inl _ \<Rightarrow> None | Inr a \<Rightarrow> a)"

definition handle_endofchargetime :: handler where
  "handle_endofchargetime e option =
     (let prediction = dget_or (he_attrs e) ''chargingPredictionMaxSoc'' (PDict [])
      in rbind (vget_dict prediction ''charging_prediction_soc'') (\<lambda>soc.
         rbind (vget soc ''predicted_end_time'') (\<lambda>predicted.
         rbind (vget_or prediction ''status'' valid) (\<lambda>status.
         rbind (vget_or prediction ''timestamp'' (PInt 0)) (\<lambda>stamp.
           if predicted \<noteq> PNone \<and> predicted_charge_end_value predicted \<noteq> PNone
           then Inr (Some (attribute_of (predicted_charge_end_value predicted) status stamp
                  (predicted_charge_end_value predicted) PNone))
           else if \<not> he_update e \<and> \<not> truthy predicted \<and> \<not> truthy (dget (he_attrs e) ''endofchargetime'')
           then rbind (case he_last_full e of
                   None \<Rightarrow> Inr PNone
                 | Some last_full \<Rightarrow>
                     if last_full = [] then Inr PNone else vget (last_attributes last_full) ''endofchargetime'')
                (\<lambda>known. if truthy known then Inr (legacy_charge_end e)
                  else Inr (Some (attribute_of STATE_UNKNOWN valid (PFloat (Fin (lc_epoch (he_clock e)))) STATE_UNKNOWN PNone)))
           else Inr (legacy_charge_end e))))))"

section \<open>Preconditioning and temperatures\<close>

definition preconditioning_attr_to_bool :: "pyval \<Rightarrow> bool res" where
  "preconditioning_attr_to_bool attr =
     (if \<not> truthy attr then Inr False
      else case attr of
        PDict a \<Rightarrow>
          if haskey a ''bool_value'' then Inr (truthy (dget a ''bool_value''))
          else let by_int = (let raw = dget a ''int_value''
                    in if raw = PNone then Inr False
                       else rcatch (rbind (py_int raw) (\<lambda>n. Inr (0 < n))) [TypeError, ValueError] (Inr False))
               in (case dget a ''value'' of
                   PBool b \<Rightarrow> Inr b
                 | PInt n \<Rightarrow> Inr (0 < n)
                 | PStr s \<Rightarrow>
                     if lower s = ''true'' \<or> lower s = ''false'' then Inr (lower s = ''true'')
                     else if isdigit (lstrip_char (CHR ''-'') s) then rbind (py_int (PStr s)) (\<lambda>n. Inr (0 < n))
                     else by_int
                 | _ \<Rightarrow> by_int)
      | _ \<Rightarrow> Inl AttributeError)"

definition stamp_int :: "pyval \<Rightarrow> int res" where
  "stamp_int attr = rbind (vget_or attr ''timestamp'' (PInt 0)) py_int"

definition handle_precond_status :: handler where
  "handle_precond_status e option =
     (let attr = (\<lambda>k. dget_or (he_attrs e) k (PDict []));
          now_attr = attr ''precondNow''; active_attr = attr ''precondActive'';
          mode_attr = attr ''precondOperatingMode''; state_attr = attr ''precondState'';
          state_value = (case state_attr of PDict a \<Rightarrow> dget_or a ''value'' (PDict []) | _ \<Rightarrow> PDict [])
      in rbind (preconditioning_attr_to_bool now_attr) (\<lambda>pre_now.
         rbind (preconditioning_attr_to_bool active_attr) (\<lambda>active.
         rbind (vget_or mode_attr ''int_value'' (PInt 0)) (\<lambda>mode.
         rbind (py_int mode) (\<lambda>m.
         let activation = (case state_value of PDict a \<Rightarrow> truthy (dget_or a ''activation_state'' (PBool False)) | _ \<Rightarrow> False);
             v = (pre_now \<or> active \<or> 0 < m \<or> activation)
         in if truthy now_attr \<or> truthy active_attr \<or> truthy mode_attr \<or> truthy state_attr
            then rbind (stamp_int now_attr) (\<lambda>t1. rbind (stamp_int active_attr) (\<lambda>t2.
                 rbind (stamp_int mode_attr) (\<lambda>t3. rbind (stamp_int state_attr) (\<lambda>t4.
                   Inr (Some (attribute_of (PBool v) valid (PInt (max t1 (max t2 (max t3 t4))))
                     (PStr (py_str (PBool v))) PNone))))))
            else if \<not> he_update e then Inr (Some (missing_attribute (PBool False)))
            else Inr None)))))"

definition point_attribute :: "pyval \<Rightarrow> pyval \<Rightarrow> pyval \<Rightarrow> car_attribute res" where
  "point_attribute holder stamp point =
     rbind (vget point ''temperature'') (\<lambda>t. case t of
       PDict td \<Rightarrow> Inr (attribute_of (dget_or td ''value'' (PInt 0)) valid stamp (dget td ''display_value'') (dget td ''unit''))
     | _ \<Rightarrow>
         rbind (vget point ''temperature_display_value'') (\<lambda>display.
         rbind (vget holder ''temperature_unit'') (\<lambda>un.
           Inr (attribute_of (if t = PNone then PInt 0 else t) valid stamp display un))))"

fun find_point :: "pyval \<Rightarrow> pyval \<Rightarrow> string \<Rightarrow> pyval list \<Rightarrow> car_attribute option res" where
  "find_point holder stamp zone [] = Inr None"
| "find_point holder stamp zone (p # ps) =
     rbind (vget p ''zone'') (\<lambda>z.
       case (if truthy z then z else PStr ''FRONT_LEFT'') of
         PStr s \<Rightarrow>
           if lower (replace_str ''_'' [] s) = lower zone
           then rbind (point_attribute holder stamp p) (\<lambda>a. Inr (Some a))
           else find_point holder stamp zone ps
       | _ \<Rightarrow> Inl AttributeError)"

definition handle_temperature_points :: handler where
  "handle_temperature_points e option =
     (let holder = dget (he_attrs e) ''temperaturePoints''
      in if \<not> truthy holder then Inr None
         else rbind (vget_or holder ''timestamp'' (PInt 0)) (\<lambda>stamp.
              rbind (vget_dict holder ''temperature_points_value'') (\<lambda>pv.
              rbind (vget_or pv ''temperature_points'' (PList [])) (\<lambda>points.
              rbind (iter_items points)
                (find_point holder stamp (replace_str ''temperature_points_'' [] option))))))"

section \<open>Windows of a pulled message\<close>

definition main_window_attrs :: "string list" where
  "main_window_attrs = [''windowstatusfrontleft'', ''windowstatusfrontright'', ''windowstatusrearleft'', ''windowstatusrearright'']"

text \<open>The statuses seen and the newest readable timestamp.\<close>

fun window_observations :: "pydict \<Rightarrow> string list \<Rightarrow> (pyval list \<times> int) res" where
  "window_observations attrs [] = Inr ([], 0)"
| "window_observations attrs (k # ks) =
     (if \<not> haskey attrs k then window_observations attrs ks
      else rbind (vget_or (dget attrs k) ''int_value'' (PInt 0)) (\<lambda>v.
           rbind (vget_or (dget attrs k) ''timestamp'' (PInt 0)) (\<lambda>ts.
           rbind (rcatch (if truthy ts then py_int ts else Inr 0) [ValueError, TypeError] (Inr 0)) (\<lambda>t.
           rbind (window_observations attrs ks) (\<lambda>(vs, latest).
             Inr (if v = PNone then vs else v # vs, max t latest))))))"

fun status_ints :: "pyval list \<Rightarrow> int list res" where
  "status_ints [] = Inr []"
| "status_ints (v # vs) = rbind (py_int v) (\<lambda>n. rbind (status_ints vs) (\<lambda>ns. Inr (n # ns)))"

text \<open>Whether the overall status is closed.\<close>

definition overall_window_closed :: "pyval list \<Rightarrow> bool res" where
  "overall_window_closed statuses =
     rcatch (rbind (status_ints statuses) (\<lambda>ns. Inr (list_all (\<lambda>n. n = 2) ns))) [ValueError, TypeError] (Inr True)"

definition synthetic_window_status :: "pydict \<Rightarrow> pyval res" where
  "synthetic_window_status attrs =
     rbind (window_observations attrs main_window_attrs) (\<lambda>(statuses, latest).
     rbind (overall_window_closed statuses) (\<lambda>closed.
       Inr (PDict [(''timestamp'', PStr (if 0 < latest then show_int latest else ''0'')),
         (''bool_value'', PBool closed), (''status'', valid),
         (''timestamp_in_ms'', PStr (show_int (latest * 1000 + 223)))])))"

section \<open>Building a car\<close>

definition handler_for :: "string \<Rightarrow> handler" where
  "handler_for option =
     (if option = ''max_soc'' then handle_max_soc
      else if option = ''chargeflap'' then handle_chargeflap
      else if option = ''chargeinletcoupler'' then handle_chargeinletcoupler
      else if option = ''chargeinletlock'' then handle_chargeinletlock
      else if option = ''chargePrograms'' then handle_charge_programs
      else if option = ''chargingBreakClockTimer'' then handle_charging_break_clock_timer
      else if option = ''chargingPowerRestriction'' then handle_charging_power_restriction
      else if option = ''endofchargetime'' then handle_endofchargetime
      else if option = ''precondStatus'' then handle_precond_status
      else if option \<in> {''temperature_points_frontLeft'', ''temperature_points_frontRight'',
        ''temperature_points_rearLeft'', ''temperature_points_rearRight''} then handle_temperature_points
      else handle_generic)"

definition keep :: "string \<Rightarrow> car_attribute option \<Rightarrow> handler_env \<Rightarrow> handler_env" where
  "keep option a e = (case a of None \<Rightarrow> e | Some v \<Rightarrow> e\<lparr>he_group := dset option v (he_group e)\<rparr>)"

text \<open>The loop over the options: a handler that returns nothing leaves the attribute as it was.\<close>

fun decode_options :: "handler_env \<Rightarrow> string list \<Rightarrow> group_values res" where
  "decode_options e [] = Inr (he_group e)"
| "decode_options e (option # options) =
     rbind (handler_for option e option) (\<lambda>a. decode_options (keep option a e) options)"

text \<open>What one message brings, the same for every group of the car.\<close>

record message =
  ms_data :: pydict
  ms_update :: bool
  ms_last_full :: "pydict option"
  ms_clock :: local_clock

definition get_car_values :: "message \<Rightarrow> string list \<Rightarrow> group_values \<Rightarrow> group_values res" where
  "get_car_values m options g =
     (let attrs = dget (ms_data m) ''attributes''
      in if \<not> truthy attrs then Inr g
         else case attrs of
           PDict d \<Rightarrow> decode_options \<lparr>he_attrs = d, he_group = g, he_update = ms_update m,
             he_last_full = ms_last_full m, he_clock = ms_clock m\<rparr> options
         | _ \<Rightarrow> Inl AttributeError)"

definition sections :: "(string \<times> string list) list" where
  "sections = [(''odometer'', ODOMETER_OPTIONS), (''tires'', TIRE_OPTIONS), (''wipers'', WIPER_OPTIONS),
     (''doors'', DOOR_OPTIONS), (''location'', LOCATION_OPTIONS), (''binarysensors'', BINARY_SENSOR_OPTIONS),
     (''windows'', WINDOW_OPTIONS), (''electric'', ELECTRIC_OPTIONS), (''auxheat'', AUX_HEAT_OPTIONS),
     (''precond'', PRE_COND_OPTIONS), (''caralarm'', CarAlarm_OPTIONS)]"

fun update_sections :: "message \<Rightarrow> (string \<times> string list) list \<Rightarrow> (string, group_values) dict \<Rightarrow> (string, group_values) dict res" where
  "update_sections m [] groups = Inr groups"
| "update_sections m ((name, options) # rest) groups =
     rbind (get_car_values m options (case map_of groups name of None \<Rightarrow> [] | Some g \<Rightarrow> g)) (\<lambda>g.
       update_sections m rest (dset name g groups))"

text \<open>The side effect of the ignition handler on the decoder.\<close>

definition ignition_update :: "pydict \<Rightarrow> bool \<Rightarrow> decoder \<Rightarrow> decoder" where
  "ignition_update data update dc =
     (case dget data ''attributes'' of
        PDict attrs \<Rightarrow>
          if attrs = [] then dc
          else if truthy (dget attrs ''ignitionstate'') \<or> \<not> update
          then let on = (case dget attrs ''ignitionstate'' of
                     PDict c \<Rightarrow> first_key value_keys c (PInt 0) = PStr ''4'' | _ \<Rightarrow> False)
               in dc\<lparr>dc_ignition := AList.update (dget data ''vin'')
                    (on \<and> dget data ''vin'' \<notin> set (dc_excluded dc)) (dc_ignition dc)\<rparr>
          else dc
      | _ \<Rightarrow> dc)"

text \<open>
  The message is changed in place: a pulled one gains its overall window status. The result is the
  decoder and the message as the caller sees it afterwards.
\<close>

definition with_window_status :: "bool \<Rightarrow> pydict \<Rightarrow> pydict res" where
  "with_window_status is_rest data =
     (case dget data ''attributes'' of
        PDict attrs \<Rightarrow>
          if is_rest \<and> attrs \<noteq> [] \<and> \<not> haskey attrs ''windowStatusOverall''
          then rbind (synthetic_window_status attrs) (\<lambda>w.
                 Inr (dset ''attributes'' (PDict (dset ''windowStatusOverall'' w attrs)) data))
          else Inr data
      | v \<Rightarrow> if is_rest \<and> truthy v then Inl TypeError else Inr data)"

definition build_car :: "local_clock \<Rightarrow> bool \<Rightarrow> bool \<Rightarrow> pydict \<Rightarrow> decoder \<Rightarrow> (pydict \<times> decoder) res" where
  "build_car clock update is_rest data dc =
     (let vin = dget data ''vin''
      in if vin \<in> set (dc_excluded dc) then Inr (data, dc)
         else
           let c = (case map_of (dc_cars dc) vin of Some c \<Rightarrow> c | None \<Rightarrow> (new_car vin)\<lparr>car_licenseplate := vin\<rparr>);
               c = (if update then c\<lparr>car_partial_messages := car_partial_messages c + 1\<rparr>
                    else c\<lparr>car_full_messages := car_full_messages c + 1\<rparr>);
               c = c\<lparr>car_last_message := round_even (lc_epoch clock * 1000)\<rparr>;
               c = set_data_mode (if is_rest then ''pull'' else ''push'') (lc_epoch clock) c
           in rbind (with_window_status is_rest data) (\<lambda>data.
              let c = (if update then c else c\<lparr>car_last_full := Some data\<rparr>);
                  m = \<lparr>ms_data = data, ms_update = update, ms_last_full = car_last_full c, ms_clock = clock\<rparr>
              in rbind (update_sections m sections (car_groups c)) (\<lambda>groups.
                 let c = c\<lparr>car_groups := groups, car_setup_complete := car_setup_complete c \<or> \<not> update\<rparr>;
                     dc = ignition_update data update dc
                 in Inr (data, dc\<lparr>dc_cars := AList.update vin c (dc_cars dc)\<rparr>))))"

section \<open>Lookups after decoding\<close>

lemma keep_simps [simp]:
  "map_of (he_group (keep o1 a e)) k = (if k = o1 \<and> a \<noteq> None then a else map_of (he_group e) k)"
  "he_attrs (keep o1 a e) = he_attrs e" "he_update (keep o1 a e) = he_update e"
  "he_last_full (keep o1 a e) = he_last_full e" "he_clock (keep o1 a e) = he_clock e"
  by (auto simp: keep_def split: option.splits)

lemma decode_options_env:
  assumes "decode_options e options = Inr g" and "option \<notin> set options"
  shows "map_of g option = map_of (he_group e) option"
  using assms
proof (induction e options rule: decode_options.induct)
  case (2 e o1 options)
  then obtain a where a: "handler_for o1 e o1 = Inr a" "decode_options (keep o1 a e) options = Inr g"
    by (auto simp: rbind_Inr_iff)
  with 2 show ?case by auto
qed simp

text \<open>An option of the generic handler depends on the message alone.\<close>

lemma handle_generic_keep [simp]: "handle_generic (keep o1 a e) option = handle_generic e option"
  by (simp add: handle_generic_def)

lemma decode_options_generic:
  assumes "decode_options e options = Inr g" and "option \<in> set options" and "distinct options"
    and "handler_for option = handle_generic"
  shows "\<exists>r. handle_generic e option = Inr r \<and> map_of g option = (case r of None \<Rightarrow> map_of (he_group e) option | Some a \<Rightarrow> Some a)"
  using assms
proof (induction e options rule: decode_options.induct)
  case (2 e o1 options)
  from 2(2) obtain a where a: "handler_for o1 e o1 = Inr a" "decode_options (keep o1 a e) options = Inr g"
    by (auto simp: rbind_Inr_iff)
  show ?case
  proof (cases "option = o1")
    case True
    with 2(4) have "option \<notin> set options" by simp
    then have "map_of g option = map_of (he_group (keep o1 a e)) option"
      by (rule decode_options_env [OF a(2)])
    with True a(1) 2(5) show ?thesis by (auto split: option.splits)
  next
    case False
    with 2(1) [OF a(2)] 2(3-5) obtain r where "handle_generic e option = Inr r"
      "map_of g option = (case r of None \<Rightarrow> map_of (he_group (keep o1 a e)) option | Some a \<Rightarrow> Some a)" by auto
    with False show ?thesis by (cases r) auto
  qed
qed simp

text \<open>The order of the options: what a later handler reads of the group is what was decoded before it.\<close>

lemma decode_options_append:
  "decode_options e (xs @ ys) = rbind (decode_options e xs) (\<lambda>g. decode_options (e\<lparr>he_group := g\<rparr>) ys)"
proof (induction e xs rule: decode_options.induct)
  case (2 e o1 options)
  have "keep o1 a e\<lparr>he_group := g\<rparr> = e\<lparr>he_group := g\<rparr>" for a g by (auto simp: keep_def split: option.splits)
  with 2 show ?case by (cases "handler_for o1 e o1") simp_all
qed simp

lemma update_sections_lookup:
  assumes "update_sections m secs groups = Inr gs" and "distinct (map fst secs)" and "(name, options) \<in> set secs"
  shows "\<exists>g. get_car_values m options (case map_of groups name of None \<Rightarrow> [] | Some g \<Rightarrow> g) = Inr g \<and> map_of gs name = Some g"
  using assms
proof (induction m secs groups rule: update_sections.induct)
  case (2 m n1 o1 rest groups)
  then obtain g where g: "get_car_values m o1 (case map_of groups n1 of None \<Rightarrow> [] | Some g \<Rightarrow> g) = Inr g"
    "update_sections m rest (dset n1 g groups) = Inr gs" by (auto simp: rbind_Inr_iff)
  have keep: "map_of gs' n = map_of grps n" if "update_sections m r grps = Inr gs'" "n \<notin> fst ` set r" for r grps gs' n
    using that by (induction m r grps rule: update_sections.induct) (auto simp: rbind_Inr_iff)
  show ?case
  proof (cases "name = n1")
    case True
    with 2(3,4) have "options = o1" "n1 \<notin> fst ` set rest" by (auto simp: image_iff)
    with True g keep [OF g(2)] show ?thesis by simp
  next
    case False
    with 2(1) [OF g(2)] 2(3,4) show ?thesis by auto
  qed
qed simp

lemma ignition_cars [simp]: "dc_cars (ignition_update data update dc) = dc_cars dc"
  by (simp add: ignition_update_def Let_def split: pyval.splits)

lemma set_data_mode_groups [simp]:
  "car_groups (set_data_mode mode t c) = car_groups c" "car_last_full (set_data_mode mode t c) = car_last_full c"
  by (simp_all add: set_data_mode_def)

lemma build_car_new:
  assumes "build_car clock False is_rest data new_decoder = Inr (data', dc)"
  shows "\<exists>c m. map_of (dc_cars dc) (dget data ''vin'') = Some c \<and> with_window_status is_rest data = Inr data' \<and>
    update_sections m sections [] = Inr (car_groups c) \<and> ms_data m = data' \<and> \<not> ms_update m"
proof -
  from assms obtain d where d: "with_window_status is_rest data = Inr d"
    by (auto simp: build_car_def new_decoder_def Let_def rbind_Inr_iff)
  from assms [unfolded build_car_def new_decoder_def Let_def d] obtain m gs c where
    u: "update_sections m sections [] = Inr gs" "ms_data m = d" "\<not> ms_update m"
    and c: "car_groups c = gs" "d = data'" "map_of (dc_cars dc) (dget data ''vin'') = Some c"
    by (simp add: rbind_Inr_iff new_car_def) (elim exE conjE, force simp: update_Some_unfold)
  with d show ?thesis by blast
qed

lemma with_window_status_attrs:
  assumes "with_window_status is_rest data = Inr data'" and "dget data ''attributes'' = PDict attrs"
  shows "\<exists>attrs'. dget data' ''attributes'' = PDict attrs' \<and>
    (\<forall>k. k \<noteq> ''windowStatusOverall'' \<longrightarrow> dget attrs' k = dget attrs k)"
proof (cases "is_rest \<and> attrs \<noteq> [] \<and> \<not> haskey attrs ''windowStatusOverall''")
  case True
  with assms obtain w where "data' = dset ''attributes'' (PDict (dset ''windowStatusOverall'' w attrs)) data"
    by (auto simp: with_window_status_def rbind_Inr_iff)
  then show ?thesis by simp
next
  case False
  with assms show ?thesis by (auto simp: with_window_status_def)
qed

lemma with_window_status_vin:
  "with_window_status is_rest data = Inr data' \<Longrightarrow> dget data' ''vin'' = dget data ''vin''"
  by (auto simp: with_window_status_def rbind_Inr_iff split: pyval.splits if_splits)

end
