(* ===== verification/Protocol.thy ===== *)
theory Protocol
  imports Vsu
begin

text \<open>
  \<^verbatim>\<open>dbus_ev/mercedes/protocol.py\<close>: push frames decoded, acknowledged and merged into a snapshot.
  The protobuf runtime that turns bytes into a message, and a message into a dictionary, is the
  parameter \<open>parse\<close>; a \<open>push\<close> is the message it returns.
\<close>

section \<open>Frames\<close>

definition ACKS :: "(string \<times> string) list" where
  "ACKS = [
     (''vepUpdates'', ''acknowledge_vep_updates_by_vin''),
     (''vehicle_status_updates'', ''acknowledge_vehicle_status_updates''),
     (''service_status_updates'', ''acknowledge_service_status_update''),
     (''user_data_update'', ''acknowledge_user_data_update''),
     (''user_picture_update'', ''acknowledge_user_picture_update''),
     (''user_pin_update'', ''acknowledge_user_pin_update''),
     (''vehicle_updated'', ''acknowledge_vehicle_updated''),
     (''preferred_dealer_change'', ''acknowledge_preferred_dealer_change''),
     (''apptwin_command_status_updates_by_vin'', ''acknowledge_apptwin_command_status_update_by_vin''),
     (''data_change_event'', ''acknowledge_data_change_event'')]"

text \<open>
  The set member of the \<^verbatim>\<open>msg\<close> oneof with its sequence number, and the payload per vehicle of
  the two kinds that carry one.
\<close>

record push =
  pm_kind :: "string option"
  pm_seq :: int
  pm_cars :: "(string \<times> pydict) list"

text \<open>A reply is a client message acknowledging a sequence number, or fixed bytes.\<close>

datatype reply = Ack string int | Raw "int list"

text \<open>\<^verbatim>\<open>finite\<close>: the value as a finite float, if it is one.\<close>

definition finite_num :: "pyval \<Rightarrow> rat option" where
  "finite_num v = (case py_float v of Inr (Fin q) \<Rightarrow> Some q | _ \<Rightarrow> None)"

record protocol =
  pr_vin :: string
  pr_attributes :: pydict
  pr_full :: bool
  pr_revision :: int

definition new_protocol :: "string \<Rightarrow> protocol" where
  "new_protocol vin = \<lparr>pr_vin = vin, pr_attributes = [], pr_full = False, pr_revision = 0\<rparr>"

section \<open>Merging\<close>

text \<open>\<^verbatim>\<open>finite(value.get("timestamp_in_ms", 0)) or 0\<close>.\<close>

definition stamp_of :: "pydict \<Rightarrow> rat" where
  "stamp_of a = (case finite_num (dget_or a ''timestamp_in_ms'' (PInt 0)) of Some q \<Rightarrow> q | None \<Rightarrow> 0)"

fun dict_of :: "pyval \<Rightarrow> pydict" where
  "dict_of (PDict d) = d"
| "dict_of _ = []"

definition merge_one :: "string \<Rightarrow> pyval \<Rightarrow> pydict \<Rightarrow> pydict" where
  "merge_one k v attrs =
     (if \<not> is_dict v then attrs
      else if stamp_of (dict_of (dget_or attrs k (PDict []))) \<le> stamp_of (dict_of v) then dset k v attrs
      else attrs)"

fun merge_all :: "(string \<times> pyval) list \<Rightarrow> pydict \<Rightarrow> pydict" where
  "merge_all [] attrs = attrs"
| "merge_all ((k, v) # rest) attrs = merge_all rest (merge_one k v attrs)"

definition snapshot :: "time \<Rightarrow> protocol \<Rightarrow> pydict" where
  "snapshot now p =
     [(''schema'', PInt 1), (''vin'', PStr (pr_vin p)), (''revision'', PInt (pr_revision p)),
      (''received_at'', PFloat (Fin now)), (''full_update'', PBool (pr_full p)),
      (''attributes'', PDict (pr_attributes p))]"

definition merge :: "time \<Rightarrow> pydict \<Rightarrow> protocol \<Rightarrow> pydict option \<times> protocol" where
  "merge now update p =
     (let incoming = dget update ''attributes''
      in if \<not> is_dict incoming \<or> \<not> truthy incoming then (None, p)
         else let p = (if truthy (dget update ''full_update'') then p\<lparr>pr_attributes := [], pr_full := True\<rparr> else p);
                  p = p\<lparr>pr_attributes := merge_all (dict_of incoming) (pr_attributes p),
                        pr_revision := pr_revision p + 1\<rparr>
              in (Some (snapshot now p), p))"

section \<open>Decoding\<close>

definition reply_for :: "push \<Rightarrow> reply option" where
  "reply_for m =
     (case pm_kind m of None \<Rightarrow> None
      | Some k \<Rightarrow>
          (case map_of ACKS k of
             Some ack \<Rightarrow> Some (Ack ack (pm_seq m))
           | None \<Rightarrow> if k = ''assigned_vehicles'' then Some (Raw [186, 1, 0])
                    else if k = ''apptwin_pending_command_request'' then Some (Raw [170, 1, 0])
                    else None))"

definition update_for :: "push \<Rightarrow> protocol \<Rightarrow> pydict res" where
  "update_for m p =
     (if pm_kind m = Some ''vepUpdates''
      then Inr (case map_of (pm_cars m) (pr_vin p) of None \<Rightarrow> [] | Some car \<Rightarrow> car)
      else if pm_kind m = Some ''vehicle_status_updates''
      then (case map_of (pm_cars m) (pr_vin p) of None \<Rightarrow> Inr [] | Some car \<Rightarrow> normalize_vsu_car car)
      else Inr [])"

definition decode ::
  "('raw \<Rightarrow> push res) \<Rightarrow> time \<Rightarrow> 'raw \<Rightarrow> protocol \<Rightarrow> (reply option \<times> pydict option) res \<times> protocol" where
  "decode parse now raw p =
     (case parse raw of
        Inl e \<Rightarrow> (Inl e, p)
      | Inr m \<Rightarrow>
          (case update_for m p of
             Inl e \<Rightarrow> (Inl e, p)
           | Inr update \<Rightarrow>
               if update = [] then (Inr (reply_for m, None), p)
               else let (s, p) = merge now update p in (Inr (reply_for m, s), p)))"

text \<open>
  The two readings of a widget response: \<open>parse_vep\<close> and \<open>parse_vsu\<close> turn the bytes into the
  dictionary of the message, or are the decoding error of the protobuf runtime.
\<close>

definition decode_rest ::
  "('raw \<Rightarrow> pydict res) \<Rightarrow> ('raw \<Rightarrow> pydict res) \<Rightarrow> time \<Rightarrow> 'raw \<Rightarrow> protocol \<Rightarrow> pydict option res" where
  "decode_rest parse_vep parse_vsu now raw p =
     (let vep = (case parse_vep raw of Inl _ \<Rightarrow> [] | Inr d \<Rightarrow> d)
      in rbind (if truthy (dget vep ''vin'') then Inr vep else rbind (parse_vsu raw) normalize_vsu_car) (\<lambda>update.
           if dget update ''vin'' \<noteq> PStr (pr_vin p) then Inr None
           else Inr (fst (merge now (dset ''full_update'' (PBool True) update) (new_protocol (pr_vin p))))))"

section \<open>Merging by timestamp\<close>

definition attribute :: "pydict \<Rightarrow> string \<Rightarrow> pydict" where
  "attribute attrs k = dict_of (dget_or attrs k (PDict []))"

lemma attribute_dset [simp]: "attribute (dset k v attrs) k' = (if k' = k then dict_of v else attribute attrs k')"
  by (simp add: attribute_def)

lemma merge_one_other [simp]: "k' \<noteq> k \<Longrightarrow> dget_or (merge_one k v attrs) k' x = dget_or attrs k' x"
  by (simp add: merge_one_def)

lemma merge_one_stamp: "stamp_of (attribute attrs k') \<le> stamp_of (attribute (merge_one k v attrs) k')"
  by (cases "k' = k") (auto simp: merge_one_def attribute_def)

lemma merge_all_stamp: "stamp_of (attribute attrs k) \<le> stamp_of (attribute (merge_all kvs attrs) k)"
  by (induction kvs attrs rule: merge_all.induct) (auto intro: order_trans [OF merge_one_stamp])

lemma merge_all_other: "k \<notin> fst ` set kvs \<Longrightarrow> dget_or (merge_all kvs attrs) k x = dget_or attrs k x"
  by (induction kvs attrs rule: merge_all.induct) auto

lemma merge_all_lookup:
  "distinct (map fst kvs) \<Longrightarrow>
    dget_or (merge_all kvs attrs) k x =
      (case map_of kvs k of None \<Rightarrow> dget_or attrs k x | Some v \<Rightarrow> dget_or (merge_one k v attrs) k x)"
proof (induction kvs attrs rule: merge_all.induct)
  case (1 attrs)
  then show ?case by simp
next
  case (2 k' v rest attrs)
  show ?case
  proof (cases "k = k'")
    case True
    with 2(2) show ?thesis by (simp add: merge_all_other)
  next
    case False
    with 2 show ?thesis by (simp add: merge_one_def split: option.splits)
  qed
qed

lemma merge_one_choice:
  "dget_or (merge_one k v attrs) k x =
     (if is_dict v \<and> stamp_of (attribute attrs k) \<le> stamp_of (dict_of v) then v else dget_or attrs k x)"
  by (simp add: merge_one_def attribute_def)

lemma merge_fields:
  assumes "merge now u p = (s, p')" and "\<not> truthy (dget u ''full_update'')"
  shows "p' = p \<and> s = None \<or>
    pr_attributes p' = merge_all (dict_of (dget u ''attributes'')) (pr_attributes p) \<and>
    pr_revision p' = pr_revision p + 1 \<and> s = Some (snapshot now p')"
  using assms by (auto simp: merge_def Let_def split: if_splits)

text \<open>The protocol after a run of updates, each with its time of arrival, and the snapshots it gave.\<close>

fun merges :: "(time \<times> pydict) list \<Rightarrow> protocol \<Rightarrow> pydict list \<times> protocol" where
  "merges [] p = ([], p)"
| "merges ((now, u) # us) p =
     (let (s, p) = merge now u p; (ss, p) = merges us p
      in (case s of None \<Rightarrow> ss | Some d \<Rightarrow> d # ss, p))"

text \<open>
  C11: over any run of partial updates, in any order of arrival, no attribute is ever replaced by an
  older reading, and the revision counts the snapshots handed out.
\<close>

theorem merged_attributes_never_go_back:
  assumes "merges us p = (ss, p')" and "\<forall>(now, u) \<in> set us. \<not> truthy (dget u ''full_update'')"
  shows "stamp_of (attribute (pr_attributes p) k) \<le> stamp_of (attribute (pr_attributes p') k) \<and>
    pr_revision p' = pr_revision p + int (length ss)"
  using assms
proof (induction us p arbitrary: ss p' rule: merges.induct)
  case (1 p)
  then show ?case by simp
next
  case (2 now u us p)
  obtain s p1 where m: "merge now u p = (s, p1)" by (cases "merge now u p")
  obtain ss1 p2 where ms: "merges us p1 = (ss1, p2)" by (cases "merges us p1")
  have IH: "stamp_of (attribute (pr_attributes p1) k) \<le> stamp_of (attribute (pr_attributes p2) k) \<and>
      pr_revision p2 = pr_revision p1 + int (length ss1)"
    using 2(1) [OF m [symmetric] refl ms] 2(3) by simp
  have "p1 = p \<and> s = None \<or>
      pr_attributes p1 = merge_all (dict_of (dget u ''attributes'')) (pr_attributes p) \<and>
      pr_revision p1 = pr_revision p + 1 \<and> s = Some (snapshot now p1)"
    using 2(3) by (intro merge_fields [OF m]) simp
  then show ?case
    using IH 2(2) m ms merge_all_stamp [of "pr_attributes p" k "dict_of (dget u ''attributes'')"]
    by (auto intro: order_trans)
qed

definition demo_reading :: "int \<Rightarrow> int \<Rightarrow> pydict" where
  "demo_reading soc ms = [(''attributes'', PDict [(''soc'', PDict [(''value'', PInt soc), (''timestamp_in_ms'', PInt ms)])])]"

theorem merged_attributes_never_go_back_witness:
  "stamp_of (attribute (pr_attributes (snd (merges [(1, demo_reading 55 900), (2, demo_reading 54 800)]
     (new_protocol ''V'')))) ''soc'') = 900 \<and>
   pr_revision (snd (merges [(1, demo_reading 55 900), (2, demo_reading 54 800)] (new_protocol ''V''))) = 2"
proof -
  let ?us = "[(1, demo_reading 55 900), (2, demo_reading 54 800)]"
  obtain ss p where m: "merges ?us (new_protocol ''V'') = (ss, p)" by (cases "merges ?us (new_protocol ''V'')")
  have "length (fst (merges ?us (new_protocol ''V''))) = 2"
    "stamp_of (attribute (pr_attributes (snd (merges ?us (new_protocol ''V'')))) ''soc'') = 900"
    by code_simp+
  with m merged_attributes_never_go_back [OF m] show ?thesis
    by (simp add: demo_reading_def new_protocol_def)
qed

text \<open>
  two updates whose readings of a common attribute carry different timestamps can arrive in
  either order: the merged attributes are the same.
\<close>

theorem merge_order_irrelevant:
  assumes "distinct (map fst a)" and "distinct (map fst b)"
    and "\<forall>k va vb. map_of a k = Some va \<and> map_of b k = Some vb \<longrightarrow> stamp_of (dict_of va) \<noteq> stamp_of (dict_of vb)"
  shows "dget_or (merge_all b (merge_all a attrs)) k x = dget_or (merge_all a (merge_all b attrs)) k x"
proof -
  note ab = merge_all_lookup [OF assms(1)] merge_all_lookup [OF assms(2)] merge_one_choice attribute_def
  show ?thesis
  proof (cases "map_of a k = None \<or> map_of b k = None")
    case True
    then show ?thesis by (cases "map_of a k"; cases "map_of b k") (auto simp: ab)
  next
    case False
    then obtain va vb where v: "map_of a k = Some va" "map_of b k = Some vb" by auto
    then have "stamp_of (dict_of va) \<noteq> stamp_of (dict_of vb)" using assms(3) by blast
    with v show ?thesis by (auto simp: ab)
  qed
qed

theorem merge_order_irrelevant_witness:
  "dget_or (merge_all (dict_of (dget (demo_reading 54 800) ''attributes''))
     (merge_all (dict_of (dget (demo_reading 55 900) ''attributes'')) [])) ''soc'' PNone =
   dget_or (merge_all (dict_of (dget (demo_reading 55 900) ''attributes''))
     (merge_all (dict_of (dget (demo_reading 54 800) ''attributes'')) [])) ''soc'' PNone"
proof (rule merge_order_irrelevant)
  have "stamp_of [(''value'', PInt 55), (''timestamp_in_ms'', PInt 900)] \<noteq>
      stamp_of [(''value'', PInt 54), (''timestamp_in_ms'', PInt 800)]" by code_simp
  then show "\<forall>k va vb. map_of (dict_of (dget (demo_reading 55 900) ''attributes'')) k = Some va \<and>
      map_of (dict_of (dget (demo_reading 54 800) ''attributes'')) k = Some vb \<longrightarrow>
      stamp_of (dict_of va) \<noteq> stamp_of (dict_of vb)"
    by (auto simp: demo_reading_def)
qed (simp_all add: demo_reading_def)

section \<open>Frames of other vehicles\<close>

text \<open>
  every frame of an acknowledged kind is answered with its own sequence number, whichever
  vehicle it is about, and a frame that does not carry this vehicle's telemetry changes nothing
  and yields no snapshot.
\<close>

theorem foreign_frames_acknowledged_not_merged:
  assumes "parse raw = Inr m"
    and "pm_kind m = Some ''vepUpdates'' \<or> pm_kind m = Some ''vehicle_status_updates'' \<longrightarrow>
      map_of (pm_cars m) (pr_vin p) = None"
  shows "decode parse now raw p = (Inr (reply_for m, None), p) \<and>
    (\<forall>k ack. pm_kind m = Some k \<and> map_of ACKS k = Some ack \<longrightarrow> reply_for m = Some (Ack ack (pm_seq m)))"
  using assms by (auto simp: decode_def update_for_def reply_for_def)

theorem foreign_frames_acknowledged_not_merged_witness:
  "decode (\<lambda>_. Inr \<lparr>pm_kind = Some ''vepUpdates'', pm_seq = 7, pm_cars = [(''OTHER'', demo_reading 1 2)]\<rparr>) 5 ()
     (new_protocol ''V'') = (Inr (Some (Ack ''acknowledge_vep_updates_by_vin'' 7), None), new_protocol ''V'')"
  using foreign_frames_acknowledged_not_merged
      [of "\<lambda>_. Inr \<lparr>pm_kind = Some ''vepUpdates'', pm_seq = 7, pm_cars = [(''OTHER'', demo_reading 1 2)]\<rparr>"
        "()" "\<lparr>pm_kind = Some ''vepUpdates'', pm_seq = 7, pm_cars = [(''OTHER'', demo_reading 1 2)]\<rparr>" "new_protocol ''V''" 5]
  by (simp add: new_protocol_def reply_for_def ACKS_def)

text \<open>
  a widget response gives a snapshot of this vehicle only, made of that response alone: it is
  the first revision of a full update and does not depend on any attribute cached from the stream.
\<close>

theorem rest_snapshot_uncached:
  assumes "decode_rest pv ps now raw p = Inr (Some s)"
  shows "dget s ''vin'' = PStr (pr_vin p) \<and> dget s ''full_update'' = PBool True \<and> dget s ''revision'' = PInt 1 \<and>
    (\<forall>q. pr_vin q = pr_vin p \<longrightarrow> decode_rest pv ps now raw q = Inr (Some s))"
proof -
  have "fst (merge now (dset ''full_update'' (PBool True) u) (new_protocol (pr_vin p))) = Some s \<Longrightarrow>
      dget s ''vin'' = PStr (pr_vin p) \<and> dget s ''full_update'' = PBool True \<and> dget s ''revision'' = PInt 1" for u
    by (auto simp: merge_def Let_def snapshot_def new_protocol_def split: if_splits)
  moreover have "\<exists>u. fst (merge now (dset ''full_update'' (PBool True) u) (new_protocol (pr_vin p))) = Some s"
    using assms by (auto simp: decode_rest_def rbind_Inr_iff Let_def split: if_splits)
  moreover have "decode_rest pv ps now raw q = decode_rest pv ps now raw p" if "pr_vin q = pr_vin p" for q
    by (simp only: decode_rest_def that)
  ultimately show ?thesis using assms by auto
qed

definition demo_vep :: "unit \<Rightarrow> pydict res" where
  "demo_vep _ = Inr ((''vin'', PStr ''V'') # demo_reading 55 900)"

theorem rest_snapshot_uncached_witness:
  "\<exists>s. decode_rest demo_vep demo_vep 5 () (new_protocol ''V'') = Inr (Some s) \<and> dget s ''revision'' = PInt 1"
proof -
  have "is_ok (decode_rest demo_vep demo_vep 5 () (new_protocol ''V'')) \<and>
      decode_rest demo_vep demo_vep 5 () (new_protocol ''V'') \<noteq> Inr None" by code_simp
  then obtain s where s: "decode_rest demo_vep demo_vep 5 () (new_protocol ''V'') = Inr (Some s)"
    by (auto simp: is_ok_iff)
  with rest_snapshot_uncached [OF s] show ?thesis by blast
qed

section \<open>Timestamps of the newer message\<close>

lemma stamp_of_text: "\<bar>n\<bar> < 2 ^ 53 \<Longrightarrow> map_of a ''timestamp_in_ms'' = Some (PStr (show_int n)) \<Longrightarrow> stamp_of a = of_int n"
  by (simp add: stamp_of_def finite_num_def dget_or_def parse_float_show_int fl_small_int)

lemma keeps_stamp [simp]:
  "map_of (with_display dv d) ''timestamp_in_ms'' = map_of d ''timestamp_in_ms''"
  "map_of (typed_value v d) ''timestamp_in_ms'' = map_of d ''timestamp_in_ms''"
  by (simp_all add: with_display_def) (cases v; simp add: Let_def split: option.splits)

lemma normalize_value_keeps_stamp [simp]:
  "map_of (normalize_value key v d) ''timestamp_in_ms'' = map_of d ''timestamp_in_ms''"
  by (simp add: normalize_value_def normalize_scalar_value_def Let_def)

lemma with_status_keeps_stamp:
  "with_status st d = Inr d' \<Longrightarrow> map_of d' ''timestamp_in_ms'' = map_of d ''timestamp_in_ms''"
  by (auto simp: with_status_def rbind_Inr_iff split: if_splits)

lemma unit_keys: "map_of VSU_UNIT_TO_LEGACY_KEY un = Some k \<Longrightarrow> k \<noteq> ''timestamp_in_ms''"
  by (drule map_of_SomeD) (auto simp: VSU_UNIT_TO_LEGACY_KEY_def)

lemma with_unit_keeps_stamp:
  "with_unit un d = Inr d' \<Longrightarrow> map_of d' ''timestamp_in_ms'' = map_of d ''timestamp_in_ms''"
  by (auto simp: with_unit_def rbind_Inr_iff lookup_value_def dest: unit_keys split: if_splits pyval.splits option.splits)

text \<open>
  an attribute of the newer message whose metadata carries a readable date enters the merge with
  exactly that time in milliseconds, whatever its unit, status and value: the number survives the
  detour through text, so newer and older messages are ordered on one scale.
\<close>

theorem vsu_timestamp_orders_merge:
  assumes "normalize_attribute key (PDict a) = Inr (Some (k, d))" and "dget a ''metadata'' = PDict md"
    and "dget md ''timestamp'' = PStr text" and "iso_to_epoch_seconds (PStr text) = Inr (Some e)"
    and "\<bar>e * 1000\<bar> < 2 ^ 53"
  shows "stamp_of d = of_int (e * 1000)"
proof -
  have md: "or_empty (dget a ''metadata'') = PDict md"
    using assms(2,3) by (auto simp: or_empty_def)
  from assms(1) md assms(3,4) obtain d1 d2 where
    d1: "with_status (dget md ''status'') (with_timestamp (Some e) []) = Inr d1"
    and d2: "with_unit (dget a ''unit'') d1 = Inr d2"
    and d: "map_of d ''timestamp_in_ms'' = map_of d2 ''timestamp_in_ms''"
    by (auto simp: normalize_attribute_def Let_def rbind_Inr_iff)
  have "map_of d ''timestamp_in_ms'' = Some (PStr (show_int (e * 1000)))"
    using d with_unit_keeps_stamp [OF d2] with_status_keeps_stamp [OF d1] by (simp add: with_timestamp_def)
  then show ?thesis by (rule stamp_of_text [OF assms(5)])
qed

definition demo_vsu :: pydict where
  "demo_vsu = [(''metadata'', PDict [(''timestamp'', PStr ''2024-02-29T10:00:01Z''), (''status'', PStr ''VALUE_INVALID'')]),
     (''unit'', PStr ''PERCENT''), (''value'', PInt 55)]"

theorem vsu_timestamp_orders_merge_witness:
  "\<exists>d. normalize_attribute ''soc'' (PDict demo_vsu) = Inr (Some (''soc'', d)) \<and> stamp_of d = 1709200801000"
proof -
  have "(case normalize_attribute ''soc'' (PDict demo_vsu) of Inr (Some (k, d)) \<Rightarrow> k = ''soc'' | _ \<Rightarrow> False)"
    by code_simp
  then obtain d where d: "normalize_attribute ''soc'' (PDict demo_vsu) = Inr (Some (''soc'', d))"
    by (auto split: sum.splits option.splits)
  have "iso_to_epoch_seconds (PStr ''2024-02-29T10:00:01Z'') = Inr (Some 1709200801)" by code_simp
  from vsu_timestamp_orders_merge [OF d _ _ this] d show ?thesis by (simp add: demo_vsu_def)
qed

end
