(* ===== verification/Traffic.thy ===== *)
theory Traffic
  imports Store
begin

text \<open>
  \<^verbatim>\<open>dbus_ev/mercedes/traffic.py\<close>: the persisted request and login limits of the one Mercedes
  account owner. \<open>tr_data\<close> is the dictionary the code keeps, \<open>tr_file\<close> what its sidecar file holds.
  An operation takes the reading \<open>mt\<close> of the monotonic clock and \<open>wall\<close> of the system clock; all
  the readings one operation makes of a clock are the same.
\<close>

definition RATE_LIMIT_MIN :: rat where "RATE_LIMIT_MIN = 1800"
definition RATE_LIMIT_MAX :: rat where "RATE_LIMIT_MAX = 21600"
definition LOGIN_INTERVAL :: rat where "LOGIN_INTERVAL = 21600"

lemmas traffic_consts = RATE_LIMIT_MIN_def RATE_LIMIT_MAX_def LOGIN_INTERVAL_def

section \<open>Retry-After\<close>

text \<open>
  The header of the failed response, if it had one, as seconds or as an HTTP date. \<open>http_date\<close> is
  the standard library's date parser: the Unix time of the text, or \<open>None\<close> where it raises.
\<close>

definition retry_delay :: "(string \<Rightarrow> rat option) \<Rightarrow> time \<Rightarrow> string option \<Rightarrow> rat \<Rightarrow> rat" where
  "retry_delay http_date wall header minimum =
     (case header of None \<Rightarrow> minimum
      | Some text \<Rightarrow>
          (case parse_float text of
             Some f \<Rightarrow> (case f of Fin q \<Rightarrow> max minimum q | _ \<Rightarrow> minimum)
           | None \<Rightarrow> (case http_date text of None \<Rightarrow> minimum | Some t \<Rightarrow> max minimum (t - wall))))"

lemma retry_delay_minimum: "minimum \<le> retry_delay http_date wall header minimum"
  by (auto simp: retry_delay_def split: option.splits pyfloat.splits)

section \<open>The limits\<close>

record limits =
  tr_data :: pydict
  tr_deadline :: rat
  tr_login_deadline :: rat
  tr_file :: "pyval option"

text \<open>The value of a stored number; \<^verbatim>\<open>bool\<close> is an \<^verbatim>\<open>int\<close>.\<close>

fun num_of :: "pyval \<Rightarrow> rat" where
  "num_of (PInt n) = of_int n"
| "num_of (PBool b) = (if b then 1 else 0)"
| "num_of (PFloat (Fin q)) = q"
| "num_of _ = 0"

fun valid_limit :: "pyval \<Rightarrow> bool res" where
  "valid_limit (PInt n) = rbind (float_of_int n) (\<lambda>_. Inr (0 \<le> n))"
| "valid_limit (PBool b) = Inr True"
| "valid_limit (PFloat f) = Inr (case f of Fin q \<Rightarrow> 0 \<le> q | _ \<Rightarrow> False)"
| "valid_limit _ = Inr False"

definition limit_keys :: "string list" where
  "limit_keys = [''request_after'', ''login_after'', ''rate_retry'']"

fun check_limits :: "pydict \<Rightarrow> string list \<Rightarrow> unit res" where
  "check_limits d [] = Inr ()"
| "check_limits d (k # ks) =
     rbind (valid_limit (dget_or d k (PInt 0)))
       (\<lambda>good. if good then check_limits d ks else Inl ValueError)"

definition stored :: "pydict \<Rightarrow> string \<Rightarrow> rat" where
  "stored d k = num_of (dget_or d k (PInt 0))"

definition deadline_of :: "pydict \<Rightarrow> string \<Rightarrow> time \<Rightarrow> time \<Rightarrow> rat" where
  "deadline_of d k mt wall =
     (let remaining = max 0 (stored d k - wall) in if remaining \<noteq> 0 then mt + remaining else 0)"

definition limits_init :: "pyval option \<Rightarrow> time \<Rightarrow> time \<Rightarrow> limits res" where
  "limits_init file mt wall =
     (case (case file of None \<Rightarrow> PDict [] | Some v \<Rightarrow> v) of
        PDict d \<Rightarrow>
          rbind (check_limits d limit_keys) (\<lambda>_.
            Inr \<lparr>tr_data = d, tr_deadline = deadline_of d ''request_after'' mt wall,
                 tr_login_deadline = deadline_of d ''login_after'' mt wall, tr_file = file\<rparr>)
      | _ \<Rightarrow> Inl TypeError)"

definition remaining :: "time \<Rightarrow> limits \<Rightarrow> rat" where
  "remaining mt t = max 0 (tr_deadline t - mt)"

text \<open>\<^verbatim>\<open>self.store.save(self.data)\<close>: the file is replaced, or the call raises and leaves it.\<close>

definition persist :: "save_fault \<Rightarrow> limits \<Rightarrow> unit res \<times> limits" where
  "persist fault t =
     (if fault = Fine then (Inr (), t\<lparr>tr_file := Some (PDict (tr_data t))\<rparr>) else (Inl OSError, t))"

definition pause :: "save_fault \<Rightarrow> time \<Rightarrow> time \<Rightarrow> rat \<Rightarrow> limits \<Rightarrow> unit res \<times> limits" where
  "pause fault mt wall delay t =
     (let delay = max delay (remaining mt t)
      in persist fault (t\<lparr>tr_deadline := mt + delay,
           tr_data := dset ''request_after'' (PFloat (Fin (wall + delay))) (tr_data t)\<rparr>))"

text \<open>The current backoff and its successor; an \<^verbatim>\<open>int\<close> stays an \<^verbatim>\<open>int\<close>.\<close>

definition rate_minimum :: "limits \<Rightarrow> pyval" where
  "rate_minimum t =
     (let v = dget_or (tr_data t) ''rate_retry'' (PInt 1800)
      in if RATE_LIMIT_MIN < num_of v then v else PInt 1800)"

fun doubled :: "pyval \<Rightarrow> pyval" where
  "doubled (PInt n) = PInt (n * 2)"
| "doubled (PFloat (Fin q)) = PFloat (Fin (q * 2))"
| "doubled v = v"

definition next_retry :: "pyval \<Rightarrow> pyval" where
  "next_retry v = (if RATE_LIMIT_MAX < num_of (doubled v) then PInt 21600 else doubled v)"

definition rate_limited ::
  "(string \<Rightarrow> rat option) \<Rightarrow> save_fault \<Rightarrow> time \<Rightarrow> time \<Rightarrow> string option \<Rightarrow> limits \<Rightarrow> unit res \<times> limits" where
  "rate_limited http_date fault mt wall header t =
     (let minimum = rate_minimum t;
          t = t\<lparr>tr_data := dset ''rate_retry'' (next_retry minimum) (tr_data t)\<rparr>
      in pause fault mt wall (retry_delay http_date wall header (num_of minimum)) t)"

definition healthy :: "save_fault \<Rightarrow> time \<Rightarrow> limits \<Rightarrow> unit res \<times> limits" where
  "healthy fault mt t =
     (if remaining mt t = 0 \<and>
         num_of (dget_or (tr_data t) ''rate_retry'' (PInt 1800)) \<noteq> RATE_LIMIT_MIN
      then persist fault (t\<lparr>tr_data := dset ''rate_retry'' (PInt 1800) (tr_data t)\<rparr>)
      else (Inr (), t))"

definition login_failed_flag :: "limits \<Rightarrow> bool" where
  "login_failed_flag t = truthy (dget_or (tr_data t) ''login_failed'' (PBool False))"

definition hold_login :: "time \<Rightarrow> time \<Rightarrow> limits \<Rightarrow> limits" where
  "hold_login mt wall t =
     t\<lparr>tr_login_deadline := mt + LOGIN_INTERVAL,
       tr_data := dset ''login_after'' (PFloat (Fin (wall + LOGIN_INTERVAL))) (tr_data t)\<rparr>"

definition reserve_login :: "save_fault \<Rightarrow> time \<Rightarrow> time \<Rightarrow> limits \<Rightarrow> bool res \<times> limits" where
  "reserve_login fault mt wall t =
     (if remaining mt t \<noteq> 0 \<or> login_failed_flag t \<or> mt < tr_login_deadline t
      then (Inr False, t)
      else let (r, t) = persist fault (hold_login mt wall t)
           in (rbind r (\<lambda>_. Inr True), t))"

definition login_failed :: "save_fault \<Rightarrow> limits \<Rightarrow> unit res \<times> limits" where
  "login_failed fault t = persist fault (t\<lparr>tr_data := dset ''login_failed'' (PBool True) (tr_data t)\<rparr>)"

definition manual_login_succeeded :: "save_fault \<Rightarrow> time \<Rightarrow> time \<Rightarrow> limits \<Rightarrow> unit res \<times> limits" where
  "manual_login_succeeded fault mt wall t =
     persist fault (hold_login mt wall (t\<lparr>tr_data := dset ''login_failed'' (PBool False) (tr_data t)\<rparr>))"

section \<open>The file is durable\<close>

text \<open>What a restart reads is what the last completed save wrote.\<close>

definition put_limits :: "pydict \<Rightarrow> limits \<Rightarrow> limits" where
  "put_limits d t = t\<lparr>tr_file := Some (PDict d)\<rparr>"

fun loaded :: "limits \<Rightarrow> pydict" where
  "loaded t = (case tr_file t of Some (PDict d) \<Rightarrow> d | _ \<Rightarrow> [])"

interpretation limits_file: durable put_limits loaded
  by unfold_locales (simp add: put_limits_def)

lemma persist_Fine: "persist Fine t = (Inr (), put_limits (tr_data t) t)"
  by (simp add: persist_def put_limits_def)

lemma persist_memory [simp]:
  "tr_data (snd (persist fault t)) = tr_data t"
  "tr_deadline (snd (persist fault t)) = tr_deadline t"
  "tr_login_deadline (snd (persist fault t)) = tr_login_deadline t"
  by (simp_all add: persist_def)

lemma persist_file: "tr_file (snd (persist fault t)) = (if fault = Fine then Some (PDict (tr_data t)) else tr_file t)"
  by (simp add: persist_def)

lemma persist_result: "fst (persist fault t) = (if fault = Fine then Inr () else Inl OSError)"
  by (simp add: persist_def)

section \<open>Pauses\<close>

lemma remaining_nonneg [simp]: "0 \<le> remaining mt t"
  by (simp add: remaining_def)

lemma remaining_after_pause: "0 \<le> delay \<Longrightarrow> remaining mt (snd (pause fault mt wall delay t)) = max delay (remaining mt t)"
  by (simp add: pause_def Let_def remaining_def)

lemma valid_limit_num_nonneg: "valid_limit v = Inr True \<Longrightarrow> 0 \<le> num_of v"
  by (cases v rule: valid_limit.cases) (auto simp: rbind_Inr_iff split: pyfloat.splits)

lemma check_limits_iff: "check_limits d ks = Inr () \<longleftrightarrow> (\<forall>k\<in>set ks. valid_limit (dget_or d k (PInt 0)) = Inr True)"
  by (induction ks) (auto simp: rbind_Inr_iff)

lemma check_limits_dset:
  "check_limits d ks = Inr () \<Longrightarrow> valid_limit v = Inr True \<Longrightarrow> check_limits (dset k v d) ks = Inr ()"
  by (auto simp: check_limits_iff)

definition limits_ok :: "limits \<Rightarrow> bool" where
  "limits_ok t = (check_limits (tr_data t) limit_keys = Inr ())"

text \<open>
  a pause never shortens a wait already in force and lasts at least the requested delay; once
  its save has completed, a restart at any later time is accepted and still waits out exactly what
  is left of it on the system clock.
\<close>

theorem pause_survives_restart:
  assumes "limits_ok t" and "0 \<le> delay" and "0 \<le> wall" and "pause Fine mt wall delay t = (r, t')"
    and "0 \<le> mt2"
  shows "r = Inr () \<and> delay \<le> remaining mt t' \<and> remaining mt t \<le> remaining mt t' \<and>
    (\<exists>t2. limits_init (tr_file t') mt2 wall2 = Inr t2 \<and>
       remaining mt2 t2 = max 0 (wall + remaining mt t' - wall2))"
proof -
  define d where "d = dset ''request_after'' (PFloat (Fin (wall + max delay (remaining mt t)))) (tr_data t)"
  have pos: "0 \<le> wall + max delay (remaining mt t)" using assms(2,3) by simp
  have t': "r = Inr ()" "tr_file t' = Some (PDict d)" "remaining mt t' = max delay (remaining mt t)"
    using assms(2,4) remaining_after_pause [OF assms(2), of mt Fine wall t]
    by (auto simp: pause_def Let_def persist_def d_def)
  have "check_limits d limit_keys = Inr ()"
    unfolding d_def using assms(1) pos by (intro check_limits_dset) (simp_all add: limits_ok_def)
  moreover have "stored d ''request_after'' = wall + max delay (remaining mt t)"
    by (simp add: d_def stored_def)
  ultimately show ?thesis
    using t' assms(5) by (auto simp: limits_init_def deadline_of_def Let_def remaining_def)
qed

definition demo_limits :: limits where
  "demo_limits = \<lparr>tr_data = [], tr_deadline = 0, tr_login_deadline = 0, tr_file = None\<rparr>"

theorem pause_survives_restart_witness:
  "\<exists>t2. limits_init (tr_file (snd (pause Fine 10 1000 60 demo_limits))) 5 1020 = Inr t2 \<and> remaining 5 t2 = 40"
proof -
  have ok: "limits_ok demo_limits" by code_simp
  have p: "pause Fine 10 1000 60 demo_limits = (Inr (), snd (pause Fine 10 1000 60 demo_limits))"
    by (simp add: pause_def persist_def Let_def)
  have r: "remaining 10 (snd (pause Fine 10 1000 60 demo_limits)) = 60" by code_simp
  show ?thesis
    using pause_survives_restart [OF ok _ _ p, of 5 1020] r by simp
qed

section \<open>Repeated rate limiting\<close>

lemma num_of_doubled: "RATE_LIMIT_MIN < num_of v \<Longrightarrow> num_of (doubled v) = num_of v * 2"
  by (cases v rule: doubled.cases) (auto simp: traffic_consts split: if_splits)

lemma num_of_next_retry:
  "RATE_LIMIT_MIN \<le> num_of v \<Longrightarrow> num_of (next_retry v) = min (num_of v * 2) RATE_LIMIT_MAX"
  by (cases v rule: doubled.cases) (auto simp: next_retry_def traffic_consts split: if_splits)

lemma rate_minimum_ge: "RATE_LIMIT_MIN \<le> num_of (rate_minimum t)"
  by (simp add: rate_minimum_def Let_def traffic_consts)

lemma rate_minimum_after:
  "num_of (rate_minimum (snd (rate_limited h fault mt wall hdr t))) = min (num_of (rate_minimum t) * 2) RATE_LIMIT_MAX"
proof -
  have "dget_or (tr_data (snd (rate_limited h fault mt wall hdr t))) ''rate_retry'' (PInt 1800) = next_retry (rate_minimum t)"
    by (simp add: rate_limited_def pause_def Let_def)
  moreover have "num_of (next_retry (rate_minimum t)) = min (num_of (rate_minimum t) * 2) RATE_LIMIT_MAX"
    by (rule num_of_next_retry [OF rate_minimum_ge])
  ultimately show ?thesis
    using rate_minimum_ge [of t]
    by (auto simp: rate_minimum_def [of "snd _"] Let_def traffic_consts)
qed

lemma rate_limited_waits:
  "num_of (rate_minimum t) \<le> remaining mt (snd (rate_limited h fault mt wall hdr t))"
proof -
  let ?t = "t\<lparr>tr_data := dset ''rate_retry'' (next_retry (rate_minimum t)) (tr_data t)\<rparr>"
  have m: "num_of (rate_minimum t) \<le> retry_delay h wall hdr (num_of (rate_minimum t))"
    by (rule retry_delay_minimum)
  moreover have "0 \<le> num_of (rate_minimum t)"
    using rate_minimum_ge [of t] by (simp add: traffic_consts)
  ultimately show ?thesis
    by (simp add: rate_limited_def Let_def remaining_after_pause)
qed

text \<open>The account after a run of 429 responses, each at its own time with its own header.\<close>

fun after_429s ::
  "(string \<Rightarrow> rat option) \<Rightarrow> (time \<times> time \<times> string option \<times> save_fault) list \<Rightarrow> limits \<Rightarrow> limits" where
  "after_429s h [] t = t"
| "after_429s h ((mt, wall, hdr, fault) # rs) t = after_429s h rs (snd (rate_limited h fault mt wall hdr t))"

lemma min_mult_cap:
  fixes c :: rat
  assumes "0 \<le> c" and "1 \<le> p"
  shows "min (min y c * p) c = min (y * p) c"
proof (cases "y \<le> c")
  case False
  have "c \<le> c * p" using mult_left_mono [OF assms(2,1)] by simp
  moreover have "c * p \<le> y * p" using False assms by (intro mult_right_mono) auto
  ultimately have "min (c * p) c = c" "min (y * p) c = c" by (simp_all only: min_absorb2 order_trans)
  with False show ?thesis by (simp add: min_absorb2)
qed simp

lemma rate_minimum_after_429s:
  "num_of (rate_minimum t) \<le> RATE_LIMIT_MAX \<Longrightarrow>
    num_of (rate_minimum (after_429s h rs t)) = min (num_of (rate_minimum t) * 2 ^ length rs) RATE_LIMIT_MAX"
proof (induction h rs t rule: after_429s.induct)
  case (1 h t)
  then show ?case by simp
next
  case (2 h mt wall hdr fault rs t)
  let ?t = "snd (rate_limited h fault mt wall hdr t)"
  have IH: "num_of (rate_minimum (after_429s h rs ?t)) = min (num_of (rate_minimum ?t) * 2 ^ length rs) RATE_LIMIT_MAX"
    by (rule 2(1)) (simp add: rate_minimum_after)
  have "min (min (num_of (rate_minimum t) * 2) RATE_LIMIT_MAX * 2 ^ length rs) RATE_LIMIT_MAX =
      min (num_of (rate_minimum t) * 2 * 2 ^ length rs) RATE_LIMIT_MAX"
    by (rule min_mult_cap) (simp_all add: traffic_consts)
  with IH show ?case by (simp add: rate_minimum_after ac_simps)
qed

text \<open>
  after \<open>n\<close> consecutive 429 responses from a healthy account, whatever their Retry-After
  headers and whether or not the saves complete, the next one blocks requests for at least
  \<open>1800 * 2 ^ n\<close> seconds, the escalation stopping at six hours.
\<close>

theorem repeated_429_backs_off:
  assumes "rate_minimum t = PInt 1800"
  shows "min (1800 * 2 ^ length rs) 21600 \<le>
    remaining mt (snd (rate_limited h fault mt wall hdr (after_429s h rs t)))"
proof -
  have "num_of (rate_minimum (after_429s h rs t)) = min (1800 * 2 ^ length rs) 21600"
    using rate_minimum_after_429s [of t h rs] assms by (simp add: traffic_consts)
  then show ?thesis
    using rate_limited_waits [of "after_429s h rs t" mt h fault wall hdr] by simp
qed

theorem repeated_429_backs_off_witness:
  "rate_minimum demo_limits = PInt 1800 \<and>
   7200 \<le> remaining 9 (snd (rate_limited (\<lambda>_. None) Fine 9 99 None
     (after_429s (\<lambda>_. None) [(1, 91, Some ''60'', Fine), (5, 95, None, WriteFails)] demo_limits)))"
proof -
  have m: "rate_minimum demo_limits = PInt 1800" by code_simp
  show ?thesis
    using repeated_429_backs_off [OF m, of "[(1, 91, Some ''60'', Fine), (5, 95, None, WriteFails)]"] m
    by simp
qed

section \<open>Any run of operations and restarts\<close>

text \<open>
  One process after another uses the limits. An event happens at a system time \<open>now\<close>; the process
  reads the monotonic clock as \<open>now - boot\<close>. A restart loads the file with a new clock origin and is
  ignored where the file is refused, since no process then runs.
\<close>

datatype event =
    Pause rat
  | Status429 "string option"
  | Healthy
  | Reserve
  | LoginFailed
  | ManualLogin
  | Restart time

type_synonym account = "limits \<times> time"

fun account_step ::
  "(string \<Rightarrow> rat option) \<Rightarrow> time \<Rightarrow> save_fault \<Rightarrow> event \<Rightarrow> account \<Rightarrow> bool \<times> account" where
  "account_step h now f (Pause delay) (t, boot) = (False, snd (pause f (now - boot) now delay t), boot)"
| "account_step h now f (Status429 hdr) (t, boot) = (False, snd (rate_limited h f (now - boot) now hdr t), boot)"
| "account_step h now f Healthy (t, boot) = (False, snd (healthy f (now - boot) t), boot)"
| "account_step h now f Reserve (t, boot) =
     (let (r, t') = reserve_login f (now - boot) now t in (r = Inr True, t', boot))"
| "account_step h now f LoginFailed (t, boot) = (False, snd (login_failed f t), boot)"
| "account_step h now f ManualLogin (t, boot) = (False, snd (manual_login_succeeded f (now - boot) now t), boot)"
| "account_step h now f (Restart boot') (t, boot) =
     (case limits_init (tr_file t) (now - boot') now of
        Inl _ \<Rightarrow> (False, t, boot) | Inr t' \<Rightarrow> (False, t', boot'))"

text \<open>The times at which credentials are sent without the operator.\<close>

fun login_times :: "(string \<Rightarrow> rat option) \<Rightarrow> (time \<times> save_fault \<times> event) list \<Rightarrow> account \<Rightarrow> time list" where
  "login_times h [] a = []"
| "login_times h ((now, f, e) # es) a =
     (let (sent, a') = account_step h now f e a
      in if sent then now # login_times h es a' else login_times h es a')"

text \<open>
  A clock that a run may show from \<open>now\<close> on: events in order, and a process' monotonic clock not
  before its origin.
\<close>

fun timely :: "time \<Rightarrow> (time \<times> save_fault \<times> event) list \<Rightarrow> bool" where
  "timely now [] = True"
| "timely now ((t, f, e) # es) =
     (now \<le> t \<and> (case e of Restart boot \<Rightarrow> boot \<le> t | _ \<Rightarrow> True) \<and> timely t es)"

text \<open>Until \<open>until\<close>, memory and file both refuse a login.\<close>

definition held :: "time \<Rightarrow> account \<Rightarrow> bool" where
  "held until a =
     (until \<le> tr_login_deadline (fst a) + snd a \<and> until \<le> stored (tr_data (fst a)) ''login_after'' \<and>
      until \<le> stored (loaded (fst a)) ''login_after'')"

lemma loaded_persist: "loaded (snd (persist f t)) = (if f = Fine then tr_data t else loaded t)"
  by (simp add: persist_def)

lemma loaded_update [simp]:
  "loaded (t\<lparr>tr_data := d\<rparr>) = loaded t" "loaded (t\<lparr>tr_deadline := x\<rparr>) = loaded t"
  "loaded (t\<lparr>tr_login_deadline := x\<rparr>) = loaded t"
  by simp_all

declare loaded.simps [simp del]

lemma stored_dset [simp]: "stored (dset k v d) k' = (if k' = k then num_of v else stored d k')"
  by (simp add: stored_def)

lemma held_persist [inv_intros]: "held u (t, boot) \<Longrightarrow> held u (snd (persist f t), boot)"
  by (simp add: held_def loaded_persist)

lemma held_pause [inv_intros]: "held u (t, boot) \<Longrightarrow> held u (snd (pause f mt wall delay t), boot)"
  unfolding pause_def Let_def by (intro held_persist) (simp add: held_def)

lemma held_rate_limited [inv_intros]:
  "held u (t, boot) \<Longrightarrow> held u (snd (rate_limited h f mt wall hdr t), boot)"
  unfolding rate_limited_def Let_def by (intro held_pause) (simp add: held_def)

lemma held_healthy [inv_intros]: "held u (t, boot) \<Longrightarrow> held u (snd (healthy f mt t), boot)"
  using held_persist [of u "t\<lparr>tr_data := dset ''rate_retry'' (PInt 1800) (tr_data t)\<rparr>" boot f]
  by (simp add: healthy_def held_def)

lemma held_login_failed [inv_intros]: "held u (t, boot) \<Longrightarrow> held u (snd (login_failed f t), boot)"
  unfolding login_failed_def by (intro held_persist) (simp add: held_def)

lemma held_hold_login:
  "held u (t, boot) \<Longrightarrow> u \<le> now + LOGIN_INTERVAL \<Longrightarrow> held u (hold_login (now - boot) now t, boot)"
  by (simp add: held_def hold_login_def)

lemma held_manual [inv_intros]:
  "held u (t, boot) \<Longrightarrow> u \<le> now + LOGIN_INTERVAL \<Longrightarrow>
    held u (snd (manual_login_succeeded f (now - boot) now t), boot)"
  unfolding manual_login_succeeded_def
  by (intro held_persist held_hold_login) (simp_all add: held_def)

lemma reserve_refused: "held u (t, boot) \<Longrightarrow> now < u \<Longrightarrow> reserve_login f (now - boot) now t = (Inr False, t)"
  by (simp add: held_def reserve_login_def)

lemma reserve_sent:
  "reserve_login f (now - boot) now t = (Inr True, t') \<Longrightarrow> held (now + LOGIN_INTERVAL) (t', boot)"
  by (auto simp: reserve_login_def hold_login_def persist_def held_def loaded.simps split: if_splits)

lemma held_restart:
  assumes "held u (t, boot)" and "limits_init (tr_file t) (now - boot') now = Inr t'" and "now < u"
  shows "held u (t', boot')"
proof -
  have d: "tr_data t' = loaded t \<and> loaded t' = loaded t \<and>
      tr_login_deadline t' = deadline_of (loaded t) ''login_after'' (now - boot') now"
    using assms(2) by (auto simp: limits_init_def loaded.simps rbind_Inr_iff split: option.splits pyval.splits)
  have "u \<le> stored (loaded t) ''login_after''" using assms(1) by (simp add: held_def)
  with d assms(3) show ?thesis by (simp add: held_def deadline_of_def Let_def)
qed

lemma account_step_held:
  assumes "held u a" and "now < u" and "u \<le> now + LOGIN_INTERVAL"
  shows "\<not> fst (account_step h now f e a) \<and> held u (snd (account_step h now f e a))"
  using assms
  by (cases a; cases e)
     (auto intro: inv_intros held_restart simp: reserve_refused split: sum.splits)

lemma login_times_ge: "timely now es \<Longrightarrow> x \<in> set (login_times h es a) \<Longrightarrow> now \<le> x"
proof (induction h es a arbitrary: now rule: login_times.induct)
  case (2 h t f e es a)
  then show ?case by (fastforce simp: split: prod.splits if_splits)
qed simp

lemma held_login_times:
  "timely now es \<Longrightarrow> held u a \<Longrightarrow> u \<le> now + LOGIN_INTERVAL \<Longrightarrow> x \<in> set (login_times h es a) \<Longrightarrow> u \<le> x"
proof (induction h es a arbitrary: now rule: login_times.induct)
  case (2 h t f e es a)
  show ?case
  proof (cases "t < u")
    case True
    obtain sent a' where st: "account_step h t f e a = (sent, a')"
    by (cases "account_step h t f e a")
    have "u \<le> t + LOGIN_INTERVAL" using 2(3,5) True by (simp add: LOGIN_INTERVAL_def)
    then have "\<not> sent \<and> held u a'" "u \<le> t + LOGIN_INTERVAL"
      using account_step_held [OF 2(4) True, of h f e] st by simp_all
    then show ?thesis using 2(2) [of "(sent, a')" sent a' t] 2(3,6) st by auto
  next
    case False
    have "timely t ((t, f, e) # es)" using 2(3) by (auto split: event.splits)
    then have "t \<le> x" using 2(6) by (rule login_times_ge)
    with False show ?thesis by simp
  qed
qed simp

text \<open>
  C6: in any run of pauses, 429 responses, failed and manual logins, failed saves and restarts, two
  automatic logins are at least six hours apart: a crash or a restart never shortens the interval.
\<close>

theorem automatic_logins_six_hours_apart:
  assumes "timely start es"
  shows "sorted_wrt (\<lambda>a b. a + 21600 \<le> b) (login_times h es account)"
  using assms
proof (induction h es account arbitrary: start rule: login_times.induct)
  case (2 h t f e es a)
  obtain sent a' where st: "account_step h t f e a = (sent, a')"
    by (cases "account_step h t f e a")
  have later: "timely t es" using 2(3) by simp
  have IH: "sorted_wrt (\<lambda>a b. a + 21600 \<le> b) (login_times h es a')"
    using 2(1,2) [of "(sent, a')" sent a'] st later by (cases sent) auto
  have "held (t + LOGIN_INTERVAL) a'" if sent
    using st that by (cases a; cases e) (auto split: prod.splits sum.splits intro: reserve_sent)
  then have "\<forall>x \<in> set (login_times h es a'). t + 21600 \<le> x" if sent
    using held_login_times [OF later _ order_refl] that by (simp add: LOGIN_INTERVAL_def)
  with IH show ?case by (simp add: st)
qed simp

theorem automatic_logins_six_hours_apart_witness:
  "login_times (\<lambda>_. None)
     [(100, Fine, Reserve), (200, Fine, Restart 190), (300, Fine, Reserve), (30000, Fine, Reserve)]
     (demo_limits, 50) = [100, 30000] \<and> (100::rat) + 21600 \<le> 30000"
proof -
  let ?es = "[(100, Fine, Reserve), (200, Fine, Restart 190), (300, Fine, Reserve), (30000, Fine, Reserve)]"
  have l: "login_times (\<lambda>_. None) ?es (demo_limits, 50) = [100, 30000]" by code_simp
  have "timely 0 ?es" by simp
  from automatic_logins_six_hours_apart [OF this, of "\<lambda>_. None" "(demo_limits, 50)"] l show ?thesis
    by simp
qed

end
