(* ===== verification/Recovery.thy ===== *)
theory Recovery
  imports Traffic
begin

text \<open>
  \<^verbatim>\<open>dbus_ev/mercedes/recovery.py\<close>: one bounded attempt to log in again with the configured
  credentials once the push stream has been refused. The login itself is a request to the account
  server: \<open>login user password\<close> is its outcome with the Retry-After header of a failed response.
\<close>

record credentials_file =
  cf_regular :: bool
  cf_mode :: int
  cf_uid :: int
  cf_json :: "pyval res"

record recovery =
  rc_file :: bool \<comment> \<open>a credentials file is configured\<close>
  rc_region :: pyval
  rc_failed :: bool

definition nonblank :: "pyval \<Rightarrow> bool" where
  "nonblank v = (case v of PStr s \<Rightarrow> strip s \<noteq> [] | _ \<Rightarrow> False)"

fun text_of :: "pyval \<Rightarrow> string" where
  "text_of (PStr s) = s"
| "text_of _ = []"

definition read_credentials :: "pyval \<Rightarrow> int \<Rightarrow> credentials_file res \<Rightarrow> (string \<times> string) res" where
  "read_credentials region euid file =
     rbind file (\<lambda>f.
       if \<not> cf_regular f \<or> cf_mode f mod 64 \<noteq> 0 \<or> cf_uid f \<noteq> euid then Inl ValueError
       else rbind (cf_json f) (\<lambda>c.
         rbind (vget c ''region'') (\<lambda>r.
         rbind (vget c ''username'') (\<lambda>u.
         rbind (vget c ''password'') (\<lambda>p.
           if r \<noteq> region \<or> \<not> nonblank u \<or> \<not> is_str p \<or> \<not> truthy p then Inl ValueError
           else Inr (text_of u, text_of p))))))"

type_synonym login = "string \<Rightarrow> string \<Rightarrow> pyval res \<times> string option"

definition check_token :: "pyval \<Rightarrow> unit res" where
  "check_token token =
     (if \<not> truthy token then Inl ValueError
      else rbind (vget token ''access_token'') (\<lambda>a. if truthy a then Inr () else Inl ValueError))"

text \<open>The body of the \<^verbatim>\<open>try\<close>: its outcome, the header of its failure, the credentials sent.\<close>

definition attempt ::
  "login \<Rightarrow> int \<Rightarrow> credentials_file res \<Rightarrow> recovery \<Rightarrow> unit res \<times> string option \<times> (string \<times> string) option" where
  "attempt login euid file rc =
     (case read_credentials (rc_region rc) euid file of
        Inl e \<Rightarrow> (Inl e, None, None)
      | Inr (user, password) \<Rightarrow>
          (case login user password of
             (Inl e, header) \<Rightarrow> (Inl e, header, Some (user, password))
           | (Inr token, header) \<Rightarrow> (check_token token, None, Some (user, password))))"

text \<open>The \<^verbatim>\<open>except\<close> branch; a save that fails raises out of it.\<close>

definition recovery_failed ::
  "(string \<Rightarrow> rat option) \<Rightarrow> (nat \<Rightarrow> save_fault) \<Rightarrow> time \<Rightarrow> time \<Rightarrow> pyexc \<Rightarrow> string option \<Rightarrow> limits \<Rightarrow>
    bool res \<times> limits" where
  "recovery_failed h faults mt wall e header t =
     (case login_failed (faults 1) t of
        (Inl err, t) \<Rightarrow> (Inl err, t)
      | (Inr _, t) \<Rightarrow>
          (case (if e = HttpStatus 429 then rate_limited h (faults 2) mt wall header t else (Inr (), t)) of
             (Inl err, t) \<Rightarrow> (Inl err, t)
           | (Inr _, t) \<Rightarrow>
               (case pause (faults 3) mt wall (retry_delay h wall header LOGIN_INTERVAL) t of
                  (r, t) \<Rightarrow> (rbind r (\<lambda>_. Inr False), t))))"

text \<open>
  The whole call: reserved at \<open>mt\<close>, \<open>wall\<close>, its failure handled at \<open>mt'\<close>, \<open>wall'\<close>; the last component
  is what was sent to the server.
\<close>

definition recover ::
  "(string \<Rightarrow> rat option) \<Rightarrow> login \<Rightarrow> int \<Rightarrow> credentials_file res \<Rightarrow> (nat \<Rightarrow> save_fault) \<Rightarrow>
    time \<Rightarrow> time \<Rightarrow> time \<Rightarrow> time \<Rightarrow> recovery \<Rightarrow> limits \<Rightarrow>
    bool res \<times> recovery \<times> limits \<times> (string \<times> string) option" where
  "recover h login euid file faults mt wall mt' wall' rc t =
     (if \<not> rc_file rc \<or> rc_failed rc then (Inr False, rc, t, None)
      else case reserve_login (faults 0) mt wall t of
        (Inl e, t) \<Rightarrow> (Inl e, rc, t, None)
      | (Inr False, t) \<Rightarrow> (Inr False, rc, t, None)
      | (Inr True, t) \<Rightarrow>
          (case attempt login euid file rc of
             (Inr _, header, sent) \<Rightarrow> (Inr True, rc, t, sent)
           | (Inl e, header, sent) \<Rightarrow>
               (case recovery_failed h faults mt' wall' e header t of
                  (r, t) \<Rightarrow> (r, rc\<lparr>rc_failed := True\<rparr>, t, sent))))"

section \<open>Properties\<close>

lemma reserve_login_flag:
  "reserve_login f mt wall t = (Inr True, t') \<Longrightarrow> \<not> login_failed_flag t \<and> remaining mt t = 0 \<and> tr_login_deadline t \<le> mt"
  by (auto simp: reserve_login_def split: if_splits)

lemma attempt_sent:
  assumes "attempt login euid file rc = (r, header, Some (u, p))"
  shows "\<exists>f. file = Inr f \<and> cf_regular f \<and> cf_mode f mod 64 = 0 \<and> cf_uid f = euid \<and>
    (\<exists>c. cf_json f = Inr (PDict c) \<and> dget c ''region'' = rc_region rc \<and>
      dget c ''username'' = PStr u \<and> dget c ''password'' = PStr p \<and> strip u \<noteq> [] \<and> p \<noteq> [])"
proof -
  have "read_credentials (rc_region rc) euid file = Inr (u, p)"
    using assms by (auto simp: attempt_def split: sum.splits prod.splits)
  then obtain f where f: "file = Inr f" "cf_regular f" "cf_mode f mod 64 = 0" "cf_uid f = euid"
    and c: "rbind (cf_json f) (\<lambda>c. rbind (vget c ''region'') (\<lambda>r. rbind (vget c ''username'') (\<lambda>u.
        rbind (vget c ''password'') (\<lambda>p. if r \<noteq> rc_region rc \<or> \<not> nonblank u \<or> \<not> is_str p \<or> \<not> truthy p
          then Inl ValueError else Inr (text_of u, text_of p))))) = Inr (u, p)"
    by (auto simp: read_credentials_def rbind_Inr_iff split: if_splits)
  from c obtain v where v: "cf_json f = Inr v" by (auto simp: rbind_Inr_iff)
  with c obtain c where d: "v = PDict c" by (cases v) (auto simp: rbind_Inr_iff)
  have "dget c ''region'' = rc_region rc \<and> nonblank (dget c ''username'') \<and> is_str (dget c ''password'') \<and>
      truthy (dget c ''password'') \<and> u = text_of (dget c ''username'') \<and> p = text_of (dget c ''password'')"
    using c v d by (auto split: if_splits)
  then show ?thesis
    using f v d by (cases "dget c ''username''"; cases "dget c ''password''") (auto simp: nonblank_def)
qed

text \<open>
  C14: account credentials leave the program only from a configured regular file that is private to
  the service user and names the configured region, only while no earlier recovery failed, and only
  after a login slot has been reserved: no request pause, no login hold and no failure flag was in
  force.
\<close>

theorem recovery_sends_only_private_credentials:
  assumes "recover h login euid file faults mt wall mt' wall' rc t = (r, rc', t', Some (u, p))"
  shows "rc_file rc \<and> \<not> rc_failed rc \<and> remaining mt t = 0 \<and> \<not> login_failed_flag t \<and> tr_login_deadline t \<le> mt \<and>
    faults 0 = Fine \<and>
    (\<exists>f c. file = Inr f \<and> cf_regular f \<and> cf_mode f mod 64 = 0 \<and> cf_uid f = euid \<and>
      cf_json f = Inr (PDict c) \<and> dget c ''region'' = rc_region rc \<and>
      dget c ''username'' = PStr u \<and> dget c ''password'' = PStr p)"
proof -
  have "\<exists>t1. reserve_login (faults 0) mt wall t = (Inr True, t1)"
    and g: "rc_file rc" "\<not> rc_failed rc" and "\<exists>x hd. attempt login euid file rc = (x, hd, Some (u, p))"
    using assms by (auto simp: recover_def split: if_splits prod.splits sum.splits bool.splits)
  then obtain t1 x hd where "reserve_login (faults 0) mt wall t = (Inr True, t1)"
    and a: "attempt login euid file rc = (x, hd, Some (u, p))" by blast
  then have "\<not> login_failed_flag t \<and> remaining mt t = 0 \<and> tr_login_deadline t \<le> mt" "faults 0 = Fine"
    by (auto simp: reserve_login_def persist_def split: if_splits)
  with g attempt_sent [OF a] show ?thesis by fastforce
qed

definition demo_credentials :: "credentials_file" where
  "demo_credentials = \<lparr>cf_regular = True, cf_mode = 33152, cf_uid = 0,
     cf_json = Inr (PDict [(''region'', PStr ''EU''), (''username'', PStr ''u''), (''password'', PStr ''p'')])\<rparr>"

definition demo_recovery :: recovery where
  "demo_recovery = \<lparr>rc_file = True, rc_region = PStr ''EU'', rc_failed = False\<rparr>"

definition demo_refused :: login where
  "demo_refused u p = (Inl (HttpStatus 429), Some ''7200'')"

definition demo_recover :: "bool res \<times> recovery \<times> limits \<times> (string \<times> string) option" where
  "demo_recover = recover (\<lambda>_. None) demo_refused 0 (Inr demo_credentials) (\<lambda>_. Fine) 10 1000 12 1002
     demo_recovery demo_limits"

lemma demo_recover_sent: "snd (snd (snd demo_recover)) = Some (''u'', ''p'')"
  by code_simp

theorem recovery_sends_only_private_credentials_witness:
  "snd (snd (snd demo_recover)) = Some (''u'', ''p'') \<and> cf_mode demo_credentials mod 64 = 0"
proof -
  obtain r rc t s where d: "demo_recover = (r, rc, t, s)" by (cases demo_recover) auto
  then have "recover (\<lambda>_. None) demo_refused 0 (Inr demo_credentials) (\<lambda>_. Fine) 10 1000 12 1002
      demo_recovery demo_limits = (r, rc, t, Some (''u'', ''p''))"
    using demo_recover_sent by (simp add: demo_recover_def)
  from recovery_sends_only_private_credentials [OF this] demo_recover_sent show ?thesis by auto
qed

text \<open>A failed login leaves the flag in memory and, its save completed, in the file.\<close>

definition barred :: "limits \<Rightarrow> bool" where
  "barred t = (login_failed_flag t \<and> truthy (dget_or (loaded t) ''login_failed'' (PBool False)))"

lemma barred_persist: "login_failed_flag t \<Longrightarrow> f = Fine \<or> barred t \<Longrightarrow> barred (snd (persist f t))"
  by (auto simp: barred_def login_failed_flag_def loaded_persist)

lemma barred_update:
  "barred t \<Longrightarrow> k \<noteq> ''login_failed'' \<Longrightarrow> barred (t\<lparr>tr_data := dset k v (tr_data t)\<rparr>)"
  by (auto simp: barred_def login_failed_flag_def)

lemma barred_keep: "barred t \<Longrightarrow> barred (snd (persist f t))"
  by (rule barred_persist) (auto simp: barred_def)

lemma barred_deadline [simp]: "barred (t\<lparr>tr_deadline := x\<rparr>) = barred t"
  by (simp add: barred_def login_failed_flag_def)

lemma barred_pause: "barred t \<Longrightarrow> barred (snd (pause f mt wall delay t))"
  unfolding pause_def Let_def by (intro barred_keep) (simp add: barred_def login_failed_flag_def)

lemma barred_rate_limited: "barred t \<Longrightarrow> barred (snd (rate_limited h f mt wall hdr t))"
  unfolding rate_limited_def Let_def by (intro barred_pause barred_update) simp_all

lemma barred_healthy: "barred t \<Longrightarrow> barred (snd (healthy f mt t))"
  by (simp add: healthy_def barred_keep barred_update)

lemma barred_login_failed: "f = Fine \<or> barred t \<Longrightarrow> barred (snd (login_failed f t))"
  unfolding login_failed_def
  by (rule barred_persist) (auto simp: login_failed_flag_def barred_def)

lemma barred_reserve: "barred t \<Longrightarrow> reserve_login f mt wall t = (Inr False, t)"
  by (simp add: barred_def reserve_login_def)

lemma barred_restart:
  assumes "barred t" and "limits_init (tr_file t) mt wall = Inr t'"
  shows "barred t'"
proof -
  have "tr_data t' = loaded t" "loaded t' = loaded t"
    using assms(2) by (auto simp: limits_init_def loaded.simps rbind_Inr_iff split: option.splits pyval.splits)
  with assms(1) show ?thesis by (simp add: barred_def login_failed_flag_def)
qed

lemma account_step_barred:
  assumes "barred (fst a)" and "e \<noteq> ManualLogin"
  shows "\<not> fst (account_step h now f e a) \<and> barred (fst (snd (account_step h now f e a)))"
  using assms
  by (cases a; cases e)
     (auto simp: barred_pause barred_rate_limited barred_healthy barred_login_failed barred_reserve
       intro: barred_restart split: sum.splits)

lemma barred_no_logins:
  "barred (fst a) \<Longrightarrow> \<forall>(now, f, e) \<in> set es. e \<noteq> ManualLogin \<Longrightarrow> login_times h es a = []"
proof (induction h es a rule: login_times.induct)
  case (2 h now f e es a)
  then have st: "\<not> fst (account_step h now f e a) \<and> barred (fst (snd (account_step h now f e a)))"
    by (intro account_step_barred) auto
  obtain sent a' where a: "account_step h now f e a = (sent, a')" by (cases "account_step h now f e a")
  with st 2 show ?case by (cases a') auto
qed simp

lemma recovery_failed_barred:
  assumes "faults 1 = Fine" and "recovery_failed h faults mt wall e hdr t = (r, t')"
  shows "barred t' \<and> r \<noteq> Inr True"
proof -
  obtain r1 t1 where l: "login_failed (faults 1) t = (r1, t1)" by (cases "login_failed (faults 1) t")
  with assms(1) have b: "r1 = Inr ()" "barred t1"
    using barred_login_failed [of "faults 1" t] by (auto simp: login_failed_def persist_def)
  obtain r2 t2 where m: "(if e = HttpStatus 429 then rate_limited h (faults 2) mt wall hdr t1 else (Inr (), t1)) = (r2, t2)"
    by fastforce
  with b have b2: "barred t2" using barred_rate_limited [OF b(2), of h "faults 2" mt wall hdr]
    by (auto split: if_splits)
  obtain r3 t3 where p: "pause (faults 3) mt wall (retry_delay h wall hdr LOGIN_INTERVAL) t2 = (r3, t3)"
    by fastforce
  then have "barred t3" using barred_pause [OF b2] by (metis snd_conv)
  with b b2 l m p assms(2) show ?thesis
    by (cases r2; cases r3) (auto simp: recovery_failed_def)
qed



end
