(* ===== verification/Client.thy ===== *)
theory Client
  imports Decoder Protocol Recovery Ha_Client
begin

text \<open>
  \<^verbatim>\<open>dbus_ev/mercedes/client.py\<close>: the account owner's background client. The snapshot projection of a
  decoded vehicle, the acceptance of a payload, the pacing of pulls and reconnects, and the
  nonblocking read of the main loop. Network exchanges are inputs: the outcome of a request, its
  Retry-After header, its body.
\<close>

section \<open>The snapshot\<close>

definition read_value :: "car \<Rightarrow> string \<Rightarrow> string \<Rightarrow> pyval" where
  "read_value c grp field =
     (case car_attr c grp field of None \<Rightarrow> PNone
      | Some a \<Rightarrow> if py_str (ca_status a) \<noteq> ''VALID'' then PNone else ca_value a)"

fun float_val :: "pyfloat option \<Rightarrow> pyval" where
  "float_val None = PNone"
| "float_val (Some f) = PFloat f"

definition finite_reading :: "car \<Rightarrow> string \<Rightarrow> string \<Rightarrow> pyfloat option" where
  "finite_reading c grp field = map_option Fin (finite_num (read_value c grp field))"

definition distance_reading :: "car \<Rightarrow> string \<Rightarrow> pyfloat option" where
  "distance_reading c field =
     (let grp = (if field = ''odo'' then ''odometer'' else ''electric'');
          miles = (case car_attr c grp field of None \<Rightarrow> False | Some a \<Rightarrow> upper (py_str (ca_unit a)) = ''MILES'')
      in map_option (\<lambda>f. if miles then fmul f km_per_mile else f) (finite_reading c grp field))"

text \<open>Charging power in watts: without a reading, zero for an unplugged vehicle and unknown otherwise.\<close>

definition power_reading :: "car \<Rightarrow> pyfloat option" where
  "power_reading c =
     map_option (\<lambda>f. fmul f 1000)
       (case finite_reading c ''electric'' ''chargingPower'' of
          Some f \<Rightarrow> Some f
        | None \<Rightarrow> if finite_num (read_value c ''electric'' ''chargingstatus'') = Some 3 then Some (Fin 0) else None)"

definition snapshot_of_car :: "pyval \<Rightarrow> pyval \<Rightarrow> car \<Rightarrow> pydict" where
  "snapshot_of_car vin capacity c =
     (let raw = read_value c ''electric'' ''chargingstatus''
      in [(''soc'', float_val (finite_reading c ''electric'' ''soc'')),
          (''target_soc'', float_val (finite_reading c ''electric'' ''max_soc'')),
          (''vin'', vin), (''battery_capacity'', capacity),
          (''charging_state'', if raw = PNone then PNone else int_val (map_charging_state (Some (py_str raw)))),
          (''mercedes_charging_status'', float_val (map_option Fin (finite_num raw))),
          (''odometer'', float_val (distance_reading c ''odo'')),
          (''range_to_go'', float_val (distance_reading c ''rangeelectric'')),
          (''latitude'', float_val (finite_reading c ''location'' ''positionLat'')),
          (''longitude'', float_val (finite_reading c ''location'' ''positionLong'')),
          (''at_site'', PNone), (''power'', float_val (power_reading c)), (''current'', PNone)])"

text \<open>The payload is changed by the decoder: the second component is what the caller keeps.\<close>

definition vehicle_snapshot :: "local_clock \<Rightarrow> pydict \<Rightarrow> pyval \<Rightarrow> (pydict \<times> pydict) res" where
  "vehicle_snapshot clock payload capacity =
     rbind (build_car clock False (dget payload ''data_mode'' = PStr ''pull'') payload new_decoder) (\<lambda>(payload, dc).
       case map_of (dc_cars dc) (dget payload ''vin'') of
         None \<Rightarrow> Inl KeyError
       | Some c \<Rightarrow> Inr (snapshot_of_car (dget payload ''vin'') capacity c, payload))"

definition client_at_site :: "libm \<Rightarrow> pydict \<Rightarrow> home \<Rightarrow> pyval" where
  "client_at_site m snap home =
     (case home of (hlat, hlon, hradius) \<Rightarrow>
        case (finite_num hlat, finite_num hlon, finite_num hradius,
              finite_num (dget snap ''latitude''), finite_num (dget snap ''longitude'')) of
          (Some lat, Some lon, Some radius, Some clat, Some clon) \<Rightarrow>
            (let lat1 = m_radians m lat; lat2 = m_radians m clat; dlat = lat2 - lat1; dlon = m_radians m (clon - lon);
                 a = m_sin m (dlat / 2) ^ 2 + m_cos m lat1 * m_cos m lat2 * m_sin m (dlon / 2) ^ 2
             in PBool (6371000 * 2 * m_asin m (min 1 (m_sqrt m a)) \<le> radius))
        | _ \<Rightarrow> PNone)"

section \<open>State\<close>

definition PULL_INTERVAL :: rat where "PULL_INTERVAL = 600"
definition INITIAL_PULL_DELAY :: rat where "INITIAL_PULL_DELAY = 120"
definition RECONNECT_MIN :: rat where "RECONNECT_MIN = 60"
definition RECONNECT_MAX :: rat where "RECONNECT_MAX = 3600"
definition HEALTHY_STREAM_TIME :: rat where "HEALTHY_STREAM_TIME = 300"

lemmas client_consts = PULL_INTERVAL_def INITIAL_PULL_DELAY_def RECONNECT_MIN_def RECONNECT_MAX_def HEALTHY_STREAM_TIME_def

definition websocket_regions :: "string list" where
  "websocket_regions = [''Asia-Pacific'', ''China'', ''North America'', ''Europe'']"

record mclient =
  mc_vin :: string
  mc_region :: string
  mc_limits :: limits
  mc_stale :: rat
  mc_capacity :: pyval
  mc_home :: home
  mc_snapshot :: pydict
  mc_payload :: pyval
  mc_received :: "time option"
  mc_connected :: bool
  mc_source :: string
  mc_vehicle :: pyval
  mc_next_pull :: rat
  mc_pull_retry :: rat
  mc_stop :: bool

definition client_init ::
  "string \<Rightarrow> string \<Rightarrow> limits res \<Rightarrow> rat \<Rightarrow> pyval \<Rightarrow> home \<Rightarrow> mclient res" where
  "client_init vin region lims stale_timeout capacity home =
     (if length vin \<noteq> 17 \<or> \<not> isascii vin \<or> \<not> isalnum vin then Inl ValueError
      else if region \<notin> set websocket_regions then Inl ValueError
      else rbind lims (\<lambda>lims.
        Inr \<lparr>mc_vin = upper vin, mc_region = region, mc_limits = lims, mc_stale = stale_timeout,
          mc_capacity = capacity, mc_home = home, mc_snapshot = [(''ok'', PBool False)], mc_payload = PNone,
          mc_received = None, mc_connected = False, mc_source = ''push'', mc_vehicle = PNone,
          mc_next_pull = 0, mc_pull_retry = PULL_INTERVAL, mc_stop = False\<rparr>))"

section \<open>Readings\<close>

text \<open>\<^verbatim>\<open>_accept\<close>: everything is computed before the shared state changes.\<close>

definition accept_payload :: "libm \<Rightarrow> local_clock \<Rightarrow> time \<Rightarrow> pydict \<Rightarrow> string \<Rightarrow> mclient \<Rightarrow> unit res \<times> mclient" where
  "accept_payload m clock mt payload source c =
     (let payload = dset ''data_mode'' (PStr source)
            (dset ''vehicle'' (if truthy (mc_vehicle c) then mc_vehicle c else PDict []) payload)
      in case vehicle_snapshot clock payload (mc_capacity c) of
           Inl e \<Rightarrow> (Inl e, c)
         | Inr (snap, payload) \<Rightarrow>
             (Inr (), c\<lparr>mc_payload := PDict payload,
                mc_snapshot := dset ''at_site'' (client_at_site m snap (mc_home c)) snap,
                mc_received := Some mt, mc_source := source\<rparr>))"

definition received_val :: "time option \<Rightarrow> pyval" where
  "received_val t = (case t of None \<Rightarrow> PNone | Some q \<Rightarrow> PFloat (Fin q))"

definition cached_snapshot :: "time \<Rightarrow> mclient \<Rightarrow> pydict" where
  "cached_snapshot mt c =
     dupdate (mc_snapshot c)
       [(''ok'', PBool (\<not> mc_stop c \<and> fresh (mc_stale c) mt (mc_received c) \<and> dget (mc_snapshot c) ''soc'' \<noteq> PNone)),
        (''_source_sample_started_at'', received_val (mc_received c)),
        (''mercedes_payload'', mc_payload c)]"

section \<open>Display metadata\<close>

text \<open>
  The two metadata requests; a response is its decoded JSON or its exception, \<open>OtherError\<close> standing
  for \<^verbatim>\<open>aiohttp.ClientError\<close>. What was gathered before an exception that is caught is kept.
\<close>

definition metadata_entry :: "string \<Rightarrow> pyval \<Rightarrow> pydict \<Rightarrow> pyexc option \<times> pydict" where
  "metadata_entry own vehicle md =
     (case rbind (vget vehicle ''vin'') (\<lambda>v. if truthy v then Inr v else vget vehicle ''fin'') of
        Inl e \<Rightarrow> (Some e, md)
      | Inr v \<Rightarrow>
          if v \<noteq> PStr own then (None, md)
          else let plate = (case vehicle of PDict d \<Rightarrow> dget d ''licensePlate'' | _ \<Rightarrow> PNone);
                   md = dset ''name'' (if truthy plate then plate else PStr own) md
               in case rbind (vget_dict vehicle ''salesRelatedInformation'') (\<lambda>s. rbind (vget_dict s ''baumuster'') (\<lambda>b.
                         vget_or b ''baumusterDescription'' (PStr ''Mercedes-Benz''))) of
                    Inl e \<Rightarrow> (Some e, md)
                  | Inr model \<Rightarrow>
                      (None, dset ''is_owner'' (PBool (case vehicle of PDict d \<Rightarrow> truthy (dget d ''isOwner'') | _ \<Rightarrow> False))
                        (dset ''model'' model md)))"

fun metadata_entries :: "string \<Rightarrow> pyval list \<Rightarrow> pydict \<Rightarrow> pyexc option \<times> pydict" where
  "metadata_entries own [] md = (None, md)"
| "metadata_entries own (v # vs) md =
     (case metadata_entry own v md of (Some e, md) \<Rightarrow> (Some e, md) | (None, md) \<Rightarrow> metadata_entries own vs md)"

definition info_keys :: "string list" where
  "info_keys = [''headUnitSoftwareVersion'', ''headUnitType'', ''starArchitecture'', ''tcuType'']"

definition occurs_in :: "string \<Rightarrow> string \<Rightarrow> bool" where
  "occurs_in k s = list_ex (\<lambda>n. startswith (drop n s) k) [0 ..< Suc (length s)]"

definition metadata_info :: "pyval \<Rightarrow> pydict res" where
  "metadata_info v =
     (case v of
        PDict d \<Rightarrow> Inr (map (\<lambda>k. (k, dget d k)) (filter (haskey d) info_keys))
      | PList xs \<Rightarrow> if list_ex (\<lambda>k. PStr k \<in> set xs) info_keys then Inl TypeError else Inr []
      | PStr s \<Rightarrow> if list_ex (\<lambda>k. occurs_in k s) info_keys then Inl TypeError else Inr []
      | _ \<Rightarrow> Inl TypeError)"

definition gather_metadata :: "string \<Rightarrow> pyval res \<Rightarrow> pyval res \<Rightarrow> pyexc option \<times> pydict" where
  "gather_metadata own vehicles capabilities =
     (case rbind vehicles (\<lambda>body. rbind (vget_or body ''assignedVehicles'' (PList [])) iter_items) of
        Inl e \<Rightarrow> (Some e, [])
      | Inr vs \<Rightarrow>
          (case metadata_entries own vs [] of
             (Some e, md) \<Rightarrow> (Some e, md)
           | (None, md) \<Rightarrow>
               (case rbind capabilities (\<lambda>c. rbind (vget_dict c ''vehicle'') metadata_info) of
                  Inl e \<Rightarrow> (Some e, md)
                | Inr info \<Rightarrow> (None, dset ''information'' (PDict info) md))))"

definition metadata :: "string \<Rightarrow> pyval res \<Rightarrow> pyval res \<Rightarrow> pydict res" where
  "metadata own vehicles capabilities =
     (case gather_metadata own vehicles capabilities of
        (None, md) \<Rightarrow> Inr md
      | (Some (HttpStatus n), md) \<Rightarrow> if n \<in> {401, 403, 429} then Inl (HttpStatus n) else Inr md
      | (Some e, md) \<Rightarrow> if e \<in> {OtherError, TimeoutError, ValueError, TypeError} then Inr md else Inl e)"

lemma metadata_entry_info: "metadata_entry own v md = (e, md') \<Longrightarrow> map_of md' ''information'' = map_of md ''information''"
  by (auto simp: metadata_entry_def Let_def split: sum.splits if_splits)

lemma metadata_entries_info: "metadata_entries own vs md = (e, md') \<Longrightarrow> map_of md' ''information'' = map_of md ''information''"
  by (induction own vs md rule: metadata_entries.induct)
    (auto dest: metadata_entry_info split: prod.splits option.splits)

text \<open>Whatever the two answers are, the information of the metadata is a dictionary.\<close>

lemma metadata_information: "metadata own vehicles capabilities = Inr md \<Longrightarrow> is_dict (dget_or md ''information'' (PDict []))"
proof -
  obtain e md' where g: "gather_metadata own vehicles capabilities = (e, md')" by (cases "gather_metadata own vehicles capabilities")
  then have "map_of md' ''information'' = None \<or> (\<exists>i. map_of md' ''information'' = Some (PDict i))"
    by (auto simp: gather_metadata_def dest: metadata_entries_info split: sum.splits prod.splits option.splits)
  then have "is_dict (dget_or md' ''information'' (PDict []))" by (auto simp: dget_or_def)
  moreover assume "metadata own vehicles capabilities = Inr md"
  with g have "md = md'" by (auto simp: metadata_def split: option.splits pyexc.splits if_splits)
  ultimately show ?thesis by simp
qed

section \<open>Pacing\<close>

text \<open>\<^verbatim>\<open>pause\<close> returns the wait it put in force.\<close>

definition paused_for :: "time \<Rightarrow> unit res \<times> limits \<Rightarrow> rat res \<times> limits" where
  "paused_for mt r = (rbind (fst r) (\<lambda>_. Inr (tr_deadline (snd r) - mt)), snd r)"

definition failure_delay ::
  "(string \<Rightarrow> rat option) \<Rightarrow> save_fault \<Rightarrow> time \<Rightarrow> time \<Rightarrow> pyexc \<Rightarrow> string option \<Rightarrow> rat \<Rightarrow> limits \<Rightarrow> rat res \<times> limits" where
  "failure_delay h fault mt wall e header minimum t =
     (if e = HttpStatus 429 then paused_for mt (rate_limited h fault mt wall header t)
      else if e \<in> {HttpStatus 401, HttpStatus 403, AuthError}
      then paused_for mt (pause fault mt wall (retry_delay h wall header LOGIN_INTERVAL) t)
      else if header \<noteq> None
      then paused_for mt (pause fault mt wall (retry_delay h wall header minimum) t)
      else (Inr (retry_delay h wall header minimum), t))"

text \<open>Whether the handshake was refused for good, and the wait; \<open>handshake\<close> says the socket never opened.\<close>

definition connection_failure ::
  "(string \<Rightarrow> rat option) \<Rightarrow> save_fault \<Rightarrow> time \<Rightarrow> time \<Rightarrow> pyexc \<Rightarrow> string option \<Rightarrow> bool \<Rightarrow> rat \<Rightarrow> limits \<Rightarrow>
    (bool \<times> rat) res \<times> limits" where
  "connection_failure h fault mt wall e header handshake retry t =
     (let (r, t) = failure_delay h fault mt wall e header retry t
      in (rbind r (\<lambda>delay. Inr (e = HttpStatus 429 \<and> handshake, delay)), t))"

definition pull_delay :: "time \<Rightarrow> mclient \<Rightarrow> rat" where
  "pull_delay mt c =
     (let due = (case mc_received c of None \<Rightarrow> mc_next_pull c | Some t \<Rightarrow> max (mc_next_pull c) (t + PULL_INTERVAL))
      in max (max 0 (due - mt)) (remaining mt (mc_limits c)))"

text \<open>
  One pull. \<open>response\<close> is the decoded widget snapshot, or the failure of a request on the way with its
  header; the last component counts the requests sent.
\<close>

definition pull_payload :: "time \<Rightarrow> pydict option res \<Rightarrow> mclient \<Rightarrow> protocol \<Rightarrow> (pydict \<times> string) res \<times> protocol" where
  "pull_payload now response c p =
     (case response of
        Inl e \<Rightarrow> (Inl e, p)
      | Inr None \<Rightarrow> (Inl ValueError, p)
      | Inr (Some payload) \<Rightarrow>
          if mc_connected c \<and> pr_full p
          then (case merge now [(''attributes'', dget payload ''attributes'')] p of
                  (None, p) \<Rightarrow> (Inl TypeError, p)
                | (Some d, p) \<Rightarrow> (Inr (d, ''push''), p))
          else (Inr (payload, ''pull''), p))"

definition pull ::
  "(string \<Rightarrow> rat option) \<Rightarrow> save_fault \<Rightarrow> libm \<Rightarrow> local_clock \<Rightarrow> time \<Rightarrow> pydict option res \<Rightarrow> string option \<Rightarrow>
    mclient \<Rightarrow> protocol \<Rightarrow> unit res \<times> mclient \<times> protocol \<times> nat" where
  "pull h fault m clock mt response header c p =
     (if remaining mt (mc_limits c) \<noteq> 0 then (Inr (), c, p, 0)
      else
        let (r, p) = pull_payload (lc_epoch clock) response c p;
            (r, c) = (case r of Inl e \<Rightarrow> (Inl e, c)
               | Inr (payload, source) \<Rightarrow> accept_payload m clock mt payload source c)
        in case r of
             Inr _ \<Rightarrow> (Inr (), c\<lparr>mc_pull_retry := PULL_INTERVAL, mc_next_pull := mt + PULL_INTERVAL\<rparr>, p, 1)
           | Inl e \<Rightarrow>
               (let (d, t) = failure_delay h fault mt (lc_epoch clock) e header
                      (min (mc_pull_retry c * 2) RECONNECT_MAX) (mc_limits c)
                in case d of
                     Inl err \<Rightarrow> (Inl err, c\<lparr>mc_limits := t\<rparr>, p, 1)
                   | Inr delay \<Rightarrow>
                       (Inr (), c\<lparr>mc_limits := t, mc_pull_retry := delay, mc_next_pull := mt + delay\<rparr>, p, 1)))"

text \<open>One binary frame of the stream: the reply goes out before the payload is accepted.\<close>

definition stream_frame ::
  "('raw \<Rightarrow> push res) \<Rightarrow> libm \<Rightarrow> local_clock \<Rightarrow> time \<Rightarrow> unit res \<Rightarrow> 'raw \<Rightarrow> mclient \<Rightarrow> protocol \<Rightarrow>
    unit res \<times> reply option \<times> mclient \<times> protocol" where
  "stream_frame parse m clock mt sent raw c p =
     (case decode parse (lc_epoch clock) raw p of
        (Inl e, p) \<Rightarrow> (Inl e, None, c, p)
      | (Inr (reply, payload), p) \<Rightarrow>
          (case (if reply = None then Inr () else sent) of
             Inl e \<Rightarrow> (Inl e, reply, c, p)
           | Inr _ \<Rightarrow>
               (case payload of
                  None \<Rightarrow> (Inr (), reply, c, p)
                | Some d \<Rightarrow> (let (r, c) = accept_payload m clock mt d ''push'' c in (r, reply, c, p)))))"

section \<open>One connection after another\<close>

text \<open>
  The reconnect loop, one round per element: the stream that opened and how long it lived, or the
  failure. A round gives the wait before the next one and whether a recovery login may be tried;
  \<open>recovered\<close> is that login's outcome.
\<close>

datatype round_end =
    StreamEnded rat
  | Unauthorized
  | Failed pyexc "string option" bool

record round_world =
  rw_mono :: time
  rw_wall :: time
  rw_fault :: save_fault
  rw_end :: round_end
  rw_recovered :: bool

definition round_outcome ::
  "(string \<Rightarrow> rat option) \<Rightarrow> round_world \<Rightarrow> rat \<Rightarrow> limits \<Rightarrow> (bool \<times> rat) res \<times> limits" where
  "round_outcome h w retry t =
     (case rw_end w of
        StreamEnded lived \<Rightarrow>
          if HEALTHY_STREAM_TIME \<le> lived
          then (case healthy (rw_fault w) (rw_mono w) t of
                  (Inr _, t) \<Rightarrow> (Inr (False, RECONNECT_MIN), t)
                | (Inl e, t) \<Rightarrow> connection_failure h Fine (rw_mono w) (rw_wall w) e None False RECONNECT_MIN t)
          else (Inr (False, retry), t)
      | Unauthorized \<Rightarrow>
          (let (r, t) = paused_for (rw_mono w) (pause (rw_fault w) (rw_mono w) (rw_wall w) LOGIN_INTERVAL t)
           in (rbind r (\<lambda>d. Inr (False, d)), t))
      | Failed e header handshake \<Rightarrow>
          connection_failure h (rw_fault w) (rw_mono w) (rw_wall w) e header handshake retry t)"

text \<open>The wait of the round and the retry value carried to the next.\<close>

definition serve_round ::
  "(string \<Rightarrow> rat option) \<Rightarrow> round_world \<Rightarrow> rat \<Rightarrow> limits \<Rightarrow> (rat \<times> rat) res \<times> limits" where
  "serve_round h w retry t =
     (case round_outcome h w retry t of
        (Inl e, t) \<Rightarrow> (Inl e, t)
      | (Inr (blocked, wait), t) \<Rightarrow>
          (Inr (wait, if blocked \<and> rw_recovered w then wait else min (wait * 2) RECONNECT_MAX), t))"

section \<open>Freshness\<close>

interpretation client_cache: freshness_cache mc_received
  "\<lambda>now c. dget (cached_snapshot now c) ''ok'' = PBool True" mc_stale
  by unfold_locales (simp add: cached_snapshot_def)

text \<open>
  the snapshot the main loop reads is marked valid only while the client runs, a payload was
  accepted less than the stale timeout ago and it carried a state of charge; reading never moves the
  acquisition time, and a failed pull or an undecodable frame leaves the cached reading untouched.
\<close>

theorem cached_snapshot_live:
  shows "(dget (cached_snapshot mt c) ''ok'' = PBool True \<longrightarrow>
      \<not> mc_stop c \<and> dget (mc_snapshot c) ''soc'' \<noteq> PNone \<and>
      (\<exists>t. mc_received c = Some t \<and> t \<le> mt \<and> mt < t + mc_stale c)) \<and>
    dget (cached_snapshot mt c) ''_source_sample_started_at'' = received_val (mc_received c) \<and>
    (fst (accept_payload m clock mt payload source c) \<noteq> Inr () \<longrightarrow>
      snd (accept_payload m clock mt payload source c) = c) \<and>
    (\<forall>e. mc_snapshot (fst (snd (pull h fault m clock mt (Inl e) header c p))) = mc_snapshot c \<and>
       mc_received (fst (snd (pull h fault m clock mt (Inl e) header c p))) = mc_received c)"
proof -
  have "dget (cached_snapshot mt c) ''ok'' = PBool True \<Longrightarrow> \<exists>t. mc_received c = Some t \<and> t \<le> mt \<and> mt < t + mc_stale c"
    by (rule client_cache.live_stamp_bounds)
  moreover have "dget (cached_snapshot mt c) ''ok'' =
      PBool (\<not> mc_stop c \<and> fresh (mc_stale c) mt (mc_received c) \<and> dget (mc_snapshot c) ''soc'' \<noteq> PNone)"
    "dget (cached_snapshot mt c) ''_source_sample_started_at'' = received_val (mc_received c)"
    by (simp_all add: cached_snapshot_def)
  moreover have "fst (accept_payload m clock mt payload source c) \<noteq> Inr () \<longrightarrow>
      snd (accept_payload m clock mt payload source c) = c"
    by (auto simp: accept_payload_def Let_def split: sum.splits)
  moreover have "mc_snapshot (fst (snd (pull h fault m clock mt (Inl e) header c p))) = mc_snapshot c \<and>
      mc_received (fst (snd (pull h fault m clock mt (Inl e) header c p))) = mc_received c" for e
    by (auto simp: pull_def pull_payload_def Let_def split: sum.splits prod.splits)
  ultimately show ?thesis by simp
qed

theorem cached_snapshot_live_witness:
  "\<exists>c. dget (cached_snapshot 300 c) ''ok'' = PBool True \<and> (\<exists>t. mc_received c = Some t \<and> t \<le> 300 \<and> 300 < t + mc_stale c)"
proof -
  define c where "c = \<lparr>mc_vin = ''WDD'', mc_region = ''Europe'', mc_limits = demo_limits, mc_stale = 900,
    mc_capacity = PNone, mc_home = (PNone, PNone, PNone), mc_snapshot = [(''soc'', PFloat (Fin 55))],
    mc_payload = PNone, mc_received = Some 100, mc_connected = True, mc_source = ''push'', mc_vehicle = PNone,
    mc_next_pull = 0, mc_pull_retry = 600, mc_stop = False\<rparr>"
  have ok: "dget (cached_snapshot 300 c) ''ok'' = PBool True"
    unfolding c_def by code_simp
  with cached_snapshot_live [where mt = 300 and c = c] show ?thesis by blast
qed

section \<open>From a message to the snapshot\<close>

text \<open>What a raw attribute promises: a finite number only when the provider marks it valid.\<close>

fun attribute_reading :: "pyval \<Rightarrow> rat option" where
  "attribute_reading (PDict a) =
     (if a \<noteq> [] \<and> py_str (dget_or a ''status'' valid) = ''VALID'' then finite_num (first_key value_keys a (PInt 0)) else None)"
| "attribute_reading _ = None"

text \<open>The snapshot fields taken unchanged from one attribute, with the group and option they come from.\<close>

definition direct_fields :: "(string \<times> string \<times> string) list" where
  "direct_fields = [(''soc'', ''electric'', ''soc''), (''latitude'', ''location'', ''positionLat''),
     (''longitude'', ''location'', ''positionLong''), (''mercedes_charging_status'', ''electric'', ''chargingstatus'')]"

lemma sections_distinct: "distinct (map fst sections)"
  by (simp add: sections_def)

lemma direct_cases:
  assumes "(field, grp, option) \<in> set direct_fields"
  shows "field = ''soc'' \<and> grp = ''electric'' \<and> option = ''soc'' \<or>
    field = ''latitude'' \<and> grp = ''location'' \<and> option = ''positionLat'' \<or>
    field = ''longitude'' \<and> grp = ''location'' \<and> option = ''positionLong'' \<or>
    field = ''mercedes_charging_status'' \<and> grp = ''electric'' \<and> option = ''chargingstatus''"
  using assms by (simp only: direct_fields_def list.set insert_iff empty_iff prod.inject simp_thms)

lemma direct_sections:
  assumes "(field, grp, option) \<in> set direct_fields"
  shows "\<exists>options. (grp, options) \<in> set sections \<and> option \<in> set options \<and> distinct options \<and>
    handler_for option = handle_generic \<and> option \<noteq> ''windowStatusOverall''"
proof -
  have e: "(''electric'', ELECTRIC_OPTIONS) \<in> set sections" "(''location'', LOCATION_OPTIONS) \<in> set sections"
    by (simp_all add: sections_def)
  have d: "distinct ELECTRIC_OPTIONS" "distinct LOCATION_OPTIONS"
    by code_simp+
  have i: "''soc'' \<in> set ELECTRIC_OPTIONS" "''chargingstatus'' \<in> set ELECTRIC_OPTIONS"
    "''positionLat'' \<in> set LOCATION_OPTIONS" "''positionLong'' \<in> set LOCATION_OPTIONS"
    by (simp_all add: ELECTRIC_OPTIONS_def LOCATION_OPTIONS_def)
  have h: "handler_for ''soc'' = handle_generic" "handler_for ''chargingstatus'' = handle_generic"
    "handler_for ''positionLat'' = handle_generic" "handler_for ''positionLong'' = handle_generic"
    by (simp_all add: handler_for_def)
  have o: "\<exists>options. (''electric'', options) \<in> set sections \<and> ''soc'' \<in> set options \<and> distinct options"
    "\<exists>options. (''electric'', options) \<in> set sections \<and> ''chargingstatus'' \<in> set options \<and> distinct options"
    "\<exists>options. (''location'', options) \<in> set sections \<and> ''positionLat'' \<in> set options \<and> distinct options"
    "\<exists>options. (''location'', options) \<in> set sections \<and> ''positionLong'' \<in> set options \<and> distinct options"
    using e d i by blast+
  from direct_cases [OF assms] show ?thesis
    by (elim disjE conjE) (simp_all add: o h)
qed

lemma finite_num_PNone [simp]: "finite_num PNone = None"
  by (simp add: finite_num_def)

lemma show_4 [simp]: "show_int 4 = ''4''"
  by code_simp

lemma generic_reading:
  assumes "handle_generic e option = Inr r" and "\<not> he_update e" and "he_group e = []"
    and "car_attr c grp option = (case r of None \<Rightarrow> map_of (he_group e) option | Some a \<Rightarrow> Some a)"
  shows "finite_num (read_value c grp option) = attribute_reading (dget (he_attrs e) option)"
  using assms
  by (cases "dget (he_attrs e) option")
    (auto simp: handle_generic_def Let_def read_value_def missing_attribute_def attribute_of_def split: if_splits)

lemma direct_reading:
  assumes "update_sections m sections [] = Inr (car_groups c)" and "\<not> ms_update m"
    and "dget (ms_data m) ''attributes'' = PDict attrs" and "(field, grp, option) \<in> set direct_fields"
  shows "finite_num (read_value c grp option) = attribute_reading (dget attrs option)"
proof -
  from direct_sections [OF assms(4)] obtain options where o: "(grp, options) \<in> set sections" "option \<in> set options"
    "distinct options" "handler_for option = handle_generic" by blast
  from update_sections_lookup [OF assms(1) sections_distinct o(1)] obtain g where
    g: "get_car_values m options [] = Inr g" "map_of (car_groups c) grp = Some g" by auto
  show ?thesis
  proof (cases "attrs = []")
    case True
    with g assms(3) show ?thesis by (simp add: get_car_values_def read_value_def car_attr_def)
  next
    case False
    define e where "e = \<lparr>he_attrs = attrs, he_group = [], he_update = ms_update m,
      he_last_full = ms_last_full m, he_clock = ms_clock m\<rparr>"
    from False g assms(3) have d: "decode_options e options = Inr g" by (simp add: get_car_values_def e_def)
    from decode_options_generic [OF d o(2-4)] obtain r where
      r: "handle_generic e option = Inr r" "map_of g option = (case r of None \<Rightarrow> map_of (he_group e) option | Some a \<Rightarrow> Some a)"
      by blast
    have "car_attr c grp option = (case r of None \<Rightarrow> map_of (he_group e) option | Some a \<Rightarrow> Some a)"
      using g r by (simp add: car_attr_def)
    from generic_reading [OF r(1) _ _ this] show ?thesis using assms(2) by (simp add: e_def)
  qed
qed

lemma snapshot_of_car_direct:
  assumes "(field, grp, option) \<in> set direct_fields"
  shows "dget (snapshot_of_car vin capacity c) field = float_val (map_option Fin (finite_num (read_value c grp option)))"
proof -
  have "dget (snapshot_of_car vin capacity c) ''soc'' = float_val (map_option Fin (finite_num (read_value c ''electric'' ''soc'')))"
    "dget (snapshot_of_car vin capacity c) ''latitude'' = float_val (map_option Fin (finite_num (read_value c ''location'' ''positionLat'')))"
    "dget (snapshot_of_car vin capacity c) ''longitude'' = float_val (map_option Fin (finite_num (read_value c ''location'' ''positionLong'')))"
    "dget (snapshot_of_car vin capacity c) ''mercedes_charging_status'' =
       float_val (map_option Fin (finite_num (read_value c ''electric'' ''chargingstatus'')))"
    by (simp_all add: snapshot_of_car_def finite_reading_def Let_def)
  with direct_cases [OF assms] show ?thesis by (elim disjE conjE) simp_all
qed


definition demo_clock :: local_clock where
  "demo_clock = \<lparr>lc_days = 0, lc_seconds = 0, lc_offset = ''+0000'', lc_epoch = 0\<rparr>"

definition demo_attrs :: pydict where
  "demo_attrs = [(''soc'', PDict [(''int_value'', PInt 55), (''status'', PStr ''VALID'')]),
     (''positionLat'', PDict [(''double_value'', PFloat (Fin 50)), (''status'', PInt 1)])]"

definition demo_payload :: pydict where
  "demo_payload = [(''vin'', PStr ''WDD1''), (''attributes'', PDict demo_attrs)]"

text \<open>Decoding goes through when every handler does.\<close>

lemma decode_options_total:
  assumes "\<And>e option. he_attrs e = d \<Longrightarrow> he_update e = u \<Longrightarrow> he_last_full e = full \<Longrightarrow> \<exists>a. handler_for option e option = Inr a"
    and "he_attrs e = d" "he_update e = u" "he_last_full e = full"
  shows "\<exists>g. decode_options e options = Inr g"
  using assms(2-4)
proof (induction options arbitrary: e)
  case (Cons option options)
  from assms(1) [OF Cons(2-4)] obtain a where a: "handler_for option e option = Inr a" by blast
  from Cons(1) [of "keep option a e"] Cons(2-4) a show ?case by simp
qed simp

lemma update_sections_total:
  assumes "dget (ms_data m) ''attributes'' = PDict d"
    and "\<And>e option. he_attrs e = d \<Longrightarrow> he_update e = ms_update m \<Longrightarrow> he_last_full e = ms_last_full m \<Longrightarrow>
      \<exists>a. handler_for option e option = Inr a"
  shows "\<exists>gs. update_sections m secs groups = Inr gs"
proof (induction secs arbitrary: groups)
  case (Cons sec secs)
  obtain name options where sec: "sec = (name, options)" by (cases sec)
  have "\<exists>g. get_car_values m options g0 = Inr g" for g0
  proof -
    define e where "e = \<lparr>he_attrs = d, he_group = g0, he_update = ms_update m, he_last_full = ms_last_full m, he_clock = ms_clock m\<rparr>"
    have "\<exists>g. decode_options e options = Inr g"
      by (rule decode_options_total [of d "ms_update m" "ms_last_full m"]) (rule assms(2), simp_all add: e_def)
    then show ?thesis by (cases "d = []") (simp_all add: get_car_values_def assms(1) e_def)
  qed
  then obtain g where "get_car_values m options (case map_of groups name of None \<Rightarrow> [] | Some g \<Rightarrow> g) = Inr g" by blast
  with Cons sec show ?case by simp
qed simp

lemma handler_if:
  "\<exists>a. f e option = Inr a \<Longrightarrow> \<exists>a. g e option = Inr a \<Longrightarrow> \<exists>a. (if c then f else g) e option = Inr (a :: 'a)"
  by simp

lemma demo_handlers:
  assumes "he_attrs e = demo_attrs" "\<not> he_update e" "he_last_full e = Some full"
    and "full \<noteq> []" "dget_or full ''attributes'' (PDict []) = PDict demo_attrs"
  shows "\<exists>a. handler_for option e option = Inr a"
proof -
  have "\<exists>a. handle_generic e option = Inr a"
    using assms by (simp add: handle_generic_def demo_attrs_def)
  moreover have "handle_max_soc e option = Inr None" using assms(1) by (simp add: handle_max_soc_def demo_attrs_def)
  moreover have "handle_entry outer inner field names e = Inr None"
    if "outer = ''chargeFlaps'' \<or> outer = ''chargeInlets''" for outer inner field names
    using that assms(1) by (auto simp: handle_entry_def demo_attrs_def)
  moreover have "\<exists>a. handle_endofchargetime e option = Inr a"
    using assms by (simp add: handle_endofchargetime_def demo_attrs_def last_attributes_def vget_dict_def dget_or_def)
  moreover have "\<exists>a. handle_precond_status e option = Inr a"
    using assms by (simp add: handle_precond_status_def preconditioning_attr_to_bool_def demo_attrs_def dget_or_def)
  moreover have "\<exists>a. handle_charge_programs e option = Inr a" "\<exists>a. handle_charging_break_clock_timer e option = Inr a"
    "handle_charging_power_restriction e option = Inr None" "handle_temperature_points e option = Inr None"
    if "option \<noteq> ''soc''" "option \<noteq> ''positionLat''"
    using that assms(1)
    by (simp_all add: handle_charge_programs_def handle_charging_break_clock_timer_def
      handle_charging_power_restriction_def handle_temperature_points_def demo_attrs_def)
  moreover have "handler_for option = handle_generic" if "option = ''soc'' \<or> option = ''positionLat''"
    using that by (elim disjE) (simp_all add: handler_for_def)
  ultimately show ?thesis
    by (cases "option = ''soc'' \<or> option = ''positionLat''")
      (simp only:, unfold handler_for_def, intro handler_if,
       simp_all add: handle_chargeflap_def handle_chargeinletcoupler_def handle_chargeinletlock_def)
qed

lemma demo_snapshot: "\<exists>snap kept. vehicle_snapshot demo_clock demo_payload PNone = Inr (snap, kept)"
proof -
  define m where "m = \<lparr>ms_data = demo_payload, ms_update = False, ms_last_full = Some demo_payload, ms_clock = demo_clock\<rparr>"
  have "\<exists>gs. update_sections m sections [] = Inr gs"
    by (rule update_sections_total [where d = demo_attrs])
      (auto simp: m_def demo_payload_def intro!: demo_handlers [where full = demo_payload])
  then show ?thesis
    by (auto simp: vehicle_snapshot_def build_car_def with_window_status_def new_decoder_def new_car_def set_data_mode_def
      m_def Let_def demo_payload_def)
qed


section \<open>Pacing of the pulls\<close>

lemma pause_deadline: "tr_deadline (snd (pause fault mt wall delay t)) = mt + max delay (remaining mt t)"
  by (simp add: pause_def Let_def)

lemma paused_for_ge:
  "paused_for mt (pause fault mt wall delay t) = (Inr d, t') \<Longrightarrow> delay \<le> d"
  by (auto simp: paused_for_def pause_deadline rbind_Inr_iff)

lemma failure_delay_600:
  assumes "failure_delay h fault mt wall e header minimum t = (Inr d, t')" and "600 \<le> minimum"
  shows "600 \<le> d"
proof -
  have "RATE_LIMIT_MIN \<le> retry_delay h wall header (num_of (rate_minimum t))"
    using rate_minimum_ge retry_delay_minimum by (rule order_trans)
  moreover have "LOGIN_INTERVAL \<le> retry_delay h wall header LOGIN_INTERVAL" "minimum \<le> retry_delay h wall header minimum"
    by (rule retry_delay_minimum)+
  ultimately show ?thesis
    using assms
    by (auto simp: failure_delay_def rate_limited_def Let_def traffic_consts dest!: paused_for_ge split: if_splits)
qed

lemma accept_payload_pacing [simp]:
  "mc_pull_retry (snd (accept_payload m clock mt payload source c)) = mc_pull_retry c"
  "mc_limits (snd (accept_payload m clock mt payload source c)) = mc_limits c"
  by (auto simp: accept_payload_def Let_def split: sum.splits prod.splits)

lemma pull_delay_ge: "mt + q \<le> mc_next_pull c \<Longrightarrow> 0 \<le> q \<Longrightarrow> q \<le> pull_delay mt c"
  by (auto simp: pull_delay_def Let_def max_def split: option.splits)

text \<open>
  C13: while a request pause is in force a pull sends nothing and changes nothing. A pull that was
  sent counts one request, and whether it delivered a snapshot, failed or was refused, the next one
  is due at least ten minutes later and at least the refusal's own delay. A pull is only ever due
  when no pause is in force and the last accepted payload is ten minutes old.
\<close>

theorem pulls_respect_limits:
  assumes "600 \<le> mc_pull_retry c" and "pull h fault m clock mt response header c p = (r, c', p', n)"
  shows "(remaining mt (mc_limits c) \<noteq> 0 \<longrightarrow> n = 0 \<and> c' = c) \<and>
    (remaining mt (mc_limits c) = 0 \<longrightarrow> n = 1 \<and>
      (r = Inr () \<longrightarrow> 600 \<le> mc_pull_retry c' \<and> mc_next_pull c' = mt + mc_pull_retry c' \<and> 600 \<le> pull_delay mt c')) \<and>
    (pull_delay mt c = 0 \<longrightarrow> remaining mt (mc_limits c) = 0 \<and> (\<forall>t. mc_received c = Some t \<longrightarrow> t + 600 \<le> mt))"
proof -
  have a: "n = 0 \<and> c' = c" if "remaining mt (mc_limits c) \<noteq> 0"
    using assms(2) that by (auto simp: pull_def)
  have m: "600 \<le> min (mc_pull_retry c * 2) RECONNECT_MAX" using assms(1) by (simp add: client_consts)
  have b: "n = 1 \<and> (r = Inr () \<longrightarrow> 600 \<le> mc_pull_retry c' \<and> mc_next_pull c' = mt + mc_pull_retry c')"
    if z: "remaining mt (mc_limits c) = 0"
  proof -
    obtain pr p1 where pr: "pull_payload (lc_epoch clock) response c p = (pr, p1)"
      by (cases "pull_payload (lc_epoch clock) response c p")
    obtain ar c1 where ar: "(case pr of Inl e \<Rightarrow> (Inl e, c)
        | Inr (payload, source) \<Rightarrow> accept_payload m clock mt payload source c) = (ar, c1)"
      by (cases "(case pr of Inl e \<Rightarrow> (Inl e, c) | Inr (payload, source) \<Rightarrow> accept_payload m clock mt payload source c)")
    have c1: "mc_pull_retry c1 = mc_pull_retry c" "mc_limits c1 = mc_limits c"
      using arg_cong [OF ar, of snd] accept_payload_pacing [of m clock mt _ _ c]
      by (auto split: sum.splits prod.splits)
    show ?thesis
    proof (cases ar)
      case (Inl e)
      obtain d t where f: "failure_delay h fault mt (lc_epoch clock) e header (min (mc_pull_retry c * 2) RECONNECT_MAX) (mc_limits c) = (d, t)"
        by (cases "failure_delay h fault mt (lc_epoch clock) e header (min (mc_pull_retry c * 2) RECONNECT_MAX) (mc_limits c)")
      from assms(2) z pr ar Inl c1 f show ?thesis
        by (cases d) (auto simp: pull_def intro: failure_delay_600 [OF _ m])
    next
      case (Inr u)
      with assms(2) z pr ar show ?thesis by (auto simp: pull_def client_consts)
    qed
  qed
  have due: "600 \<le> pull_delay mt c'" if "600 \<le> mc_pull_retry c'" "mc_next_pull c' = mt + mc_pull_retry c'"
    using that by (intro pull_delay_ge) simp_all
  have "remaining mt (mc_limits c) = 0 \<and> (\<forall>t. mc_received c = Some t \<longrightarrow> t + 600 \<le> mt)" if "pull_delay mt c = 0"
    using that remaining_nonneg [of mt "mc_limits c"]
    by (auto simp: pull_delay_def Let_def client_consts max_def split: if_splits)
  with a b due show ?thesis by blast
qed

definition demo_mercedes :: mclient where
  "demo_mercedes = \<lparr>mc_vin = ''WDD'', mc_region = ''Europe'', mc_limits = demo_limits, mc_stale = 900,
    mc_capacity = PNone, mc_home = (PNone, PNone, PNone), mc_snapshot = [], mc_payload = PNone,
    mc_received = None, mc_connected = True, mc_source = ''push'', mc_vehicle = PNone,
    mc_next_pull = 0, mc_pull_retry = 600, mc_stop = False\<rparr>"

theorem pulls_respect_limits_witness:
  "\<exists>r c' p'. pull (\<lambda>_. None) Fine flat_libm demo_clock 1000 (Inl (HttpStatus 429)) None demo_mercedes (new_protocol ''WDD'') = (r, c', p', 1) \<and>
    r = Inr () \<and> 600 \<le> pull_delay 1000 c'"
proof -
  obtain r c' p' n where p: "pull (\<lambda>_. None) Fine flat_libm demo_clock 1000 (Inl (HttpStatus 429)) None demo_mercedes (new_protocol ''WDD'') = (r, c', p', n)"
    by (cases "pull (\<lambda>_. None) Fine flat_libm demo_clock 1000 (Inl (HttpStatus 429)) None demo_mercedes (new_protocol ''WDD'')")
  have z: "remaining 1000 (mc_limits demo_mercedes) = 0" by code_simp
  have q: "600 \<le> mc_pull_retry demo_mercedes" by code_simp
  have "fst (failure_delay (\<lambda>_. None) Fine 1000 0 (HttpStatus 429) None 1200 demo_limits) = Inr 1800" by code_simp
  then obtain t where f: "failure_delay (\<lambda>_. None) Fine 1000 0 (HttpStatus 429) None 1200 demo_limits = (Inr 1800, t)"
    by (metis prod.collapse)
  have "r = Inr ()"
    using p z f by (auto simp: pull_def pull_payload_def demo_clock_def demo_mercedes_def client_consts)
  with pulls_respect_limits [OF q p] z p show ?thesis by auto
qed

end
