(* ===== verification/Coordinator.thy ===== *)
theory Coordinator
  imports Client Cerbo_Mqtt
begin

text \<open>
  \<^verbatim>\<open>mbapi2020/coordinator.py\<close>, \<^verbatim>\<open>config_flow.py\<close> and \<^verbatim>\<open>__init__.py\<close>: the Home Assistant side of
  the bridge. A configured route names the Cerbo and the vehicle; the coordinator receives the
  retained snapshots on that route, keeps the newest and decides availability. The decoded JSON of a
  message, the state of the broker connection and the clock are inputs.
\<close>

section \<open>The configured route\<close>

record route =
  rt_transport :: "string option"
  rt_vin :: string
  rt_portal :: string
  rt_topic_prefix :: string
  rt_name :: string
  rt_stale :: int

definition has_any :: "char list \<Rightarrow> string \<Rightarrow> bool" where
  "has_any cs s = list_ex (\<lambda>c. c \<in> set s) cs"

definition valid_route :: "route \<Rightarrow> bool" where
  "valid_route d =
     (length (rt_vin d) = 17 \<and> isascii (rt_vin d) \<and> isalnum (rt_vin d) \<and> rt_portal d \<noteq> [] \<and>
      \<not> has_any [CHR ''/'', CHR ''+'', CHR ''#'', CHR 0x00] (rt_portal d) \<and>
      \<not> has_any [CHR ''+'', CHR ''#'', CHR 0x00] (rt_topic_prefix d))"

text \<open>A stored entry: its data, its options and title.\<close>

record entry =
  en_data :: route
  en_options :: pydict
  en_title :: string

datatype flow = Form "string option" | Created string entry | Aborted string

definition entered :: "route \<Rightarrow> route" where
  "entered input = input\<lparr>rt_transport := Some ''cerbo_mqtt'', rt_vin := upper (strip (rt_vin input))\<rparr>"

definition route_id :: "route \<Rightarrow> string" where
  "route_id d = ''cerbo-'' @ rt_portal d @ ''-'' @ rt_vin d"

definition cap_check_disabled :: pydict where
  "cap_check_disabled = [(''cap_check_disabled'', PBool True)]"

text \<open>The first set-up: \<open>configured\<close> are the identities of the existing entries.\<close>

definition step_user :: "string list \<Rightarrow> route option \<Rightarrow> flow" where
  "step_user configured input =
     (case input of
        None \<Rightarrow> Form None
      | Some i \<Rightarrow>
          let d = entered i
          in if \<not> valid_route d then Form (Some ''invalid_config'')
             else if route_id d \<in> set configured then Aborted ''already_configured''
             else Created (route_id d)
               \<lparr>en_data = d, en_options = cap_check_disabled,
                en_title = (if rt_name d \<noteq> [] then rt_name d else rt_vin d)\<rparr>)"

text \<open>A later change replaces the whole data of the entry.\<close>

definition step_reconfigure :: "entry \<Rightarrow> route option \<Rightarrow> flow \<times> entry" where
  "step_reconfigure old input =
     (case input of
        None \<Rightarrow> (Form None, old)
      | Some i \<Rightarrow>
          let d = entered i
          in if valid_route d
             then (Aborted ''reconfigure_successful'',
               old\<lparr>en_data := d, en_options := cap_check_disabled, en_title := ''Mercedes via Cerbo MQTT''\<rparr>)
             else (Form (Some ''invalid_config''), old))"

section \<open>State\<close>

definition strip_slash :: "string \<Rightarrow> string" where
  "strip_slash s = rstrip_char (CHR ''/'') (lstrip_char (CHR ''/'') s)"

definition topic_root :: "route \<Rightarrow> string" where
  "topic_root d =
     (let p = strip_slash (rt_topic_prefix d)
      in (if p \<noteq> [] then p @ ''/'' else []) @ ''mercedes/'' @ rt_portal d)"

record coordinator =
  co_route :: route
  co_client :: decoder
  co_vin :: string
  co_prefix :: string
  co_max_age :: rat
  co_received :: rat
  co_online :: bool
  co_ready :: bool
  co_subs :: "string list"
  co_data :: pyval
  co_callbacks :: nat
  co_pending :: bool
  co_updates :: nat

definition coordinator_init :: "route \<Rightarrow> coordinator" where
  "coordinator_init d =
     \<lparr>co_route = d, co_client = new_decoder, co_vin = upper (rt_vin d), co_prefix = topic_root d,
      co_max_age = of_int (rt_stale d), co_received = 0, co_online = False, co_ready = False,
      co_subs = [], co_data = PNone, co_callbacks = 0, co_pending = False, co_updates = 0\<rparr>"

definition coordinator_available :: "time \<Rightarrow> bool \<Rightarrow> coordinator \<Rightarrow> bool" where
  "coordinator_available now broker c =
     (co_online c \<and> fresh (co_max_age c) now (Some (co_received c)) \<and> broker)"

definition state_topic :: "coordinator \<Rightarrow> string" where
  "state_topic c = co_prefix c @ ''/'' @ co_vin c @ ''/state''"

definition availability_topic :: "coordinator \<Rightarrow> string" where
  "availability_topic c = co_prefix c @ ''/availability''"

text \<open>
  The subscriptions and the timer of \<^verbatim>\<open>async_start\<close>; then up to 25 seconds for the first
  snapshot, after which the state says whether it came.
\<close>

definition coordinator_subscribe :: "coordinator \<Rightarrow> coordinator" where
  "coordinator_subscribe c =
     c\<lparr>co_subs := co_subs c @ [state_topic c, availability_topic c, ''every 10 seconds'']\<rparr>"

definition await_ready :: "coordinator \<Rightarrow> unit res" where
  "await_ready c = (if co_ready c then Inr () else Inl OtherError)"

definition coordinator_stop :: "coordinator \<Rightarrow> coordinator" where
  "coordinator_stop c = c\<lparr>co_subs := []\<rparr>"

section \<open>A message\<close>

text \<open>
  What a message has to be before it touches the car: acquisition time, vehicle data and vehicle
  information, or \<open>None\<close> where the source returns without a word.
\<close>

definition message_fields :: "time \<Rightarrow> pydict \<Rightarrow> coordinator \<Rightarrow> (rat \<times> pydict \<times> pydict) option res" where
  "message_fields now payload c =
     (if \<not> py_eq (dget payload ''schema'') (PInt 1) \<or> dget payload ''vin'' \<noteq> PStr (co_vin c) then Inr None
      else rbind (dgetitem payload ''received_at'') (\<lambda>raw. rbind (py_float raw) (\<lambda>f.
        case f of
          Fin received \<Rightarrow>
            if received < co_received c \<or> now + 30 < received then Inr None
            else (case (dget payload ''attributes'', dget_or payload ''vehicle'' (PDict [])) of
                (PDict attrs, PDict vehicle) \<Rightarrow>
                  if \<not> list_all (\<lambda>(k, v). is_dict v) attrs then Inr None
                  else (case dget_or vehicle ''information'' (PDict []) of
                      PDict info \<Rightarrow> Inr (Some (received, vehicle, info))
                    | _ \<Rightarrow> Inr None)
              | _ \<Rightarrow> Inr None)
        | _ \<Rightarrow> Inr None)))"

definition py_or :: "pyval \<Rightarrow> pyval \<Rightarrow> pyval" where
  "py_or a b = (if truthy a then a else b)"

definition rcp_group :: group_values where
  "rcp_group = [(''rcp_supported'', attribute_of (PBool False) valid (PInt 0) PNone PNone)]"

text \<open>The fields of the car the coordinator itself fills.\<close>

definition describe_car :: "coordinator \<Rightarrow> pydict \<Rightarrow> pydict \<Rightarrow> car \<Rightarrow> car" where
  "describe_car c vehicle info r =
     r\<lparr>car_features := [],
       car_licenseplate := py_or (PStr (rt_name (co_route c))) (py_or (dget vehicle ''name'') (PStr (co_vin c))),
       car_description := dget_or vehicle ''model'' (PStr ''Mercedes-Benz''),
       car_information := info, car_owner := dget_or vehicle ''is_owner'' (PBool False),
       car_groups := dset ''rcp_options'' rcp_group (car_groups r)\<rparr>"

text \<open>
  What a decoder call that raises leaves behind: a new car is already registered, the counters and
  the last full message are already changed, the groups before the failing one are replaced, and the
  failing one, where it existed, keeps the options before the failing option.
\<close>

fun options_left :: "handler_env \<Rightarrow> string list \<Rightarrow> group_values" where
  "options_left e [] = he_group e"
| "options_left e (option # options) =
     (case handler_for option e option of Inl _ \<Rightarrow> he_group e | Inr a \<Rightarrow> options_left (keep option a e) options)"

definition values_left :: "message \<Rightarrow> string list \<Rightarrow> group_values \<Rightarrow> group_values" where
  "values_left m options g =
     (case dget (ms_data m) ''attributes'' of
        PDict d \<Rightarrow> options_left \<lparr>he_attrs = d, he_group = g, he_update = ms_update m,
             he_last_full = ms_last_full m, he_clock = ms_clock m\<rparr> options
      | _ \<Rightarrow> g)"

fun sections_left :: "message \<Rightarrow> (string \<times> string list) list \<Rightarrow> (string, group_values) dict \<Rightarrow> (string, group_values) dict" where
  "sections_left m [] groups = groups"
| "sections_left m ((name, options) # rest) groups =
     (case get_car_values m options (case map_of groups name of None \<Rightarrow> [] | Some g \<Rightarrow> g) of
        Inr g \<Rightarrow> sections_left m rest (dset name g groups)
      | Inl _ \<Rightarrow> (case map_of groups name of None \<Rightarrow> groups | Some g \<Rightarrow> dset name (values_left m options g) groups))"

definition car_left :: "local_clock \<Rightarrow> bool \<Rightarrow> pydict \<Rightarrow> decoder \<Rightarrow> decoder" where
  "car_left clock is_rest data dc =
     (let vin = dget data ''vin'';
          r = (case map_of (dc_cars dc) vin of Some r \<Rightarrow> r | None \<Rightarrow> (new_car vin)\<lparr>car_licenseplate := vin\<rparr>);
          r = r\<lparr>car_full_messages := car_full_messages r + 1, car_last_message := round_even (lc_epoch clock * 1000)\<rparr>;
          r = set_data_mode (if is_rest then ''pull'' else ''push'') (lc_epoch clock) r
      in case with_window_status is_rest data of
           Inl _ \<Rightarrow> dc\<lparr>dc_cars := AList.update vin (r\<lparr>car_last_full := Some data\<rparr>) (dc_cars dc)\<rparr>
         | Inr data \<Rightarrow>
             (let m = \<lparr>ms_data = data, ms_update = False, ms_last_full = Some data, ms_clock = clock\<rparr>;
                  r = r\<lparr>car_last_full := Some data, car_groups := sections_left m sections (car_groups r)\<rparr>
              in (ignition_update data False dc)\<lparr>dc_cars := AList.update vin r (dc_cars dc)\<rparr>))"

datatype verdict = Ignored | Rejected | Taken | Raised pyexc

definition caught :: "pyexc \<Rightarrow> verdict" where
  "caught e = (if e \<in> {ValueError, KeyError, TypeError, OverflowError} then Rejected else Raised e)"

definition put_car :: "car \<Rightarrow> coordinator \<Rightarrow> coordinator" where
  "put_car r c = c\<lparr>co_client := (co_client c)\<lparr>dc_cars := AList.update (PStr (co_vin c)) r (dc_cars (co_client c))\<rparr>\<rparr>"

text \<open>A snapshot that passed the guards.\<close>

definition take_snapshot :: "local_clock \<Rightarrow> pydict \<Rightarrow> rat \<times> pydict \<times> pydict \<Rightarrow> coordinator \<Rightarrow> verdict \<times> coordinator" where
  "take_snapshot clock payload = (\<lambda>(received, vehicle, info) c.
     let pulled = (dget payload ''data_mode'' = PStr ''pull'')
     in case build_car clock False pulled payload (co_client c) of
          Inl e \<Rightarrow> (caught e, c\<lparr>co_client := car_left clock pulled payload (co_client c)\<rparr>)
        | Inr (payload, dc) \<Rightarrow>
            (case map_of (dc_cars dc) (PStr (co_vin c)) of
               None \<Rightarrow> (caught KeyError, c\<lparr>co_client := dc\<rparr>)
             | Some r \<Rightarrow>
                 (let r = describe_car c vehicle info r; c = c\<lparr>co_client := dc\<rparr>
                  in case int_of_float (fl (received * 1000)) of
                       Inl e \<Rightarrow> (caught e, put_car r c)
                     | Inr ms \<Rightarrow>
                         (Taken, (put_car (r\<lparr>car_last_message := ms\<rparr>) c)
                           \<lparr>co_received := received, co_data := PDict payload, co_ready := True,
                            co_updates := co_updates c + 1,
                            co_pending := (co_pending c \<or> 0 < co_callbacks c)\<rparr>))))"

text \<open>The callback; \<open>json\<close> is what \<^verbatim>\<open>json.loads\<close> made of the payload.\<close>

definition coordinator_message :: "local_clock \<Rightarrow> pyval res \<Rightarrow> coordinator \<Rightarrow> verdict \<times> coordinator" where
  "coordinator_message clock json c =
     (case json of
        Inl e \<Rightarrow> (caught e, c)
      | Inr (PDict payload) \<Rightarrow>
          (case message_fields (lc_epoch clock) payload c of
             Inl e \<Rightarrow> (caught e, c)
           | Inr None \<Rightarrow> (Ignored, c)
           | Inr (Some f) \<Rightarrow> take_snapshot clock payload f c)
      | Inr _ \<Rightarrow> (Ignored, c))"

definition coordinator_availability :: "string \<Rightarrow> coordinator \<Rightarrow> coordinator" where
  "coordinator_availability payload c =
     c\<lparr>co_online := (payload = ''online''), co_updates := co_updates c + 1\<rparr>"

definition coordinator_expire :: "coordinator \<Rightarrow> coordinator" where
  "coordinator_expire c = c\<lparr>co_updates := co_updates c + 1\<rparr>"

text \<open>The discovery task: the callbacks run, then the flag is cleared whatever they did.\<close>

definition coordinator_discover :: "coordinator \<Rightarrow> coordinator" where
  "coordinator_discover c = c\<lparr>co_pending := False\<rparr>"

definition add_discovery :: "coordinator \<Rightarrow> coordinator" where
  "add_discovery c = c\<lparr>co_callbacks := co_callbacks c + 1\<rparr>"

section \<open>Setting an entry up and unloading it\<close>

type_synonym hass_data = "(nat \<times> coordinator) list"

text \<open>
  \<open>waited\<close> is what the messages of the waiting time do to the coordinator, \<open>platforms\<close> the outcome of forwarding
  the set-up to the platforms.
\<close>

definition setup_entry :: "nat \<Rightarrow> route \<Rightarrow> (coordinator \<Rightarrow> coordinator) \<Rightarrow> unit res \<Rightarrow> hass_data \<Rightarrow> bool res \<times> hass_data" where
  "setup_entry i d waited platforms hass =
     (if rt_transport d \<noteq> Some ''cerbo_mqtt'' then (Inl OtherError, hass)
      else let c = waited (coordinator_subscribe (coordinator_init d))
           in case rbind (await_ready c) (\<lambda>_. platforms) of
                Inl e \<Rightarrow> (Inl e, AList.delete i hass)
              | Inr _ \<Rightarrow> (Inr True, AList.update i c hass))"

definition unload_entry :: "nat \<Rightarrow> bool \<Rightarrow> hass_data \<Rightarrow> bool res \<times> hass_data" where
  "unload_entry i unloaded hass =
     (if unloaded
      then (case map_of hass i of None \<Rightarrow> (Inl KeyError, hass) | Some c \<Rightarrow> (Inr True, AList.delete i hass))
      else (Inr False, hass))"

section \<open>Runs\<close>

datatype co_event = Snapshot local_clock "pyval res" | Availability string | Expire | Discovered | Discovery

fun co_step :: "co_event \<Rightarrow> coordinator \<Rightarrow> coordinator" where
  "co_step (Snapshot clock json) c = snd (coordinator_message clock json c)"
| "co_step (Availability payload) c = coordinator_availability payload c"
| "co_step Expire c = coordinator_expire c"
| "co_step Discovered c = coordinator_discover c"
| "co_step Discovery c = add_discovery c"

definition co_run :: "co_event list \<Rightarrow> coordinator \<Rightarrow> coordinator" where
  "co_run es c = fold co_step es c"

lemma co_run_simps [simp]:
  "co_run [] c = c" "co_run (es @ [e]) c = co_step e (co_run es c)"
  by (simp_all add: co_run_def)

definition own_car :: "coordinator \<Rightarrow> car option" where
  "own_car c = map_of (dc_cars (co_client c)) (PStr (co_vin c))"

text \<open>What an unsuccessful message leaves alone, and what no message changes.\<close>

definition same_reception :: "coordinator \<Rightarrow> coordinator \<Rightarrow> bool" where
  "same_reception c c' =
     (co_received c' = co_received c \<and> co_ready c' = co_ready c \<and> co_data c' = co_data c \<and>
      co_pending c' = co_pending c \<and> co_updates c' = co_updates c)"

definition same_route :: "coordinator \<Rightarrow> coordinator \<Rightarrow> bool" where
  "same_route c c' =
     (co_route c' = co_route c \<and> co_vin c' = co_vin c \<and> co_prefix c' = co_prefix c \<and>
      co_max_age c' = co_max_age c \<and> dc_excluded (co_client c') = dc_excluded (co_client c))"

lemma same_route_refl [simp]: "same_route c c"
  by (simp add: same_route_def)

lemma same_route_trans: "same_route a b \<Longrightarrow> same_route b c \<Longrightarrow> same_route a c"
  by (simp add: same_route_def)

lemma ignition_excluded [simp]: "dc_excluded (ignition_update data update dc) = dc_excluded dc"
  by (simp add: ignition_update_def Let_def split: pyval.splits)

lemma build_car_excluded: "build_car clock u rest data dc = Inr (data', dc') \<Longrightarrow> dc_excluded dc' = dc_excluded dc"
  by (auto simp: build_car_def Let_def rbind_Inr_iff split: if_splits)

lemma car_left_excluded [simp]: "dc_excluded (car_left clock pulled payload dc) = dc_excluded dc"
  by (simp add: car_left_def Let_def split: sum.split)

lemma put_car_simps [simp]:
  "co_route (put_car r c) = co_route c" "co_vin (put_car r c) = co_vin c" "co_prefix (put_car r c) = co_prefix c"
  "co_max_age (put_car r c) = co_max_age c" "dc_excluded (co_client (put_car r c)) = dc_excluded (co_client c)"
  "co_received (put_car r c) = co_received c" "co_ready (put_car r c) = co_ready c" "co_data (put_car r c) = co_data c"
  "co_pending (put_car r c) = co_pending c" "co_updates (put_car r c) = co_updates c" "co_online (put_car r c) = co_online c"
  "co_callbacks (put_car r c) = co_callbacks c" "own_car (put_car r c) = Some r"
  by (simp_all add: put_car_def own_car_def AList.update_conv')

lemma take_snapshot_route:
  "take_snapshot clock payload f c = (v, c') \<Longrightarrow> same_route c c' \<and> co_online c' = co_online c"
  by (cases f) (auto simp: take_snapshot_def same_route_def Let_def build_car_excluded
    split: sum.splits prod.splits option.splits)

lemma take_snapshot_cases:
  assumes "take_snapshot clock payload (received, vehicle, info) c = (v, c')"
  shows "v \<noteq> Taken \<and> v \<noteq> Ignored \<and> same_reception c c' \<or>
    v = Taken \<and> co_received c' = received \<and> co_ready c' \<and> co_updates c' = co_updates c + 1 \<and> co_pending c' = (co_pending c \<or> 0 < co_callbacks c) \<and>
      (\<exists>payload' dc r ms. build_car clock False (dget payload ''data_mode'' = PStr ''pull'') payload (co_client c) = Inr (payload', dc) \<and>
         co_data c' = PDict payload' \<and> map_of (dc_cars dc) (PStr (co_vin c)) = Some r \<and>
         own_car c' = Some ((describe_car c vehicle info r)\<lparr>car_last_message := ms\<rparr>))"
  using assms
  by (auto simp: take_snapshot_def same_reception_def caught_def Let_def own_car_def put_car_def AList.update_conv'
    split: sum.splits prod.splits option.splits if_splits)

lemma message_fieldsD:
  assumes "message_fields now payload c = Inr (Some (received, vehicle, info))"
  shows "py_eq (dget payload ''schema'') (PInt 1)" "dget payload ''vin'' = PStr (co_vin c)"
    "\<exists>raw. dgetitem payload ''received_at'' = Inr raw \<and> py_float raw = Inr (Fin received)"
    "co_received c \<le> received" "received \<le> now + 30"
    "\<exists>attrs. dget payload ''attributes'' = PDict attrs \<and> list_all (\<lambda>(k, v). is_dict v) attrs"
    "dget_or payload ''vehicle'' (PDict []) = PDict vehicle" "dget_or vehicle ''information'' (PDict []) = PDict info"
proof -
  show id: "py_eq (dget payload ''schema'') (PInt 1)" "dget payload ''vin'' = PStr (co_vin c)"
    using assms by (simp_all add: message_fields_def split: if_splits)
  with assms obtain raw f where raw: "dgetitem payload ''received_at'' = Inr raw" "py_float raw = Inr f"
    by (auto simp: message_fields_def rbind_Inr_iff)
  obtain q where f: "f = Fin q"
    using assms id raw by (cases f) (simp_all add: message_fields_def)
  have range: "\<not> q < co_received c" "\<not> lc_now + 30 < q" if "lc_now = now" for lc_now
    using assms id raw f that by (simp_all add: message_fields_def split: if_splits)
  obtain attrs where attrs: "dget payload ''attributes'' = PDict attrs"
    using assms id raw f range by (cases "dget payload ''attributes''") (simp_all add: message_fields_def)
  obtain ve where ve: "dget_or payload ''vehicle'' (PDict []) = PDict ve"
    using assms id raw f range attrs by (cases "dget_or payload ''vehicle'' (PDict [])") (simp_all add: message_fields_def)
  have all: "list_all (\<lambda>(k, v). is_dict v) attrs"
    using assms id raw f range attrs ve by (simp add: message_fields_def split: if_splits)
  obtain inf where inf: "dget_or ve ''information'' (PDict []) = PDict inf"
    using assms id raw f range attrs ve all by (cases "dget_or ve ''information'' (PDict [])") (simp_all add: message_fields_def)
  have "q = received" "ve = vehicle" "inf = info"
    using assms id raw f range attrs ve all inf by (simp_all add: message_fields_def)
  with raw f range attrs ve all inf show "\<exists>raw. dgetitem payload ''received_at'' = Inr raw \<and> py_float raw = Inr (Fin received)"
    "co_received c \<le> received" "received \<le> now + 30"
    "\<exists>attrs. dget payload ''attributes'' = PDict attrs \<and> list_all (\<lambda>(k, v). is_dict v) attrs"
    "dget_or payload ''vehicle'' (PDict []) = PDict vehicle" "dget_or vehicle ''information'' (PDict []) = PDict info"
    by simp_all
qed

lemma message_cases:
  assumes "coordinator_message clock json c = (v, c')"
  shows "v \<noteq> Taken \<and> same_reception c c' \<or>
    v = Taken \<and> (\<exists>payload f. json = Inr (PDict payload) \<and> message_fields (lc_epoch clock) payload c = Inr (Some f) \<and>
      take_snapshot clock payload f c = (Taken, c'))"
proof -
  have *: "take_snapshot clock p f c = (v, c') \<Longrightarrow> v = Taken \<or> v \<noteq> Taken \<and> same_reception c c'" for p f
    using take_snapshot_cases by (cases f) blast
  show ?thesis
    using assms *
    by (auto simp: coordinator_message_def caught_def same_reception_def
      split: sum.splits pyval.splits option.splits if_splits)
qed

lemma message_route: "same_route c (snd (coordinator_message clock json c)) \<and>
    co_online (snd (coordinator_message clock json c)) = co_online c"
  using take_snapshot_route [of clock _ _ c] 
  by (simp add: coordinator_message_def split: sum.split pyval.split option.split) (metis prod.collapse)

lemma step_route: "same_route c (co_step e c)"
  using message_route
  by (cases e) (auto simp: same_route_def coordinator_availability_def coordinator_expire_def coordinator_discover_def add_discovery_def)

lemma run_route: "same_route c (co_run es c)"
  by (induction es rule: rev_induct) (auto intro: same_route_trans step_route)

section \<open>Availability\<close>

interpretation coordinator_cache: freshness_cache "\<lambda>c. Some (co_received c)"
  "\<lambda>now c. coordinator_available now True c" co_max_age
  by unfold_locales (simp add: coordinator_available_def)

text \<open>The last word of the Cerbo (or its last will) on the availability topic.\<close>

definition last_word :: "co_event list \<Rightarrow> string" where
  "last_word es = fold (\<lambda>e w. case e of Availability p \<Rightarrow> p | _ \<Rightarrow> w) es []"

text \<open>The snapshot in force: the last one taken in the run, and the clock it was taken at.\<close>

definition in_force :: "route \<Rightarrow> co_event list \<Rightarrow> local_clock \<Rightarrow> pydict \<Rightarrow> coordinator \<Rightarrow> bool" where
  "in_force d es clock payload c =
     (\<exists>xs ys. es = xs @ Snapshot clock (Inr (PDict payload)) # ys \<and>
        (\<exists>c'. coordinator_message clock (Inr (PDict payload)) (co_run xs (coordinator_init d)) = (Taken, c') \<and>
           co_received c = co_received c' \<and> co_data c = co_data c'))"

lemma online_is_last_word: "co_online (co_run es (coordinator_init d)) = (last_word es = ''online'')"
proof (induction es rule: rev_induct)
  case (snoc e es)
  then show ?case
    using message_route
    by (cases e) (simp_all add: last_word_def coordinator_availability_def coordinator_expire_def coordinator_discover_def add_discovery_def)
qed (simp add: coordinator_init_def last_word_def)

lemma in_force_snoc: "in_force d es clock p c \<Longrightarrow> co_received c' = co_received c \<Longrightarrow> co_data c' = co_data c \<Longrightarrow>
    in_force d (es @ [e]) clock p c'"
  by (fastforce simp: in_force_def)

lemma reception_in_force:
  "co_received (co_run es (coordinator_init d)) = 0 \<and> \<not> co_ready (co_run es (coordinator_init d)) \<or>
   (\<exists>clock p. in_force d es clock p (co_run es (coordinator_init d)))"
proof (induction es rule: rev_induct)
  case (snoc e es)
  define c where "c = co_run es (coordinator_init d)"
  show ?case
  proof (cases "co_received (co_step e c) = co_received c \<and> co_ready (co_step e c) = co_ready c \<and> co_data (co_step e c) = co_data c")
    case True
    then have "in_force d es clock p c \<Longrightarrow> in_force d (es @ [e]) clock p (co_step e c)" for clock p
      by (blast intro: in_force_snoc)
    with True snoc show ?thesis unfolding c_def co_run_simps by metis
  next
    case False
    then obtain clock json where e: "e = Snapshot clock json"
      by (cases e) (auto simp: same_reception_def coordinator_availability_def coordinator_expire_def coordinator_discover_def add_discovery_def)
    obtain v c' where m: "coordinator_message clock json c = (v, c')" by (cases "coordinator_message clock json c")
    from message_cases [OF m] False e m obtain payload where "v = Taken" "json = Inr (PDict payload)"
      by (auto simp: same_reception_def)
    with m e have "in_force d (es @ [e]) clock payload (co_run (es @ [e]) (coordinator_init d))"
      unfolding in_force_def by (intro exI [of _ es] exI [of _ "[]"]) (simp add: c_def)
    then show ?thesis by blast
  qed
qed (simp add: coordinator_init_def)

lemma in_force_fields:
  assumes "in_force d es clock payload c"
  shows "py_eq (dget payload ''schema'') (PInt 1)" "dget payload ''vin'' = PStr (upper (rt_vin d))"
    "\<exists>raw. dgetitem payload ''received_at'' = Inr raw \<and> py_float raw = Inr (Fin (co_received c))"
    "co_received c \<le> lc_epoch clock + 30"
proof -
  obtain xs c' where m: "coordinator_message clock (Inr (PDict payload)) (co_run xs (coordinator_init d)) = (Taken, c')"
    and c: "co_received c = co_received c'" using assms by (auto simp: in_force_def)
  obtain received vehicle info where f: "message_fields (lc_epoch clock) payload (co_run xs (coordinator_init d)) = Inr (Some (received, vehicle, info))"
    and t: "take_snapshot clock payload (received, vehicle, info) (co_run xs (coordinator_init d)) = (Taken, c')"
    using message_cases [OF m] by auto
  have "co_vin (co_run xs (coordinator_init d)) = upper (rt_vin d)"
    using run_route [of "coordinator_init d" xs] by (simp add: same_route_def coordinator_init_def)
  moreover have "co_received c = received" using take_snapshot_cases [OF t] c by auto
  ultimately show "py_eq (dget payload ''schema'') (PInt 1)" "dget payload ''vin'' = PStr (upper (rt_vin d))"
    "\<exists>raw. dgetitem payload ''received_at'' = Inr raw \<and> py_float raw = Inr (Fin (co_received c))"
    "co_received c \<le> lc_epoch clock + 30"
    using message_fieldsD [OF f] by simp_all
qed

text \<open>
  after any run of messages, status words, expiry ticks and discoveries, the entities are available
  only while the broker is connected, the last word on the availability topic was online, and the
  snapshot last taken (of this vehicle, in the known schema) was acquired less than the configured
  timeout ago and not more than 30 seconds after the clock it was taken at.
\<close>

theorem available_needs_live_snapshot:
  assumes "c = co_run es (coordinator_init d)" and "coordinator_available now broker c" and "of_int (rt_stale d) \<le> now"
  shows "broker \<and> last_word es = ''online'' \<and>
    (\<exists>clock payload. in_force d es clock payload c \<and>
       py_eq (dget payload ''schema'') (PInt 1) \<and> dget payload ''vin'' = PStr (upper (rt_vin d)) \<and>
       rbind (dgetitem payload ''received_at'') py_float = Inr (Fin (co_received c)) \<and>
       co_received c \<le> now \<and> now < co_received c + of_int (rt_stale d) \<and> co_received c \<le> lc_epoch clock + 30)"
proof -
  have age: "co_max_age c = of_int (rt_stale d)"
    using run_route [of "coordinator_init d" es] assms(1) by (simp add: same_route_def coordinator_init_def)
  have "broker" "co_online c" using assms(2) by (simp_all add: coordinator_available_def)
  moreover from this assms(2) have "coordinator_available now True c" by simp
  from coordinator_cache.live_stamp_bounds [OF this] have t: "co_received c \<le> now" "now < co_received c + of_int (rt_stale d)"
    by (simp_all add: age)
  with assms(3) have "co_received c \<noteq> 0" by auto
  with reception_in_force [of es d] obtain clock p where f: "in_force d es clock p c" by (auto simp: assms(1))
  ultimately show ?thesis
    using online_is_last_word [of es d] assms(1) t in_force_fields [OF f] f
    by (intro conjI exI [of _ clock] exI [of _ p]) auto
qed

section \<open>What a snapshot does\<close>

text \<open>
  a message that is not taken leaves the acquisition time, the readiness, the data and the number
  of updates as they were, and a message of another schema or vehicle, or older than the snapshot in
  force, or from the future, changes nothing at all. A snapshot that is taken never moves the
  acquisition time back, and becomes the data of the integration.
\<close>

theorem only_newer_snapshots_taken:
  shows "(fst (coordinator_message clock json c) \<noteq> Taken \<longrightarrow> same_reception c (snd (coordinator_message clock json c))) \<and>
    (\<forall>payload. json = Inr (PDict payload) \<longrightarrow>
       \<not> py_eq (dget payload ''schema'') (PInt 1) \<or> dget payload ''vin'' \<noteq> PStr (co_vin c) \<or>
       (\<exists>q. rbind (dgetitem payload ''received_at'') py_float = Inr (Fin q) \<and> (q < co_received c \<or> lc_epoch clock + 30 < q)) \<longrightarrow>
       coordinator_message clock json c = (Ignored, c)) \<and>
    (fst (coordinator_message clock json c) = Taken \<longrightarrow>
       co_received c \<le> co_received (snd (coordinator_message clock json c)) \<and>
       co_received (snd (coordinator_message clock json c)) \<le> lc_epoch clock + 30 \<and>
       co_ready (snd (coordinator_message clock json c)) \<and> is_dict (co_data (snd (coordinator_message clock json c))))"
proof -
  obtain v c' where m: "coordinator_message clock json c = (v, c')" by (cases "coordinator_message clock json c")
  have "v = Taken \<Longrightarrow> co_received c \<le> co_received c' \<and> co_received c' \<le> lc_epoch clock + 30 \<and> co_ready c' \<and> is_dict (co_data c')"
  proof -
    assume "v = Taken"
    with message_cases [OF m] obtain payload received vehicle info where
      f: "message_fields (lc_epoch clock) payload c = Inr (Some (received, vehicle, info))"
      and t: "take_snapshot clock payload (received, vehicle, info) c = (Taken, c')" by auto
    from take_snapshot_cases [OF t] message_fieldsD(4,5) [OF f] show ?thesis by auto
  qed
  moreover have "v \<noteq> Taken \<Longrightarrow> same_reception c c'" using message_cases [OF m] by blast
  moreover have "message_fields (lc_epoch clock) payload c = Inr None"
    if "\<not> py_eq (dget payload ''schema'') (PInt 1) \<or> dget payload ''vin'' \<noteq> PStr (co_vin c) \<or>
       (\<exists>q. rbind (dgetitem payload ''received_at'') py_float = Inr (Fin q) \<and> (q < co_received c \<or> lc_epoch clock + 30 < q))" for payload
    using that by (cases "\<not> py_eq (dget payload ''schema'') (PInt 1) \<or> dget payload ''vin'' \<noteq> PStr (co_vin c)")
      (auto simp: message_fields_def rbind_Inr_iff)
  then have "\<forall>payload. json = Inr (PDict payload) \<longrightarrow>
       \<not> py_eq (dget payload ''schema'') (PInt 1) \<or> dget payload ''vin'' \<noteq> PStr (co_vin c) \<or>
       (\<exists>q. rbind (dgetitem payload ''received_at'') py_float = Inr (Fin q) \<and> (q < co_received c \<or> lc_epoch clock + 30 < q)) \<longrightarrow>
       coordinator_message clock json c = (Ignored, c)"
    by (simp add: coordinator_message_def)
  ultimately show ?thesis using m by simp
qed

text \<open>What a message says about an option: its attribute, or the placeholder of status 4.\<close>

definition sent_attribute :: "pyval \<Rightarrow> car_attribute" where
  "sent_attribute v =
     (case v of
        PDict (kv # d) \<Rightarrow> attribute_of (first_key value_keys (kv # d) (PInt 0)) (dget_or (kv # d) ''status'' valid)
          (dget_or (kv # d) ''timestamp'' (PInt 0)) (dget (kv # d) ''display_value'') (first_key unit_keys (kv # d) PNone)
      | _ \<Rightarrow> missing_attribute (PInt 0))"

lemma generic_sent:
  assumes "handle_generic e option = Inr r" and "\<not> he_update e"
  shows "r = Some (sent_attribute (dget (he_attrs e) option))"
proof (cases "truthy (dget (he_attrs e) option)")
  case True
  with assms(1) obtain d where d: "dget (he_attrs e) option = PDict d"
    by (cases "dget (he_attrs e) option") (simp_all add: handle_generic_def)
  with True obtain kv ds where "d = kv # ds" by (cases d) simp_all
  with assms d show ?thesis by (simp add: handle_generic_def sent_attribute_def del: dget_simps dget_or_simps)
next
  case False
  then have "sent_attribute (dget (he_attrs e) option) = missing_attribute (PInt 0)"
    by (cases "dget (he_attrs e) option") (simp_all add: sent_attribute_def)
  with False assms show ?thesis by (simp add: handle_generic_def)
qed

lemma dset_nonempty [simp]: "dset k v d \<noteq> []"
  by (cases d) (auto simp: dset_def)

lemma options_distinct: "list_all (\<lambda>(name, options). distinct options) sections"
  unfolding sections_def option_defs by simp

lemma build_car_unfold:
  assumes "dget data ''vin'' \<notin> set (dc_excluded dc)"
  obtains start where
    "car_groups start = (case map_of (dc_cars dc) (dget data ''vin'') of Some r \<Rightarrow> car_groups r | None \<Rightarrow> [])"
    "build_car clock False pulled data dc = rbind (with_window_status pulled data) (\<lambda>d.
      rbind (update_sections \<lparr>ms_data = d, ms_update = False, ms_last_full = Some d, ms_clock = clock\<rparr> sections (car_groups start))
        (\<lambda>groups. Inr (d, (ignition_update d False dc)\<lparr>dc_cars := AList.update (dget data ''vin'')
           (start\<lparr>car_last_full := Some d, car_groups := groups, car_setup_complete := True\<rparr>) (dc_cars dc)\<rparr>)))"
proof -
  define old where "old = (case map_of (dc_cars dc) (dget data ''vin'') of
    Some c \<Rightarrow> c | None \<Rightarrow> (new_car (dget data ''vin''))\<lparr>car_licenseplate := dget data ''vin''\<rparr>)"
  define start where "start = set_data_mode (if pulled then ''pull'' else ''push'') (lc_epoch clock)
    (old\<lparr>car_full_messages := car_full_messages old + 1, car_last_message := round_even (lc_epoch clock * 1000)\<rparr>)"
  show ?thesis
  proof (rule that [of start])
    show "car_groups start = (case map_of (dc_cars dc) (dget data ''vin'') of Some r \<Rightarrow> car_groups r | None \<Rightarrow> [])"
      by (simp add: start_def old_def new_car_def split: option.split)
    show "build_car clock False pulled data dc = rbind (with_window_status pulled data) (\<lambda>d.
      rbind (update_sections \<lparr>ms_data = d, ms_update = False, ms_last_full = Some d, ms_clock = clock\<rparr> sections (car_groups start))
        (\<lambda>groups. Inr (d, (ignition_update d False dc)\<lparr>dc_cars := AList.update (dget data ''vin'')
           (start\<lparr>car_last_full := Some d, car_groups := groups, car_setup_complete := True\<rparr>) (dc_cars dc)\<rparr>)))"
      using assms unfolding build_car_def Let_def old_def [symmetric] start_def by simp
  qed
qed

lemma build_car_groups:
  assumes "build_car clock False pulled data dc = Inr (data', dc')" and "dget data ''vin'' \<notin> set (dc_excluded dc)"
  shows "\<exists>r m groups. map_of (dc_cars dc') (dget data ''vin'') = Some r \<and> with_window_status pulled data = Inr data' \<and>
    update_sections m sections groups = Inr (car_groups r) \<and> ms_data m = data' \<and> \<not> ms_update m"
proof -
  from build_car_unfold [OF assms(2), of clock pulled] obtain start where
    "build_car clock False pulled data dc = rbind (with_window_status pulled data) (\<lambda>d.
      rbind (update_sections \<lparr>ms_data = d, ms_update = False, ms_last_full = Some d, ms_clock = clock\<rparr> sections (car_groups start))
        (\<lambda>groups. Inr (d, (ignition_update d False dc)\<lparr>dc_cars := AList.update (dget data ''vin'')
           (start\<lparr>car_last_full := Some d, car_groups := groups, car_setup_complete := True\<rparr>) (dc_cars dc)\<rparr>)))" by blast
  with assms(1) show ?thesis by (fastforce simp: rbind_Inr_iff AList.update_conv')
qed

lemma section_reading:
  assumes "update_sections m sections groups = Inr (car_groups r)" and "\<not> ms_update m"
    and "dget (ms_data m) ''attributes'' = PDict attrs" and "attrs \<noteq> []"
    and "(grp, options) \<in> set sections" and "option \<in> set options" and "handler_for option = handle_generic"
  shows "car_attr r grp option = Some (sent_attribute (dget attrs option))"
proof -
  have o: "distinct options" using options_distinct assms(5) by (auto simp: list_all_iff)
  from update_sections_lookup [OF assms(1) sections_distinct assms(5)] obtain g0 g where
    g: "get_car_values m options g0 = Inr g" "map_of (car_groups r) grp = Some g" by blast
  define e where "e = \<lparr>he_attrs = attrs, he_group = g0, he_update = ms_update m, he_last_full = ms_last_full m, he_clock = ms_clock m\<rparr>"
  from assms(3,4) g have d: "decode_options e options = Inr g" by (simp add: get_car_values_def e_def)
  from decode_options_generic [OF d assms(6) o assms(7)] obtain a where
    a: "handle_generic e option = Inr a" "map_of g option = (case a of None \<Rightarrow> map_of (he_group e) option | Some a \<Rightarrow> Some a)"
    by blast
  with generic_sent [OF a(1)] assms(2) g(2) show ?thesis by (simp add: car_attr_def e_def)
qed

text \<open>What a taken snapshot leaves on the car: the readings of the message with its window summary.\<close>

lemma snapshot_decoded:
  assumes "coordinator_message clock (Inr (PDict payload)) (co_run es (coordinator_init d)) = (Taken, c')"
    and "dget payload ''attributes'' = PDict attrs" and "attrs \<noteq> []"
  shows "\<exists>r payload' attrs'. own_car c' = Some r \<and>
    with_window_status (dget payload ''data_mode'' = PStr ''pull'') payload = Inr payload' \<and>
    dget payload' ''attributes'' = PDict attrs' \<and> (\<forall>k. k \<noteq> ''windowStatusOverall'' \<longrightarrow> dget attrs' k = dget attrs k) \<and>
    (\<forall>grp options option. (grp, options) \<in> set sections \<longrightarrow> option \<in> set options \<longrightarrow> handler_for option = handle_generic \<longrightarrow>
       car_attr r grp option = Some (sent_attribute (dget attrs' option)))"
proof -
  define c where "c = co_run es (coordinator_init d)"
  have x: "dc_excluded (co_client c) = []"
    using run_route [of "coordinator_init d" es] by (simp add: c_def same_route_def coordinator_init_def new_decoder_def)
  from message_cases [OF assms(1)] obtain received vehicle info where
    f: "message_fields (lc_epoch clock) payload c = Inr (Some (received, vehicle, info))"
    and t: "take_snapshot clock payload (received, vehicle, info) c = (Taken, c')" by (auto simp: c_def)
  have v: "dget payload ''vin'' = PStr (co_vin c)" by (rule message_fieldsD(2) [OF f])
  from take_snapshot_cases [OF t] obtain payload' dc r ms where
    b: "build_car clock False (dget payload ''data_mode'' = PStr ''pull'') payload (co_client c) = Inr (payload', dc)"
    and r: "map_of (dc_cars dc) (PStr (co_vin c)) = Some r"
    "own_car c' = Some ((describe_car c vehicle info r)\<lparr>car_last_message := ms\<rparr>)" by auto
  from build_car_groups [OF b] x v r obtain m groups where
    m: "with_window_status (dget payload ''data_mode'' = PStr ''pull'') payload = Inr payload'"
    "update_sections m sections groups = Inr (car_groups r)" "ms_data m = payload'" "\<not> ms_update m" by auto
  from with_window_status_attrs [OF m(1) assms(2)] obtain attrs' where
    a: "dget payload' ''attributes'' = PDict attrs'" "\<forall>k. k \<noteq> ''windowStatusOverall'' \<longrightarrow> dget attrs' k = dget attrs k" by blast
  have "attrs' \<noteq> []"
    using m(1) assms(2,3) a(1) by (auto simp: with_window_status_def rbind_Inr_iff split: if_splits)
  have "car_attr ((describe_car c vehicle info r)\<lparr>car_last_message := ms\<rparr>) grp option = Some (sent_attribute (dget attrs' option))"
    if "(grp, options) \<in> set sections" "option \<in> set options" "handler_for option = handle_generic" for grp options option
  proof -
    have "car_attr r grp option = Some (sent_attribute (dget attrs' option))"
      using m(2,4) _ \<open>attrs' \<noteq> []\<close> that by (rule section_reading) (simp add: m(3) a(1))
    moreover have "grp \<noteq> ''rcp_options''" using that(1) by (auto simp: sections_def)
    ultimately show ?thesis by (simp add: car_attr_def describe_car_def)
  qed
  with r(2) m(1) a show ?thesis by blast
qed

lemma snapshot_reading:
  assumes "coordinator_message clock (Inr (PDict payload)) (co_run es (coordinator_init d)) = (Taken, c')"
    and "dget payload ''attributes'' = PDict attrs" and "attrs \<noteq> []"
    and "(grp, options) \<in> set sections" and "option \<in> set options" and "handler_for option = handle_generic"
    and "option \<noteq> ''windowStatusOverall''"
  shows "\<exists>r. own_car c' = Some r \<and> car_attr r grp option = Some (sent_attribute (dget attrs option))"
  using snapshot_decoded [OF assms(1-3)] assms(4-7) by metis

text \<open>
  once a snapshot with attributes is taken, every option the generic handler decodes holds exactly
  what this snapshot says, in every group: its value, status, time and unit, or the placeholder of
  status 4 where the snapshot does not carry it. No generic reading of an older snapshot survives.
\<close>

theorem snapshot_replaces_readings:
  assumes "coordinator_message clock (Inr (PDict payload)) (co_run es (coordinator_init d)) = (Taken, c')"
    and "dget payload ''attributes'' = PDict attrs" and "attrs \<noteq> []"
    and "(grp, options) \<in> set sections" and "option \<in> set options" and "handler_for option = handle_generic"
    and "option \<noteq> ''windowStatusOverall''"
  shows "\<exists>r. own_car c' = Some r \<and> car_attr r grp option = Some (sent_attribute (dget attrs option))"
  using assms by (rule snapshot_reading)

section \<open>A concrete vehicle\<close>

definition demo_route :: route where
  "demo_route = \<lparr>rt_transport = Some ''cerbo_mqtt'', rt_vin = ''WDD1'', rt_portal = ''p'', rt_topic_prefix = [],
     rt_name = [], rt_stale = 900\<rparr>"

definition demo_message :: pydict where
  "demo_message = [(''schema'', PInt 1), (''vin'', PStr ''WDD1''), (''received_at'', PFloat (Fin 20)),
     (''attributes'', PDict demo_attrs)]"

definition demo_coordinator :: coordinator where
  "demo_coordinator = snd (coordinator_message demo_clock (Inr (PDict demo_message)) (coordinator_init demo_route))"

lemma demo_message_taken:
  "coordinator_message demo_clock (Inr (PDict demo_message)) (coordinator_init demo_route) = (Taken, demo_coordinator)"
proof -
  define c where "c = coordinator_init demo_route"
  have vin: "co_vin c = ''WDD1''" unfolding c_def by code_simp
  have f: "message_fields (lc_epoch demo_clock) demo_message c = Inr (Some (20, [], []))" unfolding c_def by code_simp
  have i: "int_of_float (fl (20 * 1000)) = Inr 20000" by code_simp
  define m where "m = \<lparr>ms_data = demo_message, ms_update = False, ms_last_full = Some demo_message, ms_clock = demo_clock\<rparr>"
  have "\<exists>gs. update_sections m sections [] = Inr gs"
    by (rule update_sections_total [where d = demo_attrs])
      (auto simp: m_def demo_message_def intro!: demo_handlers [where full = demo_message])
  then obtain gs where gs: "update_sections m sections [] = Inr gs" by blast
  have client: "co_client c = new_decoder" by (simp add: c_def coordinator_init_def)
  have "\<exists>payload' dc r. build_car demo_clock False False demo_message new_decoder = Inr (payload', dc) \<and>
      map_of (dc_cars dc) (PStr ''WDD1'') = Some r"
    using gs by (simp add: build_car_def with_window_status_def new_decoder_def new_car_def set_data_mode_def
      m_def Let_def demo_message_def AList.update_conv')
  then obtain payload' dc r where "build_car demo_clock False False demo_message (co_client c) = Inr (payload', dc)"
    "map_of (dc_cars dc) (PStr (co_vin c)) = Some r" using client vin by auto
  moreover have "dget demo_message ''data_mode'' = PNone" by (simp add: demo_message_def)
  ultimately have "fst (coordinator_message demo_clock (Inr (PDict demo_message)) c) = Taken"
    using f i by (simp add: coordinator_message_def take_snapshot_def Let_def)
  then show ?thesis by (metis c_def demo_coordinator_def prod.collapse)
qed

theorem available_needs_live_snapshot_witness:
  "coordinator_available 910 True (co_run [Snapshot demo_clock (Inr (PDict demo_message)), Availability ''online''] (coordinator_init demo_route)) \<and>
   last_word [Snapshot demo_clock (Inr (PDict demo_message)), Availability ''online''] = ''online''"
proof -
  define es where "es = [Snapshot demo_clock (Inr (PDict demo_message)), Availability ''online'']"
  define c where "c = co_run es (coordinator_init demo_route)"
  have c: "c = demo_coordinator\<lparr>co_online := True, co_updates := co_updates demo_coordinator + 1\<rparr>"
    by (simp add: c_def es_def co_run_def demo_message_taken coordinator_availability_def)
  from message_cases [OF demo_message_taken] obtain received vehicle info where
    f: "message_fields (lc_epoch demo_clock) demo_message (coordinator_init demo_route) = Inr (Some (received, vehicle, info))"
    and t: "take_snapshot demo_clock demo_message (received, vehicle, info) (coordinator_init demo_route) = (Taken, demo_coordinator)"
    by auto
  have "message_fields (lc_epoch demo_clock) demo_message (coordinator_init demo_route) = Inr (Some (20, [], []))" by code_simp
  with f take_snapshot_cases [OF t] have r: "co_received demo_coordinator = 20" by auto
  have a: "co_max_age demo_coordinator = 900"
    using take_snapshot_route [OF t] by (simp add: same_route_def coordinator_init_def demo_route_def)
  have v: "coordinator_available 910 True c" by (simp add: coordinator_available_def c r a)
  have s: "of_int (rt_stale demo_route) \<le> (910 :: rat)" by (simp add: demo_route_def)
  have "last_word es = ''online''" using available_needs_live_snapshot [OF c_def v s] by blast
  with v show ?thesis by (simp add: c_def es_def)
qed

theorem only_newer_snapshots_taken_witness:
  "co_received (coordinator_init demo_route) \<le> co_received demo_coordinator \<and> co_received demo_coordinator \<le> lc_epoch demo_clock + 30 \<and>
   co_ready demo_coordinator \<and>
   coordinator_message demo_clock (Inr (PDict [(''schema'', PInt 2)])) demo_coordinator = (Ignored, demo_coordinator)"
proof -
  have s: "\<not> py_eq (dget [(''schema'', PInt 2)] ''schema'') (PInt 1)" by code_simp
  show ?thesis
    using only_newer_snapshots_taken [of demo_clock "Inr (PDict demo_message)" "coordinator_init demo_route"]
      only_newer_snapshots_taken [of demo_clock "Inr (PDict [(''schema'', PInt 2)])" demo_coordinator] s
    unfolding demo_message_taken fst_conv snd_conv by blast
qed

theorem snapshot_replaces_readings_witness:
  "\<exists>r. own_car demo_coordinator = Some r \<and>
     car_attr r ''electric'' ''soc'' = Some (attribute_of (PInt 55) (PStr ''VALID'') (PInt 0) PNone PNone) \<and>
     car_attr r ''odometer'' ''odo'' = Some (missing_attribute (PInt 0))"
proof -
  have t: "coordinator_message demo_clock (Inr (PDict demo_message)) (co_run [] (coordinator_init demo_route)) = (Taken, demo_coordinator)"
    by (simp add: demo_message_taken)
  have a: "dget demo_message ''attributes'' = PDict demo_attrs" "demo_attrs \<noteq> []" by (simp_all add: demo_message_def demo_attrs_def)
  have s: "(''electric'', ELECTRIC_OPTIONS) \<in> set sections" "(''odometer'', ODOMETER_OPTIONS) \<in> set sections"
    "''soc'' \<in> set ELECTRIC_OPTIONS" "''odo'' \<in> set ODOMETER_OPTIONS"
    by (simp_all add: sections_def ELECTRIC_OPTIONS_def ODOMETER_OPTIONS_def)
  have h: "handler_for ''soc'' = handle_generic" "handler_for ''odo'' = handle_generic" by (simp_all add: handler_for_def)
  have v: "sent_attribute (dget demo_attrs ''soc'') = attribute_of (PInt 55) (PStr ''VALID'') (PInt 0) PNone PNone"
    "sent_attribute (dget demo_attrs ''odo'') = missing_attribute (PInt 0)" by code_simp+
  show ?thesis
    using snapshot_replaces_readings [OF t a s(1,3) h(1)] snapshot_replaces_readings [OF t a s(2,4) h(2)] v by auto
qed

section \<open>From the Cerbo to Home Assistant\<close>

lemma list_all_dset: "list_all (\<lambda>(k, v). P v) d \<Longrightarrow> P v \<Longrightarrow> list_all (\<lambda>(k, v). P v) (dset k v d)"
  by (induction d) (auto simp: dset_def)

lemma merge_all_dicts: "list_all (\<lambda>(k, v). is_dict v) attrs \<Longrightarrow> list_all (\<lambda>(k, v). is_dict v) (merge_all kvs attrs)"
  by (induction kvs attrs rule: merge_all.induct) (auto simp: merge_one_def list_all_dset [of is_dict])

lemma merge_dicts:
  assumes "merge now u p = (s, p')" and "list_all (\<lambda>(k, v). is_dict v) (pr_attributes p)"
  shows "pr_vin p' = pr_vin p \<and> list_all (\<lambda>(k, v). is_dict v) (pr_attributes p') \<and> (s = None \<or> s = Some (snapshot now p'))"
  using assms by (auto simp: merge_def Let_def merge_all_dicts split: if_splits)

lemma merges_snapshots:
  assumes "merges us p = (ss, p')" and "list_all (\<lambda>(k, v). is_dict v) (pr_attributes p)" and "s \<in> set ss"
  shows "\<exists>t q. t \<in> fst ` set us \<and> s = snapshot t q \<and> pr_vin q = pr_vin p \<and> list_all (\<lambda>(k, v). is_dict v) (pr_attributes q)"
  using assms
proof (induction us p arbitrary: ss rule: merges.induct)
  case (2 now u us p)
  obtain s1 p1 where m: "merge now u p = (s1, p1)" by (cases "merge now u p")
  obtain ss1 p2 where ms: "merges us p1 = (ss1, p2)" by (cases "merges us p1")
  note d = merge_dicts [OF m 2(3)]
  have "s \<in> set ss1 \<or> s1 = Some s" using 2(2,4) m ms by (auto split: option.splits)
  then show ?case
  proof
    assume "s \<in> set ss1"
    moreover have "p2 = p'" using 2(2) m ms by (auto split: option.splits)
    ultimately show ?thesis using 2(1) [OF m [symmetric] refl, of ss1] ms d by fastforce
  next
    assume "s1 = Some s"
    with d show ?thesis by auto
  qed
qed simp

lemma with_window_status_fields:
  assumes "with_window_status pulled data = Inr data'"
  shows "k \<noteq> ''attributes'' \<Longrightarrow> dget data' k = dget data k \<and> dget_or data' k x = dget_or data k x \<and> dgetitem data' k = dgetitem data k"
    and "dget data ''attributes'' = PDict attrs \<Longrightarrow> list_all (\<lambda>(k, v). is_dict v) attrs \<Longrightarrow>
      \<exists>attrs'. dget data' ''attributes'' = PDict attrs' \<and> list_all (\<lambda>(k, v). is_dict v) attrs'"
  using assms
  by (auto simp: with_window_status_def rbind_Inr_iff synthetic_window_status_def dgetitem_def
    intro!: list_all_dset split: pyval.splits if_splits)


definition demo_update :: pydict where
  "demo_update = [(''attributes'', PDict demo_attrs)]"

lemma demo_merged:
  "merges [(5, demo_update)] (new_protocol ''WDD1'') =
     ([snapshot 5 \<lparr>pr_vin = ''WDD1'', pr_attributes = demo_attrs, pr_full = False, pr_revision = 1\<rparr>],
      \<lparr>pr_vin = ''WDD1'', pr_attributes = demo_attrs, pr_full = False, pr_revision = 1\<rparr>)"
proof -
  have "merge_all demo_attrs [] = demo_attrs" by code_simp
  moreover have "demo_attrs \<noteq> []" by (simp add: demo_attrs_def)
  ultimately show ?thesis by (simp add: merge_def demo_update_def new_protocol_def Let_def)
qed


section \<open>The topics of a valid route\<close>

text \<open>What MQTT would take for more than the literal topic: the wildcards and the terminator.\<close>

definition wild :: "char set" where
  "wild = {CHR ''+'', CHR ''#'', CHR 0x00}"

lemma has_any_iff: "has_any cs s \<longleftrightarrow> set cs \<inter> set s \<noteq> {}"
  by (auto simp: has_any_def list_ex_iff)

lemma alnum_not_special:
  assumes "is_alpha ch \<or> is_digit ch"
  shows "ch \<notin> wild" "ch \<noteq> CHR ''/''"
proof -
  have "code (CHR ''+'') = 43" "code (CHR ''#'') = 35" "code (CHR 0x00) = 0" "code (CHR ''/'') = 47" by code_simp+
  with assms show "ch \<notin> wild" "ch \<noteq> CHR ''/''" by (auto simp: wild_def is_alpha_def is_digit_def)
qed

lemma upper_upper [simp]: "upper (upper s) = upper s"
proof -
  have "upper_char (upper_char ch) = upper_char ch" for ch
  proof (cases "97 \<le> code ch \<and> code ch \<le> 122")
    case True
    then have "code (char_of (code ch - 32)) = code ch - 32" by (intro code_char_of) auto
    with True show ?thesis by (simp add: upper_char_def)
  next
    case False
    then have "upper_char ch = ch" unfolding upper_char_def by (rule if_not_P)
    then show ?thesis by simp
  qed
  then show ?thesis by (simp add: upper_def)
qed

lemma strip_slash_set: "set (strip_slash s) \<subseteq> set s"
proof -
  have "set (dropWhile P (xs :: string)) \<subseteq> set xs" for P xs by (auto dest: set_dropWhileD)
  then show ?thesis by (auto simp: strip_slash_def rstrip_char_def lstrip_char_def dest!: set_dropWhileD)
qed

lemma created_route:
  assumes "step_user configured (Some input) = Created uid e"
  shows "valid_route (en_data e)" "rt_vin (en_data e) = upper (rt_vin (en_data e))" "uid = route_id (en_data e)"
    "uid \<notin> set configured" "rt_transport (en_data e) = Some ''cerbo_mqtt''"
  using assms by (auto simp: step_user_def entered_def Let_def split: if_splits)

text \<open>
  an entry the set-up creates subscribes to exactly the topics the Cerbo of that portal publishes
  for that vehicle (under the configured bridge prefix), with no MQTT wildcard in either, the VIN being
  one topic level of 17 letters and digits; and no second entry for the same vehicle is created.
\<close>

theorem created_route_topics:
  assumes "step_user configured (Some input) = Created uid e"
    and "cerbo_init (rt_portal (en_data e)) ''mercedes'' publish_ha meter_inst ttl vid = Inr s"
  shows "set (state_topic (coordinator_init (en_data e))) \<inter> wild = {} \<and>
    set (availability_topic (coordinator_init (en_data e))) \<inter> wild = {} \<and>
    length (rt_vin (en_data e)) = 17 \<and> CHR ''/'' \<notin> set (rt_vin (en_data e)) \<and>
    (strip_slash (rt_topic_prefix (en_data e)) = [] \<longrightarrow>
       availability_topic (coordinator_init (en_data e)) = mq_topic (availability_msg w s) \<and>
       state_topic (coordinator_init (en_data e)) = cm_prefix s @ ''/'' @ py_str (PStr (rt_vin (en_data e))) @ ''/state'') \<and>
    (\<exists>err. step_user (uid # configured) (Some input) = Aborted err)"
proof -
  note r = created_route [OF assms(1)]
  define d where "d = en_data e"
  have v: "valid_route d" "upper (rt_vin d) = rt_vin d" using r(1,2) by (simp_all add: d_def)
  then have alnum: "\<forall>ch \<in> set (rt_vin d). is_alpha ch \<or> is_digit ch"
    by (auto simp: valid_route_def isalnum_def list_all_iff)
  have vin: "set (rt_vin d) \<inter> wild = {}" "CHR ''/'' \<notin> set (rt_vin d)" using alnum alnum_not_special by blast+
  have "set (rt_portal d) \<inter> wild = {}" "set (rt_topic_prefix d) \<inter> wild = {}"
    using v(1) by (auto simp: valid_route_def has_any_iff wild_def)
  moreover have "set (strip_slash (rt_topic_prefix d)) \<subseteq> set (rt_topic_prefix d)" by (rule strip_slash_set)
  ultimately have root: "set (topic_root d) \<inter> wild = {}" by (auto simp: topic_root_def Let_def wild_def)
  have "set ''/'' \<inter> wild = {}" "set ''/state'' \<inter> wild = {}" "set ''/availability'' \<inter> wild = {}" by (simp_all add: wild_def)
  with root vin v(2) have "set (state_topic (coordinator_init d)) \<inter> wild = {}" "set (availability_topic (coordinator_init d)) \<inter> wild = {}"
    by (auto simp: state_topic_def availability_topic_def coordinator_init_def)
  moreover have "length (rt_vin d) = 17" using v(1) by (simp add: valid_route_def)
  moreover have "cm_prefix s = ''mercedes/'' @ rt_portal d" using assms(2) by (auto simp: cerbo_init_def d_def split: if_splits)
  then have "strip_slash (rt_topic_prefix d) = [] \<Longrightarrow> cm_prefix s = co_prefix (coordinator_init d)"
    by (simp add: coordinator_init_def topic_root_def)
  moreover have "co_vin (coordinator_init d) = rt_vin d" using v(2) by (simp add: coordinator_init_def)
  moreover have "\<exists>err. step_user (uid # configured) (Some input) = Aborted err"
    using assms(1) by (auto simp: step_user_def Let_def split: if_splits)
  ultimately show ?thesis
    using vin(2) unfolding d_def [symmetric] by (simp add: state_topic_def availability_topic_def availability_msg_def)
qed

definition demo_input :: route where
  "demo_input = \<lparr>rt_transport = None, rt_vin = '' wdd2130042a123456'', rt_portal = ''c0619ab1'', rt_topic_prefix = ''/'',
     rt_name = [], rt_stale = 900\<rparr>"

theorem created_route_topics_witness:
  "\<exists>e. step_user [] (Some demo_input) = Created ''cerbo-c0619ab1-WDD2130042A123456'' e \<and>
     state_topic (coordinator_init (en_data e)) = ''mercedes/c0619ab1/WDD2130042A123456/state'' \<and>
     length (rt_vin (en_data e)) = 17"
proof -
  define e where "e = \<lparr>en_data = entered demo_input, en_options = cap_check_disabled, en_title = ''WDD2130042A123456''\<rparr>"
  have c: "step_user [] (Some demo_input) = Created ''cerbo-c0619ab1-WDD2130042A123456'' e" unfolding e_def by code_simp
  have "is_ok (cerbo_init (rt_portal (en_data e)) ''mercedes'' True PNone 10 [])" unfolding e_def by code_simp
  then obtain s where s: "cerbo_init (rt_portal (en_data e)) ''mercedes'' True PNone 10 [] = Inr s"
    by (cases "cerbo_init (rt_portal (en_data e)) ''mercedes'' True PNone 10 []") auto
  have "state_topic (coordinator_init (en_data e)) = ''mercedes/c0619ab1/WDD2130042A123456/state''" unfolding e_def by code_simp
  with created_route_topics [OF c s, of "''online''"] c show ?thesis by blast
qed

end
