(* ===== verification/Entity_Tables.thy ===== *)
theory Entity_Tables
  imports Prelude
begin

text \<open>
  The entity tables of \<^verbatim>\<open>mbapi2020/const.py\<close>, entry by entry: what each sensor, binary sensor and
  tracker reads of the car and how it is presented. Members of Home Assistant's enumerations are given by
  the text the source names them with; \<^verbatim>\<open>{}\<close> is the empty list of extended attributes.
\<close>

section \<open>An entry\<close>

record entity_spec =
  sp_display :: string
  sp_unit :: "string option"
  sp_object :: "string option"
  sp_attribute :: string
  sp_field :: string
  sp_capability :: "string option"
  sp_extended :: "string list option"
  sp_icon :: "string option"
  sp_class :: "string option"
  sp_flip :: bool
  sp_category :: "string option"
  sp_state_class :: "string option"
  sp_default :: "string option"
  sp_precision :: "int option"

definition entity ::
  "string \<Rightarrow> string option \<Rightarrow> string option \<Rightarrow> string \<Rightarrow> string \<Rightarrow> string option \<Rightarrow> string list option \<Rightarrow>
   string option \<Rightarrow> string option \<Rightarrow> bool \<Rightarrow> string option \<Rightarrow> string option \<Rightarrow> string option \<Rightarrow> int option \<Rightarrow> entity_spec" where
  "entity display un obj attribute field capability extended icon cls flip category state_class dflt precision =
     \<lparr>sp_display = display, sp_unit = un, sp_object = obj, sp_attribute = attribute, sp_field = field,
      sp_capability = capability, sp_extended = extended, sp_icon = icon, sp_class = cls, sp_flip = flip,
      sp_category = category, sp_state_class = state_class, sp_default = dflt, sp_precision = precision\<rparr>"

section \<open>Binary sensors\<close>

definition BinarySensors_1 :: "(string \<times> entity_spec) list" where
  "BinarySensors_1 = [
(''chargingactive'', entity ''Charging active'' None (Some ''electric'') ''chargingactive'' ''value'' None
        None None (Some ''BinarySensorDeviceClass.BATTERY_CHARGING'') False None None None None),
(''liquidRangeCritical'', entity ''Liquid Range Critical'' None (Some ''binarysensors'')
        ''liquidRangeCritical'' ''value'' None None (Some ''mdi:gas-station'') (Some
        ''BinarySensorDeviceClass.PROBLEM'') False None None None None),
(''warningbrakefluid'', entity ''Low Brake Fluid Warning'' None (Some ''binarysensors'') ''warningbrakefluid''
        ''value'' None None (Some ''mdi:car-brake-alert'') (Some ''BinarySensorDeviceClass.PROBLEM'') False
        None None None None),
(''warningwashwater'', entity ''Low Wash Water Warning'' None (Some ''binarysensors'') ''warningwashwater''
        ''value'' None None (Some ''mdi:wiper-wash'') (Some ''BinarySensorDeviceClass.PROBLEM'') False None
        None None None),
(''warningcoolantlevellow'', entity ''Low Coolant Level Warning'' None (Some ''binarysensors'')
        ''warningcoolantlevellow'' ''value'' None None (Some ''mdi:oil-level'') (Some
        ''BinarySensorDeviceClass.PROBLEM'') False None None None None),
(''warningenginelight'', entity ''Engine Light Warning'' None (Some ''binarysensors'') ''warningenginelight''
        ''value'' None (Some [''warningbrakefluid'', ''warningcoolantlevellow'', ''warninglowbattery'',
        ''warningwashwater'']) (Some ''mdi:engine'') (Some ''BinarySensorDeviceClass.PROBLEM'') False None
        None None None),
(''parkbrakestatus'', entity ''Park Brake Status'' None (Some ''binarysensors'') ''parkbrakestatus'' ''value''
        None (Some [''preWarningBrakeLiningWear'']) (Some ''mdi:car-brake-parking'') None False None None None
        None),
(''windowStatusOverall'', entity ''Windows Closed'' None (Some ''windows'') ''windowStatusOverall'' ''value''
        None (Some [''windowstatusfrontleft'', ''windowstatusfrontleftblind'', ''windowstatusfrontright'',
        ''windowstatusfrontrightblind'', ''windowstatusrearleft'', ''windowstatusrearleftblind'',
        ''windowstatusrearright'', ''windowstatusrearrightblind'']) (Some ''mdi:car-door'') None False None
        None None None)]"

definition BinarySensors_2 :: "(string \<times> entity_spec) list" where
  "BinarySensors_2 = [
(''tirewarninglamp'', entity ''Tire Warning'' None (Some ''tires'') ''tirewarninglamp'' ''value'' None (Some
        [''tireMarkerFrontLeft'', ''tireMarkerFrontRight'', ''tireMarkerRearLeft'', ''tireMarkerRearRight'',
        ''tireTemperatureFrontLeft'', ''tireTemperatureFrontRight'', ''tireTemperatureRearLeft'',
        ''tireTemperatureRearRight'', ''tirewarningsprw'', ''tirewarningsrdk'']) (Some ''mdi:car-tire-alert'')
        (Some ''BinarySensorDeviceClass.PROBLEM'') False None None None None),
(''remoteStartActive'', entity ''Remote Start Active'' None (Some ''binarysensors'') ''remoteStartActive''
        ''value'' None (Some [''remoteStartTemperature'']) (Some ''mdi:engine-outline'') None False None None
        None None),
(''engineState'', entity ''Engine State'' None (Some ''binarysensors'') ''engineState'' ''value'' None None
        (Some ''mdi:engine'') None False None None None None),
(''decklidstatus'', entity ''Deck lid'' None (Some ''doors'') ''decklidstatus'' ''value'' None None None (Some
        ''BinarySensorDeviceClass.OPENING'') False None None None None),
(''doorlockstatusdecklid'', entity ''Deck lid lock'' None (Some ''doors'') ''doorlockstatusdecklid'' ''value''
        None None None (Some ''BinarySensorDeviceClass.LOCK'') False None None None None),
(''chargeflapacstatus'', entity ''Charge Flap AC Status'' None (Some ''doors'') ''chargeFlapACStatus''
        ''value'' None (Some []) None (Some ''BinarySensorDeviceClass.DOOR'') True None None None None),
(''preclimateStatus'', entity ''Preclimate Status'' None (Some ''precond'') ''precondStatus'' ''value'' None
        (Some [''precondActive'', ''precondAtDepartureDisable'', ''precondDuration'', ''precondError'',
        ''precondNow'', ''precondNowError'', ''precondOperatingMode'', ''precondSeatFrontLeft'',
        ''precondSeatFrontRight'', ''precondSeatRearLeft'', ''precondSeatRearRight'', ''precondState'',
        ''precondatdeparture'', ''temperature_points_frontLeft'', ''temperature_points_frontRight'',
        ''temperature_points_rearLeft'', ''temperature_points_rearRight'']) (Some ''mdi:car-seat-heater'')
        (Some ''BinarySensorDeviceClass.RUNNING'') False None None None None)]"

definition BinarySensors_3 :: "(string \<times> entity_spec) list" where
  "BinarySensors_3 = [
(''theftsystemarmed'', entity ''Theft system armed'' None (Some ''caralarm'') ''theftSystemArmed'' ''value''
        None (Some [''carAlarmLastTime'', ''carAlarmReason'', ''collisionAlarmTimestamp'',
        ''exteriorMonitoringLastEvent'', ''exteriorMonitoringStatus'', ''interiorMonitoringLastEvent'',
        ''interiorMonitoringStatus'', ''interiorProtectionStatus'', ''interiorSensor'', ''lastParkEvent'',
        ''lastTheftWarning'', ''lastTheftWarningReason'', ''parkEventLevel'', ''parkEventType'',
        ''theftAlarmActive'', ''towProtectionSensorStatus'', ''towSensor'']) (Some ''mdi:alarm-light'') None
        False None None None None)]"

definition BinarySensors :: "(string \<times> entity_spec) list" where
  "BinarySensors = BinarySensors_1 @ BinarySensors_2 @ BinarySensors_3"

section \<open>The device tracker\<close>

definition DEVICE_TRACKER :: "(string \<times> entity_spec) list" where
  "DEVICE_TRACKER = [
(''tracker'', entity ''Device Tracker'' None (Some ''location'') ''positionLong'' ''value'' None (Some
        [''positionHeading'']) None None False None None None None)]"

section \<open>Sensors\<close>

definition SENSORS_1 :: "(string \<times> entity_spec) list" where
  "SENSORS_1 = [
(''chargingpowerkw'', entity ''Charging Power'' (Some ''UnitOfPower.KILO_WATT'') (Some ''electric'')
        ''chargingPower'' ''value'' None (Some []) None (Some ''SensorDeviceClass.POWER'') False None (Some
        ''SensorStateClass.MEASUREMENT'') (Some ''Zero'') (Some 1)),
(''chargingpowerecolimit'', entity ''Charging Power Limit'' (Some ''UnitOfPower.KILO_WATT'') (Some
        ''electric'') ''chargingPowerEcoLimit'' ''value'' None (Some [''chargingPowerRestriction'']) (Some
        ''mdi:ev-station'') (Some ''SensorDeviceClass.POWER'') False None (Some
        ''SensorStateClass.MEASUREMENT'') None None),
(''rcp_features'', entity ''RCP Features'' None (Some ''rcp_options'') ''rcp_supported'' ''value'' None (Some
        [''rcp_supported_settings'']) (Some ''mdi:car'') None False (Some ''EntityCategory.DIAGNOSTIC'') None
        None None),
(''car'', entity ''Car'' None None ''full_updatemessages_received'' ''value'' None (Some
        [''electric.chargingBreakClockTimer'', ''is_owner'', ''last_command_error_code'',
        ''last_command_error_message'', ''last_command_state'', ''last_command_type'',
        ''last_message_received'', ''partital_updatemessages_received'']) (Some ''mdi:car'') None False (Some
        ''EntityCategory.DIAGNOSTIC'') None None (Some 0)),
(''data_mode'', entity ''Data Mode'' None None ''data_collection_mode'' ''value'' None (Some []) (Some
        ''mdi:connection'') None False (Some ''EntityCategory.DIAGNOSTIC'') None None (Some 0)),
(''departuretime'', entity ''Departure time'' None (Some ''odometer'') ''departuretime'' ''display_value''
        None (Some [''departureTimeWeekday'']) (Some ''mdi:clock-out'') None False None None None None),
(''lock'', entity ''Lock'' None (Some ''doors'') ''doorlockstatusvehicle'' ''value'' None (Some
        [''decklidstatus'', ''doorLockStatusOverall'', ''doorStatusOverall'', ''doorlockstatusdecklid'',
        ''doorlockstatusfrontleft'', ''doorlockstatusfrontright'', ''doorlockstatusgas'',
        ''doorlockstatusrearleft'', ''doorlockstatusrearright'', ''doorlockstatusvehicle'',
        ''doorstatusfrontleft'', ''doorstatusfrontright'', ''doorstatusrearleft'', ''doorstatusrearright'',
        ''engineHoodStatus'', ''rooftopstatus'', ''sunroofstatus'', ''tankCapOpenLamp'']) (Some
        ''mdi:car-key'') None False None None None None)]"

definition SENSORS_2 :: "(string \<times> entity_spec) list" where
  "SENSORS_2 = [
(''rangeElectricKm'', entity ''Range Electric'' None (Some ''electric'') ''rangeelectric'' ''display_value''
        None (Some [''chargingactive'', ''chargingstatus'', ''distanceElectricalReset'',
        ''distanceElectricalStart'', ''distanceZEReset'', ''distanceZEStart'',
        ''ecoElectricBatteryTemperature'', ''electricRatioOverall'', ''electricRatioReset'',
        ''electricRatioStart'', ''endofChargeTimeWeekday'', ''endofchargetime'', ''maxrange'',
        ''precond.precondActive'', ''precond.precondDuration'', ''precond.precondNow'',
        ''selectedChargeProgram'']) (Some ''mdi:ev-station'') (Some ''SensorDeviceClass.DISTANCE'') False None
        (Some ''SensorStateClass.MEASUREMENT'') None (Some 0)),
(''chargingstatus'', entity ''Charging Status'' None (Some ''electric'') ''chargingstatus'' ''value'' None
        (Some []) (Some ''mdi:car-electric'') None False None None None (Some 0)),
(''electricconsumptionstart'', entity ''Electric consumption start'' None (Some ''electric'')
        ''electricconsumptionstart'' ''display_value'' None (Some []) (Some ''mdi:ev-station'') None False
        None (Some ''SensorStateClass.MEASUREMENT'') None (Some 1)),
(''electricconsumptionreset'', entity ''Electric consumption reset'' None (Some ''electric'')
        ''electricconsumptionreset'' ''display_value'' None (Some []) (Some ''mdi:ev-station'') None False
        None (Some ''SensorStateClass.MEASUREMENT'') None (Some 1)),
(''soc'', entity ''State of Charge'' None (Some ''electric'') ''soc'' ''value'' None (Some [''maxSoc'',
        ''maxSocLowerLimit'', ''selectedChargeProgram'']) None (Some ''SensorDeviceClass.BATTERY'') False None
        (Some ''SensorStateClass.MEASUREMENT'') None (Some 0)),
(''max_soc'', entity ''Max State of Charge'' None (Some ''electric'') ''max_soc'' ''value'' None (Some
        [''selectedChargeProgram'']) None None False None (Some ''SensorStateClass.MEASUREMENT'') None (Some
        0)),
(''auxheatstatus'', entity ''Auxheat Status'' None (Some ''auxheat'') ''auxheatstatus'' ''value'' None (Some
        [''auxheatActive'', ''auxheatruntime'', ''auxheattime1'', ''auxheattime2'', ''auxheattime3'',
        ''auxheattimeselection'', ''auxheatwarnings'', ''auxheatwarningsPush'',
        ''temperature_points_frontLeft'', ''temperature_points_frontRight'']) (Some ''mdi:radiator'') None
        False None None None None)]"

definition SENSORS_3 :: "(string \<times> entity_spec) list" where
  "SENSORS_3 = [
(''tanklevelpercent'', entity ''Fuel Level'' None (Some ''odometer'') ''tanklevelpercent'' ''value'' None
        (Some []) (Some ''mdi:gas-station'') (Some ''SensorDeviceClass.POWER_FACTOR'') False None (Some
        ''SensorStateClass.MEASUREMENT'') None (Some 0)),
(''gastanklevelpercent'', entity ''Fuel Level'' None (Some ''odometer'') ''gasTankLevelPercent'' ''value''
        None (Some []) (Some ''mdi:gas-station'') (Some ''SensorDeviceClass.POWER_FACTOR'') False None (Some
        ''SensorStateClass.MEASUREMENT'') None (Some 0)),
(''tankleveladblue'', entity ''AdBlue Level'' None (Some ''odometer'') ''tankLevelAdBlue'' ''value'' None
        (Some []) (Some ''mdi:gas-station'') (Some ''SensorDeviceClass.POWER_FACTOR'') False None (Some
        ''SensorStateClass.MEASUREMENT'') None (Some 0)),
(''odometer'', entity ''Odometer'' None (Some ''odometer'') ''odo'' ''display_value'' None (Some
        [''gasTankLevel'', ''gasTankRange'', ''gasconsumptionreset'', ''gasconsumptionstart'',
        ''liquidRangeSkipIndication'', ''outsideTemperature'', ''remoteStartTemperature'',
        ''serviceintervaldays'', ''serviceintervaldistance'', ''tankReserveLamp'',
        ''vehicleDataConnectionState'']) (Some ''mdi:car-cruise-control'') (Some
        ''SensorDeviceClass.DISTANCE'') False None (Some ''SensorStateClass.TOTAL_INCREASING'') None (Some 0)),
(''averageSpeedStart'', entity ''Average speed start'' None (Some ''odometer'') ''averageSpeedStart''
        ''display_value'' None (Some []) None (Some ''SensorDeviceClass.SPEED'') False None (Some
        ''SensorStateClass.MEASUREMENT'') None (Some 0)),
(''averageSpeedReset'', entity ''Average speed reset'' None (Some ''odometer'') ''averageSpeedReset''
        ''display_value'' None (Some []) None (Some ''SensorDeviceClass.SPEED'') False None (Some
        ''SensorStateClass.MEASUREMENT'') None (Some 0)),
(''distanceReset'', entity ''Distance reset'' None (Some ''odometer'') ''distanceReset'' ''display_value''
        None (Some [''drivenTimeReset'']) (Some ''mdi:map-marker-distance'') (Some
        ''SensorDeviceClass.DISTANCE'') False None (Some ''SensorStateClass.MEASUREMENT'') None (Some 0)),
(''distanceStart'', entity ''Distance start'' None (Some ''odometer'') ''distanceStart'' ''display_value''
        None (Some [''drivenTimeStart'']) (Some ''mdi:map-marker-distance'') (Some
        ''SensorDeviceClass.DISTANCE'') False None (Some ''SensorStateClass.MEASUREMENT'') None (Some 0))]"

definition SENSORS_4 :: "(string \<times> entity_spec) list" where
  "SENSORS_4 = [
(''distanceZEReset'', entity ''Distance zero-emission reset'' None (Some ''electric'') ''distanceZEReset''
        ''display_value'' None (Some [''drivenTimeZEReset'']) (Some ''mdi:map-marker-distance'') (Some
        ''SensorDeviceClass.DISTANCE'') False None (Some ''SensorStateClass.MEASUREMENT'') None (Some 0)),
(''distanceZEStart'', entity ''Distance zero-emission start'' None (Some ''electric'') ''distanceZEStart''
        ''display_value'' None (Some [''drivenTimeZEStart'']) (Some ''mdi:map-marker-distance'') (Some
        ''SensorDeviceClass.DISTANCE'') False None (Some ''SensorStateClass.MEASUREMENT'') None (Some 0)),
(''ecoscoretotal'', entity ''Eco score total'' None (Some ''odometer'') ''ecoscoretotal'' ''display_value''
        None (Some []) (Some ''mdi:leaf'') None False None (Some ''SensorStateClass.MEASUREMENT'') None None),
(''ecoscorefreewhl'', entity ''Eco score free wheel'' None (Some ''odometer'') ''ecoscorefreewhl''
        ''display_value'' None (Some []) (Some ''mdi:leaf'') (Some ''SensorDeviceClass.POWER_FACTOR'') False
        None (Some ''SensorStateClass.MEASUREMENT'') None (Some 0)),
(''ecoscorebonusrange'', entity ''Eco score bonus range'' None (Some ''odometer'') ''ecoscorebonusrange''
        ''display_value'' None (Some []) (Some ''mdi:leaf'') (Some ''SensorDeviceClass.DISTANCE'') False None
        (Some ''SensorStateClass.MEASUREMENT'') None (Some 0)),
(''ecoscoreconst'', entity ''Eco score constant'' None (Some ''odometer'') ''ecoscoreconst'' ''display_value''
        None (Some []) (Some ''mdi:leaf'') (Some ''SensorDeviceClass.POWER_FACTOR'') False None (Some
        ''SensorStateClass.MEASUREMENT'') None (Some 0)),
(''ecoscoreaccel'', entity ''Eco score acceleration'' None (Some ''odometer'') ''ecoscoreaccel''
        ''display_value'' None (Some []) (Some ''mdi:leaf'') (Some ''SensorDeviceClass.POWER_FACTOR'') False
        None (Some ''SensorStateClass.MEASUREMENT'') None (Some 0)),
(''liquidconsumptionstart'', entity ''Liquid consumption start'' None (Some ''odometer'')
        ''liquidconsumptionstart'' ''display_value'' None (Some []) (Some ''mdi:fuel'') None False None (Some
        ''SensorStateClass.MEASUREMENT'') None (Some 1)),
(''liquidconsumptionreset'', entity ''Liquid consumption reset'' None (Some ''odometer'')
        ''liquidconsumptionreset'' ''display_value'' None (Some []) (Some ''mdi:fuel'') None False None (Some
        ''SensorStateClass.MEASUREMENT'') None (Some 1))]"

definition SENSORS_5 :: "(string \<times> entity_spec) list" where
  "SENSORS_5 = [
(''rangeliquid'', entity ''Range liquid'' None (Some ''odometer'') ''rangeliquid'' ''display_value'' None
        (Some []) (Some ''mdi:gas-station'') (Some ''SensorDeviceClass.DISTANCE'') False None (Some
        ''SensorStateClass.MEASUREMENT'') None (Some 0)),
(''starterBatteryState'', entity ''Starter Battery State'' None (Some ''binarysensors'')
        ''starterBatteryState'' ''value'' None (Some []) (Some ''mdi:car-battery'') None False None None None
        None),
(''ignitionstate'', entity ''Ignition State'' None (Some ''odometer'') ''ignitionstate'' ''value'' None (Some
        []) (Some ''mdi:key-wireless'') None False None None None None),
(''oilLevel'', entity ''Oil Level'' None (Some ''odometer'') ''oilLevel'' ''value'' None (Some []) (Some
        ''mdi:oil-level'') (Some ''SensorDeviceClass.POWER_FACTOR'') False None (Some
        ''SensorStateClass.MEASUREMENT'') None (Some 0)),
(''tirepressureRearLeft'', entity ''Tire pressure rear left'' None (Some ''tires'') ''tirepressureRearLeft''
        ''display_value'' None (Some []) None (Some ''SensorDeviceClass.ATMOSPHERIC_PRESSURE'') False None
        (Some ''SensorStateClass.MEASUREMENT'') None (Some 1)),
(''tirepressureRearRight'', entity ''Tire pressure rear right'' None (Some ''tires'')
        ''tirepressureRearRight'' ''display_value'' None (Some []) None (Some
        ''SensorDeviceClass.ATMOSPHERIC_PRESSURE'') False None (Some ''SensorStateClass.MEASUREMENT'') None
        (Some 1)),
(''tirepressureFrontRight'', entity ''Tire pressure front right'' None (Some ''tires'')
        ''tirepressureFrontRight'' ''display_value'' None (Some []) None (Some
        ''SensorDeviceClass.ATMOSPHERIC_PRESSURE'') False None (Some ''SensorStateClass.MEASUREMENT'') None
        (Some 1)),
(''tirepressureFrontLeft'', entity ''Tire pressure front left'' None (Some ''tires'')
        ''tirepressureFrontLeft'' ''display_value'' None (Some []) None (Some
        ''SensorDeviceClass.ATMOSPHERIC_PRESSURE'') False None (Some ''SensorStateClass.MEASUREMENT'') None
        (Some 1)),
(''tirewarningsrdk'', entity ''Tires RDK state'' None (Some ''tires'') ''tirewarningsrdk'' ''value'' None
        (Some []) (Some ''mdi:car-tire-alert'') None False None None None None)]"

definition SENSORS_6 :: "(string \<times> entity_spec) list" where
  "SENSORS_6 = [
(''lastParkEvent'', entity ''Last park event'' None (Some ''caralarm'') ''lastParkEvent'' ''value'' None (Some
        [''parkEventLevel'', ''parkEventType'']) None (Some ''SensorDeviceClass.DATE'') False None None None
        None),
(''interiorProtectionSensorStatus'', entity ''Interior Protection'' None (Some ''caralarm'')
        ''interiorProtectionSensorStatus'' ''value'' None (Some []) None (Some ''SensorDeviceClass.DATE'')
        False None None None None),
(''sunroofstatus'', entity ''Sunroof Status'' None (Some ''doors'') ''sunroofstatus'' ''value'' None (Some [])
        None None False None None None None),
(''chargeflapstate'', entity ''Charge Flap'' None (Some ''electric'') ''chargeflap'' ''value'' None (Some [])
        (Some ''mdi:ev-plug-type2'') None False None None None None),
(''chargeinletcoupler'', entity ''Charge Inlet Coupler'' None (Some ''electric'') ''chargeinletcoupler''
        ''value'' None (Some []) (Some ''mdi:ev-plug-type2'') None False None None None None),
(''chargeinletlock'', entity ''Charge Inlet Lock'' None (Some ''electric'') ''chargeinletlock'' ''value'' None
        (Some []) (Some ''mdi:ev-plug-type2'') None False None None None None),
(''chargeflapdcstatus'', entity ''Charge Flap DC Status'' None (Some ''doors'') ''chargeFlapDCStatus''
        ''value'' None (Some []) None None False None None None None),
(''departuretimemode'', entity ''Departure Time Mode'' None (Some ''electric'') ''departureTimeMode''
        ''value'' None (Some []) (Some ''mdi:ev-station'') None False (Some ''EntityCategory.DIAGNOSTIC'')
        None None None),
(''endofchargetime'', entity ''End of charge'' None (Some ''electric'') ''endofchargetime'' ''display_value''
        None (Some []) (Some ''mdi:ev-station'') (Some ''SensorDeviceClass.TIMESTAMP'') False None None None
        None)]"

definition SENSORS_7 :: "(string \<times> entity_spec) list" where
  "SENSORS_7 = [
(''wiperHealthPercent'', entity ''Wiper Health'' None (Some ''wipers'') ''wiperHealthPercent'' ''value'' None
        (Some [''wiperLifetimeExceeded'']) (Some ''mdi:wiper'') (Some ''SensorDeviceClass.POWER_FACTOR'')
        False None None None (Some 0)),
(''selectedchargeprogram'', entity ''Selected Charge Program'' None (Some ''electric'')
        ''selectedChargeProgram'' ''value'' None (Some []) None None False None None None (Some 0)),
(''windowstatusrearleft'', entity ''Window Status Rear Left'' None (Some ''windows'') ''windowstatusrearleft''
        ''value'' None (Some []) (Some ''mdi:car-door'') None False None None None (Some 0)),
(''windowstatusrearright'', entity ''Window Status Rear Right'' None (Some ''windows'')
        ''windowstatusrearright'' ''value'' None (Some []) (Some ''mdi:car-door'') None False None None None
        (Some 0)),
(''windowstatusfrontright'', entity ''Window Status Front Right'' None (Some ''windows'')
        ''windowstatusfrontright'' ''value'' None (Some []) (Some ''mdi:car-door'') None False None None None
        (Some 0)),
(''windowstatusfrontleft'', entity ''Window Status Front Left'' None (Some ''windows'')
        ''windowstatusfrontleft'' ''value'' None (Some []) (Some ''mdi:car-door'') None False None None None
        (Some 0))]"

definition SENSORS :: "(string \<times> entity_spec) list" where
  "SENSORS = SENSORS_1 @ SENSORS_2 @ SENSORS_3 @ SENSORS_4 @ SENSORS_5 @ SENSORS_6 @ SENSORS_7"

definition SENSORS_POLL :: "(string \<times> entity_spec) list" where
  "SENSORS_POLL = [
(''geofencing_violation'', entity ''Geofencing Violation'' None (Some ''geofence_events'') ''last_event_type''
        ''value'' None (Some [''last_event_zone'']) (Some ''mdi:map-marker-radius'') None False None None None
        None)]"

section \<open>Units\<close>

definition UNITS :: "(string \<times> string) list" where
"UNITS = [(''BAR'', ''UnitOfPressure.BAR''), (''CELSIUS'', ''UnitOfTemperature.CELSIUS''), (''FAHRENHEIT'',
     ''UnitOfTemperature.FAHRENHEIT''), (''KG_PER_100KM'', ''UnitOfMass.KILOGRAMS + /100 +
     UnitOfLength.KILOMETERS''), (''KILOMETERS'', ''UnitOfLength.KILOMETERS''), (''KM_PER_HOUR'',
     ''UnitOfSpeed.KILOMETERS_PER_HOUR''), (''KM_PER_KWH'', ''UnitOfEnergyDistance.KM_PER_KILO_WATT_HOUR''),
     (''KM_PER_LITER'', ''UnitOfLength.KILOMETERS + / + UnitOfVolume.LITERS''), (''KPA'',
     ''UnitOfPressure.KPA''), (''KW'', ''UnitOfPower.KILO_WATT''), (''KWH_PER_100KM'',
     ''UnitOfEnergyDistance.KILO_WATT_HOUR_PER_100_KM''), (''KWH_PER_100MI'', ''UnitOfEnergy.KILO_WATT_HOUR +
     /100 + UnitOfLength.MILES''), (''LITER_PER_100KM'', ''UnitOfVolume.LITERS + /100 +
     UnitOfLength.KILOMETERS''), (''M_PER_HOUR'', ''UnitOfSpeed.MILES_PER_HOUR''), (''M_PER_KWH'',
     ''UnitOfEnergyDistance.MILES_PER_KILO_WATT_HOUR''), (''MILES'', ''UnitOfLength.MILES''), (''MPG_UK'',
     ''mpg''), (''MPG_US'', ''mpg''), (''MPGE'', ''mpge''), (''PERCENT'', ''PERCENTAGE''), (''PSI'',
     ''UnitOfPressure.PSI''), (''T24H'', []), (''T12H'', []), (''%'', ''PERCENTAGE'')]"

end
