(* ===== verification/Entities.thy ===== *)
theory Entities
  imports Coordinator Entity_Tables "HOL-Library.List_Lexorder" "HOL-Library.Char_ord"
begin

text \<open>
  \<^verbatim>\<open>mbapi2020/entity.py\<close>, \<^verbatim>\<open>sensor.py\<close>, \<^verbatim>\<open>binary_sensor.py\<close>, \<^verbatim>\<open>cover.py\<close> and
  \<^verbatim>\<open>device_tracker.py\<close>: what Home Assistant shows of a car. An entity reads one attribute of the car
  by the names of its table entry; which entities exist is decided by the status of that attribute.
  \<^verbatim>\<open>slugify\<close> and \<^verbatim>\<open>datetime.fromtimestamp\<close> are parameters.
\<close>

section \<open>Reading the car\<close>

record ha_env =
  hv_local :: "int \<Rightarrow> pyval res"
  hv_slug :: "string \<Rightarrow> string"
  hv_options :: pydict

text \<open>The attributes of the car object itself.\<close>

definition car_level :: "ha_env \<Rightarrow> car \<Rightarrow> string \<Rightarrow> car_attribute option res" where
  "car_level v c name =
     (if name = ''full_updatemessages_received'' then Inr (Some (full_messages_attr c))
      else if name = ''partital_updatemessages_received'' then Inr (Some (partial_messages_attr c))
      else if name = ''last_message_received'' then rbind (last_message_received (hv_local v) c) (\<lambda>a. Inr (Some a))
      else if name = ''data_collection_mode'' then Inr (Some (data_mode_attr c))
      else if name = ''last_command_type'' then Inr (Some (last_command_type c))
      else if name = ''last_command_state'' then Inr (Some (last_command_state c))
      else if name = ''last_command_error_code'' then Inr (Some (last_command_error_code c))
      else if name = ''last_command_error_message'' then Inr (Some (last_command_error_message c))
      else if name = ''is_owner'' then Inr (Some (is_owner_attr c))
      else Inr None)"

definition attribute_at :: "ha_env \<Rightarrow> car \<Rightarrow> string option \<Rightarrow> string \<Rightarrow> car_attribute option res" where
  "attribute_at v c grp name =
     (case grp of None \<Rightarrow> car_level v c name | Some g \<Rightarrow> Inr (car_attr c g name))"

definition field_of :: "car_attribute \<Rightarrow> string \<Rightarrow> pyval option" where
  "field_of a field =
     (if field = ''value'' then Some (ca_value a)
      else if field = ''retrievalstatus'' then Some (ca_status a)
      else if field = ''timestamp'' then Some (ca_timestamp a)
      else if field = ''display_value'' then Some (ca_display a)
      else if field = ''unit'' then Some (ca_unit a)
      else if field = ''sensor_created'' then Some (PBool (ca_sensor_created a))
      else None)"

definition get_car_value :: "ha_env \<Rightarrow> car \<Rightarrow> string option \<Rightarrow> string \<Rightarrow> string \<Rightarrow> pyval \<Rightarrow> pyval res" where
  "get_car_value v c grp name field dflt =
     rbind (attribute_at v c grp name) (\<lambda>a.
       Inr (case a of None \<Rightarrow> dflt
            | Some a \<Rightarrow> (case field_of a field of None \<Rightarrow> dflt | Some x \<Rightarrow> x)))"

section \<open>Entities\<close>

record ha_entity =
  hx_name :: string
  hx_spec :: entity_spec
  hx_vin :: pyval
  hx_state :: pyval
  hx_poll :: bool
  hx_unique :: string
  hx_unit :: pyval
  hx_enabled :: bool

definition reads :: "ha_env \<Rightarrow> car \<Rightarrow> entity_spec \<Rightarrow> string \<Rightarrow> pyval \<Rightarrow> pyval res" where
  "reads v c spec field dflt = get_car_value v c (sp_object spec) (sp_attribute spec) field dflt"

definition device_retrieval_status :: "ha_env \<Rightarrow> car \<Rightarrow> string \<Rightarrow> entity_spec \<Rightarrow> pyval res" where
  "device_retrieval_status v c key spec =
     (if key = ''car'' then Inr (PStr ''VALID'') else reads v c spec ''retrievalstatus'' (PStr ''error''))"

text \<open>One configured extra attribute: \<open>group.name\<close>, or a name in the group of the entity.\<close>

definition extra_place :: "entity_spec \<Rightarrow> string \<Rightarrow> string option \<times> string" where
  "extra_place spec attrib =
     (case split_char (CHR ''.'') attrib of g # name # _ \<Rightarrow> (Some g, name) | _ \<Rightarrow> (sp_object spec, attrib))"

definition add_configured_attribute :: "ha_env \<Rightarrow> car \<Rightarrow> entity_spec \<Rightarrow> string \<Rightarrow> pydict \<Rightarrow> pydict res" where
  "add_configured_attribute v c spec attrib shown =
     (case extra_place spec attrib of (grp, name) \<Rightarrow>
        rbind (get_car_value v c grp name ''retrievalstatus'' (PStr ''error'')) (\<lambda>status.
        if status = PStr ''VALID''
        then rbind (get_car_value v c grp name ''display_value'' PNone) (\<lambda>display.
             if truthy display then Inr (dset name display shown)
             else rbind (get_car_value v c grp name ''value'' (PStr ''error'')) (\<lambda>x. Inr (dset name x shown)))
        else if status = PStr ''NOT_RECEIVED'' then Inr (dset name (PStr ''NOT_RECEIVED'') shown)
        else Inr shown))"

fun add_configured :: "ha_env \<Rightarrow> car \<Rightarrow> entity_spec \<Rightarrow> string list \<Rightarrow> pydict \<Rightarrow> pydict res" where
  "add_configured v c spec [] shown = Inr shown"
| "add_configured v c spec (a # as) shown =
     rbind (add_configured_attribute v c spec a shown) (add_configured v c spec as)"

fun add_plain :: "ha_env \<Rightarrow> car \<Rightarrow> entity_spec \<Rightarrow> string list \<Rightarrow> pydict \<Rightarrow> pydict res" where
  "add_plain v c spec [] shown = Inr shown"
| "add_plain v c spec (item # items) shown =
     rbind (reads v c spec item PNone) (\<lambda>x.
     if \<not> truthy x then add_plain v c spec items shown
     else if item = ''timestamp''
     then rbind (py_int x) (\<lambda>n. rbind (hv_local v n) (\<lambda>t. add_plain v c spec items (dset item t shown)))
     else add_plain v c spec items (dset item x shown))"

definition extra_state_attributes :: "ha_env \<Rightarrow> car \<Rightarrow> entity_spec \<Rightarrow> pydict res" where
  "extra_state_attributes v c spec =
     rbind (if sp_field spec = ''display_value'' then reads v c spec ''value'' PNone else Inr PNone) (\<lambda>orig.
     rbind (add_plain v c spec [''retrievalstatus'', ''timestamp'', ''unit'']
              ([(''car'', car_licenseplate c), (''vin'', car_vin c)] @ (if truthy orig then [(''original_value'', orig)] else []))) (\<lambda>shown.
     case sp_extended spec of None \<Rightarrow> Inr shown | Some names \<Rightarrow> add_configured v c spec (sort names) shown))"

definition unit_of_measurement :: "ha_env \<Rightarrow> car \<Rightarrow> entity_spec \<Rightarrow> pyval res" where
  "unit_of_measurement v c spec =
     rbind (extra_state_attributes v c spec) (\<lambda>shown.
       if haskey shown ''unit''
       then (case dget shown ''unit'' of
               PStr s \<Rightarrow> Inr (PStr (case map_of UNITS (upper s) of Some u \<Rightarrow> u | None \<Rightarrow> s))
             | _ \<Rightarrow> Inl AttributeError)
       else Inr (case sp_unit spec of None \<Rightarrow> PNone | Some u \<Rightarrow> PStr u))"

definition new_entity :: "ha_env \<Rightarrow> car \<Rightarrow> string \<Rightarrow> entity_spec \<Rightarrow> bool \<Rightarrow> ha_entity res" where
  "new_entity v c key spec poll =
     rbind (unit_of_measurement v c spec) (\<lambda>un.
       Inr \<lparr>hx_name = key, hx_spec = spec, hx_vin = car_vin c, hx_state = PNone, hx_poll = poll,
         hx_unique = hv_slug v (py_str (car_vin c) @ ''_'' @ key), hx_unit = un, hx_enabled = True\<rparr>)"

definition entity_available :: "time \<Rightarrow> bool \<Rightarrow> coordinator \<Rightarrow> bool" where
  "entity_available now broker c = coordinator_available now broker c"

definition entity_update :: "ha_env \<Rightarrow> car \<Rightarrow> ha_entity \<Rightarrow> ha_entity res" where
  "entity_update v c e =
     (if \<not> hx_enabled e then Inr e
      else rbind (reads v c (hx_spec e) (sp_field (hx_spec e)) (PStr ''error'')) (\<lambda>x. Inr (e\<lparr>hx_state := x\<rparr>)))"

section \<open>Sensors\<close>

definition status_in :: "pyval \<Rightarrow> pyval list \<Rightarrow> bool" where
  "status_in s xs = list_ex (py_eq s) xs"

definition capable :: "ha_env \<Rightarrow> car \<Rightarrow> entity_spec \<Rightarrow> bool" where
  "capable v c spec =
     (case sp_capability spec of
        None \<Rightarrow> True
      | Some cap \<Rightarrow> truthy (dget_or (hv_options v) ''cap_check_disabled'' (PBool False)) \<or>
                    truthy (dget_or (car_features c) cap (PBool False)))"

text \<open>A default value mode counts unless it is the text \<^verbatim>\<open>None\<close>.\<close>

definition has_default :: "entity_spec \<Rightarrow> bool" where
  "has_default spec = (sp_default spec \<noteq> None \<and> sp_default spec \<noteq> Some ''None'')"

definition sensor_eligible :: "bool \<Rightarrow> pyval \<Rightarrow> entity_spec \<Rightarrow> bool" where
  "sensor_eligible poll status spec =
     (status_in status (if poll then [PStr ''VALID'', PStr ''NOT_RECEIVED'']
                        else [PStr ''VALID'', PStr ''NOT_RECEIVED'', PStr ''3'', PInt 3]) \<or>
      has_default spec \<and> py_str status \<notin> {''4'', ''error''})"

definition create_sensor_if_eligible :: "ha_env \<Rightarrow> car \<Rightarrow> bool \<Rightarrow> bool \<Rightarrow> string \<times> entity_spec \<Rightarrow> ha_entity option res" where
  "create_sensor_if_eligible v c poll initial = (\<lambda>(key, spec).
     if key \<in> {''car'', ''data_mode''} \<and> \<not> initial then Inr None
     else if \<not> capable v c spec then Inr None
     else rbind (new_entity v c key spec poll) (\<lambda>e.
          rbind (device_retrieval_status v c key spec) (\<lambda>status.
            Inr (if sensor_eligible poll status spec then Some e else None))))"

definition default_reading :: "entity_spec \<Rightarrow> pyval" where
  "default_reading spec = (if sp_default spec = Some ''Zero'' then PInt 0 else STATE_UNKNOWN)"

definition available_state :: "ha_env \<Rightarrow> string \<Rightarrow> pyval \<Rightarrow> pyval res" where
  "available_state v key x =
     (if key = ''lastParkEvent''
      then (if truthy x then rbind (py_int x) (hv_local v) else Inr x)
      else if key = ''chargingpowerecolimit''
      then (if truthy x then rbind (py_int x) (\<lambda>n. Inr (if n \<le> 0 then PNone else x)) else Inr x)
      else if key = ''chargingpowerkw''
      then (if \<not> truthy x then Inr x
            else case x of
              PBool _ \<Rightarrow> Inr (PFloat (Fin 1))
            | PInt n \<Rightarrow> rbind (float_of_int n) (\<lambda>f. Inr (PFloat (case f of Fin q \<Rightarrow> round_digits 1 q | g \<Rightarrow> g)))
            | PFloat f \<Rightarrow> Inr (PFloat (case f of Fin q \<Rightarrow> round_digits 1 q | g \<Rightarrow> g))
            | _ \<Rightarrow> Inr (if x = PStr ''error'' then STATE_UNKNOWN else x))
      else Inr x)"

definition sensor_state :: "ha_env \<Rightarrow> car \<Rightarrow> ha_entity \<Rightarrow> pyval res" where
  "sensor_state v c e =
     rbind (device_retrieval_status v c (hx_name e) (hx_spec e)) (\<lambda>status.
       if status_in status [PStr ''NOT_RECEIVED'', PStr ''4'', PInt 4] then Inr (default_reading (hx_spec e))
       else if py_eq status (PInt 3) then Inr (default_reading (hx_spec e))
       else available_state v (hx_name e) (hx_state e))"

definition poll_sensor_state :: "ha_env \<Rightarrow> car \<Rightarrow> ha_entity \<Rightarrow> pyval res" where
  "poll_sensor_state v c e =
     rbind (device_retrieval_status v c (hx_name e) (hx_spec e)) (\<lambda>status.
       Inr (if status = PStr ''NOT_RECEIVED'' \<or> py_eq status (PInt 3) then STATE_UNKNOWN else hx_state e))"

section \<open>Discovery\<close>

fun eligible_devices :: "(string \<times> entity_spec \<Rightarrow> ha_entity option res) \<Rightarrow> (string \<times> entity_spec) list \<Rightarrow> ha_entity list res" where
  "eligible_devices create [] = Inr []"
| "eligible_devices create (item # items) =
     rbind (create item) (\<lambda>e. rbind (eligible_devices create items) (\<lambda>es.
       Inr (case e of None \<Rightarrow> es | Some d \<Rightarrow> d # es)))"

definition sorted_items :: "(string \<times> entity_spec) list \<Rightarrow> (string \<times> entity_spec) list" where
  "sorted_items table = sort_key fst table"

definition not_added :: "string \<Rightarrow> car \<Rightarrow> ha_entity list \<Rightarrow> ha_entity list" where
  "not_added domain c es = filter (\<lambda>e. domain @ hx_unique e \<notin> set (car_sensors c)) es"

text \<open>Setting the platform up creates every eligible sensor of the car, discovery those missing.\<close>

definition initial_sensors :: "ha_env \<Rightarrow> car \<Rightarrow> ha_entity list res" where
  "initial_sensors v c =
     rbind (eligible_devices (create_sensor_if_eligible v c False True) (sorted_items SENSORS)) (\<lambda>xs.
     rbind (eligible_devices (create_sensor_if_eligible v c True True) (sorted_items SENSORS_POLL)) (\<lambda>ys.
       Inr (xs @ ys)))"

definition missing_sensors :: "ha_env \<Rightarrow> car \<Rightarrow> ha_entity list res" where
  "missing_sensors v c =
     rbind (eligible_devices (create_sensor_if_eligible v c False False) (sorted_items SENSORS)) (\<lambda>xs.
     rbind (eligible_devices (create_sensor_if_eligible v c True False) (sorted_items SENSORS_POLL)) (\<lambda>ys.
       Inr (not_added ''sensor.'' c (xs @ ys))))"

definition added_to_hass :: "string \<Rightarrow> ha_entity \<Rightarrow> car \<Rightarrow> car" where
  "added_to_hass domain e c = add_sensor (domain @ hx_unique e) c"

definition removed_from_hass :: "string \<Rightarrow> ha_entity \<Rightarrow> car \<Rightarrow> car" where
  "removed_from_hass domain e c = remove_sensor (domain @ hx_unique e) c"

section \<open>Binary sensors\<close>

definition binary_eligible :: "pyval \<Rightarrow> entity_spec \<Rightarrow> bool" where
  "binary_eligible status spec =
     (status_in status [PStr ''VALID'', PStr ''NOT_RECEIVED'', PStr ''3'', PInt 3] \<or>
      has_default spec \<and> py_str status \<noteq> ''4'')"

definition create_binary_if_eligible :: "ha_env \<Rightarrow> car \<Rightarrow> string \<times> entity_spec \<Rightarrow> ha_entity option res" where
  "create_binary_if_eligible v c = (\<lambda>(key, spec).
     if key \<in> {''car'', ''data_mode''} then Inr None
     else if \<not> capable v c spec then Inr None
     else rbind (new_entity v c key spec False) (\<lambda>e.
          rbind (device_retrieval_status v c key spec) (\<lambda>status.
            Inr (if binary_eligible status spec then Some e else None))))"

definition missing_binary_sensors :: "ha_env \<Rightarrow> car \<Rightarrow> ha_entity list res" where
  "missing_binary_sensors v c =
     rbind (eligible_devices (create_binary_if_eligible v c) (sorted_items BinarySensors)) (\<lambda>xs.
       Inr (not_added ''binary_sensor.'' c xs))"

definition initial_binary_sensors :: "ha_env \<Rightarrow> car \<Rightarrow> ha_entity list res" where
  "initial_binary_sensors v c = eligible_devices (create_binary_if_eligible v c) (sorted_items BinarySensors)"

definition flip_state :: "ha_entity \<Rightarrow> bool \<Rightarrow> bool" where
  "flip_state e b = (if sp_flip (hx_spec e) then \<not> b else b)"

text \<open>The readings with a binary meaning, in the order they are tested.\<close>

definition binary_readings :: "(pyval \<times> bool) list" where
  "binary_readings =
     [(PStr ''INACTIVE'', False), (PStr ''ACTIVE'', True), (PStr ''0'', False), (PStr ''1'', True), (PStr ''2'', False),
      (PInt 0, False), (PInt 1, True), (PInt 2, False), (PStr ''true'', True), (PStr ''false'', False),
      (PBool False, False), (PBool True, True)]"

definition binary_value :: "pyval \<Rightarrow> bool option" where
  "binary_value x = map_option snd (find (\<lambda>(r, b). py_eq x r) binary_readings)"

definition is_on :: "ha_env \<Rightarrow> car \<Rightarrow> ha_entity \<Rightarrow> (pyval \<times> ha_entity) res" where
  "is_on v c e =
     rbind (if hx_state e = PNone then entity_update v c e else Inr e) (\<lambda>e.
       Inr (case binary_value (hx_state e) of None \<Rightarrow> hx_state e | Some b \<Rightarrow> PBool (flip_state e b), e))"

section \<open>Window covers\<close>

definition WINDOWS :: "(string \<times> string) list" where
  "WINDOWS = [(''windows'', ''windowStatusOverall''), (''window_front_left'', ''windowstatusfrontleft''),
     (''window_front_right'', ''windowstatusfrontright''), (''window_rear_left'', ''windowstatusrearleft''),
     (''window_rear_right'', ''windowstatusrearright'')]"

text \<open>A status that is no number has no position; an infinite one still raises.\<close>

definition cover_position :: "string \<Rightarrow> pyval \<Rightarrow> int option res" where
  "cover_position key status =
     (case status of
        PBool b \<Rightarrow> Inr (Some (if b then 0 else 100))
      | _ \<Rightarrow>
          if status = PStr ''OPEN'' \<or> status = PStr ''CLOSED'' then Inr (Some (if status = PStr ''OPEN'' then 100 else 0))
          else rcatch (rbind (py_int status) (\<lambda>n. Inr (map_of
                 (if key = ''windows'' then [(0, 50), (1, 0), (2, 100), (3, 10)]
                  else [(0, 50), (1, 100), (2, 0), (3, 10), (4, 50)]) n))) [TypeError, ValueError] (Inr None))"

definition current_cover_position :: "car \<Rightarrow> string \<Rightarrow> string \<Rightarrow> int option res" where
  "current_cover_position c key field =
     (case car_attr c ''windows'' field of
        None \<Rightarrow> Inr None
      | Some a \<Rightarrow> if py_str (ca_status a) \<noteq> ''VALID'' then Inr None else cover_position key (ca_value a))"

definition cover_is_closed :: "car \<Rightarrow> string \<Rightarrow> string \<Rightarrow> bool option res" where
  "cover_is_closed c key field =
     rbind (current_cover_position c key field) (\<lambda>p. Inr (map_option (\<lambda>n. n = 0) p))"

section \<open>The device tracker\<close>

text \<open>The position, without the optional conversion of Chinese coordinates.\<close>

definition tracker_latitude :: "ha_env \<Rightarrow> car \<Rightarrow> pyval res" where
  "tracker_latitude v c =
     rbind (get_car_value v c (Some ''location'') ''positionLat'' ''value'' (PInt 0)) (\<lambda>lat. Inr (py_or lat PNone))"

definition tracker_longitude :: "ha_env \<Rightarrow> car \<Rightarrow> pyval res" where
  "tracker_longitude v c =
     rbind (get_car_value v c (Some ''location'') ''positionLong'' ''value'' (PInt 0)) (\<lambda>lng. Inr (py_or lng PNone))"

definition create_tracker :: "ha_env \<Rightarrow> car \<Rightarrow> string \<times> entity_spec \<Rightarrow> ha_entity option res" where
  "create_tracker v c = (\<lambda>(key, spec).
     rbind (new_entity v c key spec False) (\<lambda>e.
     rbind (device_retrieval_status v c key spec) (\<lambda>status.
       Inr (if status_in status [PStr ''VALID'', PStr ''NOT_RECEIVED''] then Some e else None))))"

definition initial_trackers :: "ha_env \<Rightarrow> car \<Rightarrow> ha_entity list res" where
  "initial_trackers v c = eligible_devices (create_tracker v c) (sorted_items DEVICE_TRACKER)"

definition missing_trackers :: "ha_env \<Rightarrow> car \<Rightarrow> ha_entity list res" where
  "missing_trackers v c =
     rbind (eligible_devices (create_tracker v c) DEVICE_TRACKER) (\<lambda>xs. Inr (not_added ''device_tracker.'' c xs))"

section \<open>The tables\<close>

text \<open>Whether something fills the attribute an entry names.\<close>

definition car_level_names :: "string list" where
  "car_level_names = [''full_updatemessages_received'', ''partital_updatemessages_received'', ''last_message_received'',
     ''data_collection_mode'', ''last_command_type'', ''last_command_state'', ''last_command_error_code'',
     ''last_command_error_message'', ''is_owner'']"

definition filled :: "string option \<Rightarrow> string \<Rightarrow> bool" where
  "filled grp name =
     (case grp of
        None \<Rightarrow> name \<in> set car_level_names
      | Some g \<Rightarrow> (case map_of sections g of Some options \<Rightarrow> name \<in> set options
                  | None \<Rightarrow> g = ''rcp_options'' \<and> name = ''rcp_supported''))"

definition well_formed_entry :: "string \<times> entity_spec \<Rightarrow> bool" where
  "well_formed_entry = (\<lambda>(key, spec).
     filled (sp_object spec) (sp_attribute spec) \<and> sp_field spec \<in> {''value'', ''display_value''} \<and>
     sp_capability spec = None \<and> sp_default spec \<in> {None, Some ''Zero''})"

definition unfilled_extras :: "(string \<times> entity_spec) list \<Rightarrow> (string \<times> string) list" where
  "unfilled_extras table =
     concat (map (\<lambda>(key, spec). case sp_extended spec of None \<Rightarrow> []
       | Some names \<Rightarrow> map (Pair key) (filter (\<lambda>n. case extra_place spec n of (g, name) \<Rightarrow> \<not> filled g name) names)) table)"

lemma sensor_chunks_ok:
  "list_all well_formed_entry SENSORS_1" "list_all well_formed_entry SENSORS_2" "list_all well_formed_entry SENSORS_3"
  "list_all well_formed_entry SENSORS_4" "list_all well_formed_entry SENSORS_5" "list_all well_formed_entry SENSORS_6"
  "list_all well_formed_entry SENSORS_7"
  by code_simp+

lemma binary_chunks_ok:
  "list_all well_formed_entry BinarySensors_1" "list_all well_formed_entry BinarySensors_2"
  "list_all well_formed_entry BinarySensors_3" "list_all well_formed_entry DEVICE_TRACKER"
  by code_simp+

lemma entries_ok: "list_all well_formed_entry (SENSORS @ BinarySensors @ DEVICE_TRACKER)"
  using sensor_chunks_ok binary_chunks_ok by (simp add: SENSORS_def BinarySensors_def)

lemma unfilled_append [simp]: "unfilled_extras (xs @ ys) = unfilled_extras xs @ unfilled_extras ys"
  by (simp add: unfilled_extras_def)

lemma unfilled_chunks:
  "unfilled_extras SENSORS_1 = [(''rcp_features'', ''rcp_supported_settings''), (''lock'', ''tankCapOpenLamp'')]"
  "unfilled_extras SENSORS_2 = [(''auxheatstatus'', ''temperature_points_frontLeft''), (''auxheatstatus'', ''temperature_points_frontRight'')]"
  "unfilled_extras SENSORS_3 = []"
  "unfilled_extras SENSORS_4 = [(''distanceZEReset'', ''drivenTimeZEReset''), (''distanceZEStart'', ''drivenTimeZEStart'')]"
  "unfilled_extras SENSORS_5 = []" "unfilled_extras SENSORS_6 = []" "unfilled_extras SENSORS_7 = []"
  by code_simp+

lemma unfilled_binary:
  "unfilled_extras BinarySensors_1 = [(''parkbrakestatus'', ''preWarningBrakeLiningWear''),
     (''windowStatusOverall'', ''windowstatusfrontleftblind''), (''windowStatusOverall'', ''windowstatusfrontrightblind''),
     (''windowStatusOverall'', ''windowstatusrearleftblind''), (''windowStatusOverall'', ''windowstatusrearrightblind'')]"
  "unfilled_extras BinarySensors_2 = [(''remoteStartActive'', ''remoteStartTemperature'')]"
  "unfilled_extras BinarySensors_3 = [(''theftsystemarmed'', ''exteriorMonitoringLastEvent''), (''theftsystemarmed'', ''exteriorMonitoringStatus''),
     (''theftsystemarmed'', ''interiorMonitoringLastEvent''), (''theftsystemarmed'', ''interiorMonitoringStatus''),
     (''theftsystemarmed'', ''interiorProtectionStatus'')]"
  "unfilled_extras DEVICE_TRACKER = []"
  by code_simp+

section \<open>Nothing else is ever on a car\<close>

definition groups_ok :: "(string, group_values) dict \<Rightarrow> bool" where
  "groups_ok gs = (\<forall>g grp name. map_of gs g = Some grp \<longrightarrow> map_of grp name \<noteq> None \<longrightarrow> filled (Some g) name)"

definition cars_ok :: "coordinator \<Rightarrow> bool" where
  "cars_ok c = (\<forall>vin r. map_of (dc_cars (co_client c)) vin = Some r \<longrightarrow> groups_ok (car_groups r))"

lemma groups_okD: "groups_ok gs \<Longrightarrow> map_of gs g = Some grp \<Longrightarrow> map_of grp name = Some a \<Longrightarrow> filled (Some g) name"
  by (simp add: groups_ok_def)

lemma groups_ok_empty [simp]: "groups_ok []"
  by (simp add: groups_ok_def)

lemma groups_ok_dset:
  assumes "groups_ok gs" and "\<And>name. map_of grp name \<noteq> None \<Longrightarrow> filled (Some g) name"
  shows "groups_ok (dset g grp gs)"
  using assms by (auto simp: groups_ok_def)

lemma get_car_values_keys:
  assumes "get_car_values m options g = Inr g'" and "map_of g' name \<noteq> None"
  shows "name \<in> set options \<or> map_of g name \<noteq> None"
proof (rule ccontr)
  assume "\<not> (name \<in> set options \<or> map_of g name \<noteq> None)"
  moreover have "name \<notin> set options \<Longrightarrow> map_of g' name = map_of g name"
    using assms(1) by (auto simp: get_car_values_def Let_def dest: decode_options_env split: if_splits pyval.splits)
  ultimately show False using assms(2) by simp
qed

lemma options_left_keys: "map_of (options_left e options) name \<noteq> None \<Longrightarrow> name \<in> set options \<or> map_of (he_group e) name \<noteq> None"
  by (induction e options rule: options_left.induct) (auto split: sum.splits if_splits)

lemma values_left_keys: "map_of (values_left m options g) name \<noteq> None \<Longrightarrow> name \<in> set options \<or> map_of g name \<noteq> None"
proof (cases "dget (ms_data m) ''attributes''")
  case (PDict d)
  assume "map_of (values_left m options g) name \<noteq> None"
  with options_left_keys [of "\<lparr>he_attrs = d, he_group = g, he_update = ms_update m, he_last_full = ms_last_full m,
    he_clock = ms_clock m\<rparr>" options name] PDict show ?thesis by (simp add: values_left_def)
qed (simp_all add: values_left_def)

lemma section_filled: "map_of sections g = Some options \<Longrightarrow> name \<in> set options \<Longrightarrow> filled (Some g) name"
  by (simp add: filled_def)

definition sublist_of_sections :: "(string \<times> string list) list \<Rightarrow> bool" where
  "sublist_of_sections secs = (\<forall>(g, options) \<in> set secs. map_of sections g = Some options)"

lemma sections_self: "sublist_of_sections sections"
  by (simp add: sublist_of_sections_def sections_distinct)

lemma old_or_new:
  assumes "groups_ok gs" and "map_of sections g = Some options"
    and "\<And>name. map_of grp name \<noteq> None \<Longrightarrow> name \<in> set options \<or> map_of (case map_of gs g of None \<Rightarrow> [] | Some old \<Rightarrow> old) name \<noteq> None"
  shows "groups_ok (dset g grp gs)"
proof (rule groups_ok_dset [OF assms(1)])
  fix name assume "map_of grp name \<noteq> None"
  from assms(3) [OF this] show "filled (Some g) name"
    using section_filled [OF assms(2)] assms(1) by (auto simp: groups_ok_def split: option.splits)
qed

lemma update_sections_ok:
  assumes "update_sections m secs gs = Inr gs'" and "groups_ok gs" and "sublist_of_sections secs"
  shows "groups_ok gs'"
  using assms
proof (induction m secs gs rule: update_sections.induct)
  case (2 m name options rest gs)
  define old where "old = (case map_of gs name of None \<Rightarrow> [] | Some g \<Rightarrow> g)"
  from 2(2) obtain g where g: "get_car_values m options old = Inr g" "update_sections m rest (dset name g gs) = Inr gs'"
    by (auto simp: rbind_Inr_iff old_def)
  have s: "map_of sections name = Some options" "sublist_of_sections rest" using 2(4) by (auto simp: sublist_of_sections_def)
  have "groups_ok (dset name g gs)"
    using 2(3) s(1) get_car_values_keys [OF g(1)] unfolding old_def by (rule old_or_new)
  with 2(1) [of g] g s(2) show ?case by (simp add: old_def)
qed simp

lemma sections_left_ok:
  assumes "groups_ok gs" and "sublist_of_sections secs"
  shows "groups_ok (sections_left m secs gs)"
  using assms
proof (induction m secs gs rule: sections_left.induct)
  case (2 m name options rest gs)
  define old where "old = (case map_of gs name of None \<Rightarrow> [] | Some g \<Rightarrow> g)"
  have s: "map_of sections name = Some options" "sublist_of_sections rest" using 2(3) by (auto simp: sublist_of_sections_def)
  show ?case
  proof (cases "get_car_values m options old")
    case (Inr g)
    have "groups_ok (dset name g gs)"
      using 2(2) s(1) get_car_values_keys [OF Inr] unfolding old_def by (rule old_or_new)
    with 2(1) Inr s(2) show ?thesis by (simp add: old_def)
  next
    case (Inl e)
    have "groups_ok (dset name (values_left m options old) gs)"
      using 2(2) s(1) values_left_keys unfolding old_def by (rule old_or_new)
    with Inl 2(2) show ?thesis by (cases "map_of gs name") (simp_all add: old_def)
  qed
qed simp

lemma build_car_result:
  assumes "build_car clock False pulled data dc = Inr (data', dc')"
  shows "dc' = dc \<or>
    (\<exists>m r. dc_cars dc' = AList.update (dget data ''vin'') r (dc_cars dc) \<and>
       update_sections m sections (case map_of (dc_cars dc) (dget data ''vin'') of Some r \<Rightarrow> car_groups r | None \<Rightarrow> []) =
         Inr (car_groups r))"
proof (cases "dget data ''vin'' \<in> set (dc_excluded dc)")
  case True
  with assms show ?thesis by (simp add: build_car_def)
next
  case False
  from build_car_unfold [OF False, of clock pulled] obtain start where
    s: "car_groups start = (case map_of (dc_cars dc) (dget data ''vin'') of Some r \<Rightarrow> car_groups r | None \<Rightarrow> [])"
    and b: "build_car clock False pulled data dc = rbind (with_window_status pulled data) (\<lambda>d.
      rbind (update_sections \<lparr>ms_data = d, ms_update = False, ms_last_full = Some d, ms_clock = clock\<rparr> sections (car_groups start))
        (\<lambda>groups. Inr (d, (ignition_update d False dc)\<lparr>dc_cars := AList.update (dget data ''vin'')
           (start\<lparr>car_last_full := Some d, car_groups := groups, car_setup_complete := True\<rparr>) (dc_cars dc)\<rparr>)))" by blast
  with assms show ?thesis by (auto simp: rbind_Inr_iff intro!: exI)
qed

lemma build_car_ok:
  assumes "build_car clock False pulled data dc = Inr (data', dc')"
    and "\<And>vin r. map_of (dc_cars dc) vin = Some r \<Longrightarrow> groups_ok (car_groups r)" and "map_of (dc_cars dc') vin = Some r"
  shows "groups_ok (car_groups r)"
  using build_car_result [OF assms(1)]
proof
  assume "dc' = dc"
  with assms(2,3) show ?thesis by simp
next
  define old where "old = (case map_of (dc_cars dc) (dget data ''vin'') of Some r \<Rightarrow> car_groups r | None \<Rightarrow> [])"
  assume "\<exists>m r. dc_cars dc' = AList.update (dget data ''vin'') r (dc_cars dc) \<and>
       update_sections m sections (case map_of (dc_cars dc) (dget data ''vin'') of Some r \<Rightarrow> car_groups r | None \<Rightarrow> []) =
         Inr (car_groups r)"
  then obtain m r' where r: "dc_cars dc' = AList.update (dget data ''vin'') r' (dc_cars dc)"
    "update_sections m sections old = Inr (car_groups r')" unfolding old_def by blast
  have "groups_ok old" using assms(2) by (auto simp: old_def split: option.split)
  then have "groups_ok (car_groups r')" by (rule update_sections_ok [OF r(2) _ sections_self])
  with r(1) assms(2,3) show ?thesis by (auto simp: AList.update_conv' split: if_splits)
qed

lemma car_left_ok:
  assumes "\<And>vin r. map_of (dc_cars dc) vin = Some r \<Longrightarrow> groups_ok (car_groups r)"
    and "map_of (dc_cars (car_left clock pulled data dc)) vin = Some r"
  shows "groups_ok (car_groups r)"
proof -
  define old where "old = (case map_of (dc_cars dc) (dget data ''vin'') of Some r \<Rightarrow> car_groups r | None \<Rightarrow> [])"
  have old: "groups_ok old" using assms(1) by (auto simp: old_def split: option.split)
  have "vin \<noteq> dget data ''vin'' \<Longrightarrow> map_of (dc_cars (car_left clock pulled data dc)) vin = map_of (dc_cars dc) vin"
    by (simp add: car_left_def Let_def AList.update_conv' split: sum.split)
  moreover have "\<exists>m. car_groups r = old \<or> car_groups r = sections_left m sections old" if "vin = dget data ''vin''"
    using assms(2) that
    by (cases "map_of (dc_cars dc) (dget data ''vin'')"; cases "with_window_status pulled data")
      (auto simp: car_left_def Let_def AList.update_conv' old_def new_car_def)
  ultimately show ?thesis
    using assms old sections_left_ok [OF old sections_self] by (cases "vin = dget data ''vin''") auto
qed

lemma describe_car_ok: "groups_ok (car_groups r) \<Longrightarrow> groups_ok (car_groups (describe_car c vehicle info r))"
  unfolding describe_car_def
  by (auto simp: rcp_group_def filled_def sections_def intro!: groups_ok_dset split: if_splits)

lemma put_car_ok: "cars_ok c \<Longrightarrow> groups_ok (car_groups r) \<Longrightarrow> cars_ok (put_car r c)"
  by (auto simp: cars_ok_def put_car_def AList.update_conv')

lemma take_snapshot_ok:
  assumes "cars_ok c"
  shows "cars_ok (snd (take_snapshot clock payload f c))"
proof -
  obtain received vehicle info where f: "f = (received, vehicle, info)" by (cases f)
  define pulled where "pulled = (dget payload ''data_mode'' = PStr ''pull'')"
  show ?thesis
  proof (cases "build_car clock False pulled payload (co_client c)")
    case (Inl e)
    have "cars_ok (c\<lparr>co_client := car_left clock pulled payload (co_client c)\<rparr>)"
      using assms car_left_ok [of "co_client c"] by (auto simp: cars_ok_def)
    with Inl f show ?thesis by (simp add: take_snapshot_def pulled_def)
  next
    case (Inr res)
    obtain payload' dc where res: "res = (payload', dc)" by (cases res)
    have dc: "cars_ok (c\<lparr>co_client := dc\<rparr>)"
      using assms build_car_ok [of clock pulled payload "co_client c"] Inr res by (auto simp: cars_ok_def)
    show ?thesis
    proof (cases "map_of (dc_cars dc) (PStr (co_vin c))")
      case None
      with Inr res f dc show ?thesis by (simp add: take_snapshot_def pulled_def)
    next
      case (Some r)
      with dc have r: "groups_ok (car_groups (describe_car c vehicle info r))"
        by (auto simp: cars_ok_def intro!: describe_car_ok)
      have p: "cars_ok (put_car r' (c\<lparr>co_client := dc\<rparr>))" if "car_groups r' = car_groups (describe_car c vehicle info r)" for r'
        using dc r that by (intro put_car_ok) simp_all
      have skip: "cars_ok (x\<lparr>co_received := a, co_data := b, co_ready := d, co_updates := e, co_pending := g\<rparr>) = cars_ok x" for x a b d e g
        by (simp add: cars_ok_def)
      from Some Inr res f p show ?thesis
        by (simp add: take_snapshot_def pulled_def [symmetric] Let_def skip split: sum.split)
    qed
  qed
qed

lemma run_cars_ok: "cars_ok (co_run es (coordinator_init d))"
proof (induction es rule: rev_induct)
  case Nil
  show ?case by (simp add: coordinator_init_def new_decoder_def cars_ok_def)
next
  case (snoc e es)
  have "cars_ok c \<Longrightarrow> cars_ok (snd (coordinator_message clock json c))" for clock json c
    using take_snapshot_ok by (simp add: coordinator_message_def split: sum.split pyval.split option.split)
  with snoc show ?case
    by (cases e) (simp_all add: cars_ok_def coordinator_availability_def coordinator_expire_def coordinator_discover_def add_discovery_def)
qed


end
