(* ===== verification/Ingest.thy ===== *)
theory Ingest
  imports Coordinator
begin

text \<open>
  Which snapshots are sure to be taken: one that passes the guards and carries only attributes of the
  generic handler. Of the other attributes the handlers need more structure than the guards check.
\<close>

definition structured_keys :: "string list" where
  "structured_keys = [''chargePrograms'', ''selectedChargeProgram'', ''chargeFlaps'', ''chargeInlets'',
     ''chargingBreakClockTimer'', ''chargingPowerRestriction'', ''endofchargetime'', ''chargingPredictionMaxSoc'',
     ''precondNow'', ''precondActive'', ''precondOperatingMode'', ''precondState'', ''temperaturePoints'']"

definition plain_attributes :: "pydict \<Rightarrow> bool" where
  "plain_attributes d = (list_all (\<lambda>(k, v). is_dict v) d \<and> list_all (\<lambda>k. \<not> haskey d k) structured_keys)"

lemma plain_dict: "plain_attributes d \<Longrightarrow> dget d k = PNone \<or> (\<exists>x. dget d k = PDict x)"
  by (auto simp: plain_attributes_def dget_def list_all_iff split: option.split dest!: map_of_SomeD elim!: is_dictE)

lemma plain_absent:
  assumes "plain_attributes d" and "k \<in> set structured_keys"
  shows "dget d k = PNone" "dget_or d k x = x"
  using assms by (auto simp: plain_attributes_def list_all_iff haskey_def dget_def dget_or_def)

lemma structured_key_set:
  "set structured_keys = {''chargePrograms'', ''selectedChargeProgram'', ''chargeFlaps'', ''chargeInlets'',
     ''chargingBreakClockTimer'', ''chargingPowerRestriction'', ''endofchargetime'', ''chargingPredictionMaxSoc'',
     ''precondNow'', ''precondActive'', ''precondOperatingMode'', ''precondState'', ''temperaturePoints''}"
  by (simp add: structured_keys_def)

lemma plain_handlers:
  assumes "he_attrs e = d" and "\<not> he_update e" and "he_last_full e = Some full" and "full \<noteq> []"
    and "dget_or full ''attributes'' (PDict []) = PDict d" and "plain_attributes d"
  shows "\<exists>a. handler_for option e option = Inr a"
proof -
  note absent = plain_absent [OF assms(6), unfolded structured_key_set]
  have generic: "\<exists>a. handle_generic e option = Inr a"
    using plain_dict [OF assms(6), of option] assms(1) by (auto simp: handle_generic_def)
  have "handle_max_soc e k = Inr None" for k by (simp add: handle_max_soc_def assms(1) absent)
  moreover have "handle_entry outer inner field names e = Inr None"
    if "outer = ''chargeFlaps'' \<or> outer = ''chargeInlets''" for outer inner field names
    using that by (elim disjE) (simp_all add: handle_entry_def assms(1) absent)
  moreover have "\<exists>a. handle_endofchargetime e k = Inr a" for k
    using assms(2-5) by (simp add: handle_endofchargetime_def assms(1) absent last_attributes_def vget_dict_def)
  moreover have "\<exists>a. handle_precond_status e k = Inr a" for k
    using assms(2) by (simp add: handle_precond_status_def preconditioning_attr_to_bool_def assms(1) absent)
  moreover have "handle_temperature_points e k = Inr None" "handle_charging_power_restriction e k = Inr None" for k
    by (simp_all add: handle_temperature_points_def handle_charging_power_restriction_def assms(1) absent)
  moreover have "handle_charge_programs e ''chargePrograms'' = Inr None"
    "handle_charging_break_clock_timer e ''chargingBreakClockTimer'' = Inr None"
    by (simp_all add: handle_charge_programs_def handle_charging_break_clock_timer_def assms(1) absent)
  ultimately show ?thesis
    using generic
    by (simp add: handler_for_def handle_chargeflap_def handle_chargeinletcoupler_def handle_chargeinletlock_def split: if_split)
qed

lemma plain_sections:
  assumes "dget (ms_data m) ''attributes'' = PDict d" and "plain_attributes d" and "\<not> ms_update m"
    and "ms_last_full m = Some full" and "full \<noteq> []" and "dget_or full ''attributes'' (PDict []) = PDict d"
  shows "\<exists>gs. update_sections m secs groups = Inr gs"
  using assms(1)
proof (rule update_sections_total)
  fix e :: handler_env and option
  assume "he_attrs e = d" "he_update e = ms_update m" "he_last_full e = ms_last_full m"
  with assms show "\<exists>a. handler_for option e option = Inr a" by (auto intro: plain_handlers)
qed

text \<open>The window summary of a pulled message keeps the attributes plain.\<close>

definition readable_windows :: "pydict \<Rightarrow> bool" where
  "readable_windows d = is_ok (synthetic_window_status d)"

lemma plain_with_window:
  assumes "plain_attributes d" and "w = PDict ws"
  shows "plain_attributes (dset ''windowStatusOverall'' w d)"
  using assms by (auto simp: plain_attributes_def structured_keys_def intro!: list_all_dset)

lemma plain_window_status:
  assumes "dget data ''attributes'' = PDict d" and "plain_attributes d" and "pulled \<longrightarrow> haskey d ''windowStatusOverall'' \<or> readable_windows d"
  shows "\<exists>data' d'. with_window_status pulled data = Inr data' \<and> dget_or data' ''attributes'' (PDict []) = PDict d' \<and>
    dget data' ''attributes'' = PDict d' \<and> plain_attributes d'"
proof -
  have old: "dget_or data ''attributes'' (PDict []) = PDict d"
    using assms(1) by (auto simp: dget_def dget_or_def split: option.splits)
  show ?thesis
  proof (cases "pulled \<and> d \<noteq> [] \<and> \<not> haskey d ''windowStatusOverall''")
    case True
    with assms(3) obtain w where w: "synthetic_window_status d = Inr w"
      by (cases "synthetic_window_status d") (auto simp: readable_windows_def)
    then obtain ws where "w = PDict ws" by (auto simp: synthetic_window_status_def rbind_Inr_iff)
    with True w assms(1,2) show ?thesis
      by (auto simp: with_window_status_def intro: plain_with_window)
  next
    case False
    with assms(1,2) old show ?thesis by (auto simp: with_window_status_def)
  qed
qed

lemma plain_taken:
  assumes "c = co_run es (coordinator_init d)" and "message_fields (lc_epoch clock) payload c = Inr (Some f)"
    and "dget payload ''attributes'' = PDict attrs" and "plain_attributes attrs"
    and "dget payload ''data_mode'' = PStr ''pull'' \<longrightarrow> haskey attrs ''windowStatusOverall'' \<or> readable_windows attrs"
    and "is_ok (int_of_float (fl (fst f * 1000)))"
  shows "fst (coordinator_message clock (Inr (PDict payload)) c) = Taken"
proof -
  obtain received vehicle info where f: "f = (received, vehicle, info)" by (cases f)
  have x: "dc_excluded (co_client c) = []"
    using run_route [of "coordinator_init d" es] assms(1) by (simp add: same_route_def coordinator_init_def new_decoder_def)
  have vin: "dget payload ''vin'' = PStr (co_vin c)" using message_fieldsD(2) assms(2) by (simp add: f)
  define pulled where "pulled = (dget payload ''data_mode'' = PStr ''pull'')"
  from plain_window_status [OF assms(3,4), of pulled] assms(5) obtain data' d' where
    w: "with_window_status pulled payload = Inr data'" "dget data' ''attributes'' = PDict d'"
    "dget_or data' ''attributes'' (PDict []) = PDict d'" "plain_attributes d'" by (auto simp: pulled_def)
  have n: "data' \<noteq> []" using w(2) by auto
  have "dget payload ''vin'' \<notin> set (dc_excluded (co_client c))" using x by simp
  from build_car_unfold [OF this, of clock pulled] obtain start where
    b: "build_car clock False pulled payload (co_client c) = rbind (with_window_status pulled payload) (\<lambda>d.
      rbind (update_sections \<lparr>ms_data = d, ms_update = False, ms_last_full = Some d, ms_clock = clock\<rparr> sections (car_groups start))
        (\<lambda>groups. Inr (d, (ignition_update d False (co_client c))\<lparr>dc_cars := AList.update (dget payload ''vin'')
           (start\<lparr>car_last_full := Some d, car_groups := groups, car_setup_complete := True\<rparr>) (dc_cars (co_client c))\<rparr>)))" by blast
  have "\<exists>gs. update_sections \<lparr>ms_data = data', ms_update = False, ms_last_full = Some data', ms_clock = clock\<rparr> sections (car_groups start) = Inr gs"
    by (rule plain_sections [of _ d' data']) (simp_all add: w n)
  then obtain gs where gs: "update_sections \<lparr>ms_data = data', ms_update = False, ms_last_full = Some data', ms_clock = clock\<rparr>
      sections (car_groups start) = Inr gs" by blast
  have upd: "map_of (dc_cars (x\<lparr>dc_cars := AList.update k r l\<rparr>)) k = Some r" for x k r l by (simp add: AList.update_conv')
  have "\<exists>dc r. build_car clock False pulled payload (co_client c) = Inr (data', dc) \<and> map_of (dc_cars dc) (PStr (co_vin c)) = Some r"
    unfolding b w(1) rbind_simps gs vin
    by (intro exI conjI, rule HOL.refl, rule upd)
  then obtain dc r where "build_car clock False pulled payload (co_client c) = Inr (data', dc)"
    "map_of (dc_cars dc) (PStr (co_vin c)) = Some r" by blast
  moreover obtain ms where "int_of_float (fl (received * 1000)) = Inr ms"
    using assms(6) f by (cases "int_of_float (fl (received * 1000))") auto
  ultimately show ?thesis
    using assms(2) by (simp add: coordinator_message_def take_snapshot_def f pulled_def Let_def)
qed

text \<open>
  a snapshot that passes the guards and carries only attributes of the generic handler is taken: in
  every reachable state of the coordinator it is neither rejected nor does an exception escape,
  whatever keys its attributes have.
\<close>

theorem plain_snapshot_taken:
  assumes "c = co_run es (coordinator_init d)" and "message_fields (lc_epoch clock) payload c = Inr (Some f)"
    and "dget payload ''attributes'' = PDict attrs" and "plain_attributes attrs"
    and "dget payload ''data_mode'' = PStr ''pull'' \<longrightarrow> haskey attrs ''windowStatusOverall'' \<or> readable_windows attrs"
    and "is_ok (int_of_float (fl (fst f * 1000)))"
  shows "fst (coordinator_message clock (Inr (PDict payload)) c) = Taken"
  using assms by (rule plain_taken)

theorem plain_snapshot_taken_witness:
  "fst (coordinator_message demo_clock (Inr (PDict demo_message)) (co_run [] (coordinator_init demo_route))) = Taken"
proof -
  have f: "message_fields (lc_epoch demo_clock) demo_message (co_run [] (coordinator_init demo_route)) = Inr (Some (20, [], []))"
    by code_simp
  have a: "dget demo_message ''attributes'' = PDict demo_attrs" by (simp add: demo_message_def)
  have p: "plain_attributes demo_attrs" by code_simp
  have m: "dget demo_message ''data_mode'' = PStr ''pull'' \<longrightarrow> haskey demo_attrs ''windowStatusOverall'' \<or> readable_windows demo_attrs"
    by (simp add: demo_message_def)
  have i: "is_ok (int_of_float (fl (fst (20 :: rat, [] :: pydict, [] :: pydict) * 1000)))" by code_simp
  show ?thesis by (rule plain_snapshot_taken [OF HOL.refl f a p m i])
qed

end
