(* ===== verification/Display.thy ===== *)
theory Display
  imports Entities Ingest
begin

text \<open>
  What Home Assistant shows: discovery offers each entity once, a sensor shows the reading of the
  snapshot in force, binary sensors and window covers follow the codes of the vehicle.
\<close>

section \<open>Discovery offers each entity once\<close>

text \<open>What an entity reads of a car does not depend on which sensors were already added.\<close>

lemma attribute_at_sensors [simp]: "attribute_at v (c\<lparr>car_sensors := s\<rparr>) grp name = attribute_at v c grp name"
  by (cases grp) (simp_all add: attribute_at_def car_attr_def car_level_def full_messages_attr_def partial_messages_attr_def
    last_message_received_def data_mode_attr_def last_command_type_def last_command_state_def last_command_error_code_def
    last_command_error_message_def command_attr_def is_owner_attr_def)

lemma get_car_value_sensors [simp]: "get_car_value v (c\<lparr>car_sensors := s\<rparr>) grp name field x = get_car_value v c grp name field x"
  by (simp add: get_car_value_def)

lemma reads_sensors [simp]: "reads v (c\<lparr>car_sensors := s\<rparr>) spec field x = reads v c spec field x"
  by (simp add: reads_def)

lemma add_configured_attribute_sensors [simp]:
  "add_configured_attribute v (c\<lparr>car_sensors := s\<rparr>) spec a shown = add_configured_attribute v c spec a shown"
  by (simp add: add_configured_attribute_def cong: if_cong)

lemma add_configured_sensors [simp]: "add_configured v (c\<lparr>car_sensors := s\<rparr>) spec names shown = add_configured v c spec names shown"
  by (induction v c spec names shown rule: add_configured.induct) (simp_all add: rbind_def split: sum.split)

lemma add_plain_sensors [simp]: "add_plain v (c\<lparr>car_sensors := s\<rparr>) spec items shown = add_plain v c spec items shown"
proof (induction items arbitrary: shown)
  case (Cons item items)
  then have "add_plain v (c\<lparr>car_sensors := s\<rparr>) spec items = add_plain v c spec items" by blast
  then show ?case by (simp cong: if_cong)
qed simp

lemma extra_state_sensors [simp]: "extra_state_attributes v (c\<lparr>car_sensors := s\<rparr>) spec = extra_state_attributes v c spec"
  by (simp add: extra_state_attributes_def del: add_plain.simps cong: if_cong option.case_cong)

lemma new_entity_sensors [simp]: "new_entity v (c\<lparr>car_sensors := s\<rparr>) key spec poll = new_entity v c key spec poll"
  by (simp add: new_entity_def unit_of_measurement_def)

lemma retrieval_sensors [simp]: "device_retrieval_status v (c\<lparr>car_sensors := s\<rparr>) key spec = device_retrieval_status v c key spec"
  by (simp add: device_retrieval_status_def)

lemma capable_sensors [simp]: "capable v (c\<lparr>car_sensors := s\<rparr>) spec = capable v c spec"
  by (simp add: capable_def cong: option.case_cong)

lemma create_sensor_sensors [simp]:
  "create_sensor_if_eligible v (c\<lparr>car_sensors := s\<rparr>) poll initial = create_sensor_if_eligible v c poll initial"
  by (simp add: create_sensor_if_eligible_def cong: if_cong)

lemma removed_sensors: "removed_from_hass pre e (c\<lparr>car_sensors := s\<rparr>) = c\<lparr>car_sensors := removeAll (pre @ hx_unique e) s\<rparr>"
  by (simp add: removed_from_hass_def remove_sensor_def)

lemma added_sensors: "fold (added_to_hass domain) es c = c\<lparr>car_sensors := fold (\<lambda>e. List.insert (domain @ hx_unique e)) es (car_sensors c)\<rparr>"
  by (induction es arbitrary: c) (simp_all add: added_to_hass_def add_sensor_def)

lemma added_sensors_set:
  "set (fold (\<lambda>e. List.insert (domain @ hx_unique e)) es s) = set s \<union> (\<lambda>e. domain @ hx_unique e) ` set es"
  by (induction es arbitrary: s) auto

lemma none_left:
  "set s = set (car_sensors c) \<union> (\<lambda>e. pre @ hx_unique e) ` set (not_added pre c zs) \<Longrightarrow>
    not_added pre (c\<lparr>car_sensors := s\<rparr>) zs = []"
  by (auto simp: not_added_def filter_empty_conv)

lemma removed_again:
  "e \<in> set (not_added pre c zs) \<Longrightarrow>
    e \<in> set (not_added pre (c\<lparr>car_sensors := removeAll (pre @ hx_unique e) s\<rparr>) zs)"
  by (auto simp: not_added_def)

text \<open>
  discovery offers exactly the eligible sensors that Home Assistant does not have: none it already
  has, and once those offered were added a second discovery on the same car offers nothing, while an
  entity that was removed is offered again.
\<close>

theorem discovery_complete_and_idempotent:
  assumes "missing_sensors v c = Inr es" and "c' = fold (added_to_hass ''sensor.'') es c"
  shows "missing_sensors v c' = Inr [] \<and> (\<forall>e \<in> set es. ''sensor.'' @ hx_unique e \<notin> set (car_sensors c)) \<and>
    (\<forall>e \<in> set es. \<exists>again. missing_sensors v (removed_from_hass ''sensor.'' e c') = Inr again \<and> e \<in> set again)"
proof -
  from assms(1) obtain xs ys where
    x: "eligible_devices (create_sensor_if_eligible v c False False) (sorted_items SENSORS) = Inr xs"
    and y: "eligible_devices (create_sensor_if_eligible v c True False) (sorted_items SENSORS_POLL) = Inr ys"
    and es: "es = not_added ''sensor.'' c (xs @ ys)" by (auto simp: missing_sensors_def rbind_Inr_iff)
  have missing: "missing_sensors v (c\<lparr>car_sensors := s\<rparr>) = Inr (not_added ''sensor.'' (c\<lparr>car_sensors := s\<rparr>) (xs @ ys))" for s
    by (simp add: missing_sensors_def x y)
  obtain s where s: "c' = c\<lparr>car_sensors := s\<rparr>" "set s = set (car_sensors c) \<union> (\<lambda>e. ''sensor.'' @ hx_unique e) ` set es"
    using assms(2) added_sensors [of "''sensor.''" es c] added_sensors_set [of "''sensor.''" es] by blast
  have "not_added ''sensor.'' c' (xs @ ys) = []" unfolding s(1) by (rule none_left) (simp only: s(2) es)
  then have "missing_sensors v c' = Inr []" using missing [of s] s(1) by simp
  moreover have "\<forall>e \<in> set es. ''sensor.'' @ hx_unique e \<notin> set (car_sensors c)" unfolding es not_added_def set_filter by blast
  moreover have "\<exists>again. missing_sensors v (removed_from_hass ''sensor.'' e c') = Inr again \<and> e \<in> set again" if "e \<in> set es" for e
  proof -
    have "removed_from_hass ''sensor.'' e c' = c\<lparr>car_sensors := removeAll (''sensor.'' @ hx_unique e) s\<rparr>"
      unfolding s(1) by (rule removed_sensors)
    with that missing removed_again [of e "''sensor.''" c "xs @ ys" s] show ?thesis unfolding es by metis
  qed
  ultimately show ?thesis by blast
qed

section \<open>From the snapshot to the sensor\<close>

definition unavailable_status :: "pyval \<Rightarrow> bool" where
  "unavailable_status s = status_in s [PStr ''NOT_RECEIVED'', PStr ''4'', PInt 4, PInt 3]"

text \<open>What a sensor of table entry \<open>spec\<close> has to show for an attribute.\<close>

definition shown_reading :: "entity_spec \<Rightarrow> car_attribute \<Rightarrow> pyval" where
  "shown_reading spec a =
     (if unavailable_status (ca_status a) then default_reading spec
      else if sp_field spec = ''value'' then ca_value a else ca_display a)"

lemma update_reads_attribute:
  assumes "hx_enabled e" and "sp_object (hx_spec e) = Some grp" and "car_attr r grp (sp_attribute (hx_spec e)) = Some a"
    and "sp_field (hx_spec e) \<in> {''value'', ''display_value''}"
  shows "entity_update v r e = Inr (e\<lparr>hx_state := (if sp_field (hx_spec e) = ''value'' then ca_value a else ca_display a)\<rparr>)"
  using assms by (auto simp: entity_update_def reads_def get_car_value_def attribute_at_def field_of_def)

lemma sensor_state_attribute:
  assumes "hx_name e \<noteq> ''car''" and "sp_object (hx_spec e) = Some grp"
    and "car_attr r grp (sp_attribute (hx_spec e)) = Some a"
  shows "sensor_state v r e =
    (if unavailable_status (ca_status a) then Inr (default_reading (hx_spec e)) else available_state v (hx_name e) (hx_state e))"
  using assms
  by (simp add: sensor_state_def device_retrieval_status_def reads_def get_car_value_def attribute_at_def field_of_def
    unavailable_status_def status_in_def)


section \<open>Binary sensors and windows\<close>

text \<open>
  a binary sensor is on or off for exactly the readings with a binary meaning, whatever their type,
  and an inverted entry shows the opposite of what the same reading shows on a plain one; any other
  reading is passed on unchanged, never read as on.
\<close>

theorem binary_sensor_readings:
  shows "binary_value x = (if x \<in> {PStr ''ACTIVE'', PStr ''1'', PStr ''true''} \<or> numeric_value x = Some 1 then Some True
      else if x \<in> {PStr ''INACTIVE'', PStr ''0'', PStr ''2'', PStr ''false''} \<or> numeric_value x = Some 0 \<or> numeric_value x = Some 2
      then Some False else None) \<and>
    flip_state (e\<lparr>hx_spec := s\<lparr>sp_flip := True\<rparr>\<rparr>) b = (\<not> flip_state (e\<lparr>hx_spec := s\<lparr>sp_flip := False\<rparr>\<rparr>) b) \<and>
    (case is_on v r e of
       Inl _ \<Rightarrow> hx_state e = PNone
     | Inr (shown, e') \<Rightarrow> shown = (case binary_value (hx_state e') of None \<Rightarrow> hx_state e' | Some b \<Rightarrow> PBool (flip_state e' b)) \<and>
         (hx_state e = PNone \<or> e' = e))"
proof -
  have "binary_value x = (if x \<in> {PStr ''ACTIVE'', PStr ''1'', PStr ''true''} \<or> numeric_value x = Some 1 then Some True
      else if x \<in> {PStr ''INACTIVE'', PStr ''0'', PStr ''2'', PStr ''false''} \<or> numeric_value x = Some 0 \<or> numeric_value x = Some 2
      then Some False else None)"
  proof (cases x)
    case (PStr s)
    consider "s = ''INACTIVE''" | "s = ''ACTIVE''" | "s = ''0''" | "s = ''1''" | "s = ''2''" | "s = ''true''" | "s = ''false''"
      | "s \<noteq> ''INACTIVE''" "s \<noteq> ''ACTIVE''" "s \<noteq> ''0''" "s \<noteq> ''1''" "s \<noteq> ''2''" "s \<noteq> ''true''" "s \<noteq> ''false''" by blast
    then show ?thesis unfolding PStr binary_value_def binary_readings_def by cases (simp_all add: py_eq_def)
  next
    case (PInt n)
    then show ?thesis by (auto simp: binary_value_def binary_readings_def py_eq_def)
  next
    case (PFloat f)
    then show ?thesis by (cases f) (auto simp: binary_value_def binary_readings_def py_eq_def)
  qed (auto simp: binary_value_def binary_readings_def py_eq_def)
  moreover have "case is_on v r e of
       Inl _ \<Rightarrow> hx_state e = PNone
     | Inr (shown, e') \<Rightarrow> shown = (case binary_value (hx_state e') of None \<Rightarrow> hx_state e' | Some b \<Rightarrow> PBool (flip_state e' b)) \<and>
         (hx_state e = PNone \<or> e' = e)"
    by (cases "hx_state e = PNone"; cases "entity_update v r e") (simp_all add: is_on_def)
  ultimately show ?thesis by (simp add: flip_state_def)
qed

text \<open>A window attribute as a pulled message carries it: a numeric status marked valid.\<close>

definition window_attr :: "pyval \<Rightarrow> int \<Rightarrow> bool" where
  "window_attr v n =
     (case v of
        PDict w \<Rightarrow> map_of w ''value'' = None \<and> map_of w ''int_value'' = Some (PInt n) \<and>
          dget_or w ''status'' valid = valid \<and> (case map_of w ''timestamp'' of None \<Rightarrow> True | Some (PInt t) \<Rightarrow> True | _ \<Rightarrow> False)
      | _ \<Rightarrow> False)"

lemma window_attrE:
  assumes "window_attr v n"
  obtains w t where "v = PDict w" "w \<noteq> []" "map_of w ''value'' = None" "map_of w ''int_value'' = Some (PInt n)"
    "dget_or w ''status'' valid = valid" "dget_or w ''timestamp'' (PInt 0) = PInt t"
proof -
  from assms obtain w where w: "v = PDict w" "map_of w ''value'' = None" "map_of w ''int_value'' = Some (PInt n)"
    "dget_or w ''status'' valid = valid" "case map_of w ''timestamp'' of None \<Rightarrow> True | Some (PInt t) \<Rightarrow> True | _ \<Rightarrow> False"
    by (auto simp: window_attr_def split: pyval.splits)
  moreover have "w \<noteq> []" using w(3) by auto
  moreover have "\<exists>t. dget_or w ''timestamp'' (PInt 0) = PInt t"
    using w(5) by (auto simp: dget_or_def split: option.splits pyval.splits)
  ultimately show ?thesis using that by blast
qed

lemma window_observed:
  assumes "window_attr (dget attrs k) n" and "window_observations attrs ks = Inr (vs, latest)"
  shows "\<exists>latest'. window_observations attrs (k # ks) = Inr (PInt n # vs, latest')"
proof -
  from assms(1) obtain w t where w: "dget attrs k = PDict w" "map_of w ''int_value'' = Some (PInt n)"
    "dget_or w ''timestamp'' (PInt 0) = PInt t" by (rule window_attrE)
  then have "haskey attrs k" by (auto simp: haskey_def dget_def split: option.splits)
  moreover have "dget_or w ''int_value'' (PInt 0) = PInt n" using w(2) by (simp add: dget_or_def)
  ultimately show ?thesis using w assms(2) by simp
qed

lemma windows_observed:
  "(\<And>k. k \<in> set ks \<Longrightarrow> window_attr (dget attrs k) (n k)) \<Longrightarrow>
    \<exists>latest. window_observations attrs ks = Inr (map (\<lambda>k. PInt (n k)) ks, latest)"
proof (induction ks)
  case (Cons k ks)
  then obtain latest where "window_observations attrs ks = Inr (map (\<lambda>k. PInt (n k)) ks, latest)" by auto
  with window_observed [OF Cons(2) this] show ?case by auto
qed simp

lemma status_ints_PInt: "status_ints (map (\<lambda>k. PInt (n k)) ks) = Inr (map n ks)"
  by (induction ks) simp_all

lemma window_sent:
  assumes "window_attr v n"
  shows "ca_value (sent_attribute v) = PInt n" "ca_status (sent_attribute v) = valid"
proof -
  from assms obtain w t where w: "v = PDict w" "w \<noteq> []" "map_of w ''value'' = None" "map_of w ''int_value'' = Some (PInt n)"
    "dget_or w ''status'' valid = valid" by (rule window_attrE)
  then obtain kv ws where l: "w = kv # ws" by (cases w) auto
  have "sent_attribute (PDict w) = attribute_of (first_key value_keys w (PInt 0)) (dget_or w ''status'' valid)
      (dget_or w ''timestamp'' (PInt 0)) (dget w ''display_value'') (first_key unit_keys w PNone)"
    by (simp add: sent_attribute_def l)
  moreover have "first_key value_keys w (PInt 0) = PInt n"
    using w(3,4) by (simp add: first_key_def value_keys_def haskey_def dget_def)
  ultimately show "ca_value (sent_attribute v) = PInt n" "ca_status (sent_attribute v) = valid" using w(1,5) by simp_all
qed

lemma position_of_code:
  "key \<noteq> ''windows'' \<Longrightarrow> cover_position key (PInt n) =
    Inr (if n = 2 then Some 0 else if n = 1 then Some 100 else if n = 3 then Some 10 else if n = 0 \<or> n = 4 then Some 50 else None)"
  by (simp add: cover_position_def)

text \<open>
  when a pulled snapshot carries the four windows but no overall status, the cover made of all
  windows and the four single covers agree: it is closed exactly when each window is closed, open
  otherwise, and a window whose code is not known has no position instead of a wrong one.
\<close>

theorem window_covers_agree:
  assumes "coordinator_message clock (Inr (PDict payload)) (co_run es (coordinator_init d)) = (Taken, c')"
    and "dget payload ''attributes'' = PDict attrs" and "dget payload ''data_mode'' = PStr ''pull''"
    and "\<not> haskey attrs ''windowStatusOverall''" and "\<forall>k \<in> set main_window_attrs. window_attr (dget attrs k) (n k)"
  shows "\<exists>r. own_car c' = Some r \<and>
    cover_is_closed r ''windows'' ''windowStatusOverall'' = Inr (Some (\<forall>k \<in> set main_window_attrs. n k = 2)) \<and>
    (\<forall>(key, field) \<in> set (tl WINDOWS). cover_is_closed r key field = Inr (if 0 \<le> n field \<and> n field \<le> 4 then Some (n field = 2) else None))"
proof -
  have "dget attrs ''windowstatusfrontleft'' \<noteq> PNone"
    using assms(5) by (auto simp: main_window_attrs_def window_attr_def)
  then have "attrs \<noteq> []" by auto
  from snapshot_decoded [OF assms(1,2) this] obtain r payload' attrs' where r: "own_car c' = Some r"
    and w: "with_window_status True payload = Inr payload'" "dget payload' ''attributes'' = PDict attrs'"
    "\<forall>k. k \<noteq> ''windowStatusOverall'' \<longrightarrow> dget attrs' k = dget attrs k"
    and g: "\<forall>grp options option. (grp, options) \<in> set sections \<longrightarrow> option \<in> set options \<longrightarrow> handler_for option = handle_generic \<longrightarrow>
       car_attr r grp option = Some (sent_attribute (dget attrs' option))" unfolding assms(3) by auto
  have win: "(''windows'', WINDOW_OPTIONS) \<in> set sections" by (simp add: sections_def)
  have attr: "car_attr r ''windows'' k = Some (sent_attribute (dget attrs' k))"
    if "k \<in> set (''windowStatusOverall'' # main_window_attrs)" for k
    using g win that by (auto simp: WINDOW_OPTIONS_def main_window_attrs_def handler_for_def)
  from windows_observed [of main_window_attrs attrs n] assms(5) obtain latest where
    o: "window_observations attrs main_window_attrs = Inr (map (\<lambda>k. PInt (n k)) main_window_attrs, latest)" by blast
  define all where "all = (\<forall>k \<in> set main_window_attrs. n k = 2)"
  have "overall_window_closed (map (\<lambda>k. PInt (n k)) main_window_attrs) = Inr all"
    by (auto simp: overall_window_closed_def status_ints_PInt list_all_iff all_def)
  with o have "synthetic_window_status attrs = Inr (PDict [(''timestamp'', PStr (if 0 < latest then show_int latest else ''0'')),
      (''bool_value'', PBool all), (''status'', valid), (''timestamp_in_ms'', PStr (show_int (latest * 1000 + 223)))])"
    by (simp add: synthetic_window_status_def)
  with w(1,2) assms(2,4) \<open>attrs \<noteq> []\<close> have overall: "dget attrs' ''windowStatusOverall'' =
      PDict [(''timestamp'', PStr (if 0 < latest then show_int latest else ''0'')),
      (''bool_value'', PBool all), (''status'', valid), (''timestamp_in_ms'', PStr (show_int (latest * 1000 + 223)))]"
    by (auto simp: with_window_status_def)
  have v: "ca_value (sent_attribute (dget attrs' ''windowStatusOverall'')) = PBool all"
    "ca_status (sent_attribute (dget attrs' ''windowStatusOverall'')) = valid"
    by (simp_all add: overall sent_attribute_def first_key_def value_keys_def haskey_def)
  have "cover_is_closed r ''windows'' ''windowStatusOverall'' = Inr (Some all)"
    using attr v by (simp add: cover_is_closed_def current_cover_position_def valid_def cover_position_def)
  moreover have "cover_is_closed r key field = Inr (if 0 \<le> n field \<and> n field \<le> 4 then Some (n field = 2) else None)"
    if "(key, field) \<in> set (tl WINDOWS)" for key field
  proof -
    have f: "field \<in> set main_window_attrs" "field \<noteq> ''windowStatusOverall''" "key \<noteq> ''windows''"
      using that by (auto simp: WINDOWS_def main_window_attrs_def)
    then have "window_attr (dget attrs' field) (n field)" using assms(5) w(3) by simp
    from window_sent [OF this] attr f show ?thesis
      by (auto simp: cover_is_closed_def current_cover_position_def valid_def position_of_code)
  qed
  ultimately show ?thesis using r unfolding all_def by blast
qed

section \<open>Concrete entities\<close>

definition demo_env :: ha_env where
  "demo_env = \<lparr>hv_local = (\<lambda>n. Inr (PInt n)), hv_slug = id, hv_options = cap_check_disabled\<rparr>"

definition demo_car :: car where
  "demo_car = (new_car (PStr ''W''))\<lparr>car_groups := [(''electric'', [(''soc'', attribute_of (PInt 55) valid (PInt 0) PNone (PStr ''PERCENT''))])]\<rparr>"

lemma eligible_total: "list_all (\<lambda>i. is_ok (create i)) items \<Longrightarrow> \<exists>es. eligible_devices create items = Inr es"
proof (induction items)
  case (Cons i items)
  then obtain es where "eligible_devices create items = Inr es" by auto
  with Cons(2) show ?case by (cases "create i") auto
qed simp

lemma eligible_member:
  "eligible_devices create items = Inr es \<Longrightarrow> i \<in> set items \<Longrightarrow> create i = Inr (Some e) \<Longrightarrow> e \<in> set es"
  by (induction create items arbitrary: es rule: eligible_devices.induct) (auto simp: rbind_Inr_iff split: option.splits)

lemma demo_creates:
  "list_all (\<lambda>i. is_ok (create_sensor_if_eligible demo_env demo_car False False i)) SENSORS_1"
  "list_all (\<lambda>i. is_ok (create_sensor_if_eligible demo_env demo_car False False i)) SENSORS_2"
  "list_all (\<lambda>i. is_ok (create_sensor_if_eligible demo_env demo_car False False i)) SENSORS_3"
  "list_all (\<lambda>i. is_ok (create_sensor_if_eligible demo_env demo_car False False i)) SENSORS_4"
  "list_all (\<lambda>i. is_ok (create_sensor_if_eligible demo_env demo_car False False i)) SENSORS_5"
  "list_all (\<lambda>i. is_ok (create_sensor_if_eligible demo_env demo_car False False i)) SENSORS_6"
  "list_all (\<lambda>i. is_ok (create_sensor_if_eligible demo_env demo_car False False i)) SENSORS_7"
  "list_all (\<lambda>i. is_ok (create_sensor_if_eligible demo_env demo_car True False i)) SENSORS_POLL"
  by code_simp+

definition soc_entry :: "string \<times> entity_spec" where
  "soc_entry = (''soc'', the (map_of SENSORS ''soc''))"

lemma soc_entry: "soc_entry \<in> set SENSORS"
proof -
  have "map_of SENSORS ''soc'' \<noteq> None" by code_simp
  then show ?thesis unfolding soc_entry_def by (auto intro: map_of_SomeD)
qed

theorem discovery_complete_and_idempotent_witness:
  "\<exists>es. missing_sensors demo_env demo_car = Inr es \<and> ''W_soc'' \<in> hx_unique ` set es \<and>
    missing_sensors demo_env (fold (added_to_hass ''sensor.'') es demo_car) = Inr []"
proof -
  have "list_all (\<lambda>i. is_ok (create_sensor_if_eligible demo_env demo_car False False i)) SENSORS"
    using demo_creates by (simp add: SENSORS_def)
  then obtain xs where xs: "eligible_devices (create_sensor_if_eligible demo_env demo_car False False) (sorted_items SENSORS) = Inr xs"
    using eligible_total [of "create_sensor_if_eligible demo_env demo_car False False" "sorted_items SENSORS"]
    by (auto simp: sorted_items_def list_all_iff)
  obtain ys where ys: "eligible_devices (create_sensor_if_eligible demo_env demo_car True False) (sorted_items SENSORS_POLL) = Inr ys"
    using eligible_total [of "create_sensor_if_eligible demo_env demo_car True False" "sorted_items SENSORS_POLL"] demo_creates(8)
    by (auto simp: sorted_items_def list_all_iff)
  have c: "case create_sensor_if_eligible demo_env demo_car False False soc_entry of Inr (Some e) \<Rightarrow> hx_unique e = ''W_soc'' | _ \<Rightarrow> False"
    by code_simp
  then obtain e where e: "create_sensor_if_eligible demo_env demo_car False False soc_entry = Inr (Some e)" "hx_unique e = ''W_soc''"
    by (auto split: sum.splits option.splits)
  have "e \<in> set xs" using eligible_member [OF xs _ e(1)] soc_entry by (simp add: sorted_items_def)
  moreover have "car_sensors demo_car = []" by (simp add: demo_car_def new_car_def)
  then have m: "missing_sensors demo_env demo_car = Inr (xs @ ys)"
    by (simp add: missing_sensors_def xs ys not_added_def)
  ultimately show ?thesis
    using discovery_complete_and_idempotent [OF m HOL.refl] e(2)
    by (intro exI [of _ "xs @ ys"]) (auto intro!: image_eqI [of _ _ e])
qed


definition demo_window :: "int \<Rightarrow> pyval" where
  "demo_window n = PDict [(''int_value'', PInt n), (''status'', PStr ''VALID'')]"

definition demo_windows :: pydict where
  "demo_windows = [(''windowstatusfrontleft'', demo_window 2), (''windowstatusfrontright'', demo_window 2),
     (''windowstatusrearleft'', demo_window 1), (''windowstatusrearright'', demo_window 2)]"

definition demo_pulled :: pydict where
  "demo_pulled = [(''schema'', PInt 1), (''vin'', PStr ''WDD1''), (''received_at'', PFloat (Fin 20)),
     (''data_mode'', PStr ''pull''), (''attributes'', PDict demo_windows)]"

theorem window_covers_agree_witness:
  "\<exists>c' r. coordinator_message demo_clock (Inr (PDict demo_pulled)) (coordinator_init demo_route) = (Taken, c') \<and> own_car c' = Some r \<and>
     cover_is_closed r ''windows'' ''windowStatusOverall'' = Inr (Some False) \<and>
     cover_is_closed r ''window_front_left'' ''windowstatusfrontleft'' = Inr (Some True)"
proof -
  define n where "n k = (if k = ''windowstatusrearleft'' then 1 else 2 :: int)" for k :: string
  have f: "message_fields (lc_epoch demo_clock) demo_pulled (co_run [] (coordinator_init demo_route)) = Inr (Some (20, [], []))"
    by code_simp
  have a: "dget demo_pulled ''attributes'' = PDict demo_windows" "dget demo_pulled ''data_mode'' = PStr ''pull''"
    by (simp_all add: demo_pulled_def)
  have p: "plain_attributes demo_windows" "readable_windows demo_windows" by code_simp+
  have h: "\<not> haskey demo_windows ''windowStatusOverall''" by (simp add: demo_windows_def haskey_def)
  have i: "is_ok (int_of_float (fl (fst (20 :: rat, [] :: pydict, [] :: pydict) * 1000)))" by code_simp
  obtain v c' where m: "coordinator_message demo_clock (Inr (PDict demo_pulled)) (co_run [] (coordinator_init demo_route)) = (v, c')"
    by (cases "coordinator_message demo_clock (Inr (PDict demo_pulled)) (co_run [] (coordinator_init demo_route))")
  have "v = Taken" using plain_taken [OF HOL.refl f a(1) p(1) _ i] p(2) m by simp
  with m have t: "coordinator_message demo_clock (Inr (PDict demo_pulled)) (co_run [] (coordinator_init demo_route)) = (Taken, c')" by simp
  have w: "\<forall>k \<in> set main_window_attrs. window_attr (dget demo_windows k) (n k)"
    by (simp add: main_window_attrs_def demo_windows_def demo_window_def window_attr_def n_def valid_def dget_or_def)
  from window_covers_agree [OF t a h w] obtain r where r: "own_car c' = Some r"
    "cover_is_closed r ''windows'' ''windowStatusOverall'' = Inr (Some (\<forall>k \<in> set main_window_attrs. n k = 2))"
    "\<forall>(key, field) \<in> set (tl WINDOWS). cover_is_closed r key field = Inr (if 0 \<le> n field \<and> n field \<le> 4 then Some (n field = 2) else None)"
    by blast
  have "\<not> (\<forall>k \<in> set main_window_attrs. n k = 2)" by (simp add: main_window_attrs_def n_def)
  moreover have "(''window_front_left'', ''windowstatusfrontleft'') \<in> set (tl WINDOWS)" by (simp add: WINDOWS_def)
  with r(3) have "cover_is_closed r ''window_front_left'' ''windowstatusfrontleft'' =
      Inr (if 0 \<le> n ''windowstatusfrontleft'' \<and> n ''windowstatusfrontleft'' \<le> 4 then Some (n ''windowstatusfrontleft'' = 2) else None)"
    by blast
  then have "cover_is_closed r ''window_front_left'' ''windowstatusfrontleft'' = Inr (Some True)" by (simp add: n_def)
  ultimately show ?thesis using r(1,2) t by auto
qed

end
