(* ===== verification/Version_Plan.thy ===== *)
theory Version_Plan
  imports Py_Value Vsu
begin

text \<open>
  \<^verbatim>\<open>scripts/version_plan.py\<close>: the frozen identity of a release and the version texts it projects into
  package metadata. Policies and plans are JSON objects; \<^verbatim>\<open>VersionError\<close> is a \<^verbatim>\<open>ValueError\<close>. The digest of
  a policy is a parameter.
\<close>

section \<open>Recognisers\<close>

definition numeral_text :: "string \<Rightarrow> bool" where
  "numeral_text s = (isdigit s \<and> (s = ''0'' \<or> hd s \<noteq> CHR ''0''))"

definition positive_text :: "string \<Rightarrow> bool" where
  "positive_text s = (isdigit s \<and> hd s \<noteq> CHR ''0'')"

text \<open>\<^verbatim>\<open>BASE\<close>, \<^verbatim>\<open>SHA\<close> and \<^verbatim>\<open>NIGHTLY\<close> as whole-string matches.\<close>

definition base_text :: "string \<Rightarrow> bool" where
  "base_text s = (case split_char (CHR ''.'') s of [a, b, c] \<Rightarrow> numeral_text a \<and> numeral_text b \<and> numeral_text c | _ \<Rightarrow> False)"

definition is_hex :: "char \<Rightarrow> bool" where
  "is_hex c = (is_digit c \<or> 97 \<le> code c \<and> code c \<le> 102)"

definition sha_text :: "string \<Rightarrow> bool" where
  "sha_text s = (length s = 40 \<and> list_all is_hex s)"

definition digest_text :: "string \<Rightarrow> bool" where
  "digest_text s = (length s = 64 \<and> list_all is_hex s)"

definition nightly_text :: "string \<Rightarrow> bool" where
  "nightly_text s =
     (case split_char (CHR ''.'') s of
        [t, r, a] \<Rightarrow> length t = 14 \<and> isdigit t \<and> positive_text r \<and> positive_text a
      | _ \<Rightarrow> False)"

text \<open>\<^verbatim>\<open>strptime\<close> of fourteen digits.\<close>

definition calendar_text :: "string \<Rightarrow> bool" where
  "calendar_text t =
     (let f = (\<lambda>i n. int_of_digits (take n (drop i t)));
          y = f 0 4; mo = f 4 2; d = f 6 2
      in 1 \<le> y \<and> 1 \<le> mo \<and> mo \<le> 12 \<and> 1 \<le> d \<and> d \<le> days_in_month y mo \<and> f 8 2 < 24 \<and> f 10 2 < 60 \<and> f 12 2 < 60)"

section \<open>Declarations\<close>

definition guard :: "bool \<Rightarrow> unit res" where
  "guard b = (if b then Inr () else Inl ValueError)"

text \<open>\<^verbatim>\<open>v[k]\<close> for a text \<open>k\<close>.\<close>

definition vitem :: "pyval \<Rightarrow> string \<Rightarrow> pyval res" where
  "vitem v k = (case v of PDict d \<Rightarrow> dgetitem d k | _ \<Rightarrow> Inl TypeError)"

text \<open>\<^verbatim>\<open>v in {...}\<close> for a set of texts: lists and objects cannot be hashed.\<close>

definition in_texts :: "pyval \<Rightarrow> string list \<Rightarrow> bool res" where
  "in_texts v xs =
     (case v of PList _ \<Rightarrow> Inl TypeError | PDict _ \<Rightarrow> Inl TypeError | PStr s \<Rightarrow> Inr (s \<in> set xs) | _ \<Rightarrow> Inr False)"

definition require_in :: "pyval \<Rightarrow> string list \<Rightarrow> unit res" where
  "require_in v xs = rbind (in_texts v xs) guard"

definition FORMATS :: "string list" where
  "FORMATS = [''json'', ''toml'', ''cargo-lock'', ''uv-lock'', ''npm-lock'', ''text'', ''python'', ''plist'', ''pbxproj'']"

definition VALUES :: "string list" where
  "VALUES = [''base'', ''full'', ''package'', ''build'', ''apple-build'']"

definition ARTIFACT_FORMATS :: "string list" where
  "ARTIFACT_FORMATS = [''oci'', ''json'', ''wheel'', ''sdist'', ''npm-tar'', ''ipa'', ''plist'', ''tar-text'',
     ''tar-toml'', ''tar-json'', ''zip-json'']"

definition field_path :: "pyval \<Rightarrow> string list res" where
  "field_path v =
     (case v of
        PStr s \<Rightarrow> (let r = split_char (CHR ''.'') s in rbind (guard (list_all (\<lambda>p. p \<noteq> []) r)) (\<lambda>_. Inr r))
      | PList xs \<Rightarrow> rbind (guard (xs \<noteq> [] \<and> list_all is_str xs)) (\<lambda>_. Inr (map (\<lambda>x. case x of PStr s \<Rightarrow> s | _ \<Rightarrow> []) xs))
      | _ \<Rightarrow> Inl ValueError)"

definition relative_text :: "string \<Rightarrow> bool" where
  "relative_text s =
     (s \<noteq> [] \<and> CHR 0x5C \<notin> set s \<and> CHR 0x00 \<notin> set s \<and> hd s \<noteq> CHR ''/'' \<and>
      list_all (\<lambda>p. p \<notin> {[], ''.'', ''..'', ''.git''}) (split_char (CHR ''/'') s))"

definition relative :: "pyval \<Rightarrow> unit res" where
  "relative v = (case v of PStr s \<Rightarrow> guard (relative_text s) | _ \<Rightarrow> Inl ValueError)"

definition clean_text :: "pyval \<Rightarrow> bool" where
  "clean_text v = (case v of PStr s \<Rightarrow> list_all (\<lambda>c. c \<notin> set s) [CHR 0x0D, CHR 0x0A, CHR 0x00] | _ \<Rightarrow> False)"

definition artifact_declaration :: "string \<Rightarrow> pydict \<Rightarrow> unit res" where
  "artifact_declaration kind item =
     rbind (guard (kind = ''oci'' \<longrightarrow> haskey item ''field'' \<and> \<not> haskey item ''package'')) (\<lambda>_.
     rbind (if kind \<in> {''tar-text'', ''tar-toml'', ''tar-json'', ''zip-json''}
            then rbind (guard (haskey item ''member'')) (\<lambda>_. relative (dget item ''member''))
            else guard (\<not> haskey item ''member'')) (\<lambda>_.
       guard (kind = ''tar-text'' \<longrightarrow> \<not> haskey item ''field'' \<and> \<not> haskey item ''package'')))"

definition input_declaration :: "string \<Rightarrow> pydict \<Rightarrow> unit res" where
  "input_declaration kind item =
     rbind (guard (kind \<in> {''json'', ''toml'', ''python'', ''plist'', ''pbxproj''} \<longrightarrow> haskey item ''field'')) (\<lambda>_.
     rbind (guard (kind \<in> {''cargo-lock'', ''uv-lock'', ''npm-lock'', ''pbxproj''} \<longrightarrow> haskey item ''package'')) (\<lambda>_.
     rbind (guard (kind \<in> {''text'', ''cargo-lock'', ''uv-lock'', ''npm-lock''} \<longrightarrow> \<not> haskey item ''field'')) (\<lambda>_.
       guard (kind \<in> {''text'', ''python'', ''plist''} \<longrightarrow> \<not> haskey item ''package''))))"

definition version_declaration :: "bool \<Rightarrow> pyval \<Rightarrow> pydict res" where
  "version_declaration artifact v =
     (case v of
        PDict item \<Rightarrow>
          rbind (guard (list_all (\<lambda>(k, _). k \<in> {''path'', ''format'', ''field'', ''package'', ''value'', ''prefix'', ''ecosystem''} \<or>
                   artifact \<and> k = ''member'') item)) (\<lambda>_.
          rbind (require_in (dget item ''format'') (if artifact then ARTIFACT_FORMATS else FORMATS)) (\<lambda>_.
          rbind (if haskey item ''path'' then relative (dget item ''path'') else guard artifact) (\<lambda>_.
          rbind (require_in (dget_or item ''value'' (PStr ''package'')) VALUES) (\<lambda>_.
          rbind (require_in (dget_or item ''ecosystem'' (PStr ''semver'')) [''semver'', ''pep440'']) (\<lambda>_.
          rbind (guard (clean_text (dget_or item ''prefix'' (PStr [])))) (\<lambda>_.
          rbind (if haskey item ''field'' then rbind (field_path (dget item ''field'')) (\<lambda>_. Inr ()) else Inr ()) (\<lambda>_.
          rbind (guard (haskey item ''package'' \<longrightarrow> clean_text (dget item ''package'') \<and> dget item ''package'' \<noteq> PStr [])) (\<lambda>_.
          rbind ((if artifact then artifact_declaration else input_declaration)
                   (case dget item ''format'' of PStr s \<Rightarrow> s | _ \<Rightarrow> []) item) (\<lambda>_. Inr item)))))))))
      | _ \<Rightarrow> Inl ValueError)"

section \<open>The policy\<close>

definition receipt_char :: "char \<Rightarrow> bool" where
  "receipt_char c = (is_alpha c \<or> is_digit c \<or> c \<in> {CHR ''.'', CHR ''_'', CHR ''-''})"

definition receipt_name :: "string \<Rightarrow> bool" where
  "receipt_name s =
     (startswith s ''release-inputs-'' \<and> length s > 20 \<and> drop (length s - 5) s = ''.json'' \<and>
      list_all receipt_char (take (length s - 20) (drop 15 s)) \<and> s \<noteq> ''release-inputs-fuzz.json'')"

definition required_build_receipts :: "pydict \<Rightarrow> string list option res" where
  "required_build_receipts config =
     (if \<not> haskey config ''required_build_receipts'' then Inr None
      else case dget config ''required_build_receipts'' of
        PList xs \<Rightarrow>
          let names = map (\<lambda>x. case x of PStr s \<Rightarrow> s | _ \<Rightarrow> []) xs
          in rbind (guard (xs \<noteq> [] \<and> list_all is_str xs \<and> list_all receipt_name names)) (\<lambda>_.
             rbind (guard (distinct names)) (\<lambda>_. Inr (Some names)))
      | _ \<Rightarrow> Inl ValueError)"

type_synonym selector = "string \<times> string \<times> string list \<times> pyval"

definition text_val :: "pyval \<Rightarrow> string" where
  "text_val v = (case v of PStr s \<Rightarrow> s | _ \<Rightarrow> [])"

definition selector_of :: "pydict \<Rightarrow> selector res" where
  "selector_of item =
     rbind (if haskey item ''field'' then field_path (dget item ''field'') else Inr []) (\<lambda>f.
       Inr (text_val (dget item ''path''), text_val (dget item ''format''), f, dget item ''package''))"

fun check_files :: "pyval list \<Rightarrow> selector list \<Rightarrow> pydict list res" where
  "check_files [] seen = Inr []"
| "check_files (v # vs) seen =
     rbind (version_declaration False v) (\<lambda>item. rbind (selector_of item) (\<lambda>s.
     rbind (guard (s \<notin> set seen)) (\<lambda>_. rbind (check_files vs (s # seen)) (\<lambda>items. Inr (item # items)))))"

fun check_artifacts :: "pyval list \<Rightarrow> unit res" where
  "check_artifacts [] = Inr ()"
| "check_artifacts (v # vs) = rbind (version_declaration True v) (\<lambda>_. check_artifacts vs)"

definition MAX_BUILD :: int where
  "MAX_BUILD = 2100000000"

definition is_int_in :: "pyval \<Rightarrow> int \<Rightarrow> int \<Rightarrow> bool" where
  "is_int_in v lo hi = (case v of PInt n \<Rightarrow> lo \<le> n \<and> n < hi | _ \<Rightarrow> False)"

text \<open>The validated extension and its declared files.\<close>

definition validate_policy :: "pyval \<Rightarrow> (pydict \<times> pydict list) res" where
  "validate_policy policy =
     (case policy of
        PDict p \<Rightarrow>
          (case dget p ''versioning'' of
             PDict config \<Rightarrow>
               rbind (guard (list_all (\<lambda>(k, _). k \<in> {''schema'', ''promotion'', ''files'', ''artifacts'',
                 ''required_build_receipts'', ''build_number_floor'', ''toolkit_revision''}) config)) (\<lambda>_.
               rbind (guard (dget config ''schema'' = PInt 1)) (\<lambda>_.
               rbind (require_in (dget config ''promotion'') [''promote-bytes'', ''final-build'']) (\<lambda>_.
               rbind (guard (haskey config ''build_number_floor'' \<longrightarrow> is_int_in (dget config ''build_number_floor'') 0 MAX_BUILD)) (\<lambda>_.
               (case dget config ''files'' of
                  PList (f # fs) \<Rightarrow>
                    rbind (required_build_receipts config) (\<lambda>_.
                    rbind (check_files (f # fs) []) (\<lambda>items.
                    rbind (case dget_or config ''artifacts'' (PList []) of PList as \<Rightarrow> check_artifacts as | _ \<Rightarrow> Inl ValueError) (\<lambda>_.
                    rbind (guard (haskey config ''toolkit_revision'' \<longrightarrow>
                        (case dget config ''toolkit_revision'' of PStr s \<Rightarrow> sha_text s | _ \<Rightarrow> False))) (\<lambda>_.
                      Inr (config, items)))))
                | _ \<Rightarrow> Inl ValueError)))))
           | _ \<Rightarrow> Inl ValueError)
      | _ \<Rightarrow> Inl ValueError)"

section \<open>The identity\<close>

definition channels :: "string list" where
  "channels = [''nightly'', ''beta'', ''rc'', ''stable'']"

definition identity :: "pyval \<Rightarrow> pyval \<Rightarrow> pyval \<Rightarrow> string res" where
  "identity base channel sequence =
     rbind (case base of PStr b \<Rightarrow> guard (base_text b) | _ \<Rightarrow> Inl ValueError) (\<lambda>_.
     rbind (require_in channel channels) (\<lambda>_.
       let b = text_val base; ch = text_val channel
       in if ch = ''stable'' then rbind (guard (sequence = PNone)) (\<lambda>_. Inr b)
          else rbind (if ch = ''nightly''
                 then (case sequence of
                     PStr s \<Rightarrow> rbind (guard (nightly_text s)) (\<lambda>_. guard (calendar_text (hd (split_char (CHR ''.'') s))))
                   | _ \<Rightarrow> Inl ValueError)
                 else (case sequence of PInt n \<Rightarrow> guard (0 < n) | _ \<Rightarrow> Inl ValueError)) (\<lambda>_.
            Inr (b @ ''-'' @ ch @ ''.'' @ py_str sequence))))"

section \<open>Projections\<close>

text \<open>The numeric version of a package index: run and attempt in one bounded number.\<close>

definition nightly_number :: "string \<Rightarrow> int res" where
  "nightly_number s =
     (case split_char (CHR ''.'') s of
        [_, r, a] \<Rightarrow>
          let n = int_of_digits r * 1000000 + int_of_digits a
          in if int_of_digits a < 1000000 \<and> n \<le> 2 ^ 64 - 2 then Inr n else Inl ValueError
      | _ \<Rightarrow> Inl ValueError)"

definition package_version :: "pydict \<Rightarrow> string \<Rightarrow> pyval res" where
  "package_version plan ecosystem =
     (let base = text_val (dget plan ''base_version''); channel = dget plan ''channel''; sequence = dget plan ''sequence''
      in if channel = PStr ''rc'' \<and> dget plan ''promotion'' = PStr ''promote-bytes'' then Inr (dget plan ''base_version'')
         else if ecosystem \<noteq> ''pep440'' then Inr (dget plan ''version'')
         else if channel = PStr ''beta'' then Inr (PStr (base @ ''b'' @ py_str sequence))
         else if channel = PStr ''rc'' then Inr (PStr (base @ ''rc'' @ py_str sequence))
         else if channel = PStr ''nightly''
         then rbind (nightly_number (text_val sequence)) (\<lambda>n. Inr (PStr (base @ ''.dev'' @ show_int n)))
         else Inr (dget plan ''version''))"

definition apple_triple :: "int \<Rightarrow> int \<times> int \<times> int" where
  "apple_triple build = (let n = build - 1 in (n div 10000 + 1, n div 100 mod 100, n mod 100))"

definition apple_build :: "pyval \<Rightarrow> pyval" where
  "apple_build build =
     (case build of
        PInt b \<Rightarrow>
          if 0 < b \<and> b \<le> 99990000
          then (case apple_triple b of (x, y, z) \<Rightarrow> PStr (show_int x @ ''.'' @ show_int y @ ''.'' @ show_int z))
          else PNone
      | _ \<Rightarrow> PNone)"

definition projections :: "pydict \<Rightarrow> pyval \<Rightarrow> pydict res" where
  "projections plan ecosystem =
     rbind (require_in ecosystem [''semver'', ''pep440'']) (\<lambda>_.
     rbind (package_version plan (text_val ecosystem)) (\<lambda>package.
       Inr [(''base'', dget plan ''base_version''), (''full'', dget plan ''version''), (''package'', package),
         (''build'', dget plan ''build_number''), (''apple-build'', apple_build (dget plan ''build_number''))]))"

definition projected_value :: "pydict \<Rightarrow> pydict \<Rightarrow> pyval res" where
  "projected_value plan item =
     rbind (projections plan (dget_or item ''ecosystem'' (PStr ''semver''))) (\<lambda>ps.
     rbind (dgetitem ps (text_val (dget_or item ''value'' (PStr ''package'')))) (\<lambda>v.
     rbind (guard (v \<noteq> PNone)) (\<lambda>_.
       let prefix = text_val (dget_or item ''prefix'' (PStr []))
       in Inr (if prefix \<noteq> [] then PStr (prefix @ py_str v) else v))))"

fun project_all :: "pydict \<Rightarrow> pydict list \<Rightarrow> unit res" where
  "project_all plan [] = Inr ()"
| "project_all plan (item # items) = rbind (projected_value plan item) (\<lambda>_. project_all plan items)"

section \<open>Plans\<close>

definition build_ok :: "pyval \<Rightarrow> bool" where
  "build_ok b = (b = PNone \<or> is_int_in b 1 (MAX_BUILD + 1))"

definition above_floor :: "pyval \<Rightarrow> pydict \<Rightarrow> bool" where
  "above_floor b config =
     (case (b, dget_or config ''build_number_floor'' (PInt 0)) of (PInt n, PInt f) \<Rightarrow> f < n | _ \<Rightarrow> True)"

definition create_plan ::
  "(pyval \<Rightarrow> string res) \<Rightarrow> pyval \<Rightarrow> pyval \<Rightarrow> pyval \<Rightarrow> pyval \<Rightarrow> pyval \<Rightarrow> pyval \<Rightarrow> pydict res" where
  "create_plan policy_digest base channel sequence source_sha policy build =
     rbind (validate_policy policy) (\<lambda>(config, items).
     rbind (identity base channel sequence) (\<lambda>version.
     rbind (case source_sha of PStr s \<Rightarrow> guard (sha_text s) | _ \<Rightarrow> Inl ValueError) (\<lambda>_.
     rbind (guard (build_ok build)) (\<lambda>_.
     rbind (guard (above_floor build config)) (\<lambda>_.
     rbind (policy_digest policy) (\<lambda>h.
     let plan = [(''schema_version'', PInt 1), (''base_version'', base), (''version'', PStr version),
       (''channel'', channel), (''sequence'', sequence), (''tag'', PStr (''v'' @ version)),
       (''source_sha'', source_sha), (''build_number'', build), (''policy_sha256'', PStr h),
       (''promotion'', dget config ''promotion'')]
     in rbind (project_all plan items) (\<lambda>_. Inr plan)))))))"

definition plan_keys :: "string list" where
  "plan_keys = [''schema_version'', ''base_version'', ''version'', ''channel'', ''sequence'', ''tag'', ''source_sha'',
     ''build_number'', ''policy_sha256'', ''promotion'']"

definition validate_plan ::
  "(pyval \<Rightarrow> string res) \<Rightarrow> pyval \<Rightarrow> pyval option \<Rightarrow> pyval option \<Rightarrow> pydict res" where
  "validate_plan policy_digest v policy source_sha =
     (case v of
        PDict plan \<Rightarrow>
          rbind (guard (set (map fst plan) = set plan_keys)) (\<lambda>_.
          rbind (guard (dget plan ''schema_version'' = PInt 1)) (\<lambda>_.
          rbind (identity (dget plan ''base_version'') (dget plan ''channel'') (dget plan ''sequence'')) (\<lambda>version.
          rbind (guard (dget plan ''version'' = PStr version \<and> dget plan ''tag'' = PStr (''v'' @ version))) (\<lambda>_.
          rbind (guard (case dget plan ''source_sha'' of PStr s \<Rightarrow> sha_text s | _ \<Rightarrow> False)) (\<lambda>_.
          rbind (guard (case dget plan ''policy_sha256'' of PStr s \<Rightarrow> digest_text s | _ \<Rightarrow> False)) (\<lambda>_.
          rbind (require_in (dget plan ''promotion'') [''promote-bytes'', ''final-build'']) (\<lambda>_.
          rbind (guard (build_ok (dget plan ''build_number''))) (\<lambda>_.
          rbind (case policy of
              None \<Rightarrow> Inr ()
            | Some p \<Rightarrow>
                rbind (validate_policy p) (\<lambda>(config, items).
                rbind (policy_digest p) (\<lambda>h.
                rbind (guard (dget plan ''policy_sha256'' = PStr h)) (\<lambda>_.
                rbind (guard (dget plan ''promotion'' = dget config ''promotion'')) (\<lambda>_.
                rbind (guard (above_floor (dget plan ''build_number'') config)) (\<lambda>_.
                  project_all plan items)))))) (\<lambda>_.
          rbind (guard (case source_sha of None \<Rightarrow> True | Some s \<Rightarrow> dget plan ''source_sha'' = s)) (\<lambda>_.
            Inr plan))))))))))
      | _ \<Rightarrow> Inl ValueError)"

section \<open>A created plan is a valid plan\<close>

lemma guard_Inr [simp]: "guard b = Inr u \<longleftrightarrow> b"
  by (simp add: guard_def)

lemma require_in_Inr: "require_in v xs = Inr u \<longleftrightarrow> (\<exists>s. v = PStr s \<and> s \<in> set xs)"
  by (cases v) (auto simp: require_in_def in_texts_def)

lemma validate_policy_promotion:
  assumes "validate_policy p = Inr (config, items)"
  shows "require_in (dget config ''promotion'') [''promote-bytes'', ''final-build''] = Inr ()"
  using assms by (auto simp: validate_policy_def rbind_Inr_iff split: pyval.splits list.splits)

lemma create_planD:
  assumes "create_plan dig base channel sequence sha policy build = Inr plan"
  shows "\<exists>config items version h. validate_policy policy = Inr (config, items) \<and> identity base channel sequence = Inr version \<and>
    (\<exists>s. sha = PStr s \<and> sha_text s) \<and> build_ok build \<and> above_floor build config \<and> dig policy = Inr h \<and>
    project_all plan items = Inr () \<and>
    plan = [(''schema_version'', PInt 1), (''base_version'', base), (''version'', PStr version),
       (''channel'', channel), (''sequence'', sequence), (''tag'', PStr (''v'' @ version)),
       (''source_sha'', sha), (''build_number'', build), (''policy_sha256'', PStr h), (''promotion'', dget config ''promotion'')]"
proof -
  from assms obtain config items version h where
    "validate_policy policy = Inr (config, items)" "identity base channel sequence = Inr version"
    "(case sha of PStr s \<Rightarrow> guard (sha_text s) | _ \<Rightarrow> Inl ValueError) = Inr ()" "build_ok build" "above_floor build config" "dig policy = Inr h"
    "project_all plan items = Inr ()" "plan = [(''schema_version'', PInt 1), (''base_version'', base), (''version'', PStr version),
       (''channel'', channel), (''sequence'', sequence), (''tag'', PStr (''v'' @ version)),
       (''source_sha'', sha), (''build_number'', build), (''policy_sha256'', PStr h), (''promotion'', dget config ''promotion'')]"
    by (auto simp: create_plan_def rbind_Inr_iff Let_def)
  moreover from this(3) have "\<exists>s. sha = PStr s \<and> sha_text s" by (cases sha) simp_all
  ultimately show ?thesis by blast
qed

lemma created_plan_checks:
  assumes "create_plan dig base channel sequence sha policy build = Inr plan"
    and "\<forall>h. dig policy = Inr h \<longrightarrow> digest_text h"
  shows "validate_plan dig (PDict plan) (Some policy) (Some sha) = Inr plan \<and> validate_plan dig (PDict plan) None None = Inr plan"
proof -
  from create_planD [OF assms(1)] obtain config items version h s where
    p: "validate_policy policy = Inr (config, items)" "identity base channel sequence = Inr version"
    "sha = PStr s" "sha_text s" "build_ok build" "above_floor build config" "dig policy = Inr h" "project_all plan items = Inr ()"
    and plan: "plan = [(''schema_version'', PInt 1), (''base_version'', base), (''version'', PStr version),
       (''channel'', channel), (''sequence'', sequence), (''tag'', PStr (''v'' @ version)),
       (''source_sha'', sha), (''build_number'', build), (''policy_sha256'', PStr h), (''promotion'', dget config ''promotion'')]"
    by blast
  have k: "set (map fst plan) = set plan_keys" unfolding plan plan_keys_def by simp
  have d: "dget plan ''schema_version'' = PInt 1" "dget plan ''base_version'' = base" "dget plan ''version'' = PStr version"
    "dget plan ''channel'' = channel" "dget plan ''sequence'' = sequence" "dget plan ''tag'' = PStr (''v'' @ version)"
    "dget plan ''source_sha'' = sha" "dget plan ''build_number'' = build" "dget plan ''policy_sha256'' = PStr h"
    "dget plan ''promotion'' = dget config ''promotion''" unfolding plan by simp_all
  have h: "digest_text h" using assms(2) p(7) by blast
  show ?thesis
    unfolding validate_plan_def pyval.case d k p(2) validate_policy_promotion [OF p(1)] p(3)
    using p h by (simp add: guard_def)
qed

text \<open>
  C23: a plan that was created from a policy and a commit validates against that policy and that commit
  and is returned unchanged: what freezes a release and what checks it before every later step agree,
  for every digest function that yields 64 hexadecimal digits.
\<close>

theorem created_plan_validates:
  assumes "create_plan dig base channel sequence sha policy build = Inr plan"
    and "\<forall>h. dig policy = Inr h \<longrightarrow> digest_text h"
  shows "validate_plan dig (PDict plan) (Some policy) (Some sha) = Inr plan \<and> validate_plan dig (PDict plan) None None = Inr plan"
  using assms by (rule created_plan_checks)

section \<open>Identities are unambiguous\<close>

lemma split_char_mem: "x \<in> set s \<Longrightarrow> x = c \<or> (\<exists>p \<in> set (split_char c s). x \<in> set p)"
proof (induction s)
  case (Cons y ys)
  then show ?case by (cases "split_char c ys") auto
qed simp

lemma base_text_chars: "base_text b \<Longrightarrow> x \<in> set b \<Longrightarrow> x = CHR ''.'' \<or> is_digit x"
  using split_char_mem [of x b "CHR ''.''"]
  by (auto simp: base_text_def numeral_text_def isdigit_def list_all_iff split: list.splits)

lemma first_split:
  assumes "a @ x # s = b @ x # t" and "x \<notin> set a" and "x \<notin> set b"
  shows "a = b \<and> s = t"
  using assms
proof (induction a arbitrary: b)
  case (Cons y a)
  then show ?case by (cases b) auto
next
  case Nil
  then show ?case by (cases b) auto
qed

lemma identity_cases:
  assumes "identity base channel sequence = Inr v"
  obtains b where "base = PStr b" "base_text b" "channel = PStr ''stable''" "sequence = PNone" "v = b"
  | b ch where "base = PStr b" "base_text b" "channel = PStr ch" "ch \<in> {''nightly'', ''beta'', ''rc''}"
      "v = b @ CHR ''-'' # ch @ CHR ''.'' # py_str sequence"
      "if ch = ''nightly'' then is_str sequence else \<exists>n. sequence = PInt n \<and> 0 < n"
proof -
  from assms obtain b where b: "base = PStr b" "base_text b"
    by (cases base) (auto simp: identity_def rbind_Inr_iff)
  from assms b obtain ch where ch: "channel = PStr ch" "ch \<in> set channels"
    by (auto simp: identity_def rbind_Inr_iff require_in_Inr)
  show ?thesis
  proof (cases "ch = ''stable''")
    case True
    with assms b ch have "sequence = PNone" "v = b"
      by (auto simp: identity_def rbind_Inr_iff text_val_def)
    with that(1) b ch True show ?thesis by blast
  next
    case False
    with ch have c: "ch \<in> {''nightly'', ''beta'', ''rc''}" by (auto simp: channels_def)
    from assms b ch False have v: "v = b @ CHR ''-'' # ch @ CHR ''.'' # py_str sequence"
      by (auto simp: identity_def rbind_Inr_iff text_val_def)
    have "if ch = ''nightly'' then is_str sequence else \<exists>n. sequence = PInt n \<and> 0 < n"
      using assms b ch False
      by (cases sequence) (auto simp: identity_def rbind_Inr_iff text_val_def split: if_splits)
    with that(2) b ch(1) c v show ?thesis by blast
  qed
qed

lemma show_int_inj: "show_int m = show_int n \<Longrightarrow> m = n"
  by (drule arg_cong [where f = parse_int]) (simp add: parse_int_show_int)

lemma channel_chars: "ch \<in> {''nightly'', ''beta'', ''rc''} \<Longrightarrow> CHR ''.'' \<notin> set ch"
  by (elim insertE) simp_all

lemma sequence_text_inj:
  assumes "if nightly then is_str q else \<exists>n. q = PInt n \<and> 0 < n"
    and "if nightly then is_str q' else \<exists>n. q' = PInt n \<and> 0 < n" and "py_str q = py_str q'"
  shows "q = q'"
proof (cases nightly)
  case True
  with assms obtain s s' where "q = PStr s" "q' = PStr s'" by (cases q; cases q'; simp)
  with assms(3) show ?thesis by simp
next
  case False
  with assms obtain m n where "q = PInt m" "q' = PInt n" by auto
  with assms(3) show ?thesis by (simp add: show_int_inj)
qed

text \<open>
  two releases with the same version text (and so the same tag) are the same release: base version,
  channel and sequence can be read back from it, so no two reservations with different identities
  can meet in one tag.
\<close>

theorem identity_unambiguous:
  assumes "identity base channel sequence = Inr v" and "identity base' channel' sequence' = Inr v"
  shows "base = base' \<and> channel = channel' \<and> sequence = sequence'"
proof -
  have dash: "CHR ''-'' \<notin> set b" if "base_text b" for b
  proof
    assume "CHR ''-'' \<in> set b"
    from base_text_chars [OF that this] show False by (auto simp: is_digit_def code_def)
  qed
  have two: "b = b' \<and> ch = ch' \<and> q = q'"
    if "base_text b" "base_text b'" "b @ CHR ''-'' # ch @ CHR ''.'' # py_str q = b' @ CHR ''-'' # ch' @ CHR ''.'' # py_str q'"
      "ch \<in> {''nightly'', ''beta'', ''rc''}" "ch' \<in> {''nightly'', ''beta'', ''rc''}"
      "if ch = ''nightly'' then is_str q else \<exists>n. q = PInt n \<and> 0 < n"
      "if ch' = ''nightly'' then is_str q' else \<exists>n. q' = PInt n \<and> 0 < n" for b b' ch ch' q q'
  proof -
    from first_split [OF that(3) dash [OF that(1)] dash [OF that(2)]]
    have b: "b = b'" "ch @ CHR ''.'' # py_str q = ch' @ CHR ''.'' # py_str q'" by blast+
    from first_split [OF b(2) channel_chars [OF that(4)] channel_chars [OF that(5)]]
    have c: "ch = ch'" "py_str q = py_str q'" by blast+
    have "q = q'" using that(6,7) c(2) unfolding c(1) by (rule sequence_text_inj)
    with b c show ?thesis by blast
  qed
  have mixed: False
    if "base_text b" "b = b' @ CHR ''-'' # w" for b b' w
    using dash [OF that(1)] by (simp add: that(2))
  show ?thesis
  proof (rule identity_cases [OF assms(1)])
    fix b
    assume l: "base = PStr b" "base_text b" "channel = PStr ''stable''" "sequence = PNone" "v = b"
    show ?thesis
    proof (rule identity_cases [OF assms(2)])
      fix b'
      assume "base' = PStr b'" "channel' = PStr ''stable''" "sequence' = PNone" "v = b'"
      with l show ?thesis by simp
    next
      fix b' ch'
      assume "v = b' @ CHR ''-'' # ch' @ CHR ''.'' # py_str sequence'"
      with mixed l(2,5) show ?thesis by blast
    qed
  next
    fix b ch
    assume l: "base = PStr b" "base_text b" "channel = PStr ch" "ch \<in> {''nightly'', ''beta'', ''rc''}"
      "v = b @ CHR ''-'' # ch @ CHR ''.'' # py_str sequence" "if ch = ''nightly'' then is_str sequence else \<exists>n. sequence = PInt n \<and> 0 < n"
    show ?thesis
    proof (rule identity_cases [OF assms(2)])
      fix b'
      assume "base_text b'" "v = b'"
      with mixed l(5) show ?thesis by blast
    next
      fix b' ch'
      assume r: "base' = PStr b'" "base_text b'" "channel' = PStr ch'" "ch' \<in> {''nightly'', ''beta'', ''rc''}"
        "v = b' @ CHR ''-'' # ch' @ CHR ''.'' # py_str sequence'" "if ch' = ''nightly'' then is_str sequence' else \<exists>n. sequence' = PInt n \<and> 0 < n"
      have "b @ CHR ''-'' # ch @ CHR ''.'' # py_str sequence = b' @ CHR ''-'' # ch' @ CHR ''.'' # py_str sequence'"
        using l(5) r(5) by simp
      from two [OF l(2) r(2) this l(4) r(4) l(6) r(6)] l r show ?thesis by simp
    qed
  qed
qed

theorem identity_unambiguous_witness:
  "identity (PStr ''1.4.0'') (PStr ''rc'') (PInt 12) = Inr ''1.4.0-rc.12'' \<and>
   \<not> (\<exists>b c s. (b, c, s) \<noteq> (PStr ''1.4.0'', PStr ''rc'', PInt 12) \<and> identity b c s = Inr ''1.4.0-rc.12'')"
proof -
  have i: "identity (PStr ''1.4.0'') (PStr ''rc'') (PInt 12) = Inr ''1.4.0-rc.12''" by code_simp
  show ?thesis using i identity_unambiguous [OF _ i] by blast
qed

section \<open>Projected numbers keep the order\<close>

lemma apple_triple_digits:
  assumes "apple_triple b = (x, y, z)"
  shows "b = (x - 1) * 10000 + y * 100 + z + 1 \<and> 0 \<le> y \<and> y \<le> 99 \<and> 0 \<le> z \<and> z \<le> 99"
proof -
  have x: "x = (b - 1) div 10000 + 1" "y = (b - 1) div 100 mod 100" "z = (b - 1) mod 100"
    using assms by (simp_all add: apple_triple_def Let_def)
  have "(b - 1) div (100 * 100) = (b - 1) div 100 div 100" by (rule zdiv_zmult2_eq) simp
  then have p: "x - 1 = (b - 1) div 100 div 100" by (simp add: x)
  have "b - 1 = (b - 1) div 100 * 100 + z" unfolding x by simp
  moreover have "(b - 1) div 100 = (x - 1) * 100 + y" unfolding p unfolding x by simp
  ultimately have "b = (x - 1) * 10000 + y * 100 + z + 1" by linarith
  moreover have "0 \<le> y" "y \<le> 99" "0 \<le> z" "z \<le> 99"
    unfolding x using pos_mod_bound [of 100 "(b - 1) div 100"] pos_mod_bound [of 100 "b - 1"] by simp_all
  ultimately show ?thesis by blast
qed

lemma digits_nonneg: "list_all is_digit w \<Longrightarrow> 0 \<le> int_of_digits w"
proof (induction w rule: rev_induct)
  case Nil
  then show ?case by (simp add: int_of_digits_def)
next
  case (snoc c w)
  then have "0 \<le> int_of_digits w" "0 \<le> digit_val c" by (simp_all add: digit_val_def is_digit_def)
  then show ?case unfolding int_of_digits_snoc by simp
qed

lemma nightly_number_parts:
  assumes "nightly_number s = Inr n" and "split_char (CHR ''.'') s = [t, r, a]"
  shows "n = int_of_digits r * 1000000 + int_of_digits a \<and> int_of_digits a < 1000000 \<and> n \<le> 2 ^ 64 - 2"
  using assms by (auto simp: nightly_number_def Let_def split: if_splits)

text \<open>
  the two numeric projections neither collide nor reorder releases. A native build number up to its
  limit becomes a triple with components below 10000, 100 and 100 that gives the number back and grows
  lexicographically with it; a nightly's run and attempt become one number within 64 bits that gives
  both back.
\<close>

theorem numeric_projections_faithful:
  assumes "0 < b" and "b \<le> 99990000" and "apple_triple b = (x, y, z)"
    and "nightly_number s = Inr n" and "split_char (CHR ''.'') s = [t, r, a]" and "list_all is_digit (r @ a)"
  shows "b = (x - 1) * 10000 + y * 100 + z + 1 \<and> 1 \<le> x \<and> x \<le> 9999 \<and> 0 \<le> y \<and> y \<le> 99 \<and> 0 \<le> z \<and> z \<le> 99 \<and>
    (\<forall>b' x' y' z'. b < b' \<longrightarrow> apple_triple b' = (x', y', z') \<longrightarrow> x < x' \<or> x = x' \<and> (y < y' \<or> y = y' \<and> z < z')) \<and>
    0 \<le> n \<and> n < 2 ^ 64 \<and> n div 1000000 = int_of_digits r \<and> n mod 1000000 = int_of_digits a"
proof -
  have x: "x = (b - 1) div 10000 + 1" "y = (b - 1) div 100 mod 100" "z = (b - 1) mod 100"
    using assms(3) by (simp_all add: apple_triple_def Let_def)
  have eq: "b = (x - 1) * 10000 + y * 100 + z + 1" and r: "0 \<le> y" "y \<le> 99" "0 \<le> z" "z \<le> 99"
    using apple_triple_digits [OF assms(3)] by blast+
  have ord: "x < x' \<or> x = x' \<and> (y < y' \<or> y = y' \<and> z < z')"
    if "b < b'" "apple_triple b' = (x', y', z')" for b' x' y' z'
  proof -
    have "b' = (x' - 1) * 10000 + y' * 100 + z' + 1" "0 \<le> y'" "y' \<le> 99" "0 \<le> z'" "z' \<le> 99"
      using apple_triple_digits [OF that(2)] by blast+
    note e = this eq r that(1)
    consider "x < x'" | "x' < x" | "x = x'" "y < y'" | "x = x'" "y' < y" | "x = x'" "y = y'" by linarith
    then show ?thesis
    proof cases
      case 2
      then have False using e unfolding left_diff_distrib by linarith
      then show ?thesis ..
    next
      case 4
      then have False using e unfolding left_diff_distrib by linarith
      then show ?thesis ..
    next
      case 5
      then have "z < z'" using e unfolding left_diff_distrib by linarith
      with 5 show ?thesis by simp
    qed simp_all
  qed
  have n: "n = int_of_digits r * 1000000 + int_of_digits a" "int_of_digits a < 1000000" "n \<le> 2 ^ 64 - 2"
    using nightly_number_parts [OF assms(4,5)] by blast+
  have p: "0 \<le> int_of_digits r" "0 \<le> int_of_digits a" using digits_nonneg assms(6) by simp_all
  have "0 \<le> n" "n div 1000000 = int_of_digits r" "n mod 1000000 = int_of_digits a"
    unfolding n(1) using p n(2) by simp_all
  moreover have "n < 2 ^ 64" using n(3) by linarith
  moreover have "0 \<le> (b - 1) div 10000" using assms(1) by (simp add: pos_imp_zdiv_nonneg_iff)
  then have "1 \<le> x" unfolding x by simp
  moreover have "x \<le> 9999" using assms(2) eq r unfolding left_diff_distrib by linarith
  ultimately show ?thesis using eq ord r by blast
qed

theorem numeric_projections_faithful_witness:
  "apple_triple 99990000 = (9999, 99, 99) \<and> nightly_number ''20260102030405.17.2'' = Inr 17000002 \<and>
   (17000002 :: int) div 1000000 = int_of_digits ''17'' \<and> 99990000 = (9999 - 1) * 10000 + 99 * 100 + (99 :: int) + 1"
proof -
  have a: "apple_triple 99990000 = (9999, 99, 99)" "nightly_number ''20260102030405.17.2'' = Inr 17000002"
    "split_char (CHR ''.'') ''20260102030405.17.2'' = [''20260102030405'', ''17'', ''2'']" "list_all is_digit (''17'' @ ''2'')"
    by code_simp+
  show ?thesis using numeric_projections_faithful [OF _ _ a] a(1,2) by simp
qed

definition demo_policy :: pyval where
  "demo_policy = PDict [(''versioning'', PDict [(''schema'', PInt 1), (''promotion'', PStr ''final-build''),
     (''files'', PList [PDict [(''path'', PStr ''pyproject.toml''), (''format'', PStr ''toml''), (''field'', PStr ''project.version''),
       (''ecosystem'', PStr ''pep440'')]])])]"

definition demo_digest :: "pyval \<Rightarrow> string res" where
  "demo_digest v = Inr (replicate 64 (CHR ''a''))"

definition demo_sha :: string where
  "demo_sha = replicate 40 (CHR ''0'')"

theorem created_plan_validates_witness:
  "\<exists>plan. create_plan demo_digest (PStr ''1.4.0'') (PStr ''nightly'') (PStr ''20260102030405.17.2'') (PStr demo_sha) demo_policy (PInt 41) = Inr plan \<and>
     validate_plan demo_digest (PDict plan) (Some demo_policy) (Some (PStr demo_sha)) = Inr plan \<and>
     dget plan ''tag'' = PStr ''v1.4.0-nightly.20260102030405.17.2''"
proof -
  have "case create_plan demo_digest (PStr ''1.4.0'') (PStr ''nightly'') (PStr ''20260102030405.17.2'') (PStr demo_sha) demo_policy (PInt 41) of
      Inl _ \<Rightarrow> False | Inr plan \<Rightarrow> dget plan ''tag'' = PStr ''v1.4.0-nightly.20260102030405.17.2''" by code_simp
  then obtain plan where p: "create_plan demo_digest (PStr ''1.4.0'') (PStr ''nightly'') (PStr ''20260102030405.17.2'') (PStr demo_sha) demo_policy (PInt 41) = Inr plan"
    "dget plan ''tag'' = PStr ''v1.4.0-nightly.20260102030405.17.2''" by (auto split: sum.splits)
  have "digest_text (replicate 64 (CHR ''a''))" by code_simp
  then have "\<forall>h. demo_digest demo_policy = Inr h \<longrightarrow> digest_text h" by (simp add: demo_digest_def)
  from created_plan_validates [OF p(1) this] p show ?thesis by blast
qed

end
