(* ===== verification/Change_Scope.thy ===== *)
theory Change_Scope
  imports Version_Plan
begin

text \<open>
  \<^verbatim>\<open>scripts/change_scope.py\<close>: whether a change needs the full pipeline. Only a complete Git diff of
  ordinary documentation files skips it; whatever is unknown or fails runs it. Git's answers, the decoding
  of UTF-8 and the JSON parser are inputs; \<^verbatim>\<open>SubprocessError\<close> is \<open>OtherError\<close>. Paths are lower-cased as ASCII.
\<close>

section \<open>Paths\<close>

definition DOCUMENT_NAMES :: "string list" where
  "DOCUMENT_NAMES = [''readme'', ''changelog'', ''contributing'', ''security'', ''releasing'', ''code_of_conduct'']"

definition PROTECTED_PARTS :: "string list" where
  "PROTECTED_PARTS =
     [''src'', ''source'', ''sources'', ''test'', ''tests'', ''testdata'', ''fixtures'', ''__tests__'', ''snapshots'',
      ''resources'', ''assets'', ''templates'', ''scripts'', ''script'', ''tools'', ''ci'', ''workflows'', ''actions'',
      ''hooks'', ''bin'', ''lib'', ''app'', ''apps'', ''build'', ''dist'', ''target'', ''config'', ''configs'',
      ''configuration'', ''dependencies'', ''deps'', ''packages'', ''package'', ''packaging'', ''node_modules'',
      ''gradle'', ''cmake'', ''docker'', ''deploy'', ''deployment'', ''migrations'', ''charts'', ''helm'', ''k8s'',
      ''vendor-bin'']"

definition MAX_DIFF_BYTES :: int where
  "MAX_DIFF_BYTES = 8 * 1024 * 1024"

type_synonym decision = "bool \<times> string"

fun join_char :: "char \<Rightarrow> string list \<Rightarrow> string" where
  "join_char c [] = []"
| "join_char c [p] = p"
| "join_char c (p # q # ps) = p @ c # join_char c (q # ps)"

text \<open>
  \<^verbatim>\<open>PurePosixPath\<close> of a relative path: its parts without empty ones and single dots, its text, and the stem
  and suffix of its last part.
\<close>

definition path_parts :: "string \<Rightarrow> string list" where
  "path_parts s = filter (\<lambda>p. p \<noteq> [] \<and> p \<noteq> ''.'') (split_char (CHR ''/'') s)"

definition path_text :: "string \<Rightarrow> string" where
  "path_text s = (if path_parts s = [] then ''.'' else join_char (CHR ''/'') (path_parts s))"

definition path_name :: "string \<Rightarrow> string" where
  "path_name s = (if path_parts s = [] then [] else List.last (path_parts s))"

text \<open>A name split at its last dot, when something stands on both sides of it.\<close>

definition split_suffix :: "string \<Rightarrow> string \<times> string" where
  "split_suffix n =
     (let r = rev n; after = takeWhile (\<lambda>c. c \<noteq> CHR ''.'') r; before = drop (length after + 1) r
      in if length after < length n \<and> after \<noteq> [] \<and> before \<noteq> [] then (rev before, CHR ''.'' # rev after) else (n, []))"

definition literal_path :: "pyval \<Rightarrow> bool" where
  "literal_path v =
     (case v of
        PStr s \<Rightarrow>
          s \<noteq> [] \<and> CHR 0x5C \<notin> set s \<and> CHR 0x00 \<notin> set s \<and> hd s \<noteq> CHR ''/'' \<and> path_text s = s \<and>
          path_parts s \<noteq> [] \<and> ''..'' \<notin> set (path_parts s) \<and>
          list_all (\<lambda>c. c \<notin> {CHR ''*'', CHR ''?'', CHR ''[''}) s
      | _ \<Rightarrow> False)"

definition document_name :: "pyval \<Rightarrow> bool" where
  "document_name v = (literal_path v \<and> lower (snd (split_suffix (path_name (text_val v)))) \<in> {''.md'', ''.rst''})"

definition documentation_path :: "string \<Rightarrow> string list \<Rightarrow> bool" where
  "documentation_path path explicit =
     (document_name (PStr path) \<and>
      (let parts = map lower (path_parts path)
       in \<not> list_ex (\<lambda>p. startswith p ''.'' \<or> p \<in> set PROTECTED_PARTS) (butlast parts) \<and>
          \<not> startswith (List.last parts) ''.'' \<and>
          (path \<in> set explicit \<or>
           length parts = 1 \<and> lower (fst (split_suffix (path_name path))) \<in> set DOCUMENT_NAMES \<or>
           1 < length parts \<and> hd parts = ''docs'')))"

section \<open>The event\<close>

definition revision :: "pyval \<Rightarrow> string res" where
  "revision v =
     (case v of PStr s \<Rightarrow> if sha_text s \<and> s \<noteq> replicate 40 (CHR ''0'') then Inr s else Inl ValueError | _ \<Rightarrow> Inl ValueError)"

definition event_values :: "string \<Rightarrow> pyval \<Rightarrow> (pyval \<times> pyval \<times> string) res" where
  "event_values name event =
     (if \<not> is_dict event then Inl TypeError
      else if name = ''pull_request''
      then rbind (vitem event ''pull_request'') (\<lambda>pull.
           rbind (rbind (vitem pull ''base'') (\<lambda>b. vitem b ''sha'')) (\<lambda>base.
           rbind (rbind (vitem pull ''head'') (\<lambda>h. vitem h ''sha'')) (\<lambda>head. Inr (base, head, ''...''))))
      else if name = ''merge_group''
      then rbind (vitem event ''merge_group'') (\<lambda>g.
           rbind (vitem g ''base_sha'') (\<lambda>base. rbind (vitem g ''head_sha'') (\<lambda>head. Inr (base, head, ''..''))))
      else rbind (vitem event ''before'') (\<lambda>base. rbind (vitem event ''after'') (\<lambda>head. Inr (base, head, ''..''))))"

definition event_revisions :: "string \<Rightarrow> pyval \<Rightarrow> (string \<times> string \<times> string) res" where
  "event_revisions name event =
     rbind (event_values name event) (\<lambda>(base, head, separator).
     rbind (revision base) (\<lambda>b. rbind (revision head) (\<lambda>h. Inr (b, h, separator))))"

section \<open>The diff\<close>

definition byte_space :: "char \<Rightarrow> bool" where
  "byte_space c = (c \<in> {CHR 0x20, CHR 0x09, CHR 0x0A, CHR 0x0D, CHR 0x0B, CHR 0x0C})"

text \<open>\<^verbatim>\<open>bytes.split()\<close> and \<^verbatim>\<open>bytes.strip()\<close>.\<close>

fun split_space :: "string \<Rightarrow> string \<Rightarrow> string list" where
  "split_space w [] = (if w = [] then [] else [rev w])"
| "split_space w (c # cs) =
     (if byte_space c then (if w = [] then split_space [] cs else rev w # split_space [] cs) else split_space (c # w) cs)"

definition strip_bytes :: "string \<Rightarrow> string" where
  "strip_bytes s = rev (dropWhile byte_space (rev (dropWhile byte_space s)))"

text \<open>The modes a regular file has before and after an addition, a deletion and a modification.\<close>

definition expected_modes :: "string \<Rightarrow> (string \<times> string) option" where
  "expected_modes status =
     map_of [(''A'', ''000000'', ''100644''), (''D'', ''100644'', ''000000''), (''M'', ''100644'', ''100644'')] status"

definition ascii_revision :: "string \<Rightarrow> bool res" where
  "ascii_revision s = (if isascii s then Inr (sha_text s) else Inl ValueError)"

definition classify_record ::
  "(string \<Rightarrow> string res) \<Rightarrow> string list \<Rightarrow> string list \<Rightarrow> string \<Rightarrow> string \<Rightarrow> decision option res" where
  "classify_record utf8 explicit required header raw_path =
     (case split_space [] header of
        [before, after, old_hash, new_hash, status] \<Rightarrow>
          if \<not> startswith before '':'' then Inr (Some (True, ''invalid-diff''))
          else rbind (rbind (ascii_revision old_hash) (\<lambda>a. if a then ascii_revision new_hash else Inr False)) (\<lambda>hashes.
            if \<not> hashes then Inr (Some (True, ''invalid-diff''))
            else if expected_modes status \<noteq> Some (tl before, after) then Inr (Some (True, ''non-regular-or-mode-change''))
            else rbind (utf8 raw_path) (\<lambda>path.
              if path \<in> set required then Inr (Some (True, ''required-path-change''))
              else if \<not> documentation_path path explicit then Inr (Some (True, ''non-documentation-change''))
              else Inr None))
      | _ \<Rightarrow> Inr (Some (True, ''invalid-diff'')))"

fun classify_records ::
  "(string \<Rightarrow> string res) \<Rightarrow> string list \<Rightarrow> string list \<Rightarrow> string list \<Rightarrow> decision res" where
  "classify_records utf8 explicit required (header # path # rest) =
     rbind (classify_record utf8 explicit required header path) (\<lambda>r.
       case r of Some d \<Rightarrow> Inr d | None \<Rightarrow> classify_records utf8 explicit required rest)"
| "classify_records utf8 explicit required _ = Inr (False, ''documentation-only'')"

definition classify_diff ::
  "(string \<Rightarrow> string res) \<Rightarrow> string list \<Rightarrow> string list \<Rightarrow> string \<Rightarrow> decision res" where
  "classify_diff utf8 explicit required raw =
     (if raw = [] then Inr (True, ''empty-diff'')
      else if MAX_DIFF_BYTES < int (length raw) \<or> List.last raw \<noteq> CHR 0x00 then Inr (True, ''invalid-diff'')
      else let records = split_char (CHR 0x00) (butlast raw)
           in if odd (length records) then Inr (True, ''invalid-diff'')
              else classify_records utf8 explicit required records)"

section \<open>The decision\<close>

text \<open>The answers of the three read operations of Git, and the check of the range they are asked for.\<close>

record git_reader =
  gr_shallow :: "string res"
  gr_type :: "string \<Rightarrow> string res"
  gr_diff :: "string \<Rightarrow> string res"

definition git_type :: "git_reader \<Rightarrow> string \<Rightarrow> string res" where
  "git_type g r = (if sha_text r then gr_type g r else Inl ValueError)"

definition git_range :: "string \<Rightarrow> bool" where
  "git_range r =
     (sha_text (take 40 r) \<and> (let rest = drop 40 r; dots = takeWhile (\<lambda>c. c = CHR ''.'') rest
       in (length dots = 2 \<or> length dots = 3) \<and> sha_text (drop (length dots) rest)))"

definition git_diff :: "git_reader \<Rightarrow> string \<Rightarrow> string res" where
  "git_diff g r = (if git_range r then gr_diff g r else Inl ValueError)"

fun check_types :: "git_reader \<Rightarrow> string list \<Rightarrow> bool res" where
  "check_types g [] = Inr True"
| "check_types g (r # rs) =
     rbind (git_type g r) (\<lambda>t. if strip_bytes t \<noteq> ''commit'' then Inr False else check_types g rs)"

definition all_paths :: "(pyval \<Rightarrow> bool) \<Rightarrow> pyval \<Rightarrow> bool" where
  "all_paths P v = (case v of PList xs \<Rightarrow> list_all P xs | _ \<Rightarrow> False)"

definition path_list :: "pyval \<Rightarrow> string list" where
  "path_list v = (case v of PList xs \<Rightarrow> map text_val xs | _ \<Rightarrow> [])"

definition classify_range ::
  "(string \<Rightarrow> string res) \<Rightarrow> git_reader \<Rightarrow> string list \<Rightarrow> string list \<Rightarrow> string \<times> string \<times> string \<Rightarrow> decision res" where
  "classify_range utf8 g explicit required = (\<lambda>(base, head, separator).
     rbind (gr_shallow g) (\<lambda>s.
       if strip_bytes s \<noteq> ''false'' then Inr (True, ''incomplete-history'')
       else rbind (check_types g [base, head]) (\<lambda>ok.
         if \<not> ok then Inr (True, ''invalid-revisions'')
         else rbind (git_diff g (base @ separator @ head)) (classify_diff utf8 explicit required))))"

definition classify ::
  "(string \<Rightarrow> string res) \<Rightarrow> git_reader \<Rightarrow> string \<Rightarrow> pyval \<Rightarrow> pyval \<Rightarrow> pyval \<Rightarrow> bool \<Rightarrow> decision res" where
  "classify utf8 g event_name event documentation_paths required_paths force =
     (if force then Inr (True, ''forced'')
      else if event_name \<notin> {''pull_request'', ''merge_group'', ''push''} then Inr (True, ''unsupported-event'')
      else if \<not> all_paths document_name documentation_paths then Inr (True, ''invalid-documentation-paths'')
      else if \<not> all_paths literal_path required_paths then Inr (True, ''invalid-required-paths'')
      else case event_revisions event_name event of
        Inl e \<Rightarrow> if e \<in> {KeyError, TypeError, ValueError} then Inr (True, ''invalid-revisions'') else Inl e
      | Inr r \<Rightarrow>
          rcatch (classify_range utf8 g (path_list documentation_paths) (path_list required_paths) r)
            [OSError, ValueError, OtherError] (Inr (True, ''git-error'')))"

section \<open>The command line\<close>

record scope_arguments =
  sa_event_name :: string
  sa_documentation :: "pyval list"
  sa_documentation_json :: string
  sa_required :: "pyval list"
  sa_required_json :: string
  sa_force :: bool

definition json_paths :: "(string \<Rightarrow> pyval res) \<Rightarrow> string \<Rightarrow> pyval list \<Rightarrow> pyval res" where
  "json_paths parse text repeated =
     rbind (parse text) (\<lambda>v. case v of PList xs \<Rightarrow> Inr (PList (repeated @ xs)) | _ \<Rightarrow> Inl TypeError)"

definition from_arguments ::
  "(string \<Rightarrow> string res) \<Rightarrow> (string \<Rightarrow> pyval res) \<Rightarrow> git_reader \<Rightarrow> pyval res \<Rightarrow> scope_arguments \<Rightarrow> decision res" where
  "from_arguments utf8 parse g event a =
     (if sa_force a \<or> sa_event_name a \<notin> {''pull_request'', ''merge_group'', ''push''}
      then classify utf8 g (sa_event_name a) PNone (PList []) (PList []) (sa_force a)
      else case json_paths parse (sa_documentation_json a) (sa_documentation a) of
        Inl e \<Rightarrow> if e \<in> {TypeError, ValueError} then Inr (True, ''invalid-documentation-paths'') else Inl e
      | Inr docs \<Rightarrow>
          (case json_paths parse (sa_required_json a) (sa_required a) of
             Inl e \<Rightarrow> if e \<in> {TypeError, ValueError} then Inr (True, ''invalid-required-paths'') else Inl e
           | Inr required \<Rightarrow>
               (case event of
                  Inl e \<Rightarrow> if e \<in> {OSError, ValueError} then Inr (True, ''invalid-event-file'') else Inl e
                | Inr ev \<Rightarrow> classify utf8 g (sa_event_name a) ev docs required False)))"

text \<open>The two lines appended to the outputs of the job.\<close>

definition output_lines :: "decision \<Rightarrow> string" where
  "output_lines = (\<lambda>(run, reason).
     ''run='' @ (if run then ''true'' else ''false'') @ CHR 0x0A # ''reason='' @ reason @ [CHR 0x0A])"

section \<open>Only documentation skips the pipeline\<close>

text \<open>What a skipped change is made of: one regular document added, deleted or modified.\<close>

definition plain_change :: "(string \<Rightarrow> string res) \<Rightarrow> string list \<Rightarrow> string list \<Rightarrow> string \<Rightarrow> string \<Rightarrow> bool" where
  "plain_change utf8 explicit required header raw_path =
     (\<exists>old new old_hash new_hash status path.
        split_space [] header = [CHR '':'' # old, new, old_hash, new_hash, status] \<and>
        isascii old_hash \<and> sha_text old_hash \<and> isascii new_hash \<and> sha_text new_hash \<and>
        (status, old, new) \<in> {(''A'', ''000000'', ''100644''), (''D'', ''100644'', ''000000''), (''M'', ''100644'', ''100644'')} \<and>
        utf8 raw_path = Inr path \<and> path \<notin> set required \<and> documentation_path path explicit)"

definition record_text :: "string \<times> string \<Rightarrow> string" where
  "record_text = (\<lambda>(header, path). header @ CHR 0x00 # path @ [CHR 0x00])"

lemma startswith_Cons: "startswith s [c] \<longleftrightarrow> (\<exists>r. s = c # r)"
  by (cases s) (auto simp: startswith_def)

lemma expected_modes_Some:
  "expected_modes status = Some (old, new) \<longleftrightarrow>
    (status, old, new) \<in> {(''A'', ''000000'', ''100644''), (''D'', ''100644'', ''000000''), (''M'', ''100644'', ''100644'')}"
  by (auto simp: expected_modes_def)

lemma ascii_revision_True: "ascii_revision s = Inr True \<longleftrightarrow> isascii s \<and> sha_text s"
  by (simp add: ascii_revision_def)

lemma classify_record_None:
  "classify_record utf8 explicit required header path = Inr None \<longleftrightarrow> plain_change utf8 explicit required header path"
proof (cases "\<exists>before after old_hash new_hash status. split_space [] header = [before, after, old_hash, new_hash, status]")
  case True
  then obtain b a oh nh st where f: "split_space [] header = [b, a, oh, nh, st]" by blast
  show ?thesis
  proof (cases "startswith b '':'' \<and> ascii_revision oh = Inr True \<and> ascii_revision nh = Inr True")
    case False
    then show ?thesis
      by (auto simp: classify_record_def plain_change_def f rbind_Inr_iff ascii_revision_True startswith_Cons)
  next
    case t: True
    then obtain old where b: "b = CHR '':'' # old" by (auto simp: startswith_Cons)
    have r: "ascii_revision oh = Inr True" "ascii_revision nh = Inr True" "isascii oh \<and> sha_text oh \<and> isascii nh \<and> sha_text nh"
      using t by (simp_all add: ascii_revision_True)
    have c: "classify_record utf8 explicit required header path = Inr None \<longleftrightarrow>
        expected_modes st = Some (old, a) \<and> (\<exists>q. utf8 path = Inr q \<and> q \<notin> set required \<and> documentation_path q explicit)"
      by (cases "utf8 path") (simp_all add: classify_record_def f b r startswith_Cons)
    show ?thesis unfolding c expected_modes_Some plain_change_def f b using r by auto
  qed
next
  case False
  then show ?thesis by (auto simp: classify_record_def plain_change_def split: list.splits)
qed

lemma classify_record_run: "classify_record utf8 explicit required header path = Inr (Some d) \<Longrightarrow> fst d"
  by (auto simp: classify_record_def rbind_Inr_iff split: list.split_asm if_split_asm)

fun pairs :: "'a list \<Rightarrow> ('a \<times> 'a) list" where
  "pairs (x # y # r) = (x, y) # pairs r"
| "pairs _ = []"

lemma classify_records_skip:
  "even (length rs) \<Longrightarrow> (\<exists>reason. classify_records utf8 explicit required rs = Inr (False, reason)) \<longleftrightarrow>
    (\<forall>(h, p)\<in>set (pairs rs). plain_change utf8 explicit required h p)"
proof (induction rs rule: pairs.induct)
  case (1 h p r)
  show ?case
  proof (cases "classify_record utf8 explicit required h p")
    case (Inl e)
    then have "\<not> plain_change utf8 explicit required h p" unfolding classify_record_None [symmetric] by simp
    then show ?thesis by (simp add: Inl)
  next
    case (Inr o')
    show ?thesis
    proof (cases o')
      case None
      with Inr have "plain_change utf8 explicit required h p" unfolding classify_record_None [symmetric] by simp
      with 1 show ?thesis by (simp add: Inr None)
    next
      case (Some d)
      with Inr have "\<not> plain_change utf8 explicit required h p" unfolding classify_record_None [symmetric] by simp
      moreover have "fst d" using classify_record_run Inr Some by blast
      ultimately show ?thesis by (cases d) (simp add: Inr Some)
    qed
  qed
qed simp_all

lemma join_split: "join_char c (split_char c s) = s"
proof (induction s)
  case (Cons x xs)
  obtain p ps where p: "split_char c xs = p # ps" using split_char_nonempty by (cases "split_char c xs") auto
  with Cons show ?case by (cases ps) auto
qed simp

lemma split_free: "p \<in> set (split_char c s) \<Longrightarrow> c \<notin> set p"
proof (induction s arbitrary: p)
  case (Cons x xs)
  obtain q qs where q: "split_char c xs = q # qs" using split_char_nonempty by (cases "split_char c xs") auto
  with Cons show ?case by (auto split: if_splits)
qed simp

lemma split_free_text: "c \<notin> set p \<Longrightarrow> split_char c p = [p]"
  by (induction p) auto

lemma split_append: "c \<notin> set p \<Longrightarrow> split_char c (p @ c # s) = p # split_char c s"
  by (induction p) auto

lemma split_join: "ps \<noteq> [] \<Longrightarrow> \<forall>p\<in>set ps. c \<notin> set p \<Longrightarrow> split_char c (join_char c ps) = ps"
  by (induction c ps rule: join_char.induct) (simp_all add: split_free_text split_append)

definition flat_pairs :: "('a \<times> 'a) list \<Rightarrow> 'a list" where
  "flat_pairs ps = concat (map (\<lambda>(x, y). [x, y]) ps)"

lemma flat_pairs_simps [simp]: "flat_pairs [] = []" "flat_pairs ((x, y) # ps) = x # y # flat_pairs ps"
  by (simp_all add: flat_pairs_def)

lemma pairs_flat: "pairs (flat_pairs ps) = ps" "even (length (flat_pairs ps))"
  by (induction ps) auto

lemma flat_pairs_pairs: "even (length rs) \<Longrightarrow> flat_pairs (pairs rs) = rs"
  by (induction rs rule: pairs.induct) simp_all

lemma records_text: "ps \<noteq> [] \<Longrightarrow> join_char (CHR 0x00) (flat_pairs ps) @ [CHR 0x00] = concat (map record_text ps)"
proof (induction ps)
  case (Cons q ps)
  obtain h p where q: "q = (h, p)" by (cases q)
  show ?case
  proof (cases ps)
    case Nil
    then show ?thesis by (simp add: q record_text_def)
  next
    case c: (Cons r rs)
    obtain h' p' where r: "r = (h', p')" by (cases r)
    have "join_char (CHR 0x00) (flat_pairs (q # ps)) = h @ CHR 0x00 # p @ CHR 0x00 # join_char (CHR 0x00) (flat_pairs ps)"
      by (simp add: q c r)
    with Cons(1) c show ?thesis by (simp add: q record_text_def)
  qed
qed simp

lemma classify_diff_skip:
  "(\<exists>reason. classify_diff utf8 explicit required raw = Inr (False, reason)) \<longleftrightarrow>
    int (length raw) \<le> MAX_DIFF_BYTES \<and>
    (\<exists>records. records \<noteq> [] \<and> raw = concat (map record_text records) \<and>
       (\<forall>(h, p)\<in>set records. CHR 0x00 \<notin> set h \<and> CHR 0x00 \<notin> set p \<and> plain_change utf8 explicit required h p))"
  (is "?L \<longleftrightarrow> ?R")
proof
  assume ?L
  let ?rs = "split_char (CHR 0x00) (butlast raw)"
  from \<open>?L\<close> have raw: "raw \<noteq> []" "int (length raw) \<le> MAX_DIFF_BYTES" "List.last raw = CHR 0x00" and e: "even (length ?rs)"
    and s: "\<exists>reason. classify_records utf8 explicit required ?rs = Inr (False, reason)"
    by (auto simp: classify_diff_def Let_def split: if_splits)
  have p: "pairs ?rs \<noteq> []" using e split_char_nonempty [of "CHR 0x00" "butlast raw"] by (cases ?rs rule: pairs.cases) auto
  have "raw = butlast raw @ [CHR 0x00]" using raw(1,3) append_butlast_last_id by metis
  also have "\<dots> = join_char (CHR 0x00) (flat_pairs (pairs ?rs)) @ [CHR 0x00]" by (simp add: flat_pairs_pairs [OF e] join_split)
  finally have "raw = concat (map record_text (pairs ?rs))" using records_text [OF p] by simp
  moreover have "CHR 0x00 \<notin> set h \<and> CHR 0x00 \<notin> set q" if "(h, q) \<in> set (pairs ?rs)" for h q
  proof -
    have "h \<in> set (flat_pairs (pairs ?rs))" "q \<in> set (flat_pairs (pairs ?rs))" using that by (auto simp: flat_pairs_def)
    then show ?thesis unfolding flat_pairs_pairs [OF e] using split_free by blast
  qed
  moreover have "\<forall>(h, q)\<in>set (pairs ?rs). plain_change utf8 explicit required h q"
    using s classify_records_skip [OF e] by blast
  ultimately show ?R using raw(2) p by blast
next
  assume ?R
  then obtain ps where ps: "ps \<noteq> []" "raw = concat (map record_text ps)" "int (length raw) \<le> MAX_DIFF_BYTES"
    and plain: "\<forall>(h, p)\<in>set ps. CHR 0x00 \<notin> set h \<and> CHR 0x00 \<notin> set p \<and> plain_change utf8 explicit required h p" by blast
  have raw: "raw = join_char (CHR 0x00) (flat_pairs ps) @ [CHR 0x00]" using ps(2) records_text [OF ps(1)] by simp
  have f: "\<forall>p\<in>set (flat_pairs ps). CHR 0x00 \<notin> set p" using plain by (auto simp: flat_pairs_def)
  have f': "flat_pairs ps \<noteq> []" using ps(1) by (cases ps) auto
  have "split_char (CHR 0x00) (butlast raw) = flat_pairs ps" unfolding raw by (simp add: split_join [OF f' f])
  moreover have "\<exists>reason. classify_records utf8 explicit required (flat_pairs ps) = Inr (False, reason)"
    using classify_records_skip [OF pairs_flat(2), of utf8 explicit required ps] plain by (auto simp: pairs_flat)
  ultimately show ?L using ps(3) by (simp add: classify_diff_def raw pairs_flat)
qed

lemma revisions_valid:
  "event_revisions name event = Inr (base, head, separator) \<Longrightarrow>
    sha_text base \<and> sha_text head \<and> separator \<in> {''..'', ''...''}"
proof -
  assume e: "event_revisions name event = Inr (base, head, separator)"
  then obtain vb vh where v: "event_values name event = Inr (vb, vh, separator)" "revision vb = Inr base" "revision vh = Inr head"
    by (auto simp: event_revisions_def rbind_Inr_iff)
  have sha: "sha_text x" if "revision u = Inr x" for u x using that by (auto simp: revision_def split: pyval.splits if_splits)
  from v(1) have "separator = ''..'' \<or> separator = ''...''"
    unfolding event_values_def by (simp add: rbind_Inr_iff split: if_splits) blast+
  with sha v(2,3) show ?thesis by blast
qed

lemma sha_no_dot: "sha_text s \<Longrightarrow> s \<noteq> [] \<and> hd s \<noteq> CHR ''.'' \<and> length s = 40"
  by (cases s) (auto simp: sha_text_def is_hex_def is_digit_def code_def)

lemma range_valid:
  assumes "sha_text base" and "sha_text head" and "separator \<in> {''..'', ''...''}"
  shows "git_range (base @ separator @ head)"
proof -
  from sha_no_dot [OF assms(2)] obtain c cs where h: "head = c # cs" "c \<noteq> CHR ''.''" by (cases head) auto
  have "takeWhile (\<lambda>c. c = CHR ''.'') (separator @ head) = separator" using assms(3) h by auto
  then show ?thesis
    using assms sha_no_dot [OF assms(1)] by (auto simp: git_range_def Let_def)
qed

lemma check_types_True:
  "check_types g rs = Inr True \<longleftrightarrow> (\<forall>r\<in>set rs. \<exists>t. git_type g r = Inr t \<and> strip_bytes t = ''commit'')"
proof (induction rs)
  case (Cons r rs)
  then show ?case by (cases "git_type g r") auto
qed simp

lemma rcatch_skip:
  "(\<exists>reason. rcatch m es (Inr (True, w)) = Inr (False, reason)) \<longleftrightarrow> (\<exists>reason. m = Inr (False, reason))"
  by (cases m) (auto simp: rcatch_def)

lemma classify_range_skip:
  assumes "sha_text base" and "sha_text head" and "separator \<in> {''..'', ''...''}"
  shows "(\<exists>reason. classify_range utf8 g explicit required (base, head, separator) = Inr (False, reason)) \<longleftrightarrow>
    (\<exists>s raw. gr_shallow g = Inr s \<and> strip_bytes s = ''false'' \<and>
       (\<forall>r\<in>{base, head}. \<exists>t. gr_type g r = Inr t \<and> strip_bytes t = ''commit'') \<and>
       gr_diff g (base @ separator @ head) = Inr raw \<and>
       (\<exists>reason. classify_diff utf8 explicit required raw = Inr (False, reason)))"
proof -
  have t: "check_types g [base, head] = Inr True \<longleftrightarrow> (\<forall>r\<in>{base, head}. \<exists>t. gr_type g r = Inr t \<and> strip_bytes t = ''commit'')"
    unfolding check_types_True using assms(1,2) by (auto simp: git_type_def)
  have d: "git_diff g (base @ separator @ head) = gr_diff g (base @ separator @ head)"
    using range_valid [OF assms] by (simp add: git_diff_def)
  show ?thesis unfolding t [symmetric]
    by (cases "gr_shallow g"; cases "check_types g [base, head]"; cases "gr_diff g (base @ separator @ head)")
      (simp_all add: classify_range_def d del: check_types.simps)
qed

text \<open>
  C37: the heavy pipeline is skipped exactly when nothing was forced, the event is supported, both path lists
  are valid, the history is complete, both revisions are commits, and the diff between them is the
  concatenation of one or more complete records that each add, delete or modify one regular
  documentation file that is not required. Any other input, answer or failure runs it.
\<close>

theorem only_documentation_skips:
  "(\<exists>reason. classify utf8 g name event documents required force = Inr (False, reason)) \<longleftrightarrow>
    \<not> force \<and> name \<in> {''pull_request'', ''merge_group'', ''push''} \<and>
    all_paths document_name documents \<and> all_paths literal_path required \<and>
    (\<exists>base head separator s raw records.
       event_revisions name event = Inr (base, head, separator) \<and>
       gr_shallow g = Inr s \<and> strip_bytes s = ''false'' \<and>
       (\<forall>r\<in>{base, head}. \<exists>t. gr_type g r = Inr t \<and> strip_bytes t = ''commit'') \<and>
       gr_diff g (base @ separator @ head) = Inr raw \<and> int (length raw) \<le> MAX_DIFF_BYTES \<and>
       records \<noteq> [] \<and> raw = concat (map record_text records) \<and>
       (\<forall>(h, p)\<in>set records. CHR 0x00 \<notin> set h \<and> CHR 0x00 \<notin> set p \<and>
          plain_change utf8 (path_list documents) (path_list required) h p))"
proof (cases "force \<or> name \<notin> {''pull_request'', ''merge_group'', ''push''} \<or>
    \<not> all_paths document_name documents \<or> \<not> all_paths literal_path required")
  case True
  then show ?thesis by (auto simp: classify_def)
next
  case False
  show ?thesis
  proof (cases "event_revisions name event")
    case (Inl e)
    with False show ?thesis by (simp add: classify_def)
  next
    case (Inr r)
    obtain base head separator where r: "r = (base, head, separator)" by (cases r)
    note v = revisions_valid [OF Inr [unfolded r]]
    have c: "classify utf8 g name event documents required force =
        rcatch (classify_range utf8 g (path_list documents) (path_list required) r)
          [OSError, ValueError, OtherError] (Inr (True, ''git-error''))"
      using False Inr by (simp add: classify_def)
    show ?thesis
      unfolding c rcatch_skip unfolding r
      using classify_range_skip [of base head separator utf8 g "path_list documents" "path_list required"] v False Inr
      unfolding r classify_diff_skip by auto
  qed
qed

definition demo_revision :: "char \<Rightarrow> string" where
  "demo_revision c = replicate 40 c"

definition demo_change :: "string \<Rightarrow> git_reader" where
  "demo_change path =
     \<lparr>gr_shallow = Inr (''false'' @ [CHR 0x0A]), gr_type = (\<lambda>_. Inr (''commit'' @ [CHR 0x0A])),
      gr_diff = (\<lambda>_. Inr ('':100644 100644 '' @ demo_revision (CHR ''1'') @ '' '' @ demo_revision (CHR ''2'') @ '' M'' @
        CHR 0x00 # path @ [CHR 0x00]))\<rparr>"

definition demo_push :: pyval where
  "demo_push = PDict [(''before'', PStr (demo_revision (CHR ''a''))), (''after'', PStr (demo_revision (CHR ''b'')))]"

theorem only_documentation_skips_witness:
  "classify Inr (demo_change ''docs/guide.md'') ''push'' demo_push (PList []) (PList []) False = Inr (False, ''documentation-only'') \<and>
   (\<exists>h. plain_change Inr [] [] h ''docs/guide.md'') \<and>
   classify Inr (demo_change ''docs/src/guide.md'') ''push'' demo_push (PList []) (PList []) False = Inr (True, ''non-documentation-change'')"
proof -
  let ?d = "demo_change ''docs/guide.md''"
  have c: "classify Inr ?d ''push'' demo_push (PList []) (PList []) False = Inr (False, ''documentation-only'')" by code_simp
  have n: "classify Inr (demo_change ''docs/src/guide.md'') ''push'' demo_push (PList []) (PList []) False =
      Inr (True, ''non-documentation-change'')" by code_simp
  have l: "path_list (PList []) = []" by (simp add: path_list_def)
  from c only_documentation_skips [of Inr ?d "''push''" demo_push "PList []" "PList []" False] obtain raw records where
    r: "records \<noteq> []" "gr_diff ?d (demo_revision (CHR ''a'') @ ''..'' @ demo_revision (CHR ''b'')) = Inr raw"
    "raw = concat (map record_text records)"
    "\<forall>(h, p)\<in>set records. CHR 0x00 \<notin> set h \<and> CHR 0x00 \<notin> set p \<and> plain_change Inr [] [] h p"
    unfolding l by (fastforce simp: demo_change_def)
  obtain h p rest where hp: "records = (h, p) # rest" using r(1) by (cases records) auto
  let ?h = "'':100644 100644 '' @ demo_revision (CHR ''1'') @ '' '' @ demo_revision (CHR ''2'') @ '' M''"
  have "?h @ CHR 0x00 # ''docs/guide.md'' @ [CHR 0x00] = h @ CHR 0x00 # p @ CHR 0x00 # concat (map record_text rest)"
    using r(2,3) by (simp add: hp record_text_def demo_change_def)
  moreover have "CHR 0x00 \<notin> set ?h" by (simp add: demo_revision_def)
  moreover have free: "CHR 0x00 \<notin> set h" "CHR 0x00 \<notin> set p" using r(4) by (simp_all add: hp)
  ultimately have a: "?h = h" "''docs/guide.md'' @ [CHR 0x00] = p @ CHR 0x00 # concat (map record_text rest)"
    by (blast dest: first_split)+
  have "''docs/guide.md'' = p" using first_split [of "''docs/guide.md''" "CHR 0x00" "[]" p] a(2) free(2) by simp
  with r(4) hp c n show ?thesis by auto
qed

end
