(* ===== verification/Release_State.thy ===== *)
theory Release_State
  imports Version_Plan
begin

text \<open>
  \<^verbatim>\<open>scripts/release_state.py\<close> with the parts of \<^verbatim>\<open>scripts/release_control.py\<close> it calls: release runs reserve
  version plans in one JSON ledger file of the repository, which GitHub replaces only for a caller that
  names the blob it read. \<^verbatim>\<open>ReleaseError\<close> is a \<^verbatim>\<open>RuntimeError\<close>. What GitHub answers is an input: the record
  \<open>forge\<close> holds the answers one operation gets. Base64 and the JSON parser are parameters.
\<close>

section \<open>Checked inputs\<close>

definition ensure :: "bool \<Rightarrow> unit res" where
  "ensure b = (if b then Inr () else Inl RuntimeError)"

lemma ensure_Inr [simp]: "ensure b = Inr u \<longleftrightarrow> b"
  by (simp add: ensure_def)

definition positive :: "pyval \<Rightarrow> int res" where
  "positive v =
     (case v of
        PInt n \<Rightarrow> if 0 < n then Inr n else Inl RuntimeError
      | PStr s \<Rightarrow> if positive_text s then Inr (int_of_digits s) else Inl RuntimeError
      | _ \<Rightarrow> Inl RuntimeError)"

definition base_version :: "pyval \<Rightarrow> string res" where
  "base_version v = (case v of PStr s \<Rightarrow> rbind (ensure (base_text s)) (\<lambda>_. Inr s) | _ \<Rightarrow> Inl TypeError)"

text \<open>Equality of parsed JSON: objects ignore the order of their fields.\<close>

function same_json :: "pyval \<Rightarrow> pyval \<Rightarrow> bool" where
  "same_json a b =
     (case (a, b) of
        (PList xs, PList ys) \<Rightarrow> length xs = length ys \<and> (\<forall>(x, y)\<in>set (zip xs ys). same_json x y)
      | (PDict d, PDict e) \<Rightarrow>
          length d = length e \<and> (\<forall>(k, v)\<in>set d. case map_of e k of None \<Rightarrow> False | Some w \<Rightarrow> same_json v w)
      | _ \<Rightarrow> py_eq a b)"
  by pat_completeness auto
termination
proof (relation "measure (\<lambda>(a, b). size a)", goal_cases)
  case (2 a b x y xs ys z v w)
  then have "v \<in> set xs" by (auto dest: set_zip_leftD)
  then show ?case using 2 by (auto dest!: size_list_estimation' [where f = size and y = "size v"])
next
  case (3 a b x y d e z k v w)
  then show ?case by (auto dest!: size_list_estimation' [where f = "size_prod (\<lambda>_. 0) size" and y = "size v"])
qed simp

declare same_json.simps [simp del]

section \<open>What GitHub answers\<close>

text \<open>
  The answers to the reads of one operation, in the shape \<^verbatim>\<open>optional\<close> and \<^verbatim>\<open>pages\<close> hand them over: the
  ledger file and its branch (asked a second time before a reservation is written), the tag names, the
  releases, one tag and one release by tag.
\<close>

record forge =
  fg_content :: "pyval res"
  fg_branch :: "pyval res"
  fg_branch_again :: "pyval res"
  fg_tags :: "pydict list res"
  fg_releases :: "pydict list res"
  fg_tag_ref :: "string \<Rightarrow> pyval res"
  fg_tag_release :: "string \<Rightarrow> pyval res"

definition ensure_absent :: "forge \<Rightarrow> string \<Rightarrow> unit res" where
  "ensure_absent f tag =
     rbind (fg_tag_ref f tag) (\<lambda>r. rbind (ensure (r = PNone)) (\<lambda>_.
     rbind (fg_tag_release f tag) (\<lambda>r. rbind (ensure (r = PNone)) (\<lambda>_.
     rbind (fg_releases f) (\<lambda>rs. ensure (\<not> list_ex (\<lambda>r. dget r ''tag_name'' = PStr tag) rs))))))"

text \<open>The numbers that follow a prefix in a list of tag names; a name that is no text has no \<^verbatim>\<open>startswith\<close>.\<close>

fun sequence_numbers :: "string \<Rightarrow> pyval list \<Rightarrow> int list res" where
  "sequence_numbers prefix [] = Inr []"
| "sequence_numbers prefix (PStr t # ts) =
     rbind (sequence_numbers prefix ts) (\<lambda>ns.
       let n = drop (length prefix) t
       in Inr (if startswith t prefix \<and> positive_text n then int_of_digits n # ns else ns))"
| "sequence_numbers prefix (_ # ts) = Inl AttributeError"

definition next_sequence :: "forge \<Rightarrow> pyval \<Rightarrow> string \<Rightarrow> int res" where
  "next_sequence f base channel =
     rbind (ensure (channel \<in> {''beta'', ''rc''})) (\<lambda>_.
     rbind (base_version base) (\<lambda>b.
     rbind (fg_tags f) (\<lambda>tags. rbind (fg_releases f) (\<lambda>releases.
     rbind (sequence_numbers (''v'' @ b @ ''-'' @ channel @ ''.'')
        (map (\<lambda>t. dget_or t ''name'' (PStr [])) tags @ map (\<lambda>r. dget_or r ''tag_name'' (PStr [])) releases)) (\<lambda>ns.
       Inr (foldr max ns 0 + 1))))))"

section \<open>The ledger\<close>

definition empty_ledger :: pydict where
  "empty_ledger = [(''schema'', PInt 1), (''counter'', PInt 0), (''publication_floor'', PInt 0), (''plans'', PDict [])]"

definition as_dict :: "pyval \<Rightarrow> pydict" where
  "as_dict v = (case v of PDict d \<Rightarrow> d | _ \<Rightarrow> [])"

definition as_int :: "pyval \<Rightarrow> int" where
  "as_int v = (case v of PInt n \<Rightarrow> n | _ \<Rightarrow> 0)"

definition ledger_counter :: "pydict \<Rightarrow> int" where
  "ledger_counter l = as_int (dget l ''counter'')"

definition ledger_floor :: "pydict \<Rightarrow> int" where
  "ledger_floor l = as_int (dget l ''publication_floor'')"

definition ledger_plans :: "pydict \<Rightarrow> pydict" where
  "ledger_plans l = as_dict (dget l ''plans'')"

definition plan_of :: "pyval \<Rightarrow> pydict" where
  "plan_of record = as_dict (dget (as_dict record) ''plan'')"

definition build_of :: "pyval \<Rightarrow> int" where
  "build_of record = as_int (dget (plan_of record) ''build_number'')"

text \<open>One reservation as \<^verbatim>\<open>read_state\<close> checks it: a missing build number cannot be compared.\<close>

definition check_record :: "int \<Rightarrow> string \<times> pyval \<Rightarrow> unit res" where
  "check_record counter = (\<lambda>(key, record).
     rbind (positive (PStr key)) (\<lambda>_.
     case record of
       PDict r \<Rightarrow>
         rbind (validate_plan (\<lambda>_. Inl OtherError) (dget r ''plan'') None None) (\<lambda>plan.
           case dget plan ''build_number'' of PInt n \<Rightarrow> ensure (n \<le> counter) | _ \<Rightarrow> Inl TypeError)
     | _ \<Rightarrow> Inl RuntimeError))"

fun check_records :: "int \<Rightarrow> pydict \<Rightarrow> unit res" where
  "check_records counter [] = Inr ()"
| "check_records counter (r # rs) = rbind (check_record counter r) (\<lambda>_. check_records counter rs)"

definition check_ledger :: "pyval \<Rightarrow> pydict res" where
  "check_ledger v =
     (case v of
        PDict l \<Rightarrow>
          rbind (ensure (dget l ''schema'' = PInt 1)) (\<lambda>_.
          rbind (ensure (case dget l ''counter'' of PInt n \<Rightarrow> 0 \<le> n | _ \<Rightarrow> False)) (\<lambda>_.
          rbind (ensure (case dget l ''publication_floor'' of PInt n \<Rightarrow> 0 \<le> n \<and> n \<le> ledger_counter l | _ \<Rightarrow> False)) (\<lambda>_.
          rbind (ensure (is_dict (dget l ''plans''))) (\<lambda>_.
          rbind (check_records (ledger_counter l) (ledger_plans l)) (\<lambda>_. Inr l)))))
      | _ \<Rightarrow> Inl RuntimeError)"

definition read_state :: "(string \<Rightarrow> string res) \<Rightarrow> (string \<Rightarrow> pyval res) \<Rightarrow> forge \<Rightarrow> (pydict \<times> string option) res" where
  "read_state b64decode parse f =
     rbind (fg_content f) (\<lambda>content.
       case content of
         PNone \<Rightarrow> rbind (fg_branch f) (\<lambda>r. rbind (ensure (r = PNone)) (\<lambda>_. Inr (empty_ledger, None)))
       | PDict c \<Rightarrow>
           rbind (ensure (dget c ''type'' = PStr ''file'' \<and> dget c ''encoding'' = PStr ''base64'')) (\<lambda>_.
           rbind (dgetitem c ''content'') (\<lambda>text.
           rbind (case text of PStr s \<Rightarrow> b64decode (filter (\<lambda>c. \<not> is_space c) s) | _ \<Rightarrow> Inl AttributeError) (\<lambda>raw.
           rbind (ensure (length raw \<le> 4000000)) (\<lambda>_.
           rbind (parse raw) (\<lambda>v.
           rbind (check_ledger v) (\<lambda>l.
             case dget_or c ''sha'' (PStr []) of
               PStr sha \<Rightarrow> rbind (ensure (sha_text sha)) (\<lambda>_. Inr (l, Some sha))
             | _ \<Rightarrow> Inl TypeError))))))
       | _ \<Rightarrow> Inl AttributeError)"

section \<open>Reserving a plan\<close>

text \<open>The arguments of \<^verbatim>\<open>reserve_plan\<close>; \<open>rq_stamp\<close> is the caller's time in fourteen digits.\<close>

record request =
  rq_policy :: pyval
  rq_base :: pyval
  rq_channel :: string
  rq_sha :: pyval
  rq_run :: pyval
  rq_attempt :: int
  rq_stamp :: string
  rq_parent :: pyval

definition reserved_sequences :: "pydict \<Rightarrow> request \<Rightarrow> int list" where
  "reserved_sequences l r =
     map (\<lambda>(_, rec). as_int (dget (plan_of rec) ''sequence''))
       (filter (\<lambda>(_, rec). dget (plan_of rec) ''base_version'' = rq_base r \<and>
          dget (plan_of rec) ''channel'' = PStr (rq_channel r)) (ledger_plans l))"

definition new_sequence :: "forge \<Rightarrow> pydict \<Rightarrow> request \<Rightarrow> pyval res" where
  "new_sequence f l r =
     (if rq_channel r \<in> {''beta'', ''rc''}
      then rbind (next_sequence f (rq_base r) (rq_channel r)) (\<lambda>n.
             Inr (PInt (max n (foldr max (reserved_sequences l r) 0 + 1))))
      else if rq_channel r = ''nightly''
      then Inr (PStr (rq_stamp r @ ''.'' @ py_str (rq_run r) @ ''.'' @ show_int (rq_attempt r)))
      else Inr PNone)"

definition policy_floor :: "pyval \<Rightarrow> int res" where
  "policy_floor policy =
     rbind (case policy of PDict p \<Rightarrow> dgetitem p ''versioning'' | _ \<Rightarrow> Inl TypeError) (\<lambda>config.
     rbind (vget_or config ''build_number_floor'' (PInt 0)) (\<lambda>v.
       case v of PInt n \<Rightarrow> rbind (ensure (0 \<le> n)) (\<lambda>_. Inr n) | _ \<Rightarrow> Inl RuntimeError))"

text \<open>A run that already holds a reservation: its plan, when the inputs are the same.\<close>

definition reuse :: "(pyval \<Rightarrow> string res) \<Rightarrow> request \<Rightarrow> pyval \<Rightarrow> pydict res" where
  "reuse dig r rec =
     rbind (validate_plan dig (dget (as_dict rec) ''plan'') (Some (rq_policy r)) (Some (rq_sha r))) (\<lambda>plan.
     rbind (ensure (py_eq (dget plan ''base_version'') (rq_base r) \<and> dget plan ''channel'' = PStr (rq_channel r))) (\<lambda>_.
     rbind (ensure (same_json (dget (as_dict rec) ''parent'') (rq_parent r))) (\<lambda>_. Inr plan)))"

definition recorded :: "string \<Rightarrow> pydict \<Rightarrow> pyval \<Rightarrow> int \<Rightarrow> pydict \<Rightarrow> pydict" where
  "recorded key plan parent number l =
     (let l' = dset ''counter'' (PInt number) l
      in dset ''plans'' (PDict (dset key (PDict [(''plan'', PDict plan), (''parent'', parent)]) (ledger_plans l'))) l')"

text \<open>
  The plan, and for a new reservation the ledger to write and whether the ledger's branch has to be
  created first.
\<close>

definition reserve_from ::
  "(pyval \<Rightarrow> string res) \<Rightarrow> forge \<Rightarrow> request \<Rightarrow> string \<Rightarrow> pydict \<Rightarrow> (pydict \<times> (bool \<times> pydict) option) res" where
  "reserve_from dig f r key l =
     (case map_of (ledger_plans l) key of
        Some rec \<Rightarrow> rbind (reuse dig r rec) (\<lambda>plan. Inr (plan, None))
      | None \<Rightarrow>
          rbind (new_sequence f l r) (\<lambda>sequence.
          rbind (policy_floor (rq_policy r)) (\<lambda>floor.
          let number = max (ledger_counter l) floor + 1
          in rbind (create_plan dig (rq_base r) (PStr (rq_channel r)) sequence (rq_sha r) (rq_policy r) (PInt number)) (\<lambda>plan.
             rbind (ensure_absent f (text_val (dget plan ''tag''))) (\<lambda>_.
             rbind (fg_branch_again f) (\<lambda>branch.
               Inr (plan, Some (branch = PNone, recorded key plan (rq_parent r) number l))))))))"

definition reserve_plan ::
  "(string \<Rightarrow> string res) \<Rightarrow> (string \<Rightarrow> pyval res) \<Rightarrow> (pyval \<Rightarrow> string res) \<Rightarrow> forge \<Rightarrow> request \<Rightarrow>
     (pydict \<times> (bool \<times> pydict \<times> string option) option) res" where
  "reserve_plan b64decode parse dig f r =
     rbind (positive (rq_run r)) (\<lambda>run.
     rbind (read_state b64decode parse f) (\<lambda>(l, previous).
     rbind (reserve_from dig f r (show_int run) l) (\<lambda>(plan, write).
       Inr (plan, map_option (\<lambda>(create, l'). (create, l', previous)) write))))"

section \<open>Publishing\<close>

text \<open>The tags of releases that are no drafts; a tag that is no text, number or null cannot be in a set.\<close>

definition published_tags :: "forge \<Rightarrow> pyval list res" where
  "published_tags f =
     rbind (fg_releases f) (\<lambda>rs.
       let tags = map (\<lambda>r. dget r ''tag_name'') (filter (\<lambda>r. dget r ''draft'' = PBool False) rs)
       in if list_ex (\<lambda>t. case t of PList _ \<Rightarrow> True | PDict _ \<Rightarrow> True | _ \<Rightarrow> False) tags then Inl TypeError else Inr tags)"

definition record_tag :: "pyval \<Rightarrow> pyval" where
  "record_tag rec = dget (plan_of rec) ''tag''"

definition compare_build :: "pydict \<Rightarrow> (int \<Rightarrow> bool) \<Rightarrow> unit res" where
  "compare_build plan test = (case dget plan ''build_number'' of PInt n \<Rightarrow> ensure (test n) | _ \<Rightarrow> Inl TypeError)"

definition no_digest :: "pyval \<Rightarrow> string res" where
  "no_digest v = Inl OtherError"

definition verify_reservation :: "forge \<Rightarrow> pydict \<Rightarrow> pydict \<Rightarrow> pyval \<Rightarrow> pyval \<Rightarrow> unit res" where
  "verify_reservation f l plan run parent =
     rbind (validate_plan no_digest (PDict plan) None None) (\<lambda>_.
     rbind (positive run) (\<lambda>n.
     rbind (ensure (case map_of (ledger_plans l) (show_int n) of
         None \<Rightarrow> False | Some rec \<Rightarrow> same_json rec (PDict [(''plan'', PDict plan), (''parent'', parent)]))) (\<lambda>_.
     rbind (compare_build plan (\<lambda>b. ledger_floor l < b)) (\<lambda>_.
     rbind (published_tags f) (\<lambda>tags.
       ensure (\<not> list_ex (\<lambda>(_, rec). record_tag rec \<in> set tags \<and> as_int (dget plan ''build_number'') \<le> build_of rec)
         (ledger_plans l)))))))"

definition verify_promotion_order :: "forge \<Rightarrow> pydict \<Rightarrow> pydict \<Rightarrow> unit res" where
  "verify_promotion_order f l plan =
     rbind (validate_plan no_digest (PDict plan) None None) (\<lambda>_.
     rbind (ensure (dget plan ''channel'' = PStr ''rc'' \<and> dget plan ''promotion'' = PStr ''promote-bytes'')) (\<lambda>_.
     rbind (ensure (length (filter (\<lambda>(_, rec). same_json (PDict (plan_of rec)) (PDict plan)) (ledger_plans l)) = 1)) (\<lambda>_.
     rbind (compare_build plan (\<lambda>b. ledger_floor l \<le> b)) (\<lambda>_.
     rbind (published_tags f) (\<lambda>tags.
     rbind (ensure (dget plan ''tag'' \<in> set tags)) (\<lambda>_.
       ensure (\<not> list_ex (\<lambda>(_, rec). record_tag rec \<noteq> dget plan ''tag'' \<and> record_tag rec \<in> set tags \<and>
         as_int (dget plan ''build_number'') < build_of rec) (ledger_plans l))))))))"

definition publish_from :: "forge \<Rightarrow> pydict \<Rightarrow> pydict \<Rightarrow> pyval \<Rightarrow> pyval \<Rightarrow> bool \<Rightarrow> pydict res" where
  "publish_from f l plan run parent promotion =
     rbind (if promotion then verify_promotion_order f l plan else verify_reservation f l plan run parent) (\<lambda>_.
       Inr (dset ''publication_floor'' (dget plan ''build_number'') l))"

text \<open>The ledger to write and the blob it replaces.\<close>

definition begin_publication ::
  "(string \<Rightarrow> string res) \<Rightarrow> (string \<Rightarrow> pyval res) \<Rightarrow> forge \<Rightarrow> pydict \<Rightarrow> pyval \<Rightarrow> pyval \<Rightarrow> pyval \<Rightarrow>
     (pydict \<times> string option) res" where
  "begin_publication b64decode parse f plan run parent promotion =
     rbind (positive run) (\<lambda>_.
     rbind (case promotion of PBool b \<Rightarrow> Inr b | _ \<Rightarrow> Inl RuntimeError) (\<lambda>b.
     rbind (read_state b64decode parse f) (\<lambda>(l, previous).
     rbind (publish_from f l plan run parent b) (\<lambda>l'. Inr (l', previous)))))"

text \<open>The body of the write: the blob is named exactly when the file exists.\<close>

definition write_body :: "string \<Rightarrow> string option \<Rightarrow> pydict" where
  "write_body encoded previous =
     [(''branch'', PStr ''release-version-state''), (''message'', PStr ''Reserve release version plan''),
      (''content'', PStr encoded)] @
     (case previous of None \<Rightarrow> [] | Some sha \<Rightarrow> [(''sha'', PStr sha)])"

section \<open>Runs of several processes\<close>

text \<open>
  The repository as the processes see it: the committed ledger, every version it has had, what each
  process has read and not yet answered with a write, and the publications that were committed (newest
  first; \<open>True\<close> for a byte promotion).
\<close>

record repository =
  rp_ledger :: "pydict option"
  rp_versions :: "pydict list"
  rp_views :: "nat \<Rightarrow> (pydict \<times> string option) option"
  rp_published :: "(bool \<times> int) list"

definition repository_init :: repository where
  "repository_init = \<lparr>rp_ledger = None, rp_versions = [], rp_views = (\<lambda>_. None), rp_published = []\<rparr>"

text \<open>
  What GitHub documents of the file: a read answers the committed text and its blob identity, and a
  write is accepted only when it names the blob of the committed file, or none when there is no file.
\<close>

definition serves ::
  "(string \<Rightarrow> string res) \<Rightarrow> (string \<Rightarrow> pyval res) \<Rightarrow> (pydict \<Rightarrow> string) \<Rightarrow> pydict option \<Rightarrow> forge \<Rightarrow> bool" where
  "serves b64decode parse blob ledger f =
     (case ledger of
        None \<Rightarrow> fg_content f = Inr PNone
      | Some l \<Rightarrow>
          (case fg_content f of
             Inr (PDict c) \<Rightarrow>
               dget c ''sha'' = PStr (blob l) \<and>
               (case dget c ''content'' of
                  PStr s \<Rightarrow> (case b64decode (filter (\<lambda>c. \<not> is_space c) s) of Inr raw \<Rightarrow> parse raw = Inr (PDict l) | _ \<Rightarrow> False)
                | _ \<Rightarrow> False)
           | _ \<Rightarrow> False))"

definition commit :: "nat \<Rightarrow> pydict \<Rightarrow> repository \<Rightarrow> repository" where
  "commit p l w = w\<lparr>rp_ledger := Some l, rp_versions := l # rp_versions w, rp_views := (rp_views w)(p := None)\<rparr>"

text \<open>No two versions of the file share a blob identity.\<close>

definition collision_free :: "(pydict \<Rightarrow> string) \<Rightarrow> pydict \<Rightarrow> repository \<Rightarrow> bool" where
  "collision_free blob l w = (\<forall>v\<in>set (rp_versions w). blob v = blob l \<longrightarrow> v = l)"

inductive ledger_step ::
  "(string \<Rightarrow> string res) \<Rightarrow> (string \<Rightarrow> pyval res) \<Rightarrow> (pydict \<Rightarrow> string) \<Rightarrow> (pyval \<Rightarrow> string res) \<Rightarrow>
     repository \<Rightarrow> repository \<Rightarrow> bool"
  for b64decode parse blob dig where
    fetch: "serves b64decode parse blob (rp_ledger w) f \<Longrightarrow> read_state b64decode parse f = Inr (l, sha) \<Longrightarrow>
      ledger_step b64decode parse blob dig w (w\<lparr>rp_views := (rp_views w)(p := Some (l, sha))\<rparr>)"
  | reserve: "rp_views w p = Some (l, sha) \<Longrightarrow> positive (rq_run r) = Inr run \<Longrightarrow>
      reserve_from dig f r (show_int run) l = Inr (plan, Some (create, l')) \<Longrightarrow>
      sha = map_option blob (rp_ledger w) \<Longrightarrow> collision_free blob l' w \<Longrightarrow>
      ledger_step b64decode parse blob dig w (commit p l' w)"
  | publish: "rp_views w p = Some (l, sha) \<Longrightarrow> positive run = Inr n \<Longrightarrow>
      publish_from f l plan run parent promotion = Inr l' \<Longrightarrow>
      sha = map_option blob (rp_ledger w) \<Longrightarrow> collision_free blob l' w \<Longrightarrow>
      ledger_step b64decode parse blob dig w
        ((commit p l' w)\<lparr>rp_published := (promotion, ledger_floor l') # rp_published w\<rparr>)"
  | abandon: "ledger_step b64decode parse blob dig w (w\<lparr>rp_views := (rp_views w)(p := None)\<rparr>)"

inductive ledger_run ::
  "(string \<Rightarrow> string res) \<Rightarrow> (string \<Rightarrow> pyval res) \<Rightarrow> (pydict \<Rightarrow> string) \<Rightarrow> (pyval \<Rightarrow> string res) \<Rightarrow>
     repository \<Rightarrow> repository \<Rightarrow> bool"
  for b64decode parse blob dig where
    stay: "ledger_run b64decode parse blob dig w w"
  | move: "ledger_run b64decode parse blob dig w w' \<Longrightarrow> ledger_step b64decode parse blob dig w' w'' \<Longrightarrow>
      ledger_run b64decode parse blob dig w w''"

section \<open>What every write guarantees\<close>

text \<open>
  A store whose writers each keep an invariant and move it forward in an order: the chain of committed
  versions then consists of good versions, in order.
\<close>

locale guarded_store =
  fixes good :: "'l \<Rightarrow> bool"
    and later :: "'l \<Rightarrow> 'l \<Rightarrow> bool"
    and writes :: "'l \<Rightarrow> 'l \<Rightarrow> bool"
  assumes later_refl: "later l l"
    and later_trans: "later a b \<Longrightarrow> later b c \<Longrightarrow> later a c"
    and write_good: "good l \<Longrightarrow> writes l l' \<Longrightarrow> good l'"
    and write_later: "good l \<Longrightarrow> writes l l' \<Longrightarrow> later l l'"
begin

lemma chain_good:
  "successively (\<lambda>new old. writes old new) (ls @ [l0]) \<Longrightarrow> good l0 \<Longrightarrow> \<forall>l\<in>set (ls @ [l0]). good l"
proof (induction ls)
  case (Cons l' ls)
  then have rest: "\<forall>l\<in>set (ls @ [l0]). good l" by (simp add: successively_Cons)
  have "writes (hd (ls @ [l0])) l'" using Cons.prems(1) by (simp add: successively_Cons)
  moreover have "good (hd (ls @ [l0]))" using rest by (cases ls) simp_all
  ultimately have "good l'" using write_good by blast
  with rest show ?case by simp
qed simp

lemma chain_later:
  "successively (\<lambda>new old. writes old new) (ls @ [l0]) \<Longrightarrow> good l0 \<Longrightarrow> sorted_wrt (\<lambda>new old. later old new) (ls @ [l0])"
proof (induction ls)
  case (Cons l' ls)
  then have s: "sorted_wrt (\<lambda>new old. later old new) (ls @ [l0])" by (simp add: successively_Cons)
  obtain m ms where m: "ls @ [l0] = m # ms" by (cases ls) simp_all
  have c: "successively (\<lambda>new old. writes old new) (ls @ [l0])" "writes m l'"
    using Cons.prems(1) m by (simp_all add: successively_Cons)
  have "good m" using chain_good [OF c(1) Cons.prems(2)] m by simp
  then have w: "later m l'" using c(2) by (rule write_later)
  have "later v l'" if "v \<in> set (ls @ [l0])" for v
    using that s w later_trans unfolding m by auto
  with s show ?case by simp
qed simp

lemma chain_newest:
  assumes "successively (\<lambda>new old. writes old new) (ls @ [l0])" and "good l0" and "v \<in> set (ls @ [l0])"
  shows "later v (hd (ls @ [l0]))"
proof (cases "ls @ [l0]")
  case (Cons m ms)
  then show ?thesis using chain_later [OF assms(1,2)] assms(3) later_refl by auto
qed simp

end

section \<open>The ledger invariant\<close>

definition good_record :: "int \<Rightarrow> pyval \<Rightarrow> bool" where
  "good_record counter rec =
     (case dget (plan_of rec) ''build_number'' of PInt n \<Rightarrow> 0 < n \<and> n \<le> counter | _ \<Rightarrow> False)"

definition good_ledger :: "pydict \<Rightarrow> bool" where
  "good_ledger l =
     (0 \<le> ledger_floor l \<and> ledger_floor l \<le> ledger_counter l \<and>
      distinct (map fst (ledger_plans l)) \<and>
      (\<forall>(k, rec)\<in>set (ledger_plans l). good_record (ledger_counter l) rec) \<and>
      distinct (map (\<lambda>(k, rec). build_of rec) (ledger_plans l)))"

text \<open>Nothing a committed ledger says is taken back.\<close>

definition ledger_later :: "pydict \<Rightarrow> pydict \<Rightarrow> bool" where
  "ledger_later l l' =
     (ledger_counter l \<le> ledger_counter l' \<and> ledger_floor l \<le> ledger_floor l' \<and>
      map_of (ledger_plans l) \<subseteq>\<^sub>m map_of (ledger_plans l'))"

text \<open>The ledgers a process may write over the one it has read.\<close>

inductive ledger_write :: "(pyval \<Rightarrow> string res) \<Rightarrow> pydict \<Rightarrow> pydict \<Rightarrow> bool" for dig where
  by_reserve: "reserve_from dig f r key l = Inr (plan, Some (create, l')) \<Longrightarrow> ledger_write dig l l'"
| by_publish: "publish_from f l plan run parent promotion = Inr l' \<Longrightarrow> ledger_write dig l l'"

lemma ledger_reads_dset:
  "ledger_counter (dset ''publication_floor'' v l) = ledger_counter l"
  "ledger_plans (dset ''publication_floor'' v l) = ledger_plans l"
  "ledger_floor (dset ''publication_floor'' v l) = as_int v"
  by (simp_all add: ledger_counter_def ledger_plans_def ledger_floor_def)

lemma recorded_reads:
  "ledger_counter (recorded key plan parent n l) = n"
  "ledger_floor (recorded key plan parent n l) = ledger_floor l"
  "ledger_plans (recorded key plan parent n l) =
     dset key (PDict [(''plan'', PDict plan), (''parent'', parent)]) (ledger_plans l)"
  by (simp_all add: recorded_def Let_def ledger_counter_def ledger_floor_def ledger_plans_def as_dict_def as_int_def)

lemma plan_of_new [simp]: "plan_of (PDict [(''plan'', PDict plan), (''parent'', parent)]) = plan"
  by (simp add: plan_of_def as_dict_def)

lemma dset_fresh: "map_of d k = None \<Longrightarrow> dset k v d = d @ [(k, v)]"
  by (induction d) (auto simp: dset_def split: if_splits)

text \<open>A new reservation takes the number after the counter and a plan that carries it.\<close>

lemma reserve_new:
  assumes "reserve_from dig f r key l = Inr (plan, Some (create, l'))"
  shows "map_of (ledger_plans l) key = None \<and> (\<exists>sequence n. ledger_counter l < n \<and>
    create_plan dig (rq_base r) (PStr (rq_channel r)) sequence (rq_sha r) (rq_policy r) (PInt n) = Inr plan \<and>
    new_sequence f l r = Inr sequence \<and> ensure_absent f (text_val (dget plan ''tag'')) = Inr () \<and>
    l' = recorded key plan (rq_parent r) n l)"
proof (cases "map_of (ledger_plans l) key")
  case (Some rec)
  with assms show ?thesis by (auto simp: reserve_from_def rbind_Inr_iff)
next
  case None
  with assms obtain sequence fl where
    "new_sequence f l r = Inr sequence"
    "create_plan dig (rq_base r) (PStr (rq_channel r)) sequence (rq_sha r) (rq_policy r) (PInt (max (ledger_counter l) fl + 1)) = Inr plan"
    "ensure_absent f (text_val (dget plan ''tag'')) = Inr ()"
    "l' = recorded key plan (rq_parent r) (max (ledger_counter l) fl + 1) l"
    by (auto simp: reserve_from_def rbind_Inr_iff Let_def)
  moreover have "ledger_counter l < max (ledger_counter l) fl + 1" by simp
  ultimately show ?thesis using None by blast
qed

lemma created_build:
  assumes "create_plan dig base channel sequence sha policy build = Inr plan"
  shows "dget plan ''build_number'' = build \<and> dget plan ''base_version'' = base \<and> dget plan ''channel'' = channel \<and>
    dget plan ''sequence'' = sequence"
  using create_planD [OF assms] by auto

lemma recorded_good:
  assumes "good_ledger l" and "map_of (ledger_plans l) key = None" and "ledger_counter l < n"
    and "dget plan ''build_number'' = PInt n"
  shows "good_ledger (recorded key plan parent n l) \<and> ledger_later l (recorded key plan parent n l)"
proof -
  let ?rec = "PDict [(''plan'', PDict plan), (''parent'', parent)]"
  have g: "0 \<le> ledger_floor l" "ledger_floor l \<le> ledger_counter l" "distinct (map fst (ledger_plans l))"
    "\<forall>(k, rec)\<in>set (ledger_plans l). good_record (ledger_counter l) rec"
    "distinct (map (\<lambda>(k, rec). build_of rec) (ledger_plans l))"
    using assms(1) by (simp_all add: good_ledger_def)
  have key: "key \<notin> fst ` set (ledger_plans l)" using assms(2) by (simp add: map_of_eq_None_iff)
  have old: "good_record n rec \<and> build_of rec < n" if "(k, rec) \<in> set (ledger_plans l)" for k rec
    using g(4) that assms(3) by (fastforce simp: good_record_def build_of_def as_int_def split: pyval.splits)
  have new: "build_of ?rec = n" "good_record n ?rec"
    using assms(3) g(1,2) by (simp_all add: build_of_def assms(4) as_int_def good_record_def)
  have "good_ledger (recorded key plan parent n l)"
    unfolding good_ledger_def recorded_reads dset_fresh [OF assms(2)]
    using g key old new assms(3) by fastforce
  moreover have "map_of (ledger_plans l) \<subseteq>\<^sub>m map_of (dset key ?rec (ledger_plans l))"
    using assms(2) by (auto simp: map_le_def)
  ultimately show ?thesis using assms(3) by (simp add: ledger_later_def recorded_reads)
qed

text \<open>A plan that equals a recorded one has its build number.\<close>

lemma same_json_field:
  assumes "same_json (PDict d) (PDict e)" and "map_of d k = Some v"
  shows "\<exists>w. map_of e k = Some w \<and> same_json v w"
proof -
  have "(k, v) \<in> set d" using assms(2) by (rule map_of_SomeD)
  with assms(1) show ?thesis by (subst (asm) same_json.simps) (auto split: option.splits)
qed

lemma same_json_int: "same_json (PInt m) (PInt n) \<Longrightarrow> m = n"
  by (subst (asm) same_json.simps) (simp add: py_eq_def)

lemma dget_dict: "dget d k = v \<Longrightarrow> v \<noteq> PNone \<Longrightarrow> map_of d k = Some v"
  by (auto simp: dget_def split: option.splits)

lemma same_plan_build:
  assumes "same_json (PDict p) (PDict plan)" and "dget p ''build_number'' = PInt n" and "dget plan ''build_number'' = PInt b"
  shows "b = n"
proof -
  have "map_of p ''build_number'' = Some (PInt n)" using assms(2) by (rule dget_dict) simp
  from same_json_field [OF assms(1) this] obtain w where w: "map_of plan ''build_number'' = Some w" "same_json (PInt n) w" by blast
  with assms(3) have "w = PInt b" by (simp add: dget_def)
  with w(2) show ?thesis using same_json_int by blast
qed

lemma good_record_build: "good_record c rec \<Longrightarrow> \<exists>n. dget (plan_of rec) ''build_number'' = PInt n \<and> build_of rec = n \<and> 0 < n \<and> n \<le> c"
  by (auto simp: good_record_def build_of_def as_int_def split: pyval.splits)

lemma plan_of_dict: "dget (plan_of rec) k \<noteq> PNone \<Longrightarrow> \<exists>r p. rec = PDict r \<and> map_of r ''plan'' = Some (PDict p) \<and> plan_of rec = p"
  by (auto simp: plan_of_def as_dict_def dget_def split: pyval.splits option.splits if_splits)

lemma same_record_build:
  assumes "same_json rec (PDict [(''plan'', PDict plan), (''parent'', parent)])" and "good_record c rec"
    and "dget plan ''build_number'' = PInt b"
  shows "b = build_of rec"
proof -
  from good_record_build [OF assms(2)] obtain n where n: "dget (plan_of rec) ''build_number'' = PInt n" "build_of rec = n" by blast
  then obtain r p where r: "rec = PDict r" "map_of r ''plan'' = Some (PDict p)" "plan_of rec = p"
    using plan_of_dict [of rec "''build_number''"] by auto
  from same_json_field [OF assms(1) [unfolded r(1)] r(2)] have "same_json (PDict p) (PDict plan)" by auto
  from same_plan_build [OF this _ assms(3)] n r(3) show ?thesis by simp
qed

lemma compare_build_Inr: "compare_build plan test = Inr u \<longleftrightarrow> (\<exists>n. dget plan ''build_number'' = PInt n \<and> test n)"
  by (simp add: compare_build_def split: pyval.splits)

text \<open>A publication that may begin has a recorded number that is not below the floor, and above it when it is no promotion.\<close>

lemma publish_number:
  assumes "publish_from f l plan run parent promotion = Inr l'" and "good_ledger l"
  shows "\<exists>b k rec. dget plan ''build_number'' = PInt b \<and> l' = dset ''publication_floor'' (PInt b) l \<and>
    (k, rec) \<in> set (ledger_plans l) \<and> build_of rec = b \<and> ledger_floor l \<le> b \<and> (\<not> promotion \<longrightarrow> ledger_floor l < b)"
proof (cases promotion)
  case True
  with assms(1) obtain b where b: "dget plan ''build_number'' = PInt b" "ledger_floor l \<le> b"
    and l': "l' = dset ''publication_floor'' (PInt b) l"
    and one: "length (filter (\<lambda>(_, rec). same_json (PDict (plan_of rec)) (PDict plan)) (ledger_plans l)) = 1"
    by (auto simp: publish_from_def verify_promotion_order_def rbind_Inr_iff compare_build_Inr)
  from one have "filter (\<lambda>(_, rec). same_json (PDict (plan_of rec)) (PDict plan)) (ledger_plans l) \<noteq> []" by auto
  then obtain k rec where r: "(k, rec) \<in> set (ledger_plans l)" "same_json (PDict (plan_of rec)) (PDict plan)"
    by (auto simp: filter_empty_conv)
  with assms(2) have "good_record (ledger_counter l) rec" by (auto simp: good_ledger_def)
  from good_record_build [OF this] obtain n where "dget (plan_of rec) ''build_number'' = PInt n" "build_of rec = n" by blast
  with same_plan_build [OF r(2) _ b(1)] have "build_of rec = b" by simp
  with r(1) b l' True show ?thesis by blast
next
  case False
  with assms(1) obtain b key rec where b: "dget plan ''build_number'' = PInt b" "ledger_floor l < b"
    and l': "l' = dset ''publication_floor'' (PInt b) l" and k: "map_of (ledger_plans l) key = Some rec"
    and same: "same_json rec (PDict [(''plan'', PDict plan), (''parent'', parent)])"
    by (auto simp: publish_from_def verify_reservation_def rbind_Inr_iff compare_build_Inr split: option.splits)
  have m: "(key, rec) \<in> set (ledger_plans l)" using k by (rule map_of_SomeD)
  with assms(2) have "good_record (ledger_counter l) rec" by (auto simp: good_ledger_def)
  from same_record_build [OF same this b(1)] m b l' show ?thesis by force
qed

lemma publish_good:
  assumes "publish_from f l plan run parent promotion = Inr l'" and "good_ledger l"
  shows "good_ledger l' \<and> ledger_later l l'"
proof -
  from publish_number [OF assms] obtain b k rec where b: "l' = dset ''publication_floor'' (PInt b) l"
    "(k, rec) \<in> set (ledger_plans l)" "build_of rec = b" "ledger_floor l \<le> b" by blast
  with assms(2) have "good_record (ledger_counter l) rec" by (auto simp: good_ledger_def)
  from good_record_build [OF this] b(3) have "b \<le> ledger_counter l" by blast
  with b assms(2) show ?thesis by (simp add: good_ledger_def ledger_later_def ledger_reads_dset as_int_def)
qed

lemma reserve_good:
  assumes "reserve_from dig f r key l = Inr (plan, Some (create, l'))" and "good_ledger l"
  shows "good_ledger l' \<and> ledger_later l l'"
proof -
  from reserve_new [OF assms(1)] obtain sequence n where n: "map_of (ledger_plans l) key = None" "ledger_counter l < n"
    "create_plan dig (rq_base r) (PStr (rq_channel r)) sequence (rq_sha r) (rq_policy r) (PInt n) = Inr plan"
    "l' = recorded key plan (rq_parent r) n l" by blast
  from recorded_good [OF assms(2) n(1,2)] created_build [OF n(3)] n(4) show ?thesis by blast
qed

lemma ledger_later_refl: "ledger_later l l"
  by (simp add: ledger_later_def)

lemma ledger_later_trans: "ledger_later a b \<Longrightarrow> ledger_later b c \<Longrightarrow> ledger_later a c"
  by (auto simp: ledger_later_def intro: map_le_trans)

lemma ledger_write_good: "ledger_write dig l l' \<Longrightarrow> good_ledger l \<Longrightarrow> good_ledger l' \<and> ledger_later l l'"
  by (induction rule: ledger_write.induct) (blast dest: reserve_good publish_good)+

interpretation ledger: guarded_store good_ledger ledger_later "ledger_write dig" for dig
  by unfold_locales (auto intro: ledger_later_refl ledger_later_trans dest: ledger_write_good)

section \<open>Compare-and-swap makes writes atomic\<close>

definition current_ledger :: "repository \<Rightarrow> pydict" where
  "current_ledger w = (case rp_ledger w of None \<Rightarrow> empty_ledger | Some l \<Rightarrow> l)"

text \<open>Publications from the newest to the oldest never go down, and one that is no promotion goes up.\<close>

definition floors_rise :: "(bool \<times> int) list \<Rightarrow> bool" where
  "floors_rise ps = sorted_wrt (\<lambda>(promotion, new) (_, old). old \<le> new \<and> (\<not> promotion \<longrightarrow> old < new)) ps"

text \<open>What a process may hold: a committed version under its own identity, or the empty ledger under none.\<close>

definition known_version :: "(pydict \<Rightarrow> string) \<Rightarrow> pydict list \<Rightarrow> pydict \<Rightarrow> string option \<Rightarrow> bool" where
  "known_version blob versions l sha =
     (case sha of None \<Rightarrow> l = empty_ledger | Some h \<Rightarrow> l \<in> set versions \<and> h = blob l)"

lemma known_version_simps [simp]:
  "known_version blob vs l None \<longleftrightarrow> l = empty_ledger"
  "known_version blob vs l (Some h) \<longleftrightarrow> l \<in> set vs \<and> h = blob l"
  by (simp_all add: known_version_def)

lemma known_version_more: "known_version blob vs l sha \<Longrightarrow> known_version blob (v # vs) l sha"
  by (cases sha) auto

definition repository_ok :: "(pydict \<Rightarrow> string) \<Rightarrow> (pyval \<Rightarrow> string res) \<Rightarrow> repository \<Rightarrow> bool" where
  "repository_ok blob dig w =
     (successively (\<lambda>new old. ledger_write dig old new) (rp_versions w @ [empty_ledger]) \<and>
      rp_ledger w = (case rp_versions w of [] \<Rightarrow> None | l # _ \<Rightarrow> Some l) \<and>
      inj_on blob (set (rp_versions w)) \<and>
      (\<forall>p l sha. rp_views w p = Some (l, sha) \<longrightarrow>
         known_version blob (rp_versions w) l sha) \<and>
      floors_rise (rp_published w) \<and> (\<forall>(_, n)\<in>set (rp_published w). n \<le> ledger_floor (current_ledger w)))"

lemma good_empty: "good_ledger empty_ledger"
  by (simp add: good_ledger_def ledger_floor_def ledger_counter_def ledger_plans_def empty_ledger_def as_int_def as_dict_def)

lemma repository_ok_init: "repository_ok blob dig repository_init"
  by (simp add: repository_ok_def repository_init_def floors_rise_def)

lemma current_newest: "repository_ok blob dig w \<Longrightarrow> current_ledger w = hd (rp_versions w @ [empty_ledger])"
  by (cases "rp_versions w") (simp_all add: repository_ok_def current_ledger_def)

lemma current_good:
  assumes "repository_ok blob dig w"
  shows "good_ledger (current_ledger w)"
proof -
  have "\<forall>l\<in>set (rp_versions w @ [empty_ledger]). good_ledger l"
    by (rule ledger.chain_good [where dig = dig]) (use assms good_empty in \<open>simp_all add: repository_ok_def\<close>)
  then show ?thesis unfolding current_newest [OF assms] by (cases "rp_versions w") simp_all
qed

text \<open>A process whose write GitHub accepts had read the ledger that is committed now.\<close>

lemma accepted_write_is_current:
  assumes "repository_ok blob dig w" and "rp_views w p = Some (l, sha)" and "sha = map_option blob (rp_ledger w)"
  shows "l = current_ledger w"
proof (cases sha)
  case None
  with assms show ?thesis by (fastforce simp: repository_ok_def current_ledger_def)
next
  case (Some h)
  with assms(3) obtain c where c: "rp_ledger w = Some c" "h = blob c" by (cases "rp_ledger w") simp_all
  have "known_version blob (rp_versions w) l sha" using assms(1,2) by (simp add: repository_ok_def)
  then have "l \<in> set (rp_versions w)" "h = blob l" using Some by simp_all
  moreover have "c \<in> set (rp_versions w)" using assms(1) c(1) by (auto simp: repository_ok_def split: list.splits)
  ultimately have "l = c" using assms(1) c(2) by (auto simp: repository_ok_def inj_on_def)
  with c(1) show ?thesis by (simp add: current_ledger_def)
qed

lemma commit_ok:
  assumes "repository_ok blob dig w" and "ledger_write dig (current_ledger w) l'" and "collision_free blob l' w"
    and "ps = rp_published w \<or> (\<exists>promotion. ps = (promotion, ledger_floor l') # rp_published w \<and>
      (\<not> promotion \<longrightarrow> ledger_floor (current_ledger w) < ledger_floor l'))"
  shows "repository_ok blob dig ((commit p l' w)\<lparr>rp_published := ps\<rparr>)"
proof -
  have later: "ledger_later (current_ledger w) l'" by (rule ledger.write_later [OF current_good [OF assms(1)] assms(2)])
  have floors: "ledger_floor (current_ledger w) \<le> ledger_floor l'" using later by (simp add: ledger_later_def)
  have chain: "successively (\<lambda>new old. ledger_write dig old new) (l' # rp_versions w @ [empty_ledger])"
    using assms(1,2) current_newest [OF assms(1)] by (cases "rp_versions w") (simp_all add: repository_ok_def)
  have inj: "inj_on blob (insert l' (set (rp_versions w)))"
    using assms(1,3) by (fastforce simp: repository_ok_def collision_free_def inj_on_def)
  have bound: "n \<le> ledger_floor (current_ledger w)" if "(pr, n) \<in> set (rp_published w)" for pr n
    using assms(1) that by (auto simp: repository_ok_def)
  have rise: "floors_rise ps" "\<forall>(_, n)\<in>set ps. n \<le> ledger_floor l'"
    using assms(1,4) bound floors by (fastforce simp: repository_ok_def floors_rise_def)+
  have views: "known_version blob (l' # rp_versions w) v sha"
    if "((rp_views w)(p := None)) q = Some (v, sha)" for q v sha
    using assms(1) that by (auto simp: repository_ok_def intro!: known_version_more split: if_splits)
  show ?thesis
    unfolding repository_ok_def commit_def current_ledger_def using chain inj rise views by simp
qed

lemma fetched_view:
  assumes "serves b64decode parse blob (rp_ledger w) f" and "read_state b64decode parse f = Inr (l, sha)"
    and "rp_ledger w = (case rp_versions w of [] \<Rightarrow> None | l # _ \<Rightarrow> Some l)"
  shows "known_version blob (rp_versions w) l sha"
proof (cases "rp_ledger w")
  case None
  with assms(1,2) show ?thesis by (auto simp: serves_def read_state_def rbind_Inr_iff)
next
  case (Some c)
  obtain v where v: "fg_content f = Inr v" using assms(2) by (auto simp: read_state_def rbind_Inr_iff)
  with assms(1) Some obtain d where d: "fg_content f = Inr (PDict d)" by (cases v) (simp_all add: serves_def)
  obtain s where s: "dget d ''content'' = PStr s"
    using assms(1) Some d by (cases "dget d ''content''") (simp_all add: serves_def)
  have sha: "dget d ''sha'' = PStr (blob c)"
    and raw: "case b64decode (filter (\<lambda>c. \<not> is_space c) s) of Inr raw \<Rightarrow> parse raw = Inr (PDict c) | _ \<Rightarrow> False"
    using assms(1) Some d s by (simp_all add: serves_def)
  from raw obtain raw where r: "b64decode (filter (\<lambda>c. \<not> is_space c) s) = Inr raw" "parse raw = Inr (PDict c)"
    by (cases "b64decode (filter (\<lambda>c. \<not> is_space c) s)") simp_all
  have m: "map_of d ''sha'' = Some (PStr (blob c))" "map_of d ''content'' = Some (PStr s)"
    using sha s by (simp_all add: dget_dict)
  have "check_ledger (PDict c) = Inr l" and "sha = Some (blob c)"
    using assms(2) d r m by (auto simp: read_state_def rbind_Inr_iff dgetitem_def dget_or_def)
  moreover from this(1) have "l = c" by (auto simp: check_ledger_def rbind_Inr_iff)
  moreover have "c \<in> set (rp_versions w)" using assms(3) Some by (auto split: list.splits)
  ultimately show ?thesis by simp
qed

lemma views_ok:
  assumes "repository_ok blob dig w"
    and "\<And>q l sha. views q = Some (l, sha) \<Longrightarrow> rp_views w q = Some (l, sha) \<or>
      known_version blob (rp_versions w) l sha"
  shows "repository_ok blob dig (w\<lparr>rp_views := views\<rparr>)"
proof -
  have "known_version blob (rp_versions w) l sha"
    if "views q = Some (l, sha)" for q l sha
    using assms(2) [OF that] assms(1) by (auto simp: repository_ok_def)
  moreover have "current_ledger (w\<lparr>rp_views := views\<rparr>) = current_ledger w" by (simp add: current_ledger_def)
  ultimately show ?thesis using assms(1) unfolding repository_ok_def by simp
qed

lemma repository_ok_step:
  assumes "ledger_step b64decode parse blob dig w w'" and "repository_ok blob dig w"
  shows "repository_ok blob dig w'"
  using assms
proof (induction rule: ledger_step.induct)
  case (fetch w f l sha p)
  have "known_version blob (rp_versions w) l sha"
    by (rule fetched_view [OF fetch(1,2)]) (use fetch(3) in \<open>simp add: repository_ok_def\<close>)
  then show ?case by (intro views_ok [OF fetch(3)]) (auto split: if_splits)
next
  case (reserve w p l sha r run f plan create l')
  have l: "l = current_ledger w" by (rule accepted_write_is_current [OF reserve(6,1,4)])
  have "ledger_write dig (current_ledger w) l'" using reserve(3) unfolding l by (rule by_reserve)
  from commit_ok [OF reserve(6) this reserve(5), where p = p and ps = "rp_published w"]
  show ?case by (simp add: commit_def)
next
  case (publish w p l sha run n f plan parent promotion l')
  have l: "l = current_ledger w" by (rule accepted_write_is_current [OF publish(6,1,4)])
  have w: "ledger_write dig (current_ledger w) l'" using publish(3) unfolding l by (rule by_publish)
  have "\<not> promotion \<longrightarrow> ledger_floor (current_ledger w) < ledger_floor l'"
    using publish_number [OF publish(3) [unfolded l] current_good [OF publish(6)]]
    by (auto simp: ledger_reads_dset as_int_def)
  with commit_ok [OF publish(6) w publish(5), where p = p] show ?case by blast
next
  case (abandon w p)
  show ?case by (rule views_ok [OF abandon]) (auto split: if_splits)
qed

lemma repository_ok_run:
  "ledger_run b64decode parse blob dig w w' \<Longrightarrow> repository_ok blob dig w \<Longrightarrow> repository_ok blob dig w'"
  by (induction rule: ledger_run.induct) (blast intro: repository_ok_step)+

text \<open>
  C21: whatever release runs do to the ledger at the same time, with writes rejected or abandoned at any
  point, the committed ledger never gives two runs one native build number, every number is positive
  and at most the counter, the publication floor is at most the counter, and nothing an earlier version
  said is taken back: the counter and the floor have not decreased and every reservation is still there
  as it was recorded.
\<close>

theorem ledger_history_only_grows:
  assumes "ledger_run b64decode parse blob dig repository_init w" and "rp_ledger w = Some l"
  shows "distinct (map (\<lambda>(k, rec). build_of rec) (ledger_plans l)) \<and>
    (\<forall>(k, rec)\<in>set (ledger_plans l). 0 < build_of rec \<and> build_of rec \<le> ledger_counter l) \<and>
    0 \<le> ledger_floor l \<and> ledger_floor l \<le> ledger_counter l \<and>
    (\<forall>old\<in>set (rp_versions w). ledger_counter old \<le> ledger_counter l \<and> ledger_floor old \<le> ledger_floor l \<and>
       (\<forall>k rec. map_of (ledger_plans old) k = Some rec \<longrightarrow> map_of (ledger_plans l) k = Some rec))"
proof -
  have ok: "repository_ok blob dig w" by (rule repository_ok_run [OF assms(1) repository_ok_init])
  have l: "current_ledger w = l" using assms(2) by (simp add: current_ledger_def)
  have g: "good_ledger l" using current_good [OF ok] l by simp
  have builds: "0 < build_of rec \<and> build_of rec \<le> ledger_counter l" if "(k, rec) \<in> set (ledger_plans l)" for k rec
    using g that good_record_build [of "ledger_counter l" rec] by (auto simp: good_ledger_def)
  have "ledger_later old l" if "old \<in> set (rp_versions w)" for old
  proof -
    have "ledger_later old (hd (rp_versions w @ [empty_ledger]))"
      by (rule ledger.chain_newest [where dig = dig]) (use ok that good_empty in \<open>simp_all add: repository_ok_def\<close>)
    then show ?thesis using current_newest [OF ok] l by simp
  qed
  then have "ledger_counter old \<le> ledger_counter l \<and> ledger_floor old \<le> ledger_floor l \<and>
       (\<forall>k rec. map_of (ledger_plans old) k = Some rec \<longrightarrow> map_of (ledger_plans l) k = Some rec)"
    if "old \<in> set (rp_versions w)" for old
    using that by (fastforce simp: ledger_later_def map_le_def dom_def)
  with g builds show ?thesis by (auto simp: good_ledger_def)
qed

text \<open>
  C22: publications consume build numbers: of any two that were committed, the later one has at least
  the number of the earlier, and a greater one unless it promotes the bytes of an accepted candidate.
\<close>

theorem publications_never_go_back:
  assumes "ledger_run b64decode parse blob dig repository_init w"
    and "i < j" and "j < length (rp_published w)"
  shows "snd (rp_published w ! j) \<le> snd (rp_published w ! i) \<and>
    (\<not> fst (rp_published w ! i) \<longrightarrow> snd (rp_published w ! j) < snd (rp_published w ! i))"
proof -
  have rise: "floors_rise (rp_published w)"
    using repository_ok_run [OF assms(1) repository_ok_init] by (simp add: repository_ok_def)
  obtain p n where i: "rp_published w ! i = (p, n)" by (cases "rp_published w ! i")
  obtain q m where j: "rp_published w ! j = (q, m)" by (cases "rp_published w ! j")
  from sorted_wrt_nth_less [OF rise [unfolded floors_rise_def] assms(2,3)] show ?thesis by (simp add: i j)
qed

lemma later_record: "ledger_later l l' \<Longrightarrow> map_of (ledger_plans l) k = Some rec \<Longrightarrow> map_of (ledger_plans l') k = Some rec"
  by (fastforce simp: ledger_later_def map_le_def dom_def)

text \<open>
  a release run that is retried after its reservation was committed gets the same plan again and
  writes nothing, whatever other runs have written since and whatever GitHub answers about tags.
\<close>

theorem retry_returns_reserved_plan:
  assumes "reserve_from dig f r key l = Inr (plan, Some (create, l'))" and "ledger_later l' l''"
    and "\<forall>h. dig (rq_policy r) = Inr h \<longrightarrow> digest_text h" and "same_json (rq_parent r) (rq_parent r)"
  shows "reserve_from dig f' r key l'' = Inr (plan, None)"
proof -
  from reserve_new [OF assms(1)] obtain sequence n where
    c: "create_plan dig (rq_base r) (PStr (rq_channel r)) sequence (rq_sha r) (rq_policy r) (PInt n) = Inr plan"
    and l': "l' = recorded key plan (rq_parent r) n l" by blast
  have "map_of (ledger_plans l') key = Some (PDict [(''plan'', PDict plan), (''parent'', rq_parent r)])"
    unfolding l' recorded_reads by simp
  from later_record [OF assms(2) this]
  have m: "map_of (ledger_plans l'') key = Some (PDict [(''plan'', PDict plan), (''parent'', rq_parent r)])" .
  have v: "validate_plan dig (PDict plan) (Some (rq_policy r)) (Some (rq_sha r)) = Inr plan"
    using created_plan_checks [OF c assms(3)] by blast
  from create_planD [OF c] obtain version where "identity (rq_base r) (PStr (rq_channel r)) sequence = Inr version" by blast
  then have b: "py_eq (rq_base r) (rq_base r)" by (rule identity_cases) (simp_all add: py_eq_def)
  show ?thesis
    using v b assms(4) created_build [OF c] by (simp add: reserve_from_def m reuse_def as_dict_def ensure_def)
qed

section \<open>A first release\<close>

definition demo_request :: request where
  "demo_request = \<lparr>rq_policy = demo_policy, rq_base = PStr ''1.4.0'', rq_channel = ''beta'', rq_sha = PStr demo_sha,
     rq_run = PInt 77, rq_attempt = 1, rq_stamp = ''20260102030405'', rq_parent = PNone\<rparr>"

text \<open>Nothing is there yet, apart from two older tags.\<close>

definition demo_forge :: "pyval \<Rightarrow> forge" where
  "demo_forge content = \<lparr>fg_content = Inr content, fg_branch = Inr PNone, fg_branch_again = Inr PNone,
     fg_tags = Inr [[(''name'', PStr ''v1.4.0-beta.1'')], [(''name'', PStr ''v1.3.0'')]], fg_releases = Inr [],
     fg_tag_ref = (\<lambda>_. Inr PNone), fg_tag_release = (\<lambda>_. Inr PNone)\<rparr>"

definition demo_reserved :: "pydict \<times> pydict" where
  "demo_reserved =
     (case reserve_from demo_digest (demo_forge PNone) demo_request ''77'' empty_ledger of
        Inr (plan, Some (_, l)) \<Rightarrow> (plan, l) | _ \<Rightarrow> ([], []))"

lemma demo_reserve:
  "reserve_from demo_digest (demo_forge PNone) demo_request ''77'' empty_ledger = Inr (fst demo_reserved, Some (True, snd demo_reserved))"
proof -
  have "case reserve_from demo_digest (demo_forge PNone) demo_request ''77'' empty_ledger of
      Inr (plan, Some (b, l)) \<Rightarrow> b | _ \<Rightarrow> False" by code_simp
  then show ?thesis
    by (auto simp: demo_reserved_def split: sum.splits prod.splits option.splits)
qed

text \<open>Two runs, each reserving and then publishing; versions of the file are told apart by counter and floor.\<close>

definition demo_second :: request where
  "demo_second = demo_request\<lparr>rq_run := PInt 78\<rparr>"

definition demo_published :: pydict where
  "demo_published =
     (case publish_from (demo_forge PNone) (snd demo_reserved) (fst demo_reserved) (PInt 77) PNone False of Inr l \<Rightarrow> l | _ \<Rightarrow> [])"

definition demo_reserved_second :: "pydict \<times> pydict" where
  "demo_reserved_second =
     (case reserve_from demo_digest (demo_forge PNone) demo_second ''78'' demo_published of
        Inr (plan, Some (_, l)) \<Rightarrow> (plan, l) | _ \<Rightarrow> ([], []))"

definition demo_published_second :: pydict where
  "demo_published_second =
     (case publish_from (demo_forge PNone) (snd demo_reserved_second) (fst demo_reserved_second) (PInt 78) PNone False of
        Inr l \<Rightarrow> l | _ \<Rightarrow> [])"

definition demo_blob :: "pydict \<Rightarrow> string" where
  "demo_blob l = show_int (10 * ledger_counter l + ledger_floor l) @ replicate 38 (CHR ''0'')"

definition demo_parse :: "string \<Rightarrow> pyval res" where
  "demo_parse s =
     (case filter (\<lambda>l. demo_blob l = s) [snd demo_reserved, demo_published, snd demo_reserved_second] of
        l # _ \<Rightarrow> Inr (PDict l) | [] \<Rightarrow> Inl ValueError)"

definition demo_file :: "pydict \<Rightarrow> forge" where
  "demo_file l = demo_forge (PDict [(''type'', PStr ''file''), (''encoding'', PStr ''base64''),
     (''content'', PStr (demo_blob l)), (''sha'', PStr (demo_blob l))])"

lemma demo_publish:
  "publish_from (demo_forge PNone) (snd demo_reserved) (fst demo_reserved) (PInt 77) PNone False = Inr demo_published"
proof -
  have "case publish_from (demo_forge PNone) (snd demo_reserved) (fst demo_reserved) (PInt 77) PNone False of
      Inr l \<Rightarrow> True | _ \<Rightarrow> False" by code_simp
  then show ?thesis by (auto simp: demo_published_def split: sum.splits)
qed

lemma demo_reserve_second:
  "reserve_from demo_digest (demo_forge PNone) demo_second ''78'' demo_published =
     Inr (fst demo_reserved_second, Some (True, snd demo_reserved_second))"
proof -
  have "case reserve_from demo_digest (demo_forge PNone) demo_second ''78'' demo_published of
      Inr (plan, Some (b, l)) \<Rightarrow> b | _ \<Rightarrow> False" by code_simp
  then show ?thesis by (auto simp: demo_reserved_second_def split: sum.splits prod.splits option.splits)
qed

lemma demo_publish_second:
  "publish_from (demo_forge PNone) (snd demo_reserved_second) (fst demo_reserved_second) (PInt 78) PNone False =
     Inr demo_published_second"
proof -
  have "case publish_from (demo_forge PNone) (snd demo_reserved_second) (fst demo_reserved_second) (PInt 78) PNone False of
      Inr l \<Rightarrow> True | _ \<Rightarrow> False" by code_simp
  then show ?thesis by (auto simp: demo_published_second_def split: sum.splits)
qed

lemma demo_numbers:
  "ledger_counter (snd demo_reserved) = 1" "ledger_floor (snd demo_reserved) = 0"
  "ledger_counter demo_published = 1" "ledger_floor demo_published = 1"
  "ledger_counter (snd demo_reserved_second) = 2" "ledger_floor (snd demo_reserved_second) = 1"
  "ledger_counter demo_published_second = 2" "ledger_floor demo_published_second = 2"
  by code_simp+

lemma demo_blob_values:
  "demo_blob (snd demo_reserved) = ''10'' @ replicate 38 (CHR ''0'')"
  "demo_blob demo_published = ''11'' @ replicate 38 (CHR ''0'')"
  "demo_blob (snd demo_reserved_second) = ''21'' @ replicate 38 (CHR ''0'')"
  "demo_blob demo_published_second = ''22'' @ replicate 38 (CHR ''0'')"
  unfolding demo_blob_def demo_numbers by code_simp+

lemma demo_checked:
  "check_ledger (PDict (snd demo_reserved)) = Inr (snd demo_reserved)"
  "check_ledger (PDict demo_published) = Inr demo_published"
  "check_ledger (PDict (snd demo_reserved_second)) = Inr (snd demo_reserved_second)"
  by code_simp+

lemma demo_parsed:
  "demo_parse (demo_blob (snd demo_reserved)) = Inr (PDict (snd demo_reserved))"
  "demo_parse (demo_blob demo_published) = Inr (PDict demo_published)"
  "demo_parse (demo_blob (snd demo_reserved_second)) = Inr (PDict (snd demo_reserved_second))"
  by (simp_all add: demo_parse_def demo_blob_values)

lemma demo_read:
  assumes "l \<in> {snd demo_reserved, demo_published, snd demo_reserved_second}"
  shows "read_state Inr demo_parse (demo_file l) = Inr (l, Some (demo_blob l)) \<and> serves Inr demo_parse demo_blob (Some l) (demo_file l)"
proof -
  have v: "demo_blob l \<in> {''10'' @ replicate 38 (CHR ''0''), ''11'' @ replicate 38 (CHR ''0''), ''21'' @ replicate 38 (CHR ''0'')}"
    using assms demo_blob_values by blast
  have f: "filter (\<lambda>c. \<not> is_space c) (demo_blob l) = demo_blob l" "sha_text (demo_blob l)"
    using v by (elim insertE emptyE; simp only:; code_simp)+
  then have n: "length (demo_blob l) \<le> 4000000" by (simp add: sha_text_def)
  have p: "check_ledger (PDict l) = Inr l" "demo_parse (demo_blob l) = Inr (PDict l)"
    using assms demo_checked demo_parsed by auto
  show ?thesis
    using f n p by (simp add: read_state_def demo_file_def demo_forge_def dgetitem_def serves_def ensure_def)
qed

abbreviation demo_step :: "repository \<Rightarrow> repository \<Rightarrow> bool" where
  "demo_step \<equiv> ledger_step Inr demo_parse demo_blob demo_digest"

abbreviation demo_run :: "repository \<Rightarrow> repository \<Rightarrow> bool" where
  "demo_run \<equiv> ledger_run Inr demo_parse demo_blob demo_digest"

text \<open>One process after the other reads the file and commits what it computed.\<close>

lemma demo_reserves:
  assumes "demo_run repository_init w" and "rp_ledger w = Some l \<and> l \<in> {snd demo_reserved, demo_published, snd demo_reserved_second}"
    and "positive (rq_run r) = Inr n" and "reserve_from demo_digest f r (show_int n) l = Inr (plan, Some (create, l'))"
    and "collision_free demo_blob l' w"
  shows "demo_run repository_init (commit 0 l' (w\<lparr>rp_views := (rp_views w)(0 := Some (l, Some (demo_blob l)))\<rparr>))"
proof -
  let ?w = "w\<lparr>rp_views := (rp_views w)(0 := Some (l, Some (demo_blob l)))\<rparr>"
  have "demo_step w ?w" by (rule fetch [where f = "demo_file l"]) (use demo_read [of l] assms(2) in simp_all)
  moreover have "demo_step ?w (commit 0 l' ?w)"
    by (rule reserve [OF _ assms(3,4)]) (use assms(2,5) in \<open>simp_all add: collision_free_def\<close>)
  ultimately show ?thesis using assms(1) by (blast intro: move)
qed

lemma demo_publishes:
  assumes "demo_run repository_init w" and "rp_ledger w = Some l \<and> l \<in> {snd demo_reserved, demo_published, snd demo_reserved_second}"
    and "positive run = Inr n" and "publish_from f l plan run PNone promotion = Inr l'" and "collision_free demo_blob l' w"
  shows "demo_run repository_init ((commit 0 l' (w\<lparr>rp_views := (rp_views w)(0 := Some (l, Some (demo_blob l)))\<rparr>))
    \<lparr>rp_published := (promotion, ledger_floor l') # rp_published w\<rparr>)"
proof -
  let ?w = "w\<lparr>rp_views := (rp_views w)(0 := Some (l, Some (demo_blob l)))\<rparr>"
  have a: "demo_step w ?w" by (rule fetch [where f = "demo_file l"]) (use demo_read [of l] assms(2) in simp_all)
  have p: "rp_views ?w 0 = Some (l, Some (demo_blob l))" by simp
  have "Some (demo_blob l) = map_option demo_blob (rp_ledger ?w)" "collision_free demo_blob l' ?w"
    using assms(2,5) by (simp_all add: collision_free_def)
  from publish [OF p assms(3,4) this, of Inr demo_parse demo_digest]
  have "demo_step ?w ((commit 0 l' ?w)\<lparr>rp_published := (promotion, ledger_floor l') # rp_published w\<rparr>)" by simp
  with a show ?thesis using assms(1) by (blast intro: move)
qed

text \<open>The repository after both releases.\<close>

definition demo_versions :: "pydict list" where
  "demo_versions = [demo_published_second, snd demo_reserved_second, demo_published, snd demo_reserved]"

lemma demo_history:
  "\<exists>w. demo_run repository_init w \<and> rp_ledger w = Some demo_published_second \<and> rp_versions w = demo_versions \<and>
    rp_published w = [(False, 2), (False, 1)]"
proof -
  have k: "positive (rq_run demo_request) = Inr 77" "positive (rq_run demo_second) = Inr 78"
    "positive (PInt 77) = Inr 77" "positive (PInt 78) = Inr 78" "show_int 77 = ''77''" "show_int 78 = ''78''" by code_simp+
  let ?v = "repository_init\<lparr>rp_views := (rp_views repository_init)(0 := Some (empty_ledger, None))\<rparr>"
  have "read_state Inr demo_parse (demo_forge PNone) = Inr (empty_ledger, None)"
    by (simp add: read_state_def demo_forge_def ensure_def)
  then have "demo_step repository_init ?v"
    by (intro fetch [where f = "demo_forge PNone"]) (simp_all add: serves_def repository_init_def demo_forge_def)
  moreover have "demo_step ?v (commit 0 (snd demo_reserved) ?v)"
    by (rule reserve [OF _ k(1) demo_reserve [folded k(5)], where sha = None])
      (simp_all add: repository_init_def collision_free_def)
  ultimately have "demo_run repository_init (commit 0 (snd demo_reserved) ?v)" by (blast intro: stay move)
  then obtain w1 where w1: "demo_run repository_init w1" "rp_ledger w1 = Some (snd demo_reserved)"
    "rp_versions w1 = [snd demo_reserved]" "rp_published w1 = []"
    by (force simp: commit_def repository_init_def)
  have "collision_free demo_blob demo_published w1" by (simp add: collision_free_def w1 demo_blob_values)
  from demo_publishes [OF w1(1) _ k(3) demo_publish this] w1(2) obtain w2 where
    w2: "demo_run repository_init w2" "rp_ledger w2 = Some demo_published"
    "rp_versions w2 = [demo_published, snd demo_reserved]" "rp_published w2 = [(False, 1)]"
    by (force simp: commit_def w1 demo_numbers)
  have "collision_free demo_blob (snd demo_reserved_second) w2" by (simp add: collision_free_def w2 demo_blob_values)
  from demo_reserves [OF w2(1) _ k(2) demo_reserve_second [folded k(6)] this] w2(2) obtain w3 where
    w3: "demo_run repository_init w3" "rp_ledger w3 = Some (snd demo_reserved_second)"
    "rp_versions w3 = [snd demo_reserved_second, demo_published, snd demo_reserved]" "rp_published w3 = [(False, 1)]"
    by (force simp: commit_def w2)
  have "collision_free demo_blob demo_published_second w3" by (simp add: collision_free_def w3 demo_blob_values)
  from demo_publishes [OF w3(1) _ k(4) demo_publish_second this] w3(2) show ?thesis
    by (force simp: commit_def w3 demo_numbers demo_versions_def)
qed

theorem ledger_history_only_grows_witness:
  "\<exists>w. ledger_run Inr demo_parse demo_blob demo_digest repository_init w \<and> rp_ledger w = Some demo_published_second \<and>
     ledger_counter demo_published_second = 2 \<and> length (rp_versions w) = 4 \<and>
     distinct (map (\<lambda>(k, rec). build_of rec) (ledger_plans demo_published_second))"
proof -
  from demo_history obtain w where w: "demo_run repository_init w" "rp_ledger w = Some demo_published_second"
    "rp_versions w = demo_versions" by blast
  from ledger_history_only_grows [OF w(1,2)] w demo_numbers(7) show ?thesis by (force simp: demo_versions_def)
qed

theorem publications_never_go_back_witness:
  "\<exists>w. ledger_run Inr demo_parse demo_blob demo_digest repository_init w \<and>
     rp_published w = [(False, 2), (False, 1)] \<and> snd (rp_published w ! 1) < snd (rp_published w ! 0)"
proof -
  from demo_history obtain w where w: "demo_run repository_init w" "rp_published w = [(False, 2), (False, 1)]" by blast
  from publications_never_go_back [OF w(1), of 0 1] w show ?thesis by auto
qed

theorem retry_returns_reserved_plan_witness:
  "reserve_from demo_digest (demo_forge PNone) demo_request ''77'' demo_published_second = Inr (fst demo_reserved, None) \<and>
   dget (fst demo_reserved) ''tag'' = PStr ''v1.4.0-beta.2''"
proof -
  have d: "\<forall>h. demo_digest (rq_policy demo_request) = Inr h \<longrightarrow> digest_text h"
  proof -
    have "digest_text (replicate 64 (CHR ''a''))" by code_simp
    then show ?thesis by (simp add: demo_digest_def)
  qed
  have s: "same_json (rq_parent demo_request) (rq_parent demo_request)" by code_simp
  have p: "dget (fst demo_reserved) ''tag'' = PStr ''v1.4.0-beta.2''" by code_simp
  have good: "good_ledger (snd demo_reserved)" "good_ledger demo_published" "good_ledger (snd demo_reserved_second)"
    using reserve_good [OF demo_reserve good_empty] publish_good [OF demo_publish] reserve_good [OF demo_reserve_second] by blast+
  have "ledger_later (snd demo_reserved) demo_published_second"
    using publish_good [OF demo_publish good(1)] reserve_good [OF demo_reserve_second good(2)]
      publish_good [OF demo_publish_second good(3)] ledger_later_trans by blast
  from retry_returns_reserved_plan [OF demo_reserve this d s] p show ?thesis by blast
qed

end
