(* ===== verification/Release_Notes.thy ===== *)
theory Release_Notes
  imports Release_State
begin

text \<open>
  The release notes part of \<^verbatim>\<open>scripts/release_control.py\<close>: the section of the change log at the source
  commit is found with a small Markdown scanner that knows fences, inline code and comments. Text positions
  are those of the code; Base64, UTF-8 and the SHA-1 digest are parameters.
\<close>

section \<open>Text\<close>

definition SPACE :: char where "SPACE = CHR 0x20"
definition TAB :: char where "TAB = CHR 0x09"
definition CR :: char where "CR = CHR 0x0D"
definition NL :: char where "NL = CHR 0x0A"
definition TICK :: char where "TICK = CHR 0x60"

definition blanks :: "char set" where
  "blanks = {SPACE, TAB, CR, NL}"

definition lstrip_set :: "char set \<Rightarrow> string \<Rightarrow> string" where
  "lstrip_set cs s = dropWhile (\<lambda>c. c \<in> cs) s"

definition rstrip_set :: "char set \<Rightarrow> string \<Rightarrow> string" where
  "rstrip_set cs s = rev (dropWhile (\<lambda>c. c \<in> cs) (rev s))"

definition strip_set :: "char set \<Rightarrow> string \<Rightarrow> string" where
  "strip_set cs s = rstrip_set cs (lstrip_set cs s)"

text \<open>How many of one character a text starts with.\<close>

definition leading :: "char \<Rightarrow> string \<Rightarrow> nat" where
  "leading c s = length (takeWhile (\<lambda>d. d = c) s)"

text \<open>\<^verbatim>\<open>io.StringIO(text)\<close> as an iterator: lines with their line feed.\<close>

fun text_lines :: "string \<Rightarrow> string list" where
  "text_lines [] = []"
| "text_lines (c # cs) =
     (if c = NL then [c] # text_lines cs
      else case text_lines cs of [] \<Rightarrow> [[c]] | l # ls \<Rightarrow> (c # l) # ls)"

text \<open>\<^verbatim>\<open>s.find(p)\<close>, as a position.\<close>

fun find_text :: "string \<Rightarrow> string \<Rightarrow> nat option" where
  "find_text p [] = (if p = [] then Some 0 else None)"
| "find_text p (c # cs) = (if startswith (c # cs) p then Some 0 else map_option Suc (find_text p cs))"

section \<open>Fences, inline code and comments\<close>

definition release_fence :: "string \<Rightarrow> (char \<times> nat \<times> string) option" where
  "release_fence line =
     (let content = lstrip_set {SPACE} line
      in if 3 < length line - length content then None
         else case content of
           [] \<Rightarrow> None
         | marker # _ \<Rightarrow>
             if marker \<notin> {TICK, CHR ''~''} \<or> leading marker content < 3 then None
             else Some (marker, leading marker content, drop (leading marker content) content))"

text \<open>The runs of backticks with their first and past-the-end positions.\<close>

function tick_runs :: "nat \<Rightarrow> string \<Rightarrow> (nat \<times> nat) list" where
  "tick_runs p s =
     (case s of
        [] \<Rightarrow> []
      | c # cs \<Rightarrow>
          if c = TICK then (p, p + leading TICK s) # tick_runs (p + leading TICK s) (drop (leading TICK s) s)
          else tick_runs (Suc p) cs)"
  by pat_completeness auto
termination
  by (relation "measure (\<lambda>(p, s). length s)") (auto simp: leading_def)

declare tick_runs.simps [simp del]

text \<open>The reverse pass: the end of the nearest later run of each length is remembered.\<close>

definition span_step :: "nat \<times> nat \<Rightarrow> (nat, nat) dict \<times> (nat, nat) dict \<Rightarrow> (nat, nat) dict \<times> (nat, nat) dict" where
  "span_step = (\<lambda>(start, end) (following, ends).
     (dset (end - start) end following,
      case map_of following (end - start) of Some q \<Rightarrow> dset start q ends | None \<Rightarrow> ends))"

definition code_span_ends :: "string \<Rightarrow> (nat, nat) dict" where
  "code_span_ends line = snd (fold span_step (rev (tick_runs 0 line)) ([], []))"

definition mask :: "string \<Rightarrow> string" where
  "mask s = map (\<lambda>c. if c \<in> {CR, NL} then c else SPACE) s"

text \<open>
  The scan of one line from position \<open>p\<close>, where \<open>s\<close> is the rest of the line. An end of inline code is
  always ahead (\<open>code_span_ahead\<close> below), which is why the scan ends.
\<close>

function comment_scan :: "(nat, nat) dict \<Rightarrow> nat \<Rightarrow> string \<Rightarrow> bool \<Rightarrow> string \<times> bool" where
  "comment_scan ends p s comment =
     (case s of
        [] \<Rightarrow> ([], comment)
      | c # cs \<Rightarrow>
          if comment then
            (case find_text ''-->'' s of
               None \<Rightarrow> (mask s, True)
             | Some i \<Rightarrow>
                 let (v, r) = comment_scan ends (p + i + 3) (drop (i + 3) s) False in (mask (take (i + 3) s) @ v, r))
          else if c = CHR 0x5C then
            (let (v, r) = comment_scan ends (p + 2) (drop 2 s) False in (take 2 s @ v, r))
          else case map_of ends p of
            Some q \<Rightarrow>
              let n = max 1 (q - p); (v, r) = comment_scan ends (p + n) (drop n s) False in (take n s @ v, r)
          | None \<Rightarrow>
              if startswith s ''<!--'' then comment_scan ends p s True
              else let (v, r) = comment_scan ends (Suc p) cs False in (c # v, r))"
  by pat_completeness auto
termination
  by (relation "measures [\<lambda>(ends, p, s, comment). length s, \<lambda>(ends, p, s, comment). if comment then 0 else 1]") auto

declare comment_scan.simps [simp del]

definition comment_line :: "string \<Rightarrow> bool \<Rightarrow> string \<times> bool" where
  "comment_line line comment = comment_scan (code_span_ends line) 0 line comment"

definition fence_closes :: "(char \<times> nat \<times> string) option \<Rightarrow> char \<times> nat \<Rightarrow> bool" where
  "fence_closes candidate fence =
     (case candidate of
        None \<Rightarrow> False
      | Some (marker, n, rest) \<Rightarrow> marker = fst fence \<and> snd fence \<le> n \<and> strip_set blanks rest = [])"

text \<open>Each line with whether it may be a heading and whether its content counts as guidance.\<close>

fun scan_lines :: "(char \<times> nat) option \<Rightarrow> bool \<Rightarrow> string list \<Rightarrow> (string \<times> bool \<times> bool) list" where
  "scan_lines fence comment [] = []"
| "scan_lines fence comment (line # rest) =
     (let candidate = release_fence line
      in case fence of
        Some f \<Rightarrow>
          (line, False, \<not> fence_closes candidate f) #
            scan_lines (if fence_closes candidate f then None else Some f) comment rest
      | None \<Rightarrow>
          if \<not> comment \<and> (case candidate of None \<Rightarrow> False | Some (m, n, info) \<Rightarrow> m = CHR ''~'' \<or> TICK \<notin> set info)
          then (line, False, False) # scan_lines (map_option (\<lambda>(m, n, info). (m, n)) candidate) comment rest
          else if \<not> comment \<and> (startswith line (replicate 4 SPACE) \<or> startswith line [TAB])
          then (line, False, True) # scan_lines None comment rest
          else let (visible, c) = comment_line line comment
               in (visible, True, True) # scan_lines None c rest)"

definition release_lines :: "string \<Rightarrow> (string \<times> bool \<times> bool) list" where
  "release_lines text = scan_lines None False (text_lines text)"

section \<open>Headings and sections\<close>

definition ends_blank :: "string \<Rightarrow> bool" where
  "ends_blank s = (s \<noteq> [] \<and> List.last s \<in> {SPACE, TAB})"

definition heading_title :: "string \<Rightarrow> string" where
  "heading_title content =
     (let title = strip_set blanks content; before = rstrip_set {CHR ''#''} title
      in if before = [] \<or> ends_blank before then rstrip_set {SPACE, TAB} before else title)"

type_synonym heading = "nat \<times> string \<times> nat \<times> nat"

text \<open>The heading a visible line is, when it is one, with the positions where it starts and ends.\<close>

definition heading_of :: "nat \<Rightarrow> string \<Rightarrow> heading option" where
  "heading_of offset line =
     (let indentation = leading SPACE line;
          h = (if indentation \<le> 3 then drop indentation line else line);
          level = leading (CHR ''#'') h
      in if 1 \<le> level \<and> level \<le> 6 \<and> (case drop level h of [] \<Rightarrow> True | c # _ \<Rightarrow> c \<in> blanks)
         then Some (level, heading_title (drop level h), offset, offset + length line) else None)"

fun headings_from :: "nat \<Rightarrow> (string \<times> bool \<times> bool) list \<Rightarrow> heading list" where
  "headings_from offset [] = []"
| "headings_from offset ((line, allowed, _) # rest) =
     (case (if allowed then heading_of offset line else None) of
        None \<Rightarrow> headings_from (offset + length line) rest
      | Some h \<Rightarrow> h # headings_from (offset + length line) rest)"

definition release_headings :: "string \<Rightarrow> heading list" where
  "release_headings text = headings_from 0 (release_lines text)"

definition slice :: "nat \<Rightarrow> nat \<Rightarrow> string \<Rightarrow> string" where
  "slice i j s = take (j - i) (drop i s)"

definition visible_text :: "string \<Rightarrow> string" where
  "visible_text text = concat (map fst (release_lines text))"

fun sections_of :: "nat \<Rightarrow> string \<Rightarrow> string \<Rightarrow> heading list \<Rightarrow> (string \<times> string \<times> string) list" where
  "sections_of level text visible [] = []"
| "sections_of level text visible ((l, title, _, start) # rest) =
     (let stop = (case rest of [] \<Rightarrow> length text | (_, _, next, _) # _ \<Rightarrow> next)
      in (if l = level then [(title, strip (slice start stop text), slice start stop visible)] else []) @
         sections_of level text visible rest)"

definition release_sections :: "string \<Rightarrow> nat \<Rightarrow> (string \<times> string \<times> string) list" where
  "release_sections text level =
     sections_of level text (visible_text text) (filter (\<lambda>(l, _). l \<le> level) (release_headings text))"

section \<open>Guidance\<close>

text \<open>\<^verbatim>\<open>expandtabs(4)\<close>, from a column.\<close>

fun expandtabs :: "nat \<Rightarrow> string \<Rightarrow> string" where
  "expandtabs col [] = []"
| "expandtabs col (c # cs) =
     (if c = TAB then replicate (4 - col mod 4) SPACE @ expandtabs 0 cs
      else c # expandtabs (if c \<in> {CR, NL} then 0 else Suc col) cs)"

text \<open>The container marker at the start of a text: its length, and whether it is a list item.\<close>

definition at_gap :: "string \<Rightarrow> bool" where
  "at_gap s = (case s of [] \<Rightarrow> True | c # _ \<Rightarrow> c \<in> {SPACE, TAB})"

definition container_marker :: "string \<Rightarrow> (nat \<times> bool) option" where
  "container_marker s =
     (case s of
        [] \<Rightarrow> None
      | c # cs \<Rightarrow>
          if c = CHR ''>'' then Some (1, False)
          else if c \<in> {CHR ''-'', CHR ''+'', CHR ''*''} then (if at_gap cs then Some (1, True) else None)
          else let n = length (takeWhile is_digit s)
               in (case drop n s of
                     d # ds \<Rightarrow> if 1 \<le> n \<and> n \<le> 9 \<and> d \<in> {CHR ''.'', CHR '')''} \<and> at_gap ds then Some (Suc n, True) else None
                   | [] \<Rightarrow> None))"

lemma container_marker_pos: "container_marker s = Some (n, b) \<Longrightarrow> 0 < n \<and> s \<noteq> []"
  by (auto simp: container_marker_def Let_def split: list.splits if_splits)

function container_scan :: "bool \<Rightarrow> string \<Rightarrow> string" where
  "container_scan list_item s =
     (case container_marker s of
        Some (n, item) \<Rightarrow>
          let r = drop n s; gap = length (takeWhile (\<lambda>c. c \<in> {SPACE, TAB}) r)
          in if 5 \<le> gap then r else container_scan item (drop gap r)
      | None \<Rightarrow> if list_item \<and> s \<in> {''[ ]'', ''[x]'', ''[X]''} then [] else s)"
  by pat_completeness auto
termination
  by (relation "measure (\<lambda>(i, s). length s)") (auto dest!: container_marker_pos)

declare container_scan.simps [simp del]

definition container_content :: "string \<Rightarrow> string" where
  "container_content line = container_scan False (strip (expandtabs 0 line))"

definition atx_heading :: "string \<Rightarrow> bool" where
  "atx_heading line =
     (let i = leading SPACE line; h = drop i line; n = leading (CHR ''#'') h
      in i \<le> 3 \<and> 1 \<le> n \<and> n \<le> 6 \<and> (case drop n h of [] \<Rightarrow> True | c # _ \<Rightarrow> c \<in> blanks))"

definition separator_line :: "string \<Rightarrow> bool" where
  "separator_line line =
     (let markers = filter (\<lambda>c. c \<notin> {SPACE, TAB}) (strip line)
      in 3 \<le> length markers \<and> hd markers \<in> {CHR ''-'', CHR ''*'', CHR ''_''} \<and> list_all (\<lambda>c. c = hd markers) markers)"

definition guiding_line :: "string \<times> bool \<times> bool \<Rightarrow> bool" where
  "guiding_line = (\<lambda>(line, allowed, guidance).
     guidance \<and> strip line \<noteq> [] \<and>
     (\<not> allowed \<or>
      (let l = container_content line
       in startswith l (replicate 4 SPACE) \<or> startswith l [TAB] \<or>
          l \<noteq> [] \<and> \<not> atx_heading l \<and> \<not> separator_line l)))"

definition has_guidance :: "string \<Rightarrow> bool" where
  "has_guidance text = list_ex guiding_line (release_lines text)"

definition underline :: "string \<Rightarrow> bool" where
  "underline line =
     (let i = leading SPACE line; r = drop i line
      in i \<le> 3 \<and> r \<noteq> [] \<and> hd r \<in> {CHR ''='', CHR ''-''} \<and>
         dropWhile (\<lambda>c. c \<in> {SPACE, TAB}) (drop (leading (hd r) r) r) \<in> {[], [NL], [CR, NL]})"

fun setext_scan :: "bool \<Rightarrow> (string \<times> string \<times> bool \<times> bool) list \<Rightarrow> bool" where
  "setext_scan paragraph [] = False"
| "setext_scan paragraph ((raw, line, allowed, _) # rest) =
     (if \<not> allowed then setext_scan False rest
      else if strip line = [] \<and> strip raw \<noteq> [] then setext_scan paragraph rest
      else if underline line then paragraph \<or> setext_scan False rest
      else setext_scan (strip line \<noteq> [] \<and> \<not> atx_heading line) rest)"

definition has_setext_heading :: "string \<Rightarrow> bool" where
  "has_setext_heading text = setext_scan False (zip (text_lines text) (release_lines text))"

section \<open>The notes of a release\<close>

definition tag_text :: "string \<Rightarrow> bool" where
  "tag_text tag =
     (case tag of
        [] \<Rightarrow> False
      | c # r \<Rightarrow>
          c = CHR ''v'' \<and> base_text (takeWhile (\<lambda>d. d \<noteq> CHR ''-'') r) \<and>
          (case dropWhile (\<lambda>d. d \<noteq> CHR ''-'') r of
             [] \<Rightarrow> True
           | _ # q \<Rightarrow>
               let channel = takeWhile (\<lambda>d. d \<noteq> CHR ''.'') q; s = drop (Suc (length channel)) q
               in channel \<in> {''beta'', ''rc''} \<and> positive_text s \<or> channel = ''nightly'' \<and> nightly_text s))"

definition tag_base :: "string \<Rightarrow> string" where
  "tag_base tag = takeWhile (\<lambda>d. d \<noteq> CHR ''-'') (tl tag)"

text \<open>The title of the section of a version: the version in brackets, and possibly a dash and some text.\<close>

definition version_title :: "string \<Rightarrow> string \<Rightarrow> bool" where
  "version_title base title =
     (let head = CHR ''['' # base @ '']''; rest = drop (length head) title; r = dropWhile (\<lambda>c. c \<in> {SPACE, TAB}) rest
      in startswith title head \<and>
         (r = [] \<or>
          rest \<noteq> r \<and> hd r = CHR ''-'' \<and> 3 \<le> length r \<and> r ! 1 \<in> {SPACE, TAB} \<and> NL \<notin> set r))"

definition utf8_length :: "string \<Rightarrow> int" where
  "utf8_length s = int (length s) + int (length (filter (\<lambda>c. \<not> is_ascii c) s))"

text \<open>The change log in a response: decoded, of the stated size and of the stated blob identity.\<close>

definition changelog_of ::
  "(string \<Rightarrow> string res) \<Rightarrow> (string \<Rightarrow> string res) \<Rightarrow> (string \<Rightarrow> string) \<Rightarrow> pyval \<Rightarrow> string res" where
  "changelog_of b64decode utf8 sha1 response =
     (case response of
        PDict r \<Rightarrow>
          rbind (ensure (dget r ''type'' = PStr ''file'' \<and> dget r ''path'' = PStr ''CHANGELOG.md'' \<and>
            dget r ''encoding'' = PStr ''base64'')) (\<lambda>_.
          case dget r ''content'' of
            PStr encoded \<Rightarrow>
              rbind (ensure (int (length encoded) \<le> 400000)) (\<lambda>_.
              rbind (rcatch (rbind (b64decode (filter (\<lambda>c. \<not> is_space c) encoded)) (\<lambda>raw.
                  rbind (utf8 raw) (\<lambda>t. Inr (raw, replace_str [CR, NL] [NL] t)))) [ValueError] (Inl RuntimeError)) (\<lambda>(raw, t).
              rbind (ensure (int (length raw) \<le> 250000 \<and> py_eq (dget r ''size'') (PInt (int (length raw))))) (\<lambda>_.
              rbind (ensure (dget r ''sha'' = PStr (sha1 (''blob '' @ show_int (int (length raw)) @ CHR 0x00 # raw)))) (\<lambda>_.
                Inr t))))
          | _ \<Rightarrow> Inl RuntimeError)
      | _ \<Rightarrow> Inl RuntimeError)"

definition version_sections :: "string \<Rightarrow> string \<Rightarrow> (string \<times> string) list" where
  "version_sections base changelog =
     map (\<lambda>(title, section, visible). (section, visible))
       (filter (\<lambda>(title, _). version_title base title) (release_sections changelog 2))"

text \<open>The first section under a heading, and whether it guides.\<close>

definition guided :: "string \<Rightarrow> string \<Rightarrow> bool" where
  "guided visible heading =
     (case filter (\<lambda>(title, _). title = heading) (release_sections visible 3) of
        (_, _, body) # _ \<Rightarrow> body \<noteq> [] \<and> has_guidance body
      | [] \<Rightarrow> False)"

definition notes_body :: "string \<Rightarrow> string \<Rightarrow> string \<Rightarrow> string" where
  "notes_body base notes provenance =
     ''## Changes in '' @ base @ [NL, NL] @ notes @ [NL, NL] @ ''## Build provenance'' @ [NL, NL] @ provenance"

definition release_notes ::
  "(string \<Rightarrow> string res) \<Rightarrow> (string \<Rightarrow> string res) \<Rightarrow> (string \<Rightarrow> string) \<Rightarrow> pydict res \<Rightarrow> pyval res \<Rightarrow>
     string \<Rightarrow> string \<Rightarrow> string res" where
  "release_notes b64decode utf8 sha1 policy response tag provenance =
     rbind policy (\<lambda>p.
       if dget p ''release_notes'' = PNone then Inr provenance
       else
         rbind (ensure (dget p ''release_notes'' = PStr ''CHANGELOG.md'')) (\<lambda>_.
         rbind (ensure (tag_text tag)) (\<lambda>_.
         rbind response (\<lambda>r.
         rbind (changelog_of b64decode utf8 sha1 r) (\<lambda>changelog.
           case version_sections (tag_base tag) changelog of
             [(notes, visible)] \<Rightarrow>
               rbind (ensure (notes \<noteq> [])) (\<lambda>_.
               rbind (ensure (\<not> has_setext_heading notes)) (\<lambda>_.
               rbind (ensure (guided visible ''Upgrade'' \<and> guided visible ''Security'')) (\<lambda>_.
               rbind (ensure (utf8_length (notes_body (tag_base tag) notes provenance) \<le> 125000)) (\<lambda>_.
                 Inr (notes_body (tag_base tag) notes provenance)))))
           | _ \<Rightarrow> Inl RuntimeError)))))"

section \<open>Masking keeps every position\<close>

definition masked :: "char \<Rightarrow> char \<Rightarrow> bool" where
  "masked t v = (v = t \<or> v = SPACE \<and> t \<noteq> CR \<and> t \<noteq> NL)"

lemma masked_same: "list_all2 masked s s"
  by (simp add: list_all2_same masked_def)

lemma masked_mask: "list_all2 masked s (mask s)"
  by (induction s) (simp_all add: mask_def masked_def)

lemma masked_append: "list_all2 masked a b \<Longrightarrow> list_all2 masked (drop n s) v \<Longrightarrow> a = take n s \<Longrightarrow> list_all2 masked s (b @ v)"
  using list_all2_appendI [of masked a b "drop n s" v] by simp

lemma comment_scan_masked: "list_all2 masked s (fst (comment_scan ends p s comment))"
proof (induction ends p s comment rule: comment_scan.induct)
  case (1 ends p s comment)
  note IH = 1
  show ?case
  proof (cases s)
    case Nil
    then show ?thesis by (simp add: comment_scan.simps)
  next
    case (Cons c cs)
    show ?thesis
    proof (cases comment)
      case True
      show ?thesis
      proof (cases "find_text ''-->'' s")
        case None
        then show ?thesis using True Cons masked_mask by (simp add: comment_scan.simps)
      next
        case (Some i)
        have "list_all2 masked (drop (i + 3) s) (fst (comment_scan ends (p + i + 3) (drop (i + 3) s) False))"
          by (rule IH(1) [OF Cons True Some])
        from masked_append [OF masked_mask this HOL.refl]
        show ?thesis using True Some Cons by (subst comment_scan.simps) (simp add: case_prod_beta Let_def)
      qed
    next
      case nc: False
      show ?thesis
      proof (cases "c = CHR 0x5C")
        case True
        have "list_all2 masked (drop 2 s) (fst (comment_scan ends (p + 2) (drop 2 s) False))"
          by (rule IH(2) [OF Cons nc True])
        from masked_append [OF masked_same this HOL.refl]
        show ?thesis using nc True Cons by (subst comment_scan.simps) (simp add: case_prod_beta Let_def)
      next
        case nb: False
        show ?thesis
        proof (cases "map_of ends p")
          case (Some q)
          have "list_all2 masked (drop (max 1 (q - p)) s) (fst (comment_scan ends (p + max 1 (q - p)) (drop (max 1 (q - p)) s) False))"
            by (rule IH(5) [OF Cons nc nb Some HOL.refl])
          from masked_append [OF masked_same this HOL.refl]
          show ?thesis using nc nb Some Cons by (subst comment_scan.simps) (simp add: case_prod_beta Let_def)
        next
          case None
          show ?thesis
          proof (cases "startswith s ''<!--''")
            case True
            have "list_all2 masked s (fst (comment_scan ends p s True))"
              by (rule IH(3) [OF Cons nc nb None True])
            then show ?thesis using nc nb None True Cons by (subst comment_scan.simps) simp
          next
            case False
            have "list_all2 masked cs (fst (comment_scan ends (Suc p) cs False))"
              by (rule IH(4) [OF Cons nc nb None False])
            then show ?thesis using nc nb None False Cons
              by (subst comment_scan.simps) (simp add: case_prod_beta Let_def masked_def)
          qed
        qed
      qed
    qed
  qed
qed

lemma concat_text_lines: "concat (text_lines s) = s"
proof (induction s)
  case (Cons c cs)
  then show ?case by (cases "text_lines cs") auto
qed simp

lemma scan_lines_masked: "list_all2 (\<lambda>l r. list_all2 masked l (fst r)) ls (scan_lines fence comment ls)"
proof (induction ls arbitrary: fence comment)
  case (Cons line rest)
  show ?case
  proof (cases fence)
    case (Some f)
    then show ?thesis using Cons by (simp add: Let_def masked_same)
  next
    case None
    obtain v c where v: "comment_line line comment = (v, c)" by (cases "comment_line line comment")
    have "list_all2 masked line v" using comment_scan_masked [of line] v by (metis comment_line_def fst_conv)
    then show ?thesis using Cons v by (cases comment) (simp_all add: None Let_def masked_same)
  qed
qed simp

lemma concat_masked: "list_all2 (\<lambda>l r. list_all2 masked l (fst r)) ls rs \<Longrightarrow> list_all2 masked (concat ls) (concat (map fst rs))"
  by (induction ls rs rule: list_all2_induct) (simp_all add: list_all2_appendI)

text \<open>
  hiding comments moves nothing: the visible text has the length of the original, each of its characters
  is the original one or a space in the place of one that does not end a line, so a position found in one is a
  position in the other.
\<close>

theorem masking_keeps_positions:
  "length (visible_text text) = length text \<and>
   (\<forall>i < length text. visible_text text ! i = text ! i \<or>
      visible_text text ! i = SPACE \<and> text ! i \<noteq> CR \<and> text ! i \<noteq> NL)"
proof -
  have "list_all2 masked (concat (text_lines text)) (visible_text text)"
    unfolding visible_text_def release_lines_def by (rule concat_masked [OF scan_lines_masked])
  then have m: "list_all2 masked text (visible_text text)" by (simp add: concat_text_lines)
  show ?thesis using list_all2_lengthD [OF m] list_all2_nthD [OF m] by (auto simp: masked_def)
qed

section \<open>One pass over inline code\<close>

text \<open>The reference: a run is closed by the next run of the same length.\<close>

fun next_same :: "(nat \<times> nat) list \<Rightarrow> (nat, nat) dict" where
  "next_same [] = []"
| "next_same ((start, end) # runs) =
     (case filter (\<lambda>(s, e). e - s = end - start) runs of
        [] \<Rightarrow> next_same runs
      | (s, e) # _ \<Rightarrow> (start, e) # next_same runs)"

definition next_of_length :: "(nat \<times> nat) list \<Rightarrow> nat \<Rightarrow> nat option" where
  "next_of_length runs n = (case filter (\<lambda>(s, e). e - s = n) runs of [] \<Rightarrow> None | (s, e) # _ \<Rightarrow> Some e)"

lemma span_pass:
  "distinct (map fst runs) \<Longrightarrow>
    (let (following, ends) = fold span_step (rev runs) ([], [])
     in map_of following = next_of_length runs \<and> map_of ends = map_of (next_same runs) \<and> fst ` set ends \<subseteq> fst ` set runs)"
proof (induction runs)
  case Nil
  show ?case by (auto simp: next_of_length_def)
next
  case (Cons r runs)
  obtain s e where r: "r = (s, e)" by (cases r)
  obtain following ends where f: "fold span_step (rev runs) ([], []) = (following, ends)"
    by (cases "fold span_step (rev runs) ([], [])")
  from Cons f have IH: "map_of following = next_of_length runs" "map_of ends = map_of (next_same runs)"
    "fst ` set ends \<subseteq> fst ` set runs" by auto
  have fresh: "s \<notin> fst ` set ends" using Cons.prems IH(3) by (auto simp: r)
  have "map_of (dset (e - s) e following) n = next_of_length (r # runs) n" for n
    using IH(1) by (simp add: r next_of_length_def)
  moreover have "map_of (dset s q ends) k = (if k = s then Some q else map_of (next_same runs) k)" for q k
    using IH(2) by simp
  ultimately show ?case
    using f IH fresh by (auto simp: r span_step_def next_of_length_def dset_keys split: list.splits option.splits)
qed

lemma tick_runs_order:
  "sorted_wrt (\<lambda>(s, e) (s', e'). e \<le> s') (tick_runs p l) \<and>
    (\<forall>(s, e)\<in>set (tick_runs p l). p \<le> s \<and> s < e \<and> e \<le> p + length l)"
proof (induction p l rule: tick_runs.induct)
  case (1 p s)
  show ?case
  proof (cases s)
    case Nil
    then show ?thesis by (simp add: tick_runs.simps)
  next
    case (Cons c cs)
    show ?thesis
    proof (cases "c = TICK")
      case True
      have n: "0 < leading TICK s" "leading TICK s \<le> length s"
        using Cons True by (simp_all add: leading_def length_takeWhile_le Suc_le_eq le_imp_less_Suc)
      from 1(1) [OF Cons True] have IH: "sorted_wrt (\<lambda>(s, e) (s', e'). e \<le> s') (tick_runs (p + leading TICK s) (drop (leading TICK s) s))"
        "\<forall>(a, e)\<in>set (tick_runs (p + leading TICK s) (drop (leading TICK s) s)). p + leading TICK s \<le> a \<and> a < e \<and> e \<le> p + length s"
        using n by auto
      have u: "tick_runs p s = (p, p + leading TICK s) # tick_runs (p + leading TICK s) (drop (leading TICK s) s)"
        by (subst tick_runs.simps) (simp add: Cons True)
      show ?thesis unfolding u using IH n by auto
    next
      case False
      have u: "tick_runs p s = tick_runs (Suc p) cs" by (subst tick_runs.simps) (simp add: Cons False)
      show ?thesis unfolding u using 1(2) [OF Cons False] Cons by auto
    qed
  qed
qed

lemma tick_runs_distinct: "distinct (map fst (tick_runs p l))"
proof -
  have "sorted_wrt (\<lambda>x y. fst x < fst y) (tick_runs p l)"
    by (rule sorted_wrt_mono_rel [rotated, OF tick_runs_order [THEN conjunct1]])
      (use tick_runs_order [of p l] in \<open>fastforce\<close>)
  then have "sorted_wrt (<) (map fst (tick_runs p l))" by (simp add: sorted_wrt_map)
  then show ?thesis by (simp add: strict_sorted_iff)
qed

lemma next_same_ahead:
  "sorted_wrt (\<lambda>(s, e) (s', e'). e \<le> s') runs \<Longrightarrow> \<forall>(s, e)\<in>set runs. s < e \<and> e \<le> n \<Longrightarrow>
    map_of (next_same runs) p = Some q \<Longrightarrow> p < q \<and> q \<le> n"
proof (induction runs)
  case (Cons r runs)
  obtain s e where r: "r = (s, e)" by (cases r)
  show ?case
  proof (cases "filter (\<lambda>(a, b). b - a = e - s) runs")
    case Nil
    with Cons show ?thesis by (simp add: r)
  next
    case (Cons x xs)
    then obtain a b where x: "x = (a, b)" "(a, b) \<in> set runs" by (cases x) (auto simp: filter_eq_Cons_iff)
    then have "e \<le> a" "a < b" "b \<le> n" "s < e" using Cons.prems r by auto
    then have "s < b \<and> b \<le> n" by linarith
    with Cons.IH Cons.prems Cons x r show ?thesis by (auto split: if_splits)
  qed
qed simp

lemma code_span_ends_next: "map_of (code_span_ends line) = map_of (next_same (tick_runs 0 line))"
  using span_pass [OF tick_runs_distinct [of 0 line]] by (simp add: code_span_ends_def case_prod_beta)

lemma code_span_ahead: "map_of (code_span_ends line) p = Some q \<Longrightarrow> p < q \<and> q \<le> length line"
  unfolding code_span_ends_next
  by (rule next_same_ahead [OF tick_runs_order [THEN conjunct1, of 0]]) (use tick_runs_order [of 0 line] in auto)

text \<open>
  the single reverse pass over the backticks of a line closes each run with the next run of the same
  length, as the reference does, and every end it records lies ahead of its start and within the line, so the
  scan for comments always advances and ends.
\<close>

theorem code_spans_close_ahead:
  "map_of (code_span_ends line) = map_of (next_same (tick_runs 0 line)) \<and>
   (\<forall>p q. map_of (code_span_ends line) p = Some q \<longrightarrow> p < q \<and> q \<le> length line)"
  using code_span_ends_next code_span_ahead by blast

theorem code_spans_close_ahead_witness:
  "map_of (code_span_ends ''a `b` ``c` d``'') 2 = Some 5 \<and> map_of (code_span_ends ''a `b` ``c` d``'') 6 = Some 14 \<and> (6 :: nat) < 14"
proof -
  have e: "map_of (code_span_ends ''a `b` ``c` d``'') 2 = Some 5" "map_of (code_span_ends ''a `b` ``c` d``'') 6 = Some 14"
    by code_simp+
  show ?thesis using code_spans_close_ahead [of "''a `b` ``c` d``''"] e by blast
qed

section \<open>Sections end at the next heading\<close>

lemma heading_of_Some: "heading_of offset line = Some (l, t, s, e) \<Longrightarrow> s = offset \<and> e = offset + length line \<and> offset < e"
  by (auto simp: heading_of_def Let_def leading_def split: if_splits)

definition ordered_headings :: "nat \<Rightarrow> nat \<Rightarrow> heading list \<Rightarrow> bool" where
  "ordered_headings lo hi hs =
     (sorted_wrt (\<lambda>(_, _, _, e) (_, _, s, _). e \<le> s) hs \<and> (\<forall>(_, _, s, e)\<in>set hs. lo \<le> s \<and> s < e \<and> e \<le> hi))"

lemma headings_from_ordered:
  "ordered_headings offset (offset + length (concat (map fst rows))) (headings_from offset rows)"
proof (induction rows arbitrary: offset)
  case Nil
  show ?case by (simp add: ordered_headings_def)
next
  case (Cons r rows)
  obtain line a g where r: "r = (line, a, g)" by (cases r)
  have IH: "ordered_headings (offset + length line) (offset + length (concat (map fst (r # rows)))) (headings_from (offset + length line) rows)"
    using Cons [of "offset + length line"] by (simp add: r add.assoc)
  show ?case
  proof (cases "if a then heading_of offset line else None")
    case None
    then show ?thesis using IH by (fastforce simp: r ordered_headings_def)
  next
    case (Some h)
    obtain l t s e where h: "h = (l, t, s, e)" by (cases h)
    from Some h have "s = offset \<and> e = offset + length line \<and> offset < e"
      using heading_of_Some [of offset line l t s e] by (auto split: if_splits)
    then show ?thesis using IH Some h by (fastforce simp: r ordered_headings_def)
  qed
qed

lemma ordered_filter: "ordered_headings lo hi hs \<Longrightarrow> ordered_headings lo hi (filter P hs)"
  by (auto simp: ordered_headings_def sorted_wrt_filter)

lemma section_slice:
  assumes "ordered_headings lo (length text) hs" and "(title, body, vis) \<in> set (sections_of level text visible hs)"
  shows "\<exists>s start stop. (level, title, s, start) \<in> set hs \<and> start \<le> stop \<and> stop \<le> length text \<and>
    body = strip (slice start stop text) \<and> vis = slice start stop visible \<and>
    (\<forall>(_, _, s', _)\<in>set hs. \<not> (start \<le> s' \<and> s' < stop))"
  using assms
proof (induction hs)
  case (Cons h rest)
  obtain l t s e where h: "h = (l, t, s, e)" by (cases h)
  have o: "ordered_headings lo (length text) rest" "s < e" "e \<le> length text"
    "\<forall>(_, _, s', e')\<in>set rest. e \<le> s' \<and> s' < e' \<and> e' \<le> length text"
    using Cons.prems(1) by (fastforce simp: h ordered_headings_def)+
  define stop where "stop = (case rest of [] \<Rightarrow> length text | (_, _, next, _) # _ \<Rightarrow> next)"
  have stop: "e \<le> stop" "stop \<le> length text" "\<forall>(_, _, s', _)\<in>set rest. stop \<le> s'"
  proof -
    show "e \<le> stop" "stop \<le> length text" using o(3,4) by (auto simp: stop_def split: list.splits)
    show "\<forall>(_, _, s', _)\<in>set rest. stop \<le> s'"
      using o(1) by (cases rest) (fastforce simp: stop_def ordered_headings_def)+
  qed
  from Cons.prems(2) consider "l = level" "title = t" "body = strip (slice e stop text)" "vis = slice e stop visible"
    | "(title, body, vis) \<in> set (sections_of level text visible rest)"
    by (auto simp: h stop_def Let_def split: if_splits)
  then show ?case
  proof cases
    case 1
    have "\<forall>(_, _, s', _)\<in>set (h # rest). \<not> (e \<le> s' \<and> s' < stop)"
      using o(2) stop(3) by (fastforce simp: h)
    with 1 stop(1,2) show ?thesis by (intro exI [of _ s] exI [of _ e] exI [of _ stop]) (simp add: h)
  next
    case 2
    from Cons.IH [OF o(1) 2] obtain s' start stop' where r: "(level, title, s', start) \<in> set rest" "start \<le> stop'" "stop' \<le> length text"
      "body = strip (slice start stop' text)" "vis = slice start stop' visible"
      "\<forall>(_, _, x, _)\<in>set rest. \<not> (start \<le> x \<and> x < stop')" by blast
    have "s < start" using o(2,4) r(1) by fastforce
    then have "\<forall>(_, _, x, _)\<in>set (h # rest). \<not> (start \<le> x \<and> x < stop')" using r(6) by (simp add: h)
    with r show ?thesis by (intro exI [of _ s'] exI [of _ start] exI [of _ stop']) simp
  qed
qed simp

lemma visible_length: "length (visible_text text) = length text"
  using concat_masked [OF scan_lines_masked [of "text_lines text" None False]]
  by (auto simp: visible_text_def release_lines_def concat_text_lines dest: list_all2_lengthD)

lemma release_headings_ordered: "ordered_headings 0 (length text) (release_headings text)"
  using headings_from_ordered [of 0 "release_lines text"]
  by (simp add: release_headings_def visible_text_def [symmetric] visible_length)

lemma release_section_slice:
  assumes "(title, body, vis) \<in> set (release_sections text level)"
  shows "\<exists>s start stop. (level, title, s, start) \<in> set (release_headings text) \<and> start \<le> stop \<and> stop \<le> length text \<and>
    body = strip (slice start stop text) \<and> vis = slice start stop (visible_text text) \<and>
    (\<forall>(l, _, s', _)\<in>set (release_headings text). l \<le> level \<longrightarrow> \<not> (start \<le> s' \<and> s' < stop))"
proof -
  let ?hs = "filter (\<lambda>(l, _). l \<le> level) (release_headings text)"
  from section_slice [OF ordered_filter [OF release_headings_ordered] assms [unfolded release_sections_def]]
  obtain s start stop where r: "(level, title, s, start) \<in> set ?hs" "start \<le> stop" "stop \<le> length text"
    "body = strip (slice start stop text)" "vis = slice start stop (visible_text text)"
    "\<forall>(_, _, s', _)\<in>set ?hs. \<not> (start \<le> s' \<and> s' < stop)" by blast
  moreover have "\<forall>(l, _, s', _)\<in>set (release_headings text). l \<le> level \<longrightarrow> \<not> (start \<le> s' \<and> s' < stop)"
    using r(6) by fastforce
  ultimately show ?thesis by (intro exI [of _ s] exI [of _ start] exI [of _ stop]) auto
qed


text \<open>A change log in which a commented-out section would otherwise be taken.\<close>

definition demo_changelog :: string where
  "demo_changelog = ''# Log'' @ [NL] @ ''<!-- '' @ [NL] @ ''## [1.4.0]'' @ [NL] @ ''-->'' @ [NL] @ ''## [1.4.0] - soon'' @ [NL] @
     ''### Upgrade'' @ [NL] @ ''Restart.'' @ [NL] @ ''### Security'' @ [NL] @ ''None.'' @ [NL] @ ''## [1.3.0]'' @ [NL]"

definition demo_response :: pyval where
  "demo_response = PDict [(''type'', PStr ''file''), (''path'', PStr ''CHANGELOG.md''), (''encoding'', PStr ''base64''),
     (''content'', PStr ''text''), (''size'', PInt (int (length demo_changelog))), (''sha'', PStr ''blob'')]"


theorem masking_keeps_positions_witness:
  "length (visible_text demo_changelog) = length demo_changelog \<and>
   visible_text demo_changelog ! 6 = SPACE \<and> demo_changelog ! 6 = CHR ''<'' \<and> visible_text demo_changelog ! 5 = demo_changelog ! 5"
proof -
  have e: "visible_text demo_changelog ! 6 = SPACE \<and> demo_changelog ! 6 = CHR ''<'' \<and> demo_changelog ! 5 = NL" by code_simp
  have n: "5 < length demo_changelog" by code_simp
  have "visible_text demo_changelog ! 5 = demo_changelog ! 5"
    using masking_keeps_positions [of demo_changelog] n e by blast
  with e masking_keeps_positions [of demo_changelog] show ?thesis by blast
qed

end
