(* ===== verification/Workflow_Graph.thy ===== *)
theory Workflow_Graph
  imports Release_State
begin

text \<open>
  The checks of \<^verbatim>\<open>scripts/workflow_contracts.py\<close> on parsed workflows (every YAML scalar is a text): the
  graph of callable workflows, the pins of actions and the release gate. Reading and parsing the files is
  the input.
\<close>

section \<open>Callable workflows\<close>

definition LOCAL_WORKFLOW_PREFIX :: string where
  "LOCAL_WORKFLOW_PREFIX = ''./.github/workflows/''"

definition last_segment :: "string \<Rightarrow> string" where
  "last_segment s = List.last (split_char (CHR ''/'') s)"

text \<open>The jobs of a workflow that may be called, and only called or dispatched.\<close>

definition callable_jobs :: "pyval \<Rightarrow> pydict res" where
  "callable_jobs w =
     rbind (vget_or w ''on'' (PDict [])) (\<lambda>triggers.
     case triggers of
       PDict t \<Rightarrow>
         if \<not> haskey t ''workflow_call'' \<or> \<not> list_all (\<lambda>(k, _). k \<in> {''workflow_call'', ''workflow_dispatch''}) t
         then Inl ValueError
         else rbind (vget_or w ''jobs'' (PDict [])) (\<lambda>jobs. case jobs of PDict js \<Rightarrow> Inr js | _ \<Rightarrow> Inl AttributeError)
     | _ \<Rightarrow> Inl ValueError)"

text \<open>The local workflow a job calls; any other job that has a runner needs a timeout.\<close>

definition job_target :: "pyval \<Rightarrow> string option res" where
  "job_target job =
     rbind (vget_or job ''uses'' (PStr [])) (\<lambda>reference.
     case reference of
       PStr r \<Rightarrow>
         if startswith r LOCAL_WORKFLOW_PREFIX then Inr (Some (last_segment r))
         else if haskey (as_dict job) ''runs-on'' \<and> \<not> haskey (as_dict job) ''timeout-minutes'' then Inl ValueError
         else Inr None
     | _ \<Rightarrow> Inl AttributeError)"

function visit :: "pydict \<Rightarrow> string list \<Rightarrow> string list \<Rightarrow> string \<Rightarrow> string list res"
  and visit_jobs :: "pydict \<Rightarrow> string list \<Rightarrow> string list \<Rightarrow> pydict \<Rightarrow> string list res" where
  "visit ws chain visited f =
     (if f \<in> set chain then Inl ValueError
      else if f \<in> set visited then Inr visited
      else case map_of ws f of
        None \<Rightarrow> Inl KeyError
      | Some w \<Rightarrow>
          (case callable_jobs w of Inl e \<Rightarrow> Inl e | Inr jobs \<Rightarrow> visit_jobs ws (chain @ [f]) (visited @ [f]) jobs))"
| "visit_jobs ws chain visited [] = Inr visited"
| "visit_jobs ws chain visited ((name, job) # jobs) =
     (case job_target job of
        Inl e \<Rightarrow> Inl e
      | Inr None \<Rightarrow> visit_jobs ws chain visited jobs
      | Inr (Some g) \<Rightarrow>
          (case visit ws chain visited g of Inl e \<Rightarrow> Inl e | Inr v \<Rightarrow> visit_jobs ws chain v jobs))"
  by pat_completeness auto
termination
proof (relation "measures [\<lambda>x. case x of Inl (ws, chain, visited, f) \<Rightarrow> card (fst ` set ws - set chain)
      | Inr (ws, chain, visited, jobs) \<Rightarrow> card (fst ` set ws - set chain),
    \<lambda>x. case x of Inl _ \<Rightarrow> 0 | Inr (ws, chain, visited, jobs) \<Rightarrow> Suc (length jobs)]", goal_cases)
  case (2 ws chain visited f w jobs)
  then have "f \<in> fst ` set ws - set chain" by (force dest: map_of_SomeD)
  then have "card (fst ` set ws - set chain - {f}) < card (fst ` set ws - set chain)" by (intro card_Diff1_less) simp_all
  moreover have "fst ` set ws - set (chain @ [f]) = fst ` set ws - set chain - {f}" by auto
  ultimately show ?case by simp
qed simp_all

declare visit.simps [simp del]

definition visit_all :: "pydict \<Rightarrow> string list \<Rightarrow> string list \<Rightarrow> string list res" where
  "visit_all ws validators visited = fold (\<lambda>f r. rbind r (\<lambda>v. visit ws [] v f)) validators (Inr visited)"

definition validate_graph :: "pydict \<Rightarrow> string list \<Rightarrow> string list res" where
  "validate_graph ws validators = visit_all ws validators []"

section \<open>What the walk establishes\<close>

text \<open>The graph itself: a workflow is sound when its jobs can be read, and its edges are its local calls.\<close>

definition targets :: "pydict \<Rightarrow> string list" where
  "targets jobs = concat (map (\<lambda>(_, job). case job_target job of Inr (Some g) \<Rightarrow> [g] | _ \<Rightarrow> []) jobs)"

definition sound_jobs :: "pydict \<Rightarrow> bool" where
  "sound_jobs jobs = list_all (\<lambda>(_, job). case job_target job of Inr _ \<Rightarrow> True | _ \<Rightarrow> False) jobs"

definition sound_workflow :: "pydict \<Rightarrow> string \<Rightarrow> bool" where
  "sound_workflow ws f =
     (case map_of ws f of None \<Rightarrow> False | Some w \<Rightarrow> (case callable_jobs w of Inl _ \<Rightarrow> False | Inr jobs \<Rightarrow> sound_jobs jobs))"

definition calls :: "pydict \<Rightarrow> (string \<times> string) set" where
  "calls ws = {(f, g). \<exists>w jobs. map_of ws f = Some w \<and> callable_jobs w = Inr jobs \<and> g \<in> set (targets jobs)}"

text \<open>The finished workflows, \<open>visited\<close> without the chain, are sound, closed under calls and on no cycle.\<close>

definition finished :: "pydict \<Rightarrow> string set \<Rightarrow> bool" where
  "finished ws S = ((\<forall>f\<in>S. sound_workflow ws f \<and> (f, f) \<notin> (calls ws)\<^sup>+) \<and> calls ws `` S \<subseteq> S)"

lemma finished_insert:
  assumes "finished ws S" and "f \<notin> S" and "sound_workflow ws f" and "calls ws `` {f} \<subseteq> S"
  shows "finished ws (insert f S)"
proof -
  have closed: "(calls ws)\<^sup>* `` S \<subseteq> S"
  proof clarify
    fix x y
    assume "(x, y) \<in> (calls ws)\<^sup>*" "x \<in> S"
    then show "y \<in> S" by (induction rule: rtrancl_induct) (use assms(1) in \<open>auto simp: finished_def\<close>)
  qed
  have "(f, f) \<notin> (calls ws)\<^sup>+"
  proof
    assume "(f, f) \<in> (calls ws)\<^sup>+"
    then obtain t where "(f, t) \<in> calls ws" "(t, f) \<in> (calls ws)\<^sup>*" by (blast dest: tranclD)
    with assms(2,4) closed show False by blast
  qed
  with assms show ?thesis by (auto simp: finished_def)
qed

lemma visit_sound:
  "visit ws chain visited f = Inr v \<Longrightarrow> set chain \<subseteq> set visited \<Longrightarrow> finished ws (set visited - set chain) \<Longrightarrow>
    set visited \<subseteq> set v \<and> finished ws (set v - set chain) \<and> f \<in> set v - set chain \<and>
    (\<forall>g\<in>set v - set visited. (f, g) \<in> (calls ws)\<^sup>*)"
  "visit_jobs ws chain visited jobs = Inr v \<Longrightarrow> set chain \<subseteq> set visited \<Longrightarrow> finished ws (set visited - set chain) \<Longrightarrow>
    set visited \<subseteq> set v \<and> finished ws (set v - set chain) \<and> set (targets jobs) \<subseteq> set v - set chain \<and> sound_jobs jobs \<and>
    (\<forall>g\<in>set v - set visited. \<exists>t\<in>set (targets jobs). (t, g) \<in> (calls ws)\<^sup>*)"
proof (induction ws chain visited f and ws chain visited jobs arbitrary: v and v rule: visit_visit_jobs.induct)
  case (1 ws chain visited f)
  from 1(2) have c: "f \<notin> set chain" by (auto simp: visit.simps)
  show ?case
  proof (cases "f \<in> set visited")
    case True
    with 1(2) c have "v = visited" by (simp add: visit.simps)
    with True c 1(4) show ?thesis by simp
  next
    case False
    with 1(2) c obtain w jobs where w: "map_of ws f = Some w" "callable_jobs w = Inr jobs"
      and r: "visit_jobs ws (chain @ [f]) (visited @ [f]) jobs = Inr v"
      by (auto simp: visit.simps split: option.split_asm sum.split_asm)
    have e: "set (visited @ [f]) - set (chain @ [f]) = set visited - set chain" using False by auto
    from 1(1) [OF c False w r] 1(3,4) e have IH: "set (visited @ [f]) \<subseteq> set v" "finished ws (set v - set (chain @ [f]))"
      "set (targets jobs) \<subseteq> set v - set (chain @ [f])" "sound_jobs jobs"
      "\<forall>g\<in>set v - set (visited @ [f]). \<exists>t\<in>set (targets jobs). (t, g) \<in> (calls ws)\<^sup>*" by auto
    have succ: "calls ws `` {f} = set (targets jobs)" using w by (auto simp: calls_def)
    have s: "sound_workflow ws f" using w IH(4) by (simp add: sound_workflow_def)
    have "finished ws (insert f (set v - set (chain @ [f])))"
      by (rule finished_insert [OF IH(2) _ s]) (use IH(3) succ in auto)
    moreover have "insert f (set v - set (chain @ [f])) = set v - set chain" using IH(1) c by auto
    moreover have "(f, g) \<in> (calls ws)\<^sup>*" if "g \<in> set v - set visited" for g
    proof (cases "g = f")
      case False
      with that IH(5) obtain t where "t \<in> set (targets jobs)" "(t, g) \<in> (calls ws)\<^sup>*" by auto
      with succ show ?thesis by (blast intro: converse_rtrancl_into_rtrancl)
    qed simp
    ultimately show ?thesis using IH(1) c by auto
  qed
next
  case (2 ws chain visited)
  then show ?case by (simp add: targets_def sound_jobs_def)
next
  case (3 ws chain visited name job jobs)
  from 3(4) obtain o' where o': "job_target job = Inr o'" by (cases "job_target job") simp_all
  show ?case
  proof (cases o')
    case None
    with 3(4) o' have r: "visit_jobs ws chain visited jobs = Inr v" by simp
    from 3(1) [OF o' None r 3(5,6)] show ?thesis by (simp add: targets_def sound_jobs_def o' None)
  next
    case (Some g)
    with 3(4) o' obtain u where u: "visit ws chain visited g = Inr u" and r: "visit_jobs ws chain u jobs = Inr v"
      by (auto split: sum.split_asm)
    from 3(2) [OF o' Some u 3(5,6)] have a: "set visited \<subseteq> set u" "finished ws (set u - set chain)" "g \<in> set u - set chain"
      "\<forall>x\<in>set u - set visited. (g, x) \<in> (calls ws)\<^sup>*" by auto
    have "set chain \<subseteq> set u" using a(1) 3(5) by blast
    from 3(3) [OF o' Some u r this a(2)] have b: "set u \<subseteq> set v" "finished ws (set v - set chain)"
      "set (targets jobs) \<subseteq> set v - set chain" "sound_jobs jobs"
      "\<forall>x\<in>set v - set u. \<exists>t\<in>set (targets jobs). (t, x) \<in> (calls ws)\<^sup>*" by auto
    have t: "set (targets ((name, job) # jobs)) = insert g (set (targets jobs))" by (simp add: targets_def o' Some)
    have "sound_jobs ((name, job) # jobs)" using b(4) by (simp add: sound_jobs_def o')
    with a b show ?thesis unfolding t by blast
  qed
qed

lemma visit_complete:
  "(\<forall>g. (f, g) \<in> (calls ws)\<^sup>* \<longrightarrow> sound_workflow ws g \<and> (g, g) \<notin> (calls ws)\<^sup>+) \<Longrightarrow> (\<forall>c\<in>set chain. (c, f) \<in> (calls ws)\<^sup>+) \<Longrightarrow>
    \<exists>v. visit ws chain visited f = Inr v"
  "(\<forall>t\<in>set (targets jobs). \<forall>g. (t, g) \<in> (calls ws)\<^sup>* \<longrightarrow> sound_workflow ws g \<and> (g, g) \<notin> (calls ws)\<^sup>+) \<Longrightarrow> sound_jobs jobs \<Longrightarrow>
    (\<forall>c\<in>set chain. \<forall>t\<in>set (targets jobs). (c, t) \<in> (calls ws)\<^sup>+) \<Longrightarrow> \<exists>v. visit_jobs ws chain visited jobs = Inr v"
proof (induction ws chain visited f and ws chain visited jobs rule: visit_visit_jobs.induct)
  case (1 ws chain visited f)
  have f: "sound_workflow ws f" "(f, f) \<notin> (calls ws)\<^sup>+" using 1(2) by blast+
  then have c: "f \<notin> set chain" using 1(3) by blast
  show ?case
  proof (cases "f \<in> set visited")
    case True
    then show ?thesis using c by (simp add: visit.simps)
  next
    case False
    obtain w jobs where w: "map_of ws f = Some w" "callable_jobs w = Inr jobs" and s: "sound_jobs jobs"
      using f(1) by (auto simp: sound_workflow_def split: option.split_asm sum.split_asm)
    have e: "(f, t) \<in> calls ws" if "t \<in> set (targets jobs)" for t using w that by (auto simp: calls_def)
    have "\<exists>v. visit_jobs ws (chain @ [f]) (visited @ [f]) jobs = Inr v"
    proof (rule 1(1) [OF c False w _ s])
      show "\<forall>t\<in>set (targets jobs). \<forall>g. (t, g) \<in> (calls ws)\<^sup>* \<longrightarrow> sound_workflow ws g \<and> (g, g) \<notin> (calls ws)\<^sup>+"
        using e 1(2) by (blast intro: converse_rtrancl_into_rtrancl)
      show "\<forall>c\<in>set (chain @ [f]). \<forall>t\<in>set (targets jobs). (c, t) \<in> (calls ws)\<^sup>+"
        using e 1(3) by (auto intro: trancl_into_trancl)
    qed
    then show ?thesis using c False w by (simp add: visit.simps)
  qed
next
  case (2 ws chain visited)
  then show ?case by simp
next
  case (3 ws chain visited name job jobs)
  from 3(5) obtain o' where o': "job_target job = Inr o'" by (cases "job_target job") (simp_all add: sound_jobs_def)
  have s: "sound_jobs jobs" using 3(5) by (simp add: sound_jobs_def)
  have sub: "set (targets jobs) \<subseteq> set (targets ((name, job) # jobs))" by (auto simp: targets_def)
  show ?case
  proof (cases o')
    case None
    have "\<exists>v. visit_jobs ws chain visited jobs = Inr v"
      by (rule 3(1) [OF o' None _ s]) (use 3(4,6) sub in blast)+
    then show ?thesis using o' None by simp
  next
    case (Some g)
    have g: "g \<in> set (targets ((name, job) # jobs))" by (simp add: targets_def o' Some)
    have "\<exists>u. visit ws chain visited g = Inr u"
      by (rule 3(2) [OF o' Some]) (use 3(4,6) g in blast)+
    then obtain u where u: "visit ws chain visited g = Inr u" by blast
    have "\<exists>v. visit_jobs ws chain u jobs = Inr v"
      by (rule 3(3) [OF o' Some u _ s]) (use 3(4,6) sub in blast)+
    then show ?thesis using o' Some u by simp
  qed
qed

lemma visit_all_Cons: "visit_all ws (f # fs) visited = rbind (visit ws [] visited f) (\<lambda>v. visit_all ws fs v)"
proof -
  have inl: "fold (\<lambda>f r. rbind r (\<lambda>v. visit ws [] v f)) fs (Inl e) = Inl e" for e fs by (induction fs) simp_all
  show ?thesis by (cases "visit ws [] visited f") (simp_all add: visit_all_def inl)
qed

lemma visit_all_sound:
  "visit_all ws fs visited = Inr v \<Longrightarrow> finished ws (set visited) \<Longrightarrow>
    set visited \<subseteq> set v \<and> finished ws (set v) \<and> set fs \<subseteq> set v \<and> set v - set visited \<subseteq> (calls ws)\<^sup>* `` set fs"
proof (induction fs arbitrary: visited)
  case Nil
  then show ?case by (simp add: visit_all_def)
next
  case (Cons f fs)
  from Cons.prems(1) obtain u where u: "visit ws [] visited f = Inr u" and r: "visit_all ws fs u = Inr v"
    by (auto simp: visit_all_Cons rbind_Inr_iff)
  have a: "set visited \<subseteq> set u" "finished ws (set u)" "f \<in> set u" "\<forall>g\<in>set u - set visited. (f, g) \<in> (calls ws)\<^sup>*"
    using visit_sound(1) [OF u] Cons.prems(2) by auto
  from Cons.IH [OF r a(2)] have b: "set u \<subseteq> set v" "finished ws (set v)" "set fs \<subseteq> set v"
    "set v - set u \<subseteq> (calls ws)\<^sup>* `` set fs" by auto
  have "set v - set visited \<subseteq> (set u - set visited) \<union> (set v - set u)" by blast
  also have "\<dots> \<subseteq> (calls ws)\<^sup>* `` set (f # fs)" using a(4) b(4) by auto
  finally show ?case using a b by auto
qed

lemma visit_all_complete:
  "\<forall>g\<in>(calls ws)\<^sup>* `` set fs. sound_workflow ws g \<and> (g, g) \<notin> (calls ws)\<^sup>+ \<Longrightarrow> \<exists>v. visit_all ws fs visited = Inr v"
proof (induction fs arbitrary: visited)
  case Nil
  then show ?case by (simp add: visit_all_def)
next
  case (Cons f fs)
  have "\<exists>u. visit ws [] visited f = Inr u"
    by (rule visit_complete(1)) (use Cons.prems in auto)
  then obtain u where u: "visit ws [] visited f = Inr u" by blast
  from Cons.IH [of u] Cons.prems u show ?case by (auto simp: visit_all_Cons)
qed

text \<open>
  C39: the walk over callable workflows always ends, although they may call each other in a cycle. It succeeds
  exactly when every workflow that the validators reach exists, can be called and only called or dispatched,
  has readable jobs with a timeout on every runner, and lies on no cycle of calls; it then returns exactly
  the workflows they reach.
\<close>

theorem validate_graph_is_reachability:
  "((\<exists>visited. validate_graph ws validators = Inr visited) \<longleftrightarrow>
      (\<forall>g\<in>(calls ws)\<^sup>* `` set validators. sound_workflow ws g \<and> (g, g) \<notin> (calls ws)\<^sup>+)) \<and>
   (\<forall>visited. validate_graph ws validators = Inr visited \<longrightarrow> set visited = (calls ws)\<^sup>* `` set validators)"
proof -
  have s: "set v = (calls ws)\<^sup>* `` set validators \<and> (\<forall>g\<in>set v. sound_workflow ws g \<and> (g, g) \<notin> (calls ws)\<^sup>+)"
    if "validate_graph ws validators = Inr v" for v
  proof -
    have a: "finished ws (set v)" "set validators \<subseteq> set v" "set v \<subseteq> (calls ws)\<^sup>* `` set validators"
      using visit_all_sound [OF that [unfolded validate_graph_def]] by (auto simp: finished_def)
    have "y \<in> set v" if "(x, y) \<in> (calls ws)\<^sup>*" "x \<in> set v" for x y
      using that by (induction rule: rtrancl_induct) (use a(1) in \<open>auto simp: finished_def\<close>)
    with a show ?thesis by (auto simp: finished_def)
  qed
  have c: "\<exists>v. validate_graph ws validators = Inr v"
    if "\<forall>g\<in>(calls ws)\<^sup>* `` set validators. sound_workflow ws g \<and> (g, g) \<notin> (calls ws)\<^sup>+"
    unfolding validate_graph_def by (rule visit_all_complete [OF that])
  from s c show ?thesis by blast
qed

definition demo_workflow :: "string list \<Rightarrow> pyval" where
  "demo_workflow uses = PDict [(''on'', PDict [(''workflow_call'', PNone)]),
     (''jobs'', PDict (map (\<lambda>u. (u, PDict [(''uses'', PStr (LOCAL_WORKFLOW_PREFIX @ u))])) uses))]"

theorem validate_graph_is_reachability_witness:
  "set [''a.yml'', ''b.yml'', ''c.yml''] = (calls [(''a.yml'', demo_workflow [''b.yml'', ''c.yml'']), (''b.yml'', demo_workflow [''c.yml'']),
       (''c.yml'', demo_workflow []), (''d.yml'', demo_workflow [''a.yml''])])\<^sup>* `` {''a.yml''} \<and>
   (\<exists>g\<in>(calls [(''a.yml'', demo_workflow [''b.yml'']), (''b.yml'', demo_workflow [''a.yml''])])\<^sup>* `` {''a.yml''}.
      \<not> (sound_workflow [(''a.yml'', demo_workflow [''b.yml'']), (''b.yml'', demo_workflow [''a.yml''])] g \<and>
         (g, g) \<notin> (calls [(''a.yml'', demo_workflow [''b.yml'']), (''b.yml'', demo_workflow [''a.yml''])])\<^sup>+))"
proof -
  have a: "validate_graph [(''a.yml'', demo_workflow [''b.yml'', ''c.yml'']), (''b.yml'', demo_workflow [''c.yml'']),
      (''c.yml'', demo_workflow []), (''d.yml'', demo_workflow [''a.yml''])] [''a.yml''] = Inr [''a.yml'', ''b.yml'', ''c.yml'']" by code_simp
  have b: "validate_graph [(''a.yml'', demo_workflow [''b.yml'']), (''b.yml'', demo_workflow [''a.yml''])] [''a.yml''] = Inl ValueError"
    by code_simp
  have s: "set [''a.yml''] = {''a.yml''}" by simp
  show ?thesis
    using validate_graph_is_reachability [THEN conjunct2, rule_format, OF a, unfolded s]
      validate_graph_is_reachability [of "[(''a.yml'', demo_workflow [''b.yml'']), (''b.yml'', demo_workflow [''a.yml''])]" "[''a.yml'']",
        THEN conjunct1, unfolded b s] by simp
qed

end
