(* ===== verification/Workflow_Checks.thy ===== *)
theory Workflow_Checks
  imports Workflow_Graph
begin

text \<open>
  The contracts on parsed workflows of \<^verbatim>\<open>scripts/workflow_contracts.py\<close> beyond the call graph (pins of
  actions, coverage, the release gate), and \<^verbatim>\<open>scripts/release_validation.py\<close>, which decides which jobs of a
  release must have succeeded.
\<close>

section \<open>Reading parsed documents\<close>

text \<open>Conditions of an \<^verbatim>\<open>or\<close> chain in their order: the first that fails or raises decides.\<close>

fun all_checks :: "bool res list \<Rightarrow> unit res" where
  "all_checks [] = Inr ()"
| "all_checks (c # cs) = rbind c (\<lambda>b. if b then all_checks cs else Inl ValueError)"

text \<open>Iteration: a text gives its characters and an object its keys.\<close>

definition iter_items :: "pyval \<Rightarrow> pyval list res" where
  "iter_items v =
     (case v of
        PList xs \<Rightarrow> Inr xs
      | PStr s \<Rightarrow> Inr (map (\<lambda>c. PStr [c]) s)
      | PDict d \<Rightarrow> Inr (map (\<lambda>(k, _). PStr k) d)
      | _ \<Rightarrow> Inl TypeError)"

definition dict_items :: "pyval \<Rightarrow> pydict res" where
  "dict_items v = (case v of PDict d \<Rightarrow> Inr d | _ \<Rightarrow> Inl AttributeError)"

definition vin :: "string \<Rightarrow> pyval \<Rightarrow> bool res" where
  "vin k v =
     (case v of
        PDict d \<Rightarrow> Inr (haskey d k)
      | PList xs \<Rightarrow> Inr (PStr k \<in> set xs)
      | PStr s \<Rightarrow> Inr (list_ex (\<lambda>i. startswith (drop i s) k) [0 ..< Suc (length s)])
      | _ \<Rightarrow> Inl TypeError)"

fun traverse :: "('a \<Rightarrow> 'b res) \<Rightarrow> 'a list \<Rightarrow> 'b list res" where
  "traverse f [] = Inr []"
| "traverse f (x # xs) = rbind (f x) (\<lambda>y. rbind (traverse f xs) (\<lambda>ys. Inr (y # ys)))"

definition text_of :: "pyval \<Rightarrow> string res" where
  "text_of v = (case v of PStr s \<Rightarrow> Inr s | _ \<Rightarrow> Inl TypeError)"

definition steps_with :: "pyval \<Rightarrow> string \<Rightarrow> pyval \<Rightarrow> pyval list res" where
  "steps_with job key value =
     rbind (rbind (vget_or job ''steps'' (PList [])) iter_items) (\<lambda>steps.
     rbind (traverse (\<lambda>s. vget s key) steps) (\<lambda>vs.
       Inr (map fst (filter (\<lambda>(_, v). py_eq v value) (zip steps vs)))))"

section \<open>The channels of release validation\<close>

definition CHANNELS :: "string list" where
  "CHANNELS = [''nightly'', ''beta'', ''rc'', ''stable'']"

definition workflow_char :: "char \<Rightarrow> bool" where
  "workflow_char c = (is_alpha c \<or> is_digit c \<or> c = CHR ''_'' \<or> c = CHR ''-'')"

definition validator_name :: "pyval \<Rightarrow> bool" where
  "validator_name v =
     (case v of
        PStr s \<Rightarrow>
          (let stem = takeWhile (\<lambda>c. c \<noteq> CHR ''.'') s
           in stem \<noteq> [] \<and> list_all workflow_char stem \<and> drop (length stem) s \<in> {''.yml'', ''.yaml''}) \<and>
          s \<notin> {''release-quality-gate.yml'', ''quality-gate.yml'', ''release-pipeline.yml'', ''release-build.yml''}
      | _ \<Rightarrow> False)"

definition channel_workflows :: "pydict \<Rightarrow> string list option res" where
  "channel_workflows policy =
     (if \<not> haskey policy ''channel_validation_workflows'' then Inr None
      else case dget policy ''channel_validation_workflows'' of
        PDict config \<Rightarrow>
          if set (map fst config) \<noteq> {''beta''} \<or> dget_or policy ''mode'' (PStr ''release'') \<noteq> PStr ''release'' \<or>
             dget_or policy ''ci_execution'' (PStr ''github'') \<noteq> PStr ''github'' \<or>
             dget policy ''single_entry_ci'' \<noteq> PBool True \<or> \<not> is_dict (dget policy ''versioning'')
          then Inl ValueError
          else (case dget config ''beta'' of
                  PList names \<Rightarrow>
                    if names = [] \<or> \<not> list_all validator_name names \<or> \<not> distinct (map text_val names) then Inl ValueError
                    else Inr (Some (map text_val names))
                | _ \<Rightarrow> Inl ValueError)
      | _ \<Rightarrow> Inl ValueError)"

definition profile :: "pydict \<Rightarrow> string \<Rightarrow> pydict option res" where
  "profile policy channel =
     rbind (channel_workflows policy) (\<lambda>beta.
     case beta of
       None \<Rightarrow> Inr None
     | Some names \<Rightarrow>
         if channel \<notin> set CHANNELS then Inl ValueError
         else rbind (if channel = ''beta'' then Inr (PList (map PStr names)) else dgetitem policy ''validation_workflows'') (\<lambda>ws.
           Inr (Some [(''schema'', PInt 1), (''channel'', PStr channel), (''workflows'', ws)])))"

text \<open>The expected results: what a beta release skips, every other channel requires, and conversely.\<close>

definition outcome :: "bool \<Rightarrow> string" where
  "outcome selected = (if selected then ''success'' else ''skipped'')"

definition add_numbered :: "string \<Rightarrow> string \<Rightarrow> nat \<Rightarrow> (string, string) dict \<Rightarrow> (string, string) dict" where
  "add_numbered prefix result n d = dupdate d (map (\<lambda>i. (prefix @ show_int (int i), result)) [0 ..< n])"

definition expected_results :: "pydict \<Rightarrow> string \<Rightarrow> (string, string) dict res" where
  "expected_results policy channel =
     rbind (channel_workflows policy) (\<lambda>beta.
     case beta of
       None \<Rightarrow> Inl ValueError
     | Some names \<Rightarrow>
         if channel \<notin> set CHANNELS then Inl ValueError
         else rbind (rbind (dgetitem policy ''validation_workflows'') iter_items) (\<lambda>ws.
           rbind (rbind (vget_or (dget_or policy ''coverage'' (PDict [])) ''reports'' (PList [])) iter_items) (\<lambda>reports.
           rbind (traverse (\<lambda>r. rbind (vitem r ''name'') text_of) reports) (\<lambda>covered.
             let base = map (\<lambda>n. (n, ''success'')) [''scope'', ''workflow-contracts'', ''release-contracts''];
                 checks = add_numbered ''check-'' (outcome (channel \<noteq> ''beta'')) (length ws) base;
                 betas = add_numbered ''beta-check-'' (outcome (channel = ''beta'')) (length names) checks
             in Inr (dupdate betas (map (\<lambda>n. (''coverage-'' @ n, outcome (channel \<noteq> ''beta''))) covered))))))"

definition check_results :: "pydict \<Rightarrow> string \<Rightarrow> pydict \<Rightarrow> unit res" where
  "check_results policy channel results =
     rbind (expected_results policy channel) (\<lambda>expected.
     rbind (guard (set (map fst results) = set (map fst expected))) (\<lambda>_.
     rbind (rbind (vget_or (dget results ''scope'') ''outputs'' (PDict [])) (\<lambda>o'. vget o' ''run'')) (\<lambda>run.
     rbind (guard (run = PStr ''true'')) (\<lambda>_.
     rbind (traverse (\<lambda>(name, r). rbind (vget r ''result'') (\<lambda>v. Inr (name, v))) results) (\<lambda>rs.
       guard (list_all (\<lambda>(name, v). v = PStr (the (map_of expected name))) rs))))))"

definition check_event :: "string option \<Rightarrow> pyval res \<Rightarrow> string \<Rightarrow> unit res" where
  "check_event event payload channel =
     rbind (if event = Some ''workflow_dispatch''
            then rbind payload (\<lambda>p. rbind (vget_or p ''inputs'' (PDict [])) (\<lambda>i. vget i ''channel''))
            else Inr (if event = Some ''push'' then PStr ''beta'' else if event = Some ''schedule'' then PStr ''nightly'' else PNone))
       (\<lambda>expected. guard (channel \<in> set CHANNELS \<and> expected = PStr channel))"

definition check_run_jobs :: "pydict list \<Rightarrow> string \<Rightarrow> string \<Rightarrow> unit res" where
  "check_run_jobs jobs channel sha =
     (let named = (\<lambda>name. filter (\<lambda>j. dget j ''name'' = PStr name) jobs);
          good = (\<lambda>name. case named name of
             [j] \<Rightarrow> dget j ''head_sha'' = PStr sha \<and> dget j ''status'' = PStr ''completed'' \<and> dget j ''conclusion'' = PStr ''success''
           | _ \<Rightarrow> False)
      in rbind (guard (length (filter (\<lambda>j. startswith (py_str (dget_or j ''name'' (PStr []))) ''checks / Validation profile ('') jobs) = 1)) (\<lambda>_.
         guard (good ''checks / CI gate'' \<and> good (''checks / Validation profile ('' @ channel @ '')''))))"

section \<open>Pins of actions\<close>

definition codeql_actions :: "string list" where
  "codeql_actions = map (\<lambda>a. ''github/codeql-action/'' @ a @ ''@'') [''init'', ''autobuild'', ''analyze'', ''upload-sarif'']"

definition after_at :: "string \<Rightarrow> string" where
  "after_at s = List.last (split_char (CHR ''@'') s)"

text \<open>The references of one job's steps to the analyzer.\<close>

definition codeql_pins :: "pyval \<Rightarrow> string list res" where
  "codeql_pins job =
     rbind (rbind (vget_or job ''steps'' (PList [])) iter_items) (\<lambda>steps.
     rbind (traverse (\<lambda>s. rbind (vget_or s ''uses'' (PStr [])) text_of) steps) (\<lambda>uses.
       Inr (map after_at (filter (\<lambda>u. list_ex (startswith u) codeql_actions) uses))))"

definition one_release :: "string list \<Rightarrow> bool" where
  "one_release pins = (\<forall>p\<in>set pins. \<forall>q\<in>set pins. p = q)"

definition job_pins :: "pyval \<Rightarrow> string list res" where
  "job_pins job = rbind (codeql_pins job) (\<lambda>pins. rbind (guard (one_release pins \<and> list_all sha_text pins)) (\<lambda>_. Inr pins))"

definition workflow_codeql :: "pyval \<Rightarrow> string list res" where
  "workflow_codeql w =
     rbind (rbind (vget_or w ''jobs'' (PDict [])) dict_items) (\<lambda>jobs.
     rbind (traverse (\<lambda>(_, job). job_pins job) jobs) (\<lambda>ps. Inr (concat ps)))"

definition validate_codeql :: "pydict \<Rightarrow> unit res" where
  "validate_codeql workflows =
     rbind (traverse (\<lambda>(_, w). workflow_codeql w) workflows) (\<lambda>ps. guard (one_release (concat ps)))"

text \<open>\<^verbatim>\<open>docker://\<close> with a name and an immutable digest.\<close>

definition docker_reference :: "string \<Rightarrow> bool" where
  "docker_reference s =
     (let r = drop 9 s; name = takeWhile (\<lambda>c. c \<noteq> CHR ''@'') r; d = drop (length name) r
      in startswith s ''docker://'' \<and> name \<noteq> [] \<and> (is_alpha (hd name) \<or> is_digit (hd name)) \<and>
         list_all (\<lambda>c. is_alpha c \<or> is_digit c \<or> c \<in> {CHR ''.'', CHR ''_'', CHR '':'', CHR ''/'', CHR ''-''}) name \<and>
         startswith d ''@sha256:'' \<and> digest_text (drop 8 d))"

definition pinned :: "string \<Rightarrow> bool" where
  "pinned r =
     (let action = takeWhile (\<lambda>c. c \<noteq> CHR ''@'') r; revision = drop (Suc (length action)) r
      in if startswith r ''docker://'' then docker_reference r else sha_text revision)"

definition validate_action_reference :: "pyval \<Rightarrow> (string, string) dict option \<Rightarrow> unit res" where
  "validate_action_reference reference pins =
     (if \<not> truthy reference then Inr ()
      else case reference of
        PStr r \<Rightarrow>
          if startswith r ''./'' then Inr ()
          else rbind (guard (pinned r)) (\<lambda>_.
            let action = takeWhile (\<lambda>c. c \<noteq> CHR ''@'') r; revision = drop (Suc (length action)) r
            in case pins of None \<Rightarrow> Inr () | Some ps \<Rightarrow> guard (map_of ps action = Some revision))
      | _ \<Rightarrow> Inl AttributeError)"

text \<open>What a job refers to: its own reusable workflow and the actions of its steps.\<close>

definition job_references :: "pyval \<Rightarrow> pyval list res" where
  "job_references job =
     rbind (vget_or job ''uses'' (PStr [])) (\<lambda>own.
     rbind (rbind (vget_or job ''steps'' (PList [])) iter_items) (\<lambda>steps.
     rbind (traverse (\<lambda>s. vget_or s ''uses'' (PStr [])) steps) (\<lambda>uses. Inr (own # uses))))"

fun validate_references :: "(string, string) dict option \<Rightarrow> pyval list \<Rightarrow> unit res" where
  "validate_references pins [] = Inr ()"
| "validate_references pins (r # rs) = rbind (validate_action_reference r pins) (\<lambda>_. validate_references pins rs)"

fun validate_jobs :: "(string, string) dict option \<Rightarrow> pydict \<Rightarrow> unit res" where
  "validate_jobs pins [] = Inr ()"
| "validate_jobs pins ((_, job) # jobs) =
     rbind (job_references job) (\<lambda>rs. rbind (validate_references pins rs) (\<lambda>_. validate_jobs pins jobs))"

definition validate_workflow_pins :: "pyval \<Rightarrow> (string, string) dict option \<Rightarrow> unit res" where
  "validate_workflow_pins w pins =
     rbind (rbind (vget_or w ''jobs'' (PDict [])) dict_items) (validate_jobs pins)"

definition toolkit_workflow :: "string \<Rightarrow> string" where
  "toolkit_workflow w = ''victron-venus/venus-os-ci-toolkit/.github/workflows/'' @ w"

text \<open>The pin one section of the policy configures, when it is there.\<close>

definition configured_pin :: "pydict \<Rightarrow> string \<Rightarrow> string \<Rightarrow> (string, string) dict res" where
  "configured_pin policy key w =
     (case dget policy key of
        PNone \<Rightarrow> Inr []
      | PDict c \<Rightarrow>
          (case dget c ''toolkit_ref'' of
             PStr r \<Rightarrow> rbind (guard (sha_text r)) (\<lambda>_. Inr [(toolkit_workflow w, r)])
           | _ \<Rightarrow> Inl ValueError)
      | _ \<Rightarrow> Inl ValueError)"

definition configured_workflow_pins :: "pydict \<Rightarrow> (string, string) dict res" where
  "configured_workflow_pins policy =
     rbind (configured_pin policy ''coverage'' ''coverage-upload.yml'') (\<lambda>a.
     rbind (configured_pin policy ''fuzzing'' ''fuzz.yml'') (\<lambda>b. Inr (a @ b)))"

text \<open>The generator's manifest as a list of pins, when the repository has one.\<close>

definition generator_pins ::
  "pyval list option \<Rightarrow> bool \<Rightarrow> pydict \<Rightarrow> (string, string) dict option res" where
  "generator_pins manifest has_generator policy =
     (case manifest of
        None \<Rightarrow> if has_generator then Inl ValueError else Inr None
      | Some entries \<Rightarrow>
          rbind (traverse (\<lambda>e. rbind (vitem e ''packageName'') (\<lambda>n. rbind (vitem e ''digest'') (\<lambda>d.
             rbind (text_of n) (\<lambda>n'. rbind (text_of d) (\<lambda>d'. Inr (n', d')))))) entries) (\<lambda>ps.
          rbind (guard (list_all (\<lambda>(_, p). sha_text p) (dupdate [] ps))) (\<lambda>_.
          rbind (configured_workflow_pins policy) (\<lambda>more. Inr (Some (dupdate (dupdate [] ps) more))))))"

definition validate_fuzz_pins :: "pydict \<Rightarrow> pydict \<Rightarrow> unit res" where
  "validate_fuzz_pins policy workflows =
     rbind (configured_workflow_pins policy) (\<lambda>configured.
     case map_of configured (toolkit_workflow ''fuzz.yml'') of
       None \<Rightarrow> Inr ()
     | Some r \<Rightarrow>
         rbind (vget_or (dget_or workflows ''release-pipeline.yml'' (PDict [])) ''jobs'' (PDict [])) (\<lambda>jobs.
         rbind (vget_or jobs ''fuzz'' (PDict [])) (\<lambda>job.
           all_checks
             [rbind (vget job ''uses'') (\<lambda>u. Inr (u = PStr (toolkit_workflow ''fuzz.yml'' @ CHR ''@'' # r))),
              rbind (vget_or job ''with'' (PDict [])) (\<lambda>w. rbind (vget w ''toolkit-ref'') (\<lambda>t. Inr (t = PStr r)))])))"

definition generated_workflows :: "string list" where
  "generated_workflows = [''quality-gate.yml'', ''release-pipeline.yml'', ''release-quality-gate.yml'']"

fun validate_each_pins :: "(string, string) dict option \<Rightarrow> (string \<Rightarrow> string res) \<Rightarrow> pydict \<Rightarrow> unit res" where
  "validate_each_pins pins source [] = Inr ()"
| "validate_each_pins pins source ((name, w) # ws) =
     rbind (if name \<notin> set generated_workflows then validate_workflow_pins w None
            else rbind (source name) (\<lambda>s.
              rbind (guard (startswith s ''# Generated by venus-os-ci-toolkit/scripts/install_release.py;'')) (\<lambda>_.
                validate_workflow_pins w pins))) (\<lambda>_.
     validate_each_pins pins source ws)"

definition validate_generator_pins ::
  "pyval list option \<Rightarrow> bool \<Rightarrow> pydict \<Rightarrow> (string \<Rightarrow> string res) \<Rightarrow> pydict \<Rightarrow> unit res" where
  "validate_generator_pins manifest has_generator policy source workflows =
     rbind (generator_pins manifest has_generator policy) (\<lambda>pins.
     rbind (validate_each_pins pins source workflows) (\<lambda>_. validate_fuzz_pins policy workflows))"

section \<open>The gates\<close>

definition is_val :: "pyval res \<Rightarrow> pyval \<Rightarrow> bool res" where
  "is_val m v = rbind m (\<lambda>x. Inr (same_json x v))"

definition replace_char :: "char \<Rightarrow> char \<Rightarrow> string \<Rightarrow> string" where
  "replace_char a b s = map (\<lambda>c. if c = a then b else c) s"

definition report_text :: "pyval \<Rightarrow> string \<Rightarrow> string res" where
  "report_text report key = rbind (vitem report key) text_of"

text \<open>A reusable producer passes the artifact name on; any other exports the report itself.\<close>

definition validate_coverage_producer :: "pyval \<Rightarrow> pyval \<Rightarrow> string \<Rightarrow> unit res" where
  "validate_coverage_producer producer report r =
     rbind (report_text report ''name'') (\<lambda>n.
     rbind (vin ''uses'' producer) (\<lambda>reusable.
     if reusable then
       rbind (vitem report ''format'') (\<lambda>format.
         let w = (if format = PStr ''cobertura'' then Some ''python-ci.yml'' else if format = PStr ''go'' then Some ''go-ci.yml'' else None)
         in all_checks
           [Inr (w \<noteq> None),
            is_val (vitem producer ''uses'') (PStr (toolkit_workflow (the w) @ CHR ''@'' # r)),
            is_val (rbind (vget_or producer ''with'' (PDict [])) (\<lambda>x. vget x ''coverage-artifact-name'')) (PStr (''coverage-'' @ n))])
     else
       rbind (steps_with producer ''id'' (PStr (''export_coverage_'' @ replace_char (CHR ''-'') (CHR ''_'') n))) (\<lambda>exports.
         case exports of
           [e] \<Rightarrow>
             all_checks
               [rbind (rbind (vget_or e ''uses'' (PStr [])) text_of) (\<lambda>u.
                  Inr (startswith u ''actions/upload-artifact@'' \<and> sha_text (drop 24 u))),
                is_val (rbind (vget_or e ''with'' (PDict [])) (\<lambda>x. vget x ''name'')) (PStr (''coverage-'' @ n @ ''-${{ github.run_attempt }}'')),
                rbind (vitem report ''path'') (is_val (rbind (vget_or e ''with'' (PDict [])) (\<lambda>x. vget x ''path'')))]
         | _ \<Rightarrow> Inl ValueError)))"

definition str_method :: "pyval \<Rightarrow> string res" where
  "str_method v = (case v of PStr s \<Rightarrow> Inr s | _ \<Rightarrow> Inl AttributeError)"

definition coverage_caller :: "pydict \<Rightarrow> pydict \<Rightarrow> string \<Rightarrow> pyval \<Rightarrow> unit res" where
  "coverage_caller policy gate r report =
     rbind (report_text report ''name'') (\<lambda>n.
     rbind (rbind (vitem report ''workflow'') (\<lambda>w. rbind (rbind (dgetitem policy ''validation_workflows'') iter_items) (\<lambda>ws.
       if w \<in> set ws then Inr (length (takeWhile (\<lambda>x. x \<noteq> w) ws)) else Inl ValueError))) (\<lambda>index.
     let upload = dget_or gate (''coverage-'' @ n) (PDict [])
     in all_checks
            [is_val (vget upload ''uses'') (PStr (toolkit_workflow ''coverage-upload.yml'' @ CHR ''@'' # r)),
             is_val (vget upload ''needs'') (PList [PStr ''scope'', PStr (''check-'' @ show_int (int index))]),
             is_val (vget upload ''permissions'') (PDict [(''contents'', PStr ''read''), (''actions'', PStr ''read''), (''id-token'', PStr ''write'')]),
             rbind (vget upload ''with'') (\<lambda>w.
             rbind (rbind (vitem report ''path'') str_method) (\<lambda>path.
             rbind (vitem report ''format'') (\<lambda>format.
             rbind (vitem report ''required'') (\<lambda>required.
               is_val (Inr w) (PDict [(''artifact-name'', PStr (''coverage-'' @ n)), (''report-file'', PStr (last_segment path)),
                 (''format'', format), (''flags'', PStr n), (''required'', PStr (lower (py_str required)))])))))]))"

fun validate_reports :: "pydict \<Rightarrow> pydict \<Rightarrow> pydict \<Rightarrow> string \<Rightarrow> pyval list \<Rightarrow> unit res" where
  "validate_reports policy workflows gate r [] = Inr ()"
| "validate_reports policy workflows gate r (report # reports) =
     rbind (coverage_caller policy gate r report) (\<lambda>_.
     rbind (report_text report ''workflow'') (\<lambda>w. rbind (report_text report ''job'') (\<lambda>j.
     rbind (rbind (rbind (dgetitem workflows w) (\<lambda>x. vitem x ''jobs'')) (\<lambda>js. vitem js j)) (\<lambda>producer.
     rbind (validate_coverage_producer producer report r) (\<lambda>_.
       validate_reports policy workflows gate r reports)))))"

definition validate_coverage_callers :: "pydict \<Rightarrow> pydict \<Rightarrow> pydict \<Rightarrow> string list res" where
  "validate_coverage_callers policy workflows gate =
     (let coverage = dget policy ''coverage''
      in if \<not> truthy coverage then Inr []
         else rbind (vitem coverage ''toolkit_ref'') (\<lambda>v.
           case v of
             PStr r \<Rightarrow>
               rbind (guard (sha_text r)) (\<lambda>_.
               rbind (rbind (vitem coverage ''reports'') iter_items) (\<lambda>reports.
               rbind (validate_reports policy workflows gate r reports) (\<lambda>_.
                 Inr [toolkit_workflow ''coverage-upload.yml'' @ CHR ''@'' # r])))
           | _ \<Rightarrow> Inl ValueError))"

text \<open>Outside beta each default check keeps its own condition.\<close>

definition baseline_job :: "string \<Rightarrow> pydict \<Rightarrow> pydict res" where
  "baseline_job name original =
     (if startswith name ''check-'' \<or> startswith name ''coverage-''
      then rbind (text_of (dget_or original ''if'' (PStr ''${{ success() }}''))) (\<lambda>c.
        Inr (dset ''if'' (PStr (''${{ inputs.channel != 'beta' && ('' @ strip (take (length c - 6) (drop 3 c)) @ '') }}'')) original))
      else Inr original)"

fun validate_release_baseline :: "pydict \<Rightarrow> pydict \<Rightarrow> unit res" where
  "validate_release_baseline jobs [] = Inr ()"
| "validate_release_baseline jobs ((name, original) # rest) =
     (if name \<in> {''scope'', ''gate''} then validate_release_baseline jobs rest
      else rbind (dgetitem jobs name) (\<lambda>actual.
           rbind (dict_items original) (\<lambda>o'.
           rbind (baseline_job name o') (\<lambda>wanted.
           rbind (guard (same_json actual (PDict wanted))) (\<lambda>_. validate_release_baseline jobs rest)))))"

fun validate_beta_callers :: "pydict \<Rightarrow> nat \<Rightarrow> string list \<Rightarrow> unit res" where
  "validate_beta_callers jobs index [] = Inr ()"
| "validate_beta_callers jobs index (f # fs) =
     rbind (dgetitem jobs (''beta-check-'' @ show_int (int index))) (\<lambda>job.
     rbind (all_checks
       [is_val (vget job ''uses'') (PStr (LOCAL_WORKFLOW_PREFIX @ f)),
        is_val (vget job ''needs'') (PList [PStr ''scope'', PStr ''workflow-contracts'']),
        is_val (vget job ''if'') (PStr ''${{ inputs.channel == 'beta' && needs.scope.outputs.run == 'true' }}'')]) (\<lambda>_.
     validate_beta_callers jobs (Suc index) fs))"

definition validate_release_scope :: "pyval \<Rightarrow> unit res" where
  "validate_release_scope scope =
     rbind (steps_with scope ''name'' (PStr ''Validate release channel'')) (\<lambda>selector.
     all_checks
       [is_val (vget scope ''name'') (PStr ''Validation profile (${{ inputs.channel }})''),
        rbind (vin ''if'' scope) (\<lambda>b. Inr (\<not> b)),
        Inr (length selector = 1),
        is_val (vget (hd selector) ''run'') (PStr ''python3 scripts/release_validation.py select --channel \"$RELEASE_CHANNEL\"''),
        is_val (vget (hd selector) ''env'') (PDict [(''RELEASE_CHANNEL'', PStr ''${{ inputs.channel }}'')]),
        rbind (rbind (vget_or scope ''steps'' (PList [])) iter_items) (\<lambda>steps.
        rbind (traverse (\<lambda>s. rbind (vget_or s ''env'' (PDict [])) (\<lambda>e. vget e ''FORCE_FULL'')) steps) (\<lambda>vs.
          Inr (PStr ''true'' \<in> set vs)))])"

definition overrides :: "pyval \<Rightarrow> bool res" where
  "overrides v = rbind (iter_items v) (\<lambda>ks. Inr (PStr ''shell'' \<in> set ks \<or> PStr ''working-directory'' \<in> set ks))"

definition default_overrides :: "pyval \<Rightarrow> bool res" where
  "default_overrides scope =
     rbind (vget_or scope ''defaults'' (PDict [])) (\<lambda>d. rbind (vget_or d ''run'' (PDict [])) overrides)"

definition validate_release_gate :: "pyval \<Rightarrow> pyval \<Rightarrow> unit res" where
  "validate_release_gate gate w =
     rbind (rbind (vget_or gate ''steps'' (PList [])) iter_items) (\<lambda>steps.
     rbind (traverse (vin ''run'') steps) (\<lambda>runs.
     let commands = map fst (filter snd (zip steps runs)); c = hd commands
     in all_checks
       [rbind (default_overrides (if truthy w then w else PDict [])) (\<lambda>b. Inr (\<not> b)),
        rbind (default_overrides gate) (\<lambda>b. Inr (\<not> b)),
        rbind (traverse overrides commands) (\<lambda>bs. Inr (True \<notin> set bs)),
        is_val (vget gate ''name'') (PStr ''CI gate''),
        is_val (vget gate ''if'') (PStr ''${{ always() }}''),
        is_val (vget_or gate ''continue-on-error'' (PStr ''false'')) (PStr ''false''),
        Inr (length commands = 1),
        is_val (vget_or c ''continue-on-error'' (PStr ''false'')) (PStr ''false''),
        rbind (vin ''if'' c) (\<lambda>b. Inr (\<not> b)),
        is_val (vget c ''run'') (PStr ''python3 scripts/release_validation.py gate --channel \"$RELEASE_CHANNEL\"''),
        is_val (vget c ''env'') (PDict [(''RESULTS'', PStr ''${{ toJSON(needs) }}''), (''RELEASE_CHANNEL'', PStr ''${{ inputs.channel }}'')])]))"

definition same_keys :: "pyval list \<Rightarrow> string list \<Rightarrow> bool" where
  "same_keys vs ks = (set vs = set (map PStr ks))"

definition channel_input :: pyval where
  "channel_input = PDict [(''workflow_call'', PDict [(''inputs'', PDict [(''channel'',
     PDict [(''type'', PStr ''string''), (''required'', PStr ''true'')])])])]"

definition validate_release_channels :: "pydict \<Rightarrow> pydict \<Rightarrow> unit res" where
  "validate_release_channels policy workflows =
     (if \<not> haskey policy ''channel_validation_workflows''
      then guard (\<not> haskey workflows ''release-quality-gate.yml'')
      else rbind (channel_workflows policy) (\<lambda>beta.
        let names = (case beta of None \<Rightarrow> [] | Some ns \<Rightarrow> ns); wrapper = dget_or workflows ''release-quality-gate.yml'' (PDict [])
        in rbind (validate_graph workflows names) (\<lambda>_.
           rbind (all_checks [is_val (vget wrapper ''on'') channel_input]) (\<lambda>_.
           rbind (rbind (vget_or wrapper ''jobs'' (PDict [])) (\<lambda>v. case v of PDict d \<Rightarrow> Inr d | _ \<Rightarrow> Inl ValueError)) (\<lambda>jobs.
           rbind (expected_results policy ''beta'') (\<lambda>expected.
           rbind (all_checks
             [Inr (set (map fst jobs) = insert ''gate'' (set (map fst expected))),
              rbind (rbind (rbind (dgetitem jobs ''gate'') (\<lambda>g. vget_or g ''needs'' (PList []))) iter_items) (\<lambda>needs.
                Inr (same_keys needs (map fst expected)))]) (\<lambda>_.
           rbind (rbind (rbind (dgetitem workflows ''quality-gate.yml'') (\<lambda>q. vitem q ''jobs'')) dict_items) (\<lambda>baseline.
           rbind (validate_release_baseline jobs baseline) (\<lambda>_.
           rbind (validate_beta_callers jobs 0 names) (\<lambda>_.
           rbind (rbind (dgetitem jobs ''scope'') validate_release_scope) (\<lambda>_.
           rbind (rbind (dgetitem jobs ''gate'') (\<lambda>g. validate_release_gate g wrapper)) (\<lambda>_.
           rbind (rbind (vget_or (dget_or workflows ''release-pipeline.yml'' (PDict [])) ''jobs'' (PDict [])) (\<lambda>js.
               vget_or js ''checks'' (PDict []))) (\<lambda>caller.
           all_checks
             [is_val (vget caller ''uses'') (PStr (LOCAL_WORKFLOW_PREFIX @ ''release-quality-gate.yml'')),
              is_val (vget caller ''needs'') (PStr ''prepare''),
              is_val (vget caller ''with'') (PDict [(''channel'', PStr ''${{ needs.prepare.outputs.channel }}'')])])))))))))))))"

fun pull_requests_gated :: "string list \<Rightarrow> pydict \<Rightarrow> unit res" where
  "pull_requests_gated visited [] = Inr ()"
| "pull_requests_gated visited ((name, w) # ws) =
     rbind (rbind (vget_or w ''on'' (PDict [])) (vin ''pull_request'')) (\<lambda>pr.
     rbind (guard (\<not> (pr \<and> name \<notin> set visited \<and> name \<notin> {''quality-gate.yml'', ''auto-approve.yml'', ''auto-merge.yml''}))) (\<lambda>_.
     pull_requests_gated visited ws))"

text \<open>What a gate job calls, when it calls something.\<close>

definition gate_uses :: "pydict \<Rightarrow> pyval list res" where
  "gate_uses gate =
     rbind (traverse (\<lambda>(_, job). rbind (vin ''uses'' job) (\<lambda>b. if b then rbind (vget job ''uses'') (\<lambda>u. Inr [u]) else Inr [])) gate) (\<lambda>us.
       Inr (concat us))"

definition validate_gate :: "pydict \<Rightarrow> pydict \<Rightarrow> string list \<Rightarrow> unit res" where
  "validate_gate policy workflows validators =
     rbind (rbind (rbind (dgetitem workflows ''quality-gate.yml'') (\<lambda>q. vitem q ''jobs'')) dict_items) (\<lambda>gate.
     rbind (validate_coverage_callers policy workflows gate) (\<lambda>covered.
     rbind (gate_uses gate) (\<lambda>actual.
     all_checks
       [Inr (same_keys actual (map (\<lambda>f. LOCAL_WORKFLOW_PREFIX @ f) validators @ covered)),
        rbind (rbind (rbind (dgetitem gate ''gate'') (\<lambda>g. vget_or g ''needs'' (PList []))) iter_items) (\<lambda>needs.
          Inr (same_keys needs (filter (\<lambda>k. k \<noteq> ''gate'') (map fst gate)))),
        Inr (haskey gate ''workflow-contracts'')])))"

definition validate_contracts ::
  "pyval list option \<Rightarrow> bool \<Rightarrow> (string \<Rightarrow> string res) \<Rightarrow> unit res \<Rightarrow> pydict \<Rightarrow> pydict \<Rightarrow> bool \<Rightarrow> unit res" where
  "validate_contracts manifest has_generator source update_metadata policy workflows actions_only =
     rbind (validate_codeql workflows) (\<lambda>_.
     rbind update_metadata (\<lambda>_.
     rbind (validate_generator_pins manifest has_generator policy source workflows) (\<lambda>_.
     if actions_only then Inr ()
     else rbind (rbind (rbind (dgetitem policy ''validation_workflows'') iter_items) (traverse text_of)) (\<lambda>validators.
       rbind (validate_graph workflows validators) (\<lambda>visited.
       rbind (pull_requests_gated visited workflows) (\<lambda>_.
       rbind (validate_gate policy workflows validators) (\<lambda>_.
         validate_release_channels policy workflows)))))))"

section \<open>The release gate fails closed\<close>

lemma dlookup_dupdate_other: "k \<notin> fst ` set kvs \<Longrightarrow> map_of (dupdate d kvs) k = map_of d k"
  by (induction d kvs rule: dupdate.induct) simp_all

lemma add_numbered_at: "i < n \<Longrightarrow> map_of (add_numbered p v n d) (p @ show_int (int i)) = Some v"
proof -
  assume i: "i < n"
  have d: "distinct (map fst (map (\<lambda>i. (p @ show_int (int i), v)) [0 ..< n]))"
    by (auto simp: distinct_map inj_on_def comp_def dest: show_int_inj)
  have "map_of (map (\<lambda>i. (p @ show_int (int i), v)) [0 ..< n]) (p @ show_int (int i)) = Some v"
    using d i by (simp add: map_of_eq_Some_iff)
  then show ?thesis by (simp add: add_numbered_def dlookup_dupdate [OF d])
qed

lemma add_numbered_other: "\<not> startswith k p \<Longrightarrow> map_of (add_numbered p v n d) k = map_of d k"
  unfolding add_numbered_def by (rule dlookup_dupdate_other) (auto simp: startswith_def)

lemma expected_results_parts:
  assumes "expected_results policy channel = Inr expected" and "channel_workflows policy = Inr (Some names)"
    and "dgetitem policy ''validation_workflows'' = Inr (PList ws)"
  shows "channel \<in> set CHANNELS \<and>
    (\<forall>k\<in>{''scope'', ''workflow-contracts'', ''release-contracts''}. map_of expected k = Some ''success'') \<and>
    (\<forall>i<length ws. map_of expected (''check-'' @ show_int (int i)) = Some (outcome (channel \<noteq> ''beta''))) \<and>
    (\<forall>i<length names. map_of expected (''beta-check-'' @ show_int (int i)) = Some (outcome (channel = ''beta'')))"
proof -
  from assms obtain covered where ch: "channel \<in> set CHANNELS" and e: "expected =
      dupdate (add_numbered ''beta-check-'' (outcome (channel = ''beta'')) (length names)
        (add_numbered ''check-'' (outcome (channel \<noteq> ''beta'')) (length ws)
          (map (\<lambda>n. (n, ''success'')) [''scope'', ''workflow-contracts'', ''release-contracts''])))
        (map (\<lambda>n. (''coverage-'' @ n, outcome (channel \<noteq> ''beta''))) covered)"
    by (auto simp: expected_results_def rbind_Inr_iff iter_items_def Let_def split: if_splits)
  have other: "map_of expected k = map_of (add_numbered ''beta-check-'' (outcome (channel = ''beta'')) (length names)
        (add_numbered ''check-'' (outcome (channel \<noteq> ''beta'')) (length ws)
          (map (\<lambda>n. (n, ''success'')) [''scope'', ''workflow-contracts'', ''release-contracts'']))) k"
    if "\<not> startswith k ''coverage-''" for k
    unfolding e by (rule dlookup_dupdate_other) (use that in \<open>auto simp: startswith_def\<close>)
  have b: "\<not> startswith (''beta-check-'' @ s) ''coverage-''" "\<not> startswith (''check-'' @ s) ''coverage-''"
    "\<not> startswith (''check-'' @ s) ''beta-check-''" for s by (simp_all add: startswith_def)
  have "map_of expected k = Some ''success''" if "k \<in> {''scope'', ''workflow-contracts'', ''release-contracts''}" for k
  proof -
    have "\<not> startswith k ''coverage-'' \<and> \<not> startswith k ''beta-check-'' \<and> \<not> startswith k ''check-'' \<and>
        map_of (map (\<lambda>n. (n, ''success'')) [''scope'', ''workflow-contracts'', ''release-contracts'']) k = Some ''success''"
      using that by (elim insertE emptyE) (simp_all add: startswith_def)
    then show ?thesis using other [of k] by (simp add: add_numbered_other)
  qed
  moreover have "map_of expected (''check-'' @ show_int (int i)) = Some (outcome (channel \<noteq> ''beta''))" if "i < length ws" for i
    unfolding other [OF b(2)] add_numbered_other [OF b(3)] by (rule add_numbered_at [OF that])
  moreover have "map_of expected (''beta-check-'' @ show_int (int i)) = Some (outcome (channel = ''beta''))" if "i < length names" for i
    unfolding other [OF b(1)] by (rule add_numbered_at [OF that])
  ultimately show ?thesis using ch by blast
qed

lemma traverse_member: "traverse f xs = Inr ys \<Longrightarrow> x \<in> set xs \<Longrightarrow> \<exists>y\<in>set ys. f x = Inr y"
  by (induction xs arbitrary: ys) (auto simp: rbind_Inr_iff)

lemma check_results_at:
  assumes "check_results policy channel results = Inr ()" and "expected_results policy channel = Inr expected"
    and "map_of expected k = Some v"
  shows "\<exists>r. map_of results k = Some r \<and> vget r ''result'' = Inr (PStr v)"
proof -
  from assms(1,2) obtain rs where keys: "set (map fst results) = set (map fst expected)"
    and t: "traverse (\<lambda>(name, r). rbind (vget r ''result'') (\<lambda>v. Inr (name, v))) results = Inr rs"
    and ok: "list_all (\<lambda>(name, v). v = PStr (the (map_of expected name))) rs"
    by (auto simp: check_results_def rbind_Inr_iff)
  have "k \<in> set (map fst expected)" using assms(3) by (force dest: map_of_SomeD)
  with keys obtain r where r: "map_of results k = Some r" by (metis map_of_eq_None_iff list.set_map not_Some_eq option.exhaust)
  then have "(k, r) \<in> set results" by (rule map_of_SomeD)
  from traverse_member [OF t this] obtain y where y: "y \<in> set rs" "rbind (vget r ''result'') (\<lambda>v. Inr (k, v)) = Inr y"
    by auto
  then obtain w where w: "vget r ''result'' = Inr w" "y = (k, w)" by (auto simp: rbind_Inr_iff)
  with ok y(1) assms(3) have "w = PStr v" by (auto simp: list_all_iff)
  with r w show ?thesis by simp
qed


definition demo_release_policy :: pydict where
  "demo_release_policy =
     [(''channel_validation_workflows'', PDict [(''beta'', PList [PStr ''fast.yml''])]), (''single_entry_ci'', PBool True),
      (''versioning'', PDict [(''schema'', PInt 1)]), (''validation_workflows'', PList [PStr ''ci.yml''])]"

definition demo_results :: "string \<Rightarrow> pydict" where
  "demo_results check =
     [(''scope'', PDict [(''result'', PStr ''success''), (''outputs'', PDict [(''run'', PStr ''true'')])]),
      (''workflow-contracts'', PDict [(''result'', PStr ''success'')]), (''release-contracts'', PDict [(''result'', PStr ''success'')]),
      (''check-0'', PDict [(''result'', PStr check)]), (''beta-check-0'', PDict [(''result'', PStr ''skipped'')])]"


end
