(* ===== verification/Json_Text.thy ===== *)
theory Json_Text
  imports Version_Plan
begin

text \<open>
  The JSON reader of \<^verbatim>\<open>scripts/version_plan.py\<close> (\<^verbatim>\<open>_JsonDocument\<close>), which keeps_places the place of every
  scalar, over the scalar scanner and printer of the standard \<^verbatim>\<open>json\<close> module. Text is kept as its UTF-8
  bytes, so an index counts bytes; the slices cut the same characters. The grammar \<open>jval\<close> describes the
  texts the reader accepts, with their values and the places of their scalars, and is shown to be exactly that;
  replacing one scalar token changes the value at its path and nothing else.
\<close>

section \<open>Text as UTF-8\<close>

definition follows :: "nat \<Rightarrow> string \<Rightarrow> bool" where
  "follows n s = (n \<le> length s \<and> list_all (\<lambda>c. 128 \<le> code c \<and> code c < 192) (take n s))"

definition lead_length :: "char \<Rightarrow> nat option" where
  "lead_length c =
     (if code c < 128 then Some 0 else if 194 \<le> code c \<and> code c < 224 then Some 1
      else if 224 \<le> code c \<and> code c < 240 then Some 2 else if 240 \<le> code c \<and> code c < 245 then Some 3 else None)"

text \<open>The second byte excludes overlong forms, surrogates and code points past the last.\<close>

definition second_ok :: "char \<Rightarrow> string \<Rightarrow> bool" where
  "second_ok c s =
     (case s of [] \<Rightarrow> True
      | d # _ \<Rightarrow> (code c = 224 \<longrightarrow> 160 \<le> code d) \<and> (code c = 237 \<longrightarrow> code d < 160) \<and>
                (code c = 240 \<longrightarrow> 144 \<le> code d) \<and> (code c = 244 \<longrightarrow> code d < 144))"

function utf8_valid :: "string \<Rightarrow> bool" where
  "utf8_valid [] = True"
| "utf8_valid (c # cs) =
     (case lead_length c of None \<Rightarrow> False
      | Some n \<Rightarrow> follows n cs \<and> (n > 0 \<longrightarrow> second_ok c cs) \<and> utf8_valid (drop n cs))"
  by pat_completeness auto
termination
  by (relation "measure length") auto

definition decode_utf8 :: "string \<Rightarrow> string res" where
  "decode_utf8 raw = (if utf8_valid raw then Inr raw else Inl ValueError)"

definition utf8_bytes :: "int \<Rightarrow> string" where
  "utf8_bytes n =
     (let low = (\<lambda>k. char_of (128 + n div k mod 64))
      in if n < 128 then [char_of n]
         else if n < 2048 then [char_of (192 + n div 64), low 1]
         else if n < 65536 then [char_of (224 + n div 4096), low 64, low 1]
         else [char_of (240 + n div 262144), low 4096, low 64, low 1])"

section \<open>JSON scalars\<close>

definition is_ws :: "char \<Rightarrow> bool" where
  "is_ws c = (c \<in> {CHR 0x20, CHR 0x0A, CHR 0x0D, CHR 0x09})"

definition hex_val :: "char \<Rightarrow> int option" where
  "hex_val c =
     (if is_digit c then Some (code c - 48) else if 97 \<le> code c \<and> code c \<le> 102 then Some (code c - 87)
      else if 65 \<le> code c \<and> code c \<le> 70 then Some (code c - 55) else None)"

fun hex4 :: "string \<Rightarrow> (int \<times> string) res" where
  "hex4 (a # b # c # d # s) =
     (case (hex_val a, hex_val b, hex_val c, hex_val d) of
        (Some w, Some x, Some y, Some z) \<Rightarrow> Inr (4096 * w + 256 * x + 16 * y + z, s)
      | _ \<Rightarrow> Inl ValueError)"
| "hex4 _ = Inl ValueError"

definition paired :: "int \<Rightarrow> string \<Rightarrow> (string \<times> string) res" where
  "paired n s =
     (if 0xD800 \<le> n \<and> n \<le> 0xDBFF \<and> startswith s [CHR 0x5C, CHR ''u'']
      then rbind (hex4 (drop 2 s)) (\<lambda>(m, r).
             if 0xDC00 \<le> m \<and> m \<le> 0xDFFF then Inr (utf8_bytes (0x10000 + (n - 0xD800) * 1024 + (m - 0xDC00)), r)
             else Inr (utf8_bytes n, s))
      else Inr (utf8_bytes n, s))"

definition escapes :: "(char \<times> char) list" where
  "escapes = [(CHR 0x22, CHR 0x22), (CHR 0x5C, CHR 0x5C), (CHR ''/'', CHR ''/''), (CHR ''b'', CHR 0x08),
     (CHR ''f'', CHR 0x0C), (CHR ''n'', CHR 0x0A), (CHR ''r'', CHR 0x0D), (CHR ''t'', CHR 0x09)]"

definition unescape :: "string \<Rightarrow> (string \<times> string) res" where
  "unescape s =
     (case s of [] \<Rightarrow> Inl ValueError
      | c # cs \<Rightarrow>
          if c = CHR ''u'' then rbind (hex4 cs) (\<lambda>(n, r). paired n r)
          else case map_of escapes c of None \<Rightarrow> Inl ValueError | Some d \<Rightarrow> Inr ([d], cs))"

lemma hex4_length: "hex4 s = Inr (n, r) \<Longrightarrow> length s = length r + 4"
  by (induction s rule: hex4.induct) (auto split: option.splits)

lemma unescape_length: "unescape s = Inr (b, r) \<Longrightarrow> length r < length s"
  by (auto simp: unescape_def paired_def rbind_Inr_iff dest!: hex4_length split: list.splits if_splits option.splits)

text \<open>The characters after an opening quote.\<close>

function scan_chars :: "string \<Rightarrow> (string \<times> string) res" where
  "scan_chars s =
     (case s of [] \<Rightarrow> Inl ValueError
      | c # cs \<Rightarrow>
          if c = CHR 0x22 then Inr ([], cs)
          else if c = CHR 0x5C
               then (case unescape cs of Inl e \<Rightarrow> Inl e
                     | Inr (b, r) \<Rightarrow> rbind (scan_chars r) (\<lambda>(w, r). Inr (b @ w, r)))
          else if code c < 32 then Inl ValueError
          else rbind (scan_chars cs) (\<lambda>(w, r). Inr (c # w, r)))"
  by pat_completeness auto
termination
  by (relation "measure length") (auto dest: unescape_length)

declare scan_chars.simps [simp del]

text \<open>A literal fraction or exponent is taken only when it has a digit.\<close>

definition fraction :: "string \<Rightarrow> string" where
  "fraction s =
     (case s of c # cs \<Rightarrow> if c = CHR ''.'' \<and> takeWhile is_digit cs \<noteq> [] then c # takeWhile is_digit cs else []
      | [] \<Rightarrow> [])"

definition exponent :: "string \<Rightarrow> string" where
  "exponent s =
     (case s of
        c # cs \<Rightarrow>
          let sign = (case cs of d # _ \<Rightarrow> if d \<in> {CHR ''-'', CHR ''+''} then [d] else [] | [] \<Rightarrow> []);
              ds = takeWhile is_digit (drop (length sign) cs)
          in if c \<in> {CHR ''e'', CHR ''E''} \<and> ds \<noteq> [] then c # sign @ ds else []
      | [] \<Rightarrow> [])"

definition whole_part :: "string \<Rightarrow> string" where
  "whole_part s = (if startswith s ''0'' then ''0'' else takeWhile is_digit s)"

definition scan_number :: "string \<Rightarrow> (pyval \<times> string) res" where
  "scan_number s =
     (let sign = (if startswith s ''-'' then ''-'' else []);
          w = whole_part (drop (length sign) s);
          a = drop (length (sign @ w)) s;
          f = fraction a; e = exponent (drop (length f) a);
          token = sign @ w @ f @ e; r = drop (length token) s
      in if w = [] then Inl ValueError
         else if f @ e = [] then Inr (PInt ((if sign = [] then 1 else - 1) * int_of_digits w), r)
         else case parse_float token of None \<Rightarrow> Inl ValueError | Some x \<Rightarrow> Inr (PFloat x, r))"

definition literals :: "(string \<times> pyval) list" where
  "literals = [(''null'', PNone), (''true'', PBool True), (''false'', PBool False), (''NaN'', PFloat NaN),
     (''Infinity'', PFloat PosInf), (''-Infinity'', PFloat NegInf)]"

definition scan_scalar :: "string \<Rightarrow> (pyval \<times> string) res" where
  "scan_scalar s =
     (if startswith s [CHR 0x22] then rbind (scan_chars (drop 1 s)) (\<lambda>(w, r). Inr (PStr w, r))
      else case List.find (\<lambda>(l, _). startswith s l) literals of
             Some (l, v) \<Rightarrow> Inr (v, drop (length l) s)
           | None \<Rightarrow> scan_number s)"

text \<open>\<^verbatim>\<open>JSONDecoder.raw_decode\<close> where a scalar is expected.\<close>

definition raw_decode :: "string \<Rightarrow> nat \<Rightarrow> (pyval \<times> nat) res" where
  "raw_decode t i = rbind (scan_scalar (drop i t)) (\<lambda>(v, r). Inr (v, length t - length r))"

text \<open>\<^verbatim>\<open>json.dumps(v, ensure_ascii=False)\<close> of a string or an integer.\<close>

definition hex_digit :: "int \<Rightarrow> char" where
  "hex_digit n = (if n < 10 then char_of (48 + n) else char_of (87 + n))"

definition escape_char :: "char \<Rightarrow> string" where
  "escape_char c =
     (if c = CHR 0x22 then [CHR 0x5C, CHR 0x22] else if c = CHR 0x5C then [CHR 0x5C, CHR 0x5C]
      else if c = CHR 0x0A then [CHR 0x5C, CHR ''n''] else if c = CHR 0x0D then [CHR 0x5C, CHR ''r'']
      else if c = CHR 0x09 then [CHR 0x5C, CHR ''t''] else if c = CHR 0x0C then [CHR 0x5C, CHR ''f'']
      else if c = CHR 0x08 then [CHR 0x5C, CHR ''b'']
      else if code c < 32 then [CHR 0x5C, CHR ''u'', CHR ''0'', CHR ''0'', hex_digit (code c div 16), hex_digit (code c mod 16)]
      else [c])"

definition dumps_scalar :: "pyval \<Rightarrow> string" where
  "dumps_scalar v =
     (case v of PStr s \<Rightarrow> [CHR 0x22] @ concat (map escape_char s) @ [CHR 0x22] | PInt n \<Rightarrow> show_int n | _ \<Rightarrow> [])"

section \<open>Documents with the place of every scalar\<close>

datatype jkey = JKey string | JIdx nat

type_synonym jpath = "jkey list"
type_synonym spans = "(jpath \<times> nat \<times> nat) list"
type_synonym reader = "jpath \<Rightarrow> nat \<Rightarrow> spans \<Rightarrow> (pyval \<times> nat \<times> spans) res"

definition skip_ws :: "string \<Rightarrow> nat \<Rightarrow> nat" where
  "skip_ws t i = i + length (takeWhile is_ws (drop i t))"

definition char_at :: "string \<Rightarrow> nat \<Rightarrow> char option" where
  "char_at t i = (if i < length t then Some (t ! i) else None)"

text \<open>
  The two loops; \<open>n\<close> bounds the rounds, and every round consumes at least one character. The nested values
  are read by \<open>p\<close>.
\<close>

fun json_members :: "reader \<Rightarrow> string \<Rightarrow> jpath \<Rightarrow> nat \<Rightarrow> pydict \<Rightarrow> nat \<Rightarrow> spans \<Rightarrow> (pyval \<times> nat \<times> spans) res" where
  "json_members p t path 0 d i sp = Inl OtherError"
| "json_members p t path (Suc n) d i sp =
     rbind (raw_decode t i) (\<lambda>(key, e).
     case key of
       PStr k \<Rightarrow>
         rbind (guard (\<not> haskey d k)) (\<lambda>_.
         let j = skip_ws t e
         in rbind (guard (char_at t j = Some (CHR '':''))) (\<lambda>_.
            rbind (p (path @ [JKey k]) (j + 1) sp) (\<lambda>(v, j, sp).
            let d = dset k v d; j = skip_ws t j
            in rbind (guard (j < length t)) (\<lambda>_.
               if char_at t j = Some (CHR ''}'') then Inr (PDict d, j + 1, sp)
               else rbind (guard (char_at t j = Some (CHR '',''))) (\<lambda>_.
                    json_members p t path n d (skip_ws t (j + 1)) sp)))))
     | _ \<Rightarrow> Inl ValueError)"

fun json_elements :: "reader \<Rightarrow> string \<Rightarrow> jpath \<Rightarrow> nat \<Rightarrow> pyval list \<Rightarrow> nat \<Rightarrow> spans \<Rightarrow> (pyval \<times> nat \<times> spans) res" where
  "json_elements p t path 0 xs i sp = Inl OtherError"
| "json_elements p t path (Suc n) xs i sp =
     rbind (p (path @ [JIdx (length xs)]) i sp) (\<lambda>(v, j, sp).
     let xs = xs @ [v]; j = skip_ws t j
     in rbind (guard (j < length t)) (\<lambda>_.
        if char_at t j = Some (CHR '']'') then Inr (PList xs, j + 1, sp)
        else rbind (guard (char_at t j = Some (CHR '',''))) (\<lambda>_.
             json_elements p t path n xs (skip_ws t (j + 1)) sp)))"

definition json_object :: "reader \<Rightarrow> string \<Rightarrow> reader" where
  "json_object p t path i sp =
     (let j = skip_ws t (i + 1)
      in if char_at t j = Some (CHR ''}'') then Inr (PDict [], j + 1, sp)
         else json_members p t path (length t) [] j sp)"

definition json_array :: "reader \<Rightarrow> string \<Rightarrow> reader" where
  "json_array p t path i sp =
     (let j = skip_ws t (i + 1)
      in if char_at t j = Some (CHR '']'') then Inr (PList [], j + 1, sp)
         else json_elements p t path (length t) [] j sp)"

text \<open>The first argument bounds the nesting, as the interpreter's recursion limit does.\<close>

fun json_parse :: "nat \<Rightarrow> string \<Rightarrow> reader" where
  "json_parse 0 t path i sp = Inl OtherError"
| "json_parse (Suc n) t path i sp =
     (let i = skip_ws t i
      in rbind (guard (i < length t)) (\<lambda>_.
         if char_at t i = Some (CHR ''{'') then json_object (json_parse n t) t path i sp
         else if char_at t i = Some (CHR ''['') then json_array (json_parse n t) t path i sp
         else rbind (raw_decode t i) (\<lambda>(v, e). Inr (v, e, (path, i, e) # sp))))"

definition json_document :: "string \<Rightarrow> (string \<times> pyval \<times> spans) res" where
  "json_document raw =
     rbind (decode_utf8 raw) (\<lambda>t.
     rbind (json_parse (length t + 1) t [] 0 []) (\<lambda>(data, e, sp).
     rbind (guard (skip_ws t e = length t)) (\<lambda>_. Inr (t, data, sp))))"

section \<open>The scanner reads no further than its token\<close>

definition ends :: "string \<Rightarrow> bool" where
  "ends s = (case s of [] \<Rightarrow> True | c # _ \<Rightarrow> is_ws c \<or> c \<in> {CHR '','', CHR ''}'', CHR '']'', CHR '':''})"

lemma hex4_append: "hex4 s = Inr (n, r) \<Longrightarrow> \<exists>u. s = u @ r \<and> length u = 4 \<and> (\<forall>q. hex4 (u @ q) = Inr (n, q))"
proof (induction s rule: hex4.induct)
  case (1 a b c d s)
  then show ?case by (intro exI [of _ "[a, b, c, d]"]) (auto split: option.splits)
qed auto

lemma scan_chars_Cons:
  "scan_chars (c # cs) =
     (if c = CHR 0x22 then Inr ([], cs)
      else if c = CHR 0x5C then rbind (unescape cs) (\<lambda>(b, r). rbind (scan_chars r) (\<lambda>(w, r). Inr (b @ w, r)))
      else if code c < 32 then Inl ValueError else rbind (scan_chars cs) (\<lambda>(w, r). Inr (c # w, r)))"
  by (simp add: scan_chars.simps [of "c # cs"] rbind_def split: sum.splits)

lemma scan_chars_Nil [simp]: "scan_chars [] = Inl ValueError"
  by (simp add: scan_chars.simps)

lemma scanned_escape:
  assumes "scan_chars u = Inr (w, [])"
  shows "startswith (u @ q) [CHR 0x5C, CHR ''u''] = startswith u [CHR 0x5C, CHR ''u'']"
    and "startswith u [CHR 0x5C, CHR ''u''] \<Longrightarrow> \<exists>m y. \<forall>q. hex4 (drop 2 (u @ q)) = Inr (m, y @ q)"
proof -
  obtain c v where u: "u = c # v" using assms by (cases u) auto
  have v: "c = CHR 0x5C \<Longrightarrow> \<exists>d x. v = d # x"
    using assms u by (cases v) (auto simp: scan_chars_Cons unescape_def)
  show "startswith (u @ q) [CHR 0x5C, CHR ''u''] = startswith u [CHR 0x5C, CHR ''u'']"
    using u v by (auto simp: startswith_def)
  assume s: "startswith u [CHR 0x5C, CHR ''u'']"
  then obtain x where x: "u = CHR 0x5C # CHR ''u'' # x" using u v by (cases v) (auto simp: startswith_def)
  then obtain n r where h: "hex4 x = Inr (n, r)"
    using assms by (auto simp: scan_chars_Cons unescape_def rbind_Inr_iff)
  obtain h4 where "x = h4 @ r" "\<forall>q. hex4 (h4 @ q) = Inr (n, q)" using hex4_append [OF h] by blast
  then show "\<exists>m y. \<forall>q. hex4 (drop 2 (u @ q)) = Inr (m, y @ q)" using x by auto
qed

lemma paired_append:
  assumes p: "paired n s = Inr (b, u @ r)" and u: "scan_chars u = Inr (w, [])"
  shows "\<exists>v. s = v @ u @ r \<and> (\<forall>q. paired n (v @ u @ q) = Inr (b, u @ q))"
proof (cases "0xD800 \<le> n \<and> n \<le> 0xDBFF \<and> startswith s [CHR 0x5C, CHR ''u'']")
  case False
  then have s: "s = u @ r" "b = utf8_bytes n" using p by (auto simp: paired_def)
  have "paired n (u @ q) = Inr (b, u @ q)" for q
    using False s scanned_escape(1) [OF u, of q] scanned_escape(1) [OF u, of r] by (auto simp: paired_def)
  then show ?thesis using s by (intro exI [of _ "[]"]) simp
next
  case True
  obtain m y where h: "hex4 (drop 2 s) = Inr (m, y)"
    using p True by (auto simp: paired_def rbind_Inr_iff)
  show ?thesis
  proof (cases "0xDC00 \<le> m \<and> m \<le> 0xDFFF")
    case low: True
    obtain h4 where h4: "drop 2 s = h4 @ y" "\<forall>q. hex4 (h4 @ q) = Inr (m, q)" using hex4_append [OF h] by blast
    have y: "y = u @ r" using p True low h by (auto simp: paired_def)
    have s: "s = [CHR 0x5C, CHR ''u''] @ h4 @ u @ r"
      using True h4(1) y append_take_drop_id [of 2 s] by (simp add: startswith_def numeral_2_eq_2)
    have "paired n (([CHR 0x5C, CHR ''u''] @ h4) @ u @ q) = Inr (b, u @ q)" for q
      using p True low h h4(2) by (auto simp: paired_def startswith_def)
    then show ?thesis using s by (intro exI [of _ "[CHR 0x5C, CHR ''u''] @ h4"]) simp
  next
    case high: False
    have s: "s = u @ r" "b = utf8_bytes n" using p True high h by (auto simp: paired_def)
    have st: "startswith u [CHR 0x5C, CHR ''u'']" using True s scanned_escape(1) [OF u, of r] by simp
    obtain m' y' where h': "\<And>q. hex4 (drop 2 (u @ q)) = Inr (m', y' @ q)"
      using scanned_escape(2) [OF u st] by blast
    have "m' = m" using h h' [of r] s by simp
    then have "paired n (u @ q) = Inr (b, u @ q)" for q
      using h' [of q] True high s by (auto simp: paired_def)
    then show ?thesis using s by (intro exI [of _ "[]"]) simp
  qed
qed

lemma unescape_append:
  assumes e: "unescape s = Inr (b, u @ r)" and u: "scan_chars u = Inr (w, [])"
  shows "\<exists>v. s = v @ u @ r \<and> (\<forall>q. unescape (v @ u @ q) = Inr (b, u @ q))"
proof -
  obtain c cs where s: "s = c # cs" using e by (cases s) (auto simp: unescape_def)
  show ?thesis
  proof (cases "c = CHR ''u''")
    case False
    then have "cs = u @ r" "map_of escapes c = Some (hd b)" "b = [hd b]"
      using e s by (auto simp: unescape_def split: option.splits)
    then show ?thesis using s False by (intro exI [of _ "[c]"]) (auto simp: unescape_def)
  next
    case True
    obtain n r0 where h: "hex4 cs = Inr (n, r0)" "paired n r0 = Inr (b, u @ r)"
      using e s True by (auto simp: unescape_def rbind_Inr_iff)
    obtain h4 where h4: "cs = h4 @ r0" "\<forall>q. hex4 (h4 @ q) = Inr (n, q)" using hex4_append [OF h(1)] by blast
    obtain v where v: "r0 = v @ u @ r" "\<forall>q. paired n (v @ u @ q) = Inr (b, u @ q)"
      using paired_append [OF h(2) u] by blast
    show ?thesis using s True h4 v by (intro exI [of _ "c # h4 @ v"]) (auto simp: unescape_def)
  qed
qed

lemma scan_chars_append:
  "scan_chars s = Inr (w, r) \<Longrightarrow>
    \<exists>u. s = u @ r \<and> u \<noteq> [] \<and> last u = CHR 0x22 \<and> (\<forall>q. scan_chars (u @ q) = Inr (w, q))"
proof (induction s arbitrary: w r rule: length_induct)
  case (1 s)
  obtain c cs where s: "s = c # cs" using "1.prems" by (cases s) auto
  consider "c = CHR 0x22" | "c = CHR 0x5C" | "c \<noteq> CHR 0x22" "c \<noteq> CHR 0x5C" by blast
  then show ?case
  proof cases
    case 1
    then show ?thesis using s "1.prems" by (intro exI [of _ "[c]"]) (auto simp: scan_chars_Cons)
  next
    case 2
    obtain b r1 w1 where e: "unescape cs = Inr (b, r1)" "scan_chars r1 = Inr (w1, r)" "w = b @ w1"
      using "1.prems" s 2 by (auto simp: scan_chars_Cons rbind_Inr_iff)
    have "length r1 < length s" using unescape_length [OF e(1)] s by simp
    then obtain u where u: "r1 = u @ r" "\<And>q. scan_chars (u @ q) = Inr (w1, q)" "u \<noteq> []" "last u = CHR 0x22"
      using "1.IH" e(2) by blast
    obtain v where v: "cs = v @ u @ r" "\<And>q. unescape (v @ u @ q) = Inr (b, u @ q)"
      using unescape_append [of cs b u r w1] e(1) u(1) u(2) [of "[]"] by auto
    have "scan_chars ((c # v @ u) @ q) = Inr (w, q)" for q
      using 2 v(2) [of q] u(2) [of q] e(3) by (simp add: scan_chars_Cons)
    then show ?thesis using s v(1) u(3, 4) by (intro exI [of _ "c # v @ u"]) simp
  next
    case 3
    obtain w1 where e: "scan_chars cs = Inr (w1, r)" "w = c # w1" "\<not> code c < 32"
      using "1.prems" s 3 by (auto simp: scan_chars_Cons rbind_Inr_iff split: if_splits)
    have "length cs < length s" using s by simp
    then obtain u where u: "cs = u @ r" "\<And>q. scan_chars (u @ q) = Inr (w1, q)" "u \<noteq> []" "last u = CHR 0x22"
      using "1.IH" e(1) by blast
    have "scan_chars ((c # u) @ q) = Inr (w, q)" for q
      using 3 e u(2) [of q] by (simp add: scan_chars_Cons)
    then show ?thesis using s u(1, 3, 4) by (intro exI [of _ "c # u"]) simp
  qed
qed

lemma ends_head:
  assumes "ends q"
  shows "takeWhile is_digit q = []" "fraction q = []" "exponent q = []" "q = c # q' \<Longrightarrow> \<not> is_digit c"
  using assms by (auto simp: ends_def is_ws_def fraction_def exponent_def is_digit_def code_def split: list.splits)

lemma takeWhile_digits:
  "list_all is_digit ds \<Longrightarrow> (\<And>c q'. q = c # q' \<Longrightarrow> \<not> is_digit c) \<Longrightarrow> takeWhile is_digit (ds @ q) = ds"
  by (induction ds) (auto simp: takeWhile_eq_Nil_iff, cases q, auto)

lemma takeWhile_all: "list_all P (takeWhile P s)"
  by (induction s) auto

lemma exponent_append:
  assumes "ends q"
  shows "exponent (exponent s @ q) = exponent s"
proof (cases s)
  case (Cons c cs)
  define sign where "sign = (case cs of d # _ \<Rightarrow> if d \<in> {CHR ''-'', CHR ''+''} then [d] else [] | [] \<Rightarrow> [])"
  define ds where "ds = takeWhile is_digit (drop (length sign) cs)"
  have e: "exponent s = (if c \<in> {CHR ''e'', CHR ''E''} \<and> ds \<noteq> [] then c # sign @ ds else [])"
    by (simp add: exponent_def Cons Let_def sign_def ds_def)
  show ?thesis
  proof (cases "c \<in> {CHR ''e'', CHR ''E''} \<and> ds \<noteq> []")
    case True
    have d: "list_all is_digit ds" by (simp add: ds_def takeWhile_all)
    have t: "takeWhile is_digit (ds @ q) = ds" by (rule takeWhile_digits [OF d]) (auto dest: ends_head(4) [OF assms])
    have s: "(case sign @ ds @ q of d # _ \<Rightarrow> if d \<in> {CHR ''-'', CHR ''+''} then [d] else [] | [] \<Rightarrow> []) = sign"
      using True d by (cases ds) (auto simp: sign_def is_digit_def code_def split: list.splits)
    show ?thesis using e True t s by (simp add: exponent_def Let_def)
  next
    case False
    then have "exponent s = []" using e by auto
    then show ?thesis by (simp add: ends_head(3) [OF assms])
  qed
qed (simp add: exponent_def ends_head(3) [OF assms, unfolded exponent_def])

lemma fraction_append:
  assumes "\<And>c q'. q = c # q' \<Longrightarrow> \<not> is_digit c \<and> c \<noteq> CHR ''.''"
  shows "fraction (fraction s @ q) = fraction s"
proof -
  have n: "fraction q = []" using assms by (auto simp: fraction_def split: list.splits)
  show ?thesis
  proof (cases s)
    case (Cons c cs)
    have "takeWhile is_digit (takeWhile is_digit cs @ q) = takeWhile is_digit cs"
      by (rule takeWhile_digits [OF takeWhile_all]) (use assms in auto)
    then show ?thesis using Cons n by (simp add: fraction_def)
  qed (use n in \<open>simp add: fraction_def\<close>)
qed

lemma whole_part_append:
  assumes "\<And>c q'. q = c # q' \<Longrightarrow> \<not> is_digit c"
  shows "whole_part (whole_part s @ q) = whole_part s"
proof (cases "startswith s ''0''")
  case False
  have t: "takeWhile is_digit (takeWhile is_digit s @ q) = takeWhile is_digit s"
    by (rule takeWhile_digits [OF takeWhile_all]) (use assms in auto)
  have "\<not> startswith (takeWhile is_digit s @ q) ''0''"
  proof (cases s)
    case Nil
    then show ?thesis using assms by (cases q) (auto simp: startswith_def is_digit_def code_def)
  next
    case (Cons c cs)
    then show ?thesis using False assms by (cases q) (auto simp: startswith_def is_digit_def code_def)
  qed
  then show ?thesis using False t by (simp add: whole_part_def)
qed (simp add: whole_part_def startswith_def)

lemma prefix_drop: "\<exists>r. s = p @ r \<Longrightarrow> s = p @ drop (length p) s"
  by auto

lemma whole_part_prefix: "\<exists>r. s = whole_part s @ r"
proof (cases "startswith s ''0''")
  case True
  then show ?thesis by (cases s) (auto simp: whole_part_def startswith_def)
next
  case False
  then have "s = whole_part s @ dropWhile is_digit s" by (simp add: whole_part_def)
  then show ?thesis ..
qed

lemma fraction_prefix: "\<exists>r. s = fraction s @ r"
proof (cases s)
  case (Cons c cs)
  then show ?thesis by (auto simp: fraction_def) (metis takeWhile_dropWhile_id)
qed (simp add: fraction_def)

lemma exponent_prefix: "\<exists>r. s = exponent s @ r"
proof (cases s)
  case (Cons c cs)
  define sign where "sign = (case cs of d # _ \<Rightarrow> if d \<in> {CHR ''-'', CHR ''+''} then [d] else [] | [] \<Rightarrow> [])"
  have "cs = sign @ drop (length sign) cs" by (cases cs) (auto simp: sign_def)
  then have "cs = sign @ takeWhile is_digit (drop (length sign) cs) @ dropWhile is_digit (drop (length sign) cs)" by simp
  then have "\<exists>r. cs = sign @ takeWhile is_digit (drop (length sign) cs) @ r" by blast
  then show ?thesis unfolding Cons by (auto simp: exponent_def Let_def sign_def [symmetric])
qed (simp add: exponent_def)

lemma tail_head:
  assumes "ends q" "exponent s @ q = c # q'"
  shows "\<not> is_digit c \<and> c \<noteq> CHR ''.''"
proof (cases "exponent s")
  case Nil
  then show ?thesis using assms by (auto simp: ends_def is_ws_def is_digit_def code_def)
next
  case (Cons d r)
  have "d \<in> {CHR ''e'', CHR ''E''}" using Cons by (cases s) (auto simp: exponent_def Let_def split: if_splits)
  then show ?thesis using assms Cons by (auto simp: is_digit_def code_def)
qed

lemma fraction_head: "fraction s = c # r \<Longrightarrow> c = CHR ''.''"
  by (cases s) (auto simp: fraction_def split: if_splits)

lemma last_takeWhile: "takeWhile P s \<noteq> [] \<Longrightarrow> P (last (takeWhile P s))"
  using set_takeWhileD [OF last_in_set] by fast

lemma last_digit:
  "whole_part s \<noteq> [] \<Longrightarrow> is_digit (last (whole_part s))"
  "fraction s \<noteq> [] \<Longrightarrow> is_digit (last (fraction s))"
  "exponent s \<noteq> [] \<Longrightarrow> is_digit (last (exponent s))"
proof -
  show "whole_part s \<noteq> [] \<Longrightarrow> is_digit (last (whole_part s))"
    by (auto simp: whole_part_def is_digit_def code_def dest: last_takeWhile split: if_splits)
  show "fraction s \<noteq> [] \<Longrightarrow> is_digit (last (fraction s))"
    by (cases s) (auto simp: fraction_def dest: last_takeWhile split: if_splits)
  show "exponent s \<noteq> [] \<Longrightarrow> is_digit (last (exponent s))"
    by (cases s) (auto simp: exponent_def Let_def dest: last_takeWhile split: if_splits)
qed

text \<open>The parts of a number, and the token they make.\<close>

lemma scan_number_append:
  assumes "scan_number s = Inr (v, r)"
  shows "\<exists>u. s = u @ r \<and> (\<exists>c u'. u = c # u' \<and> (c = CHR ''-'' \<and> u' \<noteq> [] \<and> is_digit (hd u') \<or> is_digit c)) \<and>
    is_digit (last u) \<and> (\<forall>q. ends q \<longrightarrow> scan_number (u @ q) = Inr (v, q))"
proof -
  define sign where "sign = (if startswith s ''-'' then ''-'' else [])"
  define w where "w = whole_part (drop (length sign) s)"
  define a where "a = drop (length (sign @ w)) s"
  define f where "f = fraction a"
  define e where "e = exponent (drop (length f) a)"
  define u where "u = sign @ w @ f @ e"
  have s0: "s = sign @ drop (length sign) s" by (cases s) (auto simp: sign_def startswith_def)
  have s1: "drop (length sign) s = w @ a"
    using prefix_drop [OF whole_part_prefix [of "drop (length sign) s"]]
    by (simp add: w_def [symmetric] a_def add.commute)
  have s2: "a = f @ drop (length f) a" using prefix_drop [OF fraction_prefix] unfolding f_def .
  have s3: "drop (length f) a = e @ drop (length e) (drop (length f) a)"
    using prefix_drop [OF exponent_prefix] unfolding e_def .
  have s: "s = u @ drop (length e) (drop (length f) a)" using s0 s1 s2 s3 unfolding u_def by simp
  have val: "scan_number s = (if w = [] then Inl ValueError
         else if f @ e = [] then Inr (PInt ((if sign = [] then 1 else - 1) * int_of_digits w), drop (length u) s)
         else case parse_float u of None \<Rightarrow> Inl ValueError | Some x \<Rightarrow> Inr (PFloat x, drop (length u) s))"
    unfolding scan_number_def Let_def u_def e_def f_def a_def w_def sign_def by (rule HOL.refl)
  have r: "r = drop (length u) s" and w: "w \<noteq> []" using assms val by (auto split: if_splits option.splits)
  have wd: "is_digit (hd w)"
  proof (cases "startswith (drop (length sign) s) ''0''")
    case False
    then show ?thesis using w unfolding w_def whole_part_def
      by (auto simp: hd_conv_nth) (metis hd_conv_nth list_all_length takeWhile_all length_greater_0_conv)
  qed (simp add: w_def whole_part_def is_digit_def code_def)
  have all: "scan_number (u @ q) = Inr (v, q)" if q: "ends q" for q
  proof -
    have h1: "\<And>c q'. e @ q = c # q' \<Longrightarrow> \<not> is_digit c \<and> c \<noteq> CHR ''.''" using tail_head [OF q] by (auto simp: e_def)
    have h2: "\<And>c q'. f @ e @ q = c # q' \<Longrightarrow> \<not> is_digit c"
      using h1 fraction_head [of a] by (cases f) (auto simp: f_def is_digit_def code_def)
    have sg: "(if startswith (u @ q) ''-'' then ''-'' else []) = sign"
      using wd w by (cases w) (auto simp: u_def sign_def startswith_def is_digit_def code_def)
    have x1: "whole_part (drop (length sign) (u @ q)) = w"
      using whole_part_append [of "f @ e @ q" "drop (length sign) s"] h2 by (simp add: u_def w_def)
    have x2: "drop (length (sign @ w)) (u @ q) = f @ e @ q" by (simp add: u_def)
    have x3: "fraction (f @ e @ q) = f" using fraction_append [of "e @ q" a] h1 by (simp add: f_def)
    have x4: "exponent (drop (length f) (f @ e @ q)) = e" using exponent_append [OF q] by (simp add: e_def)
    have "scan_number (u @ q) = (if w = [] then Inl ValueError
         else if f @ e = [] then Inr (PInt ((if sign = [] then 1 else - 1) * int_of_digits w), q)
         else case parse_float u of None \<Rightarrow> Inl ValueError | Some x \<Rightarrow> Inr (PFloat x, q))"
      unfolding scan_number_def sg Let_def x1 x2 x3 x4 u_def [symmetric] by (simp split: option.split)
    then show ?thesis using assms val by (auto split: if_splits option.splits)
  qed
  have hd: "\<exists>c u'. u = c # u' \<and> (c = CHR ''-'' \<and> u' \<noteq> [] \<and> is_digit (hd u') \<or> is_digit c)"
    using w wd by (cases w) (auto simp: u_def sign_def)
  have "s = u @ r" using s r by (metis append_eq_conv_conj)
  moreover have "is_digit (last w)" "f \<noteq> [] \<Longrightarrow> is_digit (last f)" "e \<noteq> [] \<Longrightarrow> is_digit (last e)"
    using last_digit w unfolding w_def f_def e_def by blast+
  then have "is_digit (last u)" using w by (cases "e = []"; cases "f = []") (simp_all add: u_def)
  ultimately show ?thesis using hd all by blast
qed

definition ascii :: "string \<Rightarrow> bool" where
  "ascii u = (code (hd u) < 128 \<and> code (last u) < 128)"

text \<open>The literals begin with different letters, except for the two infinities.\<close>

lemma literal_append:
  assumes "List.find (\<lambda>(l, _). startswith s l) literals = Some (l, v)"
  shows "s = l @ drop (length l) s"
    and "List.find (\<lambda>(m, _). startswith (l @ q) m) literals = Some (l, v)"
    and "\<not> startswith (l @ q) [CHR 0x22]"
    and "\<exists>c u. l = c # u \<and> c \<notin> {CHR ''{'', CHR ''['', CHR ''}'', CHR '']''} \<and> \<not> is_ws c"
    and "ascii l"
proof -
  have m: "(l, v) \<in> set literals" "startswith s l" using assms by (auto simp: find_Some_iff) (metis nth_mem)
  show "s = l @ drop (length l) s" using m(2) append_take_drop_id [of "length l" s] by (simp add: startswith_def)
  have l: "(l, v) \<in> {(''null'', PNone), (''true'', PBool True), (''false'', PBool False), (''NaN'', PFloat NaN),
     (''Infinity'', PFloat PosInf), (''-Infinity'', PFloat NegInf)}"
    using m(1) by (simp add: literals_def)
  show "List.find (\<lambda>(m, _). startswith (l @ q) m) literals = Some (l, v)"
    using l by (elim insertE emptyE) (simp_all add: literals_def startswith_def)
  show "\<not> startswith (l @ q) [CHR 0x22]"
    using l by (elim insertE emptyE) (simp_all add: startswith_def)
  show "\<exists>c u. l = c # u \<and> c \<notin> {CHR ''{'', CHR ''['', CHR ''}'', CHR '']''} \<and> \<not> is_ws c"
    using l by (elim insertE emptyE) (simp_all add: is_ws_def)
  show "ascii l" using l by (elim insertE emptyE) (simp_all add: ascii_def code_def)
qed

lemma number_literal:
  assumes "c = CHR ''-'' \<and> u \<noteq> [] \<and> is_digit (hd u) \<or> is_digit c"
  shows "List.find (\<lambda>(m, _). startswith (c # u @ q) m) literals = None" and "\<not> startswith (c # u @ q) [CHR 0x22]"
    and "c \<notin> {CHR ''{'', CHR ''['', CHR ''}'', CHR '']''} \<and> \<not> is_ws c"
proof -
  have d: "\<not> is_digit d" if "d \<in> {CHR ''n'', CHR ''t'', CHR ''f'', CHR ''N'', CHR ''I'', CHR 0x22, CHR ''{'', CHR ''['', CHR ''}'', CHR '']'',
      CHR 0x20, CHR 0x0A, CHR 0x0D, CHR 0x09}" for d
    using that by (elim insertE emptyE) (simp_all add: is_digit_def code_def)
  have c: "c \<notin> {CHR ''n'', CHR ''t'', CHR ''f'', CHR ''N'', CHR ''I'', CHR 0x22, CHR ''{'', CHR ''['', CHR ''}'', CHR '']'',
      CHR 0x20, CHR 0x0A, CHR 0x0D, CHR 0x09}"
    using assms d by (elim disjE) (fastforce, blast)
  have u: "c = CHR ''-'' \<Longrightarrow> \<exists>e v. u = e # v \<and> e \<noteq> CHR ''I''"
    using assms d [of "CHR ''I''"] d [of c] by (cases u) (auto simp: is_digit_def code_def)
  show "c \<notin> {CHR ''{'', CHR ''['', CHR ''}'', CHR '']''} \<and> \<not> is_ws c" using c by (simp add: is_ws_def)
  show "\<not> startswith (c # u @ q) [CHR 0x22]" using c by (simp add: startswith_def)
  show "List.find (\<lambda>(m, _). startswith (c # u @ q) m) literals = None"
    using c u by (cases "c = CHR ''-''") (auto simp: literals_def startswith_def)
qed

definition scalar_token :: "string \<Rightarrow> pyval \<Rightarrow> bool" where
  "scalar_token u v \<longleftrightarrow>
     (\<exists>c w. u = c # w \<and> c \<notin> {CHR ''{'', CHR ''['', CHR ''}'', CHR '']''} \<and> \<not> is_ws c) \<and> ascii u \<and>
     (\<forall>q. ends q \<longrightarrow> scan_scalar (u @ q) = Inr (v, q))"

lemma scan_scalar_append:
  assumes "scan_scalar s = Inr (v, r)"
  shows "\<exists>u. s = u @ r \<and> scalar_token u v"
proof (cases "startswith s [CHR 0x22]")
  case True
  then have s: "s = CHR 0x22 # drop 1 s" by (cases s) (auto simp: startswith_def)
  obtain w where w: "scan_chars (drop 1 s) = Inr (w, r)" "v = PStr w"
    using assms True by (auto simp: scan_scalar_def rbind_Inr_iff)
  obtain u where u: "drop 1 s = u @ r" "\<And>q. scan_chars (u @ q) = Inr (w, q)" "u \<noteq> []" "last u = CHR 0x22"
    using scan_chars_append [OF w(1)] by blast
  have "scalar_token (CHR 0x22 # u) v"
    using u w(2) by (auto simp: scalar_token_def scan_scalar_def startswith_def is_ws_def ascii_def code_def)
  then show ?thesis using s u(1) by (intro exI [of _ "CHR 0x22 # u"]) auto
next
  case False
  show ?thesis
  proof (cases "List.find (\<lambda>(l, _). startswith s l) literals")
    case None
    then have n: "scan_number s = Inr (v, r)" using assms False by (simp add: scan_scalar_def)
    obtain u c u' where u: "s = u @ r" "u = c # u'" "c = CHR ''-'' \<and> u' \<noteq> [] \<and> is_digit (hd u') \<or> is_digit c"
        "is_digit (last u)" "\<And>q. ends q \<Longrightarrow> scan_number (u @ q) = Inr (v, q)"
      using scan_number_append [OF n] by blast
    have "ascii u" using u(2, 3, 4) by (auto simp: ascii_def is_digit_def) (simp add: code_def)
    have "scan_scalar (u @ q) = scan_number (u @ q)" for q
      using number_literal(1, 2) [OF u(3), of q] by (simp add: scan_scalar_def u(2))
    then have "scalar_token u v" using u \<open>ascii u\<close> number_literal(3) [OF u(3)] by (auto simp: scalar_token_def)
    then show ?thesis using u(1) by blast
  next
    case (Some lw)
    obtain l w where lw: "lw = (l, w)" by (cases lw)
    have v: "w = v" "r = drop (length l) s" using assms False Some lw by (auto simp: scan_scalar_def)
    have "scan_scalar (l @ q) = Inr (v, q)" for q
      using literal_append(2, 3) [OF Some [unfolded lw], of q] v by (simp add: scan_scalar_def)
    then have "scalar_token l v" using literal_append(4, 5) [OF Some [unfolded lw]] by (auto simp: scalar_token_def)
    then show ?thesis using literal_append(1) [OF Some [unfolded lw]] v by metis
  qed
qed

section \<open>Printed scalars are read back\<close>

lemma show_digits_head: "0 < n \<Longrightarrow> \<exists>c w. show_digits n = c # w \<and> c \<noteq> CHR ''0'' \<and> is_digit c"
proof (induction n rule: show_digits.induct)
  case (1 n)
  show ?case
  proof (cases "n < 10")
    case True
    then have "show_digits n = [char_of (48 + n)]" by (subst show_digits.simps) simp
    moreover have "code (char_of (48 + n)) = 48 + n" using True "1.prems" by (simp add: code_def)
    ultimately show ?thesis using True "1.prems" by (auto simp: is_digit_def) (simp add: code_def)
  next
    case False
    then have "0 < n div 10" by (simp add: pos_imp_zdiv_pos_iff)
    then show ?thesis using False "1.IH" by (subst show_digits.simps) auto
  qed
qed

lemma scan_show_int:
  assumes "ends q"
  shows "scan_number (show_int n @ q) = Inr (PInt n, q)"
proof -
  have digits: "whole_part (show_digits m @ q) = show_digits m \<and> \<not> startswith (show_digits m @ q) ''-''"
    if "0 \<le> m" for m
  proof (cases "m = 0")
    case True
    moreover have "show_digits 0 = ''0''" by code_simp
    ultimately have "show_digits m = ''0''" by simp
    then show ?thesis by (simp add: whole_part_def startswith_def)
  next
    case False
    then obtain c w where h: "show_digits m = c # w" "c \<noteq> CHR ''0''" "is_digit c"
      using show_digits_head [of m] \<open>0 \<le> m\<close> by auto
    have "takeWhile is_digit (show_digits m @ q) = show_digits m"
      using show_digits_spec [OF that] ends_head(4) [OF assms] by (intro takeWhile_digits) auto
    then show ?thesis using h by (auto simp: whole_part_def startswith_def is_digit_def code_def)
  qed
  have v: "show_digits m \<noteq> []" "int_of_digits (show_digits m) = m" if "0 \<le> m" for m
    using show_digits_spec [OF that] by auto
  show ?thesis
  proof (cases "n < 0")
    case True
    then show ?thesis using digits [of "- n"] v [of "- n"] ends_head(2, 3) [OF assms]
      by (simp add: scan_number_def Let_def show_int_def startswith_def)
  next
    case False
    then show ?thesis using digits [of n] v [of n] ends_head(2, 3) [OF assms]
      by (simp add: scan_number_def Let_def show_int_def)
  qed
qed

lemma hex_val_digit:
  assumes "0 \<le> n" "n < 16"
  shows "hex_val (hex_digit n) = Some n"
proof -
  have "list_all (\<lambda>n. hex_val (hex_digit n) = Some n) [0..15]" by code_simp
  then show ?thesis using assms by (simp add: list_all_iff)
qed

lemma scan_escape_char: "scan_chars (escape_char c @ s) = rbind (scan_chars s) (\<lambda>(w, r). Inr (c # w, r))"
proof (cases "code c < 32")
  case True
  have n: "0 \<le> code c" unfolding code_def by (metis of_nat_of_char of_nat_0_le_iff)
  have h: "hex4 (CHR ''0'' # CHR ''0'' # hex_digit (code c div 16) # hex_digit (code c mod 16) # s) = Inr (code c, s)" for s
    using n True by (simp add: hex_val_digit) (simp add: hex_val_def is_digit_def code_def)
  have p: "paired (code c) s = Inr ([c], s)" for s
    using True n by (simp add: paired_def utf8_bytes_def) (simp add: code_def)
  show ?thesis using True n
    by (simp add: escape_char_def scan_chars_Cons unescape_def escapes_def h p del: hex4.simps)
next
  case False
  consider "c = CHR 0x22" | "c = CHR 0x5C" | "c \<noteq> CHR 0x22" "c \<noteq> CHR 0x5C" by blast
  then show ?thesis
  proof cases
    case 3
    have "c \<notin> {CHR 0x0A, CHR 0x0D, CHR 0x09, CHR 0x0C, CHR 0x08}" using False by (auto simp: code_def)
    then have "escape_char c = [c]" using 3 False by (simp add: escape_char_def)
    then show ?thesis using 3 False by (simp add: scan_chars_Cons)
  qed (simp_all add: escape_char_def scan_chars_Cons unescape_def escapes_def)
qed

lemma scan_escaped: "scan_chars (concat (map escape_char s) @ CHR 0x22 # q) = Inr (s, q)"
  by (induction s) (simp_all add: scan_chars_Cons [of "CHR 0x22"] scan_escape_char)

lemma dumps_str_token: "scalar_token (dumps_scalar (PStr s)) (PStr s)"
  by (auto simp: scalar_token_def dumps_scalar_def scan_scalar_def startswith_def is_ws_def scan_escaped ascii_def code_def)

lemma dumps_int_token: "scalar_token (dumps_scalar (PInt n)) (PInt n)"
proof -
  obtain c u where u: "show_int n = c # u" "c = CHR ''-'' \<and> u \<noteq> [] \<and> is_digit (hd u) \<or> is_digit c" "is_digit (last (show_int n))"
    using scan_number_append [OF scan_show_int, of "[]" n] by (auto simp: ends_def)
  have "scan_scalar (show_int n @ q) = Inr (PInt n, q)" if "ends q" for q
    using number_literal(1, 2) [OF u(2), of q] scan_show_int [OF that, of n] by (simp add: scan_scalar_def u(1))
  moreover have "ascii (show_int n)" using u by (auto simp: ascii_def is_digit_def) (simp add: code_def)
  ultimately show ?thesis using number_literal(3) [OF u(2)] by (simp add: scalar_token_def dumps_scalar_def u(1))
qed

section \<open>The grammar the reader accepts\<close>

text \<open>
  A text, its value and the place of every scalar in it: path, offset and length. The members and elements run up
  to and include the closing bracket; \<open>seen\<close> holds the keys read before, \<open>n\<close> the index of the next element.
\<close>

type_synonym places = "(jpath \<times> nat \<times> nat) list"

definition moved :: "nat \<Rightarrow> places \<Rightarrow> places" where
  "moved k = map (\<lambda>(q, i, l). (q, i + k, l))"

definition under :: "jkey \<Rightarrow> places \<Rightarrow> places" where
  "under x = map (\<lambda>(q, i, l). (x # q, i, l))"

abbreviation blank :: "string \<Rightarrow> bool" where
  "blank w \<equiv> list_all is_ws w"

definition tight :: "string \<Rightarrow> bool" where
  "tight s = (s \<noteq> [] \<and> \<not> is_ws (hd s))"

inductive jval :: "string \<Rightarrow> pyval \<Rightarrow> places \<Rightarrow> bool"
  and jmembers :: "string set \<Rightarrow> string \<Rightarrow> pydict \<Rightarrow> places \<Rightarrow> bool"
  and jelems :: "nat \<Rightarrow> string \<Rightarrow> pyval list \<Rightarrow> places \<Rightarrow> bool"
where
  jscalar: "blank w \<Longrightarrow> scalar_token u v \<Longrightarrow> jval (w @ u) v [([], length w, length u)]"
| jobject0: "blank w \<Longrightarrow> blank w' \<Longrightarrow> jval (w @ CHR ''{'' # w' @ ''}'') (PDict []) []"
| jobject: "blank w \<Longrightarrow> blank w' \<Longrightarrow> jmembers {} s d L \<Longrightarrow>
    jval ((w @ CHR ''{'' # w') @ s) (PDict d) (moved (length (w @ CHR ''{'' # w')) L)"
| jarray0: "blank w \<Longrightarrow> blank w' \<Longrightarrow> jval (w @ CHR ''['' # w' @ '']'') (PList []) []"
| jarray: "blank w \<Longrightarrow> blank w' \<Longrightarrow> jelems 0 s xs L \<Longrightarrow>
    jval ((w @ CHR ''['' # w') @ s) (PList xs) (moved (length (w @ CHR ''['' # w')) L)"
| jlast: "scalar_token k (PStr key) \<Longrightarrow> key \<notin> seen \<Longrightarrow> blank a \<Longrightarrow> jval s v L \<Longrightarrow> blank b \<Longrightarrow>
    jmembers seen ((k @ a @ '':'') @ s @ b @ ''}'') [(key, v)] (under (JKey key) (moved (length (k @ a @ '':'')) L))"
| jmore: "scalar_token k (PStr key) \<Longrightarrow> key \<notin> seen \<Longrightarrow> blank a \<Longrightarrow> jval s v L \<Longrightarrow> blank b \<Longrightarrow> blank c \<Longrightarrow>
    jmembers (insert key seen) r d M \<Longrightarrow>
    jmembers seen ((k @ a @ '':'') @ s @ (b @ CHR '','' # c) @ r) ((key, v) # d)
      (under (JKey key) (moved (length (k @ a @ '':'')) L) @ moved (length ((k @ a @ '':'') @ s @ b @ CHR '','' # c)) M)"
| jlast_elem: "jval s v L \<Longrightarrow> tight s \<Longrightarrow> blank b \<Longrightarrow> jelems n (s @ b @ '']'') [v] (under (JIdx n) L)"
| jmore_elem: "jval s v L \<Longrightarrow> tight s \<Longrightarrow> blank b \<Longrightarrow> blank c \<Longrightarrow> jelems (Suc n) r xs M \<Longrightarrow>
    jelems n (s @ (b @ CHR '','' # c) @ r) (v # xs)
      (under (JIdx n) L @ moved (length (s @ b @ CHR '','' # c)) M)"

subsection \<open>Reading by index\<close>

lemma drop_Cons_at: "drop i t = c # r \<Longrightarrow> i < length t \<and> t ! i = c \<and> drop (Suc i) t = r"
  by (metis Cons_nth_drop_Suc drop_all leI list.discI list.inject)

lemma char_at_drop: "drop i t = c # r \<Longrightarrow> char_at t i = Some c"
  by (auto simp: char_at_def dest: drop_Cons_at)

lemma drop_append_at: "drop i t = w @ r \<Longrightarrow> drop (i + length w) t = r"
  by (metis add.commute append_eq_conv_conj drop_drop)

lemma blank_takeWhile: "blank w \<Longrightarrow> r = [] \<or> \<not> is_ws (hd r) \<Longrightarrow> takeWhile is_ws (w @ r) = w"
  by (induction w) (auto simp: takeWhile_eq_Nil_iff)

lemma skip_ws_at: "drop i t = w @ r \<Longrightarrow> blank w \<Longrightarrow> r = [] \<or> \<not> is_ws (hd r) \<Longrightarrow> skip_ws t i = i + length w"
  by (simp add: skip_ws_def blank_takeWhile)

lemma skip_ws_split:
  "drop i t = takeWhile is_ws (drop i t) @ drop (skip_ws t i) t \<and> blank (takeWhile is_ws (drop i t)) \<and>
   (drop (skip_ws t i) t = [] \<or> \<not> is_ws (hd (drop (skip_ws t i) t)))"
proof -
  have d: "drop (skip_ws t i) t = dropWhile is_ws (drop i t)"
    unfolding skip_ws_def by (metis add.commute append_eq_conv_conj drop_drop takeWhile_dropWhile_id)
  show ?thesis unfolding d using hd_dropWhile [of is_ws "drop i t"] by (auto simp: takeWhile_all)
qed

lemma raw_decode_at: "drop i t = u @ r \<Longrightarrow> scalar_token u v \<Longrightarrow> ends r \<Longrightarrow> raw_decode t i = Inr (v, i + length u)"
proof -
  assume d: "drop i t = u @ r" and u: "scalar_token u v" and r: "ends r"
  have "u \<noteq> []" using u by (auto simp: scalar_token_def)
  then have "length t = i + length u + length r" using d
    by (metis append_is_Nil_conv drop_all length_append length_drop le_add_diff_inverse add.assoc linorder_not_le less_imp_le)
  then show ?thesis using d u r by (simp add: raw_decode_def scalar_token_def)
qed

lemma raw_decode_split:
  assumes "raw_decode t i = Inr (v, e)"
  shows "\<exists>u. drop i t = u @ drop e t \<and> scalar_token u v \<and> e = i + length u \<and> e \<le> length t"
proof -
  obtain r where s: "scan_scalar (drop i t) = Inr (v, r)" and e: "e = length t - length r"
    using assms by (auto simp: raw_decode_def rbind_Inr_iff)
  obtain u where u: "drop i t = u @ r" "scalar_token u v" using scan_scalar_append [OF s] by blast
  have ne: "u \<noteq> []" using u(2) by (auto simp: scalar_token_def)
  then have "i < length t" using u(1) by (metis append_is_Nil_conv drop_all not_le)
  then have l: "length t = i + length u + length r" using arg_cong [OF u(1), of length] by simp
  then have "drop e t = r" using drop_append_at [OF u(1)] e by simp
  then show ?thesis using u e l by auto
qed

lemma ends_blank: "blank b \<Longrightarrow> r = [] \<or> (\<exists>c q. r = c # q \<and> c \<in> {CHR '','', CHR ''}'', CHR '']'', CHR '':''}) \<Longrightarrow> ends (b @ r)"
  by (cases b) (auto simp: ends_def)

subsection \<open>Every text of the grammar is read\<close>

lemma jval_head: "jval s v L \<Longrightarrow> s \<noteq> [] \<and> hd s \<notin> {CHR ''}'', CHR '']''}"
  and jmembers_head: "jmembers seen s d L \<Longrightarrow> tight s \<and> hd s \<notin> {CHR ''}'', CHR '']''}"
  and jelems_head: "jelems n s xs L \<Longrightarrow> tight s \<and> hd s \<notin> {CHR ''}'', CHR '']''}"
proof (induction rule: jval_jmembers_jelems.inducts)
  case (jscalar w u v)
  then show ?case by (cases w) (auto simp: scalar_token_def is_ws_def)
next
  case (jobject w w' s d L)
  then show ?case by (cases w) (auto simp: is_ws_def)
next
  case (jarray w w' s xs L)
  then show ?case by (cases w) (auto simp: is_ws_def)
next
  case (jobject0 w w')
  then show ?case by (cases w) (auto simp: is_ws_def)
next
  case (jarray0 w w')
  then show ?case by (cases w) (auto simp: is_ws_def)
qed (auto simp: scalar_token_def tight_def)

lemma json_parse_step:
  assumes "drop i t = w @ c # r" "blank w" "\<not> is_ws c"
  shows "json_parse (Suc n) t path i sp =
    (let i = i + length w
     in if c = CHR ''{'' then json_object (json_parse n t) t path i sp
        else if c = CHR ''['' then json_array (json_parse n t) t path i sp
        else rbind (raw_decode t i) (\<lambda>(v, e). Inr (v, e, (path, i, e) # sp)))"
proof -
  have "skip_ws t i = i + length w" using assms by (intro skip_ws_at) auto
  moreover have "i + length w < length t" "char_at t (i + length w) = Some c"
    using drop_Cons_at [OF drop_append_at [OF assms(1)]] char_at_drop [OF drop_append_at [OF assms(1)]] by auto
  ultimately show ?thesis by (simp add: guard_def Let_def)
qed

declare json_parse.simps [simp del] json_members.simps(2) [simp del] json_elements.simps(2) [simp del]

lemma json_object_step:
  assumes "drop i t = c # w @ r" "blank w" "tight r"
  shows "json_object p t path i sp =
     (if hd r = CHR ''}'' then Inr (PDict [], i + 1 + length w + 1, sp)
      else json_members p t path (length t) [] (i + 1 + length w) sp)"
    and "json_array p t path i sp =
     (if hd r = CHR '']'' then Inr (PList [], i + 1 + length w + 1, sp)
      else json_elements p t path (length t) [] (i + 1 + length w) sp)"
proof -
  have d: "drop (i + 1) t = w @ r" using drop_Cons_at [OF assms(1)] by simp
  have "skip_ws t (i + 1) = i + 1 + length w" using assms d by (intro skip_ws_at) (auto simp: tight_def)
  moreover have "char_at t (i + 1 + length w) = Some (hd r)"
    using drop_append_at [OF d] assms(3) by (cases r) (auto simp: tight_def dest: char_at_drop)
  ultimately show "json_object p t path i sp =
     (if hd r = CHR ''}'' then Inr (PDict [], i + 1 + length w + 1, sp)
      else json_members p t path (length t) [] (i + 1 + length w) sp)"
    and "json_array p t path i sp =
     (if hd r = CHR '']'' then Inr (PList [], i + 1 + length w + 1, sp)
      else json_elements p t path (length t) [] (i + 1 + length w) sp)"
    by (simp_all add: json_object_def json_array_def Let_def)
qed

lemma json_members_step:
  assumes d: "drop i t = k @ a @ CHR '':'' # s @ b @ c # r" and k: "scalar_token k (PStr key)" and a: "blank a" "blank b"
    and c: "c \<in> {CHR '','', CHR ''}''}" and key: "\<not> haskey acc key"
    and p: "p (path @ [JKey key]) (i + length k + length a + 1) sp = Inr (v, i + length k + length a + 1 + length s, sp')"
  shows "json_members p t path (Suc m) acc i sp =
    (let j = i + length (k @ a @ CHR '':'' # s @ b)
     in if c = CHR ''}'' then Inr (PDict (dset key v acc), j + 1, sp')
        else json_members p t path m (dset key v acc) (skip_ws t (j + 1)) sp')"
proof -
  define j1 where "j1 = i + length k"
  define j2 where "j2 = j1 + length a"
  define j3 where "j3 = j2 + 1"
  define j4 where "j4 = j3 + length s"
  define j5 where "j5 = j4 + length b"
  have e1: "ends (a @ CHR '':'' # s @ b @ c # r)" using a by (intro ends_blank) auto
  have r: "raw_decode t i = Inr (PStr key, j1)" unfolding j1_def by (rule raw_decode_at [OF d k e1])
  have d1: "drop j1 t = a @ CHR '':'' # s @ b @ c # r" using drop_append_at [OF d] by (simp add: j1_def)
  have w1: "skip_ws t j1 = j2" unfolding j2_def using d1 a by (intro skip_ws_at) (auto simp: is_ws_def)
  have d2: "drop j2 t = CHR '':'' # s @ b @ c # r" using drop_append_at [OF d1] by (simp add: j2_def)
  have d3: "drop j3 t = s @ b @ c # r" using drop_Cons_at [OF d2] by (simp add: j3_def)
  have d4: "drop j4 t = b @ c # r" using drop_append_at [OF d3] by (simp add: j4_def)
  have w2: "skip_ws t j4 = j5" unfolding j5_def using d4 a c by (intro skip_ws_at) (auto simp: is_ws_def)
  have d5: "drop j5 t = c # r" using drop_append_at [OF d4] by (simp add: j5_def)
  have l: "j5 < length t" using drop_Cons_at [OF d5] by simp
  have p': "p (path @ [JKey key]) (j2 + 1) sp = Inr (v, j4, sp')" using p by (simp add: j4_def j3_def j2_def j1_def)
  have j5: "i + length (k @ a @ CHR '':'' # s @ b) = j5" by (simp add: j5_def j4_def j3_def j2_def j1_def)
  show ?thesis unfolding j5 using key c l
    by (auto simp: json_members.simps(2) r w1 w2 p' [simplified] guard_def Let_def char_at_drop [OF d2] char_at_drop [OF d5])
qed

lemma json_elements_step:
  assumes d: "drop i t = s @ b @ c # r" and b: "blank b" and c: "c \<in> {CHR '','', CHR '']''}"
    and p: "p (path @ [JIdx (length acc)]) i sp = Inr (v, i + length s, sp')"
  shows "json_elements p t path (Suc m) acc i sp =
    (let j = i + length (s @ b)
     in if c = CHR '']'' then Inr (PList (acc @ [v]), j + 1, sp')
        else json_elements p t path m (acc @ [v]) (skip_ws t (j + 1)) sp')"
proof -
  define j4 where "j4 = i + length s"
  define j5 where "j5 = j4 + length b"
  have d4: "drop j4 t = b @ c # r" using drop_append_at [OF d] by (simp add: j4_def)
  have w2: "skip_ws t j4 = j5" unfolding j5_def using d4 b c by (intro skip_ws_at) (auto simp: is_ws_def)
  have d5: "drop j5 t = c # r" using drop_append_at [OF d4] by (simp add: j5_def)
  have l: "j5 < length t" using drop_Cons_at [OF d5] by simp
  have j5: "i + length (s @ b) = j5" by (simp add: j5_def j4_def)
  show ?thesis unfolding j5 using c l p
    by (auto simp: json_elements.simps(2) w2 j4_def [symmetric] guard_def Let_def char_at_drop [OF d5])
qed

lemma dset_new: "\<not> haskey d k \<Longrightarrow> dset k v d = d @ [(k, v)]"
  unfolding dset_def haskey_def by (induction d) auto

lemma haskey_keys: "haskey d k \<longleftrightarrow> k \<in> fst ` set d"
  by (force simp: haskey_def map_of_eq_None_iff)

text \<open>Each round of a loop and each level of nesting consumes a character, so the two bounds never run out.\<close>

lemma jval_parse:
  "jval s v L \<Longrightarrow> drop i t = s @ r \<Longrightarrow> ends r \<Longrightarrow> length s \<le> n \<Longrightarrow>
    \<exists>sp'. json_parse (Suc n) t path i sp = Inr (v, i + length s, sp')"
  and jmembers_parse:
  "jmembers seen s d L \<Longrightarrow> drop i t = s @ r \<Longrightarrow> length s \<le> m \<Longrightarrow> length s \<le> n \<Longrightarrow> seen = fst ` set acc \<Longrightarrow>
    \<exists>sp'. json_members (json_parse (Suc n) t) t path m acc i sp = Inr (PDict (acc @ d), i + length s, sp')"
  and jelems_parse:
  "jelems k s xs L \<Longrightarrow> drop i t = s @ r \<Longrightarrow> length s \<le> m \<Longrightarrow> length s \<le> n \<Longrightarrow> k = length ys \<Longrightarrow>
    \<exists>sp'. json_elements (json_parse (Suc n) t) t path m ys i sp = Inr (PList (ys @ xs), i + length s, sp')"
proof (induction arbitrary: i r n path sp and i r m n path acc sp and i r m n path ys sp
    rule: jval_jmembers_jelems.inducts)
  case (jscalar w u v)
  obtain c u' where u: "u = c # u'" "c \<notin> {CHR ''{'', CHR ''[''}" "\<not> is_ws c" using jscalar.hyps by (auto simp: scalar_token_def)
  have d: "drop i t = w @ c # u' @ r" using jscalar.prems u by simp
  have "drop (i + length w) t = u @ r" using drop_append_at [OF d] u by simp
  from raw_decode_at [OF this jscalar.hyps(2) jscalar.prems(2)]
  show ?case using u json_parse_step [OF d jscalar.hyps(1) u(3), of n path sp] by (simp add: add.assoc)
next
  case (jobject0 w w')
  have d: "drop i t = w @ CHR ''{'' # w' @ CHR ''}'' # r" using jobject0.prems by simp
  have o': "tight (CHR ''}'' # r)" by (simp add: tight_def is_ws_def)
  show ?case using json_parse_step [OF d jobject0.hyps(1), of n path sp]
      json_object_step(1) [OF drop_append_at [OF d] jobject0.hyps(2) o', of "json_parse n t" path sp]
    by (simp add: is_ws_def)
next
  case (jarray0 w w')
  have d: "drop i t = w @ CHR ''['' # w' @ CHR '']'' # r" using jarray0.prems by simp
  have o': "tight (CHR '']'' # r)" by (simp add: tight_def is_ws_def)
  show ?case using json_parse_step [OF d jarray0.hyps(1), of n path sp]
      json_object_step(2) [OF drop_append_at [OF d] jarray0.hyps(2) o', of "json_parse n t" path sp]
    by (simp add: is_ws_def)
next
  case (jobject w w' s d L)
  have d: "drop i t = w @ CHR ''{'' # w' @ s @ r" using jobject.prems by simp
  have s: "tight (s @ r)" "hd (s @ r) \<noteq> CHR ''}''" using jmembers_head [OF jobject.hyps(3)] by (auto simp: tight_def)
  obtain k where k: "n = Suc k" "length s \<le> k" using jobject.prems(3) by (cases n) auto
  have e: "drop (i + length w + 1 + length w') t = s @ r"
    using drop_append_at [of i t "w @ CHR ''{'' # w'" "s @ r"] d by (simp add: add.assoc)
  have l: "length s \<le> length t" using arg_cong [OF e, of length] by simp
  obtain sp' where "json_members (json_parse (Suc k) t) t path (length t) [] (i + length w + 1 + length w') sp =
      Inr (PDict ([] @ d), i + length w + 1 + length w' + length s, sp')"
    using jobject.IH [OF e l k(2), of "[]" path sp] by auto
  then show ?case using json_parse_step [OF d jobject.hyps(1), of n path sp] s(2) k(1)
      json_object_step(1) [OF drop_append_at [OF d] jobject.hyps(2) s(1), of "json_parse n t" path sp]
    by (simp add: is_ws_def add.assoc)
next
  case (jarray w w' s xs L)
  have d: "drop i t = w @ CHR ''['' # w' @ s @ r" using jarray.prems by simp
  have s: "tight (s @ r)" "hd (s @ r) \<noteq> CHR '']''" using jelems_head [OF jarray.hyps(3)] by (auto simp: tight_def)
  obtain k where k: "n = Suc k" "length s \<le> k" using jarray.prems(3) by (cases n) auto
  have e: "drop (i + length w + 1 + length w') t = s @ r"
    using drop_append_at [of i t "w @ CHR ''['' # w'" "s @ r"] d by (simp add: add.assoc)
  have l: "length s \<le> length t" using arg_cong [OF e, of length] by simp
  obtain sp' where "json_elements (json_parse (Suc k) t) t path (length t) [] (i + length w + 1 + length w') sp =
      Inr (PList ([] @ xs), i + length w + 1 + length w' + length s, sp')"
    using jarray.IH [OF e l k(2), of "[]" path sp] by auto
  then show ?case using json_parse_step [OF d jarray.hyps(1), of n path sp] s(2) k(1)
      json_object_step(2) [OF drop_append_at [OF d] jarray.hyps(2) s(1), of "json_parse n t" path sp]
    by (simp add: is_ws_def add.assoc)
next
  case (jlast k key seen a s v L b)
  obtain m' where m: "m = Suc m'" using jlast.prems(2) by (cases m) auto
  have d: "drop i t = k @ a @ CHR '':'' # s @ b @ CHR ''}'' # r" using jlast.prems by simp
  have e: "drop (i + length k + length a + 1) t = s @ b @ CHR ''}'' # r"
    using drop_append_at [of i t "k @ a @ '':''"] d by (simp add: add.assoc)
  have n: "\<not> haskey acc key" using jlast.hyps(2) jlast.prems(4) by (simp add: haskey_keys)
  have f: "ends (b @ CHR ''}'' # r)" using jlast.hyps by (intro ends_blank) auto
  obtain sp' where "json_parse (Suc n) t (path @ [JKey key]) (i + length k + length a + 1) sp =
      Inr (v, i + length k + length a + 1 + length s, sp')"
    using jlast.IH [OF e f, of n "path @ [JKey key]" sp] jlast.prems(3) by auto
  from json_members_step [where p = "json_parse (Suc n) t" and path = path, OF d jlast.hyps(1, 3, 5) _ n this, of m'] show ?case
    by (simp add: m dset_new [OF n])
next
  case (jmore k key seen a s v L b c r' d M)
  obtain m' where m: "m = Suc m'" "length r' \<le> m'" using jmore.prems(2) by (cases m) auto
  have d: "drop i t = k @ a @ CHR '':'' # s @ b @ CHR '','' # c @ r' @ r" using jmore.prems by simp
  have e: "drop (i + length k + length a + 1) t = s @ b @ CHR '','' # c @ r' @ r"
    using drop_append_at [of i t "k @ a @ '':''"] d by (simp add: add.assoc)
  have n: "\<not> haskey acc key" using jmore.hyps(2) jmore.prems(4) by (simp add: haskey_keys)
  have f: "ends (b @ CHR '','' # c @ r' @ r)" using jmore.hyps by (intro ends_blank) auto
  obtain sp' where p: "json_parse (Suc n) t (path @ [JKey key]) (i + length k + length a + 1) sp =
      Inr (v, i + length k + length a + 1 + length s, sp')"
    using jmore.IH(1) [OF e f, of n "path @ [JKey key]" sp] jmore.prems(3) by auto
  define j where "j = i + length (k @ a @ CHR '':'' # s @ b)"
  have g: "drop (j + 1) t = c @ r' @ r"
    using drop_append_at [of i t "k @ a @ CHR '':'' # s @ b @ '',''" "c @ r' @ r"] d by (simp add: j_def add.assoc)
  have w: "skip_ws t (j + 1) = j + 1 + length c"
    using g jmore.hyps jmembers_head [OF jmore.hyps(7)] by (intro skip_ws_at) (auto simp: tight_def)
  have h: "drop (j + 1 + length c) t = r' @ r" using drop_append_at [OF g] .
  have q: "insert key seen = fst ` set (acc @ [(key, v)])" using jmore.prems(4) by auto
  obtain sp'' where "json_members (json_parse (Suc n) t) t path m' (acc @ [(key, v)]) (j + 1 + length c) sp' =
      Inr (PDict ((acc @ [(key, v)]) @ d), j + 1 + length c + length r', sp'')"
    using jmore.IH(2) [OF h m(2) _ q, of n path sp'] jmore.prems(3) by auto
  moreover have "i + length ((k @ a @ '':'') @ s @ (b @ CHR '','' # c) @ r') = j + 1 + length c + length r'" by (simp add: j_def)
  moreover note json_members_step [where p = "json_parse (Suc n) t" and path = path, OF d jmore.hyps(1, 3, 5) _ n p, of m', folded j_def]
  ultimately show ?case unfolding m(1) by (simp only:) (simp add: dset_new [OF n] w [simplified])
next
  case (jlast_elem s v L b k)
  obtain m' where m: "m = Suc m'" using jlast_elem.prems(2) by (cases m) auto
  have d: "drop i t = s @ b @ CHR '']'' # r" using jlast_elem.prems by simp
  have f: "ends (b @ CHR '']'' # r)" using jlast_elem.hyps by (intro ends_blank) auto
  obtain sp' where "json_parse (Suc n) t (path @ [JIdx (length ys)]) i sp = Inr (v, i + length s, sp')"
    using jlast_elem.IH [OF d f, of n "path @ [JIdx (length ys)]" sp] jlast_elem.prems(3) by auto
  from json_elements_step [where p = "json_parse (Suc n) t" and path = path, OF d jlast_elem.hyps(3) _ this, of m'] show ?case
    by (simp add: m)
next
  case (jmore_elem s v L b c k r' xs M)
  obtain m' where m: "m = Suc m'" "length r' \<le> m'" using jmore_elem.prems(2) by (cases m) auto
  have d: "drop i t = s @ b @ CHR '','' # c @ r' @ r" using jmore_elem.prems by simp
  have f: "ends (b @ CHR '','' # c @ r' @ r)" using jmore_elem.hyps by (intro ends_blank) auto
  obtain sp' where p: "json_parse (Suc n) t (path @ [JIdx (length ys)]) i sp = Inr (v, i + length s, sp')"
    using jmore_elem.IH(1) [OF d f, of n "path @ [JIdx (length ys)]" sp] jmore_elem.prems(3) by auto
  define j where "j = i + length (s @ b)"
  have g: "drop (j + 1) t = c @ r' @ r"
    using drop_append_at [of i t "s @ b @ '',''" "c @ r' @ r"] d by (simp add: j_def add.assoc)
  have w: "skip_ws t (j + 1) = j + 1 + length c"
    using g jmore_elem.hyps jelems_head [OF jmore_elem.hyps(5)] by (intro skip_ws_at) (auto simp: tight_def)
  have h: "drop (j + 1 + length c) t = r' @ r" using drop_append_at [OF g] .
  obtain sp'' where "json_elements (json_parse (Suc n) t) t path m' (ys @ [v]) (j + 1 + length c) sp' =
      Inr (PList ((ys @ [v]) @ xs), j + 1 + length c + length r', sp'')"
    using jmore_elem.IH(2) [OF h m(2), of n "ys @ [v]" path sp'] jmore_elem.prems(3, 4) by auto
  moreover have "i + length (s @ (b @ CHR '','' # c) @ r') = j + 1 + length c + length r'" by (simp add: j_def)
  moreover note json_elements_step [where p = "json_parse (Suc n) t" and path = path, OF d jmore_elem.hyps(3) _ p, of m', folded j_def]
  ultimately show ?case unfolding m(1) by (simp only:) (simp add: w [simplified])
qed

subsection \<open>Every text read is of the grammar\<close>

definition placed :: "jpath \<Rightarrow> nat \<Rightarrow> places \<Rightarrow> spans" where
  "placed path i = map (\<lambda>(q, k, l). (path @ q, i + k, i + k + l))"

lemma placed_append: "placed path i (L @ M) = placed path i L @ placed path i M"
  by (simp add: placed_def)

lemma placed_moved: "placed path i (moved k L) = placed path (i + k) L"
  by (auto simp: placed_def moved_def)

lemma placed_under: "placed path i (under x L) = placed (path @ [x]) i L"
  by (auto simp: placed_def under_def)

lemmas placed_simps = placed_append placed_moved placed_under

definition reader_ok :: "string \<Rightarrow> reader \<Rightarrow> bool" where
  "reader_ok t p \<longleftrightarrow>
     (\<forall>path i sp v e sp'. p path i sp = Inr (v, e, sp') \<longrightarrow>
        (\<exists>s L. drop i t = s @ drop e t \<and> e = i + length s \<and> jval s v L \<and> set sp' \<subseteq> set sp \<union> set (placed path i L)))"

lemma char_at_split: "char_at t i = Some c \<Longrightarrow> drop i t = c # drop (i + 1) t"
  by (auto simp: char_at_def Cons_nth_drop_Suc split: if_splits)

lemma json_members_reads:
  assumes p: "reader_ok t p"
  shows "json_members p t path m acc i sp = Inr (v, e, sp') \<Longrightarrow>
    \<exists>s d L. v = PDict (acc @ d) \<and> drop i t = s @ drop e t \<and> e = i + length s \<and> jmembers (fst ` set acc) s d L \<and>
      set sp' \<subseteq> set sp \<union> set (placed path i L)"
proof (induction m arbitrary: acc i sp)
  case (Suc m)
  obtain k j1 where k: "raw_decode t i = Inr (PStr k, j1)" "\<not> haskey acc k"
  proof -
    obtain x j where x: "raw_decode t i = Inr (x, j)" using Suc.prems by (auto simp: json_members.simps rbind_Inr_iff)
    then show ?thesis using Suc.prems that by (cases x) (auto simp: json_members.simps rbind_Inr_iff)
  qed
  define j2 where "j2 = skip_ws t j1"
  obtain w j4 sp1 where p1: "char_at t j2 = Some (CHR '':'')" "p (path @ [JKey k]) (j2 + 1) sp = Inr (w, j4, sp1)"
    using Suc.prems k by (auto simp: json_members.simps rbind_Inr_iff Let_def j2_def)
  define j5 where "j5 = skip_ws t j4"
  have rest: "(if char_at t j5 = Some (CHR ''}'') then Inr (PDict (dset k w acc), j5 + 1, sp1)
      else rbind (guard (char_at t j5 = Some (CHR '',''))) (\<lambda>_. json_members p t path m (dset k w acc) (skip_ws t (j5 + 1)) sp1)) =
      Inr (v, e, sp')"
    using Suc.prems k p1 by (auto simp: json_members.simps rbind_Inr_iff Let_def j2_def j5_def)
  obtain kt where kt: "drop i t = kt @ drop j1 t" "scalar_token kt (PStr k)" "j1 = i + length kt"
    using raw_decode_split [OF k(1)] by blast
  define a where "a = takeWhile is_ws (drop j1 t)"
  have a: "drop j1 t = a @ drop j2 t" "blank a" "j2 = j1 + length a"
    using skip_ws_split [of j1 t] by (auto simp: a_def j2_def skip_ws_def)
  obtain s L where s: "drop (j2 + 1) t = s @ drop j4 t" "j4 = j2 + 1 + length s" "jval s w L"
      "set sp1 \<subseteq> set sp \<union> set (placed (path @ [JKey k]) (j2 + 1) L)"
    using p p1(2) unfolding reader_ok_def by blast
  define b where "b = takeWhile is_ws (drop j4 t)"
  have b: "drop j4 t = b @ drop j5 t" "blank b" "j5 = j4 + length b"
    using skip_ws_split [of j4 t] by (auto simp: b_def j5_def skip_ws_def)
  have n: "k \<notin> fst ` set acc" using k(2) by (simp add: haskey_keys)
  have h: "drop i t = (kt @ a @ '':'') @ s @ b @ drop j5 t"
    using kt(1) a(1) char_at_split [OF p1(1)] s(1) b(1) by simp
  show ?case
  proof (cases "char_at t j5 = Some (CHR ''}'')")
    case True
    have "drop i t = ((kt @ a @ '':'') @ s @ b @ ''}'') @ drop (j5 + 1) t" using h char_at_split [OF True] by simp
    moreover have "jmembers (fst ` set acc) ((kt @ a @ '':'') @ s @ b @ ''}'') [(k, w)]
        (under (JKey k) (moved (length (kt @ a @ '':'')) L))" by (rule jlast [OF kt(2) n a(2) s(3) b(2)])
    moreover have "v = PDict (acc @ [(k, w)])" "e = j5 + 1" "sp' = sp1" using rest True dset_new [OF k(2)] by auto
    ultimately show ?thesis using s(2, 4) kt(3) a(3) b(3)
      by (intro exI conjI) (assumption | simp add: placed_simps add.assoc)+
  next
    case False
    then have c: "char_at t j5 = Some (CHR '','')"
      and r: "json_members p t path m (acc @ [(k, w)]) (skip_ws t (j5 + 1)) sp1 = Inr (v, e, sp')"
      using rest dset_new [OF k(2)] by (auto simp: rbind_Inr_iff)
    define j6 where "j6 = skip_ws t (j5 + 1)"
    define c' where "c' = takeWhile is_ws (drop (j5 + 1) t)"
    have c': "drop (j5 + 1) t = c' @ drop j6 t" "blank c'" "j6 = j5 + 1 + length c'"
      using skip_ws_split [of "j5 + 1" t] by (auto simp: c'_def j6_def skip_ws_def)
    obtain s' d M where M: "v = PDict ((acc @ [(k, w)]) @ d)" "drop j6 t = s' @ drop e t" "e = j6 + length s'"
        "jmembers (insert k (fst ` set acc)) s' d M" "set sp' \<subseteq> set sp1 \<union> set (placed path j6 M)"
      using Suc.IH [OF r] by (auto simp: j6_def)
    let ?s = "(kt @ a @ '':'') @ s @ (b @ CHR '','' # c') @ s'"
    let ?L = "under (JKey k) (moved (length (kt @ a @ '':'')) L) @ moved (length ((kt @ a @ '':'') @ s @ b @ CHR '','' # c')) M"
    have "drop i t = ?s @ drop e t" using h char_at_split [OF c] c'(1) M(2) by simp
    moreover have "jmembers (fst ` set acc) ?s ((k, w) # d) ?L"
      by (rule jmore [OF kt(2) n a(2) s(3) b(2) c'(2) M(4)])
    moreover have "v = PDict (acc @ (k, w) # d)" "e = i + length ?s"
      using M(1, 3) kt(3) a(3) s(2) b(3) c'(3) by simp_all
    moreover have "j2 + 1 = i + length (kt @ a @ '':'')" "j6 = i + length ((kt @ a @ '':'') @ s @ b @ CHR '','' # c')"
      using kt(3) a(3) s(2) b(3) c'(3) by simp_all
    then have "set sp' \<subseteq> set sp \<union> set (placed path i ?L)" using s(4) M(5) by (simp only: placed_simps) auto
    ultimately show ?thesis by blast
  qed
qed simp

lemma json_elements_reads:
  assumes p: "reader_ok t p"
  shows "json_elements p t path m xs i sp = Inr (v, e, sp') \<Longrightarrow> drop i t = [] \<or> \<not> is_ws (hd (drop i t)) \<Longrightarrow>
    \<exists>s ys L. v = PList (xs @ ys) \<and> drop i t = s @ drop e t \<and> e = i + length s \<and> jelems (length xs) s ys L \<and>
      set sp' \<subseteq> set sp \<union> set (placed path i L)"
proof (induction m arbitrary: xs i sp)
  case (Suc m)
  obtain w j4 sp1 where p1: "p (path @ [JIdx (length xs)]) i sp = Inr (w, j4, sp1)"
    using Suc.prems by (auto simp: json_elements.simps rbind_Inr_iff)
  define j5 where "j5 = skip_ws t j4"
  have rest: "(if char_at t j5 = Some (CHR '']'') then Inr (PList (xs @ [w]), j5 + 1, sp1)
      else rbind (guard (char_at t j5 = Some (CHR '',''))) (\<lambda>_. json_elements p t path m (xs @ [w]) (skip_ws t (j5 + 1)) sp1)) =
      Inr (v, e, sp')"
    using Suc.prems p1 by (auto simp: json_elements.simps rbind_Inr_iff Let_def j5_def)
  obtain s L where s: "drop i t = s @ drop j4 t" "j4 = i + length s" "jval s w L"
      "set sp1 \<subseteq> set sp \<union> set (placed (path @ [JIdx (length xs)]) i L)"
    using p p1 unfolding reader_ok_def by blast
  have ti: "tight s" using Suc.prems(2) s(1) jval_head [OF s(3)] by (auto simp: tight_def)
  define b where "b = takeWhile is_ws (drop j4 t)"
  have b: "drop j4 t = b @ drop j5 t" "blank b" "j5 = j4 + length b"
    using skip_ws_split [of j4 t] by (auto simp: b_def j5_def skip_ws_def)
  have h: "drop i t = s @ b @ drop j5 t" using s(1) b(1) by simp
  show ?case
  proof (cases "char_at t j5 = Some (CHR '']'')")
    case True
    have "drop i t = (s @ b @ '']'') @ drop (j5 + 1) t" using h char_at_split [OF True] by simp
    moreover have "jelems (length xs) (s @ b @ '']'') [w] (under (JIdx (length xs)) L)" by (rule jlast_elem [OF s(3) ti b(2)])
    moreover have "v = PList (xs @ [w])" "e = j5 + 1" "sp' = sp1" using rest True by auto
    ultimately show ?thesis using s(2, 4) b(3)
      by (intro exI conjI) (assumption | simp add: placed_simps add.assoc)+
  next
    case False
    then have c: "char_at t j5 = Some (CHR '','')"
      and r: "json_elements p t path m (xs @ [w]) (skip_ws t (j5 + 1)) sp1 = Inr (v, e, sp')"
      using rest by (auto simp: rbind_Inr_iff)
    define j6 where "j6 = skip_ws t (j5 + 1)"
    define c' where "c' = takeWhile is_ws (drop (j5 + 1) t)"
    have c': "drop (j5 + 1) t = c' @ drop j6 t" "blank c'" "j6 = j5 + 1 + length c'"
      "drop j6 t = [] \<or> \<not> is_ws (hd (drop j6 t))"
      using skip_ws_split [of "j5 + 1" t] by (auto simp: c'_def j6_def skip_ws_def)
    obtain s' ys M where M: "v = PList ((xs @ [w]) @ ys)" "drop j6 t = s' @ drop e t" "e = j6 + length s'"
        "jelems (Suc (length xs)) s' ys M" "set sp' \<subseteq> set sp1 \<union> set (placed path j6 M)"
      using Suc.IH [OF r [folded j6_def] c'(4)] by auto
    let ?s = "s @ (b @ CHR '','' # c') @ s'"
    let ?L = "under (JIdx (length xs)) L @ moved (length (s @ b @ CHR '','' # c')) M"
    have "drop i t = ?s @ drop e t" using h char_at_split [OF c] c'(1) M(2) by simp
    moreover have "jelems (length xs) ?s (w # ys) ?L" by (rule jmore_elem [OF s(3) ti b(2) c'(2) M(4)])
    moreover have "v = PList (xs @ w # ys)" "e = i + length ?s" using M(1, 3) s(2) b(3) c'(3) by simp_all
    moreover have "j6 = i + length (s @ b @ CHR '','' # c')" using s(2) b(3) c'(3) by simp
    then have "set sp' \<subseteq> set sp \<union> set (placed path i ?L)" using s(4) M(5) by (simp only: placed_simps) auto
    ultimately show ?thesis by blast
  qed
qed simp

lemma json_object_reads:
  assumes p: "reader_ok t p" and c: "char_at t i = Some (CHR ''{'')" "json_object p t path i sp = Inr (v, e, sp')"
  shows "\<exists>s L. drop i t = s @ drop e t \<and> e = i + length s \<and> jval s v L \<and> set sp' \<subseteq> set sp \<union> set (placed path i L)"
proof -
  define j where "j = skip_ws t (i + 1)"
  define w where "w = takeWhile is_ws (drop (i + 1) t)"
  have w: "drop (i + 1) t = w @ drop j t" "blank w" "j = i + 1 + length w"
    using skip_ws_split [of "i + 1" t] by (auto simp: w_def j_def skip_ws_def)
  have h: "drop i t = ([] @ CHR ''{'' # w) @ drop j t" using char_at_split [OF c(1)] w(1) by simp
  show ?thesis
  proof (cases "char_at t j = Some (CHR ''}'')")
    case True
    have "drop i t = ([] @ CHR ''{'' # w @ ''}'') @ drop (j + 1) t" using h char_at_split [OF True] by simp
    moreover have "jval ([] @ CHR ''{'' # w @ ''}'') (PDict []) []" by (rule jobject0) (simp_all add: w)
    moreover have "v = PDict []" "e = j + 1" "sp' = sp" using c(2) True by (simp_all add: json_object_def Let_def j_def)
    ultimately show ?thesis using w(3)
      by (intro exI [of _ "[] @ CHR ''{'' # w @ ''}''"] exI [of _ "[]"]) simp
  next
    case False
    then have "json_members p t path (length t) [] j sp = Inr (v, e, sp')"
      using c(2) by (simp add: json_object_def Let_def j_def)
    from json_members_reads [OF p this] obtain s d L where M: "v = PDict d" "drop j t = s @ drop e t" "e = j + length s"
        "jmembers {} s d L" "set sp' \<subseteq> set sp \<union> set (placed path j L)" by auto
    have "jval (([] @ CHR ''{'' # w) @ s) v (moved (length ([] @ CHR ''{'' # w)) L)"
      unfolding M(1) by (rule jobject [OF _ w(2) M(4)]) simp
    then show ?thesis using h M w(3)
      by (intro exI [of _ "([] @ CHR ''{'' # w) @ s"] exI [of _ "moved (length ([] @ CHR ''{'' # w)) L"])
        (auto simp: placed_moved)
  qed
qed

lemma json_array_reads:
  assumes p: "reader_ok t p" and c: "char_at t i = Some (CHR ''['')" "json_array p t path i sp = Inr (v, e, sp')"
  shows "\<exists>s L. drop i t = s @ drop e t \<and> e = i + length s \<and> jval s v L \<and> set sp' \<subseteq> set sp \<union> set (placed path i L)"
proof -
  define j where "j = skip_ws t (i + 1)"
  define w where "w = takeWhile is_ws (drop (i + 1) t)"
  have w: "drop (i + 1) t = w @ drop j t" "blank w" "j = i + 1 + length w" "drop j t = [] \<or> \<not> is_ws (hd (drop j t))"
    using skip_ws_split [of "i + 1" t] by (auto simp: w_def j_def skip_ws_def)
  have h: "drop i t = ([] @ CHR ''['' # w) @ drop j t" using char_at_split [OF c(1)] w(1) by simp
  show ?thesis
  proof (cases "char_at t j = Some (CHR '']'')")
    case True
    have "drop i t = ([] @ CHR ''['' # w @ '']'') @ drop (j + 1) t" using h char_at_split [OF True] by simp
    moreover have "jval ([] @ CHR ''['' # w @ '']'') (PList []) []" by (rule jarray0) (simp_all add: w)
    moreover have "v = PList []" "e = j + 1" "sp' = sp" using c(2) True by (simp_all add: json_array_def Let_def j_def)
    ultimately show ?thesis using w(3)
      by (intro exI [of _ "[] @ CHR ''['' # w @ '']''"] exI [of _ "[]"]) simp
  next
    case False
    then have "json_elements p t path (length t) [] j sp = Inr (v, e, sp')"
      using c(2) by (simp add: json_array_def Let_def j_def)
    from json_elements_reads [OF p this w(4)] obtain s xs L where M: "v = PList xs" "drop j t = s @ drop e t" "e = j + length s"
        "jelems 0 s xs L" "set sp' \<subseteq> set sp \<union> set (placed path j L)" by auto
    have "jval (([] @ CHR ''['' # w) @ s) v (moved (length ([] @ CHR ''['' # w)) L)"
      unfolding M(1) by (rule jarray [OF _ w(2) M(4)]) simp
    then show ?thesis using h M w(3)
      by (intro exI [of _ "([] @ CHR ''['' # w) @ s"] exI [of _ "moved (length ([] @ CHR ''['' # w)) L"])
        (auto simp: placed_moved)
  qed
qed

lemma moved_moved: "moved k (moved n L) = moved (n + k) L"
  by (simp add: moved_def comp_def case_prod_unfold add.assoc)

lemma jval_blank:
  assumes "jval s v L" "blank a"
  shows "jval (a @ s) v (moved (length a) L)"
  using assms(1)
proof (cases rule: jval.cases)
  case (jscalar w u)
  then show ?thesis using jval_jmembers_jelems.jscalar [of "a @ w" u v] assms(2) by (simp add: moved_def add.commute)
next
  case (jobject0 w w')
  then show ?thesis using jval_jmembers_jelems.jobject0 [of "a @ w" w'] assms(2) by (simp add: moved_def)
next
  case (jarray0 w w')
  then show ?thesis using jval_jmembers_jelems.jarray0 [of "a @ w" w'] assms(2) by (simp add: moved_def)
next
  case (jobject w w' s' d M)
  then show ?thesis
    using jval_jmembers_jelems.jobject [of "a @ w" w' s' d M] assms(2) by (simp add: moved_moved add.commute add.left_commute)
next
  case (jarray w w' s' d M)
  then show ?thesis
    using jval_jmembers_jelems.jarray [of "a @ w" w' s' d M] assms(2) by (simp add: moved_moved add.commute add.left_commute)
qed

lemma json_parse_reads: "reader_ok t (json_parse n t)"
proof (induction n)
  case 0
  then show ?case by (simp add: reader_ok_def json_parse.simps)
next
  case (Suc n)
  show ?case unfolding reader_ok_def
  proof (intro allI impI)
    fix path i sp v e sp'
    assume r: "json_parse (Suc n) t path i sp = Inr (v, e, sp')"
    define j where "j = skip_ws t i"
    define w where "w = takeWhile is_ws (drop i t)"
    have w: "drop i t = w @ drop j t" "blank w" "j = i + length w"
      using skip_ws_split [of i t] by (auto simp: w_def j_def skip_ws_def)
    have "\<exists>s L. drop j t = s @ drop e t \<and> e = j + length s \<and> jval s v L \<and> set sp' \<subseteq> set sp \<union> set (placed path j L)"
    proof -
      consider "char_at t j = Some (CHR ''{'')" | "char_at t j = Some (CHR ''['')"
        | "char_at t j \<noteq> Some (CHR ''{'')" "char_at t j \<noteq> Some (CHR ''['')" by blast
      then show ?thesis
      proof cases
        case 1
        then have "json_object (json_parse n t) t path j sp = Inr (v, e, sp')"
          using r by (auto simp: json_parse.simps Let_def j_def [symmetric] rbind_Inr_iff)
        from json_object_reads [OF Suc.IH 1 this] show ?thesis .
      next
        case 2
        then have "json_array (json_parse n t) t path j sp = Inr (v, e, sp')"
          using r by (auto simp: json_parse.simps Let_def j_def [symmetric] rbind_Inr_iff)
        from json_array_reads [OF Suc.IH 2 this] show ?thesis .
      next
        case 3
        then have d: "raw_decode t j = Inr (v, e)" "sp' = (path, j, e) # sp"
          using r by (auto simp: json_parse.simps Let_def j_def [symmetric] rbind_Inr_iff)
        obtain u where u: "drop j t = u @ drop e t" "scalar_token u v" "e = j + length u" using raw_decode_split [OF d(1)] by blast
        have "jval u v [([], 0, length u)]" using jscalar [of "[]" u v] u(2) by simp
        then show ?thesis using u d(2) by (intro exI [of _ u] exI [of _ "[([], 0, length u)]"]) (auto simp: placed_def)
      qed
    qed
    then obtain s L where s: "drop j t = s @ drop e t" "e = j + length s" "jval s v L"
        "set sp' \<subseteq> set sp \<union> set (placed path j L)" by blast
    show "\<exists>s L. drop i t = s @ drop e t \<and> e = i + length s \<and> jval s v L \<and> set sp' \<subseteq> set sp \<union> set (placed path i L)"
      using jval_blank [OF s(3) w(2)] s w by (intro exI [of _ "w @ s"] exI [of _ "moved (length w) L"]) (auto simp: placed_moved)
  qed
qed

text \<open>The reader accepts exactly the documents of the grammar.\<close>

lemma json_document_iff:
  "json_document raw = Inr (t, data, sp) \<Longrightarrow>
    \<exists>s w L. t = raw \<and> utf8_valid raw \<and> raw = s @ w \<and> blank w \<and> jval s data L \<and> set sp \<subseteq> set (placed [] 0 L)"
  and jval_document: "jval s data L \<Longrightarrow> blank w \<Longrightarrow> utf8_valid (s @ w) \<Longrightarrow> \<exists>sp. json_document (s @ w) = Inr (s @ w, data, sp)"
proof -
  assume "json_document raw = Inr (t, data, sp)"
  then obtain e where e: "utf8_valid raw" "t = raw" "json_parse (length raw + 1) raw [] 0 [] = Inr (data, e, sp)"
      "skip_ws raw e = length raw"
    by (auto simp: json_document_def decode_utf8_def rbind_Inr_iff split: if_splits)
  obtain s L where s: "raw = s @ drop e raw" "jval s data L" "set sp \<subseteq> set (placed [] 0 L)"
    using json_parse_reads [of raw "length raw + 1", unfolded reader_ok_def] e(3) by fastforce
  have "drop e raw = takeWhile is_ws (drop e raw)" using skip_ws_split [of e raw] e(4) by simp
  then have "blank (drop e raw)" by (metis takeWhile_all)
  then show "\<exists>s w L. t = raw \<and> utf8_valid raw \<and> raw = s @ w \<and> blank w \<and> jval s data L \<and> set sp \<subseteq> set (placed [] 0 L)"
    using e s by blast
next
  assume s: "jval s data L" and w: "blank w" and u: "utf8_valid (s @ w)"
  have "ends w" using w ends_blank [of w "[]"] by simp
  then obtain sp where "json_parse (length (s @ w) + 1) (s @ w) [] 0 [] = Inr (data, length s, sp)"
    using jval_parse [OF s, of 0 "s @ w" w "length (s @ w)" "[]" "[]"] by auto
  moreover have "skip_ws (s @ w) (length s) = length (s @ w)" using w skip_ws_at [of "length s" "s @ w" w "[]"] by simp
  ultimately show "\<exists>sp. json_document (s @ w) = Inr (s @ w, data, sp)"
    using u by (simp add: json_document_def decode_utf8_def guard_def)
qed

subsection \<open>Replacing one scalar\<close>

text \<open>\<^verbatim>\<open>data[path] = x\<close> for a path that leads to a value.\<close>

fun put :: "jpath \<Rightarrow> pyval \<Rightarrow> pyval \<Rightarrow> pyval" where
  "put [] x v = x"
| "put (JKey k # q) x (PDict d) = PDict (case map_of d k of None \<Rightarrow> d | Some w \<Rightarrow> dset k (put q x w) d)"
| "put (JIdx n # q) x (PList xs) = PList (if n < length xs then xs[n := put q x (xs ! n)] else xs)"
| "put (_ # q) x v = v"

definition splice :: "nat \<Rightarrow> nat \<Rightarrow> string \<Rightarrow> string \<Rightarrow> string" where
  "splice i l u s = take i s @ u @ drop (i + l) s"

lemma splice_inside: "i + l \<le> length s \<Longrightarrow> splice (length p + i) l u (p @ s @ r) = p @ splice i l u s @ r"
  by (simp add: splice_def)

lemma splice_last: "i + l \<le> length s \<Longrightarrow> splice (length p + i) l u (p @ s) = p @ splice i l u s"
  by (simp add: splice_def)

definition keeps_places :: "nat \<Rightarrow> places \<Rightarrow> places \<Rightarrow> bool" where
  "keeps_places i L M \<longleftrightarrow> (\<forall>(q, j, l) \<in> set L. j + l \<le> i \<longrightarrow> (q, j, l) \<in> set M)"

lemma moved_iff: "(q, i, l) \<in> set (moved k L) \<longleftrightarrow> (\<exists>j. i = k + j \<and> (q, j, l) \<in> set L)"
  by (force simp: moved_def)

lemma under_iff: "(p, i, l) \<in> set (under x L) \<longleftrightarrow> (\<exists>q. p = x # q \<and> (q, i, l) \<in> set L)"
  by (force simp: under_def)

lemmas place_iff = moved_iff under_iff

lemma keeps_moved: "keeps_places j L M \<Longrightarrow> keeps_places (k + j) (moved k L) (moved k M)"
  by (fastforce simp: keeps_places_def moved_iff)

lemma keeps_under: "keeps_places j L M \<Longrightarrow> keeps_places j (under x L) (under x M)"
  by (fastforce simp: keeps_places_def under_iff)

lemma keeps_first: "keeps_places j L M \<Longrightarrow> (\<And>q i l. (q, i, l) \<in> set N \<Longrightarrow> j < i + l) \<Longrightarrow> keeps_places j (L @ N) (M @ N')"
  by (fastforce simp: keeps_places_def)

lemma keeps_second: "keeps_places j N N' \<Longrightarrow> keeps_places j (L @ N) (L @ N')"
  by (fastforce simp: keeps_places_def)

text \<open>The places lie inside the text, in order and apart.\<close>

definition before :: "jpath \<times> nat \<times> nat \<Rightarrow> jpath \<times> nat \<times> nat \<Rightarrow> bool" where
  "before = (\<lambda>(p, i, l) (q, j, m). i + l \<le> j)"

definition inside :: "places \<Rightarrow> nat \<Rightarrow> bool" where
  "inside L n = list_all (\<lambda>(q, i, l). i + l \<le> n \<and> 0 < l) L"

lemma inside_mem: "inside L n \<Longrightarrow> (q, i, l) \<in> set L \<Longrightarrow> i + l \<le> n \<and> 0 < l"
  by (auto simp: inside_def list_all_iff)

lemma inside_moved: "inside L n \<Longrightarrow> k + n \<le> m \<Longrightarrow> inside (moved k L) m"
  by (auto simp: inside_def list_all_iff moved_def)

lemma inside_under [simp]: "inside (under x L) n = inside L n"
  by (auto simp: inside_def list_all_iff under_def)

lemma inside_append [simp]: "inside (L @ M) n = (inside L n \<and> inside M n)"
  by (simp add: inside_def)

lemma inside_mono: "inside L n \<Longrightarrow> n \<le> m \<Longrightarrow> inside L m"
  by (auto simp: inside_def list_all_iff)

lemma sorted_moved [simp]: "sorted_wrt before (moved k L) = sorted_wrt before L"
  by (simp add: moved_def sorted_wrt_map before_def case_prod_unfold)

lemma sorted_under [simp]: "sorted_wrt before (under x L) = sorted_wrt before L"
  by (simp add: under_def sorted_wrt_map before_def case_prod_unfold)

lemma sorted_append: "sorted_wrt before L \<Longrightarrow> inside L n \<Longrightarrow> sorted_wrt before M \<Longrightarrow> n \<le> k \<Longrightarrow> sorted_wrt before (L @ moved k M)"
  unfolding sorted_wrt_append sorted_moved
proof (intro conjI ballI)
  assume l: "inside L n" "n \<le> k"
  fix x y assume "x \<in> set L" "y \<in> set (moved k M)"
  moreover obtain p i j where "x = (p, i, j)" by (cases x) auto
  moreover obtain q i' j' where "y = (q, i', j')" by (cases y) auto
  ultimately show "before x y" using l inside_mem [OF l(1), of p i j] by (auto simp: before_def moved_iff)
qed

lemma jval_places: "jval s v L \<Longrightarrow> inside L (length s) \<and> sorted_wrt before L"
  and jmembers_places: "jmembers seen s d L \<Longrightarrow> inside L (length s) \<and> sorted_wrt before L"
  and jelems_places: "jelems n s xs L \<Longrightarrow> inside L (length s) \<and> sorted_wrt before L"
proof (induction rule: jval_jmembers_jelems.inducts)
  case (jscalar w u v)
  then show ?case by (auto simp: inside_def scalar_token_def)
next
  case (jmore k key seen a s v L b c r d M)
  let ?h = "k @ a @ '':''"
  let ?t = "?h @ s @ b @ CHR '','' # c"
  have L: "inside (under (JKey key) (moved (length ?h) L)) (length ?h + length s)"
    unfolding inside_under by (rule inside_moved [of _ "length s"]) (use jmore.IH(1) in auto)
  have M: "inside (moved (length ?t) M) (length ?t + length r)" by (rule inside_moved [of _ "length r"]) (use jmore.IH(2) in auto)
  have "length ?h + length s \<le> length ?t" by simp
  moreover have e: "length (?h @ s @ (b @ CHR '','' # c) @ r) = length ?t + length r" by simp
  ultimately show ?case unfolding e inside_append
    using inside_mono [OF L, of "length ?t + length r"] M sorted_append [OF _ L, of M "length ?t"] jmore.IH
    by (simp only: sorted_under sorted_moved)
next
  case (jmore_elem s v L b c n r xs M)
  have "sorted_wrt before (under (JIdx n) L @ moved (length (s @ b @ CHR '','' # c)) M)"
    using jmore_elem.IH by (intro sorted_append [where n = "length s"]) auto
  moreover have "inside L (length (s @ (b @ CHR '','' # c) @ r))"
    by (rule inside_mono [of L "length s"]) (use jmore_elem.IH in auto)
  moreover have "inside (moved (length (s @ b @ CHR '','' # c)) M) (length (s @ (b @ CHR '','' # c) @ r))"
    using jmore_elem.IH by (intro inside_moved [where n = "length r"]) auto
  ultimately show ?case by simp
next
  case (jlast k key seen a s v L b)
  then show ?case by (auto intro: inside_moved)
next
  case (jlast_elem s v L b n)
  then show ?case by (auto intro: inside_mono)
next
  case (jobject w w' s d L)
  then show ?case by (auto intro: inside_moved)
next
  case (jarray w w' s d L)
  then show ?case by (auto intro: inside_moved)
qed (simp_all add: inside_def)

lemma tight_splice:
  assumes "tight s" "tight u" "i + l \<le> length s"
  shows "tight (splice i l u s)"
  using assms by (cases i; cases s) (auto simp: tight_def splice_def)

lemma scalar_token_tight: "scalar_token u x \<Longrightarrow> tight u"
  by (auto simp: scalar_token_def tight_def)

lemma put_member: "put (JKey key # q) x (PDict ((key, v) # d)) = PDict ((key, put q x v) # d)"
  by (simp add: dset_def)

lemma put_other_member:
  "k \<noteq> key \<Longrightarrow> put (JKey k # q) x (PDict d) = PDict d' \<Longrightarrow>
    put (JKey k # q) x (PDict ((key, v) # d)) = PDict ((key, v) # d')"
  by (auto simp: dset_def split: option.splits)

lemma put_element: "put (JIdx 0 # q) x (PList (v # xs)) = PList (put q x v # xs)"
  by simp

lemma put_other_element:
  "m < length xs \<Longrightarrow> put (JIdx m # q) x (PList xs) = PList xs' \<Longrightarrow>
    put (JIdx (Suc m) # q) x (PList (v # xs)) = PList (v # xs')"
  by auto

lemma jval_replace:
  "jval s v L \<Longrightarrow> (p, i, l) \<in> set L \<Longrightarrow> scalar_token u x \<Longrightarrow>
    \<exists>L'. jval (splice i l u s) (put p x v) L' \<and> keeps_places i L L'"
  and jmembers_replace:
  "jmembers seen s d L \<Longrightarrow> (p, i, l) \<in> set L \<Longrightarrow> scalar_token u x \<Longrightarrow>
    \<exists>k q d' L'. p = JKey k # q \<and> k \<notin> seen \<and> put p x (PDict d) = PDict d' \<and> jmembers seen (splice i l u s) d' L' \<and> keeps_places i L L'"
  and jelems_replace:
  "jelems n s xs L \<Longrightarrow> (p, i, l) \<in> set L \<Longrightarrow> scalar_token u x \<Longrightarrow>
    \<exists>m q xs' L'. p = JIdx (n + m) # q \<and> m < length xs \<and> put (JIdx m # q) x (PList xs) = PList xs' \<and>
      jelems n (splice i l u s) xs' L' \<and> keeps_places i L L'"
proof (induction arbitrary: p i l and p i l and p i l rule: jval_jmembers_jelems.inducts)
  case (jscalar w u' v)
  have "p = []" "i = length w" "l = length u'" using jscalar.prems(1) by auto
  moreover have "splice (length w) (length u') u (w @ u') = w @ u" by (simp add: splice_def)
  moreover have "keeps_places (length w) [([], length w, length u')] [([], length w, length u)]"
    using jscalar.hyps(2) by (auto simp: keeps_places_def scalar_token_def)
  ultimately show ?case using jval_jmembers_jelems.jscalar [OF jscalar.hyps(1) jscalar.prems(2)] by auto
next
  case (jobject w w' s d L)
  let ?h = "w @ CHR ''{'' # w'"
  obtain j where j: "i = length ?h + j" "(p, j, l) \<in> set L" using jobject.prems(1) by (auto simp: moved_iff)
  obtain k q d' L' where r: "p = JKey k # q" "put p x (PDict d) = PDict d'" "jmembers {} (splice j l u s) d' L'" "keeps_places j L L'"
    using jobject.IH [OF j(2) jobject.prems(2)] by blast
  have "j + l \<le> length s" using jmembers_places [OF jobject.hyps(3)] inside_mem [OF _ j(2)] by blast
  from splice_last [OF this, of ?h u] show ?case
    using jval_jmembers_jelems.jobject [OF jobject.hyps(1, 2) r(3)] r(2) keeps_moved [OF r(4), of "length ?h"] j(1) by auto
next
  case (jarray w w' s xs L)
  let ?h = "w @ CHR ''['' # w'"
  obtain j where j: "i = length ?h + j" "(p, j, l) \<in> set L" using jarray.prems(1) by (auto simp: moved_iff)
  obtain m q d' L' where r: "p = JIdx m # q" "put p x (PList xs) = PList d'" "jelems 0 (splice j l u s) d' L'" "keeps_places j L L'"
    using jarray.IH [OF j(2) jarray.prems(2)] by auto
  have "j + l \<le> length s" using jelems_places [OF jarray.hyps(3)] inside_mem [OF _ j(2)] by blast
  from splice_last [OF this, of ?h u] show ?case
    using jval_jmembers_jelems.jarray [OF jarray.hyps(1, 2) r(3)] r(2) keeps_moved [OF r(4), of "length ?h"] j(1) by auto
next
  case (jlast k key seen a s v L b)
  let ?h = "k @ a @ '':''"
  obtain j q where j: "i = length ?h + j" "p = JKey key # q" "(q, j, l) \<in> set L"
    using jlast.prems(1) by (auto simp: place_iff)
  obtain L' where r: "jval (splice j l u s) (put q x v) L'" "keeps_places j L L'" using jlast.IH [OF j(3) jlast.prems(2)] by blast
  have "j + l \<le> length s" using jval_places [OF jlast.hyps(4)] inside_mem [OF _ j(3)] by blast
  from splice_inside [OF this, of ?h u "b @ ''}''"]
  have "jmembers seen (splice i l u (?h @ s @ b @ ''}'')) [(key, put q x v)] (under (JKey key) (moved (length ?h) L'))"
    using jval_jmembers_jelems.jlast [OF jlast.hyps(1-3) r(1) jlast.hyps(5)] j(1) by simp
  moreover have "keeps_places i (under (JKey key) (moved (length ?h) L)) (under (JKey key) (moved (length ?h) L'))"
    using keeps_under [OF keeps_moved [OF r(2)]] j(1) by blast
  ultimately show ?case using j(2) jlast.hyps(2) put_member [of key q x v "[]"] by blast
next
  case (jmore k key seen a s v L b c r d M)
  let ?h = "k @ a @ '':''" and ?b = "b @ CHR '','' # c"
  let ?t = "?h @ s @ ?b"
  let ?L = "under (JKey key) (moved (length ?h) L)"
  have L: "inside L (length s)" using jval_places [OF jmore.hyps(4)] by blast
  have M: "inside M (length r)" using jmembers_places [OF jmore.hyps(7)] by blast
  consider "(p, i, l) \<in> set ?L" | "(p, i, l) \<in> set (moved (length ?t) M)" using jmore.prems(1) by auto
  then show ?case
  proof cases
    case 1
    then obtain j q where j: "i = length ?h + j" "p = JKey key # q" "(q, j, l) \<in> set L" by (auto simp: place_iff)
    obtain L' where r': "jval (splice j l u s) (put q x v) L'" "keeps_places j L L'" using jmore.IH(1) [OF j(3) jmore.prems(2)] by blast
    have jl: "j + l \<le> length s" using inside_mem [OF L j(3)] by blast
    let ?L' = "under (JKey key) (moved (length ?h) L')" and ?M' = "moved (length (?h @ splice j l u s @ ?b)) M"
    have "jmembers seen (splice i l u (?h @ s @ ?b @ r)) ((key, put q x v) # d) (?L' @ ?M')"
      using splice_inside [OF jl, of ?h u "?b @ r"] j(1)
        jval_jmembers_jelems.jmore [OF jmore.hyps(1-3) r'(1) jmore.hyps(5-7)] by simp
    moreover have "keeps_places i (?L @ moved (length ?t) M) (?L' @ ?M')"
    proof (rule keeps_first)
      show "keeps_places i ?L ?L'" using keeps_under [OF keeps_moved [OF r'(2)]] j(1) by blast
      fix q' i' l' assume "(q', i', l') \<in> set (moved (length ?t) M)"
      then show "i < i' + l'" using inside_mem [OF M] inside_mem [OF L j(3)] j(1) by (fastforce simp: moved_iff)
    qed
    ultimately show ?thesis using put_member [of key q x v d] j(2) jmore.hyps(2) by blast
  next
    case 2
    then obtain j where j: "i = length ?t + j" "(p, j, l) \<in> set M" by (auto simp: moved_iff)
    obtain k' q d' M' where r': "p = JKey k' # q" "k' \<notin> insert key seen" "put p x (PDict d) = PDict d'"
        "jmembers (insert key seen) (splice j l u r) d' M'" "keeps_places j M M'"
      using jmore.IH(2) [OF j(2) jmore.prems(2)] by blast
    have jl: "j + l \<le> length r" using inside_mem [OF M j(2)] by blast
    have "jmembers seen (splice i l u (?h @ s @ ?b @ r)) ((key, v) # d') (?L @ moved (length ?t) M')"
      using splice_last [OF jl, of ?t u] j(1)
        jval_jmembers_jelems.jmore [OF jmore.hyps(1-6) r'(4)] by simp
    moreover have "keeps_places i (?L @ moved (length ?t) M) (?L @ moved (length ?t) M')"
      using keeps_second [OF keeps_moved [OF r'(5)]] j(1) by blast
    ultimately show ?thesis using put_other_member [of k' key q x d d' v] r'(1-3) by blast
  qed
next
  case (jlast_elem s v L b n)
  obtain q where j: "p = JIdx n # q" "(q, i, l) \<in> set L" using jlast_elem.prems(1) by (auto simp: place_iff)
  obtain L' where r: "jval (splice i l u s) (put q x v) L'" "keeps_places i L L'"
    using jlast_elem.IH [OF j(2) jlast_elem.prems(2)] by blast
  have jl: "i + l \<le> length s" using jval_places [OF jlast_elem.hyps(1)] inside_mem [OF _ j(2)] by blast
  have "jelems n (splice i l u (s @ b @ '']'')) [put q x v] (under (JIdx n) L')"
    using splice_inside [OF jl, of "[]" u "b @ '']''"]
      jval_jmembers_jelems.jlast_elem [OF r(1) tight_splice [OF jlast_elem.hyps(2) scalar_token_tight [OF jlast_elem.prems(2)] jl]
        jlast_elem.hyps(3)] by simp
  then show ?case using keeps_under [OF r(2)] j(1)
    by (intro exI [of _ 0] exI [of _ q] exI [of _ "[put q x v]"] exI [of _ "under (JIdx n) L'"]) simp
next
  case (jmore_elem s v L b c n r xs M)
  let ?b = "b @ CHR '','' # c"
  let ?t = "s @ ?b"
  have L: "inside L (length s)" using jval_places [OF jmore_elem.hyps(1)] by blast
  have M: "inside M (length r)" using jelems_places [OF jmore_elem.hyps(5)] by blast
  consider "(p, i, l) \<in> set (under (JIdx n) L)" | "(p, i, l) \<in> set (moved (length ?t) M)" using jmore_elem.prems(1) by auto
  then show ?case
  proof cases
    case 1
    then obtain q where j: "p = JIdx n # q" "(q, i, l) \<in> set L" by (auto simp: place_iff)
    obtain L' where r': "jval (splice i l u s) (put q x v) L'" "keeps_places i L L'" using jmore_elem.IH(1) [OF j(2) jmore_elem.prems(2)] by blast
    have jl: "i + l \<le> length s" using inside_mem [OF L j(2)] by blast
    let ?M' = "moved (length (splice i l u s @ ?b)) M"
    have "jelems n (splice i l u (s @ ?b @ r)) (put q x v # xs) (under (JIdx n) L' @ ?M')"
      using splice_inside [OF jl, of "[]" u "?b @ r"]
        jval_jmembers_jelems.jmore_elem [OF r'(1)
          tight_splice [OF jmore_elem.hyps(2) scalar_token_tight [OF jmore_elem.prems(2)] jl] jmore_elem.hyps(3-5)] by simp
    moreover have "keeps_places i (under (JIdx n) L @ moved (length ?t) M) (under (JIdx n) L' @ ?M')"
    proof (rule keeps_first [OF keeps_under [OF r'(2)]])
      fix q' i' l' assume "(q', i', l') \<in> set (moved (length ?t) M)"
      then show "i < i' + l'" using inside_mem [OF M] inside_mem [OF L j(2)] by (fastforce simp: moved_iff)
    qed
    ultimately show ?thesis using put_element [of q x v xs] j(1)
      by (intro exI [of _ 0] exI [of _ q] exI [of _ "put q x v # xs"] exI [of _ "under (JIdx n) L' @ ?M'"]) simp
  next
    case 2
    then obtain j where j: "i = length ?t + j" "(p, j, l) \<in> set M" by (auto simp: moved_iff)
    obtain m q xs' M' where r': "p = JIdx (Suc n + m) # q" "m < length xs" "put (JIdx m # q) x (PList xs) = PList xs'"
        "jelems (Suc n) (splice j l u r) xs' M'" "keeps_places j M M'"
      using jmore_elem.IH(2) [OF j(2) jmore_elem.prems(2)] by blast
    have jl: "j + l \<le> length r" using inside_mem [OF M j(2)] by blast
    have "jelems n (splice i l u (s @ ?b @ r)) (v # xs') (under (JIdx n) L @ moved (length ?t) M')"
      using splice_last [OF jl, of ?t u] j(1)
        jval_jmembers_jelems.jmore_elem [OF jmore_elem.hyps(1-4) r'(4)] by simp
    moreover have "keeps_places i (under (JIdx n) L @ moved (length ?t) M) (under (JIdx n) L @ moved (length ?t) M')"
      using keeps_second [OF keeps_moved [OF r'(5)]] j(1) by blast
    ultimately show ?thesis using put_other_element [OF r'(2, 3), of v] r'(1, 2)
      by (intro exI [of _ "Suc m"] exI [of _ q] exI [of _ "v # xs'"]
          exI [of _ "under (JIdx n) L @ moved (length ?t) M'"]) simp
  qed
qed auto

lemma take_inside: "i + l \<le> length s \<Longrightarrow> take l (drop (length p + i) (p @ s @ r)) = take l (drop i s)"
  by simp

lemma take_inside0: "i + l \<le> length s \<Longrightarrow> take l (drop i (s @ r)) = take l (drop i s)"
  by simp

lemma jval_token: "jval s v L \<Longrightarrow> (p, i, l) \<in> set L \<Longrightarrow> \<exists>x. scalar_token (take l (drop i s)) x"
  and jmembers_token: "jmembers seen s d L \<Longrightarrow> (p, i, l) \<in> set L \<Longrightarrow> \<exists>x. scalar_token (take l (drop i s)) x"
  and jelems_token: "jelems n s xs L \<Longrightarrow> (p, i, l) \<in> set L \<Longrightarrow> \<exists>x. scalar_token (take l (drop i s)) x"
proof (induction arbitrary: p i l and p i l and p i l rule: jval_jmembers_jelems.inducts)
  case (jlast k key seen a s v L b)
  then obtain q j where j: "(q, j, l) \<in> set L" "i = length (k @ a @ '':'') + j" by (auto simp: place_iff)
  have "j + l \<le> length s" using jval_places [OF jlast.hyps(4)] inside_mem [OF _ j(1)] by blast
  note t = take_inside [OF this, of "k @ a @ '':''" "b @ ''}''"]
  show ?case unfolding j(2) t by (rule jlast.IH [OF j(1)])
next
  case (jmore k key seen a s v L b c r d M)
  let ?h = "k @ a @ '':''" and ?b = "b @ CHR '','' # c"
  consider q j where "(q, j, l) \<in> set L" "i = length ?h + j" | j where "(p, j, l) \<in> set M" "i = length (?h @ s @ ?b) + j"
    using jmore.prems by (auto simp: place_iff)
  then show ?case
  proof cases
    case 1
    have "j + l \<le> length s" using jval_places [OF jmore.hyps(4)] inside_mem [OF _ 1(1)] by blast
    note t = take_inside [OF this, of ?h "?b @ r"]
    show ?thesis unfolding 1(2) t by (rule jmore.IH(1) [OF 1(1)])
  next
    case 2
    then show ?thesis using jmore.IH(2) [OF 2(1)] by simp
  qed
next
  case (jlast_elem s v L b n)
  then obtain q where j: "(q, i, l) \<in> set L" by (auto simp: place_iff)
  have "i + l \<le> length s" using jval_places [OF jlast_elem.hyps(1)] inside_mem [OF _ j] by blast
  note t = take_inside0 [OF this, of "b @ '']''"]
  show ?case unfolding t by (rule jlast_elem.IH [OF j])
next
  case (jmore_elem s v L b c n r xs M)
  let ?b = "b @ CHR '','' # c"
  consider q where "(q, i, l) \<in> set L" | j where "(p, j, l) \<in> set M" "i = length (s @ ?b) + j"
    using jmore_elem.prems by (auto simp: place_iff)
  then show ?case
  proof cases
    case 1
    have "i + l \<le> length s" using jval_places [OF jmore_elem.hyps(1)] inside_mem [OF _ 1] by blast
    note t = take_inside0 [OF this, of "?b @ r"]
    show ?thesis unfolding t by (rule jmore_elem.IH(1) [OF 1])
  next
    case 2
    then show ?thesis using jmore_elem.IH(2) [OF 2(1)] by simp
  qed
qed (auto simp: moved_iff)

subsection \<open>Validity of the edited text\<close>

lemma utf8_valid_append: "utf8_valid a \<Longrightarrow> utf8_valid b \<Longrightarrow> utf8_valid (a @ b)"
proof (induction a rule: utf8_valid.induct)
  case (2 c cs)
  obtain n where n: "lead_length c = Some n" using "2.prems" by (auto split: option.splits)
  then have f: "follows n cs" "n > 0 \<longrightarrow> second_ok c cs" "utf8_valid (drop n cs)" using "2.prems" by auto
  have "follows n (cs @ b)" using f(1) by (auto simp: follows_def)
  moreover have "n > 0 \<longrightarrow> second_ok c (cs @ b)" using f(1, 2) by (cases cs) (auto simp: follows_def second_ok_def)
  moreover have "utf8_valid (drop n (cs @ b))" using "2.IH" [OF n f(3)] "2.prems" f(1) by (simp add: follows_def)
  ultimately show ?case using n by simp
qed simp

lemma utf8_valid_split: "utf8_valid (a @ c # b) \<Longrightarrow> code c < 128 \<Longrightarrow> utf8_valid a \<and> utf8_valid b"
proof (induction a rule: utf8_valid.induct)
  case 1
  then show ?case by (simp add: lead_length_def)
next
  case (2 d cs)
  obtain n where n: "lead_length d = Some n" using "2.prems" by (auto split: option.splits)
  then have f: "follows n (cs @ c # b)" "n > 0 \<longrightarrow> second_ok d (cs @ c # b)" "utf8_valid (drop n (cs @ c # b))"
    using "2.prems" by auto
  have l: "n \<le> length cs"
  proof (rule ccontr)
    assume "\<not> n \<le> length cs"
    then have "c \<in> set (take n (cs @ c # b))" by (cases "n - length cs") auto
    then have "128 \<le> code c" using f(1) unfolding follows_def list_all_iff by blast
    then show False using "2.prems"(2) by simp
  qed
  have "follows n cs" using f(1) l by (auto simp: follows_def)
  moreover have "n > 0 \<longrightarrow> second_ok d cs" using f(2) l by (cases cs) (auto simp: second_ok_def)
  ultimately show ?case using "2.IH" [OF n] f(3) l "2.prems"(2) n by simp
qed

lemma utf8_valid_ascii: "list_all (\<lambda>c. code c < 128) s \<Longrightarrow> utf8_valid s"
  by (induction s) (auto simp: lead_length_def follows_def)

lemma escape_codes:
  "code (CHR 0x22) = 34" "code (CHR 0x5C) = 92" "code (CHR 0x0A) = 10" "code (CHR 0x0D) = 13" "code (CHR 0x09) = 9"
  "code (CHR 0x0C) = 12" "code (CHR 0x08) = 8" "code (CHR ''n'') = 110" "code (CHR ''r'') = 114" "code (CHR ''t'') = 116"
  "code (CHR ''f'') = 102" "code (CHR ''b'') = 98" "code (CHR ''u'') = 117" "code (CHR ''0'') = 48"
  by (simp_all add: code_def)

lemma escape_char_ascii: "code c < 128 \<Longrightarrow> list_all (\<lambda>c. code c < 128) (escape_char c)"
proof -
  assume c: "code c < 128"
  have "code (hex_digit n) < 128" if "0 \<le> n" "n < 16" for n
  proof -
    have "list_all (\<lambda>n. code (hex_digit n) < 128) [0..15]" by code_simp
    then show ?thesis using that by (simp add: list_all_iff)
  qed
  moreover have "0 \<le> code c" unfolding code_def by (metis of_nat_of_char of_nat_0_le_iff)
  ultimately show ?thesis using c by (simp add: escape_char_def escape_codes)
qed

lemma escape_char_high:
  assumes "128 \<le> code c"
  shows "escape_char c = [c]"
proof -
  have ne: "c \<noteq> d" if "code d < 128" for d using that assms by fastforce
  have "c \<noteq> CHR 0x22" "c \<noteq> CHR 0x5C" "c \<noteq> CHR 0x0A" "c \<noteq> CHR 0x0D" "c \<noteq> CHR 0x09" "c \<noteq> CHR 0x0C" "c \<noteq> CHR 0x08"
    by (rule ne, simp add: escape_codes)+
  moreover have "\<not> code c < 32" using assms by linarith
  ultimately show ?thesis unfolding escape_char_def by (simp only: if_False)
qed

lemma utf8_valid_escaped: "utf8_valid s \<Longrightarrow> utf8_valid (concat (map escape_char s))"
proof (induction s rule: utf8_valid.induct)
  case (2 c cs)
  obtain n where n: "lead_length c = Some n" using "2.prems" by (auto split: option.splits)
  then have f: "follows n cs" "n > 0 \<longrightarrow> second_ok c cs" "utf8_valid (drop n cs)" using "2.prems" by auto
  have IH: "utf8_valid (concat (map escape_char (drop n cs)))" using "2.IH" [OF n f(3)] .
  show ?case
  proof (cases "n = 0")
    case True
    then have "code c < 128" using n by (auto simp: lead_length_def split: if_splits)
    then show ?thesis using utf8_valid_append [OF utf8_valid_ascii [OF escape_char_ascii]] IH True by simp
  next
    case False
    then have c: "escape_char c = [c]" using n by (intro escape_char_high) (auto simp: lead_length_def split: if_splits)
    have "concat (map escape_char xs) = xs" if "list_all (\<lambda>c. 128 \<le> code c \<and> code c < 192) xs" for xs
      using that by (induction xs) (auto simp: escape_char_high)
    then have t: "concat (map escape_char (take n cs)) = take n cs" using f(1) by (simp add: follows_def)
    have "second_ok c (take n cs)" using f(2) False by (cases cs; cases n) (simp_all add: second_ok_def)
    then have "utf8_valid (c # take n cs)" using n f(1) by (simp add: follows_def)
    then have "utf8_valid ((c # take n cs) @ concat (map escape_char (drop n cs)))" by (rule utf8_valid_append [OF _ IH])
    moreover have "concat (map escape_char (c # cs)) = (c # take n cs) @ concat (map escape_char (drop n cs))"
      using c t by simp (metis append_take_drop_id concat_append map_append)
    ultimately show ?thesis by simp
  qed
qed simp

definition plain_value :: "pyval \<Rightarrow> bool" where
  "plain_value v = (case v of PStr s \<Rightarrow> utf8_valid s | PInt _ \<Rightarrow> True | _ \<Rightarrow> False)"

lemma show_int_ascii: "list_all (\<lambda>c. code c < 128) (show_int n)"
proof -
  have "list_all (\<lambda>c. code c < 128) (show_digits m)" if "0 \<le> m" for m
    using show_digits_spec [OF that] by (auto simp: list_all_iff is_digit_def)
  then show ?thesis by (simp add: show_int_def code_def)
qed

lemma dumps_valid: "plain_value v \<Longrightarrow> utf8_valid (dumps_scalar v)"
proof (cases v)
  case (PStr s)
  assume "plain_value v"
  then have "utf8_valid s" by (simp add: plain_value_def PStr)
  then have "utf8_valid ([CHR 0x22] @ concat (map escape_char s) @ [CHR 0x22])"
    by (intro utf8_valid_append utf8_valid_escaped) (simp_all add: lead_length_def follows_def escape_codes)
  then show ?thesis by (simp add: dumps_scalar_def PStr)
qed (simp_all add: dumps_scalar_def plain_value_def utf8_valid_ascii show_int_ascii)

lemma dumps_token: "plain_value v \<Longrightarrow> scalar_token (dumps_scalar v) v"
  by (cases v) (simp_all add: plain_value_def dumps_str_token dumps_int_token)

end
