(* ===== verification/Version_Edit.thy ===== *)
theory Version_Edit
  imports Json_Text
begin

text \<open>
  The file editors of \<^verbatim>\<open>scripts/version_plan.py\<close> and \<^verbatim>\<open>sync_versions\<close>, which sets every declared version
  field. A file is its UTF-8 bytes.
\<close>

section \<open>Editing a JSON manifest\<close>

text \<open>\<^verbatim>\<open>_get\<close> along text keys: a list or a scalar on the way has no such field.\<close>

fun get_path :: "pyval \<Rightarrow> string list \<Rightarrow> pyval res" where
  "get_path v [] = Inr v"
| "get_path (PDict d) (k # ks) = (case map_of d k of None \<Rightarrow> Inl ValueError | Some v \<Rightarrow> get_path v ks)"
| "get_path v (k # ks) = Inl ValueError"

text \<open>\<^verbatim>\<open>_scalar\<close>: a text field takes the text of the projection, a number only a number.\<close>

definition scalar_for :: "pyval \<Rightarrow> pyval \<Rightarrow> pyval res" where
  "scalar_for v old =
     (case old of
        PStr _ \<Rightarrow> Inr (PStr (py_str v))
      | PInt _ \<Rightarrow> (case v of PInt n \<Rightarrow> Inr (PInt n) | _ \<Rightarrow> Inl ValueError)
      | _ \<Rightarrow> Inl ValueError)"

definition npm_fields :: "pydict \<Rightarrow> pyval \<Rightarrow> string list list res" where
  "npm_fields declaration data =
     (case data of
        PDict d \<Rightarrow>
          rbind (guard (dget d ''name'' = dget declaration ''package'')) (\<lambda>_.
          if haskey d ''packages''
          then rbind (get_path data [''packages'', []]) (\<lambda>own.
               case own of
                 PDict o' \<Rightarrow>
                   rbind (guard (dget_or o' ''name'' (dget d ''name'') = dget declaration ''package'')) (\<lambda>_.
                   Inr [[''version''], [''packages'', [], ''version'']])
               | _ \<Rightarrow> Inl ValueError)
          else Inr [[''version'']])
      | _ \<Rightarrow> Inl ValueError)"

definition json_fields :: "pydict \<Rightarrow> pyval \<Rightarrow> string list list res" where
  "json_fields declaration data =
     (if dget declaration ''format'' = PStr ''npm-lock'' then npm_fields declaration data
      else rbind (field_path (dget declaration ''field'')) (\<lambda>f.
           rbind (guard (haskey declaration ''package'' \<longrightarrow>
               (case data of PDict d \<Rightarrow> dget d ''name'' = dget declaration ''package'' | _ \<Rightarrow> False))) (\<lambda>_. Inr [f])))"

type_synonym edit = "nat \<times> nat \<times> string"

text \<open>The edits in field order and the previous values.\<close>

fun json_edits :: "pyval \<Rightarrow> spans \<Rightarrow> pyval \<Rightarrow> string list list \<Rightarrow> (edit list \<times> pyval list) res" where
  "json_edits data sp v [] = Inr ([], [])"
| "json_edits data sp v (f # fs) =
     rbind (get_path data f) (\<lambda>old.
     case map_of sp (map JKey f) of
       None \<Rightarrow> Inl ValueError
     | Some (s, e) \<Rightarrow>
         rbind (scalar_for v old) (\<lambda>new.
         rbind (json_edits data sp v fs) (\<lambda>(es, olds).
           Inr ((if old = new then es else (s, e, dumps_scalar new) # es), old # olds))))"

text \<open>The later edits first, so that the earlier offsets stay true.\<close>

fun apply_edits :: "string \<Rightarrow> edit list \<Rightarrow> string" where
  "apply_edits t [] = t"
| "apply_edits t ((s, e, w) # es) = apply_edits (take s t @ w @ drop e t) es"

definition json_edit :: "string \<Rightarrow> pydict \<Rightarrow> pyval \<Rightarrow> (string \<times> pyval list) res" where
  "json_edit raw declaration v =
     rbind (json_document raw) (\<lambda>(t, data, sp).
     rbind (json_fields declaration data) (\<lambda>owned.
     rbind (json_edits data sp v owned) (\<lambda>(es, olds).
       Inr (apply_edits t (rev (sort_key (\<lambda>(s, _, _). s) es)), olds))))"

subsection \<open>Paths\<close>

fun apart :: "jpath \<Rightarrow> jpath \<Rightarrow> bool" where
  "apart (a # p) (b # q) = (a \<noteq> b \<or> apart p q)"
| "apart _ _ = False"

lemma dset_commute: "k \<noteq> k' \<Longrightarrow> k \<in> fst ` set d \<Longrightarrow> k' \<in> fst ` set d \<Longrightarrow> dset k v (dset k' w d) = dset k' w (dset k v d)"
  unfolding dset_def
proof (induction d)
  case (Cons x d)
  have n: "AList.update k v (AList.update k' w d) = AList.update k' w (AList.update k v d)"
    if "k \<in> fst ` set d" "k' \<in> fst ` set d" using Cons.IH Cons.prems(1) that by blast
  from Cons.prems n show ?case by (cases x) auto
qed simp

lemma map_of_dset: "map_of (dset k v d) k' = (if k' = k then Some v else map_of d k')"
  by (simp add: dset_def update_conv')

lemma dset_twice: "dset k v (dset k w d) = dset k v d"
  by (simp add: dset_def)

lemma put_commute: "apart p q \<Longrightarrow> put p x (put q y v) = put q y (put p x v)"
proof (induction p q arbitrary: v rule: apart.induct)
  case (1 a p b q)
  show ?case
  proof (cases "a = b")
    case True
    then have IH: "put p x (put q y w) = put q y (put p x w)" for w using 1 by simp
    show ?thesis using True IH
      by (cases a; cases v) (auto simp: map_of_dset dset_twice split: option.splits)
  next
    case False
    note f = False
    show ?thesis
    proof (cases v)
      case (PDict d)
      show ?thesis
      proof (cases a; cases b)
        fix k k' assume k: "a = JKey k" "b = JKey k'"
        show ?thesis using f k PDict dset_commute [of k k' d]
          by (auto simp: map_of_dset image_iff split: option.splits)
            (metis (no_types, lifting) dset_commute fst_conv image_eqI map_of_SomeD)
      qed (use PDict in \<open>auto split: option.splits\<close>)
    next
      case (PList xs)
      then show ?thesis using f by (cases a; cases b) (auto simp: list_update_swap)
    qed (cases a; cases b; simp)+
  qed
qed auto

lemma put_same: "get_path d f = Inr v \<Longrightarrow> put (map JKey f) v d = d"
  by (induction d f rule: get_path.induct) (auto simp: dset_def update_triv split: option.splits)

lemma get_put: "get_path d f = Inr v \<Longrightarrow> get_path (put (map JKey f) x d) f = Inr x"
  by (induction d f rule: get_path.induct) (auto simp: map_of_dset split: option.splits)

lemma get_put_apart: "apart (map JKey f) (map JKey g) \<Longrightarrow> get_path (put (map JKey g) x d) f = get_path d f"
proof (induction f arbitrary: g d)
  case (Cons k f)
  then obtain k' g' where g: "g = k' # g'" by (cases g) auto
  show ?case using Cons g by (cases d) (auto simp: map_of_dset split: option.splits)
qed simp

section \<open>What an edit changes\<close>

lemma edit_reads:
  assumes s: "jval s data L" and w: "blank w" and u: "utf8_valid (s @ w)" and p: "(q, i, l) \<in> set L" and x: "plain_value x"
  shows "\<exists>s' L'. splice i l (dumps_scalar x) (s @ w) = s' @ w \<and> jval s' (put q x data) L' \<and> utf8_valid (s' @ w) \<and> keeps_places i L L'"
proof -
  let ?d = "dumps_scalar x"
  have in_s: "i + l \<le> length s" "0 < l" using jval_places [OF s] inside_mem [OF _ p] by auto
  obtain L' where L': "jval (splice i l ?d s) (put q x data) L'" "keeps_places i L L'"
    using jval_replace [OF s p dumps_token [OF x]] by blast
  have e: "splice i l ?d (s @ w) = splice i l ?d s @ w" using splice_inside [OF in_s(1), of "[]" ?d w] by simp
  obtain y where tok: "scalar_token (take l (drop i s)) y" using jval_token [OF s p] by blast
  define k where "k = take l (drop i s)"
  have k: "k \<noteq> []" "code (hd k) < 128" "code (last k) < 128"
    using tok in_s by (auto simp: k_def scalar_token_def ascii_def)
  have split: "s @ w = take i s @ k @ drop (i + l) s @ w"
    using in_s by (simp add: k_def) (metis add.commute append.assoc append_take_drop_id drop_drop)
  have whole: "utf8_valid (take i s @ k @ drop (i + l) s @ w)" using u split by (simp only:)
  obtain c k' where k': "k = c # k'" using k(1) by (cases k) auto
  have a: "utf8_valid (take i s)"
    using utf8_valid_split [of "take i s" c "k' @ drop (i + l) s @ w"] whole k(2) k' by simp
  obtain k'' c' where k'': "k = k'' @ [c']" using k(1) by (cases k rule: rev_cases) auto
  have "utf8_valid (drop (i + l) s @ w)"
    using utf8_valid_split [of "take i s @ k''" c' "drop (i + l) s @ w"] whole k(3) k'' by simp
  then have "utf8_valid (take i s @ ?d @ drop (i + l) s @ w)" using a dumps_valid [OF x] by (simp add: utf8_valid_append)
  then show ?thesis using e L' by (auto simp: splice_def)
qed

definition new_scalar :: "pyval \<Rightarrow> pyval \<Rightarrow> pyval" where
  "new_scalar v old = (case scalar_for v old of Inr x \<Rightarrow> x | Inl _ \<Rightarrow> old)"

text \<open>The document with every owned field set to the projection.\<close>

fun put_fields :: "pyval \<Rightarrow> pyval \<Rightarrow> string list list \<Rightarrow> pyval" where
  "put_fields v data [] = data"
| "put_fields v data (f # fs) =
     (case get_path data f of
        Inr old \<Rightarrow> put (map JKey f) (new_scalar v old) (put_fields v data fs)
      | Inl _ \<Rightarrow> put_fields v data fs)"

lemma scalar_for_plain: "scalar_for v old = Inr x \<Longrightarrow> plain_value v \<Longrightarrow> plain_value x"
  by (cases old; cases v) (auto simp: scalar_for_def plain_value_def utf8_valid_ascii show_int_ascii)

lemma scalar_for_again: "scalar_for v old = Inr x \<Longrightarrow> scalar_for v x = Inr x"
  by (cases old; cases v) (auto simp: scalar_for_def)

lemma npm_fields_shape:
  assumes "npm_fields declaration data = Inr owned"
  shows "\<exists>d. data = PDict d \<and>
    owned = (if haskey d ''packages'' then [[''version''], [''packages'', [], ''version'']] else [[''version'']])"
proof -
  obtain d where d: "data = PDict d" using assms by (cases data) (auto simp: npm_fields_def)
  show ?thesis
  proof (cases "haskey d ''packages''")
    case True
    then obtain own where own: "get_path data [''packages'', []] = Inr own"
      using assms d by (auto simp: npm_fields_def rbind_Inr_iff)
    then show ?thesis using assms d True by (cases own) (auto simp: npm_fields_def rbind_Inr_iff)
  qed (use assms d in \<open>auto simp: npm_fields_def rbind_Inr_iff\<close>)
qed

lemma json_fields_shape:
  "json_fields declaration data = Inr owned \<Longrightarrow> (\<exists>f. owned = [f]) \<or> owned = [[''version''], [''packages'', [], ''version'']]"
  by (auto simp: json_fields_def rbind_Inr_iff split: if_splits dest: npm_fields_shape)

lemma json_edits_Cons:
  assumes "json_edits data sp v (f # fs) = Inr (es, olds)" "set sp \<subseteq> set (placed [] 0 L)" "plain_value v"
  obtains old new i l es' olds' where "get_path data f = Inr old" "(map JKey f, i, l) \<in> set L" "scalar_for v old = Inr new"
    "plain_value new" "new_scalar v old = new" "json_edits data sp v fs = Inr (es', olds')"
    "es = (if old = new then es' else (i, i + l, dumps_scalar new) # es')"
proof -
  obtain old a e new es' olds' where h: "get_path data f = Inr old" "map_of sp (map JKey f) = Some (a, e)"
      "scalar_for v old = Inr new" "json_edits data sp v fs = Inr (es', olds')"
      "es = (if old = new then es' else (a, e, dumps_scalar new) # es')"
    using assms(1) by (auto simp: rbind_Inr_iff split: option.splits)
  have "(map JKey f, a, e) \<in> set (placed [] 0 L)" using map_of_SomeD [OF h(2)] assms(2) by blast
  then obtain l where "(map JKey f, a, l) \<in> set L" "e = a + l" by (auto simp: placed_def)
  then show ?thesis using that h scalar_for_plain [OF h(3) assms(3)] by (auto simp: new_scalar_def)
qed

lemma json_edits_one:
  assumes "json_edits data sp v [f] = Inr (es, olds)" "set sp \<subseteq> set (placed [] 0 L)" "plain_value v"
  obtains old new i l where "get_path data f = Inr old" "(map JKey f, i, l) \<in> set L" "plain_value new"
    "new_scalar v old = new" "es = (if old = new then [] else [(i, i + l, dumps_scalar new)])"
  using assms by (elim json_edits_Cons) auto

lemma ordered_apart:
  assumes "sorted_wrt before L" "(p, i, l) \<in> set L" "(q, j, m) \<in> set L" "p \<noteq> q"
  shows "i + l \<le> j \<or> j + m \<le> i"
proof -
  obtain a b where a: "a < length L" "L ! a = (p, i, l)" and b: "b < length L" "L ! b = (q, j, m)"
    using assms by (metis in_set_conv_nth)
  then have "a < b \<or> b < a" using assms(4) by (metis nat_neq_iff prod.inject)
  then show ?thesis using a b sorted_wrt_nth_less [OF assms(1), of a b] sorted_wrt_nth_less [OF assms(1), of b a]
    by (auto simp: before_def)
qed

lemma two_edits:
  assumes s: "jval s data L" and w: "blank w" and u: "utf8_valid (s @ w)"
    and p: "(p, i, l) \<in> set L" and q: "(q, j, m) \<in> set L" and o': "j + m \<le> i" and x: "plain_value x" and y: "plain_value y"
  shows "\<exists>s' L'. apply_edits (s @ w) [(i, i + l, dumps_scalar x), (j, j + m, dumps_scalar y)] = s' @ w \<and>
    jval s' (put q y (put p x data)) L' \<and> utf8_valid (s' @ w)"
proof -
  obtain s1 L1 where a: "splice i l (dumps_scalar x) (s @ w) = s1 @ w" "jval s1 (put p x data) L1" "utf8_valid (s1 @ w)"
      "keeps_places i L L1" using edit_reads [OF s w u p x] by blast
  have "(q, j, m) \<in> set L1" using a(4) q o' by (auto simp: keeps_places_def)
  from edit_reads [OF a(2) w a(3) this y] show ?thesis using a(1) by (auto simp: splice_def)
qed

lemma json_edits_read:
  assumes s: "jval s data L" and w: "blank w" and u: "utf8_valid (s @ w)" and sp: "set sp \<subseteq> set (placed [] 0 L)"
    and v: "plain_value v" and es: "json_edits data sp v owned = Inr (es, olds)"
    and owned: "(\<exists>f. owned = [f]) \<or> owned = [[''version''], [''packages'', [], ''version'']]"
  shows "\<exists>s' L'. apply_edits (s @ w) (rev (sort_key (\<lambda>(s, _, _). s) es)) = s' @ w \<and>
    jval s' (put_fields v data owned) L' \<and> utf8_valid (s' @ w)"
  using owned
proof (elim disjE exE)
  fix f assume f: "owned = [f]"
  obtain old new i l where e: "get_path data f = Inr old" "(map JKey f, i, l) \<in> set L" "plain_value new"
      "new_scalar v old = new" "es = (if old = new then [] else [(i, i + l, dumps_scalar new)])"
    by (rule json_edits_one [OF es [unfolded f] sp v]) (rule that, assumption+)
  show ?thesis
  proof (cases "old = new")
    case True
    then show ?thesis using e s u put_same [OF e(1)] f by auto
  next
    case False
    then show ?thesis using e edit_reads [OF s w u e(2, 3)] f by (auto simp: splice_def)
  qed
next
  let ?f = "[''version'']" and ?g = "[''packages'', [], ''version'']"
  assume f: "owned = [?f, ?g]"
  obtain old new i l es' olds' where e: "get_path data ?f = Inr old" "(map JKey ?f, i, l) \<in> set L" "plain_value new"
      "new_scalar v old = new" "es = (if old = new then es' else (i, i + l, dumps_scalar new) # es')"
      "json_edits data sp v [?g] = Inr (es', olds')"
    by (rule json_edits_Cons [OF es [unfolded f] sp v]) (rule that, assumption+)
  obtain old' new' j m where g: "get_path data ?g = Inr old'" "(map JKey ?g, j, m) \<in> set L" "plain_value new'"
      "new_scalar v old' = new'" "es' = (if old' = new' then [] else [(j, j + m, dumps_scalar new')])"
    by (rule json_edits_one [OF e(6) sp v]) (rule that, assumption+)
  let ?p = "map JKey ?f" and ?q = "map JKey ?g"
  have d: "put_fields v data owned = put ?p new (put ?q new' data)" using f e(1, 4) g(1, 4) by simp
  have c: "put ?p new (put ?q new' data) = put ?q new' (put ?p new data)" by (rule put_commute) simp
  have o': "i + l \<le> j \<or> j + m \<le> i"
    by (rule ordered_apart [OF _ e(2) g(2)]) (use jval_places [OF s] in auto)
  consider "old = new" "old' = new'" | "old = new" "old' \<noteq> new'" | "old \<noteq> new" "old' = new'" | "old \<noteq> new" "old' \<noteq> new'" by blast
  then show ?thesis
  proof cases
    case 1
    then have "put_fields v data owned = data" using d put_same [OF e(1)] put_same [OF g(1)] by simp
    then show ?thesis using 1 e(5) g(5) s u by auto
  next
    case 2
    then have "put_fields v data owned = put ?q new' data" using d c put_same [OF e(1)] by simp
    then show ?thesis using 2 e(5) g(5) edit_reads [OF s w u g(2, 3)] by (auto simp: splice_def)
  next
    case 3
    then have "put_fields v data owned = put ?p new data" using d put_same [OF g(1)] by simp
    then show ?thesis using 3 e(5) g(5) edit_reads [OF s w u e(2, 3)] by (auto simp: splice_def)
  next
    case 4
    then have es2: "es = [(i, i + l, dumps_scalar new), (j, j + m, dumps_scalar new')]" using e(5) g(5) by simp
    have pos: "0 < l" "0 < m" using jval_places [OF s] inside_mem [OF _ e(2)] inside_mem [OF _ g(2)] by auto
    show ?thesis
    proof (cases "i \<le> j")
      case True
      then have "i + l \<le> j" using o' pos by linarith
      have "rev (sort_key (\<lambda>(s, _, _). s) es) = [(j, j + m, dumps_scalar new'), (i, i + l, dumps_scalar new)]"
        using es2 True by simp
      from two_edits [OF s w u g(2) e(2) \<open>i + l \<le> j\<close> g(3) e(3), folded this d] show ?thesis .
    next
      case False
      then have "j + m \<le> i" using o' pos by linarith
      have "rev (sort_key (\<lambda>(s, _, _). s) es) = [(i, i + l, dumps_scalar new), (j, j + m, dumps_scalar new')]"
        using es2 False by simp
      from two_edits [OF s w u e(2) g(2) \<open>j + m \<le> i\<close> e(3) g(3), folded this] show ?thesis unfolding d c .
    qed
  qed
qed

lemma json_edits_same:
  "json_edits data sp v owned = Inr (es, olds) \<Longrightarrow>
    (\<And>f. f \<in> set owned \<Longrightarrow> \<exists>old new. get_path data f = Inr new \<and> scalar_for v old = Inr new) \<Longrightarrow> es = []"
proof (induction owned arbitrary: es olds)
  case (Cons f owned)
  obtain old new where f: "get_path data f = Inr new" "scalar_for v old = Inr new"
    using Cons.prems(2) [of f] by (auto simp del: json_edits.simps)
  then have "\<exists>es' olds'. json_edits data sp v owned = Inr (es', olds') \<and> es = es'"
    using Cons.prems(1) scalar_for_again [OF f(2)] by (auto simp: rbind_Inr_iff split: option.splits)
  then show ?case using Cons.IH Cons.prems(2) by (metis list.set_intros(2))
qed simp

lemma put_fields_read:
  assumes es: "json_edits data sp v owned = Inr (es, olds)" "set sp \<subseteq> set (placed [] 0 L)" "plain_value v"
    and owned: "(\<exists>f. owned = [f]) \<or> owned = [[''version''], [''packages'', [], ''version'']]" and f: "f \<in> set owned"
  shows "\<exists>old new. get_path (put_fields v data owned) f = Inr new \<and> scalar_for v old = Inr new"
  using owned
proof (elim disjE exE)
  fix g assume g: "owned = [g]"
  obtain old new where "get_path data g = Inr old" "scalar_for v old = Inr new" "new_scalar v old = new"
    by (rule json_edits_Cons [OF es(1) [unfolded g] es(2, 3)]) (rule that, assumption+)
  then show ?thesis using g f get_put [of data g old new] by auto
next
  let ?f = "[''version'']" and ?g = "[''packages'', [], ''version'']"
  assume o': "owned = [?f, ?g]"
  obtain old new es' olds' where e: "get_path data ?f = Inr old" "scalar_for v old = Inr new" "new_scalar v old = new"
      "json_edits data sp v [?g] = Inr (es', olds')"
    by (rule json_edits_Cons [OF es(1) [unfolded o'] es(2, 3)]) (rule that, assumption+)
  obtain old' new' where g: "get_path data ?g = Inr old'" "scalar_for v old' = Inr new'" "new_scalar v old' = new'"
    by (rule json_edits_Cons [OF e(4) es(2, 3)]) (rule that, assumption+)
  have d: "put_fields v data owned = put (map JKey ?f) new (put (map JKey ?g) new' data)"
    using o' e(1, 3) g(1, 3) by simp
  have 1: "get_path (put_fields v data owned) ?f = Inr new"
    unfolding d by (rule get_put [of _ _ old]) (use e(1) get_put_apart [of ?f ?g new' data] in simp)
  have 2: "get_path (put_fields v data owned) ?g = Inr new'"
    unfolding d using get_put_apart [of ?g ?f new] get_put [OF g(1), of new'] by simp
  show ?thesis using f o' 1 2 e(2) g(2) by auto
qed

lemma json_fields_again:
  assumes "json_fields declaration data = Inr owned" "json_fields declaration (put_fields v data owned) = Inr owned'"
  shows "set owned' \<subseteq> set owned"
proof (cases "dget declaration ''format'' = PStr ''npm-lock''")
  case False
  then show ?thesis using assms by (auto simp: json_fields_def rbind_Inr_iff)
next
  case npm: True
  then have n: "npm_fields declaration data = Inr owned" "npm_fields declaration (put_fields v data owned) = Inr owned'"
    using assms by (simp_all add: json_fields_def)
  show ?thesis
  proof (cases "owned = [[''version'']]")
    case True
    obtain d where d: "data = PDict d" "\<not> haskey d ''packages''"
      using npm_fields_shape [OF n(1)] True by (auto split: if_splits)
    obtain d' where d': "put_fields v data owned = PDict d'" "\<not> haskey d' ''packages''"
      using d True by (cases "map_of d ''version''") (auto simp: haskey_def map_of_dset split: option.splits)
    then have "owned' = [[''version'']]" using npm_fields_shape [OF n(2)] by auto
    then show ?thesis using True by simp
  next
    case False
    then show ?thesis using npm_fields_shape [OF n(1)] npm_fields_shape [OF n(2)] by (auto split: if_splits)
  qed
qed

text \<open>
  C24: A JSON manifest edit sets the owned version fields and nothing else. Reading the edited text gives the document
  that was there with exactly the declared fields replaced by the projection, whatever the layout, the escapes and
  the other members, in place of which no character moves; and an edit of the edited text, when accepted, leaves it
  as it is.
\<close>

theorem json_edit_sets_only_owned_fields:
  assumes "json_edit raw declaration v = Inr (raw', olds)" "plain_value v"
  shows "\<exists>data sp owned sp'. json_document raw = Inr (raw, data, sp) \<and> json_fields declaration data = Inr owned \<and>
    json_document raw' = Inr (raw', put_fields v data owned, sp') \<and>
    (\<forall>raw'' olds'. json_edit raw' declaration v = Inr (raw'', olds') \<longrightarrow> raw'' = raw')"
proof -
  obtain t data sp owned es where e: "json_document raw = Inr (t, data, sp)" "json_fields declaration data = Inr owned"
      "json_edits data sp v owned = Inr (es, olds)" "raw' = apply_edits t (rev (sort_key (\<lambda>(s, _, _). s) es))"
    using assms(1) by (auto simp: json_edit_def rbind_Inr_iff)
  obtain s w L where d: "t = raw" "utf8_valid raw" "raw = s @ w" "blank w" "jval s data L" "set sp \<subseteq> set (placed [] 0 L)"
    using json_document_iff [OF e(1)] by blast
  note shape = json_fields_shape [OF e(2)]
  obtain s' L' where a: "raw' = s' @ w" "jval s' (put_fields v data owned) L'" "utf8_valid (s' @ w)"
    using json_edits_read [OF d(5, 4) _ d(6) assms(2) e(3) shape] e(4) d(1-3) by auto
  obtain sp' where r: "json_document raw' = Inr (raw', put_fields v data owned, sp')"
    using jval_document [OF a(2) d(4) a(3)] a(1) by blast
  have "raw'' = raw'" if again: "json_edit raw' declaration v = Inr (raw'', olds')" for raw'' olds'
  proof -
    obtain owned' es' where o': "json_fields declaration (put_fields v data owned) = Inr owned'"
        "json_edits (put_fields v data owned) sp' v owned' = Inr (es', olds')"
        "raw'' = apply_edits raw' (rev (sort_key (\<lambda>(s, _, _). s) es'))"
      using again r by (auto simp: json_edit_def rbind_Inr_iff)
    have "es' = []"
      using json_edits_same [OF o'(2)] put_fields_read [OF e(3) d(6) assms(2) shape] json_fields_again [OF e(2) o'(1)] by blast
    then show ?thesis using o'(3) by simp
  qed
  then show ?thesis using e(1, 2) d(1) r by blast
qed

definition demo_manifest :: string where
  "demo_manifest = ''{ '' @ [CHR 0x22] @ ''name'' @ [CHR 0x22] @ '': '' @ [CHR 0x22] @ ''ev'' @ [CHR 0x22] @ '', '' @
     [CHR 0x22] @ ''version'' @ [CHR 0x22] @ '' : '' @ [CHR 0x22] @ ''1.2.3'' @ [CHR 0x22] @ '' }''"

definition demo_declaration :: pydict where
  "demo_declaration = [(''path'', PStr ''manifest.json''), (''format'', PStr ''json''), (''field'', PStr ''version''), (''package'', PStr ''ev'')]"

definition demo_edited :: string where
  "demo_edited = (case json_edit demo_manifest demo_declaration (PStr ''1.3.0'') of Inr (t, _) \<Rightarrow> t | Inl _ \<Rightarrow> [])"

lemma demo_edit: "json_edit demo_manifest demo_declaration (PStr ''1.3.0'') = Inr (demo_edited, [PStr ''1.2.3''])"
  by code_simp

lemma demo_edited_text: "demo_edited = ''{ '' @ [CHR 0x22] @ ''name'' @ [CHR 0x22] @ '': '' @ [CHR 0x22] @ ''ev'' @ [CHR 0x22] @ '', '' @
     [CHR 0x22] @ ''version'' @ [CHR 0x22] @ '' : '' @ [CHR 0x22] @ ''1.3.0'' @ [CHR 0x22] @ '' }''"
  by code_simp

theorem json_edit_sets_only_owned_fields_witness:
  "\<exists>data sp'. json_document demo_edited = Inr (demo_edited, put_fields (PStr ''1.3.0'') data [[''version'']], sp')"
proof -
  have "plain_value (PStr ''1.3.0'')" by code_simp
  from json_edit_sets_only_owned_fields [OF demo_edit this] obtain data sp owned sp' where
    "json_fields demo_declaration data = Inr owned"
    "json_document demo_edited = Inr (demo_edited, put_fields (PStr ''1.3.0'') data owned, sp')" by blast
  moreover from this(1) have "owned = [[''version'']]"
    by (auto simp: json_fields_def demo_declaration_def dget_def field_path_def rbind_Inr_iff split: if_splits)
  ultimately show ?thesis by blast
qed

end
