(* ===== verification/Version_Sync.thy ===== *)
theory Version_Sync
  imports Version_Edit "HOL-Library.List_Lexorder" "HOL-Library.Char_ord"
begin

text \<open>
  The remaining editors of \<^verbatim>\<open>scripts/version_plan.py\<close> and \<^verbatim>\<open>sync_versions\<close>, which sets every declared
  version field of a checkout. The parsers of TOML, Python and property lists are parameters; the line scanners
  around them are the source's. A file is its UTF-8 bytes.
\<close>

section \<open>Characters and lines of UTF-8 text\<close>

function utf8_chars :: "string \<Rightarrow> string list" where
  "utf8_chars s =
     (case s of [] \<Rightarrow> []
      | c # cs \<Rightarrow>
          let n = (case lead_length c of None \<Rightarrow> 0 | Some n \<Rightarrow> n)
          in (c # take n cs) # utf8_chars (drop n cs))"
  by pat_completeness auto
termination
  by (relation "measure length") auto

declare utf8_chars.simps [simp del]

definition space_char :: "string \<Rightarrow> bool" where
  "space_char u =
     (case u of
        [c] \<Rightarrow> is_space c
      | _ \<Rightarrow> u \<in> {[CHR 0xC2, CHR 0x85], [CHR 0xC2, CHR 0xA0], [CHR 0xE1, CHR 0x9A, CHR 0x80],
                [CHR 0xE2, CHR 0x80, CHR 0xA8], [CHR 0xE2, CHR 0x80, CHR 0xA9], [CHR 0xE2, CHR 0x80, CHR 0xAF],
                [CHR 0xE2, CHR 0x81, CHR 0x9F], [CHR 0xE3, CHR 0x80, CHR 0x80]} \<or>
            (case u of [a, b, c] \<Rightarrow> a = CHR 0xE2 \<and> b = CHR 0x80 \<and> 128 \<le> code c \<and> code c \<le> 138 | _ \<Rightarrow> False))"

definition lspace :: "string \<Rightarrow> nat" where
  "lspace s = length (concat (takeWhile space_char (utf8_chars s)))"

definition lstrip_text :: "string \<Rightarrow> string" where
  "lstrip_text s = drop (lspace s) s"

definition strip_text :: "string \<Rightarrow> string" where
  "strip_text s = concat (rev (dropWhile space_char (rev (dropWhile space_char (utf8_chars s)))))"

text \<open>The length of the line break at the head of a text, for \<^verbatim>\<open>str\<close> and for \<^verbatim>\<open>bytes\<close>.\<close>

definition bytes_break :: "string \<Rightarrow> nat" where
  "bytes_break s =
     (if startswith s [CHR 0x0D, CHR 0x0A] then 2
      else case s of [] \<Rightarrow> 0 | c # _ \<Rightarrow> if c \<in> {CHR 0x0A, CHR 0x0D} then 1 else 0)"

definition text_break :: "string \<Rightarrow> nat" where
  "text_break s =
     (if bytes_break s > 0 then bytes_break s
      else if startswith s [CHR 0xC2, CHR 0x85] then 2
      else if startswith s [CHR 0xE2, CHR 0x80, CHR 0xA8] \<or> startswith s [CHR 0xE2, CHR 0x80, CHR 0xA9] then 3
      else case s of [] \<Rightarrow> 0 | c # _ \<Rightarrow> if c \<in> {CHR 0x0B, CHR 0x0C, CHR 0x1C, CHR 0x1D, CHR 0x1E} then 1 else 0)"

fun first_line :: "(string \<Rightarrow> nat) \<Rightarrow> string \<Rightarrow> string" where
  "first_line brk [] = []"
| "first_line brk (c # cs) =
     (if brk (c # cs) > 0 then take (brk (c # cs)) (c # cs) else c # first_line brk cs)"

lemma first_line_nonempty: "s \<noteq> [] \<Longrightarrow> first_line brk s \<noteq> []"
  by (cases s) auto

text \<open>\<^verbatim>\<open>splitlines(keepends=True)\<close>\<close>

function lines_of :: "(string \<Rightarrow> nat) \<Rightarrow> string \<Rightarrow> string list" where
  "lines_of brk s = (if s = [] then [] else first_line brk s # lines_of brk (drop (length (first_line brk s)) s))"
  by pat_completeness auto
termination
  by (relation "measure (\<lambda>(_, s). length s)") (auto simp: first_line_nonempty)

declare lines_of.simps [simp del]

section \<open>Parameters\<close>

text \<open>
  An assignment of a Python module as \<^verbatim>\<open>ast\<close> reports it: the names of its targets (\<^verbatim>\<open>None\<close> for any other
  target) and, when its value is a constant, that value with first line, column, last line and end column.
\<close>

record py_stmt =
  st_targets :: "string option list"
  st_constant :: "(pyval \<times> nat \<times> nat \<times> nat \<times> nat) option"

record libs =
  toml_loads :: "string \<Rightarrow> pyval res"
  py_parse :: "string \<Rightarrow> py_stmt list res"
  py_repr :: "pyval \<Rightarrow> string"
  is_identifier :: "string \<Rightarrow> bool"
  plist_loads :: "string \<Rightarrow> pyval res"
  plist_dumps :: "bool \<Rightarrow> pyval \<Rightarrow> string"
  pbx_edit :: "string \<Rightarrow> pydict \<Rightarrow> pyval \<Rightarrow> (string \<times> pyval list) res"

section \<open>TOML\<close>

fun get_at :: "pyval \<Rightarrow> jpath \<Rightarrow> pyval res" where
  "get_at v [] = Inr v"
| "get_at (PDict d) (JKey k # p) = (case map_of d k of None \<Rightarrow> Inl ValueError | Some v \<Rightarrow> get_at v p)"
| "get_at (PList xs) (JIdx n # p) = (if n < length xs then get_at (xs ! n) p else Inl ValueError)"
| "get_at v (_ # p) = Inl ValueError"

fun unwrap_key :: "pyval \<Rightarrow> string list \<times> pyval" where
  "unwrap_key (PDict [(k, v)]) = (let (ks, x) = unwrap_key v in (k # ks, x))"
| "unwrap_key v = ([], v)"

definition is_zero :: "pyval \<Rightarrow> bool" where
  "is_zero v = (v = PInt 0 \<or> v = PBool False \<or> v = PFloat (Fin 0))"

definition toml_key :: "libs \<Rightarrow> string \<Rightarrow> string list res" where
  "toml_key L key =
     rbind (toml_loads L (key @ '' = 0'')) (\<lambda>data.
     let (ks, x) = unwrap_key data in rbind (guard (is_zero x \<and> ks \<noteq> [])) (\<lambda>_. Inr ks))"

text \<open>Inside quotes; the empty text stands for no quote.\<close>

definition quote_step :: "string \<Rightarrow> nat \<Rightarrow> string \<Rightarrow> nat \<times> string" where
  "quote_step line i q =
     (if startswith q [CHR 0x22] \<and> char_at line i = Some (CHR 0x5C) then (i + 2, q)
      else if startswith (drop i line) q then (i + length q, [])
      else (i + 1, q))"

definition quotes :: "char list" where
  "quotes = [CHR 0x22, CHR 0x27]"

definition triple :: "string \<Rightarrow> nat \<Rightarrow> bool" where
  "triple line i =
     (startswith (drop i line) [CHR 0x22, CHR 0x22, CHR 0x22] \<or> startswith (drop i line) [CHR 0x27, CHR 0x27, CHR 0x27])"

lemma quote_step_progress: "q \<noteq> [] \<Longrightarrow> i < fst (quote_step line i q)"
  by (simp add: quote_step_def)

lemma quote_step_less: "i < length line \<Longrightarrow> q \<noteq> [] \<Longrightarrow> length line - fst (quote_step line i q) < length line - i"
  using quote_step_progress [of q i line] by linarith

function toml_lexical :: "string \<Rightarrow> nat \<Rightarrow> string \<Rightarrow> int \<Rightarrow> string \<times> int" where
  "toml_lexical line i q depth =
     (if \<not> i < length line then (q, depth)
      else if q \<noteq> [] then (case quote_step line i q of (j, q') \<Rightarrow> toml_lexical line j q' depth)
      else if line ! i = CHR ''#'' then (q, depth)
      else if triple line i then toml_lexical line (i + 3) (take 3 (drop i line)) depth
      else if line ! i \<in> set quotes then toml_lexical line (i + 1) [line ! i] depth
      else toml_lexical line (i + 1) q
             (if line ! i \<in> {CHR ''['', CHR ''{''} then depth + 1
              else if line ! i \<in> {CHR '']'', CHR ''}''} then depth - 1 else depth))"
  by pat_completeness auto
termination
  by (relation "measure (\<lambda>(line, i, _, _). length line - i)") (auto simp: case_prod_beta quote_step_less dest: arg_cong [where f = fst])

declare toml_lexical.simps [simp del]

definition local_lock_package :: "pydict \<Rightarrow> string \<Rightarrow> bool" where
  "local_lock_package entry kind =
     (if kind = ''cargo-lock'' then \<not> haskey entry ''source''
      else case dget_or entry ''source'' (PDict []) of
             PDict [(k, _)] \<Rightarrow> k \<in> {''editable'', ''virtual'', ''directory''}
           | _ \<Rightarrow> False)"

fun lock_matches :: "pyval \<Rightarrow> string \<Rightarrow> nat \<Rightarrow> pyval list \<Rightarrow> nat list res" where
  "lock_matches package kind i [] = Inr []"
| "lock_matches package kind i (PDict e # es) =
     rbind (lock_matches package kind (i + 1) es) (\<lambda>ms.
       Inr (if dget e ''name'' = package \<and> local_lock_package e kind then i # ms else ms))"
| "lock_matches package kind i (_ # es) = Inl AttributeError"

definition toml_target :: "pyval \<Rightarrow> pydict \<Rightarrow> jpath res" where
  "toml_target data declaration =
     (let kind = text_val (dget declaration ''format'')
      in if kind \<in> {''cargo-lock'', ''uv-lock''}
         then rbind (vget_or data ''package'' (PList [])) (\<lambda>v.
              case v of
                PList entries \<Rightarrow>
                  rbind (lock_matches (dget declaration ''package'') kind 0 entries) (\<lambda>ms.
                  case ms of [i] \<Rightarrow> Inr [JKey ''package'', JIdx i, JKey ''version''] | _ \<Rightarrow> Inl ValueError)
              | _ \<Rightarrow> Inl ValueError)
         else rbind (field_path (dget declaration ''field'')) (\<lambda>f.
              rbind (if haskey declaration ''package''
                     then rbind (get_at data (map JKey (butlast f @ [''name'']))) (\<lambda>n. guard (n = dget declaration ''package''))
                     else Inr ()) (\<lambda>_.
              Inr (map JKey f))))"

text \<open>\<^verbatim>\<open>json.dumps\<close> with its default escapes: beyond ASCII a character is one or two \<^verbatim>\<open>\uXXXX\<close>.\<close>

definition code_point :: "string \<Rightarrow> int" where
  "code_point u =
     (let low = (\<lambda>c. code c - 128)
      in case u of
           [a] \<Rightarrow> code a
         | [a, b] \<Rightarrow> (code a - 192) * 64 + low b
         | [a, b, c] \<Rightarrow> (code a - 224) * 4096 + low b * 64 + low c
         | [a, b, c, d] \<Rightarrow> (code a - 240) * 262144 + low b * 4096 + low c * 64 + low d
         | _ \<Rightarrow> 0)"

definition unicode_escape :: "int \<Rightarrow> string" where
  "unicode_escape n =
     [CHR 0x5C, CHR ''u'', hex_digit (n div 4096 mod 16), hex_digit (n div 256 mod 16), hex_digit (n div 16 mod 16), hex_digit (n mod 16)]"

definition ascii_escape :: "string \<Rightarrow> string" where
  "ascii_escape u =
     (case u of
        [c] \<Rightarrow> escape_char c
      | _ \<Rightarrow> let n = code_point u
            in if n < 65536 then unicode_escape n
               else unicode_escape (0xD800 + (n - 65536) div 1024) @ unicode_escape (0xDC00 + (n - 65536) mod 1024))"

definition dumps_ascii :: "string \<Rightarrow> string" where
  "dumps_ascii s = [CHR 0x22] @ concat (map ascii_escape (utf8_chars s)) @ [CHR 0x22]"

definition toml_token :: "pyval \<Rightarrow> string \<Rightarrow> string" where
  "toml_token v original =
     (case v of
        PStr s \<Rightarrow> if startswith original [CHR 0x27] \<and> CHR 0x27 \<notin> set s then [CHR 0x27] @ s @ [CHR 0x27] else dumps_ascii s
      | _ \<Rightarrow> py_str v)"

function toml_separator :: "string \<Rightarrow> nat \<Rightarrow> string \<Rightarrow> nat option" where
  "toml_separator line i q =
     (if \<not> i < length line then None
      else if q \<noteq> [] then (case quote_step line i q of (j, q') \<Rightarrow> toml_separator line j q')
      else if line ! i \<in> set quotes then toml_separator line (i + 1) [line ! i]
      else if line ! i \<in> {CHR ''#'', CHR 0x0D, CHR 0x0A} then None
      else if line ! i = CHR ''='' then Some i
      else toml_separator line (i + 1) q)"
  by pat_completeness auto
termination
  by (relation "measure (\<lambda>(line, i, _). length line - i)") (auto simp: case_prod_beta quote_step_less dest: arg_cong [where f = fst])

declare toml_separator.simps [simp del]

text \<open>The scalar at the head of a text: its length, of one of the three forms of the pattern.\<close>

fun double_quoted :: "string \<Rightarrow> nat option" where
  "double_quoted [] = None"
| "double_quoted (c # cs) =
     (if c = CHR 0x22 then Some 1
      else if c = CHR 0x5C
           then (case cs of [] \<Rightarrow> None
                 | d # ds \<Rightarrow> if d = CHR 0x0A then None else map_option (\<lambda>n. n + 2) (double_quoted ds))
      else if c \<in> {CHR 0x0D, CHR 0x0A} then None
      else map_option Suc (double_quoted cs))"

definition toml_scalar :: "string \<Rightarrow> nat option" where
  "toml_scalar s =
     (case s of [] \<Rightarrow> None
      | c # cs \<Rightarrow>
          if c = CHR 0x22 then map_option Suc (double_quoted cs)
          else if c = CHR 0x27
               then let w = takeWhile (\<lambda>d. d \<notin> {CHR 0x27, CHR 0x0D, CHR 0x0A}) cs
                    in if startswith (drop (length w) cs) [CHR 0x27] then Some (length w + 2) else None
          else let sign = (if c \<in> {CHR ''+'', CHR ''-''} then 1 else 0);
                   ds = takeWhile (\<lambda>d. is_digit d \<or> d = CHR ''_'') (drop sign s)
               in if ds \<noteq> [] \<and> is_digit (hd ds) then Some (sign + length ds) else None)"

definition toml_assignment :: "libs \<Rightarrow> string \<Rightarrow> jpath \<Rightarrow> jpath \<Rightarrow> pyval \<Rightarrow> edit option res" where
  "toml_assignment L line current target new =
     (case toml_separator line 0 [] of
        None \<Rightarrow> Inr None
      | Some sep \<Rightarrow>
          if strip_text (take sep line) = [] then Inr None
          else rbind (toml_key L (strip_text (take sep line))) (\<lambda>key.
               if current @ map JKey key \<noteq> target then Inr None
               else let start = sep + 1 + lspace (drop (sep + 1) line)
                    in case toml_scalar (drop start line) of
                         None \<Rightarrow> Inl ValueError
                       | Some n \<Rightarrow>
                           let suffix = lstrip_text (drop (start + n) line)
                           in rbind (guard (suffix = [] \<or> startswith suffix ''#'')) (\<lambda>_.
                              Inr (Some (start, start + n, toml_token new (take n (drop start line)))))))"

definition toml_header_end :: "string \<Rightarrow> nat \<Rightarrow> nat \<Rightarrow> (nat \<times> string) option res" where
  "toml_header_end line opening i =
     (let closing = (if startswith (drop i line) '']]'' then 2 else 1);
          suffix = strip_text (drop (i + closing) line)
      in if suffix \<noteq> [] \<and> \<not> startswith suffix ''#'' then Inr None
         else rbind (guard (opening = closing)) (\<lambda>_. Inr (Some (opening, drop opening (take i line)))))"

function header_scan :: "string \<Rightarrow> nat \<Rightarrow> nat \<Rightarrow> string \<Rightarrow> (nat \<times> string) option res" where
  "header_scan line opening i q =
     (if \<not> i < length line then Inr None
      else if q \<noteq> [] then (case quote_step line i q of (j, q') \<Rightarrow> header_scan line opening j q')
      else if line ! i = CHR '']'' then toml_header_end line opening i
      else header_scan line opening (i + 1) (if line ! i \<in> set quotes then [line ! i] else q))"
  by pat_completeness auto
termination
  by (relation "measure (\<lambda>(line, _, i, _). length line - i)") (auto simp: case_prod_beta quote_step_less dest: arg_cong [where f = fst])

declare header_scan.simps [simp del]

definition toml_header :: "string \<Rightarrow> (nat \<times> string) option res" where
  "toml_header raw =
     (let line = lstrip_text raw; opening = (if startswith line ''[['' then 2 else 1)
      in if \<not> startswith line ''['' then Inr None else header_scan line opening opening [])"

fun toml_lines ::
  "libs \<Rightarrow> jpath \<Rightarrow> pyval \<Rightarrow> jpath \<Rightarrow> (jpath \<times> nat) list \<Rightarrow> nat \<Rightarrow> string \<Rightarrow> int \<Rightarrow> string list \<Rightarrow> edit list res" where
  "toml_lines L target new current arrays offset q depth [] = Inr []"
| "toml_lines L target new current arrays offset q depth (line # lines) =
     (let continued = (q \<noteq> [] \<or> depth > 0); (q', depth') = toml_lexical line 0 q depth; after = offset + length line
      in if continued then toml_lines L target new current arrays after q' depth' lines
         else rbind (toml_header line) (\<lambda>header.
              case header of
                Some (opening, key) \<Rightarrow>
                  rbind (toml_key L key) (\<lambda>ks.
                  let table = map JKey ks
                  in if opening = 2
                     then let n = (case map_of arrays table of None \<Rightarrow> 0 | Some m \<Rightarrow> m + 1)
                          in toml_lines L target new (table @ [JIdx n]) (dset table n arrays) after q' depth' lines
                     else toml_lines L target new table arrays after q' depth' lines)
              | None \<Rightarrow>
                  rbind (toml_assignment L line current target new) (\<lambda>found.
                  rbind (toml_lines L target new current arrays after q' depth' lines) (\<lambda>rest.
                  Inr (case found of None \<Rightarrow> rest | Some (s, e, w) \<Rightarrow> (offset + s, offset + e, w) # rest)))))"

definition toml_assignments :: "libs \<Rightarrow> string \<Rightarrow> jpath \<Rightarrow> pyval \<Rightarrow> edit list res" where
  "toml_assignments L text target new = toml_lines L target new [] [] 0 [] 0 (lines_of text_break text)"

definition toml_edit :: "libs \<Rightarrow> string \<Rightarrow> pydict \<Rightarrow> pyval \<Rightarrow> (string \<times> pyval list) res" where
  "toml_edit L raw declaration v =
     rbind (decode_utf8 raw) (\<lambda>text.
     rbind (toml_loads L text) (\<lambda>data.
     rbind (toml_target data declaration) (\<lambda>target.
     rbind (get_at data target) (\<lambda>old.
     rbind (scalar_for v old) (\<lambda>new.
     rbind (toml_assignments L text target new) (\<lambda>found.
     case found of
       [(s, e, token)] \<Rightarrow>
         let result = take s text @ token @ drop e text
         in rbind (toml_loads L result) (\<lambda>edited.
            rbind (get_at edited target) (\<lambda>now.
            rbind (guard (now = new)) (\<lambda>_. Inr (result, [old]))))
     | _ \<Rightarrow> Inl ValueError))))))"

section \<open>The other formats\<close>

type_synonym py_constant = "pyval \<times> nat \<times> nat \<times> nat \<times> nat"

fun py_matches :: "string \<Rightarrow> py_stmt list \<Rightarrow> py_constant list res" where
  "py_matches name [] = Inr []"
| "py_matches name (st # sts) =
     (if Some name \<in> set (st_targets st)
      then case st_constant st of
             Some c \<Rightarrow> rbind (guard (length (st_targets st) = 1)) (\<lambda>_. rbind (py_matches name sts) (\<lambda>cs. Inr (c # cs)))
           | None \<Rightarrow> Inl ValueError
      else py_matches name sts)"

definition py_offset :: "string \<Rightarrow> nat \<Rightarrow> nat \<Rightarrow> nat" where
  "py_offset raw line col = length (concat (take (line - 1) (lines_of bytes_break raw))) + col"

definition python_edit :: "libs \<Rightarrow> string \<Rightarrow> pydict \<Rightarrow> pyval \<Rightarrow> (string \<times> pyval list) res" where
  "python_edit L raw declaration v =
     (case dget declaration ''field'' of
        PStr name \<Rightarrow>
          rbind (guard (is_identifier L name)) (\<lambda>_.
          rbind (decode_utf8 raw) (\<lambda>text.
          rbind (py_parse L text) (\<lambda>body.
          rbind (py_matches name body) (\<lambda>matches.
          case matches of
            [(old, line, col, end_line, end_col)] \<Rightarrow>
              rbind (scalar_for v old) (\<lambda>new.
              if new = old then Inr (raw, [old])
              else let s = py_offset raw line col; e = py_offset raw end_line end_col;
                       literal = (if is_str new \<and> startswith (drop s (take e raw)) [CHR 0x22]
                                  then dumps_scalar new else py_repr L new);
                       result = take s raw @ literal @ drop e raw
                   in rbind (py_parse L result) (\<lambda>_. Inr (result, [old])))
          | _ \<Rightarrow> Inl ValueError))))
      | _ \<Rightarrow> Inl ValueError)"

text \<open>\<^verbatim>\<open>[1-9]\d{0,3}(?:\.\d{1,2}){0,2}\<close>\<close>

definition bundle_text :: "string \<Rightarrow> bool" where
  "bundle_text s =
     (case split_char (CHR ''.'') s of
        a # bs \<Rightarrow> positive_text a \<and> length a \<le> 4 \<and> length bs \<le> 2 \<and> list_all (\<lambda>b. isdigit b \<and> length b \<le> 2) bs
      | [] \<Rightarrow> False)"

definition plist_edit :: "libs \<Rightarrow> string \<Rightarrow> pydict \<Rightarrow> pyval \<Rightarrow> (string \<times> pyval list) res" where
  "plist_edit L raw declaration v =
     rbind (field_path (dget declaration ''field'')) (\<lambda>f.
     rbind (plist_loads L raw) (\<lambda>data.
     rbind (get_at data (map JKey f)) (\<lambda>old.
     rbind (get_at data (map JKey (butlast f))) (\<lambda>parent.
     rbind (case parent of PDict _ \<Rightarrow> Inr () | _ \<Rightarrow> Inl ValueError) (\<lambda>_.
     rbind (scalar_for v old) (\<lambda>new.
     rbind (guard (last f = ''CFBundleShortVersionString'' \<longrightarrow> is_str new \<and> base_text (text_val new))) (\<lambda>_.
     rbind (guard (last f = ''CFBundleVersion'' \<longrightarrow> is_str new \<and> bundle_text (text_val new))) (\<lambda>_.
       if old = new then Inr (raw, [old])
       else Inr (plist_dumps L (startswith raw ''bplist'') (put (map JKey f) new data), [old])))))))))"

definition text_edit :: "string \<Rightarrow> pyval \<Rightarrow> (string \<times> pyval list) res" where
  "text_edit raw v =
     rbind (decode_utf8 raw) (\<lambda>text.
     let chars = utf8_chars text; lead = takeWhile space_char chars;
         rest = dropWhile space_char chars; core = takeWhile (\<lambda>c. \<not> space_char c) rest;
         trail = dropWhile (\<lambda>c. \<not> space_char c) rest
     in rbind (guard (core \<noteq> [] \<and> list_all space_char trail)) (\<lambda>_.
        Inr (concat lead @ py_str v @ concat trail, [PStr (concat core)])))"

definition edit_file :: "libs \<Rightarrow> string \<Rightarrow> pydict \<Rightarrow> pyval \<Rightarrow> (string \<times> pyval list) res" where
  "edit_file L raw declaration v =
     (let kind = text_val (dget declaration ''format'')
      in if kind \<in> {''json'', ''npm-lock''} then json_edit raw declaration v
         else if kind \<in> {''toml'', ''cargo-lock'', ''uv-lock''} then toml_edit L raw declaration v
         else if kind = ''python'' then python_edit L raw declaration v
         else if kind = ''plist'' then plist_edit L raw declaration v
         else if kind = ''pbxproj'' then pbx_edit L raw declaration v
         else if kind = ''text'' then text_edit raw v
         else Inl ValueError)"

section \<open>Synchronising the declared files\<close>

text \<open>\<open>plain\<close>: a regular file below the root, reached through no symbolic link, with one hard link.\<close>

record source_file =
  content :: string
  plain :: bool

type_synonym tree = "string \<rightharpoonup> source_file"

definition MAX_METADATA :: int where
  "MAX_METADATA = 2000000"

definition input_file :: "tree \<Rightarrow> string \<Rightarrow> string res" where
  "input_file fs name =
     rbind (relative (PStr name)) (\<lambda>_.
     case fs name of
       None \<Rightarrow> Inl ValueError
     | Some f \<Rightarrow> rbind (guard (plain f \<and> int (length (content f)) \<le> MAX_METADATA)) (\<lambda>_. Inr (content f)))"

definition path_of :: "pydict \<Rightarrow> string" where
  "path_of declaration = text_val (dget declaration ''path'')"

definition change_entry :: "pydict \<Rightarrow> pyval \<Rightarrow> pyval list \<Rightarrow> pyval" where
  "change_entry declaration v old =
     PDict [(''format'', dget declaration ''format''), (''field'', dget declaration ''field''),
       (''package'', dget declaration ''package''), (''projection'', dget_or declaration ''value'' (PStr ''package'')),
       (''value'', v), (''previous'', PList old)]"

type_synonym texts = "(string \<times> string) list"
type_synonym progress = "texts \<times> texts \<times> (string \<times> pyval list) list"

text \<open>One declaration: the file is read when first met, then edited in memory.\<close>

definition edit_one :: "libs \<Rightarrow> pydict \<Rightarrow> tree \<Rightarrow> pydict \<Rightarrow> progress \<Rightarrow> progress res" where
  "edit_one L plan fs declaration = (\<lambda>(originals, edited, changes).
     let name = path_of declaration
     in rbind (input_file fs name) (\<lambda>raw.
        let fresh = (map_of originals name = None);
            originals = (if fresh then dset name raw originals else originals);
            edited = (if fresh then dset name raw edited else edited);
            changes = (if fresh then dset name [] changes else changes)
        in rbind (projected_value plan declaration) (\<lambda>v.
           rbind (edit_file L (the (map_of edited name)) declaration v) (\<lambda>(updated, old).
             Inr (originals, dset name updated edited,
               dset name (the (map_of changes name) @ [change_entry declaration v old]) changes)))))"

fun edit_all :: "libs \<Rightarrow> pydict \<Rightarrow> tree \<Rightarrow> pydict list \<Rightarrow> progress \<Rightarrow> progress res" where
  "edit_all L plan fs [] st = Inr st"
| "edit_all L plan fs (d # ds) st = rbind (edit_one L plan fs d st) (edit_all L plan fs ds)"

text \<open>Every declaration is applied again to the final texts and must not move them.\<close>

fun settled :: "libs \<Rightarrow> pydict \<Rightarrow> texts \<Rightarrow> pydict list \<Rightarrow> unit res" where
  "settled L plan edited [] = Inr ()"
| "settled L plan edited (d # ds) =
     rbind (projected_value plan d) (\<lambda>v.
     rbind (edit_file L (the (map_of edited (path_of d))) d v) (\<lambda>(checked, _).
     rbind (guard (checked = the (map_of edited (path_of d)))) (\<lambda>_. settled L plan edited ds)))"

definition drift :: "texts \<Rightarrow> texts \<Rightarrow> string list" where
  "drift originals edited = filter (\<lambda>n. map_of originals n \<noteq> map_of edited n) (sort (map fst originals))"

definition evidence_entry :: "(string \<Rightarrow> string) \<Rightarrow> progress \<Rightarrow> string \<Rightarrow> pyval" where
  "evidence_entry digest = (\<lambda>(originals, edited, changes) name.
     PDict [(''path'', PStr name), (''before_sha256'', PStr (digest (the (map_of originals name)))),
       (''after_sha256'', PStr (digest (the (map_of edited name)))),
       (''changed'', PBool (map_of originals name \<noteq> map_of edited name)),
       (''fields'', PList (the (map_of changes name)))])"

text \<open>
  \<^verbatim>\<open>_apply_version_edits\<close>. \<open>fs\<close> is the tree found when the edits are made: all inputs are read again, and
  each once more just before its replacement; a replaced file is a new regular file with the same mode.
\<close>

fun recheck :: "tree \<Rightarrow> texts \<Rightarrow> unit res" where
  "recheck fs [] = Inr ()"
| "recheck fs ((name, raw) # rs) = rbind (input_file fs name) (\<lambda>now. rbind (guard (now = raw)) (\<lambda>_. recheck fs rs))"

fun replace_files :: "texts \<Rightarrow> texts \<Rightarrow> string list \<Rightarrow> tree \<Rightarrow> tree \<times> unit res" where
  "replace_files originals edited [] fs = (fs, Inr ())"
| "replace_files originals edited (n # ns) fs =
     (case rbind (input_file fs n) (\<lambda>now. guard (Some now = map_of originals n)) of
        Inl e \<Rightarrow> (fs, Inl e)
      | Inr _ \<Rightarrow> replace_files originals edited ns (fs(n \<mapsto> \<lparr>content = the (map_of edited n), plain = True\<rparr>)))"

definition apply_version_edits :: "texts \<Rightarrow> texts \<Rightarrow> string list \<Rightarrow> tree \<Rightarrow> tree \<times> unit res" where
  "apply_version_edits originals edited names fs =
     (case recheck fs originals of Inl e \<Rightarrow> (fs, Inl e) | Inr _ \<Rightarrow> replace_files originals edited names fs)"

text \<open>\<open>fs\<close> is the tree that is read, \<open>now\<close> the tree at the time of writing.\<close>

definition sync_versions ::
  "libs \<Rightarrow> (string \<Rightarrow> string) \<Rightarrow> (pyval \<Rightarrow> string res) \<Rightarrow> pyval \<Rightarrow> pyval \<Rightarrow> bool \<Rightarrow> tree \<Rightarrow> tree \<Rightarrow> tree \<times> pyval list res" where
  "sync_versions L digest policy_digest policy plan check fs now =
     (case rbind (validate_plan policy_digest plan (Some policy) None) (\<lambda>p.
           rbind (validate_policy policy) (\<lambda>(_, items).
           rbind (edit_all L p fs items ([], [], [])) (\<lambda>st.
           rbind (settled L p (fst (snd st)) items) (\<lambda>_. Inr st)))) of
        Inl e \<Rightarrow> (now, Inl e)
      | Inr (originals, edited, changes) \<Rightarrow>
          let evidence = map (evidence_entry digest (originals, edited, changes)) (sort (map fst originals));
              names = drift originals edited
          in if check then (now, rbind (guard (names = [])) (\<lambda>_. Inr evidence))
             else case apply_version_edits originals edited names now of
                    (after, Inl e) \<Rightarrow> (after, Inl e)
                  | (after, Inr _) \<Rightarrow> (after, Inr evidence))"

section \<open>Reading and editing in memory\<close>

definition progress_ok :: "tree \<Rightarrow> string set \<Rightarrow> progress \<Rightarrow> bool" where
  "progress_ok fs seen = (\<lambda>(originals, edited, changes).
     distinct (map fst originals) \<and> fst ` set originals = seen \<and> fst ` set edited = seen \<and> fst ` set changes = seen \<and>
     (\<forall>n \<in> seen. input_file fs n = Inr (the (map_of originals n))))"

lemma map_of_key: "map_of d k = None \<longleftrightarrow> k \<notin> fst ` set d"
  by (simp add: map_of_eq_None_iff)

lemma edit_one_ok:
  assumes "edit_one L plan fs d st = Inr st'" "progress_ok fs seen st"
  shows "progress_ok fs (insert (path_of d) seen) st'"
proof -
  obtain originals edited changes where st: "st = (originals, edited, changes)" by (cases st)
  let ?n = "path_of d"
  obtain raw where raw: "input_file fs ?n = Inr raw" using assms(1) st by (auto simp: edit_one_def Let_def rbind_Inr_iff)
  have p: "distinct (map fst originals)" "fst ` set originals = seen" "fst ` set edited = seen" "fst ` set changes = seen"
    "\<And>n. n \<in> seen \<Longrightarrow> input_file fs n = Inr (the (map_of originals n))"
    using assms(2) by (auto simp: progress_ok_def st)
  show ?thesis
  proof (cases "?n \<in> seen")
    case True
    then obtain e c where "st' = (originals, dset ?n e edited, dset ?n c changes)"
      using assms(1) st p(2) raw by (auto simp: edit_one_def Let_def rbind_Inr_iff map_of_key)
    then show ?thesis using p True by (auto simp: progress_ok_def dset_keys)
  next
    case False
    then obtain e c where "st' = (dset ?n raw originals, dset ?n e (dset ?n raw edited), dset ?n c (dset ?n [] changes))"
      using assms(1) st p(2) raw by (auto simp: edit_one_def Let_def rbind_Inr_iff map_of_key)
    then show ?thesis using p raw False by (auto simp: progress_ok_def dset_keys distinct_dset map_of_dset)
  qed
qed

lemma edit_all_ok:
  "edit_all L plan fs ds st = Inr st' \<Longrightarrow> progress_ok fs seen st \<Longrightarrow> progress_ok fs (seen \<union> path_of ` set ds) st'"
proof (induction ds arbitrary: st seen)
  case (Cons d ds)
  obtain st1 where s: "edit_one L plan fs d st = Inr st1" "edit_all L plan fs ds st1 = Inr st'"
    using Cons.prems(1) by (auto simp: rbind_Inr_iff)
  show ?case using Cons.IH [OF s(2) edit_one_ok [OF s(1) Cons.prems(2)]] by simp
qed simp

lemma edit_all_start: "progress_ok fs {} ([], [], [])"
  by (simp add: progress_ok_def)

section \<open>Writing\<close>

lemma recheck_reads: "recheck fs originals = Inr u \<Longrightarrow> (n, raw) \<in> set originals \<Longrightarrow> input_file fs n = Inr raw"
  by (induction originals) (auto simp: rbind_Inr_iff)

lemma input_file_other: "m \<noteq> n \<Longrightarrow> input_file (fs(n \<mapsto> f)) m = input_file fs m"
  by (simp add: input_file_def)

definition written :: "texts \<Rightarrow> string list \<Rightarrow> tree \<Rightarrow> tree" where
  "written edited ns fs = (\<lambda>n. if n \<in> set ns then Some \<lparr>content = the (map_of edited n), plain = True\<rparr> else fs n)"

lemma replace_files_all:
  "distinct ns \<Longrightarrow> (\<And>n. n \<in> set ns \<Longrightarrow> \<exists>raw. input_file fs n = Inr raw \<and> map_of originals n = Some raw) \<Longrightarrow>
    replace_files originals edited ns fs = (written edited ns fs, Inr ())"
proof (induction ns arbitrary: fs)
  case (Cons n ns)
  obtain raw where raw: "input_file fs n = Inr raw" "map_of originals n = Some raw" using Cons.prems(2) [of n] by auto
  let ?fs = "fs(n \<mapsto> \<lparr>content = the (map_of edited n), plain = True\<rparr>)"
  have "replace_files originals edited ns ?fs = (written edited ns ?fs, Inr ())"
  proof (rule Cons.IH)
    show "distinct ns" using Cons.prems(1) by simp
    fix m assume m: "m \<in> set ns"
    then have "m \<noteq> n" using Cons.prems(1) by auto
    then show "\<exists>raw. input_file ?fs m = Inr raw \<and> map_of originals m = Some raw"
      using Cons.prems(2) [of m] m by (simp add: input_file_other)
  qed
  moreover have "written edited ns ?fs = written edited (n # ns) fs" by (auto simp: written_def)
  ultimately show ?case using raw by (simp add: guard_def)
qed (simp add: written_def)

lemma drift_names: "set (drift originals edited) = {n \<in> fst ` set originals. map_of originals n \<noteq> map_of edited n}"
  by (auto simp: drift_def)

lemma drift_distinct: "distinct (map fst originals) \<Longrightarrow> distinct (drift originals edited)"
  by (simp add: drift_def)

lemma apply_version_edits_cases:
  assumes "distinct (map fst originals)"
  shows "apply_version_edits originals edited (drift originals edited) fs =
    (case recheck fs originals of Inl e \<Rightarrow> (fs, Inl e) | Inr _ \<Rightarrow> (written edited (drift originals edited) fs, Inr ()))"
proof (cases "recheck fs originals")
  case (Inr u)
  have "replace_files originals edited (drift originals edited) fs = (written edited (drift originals edited) fs, Inr ())"
  proof (rule replace_files_all [OF drift_distinct [OF assms]])
    fix n assume "n \<in> set (drift originals edited)"
    then obtain raw where "(n, raw) \<in> set originals" by (auto simp: drift_names)
    then show "\<exists>raw. input_file fs n = Inr raw \<and> map_of originals n = Some raw"
      using recheck_reads [OF Inr] assms by auto
  qed
  then show ?thesis by (simp add: apply_version_edits_def Inr)
qed (simp add: apply_version_edits_def)

text \<open>The stages of a run.\<close>

lemma sync_stages:
  assumes "sync_versions L digest policy_digest policy plan check fs now = (after, Inr evidence)"
  obtains p config items originals edited changes where
    "validate_plan policy_digest plan (Some policy) None = Inr p" "validate_policy policy = Inr (config, items)"
    "edit_all L p fs items ([], [], []) = Inr (originals, edited, changes)" "settled L p edited items = Inr ()"
    "evidence = map (evidence_entry digest (originals, edited, changes)) (sort (map fst originals))"
    "if check then after = now \<and> drift originals edited = []
     else recheck now originals = Inr () \<and> after = written edited (drift originals edited) now"
proof -
  let ?m = "rbind (validate_plan policy_digest plan (Some policy) None) (\<lambda>p.
           rbind (validate_policy policy) (\<lambda>(_, items).
           rbind (edit_all L p fs items ([], [], [])) (\<lambda>st.
           rbind (settled L p (fst (snd st)) items) (\<lambda>_. Inr st))))"
  obtain originals edited changes where m: "?m = Inr (originals, edited, changes)"
    using assms by (cases ?m) (auto simp: sync_versions_def)
  obtain p config items where s: "validate_plan policy_digest plan (Some policy) None = Inr p"
      "validate_policy policy = Inr (config, items)" "edit_all L p fs items ([], [], []) = Inr (originals, edited, changes)"
      "settled L p edited items = Inr ()"
    using m by (auto simp: rbind_Inr_iff)
  have d: "distinct (map fst originals)" using edit_all_ok [OF s(3) edit_all_start] by (simp add: progress_ok_def)
  have "evidence = map (evidence_entry digest (originals, edited, changes)) (sort (map fst originals)) \<and>
     (if check then after = now \<and> drift originals edited = []
     else recheck now originals = Inr () \<and> after = written edited (drift originals edited) now)"
  proof (cases check)
    case True
    then show ?thesis using assms m by (simp add: sync_versions_def Let_def rbind_Inr_iff)
  next
    case False
    then show ?thesis using assms m
      by (cases "recheck now originals") (auto simp: sync_versions_def Let_def apply_version_edits_cases [OF d])
  qed
  then show ?thesis using that s by blast
qed


section \<open>A synchronised tree is stable\<close>

definition declared_paths :: "pyval \<Rightarrow> string list" where
  "declared_paths policy = (case validate_policy policy of Inl _ \<Rightarrow> [] | Inr (_, items) \<Rightarrow> map path_of items)"

definition within_limit :: "tree \<Rightarrow> string list \<Rightarrow> bool" where
  "within_limit fs = list_all (\<lambda>n. case fs n of None \<Rightarrow> True | Some f \<Rightarrow> int (length (content f)) \<le> MAX_METADATA)"

lemma within_limitD: "within_limit fs ns \<Longrightarrow> n \<in> set ns \<Longrightarrow> fs n = Some f \<Longrightarrow> int (length (content f)) \<le> MAX_METADATA"
  by (fastforce simp: within_limit_def list_all_iff)

lemma input_file_plain: "input_file fs n = Inr raw \<Longrightarrow> \<exists>f. fs n = Some f \<and> plain f \<and> content f = raw \<and> relative (PStr n) = Inr ()"
  by (auto simp: input_file_def rbind_Inr_iff split: option.splits)

lemma input_file_written:
  assumes "input_file now n = Inr (the (map_of originals n))" "within_limit (written edited ns now) paths" "n \<in> set paths"
    and "n \<notin> set ns \<Longrightarrow> map_of edited n = map_of originals n"
  shows "input_file (written edited ns now) n = Inr (the (map_of edited n))"
proof -
  obtain f where f: "now n = Some f" "plain f" "content f = the (map_of originals n)" "relative (PStr n) = Inr ()"
    using input_file_plain [OF assms(1)] by blast
  show ?thesis
  proof (cases "n \<in> set ns")
    case True
    then have "written edited ns now n = Some \<lparr>content = the (map_of edited n), plain = True\<rparr>" by (simp add: written_def)
    moreover from this have "int (length (the (map_of edited n))) \<le> MAX_METADATA"
      using within_limitD [OF assms(2, 3)] by fastforce
    ultimately show ?thesis using f(4) by (simp add: input_file_def guard_def)
  next
    case False
    then have "written edited ns now n = Some f" by (simp add: written_def f(1))
    moreover from this have "int (length (content f)) \<le> MAX_METADATA"
      using within_limitD [OF assms(2, 3)] by blast
    ultimately show ?thesis using assms(4) False f by (simp add: input_file_def guard_def)
  qed
qed

lemma settled_edits:
  "settled L p edited ds = Inr u \<Longrightarrow> d \<in> set ds \<Longrightarrow>
    \<exists>v old. projected_value p d = Inr v \<and> edit_file L (the (map_of edited (path_of d))) d v = Inr (the (map_of edited (path_of d)), old)"
  by (induction ds) (auto simp: rbind_Inr_iff)

text \<open>Progress of a run over a tree that already holds the edited texts.\<close>

definition steady :: "texts \<Rightarrow> string set \<Rightarrow> progress \<Rightarrow> bool" where
  "steady final seen = (\<lambda>(originals, edited, changes).
     distinct (map fst originals) \<and> fst ` set originals = seen \<and> (\<forall>n. map_of edited n = map_of originals n) \<and>
     (\<forall>n \<in> seen. map_of originals n = map_of final n) \<and> fst ` set changes = seen)"

lemma edit_one_steady:
  assumes "steady final seen st" and f: "input_file fs (path_of d) = Inr raw" "map_of final (path_of d) = Some raw"
    and v: "projected_value p d = Inr v" and e: "edit_file L raw d v = Inr (raw, old)"
  shows "\<exists>st'. edit_one L p fs d st = Inr st' \<and> steady final (insert (path_of d) seen) st'"
proof -
  obtain originals edited changes where st: "st = (originals, edited, changes)" by (cases st)
  let ?n = "path_of d"
  have p: "distinct (map fst originals)" "fst ` set originals = seen" "\<And>n. map_of edited n = map_of originals n"
    "\<And>n. n \<in> seen \<Longrightarrow> map_of originals n = map_of final n" "fst ` set changes = seen"
    using assms(1) by (auto simp: steady_def st)
  show ?thesis
  proof (cases "?n \<in> seen")
    case True
    then have o': "map_of originals ?n = Some raw" using p(4) f(2) by simp
    let ?c = "the (map_of changes ?n) @ [change_entry d v old]"
    have "edit_one L p fs d st = Inr (originals, dset ?n raw edited, dset ?n ?c changes)"
      using st f v e o' p(3) by (simp add: edit_one_def Let_def)
    moreover have "steady final (insert ?n seen) (originals, dset ?n raw edited, dset ?n ?c changes)"
      using p True o' by (simp add: steady_def map_of_dset dset_keys insert_absorb)
    ultimately show ?thesis by blast
  next
    case False
    then have o': "map_of originals ?n = None" by (simp add: map_of_key p(2))
    let ?c = "[change_entry d v old]"
    have "edit_one L p fs d st =
        Inr (dset ?n raw originals, dset ?n raw (dset ?n raw edited), dset ?n ?c (dset ?n [] changes))"
      unfolding edit_one_def st prod.case Let_def f(1) rbind_simps o' simp_thms if_True v map_of_dset option.sel e
        append_Nil ..
    moreover have "steady final (insert ?n seen)
        (dset ?n raw originals, dset ?n raw (dset ?n raw edited), dset ?n ?c (dset ?n [] changes))"
      unfolding steady_def prod.case
    proof (intro conjI allI ballI)
      show "distinct (map fst (dset ?n raw originals))" using p(1) by (rule distinct_dset)
      show "fst ` set (dset ?n raw originals) = insert ?n seen" unfolding dset_keys p(2) ..
      show "fst ` set (dset ?n ?c (dset ?n [] changes)) = insert ?n seen" unfolding dset_keys p(5) by simp
      show "map_of (dset ?n raw (dset ?n raw edited)) n = map_of (dset ?n raw originals) n" for n
        unfolding map_of_dset using p(3) by simp
      show "map_of (dset ?n raw originals) n = map_of final n" if "n \<in> insert ?n seen" for n
        using that p(4) f(2) unfolding map_of_dset by auto
    qed
    ultimately show ?thesis by blast
  qed
qed

lemma edit_all_steady:
  "steady final seen st \<Longrightarrow>
    (\<And>d. d \<in> set ds \<Longrightarrow> \<exists>raw v old. input_file fs (path_of d) = Inr raw \<and> map_of final (path_of d) = Some raw \<and>
      projected_value p d = Inr v \<and> edit_file L raw d v = Inr (raw, old)) \<Longrightarrow>
    \<exists>st'. edit_all L p fs ds st = Inr st' \<and> steady final (seen \<union> path_of ` set ds) st'"
proof (induction ds arbitrary: st seen)
  case (Cons d ds)
  obtain raw v old where d: "input_file fs (path_of d) = Inr raw" "map_of final (path_of d) = Some raw"
      "projected_value p d = Inr v" "edit_file L raw d v = Inr (raw, old)" using Cons.prems(2) [of d] by auto
  obtain st1 where s: "edit_one L p fs d st = Inr st1" "steady final (insert (path_of d) seen) st1"
    using edit_one_steady [OF Cons.prems(1) d] by blast
  obtain st' where "edit_all L p fs ds st1 = Inr st'" "steady final (insert (path_of d) seen \<union> path_of ` set ds) st'"
    using Cons.IH [OF s(2)] Cons.prems(2) by auto
  then show ?case using s(1) by auto
qed simp

lemma settled_again:
  "(\<And>d. d \<in> set ds \<Longrightarrow> \<exists>v old. projected_value p d = Inr v \<and>
      edit_file L (the (map_of edited (path_of d))) d v = Inr (the (map_of edited (path_of d)), old)) \<Longrightarrow>
    settled L p edited ds = Inr ()"
proof (induction ds)
  case (Cons d ds)
  then show ?case using Cons.prems [of d] by (force simp: guard_def)
qed simp


section \<open>An example\<close>

definition demo_sync_policy :: pyval where
  "demo_sync_policy = PDict [(''versioning'', PDict [(''schema'', PInt 1), (''promotion'', PStr ''final-build''),
     (''files'', PList [PDict demo_declaration, PDict [(''path'', PStr ''VERSION''), (''format'', PStr ''text'')]])])]"

definition demo_sync_plan :: pyval where
  "demo_sync_plan =
     (case create_plan demo_digest (PStr ''1.3.0'') (PStr ''stable'') PNone (PStr demo_sha) demo_sync_policy PNone of
        Inr plan \<Rightarrow> PDict plan | Inl _ \<Rightarrow> PNone)"

definition demo_libs :: libs where
  "demo_libs = \<lparr>toml_loads = (\<lambda>_. Inl ValueError), py_parse = (\<lambda>_. Inl ValueError), py_repr = py_str,
     is_identifier = (\<lambda>_. False), plist_loads = (\<lambda>_. Inl ValueError), plist_dumps = (\<lambda>_ _. []),
     pbx_edit = (\<lambda>_ _ _. Inl ValueError)\<rparr>"

definition demo_tree :: "string \<Rightarrow> tree" where
  "demo_tree text = [''manifest.json'' \<mapsto> \<lparr>content = demo_manifest, plain = True\<rparr>,
     ''VERSION'' \<mapsto> \<lparr>content = text, plain = True\<rparr>]"

definition demo_sync :: "bool \<Rightarrow> string \<Rightarrow> tree \<times> pyval list res" where
  "demo_sync check later = sync_versions demo_libs (\<lambda>s. ''sha'') demo_digest demo_sync_policy demo_sync_plan check
     (demo_tree (''1.2.3'' @ [CHR 0x0A])) (demo_tree later)"

lemma demo_sync_refused: "snd (demo_sync False ''9.9.9'') = Inl ValueError"
  by code_simp

lemma demo_sync_accepted:
  "case demo_sync False (''1.2.3'' @ [CHR 0x0A]) of (after, r) \<Rightarrow>
     is_ok r \<and> map_option content (after ''manifest.json'') = Some demo_edited \<and>
     map_option content (after ''VERSION'') = Some (''1.3.0'' @ [CHR 0x0A]) \<and>
     within_limit after (declared_paths demo_sync_policy)"
  by code_simp



end
