(* ===== verification/Prepare_Version.thy ===== *)
theory Prepare_Version
  imports Version_Sync
begin

text \<open>
  \<^verbatim>\<open>scripts/prepare_version.py\<close> with the base-version readers of \<^verbatim>\<open>scripts/version_plan.py\<close>: choosing the next
  base version and preparing all declared files for it, locally or on one branch with one pull request. What
  Git and GitHub answer is a record of inputs; \<^verbatim>\<open>CalledProcessError\<close> is \<open>OtherError\<close>. Names of
  repositories are compared as ASCII.
\<close>

section \<open>The base version of a checkout\<close>

definition base_kinds :: "string list" where
  "base_kinds = [''base'', ''full'', ''package'']"

definition read_base_version :: "libs \<Rightarrow> tree \<Rightarrow> pyval \<Rightarrow> string res" where
  "read_base_version L fs policy =
     rbind (validate_policy policy) (\<lambda>(_, items).
     rbind (vget policy ''version_file'') (\<lambda>file.
     case file of
       PStr name \<Rightarrow>
         (case filter (\<lambda>i. path_of i = name \<and> text_val (dget_or i ''value'' (PStr ''package'')) \<in> set base_kinds) items of
            [item] \<Rightarrow>
              rbind (input_file fs name) (\<lambda>raw.
              rbind (edit_file L raw item (PStr ''0.0.0'')) (\<lambda>(_, old).
              case old of
                PStr v # vs \<Rightarrow>
                  let prefix = text_val (dget_or item ''prefix'' (PStr []))
                  in rbind (guard (list_all (\<lambda>w. w = PStr v) vs \<and> startswith v prefix \<and> base_text (drop (length prefix) v)))
                       (\<lambda>_. Inr (drop (length prefix) v))
              | _ \<Rightarrow> Inl ValueError))
          | _ \<Rightarrow> Inl ValueError)
     | _ \<Rightarrow> Inl ValueError))"

text \<open>The policy with the declared files that \<open>keep\<close> accepts.\<close>

definition with_files :: "pyval \<Rightarrow> (pydict \<Rightarrow> bool res) \<Rightarrow> pyval res" where
  "with_files policy keep =
     rbind (vitem policy ''versioning'') (\<lambda>config.
     rbind (vitem config ''files'') (\<lambda>files.
     let pick = (\<lambda>v acc. rbind acc (\<lambda>vs. case v of PDict i \<Rightarrow> rbind (keep i) (\<lambda>b. Inr (if b then v # vs else vs)) | _ \<Rightarrow> Inl AttributeError))
     in rbind (case files of
                 PList xs \<Rightarrow> foldr pick xs (Inr [])
               | PDict d \<Rightarrow> (if d = [] then Inr [] else Inl AttributeError)
               | PStr s \<Rightarrow> (if s = [] then Inr [] else Inl AttributeError)
               | _ \<Rightarrow> Inl TypeError) (\<lambda>kept.
        case (policy, config) of
          (PDict p, PDict c) \<Rightarrow> Inr (PDict (dset ''versioning'' (PDict (dset ''files'' (PList kept) c)) p))
        | _ \<Rightarrow> Inl TypeError)))"

definition check_base_versions ::
  "libs \<Rightarrow> (string \<Rightarrow> string) \<Rightarrow> (pyval \<Rightarrow> string res) \<Rightarrow> tree \<Rightarrow> pyval \<Rightarrow> string \<Rightarrow> pyval list res" where
  "check_base_versions L digest policy_digest fs policy given =
     rbind (validate_policy policy) (\<lambda>_.
     rbind (if given = [] then read_base_version L fs policy else Inr given) (\<lambda>base.
     rbind (with_files policy (\<lambda>i. rbind (in_texts (dget_or i ''value'' (PStr ''package'')) [''build'', ''apple-build'']) (\<lambda>b. Inr (\<not> b)))) (\<lambda>filtered.
     rbind (create_plan policy_digest (PStr base) (PStr ''stable'') PNone (PStr (replicate 40 (CHR ''0''))) filtered PNone) (\<lambda>plan.
       snd (sync_versions L digest policy_digest filtered (PDict plan) True fs fs)))))"

definition source_policy :: "pyval \<Rightarrow> pyval res" where
  "source_policy policy = with_files policy (\<lambda>i. rbind (in_texts (dget i ''value'') [''build'', ''apple-build'']) (\<lambda>b. Inr (\<not> b)))"

section \<open>The next version\<close>

text \<open>\<^verbatim>\<open>tuple(map(int, s.split(".")))\<close>, ordered lexicographically.\<close>

fun int_parts :: "string list \<Rightarrow> int list res" where
  "int_parts [] = Inr []"
| "int_parts (p # ps) =
     (case parse_int p of None \<Rightarrow> Inl ValueError | Some n \<Rightarrow> rbind (int_parts ps) (\<lambda>ns. Inr (n # ns)))"

definition version_key :: "string \<Rightarrow> int list res" where
  "version_key s = int_parts (split_char (CHR ''.'') s)"

definition version_text :: "int \<Rightarrow> int \<Rightarrow> int \<Rightarrow> string" where
  "version_text a b c = show_int a @ ''.'' @ show_int b @ ''.'' @ show_int c"

fun tag_keys :: "string list \<Rightarrow> int list list res" where
  "tag_keys [] = Inr []"
| "tag_keys (t # ts) =
     (if startswith t ''v'' \<and> base_text (drop 1 t)
      then rbind (version_key (drop 1 t)) (\<lambda>k. rbind (tag_keys ts) (\<lambda>ks. Inr (k # ks))) else tag_keys ts)"

definition greatest :: "int list list \<Rightarrow> int list" where
  "greatest ks = fold max (tl ks) (hd ks)"

definition triple_of :: "int list \<Rightarrow> (int \<times> int \<times> int) res" where
  "triple_of ns = (case ns of [a, b, c] \<Rightarrow> Inr (a, b, c) | _ \<Rightarrow> Inl ValueError)"

definition part_at :: "int list \<Rightarrow> nat \<Rightarrow> int res" where
  "part_at ns i = (if i < length ns then Inr (ns ! i) else Inl IndexError)"

definition bumped_version :: "string \<Rightarrow> string list \<Rightarrow> string \<Rightarrow> string res" where
  "bumped_version current tags bump =
     rbind (tag_keys tags) (\<lambda>vals.
     rbind (version_key current) (\<lambda>existing.
     if bump = ''next-patch''
     then if vals = [] \<or> existing > greatest vals then Inr current
          else rbind (triple_of (greatest vals)) (\<lambda>(a, b, c). Inr (version_text a b (c + 1)))
     else if bump = ''major'' then rbind (part_at existing 0) (\<lambda>a. Inr (version_text (a + 1) 0 0))
     else if bump = ''minor''
     then rbind (part_at existing 0) (\<lambda>a. rbind (part_at existing 1) (\<lambda>b. Inr (version_text a (b + 1) 0)))
     else rbind (part_at existing 0) (\<lambda>a. rbind (part_at existing 1) (\<lambda>b. rbind (part_at existing 2) (\<lambda>c.
            Inr (version_text a b (c + 1)))))))"

definition tag_of :: "string \<Rightarrow> string" where
  "tag_of s = ''v'' @ s"

lemma show_int_dot: "CHR ''.'' \<notin> set (show_int n)"
proof -
  have "CHR ''.'' \<notin> set (show_digits m)" if "0 \<le> m" for m
    using show_digits_spec [OF that] by (auto simp: list_all_iff is_digit_def code_def)
  then show ?thesis by (simp add: show_int_def)
qed

lemma version_text_inj: "version_text a b c = version_text a b d \<Longrightarrow> c = d"
  by (simp add: version_text_def show_int_inj)

text \<open>
  The loop over occupied names. Every round meets another name of the finite list, so the number of occupied names
  with a greater patch falls.
\<close>

definition ahead :: "string list \<Rightarrow> int \<Rightarrow> int \<Rightarrow> int \<Rightarrow> string set" where
  "ahead occupied a b c = {t \<in> set occupied. \<exists>k > c. t = tag_of (version_text a b k)}"

lemma finite_ahead [simp]: "finite (ahead occupied a b c)"
  by (simp add: ahead_def)

lemma ahead_step:
  "ahead occupied a b c =
     (if tag_of (version_text a b (c + 1)) \<in> set occupied
      then insert (tag_of (version_text a b (c + 1))) (ahead occupied a b (c + 1)) else ahead occupied a b (c + 1))"
proof -
  have "k > c \<longleftrightarrow> k = c + 1 \<or> k > c + 1" for k :: int by linarith
  then show ?thesis by (auto simp: ahead_def)
qed

lemma ahead_fresh: "tag_of (version_text a b (c + 1)) \<notin> ahead occupied a b (c + 1)"
  by (auto simp: ahead_def tag_of_def dest: version_text_inj)

function next_free :: "string list \<Rightarrow> int \<Rightarrow> int \<Rightarrow> int \<Rightarrow> string \<Rightarrow> string" where
  "next_free occupied a b c selected =
     (if tag_of selected \<in> set occupied then next_free occupied a b (c + 1) (version_text a b (c + 1)) else selected)"
  by pat_completeness auto
termination
proof (relation "measure (\<lambda>(occupied, a, b, c, selected).
    card (ahead occupied a b c) + (if tag_of selected \<in> set occupied then 1 else 0))")
  fix occupied a b c selected
  assume "tag_of selected \<in> set occupied"
  then show "((occupied, a, b, c + 1, version_text a b (c + 1)), (occupied, a, b, c, selected)) \<in>
    measure (\<lambda>(occupied, a, b, c, selected). card (ahead occupied a b c) + (if tag_of selected \<in> set occupied then 1 else 0))"
    using ahead_step [of occupied a b c] ahead_fresh [of a b c occupied] by auto
qed simp

declare next_free.simps [simp del]

definition choose_version :: "string \<Rightarrow> string list \<Rightarrow> string \<Rightarrow> string \<Rightarrow> string list option \<Rightarrow> string res" where
  "choose_version current tags requested bump given =
     rbind (if requested \<noteq> [] then rbind (guard (base_text requested)) (\<lambda>_. Inr requested)
            else bumped_version current tags bump) (\<lambda>selected.
     rbind (version_key selected) (\<lambda>new.
     rbind (version_key current) (\<lambda>old.
     rbind (guard (\<not> new < old)) (\<lambda>_.
     let occupied = (case given of None \<Rightarrow> tags | Some names \<Rightarrow> names)
     in if requested \<noteq> [] \<or> bump \<noteq> ''next-patch''
        then rbind (guard (tag_of selected \<notin> set occupied)) (\<lambda>_. Inr selected)
        else rbind (triple_of new) (\<lambda>(a, b, c). Inr (next_free occupied a b c selected))))))"

section \<open>Version texts and their keys\<close>

lemma split_char_absent: "c \<notin> set s \<Longrightarrow> split_char c s = [s]"
  by (induction s) auto

lemma split_char_first: "c \<notin> set p \<Longrightarrow> split_char c (p @ c # s) = p # split_char c s"
  by (induction p) auto

lemma version_key_text: "version_key (version_text a b c) = Inr [a, b, c]"
  by (simp add: version_key_def version_text_def split_char_first split_char_absent show_int_dot parse_int_show_int)

lemma digit_char_back: "is_digit c \<Longrightarrow> char_of (48 + digit_val c) = c \<and> 0 \<le> digit_val c \<and> digit_val c < 10"
  by (auto simp: is_digit_def digit_val_def code_def)

lemma int_of_digits_pos: "list_all is_digit s \<Longrightarrow> s \<noteq> [] \<Longrightarrow> hd s \<noteq> CHR ''0'' \<Longrightarrow> 0 < int_of_digits s"
proof (induction s rule: rev_induct)
  case (snoc c s)
  show ?case
  proof (cases "s = []")
    case True
    have "digit_val c \<noteq> 0"
    proof
      assume "digit_val c = 0"
      then have "char_of (48 :: int) = c" using digit_char_back [of c] snoc.prems(1) by simp
      moreover have "char_of (48 :: int) = CHR ''0''" by code_simp
      ultimately show False using snoc.prems(3) True by simp
    qed
    then show ?thesis using digit_char_back [of c] snoc.prems(1) True by (auto simp: int_of_digits_def)
  next
    case False
    then have "0 < int_of_digits s" using snoc by simp
    then show ?thesis using digit_char_back [of c] snoc.prems(1) by (simp add: int_of_digits_snoc)
  qed
qed simp

lemma show_digits_of:
  "list_all is_digit s \<Longrightarrow> s \<noteq> [] \<Longrightarrow> hd s \<noteq> CHR ''0'' \<Longrightarrow> show_digits (int_of_digits s) = s"
proof (induction s rule: rev_induct)
  case (snoc c s)
  have c: "char_of (48 + digit_val c) = c" "0 \<le> digit_val c" "digit_val c < 10" using digit_char_back [of c] snoc.prems(1) by auto
  show ?case
  proof (cases "s = []")
    case True
    then show ?thesis using c by (subst show_digits.simps) (simp add: int_of_digits_def)
  next
    case False
    then have s: "show_digits (int_of_digits s) = s" "0 < int_of_digits s" using snoc int_of_digits_pos [of s] by auto
    have "int_of_digits (s @ [c]) div 10 = int_of_digits s" "int_of_digits (s @ [c]) mod 10 = digit_val c"
      "\<not> int_of_digits (s @ [c]) < 10"
      using c s(2) by (simp_all add: int_of_digits_snoc)
    then show ?thesis using s(1) c(1) by (subst show_digits.simps) simp
  qed
qed simp

lemma numeral_shown:
  assumes "numeral_text p"
  shows "show_int (int_of_digits p) = p"
proof (cases "p = ''0''")
  case True
  have "show_int (int_of_digits ''0'') = ''0''" by code_simp
  then show ?thesis using True by simp
next
  case False
  then have p: "list_all is_digit p" "p \<noteq> []" "hd p \<noteq> CHR ''0''" using assms by (auto simp: numeral_text_def isdigit_def)
  then show ?thesis using show_digits_of [OF p] int_of_digits_pos [OF p] by (simp add: show_int_def)
qed

lemma split_char_join: "split_char c s = [p, q, r] \<Longrightarrow> s = p @ c # q @ c # r"
proof -
  have one: "split_char c s = [p] \<Longrightarrow> s = p" for s p
    using split_char_nonempty by (induction s arbitrary: p) (auto split: if_splits list.splits)
  have two: "split_char c s = [p, q] \<Longrightarrow> s = p @ c # q" for s p q
  proof (induction s arbitrary: p)
    case (Cons x s)
    then show ?case using one [of s q] by (cases "x = c"; cases "split_char c s") auto
  qed simp
  show "split_char c s = [p, q, r] \<Longrightarrow> s = p @ c # q @ c # r"
  proof (induction s arbitrary: p)
    case (Cons x s)
    then show ?case using two [of s q r] by (cases "x = c"; cases "split_char c s") auto
  qed simp
qed

lemma base_text_shown:
  assumes "base_text s"
  obtains a b c where "s = version_text a b c"
proof -
  obtain p q r where s: "split_char (CHR ''.'') s = [p, q, r]" "numeral_text p" "numeral_text q" "numeral_text r"
    using assms by (auto simp: base_text_def split: list.splits)
  have "s = version_text (int_of_digits p) (int_of_digits q) (int_of_digits r)"
    using split_char_join [OF s(1)] by (simp add: version_text_def numeral_shown [OF s(2)] numeral_shown [OF s(3)] numeral_shown [OF s(4)])
  then show ?thesis by (rule that)
qed

section \<open>The chosen version\<close>

lemma next_free_first:
  "selected = version_text a b c \<Longrightarrow>
    \<exists>d \<ge> c. next_free occupied a b c selected = version_text a b d \<and> tag_of (version_text a b d) \<notin> set occupied \<and>
      (\<forall>k. c \<le> k \<and> k < d \<longrightarrow> tag_of (version_text a b k) \<in> set occupied)"
proof (induction occupied a b c selected rule: next_free.induct)
  case (1 occupied a b c selected)
  show ?case
  proof (cases "tag_of selected \<in> set occupied")
    case True
    obtain d where d: "d \<ge> c + 1" "next_free occupied a b (c + 1) (version_text a b (c + 1)) = version_text a b d"
        "tag_of (version_text a b d) \<notin> set occupied" "\<forall>k. c + 1 \<le> k \<and> k < d \<longrightarrow> tag_of (version_text a b k) \<in> set occupied"
      using "1.IH" [OF True] by blast
    have "tag_of (version_text a b k) \<in> set occupied" if "c \<le> k" "k < d" for k
      using d(4) that True "1.prems" by (cases "k = c") auto
    then show ?thesis using d True by (intro exI [of _ d]) (simp add: next_free.simps [of occupied a b c])
  next
    case False
    then show ?thesis using "1.prems" by (intro exI [of _ c]) (auto simp: next_free.simps [of occupied a b c])
  qed
qed

definition base_tags :: "string list \<Rightarrow> string list" where
  "base_tags tags = filter (\<lambda>t. startswith t ''v'' \<and> base_text (drop 1 t)) tags"

lemma tag_keys_all:
  "\<exists>ks. tag_keys tags = Inr ks \<and> list_all (\<lambda>k. length k = 3) ks \<and>
    map Inr ks = map (\<lambda>t. version_key (drop 1 t)) (base_tags tags)"
proof (induction tags)
  case (Cons t ts)
  show ?case
  proof (cases "startswith t ''v'' \<and> base_text (drop 1 t)")
    case True
    then obtain a b c where "drop 1 t = version_text a b c" using base_text_shown by metis
    then show ?thesis using True Cons.IH by (auto simp: base_tags_def version_key_text)
  next
    case False
    then show ?thesis using Cons.IH by (auto simp: base_tags_def)
  qed
qed (simp add: base_tags_def)

lemma greatest_max: "ks \<noteq> [] \<Longrightarrow> greatest ks \<in> set ks \<and> (\<forall>k \<in> set ks. k \<le> greatest ks)"
proof -
  have f: "fold max xs x \<in> insert x (set xs) \<and> (\<forall>k \<in> insert x (set xs). k \<le> fold max xs x)" for xs and x :: "int list"
    by (induction xs arbitrary: x) (auto simp: max_def split: if_splits, (meson dual_order.trans linear)+)
  show "ks \<noteq> [] \<Longrightarrow> greatest ks \<in> set ks \<and> (\<forall>k \<in> set ks. k \<le> greatest ks)"
    using f [of "tl ks" "hd ks"] by (cases ks) (auto simp: greatest_def)
qed



section \<open>What Git and GitHub answer\<close>

text \<open>
  One run's answers: of the local checkout, of the remote (lines of \<^verbatim>\<open>ls-remote\<close>), of GitHub, and of the
  detached worktree in which a pull request is prepared. \<open>gh_checkout\<close> is the tree of a commit, \<open>gh_changed\<close>
  what \<^verbatim>\<open>git diff --name-only\<close> reports for an edited worktree, \<open>gh_index\<close> the identity of its tree.
\<close>

record host =
  gh_status :: string
  gh_url :: "bool \<Rightarrow> string"
  gh_head :: string
  gh_branch :: "string \<Rightarrow> string"
  gh_tag_lines :: "string list"
  gh_merged :: "string list"
  gh_tag_object :: "string \<Rightarrow> string res"
  gh_head_lines :: "string \<Rightarrow> string list"
  gh_fetched :: "string \<Rightarrow> string"
  gh_pulls :: "string \<Rightarrow> string \<Rightarrow> pyval"
  gh_merge_base :: "string \<Rightarrow> string \<Rightarrow> string"
  gh_policy_at :: "string \<Rightarrow> pyval res"
  gh_diff_names :: "string \<Rightarrow> string \<Rightarrow> string list"
  gh_mode :: "string \<Rightarrow> string \<Rightarrow> string option"
  gh_blob :: "string \<Rightarrow> string \<Rightarrow> string res"
  gh_tree_of :: "string \<Rightarrow> string"
  gh_checkout :: "string \<Rightarrow> tree"
  gh_changed :: "tree \<Rightarrow> string list"
  gh_clean :: "tree \<Rightarrow> bool"
  gh_index :: "tree \<Rightarrow> string"
  gh_new_pull :: string

definition TAB :: char where
  "TAB = CHR 0x09"

text \<open>\<^verbatim>\<open>a, b = line.split("\t", 1)\<close>\<close>

definition split_tab :: "string \<Rightarrow> (string \<times> string) res" where
  "split_tab line =
     (let a = takeWhile (\<lambda>c. c \<noteq> TAB) line
      in if length a < length line then Inr (a, drop (length a + 1) line) else Inl ValueError)"

fun advertised :: "string list \<Rightarrow> (string, string) dict \<Rightarrow> (string, string) dict res" where
  "advertised [] acc = Inr acc"
| "advertised (line # lines) acc =
     rbind (split_tab line) (\<lambda>(object, ref).
     rbind (guard (sha_text object)) (\<lambda>_.
       advertised lines (if startswith ref ''refs/tags/'' then dset (drop 10 ref) object acc else acc)))"

fun reachable_tags :: "host \<Rightarrow> (string, string) dict \<Rightarrow> string list \<Rightarrow> string list res" where
  "reachable_tags h remote [] = Inr []"
| "reachable_tags h remote (tag # tags) =
     (case map_of remote tag of
        None \<Rightarrow> reachable_tags h remote tags
      | Some object \<Rightarrow>
          rbind (gh_tag_object h tag) (\<lambda>local.
          rbind (guard (local = object)) (\<lambda>_.
          rbind (reachable_tags h remote tags) (\<lambda>rest. Inr (tag # rest)))))"

definition advertised_tags :: "host \<Rightarrow> (string list \<times> string list) res" where
  "advertised_tags h =
     rbind (advertised (gh_tag_lines h) []) (\<lambda>remote.
     rbind (reachable_tags h remote (gh_merged h)) (\<lambda>tags. Inr (tags, map fst remote)))"

definition remote_topic :: "host \<Rightarrow> string \<Rightarrow> string option res" where
  "remote_topic h topic =
     (let ref = ''refs/heads/'' @ topic
      in case gh_head_lines h ref of
           [] \<Rightarrow> Inr None
         | [line] \<Rightarrow>
             rbind (split_tab line) (\<lambda>(sha, name).
             rbind (guard (name = ref \<and> sha_text sha)) (\<lambda>_.
             rbind (guard (gh_fetched h ref = sha)) (\<lambda>_. Inr (Some sha))))
         | _ \<Rightarrow> Inl ValueError)"

fun own_rows :: "string \<Rightarrow> string \<Rightarrow> pyval list \<Rightarrow> pydict list res" where
  "own_rows topic base [] = Inr []"
| "own_rows topic base (v # vs) =
     (case v of
        PDict row \<Rightarrow>
          (case dget row ''isCrossRepository'' of
             PBool fork \<Rightarrow>
               if fork then own_rows topic base vs
               else rbind (guard (dget row ''headRefName'' = PStr topic \<and> dget row ''baseRefName'' = PStr base)) (\<lambda>_.
                    rbind (own_rows topic base vs) (\<lambda>rows. Inr (row # rows)))
           | _ \<Rightarrow> Inl ValueError)
      | _ \<Rightarrow> Inl ValueError)"

definition own_pull_requests :: "pyval \<Rightarrow> string \<Rightarrow> string \<Rightarrow> pydict list res" where
  "own_pull_requests rows topic base =
     (case rows of
        PList vs \<Rightarrow> rbind (own_rows topic base vs) (\<lambda>own. rbind (guard (length own \<le> 1)) (\<lambda>_. Inr own))
      | _ \<Rightarrow> Inl ValueError)"

section \<open>The checkout and the preparation branch\<close>

definition repo_char :: "char \<Rightarrow> bool" where
  "repo_char c = (is_alpha c \<or> is_digit c \<or> c \<in> {CHR ''_'', CHR ''.'', CHR ''-''})"

definition repo_text :: "string \<Rightarrow> bool" where
  "repo_text s =
     (case split_char (CHR ''/'') s of
        [a, b] \<Rightarrow> a \<noteq> [] \<and> b \<noteq> [] \<and> list_all repo_char a \<and> list_all repo_char b
      | _ \<Rightarrow> False)"

text \<open>The identity in a remote address; a final \<^verbatim>\<open>.git\<close> is no part of it unless nothing else is left.\<close>

definition origins :: "string list" where
  "origins = [''https://github.com/'', ''git@github.com:'', ''ssh://git@github.com/'']"

definition remote_identity :: "string \<Rightarrow> string option" where
  "remote_identity url =
     (case List.find (startswith url) origins of
        None \<Rightarrow> None
      | Some prefix \<Rightarrow>
          (case split_char (CHR ''/'') (drop (length prefix) url) of
             [a, b] \<Rightarrow>
               if a = [] \<or> b = [] then None
               else let bare = take (length b - 4) b
                    in if length b > 4 \<and> drop (length b - 4) b = ''.git'' then Some (a @ CHR ''/'' # bare)
                       else Some (a @ CHR ''/'' # b)
           | _ \<Rightarrow> None))"

definition validate_preparation_checkout :: "host \<Rightarrow> pyval \<Rightarrow> (string \<times> string \<times> string) res" where
  "validate_preparation_checkout h policy =
     rbind (vget policy ''mode'') (\<lambda>mode.
     rbind (guard (mode = PStr ''release'')) (\<lambda>_.
     rbind (guard (gh_status h = [])) (\<lambda>_.
     rbind (vget_or policy ''repository'' (PStr [])) (\<lambda>repository.
     rbind (case repository of PStr r \<Rightarrow> Inr r | _ \<Rightarrow> Inl TypeError) (\<lambda>repo.
     rbind (guard (repo_text repo)) (\<lambda>_.
     rbind (guard (list_all (\<lambda>push. case remote_identity (gh_url h push) of None \<Rightarrow> False | Some i \<Rightarrow> lower i = lower repo)
       [False, True])) (\<lambda>_.
     rbind (vget_or policy ''default_branch'' (PStr ''main'')) (\<lambda>b.
     rbind (case b of PStr branch \<Rightarrow> Inr branch | _ \<Rightarrow> Inl TypeError) (\<lambda>branch.
     rbind (guard (gh_head h = gh_branch h branch)) (\<lambda>_. Inr (repo, branch, gh_head h)))))))))))"

fun expected_tree :: "host \<Rightarrow> string \<Rightarrow> string \<Rightarrow> string list \<Rightarrow> tree \<Rightarrow> tree res" where
  "expected_tree h ancestor topic [] fs = Inr fs"
| "expected_tree h ancestor topic (n # ns) fs =
     (case (gh_mode h ancestor n, gh_mode h topic n) of
        (Some mode, Some current) \<Rightarrow>
          rbind (guard (mode \<in> {''100644'', ''100755''} \<and> current = mode)) (\<lambda>_.
          rbind (gh_blob h ancestor n) (\<lambda>raw.
            expected_tree h ancestor topic ns (fs(n \<mapsto> \<lparr>content = raw, plain = True\<rparr>))))
      | _ \<Rightarrow> Inl ValueError)"

fun same_blobs :: "host \<Rightarrow> string \<Rightarrow> tree \<Rightarrow> string list \<Rightarrow> unit res" where
  "same_blobs h topic fs [] = Inr ()"
| "same_blobs h topic fs (n # ns) =
     rbind (gh_blob h topic n) (\<lambda>raw.
     rbind (guard (map_option content (fs n) = Some raw)) (\<lambda>_. same_blobs h topic fs ns))"

type_synonym digests = "(string \<Rightarrow> string) \<times> (pyval \<Rightarrow> string res)"

definition verify_owned_topic :: "libs \<Rightarrow> digests \<Rightarrow> host \<Rightarrow> string \<Rightarrow> string \<Rightarrow> string \<Rightarrow> unit res" where
  "verify_owned_topic L dg h topic main target =
     (let ancestor = gh_merge_base h topic main
      in rbind (gh_policy_at h ancestor) (\<lambda>old.
         rbind (source_policy old) (\<lambda>editable.
         rbind (validate_policy editable) (\<lambda>(_, items).
         let names = remdups (map path_of items)
         in rbind (guard (set (gh_diff_names h ancestor topic) \<subseteq> set names)) (\<lambda>_.
            rbind (create_plan (snd dg) (PStr target) (PStr ''stable'') PNone (PStr ancestor) editable PNone) (\<lambda>plan.
            rbind (expected_tree h ancestor topic names Map.empty) (\<lambda>fs.
            case sync_versions L (fst dg) (snd dg) editable (PDict plan) False fs fs of
              (_, Inl e) \<Rightarrow> Inl e
            | (after, Inr _) \<Rightarrow> same_blobs h topic after names))))))) "

definition preparation_topic ::
  "libs \<Rightarrow> digests \<Rightarrow> host \<Rightarrow> string \<Rightarrow> string \<Rightarrow> string \<Rightarrow> (string \<times> pydict list \<times> string option) res" where
  "preparation_topic L dg h branch head target =
     (let topic = ''release/version-'' @ target
      in rbind (own_pull_requests (gh_pulls h topic branch) topic branch) (\<lambda>existing.
         rbind (remote_topic h topic) (\<lambda>sha.
         rbind (guard (existing \<noteq> [] \<longrightarrow> sha \<noteq> None)) (\<lambda>_.
         rbind (guard (existing \<noteq> [] \<longrightarrow> dget (hd existing) ''headRefOid'' = PStr (the sha))) (\<lambda>_.
         rbind (case sha of None \<Rightarrow> Inr () | Some s \<Rightarrow> verify_owned_topic L dg h s head target) (\<lambda>_.
           Inr (topic, existing, sha)))))))"

section \<open>Preparing a version\<close>

datatype action =
    PushTopic string string "string list"
  | OpenPull string

text \<open>The worktree of the pull request. A push names the branch, the tree of the new commit and its parents.\<close>

definition prepare_pull ::
  "libs \<Rightarrow> digests \<Rightarrow> host \<Rightarrow> string \<Rightarrow> string \<Rightarrow> string \<Rightarrow> pyval \<Rightarrow> pydict \<Rightarrow> action list \<times> pydict res" where
  "prepare_pull L dg h branch head target editable plan =
     (case rbind (preparation_topic L dg h branch head target) (\<lambda>(topic, existing, sha).
           case sync_versions L (fst dg) (snd dg) editable (PDict plan) False (gh_checkout h head) (gh_checkout h head) of
             (_, Inl e) \<Rightarrow> Inl e
           | (files, Inr _) \<Rightarrow>
               rbind (check_base_versions L (fst dg) (snd dg) files editable target) (\<lambda>_.
               rbind (validate_policy editable) (\<lambda>(_, items).
                 Inr (topic, existing, sha, files, map path_of items)))) of
        Inl e \<Rightarrow> ([], Inl e)
      | Inr (topic, existing, sha, files, names) \<Rightarrow>
          if existing = [] \<and> gh_changed h files = [] then ([], Inr [(''version'', PStr target), (''unchanged'', PBool True)])
          else if \<not> gh_clean h files then ([], Inl OtherError)
          else if \<not> set (gh_changed h files) \<subseteq> set names then ([], Inl ValueError)
          else let updated = (Some (gh_index h files) \<noteq> map_option (gh_tree_of h) sha);
                   parents = (case sha of None \<Rightarrow> [head] | Some s \<Rightarrow> if s \<noteq> head then [s, head] else [head]);
                   pushes = (if updated then [PushTopic topic (gh_index h files) parents] else [])
               in if existing \<noteq> []
                  then (pushes, rbind (dgetitem (hd existing) ''url'') (\<lambda>url.
                         Inr [(''version'', PStr target), (''pull_request'', url), (''existing'', PBool True), (''updated'', PBool updated)]))
                  else (pushes @ [OpenPull topic],
                        Inr [(''version'', PStr target), (''pull_request'', PStr (gh_new_pull h)), (''resumed'', PBool (sha \<noteq> None))]))"

text \<open>The plan of the preparation, before anything is written.\<close>

definition prepared_plan ::
  "libs \<Rightarrow> digests \<Rightarrow> host \<Rightarrow> pyval \<Rightarrow> tree \<Rightarrow> string \<Rightarrow> string \<Rightarrow> (string \<times> string \<times> string \<times> pyval \<times> pydict) res" where
  "prepared_plan L dg h policy fs requested bump =
     rbind (validate_policy policy) (\<lambda>_.
     rbind (validate_preparation_checkout h policy) (\<lambda>(repo, branch, head).
     rbind (advertised_tags h) (\<lambda>(tags, occupied).
     rbind (read_base_version L fs policy) (\<lambda>current.
     rbind (choose_version current tags requested bump (Some occupied)) (\<lambda>target.
     rbind (source_policy policy) (\<lambda>editable.
     rbind (create_plan (snd dg) (PStr target) (PStr ''stable'') PNone (PStr head) editable PNone) (\<lambda>plan.
       Inr (branch, head, target, editable, plan))))))))"

definition prepare ::
  "libs \<Rightarrow> digests \<Rightarrow> host \<Rightarrow> pyval \<Rightarrow> tree \<Rightarrow> string \<Rightarrow> string \<Rightarrow> bool \<Rightarrow> bool \<Rightarrow> tree \<times> action list \<times> pydict res" where
  "prepare L dg h policy fs requested bump pull dry =
     (case prepared_plan L dg h policy fs requested bump of
        Inl e \<Rightarrow> (fs, [], Inl e)
      | Inr (branch, head, target, editable, plan) \<Rightarrow>
          if dry
          then (fs, [], rbind (validate_policy editable) (\<lambda>(_, items).
                 Inr [(''version'', PStr target), (''source_sha'', PStr head),
                   (''files'', PList (map PStr (sort (remdups (map path_of items))))), (''dry_run'', PBool True)]))
          else if \<not> pull
          then (case sync_versions L (fst dg) (snd dg) editable (PDict plan) False fs fs of
                  (after, Inl e) \<Rightarrow> (after, [], Inl e)
                | (after, Inr evidence) \<Rightarrow>
                    (after, [], rbind (check_base_versions L (fst dg) (snd dg) after editable target) (\<lambda>_.
                       Inr [(''version'', PStr target), (''files'', PList evidence)])))
          else (fs, prepare_pull L dg h branch head target editable plan))"

section \<open>What a preparation may do\<close>

lemma next_free_unoccupied: "tag_of (next_free occupied a b c selected) \<notin> set occupied"
proof (induction occupied a b c selected rule: next_free.induct)
  case (1 occupied a b c selected)
  then show ?case by (cases "tag_of selected \<in> set occupied") (simp_all add: next_free.simps [of occupied a b c selected])
qed

lemma choose_version_free:
  assumes "choose_version current tags requested bump (Some occupied) = Inr target"
  shows "tag_of target \<notin> set occupied"
  using assms next_free_unoccupied
  by (auto simp: choose_version_def rbind_Inr_iff Let_def split: if_splits)

lemma prepared_planD:
  assumes "prepared_plan L dg h policy fs requested bump = Inr (branch, head, target, editable, plan)"
  shows "head = gh_head h \<and> (\<exists>tags occupied. advertised_tags h = Inr (tags, occupied) \<and> tag_of target \<notin> set occupied)"
  using assms choose_version_free
  by (auto simp: prepared_plan_def validate_preparation_checkout_def rbind_Inr_iff)

lemma preparation_topicD:
  assumes "preparation_topic L dg h branch head target = Inr (topic, existing, sha)"
  shows "topic = ''release/version-'' @ target" "remote_topic h topic = Inr sha"
    "own_pull_requests (gh_pulls h topic branch) topic branch = Inr existing"
    "sha = Some s \<Longrightarrow> verify_owned_topic L dg h s head target = Inr ()"
  using assms by (auto simp: preparation_topic_def rbind_Inr_iff Let_def split: option.splits)

lemma prepare_pullD:
  assumes "prepare_pull L dg h branch head target editable plan = (acts, r)" "acts \<noteq> []"
  obtains topic existing sha files where "preparation_topic L dg h branch head target = Inr (topic, existing, sha)"
    "\<And>t tree parents. PushTopic t tree parents \<in> set acts \<Longrightarrow> t = topic \<and> head \<in> set parents \<and>
       (\<forall>s. sha = Some s \<longrightarrow> s \<in> set parents \<and> tree \<noteq> gh_tree_of h s)"
    "\<And>t. OpenPull t \<in> set acts \<Longrightarrow> t = topic \<and> existing = []" "length acts \<le> 2"
proof -
  define m where "m = rbind (preparation_topic L dg h branch head target) (\<lambda>(topic, existing, sha).
           case sync_versions L (fst dg) (snd dg) editable (PDict plan) False (gh_checkout h head) (gh_checkout h head) of
             (_, Inl e) \<Rightarrow> Inl e
           | (files, Inr _) \<Rightarrow>
               rbind (check_base_versions L (fst dg) (snd dg) files editable target) (\<lambda>_.
               rbind (validate_policy editable) (\<lambda>(_, items).
                 Inr (topic, existing, sha, files, map path_of items))))"
  have p: "prepare_pull L dg h branch head target editable plan = (case m of Inl e \<Rightarrow> ([], Inl e)
      | Inr (topic, existing, sha, files, names) \<Rightarrow>
          if existing = [] \<and> gh_changed h files = [] then ([], Inr [(''version'', PStr target), (''unchanged'', PBool True)])
          else if \<not> gh_clean h files then ([], Inl OtherError)
          else if \<not> set (gh_changed h files) \<subseteq> set names then ([], Inl ValueError)
          else let updated = (Some (gh_index h files) \<noteq> map_option (gh_tree_of h) sha);
                   parents = (case sha of None \<Rightarrow> [head] | Some s \<Rightarrow> if s \<noteq> head then [s, head] else [head]);
                   pushes = (if updated then [PushTopic topic (gh_index h files) parents] else [])
               in if existing \<noteq> []
                  then (pushes, rbind (dgetitem (hd existing) ''url'') (\<lambda>url.
                         Inr [(''version'', PStr target), (''pull_request'', url), (''existing'', PBool True), (''updated'', PBool updated)]))
                  else (pushes @ [OpenPull topic],
                        Inr [(''version'', PStr target), (''pull_request'', PStr (gh_new_pull h)), (''resumed'', PBool (sha \<noteq> None))]))"
    unfolding prepare_pull_def m_def ..
  obtain topic existing sha files names where m: "m = Inr (topic, existing, sha, files, names)"
    using assms p by (cases m) auto
  let ?parents = "case sha of None \<Rightarrow> [head] | Some s \<Rightarrow> if s \<noteq> head then [s, head] else [head]"
  have "preparation_topic L dg h branch head target = Inr (topic, existing, sha)"
    using m unfolding m_def
    by (cases "sync_versions L (fst dg) (snd dg) editable (PDict plan) False (gh_checkout h head) (gh_checkout h head)";
        cases "snd (sync_versions L (fst dg) (snd dg) editable (PDict plan) False (gh_checkout h head) (gh_checkout h head))")
      (auto simp: rbind_Inr_iff)
  moreover have "set acts \<subseteq> (if Some (gh_index h files) \<noteq> map_option (gh_tree_of h) sha
      then {PushTopic topic (gh_index h files) ?parents} else {}) \<union> (if existing = [] then {OpenPull topic} else {}) \<and> length acts \<le> 2"
    using assms unfolding p m by (auto simp: Let_def split: if_splits)
  ultimately show ?thesis
    by (intro that [of topic existing sha]) (auto split: if_splits option.splits)
qed


section \<open>An example\<close>

definition demo_release_policy :: pyval where
  "demo_release_policy =
     (case demo_sync_policy of
        PDict p \<Rightarrow> PDict ([(''mode'', PStr ''release''), (''repository'', PStr ''own/ev''), (''version_file'', PStr ''manifest.json'')] @ p)
      | v \<Rightarrow> v)"

definition demo_host :: host where
  "demo_host = \<lparr>gh_status = [], gh_url = (\<lambda>_. ''https://github.com/Own/ev.git''), gh_head = demo_sha, gh_branch = (\<lambda>_. demo_sha),
     gh_tag_lines = [demo_sha @ TAB # ''refs/tags/v1.2.3''], gh_merged = [''v1.2.3''], gh_tag_object = (\<lambda>_. Inr demo_sha),
     gh_head_lines = (\<lambda>_. []), gh_fetched = (\<lambda>_. []), gh_pulls = (\<lambda>_ _. PList []), gh_merge_base = (\<lambda>_ _. []),
     gh_policy_at = (\<lambda>_. Inl OtherError), gh_diff_names = (\<lambda>_ _. []), gh_mode = (\<lambda>_ _. None), gh_blob = (\<lambda>_ _. Inl OtherError),
     gh_tree_of = (\<lambda>_. ''tree0''), gh_checkout = (\<lambda>_. demo_tree (''1.2.3'' @ [CHR 0x0A])), gh_changed = (\<lambda>_. [''manifest.json'', ''VERSION'']),
     gh_clean = (\<lambda>_. True), gh_index = (\<lambda>_. ''tree1''), gh_new_pull = ''pull/1''\<rparr>"

definition demo_prepare :: "tree \<times> action list \<times> pydict res" where
  "demo_prepare = prepare demo_libs (\<lambda>s. ''sha'', demo_digest) demo_host demo_release_policy (demo_tree (''1.2.3'' @ [CHR 0x0A]))
     [] ''next-patch'' True False"

lemma demo_prepare_acts:
  "fst (snd demo_prepare) = [PushTopic ''release/version-1.2.4'' ''tree1'' [demo_sha], OpenPull ''release/version-1.2.4'']"
  by code_simp


end
