(* ===== verification/Oci_Merge.thy ===== *)
theory Oci_Merge
  imports Version_Plan "HOL-Library.List_Lexorder" "HOL-Library.Char_ord" "HOL-Library.Product_Lexorder" "HOL-Library.Multiset"
begin

text \<open>
  \<^verbatim>\<open>scripts/merge_oci_archives.py\<close>: the offline merge of the two native container images of a release
  into one multi-platform archive. Every blob of an input is hashed, the graph of its manifests is
  walked within limits, its one runnable image is bound to version, revision, platform and layer
  contents, and only then is the merged archive written.

  Blobs are lists of bytes. SHA-256, the tar format, \<^verbatim>\<open>json.loads\<close> and the decompressors are parameters,
  collected in \<open>tools\<close>; \<^verbatim>\<open>ValueError\<close> is what \<^verbatim>\<open>require\<close> raises.
\<close>

section \<open>Names and limits\<close>

definition BLOB_PREFIX :: string where "BLOB_PREFIX = ''blobs/sha256/''"

definition REFERENCE_TYPE :: string where "REFERENCE_TYPE = ''vnd.docker.reference.type''"

definition INDEX :: string where "INDEX = ''application/vnd.oci.image.index.v1+json''"

definition MANIFEST :: string where "MANIFEST = ''application/vnd.oci.image.manifest.v1+json''"

definition CONFIG :: string where "CONFIG = ''application/vnd.oci.image.config.v1+json''"

definition EMPTY_CONFIG :: string where "EMPTY_CONFIG = ''application/vnd.oci.empty.v1+json''"

definition ATTESTATION :: string where "ATTESTATION = ''application/vnd.docker.attestation.manifest.v1+json''"

definition IN_TOTO :: string where "IN_TOTO = ''application/vnd.in-toto+json''"

definition PROVENANCE_TYPES :: "string list" where
  "PROVENANCE_TYPES = [''https://slsa.dev/provenance/v0.2'', ''https://slsa.dev/provenance/v1'']"

definition LAYER_TYPES :: "string list" where
  "LAYER_TYPES =
     [''application/vnd.oci.image.layer.v1.tar'', ''application/vnd.oci.image.layer.v1.tar+gzip'',
      ''application/vnd.oci.image.layer.v1.tar+zstd'']"

definition PLATFORMS :: "string list" where
  "PLATFORMS = [''linux/amd64'', ''linux/arm64'']"

definition MAX_JSON :: int where "MAX_JSON = 2000000"

definition MAX_ATTESTATION_JSON :: int where "MAX_ATTESTATION_JSON = 16 * 1024 * 1024"

definition MAX_JSON_TOTAL :: int where "MAX_JSON_TOTAL = 32000000"

definition MAX_LAYER_BYTES :: int where "MAX_LAYER_BYTES = 8 * 1024 ^ 3"

definition MAX_ROOTFS_BYTES :: int where "MAX_ROOTFS_BYTES = 32 * 1024 ^ 3"

text \<open>\<^verbatim>\<open>DIGEST\<close> and the file names of blobs, as whole-string matches.\<close>

definition image_digest :: "string \<Rightarrow> bool" where
  "image_digest s = (startswith s ''sha256:'' \<and> digest_text (drop 7 s))"

definition blob_name :: "string \<Rightarrow> bool" where
  "blob_name s = (startswith s BLOB_PREFIX \<and> digest_text (drop 13 s))"

section \<open>What an archive is read with\<close>

text \<open>
  The members \<^verbatim>\<open>tarfile\<close> lists, in order, with the size of their header and the bytes they hold; a
  sparse member is listed as \<open>Sparse\<close>, links and devices as \<open>Special\<close>.
\<close>

datatype member_kind = Folder | Regular | Sparse | Special

record tar_entry =
  te_name :: string
  te_kind :: member_kind
  te_size :: int
  te_data :: string

text \<open>
  \<open>tl_sha\<close> is the hexadecimal SHA-256; \<open>tl_untar\<close> and \<open>tl_tar\<close> read and write an uncompressed tar file;
  \<open>tl_loads\<close> is \<^verbatim>\<open>json.loads\<close> before its \<^verbatim>\<open>object_pairs_hook\<close>, so an object still has all its pairs, with the
  hook for constants in force and \<^verbatim>\<open>RuntimeError\<close> for \<^verbatim>\<open>RecursionError\<close>. A decompressor gives the chunks it
  reads and whether it then failed; \<open>tl_zstd\<close> says that \<^verbatim>\<open>compression.zstd\<close> could be imported.
\<close>

record tools =
  tl_sha :: "string \<Rightarrow> string"
  tl_untar :: "string \<Rightarrow> tar_entry list res"
  tl_tar :: "tar_entry list \<Rightarrow> string"
  tl_loads :: "string \<Rightarrow> pyval res"
  tl_gunzip :: "string \<Rightarrow> string list \<times> bool"
  tl_unzstd :: "string \<Rightarrow> string list \<times> bool"
  tl_zstd :: bool

section \<open>JSON\<close>

text \<open>No object of the value has a key twice.\<close>

function unique_keys :: "pyval \<Rightarrow> bool" where
  "unique_keys v =
     (case v of
        PList xs \<Rightarrow> (\<forall>x\<in>set xs. unique_keys x)
      | PDict d \<Rightarrow> distinct (map fst d) \<and> (\<forall>(k, x)\<in>set d. unique_keys x)
      | _ \<Rightarrow> True)"
  by pat_completeness auto
termination
proof (relation "measure size", goal_cases)
  case (2 v xs x)
  then show ?case by (auto dest!: size_list_estimation' [where f = size and y = "size x"])
next
  case (3 v d z k x)
  then show ?case by (auto dest!: size_list_estimation' [where f = "size_prod (\<lambda>_. 0) size" and y = "size x"])
qed simp

declare unique_keys.simps [simp del]

definition document :: "tools \<Rightarrow> int \<Rightarrow> string \<Rightarrow> pydict res" where
  "document t max_bytes raw =
     rbind (guard (int (length raw) \<le> max_bytes)) (\<lambda>_.
     rbind (rcatch (rbind (tl_loads t raw) (\<lambda>v. rbind (guard (unique_keys v)) (\<lambda>_. Inr v))) [RuntimeError] (Inl ValueError)) (\<lambda>v.
     case v of PDict d \<Rightarrow> Inr d | _ \<Rightarrow> Inl ValueError))"

text \<open>
  \<^verbatim>\<open>canonical\<close>: \<^verbatim>\<open>json.dumps\<close> with sorted keys, no spaces and ASCII output. Infinite and undefined floats
  raise \<^verbatim>\<open>ValueError\<close>.
\<close>

definition nibble :: "int \<Rightarrow> char" where
  "nibble n = (if n < 10 then char_of (48 + n) else char_of (87 + n))"

definition json_escape :: "char \<Rightarrow> string" where
  "json_escape c =
     (if c = CHR 0x22 then [CHR 0x5C, CHR 0x22] else if c = CHR 0x5C then [CHR 0x5C, CHR 0x5C]
      else if c = CHR 0x0A then [CHR 0x5C, CHR ''n''] else if c = CHR 0x0D then [CHR 0x5C, CHR ''r'']
      else if c = CHR 0x09 then [CHR 0x5C, CHR ''t''] else if c = CHR 0x0C then [CHR 0x5C, CHR ''f'']
      else if c = CHR 0x08 then [CHR 0x5C, CHR ''b'']
      else if code c < 32 \<or> 126 < code c
        then [CHR 0x5C, CHR ''u'', CHR ''0'', CHR ''0'', nibble (code c div 16), nibble (code c mod 16)]
      else [c])"

definition dumps_text :: "string \<Rightarrow> string" where
  "dumps_text s = [CHR 0x22] @ concat (map json_escape s) @ [CHR 0x22]"

fun commas :: "string list \<Rightarrow> string" where
  "commas [] = []"
| "commas [s] = s"
| "commas (s # ss) = s @ '','' @ commas ss"

fun all_ok :: "'a res list \<Rightarrow> 'a list res" where
  "all_ok [] = Inr []"
| "all_ok (r # rs) = rbind r (\<lambda>x. rbind (all_ok rs) (\<lambda>xs. Inr (x # xs)))"

function canonical :: "pyval \<Rightarrow> string res" where
  "canonical v =
     (case v of
        PNone \<Rightarrow> Inr ''null''
      | PBool b \<Rightarrow> Inr (if b then ''true'' else ''false'')
      | PInt n \<Rightarrow> Inr (show_int n)
      | PFloat f \<Rightarrow> if isfinite f then Inr (show_float f) else Inl ValueError
      | PStr s \<Rightarrow> Inr (dumps_text s)
      | PList xs \<Rightarrow> rbind (all_ok (map canonical xs)) (\<lambda>ss. Inr (''['' @ commas ss @ '']''))
      | PDict d \<Rightarrow>
          rbind (all_ok (map (\<lambda>(k, x). rbind (canonical x) (\<lambda>s. Inr (dumps_text k @ '':'' @ s))) (sort_key fst d)))
            (\<lambda>ss. Inr (''{'' @ commas ss @ ''}''))
      | PTime _ \<Rightarrow> Inl TypeError)"
  by pat_completeness auto
termination
proof (relation "measure size", goal_cases)
  case (2 v xs x)
  then show ?case by (auto dest!: size_list_estimation' [where f = size and y = "size x"])
next
  case (3 v d z k x)
  then show ?case by (auto dest!: size_list_estimation' [where f = "size_prod (\<lambda>_. 0) size" and y = "size x"])
qed simp

declare canonical.simps [simp del]

section \<open>The state of a checked archive\<close>

text \<open>
  \<^verbatim>\<open>Archive\<close>. Images and attestations are the dictionaries \<^verbatim>\<open>image\<close> and \<^verbatim>\<open>attestation\<close> append.
\<close>

record oci_image =
  im_descriptor :: pydict
  im_config :: string

record oci_attestation =
  at_digest :: string
  at_subject :: pydict
  at_types :: "string list"

record archive =
  ar_members :: "(string, tar_entry) dict"
  ar_blobs :: "(string, tar_entry) dict"
  ar_leaves :: "pydict list"
  ar_images :: "oci_image list"
  ar_attestations :: "oci_attestation list"
  ar_visited :: int
  ar_metadata :: int
  ar_metadata_names :: "string list"
  ar_attestation_names :: "string list"
  ar_layers :: "(string \<times> string, string \<times> int) dict"
  ar_rootfs :: int

definition archive_init :: archive where
  "archive_init = \<lparr>ar_members = [], ar_blobs = [], ar_leaves = [], ar_images = [], ar_attestations = [],
     ar_visited = 0, ar_metadata = 0, ar_metadata_names = [], ar_attestation_names = [], ar_layers = [],
     ar_rootfs = 0\<rparr>"

text \<open>What is expected of an input: its platform, the version and the revision.\<close>

record expected =
  ex_os :: string
  ex_arch :: string
  ex_version :: string
  ex_revision :: string

section \<open>The inventory of the members\<close>

function drop_here :: "string \<Rightarrow> string" where
  "drop_here s = (if startswith s ''./'' then drop_here (drop 2 s) else s)"
  by pat_completeness auto
termination
  by (relation "measure length") (auto simp: startswith_def gr0_conv_Suc intro!: diff_less)

declare drop_here.simps [simp del]

definition safe_name :: "string \<Rightarrow> bool" where
  "safe_name s =
     (s \<noteq> [] \<and> hd s \<noteq> CHR ''/'' \<and> CHR 0x5C \<notin> set s \<and> CHR 0x00 \<notin> set s \<and>
      list_all (\<lambda>part. part \<noteq> [] \<and> part \<noteq> ''.'' \<and> part \<noteq> ''..'') (split_char (CHR ''/'') s))"

definition member_name :: "tar_entry \<Rightarrow> string res" where
  "member_name e =
     (let s = drop_here (te_name e);
          s' = (if te_kind e = Folder then rstrip_char (CHR ''/'') s else s)
      in rbind (guard (safe_name s')) (\<lambda>_. Inr s'))"

text \<open>One regular member: a blob must have the size and the digest its header and name say.\<close>

definition take_member :: "tools \<Rightarrow> string \<Rightarrow> tar_entry \<Rightarrow> archive \<Rightarrow> archive res" where
  "take_member t name e a =
     (let a1 = a\<lparr>ar_members := dset name e (ar_members a)\<rparr>
      in if startswith name ''blobs/''
         then rbind (guard (blob_name name)) (\<lambda>_.
              rbind (guard (int (length (te_data e)) = te_size e \<and> tl_sha t (te_data e) = drop 13 name)) (\<lambda>_.
              Inr (a1\<lparr>ar_blobs := dset name e (ar_blobs a1)\<rparr>)))
         else Inr a1)"

fun inventory :: "tools \<Rightarrow> int \<Rightarrow> string list \<Rightarrow> tar_entry list \<Rightarrow> archive \<Rightarrow> archive res" where
  "inventory t n seen [] a = Inr a"
| "inventory t n seen (e # es) a =
     rbind (guard (n < 100000)) (\<lambda>_.
     rbind (member_name e) (\<lambda>name.
     rbind (guard (name \<notin> set seen)) (\<lambda>_.
     rbind (guard (te_kind e = Folder \<or> te_kind e = Regular)) (\<lambda>_.
     rbind (if te_kind e = Folder
            then rbind (guard (name = ''blobs'' \<or> name = ''blobs/sha256'')) (\<lambda>_. Inr a)
            else take_member t name e a) (\<lambda>a'.
     inventory t (n + 1) (name # seen) es a')))))"

section \<open>Metadata and descriptors\<close>

text \<open>\<^verbatim>\<open>stream.read(n + 1)\<close> of a member.\<close>

definition read_some :: "int \<Rightarrow> string \<Rightarrow> string" where
  "read_some n s = (if int (length s) \<le> n + 1 then s else take (nat (n + 1)) s)"

definition read_json :: "tools \<Rightarrow> string \<Rightarrow> int \<Rightarrow> archive \<Rightarrow> (pydict \<times> archive) res" where
  "read_json t name max_bytes a =
     (let a1 = a\<lparr>ar_metadata_names := List.insert name (ar_metadata_names a)\<rparr>
      in case map_of (ar_members a1) name of
           None \<Rightarrow> Inl ValueError
         | Some e \<Rightarrow>
             let raw = read_some max_bytes (te_data e);
                 a2 = a1\<lparr>ar_metadata := ar_metadata a1 + int (length raw)\<rparr>
             in rbind (guard (0 < te_size e \<and> te_size e \<le> max_bytes)) (\<lambda>_.
                rbind (guard (int (length raw) = te_size e)) (\<lambda>_.
                rbind (guard (ar_metadata a2 \<le> MAX_JSON_TOTAL)) (\<lambda>_.
                rbind (document t max_bytes raw) (\<lambda>d. Inr (d, a2))))))"

text \<open>The digest of a checked descriptor, the name of its blob.\<close>

definition digest_of :: "pydict \<Rightarrow> string" where
  "digest_of d = text_val (dget d ''digest'')"

definition blob_of :: "pydict \<Rightarrow> string" where
  "blob_of d = BLOB_PREFIX @ drop 7 (digest_of d)"

text \<open>\<^verbatim>\<open>blob\<close> without its \<^verbatim>\<open>metadata\<close>: the descriptor names a blob of the archive of its size.\<close>

definition blob :: "archive \<Rightarrow> pyval \<Rightarrow> string list \<Rightarrow> pydict res" where
  "blob a v media_types =
     (case v of
        PDict d \<Rightarrow>
          (case (dget d ''digest'', dget d ''size'') of
             (PStr digest, PInt sz) \<Rightarrow>
               rbind (guard (image_digest digest \<and> 0 \<le> sz)) (\<lambda>_.
               rbind (in_texts (dget d ''mediaType'') media_types) (\<lambda>ok.
               rbind (guard ok) (\<lambda>_.
               rbind (guard (\<not> haskey d ''urls'')) (\<lambda>_.
               rbind (guard (\<not> haskey d ''data'' \<or>
                             dget d ''mediaType'' = PStr EMPTY_CONFIG \<and> dget d ''data'' = PStr ''e30='')) (\<lambda>_.
               rbind (guard (map_option te_size (map_of (ar_blobs a) (BLOB_PREFIX @ drop 7 digest)) = Some sz)) (\<lambda>_.
               Inr d))))))
           | _ \<Rightarrow> Inl ValueError)
      | _ \<Rightarrow> Inl ValueError)"

text \<open>\<^verbatim>\<open>blob\<close> with \<^verbatim>\<open>metadata=True\<close>: the descriptor and the JSON object of its blob.\<close>

definition blob_json :: "tools \<Rightarrow> pyval \<Rightarrow> string list \<Rightarrow> archive \<Rightarrow> (pydict \<times> pydict \<times> archive) res" where
  "blob_json t v media_types a =
     rbind (blob a v media_types) (\<lambda>d.
     rbind (read_json t (blob_of d) MAX_JSON a) (\<lambda>(data, a'). Inr (d, data, a')))"

definition descriptor_key :: "pydict \<Rightarrow> pydict" where
  "descriptor_key d = map (\<lambda>k. (k, dget d k)) [''mediaType'', ''digest'', ''size'']"

section \<open>Layers\<close>

text \<open>
  \<^verbatim>\<open>layer_digest\<close> reads the expanded bytes of a layer within two limits. An uncompressed member is one
  chunk here: the limits only get tighter along a stream, so the sizes of its chunks do not matter.
\<close>

definition endswith :: "string \<Rightarrow> string \<Rightarrow> bool" where
  "endswith s p = startswith (List.rev s) (List.rev p)"

definition media_of :: "pydict \<Rightarrow> string" where
  "media_of d = text_val (dget d ''mediaType'')"

definition layer_stream :: "tools \<Rightarrow> string \<Rightarrow> string \<Rightarrow> (string list \<times> bool) res" where
  "layer_stream t media raw =
     (if endswith media ''+gzip'' then Inr (tl_gunzip t raw)
      else if endswith media ''+zstd'' then rbind (guard (tl_zstd t)) (\<lambda>_. Inr (tl_unzstd t raw))
      else Inr ([raw], False))"

fun absorb :: "int \<Rightarrow> int \<Rightarrow> string list \<Rightarrow> int res" where
  "absorb used n [] = Inr n"
| "absorb used n (c # cs) =
     (let n' = n + int (length c)
      in rbind (guard (n' \<le> MAX_LAYER_BYTES)) (\<lambda>_.
         rbind (guard (used + n' \<le> MAX_ROOTFS_BYTES)) (\<lambda>_. absorb used n' cs)))"

definition layer_digest :: "tools \<Rightarrow> pydict \<Rightarrow> archive \<Rightarrow> (string \<times> archive) res" where
  "layer_digest t d a =
     (let key = (digest_of d, media_of d)
      in case map_of (ar_layers a) key of
           Some (checked, n) \<Rightarrow>
             let a1 = a\<lparr>ar_rootfs := ar_rootfs a + n\<rparr>
             in rbind (guard (ar_rootfs a1 \<le> MAX_ROOTFS_BYTES)) (\<lambda>_. Inr (checked, a1))
         | None \<Rightarrow>
             (case map_of (ar_blobs a) (blob_of d) of
                None \<Rightarrow> Inl KeyError
              | Some e \<Rightarrow>
                  rbind (layer_stream t (media_of d) (te_data e)) (\<lambda>(chunks, failed).
                  rbind (absorb (ar_rootfs a) 0 chunks) (\<lambda>n.
                  rbind (guard (\<not> failed)) (\<lambda>_.
                  let checked = ''sha256:'' @ tl_sha t (concat chunks)
                  in Inr (checked, a\<lparr>ar_rootfs := ar_rootfs a + n, ar_layers := dset key (checked, n) (ar_layers a)\<rparr>))))))"

section \<open>The runnable image\<close>

text \<open>\<^verbatim>\<open>v in {None, ...}\<close>.\<close>

definition in_optional :: "pyval \<Rightarrow> string list \<Rightarrow> bool res" where
  "in_optional v xs = (if v = PNone then Inr True else in_texts v xs)"

fun all_blobs :: "archive \<Rightarrow> string list \<Rightarrow> pyval list \<Rightarrow> pydict list res" where
  "all_blobs a types [] = Inr []"
| "all_blobs a types (v # vs) =
     rbind (blob a v types) (\<lambda>d. rbind (all_blobs a types vs) (\<lambda>ds. Inr (d # ds)))"

fun check_layers :: "tools \<Rightarrow> pydict list \<Rightarrow> pyval list \<Rightarrow> archive \<Rightarrow> archive res" where
  "check_layers t (d # ds) (x # xs) a =
     rbind (layer_digest t d a) (\<lambda>(checked, a').
     rbind (guard (py_eq (PStr checked) x)) (\<lambda>_. check_layers t ds xs a'))"
| "check_layers t _ _ a = Inr a"

definition platform_ok :: "expected \<Rightarrow> pyval \<Rightarrow> pydict \<Rightarrow> unit res" where
  "platform_ok x platform details =
     (case platform of
        PDict p \<Rightarrow>
          rbind (guard (py_eq (dget p ''os'') (dget details ''os'') \<and> py_eq (dget details ''os'') (PStr (ex_os x)) \<and>
                        py_eq (dget p ''architecture'') (dget details ''architecture'') \<and>
                        py_eq (dget details ''architecture'') (PStr (ex_arch x)))) (\<lambda>_.
          let variants = (if ex_arch x = ''arm64'' then [''v8''] else [])
          in rbind (in_optional (dget p ''variant'') variants) (\<lambda>ok.
             rbind (guard ok) (\<lambda>_.
             rbind (in_optional (dget details ''variant'') variants) (\<lambda>ok'.
             rbind (guard ok') (\<lambda>_.
             guard (\<not> list_ex (\<lambda>k. truthy (dget p k) \<or> truthy (dget details k))
                        [''os.version'', ''os.features'', ''features'']))))))
      | _ \<Rightarrow> Inl ValueError)"

definition labels_ok :: "expected \<Rightarrow> pydict \<Rightarrow> unit res" where
  "labels_ok x details =
     (case dget details ''config'' of
        PDict body \<Rightarrow>
          (case dget body ''Labels'' of
             PDict labels \<Rightarrow>
               guard (py_eq (dget labels ''org.opencontainers.image.version'') (PStr (ex_version x)) \<and>
                      py_eq (dget labels ''org.opencontainers.image.revision'') (PStr (ex_revision x)))
           | _ \<Rightarrow> Inl ValueError)
      | _ \<Rightarrow> Inl ValueError)"

definition diff_ids :: "pydict \<Rightarrow> nat \<Rightarrow> pyval list res" where
  "diff_ids details n =
     (case dget details ''rootfs'' of
        PDict r \<Rightarrow>
          (case dget r ''diff_ids'' of
             PList xs \<Rightarrow>
               rbind (guard (py_eq (dget r ''type'') (PStr ''layers'') \<and> length xs = n \<and>
                             list_all (\<lambda>x. is_str x \<and> image_digest (text_val x)) xs)) (\<lambda>_. Inr xs)
           | _ \<Rightarrow> Inl ValueError)
      | _ \<Rightarrow> Inl ValueError)"

definition image :: "tools \<Rightarrow> expected \<Rightarrow> pydict \<Rightarrow> pydict \<Rightarrow> archive \<Rightarrow> archive res" where
  "image t x d data a =
     rbind (blob_json t (dget data ''config'') [CONFIG] a) (\<lambda>(config, details, a1).
     rbind (platform_ok x (dget d ''platform'') details) (\<lambda>_.
     rbind (labels_ok x details) (\<lambda>_.
     case dget data ''layers'' of
       PList layers \<Rightarrow>
         rbind (guard (int (length layers) \<le> 4096)) (\<lambda>_.
         rbind (all_blobs a1 LAYER_TYPES layers) (\<lambda>ds.
         rbind (diff_ids details (length layers)) (\<lambda>xs.
         rbind (check_layers t ds xs a1) (\<lambda>a2.
         Inr (a2\<lparr>ar_images := ar_images a2 @
                   [\<lparr>im_descriptor = descriptor_key d, im_config = drop 7 (digest_of config)\<rparr>]\<rparr>)))))
     | _ \<Rightarrow> Inl ValueError)))"

section \<open>Attestations\<close>

text \<open>The two forms of an attestation: an OCI artifact with a subject, or the older manifest with a reference.\<close>

definition artifact_subject :: "tools \<Rightarrow> expected \<Rightarrow> pydict \<Rightarrow> pydict \<Rightarrow> pyval \<Rightarrow> archive \<Rightarrow> (pydict \<times> archive) res" where
  "artifact_subject t x d data reference a =
     rbind (guard (py_eq (dget data ''artifactType'') (PStr ATTESTATION))) (\<lambda>_.
     rbind (in_optional (dget d ''artifactType'') [ATTESTATION]) (\<lambda>ok.
     rbind (guard ok) (\<lambda>_.
     rbind (blob_json t (dget data ''config'') [EMPTY_CONFIG] a) (\<lambda>(config, details, a1).
     rbind (guard (details = [] \<and> dget config ''size'' = PInt 2 \<and> digest_of config = ''sha256:'' @ tl_sha t ''{}'')) (\<lambda>_.
     rbind (blob a1 (dget data ''subject'') [MANIFEST]) (\<lambda>s.
     rbind (case dget s ''platform'' of
              PNone \<Rightarrow> Inr ()
            | PDict p \<Rightarrow> guard (py_eq (dget_or p ''os'' (PStr ''linux'')) (PStr ''linux'') \<and>
                            py_eq (dget_or p ''architecture'' (PStr (ex_arch x))) (PStr (ex_arch x)))
            | _ \<Rightarrow> Inl ValueError) (\<lambda>_.
     rbind (in_optional reference [digest_of s]) (\<lambda>same.
     rbind (guard same) (\<lambda>_. Inr (descriptor_key s, a1))))))))))"

definition legacy_subject :: "tools \<Rightarrow> pydict \<Rightarrow> pydict \<Rightarrow> pyval \<Rightarrow> archive \<Rightarrow> (pydict \<times> archive) res" where
  "legacy_subject t d data reference a =
     rbind (guard (\<not> haskey d ''artifactType'' \<and> \<not> haskey data ''subject'')) (\<lambda>_.
     rbind (blob_json t (dget data ''config'') [CONFIG] a) (\<lambda>(config, details, a1).
     rbind (guard (py_eq (dget details ''os'') (dget details ''architecture'') \<and>
                   py_eq (dget details ''architecture'') (PStr ''unknown''))) (\<lambda>_.
     case reference of
       PStr r \<Rightarrow>
         rbind (guard (image_digest r)) (\<lambda>_.
         case map_of (ar_blobs a1) (BLOB_PREFIX @ drop 7 r) of
           None \<Rightarrow> Inl ValueError
         | Some e \<Rightarrow>
             Inr ([(''mediaType'', PStr MANIFEST), (''digest'', PStr r), (''size'', PInt (te_size e))], a1))
     | _ \<Rightarrow> Inl ValueError)))"

text \<open>Some subject of the statement carries the digest of the attested image.\<close>

definition names_subject :: "string \<Rightarrow> pyval \<Rightarrow> bool" where
  "names_subject hex item =
     (case item of
        PDict i \<Rightarrow> (case dget i ''digest'' of PDict g \<Rightarrow> py_eq (dget g ''sha256'') (PStr hex) | _ \<Rightarrow> False)
      | _ \<Rightarrow> False)"

definition statement_type :: "pydict \<Rightarrow> pydict \<Rightarrow> string res" where
  "statement_type subject statement =
     rbind (in_texts (dget statement ''_type'') [''https://in-toto.io/Statement/v0.1'', ''https://in-toto.io/Statement/v1'']) (\<lambda>ok.
     rbind (guard ok) (\<lambda>_.
     case (dget statement ''predicateType'', dget statement ''subject'') of
       (PStr kind, PList subjects) \<Rightarrow>
         rbind (guard (kind \<noteq> [] \<and> subjects \<noteq> [] \<and> list_all is_dict subjects \<and>
                       list_ex (names_subject (drop 7 (digest_of subject))) subjects)) (\<lambda>_. Inr kind)
     | _ \<Rightarrow> Inl ValueError))"

fun statements :: "tools \<Rightarrow> pydict \<Rightarrow> pyval list \<Rightarrow> archive \<Rightarrow> (string list \<times> archive) res" where
  "statements t subject [] a = Inr ([], a)"
| "statements t subject (v # vs) a =
     rbind (blob a v [IN_TOTO]) (\<lambda>d.
     rbind (read_json t (blob_of d) MAX_ATTESTATION_JSON a) (\<lambda>(statement, a1).
     rbind (statement_type subject statement) (\<lambda>kind.
     rbind (statements t subject vs (a1\<lparr>ar_attestation_names := List.insert (blob_of d) (ar_attestation_names a1)\<rparr>)) (\<lambda>(kinds, a2).
     Inr (kind # kinds, a2)))))"

definition attestation :: "tools \<Rightarrow> expected \<Rightarrow> pydict \<Rightarrow> pydict \<Rightarrow> pydict \<Rightarrow> archive \<Rightarrow> archive res" where
  "attestation t x d data annotations a =
     (case dget d ''platform'' of
        PDict p \<Rightarrow>
          rbind (guard (py_eq (dget p ''os'') (dget p ''architecture'') \<and> py_eq (dget p ''architecture'') (PStr ''unknown''))) (\<lambda>_.
          rbind (in_optional (dget annotations REFERENCE_TYPE) [''attestation-manifest'']) (\<lambda>ok.
          rbind (guard ok) (\<lambda>_.
          let reference = dget annotations ''vnd.docker.reference.digest''
          in rbind (if dget data ''artifactType'' \<noteq> PNone then artifact_subject t x d data reference a
                    else legacy_subject t d data reference a) (\<lambda>(subject, a1).
             case dget data ''layers'' of
               PList layers \<Rightarrow>
                 rbind (guard (layers \<noteq> [] \<and> int (length layers) \<le> 4096)) (\<lambda>_.
                 rbind (statements t subject layers a1) (\<lambda>(kinds, a2).
                 Inr (a2\<lparr>ar_attestations := ar_attestations a2 @
                           [\<lparr>at_digest = digest_of d, at_subject = subject, at_types = sort (remdups kinds)\<rparr>]\<rparr>)))
             | _ \<Rightarrow> Inl ValueError))))
      | _ \<Rightarrow> Inl ValueError)"

section \<open>The walk over the graph\<close>

definition schema_ok :: "pydict \<Rightarrow> string \<Rightarrow> bool" where
  "schema_ok data media =
     (dget data ''schemaVersion'' = PInt 2 \<and> py_eq (dget_or data ''mediaType'' (PStr media)) (PStr media))"

text \<open>The checks of \<^verbatim>\<open>walk_index\<close>; the children it walks.\<close>

definition index_children :: "pydict \<Rightarrow> pyval list res" where
  "index_children data =
     rbind (guard (schema_ok data INDEX)) (\<lambda>_.
     rbind (guard (\<not> haskey data ''subject'' \<and> \<not> haskey data ''artifactType'')) (\<lambda>_.
     case dget data ''manifests'' of
       PList ms \<Rightarrow> rbind (guard (0 < int (length ms) \<and> int (length ms) \<le> 1024)) (\<lambda>_. Inr ms)
     | _ \<Rightarrow> Inl ValueError))"

text \<open>The end of \<^verbatim>\<open>walk\<close>, for a descriptor that is not an index.\<close>

definition annotations_of :: "pydict \<Rightarrow> pydict res" where
  "annotations_of d =
     (case dget_or d ''annotations'' (PDict []) of
        PDict m \<Rightarrow> rbind (guard (list_all (\<lambda>(k, v). is_str v) m)) (\<lambda>_. Inr m)
      | _ \<Rightarrow> Inl ValueError)"

definition leaf :: "tools \<Rightarrow> expected \<Rightarrow> pydict \<Rightarrow> pydict \<Rightarrow> archive \<Rightarrow> archive res" where
  "leaf t x d data a =
     rbind (annotations_of d) (\<lambda>annotations.
     rbind (if py_eq (dget annotations REFERENCE_TYPE) (PStr ''attestation-manifest'') \<or>
               py_eq (dget data ''artifactType'') (PStr ATTESTATION)
            then attestation t x d data annotations a
            else rbind (guard (\<not> haskey d ''artifactType'' \<and> \<not> haskey data ''artifactType'' \<and>
                               \<not> haskey data ''subject'' \<and> \<not> haskey annotations REFERENCE_TYPE)) (\<lambda>_.
                 image t x d data a)) (\<lambda>a1.
     rbind (guard (\<forall>l\<in>set (ar_leaves a1). digest_of l \<noteq> digest_of d)) (\<lambda>_.
     Inr (a1\<lparr>ar_leaves := ar_leaves a1 @ [d]\<rparr>))))"

text \<open>
  \<^verbatim>\<open>walk\<close> on each of the descriptors an index lists: depth first, counting every visit before it looks
  at the descriptor. The depth is limited, so the recursion ends.
\<close>

lemma rbind_cong [fundef_cong]: "m = m' \<Longrightarrow> (\<And>a. m' = Inr a \<Longrightarrow> f a = g a) \<Longrightarrow> rbind m f = rbind m' g"
  by (cases m') simp_all

function walk :: "tools \<Rightarrow> expected \<Rightarrow> pyval list \<Rightarrow> nat \<Rightarrow> archive \<Rightarrow> archive res" where
  "walk t x [] depth a = Inr a"
| "walk t x (v # vs) depth a =
     (let a1 = a\<lparr>ar_visited := ar_visited a + 1\<rparr>
      in if 8 < depth \<or> 1024 < ar_visited a1 then Inl ValueError
         else rbind (blob_json t v [INDEX, MANIFEST] a1) (\<lambda>(d, data, a2).
              rbind (guard (schema_ok data (media_of d))) (\<lambda>_.
              rbind (if media_of d = INDEX
                     then rbind (index_children data) (\<lambda>children. walk t x children (depth + 1) a2)
                     else leaf t x d data a2) (\<lambda>a3.
              walk t x vs depth a3))))"
  by pat_completeness auto
termination
  by (relation "measures [\<lambda>(t, x, vs, depth, a). 9 - depth, \<lambda>(t, x, vs, depth, a). length vs]") auto

section \<open>Reading one input\<close>

text \<open>
  A file given as input: its name, whether it is a symbolic link or a regular file, its bytes, and
  whether \<^verbatim>\<open>fstat\<close> still gives the first stamps after it was read and at the end of the merge.
\<close>

record source =
  sr_name :: string
  sr_link :: bool
  sr_regular :: bool
  sr_bytes :: string
  sr_same_read :: bool
  sr_same_end :: bool

definition validate_complete_graph :: "archive \<Rightarrow> unit res" where
  "validate_complete_graph a =
     (case ar_images a of
        [im] \<Rightarrow> guard (list_all (\<lambda>s. at_subject s = im_descriptor im) (ar_attestations a))
      | _ \<Rightarrow> Inl ValueError)"

definition open_archive :: "tools \<Rightarrow> expected \<Rightarrow> source \<Rightarrow> archive res" where
  "open_archive t x src =
     rbind (guard (\<not> sr_link src)) (\<lambda>_.
     rbind (guard (sr_regular src)) (\<lambda>_.
     rbind (tl_untar t (sr_bytes src)) (\<lambda>entries.
     rbind (inventory t 0 [] entries archive_init) (\<lambda>a1.
     rbind (read_json t ''oci-layout'' MAX_JSON a1) (\<lambda>(layout, a2).
     rbind (guard (py_eq (dget layout ''imageLayoutVersion'') (PStr ''1.0.0''))) (\<lambda>_.
     rbind (read_json t ''index.json'' MAX_JSON a2) (\<lambda>(root, a3).
     rbind (index_children root) (\<lambda>children.
     rbind (walk t x children 0 a3) (\<lambda>a4.
     rbind (validate_complete_graph a4) (\<lambda>_.
     rbind (guard (sr_same_read src)) (\<lambda>_. Inr a4)))))))))))"

section \<open>The merge\<close>

definition version_char :: "char \<Rightarrow> bool" where
  "version_char c = (is_alpha c \<or> is_digit c \<or> c \<in> {CHR ''.'', CHR ''+'', CHR ''-''})"

definition image_version :: "string \<Rightarrow> bool" where
  "image_version s =
     (s \<noteq> [] \<and> (is_alpha (hd s) \<or> is_digit (hd s)) \<and> list_all version_char s \<and> int (length s) \<le> 128)"

text \<open>\<^verbatim>\<open>output\<close>: whether the path exists at first, has a parent directory, and exists when the finished file is linked.\<close>

record target =
  tg_name :: string
  tg_exists :: bool
  tg_parent :: bool
  tg_taken :: bool

definition expect :: "string \<Rightarrow> string \<Rightarrow> string \<Rightarrow> expected" where
  "expect platform version revision =
     (case split_char (CHR ''/'') platform of
        [os, arch] \<Rightarrow> \<lparr>ex_os = os, ex_arch = arch, ex_version = version, ex_revision = revision\<rparr>
      | _ \<Rightarrow> \<lparr>ex_os = [], ex_arch = [], ex_version = version, ex_revision = revision\<rparr>)"

fun open_all :: "tools \<Rightarrow> (string, source) dict \<Rightarrow> string \<Rightarrow> string \<Rightarrow> string list \<Rightarrow>
    (string \<times> source \<times> archive) list res" where
  "open_all t inputs version revision [] = Inr []"
| "open_all t inputs version revision (p # ps) =
     (case map_of inputs p of
        None \<Rightarrow> Inl KeyError
      | Some src \<Rightarrow>
          rbind (open_archive t (expect p version revision) src) (\<lambda>a.
          rbind (open_all t inputs version revision ps) (\<lambda>rest. Inr ((p, src, a) # rest))))"

text \<open>
  Runtime images precede attestations; then architecture and digest decide. The leaves of an opened
  archive all have a platform with these texts.
\<close>

definition leaf_key :: "pydict \<Rightarrow> bool \<times> string \<times> string" where
  "leaf_key d =
     (case dget d ''platform'' of
        PDict p \<Rightarrow> (dget p ''os'' = PStr ''unknown'', text_val (dget p ''architecture''), digest_of d)
      | _ \<Rightarrow> (False, [], digest_of d))"

definition index_json :: "pyval list \<Rightarrow> pyval" where
  "index_json ms =
     PDict [(''schemaVersion'', PInt 2), (''mediaType'', PStr INDEX), (''manifests'', PList ms)]"

text \<open>The three generated members: the layout, the root index and the index it names.\<close>

definition generated_members :: "tools \<Rightarrow> pydict list \<Rightarrow> ((string, string) dict \<times> string) res" where
  "generated_members t leaves =
     rbind (canonical (index_json (map PDict leaves))) (\<lambda>inner.
     let digest = tl_sha t inner
     in rbind (canonical (index_json [PDict [(''mediaType'', PStr INDEX), (''digest'', PStr (''sha256:'' @ digest)),
                                            (''size'', PInt (int (length inner)))]])) (\<lambda>root.
        rbind (canonical (PDict [(''imageLayoutVersion'', PStr ''1.0.0'')])) (\<lambda>layout.
        Inr ([(''oci-layout'', layout), (''index.json'', root), (BLOB_PREFIX @ digest, inner)], digest))))"

text \<open>All blobs of the inputs; a blob both have must have one size.\<close>

fun share_blobs :: "(string, tar_entry) dict \<Rightarrow> (string, tar_entry) dict \<Rightarrow> (string, tar_entry) dict res" where
  "share_blobs blobs [] = Inr blobs"
| "share_blobs blobs ((name, e) # rest) =
     rbind (guard (case map_of blobs name of None \<Rightarrow> True | Some e' \<Rightarrow> te_size e' = te_size e)) (\<lambda>_.
     share_blobs (dset name e blobs) rest)"

fun union_blobs :: "(string, tar_entry) dict \<Rightarrow> (string, tar_entry) dict list \<Rightarrow> (string, tar_entry) dict res" where
  "union_blobs blobs [] = Inr blobs"
| "union_blobs blobs (bs # rest) = rbind (share_blobs blobs bs) (\<lambda>blobs'. union_blobs blobs' rest)"

text \<open>\<^verbatim>\<open>add_file\<close>: a fresh header of the given size over the bytes.\<close>

definition add_file :: "string \<Rightarrow> int \<Rightarrow> string \<Rightarrow> tar_entry" where
  "add_file name n raw = \<lparr>te_name = name, te_kind = Regular, te_size = n, te_data = raw\<rparr>"

definition merged_members :: "(string, string) dict \<Rightarrow> (string, tar_entry) dict \<Rightarrow> tar_entry list" where
  "merged_members generated blobs =
     map (\<lambda>name. case map_of generated name of
                   Some raw \<Rightarrow> add_file name (int (length raw)) raw
                 | None \<Rightarrow> (case map_of blobs name of
                             Some e \<Rightarrow> add_file name (te_size e) (te_data e)
                           | None \<Rightarrow> add_file name 0 []))
         (sort (remdups (map fst generated @ map fst blobs)))"

text \<open>What the merge reports.\<close>

definition image_value :: "oci_image \<Rightarrow> pyval" where
  "image_value im = PDict [(''descriptor'', PDict (im_descriptor im)), (''config_sha256'', PStr (im_config im))]"

definition attestation_value :: "oci_attestation \<Rightarrow> pyval" where
  "attestation_value s =
     PDict [(''digest'', PStr (at_digest s)), (''subject'', PDict (at_subject s)), (''predicate_types'', PList (map PStr (at_types s)))]"

definition identity_fields :: "tools \<Rightarrow> string \<Rightarrow> pydict" where
  "identity_fields t raw = [(''sha256'', PStr (tl_sha t raw)), (''size'', PInt (int (length raw)))]"

definition image_report :: "string \<Rightarrow> archive \<Rightarrow> pyval" where
  "image_report platform a =
     (let im = hd (ar_images a); atts = ar_attestations a
      in PDict [(''platform'', PStr platform), (''config_digest'', PStr (''sha256:'' @ im_config im)),
           (''manifest_digest'', dget (im_descriptor im) ''digest''),
           (''provenance_digests'', PList (map (\<lambda>s. PStr (at_digest s))
              (filter (\<lambda>s. list_ex (\<lambda>k. k \<in> set PROVENANCE_TYPES) (at_types s)) atts))),
           (''attestation_digests'', PList (map (\<lambda>s. PStr (at_digest s)) atts))])"

definition input_report :: "tools \<Rightarrow> string \<times> source \<times> archive \<Rightarrow> pyval" where
  "input_report t = (\<lambda>(platform, src, a).
     PDict ([(''platform'', PStr platform), (''name'', PStr (sr_name src))] @ identity_fields t (sr_bytes src) @
            [(''image'', image_value (hd (ar_images a))), (''attestations'', PList (map attestation_value (ar_attestations a)))]))"

text \<open>
  \<^verbatim>\<open>merge_archives\<close>: \<open>Inr\<close> are the members of the file that was linked to the output path, and the report;
  with \<open>Inl\<close> the output path was not created.
\<close>

definition merge_archives :: "tools \<Rightarrow> (string, source) dict \<Rightarrow> target \<Rightarrow> string \<Rightarrow> string \<Rightarrow> (tar_entry list \<times> pyval) res" where
  "merge_archives t inputs out version revision =
     rbind (guard (fst ` set inputs = set PLATFORMS)) (\<lambda>_.
     rbind (guard (image_version version)) (\<lambda>_.
     rbind (guard (sha_text revision)) (\<lambda>_.
     rbind (guard (\<not> tg_exists out)) (\<lambda>_.
     rbind (guard (tg_parent out)) (\<lambda>_.
     rbind (open_all t inputs version revision PLATFORMS) (\<lambda>opened.
     let archives = map (\<lambda>(p, src, a). a) opened;
         leaves = sort_key leaf_key (concat (map ar_leaves archives))
     in rbind (generated_members t leaves) (\<lambda>(generated, digest).
        rbind (union_blobs [] (map ar_blobs archives)) (\<lambda>blobs.
        let members = merged_members generated blobs; raw = tl_tar t members
        in rbind (guard (list_all (\<lambda>(p, src, a). sr_same_end src) opened)) (\<lambda>_.
           if tg_taken out then Inl FileExistsError
           else Inr (members, PDict [(''schema'', PInt 1), (''version'', PStr version), (''revision'', PStr revision),
              (''images'', PDict (map (\<lambda>(p, src, a). (p, image_report p a)) opened)),
              (''inputs'', PList (map (input_report t) opened)),
              (''output'', PDict ([(''name'', PStr (tg_name out))] @ identity_fields t raw @ [(''index_sha256'', PStr digest)]))]))))))))))"

section \<open>What an opened archive guarantees\<close>

text \<open>Every recorded blob has the name, the size and the digest of its bytes.\<close>

definition intact :: "tools \<Rightarrow> (string, tar_entry) dict \<Rightarrow> bool" where
  "intact t bl =
     (distinct (map fst bl) \<and>
      (\<forall>name e. map_of bl name = Some e \<longrightarrow>
         blob_name name \<and> te_kind e = Regular \<and> te_size e = int (length (te_data e)) \<and> tl_sha t (te_data e) = drop 13 name))"

definition filed :: "tools \<Rightarrow> archive \<Rightarrow> bool" where
  "filed t a = (intact t (ar_blobs a) \<and> map_of (ar_blobs a) \<subseteq>\<^sub>m map_of (ar_members a))"

lemmas step_iff = rbind_Inr_iff guard_Inr

lemma take_member_filed:
  assumes "take_member t name e a = Inr a'" "te_kind e = Regular" "filed t a" "name \<notin> dom (map_of (ar_members a))"
  shows "filed t a' \<and> dom (map_of (ar_members a')) = insert name (dom (map_of (ar_members a)))"
proof (cases "startswith name ''blobs/''")
  case True
  with assms(1) have g: "blob_name name" "int (length (te_data e)) = te_size e" "tl_sha t (te_data e) = drop 13 name"
    and a': "a' = a\<lparr>ar_members := dset name e (ar_members a), ar_blobs := dset name e (ar_blobs a)\<rparr>"
    by (auto simp: take_member_def Let_def step_iff)
  from assms(3) have f: "intact t (ar_blobs a)" "map_of (ar_blobs a) \<subseteq>\<^sub>m map_of (ar_members a)"
    by (simp_all add: filed_def)
  have "intact t (ar_blobs a')"
    using f(1) g assms(2) unfolding a' intact_def by (simp add: distinct_dset)
  moreover have "map_of (ar_blobs a') \<subseteq>\<^sub>m map_of (ar_members a')"
    using f(2) unfolding a' map_le_def by (auto simp: dom_def)
  moreover have "dom (map_of (ar_members a')) = insert name (dom (map_of (ar_members a)))"
    unfolding a' by (auto simp: dom_def)
  ultimately show ?thesis by (simp add: filed_def)
next
  case False
  with assms(1) have a': "a' = a\<lparr>ar_members := dset name e (ar_members a)\<rparr>"
    by (simp add: take_member_def Let_def)
  from assms(3) have f: "intact t (ar_blobs a)" "map_of (ar_blobs a) \<subseteq>\<^sub>m map_of (ar_members a)"
    by (simp_all add: filed_def)
  have "map_of (ar_blobs a') \<subseteq>\<^sub>m map_of (ar_members a')"
    using f(2) assms(4) unfolding a' map_le_def by (auto simp: dom_def)
  moreover have "dom (map_of (ar_members a')) = insert name (dom (map_of (ar_members a)))"
    unfolding a' by (auto simp: dom_def)
  ultimately show ?thesis using f(1) by (simp add: filed_def a')
qed

text \<open>The inventory touches the members and blobs only.\<close>

definition files_only :: "archive \<Rightarrow> archive \<Rightarrow> bool" where
  "files_only a a' =
     (ar_leaves a' = ar_leaves a \<and> ar_images a' = ar_images a \<and> ar_attestations a' = ar_attestations a \<and>
      ar_visited a' = ar_visited a \<and> ar_metadata a' = ar_metadata a \<and> ar_layers a' = ar_layers a \<and>
      ar_rootfs a' = ar_rootfs a)"

lemma take_member_files: "take_member t name e a = Inr a' \<Longrightarrow> files_only a a'"
  by (auto simp: take_member_def Let_def step_iff files_only_def split: if_splits)

lemma inventory_filed:
  "inventory t n seen es a = Inr a' \<Longrightarrow> filed t a \<Longrightarrow> dom (map_of (ar_members a)) \<subseteq> set seen \<Longrightarrow>
     filed t a' \<and> files_only a a'"
proof (induction t n seen es a rule: inventory.induct)
  case (1 t n seen a)
  then show ?case by (simp add: files_only_def)
next
  case (2 t n seen e es a)
  from 2(2) obtain name a1 where m: "n < 100000" "member_name e = Inr name" "name \<notin> set seen"
    "te_kind e = Folder \<or> te_kind e = Regular"
    and s: "(if te_kind e = Folder then rbind (guard (name = ''blobs'' \<or> name = ''blobs/sha256'')) (\<lambda>_. Inr a)
      else take_member t name e a) = Inr a1"
    and r: "inventory t (n + 1) (name # seen) es a1 = Inr a'"
    by (auto simp: step_iff)
  have *: "filed t a1 \<and> files_only a a1 \<and> dom (map_of (ar_members a1)) \<subseteq> insert name (set seen)"
  proof (cases "te_kind e = Folder")
    case True
    then show ?thesis using s 2(3,4) by (auto simp: step_iff files_only_def)
  next
    case False
    then have t: "take_member t name e a = Inr a1" "te_kind e = Regular" using s m(4) by auto
    have "name \<notin> dom (map_of (ar_members a))" using m(3) 2(4) by auto
    from take_member_filed [OF t 2(3) this] take_member_files [OF t(1)] 2(4) show ?thesis by auto
  qed
  have "filed t a' \<and> files_only a1 a'"
    by (rule 2(1)) (use m s r * in \<open>auto simp: guard_def\<close>)
  with * show ?case by (auto simp: files_only_def)
qed

text \<open>Reading metadata changes the byte counter and the recorded names only.\<close>

definition reads_only :: "archive \<Rightarrow> archive \<Rightarrow> bool" where
  "reads_only a a' =
     (ar_members a' = ar_members a \<and> ar_blobs a' = ar_blobs a \<and> ar_leaves a' = ar_leaves a \<and>
      ar_images a' = ar_images a \<and> ar_attestations a' = ar_attestations a \<and> ar_visited a' = ar_visited a \<and>
      ar_layers a' = ar_layers a \<and> ar_rootfs a' = ar_rootfs a \<and> ar_metadata a \<le> ar_metadata a' \<and>
      (ar_metadata a \<le> MAX_JSON_TOTAL \<longrightarrow> ar_metadata a' \<le> MAX_JSON_TOTAL))"

lemma reads_only_refl: "reads_only a a"
  by (simp add: reads_only_def)

lemma reads_only_trans: "reads_only a b \<Longrightarrow> reads_only b c \<Longrightarrow> reads_only a c"
  by (auto simp: reads_only_def)

lemma read_some_whole:
  assumes "int (length (read_some n s)) = k" "0 < k" "k \<le> n"
  shows "read_some n s = s \<and> int (length s) = k"
  using assms by (auto simp: read_some_def split: if_splits)

lemma read_json_Inr:
  assumes "read_json t name n a = Inr (d, a')"
  shows "\<exists>e. map_of (ar_members a) name = Some e \<and> document t n (te_data e) = Inr d \<and>
    te_size e = int (length (te_data e)) \<and> reads_only a a'"
proof -
  from assms obtain e where e: "map_of (ar_members a) name = Some e" "0 < te_size e" "te_size e \<le> n"
    "int (length (read_some n (te_data e))) = te_size e"
    "ar_metadata a + int (length (read_some n (te_data e))) \<le> MAX_JSON_TOTAL"
    and d: "document t n (read_some n (te_data e)) = Inr d"
    and a': "a' = a\<lparr>ar_metadata_names := List.insert name (ar_metadata_names a),
      ar_metadata := ar_metadata a + int (length (read_some n (te_data e)))\<rparr>"
    by (auto simp: read_json_def Let_def step_iff split: option.splits)
  from read_some_whole [OF e(4,2,3)] have w: "read_some n (te_data e) = te_data e" "int (length (te_data e)) = te_size e"
    by auto
  show ?thesis using e d w by (auto simp: a' reads_only_def)
qed

text \<open>The JSON object a descriptor leads to.\<close>

definition blob_document :: "tools \<Rightarrow> (string, tar_entry) dict \<Rightarrow> int \<Rightarrow> pydict \<Rightarrow> pydict option" where
  "blob_document t bl n d =
     (case map_of bl (blob_of d) of
        None \<Rightarrow> None
      | Some e \<Rightarrow> (case document t n (te_data e) of Inl _ \<Rightarrow> None | Inr m \<Rightarrow> Some m))"

definition described :: "(string, tar_entry) dict \<Rightarrow> string list \<Rightarrow> pydict \<Rightarrow> bool" where
  "described bl types d =
     (image_digest (digest_of d) \<and> media_of d \<in> set types \<and> dget d ''mediaType'' = PStr (media_of d) \<and>
      dget d ''digest'' = PStr (digest_of d) \<and>
      (\<exists>e. map_of bl (blob_of d) = Some e \<and> dget d ''size'' = PInt (te_size e)))"

lemma blob_Inr: "blob a v types = Inr d \<Longrightarrow> v = PDict d \<and> described (ar_blobs a) types d"
  by (auto simp: blob_def step_iff described_def digest_of_def media_of_def blob_of_def text_val_def in_texts_def
      split: pyval.splits if_splits)

lemma filed_member: "filed t a \<Longrightarrow> map_of (ar_blobs a) name = Some e \<Longrightarrow> map_of (ar_members a) name = Some e"
  by (auto simp: filed_def map_le_def dom_def)

lemma read_blob:
  assumes "read_json t (blob_of d) n a = Inr (m, a')" "described (ar_blobs a) types d" "filed t a"
  shows "blob_document t (ar_blobs a) n d = Some m \<and> reads_only a a'"
proof -
  from assms(2) obtain e where e: "map_of (ar_blobs a) (blob_of d) = Some e" by (auto simp: described_def)
  from read_json_Inr [OF assms(1)] filed_member [OF assms(3) e] e show ?thesis by (auto simp: blob_document_def)
qed

lemma blob_json_Inr:
  assumes "blob_json t v types a = Inr (d, m, a')" "filed t a"
  shows "v = PDict d \<and> described (ar_blobs a) types d \<and> blob_document t (ar_blobs a) MAX_JSON d = Some m \<and> reads_only a a'"
proof -
  from assms(1) have b: "blob a v types = Inr d" and r: "read_json t (blob_of d) MAX_JSON a = Inr (m, a')"
    by (auto simp: blob_json_def step_iff)
  from blob_Inr [OF b] read_blob [OF r _ assms(2)] show ?thesis by blast
qed

lemma digest_of_key [simp]: "digest_of (descriptor_key d) = digest_of d"
  by (simp add: digest_of_def descriptor_key_def dget_def)

lemma blob_of_key [simp]: "blob_of (descriptor_key d) = blob_of d"
  by (simp add: blob_of_def)

text \<open>The expanded bytes of a layer, and the cache of their digests.\<close>

definition expanded :: "tools \<Rightarrow> (string, tar_entry) dict \<Rightarrow> pydict \<Rightarrow> string option" where
  "expanded t bl d =
     (case map_of bl (blob_of d) of
        None \<Rightarrow> None
      | Some e \<Rightarrow>
          (case layer_stream t (media_of d) (te_data e) of
             Inr (chunks, failed) \<Rightarrow> if failed then None else Some (concat chunks)
           | Inl _ \<Rightarrow> None))"

definition layer_known :: "tools \<Rightarrow> (string, tar_entry) dict \<Rightarrow> pydict \<Rightarrow> string \<times> int \<Rightarrow> bool" where
  "layer_known t bl d = (\<lambda>(checked, n). \<exists>s. expanded t bl d = Some s \<and>
     checked = ''sha256:'' @ tl_sha t s \<and> n = int (length s) \<and> n \<le> MAX_LAYER_BYTES)"

definition cache_ok :: "tools \<Rightarrow> archive \<Rightarrow> bool" where
  "cache_ok t a = (\<forall>d r. map_of (ar_layers a) (digest_of d, media_of d) = Some r \<longrightarrow> layer_known t (ar_blobs a) d r)"

lemma expanded_cong: "digest_of d = digest_of d' \<Longrightarrow> media_of d = media_of d' \<Longrightarrow> expanded t bl d = expanded t bl d'"
  by (simp add: expanded_def blob_of_def split: option.split)

lemma absorb_Inr: "absorb used n cs = Inr m \<Longrightarrow> 0 \<le> n \<Longrightarrow> n \<le> MAX_LAYER_BYTES \<Longrightarrow> used + n \<le> MAX_ROOTFS_BYTES \<Longrightarrow>
    m = n + int (length (concat cs)) \<and> m \<le> MAX_LAYER_BYTES \<and> used + m \<le> MAX_ROOTFS_BYTES"
  by (induction used n cs rule: absorb.induct) (auto simp: Let_def step_iff)

text \<open>Checking a layer changes the cache and the running total only.\<close>

definition layers_only :: "archive \<Rightarrow> archive \<Rightarrow> bool" where
  "layers_only a a' =
     (ar_members a' = ar_members a \<and> ar_blobs a' = ar_blobs a \<and> ar_leaves a' = ar_leaves a \<and>
      ar_images a' = ar_images a \<and> ar_attestations a' = ar_attestations a \<and> ar_visited a' = ar_visited a \<and>
      ar_metadata a' = ar_metadata a)"

lemma layer_digest_Inr:
  assumes "layer_digest t d a = Inr (checked, a')" "cache_ok t a" "ar_rootfs a \<le> MAX_ROOTFS_BYTES"
  shows "\<exists>s. expanded t (ar_blobs a) d = Some s \<and> checked = ''sha256:'' @ tl_sha t s \<and> int (length s) \<le> MAX_LAYER_BYTES \<and>
    ar_rootfs a' = ar_rootfs a + int (length s) \<and> ar_rootfs a' \<le> MAX_ROOTFS_BYTES \<and> cache_ok t a' \<and> layers_only a a'"
proof (cases "map_of (ar_layers a) (digest_of d, media_of d)")
  case (Some r)
  then obtain n where r: "r = (checked, n)" and a': "a' = a\<lparr>ar_rootfs := ar_rootfs a + n\<rparr>" "ar_rootfs a + n \<le> MAX_ROOTFS_BYTES"
    using assms(1) by (auto simp: layer_digest_def Let_def step_iff split: prod.splits)
  from assms(2) Some r have k: "layer_known t (ar_blobs a) d (checked, n)" by (auto simp: cache_ok_def)
  from assms(2) have "cache_ok t a'" by (simp add: cache_ok_def a')
  with k a' show ?thesis by (auto simp: layer_known_def layers_only_def)
next
  case None
  with assms(1) obtain e chunks n where e: "map_of (ar_blobs a) (blob_of d) = Some e"
    and st: "layer_stream t (media_of d) (te_data e) = Inr (chunks, False)"
    and ab: "absorb (ar_rootfs a) 0 chunks = Inr n" and c: "checked = ''sha256:'' @ tl_sha t (concat chunks)"
    and a': "a' = a\<lparr>ar_rootfs := ar_rootfs a + n, ar_layers := dset (digest_of d, media_of d) (checked, n) (ar_layers a)\<rparr>"
    by (auto simp: layer_digest_def Let_def step_iff split: option.splits prod.splits)
  have x: "expanded t (ar_blobs a) d = Some (concat chunks)" using e st by (simp add: expanded_def)
  have n: "n = int (length (concat chunks))" "n \<le> MAX_LAYER_BYTES" "ar_rootfs a + n \<le> MAX_ROOTFS_BYTES"
    using absorb_Inr [OF ab] assms(3) by (auto simp: MAX_LAYER_BYTES_def)
  have "layer_known t (ar_blobs a) d (checked, n)" using x n c by (simp add: layer_known_def)
  then have here: "layer_known t (ar_blobs a) d' (checked, n)" if "digest_of d' = digest_of d" "media_of d' = media_of d" for d'
    using expanded_cong [OF that] by (simp add: layer_known_def)
  have "cache_ok t a'"
    unfolding cache_ok_def
  proof (intro allI impI)
    fix d' r assume r: "map_of (ar_layers a') (digest_of d', media_of d') = Some r"
    show "layer_known t (ar_blobs a') d' r"
    proof (cases "digest_of d' = digest_of d \<and> media_of d' = media_of d")
      case True
      then show ?thesis using r here [of d'] by (simp add: a')
    next
      case False
      then have "map_of (ar_layers a) (digest_of d', media_of d') = Some r" using r by (auto simp: a')
      with assms(2) have "layer_known t (ar_blobs a) d' r" unfolding cache_ok_def by blast
      then show ?thesis by (simp add: a')
    qed
  qed
  with x n c show ?thesis by (auto simp: a' layers_only_def)
qed

lemma py_eq_PStr [simp]: "py_eq (PStr s) v \<longleftrightarrow> v = PStr s" "py_eq v (PStr s) \<longleftrightarrow> v = PStr s"
  by (auto simp: py_eq_def split: option.splits)

section \<open>Images and attestations, stated over the blobs\<close>

definition layer_bytes :: "tools \<Rightarrow> (string, tar_entry) dict \<Rightarrow> pyval \<Rightarrow> string option" where
  "layer_bytes t bl v = (case v of PDict d \<Rightarrow> expanded t bl d | _ \<Rightarrow> None)"

text \<open>The expanded layers of an image, its configuration and a label of it.\<close>

definition image_layers :: "tools \<Rightarrow> (string, tar_entry) dict \<Rightarrow> oci_image \<Rightarrow> string list option" where
  "image_layers t bl im =
     (case blob_document t bl MAX_JSON (im_descriptor im) of
        None \<Rightarrow> None
      | Some m \<Rightarrow> (case dget m ''layers'' of PList vs \<Rightarrow> those (map (layer_bytes t bl) vs) | _ \<Rightarrow> None))"

definition image_details :: "tools \<Rightarrow> (string, tar_entry) dict \<Rightarrow> oci_image \<Rightarrow> pydict option" where
  "image_details t bl im =
     (case blob_document t bl MAX_JSON (im_descriptor im) of
        None \<Rightarrow> None
      | Some m \<Rightarrow>
          (case dget m ''config'' of
             PDict c \<Rightarrow> if digest_of c = ''sha256:'' @ im_config im then blob_document t bl MAX_JSON c else None
           | _ \<Rightarrow> None))"

definition image_label :: "pydict \<Rightarrow> string \<Rightarrow> pyval" where
  "image_label details k =
     (case dget details ''config'' of
        PDict body \<Rightarrow> (case dget body ''Labels'' of PDict labels \<Rightarrow> dget labels k | _ \<Rightarrow> PNone)
      | _ \<Rightarrow> PNone)"

definition root_ids :: "pydict \<Rightarrow> pyval" where
  "root_ids details = (case dget details ''rootfs'' of PDict r \<Rightarrow> dget r ''diff_ids'' | _ \<Rightarrow> PNone)"

text \<open>
  The image is of the expected platform, version and revision, and the expanded bytes of its layers
  are the ones its configuration promises.
\<close>

definition bound_image :: "tools \<Rightarrow> expected \<Rightarrow> (string, tar_entry) dict \<Rightarrow> oci_image \<Rightarrow> bool" where
  "bound_image t x bl im =
     (described bl [MANIFEST] (im_descriptor im) \<and>
      (case (image_details t bl im, image_layers t bl im) of
         (Some details, Some contents) \<Rightarrow>
           dget details ''os'' = PStr (ex_os x) \<and> dget details ''architecture'' = PStr (ex_arch x) \<and>
           image_label details ''org.opencontainers.image.version'' = PStr (ex_version x) \<and>
           image_label details ''org.opencontainers.image.revision'' = PStr (ex_revision x) \<and>
           root_ids details = PList (map (\<lambda>s. PStr (''sha256:'' @ tl_sha t s)) contents) \<and>
           list_all (\<lambda>s. int (length s) \<le> MAX_LAYER_BYTES) contents
       | _ \<Rightarrow> False))"

definition image_size :: "tools \<Rightarrow> (string, tar_entry) dict \<Rightarrow> oci_image \<Rightarrow> int" where
  "image_size t bl im =
     (case image_layers t bl im of None \<Rightarrow> 0 | Some contents \<Rightarrow> sum_list (map (\<lambda>s. int (length s)) contents))"

text \<open>Each statement of an attestation names the digest of the attested image.\<close>

definition says :: "tools \<Rightarrow> (string, tar_entry) dict \<Rightarrow> pydict \<Rightarrow> pyval \<Rightarrow> string \<Rightarrow> bool" where
  "says t bl subject v kind =
     (case v of
        PDict l \<Rightarrow>
          (case blob_document t bl MAX_ATTESTATION_JSON l of
             None \<Rightarrow> False
           | Some st \<Rightarrow>
               dget st ''predicateType'' = PStr kind \<and>
               (case dget st ''subject'' of
                  PList subjects \<Rightarrow> list_ex (names_subject (drop 7 (digest_of subject))) subjects
                | _ \<Rightarrow> False))
      | _ \<Rightarrow> False)"

definition attested :: "tools \<Rightarrow> (string, tar_entry) dict \<Rightarrow> oci_attestation \<Rightarrow> bool" where
  "attested t bl s =
     (\<exists>d m vs kinds. described bl [MANIFEST] d \<and> digest_of d = at_digest s \<and>
        blob_document t bl MAX_JSON d = Some m \<and> dget m ''layers'' = PList vs \<and> vs \<noteq> [] \<and>
        list_all2 (says t bl (at_subject s)) vs kinds \<and> at_types s = sort (remdups kinds))"

section \<open>Each step keeps the record true\<close>

lemma all_blobs_Inr: "all_blobs a types vs = Inr ds \<Longrightarrow> vs = map PDict ds \<and> (\<forall>d\<in>set ds. described (ar_blobs a) types d)"
  by (induction vs arbitrary: ds) (auto simp: step_iff dest!: blob_Inr)

lemma check_layers_Inr:
  assumes "check_layers t ds xs a = Inr a'" "length ds = length xs" "cache_ok t a" "ar_rootfs a \<le> MAX_ROOTFS_BYTES"
  shows "\<exists>contents. those (map (expanded t (ar_blobs a)) ds) = Some contents \<and>
    xs = map (\<lambda>s. PStr (''sha256:'' @ tl_sha t s)) contents \<and> list_all (\<lambda>s. int (length s) \<le> MAX_LAYER_BYTES) contents \<and>
    ar_rootfs a' = ar_rootfs a + sum_list (map (\<lambda>s. int (length s)) contents) \<and> ar_rootfs a' \<le> MAX_ROOTFS_BYTES \<and>
    cache_ok t a' \<and> layers_only a a'"
  using assms
proof (induction t ds xs a rule: check_layers.induct)
  case (1 t d ds x xs a)
  from 1(2) obtain checked a1 where l: "layer_digest t d a = Inr (checked, a1)" and x: "x = PStr checked"
    and r: "check_layers t ds xs a1 = Inr a'"
    by (auto simp: step_iff)
  from layer_digest_Inr [OF l 1(4,5)] obtain s where s: "expanded t (ar_blobs a) d = Some s"
    "checked = ''sha256:'' @ tl_sha t s" "int (length s) \<le> MAX_LAYER_BYTES" "ar_rootfs a1 = ar_rootfs a + int (length s)"
    "ar_rootfs a1 \<le> MAX_ROOTFS_BYTES" "cache_ok t a1" "layers_only a a1" by blast
  have "length ds = length xs" using 1(3) by simp
  from 1(1) [OF r this s(6,5)] x obtain contents where c: "those (map (expanded t (ar_blobs a1)) ds) = Some contents"
    "xs = map (\<lambda>s. PStr (''sha256:'' @ tl_sha t s)) contents" "list_all (\<lambda>s. int (length s) \<le> MAX_LAYER_BYTES) contents"
    "ar_rootfs a' = ar_rootfs a1 + sum_list (map (\<lambda>s. int (length s)) contents)" "ar_rootfs a' \<le> MAX_ROOTFS_BYTES"
    "cache_ok t a'" "layers_only a1 a'" by auto
  have b: "ar_blobs a1 = ar_blobs a" using s(7) by (simp add: layers_only_def)
  show ?case
    by (rule exI [of _ "s # contents"]) (use c s x b in \<open>simp add: layers_only_def\<close>)
qed (auto simp: layers_only_def)

text \<open>What reading an image or an attestation leaves alone.\<close>

definition node_only :: "archive \<Rightarrow> archive \<Rightarrow> bool" where
  "node_only a a' =
     (ar_members a' = ar_members a \<and> ar_blobs a' = ar_blobs a \<and> ar_leaves a' = ar_leaves a \<and>
      ar_visited a' = ar_visited a \<and> ar_metadata a \<le> ar_metadata a' \<and>
      (ar_metadata a \<le> MAX_JSON_TOTAL \<longrightarrow> ar_metadata a' \<le> MAX_JSON_TOTAL))"

lemma platform_ok_Inr:
  "platform_ok x v details = Inr u \<Longrightarrow>
     (\<exists>p. v = PDict p \<and> dget p ''os'' = PStr (ex_os x) \<and> dget p ''architecture'' = PStr (ex_arch x)) \<and>
     dget details ''os'' = PStr (ex_os x) \<and> dget details ''architecture'' = PStr (ex_arch x)"
  by (auto simp: platform_ok_def step_iff split: pyval.splits)

lemma labels_ok_Inr:
  "labels_ok x details = Inr u \<Longrightarrow>
     image_label details ''org.opencontainers.image.version'' = PStr (ex_version x) \<and>
     image_label details ''org.opencontainers.image.revision'' = PStr (ex_revision x)"
  by (auto simp: labels_ok_def image_label_def split: pyval.splits)

lemma diff_ids_Inr: "diff_ids details n = Inr xs \<Longrightarrow> root_ids details = PList xs \<and> length xs = n"
  by (auto simp: diff_ids_def root_ids_def step_iff split: pyval.splits)

lemma image_digest_prefix: "image_digest s \<Longrightarrow> ''sha256:'' @ drop 7 s = s"
proof -
  assume "image_digest s"
  then have "take 7 s = ''sha256:''" by (simp add: image_digest_def startswith_def eval_nat_numeral)
  then show ?thesis by (metis append_take_drop_id)
qed

lemma described_key: "described bl types (descriptor_key d) = described bl types d"
  by (simp add: described_def media_of_def) (simp add: descriptor_key_def dget_def)

lemma blob_document_key [simp]: "blob_document t bl n (descriptor_key d) = blob_document t bl n d"
  by (simp add: blob_document_def)

lemma image_Inr:
  assumes "image t x d data a = Inr a'" "filed t a" "cache_ok t a" "ar_rootfs a \<le> MAX_ROOTFS_BYTES"
    "described (ar_blobs a) [MANIFEST] d" "blob_document t (ar_blobs a) MAX_JSON d = Some data"
  shows "\<exists>im p. ar_images a' = ar_images a @ [im] \<and> bound_image t x (ar_blobs a) im \<and> im_descriptor im = descriptor_key d \<and>
    dget d ''platform'' = PDict p \<and> dget p ''os'' = PStr (ex_os x) \<and> dget p ''architecture'' = PStr (ex_arch x) \<and>
    ar_rootfs a' = ar_rootfs a + image_size t (ar_blobs a) im \<and> ar_rootfs a' \<le> MAX_ROOTFS_BYTES \<and> cache_ok t a' \<and>
    ar_attestations a' = ar_attestations a \<and> node_only a a'"
proof -
  from assms(1) obtain layers where y: "dget data ''layers'' = PList layers"
    by (cases "dget data ''layers''") (auto simp: image_def step_iff)
  with assms(1) obtain config details a1 ds xs a2 where
    c: "blob_json t (dget data ''config'') [CONFIG] a = Inr (config, details, a1)"
    and p: "platform_ok x (dget d ''platform'') details = Inr ()" and l: "labels_ok x details = Inr ()"
    and ds: "all_blobs a1 LAYER_TYPES layers = Inr ds"
    and xs: "diff_ids details (length layers) = Inr xs" and k: "check_layers t ds xs a1 = Inr a2"
    and a': "a' = a2\<lparr>ar_images := ar_images a2 @ [\<lparr>im_descriptor = descriptor_key d, im_config = drop 7 (digest_of config)\<rparr>]\<rparr>"
    by (auto simp: image_def step_iff)
  let ?im = "\<lparr>im_descriptor = descriptor_key d, im_config = drop 7 (digest_of config)\<rparr>"
  from blob_json_Inr [OF c assms(2)] have cv: "dget data ''config'' = PDict config" "image_digest (digest_of config)"
    "blob_document t (ar_blobs a) MAX_JSON config = Some details" and r1: "reads_only a a1"
    by (auto simp: described_def)
  from r1 have b1: "ar_blobs a1 = ar_blobs a" "ar_rootfs a1 = ar_rootfs a" "ar_layers a1 = ar_layers a"
    by (simp_all add: reads_only_def)
  have ly: "layers = map PDict ds" using all_blobs_Inr [OF ds] by simp
  have "length ds = length xs" "cache_ok t a1" "ar_rootfs a1 \<le> MAX_ROOTFS_BYTES"
    using diff_ids_Inr [OF xs] ly assms(3,4) b1 by (simp_all add: cache_ok_def)
  from check_layers_Inr [OF k this] obtain contents where ct: "those (map (expanded t (ar_blobs a)) ds) = Some contents"
    "xs = map (\<lambda>s. PStr (''sha256:'' @ tl_sha t s)) contents" "list_all (\<lambda>s. int (length s) \<le> MAX_LAYER_BYTES) contents"
    "ar_rootfs a2 = ar_rootfs a + sum_list (map (\<lambda>s. int (length s)) contents)" "ar_rootfs a2 \<le> MAX_ROOTFS_BYTES"
    "cache_ok t a2" and lo: "layers_only a1 a2" using b1 by auto
  have il: "image_layers t (ar_blobs a) ?im = Some contents"
    using assms(6) y ly ct(1) by (simp add: image_layers_def layer_bytes_def comp_def)
  have idt: "image_details t (ar_blobs a) ?im = Some details"
    using assms(6) cv image_digest_prefix [OF cv(2)] by (simp add: image_details_def)
  have "bound_image t x (ar_blobs a) ?im"
    using assms(5) il idt platform_ok_Inr [OF p] labels_ok_Inr [OF l] diff_ids_Inr [OF xs] ct(2,3)
    by (simp add: bound_image_def described_key)
  moreover have "node_only a a'"
    using r1 lo by (simp add: a' node_only_def reads_only_def layers_only_def)
  moreover have "ar_images a' = ar_images a @ [?im]" "ar_attestations a' = ar_attestations a"
    using r1 lo by (simp_all add: a' reads_only_def layers_only_def)
  moreover have "ar_rootfs a' = ar_rootfs a + image_size t (ar_blobs a) ?im" "ar_rootfs a' \<le> MAX_ROOTFS_BYTES"
    using ct(4,5) il by (simp_all add: a' image_size_def)
  moreover have "cache_ok t a'" using ct(6) by (simp add: a' cache_ok_def)
  ultimately show ?thesis using platform_ok_Inr [OF p] by (intro exI [of _ ?im]) auto
qed

lemma cache_ok_reads: "reads_only a a' \<Longrightarrow> cache_ok t a' = cache_ok t a"
  by (simp add: cache_ok_def reads_only_def)

lemma filed_reads: "reads_only a a' \<Longrightarrow> filed t a' = filed t a"
  by (simp add: filed_def reads_only_def)

lemma statements_Inr:
  "statements t subject vs a = Inr (kinds, a') \<Longrightarrow> filed t a \<Longrightarrow>
     list_all2 (says t (ar_blobs a) subject) vs kinds \<and> reads_only a a'"
proof (induction t subject vs a arbitrary: kinds a' rule: statements.induct)
  case (1 t subject a)
  then show ?case by (simp add: reads_only_refl)
next
  case (2 t subject v vs a)
  from 2(2) obtain d st a1 kind ks where b: "blob a v [IN_TOTO] = Inr d"
    and r: "read_json t (blob_of d) MAX_ATTESTATION_JSON a = Inr (st, a1)" and k: "statement_type subject st = Inr kind"
    and s: "statements t subject vs (a1\<lparr>ar_attestation_names := List.insert (blob_of d) (ar_attestation_names a1)\<rparr>) = Inr (ks, a')"
    and ks: "kinds = kind # ks"
    by (auto simp: step_iff)
  let ?a2 = "a1\<lparr>ar_attestation_names := List.insert (blob_of d) (ar_attestation_names a1)\<rparr>"
  from blob_Inr [OF b] have d: "v = PDict d" "described (ar_blobs a) [IN_TOTO] d" by auto
  from read_blob [OF r d(2) 2(3)] have doc: "blob_document t (ar_blobs a) MAX_ATTESTATION_JSON d = Some st"
    and r1: "reads_only a a1" by auto
  have r2: "reads_only a ?a2" using r1 by (simp add: reads_only_def)
  from 2(1) [OF s] 2(3) filed_reads [OF r2] have ih: "list_all2 (says t (ar_blobs ?a2) subject) vs ks" "reads_only ?a2 a'" by auto
  have "says t (ar_blobs a) subject v kind"
    using k by (auto simp: says_def d(1) doc statement_type_def step_iff split: pyval.splits)
  with ih r2 show ?case using reads_only_trans [OF r2 ih(2)] by (simp add: ks reads_only_def)
qed

lemma artifact_reads:
  assumes "artifact_subject t x d data reference a = Inr (s, a')" "filed t a"
  shows "reads_only a a'"
proof -
  from assms(1) obtain config details a1 where c: "blob_json t (dget data ''config'') [EMPTY_CONFIG] a = Inr (config, details, a1)"
    and "a' = a1"
    by (auto simp: artifact_subject_def step_iff)
  with blob_json_Inr [OF c assms(2)] show ?thesis by simp
qed

lemma legacy_reads:
  assumes "legacy_subject t d data reference a = Inr (s, a')" "filed t a"
  shows "reads_only a a'"
proof -
  from assms(1) obtain r where r: "reference = PStr r"
    by (cases reference) (auto simp: legacy_subject_def step_iff)
  from assms(1) obtain config details a1 where c: "blob_json t (dget data ''config'') [CONFIG] a = Inr (config, details, a1)"
    and "a' = a1"
    by (auto simp: legacy_subject_def r step_iff split: option.splits)
  with blob_json_Inr [OF c assms(2)] show ?thesis by simp
qed

lemma attestation_Inr:
  assumes "attestation t x d data annotations a = Inr a'" "filed t a" "described (ar_blobs a) [MANIFEST] d"
    "blob_document t (ar_blobs a) MAX_JSON d = Some data"
  shows "\<exists>s p. ar_attestations a' = ar_attestations a @ [s] \<and> attested t (ar_blobs a) s \<and> at_digest s = digest_of d \<and>
    dget d ''platform'' = PDict p \<and> dget p ''os'' = PStr ''unknown'' \<and> dget p ''architecture'' = PStr ''unknown'' \<and>
    ar_images a' = ar_images a \<and> ar_rootfs a' = ar_rootfs a \<and> ar_layers a' = ar_layers a \<and> node_only a a'"
proof -
  from assms(1) obtain p where p: "dget d ''platform'' = PDict p"
    by (cases "dget d ''platform''") (auto simp: attestation_def)
  from assms(1) obtain vs where vs: "dget data ''layers'' = PList vs"
    by (cases "dget data ''layers''") (auto simp: attestation_def p step_iff Let_def)
  let ?ref = "dget annotations ''vnd.docker.reference.digest''"
  from assms(1) obtain subject a1 kinds a2 where os: "dget p ''os'' = PStr ''unknown''" "dget p ''architecture'' = PStr ''unknown''"
    and s: "(if dget data ''artifactType'' \<noteq> PNone then artifact_subject t x d data ?ref a else legacy_subject t d data ?ref a)
      = Inr (subject, a1)" and ne: "vs \<noteq> []" and st: "statements t subject vs a1 = Inr (kinds, a2)"
    and a': "a' = a2\<lparr>ar_attestations := ar_attestations a2 @
      [\<lparr>at_digest = digest_of d, at_subject = subject, at_types = sort (remdups kinds)\<rparr>]\<rparr>"
    by (auto simp: attestation_def p vs step_iff Let_def)
  have r1: "reads_only a a1" using s artifact_reads legacy_reads assms(2) by (auto split: if_splits)
  have f1: "filed t a1" using assms(2) filed_reads [OF r1] by simp
  from statements_Inr [OF st f1] r1 have l: "list_all2 (says t (ar_blobs a) subject) vs kinds" and r2: "reads_only a a2"
    using reads_only_trans by (auto simp: reads_only_def)
  let ?s = "\<lparr>at_digest = digest_of d, at_subject = subject, at_types = sort (remdups kinds)\<rparr>"
  have "attested t (ar_blobs a) ?s"
    unfolding attested_def by (rule exI [of _ d], rule exI [of _ data], rule exI [of _ vs], rule exI [of _ kinds])
      (use assms(3,4) vs ne l in simp)
  then show ?thesis using p os r2
    by (intro exI [of _ ?s] exI [of _ p]) (simp add: a' reads_only_def node_only_def)
qed

text \<open>What holds at every point of the walk.\<close>

definition image_leaf :: "expected \<Rightarrow> oci_image list \<Rightarrow> pydict \<Rightarrow> bool" where
  "image_leaf x ims d =
     ((\<exists>im\<in>set ims. im_descriptor im = descriptor_key d) \<and>
      (\<exists>p. dget d ''platform'' = PDict p \<and> dget p ''os'' = PStr (ex_os x) \<and> dget p ''architecture'' = PStr (ex_arch x)))"

definition attestation_leaf :: "oci_attestation list \<Rightarrow> pydict \<Rightarrow> bool" where
  "attestation_leaf atts d =
     ((\<exists>s\<in>set atts. at_digest s = digest_of d) \<and>
      (\<exists>p. dget d ''platform'' = PDict p \<and> dget p ''os'' = PStr ''unknown'' \<and> dget p ''architecture'' = PStr ''unknown''))"

definition sound :: "tools \<Rightarrow> expected \<Rightarrow> archive \<Rightarrow> bool" where
  "sound t x a =
     (filed t a \<and> cache_ok t a \<and> ar_metadata a \<le> MAX_JSON_TOTAL \<and>
      ar_rootfs a = sum_list (map (image_size t (ar_blobs a)) (ar_images a)) \<and> ar_rootfs a \<le> MAX_ROOTFS_BYTES \<and>
      (\<forall>im\<in>set (ar_images a). bound_image t x (ar_blobs a) im) \<and>
      (\<forall>s\<in>set (ar_attestations a). attested t (ar_blobs a) s) \<and>
      (\<forall>d\<in>set (ar_leaves a). described (ar_blobs a) [MANIFEST] d \<and>
         (image_leaf x (ar_images a) d \<or> attestation_leaf (ar_attestations a) d)) \<and>
      distinct (map digest_of (ar_leaves a)) \<and>
      length (ar_leaves a) = length (ar_images a) + length (ar_attestations a))"

lemma image_leaf_more: "image_leaf x ims d \<Longrightarrow> image_leaf x (ims @ ims') d"
  by (auto simp: image_leaf_def)

lemma attestation_leaf_more: "attestation_leaf atts d \<Longrightarrow> attestation_leaf (atts @ atts') d"
  by (auto simp: attestation_leaf_def)

text \<open>A new image or attestation, before its leaf is recorded.\<close>

lemma node_sound:
  assumes n: "(if py_eq (dget annotations REFERENCE_TYPE) (PStr ''attestation-manifest'') \<or>
                  py_eq (dget data ''artifactType'') (PStr ATTESTATION)
               then attestation t x d data annotations a
               else rbind (guard g) (\<lambda>_. image t x d data a)) = Inr a1"
    and s: "sound t x a" and d: "described (ar_blobs a) [MANIFEST] d" "blob_document t (ar_blobs a) MAX_JSON d = Some data"
    and fr: "\<forall>l\<in>set (ar_leaves a1). digest_of l \<noteq> digest_of d"
  shows "sound t x (a1\<lparr>ar_leaves := ar_leaves a1 @ [d]\<rparr>) \<and> node_only a a1"
proof -
  have f: "filed t a" "cache_ok t a" "ar_rootfs a \<le> MAX_ROOTFS_BYTES" using s by (simp_all add: sound_def)
  consider (att) "attestation t x d data annotations a = Inr a1" | (img) "image t x d data a = Inr a1"
    using n by (auto simp: step_iff split: if_splits)
  then show ?thesis
  proof cases
    case att
    from attestation_Inr [OF att f(1) d] obtain e p where r: "ar_attestations a1 = ar_attestations a @ [e]"
      "attested t (ar_blobs a) e" "at_digest e = digest_of d" "dget d ''platform'' = PDict p"
      "dget p ''os'' = PStr ''unknown''" "dget p ''architecture'' = PStr ''unknown''" "ar_images a1 = ar_images a"
      "ar_rootfs a1 = ar_rootfs a" "ar_layers a1 = ar_layers a" "node_only a a1" by blast
    have "attestation_leaf (ar_attestations a1) d" using r by (simp add: attestation_leaf_def)
    then show ?thesis using s r d fr
      by (auto simp: sound_def node_only_def cache_ok_def filed_def dest: attestation_leaf_more)
  next
    case img
    from image_Inr [OF img f d] obtain im p where r: "ar_images a1 = ar_images a @ [im]" "bound_image t x (ar_blobs a) im"
      "im_descriptor im = descriptor_key d" "dget d ''platform'' = PDict p" "dget p ''os'' = PStr (ex_os x)"
      "dget p ''architecture'' = PStr (ex_arch x)" "ar_rootfs a1 = ar_rootfs a + image_size t (ar_blobs a) im"
      "ar_rootfs a1 \<le> MAX_ROOTFS_BYTES" "cache_ok t a1" "ar_attestations a1 = ar_attestations a" "node_only a a1" by blast
    have "image_leaf x (ar_images a1) d" using r by (simp add: image_leaf_def)
    then show ?thesis using s r d fr
      by (auto simp: sound_def node_only_def filed_def dest: image_leaf_more) (simp_all add: cache_ok_def)
  qed
qed

lemma leaf_sound:
  assumes "leaf t x d data a = Inr a'" "sound t x a" "described (ar_blobs a) [MANIFEST] d"
    "blob_document t (ar_blobs a) MAX_JSON d = Some data"
  shows "sound t x a' \<and> length (ar_leaves a') = length (ar_leaves a) + 1 \<and> ar_visited a' = ar_visited a"
proof -
  from assms(1) obtain annotations a1 where
    n: "(if py_eq (dget annotations REFERENCE_TYPE) (PStr ''attestation-manifest'') \<or> py_eq (dget data ''artifactType'') (PStr ATTESTATION)
       then attestation t x d data annotations a
       else rbind (guard (\<not> haskey d ''artifactType'' \<and> \<not> haskey data ''artifactType'' \<and>
                          \<not> haskey data ''subject'' \<and> \<not> haskey annotations REFERENCE_TYPE)) (\<lambda>_. image t x d data a)) = Inr a1"
    and fr: "\<forall>l\<in>set (ar_leaves a1). digest_of l \<noteq> digest_of d" and a': "a' = a1\<lparr>ar_leaves := ar_leaves a1 @ [d]\<rparr>"
    unfolding leaf_def rbind_Inr_iff guard_Inr by blast
  from node_sound [OF n assms(2-4) fr] have "sound t x a'" "node_only a a1" by (simp_all add: a')
  then show ?thesis by (simp add: node_only_def) (simp add: a')
qed

lemma rbind3_Inr_iff: "rbind m (\<lambda>(x, y, z). f x y z) = Inr b \<longleftrightarrow> (\<exists>x y z. m = Inr (x, y, z) \<and> f x y z = Inr b)"
  by (cases m) auto

definition counted :: "archive \<Rightarrow> bool" where
  "counted a = (0 \<le> ar_visited a \<and> int (length (ar_leaves a)) \<le> ar_visited a \<and> ar_visited a \<le> 1024)"

lemma sound_reads: "reads_only a a' \<Longrightarrow> sound t x a \<Longrightarrow> sound t x a'"
  by (auto simp: sound_def reads_only_def filed_def cache_ok_def)

lemma walk_sound: "walk t x vs depth a = Inr a' \<Longrightarrow> sound t x a \<Longrightarrow> counted a \<Longrightarrow> sound t x a' \<and> counted a'"
proof (induction t x vs depth a arbitrary: a' rule: walk.induct)
  case (1 t x depth a)
  then show ?case by simp
next
  case (2 t x v vs depth a)
  let ?a1 = "a\<lparr>ar_visited := ar_visited a + 1\<rparr>"
  have g1: "\<not> (8 < depth \<or> 1024 < ar_visited ?a1)" using 2(3) by (auto simp: Let_def split: if_splits)
  then have c: "depth \<le> 8" "ar_visited a + 1 \<le> 1024" by simp_all
  from 2(3) obtain d data a2 a3 where b: "blob_json t v [INDEX, MANIFEST] ?a1 = Inr (d, data, a2)" and sc: "schema_ok data (media_of d)"
    and n: "(if media_of d = INDEX then rbind (index_children data) (\<lambda>children. walk t x children (depth + 1) a2)
      else leaf t x d data a2) = Inr a3"
    and w: "walk t x vs depth a3 = Inr a'"
    unfolding walk.simps Let_def if_not_P [OF g1] rbind3_Inr_iff unfolding rbind_Inr_iff guard_Inr by blast
  have g: "\<not> (8 < depth \<or> 1024 < ar_visited ?a1)" "guard (schema_ok data (media_of d)) = Inr ()"
    using g1 sc by (simp_all add: guard_def)
  have s1: "sound t x ?a1" using 2(4) by (simp add: sound_def filed_def cache_ok_def)
  then have "filed t ?a1" by (simp add: sound_def)
  from blob_json_Inr [OF b this] have d: "described (ar_blobs a) [INDEX, MANIFEST] d"
    "blob_document t (ar_blobs a) MAX_JSON d = Some data" and r: "reads_only ?a1 a2" by auto
  have s2: "sound t x a2" using sound_reads [OF r s1] .
  have b2: "ar_blobs a2 = ar_blobs a" "ar_leaves a2 = ar_leaves a" "ar_visited a2 = ar_visited a + 1"
    using r by (simp_all add: reads_only_def)
  have c2: "counted a2" using 2(5) c(2) by (simp add: counted_def b2)
  have "sound t x a3 \<and> counted a3"
  proof (cases "media_of d = INDEX")
    case True
    with n obtain children where ch: "index_children data = Inr children" "walk t x children (depth + 1) a2 = Inr a3"
      by (auto simp: step_iff)
    show ?thesis by (rule 2(1) [OF HOL.refl g(1) b HOL.refl HOL.refl g(2) True ch(1) ch(2) s2 c2])
  next
    case False
    with d have dm: "described (ar_blobs a2) [MANIFEST] d" by (simp add: described_def b2)
    have lf: "leaf t x d data a2 = Inr a3" using n False by simp
    have "blob_document t (ar_blobs a2) MAX_JSON d = Some data" using d(2) by (simp add: b2)
    from leaf_sound [OF lf s2 dm this] 2(5) c(2) show ?thesis by (auto simp: counted_def b2)
  qed
  with 2(2) [OF HOL.refl g(1) b HOL.refl HOL.refl g(2) n w] show ?case by simp
qed

lemma filed_init: "filed t archive_init"
  by (simp add: filed_def intact_def archive_init_def)

lemma inventory_sound:
  assumes "inventory t 0 [] es archive_init = Inr a"
  shows "sound t x a \<and> counted a"
proof -
  have "filed t a \<and> files_only archive_init a"
    by (rule inventory_filed [OF assms filed_init]) (simp add: archive_init_def)
  then show ?thesis
    by (simp add: files_only_def archive_init_def sound_def cache_ok_def counted_def MAX_JSON_TOTAL_def MAX_ROOTFS_BYTES_def)
qed

lemma opened:
  assumes "open_archive t x src = Inr a"
  shows "sound t x a \<and> counted a \<and> validate_complete_graph a = Inr ()"
proof -
  from assms obtain entries a1 layout a2 root a3 children where
    i: "inventory t 0 [] entries archive_init = Inr a1" and r1: "read_json t ''oci-layout'' MAX_JSON a1 = Inr (layout, a2)"
    and r2: "read_json t ''index.json'' MAX_JSON a2 = Inr (root, a3)" and w: "walk t x children 0 a3 = Inr a"
    and v: "validate_complete_graph a = Inr ()"
    by (auto simp: open_archive_def step_iff)
  have "reads_only a1 a3" using read_json_Inr [OF r1] read_json_Inr [OF r2] reads_only_trans by blast
  with inventory_sound [OF i, of x] have "sound t x a3" "counted a3"
    by (auto intro: sound_reads simp: counted_def reads_only_def)
  from walk_sound [OF w this] v show ?thesis by simp
qed

lemma opened_image:
  assumes "open_archive t x src = Inr a"
  shows "\<exists>im. ar_images a = [im] \<and> bound_image t x (ar_blobs a) im \<and>
    (\<forall>s\<in>set (ar_attestations a). attested t (ar_blobs a) s \<and> at_subject s = im_descriptor im)"
proof -
  from opened [OF assms] obtain im where im: "ar_images a = [im]"
    "list_all (\<lambda>s. at_subject s = im_descriptor im) (ar_attestations a)" and s: "sound t x a"
    by (auto simp: validate_complete_graph_def split: list.splits)
  show ?thesis by (rule exI [of _ im]) (use im s in \<open>auto simp: sound_def list_all_iff\<close>)
qed

text \<open>The runnable leaves of an opened archive.\<close>

definition attests :: "pydict \<Rightarrow> bool" where
  "attests d = fst (leaf_key d)"

lemma leaf_keys:
  "image_leaf x ims d \<Longrightarrow> leaf_key d = (ex_os x = ''unknown'', ex_arch x, digest_of d)"
  "attestation_leaf atts d \<Longrightarrow> leaf_key d = (True, ''unknown'', digest_of d)"
  by (auto simp: leaf_key_def image_leaf_def attestation_leaf_def text_val_def)

lemma opened_leaves:
  assumes "open_archive t x src = Inr a" "ex_os x \<noteq> ''unknown''"
  shows "\<exists>d im. ar_images a = [im] \<and> im_descriptor im = descriptor_key d \<and>
    filter (\<lambda>d. \<not> attests d) (ar_leaves a) = [d] \<and> leaf_key d = (False, ex_arch x, digest_of d)"
proof -
  from opened_image [OF assms(1)] obtain im where im: "ar_images a = [im]" by blast
  from opened [OF assms(1)] have s: "sound t x a" by simp
  let ?A = "filter attests (ar_leaves a)" and ?R = "filter (\<lambda>d. \<not> attests d) (ar_leaves a)"
  have dist: "distinct (map digest_of (ar_leaves a))" using s by (simp add: sound_def)
  have leaf: "image_leaf x [im] d \<or> attestation_leaf (ar_attestations a) d" if "d \<in> set (ar_leaves a)" for d
    using s that im by (auto simp: sound_def)
  have R: "image_leaf x [im] d" if "d \<in> set ?R" for d
    using leaf [of d] that leaf_keys(2) [of "ar_attestations a" d] by (auto simp: attests_def)
  have A: "attestation_leaf (ar_attestations a) d" if "d \<in> set ?A" for d
    using leaf [of d] that leaf_keys(1) [of x "[im]" d] assms(2) by (auto simp: attests_def)
  have "digest_of ` set ?A \<subseteq> at_digest ` set (ar_attestations a)"
  proof (rule image_subsetI)
    fix d assume "d \<in> set ?A"
    then obtain s where "s \<in> set (ar_attestations a)" "at_digest s = digest_of d"
      using A [of d] unfolding attestation_leaf_def by blast
    then show "digest_of d \<in> at_digest ` set (ar_attestations a)" by (metis imageI)
  qed
  then have "card (digest_of ` set ?A) \<le> length (ar_attestations a)"
    by (meson List.finite_set card_image_le card_length card_mono finite_imageI order_trans)
  moreover have "card (digest_of ` set ?A) = length ?A"
    using distinct_card [of "map digest_of ?A"] dist by (simp add: distinct_map_filter)
  ultimately have lA: "length ?A \<le> length (ar_attestations a)" by simp
  have "length ?A + length ?R = length (ar_leaves a)" by (simp add: sum_length_filter_compl)
  with lA im s have "1 \<le> length ?R" by (simp add: sound_def)
  then obtain d ds where d: "?R = d # ds" by (cases ?R) auto
  have "ds = []"
  proof (rule ccontr)
    assume "ds \<noteq> []"
    then obtain e where e: "e \<in> set ds" by (cases ds) auto
    have "image_leaf x [im] d" "image_leaf x [im] e" using R d e by simp_all
    then have "im_descriptor im = descriptor_key d" "im_descriptor im = descriptor_key e"
      by (simp_all add: image_leaf_def)
    then have "digest_of d = digest_of e" by (metis digest_of_key)
    moreover have "distinct (map digest_of ?R)" using dist by (rule distinct_map_filter)
    ultimately show False using d e by (auto simp: image_iff)
  qed
  with d R [of d] im leaf_keys(1) [of x "[im]" d] assms(2) show ?thesis by (auto simp: image_leaf_def)
qed

section \<open>The merged archive\<close>

lemma share_blobs_Inr:
  "share_blobs blobs bs = Inr r \<Longrightarrow> intact t blobs \<Longrightarrow> (\<forall>(name, e)\<in>set bs. blob_name name \<and> te_kind e = Regular \<and>
      te_size e = int (length (te_data e)) \<and> tl_sha t (te_data e) = drop 13 name) \<Longrightarrow>
     intact t r \<and> dom (map_of r) = dom (map_of blobs) \<union> fst ` set bs \<and>
     (\<forall>name e. map_of blobs name = Some e \<or> (name, e) \<in> set bs \<longrightarrow> (\<exists>e'. map_of r name = Some e' \<and> te_size e' = te_size e))"
proof (induction blobs bs rule: share_blobs.induct)
  case (1 blobs)
  then show ?case by simp
next
  case (2 blobs name e rest)
  from 2(2) have sz: "case map_of blobs name of None \<Rightarrow> True | Some e' \<Rightarrow> te_size e' = te_size e"
    and r: "share_blobs (dset name e blobs) rest = Inr r" by (simp_all add: step_iff)
  have "intact t (dset name e blobs)" using 2(3,4) by (simp add: intact_def distinct_dset)
  from 2(1) [OF _ r this] sz 2(4) have ih: "intact t r" "dom (map_of r) = dom (map_of (dset name e blobs)) \<union> fst ` set rest"
    "\<And>n e'. map_of (dset name e blobs) n = Some e' \<or> (n, e') \<in> set rest \<Longrightarrow> \<exists>e''. map_of r n = Some e'' \<and> te_size e'' = te_size e'"
    by (auto simp: guard_def)
  have "\<exists>e''. map_of r n = Some e'' \<and> te_size e'' = te_size e'"
    if "map_of blobs n = Some e' \<or> (n, e') \<in> set ((name, e) # rest)" for n e'
  proof (cases "n = name \<and> (n, e') \<notin> set rest")
    case True
    then have "te_size e = te_size e'" using that sz by auto
    with ih(3) [of name e] True show ?thesis by simp
  next
    case False
    with that ih(3) [of n e'] show ?thesis by auto
  qed
  moreover have "dom (map_of r) = dom (map_of blobs) \<union> fst ` set ((name, e) # rest)"
    using ih(2) by (auto simp: dom_def)
  ultimately show ?case using ih(1) by blast
qed

lemma intact_items: "intact t bl \<Longrightarrow> (\<forall>(name, e)\<in>set bl. blob_name name \<and> te_kind e = Regular \<and>
      te_size e = int (length (te_data e)) \<and> tl_sha t (te_data e) = drop 13 name)"
  by (auto simp: intact_def)

lemma union_blobs_Inr:
  "union_blobs blobs bss = Inr r \<Longrightarrow> intact t blobs \<Longrightarrow> (\<forall>bs\<in>set bss. intact t bs) \<Longrightarrow>
     intact t r \<and> (\<forall>name e. map_of blobs name = Some e \<or> (\<exists>bs\<in>set bss. map_of bs name = Some e) \<longrightarrow>
       (\<exists>e'. map_of r name = Some e' \<and> te_size e' = te_size e))"
proof (induction blobs bss rule: union_blobs.induct)
  case (1 blobs)
  then show ?case by simp
next
  case (2 blobs bs rest)
  from 2(2) obtain m where m: "share_blobs blobs bs = Inr m" and r: "union_blobs m rest = Inr r" by (auto simp: step_iff)
  have i: "intact t bs" using 2(4) by simp
  from share_blobs_Inr [OF m 2(3) intact_items [OF i]] have s: "intact t m"
    "\<And>name e. map_of blobs name = Some e \<or> (name, e) \<in> set bs \<Longrightarrow> \<exists>e'. map_of m name = Some e' \<and> te_size e' = te_size e"
    by auto
  from 2(1) [OF m r s(1)] 2(4) have ih: "intact t r"
    "\<And>name e. map_of m name = Some e \<or> (\<exists>bs\<in>set rest. map_of bs name = Some e) \<Longrightarrow> \<exists>e'. map_of r name = Some e' \<and> te_size e' = te_size e"
    by auto
  have "\<exists>e'. map_of r name = Some e' \<and> te_size e' = te_size e"
    if "map_of blobs name = Some e \<or> (\<exists>bs'\<in>set (bs # rest). map_of bs' name = Some e)" for name e
    using that s(2) [of name e] ih(2) by (auto dest: map_of_SomeD) (metis map_of_SomeD)+
  with ih(1) show ?case by blast
qed

text \<open>Sorting the leaves of two archives, each with one runnable leaf, puts these two first.\<close>

lemma attests_last:
  "sorted (map leaf_key ds) \<Longrightarrow> ds = filter (\<lambda>d. \<not> attests d) ds @ filter attests ds"
proof (induction ds)
  case (Cons d ds)
  show ?case
  proof (cases "attests d")
    case True
    have "attests e" if "e \<in> set ds" for e
      using Cons(2) that True by (auto simp: attests_def less_eq_prod_def)
    with True show ?thesis by (simp add: filter_id_conv)
  next
    case False
    with Cons show ?thesis by simp
  qed
qed simp

lemma sorted_leaves:
  assumes "filter (\<lambda>d. \<not> attests d) ds = [d]" "filter (\<lambda>d. \<not> attests d) es = [e]" "leaf_key d \<le> leaf_key e"
  shows "\<exists>rest. sort_key leaf_key (ds @ es) = d # e # rest \<and> list_all attests rest"
proof -
  let ?s = "sort_key leaf_key (ds @ es)"
  have "filter (\<lambda>d. \<not> attests d) ?s = sort_key leaf_key (filter (\<lambda>d. \<not> attests d) (ds @ es))" by (rule filter_sort)
  then have f: "filter (\<lambda>d. \<not> attests d) ?s = [d, e]" using assms by simp
  have "?s = filter (\<lambda>d. \<not> attests d) ?s @ filter attests ?s" by (rule attests_last) (rule sorted_sort_key)
  with f have "?s = d # e # filter attests ?s" by simp
  then show ?thesis by (intro exI [of _ "filter attests ?s"]) (simp add: list_all_iff)
qed

text \<open>Reading a member of the merged archive by its name.\<close>

definition named :: "tar_entry list \<Rightarrow> string \<Rightarrow> tar_entry option" where
  "named es name = find (\<lambda>e. te_name e = name) es"

lemma merged_named:
  assumes "name \<in> set (map fst g) \<or> name \<in> set (map fst bl)"
  shows "named (merged_members g bl) name =
    Some (case map_of g name of Some raw \<Rightarrow> add_file name (int (length raw)) raw
          | None \<Rightarrow> (case map_of bl name of Some e \<Rightarrow> add_file name (te_size e) (te_data e) | None \<Rightarrow> add_file name 0 []))"
proof -
  define f where "f = (\<lambda>name. case map_of g name of Some raw \<Rightarrow> add_file name (int (length raw)) raw
          | None \<Rightarrow> (case map_of bl name of Some e \<Rightarrow> add_file name (te_size e) (te_data e) | None \<Rightarrow> add_file name 0 []))"
  have n: "te_name (f k) = k" for k by (simp add: f_def add_file_def split: option.split)
  have "name \<in> set ks \<Longrightarrow> find (\<lambda>e. te_name e = name) (map f ks) = Some (f name)" for ks
    by (induction ks) (auto simp: n)
  then show ?thesis using assms by (simp add: named_def merged_members_def f_def)
qed

lemma merged_names: "map te_name (merged_members g bl) = sort (remdups (map fst g @ map fst bl))"
  unfolding merged_members_def list.map_comp by (rule map_idI) (simp add: add_file_def split: option.split)

text \<open>Each blob of a list of members has the name, size and digest of its bytes; no name occurs twice.\<close>

definition self_verifying :: "tools \<Rightarrow> tar_entry list \<Rightarrow> bool" where
  "self_verifying t es =
     (distinct (map te_name es) \<and>
      list_all (\<lambda>e. te_kind e = Regular \<and> te_size e = int (length (te_data e)) \<and>
        (startswith (te_name e) ''blobs/'' \<longrightarrow> blob_name (te_name e) \<and> tl_sha t (te_data e) = drop 13 (te_name e))) es)"

lemma merged_verifying:
  assumes g: "generated_members t leaves = Inr (g, digest)" and b: "intact t bl" and h: "\<And>s. digest_text (tl_sha t s)"
  shows "self_verifying t (merged_members g bl)"
proof -
  from g obtain inner root layout where gm: "g = [(''oci-layout'', layout), (''index.json'', root), (BLOB_PREFIX @ digest, inner)]"
    and d: "digest = tl_sha t inner"
    by (auto simp: generated_members_def Let_def step_iff)
  have e: "te_kind e = Regular \<and> te_size e = int (length (te_data e)) \<and>
      (startswith (te_name e) ''blobs/'' \<longrightarrow> blob_name (te_name e) \<and> tl_sha t (te_data e) = drop 13 (te_name e))"
    if m: "e \<in> set (merged_members g bl)" for e
  proof -
    from m obtain name where n: "name \<in> set (map fst g @ map fst bl)" and e: "e = (case map_of g name of
        Some raw \<Rightarrow> add_file name (int (length raw)) raw
      | None \<Rightarrow> (case map_of bl name of Some e \<Rightarrow> add_file name (te_size e) (te_data e) | None \<Rightarrow> add_file name 0 []))"
      by (auto simp: merged_members_def)
    show ?thesis
    proof (cases "map_of g name")
      case (Some raw)
      then have "name = ''oci-layout'' \<or> name = ''index.json'' \<or> name = BLOB_PREFIX @ digest \<and> raw = inner"
        by (auto simp: gm split: if_splits)
      with Some e h [of inner] show ?thesis
        by (auto simp: add_file_def startswith_def blob_name_def BLOB_PREFIX_def d)
    next
      case None
      with n obtain be where be: "map_of bl name = Some be" by (auto simp: map_of_eq_None_iff) (metis map_of_eq_None_iff option.exhaust image_eqI fst_conv)
      with b have "blob_name name" "te_size be = int (length (te_data be))" "tl_sha t (te_data be) = drop 13 name"
        by (auto simp: intact_def)
      with e None be show ?thesis by (simp add: add_file_def)
    qed
  qed
  have "distinct (map te_name (merged_members g bl))" by (simp add: merged_names)
  with e show ?thesis by (auto simp: self_verifying_def list_all_iff)
qed

lemma expect_platforms:
  "expect ''linux/amd64'' v r = \<lparr>ex_os = ''linux'', ex_arch = ''amd64'', ex_version = v, ex_revision = r\<rparr>"
  "expect ''linux/arm64'' v r = \<lparr>ex_os = ''linux'', ex_arch = ''arm64'', ex_version = v, ex_revision = r\<rparr>"
  by (simp_all add: expect_def)

lemma merge_Inr:
  assumes "merge_archives t inputs out version revision = Inr (members, report)"
  shows "\<exists>src1 src2 a1 a2 g digest bl.
    map_of inputs ''linux/amd64'' = Some src1 \<and> open_archive t (expect ''linux/amd64'' version revision) src1 = Inr a1 \<and>
    map_of inputs ''linux/arm64'' = Some src2 \<and> open_archive t (expect ''linux/arm64'' version revision) src2 = Inr a2 \<and>
    generated_members t (sort_key leaf_key (ar_leaves a1 @ ar_leaves a2)) = Inr (g, digest) \<and>
    union_blobs [] [ar_blobs a1, ar_blobs a2] = Inr bl \<and> members = merged_members g bl \<and>
    sr_same_end src1 \<and> sr_same_end src2 \<and> \<not> tg_exists out \<and> \<not> tg_taken out"
  using assms
  by (auto simp: merge_archives_def Let_def step_iff PLATFORMS_def split: option.splits if_splits prod.splits)

section \<open>A small release\<close>

text \<open>
  Two inputs whose blobs are single characters: an attested amd64 image with an uncompressed layer and
  an arm64 image with a compressed one.
\<close>

definition demo_sha256 :: "string \<Rightarrow> string" where
  "demo_sha256 s =
     (case s of
        [c] \<Rightarrow> replicate 62 (CHR ''0'') @ [nibble (code c div 16), nibble (code c mod 16)]
      | _ \<Rightarrow> replicate 62 (CHR ''f'') @ [nibble (int (length s) div 16 mod 16), nibble (int (length s) mod 16)])"

definition demo_descriptor :: "string \<Rightarrow> char \<Rightarrow> pydict" where
  "demo_descriptor media c =
     [(''mediaType'', PStr media), (''digest'', PStr (''sha256:'' @ demo_sha256 [c])), (''size'', PInt 1)]"

definition demo_platform :: "string \<Rightarrow> string \<Rightarrow> string \<times> pyval" where
  "demo_platform os arch = (''platform'', PDict [(''os'', PStr os), (''architecture'', PStr arch)])"

definition demo_image_manifest :: "char \<Rightarrow> string \<Rightarrow> char \<Rightarrow> pyval" where
  "demo_image_manifest config media layer =
     PDict [(''schemaVersion'', PInt 2), (''config'', PDict (demo_descriptor CONFIG config)),
            (''layers'', PList [PDict (demo_descriptor media layer)])]"

definition demo_config :: "string \<Rightarrow> char \<Rightarrow> pyval" where
  "demo_config arch layer =
     PDict [(''os'', PStr ''linux''), (''architecture'', PStr arch),
            (''config'', PDict [(''Labels'', PDict [(''org.opencontainers.image.version'', PStr ''1.4.0''),
               (''org.opencontainers.image.revision'', PStr demo_sha)])]),
            (''rootfs'', PDict [(''type'', PStr ''layers''), (''diff_ids'', PList [PStr (''sha256:'' @ demo_sha256 [layer])])])]"

definition demo_json :: "(string \<times> pyval) list" where
  "demo_json =
     [(''L'', PDict [(''imageLayoutVersion'', PStr ''1.0.0'')]),
      (''I'', index_json
        [PDict (demo_descriptor MANIFEST (CHR ''A'') @
           [demo_platform ''unknown'' ''unknown'',
            (''annotations'', PDict [(REFERENCE_TYPE, PStr ''attestation-manifest''),
               (''vnd.docker.reference.digest'', PStr (''sha256:'' @ demo_sha256 ''M''))])]),
         PDict (demo_descriptor MANIFEST (CHR ''M'') @ [demo_platform ''linux'' ''amd64''])]),
      (''J'', index_json [PDict (demo_descriptor MANIFEST (CHR ''m'') @ [demo_platform ''linux'' ''arm64''])]),
      (''M'', demo_image_manifest (CHR ''C'') ''application/vnd.oci.image.layer.v1.tar'' (CHR ''X'')),
      (''m'', demo_image_manifest (CHR ''c'') ''application/vnd.oci.image.layer.v1.tar+gzip'' (CHR ''x'')),
      (''C'', demo_config ''amd64'' (CHR ''X'')),
      (''c'', demo_config ''arm64'' (CHR ''Y'')),
      (''A'', demo_image_manifest (CHR ''U'') IN_TOTO (CHR ''S'')),
      (''U'', PDict [(''os'', PStr ''unknown''), (''architecture'', PStr ''unknown'')]),
      (''S'', PDict [(''_type'', PStr ''https://in-toto.io/Statement/v1''), (''predicateType'', PStr ''https://slsa.dev/provenance/v1''),
         (''subject'', PList [PDict [(''digest'', PDict [(''sha256'', PStr (demo_sha256 ''M''))])]])])]"

definition demo_tar :: "char \<Rightarrow> char list \<Rightarrow> tar_entry list" where
  "demo_tar index blobs =
     [\<lparr>te_name = ''./blobs/'', te_kind = Folder, te_size = 0, te_data = []\<rparr>, add_file ''oci-layout'' 1 ''L'', add_file ''./index.json'' 1 [index]] @
     map (\<lambda>c. add_file (BLOB_PREFIX @ demo_sha256 [c]) 1 [c]) blobs"

definition demo_tools :: tools where
  "demo_tools = \<lparr>tl_sha = demo_sha256,
     tl_untar = (\<lambda>s. if s = ''1'' then Inr (demo_tar (CHR ''I'') ''MCXAUS'') else if s = ''2'' then Inr (demo_tar (CHR ''J'') ''mcx'') else Inl OtherError),
     tl_tar = (\<lambda>es. concat (map te_data es)),
     tl_loads = (\<lambda>s. case map_of demo_json s of None \<Rightarrow> Inl ValueError | Some v \<Rightarrow> Inr v),
     tl_gunzip = (\<lambda>s. if s = ''x'' then ([''Y''], False) else ([], True)), tl_unzstd = (\<lambda>s. ([], True)), tl_zstd = False\<rparr>"

definition demo_source :: "string \<Rightarrow> source" where
  "demo_source raw = \<lparr>sr_name = raw, sr_link = False, sr_regular = True, sr_bytes = raw, sr_same_read = True, sr_same_end = True\<rparr>"

definition demo_target :: target where
  "demo_target = \<lparr>tg_name = ''out.tar'', tg_exists = False, tg_parent = True, tg_taken = False\<rparr>"

definition demo_inputs :: "(string, source) dict" where
  "demo_inputs = [(''linux/arm64'', demo_source ''2''), (''linux/amd64'', demo_source ''1'')]"

definition demo_merge :: "(tar_entry list \<times> pyval) res" where
  "demo_merge = merge_archives demo_tools demo_inputs demo_target ''1.4.0'' demo_sha"

lemma demo_opened:
  "is_ok (open_archive demo_tools (expect ''linux/amd64'' ''1.4.0'' demo_sha) (demo_source ''1''))"
  by code_simp

text \<open>The expanded layer of the demonstration image is one byte.\<close>

lemma demo_layer:
  "case open_archive demo_tools (expect ''linux/amd64'' ''1.4.0'' demo_sha) (demo_source ''1'') of
     Inr a \<Rightarrow> image_layers demo_tools (ar_blobs a) (hd (ar_images a)) = Some [''X''] | Inl _ \<Rightarrow> False"
  by code_simp

lemma demo_steps:
  "case open_all demo_tools demo_inputs ''1.4.0'' demo_sha PLATFORMS of
     Inr opened \<Rightarrow>
       is_ok (generated_members demo_tools (sort_key leaf_key (concat (map ar_leaves (map (\<lambda>(p, src, a). a) opened))))) \<and>
       is_ok (union_blobs [] (map ar_blobs (map (\<lambda>(p, src, a). a) opened))) \<and>
       list_all (\<lambda>(p, src, a). sr_same_end src) opened
   | Inl _ \<Rightarrow> False"
  by code_simp

lemma demo_guards: "fst ` set demo_inputs = set PLATFORMS" "image_version ''1.4.0''" "sha_text demo_sha"
  "\<not> tg_exists demo_target" "tg_parent demo_target" "\<not> tg_taken demo_target"
  by code_simp+

lemma demo_merge_ok: "is_ok demo_merge"
proof -
  from demo_steps obtain opened g digest bl where "open_all demo_tools demo_inputs ''1.4.0'' demo_sha PLATFORMS = Inr opened"
    "generated_members demo_tools (sort_key leaf_key (concat (map ar_leaves (map (\<lambda>(p, src, a). a) opened)))) = Inr (g, digest)"
    "union_blobs [] (map ar_blobs (map (\<lambda>(p, src, a). a) opened)) = Inr bl" "list_all (\<lambda>(p, src, a). sr_same_end src) opened"
    by (auto simp: is_ok_iff split: sum.splits)
  then show ?thesis
    unfolding demo_merge_def merge_archives_def Let_def by (simp add: demo_guards guard_def del: map_map)
qed

lemma hex_nibble: "0 \<le> n \<Longrightarrow> n < 16 \<Longrightarrow> is_hex (nibble n)"
proof -
  assume "0 \<le> n" "n < 16"
  then have "n \<in> {0, 1, 2, 3, 4, 5, 6, 7, 8, 9, 10, 11, 12, 13, 14, 15}" by simp presburger
  then show ?thesis by (elim insertE emptyE) (simp_all add: nibble_def is_hex_def is_digit_def code_def)
qed

lemma demo_sha256_text: "digest_text (demo_sha256 s)"
proof -
  have c: "0 \<le> code c" "code c < 256" for c
    unfolding code_def by (metis of_char_mod_256 pos_mod_bound pos_mod_sign zero_less_numeral)+
  have "0 \<le> code c div 16" "code c div 16 < 16" for c
    using c [of c] by presburger+
  moreover have "is_hex (CHR ''0'')" "is_hex (CHR ''f'')" by (simp_all add: is_hex_def is_digit_def code_def)
  ultimately show ?thesis
    by (auto simp: digest_text_def demo_sha256_def list_all_iff split: list.split intro: hex_nibble)
qed

lemma sound_leaf: "sound t x a \<Longrightarrow> l \<in> set (ar_leaves a) \<Longrightarrow> \<exists>b. map_of (ar_blobs a) (blob_of l) = Some b"
  by (auto simp: sound_def described_def)

lemma merged_blobs:
  assumes "open_archive t x1 src1 = Inr a1" "open_archive t x2 src2 = Inr a2" "union_blobs [] [ar_blobs a1, ar_blobs a2] = Inr bl"
  shows "intact t bl \<and> (\<forall>l\<in>set (ar_leaves a1) \<union> set (ar_leaves a2). blob_of l \<in> set (map fst bl))"
proof -
  have so: "sound t x1 a1" "sound t x2 a2" using opened [OF assms(1)] opened [OF assms(2)] by simp_all
  then have i: "\<forall>bs\<in>set [ar_blobs a1, ar_blobs a2]. intact t bs" by (simp add: sound_def filed_def)
  have "intact t []" by (simp add: intact_def)
  from union_blobs_Inr [OF assms(3) this i] have bl: "intact t bl"
    "\<And>name b. map_of (ar_blobs a1) name = Some b \<or> map_of (ar_blobs a2) name = Some b \<Longrightarrow> name \<in> set (map fst bl)"
    by (fastforce simp: dom_map_of_conv_image_fst [symmetric])+
  have "blob_of l \<in> set (map fst bl)" if "l \<in> set (ar_leaves a1) \<union> set (ar_leaves a2)" for l
    using that sound_leaf [OF so(1)] sound_leaf [OF so(2)] bl(2) by blast
  with bl(1) show ?thesis by blast
qed

section \<open>Properties\<close>



text \<open>
  Whatever an archive contains, opening it stays within its limits: it visits at most 1024 descriptors,
  records no more leaves than that, reads at most 32 million bytes of metadata, and the expanded
  layers of the image it accepts have at most 8 GiB each and 32 GiB together, layers listed more than
  once counted every time.
\<close>

theorem opened_archive_within_limits:
  assumes "open_archive t x src = Inr a" "image_layers t (ar_blobs a) (hd (ar_images a)) = Some contents"
  shows "int (length (ar_leaves a)) \<le> ar_visited a \<and> ar_visited a \<le> 1024 \<and> ar_metadata a \<le> 32000000 \<and>
    list_all (\<lambda>s. int (length s) \<le> 8 * 1024 ^ 3) contents \<and>
    ar_rootfs a = sum_list (map (\<lambda>s. int (length s)) contents) \<and>
    sum_list (map (\<lambda>s. int (length s)) contents) \<le> 32 * 1024 ^ 3"
proof -
  from opened_image [OF assms(1)] obtain im where im: "ar_images a = [im]" "bound_image t x (ar_blobs a) im" by blast
  from opened [OF assms(1)] have "sound t x a" "counted a" by simp_all
  with im assms(2) show ?thesis
    by (simp add: sound_def counted_def bound_image_def image_size_def MAX_JSON_TOTAL_def MAX_LAYER_BYTES_def
        MAX_ROOTFS_BYTES_def split: option.splits)
qed

theorem opened_archive_within_limits_witness:
  "\<exists>a. open_archive demo_tools (expect ''linux/amd64'' ''1.4.0'' demo_sha) (demo_source ''1'') = Inr a \<and>
     ar_visited a \<le> 1024 \<and> ar_rootfs a = 1"
proof -
  obtain a where a: "open_archive demo_tools (expect ''linux/amd64'' ''1.4.0'' demo_sha) (demo_source ''1'') = Inr a"
    using demo_opened unfolding is_ok_iff ..
  with demo_layer have "image_layers demo_tools (ar_blobs a) (hd (ar_images a)) = Some [''X'']" by simp
  from opened_archive_within_limits [OF a this] a show ?thesis by simp
qed

text \<open>
  C30: A merged archive is complete and verifies itself. It is written only to a path that did not exist
  before and when it was linked, from inputs that did not change. Its names are distinct; every blob in
  it has the size and digest its name says. Its root index leads to an index blob that lists the leaves
  of both inputs, the amd64 image first, the arm64 image second, then only attestations; and every
  listed manifest is in the archive.
\<close>

theorem merged_archive_complete:
  assumes "merge_archives t inputs out version revision = Inr (members, report)" "\<And>s. digest_text (tl_sha t s)"
  shows "\<exists>src1 src2 a1 a2 d e rest inner root.
    map_of inputs ''linux/amd64'' = Some src1 \<and> open_archive t (expect ''linux/amd64'' version revision) src1 = Inr a1 \<and>
    map_of inputs ''linux/arm64'' = Some src2 \<and> open_archive t (expect ''linux/arm64'' version revision) src2 = Inr a2 \<and>
    sr_same_end src1 \<and> sr_same_end src2 \<and> \<not> tg_exists out \<and> \<not> tg_taken out \<and>
    self_verifying t members \<and>
    mset (d # e # rest) = mset (ar_leaves a1) + mset (ar_leaves a2) \<and> d \<in> set (ar_leaves a1) \<and> e \<in> set (ar_leaves a2) \<and>
    \<not> attests d \<and> \<not> attests e \<and> list_all attests rest \<and>
    canonical (index_json (map PDict (d # e # rest))) = Inr inner \<and>
    canonical (index_json [PDict [(''mediaType'', PStr INDEX), (''digest'', PStr (''sha256:'' @ tl_sha t inner)),
                                  (''size'', PInt (int (length inner)))]]) = Inr root \<and>
    map_option te_data (named members ''index.json'') = Some root \<and>
    map_option te_data (named members (BLOB_PREFIX @ tl_sha t inner)) = Some inner \<and>
    list_all (\<lambda>d. named members (blob_of d) \<noteq> None) (d # e # rest)"
proof -
  from merge_Inr [OF assms(1)] obtain src1 src2 a1 a2 g digest bl where
    m: "map_of inputs ''linux/amd64'' = Some src1" "open_archive t (expect ''linux/amd64'' version revision) src1 = Inr a1"
      "map_of inputs ''linux/arm64'' = Some src2" "open_archive t (expect ''linux/arm64'' version revision) src2 = Inr a2"
    and g: "generated_members t (sort_key leaf_key (ar_leaves a1 @ ar_leaves a2)) = Inr (g, digest)"
    and u: "union_blobs [] [ar_blobs a1, ar_blobs a2] = Inr bl" and mem: "members = merged_members g bl"
    and s: "sr_same_end src1" "sr_same_end src2" "\<not> tg_exists out" "\<not> tg_taken out" by blast
  from opened_leaves [OF m(2)] obtain d where d: "filter (\<lambda>d. \<not> attests d) (ar_leaves a1) = [d]"
    "leaf_key d = (False, ''amd64'', digest_of d)" by (auto simp: expect_platforms)
  from opened_leaves [OF m(4)] obtain e where e: "filter (\<lambda>d. \<not> attests d) (ar_leaves a2) = [e]"
    "leaf_key e = (False, ''arm64'', digest_of e)" by (auto simp: expect_platforms)
  have "''amd64'' < ''arm64''" by code_simp
  then have "leaf_key d \<le> leaf_key e" by (simp add: d e less_eq_prod_def)
  from sorted_leaves [OF d(1) e(1) this] obtain rest where rest:
    "sort_key leaf_key (ar_leaves a1 @ ar_leaves a2) = d # e # rest" "list_all attests rest" by blast
  from g obtain inner root layout where gm: "g = [(''oci-layout'', layout), (''index.json'', root), (BLOB_PREFIX @ digest, inner)]"
    "digest = tl_sha t inner" "canonical (index_json (map PDict (d # e # rest))) = Inr inner"
    "canonical (index_json [PDict [(''mediaType'', PStr INDEX), (''digest'', PStr (''sha256:'' @ digest)),
       (''size'', PInt (int (length inner)))]]) = Inr root"
    unfolding rest(1) by (auto simp: generated_members_def Let_def step_iff)
  from merged_blobs [OF m(2,4) u] have bl: "intact t bl"
    "\<And>l. l \<in> set (ar_leaves a1) \<or> l \<in> set (ar_leaves a2) \<Longrightarrow> blob_of l \<in> set (map fst bl)" by auto
  have v: "self_verifying t members" unfolding mem by (rule merged_verifying [OF g bl(1) assms(2)])
  have ms: "mset (d # e # rest) = mset (ar_leaves a1) + mset (ar_leaves a2)"
    by (simp only: rest(1) [symmetric] mset_sort mset_append)
  have lv: "l \<in> set (ar_leaves a1) \<or> l \<in> set (ar_leaves a2)" if "l \<in> set (d # e # rest)" for l
    using ms that by (metis Un_iff set_mset_mset set_mset_union)
  have nm0: "named members (blob_of l) \<noteq> None" if "l \<in> set (d # e # rest)" for l
    using bl(2) [OF lv [OF that]] unfolding mem by (simp add: merged_named)
  have nm: "list_all (\<lambda>l. named members (blob_of l) \<noteq> None) (d # e # rest)"
    unfolding list_all_iff by (rule ballI) (rule nm0)
  have nn: "map_option te_data (named members ''index.json'') = Some root"
    "map_option te_data (named members (BLOB_PREFIX @ tl_sha t inner)) = Some inner"
    unfolding mem by (simp_all add: merged_named gm(1,2) add_file_def BLOB_PREFIX_def)
  have de: "d \<in> set (ar_leaves a1)" "\<not> attests d" "e \<in> set (ar_leaves a2)" "\<not> attests e"
    using filter_eq_ConsD [OF d(1)] filter_eq_ConsD [OF e(1)] by auto
  show ?thesis
    by (rule exI [of _ src1], rule exI [of _ src2], rule exI [of _ a1], rule exI [of _ a2], rule exI [of _ d],
        rule exI [of _ e], rule exI [of _ rest], rule exI [of _ inner], rule exI [of _ root], intro conjI)
      (fact m s v ms de rest(2) gm(3) nn nm gm(4) [unfolded gm(2)])+
qed


theorem merged_archive_complete_witness:
  "\<exists>members report. demo_merge = Inr (members, report) \<and> self_verifying demo_tools members \<and> named members ''index.json'' \<noteq> None"
proof -
  obtain members report where m: "demo_merge = Inr (members, report)"
    using demo_merge_ok unfolding is_ok_iff by (metis prod.exhaust)
  have "digest_text (tl_sha demo_tools s)" for s by (simp add: demo_tools_def demo_sha256_text)
  from merged_archive_complete [OF m [unfolded demo_merge_def] this] m show ?thesis by auto
qed

end
