(* ===== verification/Github_Calls.thy ===== *)
theory Github_Calls
  imports Release_Notes Json_Text
begin

text \<open>
  The class \<^verbatim>\<open>GitHub\<close> of \<^verbatim>\<open>scripts/release_control.py\<close> and the programs written over it. A program is a
  function of the world and of the calls made so far; the world answers each call by a function of these
  calls, so anything may have changed between two calls. What is proved about a program holds for every
  world: GitHub may answer as it likes, and other runs may act at any time.

  \<^verbatim>\<open>ReleaseError\<close> and \<^verbatim>\<open>GitHubError\<close> are \<^verbatim>\<open>RuntimeError\<close>; a \<^verbatim>\<open>GitHubError\<close> with \<^verbatim>\<open>not_found\<close> is \<open>HttpStatus 404\<close>.
\<close>

section \<open>Calls and programs\<close>

text \<open>
  One constructor per route: reads of JSON, of pages (with the field of a page that is taken), of bytes;
  the read-only calls of \<^verbatim>\<open>CreateReadback\<close>; the writes; the clock and a pause.
\<close>

datatype call =
    Api string
  | Pages string string
  | Binary string
  | Fetch string
  | Readback string
  | Add_ref pydict
  | Add_release pydict
  | Add_release_once pydict
  | Send string int string string
  | Edit_release int pydict
  | Save_ledger pydict
  | Tick
  | Pause time

text \<open>
  A completed \<^verbatim>\<open>gh\<close> process: the bytes it wrote, its exit code, and its HTTP response if the framing is
  valid: the status, the values of its \<^verbatim>\<open>Link\<close> headers and the decoded body. \<open>rw_denied\<close> and \<open>rw_transport\<close>
  are what \<^verbatim>\<open>_denied_partial_read\<close> (or a 4xx status line) and \<^verbatim>\<open>_transient_read_failure\<close> (or a truncated
  JSON diagnostic) see in its output.
\<close>

datatype body = Parsed pyval | Lost | Malformed

record raw =
  rw_timeout :: bool
  rw_size :: int
  rw_code :: int
  rw_http :: "(int \<times> string list \<times> body) option"
  rw_denied :: bool
  rw_transport :: bool

datatype reply = Value pyval | Bytes string | Instant time | Response raw | Refused pyexc

type_synonym world = "call list \<Rightarrow> call \<Rightarrow> reply"

type_synonym 'a io = "world \<Rightarrow> call list \<Rightarrow> 'a res \<times> call list"

definition give :: "'a res \<Rightarrow> 'a io" where
  "give r = (\<lambda>w h. (r, h))"

definition andthen :: "'a io \<Rightarrow> ('a \<Rightarrow> 'b io) \<Rightarrow> 'b io" where
  "andthen m f = (\<lambda>w h. case m w h of (Inl e, h') \<Rightarrow> (Inl e, h') | (Inr a, h') \<Rightarrow> f a w h')"

definition ask :: "call \<Rightarrow> reply io" where
  "ask c = (\<lambda>w h. (Inr (w h c), h @ [c]))"

abbreviation done_with :: "'a \<Rightarrow> 'a io" where
  "done_with a \<equiv> give (Inr a)"

abbreviation require :: "bool \<Rightarrow> unit io" where
  "require b \<equiv> give (ensure b)"

text \<open>The answers of the right kind; another kind does not occur.\<close>

definition ask_value :: "call \<Rightarrow> pyval io" where
  "ask_value c = andthen (ask c) (\<lambda>r. give (case r of Value v \<Rightarrow> Inr v | Refused e \<Rightarrow> Inl e | _ \<Rightarrow> Inl OtherError))"

definition ask_bytes :: "call \<Rightarrow> string io" where
  "ask_bytes c = andthen (ask c) (\<lambda>r. give (case r of Bytes s \<Rightarrow> Inr s | Refused e \<Rightarrow> Inl e | _ \<Rightarrow> Inl OtherError))"

definition ask_raw :: "call \<Rightarrow> raw io" where
  "ask_raw c = andthen (ask c) (\<lambda>r. give (case r of Response x \<Rightarrow> Inr x | Refused e \<Rightarrow> Inl e | _ \<Rightarrow> Inl OtherError))"

definition tick :: "time io" where
  "tick = andthen (ask Tick) (\<lambda>r. give (case r of Instant q \<Rightarrow> Inr q | _ \<Rightarrow> Inl OtherError))"

text \<open>A loop that only checks its items, and one that collects.\<close>

fun each :: "('a \<Rightarrow> unit io) \<Rightarrow> 'a list \<Rightarrow> unit io" where
  "each f [] = done_with ()"
| "each f (x # xs) = andthen (f x) (\<lambda>_. each f xs)"

fun collect :: "('a \<Rightarrow> 'b io) \<Rightarrow> 'a list \<Rightarrow> 'b list io" where
  "collect f [] = done_with []"
| "collect f (x # xs) = andthen (f x) (\<lambda>y. andthen (collect f xs) (\<lambda>ys. done_with (y # ys)))"

section \<open>What a program may do\<close>

text \<open>
  The writes are the calls that change tags and releases. The ledger of versions is a branch of its own that
  no package is built from; its writers are the processes of \<open>Release_State\<close>.
\<close>

definition is_write :: "call \<Rightarrow> bool" where
  "is_write c =
     (case c of Add_ref _ \<Rightarrow> True | Add_release _ \<Rightarrow> True | Add_release_once _ \<Rightarrow> True | Send _ _ _ _ \<Rightarrow> True
      | Edit_release _ _ \<Rightarrow> True | _ \<Rightarrow> False)"

abbreviation is_read :: "call \<Rightarrow> bool" where
  "is_read c \<equiv> \<not> is_write c"

definition does :: "(call \<Rightarrow> bool) \<Rightarrow> 'a io \<Rightarrow> bool" where
  "does P m = (\<forall>w h. \<exists>cs. snd (m w h) = h @ cs \<and> list_all P cs)"

named_theorems does_intros \<open>which calls a program makes\<close>

lemma doesI: "(\<And>w h. \<exists>cs. snd (m w h) = h @ cs \<and> list_all P cs) \<Longrightarrow> does P m"
  by (simp add: does_def)

lemma does_give [does_intros]: "does P (give r)"
  by (simp add: does_def give_def)

lemma does_ask [does_intros]: "P c \<Longrightarrow> does P (ask c)"
  by (simp add: does_def ask_def)

lemma does_andthen [does_intros]:
  assumes "does P m" "\<And>a. does P (f a)"
  shows "does P (andthen m f)"
proof (rule doesI)
  fix w h
  obtain r h1 where m: "m w h = (r, h1)" by (cases "m w h")
  with assms(1) obtain cs where cs: "h1 = h @ cs" "list_all P cs" unfolding does_def by (metis snd_conv)
  show "\<exists>cs. snd (andthen m f w h) = h @ cs \<and> list_all P cs"
  proof (cases r)
    case (Inl e)
    then show ?thesis using cs m by (simp add: andthen_def)
  next
    case (Inr a)
    from assms(2) [of a] obtain ds where "snd (f a w h1) = h1 @ ds" "list_all P ds" unfolding does_def by blast
    then show ?thesis using cs m Inr by (intro exI [of _ "cs @ ds"]) (simp add: andthen_def)
  qed
qed

lemma does_if [does_intros]: "does P m \<Longrightarrow> does P m' \<Longrightarrow> does P (if b then m else m')"
  by simp

lemma does_more: "does P m \<Longrightarrow> (\<And>c. P c \<Longrightarrow> Q c) \<Longrightarrow> does Q m"
  unfolding does_def list_all_iff by meson

lemma does_each [does_intros]: "(\<And>x. x \<in> set xs \<Longrightarrow> does P (f x)) \<Longrightarrow> does P (each f xs)"
  by (induction xs) (auto intro!: does_intros)

lemma does_collect [does_intros]: "(\<And>x. x \<in> set xs \<Longrightarrow> does P (f x)) \<Longrightarrow> does P (collect f xs)"
  by (induction xs) (auto intro!: does_intros)

lemma does_ask_kinds [does_intros]:
  "P c \<Longrightarrow> does P (ask_value c)" "P c \<Longrightarrow> does P (ask_bytes c)" "P c \<Longrightarrow> does P (ask_raw c)" "P Tick \<Longrightarrow> does P tick"
  by (simp_all add: ask_value_def ask_bytes_def ask_raw_def tick_def does_andthen does_ask does_give)

text \<open>Running a program step by step.\<close>

lemma andthen_Inr:
  "andthen m f w h = (Inr b, h') \<longleftrightarrow> (\<exists>a h1. m w h = (Inr a, h1) \<and> f a w h1 = (Inr b, h'))"
  by (auto simp: andthen_def split: prod.splits sum.splits)

lemma give_run: "give r w h = (r, h)"
  by (simp add: give_def)

lemma does_run: "does P m \<Longrightarrow> m w h = (r, h') \<Longrightarrow> \<exists>cs. h' = h @ cs \<and> list_all P cs"
  unfolding does_def by (metis snd_conv)

lemma ask_value_Inr: "ask_value c w h = (Inr v, h') \<longleftrightarrow> w h c = Value v \<and> h' = h @ [c]"
  by (auto simp: ask_value_def andthen_Inr ask_def give_run split: reply.splits)

lemma ask_bytes_Inr: "ask_bytes c w h = (Inr s, h') \<longleftrightarrow> w h c = Bytes s \<and> h' = h @ [c]"
  by (auto simp: ask_bytes_def andthen_Inr ask_def give_run split: reply.splits)

lemma each_Inr: "each f xs w h = (Inr u, h') \<Longrightarrow> x \<in> set xs \<Longrightarrow> \<exists>h1 h2. f x w h1 = (Inr (), h2)"
  by (induction xs arbitrary: h) (auto simp: andthen_Inr give_run)

section \<open>Routes\<close>

text \<open>\<^verbatim>\<open>urllib.parse.quote(s, safe='')\<close> and \<^verbatim>\<open>unquote\<close>, on the characters below 256.\<close>

definition unreserved :: "char \<Rightarrow> bool" where
  "unreserved c = (is_alpha c \<or> is_digit c \<or> c \<in> {CHR ''_'', CHR ''.'', CHR ''-'', CHR ''~''})"

definition upper_hex :: "int \<Rightarrow> char" where
  "upper_hex n = (if n < 10 then char_of (48 + n) else char_of (55 + n))"

definition percent :: "char \<Rightarrow> string" where
  "percent c = [CHR ''%'', upper_hex (code c div 16), upper_hex (code c mod 16)]"

definition quote_url :: "string \<Rightarrow> string" where
  "quote_url s = concat (map (\<lambda>c. if unreserved c then [c] else concat (map percent (utf8_bytes (code c)))) s)"

fun unquote_url :: "string \<Rightarrow> string" where
  "unquote_url (c # d # e # s) =
     (if c = CHR ''%'' then (case (hex_val d, hex_val e) of
        (Some m, Some n) \<Rightarrow> char_of (16 * m + n) # unquote_url s
      | _ \<Rightarrow> c # unquote_url (d # e # s)) else c # unquote_url (d # e # s))"
| "unquote_url s = s"

fun quoted_text :: "string \<Rightarrow> bool" where
  "quoted_text (c # d # e # s) =
     (if c = CHR ''%'' then (is_digit d \<or> 65 \<le> code d \<and> code d \<le> 70) \<and> (is_digit e \<or> 65 \<le> code e \<and> code e \<le> 70) \<and>
        (s = [] \<or> quoted_text s)
      else unreserved c \<and> quoted_text (d # e # s))"
| "quoted_text [c, d] = (unreserved c \<and> unreserved d)"
| "quoted_text [c] = unreserved c"
| "quoted_text [] = False"

text \<open>\<^verbatim>\<open>NAME_RE\<close> and \<^verbatim>\<open>REPO_RE\<close> as whole-string matches.\<close>

definition name_char :: "char \<Rightarrow> bool" where
  "name_char c = (is_alpha c \<or> is_digit c \<or> c \<in> {CHR ''.'', CHR ''_'', CHR ''+'', CHR ''-''})"

definition asset_name :: "string \<Rightarrow> bool" where
  "asset_name s = (s \<noteq> [] \<and> (is_alpha (hd s) \<or> is_digit (hd s)) \<and> list_all name_char s \<and> int (length s) \<le> 200)"

definition owner_char :: "char \<Rightarrow> bool" where
  "owner_char c = (is_alpha c \<or> is_digit c \<or> c \<in> {CHR ''_'', CHR ''.'', CHR ''-''})"

definition owner_name :: "string \<Rightarrow> bool" where
  "owner_name s = (s \<noteq> [] \<and> (is_alpha (hd s) \<or> is_digit (hd s)) \<and> list_all owner_char s)"

definition repository_name :: "string \<Rightarrow> bool" where
  "repository_name s = (case split_char (CHR ''/'') s of [a, b] \<Rightarrow> owner_name a \<and> owner_name b | _ \<Rightarrow> False)"

text \<open>\<^verbatim>\<open>API_PATHS["GET"]\<close>: the routes without a query, by their parts, and those with one.\<close>

definition plain_route :: "string list \<Rightarrow> bool" where
  "plain_route ps =
     (ps \<in> {[''''], [''tags''], [''releases''], [''environments'', ''release''], [''git'', ''ref'', ''heads'', ''release-version-state'']} \<or>
      (case ps of
         [a, b] \<Rightarrow> a = ''releases'' \<and> positive_text b
       | [a, b, c] \<Rightarrow>
           a = ''releases'' \<and> (positive_text b \<and> c = ''assets'' \<or> b = ''assets'' \<and> positive_text c \<or> b = ''tags'' \<and> tag_text c) \<or>
           a = ''actions'' \<and> b = ''runs'' \<and> positive_text c
       | [a, b, c, d] \<Rightarrow>
           a = ''git'' \<and> b = ''ref'' \<and> (c = ''tags'' \<and> tag_text d \<or> c = ''heads'' \<and> quoted_text d) \<or>
           a = ''actions'' \<and> (b = ''runs'' \<and> positive_text c \<and> d = ''artifacts'' \<or>
                              b = ''artifacts'' \<and> positive_text c \<and> d = ''zip'')
       | [a, b, c, d, e] \<Rightarrow> a = ''actions'' \<and> b = ''runs'' \<and> positive_text c \<and> d = ''attempts'' \<and> positive_text e
       | [a, b, c, d, e, f] \<Rightarrow>
           a = ''actions'' \<and> b = ''runs'' \<and> positive_text c \<and> d = ''attempts'' \<and> positive_text e \<and> f = ''jobs''
       | _ \<Rightarrow> False))"

definition after :: "string \<Rightarrow> string \<Rightarrow> string option" where
  "after p s = (if startswith s p then Some (drop (length p) s) else None)"

definition sha_after :: "string \<Rightarrow> string \<Rightarrow> bool" where
  "sha_after p s = (case after p s of None \<Rightarrow> False | Some r \<Rightarrow> sha_text r)"

definition query_route :: "string \<Rightarrow> bool" where
  "query_route s =
     (sha_after ''contents/.release-policy.json?ref='' s \<or> sha_after ''contents/CHANGELOG.md?ref='' s \<or>
      sha_after ''contents/.github?ref='' s \<or>
      s = ''contents/release-version-state.json?ref=release-version-state'' \<or>
      (case after ''actions/workflows/release-pipeline.yml/runs?branch='' s of
         None \<Rightarrow> False
       | Some r \<Rightarrow>
           (case split_char (CHR ''&'') r of
              [b, e, k, p] \<Rightarrow> quoted_text b \<and> e = ''event=push'' \<and> sha_after ''head_sha='' k \<and> p = ''per_page=100''
            | _ \<Rightarrow> False)) \<or>
      (case after ''compare/'' s of
         None \<Rightarrow> False
       | Some r \<Rightarrow> sha_text (take 40 r) \<and> startswith (drop 40 r) ''...'' \<and> quoted_text (drop 43 r)))"

definition no_dots :: "string \<Rightarrow> bool" where
  "no_dots s = list_all (\<lambda>p. p \<noteq> ''.'' \<and> p \<noteq> ''..'') (split_char (CHR ''/'') (unquote_url s))"

definition allowed_get :: "string \<Rightarrow> bool" where
  "allowed_get s = ((plain_route (split_char (CHR ''/'') s) \<or> query_route s) \<and> no_dots s)"

section \<open>One read\<close>

text \<open>
  \<^verbatim>\<open>_read_get\<close> with \<^verbatim>\<open>_completed_read\<close> and \<^verbatim>\<open>response\<close>: the bodies are the bytes of the response. \<open>rr_denied_text\<close> is
  what \<^verbatim>\<open>_denied_read_diagnostic\<close> sees in the error output without a status.
\<close>

record read_result =
  rr_timeout :: bool
  rr_code :: int
  rr_http :: "(int \<times> string) option"
  rr_denied :: bool
  rr_denied_text :: bool
  rr_transport :: bool

definition response :: "int \<Rightarrow> (int \<times> 'a) option \<Rightarrow> 'a option res" where
  "response rc http =
     (case http of
        None \<Rightarrow> if rc \<noteq> 0 then Inl RuntimeError else Inr None
      | Some (status, b) \<Rightarrow>
          if (rc = 0) \<noteq> (200 \<le> status \<and> status < 300) then Inl RuntimeError
          else if rc \<noteq> 0 then Inl (if status = 404 then HttpStatus 404 else RuntimeError)
          else Inr (Some b))"

text \<open>\<open>Inr None\<close> asks for another attempt.\<close>

definition completed_read :: "read_result \<Rightarrow> bool \<Rightarrow> string option res" where
  "completed_read x final =
     (case rr_http x of
        None \<Rightarrow> if \<not> rr_transport x \<or> rr_denied x \<or> final then Inl RuntimeError else Inr None
      | Some (status, b) \<Rightarrow>
          if (rr_code x = 1 \<and> (status \<in> {500, 502, 503, 504} \<and> \<not> rr_denied_text x \<or>
                                (200 \<le> status \<and> status < 300 \<and> rr_transport x))) \<and> \<not> final
          then Inr None
          else rbind (response (rr_code x) (Some (status, b))) (\<lambda>r. Inr r))"

fun read_get :: "read_result list \<Rightarrow> string res" where
  "read_get [] = Inl OtherError"
| "read_get (x # xs) =
     (let final = (xs = [])
      in if rr_timeout x then (if rr_denied x \<or> final then Inl RuntimeError else read_get xs)
         else rbind (completed_read x final) (\<lambda>r. case r of Some b \<Rightarrow> Inr b | None \<Rightarrow> read_get xs))"

text \<open>
  A read that returns has the bytes of one complete successful response; a resource counts as missing
  only when a complete response says 404.
\<close>

lemma completed_read_Some: "completed_read x final = Inr (Some b) \<Longrightarrow>
    rr_code x = 0 \<and> (\<exists>status. rr_http x = Some (status, b) \<and> 200 \<le> status \<and> status < 300)"
  by (auto simp: completed_read_def response_def split: option.splits if_splits)

lemma completed_read_missing: "completed_read x final = Inl (HttpStatus 404) \<Longrightarrow> \<exists>b. rr_http x = Some (404, b)"
  by (auto simp: completed_read_def response_def split: option.splits if_splits)

lemma read_get_complete: "read_get xs = Inr b \<Longrightarrow>
    \<exists>x\<in>set xs. \<not> rr_timeout x \<and> rr_code x = 0 \<and> (\<exists>status. rr_http x = Some (status, b) \<and> 200 \<le> status \<and> status < 300)"
proof (induction xs)
  case (Cons x xs)
  show ?case
  proof (cases "rr_timeout x")
    case True
    with Cons show ?thesis by (auto simp: Let_def split: if_splits)
  next
    case False
    with Cons(2) obtain r where r: "completed_read x (xs = []) = Inr r" "case r of Some b' \<Rightarrow> b' = b | None \<Rightarrow> read_get xs = Inr b"
      by (auto simp: Let_def rbind_Inr_iff split: option.splits)
    show ?thesis
    proof (cases r)
      case None
      with r Cons(1) show ?thesis by auto
    next
      case (Some b')
      with r completed_read_Some [of x "xs = []" b] False show ?thesis by auto
    qed
  qed
qed simp

lemma read_get_missing: "read_get xs = Inl (HttpStatus 404) \<Longrightarrow> \<exists>x\<in>set xs. \<exists>b. rr_http x = Some (404, b)"
proof (induction xs)
  case (Cons x xs)
  then show ?case
    using completed_read_missing [of x "xs = []"]
    by (auto simp: Let_def rbind_Inl_iff split: if_splits option.splits)
qed simp

section \<open>The methods of GitHub\<close>

text \<open>The repository the object was made for, and whether its token was found to carry the workflow scope.\<close>

record github =
  gi_repo :: string
  gi_scope :: bool

definition api :: "string \<Rightarrow> pyval io" where
  "api path = andthen (require (allowed_get path)) (\<lambda>_. ask_value (Api path))"

definition recover :: "'a io \<Rightarrow> pyexc \<Rightarrow> 'a res \<Rightarrow> 'a io" where
  "recover m e r = (\<lambda>w h. case m w h of (x, h') \<Rightarrow> ((if x = Inl e then r else x), h'))"

definition optional :: "string \<Rightarrow> pyval io" where
  "optional path = recover (api path) (HttpStatus 404) (Inr PNone)"

fun page_records :: "string \<Rightarrow> pyval list \<Rightarrow> pyval list res" where
  "page_records field [] = Inr []"
| "page_records field (p # ps) =
     (case (if field \<noteq> [] \<and> is_dict p then dget (as_dict p) field else p) of
        PList xs \<Rightarrow> rbind (page_records field ps) (\<lambda>ys. Inr (xs @ ys))
      | _ \<Rightarrow> Inl RuntimeError)"

definition pages :: "string \<Rightarrow> string \<Rightarrow> pyval list io" where
  "pages path field =
     andthen (require (allowed_get path)) (\<lambda>_.
     andthen (ask_value (Pages path field)) (\<lambda>v.
     give (case v of PList ps \<Rightarrow> page_records field ps | _ \<Rightarrow> Inl RuntimeError)))"

definition asset_route :: "int \<Rightarrow> string" where
  "asset_route n = ''releases/assets/'' @ show_int n"

definition binary :: "string \<Rightarrow> string io" where
  "binary path =
     andthen (require (allowed_get path \<and>
        (case split_char (CHR ''/'') path of
           [a, b, c] \<Rightarrow> a = ''releases'' \<and> b = ''assets''
         | [a, b, c, d] \<Rightarrow> a = ''actions'' \<and> b = ''artifacts'' \<and> d = ''zip''
         | _ \<Rightarrow> False))) (\<lambda>_. ask_bytes (Binary path))"

definition download_asset :: "int \<Rightarrow> string io" where
  "download_asset n = ask_bytes (Fetch (asset_route n))"

text \<open>
  \<^verbatim>\<open>upload\<close> of one staged file: the answer must confirm exactly this file. The file is a regular file of
  the private staging directory, which the callers make.
\<close>

definition confirmed_upload :: "string \<Rightarrow> string \<Rightarrow> raw \<Rightarrow> unit res" where
  "confirmed_upload name content x =
     (if rw_timeout x then Inl RuntimeError
      else case rw_http x of
        None \<Rightarrow> Inl RuntimeError
      | Some (status, links, b) \<Rightarrow>
          rbind (response (rw_code x) (Some (status, b))) (\<lambda>_.
          rbind (ensure (status = 201)) (\<lambda>_.
          case b of
            Parsed (PDict a) \<Rightarrow>
              rbind (positive (dget a ''id'')) (\<lambda>_.
              ensure (py_eq (dget a ''name'') (PStr name) \<and> py_eq (dget a ''state'') (PStr ''uploaded'') \<and>
                      dget a ''size'' = PInt (int (length content))))
          | _ \<Rightarrow> Inl RuntimeError)))"

definition upload :: "string \<Rightarrow> int \<Rightarrow> string \<times> string \<Rightarrow> unit io" where
  "upload tag release_id = (\<lambda>(name, content).
     andthen (require (tag_text tag \<and> 0 < release_id \<and> asset_name name)) (\<lambda>_.
     andthen (ask_raw (Send tag release_id name content)) (\<lambda>x. give (confirmed_upload name content x))))"

section \<open>Creating a release once\<close>

text \<open>A create call ends with the release, with a rejection, or with an outcome nobody knows.\<close>

datatype created = Created pydict | Ambiguous

definition created_of :: "raw \<Rightarrow> created res" where
  "created_of x =
     (if rw_timeout x then (if rw_denied x then Inl RuntimeError else Inr Ambiguous)
      else case rw_http x of
        None \<Rightarrow> if rw_transport x \<and> \<not> rw_denied x then Inr Ambiguous else Inl RuntimeError
      | Some (status, links, b) \<Rightarrow>
          if rw_denied x \<or> 400 \<le> status \<and> status < 500 then Inl RuntimeError
          else if status \<in> {500, 502, 503, 504} \<and> rw_code x \<in> {0, 1} \<or> 200 \<le> status \<and> status < 300 \<and> rw_transport x
            then Inr Ambiguous
          else rbind (ensure (rw_code x = 0 \<and> status = 201)) (\<lambda>_.
            case b of Lost \<Rightarrow> Inr Ambiguous | Parsed (PDict d) \<Rightarrow> Inr (Created d) | _ \<Rightarrow> Inl RuntimeError))"

definition create_release_once :: "pydict \<Rightarrow> created io" where
  "create_release_once payload = andthen (ask_raw (Add_release_once payload)) (\<lambda>x. give (created_of x))"

section \<open>Reading back after an ambiguous create\<close>

text \<open>\<^verbatim>\<open>CreateReadback\<close>: one deadline, one budget of bytes and one of calls for all its reads.\<close>

record readback =
  rb_deadline :: time
  rb_left :: int
  rb_calls :: int
  rb_repo :: "int option"

definition readback_new :: "github \<Rightarrow> readback io" where
  "readback_new g =
     andthen (require (repository_name (gi_repo g))) (\<lambda>_.
     andthen tick (\<lambda>t. done_with \<lparr>rb_deadline = t + 180, rb_left = 64 * 1024 * 1024, rb_calls = 0, rb_repo = None\<rparr>))"

definition readback_check :: "readback \<Rightarrow> unit io" where
  "readback_check rb = andthen tick (\<lambda>t. require (0 < rb_deadline rb - t))"

definition page_query :: "int \<Rightarrow> string" where
  "page_query n = ''?per_page=100&page='' @ show_int n"

definition page_route :: "string \<Rightarrow> bool" where
  "page_route s =
     (case split_char (CHR ''?'') s of
        [p, q] \<Rightarrow>
          (case split_char (CHR ''/'') p of
             [a] \<Rightarrow> a = ''releases''
           | [a, b, c] \<Rightarrow> a = ''releases'' \<and> positive_text b \<and> c = ''assets''
           | _ \<Rightarrow> False) \<and>
          (case after ''per_page=100&page='' q of None \<Rightarrow> False | Some n \<Rightarrow> positive_text n)
      | _ \<Rightarrow> False)"

definition readback_answer :: "raw \<Rightarrow> readback \<Rightarrow> ((pyval \<times> string list) \<times> readback) res" where
  "readback_answer x rb =
     (case rw_http x of
        None \<Rightarrow> Inl RuntimeError
      | Some (status, links, b) \<Rightarrow>
          rbind (ensure (rw_code x = 0 \<and> status = 200)) (\<lambda>_.
          case b of Parsed v \<Rightarrow> Inr ((v, links), rb) | _ \<Rightarrow> Inl RuntimeError))"

definition readback_get :: "string \<Rightarrow> readback \<Rightarrow> ((pyval \<times> string list) \<times> readback) io" where
  "readback_get path rb =
     (let rb1 = rb\<lparr>rb_calls := rb_calls rb + 1\<rparr>
      in andthen (require (allowed_get path \<or> page_route path \<and> no_dots path)) (\<lambda>_.
         andthen (require (rb_calls rb1 \<le> 100)) (\<lambda>_.
         andthen (readback_check rb1) (\<lambda>_.
         andthen (ask_raw (Readback path)) (\<lambda>x.
         andthen (require (\<not> rw_timeout x)) (\<lambda>_.
         andthen (readback_check rb1) (\<lambda>_.
         let rb2 = rb1\<lparr>rb_left := rb_left rb1 - rw_size x\<rparr>
         in andthen (require (0 \<le> rb_left rb2)) (\<lambda>_. give (readback_answer x rb2)))))))))"

definition readback_json :: "string \<Rightarrow> readback \<Rightarrow> (pyval \<times> readback) io" where
  "readback_json path rb = andthen (readback_get path rb) (\<lambda>((v, links), rb'). done_with (v, rb'))"

text \<open>One link of a \<^verbatim>\<open>Link\<close> header: \<^verbatim>\<open>\s*<([^<>]+)>;\s*rel="(next|prev|first|last)"\s*\<close>.\<close>

definition link_parts :: "string \<Rightarrow> (string \<times> string) option" where
  "link_parts s =
     (case after ''<'' (dropWhile is_space s) of
        None \<Rightarrow> None
      | Some r \<Rightarrow>
          let url = takeWhile (\<lambda>c. c \<noteq> CHR ''<'' \<and> c \<noteq> CHR ''>'') r
          in case after ''>;'' (drop (length url) r) of
               None \<Rightarrow> None
             | Some u \<Rightarrow>
                 (case after ''rel='' (dropWhile is_space u) of
                    None \<Rightarrow> None
                  | Some q \<Rightarrow>
                      (case split_char (CHR 0x22) q of
                         [a, rel, b] \<Rightarrow>
                           if url \<noteq> [] \<and> a = [] \<and> rel \<in> {''next'', ''prev'', ''first'', ''last''} \<and> list_all is_space b
                           then Some (url, rel) else None
                       | _ \<Rightarrow> None)))"

text \<open>\<^verbatim>\<open>urlsplit\<close> of an absolute URL: scheme, host, path, query and fragment.\<close>

definition url_parts :: "string \<Rightarrow> (string \<times> string \<times> string \<times> string \<times> string) option" where
  "url_parts u =
     (case after ''https://'' (lower (take 8 u) @ drop 8 u) of
        None \<Rightarrow> None
      | Some r \<Rightarrow>
          let front = takeWhile (\<lambda>c. c \<noteq> CHR ''#'') r; fragment = drop 1 (dropWhile (\<lambda>c. c \<noteq> CHR ''#'') r);
              place = takeWhile (\<lambda>c. c \<noteq> CHR ''?'') front; query = drop 1 (dropWhile (\<lambda>c. c \<noteq> CHR ''?'') front);
              host = takeWhile (\<lambda>c. c \<noteq> CHR ''/'') place
          in Some (''https'', host, drop (length host) place, query, fragment))"

text \<open>\<^verbatim>\<open>parse_qs(query, strict_parsing=True, keep_blank_values=True)\<close>.\<close>

definition form_text :: "string \<Rightarrow> string" where
  "form_text s = unquote_url (map (\<lambda>c. if c = CHR ''+'' then CHR '' '' else c) s)"

fun query_pairs :: "string list \<Rightarrow> (string \<times> string) list res" where
  "query_pairs [] = Inr []"
| "query_pairs (p # ps) =
     (let k = takeWhile (\<lambda>c. c \<noteq> CHR ''='') p
      in if CHR ''='' \<in> set p
         then rbind (query_pairs ps) (\<lambda>qs. Inr ((form_text k, form_text (drop (length k + 1) p)) # qs))
         else Inl ValueError)"

definition next_page_query :: "string \<Rightarrow> int \<Rightarrow> unit res" where
  "next_page_query query page =
     rbind (if query = [] then Inr [] else query_pairs (split_char (CHR ''&'') query)) (\<lambda>ps.
     ensure (ps = [(''per_page'', ''100''), (''page'', show_int (page + 1))] \<or>
             ps = [(''page'', show_int (page + 1)), (''per_page'', ''100'')]))"

text \<open>The target of the link to the next page: the same list, by name or by the number of the repository.\<close>

definition repository_number :: "github \<Rightarrow> readback \<Rightarrow> (int \<times> readback) io" where
  "repository_number g rb =
     (case rb_repo rb of
        Some n \<Rightarrow> done_with (n, rb)
      | None \<Rightarrow>
          andthen (readback_json '''' rb) (\<lambda>(info, rb1).
          case info of
            PDict d \<Rightarrow>
              (case (dget d ''full_name'', dget d ''id'') of
                 (PStr name, PInt n) \<Rightarrow>
                   andthen (require (repository_name name \<and> lower name = lower (gi_repo g) \<and> 0 < n)) (\<lambda>_.
                   done_with (n, rb1\<lparr>rb_repo := Some n\<rparr>))
               | _ \<Rightarrow> give (Inl RuntimeError))
          | _ \<Rightarrow> give (Inl RuntimeError)))"

definition next_target :: "github \<Rightarrow> string \<Rightarrow> int \<Rightarrow> string \<Rightarrow> readback \<Rightarrow> (unit \<times> readback) io" where
  "next_target g path page url rb =
     (case url_parts url of
        None \<Rightarrow> give (Inl RuntimeError)
      | Some (scheme, host, place, query, fragment) \<Rightarrow>
          andthen (require (host = ''api.github.com'' \<and> fragment = [])) (\<lambda>_.
          andthen (give (next_page_query query page)) (\<lambda>_.
          if place = ''/repos/'' @ gi_repo g @ ''/'' @ path then done_with ((), rb)
          else (case after ''/repositories/'' place of
                  None \<Rightarrow> give (Inl RuntimeError)
                | Some r \<Rightarrow>
                    let n = takeWhile (\<lambda>c. c \<noteq> CHR ''/'') r
                    in andthen (require (positive_text n \<and> drop (length n) r = ''/'' @ path)) (\<lambda>_.
                       andthen (repository_number g rb) (\<lambda>(m, rb1).
                       andthen (require (int_of_digits n = m)) (\<lambda>_. done_with ((), rb1))))))))"

fun next_links :: "github \<Rightarrow> string \<Rightarrow> int \<Rightarrow> string list \<Rightarrow> readback \<Rightarrow> (int \<times> readback) io" where
  "next_links g path page [] rb = done_with (0, rb)"
| "next_links g path page (s # ss) rb =
     (case link_parts s of
        None \<Rightarrow> give (Inl RuntimeError)
      | Some (url, rel) \<Rightarrow>
          andthen (if rel = ''next'' then next_target g path page url rb else done_with ((), rb)) (\<lambda>(_, rb1).
          andthen (next_links g path page ss rb1) (\<lambda>(n, rb2).
          done_with ((if rel = ''next'' then n + 1 else n), rb2))))"

fun new_records :: "int list \<Rightarrow> pyval list \<Rightarrow> (pydict list \<times> int list) res" where
  "new_records seen [] = Inr ([], seen)"
| "new_records seen (v # vs) =
     (case v of
        PDict d \<Rightarrow>
          rbind (positive (dget d ''id'')) (\<lambda>n.
          rbind (ensure (n \<notin> set seen)) (\<lambda>_.
          rbind (new_records (n # seen) vs) (\<lambda>(ds, seen'). Inr (d # ds, seen'))))
      | _ \<Rightarrow> Inl RuntimeError)"

text \<open>
  One round of \<^verbatim>\<open>pages\<close>, and the loop. Every round makes a call, and the call after the hundredth is refused, so
  a bound of 101 rounds is never reached.
\<close>

definition readback_round ::
    "(int \<Rightarrow> int list \<Rightarrow> readback \<Rightarrow> (pydict list \<times> readback) io) \<Rightarrow> github \<Rightarrow> string \<Rightarrow> int \<Rightarrow> int list \<Rightarrow> readback \<Rightarrow>
     (pydict list \<times> readback) io" where
  "readback_round next_round g path page seen rb =
     andthen (readback_get (path @ page_query page) rb) (\<lambda>((v, links), rb1).
     case v of
       PList vs \<Rightarrow>
         andthen (require (length vs \<le> 100)) (\<lambda>_.
         andthen (give (new_records seen vs)) (\<lambda>(ds, seen').
         andthen (require (length links \<le> 1)) (\<lambda>_.
         andthen (next_links g path page (concat (map (split_char (CHR '','')) links)) rb1) (\<lambda>(n, rb2).
         andthen (require (n \<le> 1)) (\<lambda>_.
         if n = 0 \<and> length vs < 100 then done_with (ds, rb2)
         else andthen (require (vs \<noteq> [])) (\<lambda>_.
              andthen (next_round (page + 1) seen' rb2) (\<lambda>(es, rb3). done_with (ds @ es, rb3))))))))
     | _ \<Rightarrow> give (Inl RuntimeError))"

fun readback_pages_from :: "nat \<Rightarrow> github \<Rightarrow> string \<Rightarrow> int \<Rightarrow> int list \<Rightarrow> readback \<Rightarrow> (pydict list \<times> readback) io" where
  "readback_pages_from 0 g path page seen rb = give (Inl OtherError)"
| "readback_pages_from (Suc k) g path page seen rb = readback_round (readback_pages_from k g path) g path page seen rb"

definition readback_pages :: "github \<Rightarrow> string \<Rightarrow> readback \<Rightarrow> (pydict list \<times> readback) io" where
  "readback_pages g path rb = readback_pages_from 101 g path 1 [] rb"

section \<open>The budget of a read-back\<close>

text \<open>
  A program over a read-back is metered: it only reads, it counts each of its calls, and the calls of one
  read-back never exceed a hundred, whether the program succeeds or fails.
\<close>

definition is_readback :: "call \<Rightarrow> bool" where
  "is_readback c = (case c of Readback _ \<Rightarrow> True | _ \<Rightarrow> False)"

definition readbacks :: "call list \<Rightarrow> int" where
  "readbacks cs = int (length (filter is_readback cs))"

definition in_budget :: "readback \<Rightarrow> ('a \<times> readback) res \<Rightarrow> call list \<Rightarrow> bool" where
  "in_budget rb r cs =
     (list_all (\<lambda>c. c = Tick \<or> is_readback c) cs \<and>
      (case r of
         Inr (a, rb') \<Rightarrow> rb_calls rb' = rb_calls rb + readbacks cs \<and> rb_calls rb' \<le> 100
       | Inl _ \<Rightarrow> rb_calls rb + readbacks cs \<le> 100))"

definition metered :: "readback \<Rightarrow> ('a \<times> readback) io \<Rightarrow> bool" where
  "metered rb m =
     (rb_calls rb \<le> 100 \<longrightarrow> (\<forall>w h. \<exists>cs. snd (m w h) = h @ cs \<and> in_budget rb (fst (m w h)) cs))"

lemma readbacks_simps [simp]:
  "readbacks [] = 0" "readbacks (cs @ ds) = readbacks cs + readbacks ds" "readbacks [Tick] = 0" "readbacks [Readback p] = 1"
  by (simp_all add: readbacks_def is_readback_def)

lemma in_budget_append:
  assumes "list_all (\<lambda>c. c = Tick \<or> is_readback c) cs" "rb_calls rb1 = rb_calls rb + readbacks cs" "in_budget rb1 r ds"
  shows "in_budget rb r (cs @ ds)"
  using assms by (auto simp: in_budget_def split: sum.splits prod.splits)

lemma meteredD:
  assumes "metered rb m" "rb_calls rb \<le> 100" "m w h = (r, h1)"
  shows "\<exists>cs. h1 = h @ cs \<and> in_budget rb r cs"
proof -
  from assms(1,2) have "\<exists>cs. snd (m w h) = h @ cs \<and> in_budget rb (fst (m w h)) cs" by (simp add: metered_def)
  then show ?thesis by (simp add: assms(3))
qed

lemma meteredI: "(\<And>w h. rb_calls rb \<le> 100 \<Longrightarrow> \<exists>cs. snd (m w h) = h @ cs \<and> in_budget rb (fst (m w h)) cs) \<Longrightarrow> metered rb m"
  by (simp add: metered_def)

named_theorems metered_intros \<open>metered programs\<close>

lemma metered_fail [metered_intros]: "metered rb (give (Inl e))"
  by (simp add: metered_def in_budget_def give_run)

lemma metered_done [metered_intros]: "rb_calls rb' = rb_calls rb \<Longrightarrow> metered rb (done_with (a, rb'))"
  by (simp add: metered_def in_budget_def give_run)

lemma metered_andthen:
  assumes "metered rb m" "\<And>a rb'. metered rb' (f (a, rb'))"
  shows "metered rb (andthen m f)"
proof (rule meteredI)
  fix w h assume c: "rb_calls rb \<le> 100"
  obtain r h1 where m: "m w h = (r, h1)" by (cases "m w h")
  from meteredD [OF assms(1) c m] obtain cs where cs: "h1 = h @ cs" "in_budget rb r cs" by blast
  show "\<exists>cs. snd (andthen m f w h) = h @ cs \<and> in_budget rb (fst (andthen m f w h)) cs"
  proof (cases r)
    case (Inl e)
    then show ?thesis using cs m by (intro exI [of _ cs]) (simp add: andthen_def in_budget_def)
  next
    case (Inr p)
    obtain a rb1 where p: "p = (a, rb1)" by (cases p)
    with cs Inr have k: "rb_calls rb1 = rb_calls rb + readbacks cs" "rb_calls rb1 \<le> 100"
      "list_all (\<lambda>c. c = Tick \<or> is_readback c) cs" by (auto simp: in_budget_def)
    obtain s h2 where f: "f (a, rb1) w h1 = (s, h2)" by (cases "f (a, rb1) w h1")
    from meteredD [OF assms(2) k(2) f] obtain ds where ds: "h2 = h1 @ ds" "in_budget rb1 s ds" by blast
    have "andthen m f w h = (s, h2)" using m Inr p f by (simp add: andthen_def)
    with in_budget_append [OF k(3,1) ds(2)] cs ds show ?thesis by (intro exI [of _ "cs @ ds"]) simp
  qed
qed

lemma metered_check:
  assumes "does (\<lambda>c. c = Tick) m" "\<And>a. metered rb (f a)"
  shows "metered rb (andthen m f)"
proof (rule meteredI)
  fix w h assume c: "rb_calls rb \<le> 100"
  obtain r h1 where m: "m w h = (r, h1)" by (cases "m w h")
  from does_run [OF assms(1) m] obtain cs where cs: "h1 = h @ cs" "list_all (\<lambda>c. c = Tick) cs" by blast
  then have z: "readbacks cs = 0" "list_all (\<lambda>c. c = Tick \<or> is_readback c) cs"
    by (auto simp: readbacks_def filter_empty_conv list_all_iff is_readback_def)
  show "\<exists>cs. snd (andthen m f w h) = h @ cs \<and> in_budget rb (fst (andthen m f w h)) cs"
  proof (cases r)
    case (Inl e)
    then show ?thesis using cs z c m by (intro exI [of _ cs]) (simp add: andthen_def in_budget_def)
  next
    case (Inr a)
    obtain s h2 where f: "f a w h1 = (s, h2)" by (cases "f a w h1")
    from meteredD [OF assms(2) c f] obtain ds where ds: "h2 = h1 @ ds" "in_budget rb s ds" by blast
    have "andthen m f w h = (s, h2)" using m Inr f by (simp add: andthen_def)
    with in_budget_append [OF z(2) _ ds(2)] z cs ds show ?thesis by (intro exI [of _ "cs @ ds"]) simp
  qed
qed

lemma metered_require [metered_intros]: "(b \<Longrightarrow> metered rb (f ())) \<Longrightarrow> metered rb (andthen (require b) f)"
  by (cases b) (simp_all add: ensure_def andthen_def metered_def in_budget_def give_run)

lemma metered_give [metered_intros]: "(\<And>a. metered rb (f a)) \<Longrightarrow> metered rb (andthen (give r) f)"
  by (rule metered_check [OF does_give])

lemma metered_tick [metered_intros]: "(\<And>a. metered rb (f a)) \<Longrightarrow> metered rb (andthen (readback_check rb') f)"
  by (rule metered_check) (simp_all add: readback_check_def does_intros)

lemma metered_call:
  assumes "rb_calls rb1 = rb_calls rb + 1" "rb_calls rb1 \<le> 100" "\<And>x. metered rb1 (f x)"
  shows "metered rb (andthen (ask_raw (Readback p)) f)"
proof (rule meteredI)
  fix w h
  let ?h = "h @ [Readback p]"
  have t: "list_all (\<lambda>c. c = Tick \<or> is_readback c) [Readback p]" by (simp add: is_readback_def)
  obtain r where r: "ask_raw (Readback p) w h = (r, ?h)" by (simp add: ask_raw_def andthen_def ask_def give_run)
  show "\<exists>cs. snd (andthen (ask_raw (Readback p)) f w h) = h @ cs \<and> in_budget rb (fst (andthen (ask_raw (Readback p)) f w h)) cs"
  proof (cases r)
    case (Inl e)
    then show ?thesis using r t assms(1,2) by (intro exI [of _ "[Readback p]"]) (simp add: andthen_def in_budget_def)
  next
    case (Inr x)
    obtain s h2 where f: "f x w ?h = (s, h2)" by (cases "f x w ?h")
    from meteredD [OF assms(3,2) f] obtain ds where ds: "h2 = ?h @ ds" "in_budget rb1 s ds" by blast
    have "andthen (ask_raw (Readback p)) f w h = (s, h2)" using r Inr f by (simp add: andthen_def)
    with in_budget_append [OF t _ ds(2)] assms(1) ds show ?thesis by (intro exI [of _ "Readback p # ds"]) simp
  qed
qed

lemma metered_result: "(\<And>a rb'. r = Inr (a, rb') \<Longrightarrow> rb_calls rb' = rb_calls rb) \<Longrightarrow> metered rb (give r)"
  by (auto simp: metered_def in_budget_def give_run split: sum.splits)

lemma readback_answer_Inr: "readback_answer x rb = Inr (a, rb') \<Longrightarrow> rb' = rb"
  by (auto simp: readback_answer_def rbind_Inr_iff split: option.splits body.splits)

lemma metered_get: "metered rb (readback_get path rb)"
proof -
  let ?rb1 = "rb\<lparr>rb_calls := rb_calls rb + 1\<rparr>"
  have rest: "metered ?rb1 (andthen (require (\<not> rw_timeout x)) (\<lambda>_. andthen (readback_check ?rb1) (\<lambda>_.
      let rb2 = ?rb1\<lparr>rb_left := rb_left ?rb1 - rw_size x\<rparr>
      in andthen (require (0 \<le> rb_left rb2)) (\<lambda>_. give (readback_answer x rb2)))))" for x
    unfolding Let_def
    by (intro metered_require metered_tick metered_result) (auto dest: readback_answer_Inr)
  show ?thesis
    unfolding readback_get_def Let_def [of ?rb1]
    by (intro metered_require metered_tick) (rule metered_call [OF _ _ rest], simp_all)
qed

lemma metered_json: "metered rb (readback_json path rb)"
  unfolding readback_json_def
  by (rule metered_andthen [OF metered_get]) (auto intro: metered_done)

lemma metered_number: "metered rb (repository_number g rb)"
proof (cases "rb_repo rb")
  case None
  have step: "metered rb1 (case info of
            PDict d \<Rightarrow>
              (case (dget d ''full_name'', dget d ''id'') of
                 (PStr name, PInt n) \<Rightarrow>
                   andthen (require (repository_name name \<and> lower name = lower (gi_repo g) \<and> 0 < n)) (\<lambda>_.
                   done_with (n, rb1\<lparr>rb_repo := Some n\<rparr>))
               | _ \<Rightarrow> give (Inl RuntimeError))
          | _ \<Rightarrow> give (Inl RuntimeError))" for info rb1
    by (auto split: pyval.split intro!: metered_require metered_done metered_fail)
  show ?thesis unfolding repository_number_def None option.case
    by (rule metered_andthen [OF metered_json]) (simp add: step)
qed (simp add: repository_number_def metered_done)


lemma metered_target: "metered rb (next_target g path page url rb)"
proof -
  have number: "metered rb (andthen (repository_number g rb) (\<lambda>(m, rb1).
      andthen (require (k = m)) (\<lambda>_. done_with ((), rb1))))" for k
    by (rule metered_andthen [OF metered_number]) (auto intro!: metered_require metered_done)
  show ?thesis
    unfolding next_target_def Let_def
    by (auto split: option.split prod.split intro!: metered_fail metered_require metered_give metered_done number)
qed

lemma metered_links: "metered rb (next_links g path page ss rb)"
proof (induction ss arbitrary: rb)
  case Nil
  then show ?case by (simp add: metered_done)
next
  case (Cons s ss)
  have rest: "metered rb1 (andthen (next_links g path page ss rb1) (\<lambda>(n, rb2). done_with (if b then n + 1 else n, rb2)))"
    for rb1 b by (rule metered_andthen [OF Cons.IH]) (auto intro: metered_done)
  have first: "metered rb (if b then next_target g path page url rb else done_with ((), rb))" for b url
    by (simp add: metered_target metered_done)
  show ?case
  proof (cases "link_parts s")
    case None
    then show ?thesis by (simp add: metered_fail)
  next
    case (Some p)
    obtain url rel where p: "p = (url, rel)" by (cases p)
    show ?thesis
      unfolding next_links.simps Some option.case p prod.case
      by (rule metered_andthen [OF first]) (simp only: prod.case rest)
  qed
qed

lemma metered_pages_from: "metered rb (readback_pages_from k g path page seen rb)"
proof (induction k arbitrary: page seen rb)
  case 0
  then show ?case by (simp add: metered_fail)
next
  case (Suc k)
  have more: "metered rb2 (andthen (readback_pages_from k g path p s rb2) (\<lambda>(es, rb3). done_with (ds @ es, rb3)))"
    for rb2 p s ds by (rule metered_andthen [OF Suc.IH]) (auto intro: metered_done)
  have tail: "metered rb2 (if b then done_with (ds, rb2) else andthen (require b') (\<lambda>_.
      andthen (readback_pages_from k g path p s rb2) (\<lambda>(es, rb3). done_with (ds @ es, rb3))))" for rb2 b b' ds p s
    by (auto intro!: metered_done metered_require more)
  have links: "metered rb1 (andthen (next_links g path page' ss rb1) (\<lambda>(n, rb2).
      andthen (require (n \<le> 1)) (\<lambda>_. if n = 0 \<and> b then done_with (ds, rb2)
         else andthen (require b') (\<lambda>_. andthen (readback_pages_from k g path (page' + 1) seen' rb2) (\<lambda>(es, rb3).
              done_with (ds @ es, rb3))))))" for rb1 page' ss b b' ds seen'
    by (rule metered_andthen [OF metered_links]) (simp only: prod.case, intro metered_require tail)
  show ?case
    unfolding readback_pages_from.simps readback_round_def
    by (rule metered_andthen [OF metered_get])
      (auto split: pyval.split intro!: metered_fail metered_require metered_give links)
qed

lemma metered_pages: "metered rb (readback_pages g path rb)"
  by (simp add: readback_pages_def metered_pages_from)

text \<open>The bound on the rounds is never reached.\<close>

lemma metered_step:
  assumes "metered rb m" "m w h = (Inr (a, rb'), h')" "rb_calls rb \<le> 100"
  shows "rb_calls rb \<le> rb_calls rb' \<and> rb_calls rb' \<le> 100"
  using meteredD [OF assms(1,3,2)] by (auto simp: in_budget_def readbacks_def)

lemma readback_get_calls:
  assumes "readback_get path rb w h = (Inr (a, rb'), h')"
  shows "rb_calls rb' = rb_calls rb + 1 \<and> rb_calls rb' \<le> 100"
  using assms unfolding readback_get_def Let_def
  by (auto simp: andthen_Inr give_run dest!: readback_answer_Inr)

text \<open>Two programs whose later parts agree.\<close>

lemma andthen_cong:
  assumes "\<And>a h'. m w h = (Inr a, h') \<Longrightarrow> f a w h' = g a w h'"
  shows "andthen m f w h = andthen m g w h"
  using assms by (auto simp: andthen_def split: prod.split sum.split)

lemma andthen_cong_pair:
  assumes "\<And>x y h'. m w h = (Inr (x, y), h') \<Longrightarrow> f x y w h' = g x y w h'"
  shows "andthen m (\<lambda>(x, y). f x y) w h = andthen m (\<lambda>(x, y). g x y) w h"
  using assms by (auto simp: andthen_def split: prod.split sum.split)

lemma andthen_left: "m w h = m' w h \<Longrightarrow> andthen m f w h = andthen m' f w h"
  by (simp add: andthen_def)

lemma round_cong:
  assumes "rb_calls rb \<le> 100"
    "\<And>p s rb2 h2. rb_calls rb + 1 \<le> rb_calls rb2 \<Longrightarrow> rb_calls rb2 \<le> 100 \<Longrightarrow> f p s rb2 w h2 = f' p s rb2 w h2"
  shows "readback_round f g path page seen rb w h = readback_round f' g path page seen rb w h"
  unfolding readback_round_def
proof (rule andthen_cong_pair)
  fix x rb1 h1 assume x: "readback_get (path @ page_query page) rb w h = (Inr (x, rb1), h1)"
  obtain v links where xe: "x = (v, links)" by (cases x) auto
  have c1: "rb_calls rb1 = rb_calls rb + 1" "rb_calls rb1 \<le> 100" using readback_get_calls [OF x] by auto
  show "(case x of (v, links) \<Rightarrow> \<lambda>rb1. case v of
       PList vs \<Rightarrow>
         andthen (require (length vs \<le> 100)) (\<lambda>_.
         andthen (give (new_records seen vs)) (\<lambda>(ds, seen').
         andthen (require (length links \<le> 1)) (\<lambda>_.
         andthen (next_links g path page (concat (map (split_char (CHR '','')) links)) rb1) (\<lambda>(n, rb2).
         andthen (require (n \<le> 1)) (\<lambda>_.
         if n = 0 \<and> length vs < 100 then done_with (ds, rb2)
         else andthen (require (vs \<noteq> [])) (\<lambda>_.
              andthen (f (page + 1) seen' rb2) (\<lambda>(es, rb3). done_with (ds @ es, rb3))))))))
     | _ \<Rightarrow> give (Inl RuntimeError)) rb1 w h1 =
   (case x of (v, links) \<Rightarrow> \<lambda>rb1. case v of
       PList vs \<Rightarrow>
         andthen (require (length vs \<le> 100)) (\<lambda>_.
         andthen (give (new_records seen vs)) (\<lambda>(ds, seen').
         andthen (require (length links \<le> 1)) (\<lambda>_.
         andthen (next_links g path page (concat (map (split_char (CHR '','')) links)) rb1) (\<lambda>(n, rb2).
         andthen (require (n \<le> 1)) (\<lambda>_.
         if n = 0 \<and> length vs < 100 then done_with (ds, rb2)
         else andthen (require (vs \<noteq> [])) (\<lambda>_.
              andthen (f' (page + 1) seen' rb2) (\<lambda>(es, rb3). done_with (ds @ es, rb3))))))))
     | _ \<Rightarrow> give (Inl RuntimeError)) rb1 w h1"
  proof (cases v)
    case (PList vs)
    show ?thesis
      unfolding xe prod.case PList pyval.case
    proof (rule andthen_cong, rule andthen_cong_pair, rule andthen_cong, rule andthen_cong_pair, rule andthen_cong)
      fix h2 h3 h4 h5 h6 ds seen' n rb2 u
      assume "next_links g path page (concat (map (split_char (CHR '','')) links)) rb1 w h4 = (Inr (n, rb2), h5)"
      from metered_step [OF metered_links this c1(2)] c1 have c2: "rb_calls rb + 1 \<le> rb_calls rb2" "rb_calls rb2 \<le> 100" by auto
      show "(if n = 0 \<and> length vs < 100 then done_with (ds, rb2) else andthen (require (vs \<noteq> [])) (\<lambda>_.
              andthen (f (page + 1) seen' rb2) (\<lambda>(es, rb3). done_with (ds @ es, rb3)))) w h6 =
            (if n = 0 \<and> length vs < 100 then done_with (ds, rb2) else andthen (require (vs \<noteq> [])) (\<lambda>_.
              andthen (f' (page + 1) seen' rb2) (\<lambda>(es, rb3). done_with (ds @ es, rb3)))) w h6"
        using assms(2) [OF c2] by (auto intro!: andthen_cong andthen_left)
    qed
  qed (simp_all add: xe)
qed

lemma rounds_suffice:
  "100 - rb_calls rb < int k \<Longrightarrow> 0 < k \<Longrightarrow> rb_calls rb \<le> 100 \<Longrightarrow>
     readback_pages_from (Suc k) g path page seen rb w h = readback_pages_from k g path page seen rb w h"
proof (induction k arbitrary: page seen rb h)
  case 0
  then show ?case by simp
next
  case (Suc k)
  have same: "readback_pages_from (Suc k) g path p s rb2 w h2 = readback_pages_from k g path p s rb2 w h2"
    if "rb_calls rb + 1 \<le> rb_calls rb2" "rb_calls rb2 \<le> 100" for p s h2 and rb2 :: readback
  proof -
    from that have "100 - rb_calls rb2 < int k" "0 < k" using Suc.prems(1) by linarith+
    then show ?thesis using Suc.IH that(2) by blast
  qed
  have "readback_round (readback_pages_from (Suc k) g path) g path page seen rb w h =
      readback_round (readback_pages_from k g path) g path page seen rb w h"
    by (rule round_cong [OF Suc.prems(3)]) (rule same)
  then show ?case by (simp only: readback_pages_from.simps(2))
qed

end
