(* ===== verification/Release_Runs.thy ===== *)
theory Release_Runs
  imports Github_Calls Workflow_Checks
begin

text \<open>
  The checks of \<^verbatim>\<open>scripts/release_control.py\<close> on the repository, on its source and on the workflow runs that
  release it: where the source stands to the default branch, which policy it carries, whether the run is the
  expected one and its gate passed in this very attempt, whether a newer run replaces it. Base64, the
  hash functions and the JSON parser are parameters; so is what the process finds in its environment.
\<close>

section \<open>Values\<close>

text \<open>\<^verbatim>\<open>require(isinstance(v, dict))\<close>, and the functions that are not read here.\<close>

definition object_of :: "pyval \<Rightarrow> pydict res" where
  "object_of v = (case v of PDict d \<Rightarrow> Inr d | _ \<Rightarrow> Inl RuntimeError)"

record codec =
  cd_base64 :: "string \<Rightarrow> string res"
  cd_sha1 :: "string \<Rightarrow> string"
  cd_sha256 :: "string \<Rightarrow> string"
  cd_parse :: "string \<Rightarrow> pyval res"

section \<open>The repository\<close>

definition repo_matches :: "github \<Rightarrow> pyval \<Rightarrow> unit res" where
  "repo_matches g v =
     rbind (vget_or v ''full_name'' (PStr [])) (\<lambda>n.
     case n of PStr s \<Rightarrow> ensure (lower s = lower (gi_repo g)) | _ \<Rightarrow> Inl AttributeError)"

definition repository_info :: "github \<Rightarrow> pydict io" where
  "repository_info g =
     andthen (api '''') (\<lambda>v.
     andthen (give (object_of v)) (\<lambda>info.
     andthen (give (repo_matches g v)) (\<lambda>_.
     andthen (require (truthy (dget info ''default_branch''))) (\<lambda>_. done_with info))))"

text \<open>A reference that names a commit, and the commit.\<close>

definition commit_at :: "string \<Rightarrow> pyval \<Rightarrow> string option" where
  "commit_at full v =
     (case v of
        PDict r \<Rightarrow>
          (case dget r ''object'' of
             PDict obj \<Rightarrow>
               (case dget obj ''sha'' of
                  PStr s \<Rightarrow> if dget r ''ref'' = PStr full \<and> dget obj ''type'' = PStr ''commit'' then Some s else None
                | _ \<Rightarrow> None)
           | _ \<Rightarrow> None)
      | _ \<Rightarrow> None)"

definition branch_path :: "string \<Rightarrow> string" where
  "branch_path branch = ''git/ref/heads/'' @ quote_url branch"

definition head_of :: "string \<Rightarrow> pyval \<Rightarrow> string res" where
  "head_of branch ref =
     (case commit_at (''refs/heads/'' @ branch) ref of
        None \<Rightarrow> Inl RuntimeError
      | Some s \<Rightarrow> rbind (ensure (sha_text s)) (\<lambda>_. Inr s))"

text \<open>\<^verbatim>\<open>check_ancestry\<close>: the source is on the default branch.\<close>

definition merge_base :: "pydict \<Rightarrow> pyval res" where
  "merge_base comparison = vget (dget_or comparison ''merge_base_commit'' (PDict [])) ''sha''"

definition check_ancestry :: "string \<Rightarrow> string \<Rightarrow> unit io" where
  "check_ancestry sha branch =
     andthen (api (''compare/'' @ sha @ ''...'' @ quote_url branch)) (\<lambda>v.
     andthen (give (dict_items v)) (\<lambda>comparison.
     andthen (require (dget comparison ''status'' \<in> {PStr ''ahead'', PStr ''identical''})) (\<lambda>_.
     andthen (give (merge_base comparison)) (\<lambda>base. require (base = PStr sha)))))"

text \<open>\<^verbatim>\<open>workflow_tree\<close>: the identity of the directory of workflows at a commit.\<close>

definition workflow_entry :: "pydict \<Rightarrow> bool" where
  "workflow_entry e = (dget e ''name'' = PStr ''workflows'' \<or> dget e ''path'' = PStr ''.github/workflows'')"

definition workflow_directory :: "pyval \<Rightarrow> string res" where
  "workflow_directory v =
     (case v of
        PList entries \<Rightarrow>
          rbind (ensure (int (length entries) < 1000 \<and> list_all is_dict entries)) (\<lambda>_.
          case filter workflow_entry (map as_dict entries) of
            [e] \<Rightarrow>
              (case dget e ''sha'' of
                 PStr s \<Rightarrow>
                   rbind (ensure (dget e ''name'' = PStr ''workflows'' \<and> dget e ''path'' = PStr ''.github/workflows'' \<and>
                                  dget e ''type'' = PStr ''dir'' \<and> sha_text s)) (\<lambda>_. Inr s)
               | _ \<Rightarrow> Inl RuntimeError)
          | _ \<Rightarrow> Inl RuntimeError)
      | _ \<Rightarrow> Inl RuntimeError)"

definition workflow_tree :: "string \<Rightarrow> string io" where
  "workflow_tree sha = andthen (api (''contents/.github?ref='' @ sha)) (\<lambda>v. give (workflow_directory v))"

definition check_workflow_publication :: "github \<Rightarrow> string \<Rightarrow> unit io" where
  "check_workflow_publication g sha =
     andthen (require (sha_text sha)) (\<lambda>_.
     if gi_scope g then done_with ()
     else andthen (repository_info g) (\<lambda>info.
          andthen (give (text_of (dget info ''default_branch''))) (\<lambda>branch.
          andthen (api (branch_path branch)) (\<lambda>ref.
          andthen (give (head_of branch ref)) (\<lambda>head.
          if sha = head then done_with ()
          else andthen (workflow_tree sha) (\<lambda>mine.
               andthen (workflow_tree head) (\<lambda>current.
               andthen (require (mine = current)) (\<lambda>_.
               andthen (repository_info g) (\<lambda>again.
               andthen (require (dget again ''default_branch'' = PStr branch)) (\<lambda>_.
               andthen (api (branch_path branch)) (\<lambda>ref'.
               require (same_json ref' ref))))))))))))"

section \<open>The policy of the source\<close>

text \<open>\<^verbatim>\<open>release_fuzz.configuration\<close> and its job.\<close>

definition fuzz_configuration :: "pydict \<Rightarrow> pydict option res" where
  "fuzz_configuration policy =
     (case dget policy ''fuzzing'' of
        PNone \<Rightarrow> Inr None
      | PDict d \<Rightarrow>
          if set (map fst d) = {''toolkit_ref''} \<and> (case dget d ''toolkit_ref'' of PStr s \<Rightarrow> sha_text s | _ \<Rightarrow> False) \<and>
             dget_or policy ''visibility'' (PStr ''public'') = PStr ''public'' \<and> dget policy ''mode'' = PStr ''release'' \<and>
             dget_or policy ''ci_execution'' (PStr ''github'') = PStr ''github'' \<and> is_dict (dget policy ''versioning'')
          then Inr (Some d) else Inl ValueError
      | _ \<Rightarrow> Inl ValueError)"

definition fuzz_profile :: "pydict \<Rightarrow> string \<Rightarrow> pydict option res" where
  "fuzz_profile policy channel =
     rbind (fuzz_configuration policy) (\<lambda>config.
     case config of
       None \<Rightarrow> Inr None
     | Some d \<Rightarrow>
         Inr (if channel = ''rc''
              then Some ([(''schema'', PInt 1), (''channel'', PStr ''rc''), (''manifest'', PStr ''.github/fuzz.json'')] @ d)
              else None))"

definition job_passed :: "pydict \<Rightarrow> string \<Rightarrow> bool" where
  "job_passed j sha = (dget j ''head_sha'' = PStr sha \<and> dget j ''status'' = PStr ''completed'' \<and> dget j ''conclusion'' = PStr ''success'')"

definition check_fuzz_jobs :: "pydict list \<Rightarrow> string \<Rightarrow> string \<Rightarrow> unit res" where
  "check_fuzz_jobs jobs channel sha =
     (let found = filter (\<lambda>j. dget j ''name'' = PStr ''fuzz / RC fuzzing'') jobs
      in guard (if channel = ''rc'' then (case found of [j] \<Rightarrow> job_passed j sha | _ \<Rightarrow> False)
                else list_all (\<lambda>j. dget j ''conclusion'' = PStr ''skipped'') found))"

text \<open>A \<^verbatim>\<open>ValueError\<close> of the other modules is raised again as a \<^verbatim>\<open>ReleaseError\<close>.\<close>

definition release_error :: "'a res \<Rightarrow> 'a res" where
  "release_error r = rcatch r [ValueError] (Inl RuntimeError)"

definition require_fuzzing_policy :: "pydict \<Rightarrow> unit res" where
  "require_fuzzing_policy policy =
     (if haskey policy ''fuzzing'' then rbind (release_error (fuzz_configuration policy)) (\<lambda>_. Inr ()) else Inr ())"

definition check_blockers :: "pydict \<Rightarrow> bool \<Rightarrow> string \<Rightarrow> unit res" where
  "check_blockers policy qualified field =
     (case dget_or policy field (PList []) of
        PList bs \<Rightarrow>
          rbind (ensure (list_all (\<lambda>b. case b of PStr s \<Rightarrow> strip s \<noteq> [] | _ \<Rightarrow> False) bs)) (\<lambda>_.
          if qualified then ensure (bs = []) else Inr ())
      | _ \<Rightarrow> Inl RuntimeError)"

definition require_release_policy :: "pyval \<Rightarrow> string \<Rightarrow> bool \<Rightarrow> unit res" where
  "require_release_policy v repo qualified =
     rbind (object_of v) (\<lambda>policy.
     rbind (ensure (case dget policy ''repository'' of PStr s \<Rightarrow> lower s = lower repo | _ \<Rightarrow> False)) (\<lambda>_.
     rbind (ensure (dget policy ''mode'' = PStr ''release'')) (\<lambda>_.
     rbind (require_fuzzing_policy policy) (\<lambda>_.
     rbind (if haskey policy ''channel_validation_workflows'' then rbind (release_error (channel_workflows policy)) (\<lambda>_. Inr ())
            else Inr ()) (\<lambda>_.
     rbind (check_blockers policy qualified ''release_blockers'') (\<lambda>_.
     check_blockers policy qualified ''stable_blockers''))))))"

definition validation_profile :: "pydict \<Rightarrow> string \<Rightarrow> pydict option res" where
  "validation_profile policy channel =
     (if haskey policy ''channel_validation_workflows'' then release_error (profile policy channel) else Inr None)"

definition blob_text :: "string \<Rightarrow> string" where
  "blob_text content = ''blob '' @ show_int (int (length content)) @ [char_of (0 :: nat)] @ content"

definition source_policy_snapshot :: "github \<Rightarrow> codec \<Rightarrow> string \<Rightarrow> pydict io" where
  "source_policy_snapshot g cd sha =
     andthen (require (sha_text sha)) (\<lambda>_.
     andthen (api (''contents/.release-policy.json?ref='' @ sha)) (\<lambda>v.
     andthen (give (object_of v)) (\<lambda>answer.
     andthen (require (dget answer ''type'' = PStr ''file'' \<and> dget answer ''path'' = PStr ''.release-policy.json'' \<and>
                       dget answer ''encoding'' = PStr ''base64'')) (\<lambda>_.
     case dget answer ''content'' of
       PStr encoded \<Rightarrow>
         andthen (require (int (length encoded) \<le> 400000)) (\<lambda>_.
         andthen (give (release_error (cd_base64 cd (filter (\<lambda>c. \<not> is_space c) encoded)))) (\<lambda>content.
         andthen (require (int (length content) \<le> 250000 \<and> py_eq (dget answer ''size'') (PInt (int (length content))))) (\<lambda>_.
         andthen (require (dget answer ''sha'' = PStr (cd_sha1 cd (blob_text content)))) (\<lambda>_.
         andthen (give (cd_parse cd content)) (\<lambda>data.
         andthen (give (require_release_policy data (gi_repo g) False)) (\<lambda>_.
         done_with [(''schema'', PInt 1), (''path'', PStr ''.release-policy.json''),
                    (''git_blob_sha'', PStr (cd_sha1 cd (blob_text content))),
                    (''sha256'', PStr (cd_sha256 cd content)), (''data'', data)]))))))
     | _ \<Rightarrow> give (Inl RuntimeError)))))"

definition validate_policy_snapshot :: "pyval \<Rightarrow> string \<Rightarrow> unit res" where
  "validate_policy_snapshot v repo =
     rbind (object_of v) (\<lambda>snap.
     rbind (ensure (dget snap ''schema'' = PInt 1 \<and> dget snap ''path'' = PStr ''.release-policy.json'')) (\<lambda>_.
     rbind (ensure ((case dget snap ''git_blob_sha'' of PStr s \<Rightarrow> sha_text s | _ \<Rightarrow> False) \<and>
                    (case dget snap ''sha256'' of PStr s \<Rightarrow> digest_text s | _ \<Rightarrow> False))) (\<lambda>_.
     require_release_policy (dget snap ''data'') repo True)))"

definition require_current_fuzzing :: "github \<Rightarrow> codec \<Rightarrow> pydict \<Rightarrow> string \<Rightarrow> unit io" where
  "require_current_fuzzing g cd candidate_policy current_sha =
     andthen (source_policy_snapshot g cd current_sha) (\<lambda>snap.
     if haskey (as_dict (dget snap ''data'')) ''fuzzing''
     then andthen (give (fuzz_configuration candidate_policy)) (\<lambda>c. require (c \<noteq> None))
     else done_with ())"

section \<open>Runs\<close>

definition WORKFLOW :: string where "WORKFLOW = ''.github/workflows/release-pipeline.yml''"

text \<open>\<^verbatim>\<open>validate_run_provenance\<close>: the fields of a run that never change.\<close>

definition validate_run_provenance :: "github \<Rightarrow> pydict \<Rightarrow> pydict \<Rightarrow> string \<Rightarrow> int \<Rightarrow> unit res" where
  "validate_run_provenance g run info sha attempt =
     rbind (repo_matches g (dget_or run ''repository'' (PDict []))) (\<lambda>_.
     rbind (repo_matches g (dget_or run ''head_repository'' (PDict []))) (\<lambda>_.
     rbind (ensure (dget run ''head_sha'' = PStr sha \<and> sha_text sha)) (\<lambda>_.
     rbind (ensure (dget run ''path'' = PStr WORKFLOW)) (\<lambda>_.
     rbind (dgetitem info ''default_branch'') (\<lambda>branch.
     rbind (ensure (same_json (dget run ''head_branch'') branch)) (\<lambda>_.
     rbind (ensure (dget run ''event'' \<in> {PStr ''push'', PStr ''schedule'', PStr ''workflow_dispatch''})) (\<lambda>_.
     ensure (py_eq (dget run ''run_attempt'') (PInt attempt)))))))))"

text \<open>
  What the process finds around it: the environment, the commit that \<^verbatim>\<open>git rev-parse HEAD\<close> names and the parsed
  event file.
\<close>

record surroundings =
  su_env :: "string \<Rightarrow> string option"
  su_head :: "string res"
  su_event :: "pyval res"

definition allowed_events :: "string \<Rightarrow> string list res" where
  "allowed_events channel =
     (if channel = ''nightly'' then Inr [''schedule'', ''workflow_dispatch'']
      else if channel = ''beta'' then Inr [''push'', ''workflow_dispatch'']
      else if channel \<in> {''rc'', ''stable''} then Inr [''workflow_dispatch'']
      else Inl KeyError)"

definition check_execution :: "github \<Rightarrow> surroundings \<Rightarrow> int \<Rightarrow> string \<Rightarrow> pydict \<Rightarrow> pydict \<Rightarrow> unit res" where
  "check_execution g su run_id channel info run =
     rbind (ensure (su_env su ''GITHUB_ACTIONS'' = Some ''true'')) (\<lambda>_.
     rbind (ensure (lower (case su_env su ''GITHUB_REPOSITORY'' of None \<Rightarrow> [] | Some r \<Rightarrow> r) = lower (gi_repo g))) (\<lambda>_.
     rbind (ensure (su_env su ''GITHUB_RUN_ID'' = Some (show_int run_id))) (\<lambda>_.
     rbind (ensure (su_env su ''GITHUB_RUN_ATTEMPT'' = Some (py_str (dget run ''run_attempt'')))) (\<lambda>_.
     rbind (dgetitem info ''default_branch'') (\<lambda>branch.
     rbind (ensure (su_env su ''GITHUB_REF'' = Some (''refs/heads/'' @ py_str branch))) (\<lambda>_.
     rbind (dgetitem info ''full_name'') (\<lambda>name.
     rbind (ensure (su_env su ''GITHUB_WORKFLOW_REF'' =
       Some (py_str name @ ''/'' @ WORKFLOW @ ''@refs/heads/'' @ py_str branch))) (\<lambda>_.
     rbind (su_head su) (\<lambda>head.
     rbind (ensure (dget run ''head_sha'' = PStr head)) (\<lambda>_.
     let event = su_env su ''GITHUB_EVENT_NAME''
     in rbind (ensure ((case event of None \<Rightarrow> PNone | Some e \<Rightarrow> PStr e) = dget run ''event'')) (\<lambda>_.
        rbind (allowed_events channel) (\<lambda>allowed.
        rbind (ensure (case event of None \<Rightarrow> False | Some e \<Rightarrow> e \<in> set allowed)) (\<lambda>_.
        if event = Some ''workflow_dispatch''
        then rbind (ensure (case su_env su ''GITHUB_EVENT_PATH'' of None \<Rightarrow> False | Some p \<Rightarrow> p \<noteq> [])) (\<lambda>_.
             rbind (su_event su) (\<lambda>payload.
             rbind (object_of payload) (\<lambda>p.
             rbind (vget (dget_or p ''inputs'' (PDict [])) ''channel'') (\<lambda>c. ensure (c = PStr channel)))))
        else Inr ())))))))))))))"

section \<open>The times of jobs\<close>

text \<open>
  \<^verbatim>\<open>_execution_timestamp\<close> in seconds since 1970 UTC: \<^verbatim>\<open>YYYY-MM-DDThh:mm:ss\<close>, up to six decimals, and \<^verbatim>\<open>Z\<close> or an
  offset. A time that leaves the years 1 to 9999 in UTC overflows.
\<close>

definition decimals :: "string \<Rightarrow> rat option" where
  "decimals s =
     (case s of
        [] \<Rightarrow> Some 0
      | c # ds \<Rightarrow>
          if c = CHR ''.'' \<and> ds \<noteq> [] \<and> length ds \<le> 6 \<and> list_all is_digit ds
          then Some (of_int (int_of_digits ds) / 10 ^ length ds) else None)"

definition local_seconds :: "string \<Rightarrow> rat option" where
  "local_seconds s =
     (case (digit_fields ''####-##-##T##:##:##'' (take 19 s), decimals (drop 19 s)) of
        (Some [y, mo, d, h, mi, sec], Some f) \<Rightarrow>
          if 1 \<le> y \<and> 1 \<le> mo \<and> mo \<le> 12 \<and> 1 \<le> d \<and> d \<le> days_in_month y mo \<and> h < 24 \<and> mi < 60 \<and> sec < 60
          then Some (of_int (days_from_civil y mo d * 86400 + h * 3600 + mi * 60 + sec) + f) else None
      | _ \<Rightarrow> None)"

definition execution_timestamp :: "pyval \<Rightarrow> time res" where
  "execution_timestamp v =
     (case v of
        PStr s \<Rightarrow>
          (let utc = (s \<noteq> [] \<and> last s = CHR ''Z'');
               place = (if utc then butlast s else take (length s - 6) s);
               offset = (if utc then Some 0 else iso_offset (drop (length s - 6) s))
           in case (offset, local_seconds place) of
                (Some o', Some t) \<Rightarrow>
                  let q = t - of_int o'
                  in if of_int (days_from_civil 1 1 1 * 86400) \<le> q \<and> q < of_int (days_from_civil 10000 1 1 * 86400)
                     then Inr q else Inl OverflowError
              | _ \<Rightarrow> Inl RuntimeError)
      | _ \<Rightarrow> Inl RuntimeError)"

fun check_steps :: "time \<Rightarrow> time \<Rightarrow> pydict list \<Rightarrow> unit res" where
  "check_steps start finish [] = Inr ()"
| "check_steps start finish (s # ss) =
     rbind (ensure (dget s ''status'' = PStr ''completed'')) (\<lambda>_.
     rbind (execution_timestamp (dget s ''started_at'')) (\<lambda>a.
     rbind (execution_timestamp (dget s ''completed_at'')) (\<lambda>b.
     rbind (ensure (start \<le> a \<and> a \<le> b \<and> b \<le> finish)) (\<lambda>_. check_steps start finish ss))))"

definition require_fresh_job_timing :: "pydict \<Rightarrow> time \<Rightarrow> unit res" where
  "require_fresh_job_timing job boundary =
     rbind (execution_timestamp (dget job ''started_at'')) (\<lambda>start.
     rbind (execution_timestamp (dget job ''completed_at'')) (\<lambda>finish.
     rbind (ensure (boundary \<le> start \<and> start \<le> finish)) (\<lambda>_.
     case dget job ''steps'' of
       PList ss \<Rightarrow>
         rbind (ensure (ss \<noteq> [])) (\<lambda>_.
         rbind (ensure (list_all is_dict ss)) (\<lambda>_.
         let good = filter (\<lambda>s. dget s ''conclusion'' = PStr ''success'') (map as_dict ss)
         in rbind (ensure (good \<noteq> [])) (\<lambda>_. check_steps start finish good)))
     | _ \<Rightarrow> Inl RuntimeError)))"

fun check_jobs :: "time \<Rightarrow> string \<Rightarrow> int \<Rightarrow> pydict list \<Rightarrow> unit res" where
  "check_jobs boundary sha attempt [] = Inr ()"
| "check_jobs boundary sha attempt (j # js) =
     (if dget j ''status'' \<noteq> PStr ''completed'' \<or> dget j ''conclusion'' \<noteq> PStr ''success''
      then check_jobs boundary sha attempt js
      else rbind (ensure (dget j ''head_sha'' = PStr sha \<and> py_eq (dget j ''run_attempt'') (PInt attempt))) (\<lambda>_.
           rbind (require_fresh_job_timing j boundary) (\<lambda>_. check_jobs boundary sha attempt js)))"

definition attempt_path :: "int \<Rightarrow> int \<Rightarrow> string" where
  "attempt_path run_id attempt = ''actions/runs/'' @ show_int run_id @ ''/attempts/'' @ show_int attempt"

definition require_current_attempt_jobs :: "int \<Rightarrow> string \<Rightarrow> int \<Rightarrow> pydict list \<Rightarrow> unit io" where
  "require_current_attempt_jobs run_id sha attempt jobs =
     (if attempt = 1 then done_with ()
      else andthen (api (attempt_path run_id attempt)) (\<lambda>v.
           andthen (give (object_of v)) (\<lambda>detail.
           andthen (require (py_eq (dget detail ''id'') (PInt run_id) \<and> py_eq (dget detail ''run_attempt'') (PInt attempt) \<and>
                             dget detail ''head_sha'' = PStr sha \<and> dget detail ''path'' = PStr WORKFLOW)) (\<lambda>_.
           andthen (give (execution_timestamp (dget detail ''run_started_at''))) (\<lambda>boundary.
           give (check_jobs boundary sha attempt jobs))))))"

section \<open>The release gate\<close>

definition PENDING :: "string list" where
  "PENDING = [''queued'', ''requested'', ''pending'', ''waiting'', ''in_progress'']"

definition gate_jobs :: "pydict list \<Rightarrow> pydict list" where
  "gate_jobs jobs = filter (\<lambda>j. dget j ''name'' = PStr ''Release gate'') jobs"

definition release_gate_ready :: "int \<Rightarrow> string \<Rightarrow> int \<Rightarrow> bool \<Rightarrow> bool io" where
  "release_gate_ready run_id sha attempt allow_pending =
     andthen (pages (attempt_path run_id attempt @ ''/jobs'') ''jobs'') (\<lambda>vs.
     andthen (give (traverse dict_items vs)) (\<lambda>jobs.
     if gate_jobs jobs = [] \<and> allow_pending then done_with False
     else case gate_jobs jobs of
       [gate] \<Rightarrow>
         andthen (require (dget gate ''head_sha'' = PStr sha)) (\<lambda>_.
         andthen (give (if allow_pending then in_texts (dget gate ''status'') PENDING else Inr False)) (\<lambda>pending.
         if pending then andthen (require (dget gate ''conclusion'' = PNone)) (\<lambda>_. done_with False)
         else andthen (require (dget gate ''status'' = PStr ''completed'' \<and> dget gate ''conclusion'' = PStr ''success'')) (\<lambda>_.
              andthen (require_current_attempt_jobs run_id sha attempt jobs) (\<lambda>_. done_with True))))
     | _ \<Rightarrow> give (Inl RuntimeError)))"

definition validate_run :: "github \<Rightarrow> pydict \<Rightarrow> pydict \<Rightarrow> string \<Rightarrow> int \<Rightarrow> bool \<Rightarrow> bool \<Rightarrow> unit io" where
  "validate_run g run info sha attempt completed gate =
     andthen (give (validate_run_provenance g run info sha attempt)) (\<lambda>_.
     andthen (require (if completed then dget run ''status'' = PStr ''completed'' \<and> dget run ''conclusion'' = PStr ''success''
                       else dget run ''status'' = PStr ''in_progress'')) (\<lambda>_.
     if gate then andthen (give (positive (dget run ''id''))) (\<lambda>n.
                  andthen (release_gate_ready n sha attempt False) (\<lambda>_. done_with ()))
     else done_with ()))"

text \<open>The jobs of the selected validation profile and of the fuzzing.\<close>

definition validate_validation_run :: "pydict \<Rightarrow> pydict \<Rightarrow> string \<Rightarrow> unit io" where
  "validate_validation_run run policy channel =
     andthen (give (validation_profile policy channel)) (\<lambda>prof.
     if prof = None \<and> \<not> haskey policy ''fuzzing'' then done_with ()
     else andthen (give (positive (dget run ''id''))) (\<lambda>n.
          andthen (give (positive (dget run ''run_attempt''))) (\<lambda>a.
          andthen (pages (attempt_path n a @ ''/jobs'') ''jobs'') (\<lambda>vs.
          andthen (give (traverse dict_items vs)) (\<lambda>jobs.
          andthen (give (rbind (dgetitem run ''head_sha'') text_of)) (\<lambda>sha.
          andthen (give (if prof = None then Inr () else release_error (check_run_jobs jobs channel sha))) (\<lambda>_.
          if haskey policy ''fuzzing'' then give (release_error (check_fuzz_jobs jobs channel sha)) else done_with ())))))))"

section \<open>Waiting for the executing run\<close>

text \<open>
  One look at the run: \<open>Some\<close> run when it may publish, \<open>None\<close> when its metadata is still behind. A round
  that has to wait pauses for at most two seconds, within one deadline of 300 seconds.
\<close>

definition poll_run :: "github \<Rightarrow> surroundings \<Rightarrow> int \<Rightarrow> string \<Rightarrow> pydict \<Rightarrow> string \<Rightarrow> int \<Rightarrow> bool \<Rightarrow> time \<Rightarrow> pydict option io" where
  "poll_run g su run_id channel info sha attempt gate deadline =
     andthen (api (''actions/runs/'' @ show_int run_id)) (\<lambda>v.
     andthen (give (dict_items v)) (\<lambda>run.
     andthen (require (py_eq (dget run ''id'') (PInt run_id))) (\<lambda>_.
     andthen (give (check_execution g su run_id channel info run)) (\<lambda>_.
     andthen (give (validate_run_provenance g run info sha attempt)) (\<lambda>_.
     andthen (require (dget run ''conclusion'' = PNone)) (\<lambda>_.
     andthen (if dget run ''status'' = PStr ''in_progress''
              then (if gate then release_gate_ready run_id sha attempt True else done_with True)
              else done_with False) (\<lambda>ready.
     if ready then andthen tick (\<lambda>t. andthen (require (t < deadline)) (\<lambda>_. done_with (Some run)))
     else andthen (give (in_texts (dget run ''status'') PENDING)) (\<lambda>active.
          andthen (require active) (\<lambda>_. done_with None)))))))))"

fun wait_rounds :: "nat \<Rightarrow> pydict option io \<Rightarrow> time \<Rightarrow> pydict io" where
  "wait_rounds 0 poll deadline = give (Inl OtherError)"
| "wait_rounds (Suc k) poll deadline =
     andthen poll (\<lambda>r.
     case r of
       Some run \<Rightarrow> done_with run
     | None \<Rightarrow>
         andthen tick (\<lambda>t.
         andthen (require (0 < deadline - t)) (\<lambda>_.
         andthen (ask (Pause (min 2 (deadline - t)))) (\<lambda>_. wait_rounds k poll deadline))))"

definition wait_bounded :: "nat \<Rightarrow> github \<Rightarrow> surroundings \<Rightarrow> int \<Rightarrow> string \<Rightarrow> pydict \<Rightarrow> string \<Rightarrow> int \<Rightarrow> bool \<Rightarrow> pydict io" where
  "wait_bounded k g su run_id channel info sha attempt gate =
     andthen tick (\<lambda>t. wait_rounds k (poll_run g su run_id channel info sha attempt gate (t + 300)) (t + 300))"

definition wait_for_executing_run :: "github \<Rightarrow> surroundings \<Rightarrow> int \<Rightarrow> string \<Rightarrow> pydict \<Rightarrow> string \<Rightarrow> int \<Rightarrow> bool \<Rightarrow> pydict io" where
  "wait_for_executing_run = wait_bounded 151"

section \<open>Newer runs\<close>

text \<open>\<^verbatim>\<open>superseded_candidate\<close>: an automatic candidate gives way to one proven newer run of the default branch.\<close>

definition automatic :: "pyval \<Rightarrow> string \<Rightarrow> bool" where
  "automatic event channel =
     (event = PStr ''push'' \<and> channel = ''beta'' \<or> event = PStr ''schedule'' \<and> channel = ''nightly'')"

definition successor_path :: "string \<Rightarrow> string \<Rightarrow> string" where
  "successor_path branch head =
     ''actions/workflows/release-pipeline.yml/runs?branch='' @ quote_url branch @ ''&event=push&head_sha='' @ head @ ''&per_page=100''"

definition only_successor :: "pyval \<Rightarrow> pydict res" where
  "only_successor v =
     rbind (object_of v) (\<lambda>d.
     case (dget d ''total_count'', dget d ''workflow_runs'') of
       (PInt n, PList [s]) \<Rightarrow> rbind (ensure (n = 1)) (\<lambda>_. object_of s)
     | _ \<Rightarrow> Inl RuntimeError)"

definition newer_run :: "pydict \<Rightarrow> pydict \<Rightarrow> unit res" where
  "newer_run successor run =
     rbind (ensure (dget successor ''event'' = PStr ''push'')) (\<lambda>_.
     rbind (positive (dget successor ''id'')) (\<lambda>m.
     rbind (positive (dget run ''id'')) (\<lambda>n.
     rbind (ensure (n < m)) (\<lambda>_.
     rbind (positive (dget successor ''run_number'')) (\<lambda>p.
     rbind (positive (dget run ''run_number'')) (\<lambda>q.
     rbind (ensure (q < p)) (\<lambda>_.
     rbind (in_texts (dget successor ''status'') (PENDING @ [''completed''])) ensure)))))))"

definition supersession :: "github \<Rightarrow> pyval \<Rightarrow> string \<Rightarrow> pydict \<Rightarrow> pydict" where
  "supersession g source head successor =
     [(''status'', PStr ''superseded''), (''source_sha'', source), (''superseded_by'', PStr head),
      (''successor_run_id'', PStr (py_str (dget successor ''id''))),
      (''successor_run_url'', PStr (''https://github.com/'' @ gi_repo g @ ''/actions/runs/'' @ py_str (dget successor ''id'')))]"

definition superseded_candidate :: "github \<Rightarrow> pydict \<Rightarrow> pydict \<Rightarrow> string \<Rightarrow> pydict option io" where
  "superseded_candidate g info run channel =
     andthen (give (dgetitem run ''event'')) (\<lambda>event.
     andthen (give (in_texts event [])) (\<lambda>_.
     if \<not> automatic event channel then done_with None
     else andthen (give (dgetitem info ''default_branch'')) (\<lambda>expected.
          andthen (repository_info g) (\<lambda>info'.
          andthen (require (same_json (dget info' ''default_branch'') expected)) (\<lambda>_.
          andthen (give (text_of expected)) (\<lambda>branch.
          andthen (api (branch_path branch)) (\<lambda>ref.
          andthen (give (head_of branch ref)) (\<lambda>head.
          andthen (give (dgetitem run ''head_sha'')) (\<lambda>source.
          if source = PStr head then done_with None
          else andthen (api (''compare/'' @ py_str source @ ''...'' @ head)) (\<lambda>v.
               andthen (give (object_of v)) (\<lambda>comparison.
               andthen (require (dget comparison ''status'' = PStr ''ahead'')) (\<lambda>_.
               andthen (give (merge_base comparison)) (\<lambda>base.
               andthen (require (same_json base source)) (\<lambda>_.
               andthen (api (successor_path branch head)) (\<lambda>list.
               andthen (give (only_successor list)) (\<lambda>successor.
               andthen (give (positive (dget successor ''run_attempt''))) (\<lambda>attempt.
               andthen (give (validate_run_provenance g successor info head attempt)) (\<lambda>_.
               andthen (give (newer_run successor run)) (\<lambda>_.
               andthen (api (branch_path branch)) (\<lambda>ref'.
               andthen (require (same_json ref' ref)) (\<lambda>_.
               done_with (Some (supersession g source head successor)))))))))))))))))))))))"

text \<open>\<^verbatim>\<open>closed_push_cycle\<close>: no automatic beta for a base version whose stable tag exists.\<close>

definition taken_tag :: "string \<Rightarrow> pyval \<Rightarrow> bool" where
  "taken_tag tag v =
     (case v of
        PDict r \<Rightarrow>
          dget r ''ref'' = PStr (''refs/tags/'' @ tag) \<and>
          (case dget r ''object'' of
             PDict obj \<Rightarrow> dget obj ''type'' \<in> {PStr ''commit'', PStr ''tag''} \<and>
                          (case dget obj ''sha'' of PStr s \<Rightarrow> sha_text s | _ \<Rightarrow> False)
           | _ \<Rightarrow> False)
      | _ \<Rightarrow> False)"

definition closed_push_cycle :: "string \<Rightarrow> string \<Rightarrow> pydict option io" where
  "closed_push_cycle base kind =
     (if kind \<noteq> ''push'' then done_with None
      else andthen (give (base_version (PStr base))) (\<lambda>b.
           andthen (recover (andthen (api (''git/ref/tags/'' @ quote_url (''v'' @ b))) (\<lambda>v. done_with (Some v)))
                      (HttpStatus 404) (Inr None)) (\<lambda>found.
           case found of
             None \<Rightarrow> done_with None
           | Some v \<Rightarrow>
               andthen (require (taken_tag (''v'' @ b) v)) (\<lambda>_.
               done_with (Some
                 [(''status'', PStr ''version-required''), (''channel'', PStr ''beta''), (''version'', PStr base),
                  (''build'', PStr ''false''), (''plan_artifact'', PStr []),
                  (''reason'', PStr (''Stable tag v'' @ b @ '' already exists; prepare and merge the next '' @
                     ''committed base version before creating another beta.''))])))))"

section \<open>What the checks call\<close>

lemma does_recover [does_intros]: "does P m \<Longrightarrow> does P (recover m e r)"
  by (simp add: does_def recover_def split_beta)

lemma does_api [does_intros]: "P (Api path) \<Longrightarrow> does P (api path)"
  unfolding api_def by (intro does_intros)

lemma does_optional [does_intros]: "P (Api path) \<Longrightarrow> does P (optional path)"
  unfolding optional_def by (intro does_intros)

lemma does_pages [does_intros]: "P (Pages path field) \<Longrightarrow> does P (pages path field)"
  unfolding pages_def by (intro does_intros)

lemma does_download [does_intros]: "P (Fetch (asset_route n)) \<Longrightarrow> does P (download_asset n)"
  unfolding download_asset_def by (intro does_intros)

lemma does_option [does_intros]: "does P m \<Longrightarrow> (\<And>x. r = Some x \<Longrightarrow> does P (f x)) \<Longrightarrow> does P (case r of None \<Rightarrow> m | Some x \<Rightarrow> f x)"
  by (cases r) simp_all

text \<open>Every check only reads.\<close>

definition asks :: "call \<Rightarrow> bool" where
  "asks c = (case c of Api _ \<Rightarrow> True | Pages _ _ \<Rightarrow> True | Tick \<Rightarrow> True | Pause _ \<Rightarrow> True | _ \<Rightarrow> False)"

lemma asks_simps [simp]: "asks (Api p)" "asks (Pages p f)" "asks Tick" "asks (Pause d)"
  by (simp_all add: asks_def)

lemma asks_read: "asks c \<Longrightarrow> is_read c"
  by (cases c) (simp_all add: asks_def is_write_def)

lemma repository_info_asks [does_intros]: "does asks (repository_info g)"
  unfolding repository_info_def by (intro does_intros) simp_all

lemma check_workflow_publication_asks [does_intros]: "does asks (check_workflow_publication g sha)"
  unfolding check_workflow_publication_def workflow_tree_def by (intro does_intros) simp_all

lemma current_jobs_asks [does_intros]: "does asks (require_current_attempt_jobs run_id sha attempt jobs)"
  unfolding require_current_attempt_jobs_def by (intro does_intros) simp_all

lemma gate_asks [does_intros]: "does asks (release_gate_ready run_id sha attempt p)"
  unfolding release_gate_ready_def
  by (intro does_intros) (auto split: list.split intro!: does_intros)

lemma poll_asks [does_intros]: "does asks (poll_run g su run_id channel info sha attempt gate deadline)"
  unfolding poll_run_def by (intro does_intros) simp_all

lemma superseded_asks: "does asks (superseded_candidate g info run channel)"
  unfolding superseded_candidate_def by (intro does_intros) simp_all

lemma run_extends: "does P m \<Longrightarrow> m w h = (r, h') \<Longrightarrow> \<exists>cs. h' = h @ cs"
  using does_run by blast

section \<open>The wait ends\<close>

text \<open>
  What \<^verbatim>\<open>time.monotonic\<close> and \<^verbatim>\<open>time.sleep\<close> promise: the clock does not run backwards, and a pause takes at least
  its time.
\<close>

definition pauses :: "call list \<Rightarrow> time" where
  "pauses cs = (\<Sum>c\<leftarrow>cs. case c of Pause d \<Rightarrow> max 0 d | _ \<Rightarrow> 0)"

definition steady_clock :: "world \<Rightarrow> bool" where
  "steady_clock w =
     (\<forall>h cs t t'. w h Tick = Instant t \<longrightarrow> w (h @ Tick # cs) Tick = Instant t' \<longrightarrow> t + pauses cs \<le> t')"

definition not_before :: "world \<Rightarrow> call list \<Rightarrow> time \<Rightarrow> bool" where
  "not_before w h l = (\<forall>cs t. w (h @ cs) Tick = Instant t \<longrightarrow> l \<le> t)"

lemma pauses_nonneg: "0 \<le> pauses cs"
  by (induction cs) (auto simp: pauses_def split: call.split)

lemma pauses_Pause: "d \<le> pauses (Pause d # cs)"
  using pauses_nonneg [of cs] by (simp add: pauses_def)

lemma not_before_tick: "steady_clock w \<Longrightarrow> w h Tick = Instant t \<Longrightarrow> not_before w (h @ [Tick]) t"
  unfolding not_before_def
proof (intro allI impI)
  fix cs t' assume "steady_clock w" "w h Tick = Instant t" "w ((h @ [Tick]) @ cs) Tick = Instant t'"
  then have "t + pauses cs \<le> t'" by (simp add: steady_clock_def)
  with pauses_nonneg [of cs] show "t \<le> t'" by linarith
qed

lemma not_before_pause: "steady_clock w \<Longrightarrow> w h Tick = Instant t \<Longrightarrow> not_before w (h @ [Tick, Pause d]) (t + d)"
  unfolding not_before_def
proof (intro allI impI)
  fix cs t' assume "steady_clock w" "w h Tick = Instant t" "w ((h @ [Tick, Pause d]) @ cs) Tick = Instant t'"
  then have "t + pauses (Pause d # cs) \<le> t'" by (simp add: steady_clock_def)
  with pauses_Pause [of d cs] show "t + d \<le> t'" by linarith
qed

lemma tick_Inr: "tick w h = (Inr t, h') \<longleftrightarrow> w h Tick = Instant t \<and> h' = h @ [Tick]"
  by (auto simp: tick_def andthen_Inr ask_def give_run split: reply.splits)

lemma wait_rounds_cong:
  assumes "does P poll"
    "\<And>cs t. w (h @ cs) Tick = Instant t \<Longrightarrow> 0 < deadline - t \<Longrightarrow>
      wait_rounds m poll deadline w (h @ cs @ [Tick, Pause (min 2 (deadline - t))]) =
      wait_rounds n poll deadline w (h @ cs @ [Tick, Pause (min 2 (deadline - t))])"
  shows "wait_rounds (Suc m) poll deadline w h = wait_rounds (Suc n) poll deadline w h"
  unfolding wait_rounds.simps(2)
proof (rule andthen_cong)
  fix r h1 assume "poll w h = (Inr r, h1)"
  then obtain cs where cs: "h1 = h @ cs" using run_extends [OF assms(1)] by blast
  show "(case r of Some run \<Rightarrow> done_with run
      | None \<Rightarrow> andthen tick (\<lambda>t. andthen (require (0 < deadline - t)) (\<lambda>_.
          andthen (ask (Pause (min 2 (deadline - t)))) (\<lambda>_. wait_rounds m poll deadline)))) w h1 =
    (case r of Some run \<Rightarrow> done_with run
      | None \<Rightarrow> andthen tick (\<lambda>t. andthen (require (0 < deadline - t)) (\<lambda>_.
          andthen (ask (Pause (min 2 (deadline - t)))) (\<lambda>_. wait_rounds n poll deadline)))) w h1"
    using assms(2) [of cs]
    by (cases r) (auto simp del: wait_rounds.simps simp: cs tick_Inr ask_def give_run intro!: andthen_cong)
qed

lemma wait_rounds_enough:
  assumes "steady_clock w" "does P poll"
  shows "not_before w h l \<Longrightarrow> deadline - l \<le> 2 * of_nat k \<Longrightarrow>
    wait_rounds (Suc (Suc k)) poll deadline w h = wait_rounds (Suc k) poll deadline w h"
proof (induction k arbitrary: h l)
  case (0 h l)
  have late: "deadline \<le> t" if "w (h @ cs) Tick = Instant t" for cs t
  proof -
    have "l \<le> t" using 0(1) that by (auto simp: not_before_def)
    with 0(2) show ?thesis by simp
  qed
  show ?case by (rule wait_rounds_cong [OF assms(2)]) (use late in fastforce)
next
  case (Suc k h l)
  show ?case
  proof (rule wait_rounds_cong [OF assms(2)])
    fix cs t assume t: "w (h @ cs) Tick = Instant t" "0 < deadline - t"
    let ?h = "(h @ cs) @ [Tick, Pause (min 2 (deadline - t))]"
    have "l \<le> t" using Suc.prems(1) t by (auto simp: not_before_def)
    then have "deadline - (t + min 2 (deadline - t)) \<le> 2 * of_nat k" using Suc.prems(2) by (simp add: min_def)
    from Suc.IH [OF not_before_pause [OF assms(1) t(1)] this]
    show "wait_rounds (Suc (Suc k)) poll deadline w (h @ cs @ [Tick, Pause (min 2 (deadline - t))]) =
        wait_rounds (Suc k) poll deadline w (h @ cs @ [Tick, Pause (min 2 (deadline - t))])"
      by (simp del: wait_rounds.simps)
  qed
qed

lemma wait_rounds_stable:
  assumes "steady_clock w" "does P poll" "not_before w h (deadline - 300)"
  shows "wait_rounds (151 + n) poll deadline w h = wait_rounds 151 poll deadline w h"
proof (induction n)
  case (Suc n)
  have "wait_rounds (Suc (Suc (150 + n))) poll deadline w h = wait_rounds (Suc (150 + n)) poll deadline w h"
    by (rule wait_rounds_enough [OF assms]) simp
  then show ?case using Suc.IH by (simp only: add_Suc_right) (simp add: eval_nat_numeral del: wait_rounds.simps)
qed simp

lemma wait_bounded_stable:
  assumes "steady_clock w"
  shows "wait_bounded (151 + n) g su run_id channel info sha attempt gate w h =
    wait_bounded 151 g su run_id channel info sha attempt gate w h"
  unfolding wait_bounded_def
proof (rule andthen_cong)
  fix t h' assume "tick w h = (Inr t, h')"
  then have t: "w h Tick = Instant t" "h' = h @ [Tick]" by (simp_all add: tick_Inr)
  show "wait_rounds (151 + n) (poll_run g su run_id channel info sha attempt gate (t + 300)) (t + 300) w h' =
      wait_rounds 151 (poll_run g su run_id channel info sha attempt gate (t + 300)) (t + 300) w h'"
    by (rule wait_rounds_stable [OF assms poll_asks]) (simp add: t not_before_tick [OF assms])
qed

section \<open>What an accepted run shows\<close>

text \<open>The answer a program got to one of its calls.\<close>

definition answered :: "world \<Rightarrow> call list \<Rightarrow> call \<Rightarrow> reply \<Rightarrow> bool" where
  "answered w h c r = (\<exists>k<length h. h ! k = c \<and> w (take k h) c = r)"

lemma answered_here: "w h c = r \<Longrightarrow> answered w (h @ c # cs) c r"
  unfolding answered_def by (rule exI [of _ "length h"]) simp

lemma answered_later: "answered w h c r \<Longrightarrow> answered w (h @ cs) c r"
  unfolding answered_def by (elim exE) (rename_tac k, rule_tac x = k in exI, simp add: nth_append)

lemma answered_more: "answered w h c r \<Longrightarrow> does P m \<Longrightarrow> m w h = (x, h') \<Longrightarrow> answered w h' c r"
  using run_extends answered_later by blast

lemma api_Inr: "api path w h = (Inr v, h') \<longleftrightarrow> allowed_get path \<and> w h (Api path) = Value v \<and> h' = h @ [Api path]"
  by (auto simp: api_def andthen_Inr give_run ask_value_Inr)

lemma pages_Inr: "pages path field w h = (Inr vs, h') \<longleftrightarrow>
    allowed_get path \<and> (\<exists>ps. w h (Pages path field) = Value (PList ps) \<and> page_records field ps = Inr vs) \<and> h' = h @ [Pages path field]"
proof -
  have "(case v of PList ps \<Rightarrow> page_records field ps | _ \<Rightarrow> Inl RuntimeError) = Inr vs \<longleftrightarrow>
      (\<exists>ps. v = PList ps \<and> page_records field ps = Inr vs)" for v
    by (cases v) simp_all
  then show ?thesis by (auto simp: pages_def andthen_Inr give_run ask_value_Inr)
qed

text \<open>The jobs of an attempt, as the last listing showed them.\<close>

definition listed_jobs :: "world \<Rightarrow> call list \<Rightarrow> int \<Rightarrow> int \<Rightarrow> pydict list \<Rightarrow> bool" where
  "listed_jobs w h run_id attempt jobs =
     (\<exists>ps vs. answered w h (Pages (attempt_path run_id attempt @ ''/jobs'') ''jobs'') (Value (PList ps)) \<and>
        page_records ''jobs'' ps = Inr vs \<and> traverse dict_items vs = Inr jobs)"

definition passed :: "pydict \<Rightarrow> bool" where
  "passed j = (dget j ''status'' = PStr ''completed'' \<and> dget j ''conclusion'' = PStr ''success'')"

text \<open>A job that ran at or after an instant: itself and each of its successful steps.\<close>

definition ran_since :: "time \<Rightarrow> pydict \<Rightarrow> bool" where
  "ran_since boundary j =
     (\<exists>a b. execution_timestamp (dget j ''started_at'') = Inr a \<and> execution_timestamp (dget j ''completed_at'') = Inr b \<and>
        boundary \<le> a \<and> a \<le> b \<and>
        (\<exists>ss. dget j ''steps'' = PList ss \<and> (\<exists>s\<in>set ss. dget (as_dict s) ''conclusion'' = PStr ''success'') \<and>
          (\<forall>s\<in>set ss. dget (as_dict s) ''conclusion'' = PStr ''success'' \<longrightarrow>
            (\<exists>c d. execution_timestamp (dget (as_dict s) ''started_at'') = Inr c \<and>
              execution_timestamp (dget (as_dict s) ''completed_at'') = Inr d \<and> a \<le> c \<and> c \<le> d \<and> d \<le> b))))"

lemma check_steps_Inr: "check_steps a b ss = Inr () \<Longrightarrow> s \<in> set ss \<Longrightarrow>
    \<exists>c d. execution_timestamp (dget s ''started_at'') = Inr c \<and> execution_timestamp (dget s ''completed_at'') = Inr d \<and>
      a \<le> c \<and> c \<le> d \<and> d \<le> b"
  by (induction ss) (auto simp: rbind_Inr_iff)

lemma fresh_timing: "require_fresh_job_timing j boundary = Inr () \<Longrightarrow> ran_since boundary j"
proof -
  assume r: "require_fresh_job_timing j boundary = Inr ()"
  then obtain a b ss where t: "execution_timestamp (dget j ''started_at'') = Inr a" "execution_timestamp (dget j ''completed_at'') = Inr b"
      "boundary \<le> a" "a \<le> b" and s: "dget j ''steps'' = PList ss"
    and good: "filter (\<lambda>s. dget s ''conclusion'' = PStr ''success'') (map as_dict ss) \<noteq> []"
    and steps: "check_steps a b (filter (\<lambda>s. dget s ''conclusion'' = PStr ''success'') (map as_dict ss)) = Inr ()"
    unfolding require_fresh_job_timing_def
    by (cases "dget j ''steps''") (auto simp: rbind_Inr_iff Let_def)
  have "\<exists>s\<in>set ss. dget (as_dict s) ''conclusion'' = PStr ''success''"
    using good by (auto simp: filter_empty_conv)
  then show ?thesis
    unfolding ran_since_def using t s check_steps_Inr [OF steps] by fastforce
qed

lemma check_jobs_Inr: "check_jobs boundary sha attempt jobs = Inr () \<Longrightarrow> j \<in> set jobs \<Longrightarrow> passed j \<Longrightarrow>
    dget j ''head_sha'' = PStr sha \<and> ran_since boundary j"
  by (induction jobs) (auto simp: rbind_Inr_iff passed_def fresh_timing split: if_splits)

definition attempt_start :: "world \<Rightarrow> call list \<Rightarrow> int \<Rightarrow> int \<Rightarrow> time \<Rightarrow> bool" where
  "attempt_start w h run_id attempt boundary =
     (\<exists>d. answered w h (Api (attempt_path run_id attempt)) (Value (PDict d)) \<and> execution_timestamp (dget d ''run_started_at'') = Inr boundary)"

lemma listed_later: "listed_jobs w h n a js \<Longrightarrow> listed_jobs w (h @ cs) n a js"
  unfolding listed_jobs_def using answered_later by blast

lemma start_later: "attempt_start w h n a b \<Longrightarrow> attempt_start w (h @ cs) n a b"
  unfolding attempt_start_def using answered_later by blast

lemma current_jobs_Inr:
  assumes "require_current_attempt_jobs run_id sha attempt jobs w h = (Inr (), h')" "attempt \<noteq> 1"
  shows "\<exists>boundary. attempt_start w h' run_id attempt boundary \<and>
    (\<forall>j\<in>set jobs. passed j \<longrightarrow> dget j ''head_sha'' = PStr sha \<and> ran_since boundary j)"
proof -
  from assms obtain v detail boundary where v: "w h (Api (attempt_path run_id attempt)) = Value v" "object_of v = Inr detail"
      "execution_timestamp (dget detail ''run_started_at'') = Inr boundary" "check_jobs boundary sha attempt jobs = Inr ()"
      "h' = h @ [Api (attempt_path run_id attempt)]"
    unfolding require_current_attempt_jobs_def by (auto simp: andthen_Inr give_run api_Inr)
  then have "v = PDict detail" by (simp add: object_of_def split: pyval.splits)
  with v have "attempt_start w h' run_id attempt boundary"
    unfolding attempt_start_def using answered_here [of w h _ _ "[]"] by blast
  with check_jobs_Inr [OF v(4)] show ?thesis by blast
qed

definition gate_passed :: "world \<Rightarrow> call list \<Rightarrow> int \<Rightarrow> string \<Rightarrow> int \<Rightarrow> bool" where
  "gate_passed w h run_id sha attempt =
     (\<exists>jobs. listed_jobs w h run_id attempt jobs \<and>
        (\<exists>j. gate_jobs jobs = [j] \<and> dget j ''head_sha'' = PStr sha \<and> passed j) \<and>
        (attempt \<noteq> 1 \<longrightarrow> (\<exists>boundary. attempt_start w h run_id attempt boundary \<and>
           (\<forall>j\<in>set jobs. passed j \<longrightarrow> dget j ''head_sha'' = PStr sha \<and> ran_since boundary j))))"

lemma gate_later: "gate_passed w h n sha a \<Longrightarrow> gate_passed w (h @ cs) n sha a"
  unfolding gate_passed_def using listed_later start_later by meson

lemma gate_ready_True:
  assumes "release_gate_ready run_id sha attempt p w h = (Inr True, h')"
  shows "gate_passed w h' run_id sha attempt"
proof -
  from assms obtain ps vs jobs h1 where l: "w h (Pages (attempt_path run_id attempt @ ''/jobs'') ''jobs'') = Value (PList ps)"
      "page_records ''jobs'' ps = Inr vs" "traverse dict_items vs = Inr jobs"
      "h1 = h @ [Pages (attempt_path run_id attempt @ ''/jobs'') ''jobs'']"
    and r: "(if gate_jobs jobs = [] \<and> p then done_with False
     else case gate_jobs jobs of
       [gate] \<Rightarrow>
         andthen (require (dget gate ''head_sha'' = PStr sha)) (\<lambda>_.
         andthen (give (if p then in_texts (dget gate ''status'') PENDING else Inr False)) (\<lambda>pending.
         if pending then andthen (require (dget gate ''conclusion'' = PNone)) (\<lambda>_. done_with False)
         else andthen (require (dget gate ''status'' = PStr ''completed'' \<and> dget gate ''conclusion'' = PStr ''success'')) (\<lambda>_.
              andthen (require_current_attempt_jobs run_id sha attempt jobs) (\<lambda>_. done_with True))))
     | _ \<Rightarrow> give (Inl RuntimeError)) w h1 = (Inr True, h')"
    unfolding release_gate_ready_def by (auto simp: andthen_Inr give_run pages_Inr)
  from r obtain gate where gate: "gate_jobs jobs = [gate]"
    by (cases "gate_jobs jobs" rule: remdups_adj.cases) (auto simp: give_run split: if_splits)
  with r have g: "dget gate ''head_sha'' = PStr sha" "passed gate"
    and c: "require_current_attempt_jobs run_id sha attempt jobs w h1 = (Inr (), h')"
    by (auto simp: andthen_Inr give_run passed_def split: if_splits)
  from run_extends [OF current_jobs_asks c] obtain cs where cs: "h' = h1 @ cs" by blast
  have "listed_jobs w h1 run_id attempt jobs"
    unfolding listed_jobs_def using l answered_here [of w h _ _ "[]"] by blast
  then have "listed_jobs w h' run_id attempt jobs" unfolding cs by (rule listed_later)
  then show ?thesis unfolding gate_passed_def using gate g current_jobs_Inr [OF c] by blast
qed

lemma wait_rounds_Inr: "wait_rounds k poll deadline w h = (Inr run, h') \<Longrightarrow> \<exists>h1. poll w h1 = (Inr (Some run), h')"
  by (induction k arbitrary: h) (auto simp: andthen_Inr give_run split: option.splits)

lemma poll_Some:
  assumes "poll_run g su run_id channel info sha attempt gate deadline w h = (Inr (Some run), h')"
  shows "dget run ''status'' = PStr ''in_progress'' \<and> dget run ''conclusion'' = PNone \<and> py_eq (dget run ''id'') (PInt run_id) \<and>
    check_execution g su run_id channel info run = Inr () \<and> validate_run_provenance g run info sha attempt = Inr () \<and>
    (\<exists>h1 t. h' = h1 @ [Tick] \<and> w h1 Tick = Instant t \<and> t < deadline \<and> (gate \<longrightarrow> gate_passed w h1 run_id sha attempt))"
  using assms unfolding poll_run_def
  by (auto simp: andthen_Inr give_run tick_Inr gate_ready_True split: if_splits)

lemma superseded_Some:
  assumes "superseded_candidate g info run channel w h = (Inr (Some d), h')"
  shows "\<exists>source head successor. dget run ''head_sha'' = source \<and> source \<noteq> PStr head \<and> sha_text head \<and>
    newer_run successor run = Inr () \<and> d = supersession g source head successor"
  using assms unfolding superseded_candidate_def
  by (auto simp: andthen_Inr give_run dgetitem_def dget_def head_of_def rbind_Inr_iff split: if_splits option.splits)

section \<open>The executing run\<close>

text \<open>
  C35: a run may publish only after its own metadata showed it in progress, without a conclusion, with exactly the
  expected identity and surroundings, before the deadline of 300 seconds; where a gate is required, the last
  listing of the jobs of this attempt had exactly one release gate, passed at the source commit, and in a
  rerun every passed job and every passed step of it ran after the attempt began.
\<close>

theorem executing_run_is_ready:
  assumes "wait_for_executing_run g su run_id channel info sha attempt gate w h = (Inr run, h')"
  shows "dget run ''status'' = PStr ''in_progress'' \<and> dget run ''conclusion'' = PNone \<and> py_eq (dget run ''id'') (PInt run_id) \<and>
    check_execution g su run_id channel info run = Inr () \<and> validate_run_provenance g run info sha attempt = Inr () \<and>
    (\<exists>h1 t0 t. w h Tick = Instant t0 \<and> h' = h1 @ [Tick] \<and> w h1 Tick = Instant t \<and> t < t0 + 300 \<and>
      (gate \<longrightarrow> gate_passed w h1 run_id sha attempt))"
proof -
  from assms obtain t0 h1 where t0: "w h Tick = Instant t0"
    and r: "wait_rounds 151 (poll_run g su run_id channel info sha attempt gate (t0 + 300)) (t0 + 300) w h1 = (Inr run, h')"
    unfolding wait_for_executing_run_def wait_bounded_def by (auto simp: andthen_Inr tick_Inr)
  from wait_rounds_Inr [OF r] obtain h2
    where "poll_run g su run_id channel info sha attempt gate (t0 + 300) w h2 = (Inr (Some run), h')" by blast
  from poll_Some [OF this] t0 show ?thesis by blast
qed

text \<open>
  C36: the wait for the executing run ends: with a clock that does not run backwards and pauses that take their
  time, 151 rounds are all there ever are, so any greater bound gives the same result.
\<close>

theorem wait_always_ends:
  assumes "steady_clock w"
  shows "wait_bounded (151 + n) g su run_id channel info sha attempt gate w h =
    wait_for_executing_run g su run_id channel info sha attempt gate w h"
  unfolding wait_for_executing_run_def by (rule wait_bounded_stable [OF assms])

text \<open>A rerun that is queued at first and in progress after the first pause.\<close>

definition demo_github :: github where
  "demo_github = \<lparr>gi_repo = ''o/r'', gi_scope = False\<rparr>"

definition demo_info :: pydict where
  "demo_info = [(''full_name'', PStr ''o/r''), (''default_branch'', PStr ''main'')]"

definition demo_executing :: "string \<Rightarrow> pydict" where
  "demo_executing status =
     [(''id'', PInt 7), (''run_attempt'', PInt 2), (''status'', PStr status), (''head_sha'', PStr demo_sha), (''path'', PStr WORKFLOW),
      (''head_branch'', PStr ''main''), (''event'', PStr ''workflow_dispatch''),
      (''repository'', PDict demo_info), (''head_repository'', PDict demo_info)]"

definition demo_times :: "string \<Rightarrow> string \<Rightarrow> pydict" where
  "demo_times a b =
     [(''status'', PStr ''completed''), (''conclusion'', PStr ''success''),
      (''started_at'', PStr (''2026-01-02T03:04:'' @ a @ ''Z'')), (''completed_at'', PStr (''2026-01-02T05:04:'' @ b @ ''+02:00''))]"

definition demo_gate :: pydict where
  "demo_gate =
     [(''name'', PStr ''Release gate''), (''head_sha'', PStr demo_sha), (''run_attempt'', PInt 2),
      (''steps'', PList [PDict (demo_times ''06'' ''07'')])] @ demo_times ''05.25'' ''08''"

definition demo_surroundings :: surroundings where
  "demo_surroundings =
     \<lparr>su_env = map_of
        [(''GITHUB_ACTIONS'', ''true''), (''GITHUB_REPOSITORY'', ''O/r''), (''GITHUB_RUN_ID'', ''7''), (''GITHUB_RUN_ATTEMPT'', ''2''),
         (''GITHUB_REF'', ''refs/heads/main''), (''GITHUB_WORKFLOW_REF'', ''o/r/'' @ WORKFLOW @ ''@refs/heads/main''),
         (''GITHUB_EVENT_NAME'', ''workflow_dispatch''), (''GITHUB_EVENT_PATH'', ''/event.json'')],
      su_head = Inr demo_sha,
      su_event = Inr (PDict [(''inputs'', PDict [(''channel'', PStr ''rc'')])])\<rparr>"

definition demo_world :: world where
  "demo_world h c =
     (case c of
        Tick \<Rightarrow> Instant (10 + pauses h)
      | Api p \<Rightarrow>
          if p = ''actions/runs/7'' then Value (PDict (demo_executing (if 0 < pauses h then ''in_progress'' else ''queued'')))
          else if p = ''actions/runs/7/attempts/2''
          then Value (PDict (demo_executing ''in_progress'' @ [(''run_started_at'', PStr ''2026-01-02T03:04:05Z'')]))
          else Refused (HttpStatus 404)
      | Pages p f \<Rightarrow> Value (PList [PDict [(f, PList [PDict demo_gate])]])
      | _ \<Rightarrow> Refused OtherError)"

lemma pauses_append: "pauses (cs @ ds) = pauses cs + pauses ds"
  by (simp add: pauses_def)

lemma demo_world_clock: "steady_clock demo_world"
  unfolding steady_clock_def
  by (auto simp: demo_world_def pauses_append) (simp add: pauses_def)

lemma wait_rounds_more: "wait_rounds k poll deadline w h = (Inr run, h') \<Longrightarrow> wait_rounds (k + n) poll deadline w h = (Inr run, h')"
proof (induction k arbitrary: h)
  case (Suc k)
  then obtain r h1 where r: "poll w h = (Inr r, h1)"
      "(case r of Some run \<Rightarrow> done_with run
        | None \<Rightarrow> andthen tick (\<lambda>t. andthen (require (0 < deadline - t)) (\<lambda>_.
            andthen (ask (Pause (min 2 (deadline - t)))) (\<lambda>_. wait_rounds k poll deadline)))) w h1 = (Inr run, h')"
    unfolding wait_rounds.simps(2) andthen_Inr [of poll] by blast
  show ?case
  proof (cases r)
    case None
    with r Suc.IH show ?thesis by (auto simp: andthen_Inr)
  next
    case (Some run')
    with r show ?thesis by (auto simp: andthen_Inr)
  qed
qed (simp add: give_run)

lemma wait_bounded_more:
  "wait_bounded k g su run_id channel info sha attempt gate w h = (Inr run, h') \<Longrightarrow>
     wait_bounded (k + n) g su run_id channel info sha attempt gate w h = (Inr run, h')"
  unfolding wait_bounded_def andthen_Inr using wait_rounds_more by blast

lemma demo_waits:
  "fst (wait_for_executing_run demo_github demo_surroundings 7 ''rc'' demo_info demo_sha 2 True demo_world []) =
    Inr (demo_executing ''in_progress'')"
proof -
  have "fst (wait_bounded 3 demo_github demo_surroundings 7 ''rc'' demo_info demo_sha 2 True demo_world []) =
      Inr (demo_executing ''in_progress'')" by code_simp
  then obtain h' where "wait_bounded 3 demo_github demo_surroundings 7 ''rc'' demo_info demo_sha 2 True demo_world [] =
      (Inr (demo_executing ''in_progress''), h')" by (metis prod.collapse)
  from wait_bounded_more [OF this, of 148] show ?thesis by (simp add: wait_for_executing_run_def)
qed

lemma executing_run_is_ready_witness:
  "\<exists>h1. gate_passed demo_world h1 7 demo_sha 2 \<and> dget (demo_executing ''in_progress'') ''status'' = PStr ''in_progress''"
proof -
  obtain h' where "wait_for_executing_run demo_github demo_surroundings 7 ''rc'' demo_info demo_sha 2 True demo_world [] =
      (Inr (demo_executing ''in_progress''), h')"
    using demo_waits by (metis prod.collapse)
  from executing_run_is_ready [OF this] show ?thesis by blast
qed

lemma wait_always_ends_witness:
  "fst (wait_bounded (151 + 49) demo_github demo_surroundings 7 ''rc'' demo_info demo_sha 2 True demo_world []) =
    Inr (demo_executing ''in_progress'')"
  by (simp only: wait_always_ends [OF demo_world_clock] demo_waits)

end
