(* ===== verification/Publication.thy ===== *)
theory Publication
  imports Release_Runs "HOL-Library.Sublist"
begin

text \<open>
  The publication transaction of \<^verbatim>\<open>scripts/release_control.py\<close> (\<^verbatim>\<open>_publish_prepared\<close>) with the read-back of an
  ambiguous create (\<^verbatim>\<open>_reconcile_created_release\<close>) and the confirmations \<^verbatim>\<open>scripts/release_versioned.py\<close> hands
  to it. The staged files are given with their bytes, in the order of their names. No signatures are
  required in this repository (\<^verbatim>\<open>RELEASE_SIGNATURES_REQUIRED\<close> is false), so their check returns at once.
\<close>

section \<open>Before the first write\<close>

text \<open>\<^verbatim>\<open>reject_restricted_assets\<close>, for the suffixes of each restriction; this repository has none.\<close>

definition ends_with :: "string \<Rightarrow> string \<Rightarrow> bool" where
  "ends_with s e = (length e \<le> length s \<and> drop (length s - length e) s = e)"

definition ASSET_RESTRICTIONS :: "string list list" where
  "ASSET_RESTRICTIONS = []"

definition reject_restricted_assets :: "string list list \<Rightarrow> string list \<Rightarrow> unit res" where
  "reject_restricted_assets restrictions names =
     ensure (\<not> list_ex (\<lambda>name. list_ex (list_ex (ends_with (lower name))) restrictions) names)"

text \<open>\<^verbatim>\<open>ensure_absent\<close>; the releases are looked through until one has the tag.\<close>

fun draft_exists :: "string \<Rightarrow> pyval list \<Rightarrow> bool res" where
  "draft_exists tag [] = Inr False"
| "draft_exists tag (v # vs) =
     rbind (vget v ''tag_name'') (\<lambda>t. if t = PStr tag then Inr True else draft_exists tag vs)"

definition refuse_existing :: "string \<Rightarrow> unit io" where
  "refuse_existing tag =
     andthen (optional (''git/ref/tags/'' @ quote_url tag)) (\<lambda>v.
     andthen (require (v = PNone)) (\<lambda>_.
     andthen (optional (''releases/tags/'' @ quote_url tag)) (\<lambda>v.
     andthen (require (v = PNone)) (\<lambda>_.
     andthen (pages ''releases'' []) (\<lambda>vs.
     andthen (give (draft_exists tag vs)) (\<lambda>b. require (\<not> b)))))))"

section \<open>The draft after an ambiguous create\<close>

text \<open>\<^verbatim>\<open>type(a) is type(b) and a == b\<close> for parsed JSON.\<close>

fun same_kind :: "pyval \<Rightarrow> pyval \<Rightarrow> bool" where
  "same_kind PNone PNone = True"
| "same_kind (PBool _) (PBool _) = True"
| "same_kind (PInt _) (PInt _) = True"
| "same_kind (PFloat _) (PFloat _) = True"
| "same_kind (PStr _) (PStr _) = True"
| "same_kind (PList _) (PList _) = True"
| "same_kind (PDict _) (PDict _) = True"
| "same_kind (PTime _) (PTime _) = True"
| "same_kind _ _ = False"

definition exactly :: "pyval \<Rightarrow> pyval \<Rightarrow> bool" where
  "exactly a b = (same_kind a b \<and> same_json a b)"

definition release_url :: "github \<Rightarrow> int \<Rightarrow> string" where
  "release_url g n = ''https://api.github.com/repos/'' @ gi_repo g @ ''/releases/'' @ show_int n"

definition checked_release :: "github \<Rightarrow> pydict \<Rightarrow> int \<Rightarrow> pyval \<Rightarrow> pydict res" where
  "checked_release g payload n v =
     rbind (object_of v) (\<lambda>d.
     rbind (ensure (dget d ''id'' = PInt n \<and> dget d ''url'' = PStr (release_url g n) \<and>
                    dget d ''published_at'' = PNone \<and> haskey d ''published_at'' \<and> dget d ''assets'' = PList [] \<and>
                    is_dict (dget d ''author'') \<and>
                    list_all (\<lambda>(k, e). k = ''make_latest'' \<or> exactly (dget d k) e) payload)) (\<lambda>_.
     rbind (positive (dget (as_dict (dget d ''author'')) ''id'')) (\<lambda>_. Inr d)))"

text \<open>The inventory of a listing: its ids and tags, compared as dictionaries.\<close>

definition inventory :: "pydict list \<Rightarrow> (pyval \<times> pyval) list" where
  "inventory rows = map (\<lambda>d. (dget d ''id'', dget d ''tag_name'')) rows"

definition same_inventory :: "pydict list \<Rightarrow> pydict list \<Rightarrow> bool" where
  "same_inventory xs ys =
     (length xs = length ys \<and>
      list_all (\<lambda>(k, v). list_ex (\<lambda>(k', v'). py_eq k k' \<and> same_json v v') (inventory ys)) (inventory xs))"

definition with_tag :: "pydict \<Rightarrow> pydict list \<Rightarrow> pydict list" where
  "with_tag payload rows = filter (\<lambda>d. same_json (dget d ''tag_name'') (dget payload ''tag_name'')) rows"

definition sole :: "'a list \<Rightarrow> 'a res" where
  "sole xs = (case xs of [x] \<Rightarrow> Inr x | _ \<Rightarrow> Inl RuntimeError)"

definition same_author :: "pydict \<Rightarrow> pydict \<Rightarrow> bool" where
  "same_author d e = same_json (dget d ''author'') (dget e ''author'')"

definition release_path :: "int \<Rightarrow> string" where
  "release_path n = ''releases/'' @ show_int n"

definition tag_source :: "pydict \<Rightarrow> pyval \<Rightarrow> unit res" where
  "tag_source payload v =
     rbind (text_of (dget payload ''tag_name'')) (\<lambda>tag.
     ensure (case commit_at (''refs/tags/'' @ tag) v of
               None \<Rightarrow> False | Some s \<Rightarrow> same_json (PStr s) (dget payload ''target_commitish'')))"

text \<open>
  \<^verbatim>\<open>_reconcile_created_release\<close> over one read-back: two equal inventories with one release of this tag, the release
  itself, its empty assets, the tag, and all of it confirmed before and after.
\<close>

definition reconcile_last ::
    "github \<Rightarrow> pydict \<Rightarrow> (readback \<Rightarrow> (unit \<times> readback) io) \<Rightarrow> int \<Rightarrow> pydict \<Rightarrow> readback \<Rightarrow> (pydict \<times> readback) io" where
  "reconcile_last g payload confirm n release rb6 =
     andthen (confirm rb6) (\<lambda>(_, rb7).
     andthen (readback_json (release_path n) rb7) (\<lambda>(v', rb8).
     andthen (give (checked_release g payload n v')) (\<lambda>final.
     andthen (require (same_author final release)) (\<lambda>_.
     andthen (readback_pages g (release_path n @ ''/assets'') rb8) (\<lambda>(assets', rb9).
     andthen (require (assets' = [])) (\<lambda>_.
     andthen (readback_check rb9) (\<lambda>_. done_with (final, rb9))))))))"

definition reconcile_from ::
    "github \<Rightarrow> pydict \<Rightarrow> (readback \<Rightarrow> (unit \<times> readback) io) \<Rightarrow> readback \<Rightarrow> (pydict \<times> readback) io" where
  "reconcile_from g payload confirm rb0 =
     andthen (confirm rb0) (\<lambda>(_, rb1).
     andthen (readback_pages g ''releases'' rb1) (\<lambda>(first, rb2).
     andthen (readback_pages g ''releases'' rb2) (\<lambda>(second, rb3).
     andthen (require (same_inventory first second)) (\<lambda>_.
     andthen (give (sole (with_tag payload second))) (\<lambda>row.
     andthen (give (positive (dget row ''id''))) (\<lambda>n.
     andthen (give (sole (with_tag payload first))) (\<lambda>row'.
     andthen (give (checked_release g payload n (PDict row))) (\<lambda>listed.
     andthen (give (checked_release g payload n (PDict row'))) (\<lambda>original.
     andthen (require (same_author original listed)) (\<lambda>_.
     andthen (readback_json (release_path n) rb3) (\<lambda>(v, rb4).
     andthen (give (checked_release g payload n v)) (\<lambda>release.
     andthen (require (same_author release listed)) (\<lambda>_.
     andthen (readback_pages g (release_path n @ ''/assets'') rb4) (\<lambda>(assets, rb5).
     andthen (require (assets = [])) (\<lambda>_.
     andthen (give (text_of (dget payload ''tag_name''))) (\<lambda>tag.
     andthen (readback_json (''git/ref/tags/'' @ tag) rb5) (\<lambda>(ref, rb6).
     andthen (give (tag_source payload ref)) (\<lambda>_.
     reconcile_last g payload confirm n release rb6))))))))))))))))))"

definition reconcile_created_release :: "github \<Rightarrow> pydict \<Rightarrow> (readback \<Rightarrow> (unit \<times> readback) io) \<Rightarrow> pydict io" where
  "reconcile_created_release g payload confirm =
     andthen (readback_new g) (\<lambda>rb. andthen (reconcile_from g payload confirm rb) (\<lambda>(d, _). done_with d))"

text \<open>
  \<^verbatim>\<open>create_confirmation\<close> of a run, the reference of the default branch (its path and its value when the publication
  began) and the ledger text that was written: the run still executes, the branch and the ledger are unchanged.
\<close>

fun same_fields :: "string list \<Rightarrow> pydict \<Rightarrow> pydict \<Rightarrow> bool res" where
  "same_fields [] run current = Inr True"
| "same_fields (k # ks) run current =
     rbind (dgetitem run k) (\<lambda>v. if exactly (dget current k) v then same_fields ks run current else Inr False)"

definition current_run :: "pydict \<Rightarrow> pyval \<Rightarrow> unit res" where
  "current_run run v =
     rbind (object_of v) (\<lambda>current.
     rbind (ensure (dget current ''status'' = PStr ''in_progress'' \<and> dget current ''conclusion'' = PNone)) (\<lambda>_.
     rbind (same_fields [''id'', ''run_attempt'', ''head_sha'', ''path'', ''event''] run current) ensure))"

definition run_path :: "pydict \<Rightarrow> string res" where
  "run_path run =
     rbind (dgetitem run ''id'') (\<lambda>i. rbind (dgetitem run ''run_attempt'') (\<lambda>a.
     Inr (''actions/runs/'' @ py_str i @ ''/attempts/'' @ py_str a)))"

definition same_branch :: "string \<Rightarrow> pyval \<Rightarrow> unit res" where
  "same_branch path v =
     rbind (object_of v) (\<lambda>info.
     ensure (case dget info ''default_branch'' of PStr b \<Rightarrow> branch_path b = path | _ \<Rightarrow> False))"

definition ledger_text :: "(string \<Rightarrow> string res) \<Rightarrow> pyval \<Rightarrow> string res" where
  "ledger_text b64 v =
     rbind (object_of v) (\<lambda>c.
     rbind (ensure (dget c ''type'' = PStr ''file'' \<and> dget c ''encoding'' = PStr ''base64'')) (\<lambda>_.
     case dget c ''content'' of PStr s \<Rightarrow> b64 (filter (\<lambda>c. \<not> is_space c) s) | _ \<Rightarrow> Inl RuntimeError))"

definition create_confirmation ::
    "(string \<Rightarrow> string res) \<Rightarrow> pydict \<Rightarrow> string \<times> pyval \<Rightarrow> string \<Rightarrow> readback \<Rightarrow> (unit \<times> readback) io" where
  "create_confirmation b64 run source consumed rb0 =
     andthen (give (run_path run)) (\<lambda>path.
     andthen (readback_json path rb0) (\<lambda>(current, rb1).
     andthen (give (current_run run current)) (\<lambda>_.
     andthen (readback_json '''' rb1) (\<lambda>(info, rb2).
     andthen (give (same_branch (fst source) info)) (\<lambda>_.
     andthen (readback_json (fst source) rb2) (\<lambda>(ref, rb3).
     andthen (require (same_json ref (snd source))) (\<lambda>_.
     andthen (readback_json ''contents/release-version-state.json?ref=release-version-state'' rb3) (\<lambda>(content, rb4).
     andthen (give (ledger_text b64 content)) (\<lambda>text.
     andthen (require (text = consumed)) (\<lambda>_. done_with ((), rb4)))))))))))"

section \<open>The transaction\<close>

definition release_payload :: "string \<Rightarrow> string \<Rightarrow> string \<Rightarrow> bool \<Rightarrow> pydict" where
  "release_payload tag sha notes_text prerelease =
     [(''tag_name'', PStr tag), (''target_commitish'', PStr sha), (''name'', PStr tag), (''body'', PStr notes_text),
      (''draft'', PBool True), (''prerelease'', PBool prerelease), (''make_latest'', PStr ''false'')]"

definition create_draft :: "github \<Rightarrow> pydict \<Rightarrow> (readback \<Rightarrow> (unit \<times> readback) io) option \<Rightarrow> pyval io" where
  "create_draft g payload confirm =
     (case confirm of
        None \<Rightarrow> ask_value (Add_release payload)
      | Some c \<Rightarrow>
          andthen (create_release_once payload) (\<lambda>r.
          case r of
            Created d \<Rightarrow> done_with (PDict d)
          | Ambiguous \<Rightarrow> andthen (reconcile_created_release g payload c) (\<lambda>d. done_with (PDict d))))"

text \<open>\<^verbatim>\<open>stream_identity\<close> and \<^verbatim>\<open>verify_uploaded_asset\<close>.\<close>

definition stream_identity :: "(string \<Rightarrow> string) \<Rightarrow> string \<Rightarrow> int \<times> string" where
  "stream_identity sha256 content = (int (length content), sha256 content)"

definition verify_uploaded_asset :: "(string \<Rightarrow> string) \<Rightarrow> pydict \<Rightarrow> string \<Rightarrow> unit io" where
  "verify_uploaded_asset sha256 item content =
     andthen (require (dget item ''state'' = PStr ''uploaded'' \<and>
                       py_eq (dget item ''size'') (PInt (fst (stream_identity sha256 content))))) (\<lambda>_.
     andthen (give (positive (dget item ''id''))) (\<lambda>n.
     andthen (download_asset n) (\<lambda>got.
     require (stream_identity sha256 got = stream_identity sha256 content))))"

definition item_name :: "pydict \<Rightarrow> pyval res" where
  "item_name item =
     (case dget item ''name'' of PList _ \<Rightarrow> Inl TypeError | PDict _ \<Rightarrow> Inl TypeError | v \<Rightarrow> Inr v)"

definition check_uploaded :: "(string \<times> string) list \<Rightarrow> pyval list \<Rightarrow> pydict list res" where
  "check_uploaded files vs =
     rbind (ensure (length vs = length files)) (\<lambda>_.
     rbind (traverse dict_items vs) (\<lambda>items.
     rbind (traverse item_name items) (\<lambda>names.
     rbind (ensure (set names = set (map (PStr \<circ> fst) files))) (\<lambda>_. Inr items))))"

definition content_of :: "(string \<times> string) list \<Rightarrow> pydict \<Rightarrow> string" where
  "content_of files item =
     (case dget item ''name'' of PStr s \<Rightarrow> (case map_of files s of Some c \<Rightarrow> c | None \<Rightarrow> []) | _ \<Rightarrow> [])"

definition fill_draft :: "(string \<Rightarrow> string) \<Rightarrow> string \<Rightarrow> int \<Rightarrow> (string \<times> string) list \<Rightarrow> unit io" where
  "fill_draft sha256 tag n files =
     andthen (each (upload tag n) files) (\<lambda>_.
     andthen (pages (release_path n @ ''/assets'') []) (\<lambda>vs.
     andthen (give (check_uploaded files vs)) (\<lambda>items.
     each (\<lambda>item. verify_uploaded_asset sha256 item (content_of files item)) items)))"

definition require_tag :: "string \<Rightarrow> string \<Rightarrow> unit io" where
  "require_tag tag sha =
     andthen (api (''git/ref/tags/'' @ quote_url tag)) (\<lambda>v. require (commit_at (''refs/tags/'' @ tag) v = Some sha))"

definition publish_payload :: "bool \<Rightarrow> pydict" where
  "publish_payload prerelease =
     [(''draft'', PBool False), (''prerelease'', PBool prerelease),
      (''make_latest'', PStr (if prerelease then ''false'' else ''true''))]"

definition make_draft ::
    "github \<Rightarrow> string \<Rightarrow> string \<Rightarrow> bool \<Rightarrow> string \<Rightarrow> (readback \<Rightarrow> (unit \<times> readback) io) option \<Rightarrow> int io" where
  "make_draft g tag sha prerelease notes_text confirm =
     andthen (ask_value (Add_ref [(''ref'', PStr (''refs/tags/'' @ tag)), (''sha'', PStr sha)])) (\<lambda>_.
     andthen (create_draft g (release_payload tag sha notes_text prerelease) confirm) (\<lambda>v.
     andthen (give (dict_items v)) (\<lambda>release.
     andthen (require (dget release ''draft'' = PBool True \<and> dget release ''tag_name'' = PStr tag)) (\<lambda>_.
     give (positive (dget release ''id''))))))"

definition open_draft ::
    "github \<Rightarrow> string \<Rightarrow> string \<Rightarrow> string list \<Rightarrow> bool \<Rightarrow> string \<Rightarrow> (readback \<Rightarrow> (unit \<times> readback) io) option \<Rightarrow> int io" where
  "open_draft g tag sha names prerelease notes_text confirm =
     andthen (give (reject_restricted_assets ASSET_RESTRICTIONS names)) (\<lambda>_.
     andthen (refuse_existing tag) (\<lambda>_.
     andthen (check_workflow_publication g sha) (\<lambda>_.
     make_draft g tag sha prerelease notes_text confirm)))"

definition finish_release :: "string \<Rightarrow> int \<Rightarrow> bool \<Rightarrow> pydict io" where
  "finish_release tag n prerelease =
     andthen (ask_value (Edit_release n (publish_payload prerelease))) (\<lambda>v.
     andthen (give (dict_items v)) (\<lambda>result.
     andthen (require (dget result ''draft'' = PBool False \<and> dget result ''tag_name'' = PStr tag \<and>
                       dget result ''prerelease'' = PBool prerelease)) (\<lambda>_. done_with result)))"

definition publish_prepared ::
    "github \<Rightarrow> (string \<Rightarrow> string) \<Rightarrow> string \<Rightarrow> string \<Rightarrow> (string \<times> string) list \<Rightarrow> bool \<Rightarrow> string \<Rightarrow>
     (readback \<Rightarrow> (unit \<times> readback) io) option \<Rightarrow> unit io option \<Rightarrow> pydict io" where
  "publish_prepared g sha256 tag sha files prerelease notes_text confirm_create confirm_publish =
     andthen (open_draft g tag sha (map fst files) prerelease notes_text confirm_create) (\<lambda>n.
     andthen (fill_draft sha256 tag n files) (\<lambda>_.
     andthen (require_tag tag sha) (\<lambda>_.
     andthen (case confirm_publish of None \<Rightarrow> done_with () | Some c \<Rightarrow> c) (\<lambda>_.
     finish_release tag n prerelease))))"

text \<open>\<^verbatim>\<open>confirm_automatic_source\<close> of \<^verbatim>\<open>publish_versioned\<close>: the default branch is where it was.\<close>

definition confirm_automatic_source :: "github \<Rightarrow> pydict \<Rightarrow> string \<times> pyval \<Rightarrow> unit io" where
  "confirm_automatic_source g info source =
     andthen (repository_info g) (\<lambda>current.
     andthen (give (dgetitem info ''default_branch'')) (\<lambda>branch.
     andthen (require (same_json (dget current ''default_branch'') branch)) (\<lambda>_.
     andthen (api (fst source)) (\<lambda>v. require (same_json v (snd source))))))"

text \<open>\<^verbatim>\<open>publish_versioned\<close> takes the reference of the default branch before it records the publication, and then calls.\<close>

definition source_snapshot :: "pydict \<Rightarrow> pydict \<Rightarrow> string \<Rightarrow> (string \<times> pyval) io" where
  "source_snapshot info run channel =
     andthen (give (rbind (dgetitem info ''default_branch'') text_of)) (\<lambda>branch.
     andthen (api (branch_path branch)) (\<lambda>v.
     andthen (give (dgetitem run ''event'')) (\<lambda>event.
     andthen (give (in_texts event [])) (\<lambda>_.
     if automatic event channel
     then andthen (give (dgetitem run ''head_sha'')) (\<lambda>sha.
          andthen (require (case commit_at (''refs/heads/'' @ branch) v of None \<Rightarrow> False | Some s \<Rightarrow> same_json (PStr s) sha)) (\<lambda>_.
          done_with (branch_path branch, v)))
     else done_with (branch_path branch, v)))))"

definition publish_plan ::
    "github \<Rightarrow> codec \<Rightarrow> string \<Rightarrow> string \<Rightarrow> (string \<times> string) list \<Rightarrow> string \<Rightarrow> string \<Rightarrow> pydict \<Rightarrow> pydict \<Rightarrow>
     string \<times> pyval \<Rightarrow> string \<Rightarrow> pydict io" where
  "publish_plan g cd tag sha files channel notes_text info run source consumed =
     andthen (give (dgetitem run ''event'')) (\<lambda>event.
     andthen (give (in_texts event [])) (\<lambda>_.
     publish_prepared g (cd_sha256 cd) tag sha files (channel \<noteq> ''stable'') notes_text
       (Some (create_confirmation (cd_base64 cd) run source consumed))
       (if automatic event channel then Some (confirm_automatic_source g info source) else None)))"

section \<open>Reading back within the budget\<close>

lemma metered_then:
  assumes "metered rb m" "\<And>a rb'. metered rb' (f a rb')"
  shows "metered rb (andthen m (\<lambda>(a, rb'). f a rb'))"
  by (rule metered_andthen [OF assms(1)]) (simp add: assms(2))

lemmas metered_steps = metered_then [OF metered_json] metered_then [OF metered_pages] metered_give metered_require metered_tick

text \<open>What the read-back needs of a confirmation: it only reads and it counts its calls.\<close>

locale readback_confirmation =
  fixes confirm :: "readback \<Rightarrow> (unit \<times> readback) io"
  assumes confirm_metered: "metered rb (confirm rb)"
begin

lemma last_metered: "metered rb (reconcile_last g payload confirm n release rb)"
  unfolding reconcile_last_def
  by (intro metered_then [OF confirm_metered] metered_steps metered_done) simp

lemma reconcile_metered: "metered rb (reconcile_from g payload confirm rb)"
  unfolding reconcile_from_def
  by (intro metered_then [OF confirm_metered] metered_steps last_metered)

lemma reconcile_calls: "\<exists>cs. snd (reconcile_created_release g payload confirm w h) = h @ cs \<and>
    list_all (\<lambda>c. c = Tick \<or> is_readback c) cs \<and> readbacks cs \<le> 100"
proof (cases "readback_new g w h")
  case (Pair x h1)
  from Pair have "h1 = h \<or> h1 = h @ [Tick]"
    by (auto simp: readback_new_def andthen_def give_run tick_def ask_def ensure_def split: if_splits reply.splits)
  then obtain cs where cs: "h1 = h @ cs" "list_all (\<lambda>c. c = Tick \<or> is_readback c) cs" "readbacks cs = 0"
    by (elim disjE) (use that [of "[]"] that [of "[Tick]"] in simp_all)
  show ?thesis
  proof (cases x)
    case (Inl e)
    then show ?thesis using Pair cs by (auto simp: reconcile_created_release_def andthen_def intro!: exI [of _ cs])
  next
    case (Inr rb)
    then have "rb_calls rb = 0" using Pair by (auto simp: readback_new_def andthen_Inr give_run)
    moreover obtain y h2 where y: "reconcile_from g payload confirm rb w h1 = (y, h2)" by (cases "reconcile_from g payload confirm rb w h1")
    ultimately obtain ds where ds: "h2 = h1 @ ds" "in_budget rb y ds" "rb_calls rb = 0"
      using meteredD [OF reconcile_metered _ y] by auto
    then have "list_all (\<lambda>c. c = Tick \<or> is_readback c) ds" "readbacks ds \<le> 100"
      by (auto simp: in_budget_def split: sum.splits)
    moreover have "snd (reconcile_created_release g payload confirm w h) = h2"
      using Pair Inr y by (simp add: reconcile_created_release_def andthen_def give_run split: sum.split prod.split)
    ultimately show ?thesis using cs ds(1) by (intro exI [of _ "cs @ ds"]) simp
  qed
qed

lemma reconcile_does: "does (\<lambda>c. c = Tick \<or> is_readback c) (reconcile_created_release g payload confirm)"
  unfolding does_def using reconcile_calls by blast

end

lemma confirmation_metered: "metered rb (create_confirmation b64 run source consumed rb)"
  unfolding create_confirmation_def
  by (intro metered_steps metered_done) simp

interpretation cc: readback_confirmation "create_confirmation b64 run source consumed" for b64 run source consumed
  by unfold_locales (rule confirmation_metered)

section \<open>The writes of a publication\<close>

text \<open>The writes of a run are a prefix of one of the planned sequences, and all of it when the run succeeds.\<close>

definition follows_plan :: "call list set \<Rightarrow> 'a res \<Rightarrow> call list \<Rightarrow> bool" where
  "follows_plan S r cs = (\<exists>ws\<in>S. prefix (filter is_write cs) ws \<and> (is_ok r \<longrightarrow> filter is_write cs = ws))"

definition planned :: "call list set \<Rightarrow> 'a io \<Rightarrow> bool" where
  "planned S m = (\<forall>w h. \<exists>cs. snd (m w h) = h @ cs \<and> follows_plan S (fst (m w h)) cs)"

lemma planned_run: "planned S m \<Longrightarrow> m w h = (r, h') \<Longrightarrow> \<exists>cs. h' = h @ cs \<and> follows_plan S r cs"
  unfolding planned_def by (metis fst_conv snd_conv)

lemma plannedI: "(\<And>w h r h'. m w h = (r, h') \<Longrightarrow> \<exists>cs. h' = h @ cs \<and> follows_plan S r cs) \<Longrightarrow> planned S m"
  unfolding planned_def by (metis prod.collapse)

lemma planned_some: "planned S m \<Longrightarrow> \<exists>ws. ws \<in> S"
  unfolding planned_def follows_plan_def by blast

lemma planned_then:
  assumes "planned S m" "\<And>a. planned T (f a)"
  shows "planned {ws @ vs | ws vs. ws \<in> S \<and> vs \<in> T} (andthen m f)"
proof (rule plannedI)
  fix w h r h' assume run: "andthen m f w h = (r, h')"
  obtain x h1 where m: "m w h = (x, h1)" by (cases "m w h")
  from planned_run [OF assms(1) m] obtain cs where cs: "h1 = h @ cs" "follows_plan S x cs" by blast
  show "\<exists>cs. h' = h @ cs \<and> follows_plan {ws @ vs | ws vs. ws \<in> S \<and> vs \<in> T} r cs"
  proof (cases x)
    case (Inl e)
    with run m have "r = Inl e" "h' = h1" by (simp_all add: andthen_def)
    moreover obtain vs where "vs \<in> T" using planned_some [OF assms(2)] by blast
    ultimately show ?thesis using cs unfolding follows_plan_def by (auto intro!: prefix_prefix)
  next
    case (Inr a)
    with run m have f: "f a w h1 = (r, h')" by (simp add: andthen_def)
    from planned_run [OF assms(2) f] obtain ds where ds: "h' = h1 @ ds" "follows_plan T r ds" by blast
    from cs Inr have w: "filter is_write cs \<in> S" by (auto simp: follows_plan_def)
    from ds obtain vs where vs: "vs \<in> T" "prefix (filter is_write ds) vs" "is_ok r \<longrightarrow> filter is_write ds = vs"
      unfolding follows_plan_def by blast
    have "follows_plan {ws @ vs | ws vs. ws \<in> S \<and> vs \<in> T} r (cs @ ds)"
      unfolding follows_plan_def using w vs by (intro bexI [of _ "filter is_write cs @ vs"]) auto
    then show ?thesis using cs ds by (intro exI [of _ "cs @ ds"]) simp
  qed
qed

lemma planned_reads: "does is_read m \<Longrightarrow> planned {[]} m"
proof (rule plannedI)
  fix w h r h' assume "does is_read m" "m w h = (r, h')"
  from does_run [OF this] obtain cs where "h' = h @ cs" "list_all is_read cs" by blast
  then show "\<exists>cs. h' = h @ cs \<and> follows_plan {[]} r cs"
    by (intro exI [of _ cs]) (simp add: follows_plan_def filter_empty_conv list_all_iff)
qed

lemma planned_read_then: "does is_read m \<Longrightarrow> (\<And>a. planned T (f a)) \<Longrightarrow> planned T (andthen m f)"
  using planned_then [OF planned_reads, of m T f] by simp

lemma planned_then_read: "planned S m \<Longrightarrow> (\<And>a. does is_read (f a)) \<Longrightarrow> planned S (andthen m f)"
  using planned_then [of S m "{[]}" f] planned_reads by auto

lemma planned_more: "planned S m \<Longrightarrow> S \<subseteq> T \<Longrightarrow> planned T m"
  unfolding planned_def follows_plan_def by blast

lemma planned_asks:
  assumes "is_write c"
  shows "planned {[c]} (ask_value c)" "planned {[c]} (ask_raw c)"
proof -
  have one: "planned {[c]} (andthen (ask c) (\<lambda>r. give (f r)))" for f :: "reply \<Rightarrow> 'b res"
    using assms by (intro plannedI exI [of _ "[c]"]) (auto simp: andthen_def ask_def give_run follows_plan_def)
  show "planned {[c]} (ask_value c)" "planned {[c]} (ask_raw c)" by (simp_all add: ask_value_def ask_raw_def one)
qed

lemma planned_each:
  assumes "\<And>x. planned {[g x]} (f x)"
  shows "planned {map g xs} (each f xs)"
proof (induction xs)
  case Nil
  show ?case by (simp add: planned_reads does_give)
next
  case (Cons x xs)
  show ?case using planned_then [OF assms Cons.IH, of x] by simp
qed

text \<open>The plan: the tag, the draft, every file of the draft in order, the publication.\<close>

definition create_call :: "bool \<Rightarrow> pydict \<Rightarrow> call" where
  "create_call once payload = (if once then Add_release_once payload else Add_release payload)"

definition planned_writes :: "bool \<Rightarrow> string \<Rightarrow> string \<Rightarrow> (string \<times> string) list \<Rightarrow> bool \<Rightarrow> string \<Rightarrow> int \<Rightarrow> call list" where
  "planned_writes once tag sha files prerelease notes_text n =
     [Add_ref [(''ref'', PStr (''refs/tags/'' @ tag)), (''sha'', PStr sha)],
      create_call once (release_payload tag sha notes_text prerelease)] @
     map (\<lambda>(name, content). Send tag n name content) files @ [Edit_release n (publish_payload prerelease)]"

lemma read_simps [simp]:
  "is_read (Api p)" "is_read (Pages p f)" "is_read (Fetch p)" "is_read Tick" "is_read (Readback p)"
  "is_write (Add_ref d)" "is_write (Add_release d)" "is_write (Add_release_once d)" "is_write (Send t i n s)" "is_write (Edit_release i d)"
  by (simp_all add: is_write_def)

lemma asks_does_read: "does asks m \<Longrightarrow> does is_read m"
  by (erule does_more) (rule asks_read)

lemma refuse_existing_asks: "does asks (refuse_existing tag)"
  unfolding refuse_existing_def by (intro does_intros) simp_all

lemma fill_rest_reads: "does is_read (andthen (pages p f) (\<lambda>vs. andthen (give (check_uploaded files vs)) (\<lambda>items.
    each (\<lambda>item. verify_uploaded_asset sha256 item (content_of files item)) items)))"
  unfolding verify_uploaded_asset_def by (intro does_intros) simp_all

lemma upload_planned: "planned {[case item of (name, content) \<Rightarrow> Send tag n name content]} (upload tag n item)"
proof (cases item)
  case (Pair name content)
  show ?thesis
    unfolding upload_def Pair prod.case
    by (intro planned_read_then planned_then_read planned_asks(2) does_intros) simp
qed

lemma fill_planned: "planned {map (\<lambda>(name, content). Send tag n name content) files} (fill_draft sha256 tag n files)"
  unfolding fill_draft_def
  by (rule planned_then_read [OF planned_each [OF upload_planned] fill_rest_reads])

lemma finish_planned: "planned {[Edit_release n (publish_payload prerelease)]} (finish_release tag n prerelease)"
  unfolding finish_release_def by (intro planned_then_read planned_asks(1) does_intros) simp

lemma create_planned: "planned {[create_call (c \<noteq> None) payload]}
    (create_draft g payload (map_option (\<lambda>(b64, run, source, consumed). create_confirmation b64 run source consumed) c))"
proof (cases c)
  case None
  then show ?thesis by (simp add: create_draft_def create_call_def planned_asks)
next
  case (Some p)
  obtain b64 run source consumed where p: "p = (b64, run, source, consumed)" by (cases p) auto
  have reads: "does is_read (reconcile_created_release g payload (create_confirmation b64 run source consumed))"
    by (rule does_more [OF cc.reconcile_does]) (auto simp: is_readback_def is_write_def split: call.splits)
  show ?thesis
    unfolding create_draft_def Some p option.map prod.case option.case create_release_once_def create_call_def
    by (auto split: created.split intro!: planned_then_read planned_asks(2) does_intros reads)
qed

lemma automatic_reads: "does is_read (case map_option (\<lambda>(info, source). confirm_automatic_source g info source) a of
    None \<Rightarrow> done_with () | Some c \<Rightarrow> c)"
  by (cases a) (auto simp: confirm_automatic_source_def intro!: does_intros asks_does_read repository_info_asks)

lemma publish_planned:
  "planned (range (planned_writes (c \<noteq> None) tag sha files prerelease notes_text))
     (publish_prepared g sha256 tag sha files prerelease notes_text
        (map_option (\<lambda>(b64, run, source, consumed). create_confirmation b64 run source consumed) c)
        (map_option (\<lambda>(info, source). confirm_automatic_source g info source) a))"
proof -
  let ?ref = "Add_ref [(''ref'', PStr (''refs/tags/'' @ tag)), (''sha'', PStr sha)]"
  let ?create = "create_call (c \<noteq> None) (release_payload tag sha notes_text prerelease)"
  let ?rest = "\<lambda>n. map (\<lambda>(name, content). Send tag n name content) files @ [Edit_release n (publish_payload prerelease)]"
  have draft_made: "planned {[?ref, ?create]} (make_draft g tag sha prerelease notes_text
      (map_option (\<lambda>(b64, run, source, consumed). create_confirmation b64 run source consumed) c))"
    unfolding make_draft_def
    by (rule planned_more [OF planned_then [OF planned_asks(1) planned_then_read [OF create_planned]]])
      (auto intro!: does_intros)
  have opened: "planned {[?ref, ?create]} (open_draft g tag sha (map fst files) prerelease notes_text
      (map_option (\<lambda>(b64, run, source, consumed). create_confirmation b64 run source consumed) c))"
    unfolding open_draft_def
    by (rule planned_read_then [OF does_give planned_read_then [OF asks_does_read [OF refuse_existing_asks]
          planned_read_then [OF asks_does_read [OF check_workflow_publication_asks] draft_made]]])
  have rest: "planned (range ?rest) (andthen (fill_draft sha256 tag n files) (\<lambda>_.
      andthen (require_tag tag sha) (\<lambda>_.
      andthen (case map_option (\<lambda>(info, source). confirm_automatic_source g info source) a of None \<Rightarrow> done_with () | Some c \<Rightarrow> c)
        (\<lambda>_. finish_release tag n prerelease))))" for n
    by (rule planned_more [OF planned_then [OF fill_planned planned_read_then [OF _ planned_read_then [OF automatic_reads finish_planned]]]])
      (auto simp: require_tag_def intro!: does_intros)
  show ?thesis
    unfolding publish_prepared_def
    by (rule planned_more [OF planned_then [OF opened rest]]) (auto simp: planned_writes_def)
qed

section \<open>What was read before a publication\<close>

lemma answered_now: "w h c = r \<Longrightarrow> answered w (h @ [c]) c r"
  by (rule answered_here)

text \<open>A call that only the second part of a program makes.\<close>

lemma does_any: "does P m \<Longrightarrow> does (\<lambda>_. True) m"
  by (erule does_more) simp

lemma made_later:
  assumes "andthen m f w h = (r, h @ cs)" "c \<in> set cs" "does (\<lambda>c'. c' \<noteq> c) m" "\<And>a. does (\<lambda>_. True) (f a)"
  shows "\<exists>a h1 ds. m w h = (Inr a, h1) \<and> f a w h1 = (r, h1 @ ds) \<and> c \<in> set ds \<and> h @ cs = h1 @ ds"
proof -
  obtain x h1 where m: "m w h = (x, h1)" by (cases "m w h")
  from does_run [OF assms(3) m] obtain bs where bs: "h1 = h @ bs" "c \<notin> set bs" by (auto simp: list_all_iff)
  show ?thesis
  proof (cases x)
    case (Inl e)
    with assms(1) m have "cs = bs" using bs by (simp add: andthen_def)
    with assms(2) bs show ?thesis by simp
  next
    case (Inr a)
    with assms(1) m have f: "f a w h1 = (r, h @ cs)" by (simp add: andthen_def)
    from run_extends [OF assms(4) f] obtain ds where ds: "h @ cs = h1 @ ds" by blast
    with bs assms(2) have "c \<in> set ds" by auto
    with m Inr f ds show ?thesis by metis
  qed
qed

lemma each_run:
  "each f xs w h = (Inr u, h') \<Longrightarrow> (\<And>x. does P (f x)) \<Longrightarrow> x \<in> set xs \<Longrightarrow>
     \<exists>h1 h2 ds. f x w h1 = (Inr (), h2) \<and> h' = h2 @ ds"
proof (induction xs arbitrary: h)
  case (Cons y ys)
  from Cons.prems(1) obtain h1 where y: "f y w h = (Inr (), h1)" "each f ys w h1 = (Inr u, h')" by (auto simp: andthen_Inr)
  show ?case
  proof (cases "x = y")
    case True
    have "does P (each f ys)" by (intro does_intros Cons.prems(2))
    from run_extends [OF this y(2)] y(1) True show ?thesis by blast
  next
    case False
    with Cons y(2) show ?thesis by auto
  qed
qed simp

text \<open>An upload that was confirmed, and a file that was read back under the name of an asset.\<close>

definition sent :: "world \<Rightarrow> call list \<Rightarrow> string \<Rightarrow> int \<Rightarrow> string \<times> string \<Rightarrow> bool" where
  "sent w h tag n item =
     (\<exists>x. answered w h (Send tag n (fst item) (snd item)) (Response x) \<and> confirmed_upload (fst item) (snd item) x = Inr ())"

definition fetched :: "(string \<Rightarrow> string) \<Rightarrow> world \<Rightarrow> call list \<Rightarrow> string \<times> string \<Rightarrow> bool" where
  "fetched sha256 w h item =
     (\<exists>k got. answered w h (Fetch (asset_route k)) (Bytes got) \<and> stream_identity sha256 got = stream_identity sha256 (snd item))"

lemma sent_later: "sent w h tag n item \<Longrightarrow> sent w (h @ ds) tag n item"
  unfolding sent_def using answered_later by blast

lemma fetched_later: "fetched sha256 w h item \<Longrightarrow> fetched sha256 w (h @ ds) item"
  unfolding fetched_def using answered_later by blast

lemma ask_raw_Inr: "ask_raw c w h = (Inr x, h') \<longleftrightarrow> w h c = Response x \<and> h' = h @ [c]"
  by (auto simp: ask_raw_def andthen_Inr ask_def give_run split: reply.splits)

lemma upload_Inr:
  assumes "upload tag n item w h = (Inr (), h')"
  shows "sent w h' tag n item"
proof (cases item)
  case (Pair name content)
  with assms obtain x where x: "w h (Send tag n name content) = Response x" "h' = h @ [Send tag n name content]"
      "confirmed_upload name content x = Inr ()"
    by (auto simp: upload_def andthen_Inr give_run ask_raw_Inr)
  with answered_now [of w h "Send tag n name content"] show ?thesis unfolding sent_def Pair by auto
qed

lemma verify_Inr:
  assumes "verify_uploaded_asset sha256 item content w h = (Inr (), h')"
  shows "fetched sha256 w h' (name, content)"
proof -
  from assms obtain k got where "w h (Fetch (asset_route k)) = Bytes got" "h' = h @ [Fetch (asset_route k)]"
      "stream_identity sha256 got = stream_identity sha256 content"
    by (auto simp: verify_uploaded_asset_def andthen_Inr give_run download_asset_def ask_bytes_Inr)
  then show ?thesis unfolding fetched_def using answered_now by fastforce
qed

lemma check_uploaded_Inr:
  assumes "check_uploaded files vs = Inr items" "(name, content) \<in> set files" "distinct (map fst files)"
  shows "\<exists>item\<in>set items. content_of files item = content"
proof -
  from assms(1) obtain names where n: "traverse item_name items = Inr names" "set names = set (map (PStr \<circ> fst) files)"
    by (auto simp: check_uploaded_def rbind_Inr_iff)
  have traverse_set: "traverse item_name xs = Inr ys \<Longrightarrow> y \<in> set ys \<Longrightarrow> \<exists>x\<in>set xs. item_name x = Inr y" for xs ys y
    by (induction xs arbitrary: ys) (auto simp: rbind_Inr_iff)
  from assms(2) n(2) have "PStr name \<in> set names" by force
  from traverse_set [OF n(1) this] obtain item where i: "item \<in> set items" "item_name item = Inr (PStr name)" by blast
  then have "dget item ''name'' = PStr name" by (auto simp: item_name_def split: pyval.splits)
  moreover have "map_of files name = Some content" using assms(2,3) by simp
  ultimately have "content_of files item = content" by (simp add: content_of_def)
  with i(1) show ?thesis by blast
qed

lemma upload_does: "does is_write (upload tag n item)"
  unfolding upload_def by (cases item) (auto intro!: does_intros)

lemma verify_does: "does (\<lambda>c. is_read c) (verify_uploaded_asset sha256 item content)"
  unfolding verify_uploaded_asset_def by (intro does_intros) simp

lemma fill_draft_Inr:
  assumes "fill_draft sha256 tag n files w h = (Inr u, h')" "distinct (map fst files)" "item \<in> set files"
  shows "sent w h' tag n item \<and> fetched sha256 w h' item"
proof -
  obtain name content where item: "item = (name, content)" by (cases item)
  from assms(1) obtain h1 vs h2 items where up: "each (upload tag n) files w h = (Inr (), h1)"
    and p: "pages (release_path n @ ''/assets'') [] w h1 = (Inr vs, h2)" and c: "check_uploaded files vs = Inr items"
    and v: "each (\<lambda>item. verify_uploaded_asset sha256 item (content_of files item)) items w h2 = (Inr (), h')"
    unfolding fill_draft_def by (auto simp: andthen_Inr give_run)
  have "does is_read (each (\<lambda>item. verify_uploaded_asset sha256 item (content_of files item)) items)"
    by (intro does_intros verify_does)
  from run_extends [OF this v] obtain bs where bs: "h' = h2 @ bs" by blast
  from each_run [OF up upload_does assms(3)] upload_Inr obtain h3 ds where "sent w h3 tag n item" "h1 = h3 @ ds" by blast
  then have "sent w h' tag n item" using sent_later p bs by (simp add: pages_Inr)
  moreover from check_uploaded_Inr [OF c assms(3) [unfolded item] assms(2)] obtain i
    where i: "i \<in> set items" "content_of files i = content" by blast
  from each_run [OF v verify_does i(1)] obtain h4 h5 ds
    where "verify_uploaded_asset sha256 i (content_of files i) w h4 = (Inr (), h5)" "h' = h5 @ ds" by blast
  then have "fetched sha256 w h' item" using verify_Inr i(2) fetched_later unfolding item by blast
  ultimately show ?thesis by blast
qed

text \<open>What the check of the tag saw last.\<close>

definition tag_at :: "world \<Rightarrow> call list \<Rightarrow> string \<Rightarrow> string \<Rightarrow> bool" where
  "tag_at w h tag sha =
     (\<exists>v. answered w h (Api (''git/ref/tags/'' @ quote_url tag)) (Value v) \<and> commit_at (''refs/tags/'' @ tag) v = Some sha)"

lemma require_tag_Inr: "require_tag tag sha w h = (Inr u, h') \<Longrightarrow> tag_at w h' tag sha"
  unfolding require_tag_def tag_at_def andthen_Inr api_Inr using answered_now by (fastforce simp: give_run)

text \<open>Nothing of the tag existed.\<close>

definition missing :: "reply \<Rightarrow> bool" where
  "missing r = (r = Refused (HttpStatus 404) \<or> r = Value PNone)"

definition was_absent :: "world \<Rightarrow> call list \<Rightarrow> string \<Rightarrow> bool" where
  "was_absent w h tag =
     ((\<exists>r. missing r \<and> answered w h (Api (''git/ref/tags/'' @ quote_url tag)) r) \<and>
      (\<exists>r. missing r \<and> answered w h (Api (''releases/tags/'' @ quote_url tag)) r) \<and>
      (\<exists>ps vs. answered w h (Pages ''releases'' []) (Value (PList ps)) \<and> page_records [] ps = Inr vs \<and>
         (\<forall>v\<in>set vs. dget (as_dict v) ''tag_name'' \<noteq> PStr tag)))"

lemma absent_later: "was_absent w h tag \<Longrightarrow> was_absent w (h @ ds) tag"
  unfolding was_absent_def using answered_later by blast

lemma optional_None:
  assumes "optional path w h = (Inr PNone, h')"
  shows "\<exists>r. missing r \<and> answered w h' (Api path) r"
proof -
  from assms have "h' = h @ [Api path]" "missing (w h (Api path))"
    by (auto simp: optional_def recover_def api_def andthen_def give_run ensure_def ask_value_def ask_def missing_def
        split: if_splits reply.splits)
  with answered_now show ?thesis by blast
qed

lemma draft_exists_False: "draft_exists tag vs = Inr False \<Longrightarrow> v \<in> set vs \<Longrightarrow> dget (as_dict v) ''tag_name'' \<noteq> PStr tag"
proof (induction vs)
  case (Cons u us)
  then show ?case by (cases u) (auto simp: as_dict_def split: if_splits)
qed simp

lemma refuse_existing_Inr:
  assumes "refuse_existing tag w h = (Inr u, h')"
  shows "was_absent w h' tag"
proof -
  from assms obtain h1 h2 vs where a: "optional (''git/ref/tags/'' @ quote_url tag) w h = (Inr PNone, h1)"
    and b: "optional (''releases/tags/'' @ quote_url tag) w h1 = (Inr PNone, h2)"
    and c: "pages ''releases'' [] w h2 = (Inr vs, h')" "draft_exists tag vs = Inr False"
    unfolding refuse_existing_def by (auto simp: andthen_Inr give_run)
  have d: "does asks (optional p)" for p by (intro does_intros) simp
  from run_extends [OF d b] obtain bs where bs: "h2 = h1 @ bs" by blast
  from c(1) obtain ps where ps: "w h2 (Pages ''releases'' []) = Value (PList ps)" "page_records [] ps = Inr vs"
      "h' = h2 @ [Pages ''releases'' []]" by (auto simp: pages_Inr)
  have "answered w h' (Pages ''releases'' []) (Value (PList ps))" unfolding ps(3) by (rule answered_now) (rule ps(1))
  moreover have "\<exists>r. missing r \<and> answered w h' (Api (''git/ref/tags/'' @ quote_url tag)) r"
    using optional_None [OF a] answered_later unfolding ps(3) bs by blast
  moreover have "\<exists>r. missing r \<and> answered w h' (Api (''releases/tags/'' @ quote_url tag)) r"
    using optional_None [OF b] answered_later unfolding ps(3) by blast
  ultimately show ?thesis unfolding was_absent_def using ps(2) draft_exists_False [OF c(2)] by blast
qed

section \<open>The order of the writes\<close>

text \<open>
  C33: a publication writes in one fixed order and repeats nothing: the tag, one draft, each staged file once in the order of
  the names, and last the change that makes the release public. Whatever GitHub answers and wherever the run
  fails, its writes are a prefix of this sequence; an ambiguous answer to the create is never replayed. A run
  that succeeds made all of them.
\<close>

theorem publication_writes_in_order:
  assumes "publish_plan g cd tag sha files channel notes_text info run source consumed w h = (r, h @ cs)"
  shows "\<exists>n. prefix (filter is_write cs) (planned_writes True tag sha files (channel \<noteq> ''stable'') notes_text n) \<and>
    (is_ok r \<longrightarrow> filter is_write cs = planned_writes True tag sha files (channel \<noteq> ''stable'') notes_text n)"
proof -
  have "planned (range (planned_writes True tag sha files (channel \<noteq> ''stable'') notes_text))
      (publish_prepared g (cd_sha256 cd) tag sha files (channel \<noteq> ''stable'') notes_text
        (Some (create_confirmation (cd_base64 cd) run source consumed))
        (if auto then Some (confirm_automatic_source g info source) else None))" for auto
    using publish_planned [of "Some (cd_base64 cd, run, source, consumed)" tag sha files "channel \<noteq> ''stable''" notes_text g
      "cd_sha256 cd" "if auto then Some (info, source) else None"] by (cases auto) simp_all
  then have "planned (range (planned_writes True tag sha files (channel \<noteq> ''stable'') notes_text))
      (publish_plan g cd tag sha files channel notes_text info run source consumed)"
    unfolding publish_plan_def by (intro planned_read_then does_intros)
  from planned_run [OF this assms] show ?thesis by (auto simp: follows_plan_def)
qed

section \<open>Nothing unverified is published\<close>

definition before_edit :: "call \<Rightarrow> bool" where
  "before_edit c = (case c of Edit_release _ _ \<Rightarrow> False | _ \<Rightarrow> True)"

lemma before_edit_simps [simp]:
  "before_edit (Api p)" "before_edit (Pages p f)" "before_edit (Fetch p)" "before_edit Tick" "before_edit (Readback p)"
  "before_edit (Add_ref d)" "before_edit (Add_release d)" "before_edit (Add_release_once d)" "before_edit (Send t i n s)"
  by (simp_all add: before_edit_def)

lemma asks_before_edit: "does asks m \<Longrightarrow> does before_edit m"
  by (erule does_more) (auto simp: asks_def before_edit_def split: call.splits)

lemma create_before_edit: "does before_edit (create_draft g payload (Some (create_confirmation b64 run source consumed)))"
proof -
  have "does before_edit (reconcile_created_release g payload (create_confirmation b64 run source consumed))"
    by (rule does_more [OF cc.reconcile_does]) (auto simp: is_readback_def before_edit_def split: call.splits)
  then show ?thesis
    by (auto simp: create_draft_def create_release_once_def split: created.split intro!: does_intros)
qed

lemma make_before_edit:
  "does before_edit (make_draft g tag sha prerelease notes_text (Some (create_confirmation b64 run source consumed)))"
  unfolding make_draft_def by (intro does_intros create_before_edit) simp

lemma open_before_edit:
  "does before_edit (open_draft g tag sha names prerelease notes_text (Some (create_confirmation b64 run source consumed)))"
  unfolding open_draft_def
  by (intro does_intros make_before_edit asks_before_edit [OF refuse_existing_asks] asks_before_edit [OF check_workflow_publication_asks])

lemma fill_before_edit: "does before_edit (fill_draft sha256 tag n files)"
  unfolding fill_draft_def verify_uploaded_asset_def upload_def by (auto intro!: does_intros)

lemma require_tag_before_edit: "does before_edit (require_tag tag sha)"
  unfolding require_tag_def by (intro does_intros) simp

lemma automatic_asks: "does asks (confirm_automatic_source g info source)"
  unfolding confirm_automatic_source_def by (intro does_intros) simp

definition confirmation :: "github \<Rightarrow> pydict \<Rightarrow> string \<times> pyval \<Rightarrow> bool \<Rightarrow> unit io" where
  "confirmation g info source auto = (if auto then confirm_automatic_source g info source else done_with ())"

lemma confirmation_before_edit: "does before_edit (confirmation g info source auto)"
  by (simp add: confirmation_def does_give asks_before_edit automatic_asks)

lemma no_edit: "does before_edit m \<Longrightarrow> does (\<lambda>c'. c' \<noteq> Edit_release n e) m"
  by (erule does_more) (auto simp: before_edit_def)

lemma open_draft_Inr:
  assumes "open_draft g tag sha names prerelease notes_text (Some (create_confirmation b64 run source consumed)) w h = (Inr n, h')"
  shows "was_absent w h' tag"
proof -
  let ?made = "make_draft g tag sha prerelease notes_text (Some (create_confirmation b64 run source consumed))"
  from assms obtain u h1 where a: "refuse_existing tag w h = (Inr u, h1)"
    and b: "andthen (check_workflow_publication g sha) (\<lambda>_. ?made) w h1 = (Inr n, h')"
    unfolding open_draft_def by (auto simp: andthen_Inr give_run)
  have "does before_edit (andthen (check_workflow_publication g sha) (\<lambda>_. ?made))"
    by (intro does_intros make_before_edit asks_before_edit [OF check_workflow_publication_asks])
  from run_extends [OF this b] refuse_existing_Inr [OF a] absent_later show ?thesis by blast
qed

lemma confirmation_Inr:
  assumes "confirmation g info source True w h = (Inr u, h')"
  shows "\<exists>v. answered w h' (Api (fst source)) (Value v) \<and> same_json v (snd source)"
proof -
  from assms obtain v h1 where "w h1 (Api (fst source)) = Value v" "h' = h1 @ [Api (fst source)]" "same_json v (snd source)"
    by (auto simp: confirmation_def confirm_automatic_source_def andthen_Inr give_run api_Inr)
  with answered_now [of w h1 "Api (fst source)"] show ?thesis by blast
qed

lemma finish_calls:
  assumes "finish_release tag m prerelease w h = (r, h @ cs)"
  shows "cs = [Edit_release m (publish_payload prerelease)]"
  using assms
  by (auto simp: finish_release_def andthen_def ask_value_def ask_def give_run split: reply.splits sum.splits prod.splits)

lemma publish_evidence:
  assumes "publish_prepared g sha256 tag sha files prerelease notes_text (Some (create_confirmation b64 run source consumed))
      (if auto then Some (confirm_automatic_source g info source) else None) w h = (r, h @ cs)"
    and edit: "Edit_release n e \<in> set cs" and files: "distinct (map fst files)"
  shows "\<exists>h1. h @ cs = h1 @ [Edit_release n e] \<and> e = publish_payload prerelease \<and> was_absent w h1 tag \<and> tag_at w h1 tag sha \<and>
    (\<forall>item\<in>set files. sent w h1 tag n item \<and> fetched sha256 w h1 item) \<and>
    (auto \<longrightarrow> (\<exists>v. answered w h1 (Api (fst source)) (Value v) \<and> same_json v (snd source)))"
proof -
  have c: "(case if auto then Some (confirm_automatic_source g info source) else None of None \<Rightarrow> done_with () | Some c \<Rightarrow> c) =
      confirmation g info source auto" by (simp add: confirmation_def)
  have finish: "does (\<lambda>_. True) (finish_release tag m prerelease)" for m
    unfolding finish_release_def by (intro does_intros) simp
  note run = assms(1) [unfolded publish_prepared_def c]
  note free = no_edit [OF open_before_edit] no_edit [OF fill_before_edit] no_edit [OF require_tag_before_edit]
    no_edit [OF confirmation_before_edit]
  have ext: "does (\<lambda>_. True) (andthen (confirmation g info source auto) (\<lambda>_. finish_release tag m prerelease))"
    "does (\<lambda>_. True) (andthen (require_tag tag sha) (\<lambda>_. andthen (confirmation g info source auto) (\<lambda>_. finish_release tag m prerelease)))"
    "does (\<lambda>_. True) (andthen (fill_draft sha256 tag m files) (\<lambda>_. andthen (require_tag tag sha) (\<lambda>_.
       andthen (confirmation g info source auto) (\<lambda>_. finish_release tag m prerelease))))" for m
    by (intro does_andthen finish does_any [OF fill_before_edit] does_any [OF require_tag_before_edit]
        does_any [OF confirmation_before_edit])+
  from made_later [OF run edit free(1) ext(3)] obtain m h1 c1 where 1: "open_draft g tag sha (map fst files) prerelease notes_text
      (Some (create_confirmation b64 run source consumed)) w h = (Inr m, h1)"
    and r1: "andthen (fill_draft sha256 tag m files) (\<lambda>_. andthen (require_tag tag sha) (\<lambda>_.
       andthen (confirmation g info source auto) (\<lambda>_. finish_release tag m prerelease))) w h1 = (r, h1 @ c1)"
      "Edit_release n e \<in> set c1" "h @ cs = h1 @ c1" by blast
  from made_later [OF r1(1,2) free(2) ext(2)] obtain u h2 c2 where 2: "fill_draft sha256 tag m files w h1 = (Inr u, h2)"
    and r2: "andthen (require_tag tag sha) (\<lambda>_. andthen (confirmation g info source auto) (\<lambda>_. finish_release tag m prerelease)) w h2
       = (r, h2 @ c2)" "Edit_release n e \<in> set c2" "h1 @ c1 = h2 @ c2" by blast
  from made_later [OF r2(1,2) free(3) ext(1)] obtain u3 h3 c3 where 3: "require_tag tag sha w h2 = (Inr u3, h3)"
    and r3: "andthen (confirmation g info source auto) (\<lambda>_. finish_release tag m prerelease) w h3 = (r, h3 @ c3)"
      "Edit_release n e \<in> set c3" "h2 @ c2 = h3 @ c3" by blast
  from made_later [OF r3(1,2) free(4) finish] obtain u4 h4 c4 where 4: "confirmation g info source auto w h3 = (Inr u4, h4)"
    and r4: "finish_release tag m prerelease w h4 = (r, h4 @ c4)" "Edit_release n e \<in> set c4" "h3 @ c3 = h4 @ c4" by blast
  from finish_calls [OF r4(1)] r4(2) have e: "c4 = [Edit_release n e]" "m = n" "e = publish_payload prerelease" by auto
  from run_extends [OF fill_before_edit 2] obtain b2 where b2: "h2 = h1 @ b2" by blast
  from run_extends [OF require_tag_before_edit 3] obtain b3 where b3: "h3 = h2 @ b3" by blast
  from run_extends [OF confirmation_before_edit 4] obtain b4 where b4: "h4 = h3 @ b4" by blast
  have absent: "was_absent w h4 tag" unfolding b4 b3 b2 by (intro absent_later open_draft_Inr [OF 1])
  have tag: "tag_at w h4 tag sha" using require_tag_Inr [OF 3] answered_later unfolding tag_at_def b4 by blast
  have items: "sent w h4 tag n item \<and> fetched sha256 w h4 item" if "item \<in> set files" for item
    using fill_draft_Inr [OF 2 files that] unfolding b4 b3 e(2) by (blast intro: sent_later fetched_later)
  have source: "auto \<longrightarrow> (\<exists>v. answered w h4 (Api (fst source)) (Value v) \<and> same_json v (snd source))"
    using confirmation_Inr [of g info source w h3 u4 h4] 4 by (cases auto) auto
  have "h @ cs = h4 @ [Edit_release n e]" using r1(3) r2(3) r3(3) r4(3) e(1) by simp
  with absent tag items source e(3) show ?thesis by blast
qed


section \<open>A reconciled draft\<close>

definition read_back :: "world \<Rightarrow> call list \<Rightarrow> string \<Rightarrow> pyval \<Rightarrow> bool" where
  "read_back w h path v =
     (\<exists>x links. answered w h (Readback path) (Response x) \<and> \<not> rw_timeout x \<and> rw_code x = 0 \<and> rw_http x = Some (200, links, Parsed v))"

lemma read_back_later: "read_back w h path v \<Longrightarrow> read_back w (h @ ds) path v"
  unfolding read_back_def using answered_later by blast

lemma readback_check_Inr: "readback_check rb w h = (Inr u, h') \<Longrightarrow> h' = h @ [Tick]"
  by (auto simp: readback_check_def andthen_Inr give_run tick_Inr)

lemma readback_json_Inr:
  assumes "readback_json path rb w h = (Inr (v, rb'), h')"
  shows "read_back w h' path v"
proof -
  from assms obtain x links h1 h2 rb2 where x: "w h1 (Readback path) = Response x" "\<not> rw_timeout x"
      "h' = (h1 @ [Readback path]) @ [Tick]" "readback_answer x rb2 = Inr ((v, links), rb')"
    unfolding readback_json_def readback_get_def Let_def
    by (auto simp: andthen_Inr give_run ask_raw_Inr dest!: readback_check_Inr)
  then have "rw_code x = 0" "rw_http x = Some (200, links, Parsed v)"
    by (auto simp: readback_answer_def rbind_Inr_iff split: option.splits body.splits)
  moreover have "answered w ((h1 @ [Readback path]) @ [Tick]) (Readback path) (Response x)"
    by (rule answered_later, rule answered_now, rule x(1))
  ultimately show ?thesis using x(2) unfolding read_back_def x(3) by blast
qed

lemma metered_extends: "metered rb m \<Longrightarrow> rb_calls rb \<le> 100 \<Longrightarrow> m w h = (r, h') \<Longrightarrow> \<exists>cs. h' = h @ cs"
  using meteredD by blast

lemma readback_json_calls: "readback_json path rb w h = (Inr (v, rb'), h') \<Longrightarrow> rb_calls rb' \<le> 100"
  unfolding readback_json_def by (auto simp: andthen_Inr give_run dest!: readback_get_calls)

lemma reconcile_last_Inr:
  "reconcile_last g payload confirm n release rb w h = (Inr (d, rb'), h') \<Longrightarrow> \<exists>v. checked_release g payload n v = Inr d"
  unfolding reconcile_last_def by (auto simp: andthen_Inr give_run)

lemma checked_release_value: "checked_release g payload n v = Inr d \<Longrightarrow> v = PDict d"
  by (auto simp: checked_release_def object_of_def rbind_Inr_iff split: pyval.splits)

lemma reconcile_from_Inr:
  assumes "reconcile_from g payload (create_confirmation b64 run source consumed) rb w h = (Inr (d, rb'), h')"
  shows "\<exists>n tag ref. checked_release g payload n (PDict d) = Inr d \<and> text_of (dget payload ''tag_name'') = Inr tag \<and>
    tag_source payload ref = Inr () \<and> read_back w h' (''git/ref/tags/'' @ tag) ref"
proof -
  from assms obtain n release tag ref rb5 rb6 h5 h6 where t: "text_of (dget payload ''tag_name'') = Inr tag" "tag_source payload ref = Inr ()"
    and j: "readback_json (''git/ref/tags/'' @ tag) rb5 w h5 = (Inr (ref, rb6), h6)"
    and e: "reconcile_last g payload (create_confirmation b64 run source consumed) n release rb6 w h6 = (Inr (d, rb'), h')"
    unfolding reconcile_from_def by (auto simp: andthen_Inr give_run)
  from reconcile_last_Inr [OF e] checked_release_value have c: "checked_release g payload n (PDict d) = Inr d" by blast
  from meteredD [OF cc.last_metered readback_json_calls [OF j] e] obtain ds where "h' = h6 @ ds" by blast
  with readback_json_Inr [OF j] read_back_later have "read_back w h' (''git/ref/tags/'' @ tag) ref" by blast
  with c t show ?thesis by blast
qed

text \<open>
  C34: after a create with an unknown outcome the run only reads, with at most a hundred calls, whether it succeeds or not.
  If it goes on with a release, this is a draft that matches the exact request in every field, unpublished and
  without assets, and the tag was read to point at the source commit.
\<close>

theorem reconciliation_only_reads:
  "\<exists>cs. snd (reconcile_created_release g payload (create_confirmation b64 run source consumed) w h) = h @ cs \<and>
     list_all (\<lambda>c. c = Tick \<or> is_readback c) cs \<and> readbacks cs \<le> 100 \<and>
     (\<forall>d. fst (reconcile_created_release g payload (create_confirmation b64 run source consumed) w h) = Inr d \<longrightarrow>
       (\<exists>n tag ref. checked_release g payload n (PDict d) = Inr d \<and> text_of (dget payload ''tag_name'') = Inr tag \<and>
          tag_source payload ref = Inr () \<and> read_back w (h @ cs) (''git/ref/tags/'' @ tag) ref))"
proof -
  let ?m = "reconcile_created_release g payload (create_confirmation b64 run source consumed)"
  from cc.reconcile_calls obtain cs where cs: "snd (?m w h) = h @ cs"
    "list_all (\<lambda>c. c = Tick \<or> is_readback c) cs" "readbacks cs \<le> 100" by blast
  have "\<exists>n tag ref. checked_release g payload n (PDict d) = Inr d \<and> text_of (dget payload ''tag_name'') = Inr tag \<and>
      tag_source payload ref = Inr () \<and> read_back w (h @ cs) (''git/ref/tags/'' @ tag) ref" if "fst (?m w h) = Inr d" for d
  proof -
    from that cs(1) have "?m w h = (Inr d, h @ cs)" by (simp add: prod_eq_iff)
    then obtain rb rb' h1 where
      "reconcile_from g payload (create_confirmation b64 run source consumed) rb w h1 = (Inr (d, rb'), h @ cs)"
      unfolding reconcile_created_release_def by (auto simp: andthen_Inr give_run)
    from reconcile_from_Inr [OF this] show ?thesis .
  qed
  with cs show ?thesis by blast
qed

section \<open>A publication with a lost answer\<close>

text \<open>Equations that unfold a loop only where it is run.\<close>

lemma readback_pages_code [code]:
  "readback_pages_from 0 g path page seen rb w h = (Inl OtherError, h)"
  "readback_pages_from (Suc k) g path page seen rb w h = readback_round (readback_pages_from k g path) g path page seen rb w h"
  by (simp_all add: give_run)

lemma readback_pages_run [code]: "readback_pages g path rb w h = readback_pages_from 101 g path 1 [] rb w h"
  by (simp add: readback_pages_def)

definition demo_hub_github :: github where
  "demo_hub_github = \<lparr>gi_repo = ''o/r'', gi_scope = True\<rparr>"

definition demo_hub_codec :: codec where
  "demo_hub_codec = \<lparr>cd_base64 = Inr, cd_sha1 = (\<lambda>s. s), cd_sha256 = (\<lambda>s. s), cd_parse = (\<lambda>s. Inr (PStr s))\<rparr>"

definition demo_tag :: string where "demo_tag = ''v1.0.0-beta.1''"

definition demo_files :: "(string \<times> string) list" where
  "demo_files = [(''a.zip'', ''data'')]"

definition demo_ref :: "string \<Rightarrow> pyval" where
  "demo_ref full = PDict [(''ref'', PStr full), (''object'', PDict [(''type'', PStr ''commit''), (''sha'', PStr demo_sha)])]"

definition demo_push :: pydict where
  "demo_push =
     [(''id'', PInt 7), (''run_attempt'', PInt 2), (''status'', PStr ''in_progress''), (''head_sha'', PStr demo_sha),
      (''path'', PStr WORKFLOW), (''event'', PStr ''push'')]"

definition demo_draft :: pydict where
  "demo_draft =
     release_payload demo_tag demo_sha ''text'' True @
     [(''id'', PInt 5), (''url'', PStr (release_url demo_hub_github 5)), (''published_at'', PNone), (''assets'', PList []),
      (''author'', PDict [(''id'', PInt 1)])]"

definition demo_readback :: "string \<Rightarrow> pyval" where
  "demo_readback p =
     (case map_of
        [(''actions/runs/7/attempts/2'', PDict demo_push), ('''', PDict demo_info),
         (''git/ref/heads/main'', demo_ref ''refs/heads/main''),
         (''contents/release-version-state.json?ref=release-version-state'',
            PDict [(''type'', PStr ''file''), (''encoding'', PStr ''base64''), (''content'', PStr ''ledger'')]),
         (''releases?per_page=100&page=1'', PList [PDict demo_draft]), (''releases/5'', PDict demo_draft),
         (''releases/5/assets?per_page=100&page=1'', PList []),
         (''git/ref/tags/v1.0.0-beta.1'', demo_ref ''refs/tags/v1.0.0-beta.1'')] p of
        None \<Rightarrow> PNone | Some v \<Rightarrow> v)"

definition demo_raw :: "bool \<Rightarrow> int \<Rightarrow> pyval \<Rightarrow> raw" where
  "demo_raw lost status v =
     \<lparr>rw_timeout = lost, rw_size = 1, rw_code = 0, rw_http = Some (status, [], Parsed v), rw_denied = False, rw_transport = False\<rparr>"

definition demo_hub :: world where
  "demo_hub h c =
     (case c of
        Tick \<Rightarrow> Instant 0
      | Readback p \<Rightarrow> Response (demo_raw False 200 (demo_readback p))
      | Api p \<Rightarrow>
          if p = '''' then Value (PDict demo_info)
          else if p = ''git/ref/heads/main'' then Value (demo_ref ''refs/heads/main'')
          else if p = ''git/ref/tags/v1.0.0-beta.1'' \<and> list_ex is_write h then Value (demo_ref ''refs/tags/v1.0.0-beta.1'')
          else Refused (HttpStatus 404)
      | Pages p f \<Rightarrow>
          Value (PList [PList (if p = ''releases'' then [] else [PDict
            [(''id'', PInt 9), (''name'', PStr ''a.zip''), (''state'', PStr ''uploaded''), (''size'', PInt 4)]])])
      | Add_ref d \<Rightarrow> Value PNone
      | Add_release_once d \<Rightarrow> Response (demo_raw True 201 PNone)
      | Send t n name content \<Rightarrow>
          Response (demo_raw False 201 (PDict
            [(''id'', PInt 9), (''name'', PStr name), (''state'', PStr ''uploaded''), (''size'', PInt (int (length content)))]))
      | Fetch p \<Rightarrow> Bytes ''data''
      | Edit_release n e \<Rightarrow> Value (PDict (e @ [(''tag_name'', PStr demo_tag)]))
      | _ \<Rightarrow> Refused OtherError)"

definition demo_source :: "string \<times> pyval" where
  "demo_source = (''git/ref/heads/main'', demo_ref ''refs/heads/main'')"

definition demo_publication :: "pydict res \<times> call list" where
  "demo_publication =
     publish_plan demo_hub_github demo_hub_codec demo_tag demo_sha demo_files ''beta'' ''text'' demo_info demo_push demo_source ''ledger'' demo_hub []"

lemma demo_reconciles:
  "fst (reconcile_created_release demo_hub_github (release_payload demo_tag demo_sha ''text'' True)
     (create_confirmation (cd_base64 demo_hub_codec) demo_push demo_source ''ledger'') demo_hub []) = Inr demo_draft"
  by code_simp

lemma demo_publication_runs:
  "fst demo_publication = Inr (publish_payload True @ [(''tag_name'', PStr demo_tag)])"
  "filter is_write (snd demo_publication) = planned_writes True demo_tag demo_sha demo_files True ''text'' 5"
  by code_simp+

lemma publication_writes_in_order_witness:
  "\<exists>n. filter is_write (snd demo_publication) = planned_writes True demo_tag demo_sha demo_files True ''text'' n"
proof -
  have "publish_plan demo_hub_github demo_hub_codec demo_tag demo_sha demo_files ''beta'' ''text'' demo_info demo_push demo_source
      ''ledger'' demo_hub [] = (Inr (publish_payload True @ [(''tag_name'', PStr demo_tag)]), [] @ snd demo_publication)"
    using demo_publication_runs(1) by (simp add: demo_publication_def prod_eq_iff)
  from publication_writes_in_order [OF this] show ?thesis by auto
qed


lemma reconciliation_only_reads_witness:
  "\<exists>cs n ref. checked_release demo_hub_github (release_payload demo_tag demo_sha ''text'' True) n (PDict demo_draft) = Inr demo_draft \<and>
     read_back demo_hub cs ''git/ref/tags/v1.0.0-beta.1'' ref"
proof -
  from reconciliation_only_reads [of demo_hub_github "release_payload demo_tag demo_sha ''text'' True" "cd_base64 demo_hub_codec"
      demo_push demo_source "''ledger''" demo_hub "[]"] demo_reconciles
  obtain cs n tag ref where "checked_release demo_hub_github (release_payload demo_tag demo_sha ''text'' True) n (PDict demo_draft) = Inr demo_draft"
    "text_of (dget (release_payload demo_tag demo_sha ''text'' True) ''tag_name'') = Inr tag"
    "read_back demo_hub cs (''git/ref/tags/'' @ tag) ref" by auto
  moreover from this(2) have "tag = ''v1.0.0-beta.1''" by (simp add: release_payload_def text_of_def demo_tag_def)
  ultimately show ?thesis by auto
qed

end
