(* ===== verification/Promotion.thy ===== *)
theory Promotion
  imports Publication "HOL-Library.Char_ord" "HOL-Library.List_Lexorder"
begin

text \<open>
  \<^verbatim>\<open>promote\<close> of \<^verbatim>\<open>scripts/release_control.py\<close>: an accepted release candidate becomes the stable release, with the same
  bytes. Here are the manifest of a candidate and its checks, the snapshot of a published release, the evidence
  kept by Actions, the ledger operations of \<open>Release_State\<close> as programs, and the whole command. Canonical JSON, Base64
  encoding, the reader of ZIP archives, the UTF-8 decoder and the digest of a policy are parameters. This repository
  does not require signatures, so \<^verbatim>\<open>verify_required_signatures\<close> returns at once.
\<close>

record library = codec +
  lb_json :: "pyval \<Rightarrow> string"
  lb_encode :: "string \<Rightarrow> string"
  lb_zip :: "string \<Rightarrow> (string \<times> int \<times> string) list res"
  lb_utf8 :: "string \<Rightarrow> string res"
  lb_policy :: "pyval \<Rightarrow> string res"

definition digest :: "library \<Rightarrow> string \<Rightarrow> string" where
  "digest lb raw = cd_sha256 lb raw"

definition MANIFEST_NAME :: string where "MANIFEST_NAME = ''release-manifest.json''"

section \<open>The manifest\<close>

text \<open>\<^verbatim>\<open>_validate_manifest_assets\<close>; \<open>seen\<close> are the folded names so far.\<close>

definition folded :: "string \<Rightarrow> string" where
  "folded s = lower s"

fun check_assets :: "string list \<Rightarrow> pyval list \<Rightarrow> unit res" where
  "check_assets seen [] = Inr ()"
| "check_assets seen (v # vs) =
     rbind (object_of v) (\<lambda>item.
     case dget item ''name'' of
       PStr name \<Rightarrow>
         rbind (ensure (asset_name name \<and> folded name \<noteq> folded MANIFEST_NAME)) (\<lambda>_.
         rbind (ensure (folded name \<notin> set seen)) (\<lambda>_.
         rbind (ensure (case dget item ''size'' of PInt n \<Rightarrow> 0 \<le> n | _ \<Rightarrow> False)) (\<lambda>_.
         rbind (ensure (case dget item ''sha256'' of PStr s \<Rightarrow> digest_text s | _ \<Rightarrow> False)) (\<lambda>_.
         check_assets (folded name # seen) vs))))
     | _ \<Rightarrow> Inl RuntimeError)"

definition validate_manifest_assets :: "pydict \<Rightarrow> unit res" where
  "validate_manifest_assets m =
     (case dget m ''assets'' of
        PList vs \<Rightarrow> rbind (ensure (vs \<noteq> [])) (\<lambda>_. check_assets [] vs)
      | _ \<Rightarrow> Inl RuntimeError)"

definition policy_of :: "pydict \<Rightarrow> pydict" where
  "policy_of m = as_dict (dget (as_dict (dget m ''source_policy'')) ''data'')"

definition validate_manifest_plan :: "library \<Rightarrow> pydict \<Rightarrow> string \<Rightarrow> unit res" where
  "validate_manifest_plan lb m base =
     rbind (validate_plan (lb_policy lb) (dget m ''version_plan'') (Some (PDict (policy_of m))) (Some (dget m ''source_sha''))) (\<lambda>plan.
     ensure (same_json (dget plan ''tag'') (dget m ''tag'') \<and> same_json (dget plan ''channel'') (dget m ''channel'') \<and>
             dget plan ''base_version'' = PStr base \<and> dget m ''plan_sha256'' = PStr (digest lb (lb_json lb (PDict plan)))))"

text \<open>\<^verbatim>\<open>validate_fuzz_manifest\<close> and \<^verbatim>\<open>validate_validation_manifest\<close>; a profile is compared as canonical JSON.\<close>

definition profile_value :: "pydict option \<Rightarrow> pyval" where
  "profile_value p = (case p of None \<Rightarrow> PNone | Some d \<Rightarrow> PDict d)"

definition named_asset :: "pydict \<Rightarrow> string \<Rightarrow> pydict option" where
  "named_asset m name =
     (case dget m ''assets'' of
        PList vs \<Rightarrow> find (\<lambda>d. dget d ''name'' = PStr name) (rev (map as_dict vs))
      | _ \<Rightarrow> None)"

definition keyed_assets :: "pydict \<Rightarrow> unit res" where
  "keyed_assets m =
     rbind (dgetitem m ''assets'') (\<lambda>vs.
     rbind (iter_items vs) (\<lambda>items.
     rbind (traverse (\<lambda>v. case v of PDict d \<Rightarrow> dgetitem d ''name'' | _ \<Rightarrow> Inl TypeError) items) (\<lambda>_. Inr ())))"

definition validate_fuzz_manifest :: "library \<Rightarrow> pydict \<Rightarrow> pydict \<Rightarrow> unit res" where
  "validate_fuzz_manifest lb m policy =
     (if \<not> haskey policy ''fuzzing'' then Inr ()
      else rbind (text_of (dget m ''channel'')) (\<lambda>channel.
           rbind (fuzz_profile policy channel) (\<lambda>p.
           rbind (ensure (lb_json lb (dget m ''fuzzing_profile'') = lb_json lb (profile_value p))) (\<lambda>_.
           if channel \<noteq> ''rc'' then Inr ()
           else rbind (keyed_assets m) (\<lambda>_. ensure (named_asset m ''fuzz-report.json'' \<noteq> None \<and>
             (case named_asset m ''release-inputs-fuzz.json'' of
                None \<Rightarrow> False
              | Some receipt \<Rightarrow> same_json (dget m ''validation_receipts'')
                  (PList [PDict [(''name'', PStr ''release-inputs-fuzz.json''), (''sha256'', dget receipt ''sha256'')]]))))))))"

definition validate_validation_manifest :: "library \<Rightarrow> pydict \<Rightarrow> unit res" where
  "validate_validation_manifest lb m =
     rbind (text_of (dget m ''channel'')) (\<lambda>channel.
     rbind (validation_profile (policy_of m) channel) (\<lambda>p.
     rbind (ensure (lb_json lb (dget m ''validation_profile'') = lb_json lb (profile_value p))) (\<lambda>_.
     validate_fuzz_manifest lb m (policy_of m))))"

definition rc_tag_of :: "string \<Rightarrow> string \<Rightarrow> bool" where
  "rc_tag_of base tag = (case after (''v'' @ base @ ''-rc.'') tag of None \<Rightarrow> False | Some n \<Rightarrow> positive_text n)"

text \<open>The final manifest of a rebuilt release names the accepted candidate.\<close>

definition validate_parent :: "pydict \<Rightarrow> string \<Rightarrow> pyval \<Rightarrow> unit res" where
  "validate_parent m base versioning =
     rbind (ensure (truthy versioning)) (\<lambda>_.
     rbind (vget versioning ''promotion'') (\<lambda>p.
     rbind (ensure (p = PStr ''final-build'')) (\<lambda>_.
     rbind (object_of (dget m ''derived_from_rc'')) (\<lambda>parent.
     rbind (ensure (set (map fst parent) = {''tag'', ''manifest_sha256'', ''source_sha'', ''run_id''})) (\<lambda>_.
     rbind (ensure ((case dget parent ''tag'' of PStr t \<Rightarrow> rc_tag_of base t | _ \<Rightarrow> False) \<and>
                    same_json (dget parent ''source_sha'') (dget m ''source_sha'') \<and>
                    (case dget parent ''manifest_sha256'' of PStr s \<Rightarrow> digest_text s | _ \<Rightarrow> False))) (\<lambda>_.
     rbind (positive (dget parent ''run_id'')) (\<lambda>n. ensure (\<not> py_eq (PInt n) (dget m ''run_id'')))))))))"

definition validate_manifest :: "library \<Rightarrow> string \<Rightarrow> string \<Rightarrow> string \<Rightarrow> bool \<Rightarrow> pydict res" where
  "validate_manifest lb raw repo rc allow_final =
     rbind (ensure (int (length raw) \<le> 2000000)) (\<lambda>_.
     rbind (cd_parse lb raw) (\<lambda>v.
     rbind (object_of v) (\<lambda>m.
     rbind (ensure (dget m ''schema'' = PInt 1)) (\<lambda>_.
     rbind (ensure (case dget m ''repository'' of PStr r \<Rightarrow> lower r = lower repo | _ \<Rightarrow> False)) (\<lambda>_.
     case dget m ''version'' of
       PStr base \<Rightarrow>
         rbind (base_version (PStr base)) (\<lambda>_.
         let final = (allow_final \<and> dget m ''channel'' = PStr ''stable'')
         in rbind (if final then ensure (dget m ''tag'' = PStr rc \<and> rc = ''v'' @ base)
                   else rbind (ensure (dget m ''channel'' = PStr ''rc'')) (\<lambda>_.
                        ensure (dget m ''tag'' = PStr rc \<and> rc_tag_of base rc))) (\<lambda>_.
            rbind (ensure (case dget m ''source_sha'' of PStr s \<Rightarrow> sha_text s | _ \<Rightarrow> False)) (\<lambda>_.
            rbind (ensure (dget m ''workflow_path'' = PStr WORKFLOW)) (\<lambda>_.
            rbind (positive (dget m ''run_id'')) (\<lambda>_.
            rbind (positive (dget m ''run_attempt'')) (\<lambda>_.
            rbind (validate_policy_snapshot (dget m ''source_policy'') repo) (\<lambda>_.
            rbind (validate_validation_manifest lb m) (\<lambda>_.
            let versioning = dget (policy_of m) ''versioning''
            in rbind (if truthy versioning then validate_manifest_plan lb m base else Inr ()) (\<lambda>_.
               rbind (if final then validate_parent m base versioning else Inr ()) (\<lambda>_.
               rbind (validate_manifest_assets m) (\<lambda>_. Inr m)))))))))))
     | _ \<Rightarrow> Inl RuntimeError)))))"

section \<open>A published candidate\<close>

text \<open>\<^verbatim>\<open>release_snapshot\<close>: the tag, the release and its assets.\<close>

fun all_uploaded :: "pyval list \<Rightarrow> unit res" where
  "all_uploaded [] = Inr ()"
| "all_uploaded (v # vs) = rbind (vget v ''state'') (\<lambda>s. rbind (ensure (s = PStr ''uploaded'')) (\<lambda>_. all_uploaded vs))"

definition names_of :: "pydict list \<Rightarrow> string list res" where
  "names_of items =
     traverse (\<lambda>d. case dget d ''name'' of PStr s \<Rightarrow> rbind (ensure (asset_name s)) (\<lambda>_. Inr s) | _ \<Rightarrow> Inl RuntimeError) items"

type_synonym published = "pydict \<times> pydict \<times> pydict list"

definition release_snapshot :: "string \<Rightarrow> published io" where
  "release_snapshot tag =
     andthen (api (''git/ref/tags/'' @ quote_url tag)) (\<lambda>v.
     andthen (give (dict_items v)) (\<lambda>ref.
     andthen (require (dget ref ''ref'' = PStr (''refs/tags/'' @ tag))) (\<lambda>_.
     andthen (give (vget (dget_or ref ''object'' (PDict [])) ''type'')) (\<lambda>k.
     andthen (require (k = PStr ''commit'')) (\<lambda>_.
     andthen (api (''releases/tags/'' @ quote_url tag)) (\<lambda>v'.
     andthen (give (dict_items v')) (\<lambda>release.
     andthen (require (dget release ''tag_name'' = PStr tag \<and> dget release ''draft'' = PBool False \<and>
                       dget release ''prerelease'' = PBool True)) (\<lambda>_.
     andthen (give (positive (dget release ''id''))) (\<lambda>n.
     andthen (pages (release_path n @ ''/assets'') []) (\<lambda>vs.
     andthen (give (all_uploaded vs)) (\<lambda>_.
     andthen (give (names_of (map as_dict vs))) (\<lambda>names.
     andthen (require (distinct (map folded names))) (\<lambda>_.
     done_with (ref, release, map as_dict vs))))))))))))))"

text \<open>\<^verbatim>\<open>snapshot_identity\<close>: the bytes that two snapshots are compared by. The ids of assets are numbers.\<close>

definition asset_id :: "pydict \<Rightarrow> int res" where
  "asset_id d = rbind (dgetitem d ''id'') (\<lambda>v. case v of PInt n \<Rightarrow> Inr n | _ \<Rightarrow> Inl TypeError)"

definition snapshot_value :: "published \<Rightarrow> pyval" where
  "snapshot_value = (\<lambda>(ref, release, assets).
     PDict
       [(''ref'', PDict ref),
        (''release'', PDict (map (\<lambda>k. (k, dget release k))
           [''id'', ''tag_name'', ''target_commitish'', ''draft'', ''prerelease'', ''updated_at''])),
        (''assets'', PList (map PDict
           (sort_key (\<lambda>d. as_int (dget d ''id'')) (map (filter (\<lambda>(k, _). k \<noteq> ''download_count'')) assets))))])"

definition snapshot_identity :: "library \<Rightarrow> published \<Rightarrow> string res" where
  "snapshot_identity lb s =
     rbind (traverse asset_id (snd (snd s))) (\<lambda>_. Inr (lb_json lb (snapshot_value s)))"

text \<open>\<^verbatim>\<open>verify_evidence\<close>: the manifest is the one the source run left in its artifact.\<close>

definition evidence_item :: "pydict \<Rightarrow> bool" where
  "evidence_item d = (dget d ''name'' = PStr ''release-evidence'' \<and> \<not> truthy (dget d ''expired''))"

definition artifact_source :: "pydict \<Rightarrow> pydict \<Rightarrow> unit res" where
  "artifact_source m artifact =
     rbind (vget (dget_or artifact ''workflow_run'' (PDict [])) ''id'') (\<lambda>i.
     rbind (vget (dget_or artifact ''workflow_run'' (PDict [])) ''head_sha'') (\<lambda>s.
     ensure (py_eq i (dget m ''run_id'') \<and> same_json s (dget m ''source_sha''))))"

definition is_folder :: "string \<Rightarrow> bool" where
  "is_folder name = (name \<noteq> [] \<and> last name = CHR ''/'')"

definition read_evidence :: "library \<Rightarrow> string \<Rightarrow> string \<Rightarrow> unit res" where
  "read_evidence lb archive raw =
     rbind (lb_zip lb archive) (\<lambda>entries.
     case filter (\<lambda>(name, _). \<not> is_folder name) entries of
       [(name, n, content)] \<Rightarrow>
         rbind (ensure (name \<in> {MANIFEST_NAME, ''.release-evidence/'' @ MANIFEST_NAME})) (\<lambda>_.
         rbind (ensure (n \<le> 2000000)) (\<lambda>_. ensure (content = raw)))
     | _ \<Rightarrow> Inl RuntimeError)"

definition verify_evidence :: "library \<Rightarrow> pydict \<Rightarrow> string \<Rightarrow> unit io" where
  "verify_evidence lb m raw =
     andthen (pages (''actions/runs/'' @ py_str (dget m ''run_id'') @ ''/artifacts'') ''artifacts'') (\<lambda>vs.
     andthen (give (traverse dict_items vs)) (\<lambda>items.
     andthen (give (sole (filter evidence_item items))) (\<lambda>artifact.
     andthen (give (artifact_source m artifact)) (\<lambda>_.
     andthen (give (positive (dget artifact ''id''))) (\<lambda>n.
     andthen (binary (''actions/artifacts/'' @ show_int n @ ''/zip'')) (\<lambda>archive.
     andthen (require (dget artifact ''digest'' = PStr (''sha256:'' @ digest lb archive))) (\<lambda>_.
     give (read_evidence lb archive raw))))))))"

text \<open>\<^verbatim>\<open>require_reviewers\<close>: the rules are looked through until one fits.\<close>

fun reviewed :: "pyval list \<Rightarrow> bool res" where
  "reviewed [] = Inr False"
| "reviewed (v # vs) =
     rbind (dict_items v) (\<lambda>rule.
     if dget rule ''type'' = PStr ''required_reviewers'' \<and> truthy (dget rule ''reviewers'') then Inr True else reviewed vs)"

definition require_reviewers :: "unit io" where
  "require_reviewers =
     andthen (api ''environments/release'') (\<lambda>v.
     andthen (give (dict_items v)) (\<lambda>environment.
     andthen (require (dget environment ''name'' = PStr ''release'')) (\<lambda>_.
     andthen (give (rbind (iter_items (dget_or environment ''protection_rules'' (PList []))) reviewed)) (\<lambda>b. require b))))"

section \<open>The command\<close>

text \<open>\<^verbatim>\<open>release_notes\<close> with its two reads, and the two operations on the ledger.\<close>

definition changelog_notes :: "github \<Rightarrow> library \<Rightarrow> pydict \<Rightarrow> string \<Rightarrow> string \<Rightarrow> string \<Rightarrow> string io" where
  "changelog_notes g lb policy tag sha provenance w h =
     (andthen (require (dget policy ''release_notes'' = PStr ''CHANGELOG.md'')) (\<lambda>_.
      andthen (require (tag_text tag)) (\<lambda>_.
      andthen (api (''contents/CHANGELOG.md?ref='' @ sha)) (\<lambda>v.
      give (release_notes (cd_base64 lb) (lb_utf8 lb) (cd_sha1 lb) (Inr policy) (Inr v) tag provenance))))) w h"

definition fetch_notes :: "github \<Rightarrow> library \<Rightarrow> string \<Rightarrow> string \<Rightarrow> string \<Rightarrow> string io" where
  "fetch_notes g lb tag sha provenance =
     andthen (source_policy_snapshot g (codec.truncate lb) sha) (\<lambda>snap.
     let policy = as_dict (dget snap ''data'')
     in if dget policy ''release_notes'' = PNone then done_with provenance
        else changelog_notes g lb policy tag sha provenance)"

record ledger_work =
  lw_order :: "pydict \<Rightarrow> unit io"
  lw_begin :: "pydict \<Rightarrow> int \<Rightarrow> unit io"

text \<open>The answers of GitHub to one operation on the ledger; what it does not ask for is absent.\<close>

definition answers :: "pyval \<Rightarrow> pyval \<Rightarrow> pydict list \<Rightarrow> forge" where
  "answers content branch releases =
     \<lparr>fg_content = Inr content, fg_branch = Inr branch, fg_branch_again = Inl OtherError, fg_tags = Inl OtherError,
      fg_releases = Inr releases, fg_tag_ref = (\<lambda>_. Inl OtherError), fg_tag_release = (\<lambda>_. Inl OtherError)\<rparr>"

definition read_ledger :: "library \<Rightarrow> (pydict \<times> string option) io" where
  "read_ledger lb =
     andthen (optional ''contents/release-version-state.json?ref=release-version-state'') (\<lambda>content.
     andthen (if content = PNone then optional ''git/ref/heads/release-version-state'' else done_with PNone) (\<lambda>branch.
     give (read_state (cd_base64 lb) (cd_parse lb) (answers content branch []))))"

text \<open>The checks of \<^verbatim>\<open>_verify_promotion_order\<close> before the releases are asked for, and the releases.\<close>

definition promotion_known :: "pydict \<Rightarrow> pydict \<Rightarrow> unit res" where
  "promotion_known l plan =
     rbind (validate_plan no_digest (PDict plan) None None) (\<lambda>_.
     rbind (ensure (dget plan ''channel'' = PStr ''rc'' \<and> dget plan ''promotion'' = PStr ''promote-bytes'')) (\<lambda>_.
     rbind (ensure (length (filter (\<lambda>(_, rec). same_json (PDict (plan_of rec)) (PDict plan)) (ledger_plans l)) = 1)) (\<lambda>_.
     compare_build plan (\<lambda>b. ledger_floor l \<le> b))))"

definition releases_for :: "pydict \<Rightarrow> pydict \<Rightarrow> forge io" where
  "releases_for l plan =
     andthen (give (promotion_known l plan)) (\<lambda>_.
     andthen (pages ''releases'' []) (\<lambda>vs.
     andthen (give (traverse dict_items vs)) (\<lambda>rs. done_with (answers PNone PNone rs))))"

definition ledger_order :: "library \<Rightarrow> pydict \<Rightarrow> unit io" where
  "ledger_order lb plan =
     andthen (read_ledger lb) (\<lambda>p.
     andthen (releases_for (fst p) plan) (\<lambda>f. give (verify_promotion_order f (fst p) plan)))"

definition ledger_begin :: "library \<Rightarrow> pydict \<Rightarrow> int \<Rightarrow> unit io" where
  "ledger_begin lb plan current =
     andthen (give (positive (PInt current))) (\<lambda>_.
     andthen (read_ledger lb) (\<lambda>p.
     andthen (releases_for (fst p) plan) (\<lambda>f.
     andthen (give (publish_from f (fst p) plan (PInt current) PNone True)) (\<lambda>l.
     andthen (ask_value (Save_ledger (write_body (lb_encode lb (lb_json lb (PDict l))) (snd p)))) (\<lambda>_. done_with ())))))"

definition release_ledger :: "library \<Rightarrow> ledger_work" where
  "release_ledger lb = \<lparr>lw_order = ledger_order lb, lw_begin = ledger_begin lb\<rparr>"

definition candidate_tag_text :: "string \<Rightarrow> bool" where
  "candidate_tag_text s =
     (startswith s ''v'' \<and>
      (case split_char (CHR ''-'') (drop 1 s) of
         [b, k] \<Rightarrow> base_text b \<and> (case after ''rc.'' k of None \<Rightarrow> False | Some n \<Rightarrow> positive_text n)
       | _ \<Rightarrow> False))"

definition read_manifest :: "github \<Rightarrow> library \<Rightarrow> string \<Rightarrow> pydict list \<Rightarrow> (string \<times> pydict) io" where
  "read_manifest g lb rc assets =
     andthen (give (sole (filter (\<lambda>d. dget d ''name'' = PStr MANIFEST_NAME) assets))) (\<lambda>item.
     andthen (give (positive (dget item ''id''))) (\<lambda>n.
     andthen (binary (asset_route n)) (\<lambda>raw.
     andthen (give (validate_manifest lb raw (gi_repo g) rc False)) (\<lambda>m. done_with (raw, m)))))"

definition plan_work :: "(pydict \<Rightarrow> unit io) \<Rightarrow> pydict \<Rightarrow> unit io" where
  "plan_work f m = (if truthy (dget m ''version_plan'') then f (as_dict (dget m ''version_plan'')) else done_with ())"

definition plan_begin :: "ledger_work \<Rightarrow> int \<Rightarrow> pydict \<Rightarrow> unit io" where
  "plan_begin lw current m w h =
     (if truthy (dget m ''version_plan'') then lw_begin lw (as_dict (dget m ''version_plan'')) current else done_with ()) w h"

definition check_policy :: "github \<Rightarrow> library \<Rightarrow> ledger_work \<Rightarrow> surroundings \<Rightarrow> pydict \<Rightarrow> string \<Rightarrow> pydict io" where
  "check_policy g lb lw su m sha =
     andthen (source_policy_snapshot g (codec.truncate lb) sha) (\<lambda>snap.
     andthen (give (require_release_policy (dget snap ''data'') (gi_repo g) True)) (\<lambda>_.
     andthen (give (su_head su)) (\<lambda>head.
     andthen (require_current_fuzzing g (codec.truncate lb) (as_dict (dget snap ''data'')) head) (\<lambda>_.
     andthen (give (vget (dget_or (as_dict (dget snap ''data'')) ''versioning'' (PDict [])) ''promotion'')) (\<lambda>p.
     andthen (require (p \<noteq> PStr ''final-build'')) (\<lambda>_.
     andthen (plan_work (lw_order lw) m) (\<lambda>_.
     andthen (require (same_json (PDict snap) (dget m ''source_policy''))) (\<lambda>_.
     done_with (as_dict (dget snap ''data''))))))))))"

text \<open>The run of the candidate, read and checked; the attempt of a manifest is a number.\<close>

definition checked_run :: "github \<Rightarrow> pydict \<Rightarrow> pydict \<Rightarrow> pydict \<Rightarrow> string \<Rightarrow> bool \<Rightarrow> pydict io" where
  "checked_run g info m policy sha first =
     andthen (api (''actions/runs/'' @ py_str (dget m ''run_id''))) (\<lambda>v.
     andthen (give (dict_items v)) (\<lambda>run.
     andthen (validate_validation_run run policy ''rc'') (\<lambda>_.
     andthen (require (first \<longrightarrow> py_eq (dget run ''id'') (dget m ''run_id''))) (\<lambda>_.
     case dget m ''run_attempt'' of
       PInt a \<Rightarrow> andthen (validate_run g run info sha a True True) (\<lambda>_. done_with run)
     | _ \<Rightarrow> give (Inl RuntimeError)))))"

record accepted =
  ac_current :: int
  ac_info :: pydict
  ac_initial :: published
  ac_raw :: string
  ac_manifest :: pydict
  ac_policy :: pydict
  ac_sha :: string

definition accept_source :: "github \<Rightarrow> library \<Rightarrow> ledger_work \<Rightarrow> surroundings \<Rightarrow> int \<Rightarrow> pydict \<Rightarrow> published \<Rightarrow> string \<Rightarrow> pydict \<Rightarrow> accepted io" where
  "accept_source g lb lw su current info initial raw m =
     andthen (give (text_of (dget m ''source_sha''))) (\<lambda>sha.
     andthen (check_policy g lb lw su m sha) (\<lambda>policy.
     andthen (give (vget (dget (fst initial) ''object'') ''sha'')) (\<lambda>tagged.
     andthen (require (tagged = PStr sha)) (\<lambda>_.
     andthen (require (\<not> py_eq (dget m ''run_id'') (PInt current))) (\<lambda>_.
     andthen (checked_run g info m policy sha True) (\<lambda>run.
     andthen (require (dget run ''event'' = PStr ''workflow_dispatch'')) (\<lambda>_.
     andthen (give (text_of (dget info ''default_branch''))) (\<lambda>branch.
     andthen (check_ancestry sha branch) (\<lambda>_.
     andthen (verify_evidence lb m raw) (\<lambda>_.
     done_with \<lparr>ac_current = current, ac_info = info, ac_initial = initial, ac_raw = raw, ac_manifest = m,
                ac_policy = policy, ac_sha = sha\<rparr>))))))))))"

definition accept_candidate :: "github \<Rightarrow> library \<Rightarrow> ledger_work \<Rightarrow> surroundings \<Rightarrow> string \<Rightarrow> string \<Rightarrow> accepted io" where
  "accept_candidate g lb lw su rc run_id =
     andthen (require (candidate_tag_text rc)) (\<lambda>_.
     andthen (give (positive (PStr run_id))) (\<lambda>current.
     andthen (repository_info g) (\<lambda>info.
     andthen (give (su_head su)) (\<lambda>head.
     andthen (give (positive (case su_env su ''GITHUB_RUN_ATTEMPT'' of None \<Rightarrow> PNone | Some s \<Rightarrow> PStr s))) (\<lambda>attempt.
     andthen (wait_for_executing_run g su current ''stable'' info head attempt False) (\<lambda>_.
     andthen require_reviewers (\<lambda>_.
     andthen (release_snapshot rc) (\<lambda>initial.
     andthen (read_manifest g lb rc (snd (snd initial))) (\<lambda>p.
     accept_source g lb lw su current info initial (fst p) (snd p))))))))))"

text \<open>Every byte of the candidate is fetched once and compared with the manifest.\<close>

definition manifest_entry :: "library \<Rightarrow> pydict \<Rightarrow> string \<Rightarrow> string \<Rightarrow> unit res" where
  "manifest_entry lb m name content =
     (case named_asset m name of
        None \<Rightarrow> Inl KeyError
      | Some e \<Rightarrow> ensure (py_eq (dget e ''size'') (PInt (int (length content))) \<and> dget e ''sha256'' = PStr (digest lb content)))"

fun stage_candidate :: "library \<Rightarrow> string \<Rightarrow> pydict \<Rightarrow> pydict list \<Rightarrow> (string \<times> string) list io" where
  "stage_candidate lb raw m [] = done_with []"
| "stage_candidate lb raw m (a # as) =
     andthen (give (text_of (dget a ''name''))) (\<lambda>name.
     andthen (if name = MANIFEST_NAME then done_with raw
              else andthen (give (positive (dget a ''id''))) (\<lambda>n. download_asset n)) (\<lambda>content.
     andthen (require (py_eq (dget a ''size'') (PInt (int (length content))))) (\<lambda>_.
     andthen (give (if name = MANIFEST_NAME then Inr () else manifest_entry lb m name content)) (\<lambda>_.
     andthen (stage_candidate lb raw m as) (\<lambda>files. done_with ((name, content) # files))))))"

definition manifest_names :: "pydict \<Rightarrow> pyval set" where
  "manifest_names m = (case dget m ''assets'' of PList vs \<Rightarrow> set (map (\<lambda>v. dget (as_dict v) ''name'') vs) | _ \<Rightarrow> {})"

definition complete_inventory :: "pydict \<Rightarrow> pydict list \<Rightarrow> bool" where
  "complete_inventory m assets =
     (set (map (\<lambda>d. dget d ''name'') assets) = insert (PStr MANIFEST_NAME) (manifest_names m))"

definition promotion_text :: "github \<Rightarrow> string \<Rightarrow> accepted \<Rightarrow> string \<Rightarrow> string" where
  "promotion_text g rc ac url =
     (let NLs = [CHR 0x0A, CHR 0x0A]; runs = ''https://github.com/'' @ gi_repo g @ ''/actions/runs/''
      in ''Promoted unchanged from ['' @ rc @ ''](''  @ url @ '').'' @ NLs @ ''Source: `'' @ ac_sha ac @ ''`'' @ NLs @
         ''Validation: '' @ runs @ py_str (dget (ac_manifest ac) ''run_id'') @ NLs @
         ''Promotion: '' @ runs @ show_int (ac_current ac) @ NLs @
         ''Assets and `'' @ MANIFEST_NAME @ ''` are byte-for-byte copies of the verified release candidate.'')"

definition stable_tag :: "pydict \<Rightarrow> string" where
  "stable_tag m = ''v'' @ py_str (dget m ''version'')"

definition stage_promotion :: "github \<Rightarrow> library \<Rightarrow> string \<Rightarrow> accepted \<Rightarrow> (string \<times> string) list io" where
  "stage_promotion g lb rc ac =
     andthen (refuse_existing (stable_tag (ac_manifest ac))) (\<lambda>_.
     andthen (require (complete_inventory (ac_manifest ac) (snd (snd (ac_initial ac))))) (\<lambda>_.
     andthen (check_workflow_publication g (ac_sha ac)) (\<lambda>_.
     andthen (stage_candidate lb (ac_raw ac) (ac_manifest ac) (snd (snd (ac_initial ac)))) (\<lambda>files.
     andthen (release_snapshot rc) (\<lambda>again.
     andthen (give (snapshot_identity lb again)) (\<lambda>i.
     andthen (give (snapshot_identity lb (ac_initial ac))) (\<lambda>j.
     andthen (require (i = j)) (\<lambda>_. done_with files))))))))"

definition last_checks :: "github \<Rightarrow> library \<Rightarrow> ledger_work \<Rightarrow> string \<Rightarrow> accepted \<Rightarrow> string io" where
  "last_checks g lb lw rc ac =
     andthen (checked_run g (ac_info ac) (ac_manifest ac) (ac_policy ac) (ac_sha ac) False) (\<lambda>_.
     andthen require_reviewers (\<lambda>_.
     andthen (check_workflow_publication g (ac_sha ac)) (\<lambda>_.
     andthen (give (dgetitem (fst (snd (ac_initial ac))) ''html_url'')) (\<lambda>url.
     andthen (fetch_notes g lb (stable_tag (ac_manifest ac)) (ac_sha ac) (promotion_text g rc ac (py_str url))) (\<lambda>notes_text.
     andthen (plan_work (lw_order lw) (ac_manifest ac)) (\<lambda>_.
     andthen (plan_begin lw (ac_current ac) (ac_manifest ac)) (\<lambda>_. done_with notes_text)))))))"

definition prepare_promotion ::
    "github \<Rightarrow> library \<Rightarrow> ledger_work \<Rightarrow> surroundings \<Rightarrow> string \<Rightarrow> string \<Rightarrow> (accepted \<times> (string \<times> string) list \<times> string) io" where
  "prepare_promotion g lb lw su rc run_id =
     andthen (accept_candidate g lb lw su rc run_id) (\<lambda>ac.
     andthen (stage_promotion g lb rc ac) (\<lambda>files.
     andthen (last_checks g lb lw rc ac) (\<lambda>notes_text. done_with (ac, files, notes_text))))"

definition promote :: "github \<Rightarrow> library \<Rightarrow> ledger_work \<Rightarrow> surroundings \<Rightarrow> string \<Rightarrow> string \<Rightarrow> (string \<times> pyval) io" where
  "promote g lb lw su rc run_id =
     andthen (prepare_promotion g lb lw su rc run_id) (\<lambda>(ac, files, notes_text).
     andthen (publish_prepared g (cd_sha256 lb) (stable_tag (ac_manifest ac)) (ac_sha ac) (sort_key fst files) False notes_text None None)
       (\<lambda>release.
     andthen (give (dgetitem release ''html_url'')) (\<lambda>url. done_with (stable_tag (ac_manifest ac), url))))"

section \<open>Preparing only reads\<close>

lemma binary_reads: "does is_read (binary path)"
  unfolding binary_def ask_bytes_def by (intro does_intros) (simp add: is_write_def)

lemma snapshot_reads: "does is_read (source_policy_snapshot g cd sha)"
  unfolding source_policy_snapshot_def
  by (intro does_andthen does_give does_api) (auto split: pyval.split intro!: does_andthen does_give)

lemma fuzzing_reads: "does is_read (require_current_fuzzing g cd policy sha)"
  unfolding require_current_fuzzing_def by (intro does_andthen does_give does_if snapshot_reads)

lemma reviewers_reads: "does is_read require_reviewers"
  unfolding require_reviewers_def by (intro does_andthen does_give does_api) simp

lemma published_reads: "does is_read (release_snapshot tag)"
  unfolding release_snapshot_def by (intro does_andthen does_give does_api does_pages) simp_all

lemma run_reads: "does is_read (checked_run g info m policy sha b)"
  unfolding checked_run_def validate_validation_run_def validate_run_def
  by (intro does_andthen does_give does_api)
    (auto split: pyval.split intro!: does_andthen does_give does_pages asks_does_read [OF gate_asks])

lemma evidence_reads: "does is_read (verify_evidence lb m raw)"
  unfolding verify_evidence_def by (intro does_andthen does_give does_pages binary_reads) simp

lemma manifest_reads: "does is_read (read_manifest g lb rc assets)"
  unfolding read_manifest_def by (intro does_andthen does_give binary_reads)

lemma ancestry_reads: "does is_read (check_ancestry sha branch)"
  unfolding check_ancestry_def by (intro does_andthen does_give does_api) simp

lemma changelog_reads: "does is_read (changelog_notes g lb policy tag sha provenance)"
proof -
  have "changelog_notes g lb policy tag sha provenance =
     andthen (require (dget policy ''release_notes'' = PStr ''CHANGELOG.md'')) (\<lambda>_.
     andthen (require (tag_text tag)) (\<lambda>_.
     andthen (api (''contents/CHANGELOG.md?ref='' @ sha)) (\<lambda>v.
     give (release_notes (cd_base64 lb) (lb_utf8 lb) (cd_sha1 lb) (Inr policy) (Inr v) tag provenance))))"
    by (intro ext) (simp add: changelog_notes_def)
  then show ?thesis by (simp only:) (intro does_andthen does_give does_api, simp)
qed

lemma notes_reads: "does is_read (fetch_notes g lb tag sha provenance)"
  unfolding fetch_notes_def Let_def by (intro does_andthen does_give does_if snapshot_reads changelog_reads)

lemma stage_reads: "does is_read (stage_candidate lb raw m as)"
  by (induction as) (auto intro!: does_andthen does_give does_download)

lemma rounds_read: "does asks poll \<Longrightarrow> does asks (wait_rounds k poll deadline)"
  by (induction k) (auto intro!: does_intros split: option.split)

lemma wait_reads: "does is_read (wait_for_executing_run g su run_id channel info sha attempt gate)"
  unfolding wait_for_executing_run_def wait_bounded_def
  by (intro asks_does_read does_andthen rounds_read poll_asks does_ask_kinds) simp

text \<open>What the operations on the ledger need to be here: they touch neither tags nor releases.\<close>

locale ledger_steps =
  fixes lw :: ledger_work
  assumes order_reads: "does is_read (lw_order lw p)"
    and begin_reads: "does is_read (lw_begin lw p n)"
begin

lemma plan_reads: "does is_read (plan_work (lw_order lw) m)" "does is_read (plan_begin lw n m)"
proof -
  have "plan_begin lw n m =
      (if truthy (dget m ''version_plan'') then lw_begin lw (as_dict (dget m ''version_plan'')) n else done_with ())"
    by (intro ext) (simp add: plan_begin_def)
  then show "does is_read (plan_begin lw n m)" by (simp add: begin_reads does_give)
qed (simp add: plan_work_def order_reads does_give)

lemma policy_reads: "does is_read (check_policy g lb lw su m sha)"
  unfolding check_policy_def by (intro does_andthen does_give snapshot_reads fuzzing_reads plan_reads)

lemma source_reads: "does is_read (accept_source g lb lw su current info initial raw m)"
  unfolding accept_source_def
  by (intro does_andthen does_give policy_reads run_reads ancestry_reads evidence_reads)

lemma accept_reads: "does is_read (accept_candidate g lb lw su rc run_id)"
  unfolding accept_candidate_def
  by (intro does_andthen does_give asks_does_read [OF repository_info_asks] wait_reads reviewers_reads published_reads
      manifest_reads source_reads)

lemma stage_promotion_reads: "does is_read (stage_promotion g lb rc ac)"
  unfolding stage_promotion_def
  by (intro does_andthen does_give asks_does_read [OF refuse_existing_asks] asks_does_read [OF check_workflow_publication_asks]
      stage_reads published_reads)

lemma last_reads: "does is_read (last_checks g lb lw rc ac)"
  unfolding last_checks_def
  by (intro does_andthen does_give run_reads reviewers_reads asks_does_read [OF check_workflow_publication_asks] notes_reads plan_reads)

lemma prepare_reads: "does is_read (prepare_promotion g lb lw su rc run_id)"
  unfolding prepare_promotion_def by (intro does_andthen does_give accept_reads stage_promotion_reads last_reads)

end

section \<open>What was accepted\<close>

text \<open>The evidence: the listing of the run's artifacts showed one of this name, and its bytes, with the listed
  digest, are an archive with the manifest as its only file.\<close>

definition evidence_listed :: "world \<Rightarrow> call list \<Rightarrow> pydict \<Rightarrow> pydict \<Rightarrow> bool" where
  "evidence_listed w h m artifact =
     (\<exists>ps vs items.
        answered w h (Pages (''actions/runs/'' @ py_str (dget m ''run_id'') @ ''/artifacts'') ''artifacts'') (Value (PList ps)) \<and>
        page_records ''artifacts'' ps = Inr vs \<and> traverse dict_items vs = Inr items \<and> filter evidence_item items = [artifact])"

definition evidence_seen :: "library \<Rightarrow> world \<Rightarrow> call list \<Rightarrow> pydict \<Rightarrow> string \<Rightarrow> bool" where
  "evidence_seen lb w h m raw =
     (\<exists>artifact i archive entries name n.
        evidence_listed w h m artifact \<and> artifact_source m artifact = Inr () \<and> positive (dget artifact ''id'') = Inr i \<and>
        answered w h (Binary (''actions/artifacts/'' @ show_int i @ ''/zip'')) (Bytes archive) \<and>
        dget artifact ''digest'' = PStr (''sha256:'' @ digest lb archive) \<and>
        lb_zip lb archive = Inr entries \<and> filter (\<lambda>(name, _). \<not> is_folder name) entries = [(name, n, raw)])"

definition source_gate :: "world \<Rightarrow> call list \<Rightarrow> pydict \<Rightarrow> string \<Rightarrow> bool" where
  "source_gate w h m sha =
     (\<exists>k a. positive (dget m ''run_id'') = Inr k \<and> dget m ''run_attempt'' = PInt a \<and> gate_passed w h k sha a)"

lemma evidence_later: "evidence_seen lb w h m raw \<Longrightarrow> evidence_seen lb w (h @ ds) m raw"
  unfolding evidence_seen_def evidence_listed_def using answered_later by meson

lemma source_gate_later: "source_gate w h m sha \<Longrightarrow> source_gate w (h @ ds) m sha"
  unfolding source_gate_def using gate_later by blast

lemma read_evidence_Inr:
  assumes "read_evidence lb archive raw = Inr u"
  shows "\<exists>entries name n. lb_zip lb archive = Inr entries \<and> filter (\<lambda>(name, _). \<not> is_folder name) entries = [(name, n, raw)]"
proof -
  from assms obtain entries where e: "lb_zip lb archive = Inr entries"
    and c: "(case filter (\<lambda>(name, _). \<not> is_folder name) entries of
       [(name, n, content)] \<Rightarrow>
         rbind (ensure (name \<in> {MANIFEST_NAME, ''.release-evidence/'' @ MANIFEST_NAME})) (\<lambda>_.
         rbind (ensure (n \<le> 2000000)) (\<lambda>_. ensure (content = raw)))
     | _ \<Rightarrow> Inl RuntimeError) = Inr u"
    unfolding read_evidence_def rbind_Inr_iff by blast
  from c have "\<exists>name n. filter (\<lambda>(name, _). \<not> is_folder name) entries = [(name, n, raw)]"
    by (cases "filter (\<lambda>(name, _). \<not> is_folder name) entries" rule: remdups_adj.cases)
      (auto simp: rbind_Inr_iff simp del: filter.simps split: prod.splits)
  with e show ?thesis by blast
qed

lemma sole_Inr: "sole xs = Inr x \<Longrightarrow> xs = [x]"
  by (auto simp: sole_def split: list.splits)

lemma verify_evidence_Inr:
  assumes "verify_evidence lb m raw w h = (Inr u, h')"
  shows "evidence_seen lb w h' m raw"
proof -
  let ?list = "Pages (''actions/runs/'' @ py_str (dget m ''run_id'') @ ''/artifacts'') ''artifacts''"
  from assms obtain ps vs items artifact i archive where l: "w h ?list = Value (PList ps)"
      "page_records ''artifacts'' ps = Inr vs" "traverse dict_items vs = Inr items" "sole (filter evidence_item items) = Inr artifact"
    and a: "artifact_source m artifact = Inr ()" "positive (dget artifact ''id'') = Inr i"
    and b: "w (h @ [?list]) (Binary (''actions/artifacts/'' @ show_int i @ ''/zip'')) = Bytes archive"
      "dget artifact ''digest'' = PStr (''sha256:'' @ digest lb archive)" "read_evidence lb archive raw = Inr ()"
    and h': "h' = (h @ [?list]) @ [Binary (''actions/artifacts/'' @ show_int i @ ''/zip'')]"
    unfolding verify_evidence_def binary_def by (auto simp: andthen_Inr give_run ask_bytes_Inr pages_Inr)
  have "evidence_listed w h' m artifact"
    unfolding evidence_listed_def h' using l sole_Inr [OF l(4)] answered_later [OF answered_now, of w h ?list] by metis
  moreover from b(1) have "answered w h' (Binary (''actions/artifacts/'' @ show_int i @ ''/zip'')) (Bytes archive)"
    unfolding h' using answered_now by metis
  ultimately show ?thesis unfolding evidence_seen_def using a b(2) read_evidence_Inr [OF b(3)] by blast
qed

lemma positive_same: "positive a = Inr k \<Longrightarrow> py_eq a b \<Longrightarrow> positive b = Inr j \<Longrightarrow> j = k"
  by (cases a; cases b) (auto simp: positive_def py_eq_def split: if_splits)

lemma gate_ready_strict:
  assumes "release_gate_ready k sha a False w h = (Inr b, h')"
  shows b
proof -
  let ?after = "\<lambda>jobs. case gate_jobs jobs of
       [gate] \<Rightarrow>
         andthen (require (dget gate ''head_sha'' = PStr sha)) (\<lambda>_.
         andthen (give (Inr False)) (\<lambda>pending.
         if pending then andthen (require (dget gate ''conclusion'' = PNone)) (\<lambda>_. done_with False)
         else andthen (require (dget gate ''status'' = PStr ''completed'' \<and> dget gate ''conclusion'' = PStr ''success'')) (\<lambda>_.
              andthen (require_current_attempt_jobs k sha a jobs) (\<lambda>_. done_with True))))
     | _ \<Rightarrow> give (Inl RuntimeError)"
  from assms obtain jobs h1 where r: "?after jobs w h1 = (Inr b, h')"
    unfolding release_gate_ready_def by (auto simp only: andthen_Inr simp_thms if_False)
  then show ?thesis
    by (cases "gate_jobs jobs" rule: remdups_adj.cases) (auto simp: andthen_Inr give_run)
qed

lemma checked_run_Inr:
  assumes "checked_run g info m policy sha True w h = (Inr run, h')" "positive (dget m ''run_id'') = Inr j"
  shows "source_gate w h' m sha"
proof -
  from assms(1) obtain a h1 u where e: "py_eq (dget run ''id'') (dget m ''run_id'')" "dget m ''run_attempt'' = PInt a"
    and v: "validate_run g run info sha a True True w h1 = (Inr u, h')"
    unfolding checked_run_def by (cases "dget m ''run_attempt''") (auto simp: andthen_Inr give_run)
  from v obtain k h2 b where k: "positive (dget run ''id'') = Inr k" and r: "release_gate_ready k sha a False w h2 = (Inr b, h')"
    unfolding validate_run_def by (auto simp: andthen_Inr give_run)
  with gate_ready_strict [OF r] gate_ready_True have "gate_passed w h' k sha a" by simp
  with e(2) k assms(2) positive_same [OF k e(1)] show ?thesis unfolding source_gate_def by auto
qed

lemma validate_manifest_Inr:
  assumes "validate_manifest lb raw repo rc b = Inr m"
  shows "\<exists>j. positive (dget m ''run_id'') = Inr j"
proof -
  from assms obtain m' where v: "(case dget m' ''version'' of
       PStr base \<Rightarrow>
         rbind (base_version (PStr base)) (\<lambda>_.
         let final = (b \<and> dget m' ''channel'' = PStr ''stable'')
         in rbind (if final then ensure (dget m' ''tag'' = PStr rc \<and> rc = ''v'' @ base)
                   else rbind (ensure (dget m' ''channel'' = PStr ''rc'')) (\<lambda>_.
                        ensure (dget m' ''tag'' = PStr rc \<and> rc_tag_of base rc))) (\<lambda>_.
            rbind (ensure (case dget m' ''source_sha'' of PStr s \<Rightarrow> sha_text s | _ \<Rightarrow> False)) (\<lambda>_.
            rbind (ensure (dget m' ''workflow_path'' = PStr WORKFLOW)) (\<lambda>_.
            rbind (positive (dget m' ''run_id'')) (\<lambda>_.
            rbind (positive (dget m' ''run_attempt'')) (\<lambda>_.
            rbind (validate_policy_snapshot (dget m' ''source_policy'') repo) (\<lambda>_.
            rbind (validate_validation_manifest lb m') (\<lambda>_.
            let versioning = dget (policy_of m') ''versioning''
            in rbind (if truthy versioning then validate_manifest_plan lb m' base else Inr ()) (\<lambda>_.
               rbind (if final then validate_parent m' base versioning else Inr ()) (\<lambda>_.
               rbind (validate_manifest_assets m') (\<lambda>_. Inr m')))))))))))
     | _ \<Rightarrow> Inl RuntimeError) = Inr m"
    unfolding validate_manifest_def rbind_Inr_iff [of "ensure _"] rbind_Inr_iff [of "cd_parse lb raw"] rbind_Inr_iff [of "object_of _"]
    by blast
  then show ?thesis
    by (cases "dget m' ''version''") (auto simp: rbind_Inr_iff Let_def)
qed

lemma read_manifest_Inr:
  "read_manifest g lb rc assets w h = (Inr p, h') \<Longrightarrow> validate_manifest lb (fst p) (gi_repo g) rc False = Inr (snd p)"
  unfolding read_manifest_def by (auto simp: andthen_Inr give_run)

lemma accept_source_Inr:
  assumes "accept_source g lb lw su current info initial raw m w h = (Inr ac, h')" "positive (dget m ''run_id'') = Inr j"
  shows "ac_raw ac = raw \<and> ac_manifest ac = m \<and> ac_initial ac = initial \<and> dget m ''source_sha'' = PStr (ac_sha ac) \<and>
    source_gate w h' m (ac_sha ac) \<and> evidence_seen lb w h' m raw"
proof -
  from assms(1) obtain sha policy h1 run h2 branch h3 u where sha: "text_of (dget m ''source_sha'') = Inr sha"
    and run: "checked_run g info m policy sha True w h1 = (Inr run, h2)" and anc: "check_ancestry sha branch w h2 = (Inr u, h3)"
    and ev: "verify_evidence lb m raw w h3 = (Inr (), h')"
    and ac: "ac_raw ac = raw" "ac_manifest ac = m" "ac_initial ac = initial" "ac_sha ac = sha"
    unfolding accept_source_def by (auto simp: andthen_Inr give_run)
  have s: "dget m ''source_sha'' = PStr sha" using sha by (cases "dget m ''source_sha''") (simp_all add: text_of_def)
  from run_extends [OF ancestry_reads anc] obtain b1 where b1: "h3 = h2 @ b1" by blast
  from run_extends [OF evidence_reads ev] obtain b2 where b2: "h' = h3 @ b2" by blast
  have "source_gate w h' m sha" unfolding b2 b1 by (intro source_gate_later checked_run_Inr [OF run assms(2)])
  with s ac verify_evidence_Inr [OF ev] show ?thesis by simp
qed

definition good_candidate :: "github \<Rightarrow> library \<Rightarrow> string \<Rightarrow> world \<Rightarrow> call list \<Rightarrow> accepted \<Rightarrow> bool" where
  "good_candidate g lb rc w h ac =
     (validate_manifest lb (ac_raw ac) (gi_repo g) rc False = Inr (ac_manifest ac) \<and>
      dget (ac_manifest ac) ''source_sha'' = PStr (ac_sha ac) \<and> source_gate w h (ac_manifest ac) (ac_sha ac) \<and>
      evidence_seen lb w h (ac_manifest ac) (ac_raw ac))"

lemma good_later: "good_candidate g lb rc w h ac \<Longrightarrow> good_candidate g lb rc w (h @ ds) ac"
  by (auto simp: good_candidate_def source_gate_later evidence_later)

lemma accept_candidate_Inr:
  assumes "accept_candidate g lb lw su rc run_id w h = (Inr ac, h')"
  shows "good_candidate g lb rc w h' ac"
proof -
  from assms obtain assets p h1 h2 current info initial where m: "read_manifest g lb rc assets w h1 = (Inr p, h2)"
    and s: "accept_source g lb lw su current info initial (fst p) (snd p) w h2 = (Inr ac, h')"
    unfolding accept_candidate_def by (auto simp only: andthen_Inr)
  from read_manifest_Inr [OF m] validate_manifest_Inr obtain j where "positive (dget (snd p) ''run_id'') = Inr j" by blast
  from accept_source_Inr [OF s this] read_manifest_Inr [OF m] show ?thesis by (simp add: good_candidate_def)
qed

definition described :: "library \<Rightarrow> pydict \<Rightarrow> string \<Rightarrow> string \<Rightarrow> bool" where
  "described lb m name content =
     (\<exists>vs v. dget m ''assets'' = PList vs \<and> v \<in> set vs \<and> dget (as_dict v) ''name'' = PStr name \<and>
        py_eq (dget (as_dict v) ''size'') (PInt (int (length content))) \<and>
        dget (as_dict v) ''sha256'' = PStr (cd_sha256 lb content))"

lemma found_in: "find P xs = Some x \<Longrightarrow> x \<in> set xs \<and> P x"
  by (auto simp: find_Some_iff)

lemma manifest_entry_Inr:
  assumes "manifest_entry lb m name content = Inr u"
  shows "described lb m name content"
proof -
  from assms obtain e where e: "named_asset m name = Some e" "py_eq (dget e ''size'') (PInt (int (length content)))"
      "dget e ''sha256'' = PStr (cd_sha256 lb content)"
    unfolding manifest_entry_def digest_def by (auto split: option.splits)
  from e(1) obtain vs where "dget m ''assets'' = PList vs" "find (\<lambda>d. dget d ''name'' = PStr name) (rev (map as_dict vs)) = Some e"
    unfolding named_asset_def by (auto split: pyval.splits)
  moreover from found_in [OF this(2)] obtain v where "v \<in> set vs" "e = as_dict v" "dget e ''name'' = PStr name" by auto
  ultimately show ?thesis unfolding described_def using e(2,3) by blast
qed

definition accepted_file :: "library \<Rightarrow> accepted \<Rightarrow> string \<times> string \<Rightarrow> bool" where
  "accepted_file lb ac item =
     (if fst item = MANIFEST_NAME then snd item = ac_raw ac else described lb (ac_manifest ac) (fst item) (snd item))"

definition accepted_files :: "library \<Rightarrow> accepted \<Rightarrow> (string \<times> string) list \<Rightarrow> bool" where
  "accepted_files lb ac files =
     (list_all (accepted_file lb ac) files \<and>
      set (map (PStr \<circ> fst) files) = insert (PStr MANIFEST_NAME) (manifest_names (ac_manifest ac)))"

lemma stage_candidate_Inr:
  "stage_candidate lb (ac_raw ac) (ac_manifest ac) as w h = (Inr files, h') \<Longrightarrow>
     list_all (accepted_file lb ac) files \<and> map (\<lambda>d. dget d ''name'') as = map (PStr \<circ> fst) files"
proof (induction as arbitrary: files h)
  case (Cons a as)
  from Cons.prems obtain name content rest h1 h2 h3 where n: "text_of (dget a ''name'') = Inr name"
    and c: "(if name = MANIFEST_NAME then done_with (ac_raw ac) else andthen (give (positive (dget a ''id''))) (\<lambda>n. download_asset n)) w h1 =
      (Inr content, h2)"
    and e: "(if name = MANIFEST_NAME then Inr () else manifest_entry lb (ac_manifest ac) name content) = Inr ()"
    and r: "stage_candidate lb (ac_raw ac) (ac_manifest ac) as w h3 = (Inr rest, h')" and f: "files = (name, content) # rest"
    by (auto simp: andthen_Inr give_run split del: if_split)
  have "dget a ''name'' = PStr name" using n by (cases "dget a ''name''") (simp_all add: text_of_def)
  moreover have "accepted_file lb ac (name, content)" using c e manifest_entry_Inr by (fastforce simp: accepted_file_def give_run split: if_splits)
  ultimately show ?case using Cons.IH [OF r] f by simp
qed (simp add: give_run)

lemma stage_promotion_Inr:
  assumes "stage_promotion g lb rc ac w h = (Inr files, h')"
  shows "accepted_files lb ac files"
proof -
  from assms obtain h1 h2 where c: "complete_inventory (ac_manifest ac) (snd (snd (ac_initial ac)))"
    and s: "stage_candidate lb (ac_raw ac) (ac_manifest ac) (snd (snd (ac_initial ac))) w h1 = (Inr files, h2)"
    unfolding stage_promotion_def by (auto simp: andthen_Inr give_run)
  have "set (map (\<lambda>d. dget d ''name'') (snd (snd (ac_initial ac)))) = set (map (PStr \<circ> fst) files)"
    using stage_candidate_Inr [OF s] by simp
  with c stage_candidate_Inr [OF s] show ?thesis unfolding accepted_files_def complete_inventory_def by simp
qed

lemma accepted_sort: "accepted_files lb ac files \<Longrightarrow> accepted_files lb ac (sort_key fst files)"
  by (auto simp: accepted_files_def list_all_iff)

lemma planned_does: "planned S m \<Longrightarrow> does (\<lambda>_. True) m"
  unfolding planned_def does_def list_all_iff by blast

context ledger_steps
begin

lemma prepare_Inr:
  assumes "prepare_promotion g lb lw su rc run_id w h = (Inr (ac, files, notes_text), h')"
  shows "good_candidate g lb rc w h' ac \<and> accepted_files lb ac files"
proof -
  from assms obtain h1 h2 where a: "accept_candidate g lb lw su rc run_id w h = (Inr ac, h1)"
    and s: "stage_promotion g lb rc ac w h1 = (Inr files, h2)" and l: "last_checks g lb lw rc ac w h2 = (Inr notes_text, h')"
    unfolding prepare_promotion_def by (auto simp: andthen_Inr give_run)
  from run_extends [OF stage_promotion_reads s] obtain b1 where b1: "h2 = h1 @ b1" by blast
  from run_extends [OF last_reads l] obtain b2 where b2: "h' = h2 @ b2" by blast
  have "good_candidate g lb rc w h' ac" unfolding b2 b1 by (intro good_later accept_candidate_Inr [OF a])
  with stage_promotion_Inr [OF s] show ?thesis by simp
qed

lemma publish_follows:
  "planned (range (planned_writes False (stable_tag (ac_manifest ac)) (ac_sha ac) (sort_key fst files) False notes_text))
     (andthen (publish_prepared g (cd_sha256 lb) (stable_tag (ac_manifest ac)) (ac_sha ac) (sort_key fst files) False notes_text None None)
       (\<lambda>release. andthen (give (dgetitem release ''html_url'')) (\<lambda>url. done_with (stable_tag (ac_manifest ac), url))))"
  using publish_planned [of None "stable_tag (ac_manifest ac)" "ac_sha ac" "sort_key fst files" False notes_text g "cd_sha256 lb" None]
  by (intro planned_then_read does_andthen does_give) simp

lemma promote_writes:
  assumes "promote g lb lw su rc run_id w h = (r, h @ cs)" "c \<in> set cs" "is_write c"
  shows "\<exists>ac files notes_text n. good_candidate g lb rc w (h @ cs) ac \<and> accepted_files lb ac files \<and>
    prefix (filter is_write cs) (planned_writes False (stable_tag (ac_manifest ac)) (ac_sha ac) files False notes_text n)"
proof -
  let ?p = "\<lambda>(ac, files, notes_text).
     andthen (publish_prepared g (cd_sha256 lb) (stable_tag (ac_manifest ac)) (ac_sha ac) (sort_key fst files) False notes_text None None)
       (\<lambda>release. andthen (give (dgetitem release ''html_url'')) (\<lambda>url. done_with (stable_tag (ac_manifest ac), url)))"
  have other: "does (\<lambda>c'. c' \<noteq> c) (prepare_promotion g lb lw su rc run_id)"
    by (rule does_more [OF prepare_reads]) (use assms(3) in auto)
  have ext: "does (\<lambda>_. True) (?p t)" for t
  proof (cases t)
    case (fields ac files notes_text)
    show ?thesis unfolding fields prod.case by (rule planned_does [OF publish_follows])
  qed
  from made_later [OF assms(1) [unfolded promote_def] assms(2) other ext] obtain t h1 ds where
    p: "prepare_promotion g lb lw su rc run_id w h = (Inr t, h1)" "?p t w h1 = (r, h1 @ ds)" "h @ cs = h1 @ ds" by blast
  obtain ac files notes_text where t: "t = (ac, files, notes_text)" by (cases t)
  from does_run [OF prepare_reads p(1)] obtain bs where bs: "h1 = h @ bs" "list_all is_read bs" by blast
  with p(3) have "filter is_write cs = filter is_write ds" by (auto simp: list_all_iff filter_empty_conv)
  moreover from planned_run [OF publish_follows p(2) [unfolded t prod.case]] obtain n where
    "prefix (filter is_write ds) (planned_writes False (stable_tag (ac_manifest ac)) (ac_sha ac) (sort_key fst files) False notes_text n)"
    by (auto simp: follows_plan_def)
  moreover have "good_candidate g lb rc w (h @ cs) ac" "accepted_files lb ac (sort_key fst files)"
    using prepare_Inr [OF p(1) [unfolded t]] by (simp_all add: p(3) good_later accepted_sort)
  ultimately show ?thesis by metis
qed

end

lemma read_ledger_reads: "does is_read (read_ledger lb)"
  unfolding read_ledger_def by (intro does_andthen does_give does_if does_optional) simp_all

lemma releases_for_reads: "does is_read (releases_for l plan)"
  unfolding releases_for_def by (intro does_andthen does_give does_pages) simp

interpretation rl: ledger_steps "release_ledger lb" for lb
proof
  show "does is_read (lw_order (release_ledger lb) p)" for p
    unfolding release_ledger_def ledger_work.select_convs ledger_order_def
    by (intro does_andthen does_give read_ledger_reads releases_for_reads)
  show "does is_read (lw_begin (release_ledger lb) p n)" for p n
    unfolding release_ledger_def ledger_work.select_convs ledger_begin_def
    by (intro does_andthen does_give does_ask_kinds read_ledger_reads releases_for_reads) (simp add: is_write_def)
qed

section \<open>Promotion keeps the bytes\<close>

text \<open>
  C31: a promotion changes no tag and no release before the candidate is accepted, and then only to publish exactly its bytes:
  when any such write was made, a manifest was accepted for the candidate's tag, Actions holds the same manifest as
  evidence of the source run, whose release gate passed in the recorded attempt at the source commit, every
  staged file is this manifest or has the size and digest the manifest gives it, the files are all those of the
  manifest, and the writes are a prefix of the plan that publishes these files under the stable tag.
\<close>

theorem only_accepted_bytes_promoted:
  assumes "promote g lb (release_ledger lb) su rc run_id w h = (r, h @ cs)" "c \<in> set cs" "is_write c"
  shows "\<exists>ac files notes_text n. good_candidate g lb rc w (h @ cs) ac \<and> accepted_files lb ac files \<and>
    prefix (filter is_write cs) (planned_writes False (stable_tag (ac_manifest ac)) (ac_sha ac) files False notes_text n)"
  by (rule rl.promote_writes [OF assms])

section \<open>A promotion\<close>

text \<open>A wait that ends within three rounds needs no more.\<close>

lemma short_wait [code]:
  "wait_for_executing_run g su run_id channel info sha attempt gate w h =
     (case wait_bounded 3 g su run_id channel info sha attempt gate w h of
        (Inr run, h') \<Rightarrow> (Inr run, h')
      | (Inl e, h') \<Rightarrow> wait_bounded 151 g su run_id channel info sha attempt gate w h)"
  using wait_bounded_more [of 3 g su run_id channel info sha attempt gate w h _ _ 148]
  by (auto simp: wait_for_executing_run_def split: prod.split sum.split)

lemma sort_by_insertion [code]: "sort_key f [] = []" "sort_key f (x # xs) = insort_key f x (sort_key f xs)"
  by simp_all

definition demo_policy :: pydict where
  "demo_policy = [(''repository'', PStr ''o/r''), (''mode'', PStr ''release'')]"

definition demo_snapshot :: pydict where
  "demo_snapshot =
     [(''schema'', PInt 1), (''path'', PStr ''.release-policy.json''), (''git_blob_sha'', PStr demo_sha),
      (''sha256'', PStr (replicate 64 (CHR ''b''))), (''data'', PDict demo_policy)]"

definition demo_manifest :: pydict where
  "demo_manifest =
     [(''schema'', PInt 1), (''repository'', PStr ''o/r''), (''version'', PStr ''1.0.0''), (''channel'', PStr ''rc''),
      (''tag'', PStr ''v1.0.0-rc.1''), (''source_sha'', PStr demo_sha), (''source_policy'', PDict demo_snapshot),
      (''workflow_path'', PStr WORKFLOW), (''run_id'', PInt 7), (''run_attempt'', PInt 1),
      (''assets'', PList [PDict [(''name'', PStr ''a.zip''), (''size'', PInt 4), (''sha256'', PStr (replicate 64 (CHR ''b'')))]])]"

definition demo_library :: library where
  "demo_library =
     \<lparr>cd_base64 = Inr, cd_sha1 = (\<lambda>_. demo_sha), cd_sha256 = (\<lambda>_. replicate 64 (CHR ''b'')),
      cd_parse = (\<lambda>s. Inr (PDict (if s = ''M'' then demo_manifest else demo_policy))),
      lb_json = (\<lambda>v. if v = PNone then ''null'' else ''{}''), lb_encode = (\<lambda>s. s), lb_zip = (\<lambda>_. Inr [(MANIFEST_NAME, 1, ''M'')]), lb_utf8 = Inr, lb_policy = no_digest\<rparr>"

definition demo_candidate_run :: "int \<Rightarrow> string \<Rightarrow> pydict" where
  "demo_candidate_run n status =
     [(''id'', PInt n), (''run_attempt'', PInt 1), (''status'', PStr status), (''head_sha'', PStr demo_sha), (''path'', PStr WORKFLOW),
      (''head_branch'', PStr ''main''), (''event'', PStr ''workflow_dispatch''),
      (''repository'', PDict demo_info), (''head_repository'', PDict demo_info)]"

definition demo_item :: "int \<Rightarrow> string \<Rightarrow> int \<Rightarrow> pyval" where
  "demo_item n name size' = PDict [(''id'', PInt n), (''name'', PStr name), (''state'', PStr ''uploaded''), (''size'', PInt size')]"

definition demo_answers :: "(string \<times> pyval) list" where
  "demo_answers =
     [('''', PDict demo_info), (''actions/runs/8'', PDict (demo_candidate_run 8 ''in_progress'')),
      (''actions/runs/7'', PDict ((''conclusion'', PStr ''success'') # demo_candidate_run 7 ''completed'')),
      (''environments/release'', PDict [(''name'', PStr ''release''), (''protection_rules'',
         PList [PDict [(''type'', PStr ''required_reviewers''), (''reviewers'', PList [PStr ''r''])]])]),
      (''git/ref/tags/v1.0.0-rc.1'', demo_ref ''refs/tags/v1.0.0-rc.1''),
      (''releases/tags/v1.0.0-rc.1'', PDict [(''id'', PInt 4), (''tag_name'', PStr ''v1.0.0-rc.1''), (''draft'', PBool False),
         (''prerelease'', PBool True), (''html_url'', PStr ''https://github.com/o/r/releases/4'')]),
      (''contents/.release-policy.json?ref='' @ demo_sha, PDict [(''type'', PStr ''file''), (''path'', PStr ''.release-policy.json''),
         (''encoding'', PStr ''base64''), (''content'', PStr ''P''), (''size'', PInt 1), (''sha'', PStr demo_sha)]),
      (''compare/'' @ demo_sha @ ''...main'', PDict [(''status'', PStr ''identical''),
         (''merge_base_commit'', PDict [(''sha'', PStr demo_sha)])])]"

definition demo_pages :: "(string \<times> pyval list) list" where
  "demo_pages =
     [(''releases/4/assets'', [demo_item 11 MANIFEST_NAME 1, demo_item 12 ''a.zip'' 4]),
      (''releases/5/assets'', [demo_item 22 ''a.zip'' 4, demo_item 21 MANIFEST_NAME 1]),
      (''actions/runs/7/attempts/1/jobs'', [PDict demo_gate]),
      (''actions/runs/7/artifacts'', [PDict [(''id'', PInt 31), (''name'', PStr ''release-evidence''),
         (''digest'', PStr (''sha256:'' @ replicate 64 (CHR ''b''))),
         (''workflow_run'', PDict [(''id'', PInt 7), (''head_sha'', PStr demo_sha)])]])]"

definition demo_stable :: world where
  "demo_stable h c =
     (case c of
        Tick \<Rightarrow> Instant 0
      | Api p \<Rightarrow>
          if p = ''git/ref/tags/v1.0.0'' \<and> list_ex is_write h then Value (demo_ref ''refs/tags/v1.0.0'')
          else (case map_of demo_answers p of None \<Rightarrow> Refused (HttpStatus 404) | Some v \<Rightarrow> Value v)
      | Pages p f \<Rightarrow>
          let vs = (case map_of demo_pages p of None \<Rightarrow> [] | Some vs \<Rightarrow> vs)
          in Value (PList [if f = [] then PList vs else PDict [(f, PList vs)]])
      | Binary p \<Rightarrow> Bytes (if p = ''releases/assets/11'' then ''M'' else ''Z'')
      | Fetch p \<Rightarrow> Bytes (if p = ''releases/assets/21'' then ''M'' else ''data'')
      | Add_ref d \<Rightarrow> Value PNone
      | Add_release d \<Rightarrow> Value (PDict (d @ [(''id'', PInt 5)]))
      | Send t n name content \<Rightarrow> Response (demo_raw False 201 (demo_item 22 name (int (length content))))
      | Edit_release n e \<Rightarrow> Value (PDict (e @ [(''tag_name'', PStr ''v1.0.0''), (''html_url'', PStr ''url'')]))
      | _ \<Rightarrow> Refused OtherError)"

definition demo_stable_surroundings :: surroundings where
  "demo_stable_surroundings =
     \<lparr>su_env = map_of
        [(''GITHUB_ACTIONS'', ''true''), (''GITHUB_REPOSITORY'', ''o/r''), (''GITHUB_RUN_ID'', ''8''), (''GITHUB_RUN_ATTEMPT'', ''1''),
         (''GITHUB_REF'', ''refs/heads/main''), (''GITHUB_WORKFLOW_REF'', ''o/r/'' @ WORKFLOW @ ''@refs/heads/main''),
         (''GITHUB_EVENT_NAME'', ''workflow_dispatch''), (''GITHUB_EVENT_PATH'', ''/event.json'')],
      su_head = Inr demo_sha,
      su_event = Inr (PDict [(''inputs'', PDict [(''channel'', PStr ''stable'')])])\<rparr>"

definition demo_promotion :: "(string \<times> pyval) res \<times> call list" where
  "demo_promotion =
     promote demo_hub_github demo_library (release_ledger demo_library) demo_stable_surroundings ''v1.0.0-rc.1'' ''8'' demo_stable []"

lemma demo_promotes:
  "(fst demo_promotion, list_ex is_write (snd demo_promotion)) = (Inr (''v1.0.0'', PStr ''url''), True)"
  by code_simp

lemma only_accepted_bytes_promoted_witness:
  "fst demo_promotion = Inr (''v1.0.0'', PStr ''url'') \<and>
     (\<exists>ac files. good_candidate demo_hub_github demo_library ''v1.0.0-rc.1'' demo_stable (snd demo_promotion) ac \<and>
        accepted_files demo_library ac files)"
proof -
  have run: "promote demo_hub_github demo_library (release_ledger demo_library) demo_stable_surroundings ''v1.0.0-rc.1'' ''8'' demo_stable [] =
      (fst demo_promotion, [] @ snd demo_promotion)" by (simp add: demo_promotion_def)
  from demo_promotes obtain c where "c \<in> set (snd demo_promotion)" "is_write c" by (auto simp: list_ex_iff)
  from only_accepted_bytes_promoted [OF run this] demo_promotes show ?thesis by auto
qed

end
