(* ===== verification/Spec2Isabelle.thy ===== *)
theory Spec2Isabelle
  imports App Evcc Control Display Change_Scope Release_Notes Workflow_Checks Prepare_Version Oci_Merge Promotion
begin

text \<open>
  Verification library of \<^verbatim>\<open>dbus-ev\<close>, the bridge that shows an electric vehicle on the D-Bus of a
  Victron Venus OS device. Its readings come from one of three sources, selected by configuration:
  Home Assistant (\<^verbatim>\<open>dbus_ev/ha_client.py\<close>), the Mercedes cloud (\<^verbatim>\<open>dbus_ev/mercedes/\<close>) or an evcc
  vehicle engine (\<^verbatim>\<open>dbus_ev/providers/evcc.py\<close>). The main loop takes a snapshot from the source,
  projects it onto the vehicle service (\<^verbatim>\<open>dbus_ev/service.py\<close>) and onto a charger service
  (\<^verbatim>\<open>dbus_ev/charger.py\<close>, \<^verbatim>\<open>dbus_ev/charger_service.py\<close>), and exchanges a local meter and telemetry
  over one MQTT session (\<^verbatim>\<open>dbus_ev/cerbo_mqtt.py\<close>). At the other end of that session a Home Assistant
  integration (\<^verbatim>\<open>ha/custom_components/mbapi2020\<close>) turns the published snapshots into entities.

  \<^bold>\<open>Values.\<close> \<open>Prelude\<close> has the exceptions as values, the result type with its bind and catch, Python
  dictionaries as association lists in insertion order and the contract of a freshness-bound cache.
  \<open>Py_Float\<close> has double precision values with the exact rounding of each operation, \<open>Py_Value\<close> the
  JSON-like values, strings, and the conversions the code uses (\<^verbatim>\<open>float\<close>, \<^verbatim>\<open>int\<close>, \<^verbatim>\<open>str\<close>, truth, equality).
  Times are rational numbers; every operation takes the clock readings it makes as arguments.

  \<^bold>\<open>Outputs.\<close> \<open>Dbus_Service\<close> and \<open>Charger\<close> model the two services as maps from paths to values with all
  their declared paths and updates; \<open>Cerbo_Mqtt\<close> the MQTT session with its meter cache, paced read
  requests and retained state topics; \<open>Control\<close> the valve controller.

  \<^bold>\<open>Sources.\<close> \<open>Vehicle\<close> is the shared normalisation, \<open>Ha_Client\<close> the Home Assistant client with its
  circuit breaker, \<open>Evcc\<close> the engine protocol and its pacing. For Mercedes: \<open>Store\<close> (the token file),
  \<open>Traffic\<close> (persisted request and login limits), \<open>Recovery\<close> (one bounded login), \<open>Vsu\<close> with
  \<open>Vsu_Enums\<close> (normalisation of newer status messages), \<open>Protocol\<close> (frames, replies, ordered merge),
  \<open>Car\<close> and \<open>Decoder\<close> (the attribute groups of a car, the same code as the Home Assistant integration
  under \<^verbatim>\<open>ha/custom_components/mbapi2020\<close>), \<open>Client\<close> (snapshot, cache, pacing). \<open>Worker\<close> is the poll thread.

  \<^bold>\<open>Application.\<close> \<open>Config\<close> is the settings table with its overrides and conversions, \<open>App\<close> the application:
  one cycle of the main loop, the acceptance of a sample, the feeding of all outputs, start and shutdown.
  Its runs are sequences of cycles and deliveries; the connection flag refines the specification that
  only the newest accepted sample counts.

  \<^bold>\<open>Home Assistant side.\<close> \<open>Coordinator\<close> models the configuration flow, the topics and the reception of
  snapshots, with the state a failing decoder leaves behind; \<open>Ingest\<close> shows which snapshots are sure to be
  taken. \<open>Entity_Tables\<close> holds the entity tables of \<^verbatim>\<open>const.py\<close>, \<open>Entities\<close> the reading, eligibility and
  state of sensors, binary sensors, window covers and the tracker, and the invariant that a car never
  holds an attribute the tables do not know; \<open>Display\<close> what is shown: the reading of the snapshot in force,
  each entity once. Two properties span the bridge: a snapshot the stream protocol produced passes the
  guards of the coordinator, and the sensor then shows that snapshot.

  \<^bold>\<open>Releases.\<close> \<open>Version_Plan\<close> models the version policies, identities, projections and frozen plans of
  \<^verbatim>\<open>scripts/version_plan.py\<close>. The files a plan owns are changed in place: \<open>Json_Text\<close> is the JSON reader with the
  place of every scalar, exact for a grammar of JSON texts; \<open>Version_Edit\<close> the edit of a JSON manifest;
  \<open>Version_Sync\<close> the TOML, Python, plist and text editors and the synchronisation of a whole tree.
  \<open>Prepare_Version\<close> is \<^verbatim>\<open>scripts/prepare_version.py\<close>: the base version of a tree, the choice of the next version
  from the tags, and the pull request that prepares it. \<open>Release_State\<close> is the reservation ledger of
  \<^verbatim>\<open>scripts/release_state.py\<close>. Release runs read the ledger and replace it by compare-and-swap in any order: an
  accepted write is a step from the committed ledger, so build numbers stay unique and publications never
  go back. \<open>Oci_Merge\<close> is \<^verbatim>\<open>scripts/merge_oci_archives.py\<close>: two checked container images become one archive that
  verifies itself. \<open>Change_Scope\<close> is the decision of \<^verbatim>\<open>scripts/change_scope.py\<close> to skip the heavy pipeline, equal to
  a specification over whole diffs. \<open>Release_Notes\<close> is the Markdown scanner of \<^verbatim>\<open>scripts/release_control.py\<close> that
  takes the notes of a release from the change log. \<open>Workflow_Graph\<close> is the walk over callable workflows of
  \<^verbatim>\<open>scripts/workflow_contracts.py\<close>, equal to reachability without cycles; \<open>Workflow_Checks\<close> its other contracts and
  the release gate of \<^verbatim>\<open>scripts/release_validation.py\<close>. \<open>Github_Calls\<close> is the client of \<^verbatim>\<open>scripts/release_control.py\<close>: a
  program over it is a function of the world, which answers each call by a function of the calls before
  it, so what is proved holds for any answers and any interleaving with other runs. \<open>Release_Runs\<close> are the
  checks of the repository, its policy and the runs that release it, with the wait for the executing run;
  \<open>Publication\<close> is the transaction that makes a release public, with the read-back after an ambiguous create;
  \<open>Promotion\<close> makes an accepted candidate the stable release, from its manifest and evidence to its publication.

  \<^bold>\<open>Concurrency and crashes.\<close> The two threads of \<open>Worker\<close> and the processes sharing a token file in \<open>Store\<close>
  are step relations whose invariants hold in every reachable state. A save is the sequence of disk
  states after each of its system calls, so a crash is any prefix of it. Runs of \<open>Traffic\<close>, \<open>Evcc\<close> and
  \<open>Cerbo_Mqtt\<close> are lists of events that include failures and restarts.

  \<^bold>\<open>Interfaces.\<close> \<open>freshness_cache\<close> (a cache whose live answers are young) is interpreted on the meter, the
  evcc client, the Mercedes client, the application and the Home Assistant coordinator; \<open>item_store\<close> on
  the D-Bus services; \<open>durable\<close> (what a restart reads is what was last written) on the token file and the
  limits file; \<open>guarded_store\<close> (writers that keep an invariant and only move forward) on the ledger;
  \<open>readback_confirmation\<close> (a check that only reads and counts its calls) on the confirmation of a create;
  \<open>ledger_steps\<close> (operations that touch neither tags nor releases) on the ledger as \<open>Promotion\<close> uses it.

  \<^bold>\<open>Parameters.\<close> The trigonometric functions, the HTTP date parser, the protobuf parser, the login, digests,
  Base64, ZIP, tar and compression, canonical JSON, \<^verbatim>\<open>json.loads\<close> in \<open>Release_State\<close> and \<open>Oci_Merge\<close>, the parsers \<^verbatim>\<open>tomllib\<close>, \<^verbatim>\<open>ast\<close> and \<^verbatim>\<open>plistlib\<close>
  with the Xcode project editor (the record \<open>libs\<close> of \<open>Version_Sync\<close>), and the answers of networks, brokers,
  engines, git and GitHub are arguments. No hypothesis is made about them beyond the ones a theorem states.

  \<^bold>\<open>Text.\<close> Python strings are lists of characters with code points below 256. The scanners and editors of
  \<open>Json_Text\<close>, \<open>Version_Edit\<close> and \<open>Version_Sync\<close> work on the UTF-8 bytes of a file instead, as lists of characters.

  \<^bold>\<open>Bounds.\<close> Recursions are over data or have a decreasing measure, except four. The JSON reader of \<open>Json_Text\<close>
  takes a bound on the nesting, the length of the text plus one, and its loops over members and elements a
  bound on their rounds, the length of the text: each value and each round consumes a character, and on
  every text of the grammar the reader is proved to succeed within these bounds. The scan of a line of a
  change log for comments jumps to recorded positions; that these are always ahead is a lemma of its own.
  The pages of a read-back are bounded by 101 rounds, which its budget of a hundred calls never reaches, and the
  wait for a run by 151 rounds, which its deadline never reaches while the clock runs.
  The walk over an image graph ends because the code limits its depth. 32-bit D-Bus integers, the 64 KiB
  reply limit and the rounding of doubles are written out.

  \<^bold>\<open>Not modelled.\<close> Transport code (\<^verbatim>\<open>aiohttp\<close>, \<^verbatim>\<open>requests\<close>, \<^verbatim>\<open>paho\<close>, TLS contexts), logging, the generated
  protobuf modules, the GCJ-02 conversion of the tracker, the entity tables of platforms the integration
  does not offer, and of \<^verbatim>\<open>scripts/\<close> the Xcode project editor, the readers of built packages and receipts, the
  framing of \<^verbatim>\<open>gh\<close> responses (calls are answered with parsed values), and the orchestration of git, registries and
  the rebuild of final releases through subprocesses.
\<close>

end
